(* ===== verification/Rust_Prelude.thy ===== *)
theory Rust_Prelude
  imports Main "HOL-Library.Word"
begin

text \<open>
  Shared vocabulary of the development: the Rust types the sources use and the
  parts of the standard library they call.

  \<^item> Fixed-width integers are words (\<open>u8\<close>, \<open>u16\<close>, \<open>u32\<close>, \<open>u64\<close>); an \<open>i32\<close> is
    the same 32-bit word read by \<open>sint\<close>. A \<open>usize\<close> is a natural number, with the
    64-bit limit \<open>usize_max\<close> written out where the code saturates.
  \<^item> \<open>Result\<close> is a sum, \<open>Inl\<close> the error and \<open>Inr\<close> the value.
  \<^item> \<open>Instant\<close> and \<open>Duration\<close> are numbers of nanoseconds; truncated subtraction on
    \<open>nat\<close> is exactly \<open>saturating_duration_since\<close> and \<open>saturating_sub\<close>.
  \<^item> A \<open>&mut self\<close> method takes the state and returns it beside its result, so that
    what an early return leaves behind is visible.
\<close>

unbundle bit_operations_syntax

section \<open>Types\<close>

type_synonym u8 = "8 word"
type_synonym u16 = "16 word"
type_synonym u32 = "32 word"
type_synonym u64 = "64 word"
type_synonym i32 = "32 word"
type_synonym usize = nat
type_synonym instant = nat
type_synonym duration = nat
type_synonym bytes = "u8 list"

section \<open>Collections of facts\<close>

named_theorems wire_simps \<open>reading a field back from the bytes it was written to\<close>
named_theorems sat_simps \<open>saturating and checked arithmetic in terms of naturals\<close>
named_theorems enum_simps \<open>numeric codes of the protocol's enumerations\<close>

section \<open>Durations\<close>

definition from_millis :: "nat \<Rightarrow> duration" where
  "from_millis n = n * 1000000"

definition from_secs :: "nat \<Rightarrow> duration" where
  "from_secs n = n * 1000000000"

definition as_millis :: "duration \<Rightarrow> nat" where
  "as_millis d = d div 1000000"

definition as_micros :: "duration \<Rightarrow> nat" where
  "as_micros d = d div 1000"

definition saturating_duration_since :: "instant \<Rightarrow> instant \<Rightarrow> duration" where
  "saturating_duration_since now earlier = now - earlier"

lemma as_millis_from_millis [simp]: "as_millis (from_millis n) = n"
  by (simp add: as_millis_def from_millis_def)

lemma saturating_duration_since_refl [simp]: "saturating_duration_since t t = 0"
  by (simp add: saturating_duration_since_def)

section \<open>Checked and saturating arithmetic\<close>

definition usize_max :: usize where
  "usize_max = 2 ^ 64 - 1"

definition usize_sat_add :: "usize \<Rightarrow> usize \<Rightarrow> usize" where
  "usize_sat_add a b = min (a + b) usize_max"

definition checked_add :: "'a::len word \<Rightarrow> 'a word \<Rightarrow> 'a word option" where
  "checked_add x y = (if unat x + unat y < 2 ^ LENGTH('a) then Some (x + y) else None)"

definition sat_add :: "'a::len word \<Rightarrow> 'a word \<Rightarrow> 'a word" where
  "sat_add x y = (if unat x + unat y < 2 ^ LENGTH('a) then x + y else - 1)"

definition sat_mul :: "'a::len word \<Rightarrow> 'a word \<Rightarrow> 'a word" where
  "sat_mul x y = (if unat x * unat y < 2 ^ LENGTH('a) then x * y else - 1)"

definition sat_sub :: "'a::len word \<Rightarrow> 'a word \<Rightarrow> 'a word" where
  "sat_sub x y = (if y \<le> x then x - y else 0)"

text \<open>\<open>u32::try_from(n).unwrap_or(u32::MAX)\<close> and its 64-bit twin.\<close>

definition word_of_usize_sat :: "usize \<Rightarrow> 'a::len word" where
  "word_of_usize_sat n = (if n < 2 ^ LENGTH('a) then of_nat n else - 1)"

text \<open>\<open>uN::try_from(n)\<close> on a \<open>usize\<close>.\<close>

definition word_try_from :: "usize \<Rightarrow> 'a::len word option" where
  "word_try_from n = (if n < 2 ^ LENGTH('a) then Some (of_nat n) else None)"

lemma unat_word_bound: "unat (x :: 'a::len word) < 2 ^ LENGTH('a)"
  by (rule unsigned_less)

lemma unat_add_exact: "unat x + unat y < 2 ^ LENGTH('a) \<Longrightarrow>
    unat (x + y :: 'a::len word) = unat x + unat y"
  by (simp add: unat_word_ariths)

lemma unat_minus_one_max: "unat (- 1 :: 'a::len word) = 2 ^ LENGTH('a) - 1"
  by (simp add: unsigned_minus_1_eq_mask mask_eq_exp_minus_1)

lemma unat_sat_add [sat_simps]:
  "unat (sat_add x y :: 'a::len word) = min (unat x + unat y) (2 ^ LENGTH('a) - 1)"
  by (auto simp: sat_add_def unat_add_exact unat_minus_one_max min_def)

lemma unat_sat_mul [sat_simps]:
  "unat (sat_mul x y :: 'a::len word) = min (unat x * unat y) (2 ^ LENGTH('a) - 1)"
proof (cases "unat x * unat y < 2 ^ LENGTH('a)")
  case True
  then have "unat x * unat y \<le> 2 ^ LENGTH('a) - 1" by linarith
  with True show ?thesis by (simp add: sat_mul_def unat_word_ariths min_def)
next
  case False
  then have "2 ^ LENGTH('a) - 1 \<le> unat x * unat y" by linarith
  with False show ?thesis by (simp add: sat_mul_def unat_minus_one_max min_def)
qed

lemma checked_add_eq_Some [sat_simps]:
  "checked_add x y = Some z \<longleftrightarrow>
     unat x + unat y < 2 ^ LENGTH('a) \<and> z = (x + y :: 'a::len word)"
  by (auto simp: checked_add_def)

lemma checked_add_None [sat_simps]:
  "checked_add x y = None \<longleftrightarrow> 2 ^ LENGTH('a) \<le> unat x + unat (y :: 'a::len word)"
  by (auto simp: checked_add_def)

lemma checked_add_one_less: "checked_add x 1 = Some y \<Longrightarrow> x < (y :: 'a::len word)"
  by (auto simp: checked_add_def word_less_nat_alt unat_add_exact split: if_splits)

lemma checked_add_one_Some: "x \<noteq> - 1 \<Longrightarrow> checked_add x 1 = Some (x + 1 :: 'a::len word)"
proof -
  assume "x \<noteq> - 1"
  then have "unat x \<noteq> 2 ^ LENGTH('a) - 1" by (metis unat_minus_one_max word_unat_eq_iff)
  with unat_word_bound [of x] have "unat x + 1 < 2 ^ LENGTH('a)" by linarith
  then show ?thesis by (simp add: checked_add_def)
qed

lemma sat_add_ge: "x \<le> sat_add x (y :: 'a::len word)"
proof -
  have "unat x \<le> 2 ^ LENGTH('a) - 1" using unat_word_bound [of x] by linarith
  then show ?thesis by (simp add: word_le_nat_alt unat_sat_add)
qed

lemma word_try_from_eq_Some:
  "word_try_from n = Some w \<longleftrightarrow> n < 2 ^ LENGTH('a) \<and> w = (of_nat n :: 'a::len word)"
  by (auto simp: word_try_from_def)

lemma unat_of_nat_exact: "n < 2 ^ LENGTH('a) \<Longrightarrow> unat (of_nat n :: 'a::len word) = n"
  by (simp add: unat_of_nat)

section \<open>Results\<close>

text \<open>\<open>map_err\<close> and the conversion the question mark operator makes.\<close>

fun map_err :: "('e \<Rightarrow> 'f) \<Rightarrow> 'e + 'a \<Rightarrow> 'f + 'a" where
  "map_err f (Inl e) = Inl (f e)"
| "map_err f (Inr x) = Inr x"

text \<open>\<open>ok_or\<close>.\<close>

definition ok_or :: "'a option \<Rightarrow> 'e \<Rightarrow> 'e + 'a" where
  "ok_or x e = (case x of None \<Rightarrow> Inl e | Some y \<Rightarrow> Inr y)"

lemma map_err_eq_Inr [simp]: "map_err f r = Inr x \<longleftrightarrow> r = Inr x"
  by (cases r) auto

lemma map_err_eq_Inl: "map_err f r = Inl e \<longleftrightarrow> (\<exists>d. r = Inl d \<and> e = f d)"
  by (cases r) auto

lemma ok_or_eq_Inr [simp]: "ok_or x e = Inr y \<longleftrightarrow> x = Some y"
  by (auto simp: ok_or_def split: option.splits)

text \<open>\<open>collect::<Result<Vec<_>, _>>\<close> and the loops that push each converted element
  and return at the first error.\<close>

fun map_result :: "('a \<Rightarrow> 'e + 'b) \<Rightarrow> 'a list \<Rightarrow> 'e + 'b list" where
  "map_result f [] = Inr []"
| "map_result f (x # xs) =
     (case f x of Inl e \<Rightarrow> Inl e
      | Inr y \<Rightarrow> (case map_result f xs of Inl e \<Rightarrow> Inl e | Inr ys \<Rightarrow> Inr (y # ys)))"

lemma map_result_length: "map_result f xs = Inr ys \<Longrightarrow> length ys = length xs"
  by (induction xs arbitrary: ys) (auto split: sum.splits)

lemma map_result_inverse:
  assumes "\<And>x y. f x = Inr y \<Longrightarrow> g y = x"
  shows "map_result f xs = Inr ys \<Longrightarrow> map g ys = xs"
  by (induction xs arbitrary: ys) (auto split: sum.splits dest: assms)

lemma map_result_map:
  assumes "\<And>y. f (g y) = Inr y"
  shows "map_result f (map g ys) = Inr ys"
  by (induction ys) (auto simp: assms)

lemma find_mem: "List.find P xs = Some x \<Longrightarrow> x \<in> set xs \<and> P x"
  by (auto simp: find_Some_iff)

section \<open>Slices\<close>

text \<open>\<open>slice::chunks\<close>.\<close>

function chunks :: "nat \<Rightarrow> 'a list \<Rightarrow> 'a list list" where
  "chunks n xs = (if n = 0 \<or> xs = [] then [] else take n xs # chunks n (drop n xs))"
  by pat_completeness auto
termination
  by (relation "measure (\<lambda>(n, xs). length xs)") auto

declare chunks.simps [simp del]

lemma chunks_Nil [simp]: "chunks n [] = []"
  by (simp add: chunks.simps)

lemma chunks_step: "0 < n \<Longrightarrow> xs \<noteq> [] \<Longrightarrow> chunks n xs = take n xs # chunks n (drop n xs)"
  by (subst chunks.simps) simp

lemma concat_chunks: "0 < n \<Longrightarrow> concat (chunks n xs) = xs"
proof (induction n xs rule: chunks.induct)
  case (1 n xs)
  then show ?case by (cases "xs = []") (simp_all add: chunks_step)
qed

section \<open>Step machines\<close>

text \<open>
  A component with state is a step function over its events. One lemma carries every
  invariant along a run, whatever the component.
\<close>

locale step_invariant =
  fixes step :: "'s \<Rightarrow> 'e \<Rightarrow> 's"
    and inv :: "'s \<Rightarrow> bool"
  assumes step_preserves: "inv s \<Longrightarrow> inv (step s e)"
begin

lemma run_preserves: "inv s \<Longrightarrow> inv (foldl step s es)"
  by (induction es arbitrary: s) (auto intro: step_preserves)

lemma run_append_preserves: "inv s \<Longrightarrow> inv (foldl step (foldl step s es) es')"
  by (intro run_preserves)

end

section \<open>Sequence guards\<close>

text \<open>
  Several components keep the last sequence number they accepted or handed out and let only
  a larger one through. The contract: the record never decreases, and an accepted number is
  larger than the record before and covered by the record after. Then a run can never accept
  the same number twice, however the network reorders or replays messages. \<open>allowed\<close> is what
  is asked of the messages, \<open>inv\<close> what is known of the state.
\<close>

fun accepted_run :: "('s \<Rightarrow> 'm \<Rightarrow> 's \<times> 'n option) \<Rightarrow> 's \<Rightarrow> 'm list \<Rightarrow> 'n list" where
  "accepted_run step s [] = []"
| "accepted_run step s (m # ms) =
     (case step s m of (s', r) \<Rightarrow>
        (case r of None \<Rightarrow> [] | Some n \<Rightarrow> [n]) @ accepted_run step s' ms)"

locale sequence_guard =
  fixes inv :: "'s \<Rightarrow> bool"
    and allowed :: "'m \<Rightarrow> bool"
    and last :: "'s \<Rightarrow> 'n::linorder"
    and step :: "'s \<Rightarrow> 'm \<Rightarrow> 's \<times> 'n option"
  assumes keeps: "inv s \<Longrightarrow> allowed m \<Longrightarrow> step s m = (s', r) \<Longrightarrow> inv s' \<and> last s \<le> last s'"
    and accept_increases: "inv s \<Longrightarrow> allowed m \<Longrightarrow> step s m = (s', Some n) \<Longrightarrow>
          last s < n \<and> n \<le> last s'"
begin

lemma accepted_above:
  "inv s \<Longrightarrow> \<forall>m \<in> set ms. allowed m \<Longrightarrow> n \<in> set (accepted_run step s ms) \<Longrightarrow> last s < n"
proof (induction ms arbitrary: s)
  case Nil
  then show ?case by simp
next
  case (Cons m ms)
  obtain s' r where st: "step s m = (s', r)" by (cases "step s m")
  with Cons.prems keeps have s': "inv s'" "last s \<le> last s'" by auto
  show ?case
  proof (cases "n \<in> set (accepted_run step s' ms)")
    case True
    with Cons.IH [OF s'(1)] Cons.prems s'(2) show ?thesis by auto
  next
    case False
    with Cons.prems st have "r = Some n" by (auto split: option.splits)
    with Cons.prems st accept_increases show ?thesis by auto
  qed
qed

lemma accepted_strictly_increasing:
  "inv s \<Longrightarrow> \<forall>m \<in> set ms. allowed m \<Longrightarrow> sorted_wrt (<) (accepted_run step s ms)"
proof (induction ms arbitrary: s)
  case Nil
  then show ?case by simp
next
  case (Cons m ms)
  obtain s' r where st: "step s m = (s', r)" by (cases "step s m")
  with Cons.prems keeps have s': "inv s'" by auto
  show ?case
  proof (cases r)
    case None
    with Cons.IH [OF s'] Cons.prems st show ?thesis by simp
  next
    case (Some k)
    with st Cons.prems accept_increases have k: "k \<le> last s'" by auto
    have "k < n" if "n \<in> set (accepted_run step s' ms)" for n
      using accepted_above [OF s' _ that] Cons.prems k by auto
    with Some Cons.IH [OF s'] Cons.prems st show ?thesis by auto
  qed
qed

lemma accepted_distinct:
  "inv s \<Longrightarrow> \<forall>m \<in> set ms. allowed m \<Longrightarrow> distinct (accepted_run step s ms)"
  using accepted_strictly_increasing strict_sorted_iff by blast

end

end
