(* ===== verification/Wire_Format.thy ===== *)
theory Wire_Format
  imports Rust_Prelude
begin

text \<open>
  Byte-level layout shared by every message: big-endian integers
  (\<open>to_be_bytes\<close> / \<open>from_be_bytes\<close>), the \<open>read_u16\<close>, \<open>read_u32\<close> and \<open>read_u64\<close>
  helpers of the sources, and the two interfaces the codecs implement:
  \<^item> \<open>enum_code\<close>: an enumeration with its numeric code and the \<open>TryFrom\<close> back;
  \<^item> \<open>wire_roundtrip\<close> and \<open>wire_codec\<close>: an encoder and a decoder where decoding what
    was encoded gives the value back, and, for the second, where every accepted
    byte string is the encoding of its value (no malleability).
  Every read of the sources is dominated by a length check, so \<open>xs ! i\<close> is never
  evaluated out of range where the code would panic.
\<close>

section \<open>Big-endian digits\<close>

primrec nat_be :: "nat \<Rightarrow> nat \<Rightarrow> bytes" where
  "nat_be 0 x = []"
| "nat_be (Suc n) x = nat_be n (x div 256) @ [of_nat x]"

definition be_nat :: "bytes \<Rightarrow> nat" where
  "be_nat bs = foldl (\<lambda>acc b. 256 * acc + unat b) 0 bs"

lemma length_nat_be [simp]: "length (nat_be n x) = n"
  by (induction n arbitrary: x) auto

lemma u8_bound: "unat (b :: u8) < 256"
  using unat_word_bound [of b] by simp

lemma be_nat_snoc: "be_nat (bs @ [b]) = 256 * be_nat bs + unat b"
  by (simp add: be_nat_def)

lemma be_nat_nat_be: "be_nat (nat_be n x) = x mod 256 ^ n"
proof (induction n arbitrary: x)
  case 0
  then show ?case by (simp add: be_nat_def)
next
  case (Suc n)
  have "unat (of_nat x :: u8) = x mod 256" by (simp add: unat_of_nat)
  then show ?case by (simp add: be_nat_snoc Suc mod_mult2_eq)
qed

lemma be_nat_bound: "be_nat bs < 256 ^ length bs"
proof (induction bs rule: rev_induct)
  case Nil
  then show ?case by (simp add: be_nat_def)
next
  case (snoc b bs)
  with u8_bound [of b] show ?case by (simp add: be_nat_snoc)
qed

lemma nat_be_be_nat: "nat_be (length bs) (be_nat bs) = bs"
proof (induction bs rule: rev_induct)
  case Nil
  then show ?case by simp
next
  case (snoc b bs)
  from u8_bound [of b] have "(256 * be_nat bs + unat b) div 256 = be_nat bs" by simp
  moreover have "(of_nat (256 * be_nat bs + unat b) :: u8) = b"
  proof -
    have "(of_nat (256 * be_nat bs) :: u8) = (256 :: u8) * of_nat (be_nat bs)" by simp
    also have "(256 :: u8) = 0" by simp
    finally show ?thesis by (simp only: of_nat_add mult_zero_left add_0) simp
  qed
  ultimately show ?case by (simp add: be_nat_snoc snoc)
qed

section \<open>Integers of the wire format\<close>

definition u16_be :: "u16 \<Rightarrow> bytes" where
  "u16_be w = nat_be 2 (unat w)"

definition u32_be :: "u32 \<Rightarrow> bytes" where
  "u32_be w = nat_be 4 (unat w)"

definition u64_be :: "u64 \<Rightarrow> bytes" where
  "u64_be w = nat_be 8 (unat w)"

definition read_u16 :: "bytes \<Rightarrow> usize \<Rightarrow> u16" where
  "read_u16 input offset = of_nat (be_nat [input ! offset, input ! (offset + 1)])"

definition read_u32 :: "bytes \<Rightarrow> usize \<Rightarrow> u32" where
  "read_u32 input offset =
     of_nat (be_nat [input ! offset, input ! (offset + 1), input ! (offset + 2),
                     input ! (offset + 3)])"

definition read_u64 :: "bytes \<Rightarrow> usize \<Rightarrow> u64" where
  "read_u64 input offset =
     of_nat (be_nat [input ! offset, input ! (offset + 1), input ! (offset + 2),
                     input ! (offset + 3), input ! (offset + 4), input ! (offset + 5),
                     input ! (offset + 6), input ! (offset + 7)])"

text \<open>\<open>input[from..to]\<close>.\<close>

definition byte_slice :: "bytes \<Rightarrow> usize \<Rightarrow> usize \<Rightarrow> bytes" where
  "byte_slice input from until = take (until - from) (drop from input)"

text \<open>\<open>payload[at..at + n].copy_from_slice\<close>.\<close>

definition copy_at :: "usize \<Rightarrow> bytes \<Rightarrow> bytes \<Rightarrow> bytes" where
  "copy_at at src payload = take at payload @ src @ drop (at + length src) payload"

lemma length_u16_be [simp]: "length (u16_be w) = 2"
  by (simp add: u16_be_def)

lemma length_u32_be [simp]: "length (u32_be w) = 4"
  by (simp add: u32_be_def)

lemma length_u64_be [simp]: "length (u64_be w) = 8"
  by (simp add: u64_be_def)

lemma nat_be_zero: "nat_be n 0 = replicate n 0"
  by (induction n) (simp_all add: replicate_append_same)

lemma u32_be_zero: "u32_be 0 = [0, 0, 0, 0]"
  by (simp add: u32_be_def nat_be_zero numeral_eq_Suc)

lemma u16_be_zero: "u16_be 0 = [0, 0]"
  by (simp add: u16_be_def nat_be_zero numeral_eq_Suc)

lemma take_drop_2: "i + 2 \<le> length xs \<Longrightarrow> take 2 (drop i xs) = [xs ! i, xs ! (i + 1)]"
  by (rule nth_equalityI) (auto simp: less_Suc_eq numeral_2_eq_2)

lemma take_drop_4: "i + 4 \<le> length xs \<Longrightarrow>
    take 4 (drop i xs) = [xs ! i, xs ! (i + 1), xs ! (i + 2), xs ! (i + 3)]"
  by (rule nth_equalityI) (auto simp: less_Suc_eq numeral_eq_Suc)

lemma take_drop_8: "i + 8 \<le> length xs \<Longrightarrow>
    take 8 (drop i xs) = [xs ! i, xs ! (i + 1), xs ! (i + 2), xs ! (i + 3),
                          xs ! (i + 4), xs ! (i + 5), xs ! (i + 6), xs ! (i + 7)]"
  by (rule nth_equalityI) (auto simp: less_Suc_eq numeral_eq_Suc)

lemma len_numerals_16: "LENGTH(16) = 8 * 2"
  by simp

lemma len_numerals_32: "LENGTH(32) = 8 * 4"
  by simp

lemma len_numerals_64: "LENGTH(64) = 8 * 8"
  by simp

lemma be_word_roundtrip:
  "LENGTH('a::len) = 8 * n \<Longrightarrow> of_nat (be_nat (nat_be n (unat w))) = (w :: 'a word)"
  using unat_word_bound [of w] by (simp add: be_nat_nat_be power_mult)

lemma be_bytes_roundtrip:
  assumes "length bs = n" and "LENGTH('a::len) = 8 * n"
  shows "nat_be n (unat (of_nat (be_nat bs) :: 'a word)) = bs"
proof -
  have "be_nat bs < 2 ^ LENGTH('a)"
    using be_nat_bound [of bs] assms by (simp add: power_mult)
  then have "unat (of_nat (be_nat bs) :: 'a word) = be_nat bs"
    by (rule unat_of_nat_exact)
  then show ?thesis using nat_be_be_nat [of bs] assms by simp
qed

subsection \<open>Reading what was written\<close>

lemma read_u16_slice: "i + 2 \<le> length xs \<Longrightarrow> u16_be (read_u16 xs i) = take 2 (drop i xs)"
  by (simp only: read_u16_def u16_be_def take_drop_2) (rule be_bytes_roundtrip; simp)

lemma read_u32_slice: "i + 4 \<le> length xs \<Longrightarrow> u32_be (read_u32 xs i) = take 4 (drop i xs)"
  by (simp only: read_u32_def u32_be_def take_drop_4) (rule be_bytes_roundtrip; simp)

lemma read_u64_slice: "i + 8 \<le> length xs \<Longrightarrow> u64_be (read_u64 xs i) = take 8 (drop i xs)"
  by (simp only: read_u64_def u64_be_def take_drop_8) (rule be_bytes_roundtrip; simp)

lemma u16_be_inject [simp]: "u16_be v = u16_be w \<longleftrightarrow> v = w"
  unfolding u16_be_def by (metis be_word_roundtrip [of 2, where 'a = 16] len_numerals_16)

lemma u32_be_inject [simp]: "u32_be v = u32_be w \<longleftrightarrow> v = w"
  unfolding u32_be_def by (metis be_word_roundtrip [of 4, where 'a = 32] len_numerals_32)

lemma u64_be_inject [simp]: "u64_be v = u64_be w \<longleftrightarrow> v = w"
  unfolding u64_be_def by (metis be_word_roundtrip [of 8, where 'a = 64] len_numerals_64)

lemma read_u16_hit [wire_simps]: "read_u16 (u16_be w @ ys) 0 = w"
  using read_u16_slice [of 0 "u16_be w @ ys"] by simp

lemma read_u32_hit [wire_simps]: "read_u32 (u32_be w @ ys) 0 = w"
  using read_u32_slice [of 0 "u32_be w @ ys"] by simp

lemma read_u64_hit [wire_simps]: "read_u64 (u64_be w @ ys) 0 = w"
  using read_u64_slice [of 0 "u64_be w @ ys"] by simp

lemma read_u16_hit_end [wire_simps]: "read_u16 (u16_be w) 0 = w"
  using read_u16_hit [of w "[]"] by simp

lemma read_u32_hit_end [wire_simps]: "read_u32 (u32_be w) 0 = w"
  using read_u32_hit [of w "[]"] by simp

lemma read_u64_hit_end [wire_simps]: "read_u64 (u64_be w) 0 = w"
  using read_u64_hit [of w "[]"] by simp

lemma read_u16_skip [wire_simps]:
  "length xs \<le> i \<Longrightarrow> read_u16 (xs @ ys) i = read_u16 ys (i - length xs)"
  by (simp add: read_u16_def nth_append Suc_diff_le)

lemma read_u32_skip [wire_simps]:
  "length xs \<le> i \<Longrightarrow> read_u32 (xs @ ys) i = read_u32 ys (i - length xs)"
  by (simp add: read_u32_def nth_append Suc_diff_le)

lemma read_u64_skip [wire_simps]:
  "length xs \<le> i \<Longrightarrow> read_u64 (xs @ ys) i = read_u64 ys (i - length xs)"
  by (simp add: read_u64_def nth_append Suc_diff_le)

lemma read_u16_skip_Cons [wire_simps]:
  "0 < i \<Longrightarrow> read_u16 (x # ys) i = read_u16 ys (i - 1)"
  using read_u16_skip [of "[x]" i ys] by simp

lemma read_u32_skip_Cons [wire_simps]:
  "0 < i \<Longrightarrow> read_u32 (x # ys) i = read_u32 ys (i - 1)"
  using read_u32_skip [of "[x]" i ys] by simp

lemma read_u64_skip_Cons [wire_simps]:
  "0 < i \<Longrightarrow> read_u64 (x # ys) i = read_u64 ys (i - 1)"
  using read_u64_skip [of "[x]" i ys] by simp

lemma nth_skip [wire_simps]: "length xs \<le> i \<Longrightarrow> (xs @ ys) ! i = ys ! (i - length xs)"
  by (simp add: nth_append)

lemma slice_skip [wire_simps]:
  "length xs \<le> i \<Longrightarrow> byte_slice (xs @ ys) i j = byte_slice ys (i - length xs) (j - length xs)"
  by (simp add: byte_slice_def)

lemma slice_skip_Cons [wire_simps]:
  "0 < i \<Longrightarrow> byte_slice (x # ys) i j = byte_slice ys (i - 1) (j - 1)"
  using slice_skip [of "[x]" i ys j] by simp

lemma slice_hit [wire_simps]: "length xs = j \<Longrightarrow> byte_slice (xs @ ys) 0 j = xs"
  by (simp add: byte_slice_def)

lemma drop_skip [wire_simps]: "length xs \<le> i \<Longrightarrow> drop i (xs @ ys) = drop (i - length xs) ys"
  by simp

lemma drop_skip_Cons [wire_simps]: "0 < i \<Longrightarrow> drop i (x # ys) = drop (i - 1) ys"
  by (cases i) simp_all

subsection \<open>Cutting a packet into its fields\<close>

text \<open>
  \<open>cut\<close> lemmas: a packet is its next field followed by the rest. Canonicity proofs
  rewrite the received bytes into the concatenation the encoder would produce.
\<close>

lemma cut_field: "drop i xs = take n (drop i xs) @ drop (i + n) xs"
  by (metis add.commute append_take_drop_id drop_drop)

lemma cut_u16: "i + 2 \<le> length xs \<Longrightarrow> drop i xs = u16_be (read_u16 xs i) @ drop (i + 2) xs"
  by (simp only: read_u16_slice) (rule cut_field)

lemma cut_u32: "i + 4 \<le> length xs \<Longrightarrow> drop i xs = u32_be (read_u32 xs i) @ drop (i + 4) xs"
  by (simp only: read_u32_slice) (rule cut_field)

lemma cut_u64: "i + 8 \<le> length xs \<Longrightarrow> drop i xs = u64_be (read_u64 xs i) @ drop (i + 8) xs"
  by (simp only: read_u64_slice) (rule cut_field)

lemma cut_u8: "i < length xs \<Longrightarrow> drop i xs = xs ! i # drop (i + 1) xs"
  by (simp add: Cons_nth_drop_Suc)

lemma cut_slice: "i \<le> j \<Longrightarrow> drop i xs = byte_slice xs i j @ drop j xs"
  using cut_field [of i xs "j - i"] by (simp add: byte_slice_def)

lemma cut_head_2: "2 \<le> length xs \<Longrightarrow> xs = [xs ! 0, xs ! 1] @ drop 2 xs"
  by (cases xs; cases "tl xs") (auto simp: numeral_2_eq_2)

lemma length_slice: "j \<le> length xs \<Longrightarrow> i \<le> j \<Longrightarrow> length (byte_slice xs i j) = j - i"
  by (simp add: byte_slice_def)

section \<open>Enumerations with a numeric code\<close>

locale enum_code =
  fixes code :: "'a \<Rightarrow> 'w"
    and try_from :: "'w \<Rightarrow> 'e + 'a"
  assumes try_from_code: "try_from (code x) = Inr x"
    and try_from_sound: "try_from w = Inr x \<Longrightarrow> code x = w"
begin

lemma try_from_iff: "try_from w = Inr x \<longleftrightarrow> code x = w"
  using try_from_code try_from_sound by auto

lemma code_inject: "code x = code y \<longleftrightarrow> x = y"
  by (metis Inr_inject try_from_code)

lemma try_from_rejects: "(\<exists>e. try_from w = Inl e) \<longleftrightarrow> w \<notin> range code"
  by (metis obj_sumE rangeE rangeI sum.distinct(1) try_from_code try_from_sound)

end

section \<open>Codecs\<close>

text \<open>
  \<open>ok\<close> is what the source's types guarantee of a value (the length of a byte array) and,
  for an encoder that does not check, what its caller must. \<open>wire_roundtrip\<close> is what a
  receiver relies on; \<open>wire_codec\<close> adds that the decoder accepts nothing else, so that
  two different byte strings never mean the same message.
\<close>

locale wire_roundtrip =
  fixes ok :: "'a \<Rightarrow> bool"
    and enc :: "'a \<Rightarrow> 'e + bytes"
    and dec :: "bytes \<Rightarrow> 'f + 'a"
  assumes dec_enc: "ok x \<Longrightarrow> enc x = Inr bs \<Longrightarrow> dec bs = Inr x"
begin

lemma enc_inject: "ok x \<Longrightarrow> ok y \<Longrightarrow> enc x = Inr bs \<Longrightarrow> enc y = Inr bs \<Longrightarrow> x = y"
  by (drule (1) dec_enc)+ simp

end

locale wire_codec = wire_roundtrip +
  assumes enc_dec: "dec bs = Inr x \<Longrightarrow> ok x \<and> enc x = Inr bs"
begin

lemma dec_iff: "dec bs = Inr x \<longleftrightarrow> ok x \<and> enc x = Inr bs"
  using dec_enc enc_dec by blast

lemma dec_inject: "dec bs = Inr x \<Longrightarrow> dec bs' = Inr x \<Longrightarrow> bs = bs'"
  by (drule enc_dec)+ simp

end

end
