(* ===== verification/Protocol.thy ===== *)
theory Protocol
  imports Wire_Format
begin

text \<open>
  The framed message format of the QUIC transport (\<open>src/transport/protocol.rs\<close>): the
  channels and message types with their codes and limits, the 48-byte header, its
  validation, and \<open>encode_message\<close> / \<open>decode_message\<close>. The codec is shown to be exact:
  a packet is accepted if and only if it is the encoding of the message it decodes to.
\<close>

section \<open>Constants\<close>

definition MAGIC :: u32 where "MAGIC = 0x52415131"
definition PROTOCOL_VERSION :: u16 where "PROTOCOL_VERSION = 1"
definition HEADER_LEN :: usize where "HEADER_LEN = 48"
definition FLAG_ACK_REQUIRED :: u16 where "FLAG_ACK_REQUIRED = push_bit 0 1"
definition FLAG_RESPONSE :: u16 where "FLAG_RESPONSE = push_bit 1 1"
definition KNOWN_FLAGS :: u16 where "KNOWN_FLAGS = FLAG_ACK_REQUIRED OR FLAG_RESPONSE"

type_synonym session_id = bytes

section \<open>Channels and message types\<close>

datatype channel_id =
    Ch_Control | Ch_ReliableInput | Ch_Clipboard | Ch_FileTransfer | Ch_Diagnostics
  | Ch_ReliableVideo | Ch_VideoDatagram | Ch_AudioDatagram | Ch_MouseDatagram

datatype message_type =
    ClientHello | ServerHello | Ping | Pong | ErrorMessage | KeyframeRequest | SessionClose
  | SessionOfferMessage | SessionAccept | ApplicationControl | ApplicationRaw
  | VideoOrdering | VideoOrderingAck | ReliableInput | ClipboardMessage | FileMetadata
  | FileChunkMessage | FileCancel | Diagnostics | ReliableVideoFrame | VideoFragment
  | AudioPacketMessage | MouseMovementMessage

datatype protocol_error =
    HeaderTruncated
  | InvalidMagic u32
  | UnsupportedVersion u16
  | UnknownMessageType u16
  | UnknownChannel u8
  | UnknownFlags u16
  | ReservedByte
  | ChannelMismatch message_type channel_id
  | ZeroSessionId
  | ZeroSequence
  | PayloadTooLarge usize
  | LengthMismatch

fun channel_code :: "channel_id \<Rightarrow> u8" where
  "channel_code Ch_Control = 1"
| "channel_code Ch_ReliableInput = 2"
| "channel_code Ch_Clipboard = 3"
| "channel_code Ch_FileTransfer = 4"
| "channel_code Ch_Diagnostics = 5"
| "channel_code Ch_ReliableVideo = 6"
| "channel_code Ch_VideoDatagram = 16"
| "channel_code Ch_AudioDatagram = 17"
| "channel_code Ch_MouseDatagram = 18"

definition channel_try_from :: "u8 \<Rightarrow> protocol_error + channel_id" where
  "channel_try_from v =
     (if v = 1 then Inr Ch_Control
      else if v = 2 then Inr Ch_ReliableInput
      else if v = 3 then Inr Ch_Clipboard
      else if v = 4 then Inr Ch_FileTransfer
      else if v = 5 then Inr Ch_Diagnostics
      else if v = 6 then Inr Ch_ReliableVideo
      else if v = 16 then Inr Ch_VideoDatagram
      else if v = 17 then Inr Ch_AudioDatagram
      else if v = 18 then Inr Ch_MouseDatagram
      else Inl (UnknownChannel v))"

fun message_code :: "message_type \<Rightarrow> u16" where
  "message_code ClientHello = 1"
| "message_code ServerHello = 2"
| "message_code Ping = 3"
| "message_code Pong = 4"
| "message_code ErrorMessage = 5"
| "message_code KeyframeRequest = 6"
| "message_code SessionClose = 7"
| "message_code SessionOfferMessage = 8"
| "message_code SessionAccept = 9"
| "message_code ApplicationControl = 10"
| "message_code ApplicationRaw = 11"
| "message_code VideoOrdering = 12"
| "message_code VideoOrderingAck = 13"
| "message_code ReliableInput = 16"
| "message_code ClipboardMessage = 32"
| "message_code FileMetadata = 48"
| "message_code FileChunkMessage = 49"
| "message_code FileCancel = 50"
| "message_code Diagnostics = 64"
| "message_code ReliableVideoFrame = 65"
| "message_code VideoFragment = 128"
| "message_code AudioPacketMessage = 129"
| "message_code MouseMovementMessage = 130"

definition message_try_from :: "u16 \<Rightarrow> protocol_error + message_type" where
  "message_try_from v =
     (if v = 1 then Inr ClientHello
      else if v = 2 then Inr ServerHello
      else if v = 3 then Inr Ping
      else if v = 4 then Inr Pong
      else if v = 5 then Inr ErrorMessage
      else if v = 6 then Inr KeyframeRequest
      else if v = 7 then Inr SessionClose
      else if v = 8 then Inr SessionOfferMessage
      else if v = 9 then Inr SessionAccept
      else if v = 10 then Inr ApplicationControl
      else if v = 11 then Inr ApplicationRaw
      else if v = 12 then Inr VideoOrdering
      else if v = 13 then Inr VideoOrderingAck
      else if v = 16 then Inr ReliableInput
      else if v = 32 then Inr ClipboardMessage
      else if v = 48 then Inr FileMetadata
      else if v = 49 then Inr FileChunkMessage
      else if v = 50 then Inr FileCancel
      else if v = 64 then Inr Diagnostics
      else if v = 65 then Inr ReliableVideoFrame
      else if v = 128 then Inr VideoFragment
      else if v = 129 then Inr AudioPacketMessage
      else if v = 130 then Inr MouseMovementMessage
      else Inl (UnknownMessageType v))"

text \<open>\<open>MessageType::channel\<close> and \<open>MessageType::max_payload_len\<close>.\<close>

fun message_channel :: "message_type \<Rightarrow> channel_id" where
  "message_channel ReliableInput = Ch_ReliableInput"
| "message_channel ClipboardMessage = Ch_Clipboard"
| "message_channel FileMetadata = Ch_FileTransfer"
| "message_channel FileChunkMessage = Ch_FileTransfer"
| "message_channel FileCancel = Ch_FileTransfer"
| "message_channel Diagnostics = Ch_Diagnostics"
| "message_channel ReliableVideoFrame = Ch_ReliableVideo"
| "message_channel VideoFragment = Ch_VideoDatagram"
| "message_channel AudioPacketMessage = Ch_AudioDatagram"
| "message_channel MouseMovementMessage = Ch_MouseDatagram"
| "message_channel _ = Ch_Control"

fun max_payload_len :: "message_type \<Rightarrow> usize" where
  "max_payload_len ClientHello = 512"
| "max_payload_len ServerHello = 512"
| "max_payload_len Ping = 64"
| "max_payload_len Pong = 64"
| "max_payload_len ErrorMessage = 16 * 1024"
| "max_payload_len SessionClose = 16 * 1024"
| "max_payload_len SessionOfferMessage = 4 * 1024"
| "max_payload_len SessionAccept = 4 * 1024"
| "max_payload_len ApplicationControl = 32 * 1024 * 1024"
| "max_payload_len ApplicationRaw = 32 * 1024 * 1024"
| "max_payload_len VideoOrdering = 1024 * 1024"
| "max_payload_len VideoOrderingAck = 8"
| "max_payload_len KeyframeRequest = 64"
| "max_payload_len ReliableInput = 4 * 1024"
| "max_payload_len ClipboardMessage = 16 * 1024 * 1024"
| "max_payload_len FileMetadata = 64 * 1024"
| "max_payload_len FileChunkMessage = 1024 * 1024"
| "max_payload_len FileCancel = 4 * 1024"
| "max_payload_len Diagnostics = 64 * 1024"
| "max_payload_len ReliableVideoFrame = 32 * 1024 * 1024"
| "max_payload_len VideoFragment = 64 * 1024"
| "max_payload_len AudioPacketMessage = 64 * 1024"
| "max_payload_len MouseMovementMessage = 64 * 1024"

section \<open>Headers\<close>

record message_header =
  mh_message_type :: message_type
  mh_flags :: u16
  mh_channel :: channel_id
  mh_session_id :: session_id
  mh_sequence_number :: u64
  mh_payload_length :: u32
  mh_monotonic_timestamp_us :: u64

record parsed_message =
  pm_header :: message_header
  pm_payload :: bytes

definition validate_fields ::
    "message_type \<Rightarrow> u16 \<Rightarrow> channel_id \<Rightarrow> session_id \<Rightarrow> u64 \<Rightarrow> usize \<Rightarrow> protocol_error + unit" where
  "validate_fields message_type flags channel session_id sequence_number payload_length =
     (if flags AND NOT KNOWN_FLAGS \<noteq> 0 then Inl (UnknownFlags (flags AND NOT KNOWN_FLAGS))
      else if channel \<noteq> message_channel message_type
        then Inl (ChannelMismatch message_type channel)
      else if list_all (\<lambda>byte. byte = 0) session_id then Inl ZeroSessionId
      else if sequence_number = 0 then Inl ZeroSequence
      else if payload_length > max_payload_len message_type
        then Inl (PayloadTooLarge payload_length)
      else Inr ())"

text \<open>\<open>MessageHeader::new\<close>.\<close>

definition message_header_new ::
    "message_type \<Rightarrow> u16 \<Rightarrow> session_id \<Rightarrow> u64 \<Rightarrow> usize \<Rightarrow> u64 \<Rightarrow> protocol_error + message_header" where
  "message_header_new message_type flags session_id sequence_number payload_length timestamp =
     (case validate_fields message_type flags (message_channel message_type) session_id
             sequence_number payload_length of
        Inl e \<Rightarrow> Inl e
      | Inr _ \<Rightarrow>
          (case word_try_from payload_length of
             None \<Rightarrow> Inl (PayloadTooLarge payload_length)
           | Some plen \<Rightarrow> Inr
               \<lparr>mh_message_type = message_type, mh_flags = flags,
                mh_channel = message_channel message_type, mh_session_id = session_id,
                mh_sequence_number = sequence_number, mh_payload_length = plen,
                mh_monotonic_timestamp_us = timestamp\<rparr>))"

definition encode_message :: "message_header \<Rightarrow> bytes \<Rightarrow> protocol_error + bytes" where
  "encode_message header payload =
     (case validate_fields (mh_message_type header) (mh_flags header) (mh_channel header)
             (mh_session_id header) (mh_sequence_number header) (length payload) of
        Inl e \<Rightarrow> Inl e
      | Inr _ \<Rightarrow>
          if unat (mh_payload_length header) \<noteq> length payload then Inl LengthMismatch
          else Inr
            (u32_be MAGIC @ u16_be PROTOCOL_VERSION @
             u16_be (message_code (mh_message_type header)) @ u16_be (mh_flags header) @
             [channel_code (mh_channel header)] @ [0] @ mh_session_id header @
             u64_be (mh_sequence_number header) @ u32_be (mh_payload_length header) @
             u64_be (mh_monotonic_timestamp_us header) @ payload))"

definition decode_header :: "bytes \<Rightarrow> protocol_error + message_header" where
  "decode_header packet =
     (if length packet \<noteq> HEADER_LEN then Inl HeaderTruncated
      else if read_u32 packet 0 \<noteq> MAGIC then Inl (InvalidMagic (read_u32 packet 0))
      else if read_u16 packet 4 \<noteq> PROTOCOL_VERSION
        then Inl (UnsupportedVersion (read_u16 packet 4))
      else case message_try_from (read_u16 packet 6) of
        Inl e \<Rightarrow> Inl e
      | Inr message_type \<Rightarrow>
        (case channel_try_from (packet ! 10) of
           Inl e \<Rightarrow> Inl e
         | Inr channel \<Rightarrow>
           if packet ! 11 \<noteq> 0 then Inl ReservedByte
           else
             (case validate_fields message_type (read_u16 packet 8) channel
                     (byte_slice packet 12 28) (read_u64 packet 28) (unat (read_u32 packet 36)) of
                Inl e \<Rightarrow> Inl e
              | Inr _ \<Rightarrow> Inr
                  \<lparr>mh_message_type = message_type, mh_flags = read_u16 packet 8,
                   mh_channel = channel, mh_session_id = byte_slice packet 12 28,
                   mh_sequence_number = read_u64 packet 28,
                   mh_payload_length = read_u32 packet 36,
                   mh_monotonic_timestamp_us = read_u64 packet 40\<rparr>)))"

definition decode_message :: "bytes \<Rightarrow> protocol_error + parsed_message" where
  "decode_message packet =
     (if length packet < HEADER_LEN then Inl HeaderTruncated
      else case decode_header (take HEADER_LEN packet) of
        Inl e \<Rightarrow> Inl e
      | Inr header \<Rightarrow>
          if HEADER_LEN + unat (mh_payload_length header) > usize_max
            then Inl (PayloadTooLarge (unat (mh_payload_length header)))
          else if length packet \<noteq> HEADER_LEN + unat (mh_payload_length header)
            then Inl LengthMismatch
          else Inr \<lparr>pm_header = header, pm_payload = drop HEADER_LEN packet\<rparr>)"

section \<open>Codes are exact\<close>

interpretation channel: enum_code channel_code channel_try_from
proof
  show "channel_try_from (channel_code x) = Inr x" for x
    by (cases x) (simp_all add: channel_try_from_def)
  show "channel_try_from w = Inr x \<Longrightarrow> channel_code x = w" for w x
    by (auto simp: channel_try_from_def split: if_splits)
qed

interpretation message: enum_code message_code message_try_from
proof
  show "message_try_from (message_code x) = Inr x" for x
    by (cases x) (simp_all add: message_try_from_def)
  show "message_try_from w = Inr x \<Longrightarrow> message_code x = w" for w x
    by (auto simp: message_try_from_def split: if_splits)
qed

lemmas message_codes [enum_simps] =
  channel.try_from_code message.try_from_code

section \<open>Validation\<close>

text \<open>What a header must satisfy on the wire, beside the length of the session id.\<close>

definition header_ok :: "message_type \<Rightarrow> u16 \<Rightarrow> channel_id \<Rightarrow> session_id \<Rightarrow> u64 \<Rightarrow> usize \<Rightarrow> bool" where
  "header_ok mt flags ch sid seq plen \<longleftrightarrow>
     flags AND NOT KNOWN_FLAGS = 0 \<and> ch = message_channel mt \<and> (\<exists>b \<in> set sid. b \<noteq> 0) \<and>
     seq \<noteq> 0 \<and> plen \<le> max_payload_len mt"

lemma validate_fields_eq_Inr:
  "validate_fields mt flags ch sid seq plen = Inr u \<longleftrightarrow> header_ok mt flags ch sid seq plen"
  by (auto simp: validate_fields_def header_ok_def list_all_iff)

lemma validate_fields_Inl:
  "validate_fields mt flags ch sid seq plen = Inl e \<Longrightarrow> \<not> header_ok mt flags ch sid seq plen"
  using validate_fields_eq_Inr [of mt flags ch sid seq plen "()"] by auto

lemma validate_fields_ok:
  "header_ok mt flags ch sid seq plen \<Longrightarrow> validate_fields mt flags ch sid seq plen = Inr ()"
  by (simp add: validate_fields_eq_Inr)

lemma max_payload_len_bound: "max_payload_len mt \<le> 32 * 1024 * 1024"
  by (cases mt) simp_all

lemma header_ok_payload_bound: "header_ok mt flags ch sid seq plen \<Longrightarrow> plen < 2 ^ 32"
  using max_payload_len_bound [of mt] by (auto simp: header_ok_def)

lemma message_header_new_eq_Inr:
  "message_header_new mt flags sid seq plen ts = Inr h \<longleftrightarrow>
     header_ok mt flags (message_channel mt) sid seq plen \<and>
     h = \<lparr>mh_message_type = mt, mh_flags = flags, mh_channel = message_channel mt,
          mh_session_id = sid, mh_sequence_number = seq, mh_payload_length = of_nat plen,
          mh_monotonic_timestamp_us = ts\<rparr>"
proof (cases "header_ok mt flags (message_channel mt) sid seq plen")
  case True
  with header_ok_payload_bound [OF True] show ?thesis
    by (auto simp: message_header_new_def validate_fields_ok word_try_from_def)
next
  case False
  then show ?thesis
    by (auto simp: message_header_new_def validate_fields_eq_Inr split: sum.splits)
qed

section \<open>The codec is exact\<close>

text \<open>The header as bytes, the part of the encoding before the payload.\<close>

definition header_bytes :: "message_header \<Rightarrow> bytes" where
  "header_bytes h =
     u32_be MAGIC @ u16_be PROTOCOL_VERSION @ u16_be (message_code (mh_message_type h)) @
     u16_be (mh_flags h) @ [channel_code (mh_channel h)] @ [0] @ mh_session_id h @
     u64_be (mh_sequence_number h) @ u32_be (mh_payload_length h) @
     u64_be (mh_monotonic_timestamp_us h)"

definition valid_header :: "message_header \<Rightarrow> bool" where
  "valid_header h \<longleftrightarrow>
     length (mh_session_id h) = 16 \<and>
     header_ok (mh_message_type h) (mh_flags h) (mh_channel h) (mh_session_id h)
       (mh_sequence_number h) (unat (mh_payload_length h))"

lemma length_header_bytes:
  "length (mh_session_id h) = 16 \<Longrightarrow> length (header_bytes h) = HEADER_LEN"
  by (simp add: header_bytes_def HEADER_LEN_def)

lemma encode_message_eq_Inr:
  "encode_message h p = Inr bs \<longleftrightarrow>
     header_ok (mh_message_type h) (mh_flags h) (mh_channel h) (mh_session_id h)
       (mh_sequence_number h) (length p) \<and>
     unat (mh_payload_length h) = length p \<and> bs = header_bytes h @ p"
  by (auto simp: encode_message_def header_bytes_def validate_fields_eq_Inr
      dest: validate_fields_Inl split: sum.splits if_splits)

lemma decode_header_bytes:
  assumes "valid_header h"
  shows "decode_header (header_bytes h) = Inr h"
proof -
  from assms have len: "length (mh_session_id h) = 16" by (simp add: valid_header_def)
  from assms show ?thesis
    unfolding decode_header_def length_header_bytes [OF len]
    by (simp add: header_bytes_def len wire_simps enum_simps validate_fields_ok valid_header_def)
qed

lemma header_bytes_decode:
  assumes "decode_header bs = Inr h"
  shows "valid_header h" and "header_bytes h = bs"
proof -
  from assms have len: "length bs = 48"
    and magic: "read_u32 bs 0 = MAGIC" and version: "read_u16 bs 4 = PROTOCOL_VERSION"
    and mt: "message_code (mh_message_type h) = read_u16 bs 6"
    and ch: "channel_code (mh_channel h) = bs ! 10" and reserved: "bs ! 11 = 0"
    and fields: "mh_flags h = read_u16 bs 8" "mh_session_id h = byte_slice bs 12 28"
      "mh_sequence_number h = read_u64 bs 28" "mh_payload_length h = read_u32 bs 36"
      "mh_monotonic_timestamp_us h = read_u64 bs 40"
    and ok: "header_ok (mh_message_type h) (mh_flags h) (mh_channel h) (mh_session_id h)
       (mh_sequence_number h) (unat (mh_payload_length h))"
    by (auto simp: decode_header_def HEADER_LEN_def message.try_from_iff channel.try_from_iff
        validate_fields_eq_Inr split: if_splits sum.splits)
  show "valid_header h"
    using ok len by (simp add: valid_header_def fields length_slice)
  have "bs = u32_be (read_u32 bs 0) @ u16_be (read_u16 bs 4) @ u16_be (read_u16 bs 6) @
      u16_be (read_u16 bs 8) @ [bs ! 10] @ [bs ! 11] @ byte_slice bs 12 28 @
      u64_be (read_u64 bs 28) @ u32_be (read_u32 bs 36) @ u64_be (read_u64 bs 40)"
    using len cut_u32 [of 0 bs] cut_u16 [of 4 bs] cut_u16 [of 6 bs] cut_u16 [of 8 bs]
      cut_u8 [of 10 bs] cut_u8 [of 11 bs] cut_slice [of 12 28 bs] cut_u64 [of 28 bs]
      cut_u32 [of 36 bs] cut_u64 [of 40 bs]
    by simp
  then show "header_bytes h = bs"
    by (simp add: header_bytes_def fields mt ch magic version reserved)
qed

lemma decode_header_iff: "decode_header bs = Inr h \<longleftrightarrow> valid_header h \<and> header_bytes h = bs"
  using decode_header_bytes header_bytes_decode by blast

lemma unat_u32_fits_usize: "\<not> HEADER_LEN + unat (w :: u32) > usize_max"
  using unat_word_bound [of w] by (simp add: HEADER_LEN_def usize_max_def)

text \<open>The codec as one pair of functions on (header, payload).\<close>

definition message_wf :: "parsed_message \<Rightarrow> bool" where
  "message_wf m \<longleftrightarrow> length (mh_session_id (pm_header m)) = 16"

lemma decode_encode_message:
  assumes "length (mh_session_id h) = 16" and "encode_message h p = Inr bs"
  shows "decode_message bs = Inr \<lparr>pm_header = h, pm_payload = p\<rparr>"
proof -
  from assms(2) have bs: "bs = header_bytes h @ p" and plen: "unat (mh_payload_length h) = length p"
    and ok: "valid_header h"
    using assms(1) by (auto simp: encode_message_eq_Inr valid_header_def)
  have hlen: "length (header_bytes h) = HEADER_LEN" by (rule length_header_bytes [OF assms(1)])
  with bs plen show ?thesis
    using unat_u32_fits_usize [of "mh_payload_length h"]
    by (simp add: decode_message_def decode_header_bytes [OF ok])
qed

lemma encode_decode_message:
  assumes "decode_message bs = Inr m"
  shows "message_wf m" and "encode_message (pm_header m) (pm_payload m) = Inr bs"
proof -
  from assms have dec: "decode_header (take HEADER_LEN bs) = Inr (pm_header m)"
    and len: "length bs = HEADER_LEN + unat (mh_payload_length (pm_header m))"
    and payload: "pm_payload m = drop HEADER_LEN bs"
    by (auto simp: decode_message_def split: if_splits sum.splits)
  from dec have ok: "valid_header (pm_header m)"
    and bytes: "header_bytes (pm_header m) = take HEADER_LEN bs"
    by (rule header_bytes_decode)+
  from ok show "message_wf m" by (simp add: message_wf_def valid_header_def)
  from ok len payload show "encode_message (pm_header m) (pm_payload m) = Inr bs"
    by (simp add: encode_message_eq_Inr valid_header_def bytes)
qed

interpretation message_codec: wire_codec message_wf
  "\<lambda>m. encode_message (pm_header m) (pm_payload m)" decode_message
proof
  show "message_wf x \<Longrightarrow> encode_message (pm_header x) (pm_payload x) = Inr bs \<Longrightarrow>
      decode_message bs = Inr x" for x bs
    using decode_encode_message [of "pm_header x" "pm_payload x" bs] by (simp add: message_wf_def)
  show "decode_message bs = Inr x \<Longrightarrow>
      message_wf x \<and> encode_message (pm_header x) (pm_payload x) = Inr bs" for bs x
    using encode_decode_message by blast
qed

lemma decode_message_valid: "decode_message bs = Inr m \<Longrightarrow> valid_header (pm_header m)"
  by (auto simp: decode_message_def dest: header_bytes_decode split: if_splits sum.splits)

lemma decode_message_header:
  "decode_message bs = Inr m \<Longrightarrow> decode_header (take HEADER_LEN bs) = Inr (pm_header m)"
  by (auto simp: decode_message_def split: if_splits sum.splits)

section \<open>Properties\<close>

text \<open>
  Property C13: exactness of the message codec. A byte string is accepted by
  \<open>decode_message\<close>, with a given header and payload, if and only if the header carries a
  16-byte session id and \<open>encode_message\<close> produces exactly that byte string from them.
\<close>

theorem message_codec_exact:
  "decode_message bs = Inr m \<longleftrightarrow>
     length (mh_session_id (pm_header m)) = 16 \<and>
     encode_message (pm_header m) (pm_payload m) = Inr bs"
  using message_codec.dec_iff [of bs m] by (simp add: message_wf_def)

text \<open>
  What an accepted packet guarantees. Its channel is the one its type belongs
  to, the session id and the sequence number are not zero, no unknown flag is set, and
  the payload is the rest of the packet and within the limit of the message type.
\<close>

lemma decode_message_guarantees:
  assumes "decode_message bs = Inr m"
  shows "mh_channel (pm_header m) = message_channel (mh_message_type (pm_header m)) \<and>
     mh_sequence_number (pm_header m) \<noteq> 0 \<and>
     (\<exists>b \<in> set (mh_session_id (pm_header m)). b \<noteq> 0) \<and>
     mh_flags (pm_header m) AND NOT KNOWN_FLAGS = 0 \<and>
     length bs = HEADER_LEN + length (pm_payload m) \<and>
     unat (mh_payload_length (pm_header m)) = length (pm_payload m) \<and>
     length (pm_payload m) \<le> max_payload_len (mh_message_type (pm_header m))"
proof -
  from encode_decode_message [OF assms]
  have enc: "encode_message (pm_header m) (pm_payload m) = Inr bs"
    and len: "length (mh_session_id (pm_header m)) = 16" by (simp_all add: message_wf_def)
  from enc have "bs = header_bytes (pm_header m) @ pm_payload m"
    by (simp add: encode_message_eq_Inr)
  then have "length bs = HEADER_LEN + length (pm_payload m)"
    by (simp add: length_header_bytes [OF len])
  with enc show ?thesis by (simp add: encode_message_eq_Inr header_ok_def)
qed

text \<open>Concrete messages evaluate with these equations.\<close>

definition sample_session :: session_id where
  "sample_session = [7, 7, 7, 7, 7, 7, 7, 7, 7, 7, 7, 7, 7, 7, 7, 7]"

lemmas message_eval =
  decode_message_def decode_header_def HEADER_LEN_def usize_max_def read_u16_def read_u32_def
  read_u64_def be_nat_def byte_slice_def MAGIC_def PROTOCOL_VERSION_def message_try_from_def
  channel_try_from_def validate_fields_def KNOWN_FLAGS_def FLAG_ACK_REQUIRED_def
  FLAG_RESPONSE_def sample_session_def

text \<open>A ping with an empty payload on the sample session.\<close>

definition sample_ping :: bytes where
  "sample_ping =
     [0x52, 0x41, 0x51, 0x31, 0, 1, 0, 3, 0, 1, 1, 0,
      7, 7, 7, 7, 7, 7, 7, 7, 7, 7, 7, 7, 7, 7, 7, 7,
      0, 0, 0, 0, 0, 0, 0, 9, 0, 0, 0, 0, 0, 0, 0, 0, 0, 0, 0, 5]"

lemma decode_message_guarantees_example:
  "decode_message sample_ping = Inr \<lparr>pm_header =
      \<lparr>mh_message_type = Ping, mh_flags = 1, mh_channel = Ch_Control,
       mh_session_id = sample_session, mh_sequence_number = 9, mh_payload_length = 0,
       mh_monotonic_timestamp_us = 5\<rparr>, pm_payload = []\<rparr> \<and>
   length sample_ping = HEADER_LEN"
proof -
  have dec: "decode_message sample_ping = Inr \<lparr>pm_header =
      \<lparr>mh_message_type = Ping, mh_flags = 1, mh_channel = Ch_Control,
       mh_session_id = sample_session, mh_sequence_number = 9, mh_payload_length = 0,
       mh_monotonic_timestamp_us = 5\<rparr>, pm_payload = []\<rparr>"
    by (simp add: sample_ping_def message_eval)
  from decode_message_guarantees [OF dec] dec show ?thesis by simp
qed

end
