(* ===== verification/Ordered_Map.thy ===== *)
theory Ordered_Map
  imports Rust_Prelude
begin

text \<open>
  \<open>BTreeMap\<close> as the code uses it: entries in strictly ascending key order, with
  \<open>insert\<close>, \<open>remove\<close>, \<open>get\<close>, \<open>contains_key\<close>, iteration, \<open>retain\<close> (a filter) and
  \<open>keys().next()\<close> / \<open>next_back()\<close>. The state is the list of entries, so iteration order
  and executability come for free; \<open>bm_ok\<close> is the ordering invariant, kept by every
  operation. Sums over the entries (buffered bytes) move with insert and remove.
\<close>

type_synonym ('k, 'v) btree_map = "('k \<times> 'v) list"

definition bm_ok :: "('k::linorder, 'v) btree_map \<Rightarrow> bool" where
  "bm_ok m \<longleftrightarrow> sorted_wrt (<) (map fst m)"

fun bm_insert :: "'k::linorder \<Rightarrow> 'v \<Rightarrow> ('k, 'v) btree_map \<Rightarrow> ('k, 'v) btree_map" where
  "bm_insert k v [] = [(k, v)]"
| "bm_insert k v ((k', v') # m) =
     (if k < k' then (k, v) # (k', v') # m
      else if k = k' then (k, v) # m
      else (k', v') # bm_insert k v m)"

definition bm_remove :: "'k::linorder \<Rightarrow> ('k, 'v) btree_map \<Rightarrow> ('k, 'v) btree_map" where
  "bm_remove k m = filter (\<lambda>e. fst e \<noteq> k) m"

abbreviation bm_get :: "('k::linorder, 'v) btree_map \<Rightarrow> 'k \<Rightarrow> 'v option" where
  "bm_get m k \<equiv> map_of m k"

definition bm_contains :: "('k::linorder, 'v) btree_map \<Rightarrow> 'k \<Rightarrow> bool" where
  "bm_contains m k \<longleftrightarrow> bm_get m k \<noteq> None"

definition bm_first_key :: "('k::linorder, 'v) btree_map \<Rightarrow> 'k option" where
  "bm_first_key m = (case m of [] \<Rightarrow> None | e # _ \<Rightarrow> Some (fst e))"

definition bm_last_key :: "('k::linorder, 'v) btree_map \<Rightarrow> 'k option" where
  "bm_last_key m = (if m = [] then None else Some (fst (last m)))"

lemma bm_ok_Nil [simp]: "bm_ok []"
  by (simp add: bm_ok_def)

lemma bm_ok_Cons [simp]: "bm_ok (e # m) \<longleftrightarrow> (\<forall>e' \<in> set m. fst e < fst e') \<and> bm_ok m"
  by (auto simp: bm_ok_def)

lemma bm_ok_distinct: "bm_ok m \<Longrightarrow> distinct (map fst m)"
  by (simp add: bm_ok_def strict_sorted_iff)

lemma bm_ok_filter: "bm_ok m \<Longrightarrow> bm_ok (filter P m)"
  by (induction m) auto

lemma bm_ok_map_values: "bm_ok (map (\<lambda>(k, v). (k, f k v)) m) \<longleftrightarrow> bm_ok m"
  by (simp add: bm_ok_def case_prod_beta comp_def)

lemma fst_set_bm_insert [simp]: "fst ` set (bm_insert k v m) = insert k (fst ` set m)"
  by (induction k v m rule: bm_insert.induct) auto

lemma set_bm_insert_subset: "set (bm_insert k v m) \<subseteq> insert (k, v) (set m)"
  by (induction k v m rule: bm_insert.induct) auto

lemma bm_ok_insert [simp]: "bm_ok m \<Longrightarrow> bm_ok (bm_insert k v m)"
proof (induction k v m rule: bm_insert.induct)
  case (2 k v k' v' m)
  then show ?case using set_bm_insert_subset [of k v m] by (fastforce simp: subset_iff)
qed simp

lemma bm_ok_remove [simp]: "bm_ok m \<Longrightarrow> bm_ok (bm_remove k m)"
  by (simp add: bm_remove_def bm_ok_filter)

lemma bm_get_insert: "bm_get (bm_insert k v m) k' = (if k' = k then Some v else bm_get m k')"
  by (induction k v m rule: bm_insert.induct) auto

lemma bm_get_remove: "bm_get (bm_remove k m) k' = (if k' = k then None else bm_get m k')"
  by (induction m) (auto simp: bm_remove_def)

lemma set_bm_insert:
  "bm_ok m \<Longrightarrow> set (bm_insert k v m) = insert (k, v) {e \<in> set m. fst e \<noteq> k}"
proof (induction k v m rule: bm_insert.induct)
  case (2 k v k' v' m)
  then show ?case by (auto dest: bspec)
qed auto

lemma set_bm_remove: "set (bm_remove k m) = {e \<in> set m. fst e \<noteq> k}"
  by (auto simp: bm_remove_def)

lemma fst_set_bm_remove: "fst ` set (bm_remove k m) = fst ` set m - {k}"
  by (force simp: set_bm_remove)

lemma bm_get_mem: "bm_get m k = Some v \<Longrightarrow> (k, v) \<in> set m"
  by (rule map_of_SomeD)

lemma bm_mem_get: "bm_ok m \<Longrightarrow> (k, v) \<in> set m \<Longrightarrow> bm_get m k = Some v"
  by (simp add: bm_ok_distinct)

lemma bm_get_filter:
  assumes "bm_ok m"
  shows "bm_get (filter P m) k = (case bm_get m k of None \<Rightarrow> None | Some v \<Rightarrow> if P (k, v) then Some v else None)"
proof (cases "bm_get (filter P m) k")
  case None
  then have "\<forall>v. (k, v) \<in> set m \<longrightarrow> \<not> P (k, v)"
    using bm_mem_get [OF bm_ok_filter [OF assms, of P], of k] by fastforce
  with None show ?thesis using bm_get_mem [of m k] by (auto split: option.splits)
next
  case (Some v)
  from bm_get_mem [OF this] have "(k, v) \<in> set m" "P (k, v)" by auto
  with Some show ?thesis using bm_mem_get [OF assms] by simp
qed

lemma bm_contains_iff: "bm_contains m k \<longleftrightarrow> k \<in> fst ` set m"
  by (auto simp: bm_contains_def map_of_eq_None_iff)

lemma bm_remove_absent: "bm_get m k = None \<Longrightarrow> bm_remove k m = m"
  by (auto simp: bm_remove_def map_of_eq_None_iff filter_id_conv)

lemma bm_remove_Cons:
  "bm_remove k (e # m) = (if fst e = k then bm_remove k m else e # bm_remove k m)"
  by (simp add: bm_remove_def)

lemma bm_remove_insert: "bm_get m k = None \<Longrightarrow> bm_remove k (bm_insert k v m) = m"
proof (induction k v m rule: bm_insert.induct)
  case (1 k v)
  then show ?case by (simp add: bm_remove_def)
next
  case (2 k v k' v' m)
  then show ?case by (auto simp: bm_remove_Cons bm_remove_absent split: if_splits)
qed

lemma length_bm_insert:
  "length (bm_insert k v m) = (if bm_get m k = None then Suc (length m) else length m)"
  if "bm_ok m"
  using that
proof (induction k v m rule: bm_insert.induct)
  case (2 k v k' v' m)
  moreover have "k < k' \<Longrightarrow> bm_get m k = None"
    using 2 by (auto simp: map_of_eq_None_iff dest!: bspec)
  ultimately show ?case by auto
qed simp

lemma length_bm_remove:
  "bm_ok m \<Longrightarrow> length (bm_remove k m) = (if bm_get m k = None then length m else length m - 1)"
proof (induction m)
  case (Cons e m)
  have "fst e = k \<Longrightarrow> bm_get m k = None"
    using Cons.prems by (auto simp: map_of_eq_None_iff)
  moreover have "bm_get m k \<noteq> None \<Longrightarrow> m \<noteq> []" by auto
  ultimately show ?case using Cons by (cases e) (auto simp: bm_remove_Cons bm_remove_absent)
qed (simp add: bm_remove_def)

lemma length_bm_remove_le: "length (bm_remove k m) \<le> length m"
  by (simp add: bm_remove_def)

lemma bm_first_key_min:
  "bm_ok m \<Longrightarrow> bm_first_key m = Some k \<Longrightarrow> e \<in> set m \<Longrightarrow> k \<le> fst e"
  by (cases m) (auto simp: bm_first_key_def less_imp_le)

lemma bm_first_key_None [simp]: "bm_first_key m = None \<longleftrightarrow> m = []"
  by (cases m) (auto simp: bm_first_key_def)

lemma bm_first_key_get:
  "bm_first_key m = Some k \<Longrightarrow> \<exists>v. bm_get m k = Some v"
  by (cases m) (auto simp: bm_first_key_def)

lemma bm_last_key_max:
  "bm_ok m \<Longrightarrow> bm_last_key m = Some k \<Longrightarrow> e \<in> set m \<Longrightarrow> fst e \<le> k"
proof (induction m)
  case (Cons x m)
  then show ?case by (cases m) (auto simp: bm_last_key_def less_imp_le)
qed simp

section \<open>Sums over the entries\<close>

definition bm_sum :: "('v \<Rightarrow> nat) \<Rightarrow> ('k, 'v) btree_map \<Rightarrow> nat" where
  "bm_sum f m = sum_list (map (f \<circ> snd) m)"

lemma bm_sum_Nil [simp]: "bm_sum f [] = 0"
  by (simp add: bm_sum_def)

lemma bm_sum_Cons [simp]: "bm_sum f (e # m) = f (snd e) + bm_sum f m"
  by (simp add: bm_sum_def)

lemma bm_sum_remove:
  "bm_ok m \<Longrightarrow> bm_get m k = Some v \<Longrightarrow> bm_sum f m = f v + bm_sum f (bm_remove k m)"
proof (induction m)
  case (Cons e m)
  have "fst e = k \<Longrightarrow> bm_get m k = None"
    using Cons.prems(1) by (auto simp: map_of_eq_None_iff)
  with Cons show ?case
    by (cases e) (auto simp: bm_remove_Cons bm_remove_absent split: if_splits)
qed simp

lemma bm_sum_insert:
  "bm_ok m \<Longrightarrow> bm_sum f (bm_insert k v m) = f v + bm_sum f (bm_remove k m)"
proof (induction k v m rule: bm_insert.induct)
  case (1 k v)
  then show ?case by (simp add: bm_remove_def)
next
  case (2 k v k' v' m)
  have "k \<le> k' \<Longrightarrow> bm_get m k = None"
    using 2 by (force simp: map_of_eq_None_iff)
  with 2 show ?case by (auto simp: bm_remove_Cons bm_remove_absent)
qed

lemma bm_sum_member: "bm_get m k = Some v \<Longrightarrow> f v \<le> bm_sum f m"
  by (induction m) (auto split: if_splits)

section \<open>Iterator helpers\<close>

text \<open>\<open>Iterator::min_by_key\<close>: the first of the smallest elements.\<close>

fun min_by_key :: "('a \<Rightarrow> 'b::linorder) \<Rightarrow> 'a list \<Rightarrow> 'a option" where
  "min_by_key f [] = None"
| "min_by_key f (x # xs) =
     (case min_by_key f xs of
        None \<Rightarrow> Some x
      | Some y \<Rightarrow> if f x \<le> f y then Some x else Some y)"

lemma min_by_key_None [simp]: "min_by_key f xs = None \<longleftrightarrow> xs = []"
  by (cases xs) (auto split: option.splits if_splits)

lemma min_by_key_Some:
  "min_by_key f xs = Some x \<Longrightarrow> x \<in> set xs \<and> (\<forall>y \<in> set xs. f x \<le> f y)"
proof (induction xs arbitrary: x)
  case (Cons a xs)
  show ?case
  proof (cases "min_by_key f xs")
    case None
    with Cons.prems show ?thesis by simp
  next
    case (Some y)
    with Cons.IH [OF Some] Cons.prems show ?thesis by (auto split: if_splits dest: bspec)
  qed
qed simp

text \<open>\<open>map.entry(k).or_default()\<close> followed by an update in place.\<close>

definition bm_update_default ::
    "'v \<Rightarrow> 'k::linorder \<Rightarrow> ('v \<Rightarrow> 'v) \<Rightarrow> ('k, 'v) btree_map \<Rightarrow> ('k, 'v) btree_map" where
  "bm_update_default d k f m = bm_insert k (f (case bm_get m k of Some v \<Rightarrow> v | None \<Rightarrow> d)) m"

section \<open>The map interface\<close>

text \<open>What a client of \<open>BTreeMap\<close> relies on, independent of the representation.\<close>

locale ordered_map =
  fixes empty :: "'m"
    and insert :: "'k::linorder \<Rightarrow> 'v \<Rightarrow> 'm \<Rightarrow> 'm"
    and remove :: "'k \<Rightarrow> 'm \<Rightarrow> 'm"
    and get :: "'m \<Rightarrow> 'k \<Rightarrow> 'v option"
    and count :: "'m \<Rightarrow> nat"
    and invar :: "'m \<Rightarrow> bool"
  assumes get_empty: "get empty k = None"
    and get_insert: "invar m \<Longrightarrow> get (insert k v m) k' = (if k' = k then Some v else get m k')"
    and get_remove: "invar m \<Longrightarrow> get (remove k m) k' = (if k' = k then None else get m k')"
    and count_empty: "count empty = 0"
    and count_insert: "invar m \<Longrightarrow>
          count (insert k v m) = (if get m k = None then Suc (count m) else count m)"
    and invar_empty: "invar empty"
    and invar_insert: "invar m \<Longrightarrow> invar (insert k v m)"
    and invar_remove: "invar m \<Longrightarrow> invar (remove k m)"
begin

lemma get_insert_remove:
  "invar m \<Longrightarrow> get (remove k (insert k v m)) k' = (if k' = k then None else get m k')"
  by (simp add: get_remove get_insert invar_insert)

text \<open>A table bounded by admission: a new key is inserted only below the limit, so a
  bounded table stays bounded.\<close>

lemma bounded_insert:
  "invar m \<Longrightarrow> count m \<le> limit \<Longrightarrow> get m k \<noteq> None \<or> count m < limit \<Longrightarrow>
     count (insert k v m) \<le> limit"
  by (auto simp: count_insert)

end

interpretation btree: ordered_map "[]" bm_insert bm_remove "\<lambda>m k. bm_get m k" length bm_ok
  by unfold_locales (auto simp: bm_get_insert bm_get_remove length_bm_insert)

end
