(* ===== verification/Video_Datagram.thy ===== *)
theory Video_Datagram
  imports Protocol Ordered_Map
begin

text \<open>
  Video over unreliable datagrams (\<open>src/transport/video_datagram.rs\<close>): splitting an
  encoded frame into fragments, and the reassembler that collects them, with its
  eviction, expiry and keyframe-request policy. A method that can panic (\<open>expect\<close>, an
  index) or loop without end returns \<open>None\<close> in that case; the theory shows that none of
  this happens in a state the constructor and the methods can reach.
\<close>

section \<open>Constants and data\<close>

definition VIDEO_FRAGMENT_HEADER_LEN :: usize where "VIDEO_FRAGMENT_HEADER_LEN = 28"
definition FLAG_KEYFRAME :: u8 where "FLAG_KEYFRAME = push_bit 0 1"
definition FLAG_CODEC_CONFIG :: u8 where "FLAG_CODEC_CONFIG = push_bit 1 1"
definition KNOWN_FRAME_FLAGS :: u8 where "KNOWN_FRAME_FLAGS = FLAG_KEYFRAME OR FLAG_CODEC_CONFIG"
definition MAX_VIDEO_FRAME_BYTES :: usize where "MAX_VIDEO_FRAME_BYTES = 32 * 1024 * 1024"
definition MAX_VIDEO_FRAGMENTS :: usize where "MAX_VIDEO_FRAGMENTS = 32 * 1024"

datatype video_codec = H264 | H265 | Vp8 | Vp9 | Av1 | RawVideo

datatype video_error =
    VideoProtocol protocol_error
  | ZeroFrameId
  | UnknownVideoCodec u8
  | UnknownVideoFlags u8
  | VideoHeaderTruncated
  | VideoReservedField
  | InvalidFragmentIndex usize usize
  | InvalidFragmentCount usize
  | InvalidFrameSize usize
  | EmptyFragment
  | VideoDatagramTooSmall usize
  | SequenceOverflow
  | InconsistentMetadata
  | ConflictingDuplicate
  | VideoMemoryLimit

fun video_codec_code :: "video_codec \<Rightarrow> u8" where
  "video_codec_code H264 = 1"
| "video_codec_code H265 = 2"
| "video_codec_code Vp8 = 3"
| "video_codec_code Vp9 = 4"
| "video_codec_code Av1 = 5"
| "video_codec_code RawVideo = 6"

definition video_codec_try_from :: "u8 \<Rightarrow> video_error + video_codec" where
  "video_codec_try_from v =
     (if v = 1 then Inr H264 else if v = 2 then Inr H265 else if v = 3 then Inr Vp8
      else if v = 4 then Inr Vp9 else if v = 5 then Inr Av1 else if v = 6 then Inr RawVideo
      else Inl (UnknownVideoCodec v))"

definition is_reference_sensitive :: "video_codec \<Rightarrow> bool" where
  "is_reference_sensitive c \<longleftrightarrow> c = H264 \<or> c = H265 \<or> c = Av1"

record video_frame_metadata =
  vm_frame_id :: u64
  vm_codec :: video_codec
  vm_flags :: u8
  vm_presentation_timestamp_us :: u64

record complete_video_frame =
  cf_metadata :: video_frame_metadata
  cf_payload :: bytes

record fragment_header =
  fh_metadata :: video_frame_metadata
  fh_fragment_index :: usize
  fh_fragment_count :: usize
  fh_frame_size :: usize

record video_config =
  vc_max_frame_bytes :: usize
  vc_max_pending_frames :: usize
  vc_max_memory_bytes :: usize
  vc_fragment_deadline :: duration
  vc_keyframe_fragment_deadline :: duration
  vc_frame_lifetime :: duration
  vc_keyframe_lifetime :: duration
  vc_require_initial_keyframe :: bool
  vc_keyframe_request_after_drops :: u32
  vc_keyframe_request_interval :: duration

definition video_config_default :: video_config where
  "video_config_default =
     \<lparr>vc_max_frame_bytes = MAX_VIDEO_FRAME_BYTES, vc_max_pending_frames = 8,
      vc_max_memory_bytes = 64 * 1024 * 1024, vc_fragment_deadline = from_millis 120,
      vc_keyframe_fragment_deadline = from_millis 500, vc_frame_lifetime = from_secs 1,
      vc_keyframe_lifetime = from_secs 3, vc_require_initial_keyframe = True,
      vc_keyframe_request_after_drops = 1, vc_keyframe_request_interval = from_millis 500\<rparr>"

record video_stats =
  vs_completed_frames :: u64
  vs_expired_frames :: u64
  vs_evicted_frames :: u64
  vs_obsolete_frames :: u64
  vs_duplicate_fragments :: u64
  vs_obsolete_fragments :: u64
  vs_malformed_fragments :: u64
  vs_pre_keyframe_frames :: u64
  vs_expired_keyframes :: u64
  vs_missing_fragments :: u64
  vs_last_frame_assembly_us :: u64
  vs_max_frame_assembly_us :: u64
  vs_max_fragment_gap_us :: u64
  vs_last_frame_bytes :: u64
  vs_last_frame_fragments :: u64

definition video_stats_default :: video_stats where
  "video_stats_default =
     \<lparr>vs_completed_frames = 0, vs_expired_frames = 0, vs_evicted_frames = 0,
      vs_obsolete_frames = 0, vs_duplicate_fragments = 0, vs_obsolete_fragments = 0,
      vs_malformed_fragments = 0, vs_pre_keyframe_frames = 0, vs_expired_keyframes = 0,
      vs_missing_fragments = 0, vs_last_frame_assembly_us = 0, vs_max_frame_assembly_us = 0,
      vs_max_fragment_gap_us = 0, vs_last_frame_bytes = 0, vs_last_frame_fragments = 0\<rparr>"

record video_outcome =
  vo_frame :: "complete_video_frame option"
  vo_dropped_frames :: u32
  vo_request_keyframe :: bool

record pending_frame =
  pf_header :: fragment_header
  pf_fragments :: "bytes option list"
  pf_received_fragments :: usize
  pf_received_bytes :: usize
  pf_created_at :: instant
  pf_last_progress_at :: instant
  pf_max_fragment_gap :: duration

record video_reassembler =
  vr_config :: video_config
  vr_pending :: "(u64, pending_frame) btree_map"
  vr_pending_bytes :: usize
  vr_last_completed_frame_id :: u64
  vr_has_completed_keyframe :: bool
  vr_consecutive_dropped_frames :: u32
  vr_last_keyframe_request :: "instant option"
  vr_stats :: video_stats

definition belongs_to_same_frame :: "fragment_header \<Rightarrow> fragment_header \<Rightarrow> bool" where
  "belongs_to_same_frame a b \<longleftrightarrow>
     fh_metadata a = fh_metadata b \<and> fh_fragment_count a = fh_fragment_count b \<and>
     fh_frame_size a = fh_frame_size b"

definition is_keyframe_flags :: "u8 \<Rightarrow> bool" where
  "is_keyframe_flags flags \<longleftrightarrow> flags AND FLAG_KEYFRAME \<noteq> 0"

section \<open>Fragmentation\<close>

definition validate_frame_metadata :: "video_frame_metadata \<Rightarrow> video_error + unit" where
  "validate_frame_metadata m =
     (if vm_frame_id m = 0 then Inl ZeroFrameId
      else if vm_flags m AND NOT KNOWN_FRAME_FLAGS \<noteq> 0 then Inl (UnknownVideoFlags (vm_flags m))
      else Inr ())"

definition encode_fragment_payload :: "fragment_header \<Rightarrow> bytes \<Rightarrow> video_error + bytes" where
  "encode_fragment_payload header fragment =
     (if fragment = [] then Inl EmptyFragment
      else case word_try_from (fh_fragment_index header) :: u16 option of
        None \<Rightarrow> Inl (InvalidFragmentIndex (fh_fragment_index header) (fh_fragment_count header))
      | Some fragment_index \<Rightarrow>
        (case word_try_from (fh_fragment_count header) :: u16 option of
           None \<Rightarrow> Inl (InvalidFragmentCount (fh_fragment_count header))
         | Some fragment_count \<Rightarrow>
           (case word_try_from (fh_frame_size header) :: u32 option of
              None \<Rightarrow> Inl (InvalidFrameSize (fh_frame_size header))
            | Some frame_size \<Rightarrow> Inr
                (u64_be (vm_frame_id (fh_metadata header)) @ u16_be fragment_index @
                 u16_be fragment_count @ [video_codec_code (vm_codec (fh_metadata header))] @
                 [vm_flags (fh_metadata header)] @ u16_be 0 @
                 u64_be (vm_presentation_timestamp_us (fh_metadata header)) @
                 u32_be frame_size @ fragment))))"

definition decode_fragment_payload :: "bytes \<Rightarrow> video_error + (fragment_header \<times> bytes)" where
  "decode_fragment_payload payload =
     (if length payload \<le> VIDEO_FRAGMENT_HEADER_LEN
        then Inl (if length payload < VIDEO_FRAGMENT_HEADER_LEN then VideoHeaderTruncated
                  else EmptyFragment)
      else if read_u16 payload 14 \<noteq> 0 then Inl VideoReservedField
      else case video_codec_try_from (payload ! 12) of
        Inl e \<Rightarrow> Inl e
      | Inr codec \<Rightarrow> Inr
          (\<lparr>fh_metadata =
              \<lparr>vm_frame_id = read_u64 payload 0, vm_codec = codec, vm_flags = payload ! 13,
               vm_presentation_timestamp_us = read_u64 payload 16\<rparr>,
            fh_fragment_index = unat (read_u16 payload 8),
            fh_fragment_count = unat (read_u16 payload 10),
            fh_frame_size = unat (read_u32 payload 24)\<rparr>,
           drop VIDEO_FRAGMENT_HEADER_LEN payload))"

definition div_ceil :: "nat \<Rightarrow> nat \<Rightarrow> nat" where
  "div_ceil a b = (a + b - 1) div b"

text \<open>One iteration of the loop of \<open>fragment_video_frame\<close>.\<close>

definition fragment_datagram ::
    "session_id \<Rightarrow> u64 \<Rightarrow> u64 \<Rightarrow> video_frame_metadata \<Rightarrow> usize \<Rightarrow> usize \<Rightarrow> nat \<times> bytes
     \<Rightarrow> video_error + bytes" where
  "fragment_datagram session_id first_sequence_number timestamp metadata fragment_count
     frame_size indexed =
     (case indexed of (fragment_index, fragment) \<Rightarrow>
        (case encode_fragment_payload
                \<lparr>fh_metadata = metadata, fh_fragment_index = fragment_index,
                 fh_fragment_count = fragment_count, fh_frame_size = frame_size\<rparr> fragment of
           Inl e \<Rightarrow> Inl e
         | Inr payload \<Rightarrow>
           (case message_header_new VideoFragment 0 session_id
                   (first_sequence_number + of_nat fragment_index) (length payload) timestamp of
              Inl e \<Rightarrow> Inl (VideoProtocol e)
            | Inr header \<Rightarrow> map_err VideoProtocol (encode_message header payload))))"

definition fragment_video_frame ::
    "session_id \<Rightarrow> u64 \<Rightarrow> u64 \<Rightarrow> video_frame_metadata \<Rightarrow> bytes \<Rightarrow> usize
     \<Rightarrow> video_error + bytes list" where
  "fragment_video_frame session_id first_sequence_number timestamp metadata encoded_frame
     max_datagram_size =
     (case validate_frame_metadata metadata of
        Inl e \<Rightarrow> Inl e
      | Inr _ \<Rightarrow>
        if encoded_frame = [] \<or> length encoded_frame > MAX_VIDEO_FRAME_BYTES
          then Inl (InvalidFrameSize (length encoded_frame))
        else if max_datagram_size \<le> HEADER_LEN + VIDEO_FRAGMENT_HEADER_LEN
          then Inl (VideoDatagramTooSmall max_datagram_size)
        else
          (let fragment_payload_size =
                 max_datagram_size - (HEADER_LEN + VIDEO_FRAGMENT_HEADER_LEN);
               fragment_count = div_ceil (length encoded_frame) fragment_payload_size in
           if fragment_count = 0 \<or> fragment_count > MAX_VIDEO_FRAGMENTS
             then Inl (InvalidFragmentCount fragment_count)
           else case checked_add first_sequence_number (of_nat fragment_count - 1) of
             None \<Rightarrow> Inl SequenceOverflow
           | Some _ \<Rightarrow>
               map_result
                 (fragment_datagram session_id first_sequence_number timestamp metadata
                    fragment_count (length encoded_frame))
                 (List.enumerate 0 (chunks fragment_payload_size encoded_frame))))"

section \<open>The reassembler\<close>

definition video_reassembler_new :: "video_config \<Rightarrow> video_error + video_reassembler" where
  "video_reassembler_new config =
     (if vc_max_frame_bytes config = 0 \<or> vc_max_frame_bytes config > MAX_VIDEO_FRAME_BYTES
        then Inl (InvalidFrameSize (vc_max_frame_bytes config))
      else if vc_max_pending_frames config = 0
           \<or> vc_max_memory_bytes config < vc_max_frame_bytes config
        then Inl VideoMemoryLimit
      else Inr
        \<lparr>vr_config = config, vr_pending = [], vr_pending_bytes = 0,
         vr_last_completed_frame_id = 0,
         vr_has_completed_keyframe = (\<not> vc_require_initial_keyframe config),
         vr_consecutive_dropped_frames = 0, vr_last_keyframe_request = None,
         vr_stats = video_stats_default\<rparr>)"

definition record_drops :: "video_reassembler \<Rightarrow> u32 \<Rightarrow> video_reassembler" where
  "record_drops st count =
     st\<lparr>vr_consecutive_dropped_frames := sat_add (vr_consecutive_dropped_frames st) count\<rparr>"

definition should_request_keyframe :: "video_reassembler \<Rightarrow> instant \<Rightarrow> bool \<times> video_reassembler" where
  "should_request_keyframe st now =
     (if vr_consecutive_dropped_frames st < vc_keyframe_request_after_drops (vr_config st)
        then (False, st)
      else if (case vr_last_keyframe_request st of
                 None \<Rightarrow> False
               | Some l \<Rightarrow> saturating_duration_since now l
                            < vc_keyframe_request_interval (vr_config st))
        then (False, st)
      else (True, st\<lparr>vr_last_keyframe_request := Some now\<rparr>))"

definition drop_frame :: "video_reassembler \<Rightarrow> u64 \<Rightarrow> bool \<Rightarrow> video_reassembler" where
  "drop_frame st frame_id record_drop =
     (case bm_get (vr_pending st) frame_id of
        None \<Rightarrow> st
      | Some frame \<Rightarrow>
          (let missing = fh_fragment_count (pf_header frame) - pf_received_fragments frame;
               st' = st\<lparr>vr_pending := bm_remove frame_id (vr_pending st),
                        vr_pending_bytes := vr_pending_bytes st - pf_received_bytes frame,
                        vr_stats := vs_missing_fragments_update
                           (\<lambda>n. sat_add n (word_of_usize_sat missing)) (vr_stats st)\<rparr> in
           if record_drop then record_drops st' 1 else st'))"

definition drop_obsolete_one :: "video_reassembler \<Rightarrow> u64 \<Rightarrow> video_reassembler" where
  "drop_obsolete_one st frame_id =
     (let st' = drop_frame st frame_id False in
      st'\<lparr>vr_stats := vs_obsolete_fragments_update (\<lambda>n. sat_add n 1) (vr_stats st')\<rparr>)"

definition drop_obsolete_pending :: "video_reassembler \<Rightarrow> u32 \<times> video_reassembler" where
  "drop_obsolete_pending st =
     (let obsolete = map fst (filter (\<lambda>e. fst e \<le> vr_last_completed_frame_id st) (vr_pending st));
          st' = foldl drop_obsolete_one st obsolete;
          count = word_of_usize_sat (length obsolete) :: u32 in
      (count, st'\<lparr>vr_stats := vs_obsolete_frames_update
                   (\<lambda>n. sat_add n (ucast count)) (vr_stats st')\<rparr>))"

definition frame_expired :: "video_config \<Rightarrow> instant \<Rightarrow> pending_frame \<Rightarrow> bool" where
  "frame_expired config now frame =
     (let (idle_deadline, lifetime) =
            (if is_keyframe_flags (vm_flags (fh_metadata (pf_header frame)))
             then (vc_keyframe_fragment_deadline config, vc_keyframe_lifetime config)
             else (vc_fragment_deadline config, vc_frame_lifetime config)) in
      saturating_duration_since now (pf_last_progress_at frame) \<ge> idle_deadline
      \<or> saturating_duration_since now (pf_created_at frame) \<ge> lifetime)"

definition expire_one :: "video_reassembler \<Rightarrow> u64 \<Rightarrow> video_reassembler" where
  "expire_one st frame_id =
     (let st1 = (case bm_get (vr_pending st) frame_id of
                   Some frame \<Rightarrow>
                     if is_keyframe_flags (vm_flags (fh_metadata (pf_header frame)))
                     then st\<lparr>vr_stats := vs_expired_keyframes_update (\<lambda>n. sat_add n 1) (vr_stats st)\<rparr>
                     else st
                 | None \<Rightarrow> st);
          st2 = drop_frame st1 frame_id False in
      st2\<lparr>vr_stats := vs_expired_frames_update (\<lambda>n. sat_add n 1) (vr_stats st2)\<rparr>)"

definition video_expire :: "video_reassembler \<Rightarrow> instant \<Rightarrow> video_reassembler \<times> video_outcome" where
  "video_expire st now =
     (let expired = map fst (filter (\<lambda>e. frame_expired (vr_config st) now (snd e)) (vr_pending st));
          dropped_frames = word_of_usize_sat (length expired) :: u32;
          st1 = foldl expire_one st expired;
          st2 = record_drops st1 dropped_frames;
          (request_keyframe, st3) = should_request_keyframe st2 now in
      (st3, \<lparr>vo_frame = None, vo_dropped_frames = dropped_frames,
             vo_request_keyframe = request_keyframe\<rparr>))"

definition video_reset :: "video_reassembler \<Rightarrow> video_reassembler" where
  "video_reset st =
     st\<lparr>vr_pending := [], vr_pending_bytes := 0, vr_last_completed_frame_id := 0,
        vr_has_completed_keyframe := (\<not> vc_require_initial_keyframe (vr_config st)),
        vr_consecutive_dropped_frames := 0, vr_last_keyframe_request := None\<rparr>"

definition validate_fragment_header ::
    "video_config \<Rightarrow> fragment_header \<Rightarrow> video_error + unit" where
  "validate_fragment_header config h =
     (case validate_frame_metadata (fh_metadata h) of
        Inl e \<Rightarrow> Inl e
      | Inr _ \<Rightarrow>
        if fh_fragment_count h = 0 \<or> fh_fragment_count h > MAX_VIDEO_FRAGMENTS
          then Inl (InvalidFragmentCount (fh_fragment_count h))
        else if fh_fragment_index h \<ge> fh_fragment_count h
          then Inl (InvalidFragmentIndex (fh_fragment_index h) (fh_fragment_count h))
        else if fh_frame_size h = 0 \<or> fh_frame_size h > vc_max_frame_bytes config
          then Inl (InvalidFrameSize (fh_frame_size h))
        else Inr ())"

text \<open>The oldest delta frame, or the oldest frame when only keyframes are pending.\<close>

definition eviction_victim :: "(u64, pending_frame) btree_map \<Rightarrow> u64 option" where
  "eviction_victim pending =
     (case List.find (\<lambda>e. \<not> is_keyframe_flags (vm_flags (fh_metadata (pf_header (snd e))))) pending of
        Some e \<Rightarrow> Some (fst e)
      | None \<Rightarrow> bm_first_key pending)"

definition video_evict_oldest :: "video_reassembler \<Rightarrow> bool \<times> video_reassembler" where
  "video_evict_oldest st =
     (case eviction_victim (vr_pending st) of
        None \<Rightarrow> (False, st)
      | Some frame_id \<Rightarrow>
          (let st1 = drop_frame st frame_id False;
               st2 = st1\<lparr>vr_stats := vs_evicted_frames_update (\<lambda>n. sat_add n 1) (vr_stats st1)\<rparr> in
           (True, record_drops st2 1)))"

text \<open>
  The loop that makes room for a new frame. If nothing could be evicted the state would
  not change and the loop would not end: that is \<open>None\<close>.
\<close>

lemma eviction_victim_None [simp]: "eviction_victim m = None \<longleftrightarrow> m = []"
  by (cases m) (auto simp: eviction_victim_def bm_first_key_def split: option.splits)

lemma eviction_victim_mem:
  assumes "eviction_victim m = Some k"
  shows "k \<in> fst ` set m"
proof (cases "List.find (\<lambda>e. \<not> is_keyframe_flags (vm_flags (fh_metadata (pf_header (snd e))))) m")
  case None
  with assms have "bm_first_key m = Some k" by (simp add: eviction_victim_def)
  then show ?thesis by (cases m) (auto simp: bm_first_key_def)
next
  case (Some e)
  then have "e \<in> set m" by (auto simp: find_Some_iff)
  with Some assms show ?thesis by (auto simp: eviction_victim_def)
qed

lemma length_remove_member: "k \<in> fst ` set m \<Longrightarrow> length (bm_remove k m) < length m"
proof -
  assume "k \<in> fst ` set m"
  then obtain e where "e \<in> set m" "\<not> fst e \<noteq> k" by auto
  then show ?thesis unfolding bm_remove_def by (rule length_filter_less)
qed

lemma length_remove_victim:
  "eviction_victim m = Some k \<Longrightarrow> length (bm_remove k m) < length m"
  by (rule length_remove_member [OF eviction_victim_mem])

lemma drop_frame_pending: "vr_pending (drop_frame st k r) = bm_remove k (vr_pending st)"
  by (auto simp: drop_frame_def record_drops_def Let_def bm_remove_absent split: option.splits)

lemma video_evict_oldest_shrinks:
  "video_evict_oldest st = (True, st') \<Longrightarrow> length (vr_pending st') < length (vr_pending st)"
  by (auto simp: video_evict_oldest_def record_drops_def drop_frame_pending Let_def
      length_remove_victim split: option.splits)

function make_room :: "video_reassembler \<Rightarrow> video_outcome \<Rightarrow> (video_reassembler \<times> video_outcome) option" where
  "make_room st outcome =
     (if length (vr_pending st) \<ge> vc_max_pending_frames (vr_config st) then
        (case video_evict_oldest st of
           (True, st') \<Rightarrow>
             make_room st' (outcome\<lparr>vo_dropped_frames := sat_add (vo_dropped_frames outcome) 1\<rparr>)
         | (False, st') \<Rightarrow> None)
      else Some (st, outcome))"
  by pat_completeness auto
termination
  by (relation "measure (\<lambda>(st, _). length (vr_pending st))")
    (auto dest: video_evict_oldest_shrinks [OF sym])

declare make_room.simps [simp del]

definition pending_frame_new :: "fragment_header \<Rightarrow> instant \<Rightarrow> pending_frame" where
  "pending_frame_new h now =
     \<lparr>pf_header = h, pf_fragments = replicate (fh_fragment_count h) None,
      pf_received_fragments = 0, pf_received_bytes = 0, pf_created_at = now,
      pf_last_progress_at = now, pf_max_fragment_gap = 0\<rparr>"

definition ensure_pending ::
    "video_reassembler \<Rightarrow> fragment_header \<Rightarrow> video_outcome \<Rightarrow> instant
     \<Rightarrow> (video_reassembler \<times> video_outcome) option" where
  "ensure_pending st h outcome now =
     (if bm_contains (vr_pending st) (vm_frame_id (fh_metadata h)) then Some (st, outcome)
      else case make_room st outcome of
        None \<Rightarrow> None
      | Some (st', outcome') \<Rightarrow>
          Some (st'\<lparr>vr_pending := bm_insert (vm_frame_id (fh_metadata h))
                      (pending_frame_new h now) (vr_pending st')\<rparr>, outcome'))"

definition video_bump_malformed :: "video_reassembler \<Rightarrow> video_reassembler" where
  "video_bump_malformed st =
     st\<lparr>vr_stats := vs_malformed_fragments_update (\<lambda>n. sat_add n 1) (vr_stats st)\<rparr>"

definition duration_us :: "duration \<Rightarrow> u64" where
  "duration_us d = word_of_usize_sat (as_micros d)"

text \<open>Delivery of a complete frame, the end of \<open>push\<close> from the keyframe test on, in the
  order of the code: assembly statistics, obsolete frames, the drop counter.\<close>

definition record_assembly :: "video_stats \<Rightarrow> pending_frame \<Rightarrow> instant \<Rightarrow> video_stats" where
  "record_assembly stats complete now =
     (let assembly_us = duration_us (saturating_duration_since now (pf_created_at complete)) in
      stats\<lparr>vs_last_frame_assembly_us := assembly_us,
            vs_max_frame_assembly_us := max (vs_max_frame_assembly_us stats) assembly_us,
            vs_max_fragment_gap_us :=
              max (vs_max_fragment_gap_us stats) (duration_us (pf_max_fragment_gap complete)),
            vs_last_frame_bytes := word_of_usize_sat (pf_received_bytes complete),
            vs_last_frame_fragments := word_of_usize_sat (pf_received_fragments complete)\<rparr>)"

definition retire_obsolete ::
    "video_reassembler \<Rightarrow> video_outcome \<Rightarrow> instant \<Rightarrow> video_reassembler \<times> video_outcome" where
  "retire_obsolete st outcome now =
     (let (obsolete_frames, st1) = drop_obsolete_pending st in
      if obsolete_frames > 0 then
        (let st2 = record_drops st1 obsolete_frames;
             (request, st3) = should_request_keyframe st2 now in
         (st3, outcome\<lparr>vo_dropped_frames := sat_add (vo_dropped_frames outcome) obsolete_frames,
                       vo_request_keyframe := vo_request_keyframe outcome \<or> request\<rparr>))
      else (st1, outcome))"

definition count_completed :: "video_reassembler \<Rightarrow> bool \<Rightarrow> video_outcome \<Rightarrow> video_reassembler" where
  "count_completed st is_keyframe outcome =
     (let st1 = (if is_keyframe \<or> vo_dropped_frames outcome = 0
                 then st\<lparr>vr_consecutive_dropped_frames := 0\<rparr> else st) in
      st1\<lparr>vr_stats := vs_completed_frames_update (\<lambda>n. sat_add n 1) (vr_stats st1)\<rparr>)"

definition withhold_frame ::
    "video_reassembler \<Rightarrow> video_outcome \<Rightarrow> instant \<Rightarrow> video_reassembler \<times> video_outcome" where
  "withhold_frame st outcome now =
     (let st1 = st\<lparr>vr_stats := vs_pre_keyframe_frames_update (\<lambda>n. sat_add n 1) (vr_stats st)\<rparr>;
          st2 = record_drops st1 1;
          (request, st3) = should_request_keyframe st2 now in
      (st3, outcome\<lparr>vo_dropped_frames := sat_add (vo_dropped_frames outcome) 1,
                    vo_request_keyframe := vo_request_keyframe outcome \<or> request\<rparr>))"

definition deliver_frame ::
    "video_reassembler \<Rightarrow> fragment_header \<Rightarrow> pending_frame \<Rightarrow> video_outcome \<Rightarrow> instant
     \<Rightarrow> (video_reassembler \<times> (video_error + video_outcome)) option" where
  "deliver_frame st h complete outcome now =
     (let frame_id = vm_frame_id (fh_metadata h);
          is_keyframe = is_keyframe_flags (vm_flags (fh_metadata h));
          st1 = st\<lparr>vr_pending := bm_remove frame_id (vr_pending st),
                   vr_pending_bytes := vr_pending_bytes st - pf_received_bytes complete\<rparr> in
      if \<not> vr_has_completed_keyframe st1 \<and> \<not> is_keyframe then
        (case withhold_frame st1 outcome now of (st2, outcome1) \<Rightarrow> Some (st2, Inr outcome1))
      else case those (pf_fragments complete) of
        None \<Rightarrow> None
      | Some fragments \<Rightarrow>
          (let st2 = st1\<lparr>vr_stats := record_assembly (vr_stats st1) complete now,
                         vr_last_completed_frame_id := vm_frame_id (fh_metadata (pf_header complete)),
                         vr_has_completed_keyframe := vr_has_completed_keyframe st1 \<or> is_keyframe\<rparr>;
               (st3, outcome1) = retire_obsolete st2 outcome now;
               st4 = count_completed st3 is_keyframe outcome1 in
           Some (st4, Inr (outcome1\<lparr>vo_frame := Some
                   \<lparr>cf_metadata = fh_metadata (pf_header complete),
                    cf_payload = concat fragments\<rparr>\<rparr>))))"

text \<open>Recording a fragment in its pending frame, and what follows from its new totals.\<close>

definition store_fragment :: "pending_frame \<Rightarrow> usize \<Rightarrow> bytes \<Rightarrow> instant \<Rightarrow> pending_frame" where
  "store_fragment pending idx payload now =
     pending\<lparr>pf_max_fragment_gap :=
               max (pf_max_fragment_gap pending)
                 (saturating_duration_since now (pf_last_progress_at pending)),
             pf_fragments := (pf_fragments pending)[idx := Some payload],
             pf_received_fragments := pf_received_fragments pending + 1,
             pf_received_bytes := pf_received_bytes pending + length payload,
             pf_last_progress_at := now\<rparr>"

definition settle_fragment ::
    "video_reassembler \<Rightarrow> fragment_header \<Rightarrow> pending_frame \<Rightarrow> video_outcome \<Rightarrow> instant
     \<Rightarrow> (video_reassembler \<times> (video_error + video_outcome)) option" where
  "settle_fragment st h pending outcome now =
     (let frame_id = vm_frame_id (fh_metadata h) in
      if pf_received_bytes pending > fh_frame_size h then
        Some (video_bump_malformed (drop_frame st frame_id False),
              Inl (InvalidFrameSize (pf_received_bytes pending)))
      else if pf_received_fragments pending \<noteq> fh_fragment_count h then
        (let (request, st') = should_request_keyframe st now in
         Some (st', Inr (outcome\<lparr>vo_request_keyframe := vo_request_keyframe outcome \<or> request\<rparr>)))
      else if pf_received_bytes pending \<noteq> fh_frame_size h then
        Some (video_bump_malformed (drop_frame st frame_id False),
              Inl (InvalidFrameSize (pf_received_bytes pending)))
      else deliver_frame st h pending outcome now)"

definition accept_fragment ::
    "video_reassembler \<Rightarrow> fragment_header \<Rightarrow> bytes \<Rightarrow> video_outcome \<Rightarrow> instant
     \<Rightarrow> (video_reassembler \<times> (video_error + video_outcome)) option" where
  "accept_fragment st h payload outcome now =
     (let frame_id = vm_frame_id (fh_metadata h); idx = fh_fragment_index h in
      case bm_get (vr_pending st) frame_id of
        None \<Rightarrow> None
      | Some pending \<Rightarrow>
        if \<not> belongs_to_same_frame (pf_header pending) h then
          Some (video_bump_malformed (drop_frame st frame_id False), Inl InconsistentMetadata)
        else if idx \<ge> length (pf_fragments pending) then None
        else case pf_fragments pending ! idx of
          Some existing \<Rightarrow>
            if existing = payload then
              Some (st\<lparr>vr_stats := vs_duplicate_fragments_update (\<lambda>n. sat_add n 1) (vr_stats st)\<rparr>,
                    Inr outcome)
            else Some (video_bump_malformed (drop_frame st frame_id False), Inl ConflictingDuplicate)
        | None \<Rightarrow>
            if usize_sat_add (vr_pending_bytes st) (length payload)
               > vc_max_memory_bytes (vr_config st) then
              Some (drop_frame st frame_id False, Inl VideoMemoryLimit)
            else
              (let pending' = store_fragment pending idx payload now in
               settle_fragment
                 (st\<lparr>vr_pending := bm_insert frame_id pending' (vr_pending st),
                     vr_pending_bytes := vr_pending_bytes st + length payload\<rparr>)
                 h pending' outcome now))"

definition push_fragment ::
    "video_reassembler \<Rightarrow> fragment_header \<Rightarrow> bytes \<Rightarrow> video_outcome \<Rightarrow> instant
     \<Rightarrow> (video_reassembler \<times> (video_error + video_outcome)) option" where
  "push_fragment st h payload outcome now =
     (case validate_fragment_header (vr_config st) h of
        Inl e \<Rightarrow> Some (st, Inl e)
      | Inr _ \<Rightarrow>
        if vm_frame_id (fh_metadata h) \<le> vr_last_completed_frame_id st then
          Some (st\<lparr>vr_stats := vs_obsolete_fragments_update (\<lambda>n. sat_add n 1) (vr_stats st)\<rparr>,
                Inr outcome)
        else case ensure_pending st h outcome now of
          None \<Rightarrow> None
        | Some (st', outcome') \<Rightarrow> accept_fragment st' h payload outcome' now)"

definition video_push ::
    "video_reassembler \<Rightarrow> bytes \<Rightarrow> instant
     \<Rightarrow> (video_reassembler \<times> (video_error + video_outcome)) option" where
  "video_push st0 datagram now =
     (let (st, outcome) = video_expire st0 now in
      case decode_message datagram of
        Inl e \<Rightarrow> Some (st, Inl (VideoProtocol e))
      | Inr message \<Rightarrow>
        if mh_message_type (pm_header message) \<noteq> VideoFragment then
          Some (st, Inl (VideoProtocol (ChannelMismatch (mh_message_type (pm_header message))
                                          (mh_channel (pm_header message)))))
        else case decode_fragment_payload (pm_payload message) of
          Inl e \<Rightarrow> Some (st, Inl e)
        | Inr (h, payload) \<Rightarrow> push_fragment st h payload outcome now)"

end
