(* ===== verification/Video_Fragmentation.thy ===== *)
theory Video_Fragmentation
  imports Video_Datagram
begin

text \<open>
  The sender's half of the video path: the fragment header codec is exact, and
  \<open>fragment_video_frame\<close> cuts a frame into datagrams that respect the datagram size,
  carry consecutive sequence numbers and together hold exactly the bytes of the frame.
\<close>

section \<open>The fragment codec\<close>

interpretation video_codec: enum_code video_codec_code video_codec_try_from
proof
  show "video_codec_try_from (video_codec_code x) = Inr x" for x
    by (cases x) (simp_all add: video_codec_try_from_def)
  show "video_codec_try_from w = Inr x \<Longrightarrow> video_codec_code x = w" for w x
    by (auto simp: video_codec_try_from_def split: if_splits)
qed

definition fragment_bytes :: "fragment_header \<Rightarrow> bytes \<Rightarrow> bytes" where
  "fragment_bytes h fragment =
     u64_be (vm_frame_id (fh_metadata h)) @ u16_be (of_nat (fh_fragment_index h)) @
     u16_be (of_nat (fh_fragment_count h)) @ [video_codec_code (vm_codec (fh_metadata h))] @
     [vm_flags (fh_metadata h)] @ u16_be 0 @
     u64_be (vm_presentation_timestamp_us (fh_metadata h)) @
     u32_be (of_nat (fh_frame_size h)) @ fragment"

lemma encode_fragment_payload_eq_Inr:
  "encode_fragment_payload h f = Inr bs \<longleftrightarrow>
     f \<noteq> [] \<and> fh_fragment_index h < 2 ^ 16 \<and> fh_fragment_count h < 2 ^ 16 \<and>
     fh_frame_size h < 2 ^ 32 \<and> bs = fragment_bytes h f"
  by (auto simp: encode_fragment_payload_def fragment_bytes_def word_try_from_def)

lemma length_fragment_bytes: "length (fragment_bytes h f) = VIDEO_FRAGMENT_HEADER_LEN + length f"
  by (simp add: fragment_bytes_def VIDEO_FRAGMENT_HEADER_LEN_def)

lemma decode_encode_fragment:
  assumes "encode_fragment_payload h f = Inr bs"
  shows "decode_fragment_payload bs = Inr (h, f)"
proof -
  from assms have f: "f \<noteq> []" and idx: "fh_fragment_index h < 2 ^ 16"
    and cnt: "fh_fragment_count h < 2 ^ 16" and size: "fh_frame_size h < 2 ^ 32"
    and bs: "bs = fragment_bytes h f"
    by (auto simp: encode_fragment_payload_eq_Inr)
  have "\<not> length bs \<le> VIDEO_FRAGMENT_HEADER_LEN" using f by (simp add: bs length_fragment_bytes)
  with idx cnt size show ?thesis
    by (simp add: decode_fragment_payload_def bs fragment_bytes_def wire_simps
        video_codec.try_from_code VIDEO_FRAGMENT_HEADER_LEN_def take_bit_eq_mod unat_of_nat)
qed

lemma encode_decode_fragment:
  assumes "decode_fragment_payload bs = Inr (h, f)"
  shows "encode_fragment_payload h f = Inr bs"
proof -
  from assms have len: "28 < length bs" and reserved: "read_u16 bs 14 = 0"
    and codec: "video_codec_code (vm_codec (fh_metadata h)) = bs ! 12"
    and fields: "vm_frame_id (fh_metadata h) = read_u64 bs 0" "vm_flags (fh_metadata h) = bs ! 13"
      "vm_presentation_timestamp_us (fh_metadata h) = read_u64 bs 16"
      "fh_fragment_index h = unat (read_u16 bs 8)" "fh_fragment_count h = unat (read_u16 bs 10)"
      "fh_frame_size h = unat (read_u32 bs 24)"
    and f: "f = drop 28 bs"
    by (auto simp: decode_fragment_payload_def VIDEO_FRAGMENT_HEADER_LEN_def
        video_codec.try_from_iff split: if_splits sum.splits)
  have bounds: "unat (read_u16 bs 8) < 2 ^ 16" "unat (read_u16 bs 10) < 2 ^ 16"
      "unat (read_u32 bs 24) < 2 ^ 32"
    using unat_word_bound [of "read_u16 bs 8"] unat_word_bound [of "read_u16 bs 10"]
      unat_word_bound [of "read_u32 bs 24"] by simp_all
  have "bs = u64_be (read_u64 bs 0) @ u16_be (read_u16 bs 8) @ u16_be (read_u16 bs 10) @
      [bs ! 12] @ [bs ! 13] @ u16_be (read_u16 bs 14) @ u64_be (read_u64 bs 16) @
      u32_be (read_u32 bs 24) @ drop 28 bs"
    using len cut_u64 [of 0 bs] cut_u16 [of 8 bs] cut_u16 [of 10 bs] cut_u8 [of 12 bs]
      cut_u8 [of 13 bs] cut_u16 [of 14 bs] cut_u64 [of 16 bs] cut_u32 [of 24 bs]
    by simp
  then have "fragment_bytes h f = bs"
    by (simp add: fragment_bytes_def fields codec f reserved)
  with len bounds show ?thesis
    by (simp add: encode_fragment_payload_eq_Inr fields f)
qed

interpretation fragment_codec: wire_codec "\<lambda>_. True"
  "\<lambda>(h, f). encode_fragment_payload h f" decode_fragment_payload
  by unfold_locales (auto simp: decode_encode_fragment dest: encode_decode_fragment)

section \<open>Fragmentation\<close>

lemma chunks_nonempty: "c \<in> set (chunks n xs) \<Longrightarrow> c \<noteq> [] \<and> length c \<le> n"
proof (induction n xs rule: chunks.induct)
  case (1 n xs)
  then show ?case by (subst (asm) (2) chunks.simps) (auto split: if_splits)
qed

lemma div_ceil_step:
  assumes "0 < n" and "0 < m"
  shows "div_ceil m n = Suc (div_ceil (m - n) n)"
proof -
  have "m + n - 1 = (m - 1) + n" using assms by simp
  then have "div_ceil m n = Suc ((m - 1) div n)"
    unfolding div_ceil_def using assms by (simp only: div_add_self2)
  moreover have "div_ceil (m - n) n = (m - 1) div n"
  proof (cases "n \<le> m")
    case True
    then show ?thesis by (simp add: div_ceil_def)
  next
    case False
    with assms show ?thesis by (simp add: div_ceil_def)
  qed
  ultimately show ?thesis by simp
qed

lemma length_chunks: "0 < n \<Longrightarrow> length (chunks n xs) = div_ceil (length xs) n"
proof (induction n xs rule: chunks.induct)
  case (1 n xs)
  then show ?case
    by (cases "xs = []") (simp_all add: chunks_step div_ceil_step div_ceil_def [of 0])
qed

lemma map_result_nth:
  "map_result f xs = Inr ys \<Longrightarrow> i < length xs \<Longrightarrow> f (xs ! i) = Inr (ys ! i)"
proof (induction xs arbitrary: ys i)
  case (Cons x xs)
  then show ?case by (cases i) (auto split: sum.splits)
qed simp

lemma fragment_datagram_eq_Inr:
  "fragment_datagram sid seq ts md cnt sz (i, frag) = Inr d \<longleftrightarrow>
     (\<exists>payload header.
        encode_fragment_payload
          \<lparr>fh_metadata = md, fh_fragment_index = i, fh_fragment_count = cnt,
           fh_frame_size = sz\<rparr> frag = Inr payload \<and>
        message_header_new VideoFragment 0 sid (seq + of_nat i) (length payload) ts = Inr header \<and>
        encode_message header payload = Inr d)"
  by (auto simp: fragment_datagram_def split: sum.splits)

text \<open>What a datagram of a fragmented frame carries.\<close>

definition carries :: "bytes \<Rightarrow> fragment_header \<Rightarrow> bytes \<Rightarrow> bool" where
  "carries d h f \<longleftrightarrow>
     (\<exists>m. decode_message d = Inr m \<and> mh_message_type (pm_header m) = VideoFragment \<and>
          decode_fragment_payload (pm_payload m) = Inr (h, f))"

lemma fragment_datagram_carries:
  assumes "length sid = 16" and "fragment_datagram sid seq ts md cnt sz (i, frag) = Inr d"
  shows "carries d \<lparr>fh_metadata = md, fh_fragment_index = i, fh_fragment_count = cnt,
      fh_frame_size = sz\<rparr> frag"
    and "length d = HEADER_LEN + VIDEO_FRAGMENT_HEADER_LEN + length frag"
proof -
  let ?h = "\<lparr>fh_metadata = md, fh_fragment_index = i, fh_fragment_count = cnt,
      fh_frame_size = sz\<rparr>"
  from assms(2) obtain payload header where
    payload: "encode_fragment_payload ?h frag = Inr payload"
    and header: "message_header_new VideoFragment 0 sid (seq + of_nat i) (length payload) ts = Inr header"
    and d: "encode_message header payload = Inr d"
    by (auto simp: fragment_datagram_eq_Inr)
  from header assms(1) have sid: "length (mh_session_id header) = 16"
    and mt: "mh_message_type header = VideoFragment"
    by (auto simp: message_header_new_eq_Inr)
  from decode_encode_message [OF sid d] decode_encode_fragment [OF payload] mt
  show "carries d ?h frag" by (auto simp: carries_def)
  from payload have "length payload = VIDEO_FRAGMENT_HEADER_LEN + length frag"
    by (simp add: encode_fragment_payload_eq_Inr length_fragment_bytes)
  moreover from d have "d = header_bytes header @ payload" by (simp add: encode_message_eq_Inr)
  ultimately show "length d = HEADER_LEN + VIDEO_FRAGMENT_HEADER_LEN + length frag"
    by (simp add: length_header_bytes [OF sid])
qed

text \<open>
  The pieces of a fragmented frame: how many there are, and the header and bytes of each.
\<close>

definition frame_pieces :: "bytes \<Rightarrow> usize \<Rightarrow> bytes list" where
  "frame_pieces frame mds = chunks (mds - (HEADER_LEN + VIDEO_FRAGMENT_HEADER_LEN)) frame"

definition piece_header :: "video_frame_metadata \<Rightarrow> bytes \<Rightarrow> usize \<Rightarrow> nat \<Rightarrow> fragment_header" where
  "piece_header md frame mds i =
     \<lparr>fh_metadata = md, fh_fragment_index = i,
      fh_fragment_count = length (frame_pieces frame mds), fh_frame_size = length frame\<rparr>"

lemma fragment_video_frame_Inr:
  assumes "fragment_video_frame sid seq ts md frame mds = Inr ds"
  shows "validate_frame_metadata md = Inr ()"
    and "frame \<noteq> []" and "length frame \<le> MAX_VIDEO_FRAME_BYTES"
    and "HEADER_LEN + VIDEO_FRAGMENT_HEADER_LEN < mds"
    and "length (frame_pieces frame mds) \<le> MAX_VIDEO_FRAGMENTS"
    and "length (frame_pieces frame mds)
           = div_ceil (length frame) (mds - (HEADER_LEN + VIDEO_FRAGMENT_HEADER_LEN))"
    and "0 < length (frame_pieces frame mds)"
    and "unat seq + length (frame_pieces frame mds) \<le> 2 ^ 64"
    and "length ds = length (frame_pieces frame mds)"
    and "\<And>i. i < length ds \<Longrightarrow>
       fragment_datagram sid seq ts md (length (frame_pieces frame mds)) (length frame)
         (i, frame_pieces frame mds ! i) = Inr (ds ! i)"
proof -
  let ?n = "mds - (HEADER_LEN + VIDEO_FRAGMENT_HEADER_LEN)"
  let ?cnt = "div_ceil (length frame) ?n"
  from assms have md: "validate_frame_metadata md = Inr ()"
    and frame: "frame \<noteq> []" "length frame \<le> MAX_VIDEO_FRAME_BYTES"
    and mds: "HEADER_LEN + VIDEO_FRAGMENT_HEADER_LEN < mds"
    and cnt: "0 < ?cnt" "?cnt \<le> MAX_VIDEO_FRAGMENTS"
    and seq: "checked_add seq (of_nat ?cnt - 1) \<noteq> None"
    and loop: "map_result (fragment_datagram sid seq ts md ?cnt (length frame))
        (List.enumerate 0 (chunks ?n frame)) = Inr ds"
    by (auto simp: fragment_video_frame_def Let_def not_less split: sum.splits if_splits option.splits)
  have len: "length (frame_pieces frame mds) = ?cnt"
    using mds by (simp add: frame_pieces_def length_chunks)
  show "validate_frame_metadata md = Inr ()" "frame \<noteq> []" "length frame \<le> MAX_VIDEO_FRAME_BYTES"
    "HEADER_LEN + VIDEO_FRAGMENT_HEADER_LEN < mds"
    using md frame mds by auto
  show "length (frame_pieces frame mds) \<le> MAX_VIDEO_FRAGMENTS"
    "0 < length (frame_pieces frame mds)" "length (frame_pieces frame mds) = ?cnt"
    using cnt len by auto
  from loop show dlen: "length ds = length (frame_pieces frame mds)"
    using map_result_length [OF loop] by (simp add: frame_pieces_def)
  have "(of_nat ?cnt - 1 :: u64) = of_nat (?cnt - 1)" using cnt(1) by (simp add: of_nat_diff)
  moreover have "unat (of_nat (?cnt - 1) :: u64) = ?cnt - 1"
    using cnt(2) by (intro unat_of_nat_exact) (simp add: MAX_VIDEO_FRAGMENTS_def)
  ultimately show "unat seq + length (frame_pieces frame mds) \<le> 2 ^ 64"
    using seq cnt(1) by (auto simp: checked_add_def len split: if_splits)
  fix i assume "i < length ds"
  then have "i < length (chunks ?n frame)" by (simp add: dlen frame_pieces_def)
  then have "List.enumerate 0 (chunks ?n frame) ! i = (i, chunks ?n frame ! i)"
    by (simp add: nth_enumerate_eq)
  with map_result_nth [OF loop, of i] \<open>i < length (chunks ?n frame)\<close>
  show "fragment_datagram sid seq ts md (length (frame_pieces frame mds)) (length frame)
         (i, frame_pieces frame mds ! i) = Inr (ds ! i)"
    by (simp add: len) (simp add: frame_pieces_def)
qed

lemma fragment_video_frame_carries:
  assumes "length sid = 16" and "fragment_video_frame sid seq ts md frame mds = Inr ds"
    and "i < length ds"
  shows "carries (ds ! i) (piece_header md frame mds i) (frame_pieces frame mds ! i)"
    and "length (ds ! i)
           = HEADER_LEN + VIDEO_FRAGMENT_HEADER_LEN + length (frame_pieces frame mds ! i)"
  using fragment_datagram_carries
    [OF assms(1) fragment_video_frame_Inr(10) [OF assms(2,3)]]
  by (simp_all add: piece_header_def)

lemma frame_pieces_concat:
  "HEADER_LEN + VIDEO_FRAGMENT_HEADER_LEN < mds \<Longrightarrow> concat (frame_pieces frame mds) = frame"
  by (simp add: frame_pieces_def concat_chunks)

lemma frame_pieces_bounds:
  "p \<in> set (frame_pieces frame mds) \<Longrightarrow>
     p \<noteq> [] \<and> length p \<le> mds - (HEADER_LEN + VIDEO_FRAGMENT_HEADER_LEN)"
  by (auto simp: frame_pieces_def dest: chunks_nonempty)

text \<open>Fragmentation succeeds on every frame within the limits.\<close>

lemma map_result_total: "(\<And>x. x \<in> set xs \<Longrightarrow> \<exists>y. f x = Inr y) \<Longrightarrow> \<exists>ys. map_result f xs = Inr ys"
proof (induction xs)
  case (Cons x xs)
  then obtain y ys where "f x = Inr y" "map_result f xs = Inr ys" by fastforce
  then show ?case by simp
qed simp

lemma seq_plus_nonzero:
  assumes "(seq :: u64) \<noteq> 0" and "unat seq + n \<le> 2 ^ 64" and "i < n"
  shows "seq + of_nat i \<noteq> 0"
proof -
  have "unat (of_nat i :: u64) = i" using assms by (intro unat_of_nat_exact) simp
  with assms have "unat (seq + of_nat i) = unat seq + i" by (simp add: unat_add_exact)
  moreover have "0 < unat seq" using assms(1) by (simp add: unat_gt_0)
  ultimately show ?thesis by (metis add_is_0 less_numeral_extra(3) unsigned_0)
qed

lemma fragment_datagram_total:
  assumes "frag \<noteq> []" and "cnt \<le> MAX_VIDEO_FRAGMENTS" and "i < cnt" and "sz \<le> MAX_VIDEO_FRAME_BYTES"
    and "\<exists>b \<in> set sid. b \<noteq> 0" and "seq \<noteq> 0" and "unat seq + cnt \<le> 2 ^ 64"
    and "VIDEO_FRAGMENT_HEADER_LEN + length frag \<le> 64 * 1024"
  shows "\<exists>d. fragment_datagram sid seq ts md cnt sz (i, frag) = Inr d"
proof -
  let ?h = "\<lparr>fh_metadata = md, fh_fragment_index = i, fh_fragment_count = cnt, fh_frame_size = sz\<rparr>"
  have enc: "encode_fragment_payload ?h frag = Inr (fragment_bytes ?h frag)"
    using assms(1-4)
    by (simp add: encode_fragment_payload_eq_Inr MAX_VIDEO_FRAGMENTS_def MAX_VIDEO_FRAME_BYTES_def)
  have ok: "header_ok VideoFragment 0 (message_channel VideoFragment) sid (seq + of_nat i)
      (length (fragment_bytes ?h frag))"
    using assms seq_plus_nonzero [of seq cnt i] by (simp add: header_ok_def length_fragment_bytes)
  then show ?thesis
    using enc header_ok_payload_bound [OF ok]
    by (auto simp: fragment_datagram_eq_Inr message_header_new_eq_Inr encode_message_eq_Inr
        unat_of_nat_exact)
qed

lemma fragment_video_frame_total:
  assumes md: "validate_frame_metadata md = Inr ()" and ne: "frame \<noteq> []"
    and sz: "length frame \<le> MAX_VIDEO_FRAME_BYTES"
    and mds: "HEADER_LEN + VIDEO_FRAGMENT_HEADER_LEN < mds" "mds \<le> HEADER_LEN + 64 * 1024"
    and cnt: "div_ceil (length frame) (mds - (HEADER_LEN + VIDEO_FRAGMENT_HEADER_LEN)) \<le> MAX_VIDEO_FRAGMENTS"
    and seq: "seq \<noteq> 0"
      "unat seq + div_ceil (length frame) (mds - (HEADER_LEN + VIDEO_FRAGMENT_HEADER_LEN)) \<le> 2 ^ 64"
    and sid: "\<exists>b \<in> set sid. b \<noteq> 0"
  shows "\<exists>ds. fragment_video_frame sid seq ts md frame mds = Inr ds"
proof -
  let ?n = "mds - (HEADER_LEN + VIDEO_FRAGMENT_HEADER_LEN)" and ?cnt = "div_ceil (length frame)
      (mds - (HEADER_LEN + VIDEO_FRAGMENT_HEADER_LEN))"
  have n: "0 < ?n" using mds by simp
  have pos: "0 < ?cnt" using n ne by (simp add: div_ceil_step)
  have w: "(of_nat ?cnt - 1 :: u64) = of_nat (?cnt - 1)" using pos by (simp add: of_nat_diff)
  have u: "unat (of_nat (?cnt - 1) :: u64) = ?cnt - 1"
    using cnt by (intro unat_of_nat_exact) (simp add: MAX_VIDEO_FRAGMENTS_def)
  have "unat seq + (?cnt - 1) < 2 ^ LENGTH(64)" using seq(2) pos by simp
  then have add: "checked_add seq (of_nat ?cnt - 1) \<noteq> None"
    unfolding w checked_add_def u by (simp only: if_True) simp
  have "\<exists>d. fragment_datagram sid seq ts md ?cnt (length frame) x = Inr d"
    if x: "x \<in> set (List.enumerate 0 (chunks ?n frame))" for x
  proof -
    obtain i frag where xx: "x = (i, frag)" by fastforce
    with x have "i < length (chunks ?n frame)" and f: "frag = chunks ?n frame ! i"
      by (auto simp: in_set_enumerate_eq)
    then have "i < ?cnt" and "frag \<noteq> []" and "length frag \<le> ?n"
      using chunks_nonempty [of frag ?n frame] n by (auto simp: length_chunks)
    with mds cnt sz sid seq show ?thesis
      unfolding xx by (intro fragment_datagram_total) auto
  qed
  from map_result_total [OF this] show ?thesis
    using md ne sz mds(1) pos cnt add by (auto simp: fragment_video_frame_def Let_def)
qed

section \<open>Properties\<close>

text \<open>
  Exactness of the fragment codec. \<open>decode_fragment_payload\<close> accepts a payload
  with a given header and fragment if and only if \<open>encode_fragment_payload\<close> produces exactly
  that payload from them.
\<close>

lemma fragment_codec_exact:
  "decode_fragment_payload payload = Inr (header, fragment) \<longleftrightarrow>
     encode_fragment_payload header fragment = Inr payload"
  using fragment_codec.dec_iff [of payload "(header, fragment)"] by simp

text \<open>
  What the sender emits for a frame. \<open>fragment_video_frame\<close> produces the
  rounded-up number of datagrams; each fits the datagram size, decodes to a video fragment
  whose header names the frame, its position, the count and the frame size; and the
  fragments in order are the bytes of the frame.
\<close>

lemma fragment_video_frame_correct:
  assumes "length sid = 16" and "fragment_video_frame sid seq ts md frame mds = Inr ds"
  shows "length ds = div_ceil (length frame) (mds - (HEADER_LEN + VIDEO_FRAGMENT_HEADER_LEN)) \<and>
     (\<exists>pieces. length pieces = length ds \<and> concat pieces = frame \<and>
           (\<forall>i < length ds. length (ds ! i) \<le> mds \<and>
              carries (ds ! i) \<lparr>fh_metadata = md, fh_fragment_index = i,
                fh_fragment_count = length ds, fh_frame_size = length frame\<rparr> (pieces ! i)))"
proof -
  note r = fragment_video_frame_Inr [OF assms(2)]
  have "length ds = div_ceil (length frame) (mds - (HEADER_LEN + VIDEO_FRAGMENT_HEADER_LEN))"
    using r(6,9) by simp
  moreover have "length (ds ! i) \<le> mds" if "i < length ds" for i
    using fragment_video_frame_carries(2) [OF assms that] that r(4,9)
      frame_pieces_bounds [of "frame_pieces frame mds ! i" frame mds] by auto
  moreover have "carries (ds ! i) \<lparr>fh_metadata = md, fh_fragment_index = i,
      fh_fragment_count = length ds, fh_frame_size = length frame\<rparr> (frame_pieces frame mds ! i)"
    if "i < length ds" for i
    using fragment_video_frame_carries(1) [OF assms that] r(9) by (simp add: piece_header_def)
  ultimately show ?thesis
    using frame_pieces_concat [OF r(4)] r(9)
    by (intro conjI exI [of _ "frame_pieces frame mds"]) simp_all
qed

text \<open>A five-byte keyframe, two bytes to a datagram.\<close>

definition sample_metadata :: video_frame_metadata where
  "sample_metadata = \<lparr>vm_frame_id = 1, vm_codec = H264, vm_flags = 1,
     vm_presentation_timestamp_us = 40\<rparr>"

definition sample_frame :: bytes where
  "sample_frame = [1, 2, 3, 4, 5]"

lemma sample_metadata_valid: "validate_frame_metadata sample_metadata = Inr ()"
  by (simp add: validate_frame_metadata_def sample_metadata_def KNOWN_FRAME_FLAGS_def
      FLAG_KEYFRAME_def FLAG_CODEC_CONFIG_def)

lemma sample_fragmented:
  obtains ds where "fragment_video_frame sample_session 1 0 sample_metadata sample_frame 78 = Inr ds"
proof -
  have "\<exists>ds. fragment_video_frame sample_session 1 0 sample_metadata sample_frame 78 = Inr ds"
    by (rule fragment_video_frame_total [OF sample_metadata_valid])
      (simp_all add: sample_frame_def sample_session_def MAX_VIDEO_FRAME_BYTES_def HEADER_LEN_def
        VIDEO_FRAGMENT_HEADER_LEN_def div_ceil_def MAX_VIDEO_FRAGMENTS_def)
  with that show ?thesis by blast
qed

theorem fragment_video_frame_correct_witness:
  "\<exists>ds. fragment_video_frame sample_session 1 0 sample_metadata sample_frame 78 = Inr ds \<and>
     length sample_session = 16 \<and> length ds = 3"
proof -
  obtain ds where ds: "fragment_video_frame sample_session 1 0 sample_metadata sample_frame 78 = Inr ds"
    by (rule sample_fragmented)
  have "length sample_session = 16" by (simp add: sample_session_def)
  from fragment_video_frame_correct [OF this ds] ds this show ?thesis
    by (simp add: sample_frame_def HEADER_LEN_def VIDEO_FRAGMENT_HEADER_LEN_def div_ceil_def)
qed

end
