(* ===== verification/Video_Reassembly.thy ===== *)
theory Video_Reassembly
  imports Video_Fragmentation
begin

text \<open>
  The receiver's half of the video path. The invariant of the reassembler says that its
  byte counter is the sum over the pending frames and within the configured memory, that
  the number of pending frames is bounded, and that each pending frame accounts exactly
  for the fragments it holds. Every method keeps it, and under it \<open>push\<close> always returns.
\<close>

section \<open>The invariant\<close>

definition present :: "bytes option list \<Rightarrow> bytes list" where
  "present fs = List.map_filter id fs"

definition pending_ok :: "video_config \<Rightarrow> u64 \<Rightarrow> pending_frame \<Rightarrow> bool" where
  "pending_ok cfg k f \<longleftrightarrow>
     vm_frame_id (fh_metadata (pf_header f)) = k \<and>
     validate_fragment_header cfg (pf_header f) = Inr () \<and>
     length (pf_fragments f) = fh_fragment_count (pf_header f) \<and>
     pf_received_fragments f = length (present (pf_fragments f)) \<and>
     pf_received_bytes f = length (concat (present (pf_fragments f))) \<and>
     pf_received_fragments f < fh_fragment_count (pf_header f) \<and>
     pf_received_bytes f \<le> fh_frame_size (pf_header f)"

definition video_config_ok :: "video_config \<Rightarrow> bool" where
  "video_config_ok cfg \<longleftrightarrow>
     0 < vc_max_frame_bytes cfg \<and> vc_max_frame_bytes cfg \<le> MAX_VIDEO_FRAME_BYTES \<and>
     0 < vc_max_pending_frames cfg \<and> vc_max_frame_bytes cfg \<le> vc_max_memory_bytes cfg \<and>
     vc_max_memory_bytes cfg < usize_max"

definition reassembly_inv ::
    "video_config \<Rightarrow> (u64, pending_frame) btree_map \<Rightarrow> usize \<Rightarrow> u64 \<Rightarrow> bool" where
  "reassembly_inv cfg pending bytes completed \<longleftrightarrow>
     video_config_ok cfg \<and> bm_ok pending \<and>
     (\<forall>(k, f) \<in> set pending. completed < k \<and> pending_ok cfg k f) \<and>
     bytes = bm_sum pf_received_bytes pending \<and>
     bytes \<le> vc_max_memory_bytes cfg \<and> length pending \<le> vc_max_pending_frames cfg"

definition video_inv_at :: "u64 \<Rightarrow> video_reassembler \<Rightarrow> bool" where
  "video_inv_at completed st \<longleftrightarrow>
     reassembly_inv (vr_config st) (vr_pending st) (vr_pending_bytes st) completed"

definition video_inv :: "video_reassembler \<Rightarrow> bool" where
  "video_inv st \<longleftrightarrow> video_inv_at (vr_last_completed_frame_id st) st"

lemma reassembly_inv_get:
  "reassembly_inv cfg pending bytes completed \<Longrightarrow> bm_get pending k = Some f \<Longrightarrow>
     completed < k \<and> pending_ok cfg k f"
  by (auto simp: reassembly_inv_def dest: bm_get_mem)

lemma reassembly_inv_remove:
  assumes "reassembly_inv cfg pending bytes completed" and "bm_get pending k = Some f"
  shows "reassembly_inv cfg (bm_remove k pending) (bytes - pf_received_bytes f) completed"
proof -
  from assms have "bm_sum pf_received_bytes pending
      = pf_received_bytes f + bm_sum pf_received_bytes (bm_remove k pending)"
    by (intro bm_sum_remove) (auto simp: reassembly_inv_def)
  with assms(1) length_bm_remove_le [of k pending] show ?thesis
    by (auto simp: reassembly_inv_def set_bm_remove)
qed

section \<open>Bookkeeping steps keep it\<close>

lemma drop_frame_frame:
  "vr_config (drop_frame st k r) = vr_config st"
  "vr_last_completed_frame_id (drop_frame st k r) = vr_last_completed_frame_id st"
  "vr_has_completed_keyframe (drop_frame st k r) = vr_has_completed_keyframe st"
  "vr_last_keyframe_request (drop_frame st k r) = vr_last_keyframe_request st"
  by (auto simp: drop_frame_def record_drops_def Let_def split: option.splits)

lemma drop_frame_bytes_le: "vr_pending_bytes (drop_frame st k r) \<le> vr_pending_bytes st"
  by (auto simp: drop_frame_def record_drops_def Let_def split: option.splits)

lemma drop_frame_inv: "video_inv_at c st \<Longrightarrow> video_inv_at c (drop_frame st k r)"
  by (auto simp: drop_frame_def record_drops_def Let_def video_inv_at_def
      intro: reassembly_inv_remove split: option.splits)

lemma record_drops_frame [simp]:
  "vr_config (record_drops st n) = vr_config st"
  "vr_pending (record_drops st n) = vr_pending st"
  "vr_pending_bytes (record_drops st n) = vr_pending_bytes st"
  "vr_last_completed_frame_id (record_drops st n) = vr_last_completed_frame_id st"
  "vr_has_completed_keyframe (record_drops st n) = vr_has_completed_keyframe st"
  by (simp_all add: record_drops_def)

lemma should_request_keyframe_frame:
  assumes "should_request_keyframe st now = (r, st')"
  shows "vr_config st' = vr_config st" "vr_pending st' = vr_pending st"
    "vr_pending_bytes st' = vr_pending_bytes st"
    "vr_last_completed_frame_id st' = vr_last_completed_frame_id st"
    "vr_has_completed_keyframe st' = vr_has_completed_keyframe st"
  using assms by (auto simp: should_request_keyframe_def split: if_splits)

lemma bump_malformed_frame [simp]:
  "vr_config (video_bump_malformed st) = vr_config st"
  "vr_pending (video_bump_malformed st) = vr_pending st"
  "vr_pending_bytes (video_bump_malformed st) = vr_pending_bytes st"
  "vr_last_completed_frame_id (video_bump_malformed st) = vr_last_completed_frame_id st"
  "vr_has_completed_keyframe (video_bump_malformed st) = vr_has_completed_keyframe st"
  by (simp_all add: video_bump_malformed_def)

text \<open>A step that only drops frames: nothing else of the state that matters changes.\<close>

definition only_drops :: "video_reassembler \<Rightarrow> video_reassembler \<Rightarrow> bool" where
  "only_drops st st' \<longleftrightarrow>
     vr_config st' = vr_config st \<and>
     vr_last_completed_frame_id st' = vr_last_completed_frame_id st \<and>
     vr_has_completed_keyframe st' = vr_has_completed_keyframe st \<and>
     vr_pending_bytes st' \<le> vr_pending_bytes st \<and>
     (\<exists>P. vr_pending st' = filter P (vr_pending st)) \<and>
     (\<forall>c. video_inv_at c st \<longrightarrow> video_inv_at c st')"

lemma only_drops_refl [simp]: "only_drops st st"
  by (auto simp: only_drops_def intro: exI [of _ "\<lambda>_. True"])

lemma only_drops_trans:
  assumes "only_drops a b" and "only_drops b c"
  shows "only_drops a c"
proof -
  from assms obtain P Q where "vr_pending b = filter P (vr_pending a)"
    and "vr_pending c = filter Q (vr_pending b)" by (auto simp: only_drops_def)
  then have "vr_pending c = filter (\<lambda>x. Q x \<and> P x) (vr_pending a)" by (simp add: filter_filter conj_commute)
  with assms show ?thesis by (auto simp: only_drops_def)
qed

lemma only_drops_drop_frame: "only_drops st (drop_frame st k r)"
  by (auto simp: only_drops_def drop_frame_frame drop_frame_bytes_le drop_frame_inv
      drop_frame_pending bm_remove_def)

lemma only_drops_same:
  "vr_config st' = vr_config st \<Longrightarrow> vr_pending st' = vr_pending st \<Longrightarrow>
   vr_pending_bytes st' = vr_pending_bytes st \<Longrightarrow>
   vr_last_completed_frame_id st' = vr_last_completed_frame_id st \<Longrightarrow>
   vr_has_completed_keyframe st' = vr_has_completed_keyframe st \<Longrightarrow> only_drops st st'"
  by (auto simp: only_drops_def video_inv_at_def intro: exI [of _ "\<lambda>_. True"])

lemma only_drops_expire_one: "only_drops st (expire_one st k)"
proof -
  define st1 where "st1 = (case bm_get (vr_pending st) k of
      Some frame \<Rightarrow>
        if is_keyframe_flags (vm_flags (fh_metadata (pf_header frame)))
        then st\<lparr>vr_stats := vs_expired_keyframes_update (\<lambda>n. sat_add n 1) (vr_stats st)\<rparr> else st
    | None \<Rightarrow> st)"
  have "only_drops st st1" by (rule only_drops_same) (auto simp: st1_def split: option.splits)
  moreover have "only_drops st1 (drop_frame st1 k False)" by (rule only_drops_drop_frame)
  moreover have "only_drops (drop_frame st1 k False) (expire_one st k)"
    by (rule only_drops_same) (simp_all add: expire_one_def Let_def flip: st1_def)
  ultimately show ?thesis by (blast intro: only_drops_trans)
qed

lemma only_drops_obsolete_one: "only_drops st (drop_obsolete_one st k)"
proof (rule only_drops_trans)
  show "only_drops st (drop_frame st k False)" by (rule only_drops_drop_frame)
  show "only_drops (drop_frame st k False) (drop_obsolete_one st k)"
    by (rule only_drops_same) (simp_all add: drop_obsolete_one_def Let_def)
qed

lemma only_drops_foldl:
  assumes "\<And>s k. only_drops s (f s k)"
  shows "only_drops st (foldl f st ks)"
  by (induction ks arbitrary: st) (auto intro: only_drops_trans assms)

lemma expire_one_pending: "vr_pending (expire_one st k) = bm_remove k (vr_pending st)"
  by (auto simp: expire_one_def Let_def drop_frame_pending split: option.splits)

lemma drop_obsolete_one_pending: "vr_pending (drop_obsolete_one st k) = bm_remove k (vr_pending st)"
  by (simp add: drop_obsolete_one_def Let_def drop_frame_pending)

lemma foldl_remove_pending:
  assumes "\<And>s k. vr_pending (f s k) = bm_remove k (vr_pending s)"
  shows "vr_pending (foldl f st ks) = filter (\<lambda>e. fst e \<notin> set ks) (vr_pending st)"
proof (induction ks arbitrary: st)
  case (Cons k ks)
  then show ?case
    by (simp add: assms bm_remove_def filter_filter)
qed simp

lemma only_drops_evict:
  assumes "video_evict_oldest st = (b, st')"
  shows "only_drops st st'"
proof (cases "eviction_victim (vr_pending st)")
  case None
  with assms show ?thesis by (simp add: video_evict_oldest_def)
next
  case (Some k)
  with assms have "only_drops (drop_frame st k False) st'"
    by (intro only_drops_same) (auto simp: video_evict_oldest_def Let_def)
  with only_drops_drop_frame [of st k False] show ?thesis by (rule only_drops_trans)
qed

lemma video_expire_only_drops:
  assumes "video_expire st now = (st', o')"
  shows "only_drops st st'"
proof -
  let ?ks = "map fst (filter (\<lambda>e. frame_expired (vr_config st) now (snd e)) (vr_pending st))"
  have "only_drops st (foldl expire_one st ?ks)"
    by (rule only_drops_foldl) (rule only_drops_expire_one)
  moreover have "only_drops (foldl expire_one st ?ks) st'"
    using assms
    by (intro only_drops_same)
      (auto simp: video_expire_def Let_def dest: should_request_keyframe_frame split: prod.splits)
  ultimately show ?thesis by (rule only_drops_trans)
qed

lemma video_expire_outcome:
  "video_expire st now = (st', o') \<Longrightarrow> vo_frame o' = None"
  by (auto simp: video_expire_def Let_def split: prod.splits)

lemma video_expire_keeps:
  assumes "video_expire st now = (st', o')" and "bm_ok (vr_pending st)"
    and "bm_get (vr_pending st) k = Some f" and "\<not> frame_expired (vr_config st) now f"
  shows "bm_get (vr_pending st') k = Some f"
proof -
  let ?ks = "map fst (filter (\<lambda>e. frame_expired (vr_config st) now (snd e)) (vr_pending st))"
  have "k \<notin> set ?ks" using assms(2-4) by (auto dest: bm_mem_get)
  moreover have "vr_pending st' = filter (\<lambda>e. fst e \<notin> set ?ks) (vr_pending st)"
    using assms(1) foldl_remove_pending [of expire_one, OF expire_one_pending, of st ?ks]
    by (auto simp: video_expire_def Let_def dest: should_request_keyframe_frame split: prod.splits)
  ultimately show ?thesis
    using assms(2,3) by (intro bm_mem_get bm_ok_filter) (auto simp: bm_ok_filter dest: bm_get_mem)
qed

lemma only_drops_inv: "only_drops st st' \<Longrightarrow> video_inv st \<Longrightarrow> video_inv st'"
  by (simp add: only_drops_def video_inv_def)

section \<open>Making room\<close>

lemma make_room_props:
  "make_room st outcome = Some (st', outcome') \<Longrightarrow>
     only_drops st st' \<and> length (vr_pending st') < vc_max_pending_frames (vr_config st') \<and>
     vo_frame outcome' = vo_frame outcome"
proof (induction st outcome rule: make_room.induct)
  case (1 st outcome)
  show ?case
  proof (cases "length (vr_pending st) \<ge> vc_max_pending_frames (vr_config st)")
    case True
    with 1 obtain s where e: "video_evict_oldest st = (True, s)"
      and r: "make_room s (outcome\<lparr>vo_dropped_frames := sat_add (vo_dropped_frames outcome) 1\<rparr>)
                = Some (st', outcome')"
      by (auto simp: make_room.simps [of st] split: prod.splits bool.splits)
    from 1(1) [OF True e [symmetric] refl r] only_drops_evict [OF e] show ?thesis
      by (auto intro: only_drops_trans)
  next
    case False
    with 1(2) show ?thesis by (auto simp: make_room.simps [of st])
  qed
qed

lemma make_room_returns:
  "0 < vc_max_pending_frames (vr_config st) \<Longrightarrow> \<exists>r. make_room st outcome = Some r"
proof (induction st outcome rule: make_room.induct)
  case (1 st outcome)
  show ?case
  proof (cases "length (vr_pending st) \<ge> vc_max_pending_frames (vr_config st)")
    case True
    with 1(2) have "vr_pending st \<noteq> []" by auto
    then obtain s where e: "video_evict_oldest st = (True, s)"
      by (cases "video_evict_oldest st")
        (auto simp: video_evict_oldest_def Let_def split: option.splits)
    from only_drops_evict [OF e] have "vr_config s = vr_config st" by (simp add: only_drops_def)
    with 1(1) [OF True e [symmetric] refl] 1(2) True e show ?thesis
      by (simp add: make_room.simps [of st])
  next
    case False
    then show ?thesis by (auto simp: make_room.simps [of st])
  qed
qed

lemma make_room_noop:
  "length (vr_pending st) < vc_max_pending_frames (vr_config st) \<Longrightarrow>
     make_room st outcome = Some (st, outcome)"
  by (simp add: make_room.simps)

section \<open>Storing a fragment\<close>

lemma present_simps [simp]:
  "present [] = []" "present (None # fs) = present fs" "present (Some x # fs) = x # present fs"
  by (simp_all add: present_def map_filter_simps)

lemma present_append [simp]: "present (fs @ gs) = present fs @ present gs"
  by (simp add: present_def map_filter_def)

lemma present_replicate_None [simp]: "present (replicate n None) = []"
  by (induction n) auto

lemma length_present_le: "length (present fs) \<le> length fs"
  by (simp add: present_def map_filter_def)

lemma present_map_Some [simp]: "present (map Some xs) = xs"
  by (induction xs) auto

lemma present_full: "length (present fs) = length fs \<Longrightarrow> fs = map Some (present fs)"
proof (induction fs)
  case (Cons f fs)
  then show ?case using length_present_le [of fs] by (cases f) auto
qed simp

lemma those_map_Some [simp]: "those (map Some xs) = Some xs"
  by (induction xs) auto

lemma those_full: "length (present fs) = length fs \<Longrightarrow> those fs = Some (present fs)"
  by (metis present_full those_map_Some)

lemma present_store:
  assumes "i < length fs" and "fs ! i = None"
  shows "length (present (fs[i := Some x])) = Suc (length (present fs))"
    and "length (concat (present (fs[i := Some x]))) = length (concat (present fs)) + length x"
proof -
  have "fs = take i fs @ None # drop (Suc i) fs"
    using assms by (metis id_take_nth_drop)
  then have p: "present fs = present (take i fs) @ present (drop (Suc i) fs)"
    by (metis present_append present_simps(2))
  have "present (fs[i := Some x]) = present (take i fs) @ x # present (drop (Suc i) fs)"
    using assms by (simp add: upd_conv_take_nth_drop)
  with p show "length (present (fs[i := Some x])) = Suc (length (present fs))"
    and "length (concat (present (fs[i := Some x]))) = length (concat (present fs)) + length x"
    by simp_all
qed

text \<open>A frame that has just taken a fragment: the totals are exact, but it may be complete
  or too large, which \<open>settle_fragment\<close> then finds out.\<close>

definition stored_ok :: "video_config \<Rightarrow> u64 \<Rightarrow> pending_frame \<Rightarrow> bool" where
  "stored_ok cfg k f \<longleftrightarrow>
     vm_frame_id (fh_metadata (pf_header f)) = k \<and>
     validate_fragment_header cfg (pf_header f) = Inr () \<and>
     length (pf_fragments f) = fh_fragment_count (pf_header f) \<and>
     pf_received_fragments f = length (present (pf_fragments f)) \<and>
     pf_received_bytes f = length (concat (present (pf_fragments f)))"

lemma pending_ok_stored:
  "pending_ok cfg k f \<longleftrightarrow> stored_ok cfg k f \<and>
     pf_received_fragments f < fh_fragment_count (pf_header f) \<and>
     pf_received_bytes f \<le> fh_frame_size (pf_header f)"
  by (auto simp: pending_ok_def stored_ok_def)

lemma store_fragment_ok:
  assumes "pending_ok cfg k f" and "i < length (pf_fragments f)" and "pf_fragments f ! i = None"
  shows "stored_ok cfg k (store_fragment f i x now)"
  using assms present_store [OF assms(2,3)]
  by (simp add: pending_ok_def stored_ok_def store_fragment_def)

lemma pending_frame_new_ok:
  assumes "validate_fragment_header cfg h = Inr ()" and "vm_frame_id (fh_metadata h) = k"
  shows "pending_ok cfg k (pending_frame_new h now)"
  using assms
  by (auto simp: pending_ok_def pending_frame_new_def validate_fragment_header_def
      split: sum.splits if_splits)

section \<open>Delivering a frame\<close>

lemma drop_obsolete_pending_props:
  assumes "drop_obsolete_pending st = (n, st')"
  shows "only_drops st st'" and "\<forall>e \<in> set (vr_pending st'). vr_last_completed_frame_id st < fst e"
    and "(\<forall>e \<in> set (vr_pending st). vr_last_completed_frame_id st < fst e) \<Longrightarrow>
      n = 0 \<and> vr_pending st' = vr_pending st \<and> vr_pending_bytes st' = vr_pending_bytes st"
proof -
  let ?ks = "map fst (filter (\<lambda>e. fst e \<le> vr_last_completed_frame_id st) (vr_pending st))"
  have "only_drops st (foldl drop_obsolete_one st ?ks)"
    by (rule only_drops_foldl) (rule only_drops_obsolete_one)
  moreover have "only_drops (foldl drop_obsolete_one st ?ks) st'"
    using assms by (intro only_drops_same) (auto simp: drop_obsolete_pending_def Let_def)
  ultimately show "only_drops st st'" by (rule only_drops_trans)
  have "vr_pending st' = filter (\<lambda>e. fst e \<notin> set ?ks) (vr_pending st)"
    using assms foldl_remove_pending [of drop_obsolete_one, OF drop_obsolete_one_pending, of st ?ks]
    by (auto simp: drop_obsolete_pending_def Let_def)
  then show "\<forall>e \<in> set (vr_pending st'). vr_last_completed_frame_id st < fst e"
    by (auto simp: not_le image_iff)
  assume "\<forall>e \<in> set (vr_pending st). vr_last_completed_frame_id st < fst e"
  then have "?ks = []" by (auto simp: filter_empty_conv)
  with assms show "n = 0 \<and> vr_pending st' = vr_pending st \<and> vr_pending_bytes st' = vr_pending_bytes st"
    by (auto simp: drop_obsolete_pending_def word_of_usize_sat_def)
qed

definition without_frame :: "video_reassembler \<Rightarrow> u64 \<Rightarrow> pending_frame \<Rightarrow> video_reassembler" where
  "without_frame st k f =
     st\<lparr>vr_pending := bm_remove k (vr_pending st),
        vr_pending_bytes := vr_pending_bytes st - pf_received_bytes f\<rparr>"

lemma withhold_frame_props:
  assumes "withhold_frame st outcome now = (st', r)"
  shows "only_drops st st'" and "vo_frame r = vo_frame outcome"
  using assms
  by (auto simp: withhold_frame_def Let_def dest: should_request_keyframe_frame
      intro!: only_drops_same split: prod.splits)

lemma retire_obsolete_props:
  assumes "retire_obsolete st outcome now = (st', r)"
  shows "only_drops st st'" and "\<forall>e \<in> set (vr_pending st'). vr_last_completed_frame_id st < fst e"
    and "vo_frame r = vo_frame outcome"
proof -
  obtain n st1 where d: "drop_obsolete_pending st = (n, st1)" by fastforce
  obtain q st2 where q: "should_request_keyframe (record_drops st1 n) now = (q, st2)" by fastforce
  have "only_drops st1 st2" using should_request_keyframe_frame [OF q] by (intro only_drops_same) auto
  moreover have "st' = (if n > 0 then st2 else st1)" and "vo_frame r = vo_frame outcome"
    using assms d q by (auto simp: retire_obsolete_def Let_def split: if_splits)
  moreover note drop_obsolete_pending_props(1,2) [OF d] should_request_keyframe_frame(2) [OF q]
  ultimately show "only_drops st st'"
    and "\<forall>e \<in> set (vr_pending st'). vr_last_completed_frame_id st < fst e"
    and "vo_frame r = vo_frame outcome"
    by (auto intro: only_drops_trans)
qed

lemma count_completed_only_drops: "only_drops st (count_completed st b outcome)"
  by (rule only_drops_same) (simp_all add: count_completed_def Let_def)

lemma count_completed_pending [simp]: "vr_pending (count_completed st b outcome) = vr_pending st"
  by (simp add: count_completed_def Let_def)

lemma deliver_frame_withheld:
  assumes "\<not> vr_has_completed_keyframe st" and "\<not> is_keyframe_flags (vm_flags (fh_metadata h))"
  shows "\<exists>st' r. deliver_frame st h f outcome now = Some (st', Inr r) \<and>
     only_drops (without_frame st (vm_frame_id (fh_metadata h)) f) st' \<and> vo_frame r = vo_frame outcome"
  using assms withhold_frame_props
  by (auto simp: deliver_frame_def Let_def without_frame_def split: prod.splits)

lemma deliver_frame_delivered:
  assumes k: "vr_has_completed_keyframe st \<or> is_keyframe_flags (vm_flags (fh_metadata h))"
    and fs: "those (pf_fragments f) = Some fragments"
    and id: "vm_frame_id (fh_metadata (pf_header f)) = vm_frame_id (fh_metadata h)"
  shows "\<exists>st' r. deliver_frame st h f outcome now = Some (st', Inr r) \<and>
     only_drops ((without_frame st (vm_frame_id (fh_metadata h)) f)
        \<lparr>vr_last_completed_frame_id := vm_frame_id (fh_metadata h), vr_has_completed_keyframe := True\<rparr>) st' \<and>
     (\<forall>e \<in> set (vr_pending st'). vm_frame_id (fh_metadata h) < fst e) \<and>
     vo_frame r = Some \<lparr>cf_metadata = fh_metadata (pf_header f), cf_payload = concat fragments\<rparr>"
proof -
  let ?id = "vm_frame_id (fh_metadata h)"
  let ?base = "(without_frame st ?id f)
        \<lparr>vr_last_completed_frame_id := ?id, vr_has_completed_keyframe := True\<rparr>"
  let ?st2 = "(without_frame st ?id f)\<lparr>vr_stats := record_assembly (vr_stats st) f now,
        vr_last_completed_frame_id := ?id, vr_has_completed_keyframe := True\<rparr>"
  obtain st3 o3 where r: "retire_obsolete ?st2 outcome now = (st3, o3)" by fastforce
  note rp = retire_obsolete_props [OF r]
  have "only_drops ?base ?st2" by (rule only_drops_same) simp_all
  with rp(1) have "only_drops ?base (count_completed st3 b o3)" for b
    by (blast intro: only_drops_trans count_completed_only_drops)
  moreover have "deliver_frame st h f outcome now = Some
      (count_completed st3 (is_keyframe_flags (vm_flags (fh_metadata h))) o3,
       Inr (o3\<lparr>vo_frame := Some \<lparr>cf_metadata = fh_metadata (pf_header f),
                                     cf_payload = concat fragments\<rparr>\<rparr>))"
    using k fs r by (auto simp: deliver_frame_def Let_def id without_frame_def)
  moreover have "\<forall>e \<in> set (vr_pending st3). ?id < fst e" using rp(2) by simp
  ultimately show ?thesis by simp
qed

section \<open>Every push returns and keeps the invariant\<close>

lemma bm_remove_insert_same: "bm_ok m \<Longrightarrow> bm_remove k (bm_insert k v m) = bm_remove k m"
proof (induction k v m rule: bm_insert.induct)
  case (1 k v)
  then show ?case by (simp add: bm_remove_def)
next
  case (2 k v k' v' m)
  then show ?case by (auto simp: bm_remove_Cons)
qed

text \<open>The state in which \<open>settle_fragment\<close> runs: the stored frame replaces the pending
  one it grew from.\<close>

definition with_stored ::
    "video_reassembler \<Rightarrow> u64 \<Rightarrow> pending_frame \<Rightarrow> usize \<Rightarrow> video_reassembler" where
  "with_stored st k f n =
     st\<lparr>vr_pending := bm_insert k f (vr_pending st), vr_pending_bytes := vr_pending_bytes st + n\<rparr>"

lemma without_stored_inv:
  assumes "video_inv st" and "bm_get (vr_pending st) k = Some f"
    and "pf_received_bytes f' = pf_received_bytes f + n"
  shows "video_inv (without_frame (with_stored st k f' n) k f')"
proof -
  have "bm_ok (vr_pending st)" using assms(1) by (auto simp: video_inv_def video_inv_at_def reassembly_inv_def)
  moreover have "reassembly_inv (vr_config st) (bm_remove k (vr_pending st))
      (vr_pending_bytes st - pf_received_bytes f) (vr_last_completed_frame_id st)"
    using assms by (intro reassembly_inv_remove) (auto simp: video_inv_def video_inv_at_def)
  ultimately show ?thesis
    using assms(3)
    by (simp add: video_inv_def video_inv_at_def without_frame_def with_stored_def
        bm_remove_insert_same)
qed

lemma drop_frame_stored:
  assumes "video_inv st" and "bm_get (vr_pending st) k = Some f"
    and "pf_received_bytes f' = pf_received_bytes f + n"
  shows "video_inv (video_bump_malformed (drop_frame (with_stored st k f' n) k False))"
  using without_stored_inv [OF assms]
  by (simp add: drop_frame_def with_stored_def without_frame_def bm_get_insert Let_def
      video_inv_def video_inv_at_def video_bump_malformed_def)

lemma with_stored_inv:
  assumes "video_inv st" and "bm_get (vr_pending st) k = Some f"
    and "pf_received_bytes f' = pf_received_bytes f + n"
    and "vr_pending_bytes st + n \<le> vc_max_memory_bytes (vr_config st)"
    and "pending_ok (vr_config st) k f'"
  shows "video_inv (with_stored st k f' n)"
proof -
  from assms(1) have ok: "bm_ok (vr_pending st)"
    by (auto simp: video_inv_def video_inv_at_def reassembly_inv_def)
  with assms(1-3) bm_sum_remove [OF ok assms(2), of pf_received_bytes]
  have "vr_pending_bytes st + n = bm_sum pf_received_bytes (bm_insert k f' (vr_pending st))"
    by (simp add: bm_sum_insert video_inv_def video_inv_at_def reassembly_inv_def)
  moreover have "vr_last_completed_frame_id st < k"
    using assms(1,2) by (auto simp: video_inv_def video_inv_at_def dest: reassembly_inv_get)
  ultimately show ?thesis
    using assms ok set_bm_insert [OF ok, of k f'] length_bm_insert [OF ok, of k f']
    by (auto simp: video_inv_def video_inv_at_def reassembly_inv_def with_stored_def)
qed

text \<open>What one call may do: keep the invariant and the configuration, and either hand out a
  frame newer than every frame before it, or leave the delivery record alone.\<close>

definition delivered :: "video_error + video_outcome \<Rightarrow> complete_video_frame option" where
  "delivered r = (case r of Inl _ \<Rightarrow> None | Inr out \<Rightarrow> vo_frame out)"

lemma delivered_simps [simp]: "delivered (Inl e) = None" "delivered (Inr out) = vo_frame out"
  by (simp_all add: delivered_def)

definition push_effect ::
    "video_reassembler \<Rightarrow> video_reassembler \<Rightarrow> video_error + video_outcome \<Rightarrow> bool" where
  "push_effect st st' r \<longleftrightarrow>
     video_inv st' \<and> vr_config st' = vr_config st \<and>
     (case delivered r of
        None \<Rightarrow> vr_last_completed_frame_id st' = vr_last_completed_frame_id st \<and>
                vr_has_completed_keyframe st' = vr_has_completed_keyframe st
      | Some fr \<Rightarrow>
          vr_last_completed_frame_id st < vm_frame_id (cf_metadata fr) \<and>
          vr_last_completed_frame_id st' = vm_frame_id (cf_metadata fr) \<and>
          (vr_has_completed_keyframe st \<or> is_keyframe_flags (vm_flags (cf_metadata fr))) \<and>
          vr_has_completed_keyframe st')"

lemma push_effect_quiet:
  "only_drops st st' \<Longrightarrow> video_inv st \<Longrightarrow> delivered r = None \<Longrightarrow> push_effect st st' r"
  using only_drops_inv by (auto simp: push_effect_def only_drops_def)

lemma push_effect_trans:
  "only_drops st st1 \<Longrightarrow> push_effect st1 st2 r \<Longrightarrow> push_effect st st2 r"
  by (auto simp: push_effect_def only_drops_def split: option.splits)

lemma same_frame_id:
  "belongs_to_same_frame a b \<Longrightarrow> fh_metadata a = fh_metadata b \<and>
     fh_fragment_count a = fh_fragment_count b \<and> fh_frame_size a = fh_frame_size b"
  by (simp add: belongs_to_same_frame_def)

lemma deliver_frame_effect:
  assumes inv: "video_inv (without_frame st (vm_frame_id (fh_metadata h)) f)"
    and id: "fh_metadata (pf_header f) = fh_metadata h"
    and fs: "those (pf_fragments f) = Some fragments"
    and new: "vr_last_completed_frame_id st < vm_frame_id (fh_metadata h)"
    and out: "vo_frame outcome = None"
  shows "\<exists>st' r. deliver_frame st h f outcome now = Some (st', r) \<and> push_effect st st' r"
proof -
  let ?k = "vm_frame_id (fh_metadata h)"
  have frame [simp]: "vr_last_completed_frame_id (without_frame st ?k f) = vr_last_completed_frame_id st"
    "vr_has_completed_keyframe (without_frame st ?k f) = vr_has_completed_keyframe st"
    "vr_config (without_frame st ?k f) = vr_config st"
    by (simp_all add: without_frame_def)
  show ?thesis
  proof (cases "vr_has_completed_keyframe st \<or> is_keyframe_flags (vm_flags (fh_metadata h))")
    case True
    obtain st' r where d: "deliver_frame st h f outcome now = Some (st', Inr r)"
      and od: "only_drops ((without_frame st ?k f)\<lparr>vr_last_completed_frame_id := ?k,
                 vr_has_completed_keyframe := True\<rparr>) st'"
      and above: "\<forall>e \<in> set (vr_pending st'). ?k < fst e"
      and fr: "vo_frame r = Some \<lparr>cf_metadata = fh_metadata (pf_header f), cf_payload = concat fragments\<rparr>"
      using deliver_frame_delivered [OF True fs arg_cong [OF id], of outcome now] by blast
    have "video_inv_at (vr_last_completed_frame_id st) st'"
      using inv od by (auto simp: only_drops_def video_inv_def video_inv_at_def without_frame_def)
    with above have "video_inv_at ?k st'" by (auto simp: video_inv_at_def reassembly_inv_def)
    with od d fr id new True show ?thesis
      by (auto simp: push_effect_def only_drops_def video_inv_def)
  next
    case False
    then obtain st' r where "deliver_frame st h f outcome now = Some (st', Inr r)"
      and "only_drops (without_frame st ?k f) st'" and "vo_frame r = vo_frame outcome"
      using deliver_frame_withheld by blast
    with inv out show ?thesis
      by (auto simp: push_effect_def only_drops_def video_inv_def)
  qed
qed

lemma settle_fragment_effect:
  assumes inv: "video_inv st" and get: "bm_get (vr_pending st) (vm_frame_id (fh_metadata h)) = Some f"
    and st1: "st1 = with_stored st (vm_frame_id (fh_metadata h)) f' n"
    and f': "stored_ok (vr_config st) (vm_frame_id (fh_metadata h)) f'"
    and n: "pf_received_bytes f' = pf_received_bytes f + n"
    and mem: "vr_pending_bytes st + n \<le> vc_max_memory_bytes (vr_config st)"
    and same: "belongs_to_same_frame (pf_header f') h"
    and out: "vo_frame outcome = None"
  shows "\<exists>st' r. settle_fragment st1 h f' outcome now = Some (st', r) \<and> push_effect st st' r"
proof -
  let ?k = "vm_frame_id (fh_metadata h)"
  let ?drop = "video_bump_malformed (drop_frame st1 ?k False)"
  have dropped: "push_effect st ?drop (Inl e)" for e
    using drop_frame_stored [OF inv get n] st1
    by (auto simp: push_effect_def drop_frame_frame with_stored_def)
  show ?thesis
  proof (cases "pf_received_bytes f' > fh_frame_size h \<or>
       (pf_received_fragments f' = fh_fragment_count h \<and> pf_received_bytes f' \<noteq> fh_frame_size h)")
    case True
    with dropped show ?thesis by (auto simp: settle_fragment_def Let_def)
  next
    case small: False
    show ?thesis
    proof (cases "pf_received_fragments f' = fh_fragment_count h")
      case True
      from True f' same have full: "length (present (pf_fragments f')) = length (pf_fragments f')"
        by (simp add: stored_ok_def belongs_to_same_frame_def)
      have "\<exists>st' r. deliver_frame st1 h f' outcome now = Some (st', r) \<and> push_effect st1 st' r"
        using without_stored_inv [OF inv get n] same_frame_id [OF same] those_full [OF full] out
          reassembly_inv_get [of _ _ _ _ ?k f] inv get
        by (intro deliver_frame_effect) (auto simp: st1 with_stored_def video_inv_def video_inv_at_def)
      moreover have "push_effect st1 s r \<Longrightarrow> push_effect st s r" for s r
        by (simp add: st1 push_effect_def with_stored_def cong: option.case_cong)
      ultimately show ?thesis using True small by (auto simp: settle_fragment_def Let_def)
    next
      case False
      obtain q s where q: "should_request_keyframe st1 now = (q, s)" by fastforce
      have "pf_received_fragments f' < fh_fragment_count h"
        using False f' same length_present_le [of "pf_fragments f'"]
        by (simp add: stored_ok_def belongs_to_same_frame_def)
      then have "pending_ok (vr_config st) ?k f'"
        using f' small same by (auto simp: pending_ok_stored belongs_to_same_frame_def)
      from with_stored_inv [OF inv get n mem this] have "video_inv s"
        using should_request_keyframe_frame [OF q] st1 by (simp add: video_inv_def video_inv_at_def)
      then have "push_effect st s (Inr (outcome\<lparr>vo_request_keyframe := b\<rparr>))" for b
        using should_request_keyframe_frame [OF q] st1 out by (simp add: push_effect_def with_stored_def)
      with q False small show ?thesis by (auto simp: settle_fragment_def Let_def)
    qed
  qed
qed

lemma video_inv_parts:
  assumes "video_inv st"
  shows "bm_ok (vr_pending st)" "video_config_ok (vr_config st)"
    "length (vr_pending st) \<le> vc_max_pending_frames (vr_config st)"
    "vr_pending_bytes st \<le> vc_max_memory_bytes (vr_config st)"
    "vr_pending_bytes st = bm_sum pf_received_bytes (vr_pending st)"
  using assms by (auto simp: video_inv_def video_inv_at_def reassembly_inv_def)

lemma video_inv_get:
  "video_inv st \<Longrightarrow> bm_get (vr_pending st) k = Some f \<Longrightarrow>
     vr_last_completed_frame_id st < k \<and> pending_ok (vr_config st) k f"
  by (auto simp: video_inv_def video_inv_at_def dest: reassembly_inv_get)

lemma sat_add_within:
  "m < usize_max \<Longrightarrow> usize_sat_add a b \<le> m \<longleftrightarrow> a + b \<le> m"
  by (auto simp: usize_sat_add_def)

lemma accept_fragment_effect:
  assumes inv: "video_inv st" and get: "bm_get (vr_pending st) (vm_frame_id (fh_metadata h)) = Some f"
    and h: "validate_fragment_header (vr_config st) h = Inr ()"
    and out: "vo_frame outcome = None"
  shows "\<exists>st' r. accept_fragment st h x outcome now = Some (st', r) \<and> push_effect st st' r"
proof -
  let ?k = "vm_frame_id (fh_metadata h)" and ?i = "fh_fragment_index h"
  have dropped: "push_effect st (video_bump_malformed (drop_frame st ?k False)) (Inl e)"
      "push_effect st (drop_frame st ?k False) (Inl e)" for e
    using inv
    by (auto intro!: push_effect_quiet only_drops_drop_frame
        only_drops_trans [OF only_drops_drop_frame only_drops_same])
  have dup: "push_effect st (st\<lparr>vr_stats := t\<rparr>) (Inr outcome)" for t
    using inv out by (intro push_effect_quiet only_drops_same) auto
  from video_inv_get [OF inv get] have f: "pending_ok (vr_config st) ?k f" by simp
  show ?thesis
  proof (cases "belongs_to_same_frame (pf_header f) h")
    case False
    with get dropped show ?thesis by (auto simp: accept_fragment_def)
  next
    case same: True
    with f h have i: "?i < length (pf_fragments f)"
      by (auto simp: pending_ok_def belongs_to_same_frame_def validate_fragment_header_def
          split: sum.splits if_splits)
    show ?thesis
    proof (cases "pf_fragments f ! ?i")
      case (Some y)
      with get same i dropped dup show ?thesis by (auto simp: accept_fragment_def)
    next
      case None
      have within: "usize_sat_add (vr_pending_bytes st) (length x) \<le> vc_max_memory_bytes (vr_config st) \<longleftrightarrow>
          vr_pending_bytes st + length x \<le> vc_max_memory_bytes (vr_config st)"
        using video_inv_parts(2) [OF inv] by (intro sat_add_within) (simp add: video_config_ok_def)
      let ?f' = "store_fragment f ?i x now"
      have "\<exists>st' r. settle_fragment (with_stored st ?k ?f' (length x)) h ?f' outcome now = Some (st', r)
            \<and> push_effect st st' r"
        if "vr_pending_bytes st + length x \<le> vc_max_memory_bytes (vr_config st)"
        using that store_fragment_ok [OF f i None] same out
        by (intro settle_fragment_effect [OF inv get refl])
          (auto simp: store_fragment_def belongs_to_same_frame_def)
      with None get same i dropped within show ?thesis
        by (auto simp: accept_fragment_def Let_def with_stored_def not_le)
    qed
  qed
qed

lemma insert_new_inv:
  assumes inv: "video_inv st" and room: "length (vr_pending st) < vc_max_pending_frames (vr_config st)"
    and h: "validate_fragment_header (vr_config st) h = Inr ()"
    and new: "vr_last_completed_frame_id st < vm_frame_id (fh_metadata h)"
    and absent: "bm_get (vr_pending st) (vm_frame_id (fh_metadata h)) = None"
  shows "video_inv (st\<lparr>vr_pending := bm_insert (vm_frame_id (fh_metadata h))
            (pending_frame_new h now) (vr_pending st)\<rparr>)"
proof -
  let ?k = "vm_frame_id (fh_metadata h)"
  from inv have ok: "bm_ok (vr_pending st)" by (rule video_inv_parts)
  have "bm_sum pf_received_bytes (bm_insert ?k (pending_frame_new h now) (vr_pending st))
      = bm_sum pf_received_bytes (vr_pending st)"
    using absent by (simp add: bm_sum_insert [OF ok] bm_remove_absent pending_frame_new_def)
  with inv room new absent pending_frame_new_ok [OF h refl] show ?thesis
    by (auto simp: video_inv_def video_inv_at_def reassembly_inv_def set_bm_insert [OF ok]
        length_bm_insert [OF ok])
qed

lemma filter_lookup_None: "bm_get m k = None \<Longrightarrow> bm_get (filter P m) k = None"
  by (auto simp: map_of_eq_None_iff)

lemma ensure_pending_inv:
  assumes inv: "video_inv st"
    and h: "validate_fragment_header (vr_config st) h = Inr ()"
    and new: "vr_last_completed_frame_id st < vm_frame_id (fh_metadata h)"
  obtains st' out' f where "ensure_pending st h outcome now = Some (st', out')"
    "video_inv st'" "vr_config st' = vr_config st"
    "vr_last_completed_frame_id st' = vr_last_completed_frame_id st"
    "vr_has_completed_keyframe st' = vr_has_completed_keyframe st"
    "bm_get (vr_pending st') (vm_frame_id (fh_metadata h)) = Some f"
    "vo_frame out' = vo_frame outcome"
proof (cases "bm_get (vr_pending st) (vm_frame_id (fh_metadata h))")
  case (Some f)
  with that inv show ?thesis by (simp add: ensure_pending_def bm_contains_def)
next
  case None
  from video_inv_parts(2) [OF inv] have "0 < vc_max_pending_frames (vr_config st)"
    by (simp add: video_config_ok_def)
  from make_room_returns [OF this] obtain s o' where r: "make_room st outcome = Some (s, o')"
    by fastforce
  from make_room_props [OF r] have od: "only_drops st s" and
    room: "length (vr_pending s) < vc_max_pending_frames (vr_config s)" and
    o': "vo_frame o' = vo_frame outcome" by auto
  from od None have absent: "bm_get (vr_pending s) (vm_frame_id (fh_metadata h)) = None"
    by (auto simp: only_drops_def filter_lookup_None)
  from od h new have "validate_fragment_header (vr_config s) h = Inr ()"
    and "vr_last_completed_frame_id s < vm_frame_id (fh_metadata h)" by (auto simp: only_drops_def)
  from insert_new_inv [OF only_drops_inv [OF od inv] room this absent, of now]
  show ?thesis
    using that r None od o' by (auto simp: ensure_pending_def bm_contains_def only_drops_def bm_get_insert)
qed

lemma push_fragment_effect:
  assumes inv: "video_inv st" and out: "vo_frame outcome = None"
  shows "\<exists>st' r. push_fragment st h x outcome now = Some (st', r) \<and> push_effect st st' r"
proof (cases "validate_fragment_header (vr_config st) h")
  case (Inl e)
  then show ?thesis using inv by (auto simp: push_fragment_def intro!: push_effect_quiet)
next
  case (Inr u)
  then have h: "validate_fragment_header (vr_config st) h = Inr ()" by simp
  show ?thesis
  proof (cases "vm_frame_id (fh_metadata h) \<le> vr_last_completed_frame_id st")
    case True
    with h inv out show ?thesis
      by (auto simp: push_fragment_def intro!: push_effect_quiet only_drops_same)
  next
    case False
    obtain st1 o1 f where e: "ensure_pending st h outcome now = Some (st1, o1)"
      and st1: "video_inv st1" "vr_config st1 = vr_config st"
        "vr_last_completed_frame_id st1 = vr_last_completed_frame_id st"
        "vr_has_completed_keyframe st1 = vr_has_completed_keyframe st"
        "bm_get (vr_pending st1) (vm_frame_id (fh_metadata h)) = Some f"
        "vo_frame o1 = vo_frame outcome"
      using ensure_pending_inv [OF inv h, of outcome now] False by (auto simp: not_le)
    from accept_fragment_effect [OF st1(1,5), of o1 x now] h st1 out
    obtain st' r where "accept_fragment st1 h x o1 now = Some (st', r)" "push_effect st1 st' r"
      by auto
    with st1 e h False show ?thesis
      by (auto simp: push_fragment_def push_effect_def cong: option.case_cong)
  qed
qed

lemma video_push_effect:
  assumes inv: "video_inv st"
  shows "\<exists>st' r. video_push st d now = Some (st', r) \<and> push_effect st st' r"
proof -
  obtain s out where x: "video_expire st now = (s, out)" by fastforce
  note od = video_expire_only_drops [OF x] and no = video_expire_outcome [OF x]
  have quiet: "push_effect st s (Inl e)" for e using od inv by (intro push_effect_quiet) auto
  have "\<exists>st' r. push_fragment s h p out now = Some (st', r) \<and> push_effect st st' r" for h p
    using push_fragment_effect [OF only_drops_inv [OF od inv] no] push_effect_trans [OF od] by blast
  with x quiet show ?thesis by (auto simp: video_push_def Let_def split: sum.splits)
qed

end
