(* ===== verification/Video_Delivery.thy ===== *)
theory Video_Delivery
  imports Video_Reassembly
begin

text \<open>
  The two halves of the video path together: the datagrams of one frame, pushed in any
  order and with any repetitions before the frame's deadlines, make the reassembler
  deliver exactly that frame, once. The section on partial frames describes what the
  reassembler holds after a set of fragments has arrived.
\<close>

section \<open>Partial frames\<close>

definition partial :: "bytes list \<Rightarrow> nat set \<Rightarrow> bytes option list" where
  "partial ps S = map (\<lambda>i. if i \<in> S then Some (ps ! i) else None) [0..<length ps]"

lemma length_partial [simp]: "length (partial ps S) = length ps"
  by (simp add: partial_def)

lemma nth_partial [simp]:
  "i < length ps \<Longrightarrow> partial ps S ! i = (if i \<in> S then Some (ps ! i) else None)"
  by (simp add: partial_def)

lemma partial_insert: "(partial ps S)[i := Some (ps ! i)] = partial ps (insert i S)"
proof (rule nth_equalityI)
  fix j assume "j < length ((partial ps S)[i := Some (ps ! i)])"
  then show "(partial ps S)[i := Some (ps ! i)] ! j = partial ps (insert i S) ! j"
    by (cases "j = i") simp_all
qed simp

lemma partial_empty: "partial ps {} = replicate (length ps) None"
  by (rule nth_equalityI) auto

lemma present_map_if:
  "present (map (\<lambda>i. if P i then Some (g i) else None) is) = map g (filter P is)"
  by (induction "is") auto

lemma present_partial: "present (partial ps S) = map ((!) ps) (filter (\<lambda>i. i \<in> S) [0..<length ps])"
  by (simp add: partial_def present_map_if)

lemma length_present_partial: "length (present (partial ps S)) = card (S \<inter> {..<length ps})"
proof -
  have "length (filter (\<lambda>i. i \<in> S) [0..<length ps]) = card (set (filter (\<lambda>i. i \<in> S) [0..<length ps]))"
    by (metis distinct_card distinct_filter distinct_upt)
  also have "set (filter (\<lambda>i. i \<in> S) [0..<length ps]) = S \<inter> {..<length ps}" by auto
  finally show ?thesis by (simp add: present_partial)
qed

lemma present_partial_full: "{..<length ps} \<subseteq> S \<Longrightarrow> present (partial ps S) = ps"
proof -
  assume "{..<length ps} \<subseteq> S"
  then have "filter (\<lambda>i. i \<in> S) [0..<length ps] = [0..<length ps]" by (auto simp: filter_id_conv)
  then show ?thesis by (simp add: present_partial map_nth)
qed

lemma partial_full_iff: "length (present (partial ps S)) = length ps \<longleftrightarrow> {..<length ps} \<subseteq> S"
proof
  assume "length (present (partial ps S)) = length ps"
  then have "card (S \<inter> {..<length ps}) = card {..<length ps}" by (simp add: length_present_partial)
  then have "S \<inter> {..<length ps} = {..<length ps}" by (intro card_subset_eq) auto
  then show "{..<length ps} \<subseteq> S" by auto
qed (simp add: present_partial_full)

lemma partial_bytes_le: "length (concat (present (partial ps S))) \<le> length (concat ps)"
proof -
  have "sum_list (map (\<lambda>i. length (ps ! i)) (filter (\<lambda>i. i \<in> S) [0..<length ps]))
      \<le> sum_list (map (\<lambda>i. length (ps ! i)) [0..<length ps])"
    by (rule sum_list_filter_le_nat)
  also have "\<dots> = sum_list (map length (map ((!) ps) [0..<length ps]))" by (simp add: comp_def)
  finally show ?thesis by (simp add: present_partial length_concat comp_def map_nth)
qed

lemma partial_bytes_insert:
  assumes "i < length ps" and "i \<notin> S"
  shows "length (concat (present (partial ps S))) + length (ps ! i) \<le> length (concat ps)"
  using present_store(2) [of i "partial ps S" "ps ! i"] partial_bytes_le [of ps "insert i S"] assms
  by (simp add: partial_insert)

section \<open>A frame being collected\<close>

text \<open>
  \<open>base\<close> bounds the memory the other pending frames use and \<open>t0\<close> the time before which no
  fragment of the frame arrived.
\<close>

definition collecting ::
    "video_frame_metadata \<Rightarrow> bytes list \<Rightarrow> nat \<Rightarrow> instant \<Rightarrow> nat set \<Rightarrow> video_reassembler \<Rightarrow> bool" where
  "collecting md ps base t0 S st \<longleftrightarrow>
     (\<exists>f. bm_get (vr_pending st) (vm_frame_id md) = Some f \<and>
        fh_metadata (pf_header f) = md \<and> fh_fragment_count (pf_header f) = length ps \<and>
        fh_frame_size (pf_header f) = length (concat ps) \<and> pf_fragments f = partial ps S \<and>
        t0 \<le> pf_created_at f \<and> t0 \<le> pf_last_progress_at f \<and>
        vr_pending_bytes st \<le> base + pf_received_bytes f)"

definition piece :: "video_frame_metadata \<Rightarrow> bytes list \<Rightarrow> nat \<Rightarrow> fragment_header" where
  "piece md ps i =
     \<lparr>fh_metadata = md, fh_fragment_index = i, fh_fragment_count = length ps,
      fh_frame_size = length (concat ps)\<rparr>"

lemma piece_simps [simp]:
  "fh_metadata (piece md ps i) = md" "fh_fragment_index (piece md ps i) = i"
  "fh_fragment_count (piece md ps i) = length ps" "fh_frame_size (piece md ps i) = length (concat ps)"
  by (simp_all add: piece_def)

definition idle_deadline :: "video_config \<Rightarrow> video_frame_metadata \<Rightarrow> duration" where
  "idle_deadline cfg md =
     (if is_keyframe_flags (vm_flags md) then vc_keyframe_fragment_deadline cfg
      else vc_fragment_deadline cfg)"

definition frame_lifetime :: "video_config \<Rightarrow> video_frame_metadata \<Rightarrow> duration" where
  "frame_lifetime cfg md =
     (if is_keyframe_flags (vm_flags md) then vc_keyframe_lifetime cfg else vc_frame_lifetime cfg)"

lemma not_expired:
  assumes "now < t0 + min (idle_deadline cfg (fh_metadata (pf_header f)))
              (frame_lifetime cfg (fh_metadata (pf_header f)))"
    and "t0 \<le> now" and "t0 \<le> pf_created_at f" and "t0 \<le> pf_last_progress_at f"
  shows "\<not> frame_expired cfg now f"
  using assms
  by (auto simp: frame_expired_def idle_deadline_def frame_lifetime_def
      saturating_duration_since_def split: if_splits)

text \<open>Storing a new piece either grows the partial frame or delivers the whole.\<close>

lemma accept_piece:
  assumes inv: "video_inv st" and c: "collecting md ps base t0 S st" and i: "i < length ps"
    and t: "t0 \<le> now"
    and mem: "base + length (concat ps) \<le> vc_max_memory_bytes (vr_config st)"
    and key: "vr_has_completed_keyframe st \<or> is_keyframe_flags (vm_flags md)"
  shows "\<exists>st' r. accept_fragment st (piece md ps i) (ps ! i) out now = Some (st', Inr r) \<and>
    (if {..<length ps} \<subseteq> insert i S \<and> i \<notin> S
     then vo_frame r = Some \<lparr>cf_metadata = md, cf_payload = concat ps\<rparr>
     else collecting md ps base t0 (insert i S) st' \<and> vo_frame r = vo_frame out)"
proof -
  let ?h = "piece md ps i" and ?k = "vm_frame_id md"
  from c obtain f where get: "bm_get (vr_pending st) ?k = Some f"
    and f: "fh_metadata (pf_header f) = md" "fh_fragment_count (pf_header f) = length ps"
      "fh_frame_size (pf_header f) = length (concat ps)" "pf_fragments f = partial ps S"
      "t0 \<le> pf_created_at f" "t0 \<le> pf_last_progress_at f"
    and b: "vr_pending_bytes st \<le> base + pf_received_bytes f"
    by (auto simp: collecting_def)
  have same: "belongs_to_same_frame (pf_header f) ?h" using f by (simp add: belongs_to_same_frame_def)
  from video_inv_get [OF inv get] have ok: "pending_ok (vr_config st) ?k f" by simp
  show ?thesis
  proof (cases "i \<in> S")
    case True
    then have "insert i S = S" by auto
    moreover have "collecting md ps base t0 S (st\<lparr>vr_stats := x\<rparr>)" for x
      using c by (simp add: collecting_def)
    ultimately show ?thesis
      using True get same f i by (auto simp: accept_fragment_def Let_def)
  next
    case False
    let ?f' = "store_fragment f i (ps ! i) now"
    have rb: "pf_received_bytes f = length (concat (present (partial ps S)))"
      using ok f by (simp add: pending_ok_def)
    with partial_bytes_insert [OF i False] b mem
    have "vr_pending_bytes st + length (ps ! i) \<le> vc_max_memory_bytes (vr_config st)" by linarith
    then have fits: "\<not> usize_sat_add (vr_pending_bytes st) (length (ps ! i))
        > vc_max_memory_bytes (vr_config st)"
      by (simp add: usize_sat_add_def)
    have none: "pf_fragments f ! i = None" and il: "i < length (pf_fragments f)"
      using f i False by simp_all
    have so: "stored_ok (vr_config st) ?k ?f'" by (rule store_fragment_ok [OF ok il none])
    have pf: "pf_fragments ?f' = partial ps (insert i S)"
      by (simp add: store_fragment_def f partial_insert)
    have le: "pf_received_bytes ?f' \<le> length (concat ps)"
      using so partial_bytes_le [of ps "insert i S"] by (simp add: stored_ok_def pf)
    have "pf_received_fragments ?f' = length (present (partial ps (insert i S)))"
      using so by (simp add: stored_ok_def pf)
    then have cnt: "pf_received_fragments ?f' = length ps \<longleftrightarrow> {..<length ps} \<subseteq> insert i S"
      by (simp only: partial_full_iff)
    let ?st1 = "with_stored st ?k ?f' (length (ps ! i))"
    have acc: "accept_fragment st ?h (ps ! i) out now = settle_fragment ?st1 ?h ?f' out now"
      using get same il none fits by (simp add: accept_fragment_def Let_def with_stored_def)
    show ?thesis
    proof (cases "{..<length ps} \<subseteq> insert i S")
      case True
      then have pr: "present (pf_fragments ?f') = ps" by (simp add: pf present_partial_full)
      with so have bytes: "pf_received_bytes ?f' = length (concat ps)" by (simp add: stored_ok_def)
      have th: "those (pf_fragments ?f') = Some ps"
        using those_full [of "pf_fragments ?f'"] pr pf by simp
      have hk: "vr_has_completed_keyframe ?st1 \<or> is_keyframe_flags (vm_flags (fh_metadata ?h))"
        using key by (simp add: with_stored_def)
      have hd: "pf_header ?f' = pf_header f" by (simp add: store_fragment_def)
      from deliver_frame_delivered [OF hk th, of out now]
      obtain st' r where "deliver_frame ?st1 ?h ?f' out now = Some (st', Inr r)"
        and "vo_frame r = Some \<lparr>cf_metadata = md, cf_payload = concat ps\<rparr>"
        using hd f by auto
      with True False cnt bytes acc show ?thesis by (auto simp: settle_fragment_def Let_def)
    next
      case part: False
      obtain q s where q: "should_request_keyframe ?st1 now = (q, s)" by fastforce
      have "collecting md ps base t0 (insert i S) s"
        using should_request_keyframe_frame [OF q] f b t pf
        by (auto simp: collecting_def with_stored_def bm_get_insert)
          (simp_all add: store_fragment_def)
      with part cnt le acc q show ?thesis by (auto simp: settle_fragment_def Let_def not_less)
    qed
  qed
qed

section \<open>One datagram of the frame\<close>

lemma push_carried:
  assumes "carries d h p" and "video_expire st now = (s, out)"
  shows "video_push st d now = push_fragment s h p out now"
  using assms by (auto simp: carries_def video_push_def)

text \<open>What one frame must satisfy for the configuration to accept it.\<close>

definition frame_fits :: "video_config \<Rightarrow> video_frame_metadata \<Rightarrow> bytes list \<Rightarrow> bool" where
  "frame_fits cfg md ps \<longleftrightarrow>
     validate_frame_metadata md = Inr () \<and> 0 < length ps \<and> length ps \<le> MAX_VIDEO_FRAGMENTS \<and>
     0 < length (concat ps) \<and> length (concat ps) \<le> vc_max_frame_bytes cfg"

lemma piece_valid:
  "frame_fits cfg md ps \<Longrightarrow> i < length ps \<Longrightarrow> validate_fragment_header cfg (piece md ps i) = Inr ()"
  by (auto simp: frame_fits_def validate_fragment_header_def)

definition in_window :: "video_config \<Rightarrow> video_frame_metadata \<Rightarrow> instant \<Rightarrow> instant \<Rightarrow> bool" where
  "in_window cfg md t0 now \<longleftrightarrow>
     t0 \<le> now \<and> now < t0 + min (idle_deadline cfg md) (frame_lifetime cfg md)"

lemma collecting_expire:
  assumes "video_inv st" and c: "collecting md ps base t0 S st"
    and w: "in_window (vr_config st) md t0 now" and x: "video_expire st now = (s, out)"
  shows "collecting md ps base t0 S s"
proof -
  from c obtain f where get: "bm_get (vr_pending st) (vm_frame_id md) = Some f"
    and f: "fh_metadata (pf_header f) = md" "t0 \<le> pf_created_at f" "t0 \<le> pf_last_progress_at f"
    by (auto simp: collecting_def)
  have "\<not> frame_expired (vr_config st) now f"
    using w f by (intro not_expired [of _ t0]) (auto simp: in_window_def)
  with video_expire_keeps [OF x video_inv_parts(1) [OF assms(1)] get]
  have "bm_get (vr_pending s) (vm_frame_id md) = Some f" by simp
  moreover have "vr_pending_bytes s \<le> vr_pending_bytes st"
    using video_expire_only_drops [OF x] by (simp add: only_drops_def)
  ultimately show ?thesis using c get by (auto simp: collecting_def)
qed

lemma push_piece:
  assumes inv: "video_inv st" and c: "collecting md ps base t0 S st" and i: "i < length ps"
    and w: "in_window (vr_config st) md t0 now" and fits: "frame_fits (vr_config st) md ps"
    and mem: "base + length (concat ps) \<le> vc_max_memory_bytes (vr_config st)"
    and key: "vr_has_completed_keyframe st \<or> is_keyframe_flags (vm_flags md)"
    and d: "carries d (piece md ps i) (ps ! i)"
  shows "\<exists>st' r. video_push st d now = Some (st', Inr r) \<and>
    (if {..<length ps} \<subseteq> insert i S \<and> i \<notin> S
     then vo_frame r = Some \<lparr>cf_metadata = md, cf_payload = concat ps\<rparr>
     else collecting md ps base t0 (insert i S) st' \<and> vo_frame r = None)"
proof -
  obtain s out where x: "video_expire st now = (s, out)" by fastforce
  note od = video_expire_only_drops [OF x]
  have s: "video_inv s" and cs: "collecting md ps base t0 S s"
    using only_drops_inv [OF od inv] collecting_expire [OF inv c w x] by auto
  from od have cfg: "vr_config s = vr_config st" "vr_has_completed_keyframe s = vr_has_completed_keyframe st"
    by (simp_all add: only_drops_def)
  from cs obtain f where get: "bm_get (vr_pending s) (vm_frame_id md) = Some f"
    by (auto simp: collecting_def)
  with video_inv_get [OF s get] piece_valid [OF fits i] cfg
  have "push_fragment s (piece md ps i) (ps ! i) out now = accept_fragment s (piece md ps i) (ps ! i) out now"
    by (auto simp: push_fragment_def ensure_pending_def bm_contains_def)
  moreover note accept_piece [OF s cs i, of now out]
  ultimately show ?thesis
    using push_carried [OF d x] cfg mem key w video_expire_outcome [OF x]
    by (simp add: in_window_def split del: if_split cong: if_cong)
qed

lemma push_first_piece:
  assumes inv: "video_inv st" and absent: "bm_get (vr_pending st) (vm_frame_id md) = None"
    and new: "vr_last_completed_frame_id st < vm_frame_id md" and i: "i < length ps"
    and w: "in_window (vr_config st) md t0 now" and fits: "frame_fits (vr_config st) md ps"
    and mem: "vr_pending_bytes st + length (concat ps) \<le> vc_max_memory_bytes (vr_config st)"
    and key: "vr_has_completed_keyframe st \<or> is_keyframe_flags (vm_flags md)"
    and d: "carries d (piece md ps i) (ps ! i)"
  shows "\<exists>st' r. video_push st d now = Some (st', Inr r) \<and>
    (if {..<length ps} \<subseteq> {i}
     then vo_frame r = Some \<lparr>cf_metadata = md, cf_payload = concat ps\<rparr>
     else collecting md ps (vr_pending_bytes st) t0 {i} st' \<and> vo_frame r = None)"
proof -
  let ?h = "piece md ps i" and ?k = "vm_frame_id md"
  obtain s out where x: "video_expire st now = (s, out)" by fastforce
  note od = video_expire_only_drops [OF x]
  have "0 < vc_max_pending_frames (vr_config s)"
    using video_inv_parts(2) [OF only_drops_inv [OF od inv]] by (simp add: video_config_ok_def)
  from make_room_returns [OF this] obtain s1 out1 where r: "make_room s out = Some (s1, out1)"
    by fastforce
  from make_room_props [OF r] od have od1: "only_drops st s1"
    and room: "length (vr_pending s1) < vc_max_pending_frames (vr_config s1)"
    and no: "vo_frame out1 = vo_frame out" by (auto intro: only_drops_trans)
  let ?s2 = "s1\<lparr>vr_pending := bm_insert ?k (pending_frame_new ?h now) (vr_pending s1)\<rparr>"
  from od absent have "bm_get (vr_pending s) ?k = None"
    by (auto simp: only_drops_def filter_lookup_None)
  moreover from od1 absent have a1: "bm_get (vr_pending s1) ?k = None"
    by (auto simp: only_drops_def filter_lookup_None)
  ultimately have push: "push_fragment s ?h (ps ! i) out now = accept_fragment ?s2 ?h (ps ! i) out1 now"
    using od new r piece_valid [OF fits i]
    by (auto simp: push_fragment_def ensure_pending_def bm_contains_def only_drops_def)
  have s2: "video_inv ?s2"
    using insert_new_inv [OF only_drops_inv [OF od1 inv] room _ _ , of ?h now] od1 new a1
      piece_valid [OF fits i] by (simp add: only_drops_def)
  have "collecting md ps (vr_pending_bytes st) t0 {} ?s2"
    using od1 w
    by (simp add: collecting_def bm_get_insert pending_frame_new_def partial_empty only_drops_def
        in_window_def)
  from accept_piece [OF s2 this i, of now out1] show ?thesis
    using push push_carried [OF d x] od1 mem key w no video_expire_outcome [OF x]
    by (simp add: in_window_def only_drops_def split del: if_split cong: if_cong)
qed

section \<open>Runs\<close>

text \<open>A sequence of \<open>push\<close> calls and the frames they hand out; \<open>None\<close> if a call fails to
  return.\<close>

fun video_run ::
    "video_reassembler \<Rightarrow> (bytes \<times> instant) list
     \<Rightarrow> (video_reassembler \<times> complete_video_frame list) option" where
  "video_run st [] = Some (st, [])"
| "video_run st ((d, now) # pushes) =
     (case video_push st d now of
        None \<Rightarrow> None
      | Some (st', r) \<Rightarrow>
        (case video_run st' pushes of
           None \<Rightarrow> None
         | Some (st'', frames) \<Rightarrow>
             Some (st'', (case delivered r of None \<Rightarrow> [] | Some fr \<Rightarrow> [fr]) @ frames)))"

lemma push_obsolete_piece:
  assumes inv: "video_inv st" and old: "vm_frame_id md \<le> vr_last_completed_frame_id st"
    and fits: "frame_fits (vr_config st) md ps" and i: "i < length ps"
    and d: "carries d (piece md ps i) (ps ! i)"
  shows "\<exists>st' r. video_push st d now = Some (st', Inr r) \<and> vo_frame r = None"
proof -
  obtain s out where x: "video_expire st now = (s, out)" by fastforce
  note od = video_expire_only_drops [OF x]
  from od old piece_valid [OF fits i] show ?thesis
    using push_carried [OF d x] video_expire_outcome [OF x]
    by (simp add: push_fragment_def only_drops_def)
qed

lemma run_obsolete:
  assumes "video_inv st" and "vm_frame_id md \<le> vr_last_completed_frame_id st"
    and "frame_fits (vr_config st) md ps"
    and "\<forall>(i, t) \<in> set ord. i < length ps \<and> carries (ds ! i) (piece md ps i) (ps ! i)"
  shows "\<exists>st'. video_run st (map (\<lambda>(i, t). (ds ! i, t)) ord) = Some (st', [])"
  using assms
proof (induction ord arbitrary: st)
  case (Cons it ord)
  obtain i t where it: "it = (i, t)" by fastforce
  with Cons.prems obtain st1 r where p: "video_push st (ds ! i) t = Some (st1, Inr r)" "vo_frame r = None"
    using push_obsolete_piece [OF Cons.prems(1-3), of i "ds ! i" t] by auto
  with video_push_effect [OF Cons.prems(1), of "ds ! i" t] have "push_effect st st1 (Inr r)" by auto
  with p Cons.prems have "\<exists>st'. video_run st1 (map (\<lambda>(i, t). (ds ! i, t)) ord) = Some (st', [])"
    by (intro Cons.IH) (auto simp: push_effect_def)
  with p it show ?case by auto
qed simp

lemma push_delivers:
  assumes "video_inv st" and "video_push st d now = Some (st', r)"
  shows "video_inv st'" "vr_config st' = vr_config st"
    "delivered r = Some fr \<Longrightarrow> vr_last_completed_frame_id st' = vm_frame_id (cf_metadata fr)"
    "delivered r = None \<Longrightarrow> vr_has_completed_keyframe st' = vr_has_completed_keyframe st"
  using video_push_effect [OF assms(1), of d now] assms(2)
  by (auto simp: push_effect_def)

lemma run_collecting:
  assumes "video_inv st" and "collecting md ps base t0 S st" and "frame_fits (vr_config st) md ps"
    and "base + length (concat ps) \<le> vc_max_memory_bytes (vr_config st)"
    and "vr_has_completed_keyframe st \<or> is_keyframe_flags (vm_flags md)"
    and "\<forall>(i, t) \<in> set ord. i < length ps \<and> carries (ds ! i) (piece md ps i) (ps ! i) \<and>
           in_window (vr_config st) md t0 t"
    and "\<not> {..<length ps} \<subseteq> S" and "{..<length ps} \<subseteq> S \<union> fst ` set ord"
  shows "\<exists>st'. video_run st (map (\<lambda>(i, t). (ds ! i, t)) ord)
            = Some (st', [\<lparr>cf_metadata = md, cf_payload = concat ps\<rparr>])"
  using assms
proof (induction ord arbitrary: st S)
  case Nil
  then show ?case by simp
next
  case (Cons it ord)
  obtain i t where it: "it = (i, t)" by fastforce
  have i: "i < length ps" and d: "carries (ds ! i) (piece md ps i) (ps ! i)"
    and w: "in_window (vr_config st) md t0 t" using Cons.prems(6) it by auto
  from push_piece [OF Cons.prems(1,2) i w Cons.prems(3-5) d] obtain st1 r
    where p: "video_push st (ds ! i) t = Some (st1, Inr r)"
      and r: "if {..<length ps} \<subseteq> insert i S \<and> i \<notin> S
        then vo_frame r = Some \<lparr>cf_metadata = md, cf_payload = concat ps\<rparr>
        else collecting md ps base t0 (insert i S) st1 \<and> vo_frame r = None" by blast
  note e = push_delivers [OF Cons.prems(1) p]
  show ?case
  proof (cases "{..<length ps} \<subseteq> insert i S")
    case True
    with Cons.prems(7) have "i \<notin> S" by (auto simp: insert_absorb)
    with True r have fr: "vo_frame r = Some \<lparr>cf_metadata = md, cf_payload = concat ps\<rparr>" by simp
    have "\<exists>st'. video_run st1 (map (\<lambda>(i, t). (ds ! i, t)) ord) = Some (st', [])"
      using e(1,2) e(3) [of "\<lparr>cf_metadata = md, cf_payload = concat ps\<rparr>"] fr Cons.prems
      by (intro run_obsolete [of _ md ps]) auto
    with p fr it show ?thesis by auto
  next
    case False
    with r have c: "collecting md ps base t0 (insert i S) st1" and no: "vo_frame r = None" by auto
    have "\<exists>st'. video_run st1 (map (\<lambda>(i, t). (ds ! i, t)) ord)
            = Some (st', [\<lparr>cf_metadata = md, cf_payload = concat ps\<rparr>])"
      using e no Cons.prems False it by (intro Cons.IH [OF e(1) c]) auto
    with p no it show ?thesis by auto
  qed
qed

lemma run_fresh:
  assumes inv: "video_inv st" and absent: "bm_get (vr_pending st) (vm_frame_id md) = None"
    and new: "vr_last_completed_frame_id st < vm_frame_id md"
    and fits: "frame_fits (vr_config st) md ps"
    and mem: "vr_pending_bytes st + length (concat ps) \<le> vc_max_memory_bytes (vr_config st)"
    and key: "vr_has_completed_keyframe st \<or> is_keyframe_flags (vm_flags md)"
    and ord: "\<forall>(i, t) \<in> set ord. i < length ps \<and> carries (ds ! i) (piece md ps i) (ps ! i) \<and>
           in_window (vr_config st) md t0 t"
    and all: "{..<length ps} \<subseteq> fst ` set ord"
  shows "\<exists>st'. video_run st (map (\<lambda>(i, t). (ds ! i, t)) ord)
            = Some (st', [\<lparr>cf_metadata = md, cf_payload = concat ps\<rparr>])"
proof (cases ord)
  case Nil
  with all fits show ?thesis by (auto simp: frame_fits_def)
next
  case (Cons it rest)
  obtain i t where it: "it = (i, t)" by fastforce
  have i: "i < length ps" and d: "carries (ds ! i) (piece md ps i) (ps ! i)"
    and w: "in_window (vr_config st) md t0 t" using ord it Cons by auto
  from push_first_piece [OF inv absent new i w fits mem key d] obtain st1 r
    where p: "video_push st (ds ! i) t = Some (st1, Inr r)"
      and r: "if {..<length ps} \<subseteq> {i}
        then vo_frame r = Some \<lparr>cf_metadata = md, cf_payload = concat ps\<rparr>
        else collecting md ps (vr_pending_bytes st) t0 {i} st1 \<and> vo_frame r = None" by blast
  note e = push_delivers [OF inv p]
  show ?thesis
  proof (cases "{..<length ps} \<subseteq> {i}")
    case True
    with r have fr: "vo_frame r = Some \<lparr>cf_metadata = md, cf_payload = concat ps\<rparr>" by simp
    have "\<exists>st'. video_run st1 (map (\<lambda>(i, t). (ds ! i, t)) rest) = Some (st', [])"
      using e(1,2) e(3) [of "\<lparr>cf_metadata = md, cf_payload = concat ps\<rparr>"] fr fits ord Cons
      by (intro run_obsolete [of _ md ps]) auto
    with p fr it Cons show ?thesis by auto
  next
    case False
    with r have c: "collecting md ps (vr_pending_bytes st) t0 {i} st1" and no: "vo_frame r = None" by auto
    have "\<exists>st'. video_run st1 (map (\<lambda>(i, t). (ds ! i, t)) rest)
            = Some (st', [\<lparr>cf_metadata = md, cf_payload = concat ps\<rparr>])"
      using e no False it fits mem key ord all Cons
      by (intro run_collecting [OF e(1) c]) auto
    with p no it Cons show ?thesis by auto
  qed
qed

section \<open>All operations together\<close>

text \<open>The calls a user of the reassembler makes. \<open>None\<close> stands for a call that did not
  return.\<close>

datatype video_event = PushEvent bytes instant | ExpireEvent instant | ResetEvent

fun video_step :: "video_reassembler option \<Rightarrow> video_event \<Rightarrow> video_reassembler option" where
  "video_step None _ = None"
| "video_step (Some st) (PushEvent d now) = map_option fst (video_push st d now)"
| "video_step (Some st) (ExpireEvent now) = Some (fst (video_expire st now))"
| "video_step (Some st) ResetEvent = Some (video_reset st)"

definition running :: "video_config \<Rightarrow> video_reassembler option \<Rightarrow> bool" where
  "running cfg s \<longleftrightarrow> (case s of None \<Rightarrow> False | Some st \<Rightarrow> video_inv st \<and> vr_config st = cfg)"

lemma video_reset_inv: "video_inv st \<Longrightarrow> video_inv (video_reset st)"
  by (auto simp: video_inv_def video_inv_at_def reassembly_inv_def video_reset_def)

lemma running_step: "running cfg s \<Longrightarrow> running cfg (video_step s e)"
proof (cases "(s, e)" rule: video_step.cases)
  case (2 st d now)
  assume "running cfg s"
  with 2 video_push_effect [of st d now] show ?thesis by (auto simp: running_def push_effect_def)
next
  case (3 st now)
  assume "running cfg s"
  with 3 show ?thesis
    using video_expire_only_drops [of st now] only_drops_inv
    by (cases "video_expire st now") (auto simp: running_def only_drops_def video_inv_def)
next
  case (4 st)
  assume "running cfg s"
  with 4 video_reset_inv show ?thesis by (auto simp: running_def video_reset_def)
qed (auto simp: running_def)

interpretation reassembler: step_invariant video_step "running cfg" for cfg
  by unfold_locales (rule running_step)

lemma video_reassembler_new_inv:
  assumes "video_reassembler_new cfg = Inr st" and "vc_max_memory_bytes cfg < usize_max"
  shows "video_inv st" "vr_config st = cfg" "vr_last_completed_frame_id st = 0"
    "vr_has_completed_keyframe st = (\<not> vc_require_initial_keyframe cfg)"
  using assms
  by (auto simp: video_reassembler_new_def video_inv_def video_inv_at_def reassembly_inv_def
      video_config_ok_def split: if_splits)

definition frame_guard ::
    "video_reassembler \<Rightarrow> bytes \<times> instant \<Rightarrow> video_reassembler \<times> u64 option" where
  "frame_guard st m =
     (case video_push st (fst m) (snd m) of
        None \<Rightarrow> (st, None)
      | Some (st', r) \<Rightarrow> (st', map_option (vm_frame_id \<circ> cf_metadata) (delivered r)))"

interpretation frames: sequence_guard video_inv "\<lambda>_. True" vr_last_completed_frame_id frame_guard
proof
  fix s m s' and r :: "u64 option"
  assume inv: "video_inv s" and g: "frame_guard s m = (s', r)"
  with video_push_effect [OF inv, of "fst m" "snd m"]
  show "video_inv s' \<and> vr_last_completed_frame_id s \<le> vr_last_completed_frame_id s'"
    by (auto simp: frame_guard_def push_effect_def split: option.splits)
next
  fix s m s' and n :: u64
  assume inv: "video_inv s" and g: "frame_guard s m = (s', Some n)"
  with video_push_effect [OF inv, of "fst m" "snd m"]
  show "vr_last_completed_frame_id s < n \<and> n \<le> vr_last_completed_frame_id s'"
    by (auto simp: frame_guard_def push_effect_def)
qed

lemma video_run_guard:
  "video_inv st \<Longrightarrow> \<exists>st' frames. video_run st pushes = Some (st', frames) \<and>
     map (vm_frame_id \<circ> cf_metadata) frames = accepted_run frame_guard st pushes \<and>
     (\<not> vr_has_completed_keyframe st \<longrightarrow> frames \<noteq> [] \<longrightarrow>
        is_keyframe_flags (vm_flags (cf_metadata (hd frames))))"
proof (induction pushes arbitrary: st)
  case (Cons m pushes)
  obtain d now where m: "m = (d, now)" by fastforce
  from video_push_effect [OF Cons.prems] obtain st1 r where
    p: "video_push st d now = Some (st1, r)" and e: "push_effect st st1 r" by blast
  then have "video_inv st1" by (simp add: push_effect_def)
  from Cons.IH [OF this] m p e show ?case
    by (cases "delivered r") (auto simp: frame_guard_def push_effect_def)
qed simp

section \<open>Properties\<close>

text \<open>
  Property C2: the reassembler is safe on every input. From a fresh reassembler, whatever
  sequence of datagrams, expiry ticks and resets arrives, every call returns (no panic and
  no endless eviction loop), the byte counter is exactly the sum over the pending frames
  and within the configured memory, and the number of pending frames is within its limit.
  The memory limit must be below the largest \<open>usize\<close>.
\<close>

theorem video_reassembler_safe:
  assumes "video_reassembler_new config = Inr st0" and "vc_max_memory_bytes config < usize_max"
  shows "\<exists>st. foldl video_step (Some st0) events = Some st \<and>
     vr_pending_bytes st = bm_sum pf_received_bytes (vr_pending st) \<and>
     vr_pending_bytes st \<le> vc_max_memory_bytes config \<and>
     length (vr_pending st) \<le> vc_max_pending_frames config"
proof -
  have "running config (Some st0)"
    using video_reassembler_new_inv [OF assms] by (simp add: running_def)
  then have "running config (foldl video_step (Some st0) events)"
    by (rule reassembler.run_preserves)
  then obtain st where st: "foldl video_step (Some st0) events = Some st"
    and inv: "video_inv st" and cfg: "vr_config st = config"
    by (auto simp: running_def split: option.splits)
  from st video_inv_parts(3-5) [OF inv] show ?thesis by (simp add: cfg)
qed

text \<open>
  Property C3: order of delivery. Every sequence of pushes on a fresh reassembler hands out
  frames with strictly increasing ids, so that no frame is delivered twice or after a newer
  one; and when the configuration asks for an initial keyframe, the first frame is one.
\<close>

theorem video_delivery_ordered:
  assumes "video_reassembler_new config = Inr st0" and "vc_max_memory_bytes config < usize_max"
  shows "\<exists>st frames. video_run st0 pushes = Some (st, frames) \<and>
     sorted_wrt (<) (map (vm_frame_id \<circ> cf_metadata) frames) \<and>
     (vc_require_initial_keyframe config \<longrightarrow> frames \<noteq> [] \<longrightarrow>
        is_keyframe_flags (vm_flags (cf_metadata (hd frames))))"
  using video_run_guard [of st0 pushes] video_reassembler_new_inv [OF assms]
    frames.accepted_strictly_increasing [of st0 pushes] by auto

text \<open>
  Property C1: end-to-end delivery. Take the datagrams of one frame and push them in any
  order, each at least once and any of them repeatedly, at times within the idle deadline
  and lifetime of the frame counted from \<open>start\<close>. If the frame is newer than the last one
  delivered, is not yet pending, fits the size and memory limits, and a keyframe was seen
  or it is one, then the pushes deliver exactly one frame: the original metadata and bytes.
\<close>

theorem video_frame_end_to_end:
  assumes "length sid = 16" and ds: "fragment_video_frame sid seq ts md frame mds = Inr ds"
    and "video_inv st" and "bm_get (vr_pending st) (vm_frame_id md) = None"
    and "vr_last_completed_frame_id st < vm_frame_id md"
    and "length frame \<le> vc_max_frame_bytes (vr_config st)"
    and "vr_pending_bytes st + length frame \<le> vc_max_memory_bytes (vr_config st)"
    and "vr_has_completed_keyframe st \<or> is_keyframe_flags (vm_flags md)"
    and order: "fst ` set order = {..<length ds}"
    and times: "\<forall>(i, t) \<in> set order. start \<le> t \<and>
           t < start + min (idle_deadline (vr_config st) md) (frame_lifetime (vr_config st) md)"
  shows "\<exists>st'. video_run st (map (\<lambda>(i, t). (ds ! i, t)) order)
            = Some (st', [\<lparr>cf_metadata = md, cf_payload = frame\<rparr>])"
proof -
  let ?ps = "frame_pieces frame mds"
  note r = fragment_video_frame_Inr [OF ds]
  have cat: "concat ?ps = frame" by (rule frame_pieces_concat [OF r(4)])
  have "piece md ?ps i = piece_header md frame mds i" for i
    by (simp add: piece_def piece_header_def cat)
  then have "i < length ds \<Longrightarrow> carries (ds ! i) (piece md ?ps i) (?ps ! i)" for i
    using fragment_video_frame_carries(1) [OF assms(1) ds] by simp
  moreover have "i < length ds" if "(i, t) \<in> set order" for i t
    using that order by (metis fst_conv imageI lessThan_iff)
  ultimately have "\<forall>(i, t) \<in> set order. i < length ?ps \<and> carries (ds ! i) (piece md ?ps i) (?ps ! i) \<and>
      in_window (vr_config st) md start t"
    using times r(9) by (auto simp: in_window_def)
  moreover have "frame_fits (vr_config st) md ?ps"
    using r assms(6) cat by (simp add: frame_fits_def)
  ultimately show ?thesis
    using run_fresh [of st md ?ps order ds start] assms cat r(9) by simp
qed

text \<open>The sample keyframe on a default reassembler, out of order and with a repetition.\<close>

definition sample_reassembler :: video_reassembler where
  "sample_reassembler =
     \<lparr>vr_config = video_config_default, vr_pending = [], vr_pending_bytes = 0,
      vr_last_completed_frame_id = 0, vr_has_completed_keyframe = False,
      vr_consecutive_dropped_frames = 0, vr_last_keyframe_request = None,
      vr_stats = video_stats_default\<rparr>"

lemma sample_reassembler_new: "video_reassembler_new video_config_default = Inr sample_reassembler"
  by (simp add: video_reassembler_new_def video_config_default_def sample_reassembler_def
      MAX_VIDEO_FRAME_BYTES_def)

lemma sample_memory: "vc_max_memory_bytes video_config_default < usize_max"
  by (simp add: video_config_default_def usize_max_def)

theorem video_reassembler_safe_witness:
  "video_reassembler_new video_config_default = Inr sample_reassembler \<and>
   vc_max_memory_bytes video_config_default < usize_max \<and>
   (\<exists>st. foldl video_step (Some sample_reassembler)
       [PushEvent [1, 2, 3] 5, ExpireEvent 9, ResetEvent, PushEvent sample_ping 20] = Some st \<and>
     vr_pending_bytes st \<le> vc_max_memory_bytes video_config_default)"
  using video_reassembler_safe [OF sample_reassembler_new sample_memory,
      of "[PushEvent [1, 2, 3] 5, ExpireEvent 9, ResetEvent, PushEvent sample_ping 20]"]
    sample_reassembler_new sample_memory by blast

theorem video_delivery_ordered_witness:
  "video_reassembler_new video_config_default = Inr sample_reassembler \<and>
   vc_require_initial_keyframe video_config_default \<and>
   (\<exists>st frames. video_run sample_reassembler [([1, 2, 3], 5), (sample_ping, 20)] = Some (st, frames) \<and>
     sorted_wrt (<) (map (vm_frame_id \<circ> cf_metadata) frames))"
proof -
  have "vc_require_initial_keyframe video_config_default" by (simp add: video_config_default_def)
  with video_delivery_ordered [OF sample_reassembler_new sample_memory,
      of "[([1, 2, 3], 5), (sample_ping, 20)]"] sample_reassembler_new show ?thesis by blast
qed

theorem video_frame_end_to_end_witness:
  "\<exists>ds st'. fragment_video_frame sample_session 1 0 sample_metadata sample_frame 78 = Inr ds \<and>
     length ds = 3 \<and>
     video_run sample_reassembler [(ds ! 2, 10), (ds ! 0, 12), (ds ! 2, 14), (ds ! 1, 20), (ds ! 0, 21)]
       = Some (st', [\<lparr>cf_metadata = sample_metadata, cf_payload = sample_frame\<rparr>])"
proof -
  obtain ds where ds: "fragment_video_frame sample_session 1 0 sample_metadata sample_frame 78 = Inr ds"
    by (rule sample_fragmented)
  have len: "length ds = 3"
    using fragment_video_frame_Inr(6,9) [OF ds]
    by (simp add: sample_frame_def HEADER_LEN_def VIDEO_FRAGMENT_HEADER_LEN_def div_ceil_def)
  let ?order = "[(2, 10), (0, 12), (2, 14), (1, 20), (0, 21)]"
  have sid: "length sample_session = 16" by (simp add: sample_session_def)
  have inv: "video_inv sample_reassembler"
    by (rule video_reassembler_new_inv [OF sample_reassembler_new sample_memory])
  have cover: "fst ` set ?order = {..<length ds}" by (auto simp: len)
  have "\<exists>st'. video_run sample_reassembler (map (\<lambda>(i, t). (ds ! i, t)) ?order)
            = Some (st', [\<lparr>cf_metadata = sample_metadata, cf_payload = sample_frame\<rparr>])"
    by (rule video_frame_end_to_end [OF sid ds inv, where order = ?order and start = 10, OF _ _ _ _ _ cover])
      (simp_all add: sample_reassembler_def video_config_default_def sample_metadata_def sample_frame_def
        MAX_VIDEO_FRAME_BYTES_def idle_deadline_def frame_lifetime_def is_keyframe_flags_def
        FLAG_KEYFRAME_def from_millis_def from_secs_def)
  with ds len show ?thesis by auto
qed

end
