(* ===== verification/Audio_Datagram.thy ===== *)
theory Audio_Datagram
  imports Protocol Ordered_Map
begin

text \<open>
  Audio over unreliable datagrams (\<open>src/transport/audio_datagram.rs\<close>): the packet codec and
  the jitter buffer that reorders packets, conceals losses and bounds its memory.
\<close>

section \<open>Constants and data\<close>

definition AUDIO_PACKET_HEADER_LEN :: usize where "AUDIO_PACKET_HEADER_LEN = 20"
definition MAX_AUDIO_PAYLOAD_BYTES :: usize where "MAX_AUDIO_PAYLOAD_BYTES = 64 * 1024"
definition MAX_AUDIO_SEQUENCE_AHEAD :: u64 where "MAX_AUDIO_SEQUENCE_AHEAD = 4096"

datatype audio_codec = Opus

datatype audio_error =
    AudioProtocol protocol_error
  | UnknownAudioCodec u8
  | AudioHeaderTruncated
  | AudioReservedField
  | AudioZeroSequence
  | InvalidChannelCount u8
  | InvalidSampleRate u32
  | AudioInvalidPayloadSize usize
  | AudioDatagramTooSmall usize
  | InvalidJitterConfig
  | AudioMemoryLimit
  | SequenceGap

fun audio_codec_code :: "audio_codec \<Rightarrow> u8" where
  "audio_codec_code Opus = 1"

definition audio_codec_try_from :: "u8 \<Rightarrow> audio_error + audio_codec" where
  "audio_codec_try_from v = (if v = 1 then Inr Opus else Inl (UnknownAudioCodec v))"

record audio_metadata =
  am_sequence_number :: u64
  am_capture_timestamp_us :: u64
  am_codec :: audio_codec
  am_channels :: u8
  am_sample_rate_hz :: u32

record audio_packet =
  ap_metadata :: audio_metadata
  ap_payload :: bytes

record audio_jitter_config =
  ac_playout_delay :: duration
  ac_max_packet_age :: duration
  ac_max_packets :: usize
  ac_max_memory_bytes :: usize
  ac_start_packets :: usize

definition audio_config_default :: audio_jitter_config where
  "audio_config_default =
     \<lparr>ac_playout_delay = from_millis 30, ac_max_packet_age = from_millis 120,
      ac_max_packets = 64, ac_max_memory_bytes = 2 * 1024 * 1024, ac_start_packets = 3\<rparr>"

record audio_jitter_stats =
  as_accepted_packets :: u64
  as_played_packets :: u64
  as_duplicate_packets :: u64
  as_late_packets :: u64
  as_lost_packets :: u64
  as_evicted_packets :: u64

definition audio_stats_default :: audio_jitter_stats where
  "audio_stats_default =
     \<lparr>as_accepted_packets = 0, as_played_packets = 0, as_duplicate_packets = 0,
      as_late_packets = 0, as_lost_packets = 0, as_evicted_packets = 0\<rparr>"

record audio_jitter_state =
  aj_queue_depth :: usize
  aj_buffered_bytes :: usize
  aj_buffered_capture_span_us :: u64

datatype audio_playout_item = PlayPacket audio_packet | PacketLoss u64

record buffered_audio_packet =
  bp_packet :: audio_packet
  bp_arrived_at :: instant

record audio_buffer =
  ab_config :: audio_jitter_config
  ab_packets :: "(u64, buffered_audio_packet) btree_map"
  ab_next_sequence :: "u64 option"
  ab_playout_started :: bool
  ab_buffered_bytes :: usize
  ab_stats :: audio_jitter_stats

section \<open>The packet codec\<close>

definition validate_audio_metadata :: "audio_metadata \<Rightarrow> audio_error + unit" where
  "validate_audio_metadata m =
     (if am_sequence_number m = 0 then Inl AudioZeroSequence
      else if am_channels m = 0 \<or> am_channels m > 8 then Inl (InvalidChannelCount (am_channels m))
      else if \<not> (8000 \<le> am_sample_rate_hz m \<and> am_sample_rate_hz m \<le> 192000)
        then Inl (InvalidSampleRate (am_sample_rate_hz m))
      else Inr ())"

definition encode_audio_datagram ::
    "session_id \<Rightarrow> u64 \<Rightarrow> audio_metadata \<Rightarrow> bytes \<Rightarrow> usize \<Rightarrow> audio_error + bytes" where
  "encode_audio_datagram session_id timestamp metadata encoded_audio max_datagram_size =
     (case validate_audio_metadata metadata of
        Inl e \<Rightarrow> Inl e
      | Inr _ \<Rightarrow>
        if encoded_audio = [] \<or> length encoded_audio > MAX_AUDIO_PAYLOAD_BYTES
          then Inl (AudioInvalidPayloadSize (length encoded_audio))
        else if HEADER_LEN + AUDIO_PACKET_HEADER_LEN + length encoded_audio > usize_max
          then Inl (AudioInvalidPayloadSize (length encoded_audio))
        else if HEADER_LEN + AUDIO_PACKET_HEADER_LEN + length encoded_audio > max_datagram_size
          then Inl (AudioDatagramTooSmall max_datagram_size)
        else case word_try_from (length encoded_audio) :: u32 option of
          None \<Rightarrow> Inl (AudioInvalidPayloadSize (length encoded_audio))
        | Some payload_len \<Rightarrow>
          (let payload = u64_be (am_capture_timestamp_us metadata) @
                 [audio_codec_code (am_codec metadata)] @ [am_channels metadata] @ u16_be 0 @
                 u32_be (am_sample_rate_hz metadata) @ u32_be payload_len @ encoded_audio in
           (case message_header_new AudioPacketMessage 0 session_id (am_sequence_number metadata)
                   (length payload) timestamp of
              Inl e \<Rightarrow> Inl (AudioProtocol e)
            | Inr header \<Rightarrow> map_err AudioProtocol (encode_message header payload))))"

definition decode_audio_datagram :: "bytes \<Rightarrow> audio_error + audio_packet" where
  "decode_audio_datagram datagram =
     (case decode_message datagram of
        Inl e \<Rightarrow> Inl (AudioProtocol e)
      | Inr message \<Rightarrow>
        (let payload = pm_payload message;
             declared_payload_len = unat (read_u32 payload 16);
             encoded_audio = drop AUDIO_PACKET_HEADER_LEN payload in
         if mh_message_type (pm_header message) \<noteq> AudioPacketMessage
           then Inl (AudioProtocol (ChannelMismatch (mh_message_type (pm_header message))
                                      (mh_channel (pm_header message))))
         else if length payload < AUDIO_PACKET_HEADER_LEN then Inl AudioHeaderTruncated
         else if read_u16 payload 10 \<noteq> 0 then Inl AudioReservedField
         else if encoded_audio = [] \<or> length encoded_audio > MAX_AUDIO_PAYLOAD_BYTES
              \<or> length encoded_audio \<noteq> declared_payload_len
           then Inl (AudioInvalidPayloadSize declared_payload_len)
         else case audio_codec_try_from (payload ! 8) of
           Inl e \<Rightarrow> Inl e
         | Inr codec \<Rightarrow>
           (let metadata =
                  \<lparr>am_sequence_number = mh_sequence_number (pm_header message),
                   am_capture_timestamp_us = read_u64 payload 0, am_codec = codec,
                   am_channels = payload ! 9, am_sample_rate_hz = read_u32 payload 12\<rparr> in
            (case validate_audio_metadata metadata of
               Inl e \<Rightarrow> Inl e
             | Inr _ \<Rightarrow> Inr \<lparr>ap_metadata = metadata, ap_payload = encoded_audio\<rparr>))))"

section \<open>The jitter buffer\<close>

definition audio_buffer_new :: "audio_jitter_config \<Rightarrow> audio_error + audio_buffer" where
  "audio_buffer_new config =
     (if ac_max_packets config = 0 \<or> ac_max_memory_bytes config = 0 \<or> ac_start_packets config = 0
         \<or> ac_start_packets config > ac_max_packets config
         \<or> ac_playout_delay config > ac_max_packet_age config
      then Inl InvalidJitterConfig
      else Inr
        \<lparr>ab_config = config, ab_packets = [], ab_next_sequence = None,
         ab_playout_started = False, ab_buffered_bytes = 0, ab_stats = audio_stats_default\<rparr>)"

abbreviation buffered_len :: "buffered_audio_packet \<Rightarrow> usize" where
  "buffered_len p \<equiv> length (ap_payload (bp_packet p))"

definition audio_evict_oldest :: "audio_buffer \<Rightarrow> bool \<times> audio_buffer" where
  "audio_evict_oldest st =
     (case bm_first_key (ab_packets st) of
        None \<Rightarrow> (False, st)
      | Some sequence \<Rightarrow>
        (case bm_get (ab_packets st) sequence of
           None \<Rightarrow> (False, st)
         | Some packet \<Rightarrow>
             (True, st\<lparr>ab_packets := bm_remove sequence (ab_packets st),
                       ab_buffered_bytes := ab_buffered_bytes st - buffered_len packet,
                       ab_next_sequence :=
                         (if ab_next_sequence st = Some sequence then checked_add sequence 1
                          else ab_next_sequence st),
                       ab_stats := as_evicted_packets_update (\<lambda>n. sat_add n 1) (ab_stats st)\<rparr>)))"

lemma audio_evict_oldest_shrinks:
  "audio_evict_oldest st = (True, st') \<Longrightarrow> length (ab_packets st') < length (ab_packets st)"
  by (auto simp: audio_evict_oldest_def bm_remove_def dest!: bm_get_mem
      intro!: length_filter_less split: option.splits)

text \<open>The eviction loop of \<open>push\<close>; the flag says whether room was made.\<close>

function audio_make_room :: "audio_buffer \<Rightarrow> usize \<Rightarrow> bool \<times> audio_buffer" where
  "audio_make_room st len =
     (if length (ab_packets st) \<ge> ac_max_packets (ab_config st)
         \<or> usize_sat_add (ab_buffered_bytes st) len > ac_max_memory_bytes (ab_config st)
      then (case audio_evict_oldest st of
              (True, st') \<Rightarrow> audio_make_room st' len
            | (False, st') \<Rightarrow> (False, st'))
      else (True, st))"
  by pat_completeness auto
termination
  by (relation "measure (\<lambda>(st, _). length (ab_packets st))")
    (auto dest: audio_evict_oldest_shrinks [OF sym])

declare audio_make_room.simps [simp del]

definition audio_push ::
    "audio_buffer \<Rightarrow> audio_packet \<Rightarrow> instant \<Rightarrow> audio_buffer \<times> (audio_error + bool)" where
  "audio_push st packet now =
     (let sequence = am_sequence_number (ap_metadata packet);
          len = length (ap_payload packet) in
      case validate_audio_metadata (ap_metadata packet) of
        Inl e \<Rightarrow> (st, Inl e)
      | Inr _ \<Rightarrow>
        if ap_payload packet = [] \<or> len > MAX_AUDIO_PAYLOAD_BYTES
          then (st, Inl (AudioInvalidPayloadSize len))
        else if ab_playout_started st
             \<and> (case ab_next_sequence st of None \<Rightarrow> False | Some next \<Rightarrow> sequence < next)
          then (st\<lparr>ab_stats := as_late_packets_update (\<lambda>n. sat_add n 1) (ab_stats st)\<rparr>, Inr False)
        else if bm_contains (ab_packets st) sequence
          then (st\<lparr>ab_stats := as_duplicate_packets_update (\<lambda>n. sat_add n 1) (ab_stats st)\<rparr>,
                Inr False)
        else
          (let minimum_sequence =
                 (case ab_next_sequence st of None \<Rightarrow> sequence | Some s \<Rightarrow> min s sequence);
               maximum_sequence =
                 max (case bm_last_key (ab_packets st) of None \<Rightarrow> sequence | Some k \<Rightarrow> k) sequence in
           if sat_sub maximum_sequence minimum_sequence > MAX_AUDIO_SEQUENCE_AHEAD
             then (st, Inl SequenceGap)
           else if len > ac_max_memory_bytes (ab_config st) then (st, Inl AudioMemoryLimit)
           else case audio_make_room st len of
             (False, st1) \<Rightarrow> (st1, Inl AudioMemoryLimit)
           | (True, st1) \<Rightarrow>
               (st1\<lparr>ab_next_sequence := Some (case ab_next_sequence st1 of
                       None \<Rightarrow> sequence | Some next \<Rightarrow> min next sequence),
                    ab_buffered_bytes := ab_buffered_bytes st1 + len,
                    ab_packets := bm_insert sequence \<lparr>bp_packet = packet, bp_arrived_at = now\<rparr>
                      (ab_packets st1),
                    ab_stats := as_accepted_packets_update (\<lambda>n. sat_add n 1) (ab_stats st1)\<rparr>,
                Inr True)))"

definition audio_push_datagram ::
    "audio_buffer \<Rightarrow> bytes \<Rightarrow> instant \<Rightarrow> audio_buffer \<times> (audio_error + bool)" where
  "audio_push_datagram st datagram now =
     (case decode_audio_datagram datagram of
        Inl e \<Rightarrow> (st, Inl e)
      | Inr packet \<Rightarrow> audio_push st packet now)"

definition discard_one :: "audio_buffer \<Rightarrow> u64 \<Rightarrow> audio_buffer" where
  "discard_one st sequence =
     (case bm_get (ab_packets st) sequence of
        None \<Rightarrow> st
      | Some packet \<Rightarrow>
          st\<lparr>ab_packets := bm_remove sequence (ab_packets st),
             ab_buffered_bytes := ab_buffered_bytes st - buffered_len packet,
             ab_stats := as_late_packets_update (\<lambda>n. sat_add n 1) (ab_stats st)\<rparr>)"

definition discard_expired :: "audio_buffer \<Rightarrow> instant \<Rightarrow> audio_buffer" where
  "discard_expired st now =
     foldl discard_one st
       (map fst (filter (\<lambda>e. saturating_duration_since now (bp_arrived_at (snd e))
                               \<ge> ac_max_packet_age (ab_config st)) (ab_packets st)))"

definition pop_ready :: "audio_buffer \<Rightarrow> instant \<Rightarrow> audio_buffer \<times> audio_playout_item option" where
  "pop_ready st0 now =
     (let st = discard_expired st0 now in
      case ab_next_sequence st of
        None \<Rightarrow> (st, None)
      | Some next_sequence \<Rightarrow>
        (case bm_get (ab_packets st) next_sequence of
           Some packet \<Rightarrow>
             if \<not> (length (ab_packets st) \<ge> ac_start_packets (ab_config st)
                   \<or> saturating_duration_since now (bp_arrived_at packet)
                       \<ge> ac_playout_delay (ab_config st))
               then (st, None)
             else
               (st\<lparr>ab_packets := bm_remove next_sequence (ab_packets st),
                   ab_buffered_bytes := ab_buffered_bytes st - buffered_len packet,
                   ab_next_sequence := checked_add next_sequence 1,
                   ab_playout_started := True,
                   ab_stats := as_played_packets_update (\<lambda>n. sat_add n 1) (ab_stats st)\<rparr>,
                Some (PlayPacket (bp_packet packet)))
         | None \<Rightarrow>
           (case ab_packets st of
              [] \<Rightarrow> (st, None)
            | e # _ \<Rightarrow>
                if \<not> (length (ab_packets st) \<ge> ac_start_packets (ab_config st)
                      \<or> saturating_duration_since now (bp_arrived_at (snd e))
                          \<ge> ac_playout_delay (ab_config st))
                  then (st, None)
                else
                  (st\<lparr>ab_next_sequence := checked_add next_sequence 1,
                      ab_playout_started := True,
                      ab_stats := as_lost_packets_update (\<lambda>n. sat_add n 1) (ab_stats st)\<rparr>,
                   Some (PacketLoss next_sequence)))))"

definition audio_state :: "audio_buffer \<Rightarrow> audio_jitter_state" where
  "audio_state st =
     \<lparr>aj_queue_depth = length (ab_packets st), aj_buffered_bytes = ab_buffered_bytes st,
      aj_buffered_capture_span_us =
        (if ab_packets st = [] then 0
         else sat_sub
           (am_capture_timestamp_us (ap_metadata (bp_packet (snd (last (ab_packets st))))))
           (am_capture_timestamp_us (ap_metadata (bp_packet (snd (hd (ab_packets st)))))))\<rparr>"

definition audio_reset :: "audio_buffer \<Rightarrow> audio_buffer" where
  "audio_reset st =
     st\<lparr>ab_packets := [], ab_next_sequence := None, ab_playout_started := False,
        ab_buffered_bytes := 0\<rparr>"

end
