(* ===== verification/Audio_Playout.thy ===== *)
theory Audio_Playout
  imports Audio_Datagram
begin

text \<open>
  Correctness of the audio path: the packet codec round trip, the invariant of the jitter
  buffer (exact byte accounting, bounded size, every buffered packet at most
  \<open>MAX_AUDIO_SEQUENCE_AHEAD\<close> above the next one to play), and the order of playout.
\<close>

section \<open>The codec\<close>

lemma audio_metadata_eta:
  "\<lparr>am_sequence_number = am_sequence_number md, am_capture_timestamp_us = am_capture_timestamp_us md,
    am_codec = am_codec md, am_channels = am_channels md,
    am_sample_rate_hz = am_sample_rate_hz md\<rparr> = md"
  by simp

lemma decode_encode_audio:
  assumes sid: "length sid = 16" and enc: "encode_audio_datagram sid ts md audio mds = Inr d"
  shows "decode_audio_datagram d = Inr \<lparr>ap_metadata = md, ap_payload = audio\<rparr>"
    and "length d \<le> mds"
proof -
  let ?p = "u64_be (am_capture_timestamp_us md) @ [audio_codec_code (am_codec md)] @ [am_channels md] @
     u16_be 0 @ u32_be (am_sample_rate_hz md) @ u32_be (of_nat (length audio)) @ audio"
  from enc obtain header where md: "validate_audio_metadata md = Inr ()"
    and ne: "audio \<noteq> []" and le: "length audio \<le> MAX_AUDIO_PAYLOAD_BYTES"
    and mds: "HEADER_LEN + AUDIO_PACKET_HEADER_LEN + length audio \<le> mds"
    and small: "length audio < 2 ^ 32"
    and header: "message_header_new AudioPacketMessage 0 sid (am_sequence_number md) (length ?p) ts
        = Inr header"
    and d: "encode_message header ?p = Inr d"
    by (auto simp: encode_audio_datagram_def Let_def word_try_from_def not_less
        split: sum.splits if_splits option.splits)
  from header sid have h: "length (mh_session_id header) = 16"
    "mh_message_type header = AudioPacketMessage" "mh_sequence_number header = am_sequence_number md"
    by (auto simp: message_header_new_eq_Inr)
  have "decode_message d = Inr \<lparr>pm_header = header, pm_payload = ?p\<rparr>"
    by (rule decode_encode_message [OF h(1) d])
  moreover have "audio_codec_try_from (audio_codec_code (am_codec md)) = Inr (am_codec md)"
    by (cases "am_codec md") (simp add: audio_codec_try_from_def)
  ultimately show "decode_audio_datagram d = Inr \<lparr>ap_metadata = md, ap_payload = audio\<rparr>"
    using md ne le small h
    by (simp add: decode_audio_datagram_def Let_def wire_simps AUDIO_PACKET_HEADER_LEN_def
        unat_of_nat_exact audio_metadata_eta)
  have "length d = HEADER_LEN + length ?p"
    using d length_header_bytes [OF h(1)] by (auto simp: encode_message_eq_Inr)
  with mds show "length d \<le> mds" by (simp add: AUDIO_PACKET_HEADER_LEN_def)
qed

section \<open>The invariant of the buffer\<close>

definition audio_config_ok :: "audio_jitter_config \<Rightarrow> bool" where
  "audio_config_ok cfg \<longleftrightarrow> 0 < ac_max_packets cfg \<and> ac_max_memory_bytes cfg < usize_max"

definition buffer_inv ::
    "audio_jitter_config \<Rightarrow> (u64, buffered_audio_packet) btree_map \<Rightarrow> u64 option \<Rightarrow> usize \<Rightarrow> bool" where
  "buffer_inv cfg m nx bytes \<longleftrightarrow>
     audio_config_ok cfg \<and> bm_ok m \<and>
     (\<forall>(k, p) \<in> set m. am_sequence_number (ap_metadata (bp_packet p)) = k \<and>
        (\<exists>n. nx = Some n \<and> n \<le> k \<and> unat k \<le> unat n + unat MAX_AUDIO_SEQUENCE_AHEAD)) \<and>
     bytes = bm_sum buffered_len m \<and>
     bytes \<le> ac_max_memory_bytes cfg \<and> length m \<le> ac_max_packets cfg"

definition audio_inv :: "audio_buffer \<Rightarrow> bool" where
  "audio_inv st \<longleftrightarrow>
     buffer_inv (ab_config st) (ab_packets st) (ab_next_sequence st) (ab_buffered_bytes st)"

lemma buffer_inv_remove:
  assumes "buffer_inv cfg m nx b" and "bm_get m k = Some p"
  shows "buffer_inv cfg (bm_remove k m) nx (b - buffered_len p)"
proof -
  from assms have "bm_sum buffered_len m = buffered_len p + bm_sum buffered_len (bm_remove k m)"
    by (intro bm_sum_remove) (auto simp: buffer_inv_def)
  with assms(1) length_bm_remove_le [of k m] show ?thesis
    by (auto simp: buffer_inv_def set_bm_remove)
qed

lemma next_word:
  assumes "n \<le> k" and "n \<noteq> (k :: u64)"
  shows "checked_add n 1 = Some (n + 1) \<and> n + 1 \<le> k \<and> unat (n + 1) = unat n + 1"
proof -
  from assms have "n < k" by simp
  then have lt: "unat n < unat k" by (simp only: word_less_nat_alt)
  then have "unat n + unat (1 :: u64) < 2 ^ LENGTH(64)" using unat_word_bound [of k] by simp
  with lt show ?thesis by (simp add: checked_add_def word_le_nat_alt unat_add_exact)
qed

lemma buffer_inv_advance:
  assumes "buffer_inv cfg m (Some n) b" and "bm_get m n = None"
  shows "buffer_inv cfg m (checked_add n 1) b"
proof -
  have "\<exists>n'. checked_add n 1 = Some n' \<and> n' \<le> k \<and> unat k \<le> unat n' + unat MAX_AUDIO_SEQUENCE_AHEAD"
    if "(k, p) \<in> set m" for k p
    using that assms next_word [of n k] by (force simp: buffer_inv_def map_of_eq_None_iff)
  with assms(1) show ?thesis by (auto simp: buffer_inv_def)
qed

text \<open>A step that only removes packets and never moves the next number back.\<close>

definition only_discards :: "audio_buffer \<Rightarrow> audio_buffer \<Rightarrow> bool" where
  "only_discards st st' \<longleftrightarrow>
     ab_config st' = ab_config st \<and> ab_playout_started st' = ab_playout_started st \<and>
     set (ab_packets st') \<subseteq> set (ab_packets st) \<and>
     (audio_inv st \<longrightarrow> audio_inv st') \<and>
     (\<forall>n. ab_next_sequence st = Some n \<longrightarrow>
        (\<forall>k. n \<le> k \<longrightarrow> k \<notin> fst ` set (ab_packets st) \<longrightarrow>
           (\<exists>n'. ab_next_sequence st' = Some n' \<and> n \<le> n' \<and> n' \<le> k))) \<and>
     (\<forall>n n'. ab_next_sequence st = Some n \<longrightarrow> ab_next_sequence st' = Some n' \<longrightarrow> n \<le> n') \<and>
     (ab_next_sequence st = None \<longrightarrow> ab_next_sequence st' = None)"

lemma only_discards_refl [simp]: "only_discards st st"
  by (simp add: only_discards_def)

lemma only_discards_trans:
  assumes "only_discards a b" and "only_discards b c"
  shows "only_discards a c"
proof -
  have "\<exists>n'. ab_next_sequence c = Some n' \<and> n \<le> n' \<and> n' \<le> k"
    if "ab_next_sequence a = Some n" "n \<le> k" "k \<notin> fst ` set (ab_packets a)" for n k
  proof -
    from assms(1) that obtain n1 where "ab_next_sequence b = Some n1" "n \<le> n1" "n1 \<le> k"
      unfolding only_discards_def by blast
    moreover from assms(1) that have "k \<notin> fst ` set (ab_packets b)"
      unfolding only_discards_def by blast
    ultimately show ?thesis using assms(2) unfolding only_discards_def by (meson order_trans)
  qed
  moreover have "n \<le> n'" if "ab_next_sequence a = Some n" "ab_next_sequence c = Some n'" for n n'
    using that assms by (cases "ab_next_sequence b") (force simp: only_discards_def)+
  ultimately show ?thesis using assms by (auto simp: only_discards_def)
qed

lemma only_discards_evict:
  assumes "audio_evict_oldest st = (b, st')"
  shows "only_discards st st'"
proof (cases "bm_first_key (ab_packets st)")
  case None
  with assms show ?thesis by (simp add: audio_evict_oldest_def)
next
  case (Some s)
  then obtain p where p: "bm_get (ab_packets st) s = Some p" using bm_first_key_get by blast
  have mem: "s \<in> fst ` set (ab_packets st)" using bm_get_mem [OF p] by force
  have st': "ab_config st' = ab_config st" "ab_playout_started st' = ab_playout_started st"
    "ab_packets st' = bm_remove s (ab_packets st)"
    "ab_buffered_bytes st' = ab_buffered_bytes st - buffered_len p"
    "ab_next_sequence st' = (if ab_next_sequence st = Some s then checked_add s 1
       else ab_next_sequence st)"
    using assms Some p by (auto simp: audio_evict_oldest_def)
  have "audio_inv st'" if inv: "audio_inv st"
  proof -
    have r: "buffer_inv (ab_config st) (ab_packets st') (ab_next_sequence st) (ab_buffered_bytes st')"
      using inv p by (simp add: audio_inv_def st' buffer_inv_remove)
    have g: "bm_get (ab_packets st') s = None" by (simp add: st' bm_get_remove)
    show ?thesis
    proof (cases "ab_next_sequence st = Some s")
      case True
      with r have "buffer_inv (ab_config st) (ab_packets st') (Some s) (ab_buffered_bytes st')" by simp
      from buffer_inv_advance [OF this g] True show ?thesis by (simp add: audio_inv_def st')
    next
      case False
      with r show ?thesis by (simp add: audio_inv_def st')
    qed
  qed
  moreover have "\<exists>n'. ab_next_sequence st' = Some n' \<and> n \<le> n' \<and> n' \<le> k"
    if "ab_next_sequence st = Some n" "n \<le> k" "k \<notin> fst ` set (ab_packets st)" for n k
  proof (cases "n = s")
    case True
    with that mem have "n \<noteq> k" by auto
    with next_word [OF that(2)] True that(1) st'(5) show ?thesis
      by (auto simp: word_le_nat_alt)
  next
    case False
    with that st'(5) show ?thesis by auto
  qed
  moreover have "n \<le> n'" if "ab_next_sequence st = Some n" "ab_next_sequence st' = Some n'" for n n'
    using that st'(5) by (auto dest: checked_add_one_less split: if_splits)
  ultimately show ?thesis using st' by (auto simp: only_discards_def set_bm_remove)
qed

lemma audio_make_room_props:
  "audio_make_room st len = (b, st') \<Longrightarrow> only_discards st st' \<and>
     (b \<longrightarrow> length (ab_packets st') < ac_max_packets (ab_config st') \<and>
       usize_sat_add (ab_buffered_bytes st') len \<le> ac_max_memory_bytes (ab_config st'))"
proof (induction st len rule: audio_make_room.induct)
  case (1 st len)
  show ?case
  proof (cases "length (ab_packets st) \<ge> ac_max_packets (ab_config st)
         \<or> usize_sat_add (ab_buffered_bytes st) len > ac_max_memory_bytes (ab_config st)")
    case True
    obtain e s where e: "audio_evict_oldest st = (e, s)" by fastforce
    note d = only_discards_evict [OF e]
    show ?thesis
    proof (cases e)
      case [simp]: True
      with \<open>_ \<or> _\<close> 1(2) e have "audio_make_room s len = (b, st')"
        by (simp add: audio_make_room.simps [of st])
      with 1(1) [OF \<open>_ \<or> _\<close>, of e s] e d show ?thesis by (auto intro: only_discards_trans)
    next
      case False
      with \<open>_ \<or> _\<close> 1(2) e d show ?thesis by (simp add: audio_make_room.simps [of st])
    qed
  next
    case False
    with 1(2) show ?thesis by (auto simp: audio_make_room.simps [of st])
  qed
qed

section \<open>Operations keep the invariant\<close>

lemma only_discards_one:
  "only_discards st (discard_one st k)"
  by (auto simp: only_discards_def discard_one_def audio_inv_def set_bm_remove buffer_inv_remove
      split: option.splits)

lemma only_discards_expired: "only_discards st (discard_expired st now)"
proof -
  have "only_discards s (foldl discard_one s ks)" for s ks
    by (induction ks arbitrary: s) (auto intro: only_discards_trans only_discards_one)
  then show ?thesis by (simp add: discard_expired_def)
qed

lemma unat_sat_sub: "unat (sat_sub x y :: u64) = unat x - unat y"
  by (auto simp: sat_sub_def unat_sub word_le_nat_alt)

text \<open>What an accepted packet meets: the checks of \<open>push\<close> before room is made.\<close>

definition admissible :: "audio_buffer \<Rightarrow> audio_packet \<Rightarrow> bool" where
  "admissible st packet \<longleftrightarrow>
     (let s = am_sequence_number (ap_metadata packet) in
      validate_audio_metadata (ap_metadata packet) = Inr () \<and> ap_payload packet \<noteq> [] \<and>
      length (ap_payload packet) \<le> MAX_AUDIO_PAYLOAD_BYTES \<and>
      length (ap_payload packet) \<le> ac_max_memory_bytes (ab_config st) \<and>
      \<not> (ab_playout_started st \<and> (\<exists>n. ab_next_sequence st = Some n \<and> s < n)) \<and>
      bm_get (ab_packets st) s = None \<and>
      (\<forall>k \<in> insert s (fst ` set (ab_packets st)).
         unat k \<le> unat (case ab_next_sequence st of None \<Rightarrow> s | Some n \<Rightarrow> min n s)
           + unat MAX_AUDIO_SEQUENCE_AHEAD))"

definition insert_packet :: "audio_buffer \<Rightarrow> audio_packet \<Rightarrow> instant \<Rightarrow> audio_buffer" where
  "insert_packet st1 packet now =
     (let s = am_sequence_number (ap_metadata packet) in
      st1\<lparr>ab_next_sequence := Some (case ab_next_sequence st1 of None \<Rightarrow> s | Some next \<Rightarrow> min next s),
          ab_buffered_bytes := ab_buffered_bytes st1 + length (ap_payload packet),
          ab_packets := bm_insert s \<lparr>bp_packet = packet, bp_arrived_at = now\<rparr> (ab_packets st1),
          ab_stats := as_accepted_packets_update (\<lambda>n. sat_add n 1) (ab_stats st1)\<rparr>)"

lemma gap_check:
  assumes "bm_ok m"
    and "\<not> sat_sub (max (case bm_last_key m of None \<Rightarrow> s | Some k \<Rightarrow> k) s) lo > MAX_AUDIO_SEQUENCE_AHEAD"
    and "k \<in> insert s (fst ` set m)"
  shows "unat k \<le> unat (lo :: u64) + unat MAX_AUDIO_SEQUENCE_AHEAD"
proof -
  let ?mx = "max (case bm_last_key m of None \<Rightarrow> s | Some k \<Rightarrow> k) s"
  have "k \<le> ?mx"
  proof (cases "bm_last_key m")
    case None
    with assms(3) show ?thesis by (auto simp: bm_last_key_def split: if_splits)
  next
    case (Some l)
    with assms bm_last_key_max [OF assms(1) Some] show ?thesis by (auto simp: le_max_iff_disj)
  qed
  then have "unat k \<le> unat ?mx" by (simp only: word_le_nat_alt)
  moreover from assms(2) have "unat ?mx - unat lo \<le> unat MAX_AUDIO_SEQUENCE_AHEAD"
    by (simp only: not_less word_le_nat_alt unat_sat_sub)
  ultimately show ?thesis by linarith
qed

lemma audio_push_cases:
  assumes "audio_inv st"
  obtains (kept) r where "audio_push st packet now = (st, Inl r)"
  | (counted) t where "audio_push st packet now = (st\<lparr>ab_stats := t\<rparr>, Inr False)"
  | (full) st1 where "admissible st packet"
      "audio_make_room st (length (ap_payload packet)) = (False, st1)"
      "audio_push st packet now = (st1, Inl AudioMemoryLimit)"
  | (stored) st1 where "admissible st packet"
      "audio_make_room st (length (ap_payload packet)) = (True, st1)"
      "audio_push st packet now = (insert_packet st1 packet now, Inr True)"
proof -
  let ?s = "am_sequence_number (ap_metadata packet)"
  let ?lo = "case ab_next_sequence st of None \<Rightarrow> ?s | Some n \<Rightarrow> min n ?s"
  let ?mx = "max (case bm_last_key (ab_packets st) of None \<Rightarrow> ?s | Some k \<Rightarrow> k) ?s"
  show thesis
  proof (cases "(\<exists>e. validate_audio_metadata (ap_metadata packet) = Inl e) \<or> ap_payload packet = [] \<or>
      length (ap_payload packet) > MAX_AUDIO_PAYLOAD_BYTES")
    case True
    then have "\<exists>r. audio_push st packet now = (st, Inl r)"
      by (cases "validate_audio_metadata (ap_metadata packet)") (auto simp: audio_push_def Let_def)
    then show thesis using kept by blast
  next
    case valid: False
    then have v: "validate_audio_metadata (ap_metadata packet) = Inr ()"
      by (cases "validate_audio_metadata (ap_metadata packet)") auto
    show thesis
    proof (cases "(ab_playout_started st \<and> (\<exists>n. ab_next_sequence st = Some n \<and> ?s < n)) \<or>
        bm_contains (ab_packets st) ?s")
      case True
      then have "\<exists>t. audio_push st packet now = (st\<lparr>ab_stats := t\<rparr>, Inr False)"
        using valid v by (auto simp: audio_push_def Let_def)
      then show thesis using counted by blast
    next
      case fresh: False
      then have late: "\<not> (ab_playout_started st \<and>
          (case ab_next_sequence st of None \<Rightarrow> False | Some next \<Rightarrow> ?s < next))"
        by (auto split: option.splits)
      show thesis
      proof (cases "sat_sub ?mx ?lo > MAX_AUDIO_SEQUENCE_AHEAD \<or>
          length (ap_payload packet) > ac_max_memory_bytes (ab_config st)")
        case True
        then have "\<exists>r. audio_push st packet now = (st, Inl r)"
          using valid v fresh late by (auto simp: audio_push_def Let_def)
        then show thesis using kept by blast
      next
        case False
        obtain b st1 where room: "audio_make_room st (length (ap_payload packet)) = (b, st1)" by fastforce
        have ok: "bm_ok (ab_packets st)" using assms by (simp add: audio_inv_def buffer_inv_def)
        have "admissible st packet"
          unfolding admissible_def Let_def
          using valid v fresh False gap_check [OF ok, of ?s ?lo]
          by (auto simp: bm_contains_def simp del: insert_iff)
        moreover have "audio_push st packet now = (if b then (insert_packet st1 packet now, Inr True)
            else (st1, Inl AudioMemoryLimit))"
          using valid v fresh late False room by (auto simp: audio_push_def Let_def insert_packet_def)
        ultimately show thesis using room full stored by (cases b) auto
      qed
    qed
  qed
qed

lemma only_discards_keys:
  "only_discards st st' \<Longrightarrow> k \<in> fst ` set (ab_packets st') \<Longrightarrow> k \<in> fst ` set (ab_packets st)"
  by (auto simp: only_discards_def)

lemma insert_packet_inv:
  assumes inv: "audio_inv st" and adm: "admissible st packet"
    and room: "audio_make_room st (length (ap_payload packet)) = (True, st1)"
  shows "audio_inv (insert_packet st1 packet now)"
proof -
  let ?s = "am_sequence_number (ap_metadata packet)"
  let ?p = "\<lparr>bp_packet = packet, bp_arrived_at = now\<rparr>"
  let ?lo = "case ab_next_sequence st of None \<Rightarrow> ?s | Some n \<Rightarrow> min n ?s"
  define lo' where "lo' = (case ab_next_sequence st1 of None \<Rightarrow> ?s | Some n \<Rightarrow> min n ?s)"
  from audio_make_room_props [OF room] have od: "only_discards st st1"
    and len: "length (ab_packets st1) < ac_max_packets (ab_config st1)"
    and mem: "usize_sat_add (ab_buffered_bytes st1) (length (ap_payload packet))
                \<le> ac_max_memory_bytes (ab_config st1)" by auto
  from od inv have inv1: "audio_inv st1" by (simp add: only_discards_def)
  then have ok: "bm_ok (ab_packets st1)" and cfg: "audio_config_ok (ab_config st1)"
    and keys: "\<And>k q. (k, q) \<in> set (ab_packets st1) \<Longrightarrow>
      am_sequence_number (ap_metadata (bp_packet q)) = k \<and>
      (\<exists>n. ab_next_sequence st1 = Some n \<and> n \<le> k)"
    and sum: "ab_buffered_bytes st1 = bm_sum buffered_len (ab_packets st1)"
    by (auto simp: audio_inv_def buffer_inv_def)
  from adm have "?s \<notin> fst ` set (ab_packets st)"
    by (simp add: admissible_def Let_def map_of_eq_None_iff)
  with only_discards_keys [OF od] have absent: "bm_get (ab_packets st1) ?s = None"
    by (auto simp only: map_of_eq_None_iff)
  have bound: "unat k \<le> unat ?lo + unat MAX_AUDIO_SEQUENCE_AHEAD"
    if "k \<in> insert ?s (fst ` set (ab_packets st1))" for k
    using adm that only_discards_keys [OF od, of k] unfolding admissible_def Let_def by blast
  have gap: "lo' \<le> k \<and> unat k \<le> unat lo' + unat MAX_AUDIO_SEQUENCE_AHEAD"
    if k: "k \<in> insert ?s (fst ` set (ab_packets st1))" for k
  proof (cases "ab_next_sequence st1")
    case None
    with k keys show ?thesis by (auto simp: lo'_def)
  next
    case (Some n1)
    have "?lo \<le> lo'"
      using od Some by (auto simp: lo'_def only_discards_def min_le_iff_disj min_def split: option.splits)
    then have "unat ?lo \<le> unat lo'" by (simp only: word_le_nat_alt)
    with bound [OF k] have "unat k \<le> unat lo' + unat MAX_AUDIO_SEQUENCE_AHEAD" by linarith
    moreover have "lo' \<le> k" using k keys Some by (auto simp: lo'_def min_le_iff_disj)
    ultimately show ?thesis by simp
  qed
  have fits: "ab_buffered_bytes st1 + length (ap_payload packet) \<le> ac_max_memory_bytes (ab_config st1)"
    using mem cfg by (auto simp: usize_sat_add_def audio_config_ok_def)
  have "bm_sum buffered_len (bm_insert ?s ?p (ab_packets st1))
      = ab_buffered_bytes st1 + length (ap_payload packet)"
    using absent sum by (simp add: bm_sum_insert [OF ok] bm_remove_absent)
  moreover have "length (bm_insert ?s ?p (ab_packets st1)) \<le> ac_max_packets (ab_config st1)"
    using len by (simp add: length_bm_insert [OF ok])
  moreover have "am_sequence_number (ap_metadata (bp_packet q)) = k \<and>
      (\<exists>n. Some lo' = Some n \<and> n \<le> k \<and> unat k \<le> unat n + unat MAX_AUDIO_SEQUENCE_AHEAD)"
    if "(k, q) \<in> set (bm_insert ?s ?p (ab_packets st1))" for k q
  proof -
    from that have "k \<in> insert ?s (fst ` set (ab_packets st1))"
      by (force simp: set_bm_insert [OF ok])
    from gap [OF this] that keys show ?thesis by (auto simp: set_bm_insert [OF ok])
  qed
  ultimately show ?thesis
    using cfg ok fits unfolding audio_inv_def buffer_inv_def insert_packet_def Let_def
    by (auto simp flip: lo'_def)
qed

lemma audio_push_inv:
  assumes "audio_inv st"
  shows "audio_inv (fst (audio_push st packet now))"
proof (rule audio_push_cases [OF assms, of packet now])
  fix st1 assume "audio_make_room st (length (ap_payload packet)) = (False, st1)"
    and "audio_push st packet now = (st1, Inl AudioMemoryLimit)"
  with audio_make_room_props assms show ?thesis by (fastforce simp: only_discards_def)
next
  fix st1 assume "admissible st packet"
    and "audio_make_room st (length (ap_payload packet)) = (True, st1)"
    and "audio_push st packet now = (insert_packet st1 packet now, Inr True)"
  with insert_packet_inv [OF assms] show ?thesis by simp
qed (use assms in \<open>simp_all add: audio_inv_def\<close>)

text \<open>What \<open>pop_ready\<close> does after it has discarded the expired packets.\<close>

lemma pop_ready_cases:
  obtains (nothing) "pop_ready st now = (discard_expired st now, None)"
  | (played) n p t where "ab_next_sequence (discard_expired st now) = Some n"
      "bm_get (ab_packets (discard_expired st now)) n = Some p"
      "pop_ready st now = ((discard_expired st now)
         \<lparr>ab_packets := bm_remove n (ab_packets (discard_expired st now)),
          ab_buffered_bytes := ab_buffered_bytes (discard_expired st now) - buffered_len p,
          ab_next_sequence := checked_add n 1, ab_playout_started := True, ab_stats := t\<rparr>,
         Some (PlayPacket (bp_packet p)))"
  | (lost) n t where "ab_next_sequence (discard_expired st now) = Some n"
      "bm_get (ab_packets (discard_expired st now)) n = None"
      "ab_packets (discard_expired st now) \<noteq> []"
      "pop_ready st now = ((discard_expired st now)
         \<lparr>ab_next_sequence := checked_add n 1, ab_playout_started := True, ab_stats := t\<rparr>,
         Some (PacketLoss n))"
proof -
  let ?s = "discard_expired st now"
  show thesis
  proof (cases "snd (pop_ready st now)")
    case None
    then have "pop_ready st now = (?s, None)"
      by (auto simp: pop_ready_def Let_def split: option.splits list.splits if_splits)
    then show thesis by (rule nothing)
  next
    case (Some item)
    then obtain n where n: "ab_next_sequence ?s = Some n"
      by (auto simp: pop_ready_def Let_def split: option.splits)
    show thesis
    proof (cases "bm_get (ab_packets ?s) n")
      case (Some p)
      with n \<open>snd _ = Some item\<close> show thesis
        by (intro played [OF n Some]) (auto simp: pop_ready_def Let_def split: if_splits)
    next
      case None
      with n \<open>snd _ = Some item\<close> show thesis
        by (intro lost [OF n None]) (auto simp: pop_ready_def Let_def split: if_splits list.splits)
    qed
  qed
qed

lemma pop_ready_inv:
  assumes "audio_inv st"
  shows "audio_inv (fst (pop_ready st now))"
proof -
  let ?s = "discard_expired st now"
  have inv: "audio_inv ?s" using only_discards_expired [of st now] assms by (simp add: only_discards_def)
  show ?thesis
  proof (rule pop_ready_cases [of st now])
    fix n p t assume n: "ab_next_sequence ?s = Some n" and g: "bm_get (ab_packets ?s) n = Some p"
      and r: "pop_ready st now = (?s\<lparr>ab_packets := bm_remove n (ab_packets ?s),
          ab_buffered_bytes := ab_buffered_bytes ?s - buffered_len p,
          ab_next_sequence := checked_add n 1, ab_playout_started := True, ab_stats := t\<rparr>,
         Some (PlayPacket (bp_packet p)))"
    have "buffer_inv (ab_config ?s) (bm_remove n (ab_packets ?s)) (Some n)
        (ab_buffered_bytes ?s - buffered_len p)"
      using inv n g by (auto simp: audio_inv_def intro: buffer_inv_remove)
    from buffer_inv_advance [OF this] r show ?thesis by (simp add: audio_inv_def bm_get_remove)
  next
    fix n t assume n: "ab_next_sequence ?s = Some n" and g: "bm_get (ab_packets ?s) n = None"
      and r: "pop_ready st now = (?s\<lparr>ab_next_sequence := checked_add n 1,
          ab_playout_started := True, ab_stats := t\<rparr>, Some (PacketLoss n))"
    from buffer_inv_advance [of _ _ n, OF _ g] inv n r show ?thesis by (auto simp: audio_inv_def)
  qed (use inv in simp)
qed

section \<open>All operations together\<close>

datatype audio_event = AudioPush audio_packet instant | AudioDatagram bytes instant
  | AudioPop instant | AudioReset

fun audio_step :: "audio_buffer \<Rightarrow> audio_event \<Rightarrow> audio_buffer" where
  "audio_step st (AudioPush packet now) = fst (audio_push st packet now)"
| "audio_step st (AudioDatagram datagram now) = fst (audio_push_datagram st datagram now)"
| "audio_step st (AudioPop now) = fst (pop_ready st now)"
| "audio_step st AudioReset = audio_reset st"

lemma audio_config_kept: "ab_config (audio_step st e) = ab_config st" if "audio_inv st"
proof -
  have push: "ab_config (fst (audio_push st p now)) = ab_config st" for p now
    by (rule audio_push_cases [OF that, of p now])
      (auto dest!: audio_make_room_props simp: only_discards_def insert_packet_def Let_def)
  have "ab_config (discard_expired st now) = ab_config st" for now
    using only_discards_expired [of st now] by (simp add: only_discards_def)
  then have pop: "ab_config (fst (pop_ready st now)) = ab_config st" for now
    by - (rule pop_ready_cases [of st now], simp_all)
  show ?thesis
    by (cases "(st, e)" rule: audio_step.cases)
      (auto simp: push pop audio_reset_def audio_push_datagram_def split: sum.splits)
qed

definition buffering :: "audio_jitter_config \<Rightarrow> audio_buffer \<Rightarrow> bool" where
  "buffering cfg st \<longleftrightarrow> audio_inv st \<and> ab_config st = cfg"

interpretation jitter: step_invariant audio_step "buffering cfg" for cfg
proof
  fix s e assume b: "buffering cfg s"
  then have inv: "audio_inv s" by (simp add: buffering_def)
  have "audio_inv (audio_reset s)"
    using inv by (auto simp: audio_inv_def buffer_inv_def audio_reset_def)
  then have "audio_inv (audio_step s e)"
    by (cases "(s, e)" rule: audio_step.cases)
      (auto simp: audio_push_inv pop_ready_inv inv audio_push_datagram_def split: sum.splits)
  with b audio_config_kept [OF inv] show "buffering cfg (audio_step s e)" by (simp add: buffering_def)
qed

lemma audio_buffer_new_inv:
  assumes "audio_buffer_new cfg = Inr st" and "ac_max_memory_bytes cfg < usize_max"
  shows "audio_inv st" "ab_config st = cfg" "\<not> ab_playout_started st" "ab_packets st = []"
    "ab_next_sequence st = None"
  using assms
  by (auto simp: audio_buffer_new_def audio_inv_def buffer_inv_def audio_config_ok_def split: if_splits)

section \<open>Order of playout\<close>

fun item_sequence :: "audio_playout_item \<Rightarrow> u64" where
  "item_sequence (PlayPacket packet) = am_sequence_number (ap_metadata packet)"
| "item_sequence (PacketLoss n) = n"

fun playout_run :: "audio_buffer \<Rightarrow> audio_event list \<Rightarrow> audio_playout_item list" where
  "playout_run st [] = []"
| "playout_run st (AudioPop now # es) =
     (case pop_ready st now of (st', item) \<Rightarrow>
        (case item of None \<Rightarrow> [] | Some i \<Rightarrow> [i]) @ playout_run st' es)"
| "playout_run st (e # es) = playout_run (audio_step st e) es"

definition audio_guard :: "audio_buffer \<Rightarrow> audio_event \<Rightarrow> audio_buffer \<times> int option" where
  "audio_guard st e =
     (case e of
        AudioPop now \<Rightarrow> (case pop_ready st now of (st', item) \<Rightarrow>
          (st', map_option (\<lambda>i. uint (item_sequence i)) item))
      | _ \<Rightarrow> (audio_step st e, None))"

text \<open>The largest number that can no longer be played.\<close>

definition played_up_to :: "audio_buffer \<Rightarrow> int" where
  "played_up_to st =
     (if ab_playout_started st
      then (case ab_next_sequence st of None \<Rightarrow> 2 ^ 64 | Some n \<Rightarrow> uint n - 1) else - 1)"

text \<open>The sequence numbers must stay below the largest \<open>u64\<close>, after which the buffer forgets
  its position.\<close>

definition in_stream :: "audio_event \<Rightarrow> bool" where
  "in_stream e \<longleftrightarrow>
     (case e of
        AudioPush packet now \<Rightarrow> am_sequence_number (ap_metadata packet) \<noteq> - 1
      | AudioDatagram datagram now \<Rightarrow>
          (case decode_audio_datagram datagram of
             Inl _ \<Rightarrow> True | Inr packet \<Rightarrow> am_sequence_number (ap_metadata packet) \<noteq> - 1)
      | AudioPop now \<Rightarrow> True
      | AudioReset \<Rightarrow> False)"

definition playing_inv :: "audio_buffer \<Rightarrow> bool" where
  "playing_inv st \<longleftrightarrow>
     audio_inv st \<and> (ab_playout_started st \<longrightarrow> ab_next_sequence st \<noteq> None) \<and>
     - 1 \<notin> fst ` set (ab_packets st)"

lemma only_discards_playing:
  assumes od: "only_discards st st'" and p: "playing_inv st"
  shows "playing_inv st' \<and> played_up_to st \<le> played_up_to st'"
proof -
  have keys: "- 1 \<notin> fst ` set (ab_packets st')" using od p by (auto simp: only_discards_def playing_inv_def)
  have nx: "\<exists>n'. ab_next_sequence st' = Some n' \<and> n \<le> n'" if "ab_next_sequence st = Some n" for n
  proof -
    have "n \<le> - 1" by simp
    with that od p show ?thesis unfolding only_discards_def playing_inv_def by blast
  qed
  show ?thesis
  proof (cases "ab_playout_started st")
    case True
    with p obtain n where n: "ab_next_sequence st = Some n" by (auto simp: playing_inv_def)
    from nx [OF n] obtain n' where "ab_next_sequence st' = Some n'" "uint n \<le> uint n'"
      by (auto simp only: word_le_def)
    with True n od p keys show ?thesis by (simp add: only_discards_def playing_inv_def played_up_to_def)
  next
    case False
    with od p keys show ?thesis by (auto simp: only_discards_def playing_inv_def played_up_to_def)
  qed
qed

lemma audio_push_playing:
  assumes p: "playing_inv st" and s: "am_sequence_number (ap_metadata packet) \<noteq> - 1"
  shows "playing_inv (fst (audio_push st packet now)) \<and>
    played_up_to st \<le> played_up_to (fst (audio_push st packet now))"
proof -
  from p have inv: "audio_inv st" by (simp add: playing_inv_def)
  let ?s = "am_sequence_number (ap_metadata packet)"
  show ?thesis
  proof (rule audio_push_cases [OF inv, of packet now])
    fix t assume "audio_push st packet now = (st\<lparr>ab_stats := t\<rparr>, Inr False)"
    with p show ?thesis by (simp add: playing_inv_def audio_inv_def played_up_to_def)
  next
    fix st1 assume "audio_make_room st (length (ap_payload packet)) = (False, st1)"
      and r: "audio_push st packet now = (st1, Inl AudioMemoryLimit)"
    with audio_make_room_props have "only_discards st st1" by blast
    from only_discards_playing [OF this p] r show ?thesis by simp
  next
    fix st1 assume adm: "admissible st packet"
      and room: "audio_make_room st (length (ap_payload packet)) = (True, st1)"
      and r: "audio_push st packet now = (insert_packet st1 packet now, Inr True)"
    from audio_make_room_props [OF room] have od: "only_discards st st1" by simp
    note q = only_discards_playing [OF od p]
    have "played_up_to st \<le> played_up_to (insert_packet st1 packet now)"
    proof (cases "ab_playout_started st")
      case True
      with p obtain n where n: "ab_next_sequence st = Some n" by (auto simp: playing_inv_def)
      have "n \<le> ?s" and "?s \<notin> fst ` set (ab_packets st)"
        using adm True n by (auto simp: admissible_def Let_def map_of_eq_None_iff)
      with od n obtain n' where n': "ab_next_sequence st1 = Some n'" "n \<le> n'" "n' \<le> ?s"
        unfolding only_discards_def by blast
      then have "uint n \<le> uint n'" by (simp only: word_le_def)
      with True n n' od show ?thesis
        by (simp add: played_up_to_def insert_packet_def Let_def only_discards_def min_def)
    next
      case False
      with od show ?thesis
        by (simp add: played_up_to_def insert_packet_def Let_def only_discards_def)
    qed
    moreover have "playing_inv (insert_packet st1 packet now)"
      using insert_packet_inv [OF inv adm room] q s
      by (simp add: playing_inv_def insert_packet_def Let_def)
    ultimately show ?thesis using r by simp
  qed (use p in simp)
qed

lemma pop_ready_playing:
  assumes p: "playing_inv st"
  shows "playing_inv (fst (pop_ready st now)) \<and> played_up_to st \<le> played_up_to (fst (pop_ready st now))"
    and "snd (pop_ready st now) = Some i \<Longrightarrow>
      played_up_to st < uint (item_sequence i) \<and> uint (item_sequence i) \<le> played_up_to (fst (pop_ready st now))"
proof -
  let ?s = "discard_expired st now"
  from only_discards_playing [OF only_discards_expired p, of now]
  have s: "playing_inv ?s" "played_up_to st \<le> played_up_to ?s" by auto
  have inv': "audio_inv (fst (pop_ready st now))" using p by (intro pop_ready_inv) (simp add: playing_inv_def)
  have below: "played_up_to ?s < uint n" if "ab_next_sequence ?s = Some n" for n
    using that by (auto simp: played_up_to_def intro: order_less_le_trans [of _ 0])
  have up: "checked_add n 1 = Some (n + 1) \<and> uint (n + 1) = uint n + 1" if "n \<noteq> - 1" for n :: u64
  proof -
    have "n \<le> - 1" by simp
    from next_word [OF this that] have c: "checked_add n 1 = Some (n + 1)"
      and "unat (n + 1) = unat n + 1" by auto
    then have "int (unat (n + 1)) = int (unat n) + 1" by (simp only: of_nat_add of_nat_1)
    with c show ?thesis by (simp only: uint_nat)
  qed
  have "playing_inv (fst (pop_ready st now)) \<and> played_up_to ?s \<le> played_up_to (fst (pop_ready st now)) \<and>
    (\<forall>i. snd (pop_ready st now) = Some i \<longrightarrow>
      played_up_to ?s < uint (item_sequence i) \<and> uint (item_sequence i) \<le> played_up_to (fst (pop_ready st now)))"
  proof (rule pop_ready_cases [of st now])
    fix n q t assume n: "ab_next_sequence ?s = Some n" and g: "bm_get (ab_packets ?s) n = Some q"
      and r: "pop_ready st now = (?s\<lparr>ab_packets := bm_remove n (ab_packets ?s),
          ab_buffered_bytes := ab_buffered_bytes ?s - buffered_len q,
          ab_next_sequence := checked_add n 1, ab_playout_started := True, ab_stats := t\<rparr>,
         Some (PlayPacket (bp_packet q)))"
    from bm_get_mem [OF g] s(1) have "n \<noteq> - 1" and "am_sequence_number (ap_metadata (bp_packet q)) = n"
      by (force simp: playing_inv_def audio_inv_def buffer_inv_def)+
    moreover from this up [of n] r have "played_up_to (fst (pop_ready st now)) = uint n"
      by (simp add: played_up_to_def)
    ultimately show ?thesis
      using up [of n] r s(1) inv' below [OF n] by (auto simp: playing_inv_def set_bm_remove)
  next
    fix n t assume n: "ab_next_sequence ?s = Some n" and g: "bm_get (ab_packets ?s) n = None"
      and ne: "ab_packets ?s \<noteq> []"
      and r: "pop_ready st now = (?s\<lparr>ab_next_sequence := checked_add n 1,
          ab_playout_started := True, ab_stats := t\<rparr>, Some (PacketLoss n))"
    from ne obtain k q where k: "(k, q) \<in> set (ab_packets ?s)" by (cases "ab_packets ?s") auto
    with s(1) n have "n \<le> k" and "k \<noteq> - 1" by (force simp: playing_inv_def audio_inv_def buffer_inv_def)+
    moreover have "k \<le> - 1" by simp
    ultimately have "n \<noteq> - 1" by (metis antisym)
    moreover from this up [of n] r have "played_up_to (fst (pop_ready st now)) = uint n"
      by (simp add: played_up_to_def)
    ultimately show ?thesis
      using up [of n] r s(1) inv' below [OF n] by (auto simp: playing_inv_def)
  qed (use s(1) in simp)
  with s(2) show "playing_inv (fst (pop_ready st now)) \<and>
      played_up_to st \<le> played_up_to (fst (pop_ready st now))"
    and "snd (pop_ready st now) = Some i \<Longrightarrow>
      played_up_to st < uint (item_sequence i) \<and>
      uint (item_sequence i) \<le> played_up_to (fst (pop_ready st now))"
    by auto
qed

interpretation playout: sequence_guard playing_inv in_stream played_up_to audio_guard
proof
  fix s e s' and r :: "int option"
  assume "playing_inv s" "in_stream e" "audio_guard s e = (s', r)"
  then show "playing_inv s' \<and> played_up_to s \<le> played_up_to s'"
    using audio_push_playing [of s] pop_ready_playing(1) [of s]
    by (cases e)
      (auto simp: audio_guard_def in_stream_def audio_push_datagram_def split: prod.splits sum.splits,
       (metis fst_conv)+)
next
  fix s e s' and n :: int
  assume "playing_inv s" "in_stream e" "audio_guard s e = (s', Some n)"
  then show "played_up_to s < n \<and> n \<le> played_up_to s'"
    using pop_ready_playing(2) [of s]
    by (cases e) (auto simp: audio_guard_def split: prod.splits, (metis fst_conv snd_conv)+)
qed

lemma playout_run_guard:
  "accepted_run audio_guard st es = map (\<lambda>i. uint (item_sequence i)) (playout_run st es)"
proof (induction es arbitrary: st)
  case (Cons e es)
  then show ?case by (cases e) (auto simp: audio_guard_def split: prod.splits option.splits)
qed simp

lemma stalled_step:
  assumes "ab_packets st = []" and "ab_playout_started st" and "ab_next_sequence st = Some n"
  shows "pop_ready st now = (st, None)"
    and "unat n + unat MAX_AUDIO_SEQUENCE_AHEAD < unat (am_sequence_number (ap_metadata packet)) \<Longrightarrow>
      validate_audio_metadata (ap_metadata packet) = Inr () \<Longrightarrow> ap_payload packet \<noteq> [] \<Longrightarrow>
      length (ap_payload packet) \<le> MAX_AUDIO_PAYLOAD_BYTES \<Longrightarrow>
      audio_push st packet now = (st, Inl SequenceGap)"
proof -
  show "pop_ready st now = (st, None)"
    using assms by (simp add: pop_ready_def discard_expired_def)
  let ?s = "am_sequence_number (ap_metadata packet)"
  assume far: "unat n + unat MAX_AUDIO_SEQUENCE_AHEAD < unat ?s"
    and "validate_audio_metadata (ap_metadata packet) = Inr ()" "ap_payload packet \<noteq> []"
    "length (ap_payload packet) \<le> MAX_AUDIO_PAYLOAD_BYTES"
  moreover from far have "unat n < unat ?s" by linarith
  then have "n < ?s" by (simp only: word_less_nat_alt)
  moreover from far have "MAX_AUDIO_SEQUENCE_AHEAD < sat_sub ?s n"
    by (simp only: word_less_nat_alt unat_sat_sub less_diff_conv add.commute)
  ultimately show "audio_push st packet now = (st, Inl SequenceGap)"
    using assms by (auto simp: audio_push_def Let_def bm_contains_def bm_last_key_def min_def)
qed

section \<open>Properties\<close>

text \<open>
  Round trip of audio datagrams. What \<open>encode_audio_datagram\<close> produces fits the
  datagram size and decodes to the packet it was made from.
\<close>

lemma audio_datagram_roundtrip:
  assumes "length sid = 16" and "encode_audio_datagram sid ts md audio mds = Inr d"
  shows "decode_audio_datagram d = Inr \<lparr>ap_metadata = md, ap_payload = audio\<rparr> \<and> length d \<le> mds"
  using decode_encode_audio [OF assms] by simp

text \<open>
  The jitter buffer is bounded on every input. After any sequence of packets,
  raw datagrams, pops and resets, the byte counter is the sum of the buffered payloads and
  within the configured memory, the number of packets is within its limit, and every
  buffered packet lies at most \<open>MAX_AUDIO_SEQUENCE_AHEAD\<close> above the next one to play.
\<close>

lemma audio_buffer_bounded:
  assumes "audio_buffer_new config = Inr st0" and "ac_max_memory_bytes config < usize_max"
  shows "\<exists>st. foldl audio_step st0 events = st \<and>
     ab_buffered_bytes st = bm_sum (\<lambda>p. length (ap_payload (bp_packet p))) (ab_packets st) \<and>
     ab_buffered_bytes st \<le> ac_max_memory_bytes config \<and>
     length (ab_packets st) \<le> ac_max_packets config \<and>
     (\<forall>(k, p) \<in> set (ab_packets st). \<exists>n. ab_next_sequence st = Some n \<and> n \<le> k \<and>
        unat k \<le> unat n + unat MAX_AUDIO_SEQUENCE_AHEAD)"
proof -
  have "buffering config st0" using audio_buffer_new_inv [OF assms] by (simp add: buffering_def)
  then have "buffering config (foldl audio_step st0 events)" by (rule jitter.run_preserves)
  then show ?thesis by (auto simp: buffering_def audio_inv_def buffer_inv_def)
qed

text \<open>
  Property C18: order of playout. In every run on a fresh buffer without a reset, where no
  packet carries the largest sequence number, the packets and the loss marks handed to the
  player have strictly increasing sequence numbers: nothing is played twice or out of order.
\<close>

theorem audio_playout_ordered:
  assumes "audio_buffer_new config = Inr st0" and "ac_max_memory_bytes config < usize_max"
    and "\<forall>e \<in> set events. in_stream e"
  shows "sorted_wrt (<) (map item_sequence (playout_run st0 events))"
proof -
  have "playing_inv st0" using audio_buffer_new_inv [OF assms(1,2)] by (simp add: playing_inv_def)
  from playout.accepted_strictly_increasing [OF this assms(3)] show ?thesis
    by (simp add: playout_run_guard sorted_wrt_map word_less_def)
qed

text \<open>
  Property C19: a stall. Once playout has started and the buffer has run empty, packets whose
  numbers lie more than \<open>MAX_AUDIO_SEQUENCE_AHEAD\<close> above the next expected one are all
  refused and pops yield nothing: the buffer does not change at all, however many arrive,
  until it is reset.
\<close>

theorem audio_stream_stalls:
  assumes "ab_packets st = []" and "ab_playout_started st" and "ab_next_sequence st = Some n"
    and "\<forall>e \<in> set events. (\<exists>now. e = AudioPop now) \<or>
      (\<exists>packet now. e = AudioPush packet now \<and>
         unat n + unat MAX_AUDIO_SEQUENCE_AHEAD < unat (am_sequence_number (ap_metadata packet)) \<and>
         validate_audio_metadata (ap_metadata packet) = Inr () \<and> ap_payload packet \<noteq> [] \<and>
         length (ap_payload packet) \<le> MAX_AUDIO_PAYLOAD_BYTES)"
  shows "foldl audio_step st events = st \<and> playout_run st events = []"
  using assms(4)
proof (induction events)
  case (Cons e es)
  from Cons.prems have "audio_step st e = st \<and> playout_run st (e # es) = playout_run st es"
    using stalled_step [OF assms(1-3)] by auto
  with Cons show ?case by auto
qed simp

text \<open>Concrete packets on the default configuration.\<close>

definition sample_audio :: "u64 \<Rightarrow> audio_packet" where
  "sample_audio n = \<lparr>ap_metadata = \<lparr>am_sequence_number = n, am_capture_timestamp_us = 7,
     am_codec = Opus, am_channels = 2, am_sample_rate_hz = 48000\<rparr>, ap_payload = [1, 2, 3]\<rparr>"

definition sample_audio_buffer :: audio_buffer where
  "sample_audio_buffer =
     \<lparr>ab_config = audio_config_default, ab_packets = [], ab_next_sequence = None,
      ab_playout_started = False, ab_buffered_bytes = 0, ab_stats = audio_stats_default\<rparr>"

lemma sample_audio_buffer_new: "audio_buffer_new audio_config_default = Inr sample_audio_buffer"
  by (simp add: audio_buffer_new_def audio_config_default_def sample_audio_buffer_def from_millis_def)

lemma sample_audio_memory: "ac_max_memory_bytes audio_config_default < usize_max"
  by (simp add: audio_config_default_def usize_max_def)

lemma sample_audio_valid: "n \<noteq> 0 \<Longrightarrow> validate_audio_metadata (ap_metadata (sample_audio n)) = Inr ()"
  by (simp add: validate_audio_metadata_def sample_audio_def word_le_nat_alt word_less_nat_alt)

theorem audio_playout_ordered_witness:
  "sorted_wrt (<) (map item_sequence (playout_run sample_audio_buffer
      [AudioPush (sample_audio 3) 0, AudioPush (sample_audio 1) 5, AudioPop 40000000, AudioPop 40000000]))"
  by (rule audio_playout_ordered [OF sample_audio_buffer_new sample_audio_memory])
    (simp add: in_stream_def sample_audio_def)

definition drained_audio_buffer :: audio_buffer where
  "drained_audio_buffer =
     foldl audio_step sample_audio_buffer [AudioPush (sample_audio 1) 0, AudioPop 40000000]"

lemma drained_audio_buffer:
  "ab_packets drained_audio_buffer = []" "ab_playout_started drained_audio_buffer"
  "ab_next_sequence drained_audio_buffer = Some 2"
  using sample_audio_valid [of 1]
  by (simp_all add: drained_audio_buffer_def sample_audio_buffer_def audio_push_def Let_def
      audio_config_default_def bm_contains_def bm_last_key_def sat_sub_def MAX_AUDIO_SEQUENCE_AHEAD_def
      audio_make_room.simps usize_sat_add_def usize_max_def pop_ready_def discard_expired_def
      saturating_duration_since_def from_millis_def MAX_AUDIO_PAYLOAD_BYTES_def sample_audio_def
      bm_remove_def checked_add_def)

theorem audio_stream_stalls_witness:
  "foldl audio_step drained_audio_buffer
     [AudioPush (sample_audio 5000) 50000000, AudioPop 90000000, AudioPush (sample_audio 5001) 99000000]
     = drained_audio_buffer"
proof -
  have "foldl audio_step drained_audio_buffer
     [AudioPush (sample_audio 5000) 50000000, AudioPop 90000000, AudioPush (sample_audio 5001) 99000000]
     = drained_audio_buffer \<and>
     playout_run drained_audio_buffer
     [AudioPush (sample_audio 5000) 50000000, AudioPop 90000000, AudioPush (sample_audio 5001) 99000000] = []"
    using sample_audio_valid [of 5000] sample_audio_valid [of 5001]
    by (intro audio_stream_stalls [OF drained_audio_buffer])
      (simp add: sample_audio_def MAX_AUDIO_SEQUENCE_AHEAD_def MAX_AUDIO_PAYLOAD_BYTES_def)
  then show ?thesis by blast
qed

end
