(* ===== verification/Input_Events.thy ===== *)
theory Input_Events
  imports Protocol Ordered_Map
begin

text \<open>
  Input events (\<open>src/transport/input.rs\<close>): mouse movement over datagrams, reliable key, button
  and wheel events, and the two receivers. An \<open>i32\<close> is a 32-bit word read by \<open>sint\<close>; a
  \<open>BTreeSet\<close> is an ordered map to the unit type.
\<close>

section \<open>Constants and data\<close>

definition MOUSE_MOVEMENT_PAYLOAD_LEN :: usize where "MOUSE_MOVEMENT_PAYLOAD_LEN = 20"
definition APPLICATION_MOUSE_HEADER_LEN :: usize where "APPLICATION_MOUSE_HEADER_LEN = 24"
definition MAX_APPLICATION_MOUSE_BYTES :: usize where "MAX_APPLICATION_MOUSE_BYTES = 4 * 1024"
definition RELIABLE_INPUT_PAYLOAD_LEN :: usize where "RELIABLE_INPUT_PAYLOAD_LEN = 24"
definition MAX_DISPLAY_ID :: u32 where "MAX_DISPLAY_ID = 255"
definition KNOWN_BUTTON_MASK :: u16 where "KNOWN_BUTTON_MASK = 0x001f"
definition MAX_ABSOLUTE_COORDINATE :: int where "MAX_ABSOLUTE_COORDINATE = 1000000"

datatype mouse_movement_mode = Absolute | Relative

datatype mouse_button = LeftButton | RightButton | MiddleButton | BackButton | ForwardButton

datatype input_error =
    InputProtocol protocol_error
  | InvalidMousePayloadSize
  | InvalidReliablePayloadSize
  | UnknownMouseMode u8
  | UnknownInputEvent u8
  | UnknownMouseButton u8
  | UnknownInputFlags u8
  | InputReservedField
  | InvalidDisplayId u32
  | InvalidButtonMask u16
  | InvalidCoordinates
  | InvalidKeyCode
  | InvalidSequence u64 u64
  | InputSessionMismatch

fun mouse_mode_code :: "mouse_movement_mode \<Rightarrow> u8" where
  "mouse_mode_code Absolute = 1"
| "mouse_mode_code Relative = 2"

definition mouse_mode_try_from :: "u8 \<Rightarrow> input_error + mouse_movement_mode" where
  "mouse_mode_try_from v =
     (if v = 1 then Inr Absolute else if v = 2 then Inr Relative else Inl (UnknownMouseMode v))"

fun mouse_button_code :: "mouse_button \<Rightarrow> u8" where
  "mouse_button_code LeftButton = 1"
| "mouse_button_code RightButton = 2"
| "mouse_button_code MiddleButton = 3"
| "mouse_button_code BackButton = 4"
| "mouse_button_code ForwardButton = 5"

definition mouse_button_try_from :: "u8 \<Rightarrow> input_error + mouse_button" where
  "mouse_button_try_from v =
     (if v = 1 then Inr LeftButton else if v = 2 then Inr RightButton
      else if v = 3 then Inr MiddleButton else if v = 4 then Inr BackButton
      else if v = 5 then Inr ForwardButton else Inl (UnknownMouseButton v))"

definition mouse_button_mask :: "mouse_button \<Rightarrow> u16" where
  "mouse_button_mask b = push_bit (unat (mouse_button_code b - 1)) 1"

record mouse_movement =
  mm_sequence_number :: u64
  mm_monotonic_timestamp_us :: u64
  mm_mode :: mouse_movement_mode
  mm_x :: i32
  mm_y :: i32
  mm_display_id :: u32
  mm_button_state_mask :: u16

datatype reliable_input_event =
    KeyEvent u32 bool u32
  | ButtonEvent mouse_button bool i32 i32 u32
  | WheelEvent i32 i32 u32

section \<open>Validation\<close>

definition validate_display_id :: "u32 \<Rightarrow> input_error + unit" where
  "validate_display_id d = (if d > MAX_DISPLAY_ID then Inl (InvalidDisplayId d) else Inr ())"

definition validate_absolute_coordinates :: "i32 \<Rightarrow> i32 \<Rightarrow> input_error + unit" where
  "validate_absolute_coordinates x y =
     (if \<not> (- MAX_ABSOLUTE_COORDINATE \<le> sint x \<and> sint x \<le> MAX_ABSOLUTE_COORDINATE)
         \<or> \<not> (- MAX_ABSOLUTE_COORDINATE \<le> sint y \<and> sint y \<le> MAX_ABSOLUTE_COORDINATE)
      then Inl InvalidCoordinates else Inr ())"

definition validate_relative_coordinates :: "i32 \<Rightarrow> i32 \<Rightarrow> input_error + unit" where
  "validate_relative_coordinates x y =
     (if \<not> (- 100000 \<le> sint x \<and> sint x \<le> 100000) \<or> \<not> (- 100000 \<le> sint y \<and> sint y \<le> 100000)
      then Inl InvalidCoordinates else Inr ())"

definition validate_mouse_movement :: "mouse_movement \<Rightarrow> input_error + unit" where
  "validate_mouse_movement m =
     (case validate_display_id (mm_display_id m) of
        Inl e \<Rightarrow> Inl e
      | Inr _ \<Rightarrow>
        if mm_button_state_mask m AND NOT KNOWN_BUTTON_MASK \<noteq> 0
          then Inl (InvalidButtonMask (mm_button_state_mask m))
        else case mm_mode m of
          Absolute \<Rightarrow> validate_absolute_coordinates (mm_x m) (mm_y m)
        | Relative \<Rightarrow> validate_relative_coordinates (mm_x m) (mm_y m))"

section \<open>Mouse movement datagrams\<close>

definition encode_mouse_movement ::
    "session_id \<Rightarrow> mouse_movement \<Rightarrow> usize \<Rightarrow> input_error + bytes" where
  "encode_mouse_movement session_id movement max_datagram_size =
     (case validate_mouse_movement movement of
        Inl e \<Rightarrow> Inl e
      | Inr _ \<Rightarrow>
        if HEADER_LEN + MOUSE_MOVEMENT_PAYLOAD_LEN > max_datagram_size
          then Inl InvalidMousePayloadSize
        else
          (let payload = [mouse_mode_code (mm_mode movement)] @ [0] @
                 u16_be (mm_button_state_mask movement) @ u32_be (mm_display_id movement) @
                 u32_be (mm_x movement) @ u32_be (mm_y movement) @ u32_be 0 in
           (case message_header_new MouseMovementMessage 0 session_id
                   (mm_sequence_number movement) (length payload)
                   (mm_monotonic_timestamp_us movement) of
              Inl e \<Rightarrow> Inl (InputProtocol e)
            | Inr header \<Rightarrow> map_err InputProtocol (encode_message header payload))))"

definition encode_application_mouse_movement ::
    "session_id \<Rightarrow> mouse_movement \<Rightarrow> bytes \<Rightarrow> usize \<Rightarrow> input_error + bytes" where
  "encode_application_mouse_movement session_id movement application_payload max_datagram_size =
     (case validate_mouse_movement movement of
        Inl e \<Rightarrow> Inl e
      | Inr _ \<Rightarrow>
        if application_payload = [] \<or> length application_payload > MAX_APPLICATION_MOUSE_BYTES
          then Inl InvalidMousePayloadSize
        else case word_try_from (length application_payload) :: u32 option of
          None \<Rightarrow> Inl InvalidMousePayloadSize
        | Some payload_len \<Rightarrow>
          if HEADER_LEN + APPLICATION_MOUSE_HEADER_LEN + length application_payload
             > max_datagram_size
            then Inl InvalidMousePayloadSize
          else
            (let payload = [mouse_mode_code (mm_mode movement)] @ [0] @
                   u16_be (mm_button_state_mask movement) @ u32_be (mm_display_id movement) @
                   u32_be (mm_x movement) @ u32_be (mm_y movement) @ u32_be payload_len @
                   u32_be 0 @ application_payload in
             (case message_header_new MouseMovementMessage 0 session_id
                     (mm_sequence_number movement) (length payload)
                     (mm_monotonic_timestamp_us movement) of
                Inl e \<Rightarrow> Inl (InputProtocol e)
              | Inr header \<Rightarrow> map_err InputProtocol (encode_message header payload))))"

definition decode_mouse_movement :: "bytes \<Rightarrow> input_error + mouse_movement" where
  "decode_mouse_movement datagram =
     (case decode_message datagram of
        Inl e \<Rightarrow> Inl (InputProtocol e)
      | Inr message \<Rightarrow>
        (let payload = pm_payload message in
         if mh_message_type (pm_header message) \<noteq> MouseMovementMessage
           then Inl (InputProtocol (ChannelMismatch (mh_message_type (pm_header message))
                                      (mh_channel (pm_header message))))
         else if length payload \<noteq> MOUSE_MOVEMENT_PAYLOAD_LEN then Inl InvalidMousePayloadSize
         else if payload ! 1 \<noteq> 0 \<or> read_u32 payload 16 \<noteq> 0 then Inl InputReservedField
         else case mouse_mode_try_from (payload ! 0) of
           Inl e \<Rightarrow> Inl e
         | Inr mode \<Rightarrow>
           (let movement =
                  \<lparr>mm_sequence_number = mh_sequence_number (pm_header message),
                   mm_monotonic_timestamp_us = mh_monotonic_timestamp_us (pm_header message),
                   mm_mode = mode, mm_x = read_u32 payload 8, mm_y = read_u32 payload 12,
                   mm_display_id = read_u32 payload 4,
                   mm_button_state_mask = read_u16 payload 2\<rparr> in
            (case validate_mouse_movement movement of Inl e \<Rightarrow> Inl e | Inr _ \<Rightarrow> Inr movement))))"

definition decode_application_mouse_movement :: "bytes \<Rightarrow> input_error + (mouse_movement \<times> bytes)" where
  "decode_application_mouse_movement datagram =
     (case decode_message datagram of
        Inl e \<Rightarrow> Inl (InputProtocol e)
      | Inr message \<Rightarrow>
        (let payload = pm_payload message;
             application_len = unat (read_u32 payload 16);
             application_payload = drop APPLICATION_MOUSE_HEADER_LEN payload in
         if mh_message_type (pm_header message) \<noteq> MouseMovementMessage
            \<or> length payload < APPLICATION_MOUSE_HEADER_LEN then Inl InvalidMousePayloadSize
         else if payload ! 1 \<noteq> 0 \<or> read_u32 payload 20 \<noteq> 0 then Inl InputReservedField
         else if application_len = 0 \<or> application_len > MAX_APPLICATION_MOUSE_BYTES
              \<or> application_len \<noteq> length application_payload then Inl InvalidMousePayloadSize
         else case mouse_mode_try_from (payload ! 0) of
           Inl e \<Rightarrow> Inl e
         | Inr mode \<Rightarrow>
           (let movement =
                  \<lparr>mm_sequence_number = mh_sequence_number (pm_header message),
                   mm_monotonic_timestamp_us = mh_monotonic_timestamp_us (pm_header message),
                   mm_mode = mode, mm_x = read_u32 payload 8, mm_y = read_u32 payload 12,
                   mm_display_id = read_u32 payload 4,
                   mm_button_state_mask = read_u16 payload 2\<rparr> in
            (case validate_mouse_movement movement of
               Inl e \<Rightarrow> Inl e | Inr _ \<Rightarrow> Inr (movement, application_payload)))))"

section \<open>Reliable events\<close>

definition u8_of_bool :: "bool \<Rightarrow> u8" where
  "u8_of_bool b = (if b then 1 else 0)"

fun encode_reliable_input :: "reliable_input_event \<Rightarrow> bytes" where
  "encode_reliable_input (KeyEvent key_code pressed modifiers) =
     copy_at 16 (u32_be modifiers) (copy_at 4 (u32_be key_code)
       (copy_at 1 [u8_of_bool pressed] (copy_at 0 [1] (replicate RELIABLE_INPUT_PAYLOAD_LEN 0))))"
| "encode_reliable_input (ButtonEvent button pressed x y display_id) =
     copy_at 16 (u32_be display_id) (copy_at 12 (u32_be y) (copy_at 8 (u32_be x)
       (copy_at 4 [mouse_button_code button] (copy_at 1 [u8_of_bool pressed]
         (copy_at 0 [2] (replicate RELIABLE_INPUT_PAYLOAD_LEN 0))))))"
| "encode_reliable_input (WheelEvent delta_x delta_y display_id) =
     copy_at 16 (u32_be display_id) (copy_at 12 (u32_be delta_y) (copy_at 8 (u32_be delta_x)
       (copy_at 0 [3] (replicate RELIABLE_INPUT_PAYLOAD_LEN 0))))"

definition decode_key_event :: "bytes \<Rightarrow> input_error + reliable_input_event" where
  "decode_key_event payload =
     (if read_u32 payload 4 = 0 \<or> read_u32 payload 8 \<noteq> 0 \<or> read_u32 payload 12 \<noteq> 0
        then Inl InvalidKeyCode
      else Inr (KeyEvent (read_u32 payload 4) (payload ! 1 \<noteq> 0) (read_u32 payload 16)))"

definition decode_button_event :: "bytes \<Rightarrow> input_error + reliable_input_event" where
  "decode_button_event payload =
     (if byte_slice payload 5 8 \<noteq> [0, 0, 0] then Inl InputReservedField
      else case validate_display_id (read_u32 payload 16) of
        Inl e \<Rightarrow> Inl e
      | Inr _ \<Rightarrow>
        (case validate_absolute_coordinates (read_u32 payload 8) (read_u32 payload 12) of
           Inl e \<Rightarrow> Inl e
         | Inr _ \<Rightarrow>
           (case mouse_button_try_from (payload ! 4) of
              Inl e \<Rightarrow> Inl e
            | Inr button \<Rightarrow> Inr (ButtonEvent button (payload ! 1 \<noteq> 0) (read_u32 payload 8)
                                   (read_u32 payload 12) (read_u32 payload 16)))))"

definition decode_wheel_event :: "bytes \<Rightarrow> input_error + reliable_input_event" where
  "decode_wheel_event payload =
     (if payload ! 1 \<noteq> 0 \<or> read_u32 payload 4 \<noteq> 0 then Inl InputReservedField
      else case validate_display_id (read_u32 payload 16) of
        Inl e \<Rightarrow> Inl e
      | Inr _ \<Rightarrow>
        (case validate_relative_coordinates (read_u32 payload 8) (read_u32 payload 12) of
           Inl e \<Rightarrow> Inl e
         | Inr _ \<Rightarrow> Inr (WheelEvent (read_u32 payload 8) (read_u32 payload 12)
                            (read_u32 payload 16))))"

definition decode_reliable_input :: "bytes \<Rightarrow> input_error + reliable_input_event" where
  "decode_reliable_input payload =
     (if length payload \<noteq> RELIABLE_INPUT_PAYLOAD_LEN then Inl InvalidReliablePayloadSize
      else if read_u16 payload 2 \<noteq> 0 \<or> read_u32 payload 20 \<noteq> 0 then Inl InputReservedField
      else if payload ! 1 AND NOT 1 \<noteq> 0 then Inl (UnknownInputFlags (payload ! 1))
      else if payload ! 0 = 1 then decode_key_event payload
      else if payload ! 0 = 2 then decode_button_event payload
      else if payload ! 0 = 3 then decode_wheel_event payload
      else Inl (UnknownInputEvent (payload ! 0)))"

section \<open>Receivers\<close>

record mouse_movement_receiver =
  mr_session_id :: session_id
  mr_last_sequence :: u64

definition mouse_receiver_new :: "session_id \<Rightarrow> mouse_movement_receiver" where
  "mouse_receiver_new session_id = \<lparr>mr_session_id = session_id, mr_last_sequence = 0\<rparr>"

definition mouse_apply ::
    "mouse_movement_receiver \<Rightarrow> bytes
     \<Rightarrow> mouse_movement_receiver \<times> (input_error + mouse_movement option)" where
  "mouse_apply st datagram =
     (case decode_message datagram of
        Inl e \<Rightarrow> (st, Inl (InputProtocol e))
      | Inr message \<Rightarrow>
        if mh_session_id (pm_header message) \<noteq> mr_session_id st then (st, Inl InputSessionMismatch)
        else case decode_mouse_movement datagram of
          Inl e \<Rightarrow> (st, Inl e)
        | Inr movement \<Rightarrow>
          if mm_sequence_number movement \<le> mr_last_sequence st then (st, Inr None)
          else (st\<lparr>mr_last_sequence := mm_sequence_number movement\<rparr>, Inr (Some movement)))"

definition mouse_apply_application ::
    "mouse_movement_receiver \<Rightarrow> bytes
     \<Rightarrow> mouse_movement_receiver \<times> (input_error + (mouse_movement \<times> bytes) option)" where
  "mouse_apply_application st datagram =
     (case decode_message datagram of
        Inl e \<Rightarrow> (st, Inl (InputProtocol e))
      | Inr message \<Rightarrow>
        if mh_session_id (pm_header message) \<noteq> mr_session_id st then (st, Inl InputSessionMismatch)
        else case decode_application_mouse_movement datagram of
          Inl e \<Rightarrow> (st, Inl e)
        | Inr (movement, payload) \<Rightarrow>
          if mm_sequence_number movement \<le> mr_last_sequence st then (st, Inr None)
          else (st\<lparr>mr_last_sequence := mm_sequence_number movement\<rparr>,
                Inr (Some (movement, payload))))"

definition mouse_reset :: "mouse_movement_receiver \<Rightarrow> mouse_movement_receiver" where
  "mouse_reset st = st\<lparr>mr_last_sequence := 0\<rparr>"

record reliable_input_receiver =
  rr_last_sequence :: u64
  rr_pressed_keys :: "(u32, unit) btree_map"
  rr_pressed_buttons :: u16

definition reliable_receiver_new :: reliable_input_receiver where
  "reliable_receiver_new = \<lparr>rr_last_sequence = 0, rr_pressed_keys = [], rr_pressed_buttons = 0\<rparr>"

text \<open>The state change of an event and whether it changed anything.\<close>

fun record_input :: "reliable_input_receiver \<Rightarrow> reliable_input_event \<Rightarrow> reliable_input_receiver \<times> bool" where
  "record_input st (KeyEvent key_code pressed modifiers) =
     (if pressed
      then (st\<lparr>rr_pressed_keys := bm_insert key_code () (rr_pressed_keys st)\<rparr>,
            \<not> bm_contains (rr_pressed_keys st) key_code)
      else (st\<lparr>rr_pressed_keys := bm_remove key_code (rr_pressed_keys st)\<rparr>,
            bm_contains (rr_pressed_keys st) key_code))"
| "record_input st (ButtonEvent button pressed x y display_id) =
     (let mask = mouse_button_mask button;
          was_pressed = (rr_pressed_buttons st AND mask \<noteq> 0) in
      (st\<lparr>rr_pressed_buttons :=
            (if pressed then rr_pressed_buttons st OR mask
             else rr_pressed_buttons st AND NOT mask)\<rparr>,
       was_pressed \<noteq> pressed))"
| "record_input st (WheelEvent delta_x delta_y display_id) = (st, True)"

definition reliable_apply ::
    "reliable_input_receiver \<Rightarrow> u64 \<Rightarrow> bytes
     \<Rightarrow> reliable_input_receiver \<times> (input_error + reliable_input_event option)" where
  "reliable_apply st sequence_number payload =
     (if sequence_number \<noteq> sat_add (rr_last_sequence st) 1
        then (st, Inl (InvalidSequence (rr_last_sequence st) sequence_number))
      else case decode_reliable_input payload of
        Inl e \<Rightarrow> (st, Inl e)
      | Inr event \<Rightarrow>
        (case record_input (st\<lparr>rr_last_sequence := sequence_number\<rparr>) event of
           (st', changed) \<Rightarrow> (st', Inr (if changed then Some event else None))))"

definition all_buttons :: "mouse_button list" where
  "all_buttons = [LeftButton, RightButton, MiddleButton, BackButton, ForwardButton]"

definition release_all ::
    "reliable_input_receiver \<Rightarrow> reliable_input_receiver \<times> reliable_input_event list" where
  "release_all st =
     (st\<lparr>rr_pressed_keys := [], rr_pressed_buttons := 0, rr_last_sequence := 0\<rparr>,
      map (\<lambda>key_code. KeyEvent key_code False 0) (map fst (rr_pressed_keys st)) @
      map (\<lambda>button. ButtonEvent button False 0 0 0)
        (filter (\<lambda>button. rr_pressed_buttons st AND mouse_button_mask button \<noteq> 0)
           all_buttons))"

end
