(* ===== verification/Input_Properties.thy ===== *)
theory Input_Properties
  imports Input_Events
begin

text \<open>
  Correctness of the input path: exact codecs, replay protection of the mouse receiver, and
  the guarantee that the reliable receiver's record of pressed keys and buttons is what the
  host sees, so that \<open>release_all\<close> leaves nothing pressed.
\<close>

section \<open>Mouse datagrams\<close>

lemma mouse_mode_try_from_code [simp]: "mouse_mode_try_from (mouse_mode_code m) = Inr m"
  by (cases m) (simp_all add: mouse_mode_try_from_def)

lemma mouse_movement_eta:
  "\<lparr>mm_sequence_number = mm_sequence_number m, mm_monotonic_timestamp_us = mm_monotonic_timestamp_us m,
    mm_mode = mm_mode m, mm_x = mm_x m, mm_y = mm_y m, mm_display_id = mm_display_id m,
    mm_button_state_mask = mm_button_state_mask m\<rparr> = m"
  by simp

lemma decode_encode_mouse:
  assumes sid: "length sid = 16" and enc: "encode_mouse_movement sid m mds = Inr d"
  shows "decode_mouse_movement d = Inr m"
proof -
  let ?p = "[mouse_mode_code (mm_mode m)] @ [0] @ u16_be (mm_button_state_mask m) @
     u32_be (mm_display_id m) @ u32_be (mm_x m) @ u32_be (mm_y m) @ u32_be 0"
  from enc obtain header where v: "validate_mouse_movement m = Inr ()"
    and header: "message_header_new MouseMovementMessage 0 sid (mm_sequence_number m) (length ?p)
        (mm_monotonic_timestamp_us m) = Inr header"
    and d: "encode_message header ?p = Inr d"
    by (auto simp: encode_mouse_movement_def Let_def split: sum.splits if_splits)
  from header sid have h: "length (mh_session_id header) = 16"
    "mh_message_type header = MouseMovementMessage" "mh_sequence_number header = mm_sequence_number m"
    "mh_monotonic_timestamp_us header = mm_monotonic_timestamp_us m"
    by (auto simp: message_header_new_eq_Inr)
  have "decode_message d = Inr \<lparr>pm_header = header, pm_payload = ?p\<rparr>"
    by (rule decode_encode_message [OF h(1) d])
  with v h show ?thesis
    by (simp add: decode_mouse_movement_def Let_def wire_simps MOUSE_MOVEMENT_PAYLOAD_LEN_def
        mouse_movement_eta)
qed

lemma decode_encode_application_mouse:
  assumes sid: "length sid = 16" and enc: "encode_application_mouse_movement sid m app mds = Inr d"
  shows "decode_application_mouse_movement d = Inr (m, app)"
proof -
  let ?p = "[mouse_mode_code (mm_mode m)] @ [0] @ u16_be (mm_button_state_mask m) @
     u32_be (mm_display_id m) @ u32_be (mm_x m) @ u32_be (mm_y m) @
     u32_be (of_nat (length app)) @ u32_be 0 @ app"
  from enc obtain header where v: "validate_mouse_movement m = Inr ()"
    and app: "app \<noteq> []" "length app \<le> MAX_APPLICATION_MOUSE_BYTES" "length app < 2 ^ 32"
    and header: "message_header_new MouseMovementMessage 0 sid (mm_sequence_number m) (length ?p)
        (mm_monotonic_timestamp_us m) = Inr header"
    and d: "encode_message header ?p = Inr d"
    by (auto simp: encode_application_mouse_movement_def Let_def word_try_from_def not_less
        split: sum.splits if_splits option.splits)
  from header sid have h: "length (mh_session_id header) = 16"
    "mh_message_type header = MouseMovementMessage" "mh_sequence_number header = mm_sequence_number m"
    "mh_monotonic_timestamp_us header = mm_monotonic_timestamp_us m"
    by (auto simp: message_header_new_eq_Inr)
  have "decode_message d = Inr \<lparr>pm_header = header, pm_payload = ?p\<rparr>"
    by (rule decode_encode_message [OF h(1) d])
  moreover have "unat (of_nat (length app) :: u32) = length app"
    using app(3) by (intro unat_of_nat_exact) simp
  ultimately show ?thesis
    using v h app
    by (simp add: decode_application_mouse_movement_def Let_def wire_simps
        APPLICATION_MOUSE_HEADER_LEN_def mouse_movement_eta)
qed

section \<open>Reliable events\<close>

interpretation mouse_button: enum_code mouse_button_code mouse_button_try_from
proof
  show "mouse_button_try_from (mouse_button_code x) = Inr x" for x
    by (cases x) (simp_all add: mouse_button_try_from_def)
  show "mouse_button_try_from w = Inr x \<Longrightarrow> mouse_button_code x = w" for w x
    by (auto simp: mouse_button_try_from_def split: if_splits)
qed

declare encode_reliable_input.simps [simp del]

lemma replicate_24: "replicate RELIABLE_INPUT_PAYLOAD_LEN (0 :: u8)
    = [0, 0, 0, 0, 0, 0, 0, 0, 0, 0, 0, 0, 0, 0, 0, 0, 0, 0, 0, 0, 0, 0, 0, 0]"
  by (simp add: RELIABLE_INPUT_PAYLOAD_LEN_def eval_nat_numeral)

lemma encode_reliable_fields:
  "encode_reliable_input (KeyEvent k p m) =
     [1, u8_of_bool p] @ u16_be 0 @ u32_be k @ u32_be 0 @ u32_be 0 @ u32_be m @ u32_be 0"
  "encode_reliable_input (ButtonEvent b p x y d) =
     [2, u8_of_bool p] @ u16_be 0 @ [mouse_button_code b, 0, 0, 0] @ u32_be x @ u32_be y @
     u32_be d @ u32_be 0"
  "encode_reliable_input (WheelEvent x y d) =
     [3, 0] @ u16_be 0 @ u32_be 0 @ u32_be x @ u32_be y @ u32_be d @ u32_be 0"
  by (simp_all add: encode_reliable_input.simps replicate_24 copy_at_def u32_be_zero u16_be_zero)

text \<open>The events the wire format can carry; the encoder leaves this to its caller.\<close>

fun reliable_event_ok :: "reliable_input_event \<Rightarrow> bool" where
  "reliable_event_ok (KeyEvent k p m) \<longleftrightarrow> k \<noteq> 0"
| "reliable_event_ok (ButtonEvent b p x y d) \<longleftrightarrow>
     validate_display_id d = Inr () \<and> validate_absolute_coordinates x y = Inr ()"
| "reliable_event_ok (WheelEvent x y d) \<longleftrightarrow>
     validate_display_id d = Inr () \<and> validate_relative_coordinates x y = Inr ()"

lemma u8_flag: "(b :: u8) AND NOT 1 = 0 \<longleftrightarrow> b = u8_of_bool (b \<noteq> 0)"
proof
  assume z: "b AND NOT 1 = 0"
  have "b = (b AND 1) OR (b AND NOT 1)" by (simp flip: bit.conj_disj_distrib)
  with z have "b = b AND 1" by simp
  also have "b AND 1 = 0 \<or> b AND 1 = 1" by (simp add: and_one_eq mod_2_eq_odd)
  finally have "b = 0 \<or> b = 1" by auto
  then show "b = u8_of_bool (b \<noteq> 0)" by (auto simp: u8_of_bool_def)
next
  assume "b = u8_of_bool (b \<noteq> 0)"
  then have "b = 0 \<or> b = 1" by (auto simp: u8_of_bool_def split: if_splits)
  then show "b AND NOT 1 = 0" by auto
qed

lemmas u8_flag_simp = u8_flag [simplified]

lemma u8_of_bool_neq_0 [simp]: "u8_of_bool p \<noteq> 0 \<longleftrightarrow> p" "u8_of_bool p = 0 \<longleftrightarrow> \<not> p"
  by (auto simp: u8_of_bool_def)

lemma decode_encode_reliable:
  assumes "reliable_event_ok e"
  shows "decode_reliable_input (encode_reliable_input e) = Inr e"
proof -
  have flag: "u8_of_bool p AND NOT 1 = 0" for p by (simp add: u8_of_bool_def)
  show ?thesis
  proof (cases e)
    case (KeyEvent k p m)
    with assms flag show ?thesis
      by (simp add: encode_reliable_fields decode_reliable_input_def decode_key_event_def wire_simps
          RELIABLE_INPUT_PAYLOAD_LEN_def)
  next
    case (ButtonEvent b p x y d)
    with assms flag show ?thesis
      by (simp add: encode_reliable_fields decode_reliable_input_def decode_button_event_def wire_simps
          RELIABLE_INPUT_PAYLOAD_LEN_def mouse_button.try_from_code) (simp add: byte_slice_def)
  next
    case (WheelEvent x y d)
    with assms show ?thesis
      by (simp add: encode_reliable_fields decode_reliable_input_def decode_wheel_event_def wire_simps
          RELIABLE_INPUT_PAYLOAD_LEN_def)
  qed
qed

lemma reliable_fields:
  assumes "length p = 24"
  shows "p = [p ! 0, p ! 1] @ u16_be (read_u16 p 2) @ u32_be (read_u32 p 4) @ u32_be (read_u32 p 8) @
     u32_be (read_u32 p 12) @ u32_be (read_u32 p 16) @ u32_be (read_u32 p 20)"
  using assms cut_head_2 [of p] cut_u16 [of 2 p] cut_u32 [of 4 p] cut_u32 [of 8 p]
    cut_u32 [of 12 p] cut_u32 [of 16 p] cut_u32 [of 20 p]
  by simp

lemma button_fields:
  assumes "length p = 24"
  shows "p = [p ! 0, p ! 1] @ u16_be (read_u16 p 2) @ [p ! 4] @ byte_slice p 5 8 @ u32_be (read_u32 p 8) @
     u32_be (read_u32 p 12) @ u32_be (read_u32 p 16) @ u32_be (read_u32 p 20)"
  using assms cut_head_2 [of p] cut_u16 [of 2 p] cut_u8 [of 4 p]
    cut_slice [of 5 8 p] cut_u32 [of 8 p] cut_u32 [of 12 p] cut_u32 [of 16 p] cut_u32 [of 20 p]
  by simp

lemma encode_decode_reliable:
  assumes "decode_reliable_input p = Inr e"
  shows "reliable_event_ok e \<and> encode_reliable_input e = p"
proof -
  from assms have len: "length p = 24" and z: "read_u16 p 2 = 0" "read_u32 p 20 = 0"
    and flag: "p ! 1 = u8_of_bool (p ! 1 \<noteq> 0)"
    by (auto simp: decode_reliable_input_def RELIABLE_INPUT_PAYLOAD_LEN_def u8_flag_simp split: if_splits)
  note f = reliable_fields [OF len] button_fields [OF len]
  consider (key) "p ! 0 = 1" "decode_key_event p = Inr e"
    | (button) "p ! 0 = 2" "decode_button_event p = Inr e"
    | (wheel) "p ! 0 = 3" "decode_wheel_event p = Inr e"
    using assms by (auto simp: decode_reliable_input_def split: if_splits)
  then show ?thesis
  proof cases
    case key
    with f(1) z flag show ?thesis
      by (auto simp: decode_key_event_def encode_reliable_fields split: if_splits)
  next
    case button
    with f(2) z flag show ?thesis
      by (auto simp: decode_button_event_def encode_reliable_fields mouse_button.try_from_iff
          split: if_splits sum.splits)
  next
    case wheel
    with f(1) z show ?thesis
      by (auto simp: decode_wheel_event_def encode_reliable_fields split: if_splits sum.splits)
  qed
qed

interpretation reliable_input_codec: wire_codec reliable_event_ok
  "\<lambda>e. Inr (encode_reliable_input e) :: input_error + bytes" decode_reliable_input
  by unfold_locales (auto simp: decode_encode_reliable dest: encode_decode_reliable)

section \<open>The mouse receiver\<close>

datatype mouse_call = MovementCall bytes | ApplicationCall bytes

fun mouse_accept :: "mouse_movement_receiver \<Rightarrow> mouse_call \<Rightarrow> mouse_movement_receiver \<times> mouse_movement option" where
  "mouse_accept st (MovementCall d) =
     (case mouse_apply st d of (st', Inr (Some m)) \<Rightarrow> (st', Some m) | (st', _) \<Rightarrow> (st', None))"
| "mouse_accept st (ApplicationCall d) =
     (case mouse_apply_application st d of
        (st', Inr (Some mp)) \<Rightarrow> (st', Some (fst mp)) | (st', _) \<Rightarrow> (st', None))"

fun mouse_run :: "mouse_movement_receiver \<Rightarrow> mouse_call list \<Rightarrow> mouse_movement list" where
  "mouse_run st [] = []"
| "mouse_run st (c # cs) =
     (case mouse_accept st c of (st', r) \<Rightarrow>
        (case r of None \<Rightarrow> [] | Some m \<Rightarrow> [m]) @ mouse_run st' cs)"

definition mouse_guard :: "mouse_movement_receiver \<Rightarrow> mouse_call \<Rightarrow> mouse_movement_receiver \<times> u64 option" where
  "mouse_guard st c = (case mouse_accept st c of (st', r) \<Rightarrow> (st', map_option mm_sequence_number r))"

lemma decoded_movement_valid:
  "decode_mouse_movement d = Inr m \<Longrightarrow> validate_mouse_movement m = Inr ()"
  "decode_application_mouse_movement d = Inr (m, p) \<Longrightarrow> validate_mouse_movement m = Inr ()"
  by (auto simp: decode_mouse_movement_def decode_application_mouse_movement_def Let_def
      split: sum.splits if_splits)

lemma mouse_accept_cases:
  assumes "mouse_accept st c = (st', r)"
  shows "(r = None \<and> st' = st) \<or>
    (\<exists>m. r = Some m \<and> mr_last_sequence st < mm_sequence_number m \<and>
       st' = st\<lparr>mr_last_sequence := mm_sequence_number m\<rparr> \<and> validate_mouse_movement m = Inr ())"
proof (cases c)
  case (MovementCall d)
  with assms show ?thesis
    by (auto simp: mouse_apply_def decoded_movement_valid not_le
        split: sum.splits if_splits option.splits)
next
  case (ApplicationCall d)
  with assms show ?thesis
    by (auto simp: mouse_apply_application_def decoded_movement_valid not_le
        split: sum.splits if_splits option.splits prod.splits)
qed

interpretation mouse: sequence_guard "\<lambda>_. True" "\<lambda>_. True" mr_last_sequence mouse_guard
proof
  fix s c s' and r :: "u64 option"
  assume "mouse_guard s c = (s', r)"
  then show "True \<and> mr_last_sequence s \<le> mr_last_sequence s'"
    using mouse_accept_cases [of s c] by (fastforce simp: mouse_guard_def split: prod.splits)
next
  fix s c s' n
  assume "mouse_guard s c = (s', Some n)"
  then show "mr_last_sequence s < n \<and> n \<le> mr_last_sequence s'"
    using mouse_accept_cases [of s c] by (fastforce simp: mouse_guard_def split: prod.splits)
qed

lemma mouse_run_guard: "accepted_run mouse_guard st cs = map mm_sequence_number (mouse_run st cs)"
  by (induction cs arbitrary: st) (auto simp: mouse_guard_def split: prod.splits option.splits)

lemma mouse_run_valid: "m \<in> set (mouse_run st cs) \<Longrightarrow> validate_mouse_movement m = Inr ()"
proof (induction cs arbitrary: st)
  case (Cons c cs)
  obtain st' r where r: "mouse_accept st c = (st', r)" by fastforce
  from mouse_accept_cases [OF r] Cons r show ?case by (auto split: option.splits)
qed simp

section \<open>The reliable receiver\<close>

text \<open>
  The specification: the host holds a set of keys and a set of buttons; an event it is given
  presses or releases one of them.
\<close>

type_synonym host_state = "u32 set \<times> mouse_button set"

fun host_apply :: "host_state \<Rightarrow> reliable_input_event \<Rightarrow> host_state" where
  "host_apply (K, B) (KeyEvent k pressed m) = (if pressed then insert k K else K - {k}, B)"
| "host_apply (K, B) (ButtonEvent b pressed x y d) = (K, if pressed then insert b B else B - {b})"
| "host_apply (K, B) (WheelEvent x y d) = (K, B)"

definition held :: "reliable_input_receiver \<Rightarrow> host_state" where
  "held st = (fst ` set (rr_pressed_keys st),
              {b. rr_pressed_buttons st AND mouse_button_mask b \<noteq> 0})"

fun button_bit :: "mouse_button \<Rightarrow> nat" where
  "button_bit LeftButton = 0"
| "button_bit RightButton = 1"
| "button_bit MiddleButton = 2"
| "button_bit BackButton = 3"
| "button_bit ForwardButton = 4"

lemma mouse_button_mask_exp: "mouse_button_mask b = 2 ^ button_bit b"
  by (cases b) (simp_all add: mouse_button_mask_def)

lemma button_bit_inject: "button_bit a = button_bit b \<longleftrightarrow> a = b"
  by (cases a; cases b) simp_all

lemma button_bit_bound: "button_bit b < 16"
  by (cases b) simp_all

lemma pressed_iff_bit: "w AND mouse_button_mask b \<noteq> 0 \<longleftrightarrow> bit (w :: u16) (button_bit b)"
  by (simp add: mouse_button_mask_exp and_exp_eq_0_iff_not_bit)

lemma bit_mask_iff: "bit (mouse_button_mask a) (button_bit b) \<longleftrightarrow> a = b"
  using button_bit_bound [of a] by (auto simp: mouse_button_mask_exp bit_exp_iff button_bit_inject)

lemma record_input_held:
  assumes "record_input st e = (st', changed)" and "bm_ok (rr_pressed_keys st)"
  shows "held st' = host_apply (held st) e" and "\<not> changed \<Longrightarrow> host_apply (held st) e = held st"
    and "bm_ok (rr_pressed_keys st')"
proof -
  have b16: "button_bit b < LENGTH(16)" for b using button_bit_bound [of b] by simp
  show "held st' = host_apply (held st) e"
  proof (cases e)
    case (KeyEvent k p m)
    have "fst ` set (bm_remove k (rr_pressed_keys st)) = fst ` set (rr_pressed_keys st) - {k}"
      by (force simp: set_bm_remove)
    moreover from assms(1) KeyEvent have "st' = st\<lparr>rr_pressed_keys :=
        (if p then bm_insert k () (rr_pressed_keys st) else bm_remove k (rr_pressed_keys st))\<rparr>"
      by (simp split: if_splits)
    ultimately show ?thesis using KeyEvent by (simp add: held_def)
  next
    case (ButtonEvent b p x y d)
    with assms(1) b16 show ?thesis
      by (auto simp: held_def Let_def pressed_iff_bit bit_or_iff bit_and_iff bit_not_iff
          bit_mask_iff split: if_splits)
  next
    case (WheelEvent x y d)
    with assms show ?thesis by (simp add: held_def)
  qed
  show "\<not> changed \<Longrightarrow> host_apply (held st) e = held st"
    using assms(1) by (cases e) (auto simp: held_def Let_def bm_contains_iff split: if_splits)
  show "bm_ok (rr_pressed_keys st')"
    using assms by (cases e) (auto simp: Let_def split: if_splits)
qed

fun reliable_run ::
    "reliable_input_receiver \<Rightarrow> (u64 \<times> bytes) list \<Rightarrow> reliable_input_receiver \<times> reliable_input_event list" where
  "reliable_run st [] = (st, [])"
| "reliable_run st ((n, p) # ms) =
     (case reliable_apply st n p of (st', r) \<Rightarrow>
        (case reliable_run st' ms of (st'', es) \<Rightarrow>
           (st'', (case r of Inr (Some e) \<Rightarrow> [e] | _ \<Rightarrow> []) @ es)))"

lemma reliable_apply_held:
  assumes "reliable_apply st n p = (st', r)" and ok: "bm_ok (rr_pressed_keys st)"
  shows "bm_ok (rr_pressed_keys st') \<and>
    held st' = foldl host_apply (held st) (case r of Inr (Some e) \<Rightarrow> [e] | _ \<Rightarrow> [])"
proof (cases "n = sat_add (rr_last_sequence st) 1 \<and> (\<exists>e. decode_reliable_input p = Inr e)")
  case True
  then obtain e where e: "n = sat_add (rr_last_sequence st) 1" "decode_reliable_input p = Inr e" by blast
  obtain s c where s: "record_input (st\<lparr>rr_last_sequence := n\<rparr>) e = (s, c)" by fastforce
  have "held (st\<lparr>rr_last_sequence := n\<rparr>) = held st" by (simp add: held_def)
  with record_input_held [OF s] ok assms(1) e s show ?thesis
    by (auto simp: reliable_apply_def split: if_splits)
next
  case False
  with assms show ?thesis by (auto simp: reliable_apply_def split: sum.splits if_splits)
qed

lemma reliable_run_held:
  "bm_ok (rr_pressed_keys st) \<Longrightarrow> reliable_run st ms = (st', es) \<Longrightarrow>
     bm_ok (rr_pressed_keys st') \<and> held st' = foldl host_apply (held st) es"
proof (induction ms arbitrary: st st' es)
  case (Cons m ms)
  obtain n p where m: "m = (n, p)" by fastforce
  obtain s r where s: "reliable_apply st n p = (s, r)" by fastforce
  obtain s' es' where s': "reliable_run s ms = (s', es')" by fastforce
  from reliable_apply_held [OF s Cons.prems(1)] Cons.IH [OF _ s'] Cons.prems(2) m s s'
  show ?case by auto
qed simp

lemma host_release_keys:
  "foldl host_apply (K, B) (map (\<lambda>k. KeyEvent k False 0) ks) = (K - set ks, B)"
  by (induction ks arbitrary: K) auto

lemma host_release_buttons:
  "foldl host_apply (K, B) (map (\<lambda>b. ButtonEvent b False 0 0 0) bs) = (K, B - set bs)"
  by (induction bs arbitrary: B) auto

lemma release_all_host:
  assumes "release_all st = (st', rs)"
  shows "foldl host_apply (held st) rs = ({}, {})" and "held st' = ({}, {})"
proof -
  let ?ks = "map fst (rr_pressed_keys st)"
  define bs where "bs = filter (\<lambda>b. rr_pressed_buttons st AND mouse_button_mask b \<noteq> 0)
    all_buttons"
  have rs: "rs = map (\<lambda>k. KeyEvent k False 0) ?ks @ map (\<lambda>b. ButtonEvent b False 0 0 0) bs"
    using assms unfolding release_all_def bs_def by simp
  have "b \<in> set all_buttons" for b by (cases b) (simp_all add: all_buttons_def)
  then have "{b. rr_pressed_buttons st AND mouse_button_mask b \<noteq> 0} - set bs = {}"
    unfolding bs_def by auto
  then show "foldl host_apply (held st) rs = ({}, {})"
    by (simp only: rs held_def foldl_append host_release_keys host_release_buttons) simp
  show "held st' = ({}, {})" using assms by (auto simp: release_all_def held_def)
qed

section \<open>Properties\<close>

text \<open>
  Round trip of mouse datagrams. What the two encoders produce, plain and with
  an application payload, decodes to the movement (and payload) it was made from.
\<close>

lemma mouse_datagram_roundtrip:
  assumes "length sid = 16"
  shows "(encode_mouse_movement sid m mds = Inr d \<longrightarrow> decode_mouse_movement d = Inr m) \<and>
    (encode_application_mouse_movement sid m payload mds = Inr d' \<longrightarrow>
       decode_application_mouse_movement d' = Inr (m, payload))"
  using decode_encode_mouse [OF assms] decode_encode_application_mouse [OF assms] by blast

text \<open>
  Exactness of the reliable input codec. A payload decodes to an event if and
  only if it is the encoding of that event and the event is one the format admits (a key
  code other than zero, display and coordinates in range).
\<close>

lemma reliable_input_codec_exact:
  "decode_reliable_input payload = Inr event \<longleftrightarrow>
     reliable_event_ok event \<and> encode_reliable_input event = payload"
  using reliable_input_codec.dec_iff [of payload event] by simp

text \<open>
  The mouse receiver never replays. Whatever datagrams arrive, through either
  entry point, the movements it accepts have strictly increasing sequence numbers, all
  coordinates, displays and button masks in range.
\<close>

lemma mouse_receiver_no_replay:
  "sorted_wrt (<) (map mm_sequence_number (mouse_run st calls)) \<and>
   list_all (\<lambda>m. validate_mouse_movement m = Inr ()) (mouse_run st calls)"
  using mouse.accepted_strictly_increasing [of calls st]
  by (auto simp: mouse_run_guard list_all_iff dest: mouse_run_valid)

text \<open>
  Property C20: no stuck input. Let the host apply exactly the events the reliable receiver
  hands out. After any sequence of messages the receiver's record of pressed keys and buttons
  is the host's state, and applying what \<open>release_all\<close> returns leaves nothing pressed, on the
  host and in the record.
\<close>

theorem release_all_leaves_nothing_pressed:
  assumes "reliable_run reliable_receiver_new messages = (st, events)"
    and "release_all st = (st', releases)"
  shows "foldl host_apply ({}, {}) events = held st \<and>
     foldl host_apply ({}, {}) (events @ releases) = ({}, {}) \<and> held st' = ({}, {})"
proof -
  have "held reliable_receiver_new = ({}, {})" by (simp add: held_def reliable_receiver_new_def)
  with reliable_run_held [OF _ assms(1)] release_all_host [OF assms(2)] show ?thesis
    by (simp add: reliable_receiver_new_def)
qed

text \<open>Concrete runs: a key pressed twice and a button pressed.\<close>

theorem release_all_leaves_nothing_pressed_witness:
  "\<exists>st events st' releases.
     reliable_run reliable_receiver_new
       [(1, encode_reliable_input (KeyEvent 30 True 0)), (2, encode_reliable_input (KeyEvent 30 True 0)),
        (3, encode_reliable_input (ButtonEvent RightButton True 5 6 0))] = (st, events) \<and>
     events = [KeyEvent 30 True 0, ButtonEvent RightButton True 5 6 0] \<and>
     release_all st = (st', releases) \<and>
     foldl host_apply ({}, {}) (events @ releases) = ({}, {})"
proof -
  let ?ms = "[(1, encode_reliable_input (KeyEvent 30 True 0)), (2, encode_reliable_input (KeyEvent 30 True 0)),
        (3, encode_reliable_input (ButtonEvent RightButton True 5 6 0))] :: (u64 \<times> bytes) list"
  have ok: "reliable_event_ok (ButtonEvent RightButton True 5 6 0)"
    by (simp add: validate_display_id_def MAX_DISPLAY_ID_def validate_absolute_coordinates_def
        MAX_ABSOLUTE_COORDINATE_def)
  obtain st events where r: "reliable_run reliable_receiver_new ?ms = (st, events)" by fastforce
  obtain st' releases where a: "release_all st = (st', releases)" by fastforce
  have "events = [KeyEvent 30 True 0, ButtonEvent RightButton True 5 6 0]"
    using r decode_encode_reliable [of "KeyEvent 30 True 0"] decode_encode_reliable [OF ok]
    by (simp add: reliable_apply_def reliable_receiver_new_def sat_add_def bm_contains_def Let_def
        mouse_button_mask_def)
  with release_all_leaves_nothing_pressed [OF r a] r a show ?thesis by blast
qed

end
