(* ===== verification/Utf8.thy ===== *)
theory Utf8
  imports Wire_Format
begin

text \<open>
  Rust strings. A \<open>String\<close> is its UTF-8 bytes, so \<open>as_bytes\<close> is the identity and \<open>len\<close> the
  length; \<open>std::str::from_utf8\<close> succeeds exactly on well-formed bytes and \<open>chars\<close> is the
  decoding below (the well-formed sequences of the Unicode standard: no overlong forms, no
  surrogates, nothing above U+10FFFF). The encoder of single characters is here only to state
  that the decoder accepts exactly the encodings of scalar values.
\<close>

type_synonym rust_str = bytes
type_synonym rust_char = nat

definition continuation :: "u8 \<Rightarrow> bool" where
  "continuation b \<longleftrightarrow> 0x80 \<le> unat b \<and> unat b \<le> 0xBF"

definition second_ok :: "u8 \<Rightarrow> u8 \<Rightarrow> bool" where
  "second_ok b0 b1 \<longleftrightarrow>
     (if unat b0 = 0xE0 then 0xA0 \<le> unat b1 \<and> unat b1 \<le> 0xBF
      else if unat b0 = 0xED then 0x80 \<le> unat b1 \<and> unat b1 \<le> 0x9F
      else if unat b0 = 0xF0 then 0x90 \<le> unat b1 \<and> unat b1 \<le> 0xBF
      else if unat b0 = 0xF4 then 0x80 \<le> unat b1 \<and> unat b1 \<le> 0x8F
      else continuation b1)"

function utf8_chars :: "bytes \<Rightarrow> rust_char list option" where
  "utf8_chars [] = Some []"
| "utf8_chars (b0 # bs) =
     (let n = unat b0 in
      if n < 0x80 then map_option (Cons n) (utf8_chars bs)
      else if 0xC2 \<le> n \<and> n \<le> 0xDF then
        (case bs of
           b1 # rest \<Rightarrow>
             if continuation b1
             then map_option (Cons ((n - 0xC0) * 64 + (unat b1 - 0x80))) (utf8_chars rest)
             else None
         | _ \<Rightarrow> None)
      else if 0xE0 \<le> n \<and> n \<le> 0xEF then
        (case bs of
           b1 # b2 # rest \<Rightarrow>
             if second_ok b0 b1 \<and> continuation b2
             then map_option (Cons ((n - 0xE0) * 4096 + (unat b1 - 0x80) * 64 + (unat b2 - 0x80)))
                    (utf8_chars rest)
             else None
         | _ \<Rightarrow> None)
      else if 0xF0 \<le> n \<and> n \<le> 0xF4 then
        (case bs of
           b1 # b2 # b3 # rest \<Rightarrow>
             if second_ok b0 b1 \<and> continuation b2 \<and> continuation b3
             then map_option (Cons ((n - 0xF0) * 262144 + (unat b1 - 0x80) * 4096
                                     + (unat b2 - 0x80) * 64 + (unat b3 - 0x80))) (utf8_chars rest)
             else None
         | _ \<Rightarrow> None)
      else None)"
  by pat_completeness auto
termination
  by (relation "measure length") auto

declare utf8_chars.simps(2) [simp del]

definition utf8_valid :: "bytes \<Rightarrow> bool" where
  "utf8_valid bs \<longleftrightarrow> utf8_chars bs \<noteq> None"

text \<open>\<open>std::str::from_utf8\<close> with the caller's error.\<close>

definition from_utf8 :: "'e \<Rightarrow> bytes \<Rightarrow> 'e + rust_str" where
  "from_utf8 e bs = (if utf8_valid bs then Inr bs else Inl e)"

text \<open>\<open>str::chars\<close> of a string.\<close>

definition str_chars :: "rust_str \<Rightarrow> rust_char list" where
  "str_chars s = (case utf8_chars s of None \<Rightarrow> [] | Some cs \<Rightarrow> cs)"

text \<open>\<open>char::is_control\<close>: the Unicode category Cc.\<close>

definition is_control :: "rust_char \<Rightarrow> bool" where
  "is_control c \<longleftrightarrow> c \<le> 0x1F \<or> (0x7F \<le> c \<and> c \<le> 0x9F)"

lemma from_utf8_eq_Inr [simp]: "from_utf8 e bs = Inr s \<longleftrightarrow> utf8_valid bs \<and> s = bs"
  by (auto simp: from_utf8_def)

section \<open>The decoder accepts exactly the encodings of scalar values\<close>

definition scalar_value :: "rust_char \<Rightarrow> bool" where
  "scalar_value c \<longleftrightarrow> c < 0xD800 \<or> (0xE000 \<le> c \<and> c \<le> 0x10FFFF)"

definition byte :: "nat \<Rightarrow> u8" where
  "byte n = of_nat n"

lemma unat_byte: "n < 256 \<Longrightarrow> unat (byte n) = n"
  unfolding byte_def by (rule unat_of_nat_exact) simp

definition encode_char :: "rust_char \<Rightarrow> bytes" where
  "encode_char c =
     (if c < 0x80 then [byte c]
      else if c < 0x800 then [byte (0xC0 + c div 64), byte (0x80 + c mod 64)]
      else if c < 0x10000 then
        [byte (0xE0 + c div 4096), byte (0x80 + c div 64 mod 64), byte (0x80 + c mod 64)]
      else [byte (0xF0 + c div 262144), byte (0x80 + c div 4096 mod 64),
            byte (0x80 + c div 64 mod 64), byte (0x80 + c mod 64)])"

lemma utf8_one: "unat b0 = x \<Longrightarrow> x < 0x80 \<Longrightarrow> utf8_chars (b0 # bs) = map_option (Cons x) (utf8_chars bs)"
  by (simp add: utf8_chars.simps(2))

lemma utf8_two:
  "unat b0 = 0xC0 + x \<Longrightarrow> 2 \<le> x \<Longrightarrow> x < 32 \<Longrightarrow> unat b1 = 0x80 + y \<Longrightarrow> y < 64 \<Longrightarrow>
     utf8_chars (b0 # b1 # bs) = map_option (Cons (x * 64 + y)) (utf8_chars bs)"
  by (simp add: utf8_chars.simps(2) [of b0] continuation_def)

lemma utf8_three:
  "unat b0 = 0xE0 + x \<Longrightarrow> x < 16 \<Longrightarrow> unat b1 = 0x80 + y \<Longrightarrow> y < 64 \<Longrightarrow>
   unat b2 = 0x80 + z \<Longrightarrow> z < 64 \<Longrightarrow> (x = 0 \<Longrightarrow> 32 \<le> y) \<Longrightarrow> (x = 13 \<Longrightarrow> y \<le> 31) \<Longrightarrow>
     utf8_chars (b0 # b1 # b2 # bs) = map_option (Cons (x * 4096 + y * 64 + z)) (utf8_chars bs)"
  by (simp add: utf8_chars.simps(2) [of b0] continuation_def second_ok_def)

lemma utf8_four:
  "unat b0 = 0xF0 + x \<Longrightarrow> x < 5 \<Longrightarrow> unat b1 = 0x80 + y \<Longrightarrow> y < 64 \<Longrightarrow>
   unat b2 = 0x80 + z \<Longrightarrow> z < 64 \<Longrightarrow> unat b3 = 0x80 + w \<Longrightarrow> w < 64 \<Longrightarrow>
   (x = 0 \<Longrightarrow> 16 \<le> y) \<Longrightarrow> (x = 4 \<Longrightarrow> y \<le> 15) \<Longrightarrow>
     utf8_chars (b0 # b1 # b2 # b3 # bs)
       = map_option (Cons (x * 262144 + y * 4096 + z * 64 + w)) (utf8_chars bs)"
  by (simp add: utf8_chars.simps(2) [of b0] continuation_def second_ok_def)

lemma utf8_chars_encode_char:
  assumes "scalar_value c"
  shows "utf8_chars (encode_char c @ bs) = map_option (Cons c) (utf8_chars bs)"
proof -
  consider (one) "c < 0x80" | (two) "0x80 \<le> c" "c < 0x800"
    | (three) "0x800 \<le> c" "c < 0x10000" | (four) "0x10000 \<le> c" "c \<le> 0x10FFFF"
    using assms by (force simp: scalar_value_def)
  then show ?thesis
  proof cases
    case one
    then show ?thesis by (simp add: encode_char_def utf8_one unat_byte)
  next
    case two
    have "utf8_chars (byte (0xC0 + c div 64) # byte (0x80 + c mod 64) # bs)
        = map_option (Cons (c div 64 * 64 + c mod 64)) (utf8_chars bs)"
      using two by (intro utf8_two) (auto simp: unat_byte)
    with two show ?thesis by (simp add: encode_char_def)
  next
    case three
    define q r where "q = c div 64" and "r = c mod 64"
    define q2 r2 where "q2 = q div 64" and "r2 = q mod 64"
    have c: "c = 64 * q + r" "r < 64" and q: "q = 64 * q2 + r2" "r2 < 64"
      by (simp_all add: q_def r_def q2_def r2_def)
    have e: "c div 4096 = q2" "c div 64 mod 64 = r2" "c mod 64 = r"
      by (simp_all add: q_def r_def q2_def r2_def div_mult2_eq [symmetric])
    have x: "q2 < 16" using three c q by linarith
    have s: "32 \<le> r2" if "q2 = 0" using that three c q by linarith
    have t: "r2 \<le> 31" if "q2 = 13"
    proof -
      have "c < 0xE000" using that c q by linarith
      with assms have "c < 0xD800" by (simp add: scalar_value_def)
      with that c q show ?thesis by linarith
    qed
    have "utf8_chars (byte (0xE0 + q2) # byte (0x80 + r2) # byte (0x80 + r) # bs)
        = map_option (Cons (q2 * 4096 + r2 * 64 + r)) (utf8_chars bs)"
      using x s t c(2) q(2) by (intro utf8_three) (simp_all add: unat_byte)
    moreover have "q2 * 4096 + r2 * 64 + r = c" using c(1) q(1) by linarith
    moreover have "encode_char c = [byte (0xE0 + q2), byte (0x80 + r2), byte (0x80 + r)]"
      using three by (simp add: encode_char_def e)
    ultimately show ?thesis by simp
  next
    case four
    define q r where "q = c div 64" and "r = c mod 64"
    define q2 r2 where "q2 = q div 64" and "r2 = q mod 64"
    define q3 r3 where "q3 = q2 div 64" and "r3 = q2 mod 64"
    have c: "c = 64 * q + r" "r < 64" and q: "q = 64 * q2 + r2" "r2 < 64"
      and q2: "q2 = 64 * q3 + r3" "r3 < 64"
      by (simp_all add: q_def r_def q2_def r2_def q3_def r3_def)
    have e: "c div 262144 = q3" "c div 4096 mod 64 = r3" "c div 64 mod 64 = r2" "c mod 64 = r"
      by (simp_all add: q_def r_def q2_def r2_def q3_def r3_def div_mult2_eq [symmetric])
    have x: "q3 < 5" using four c q q2 by linarith
    have s: "16 \<le> r3" if "q3 = 0" using that four c q q2 by linarith
    have t: "r3 \<le> 15" if "q3 = 4" using that four c q q2 by linarith
    have "utf8_chars (byte (0xF0 + q3) # byte (0x80 + r3) # byte (0x80 + r2) # byte (0x80 + r) # bs)
        = map_option (Cons (q3 * 262144 + r3 * 4096 + r2 * 64 + r)) (utf8_chars bs)"
      using x s t c(2) q(2) q2(2) by (intro utf8_four) (simp_all add: unat_byte)
    moreover have "q3 * 262144 + r3 * 4096 + r2 * 64 + r = c" using c(1) q(1) q2(1) by linarith
    moreover have "encode_char c = [byte (0xF0 + q3), byte (0x80 + r3), byte (0x80 + r2), byte (0x80 + r)]"
      using four by (simp add: encode_char_def e)
    ultimately show ?thesis by simp
  qed
qed

lemma utf8_chars_encode:
  "(\<And>c. c \<in> set cs \<Longrightarrow> scalar_value c) \<Longrightarrow> utf8_chars (concat (map encode_char cs)) = Some cs"
  by (induction cs) (auto simp: utf8_chars_encode_char)

text \<open>Well-formed strings can be joined.\<close>

lemma utf8_chars_append: "utf8_chars a = Some cs \<Longrightarrow> utf8_chars b = Some ds \<Longrightarrow> utf8_chars (a @ b) = Some (cs @ ds)"
proof (induction a arbitrary: cs rule: utf8_chars.induct)
  case (2 b0 bs)
  let ?n = "unat b0"
  consider "?n < 0x80" | "\<not> ?n < 0x80" "0xC2 \<le> ?n \<and> ?n \<le> 0xDF"
    | "\<not> ?n < 0x80" "\<not> (0xC2 \<le> ?n \<and> ?n \<le> 0xDF)" "0xE0 \<le> ?n \<and> ?n \<le> 0xEF"
    | "\<not> ?n < 0x80" "\<not> (0xC2 \<le> ?n \<and> ?n \<le> 0xDF)" "\<not> (0xE0 \<le> ?n \<and> ?n \<le> 0xEF)" "0xF0 \<le> ?n \<and> ?n \<le> 0xF4"
    using "2.prems"(1) by (simp only: utf8_chars.simps(2) Let_def) (metis option.distinct(1))
  then show ?case
  proof cases
    case 1
    with "2.prems" "2.IH"(1) [OF refl 1] show ?thesis
      by (simp only: append_Cons utf8_chars.simps(2) Let_def if_True) auto
  next
    case c: 2
    from "2.prems"(1) c obtain b1 rest cs' where r: "bs = b1 # rest" "continuation b1" "utf8_chars rest = Some cs'"
      by (simp only: utf8_chars.simps(2) Let_def if_True if_False) (auto split: list.splits if_splits)
    with "2.IH"(2) [OF refl c r(1,2,3) "2.prems"(2)] "2.prems" c show ?thesis
      by (simp only: append_Cons utf8_chars.simps(2) Let_def if_True if_False list.case) auto
  next
    case c: 3
    from "2.prems"(1) c obtain b1 b2 rest cs' where r: "bs = b1 # b2 # rest" "second_ok b0 b1 \<and> continuation b2" "utf8_chars rest = Some cs'"
      by (simp only: utf8_chars.simps(2) Let_def if_True if_False) (auto split: list.splits if_splits)
    with "2.IH"(3) [OF refl c(1,2,3) r(1) refl r(2,3) "2.prems"(2)] "2.prems" c show ?thesis
      by (simp only: append_Cons utf8_chars.simps(2) Let_def if_True if_False list.case) auto
  next
    case c: 4
    from "2.prems"(1) c obtain b1 b2 b3 rest cs' where r: "bs = b1 # b2 # b3 # rest"
        "second_ok b0 b1 \<and> continuation b2 \<and> continuation b3" "utf8_chars rest = Some cs'"
      by (simp only: utf8_chars.simps(2) Let_def if_True if_False) (auto split: list.splits if_splits)
    with "2.IH"(4) [OF refl c(1,2,3,4) r(1) refl refl r(2,3) "2.prems"(2)] "2.prems" c show ?thesis
      by (simp only: append_Cons utf8_chars.simps(2) Let_def if_True if_False list.case) auto
  qed
qed simp

lemma utf8_valid_append: "utf8_valid a \<Longrightarrow> utf8_valid b \<Longrightarrow> utf8_valid (a @ b)"
  using utf8_chars_append by (fastforce simp: utf8_valid_def)

section \<open>Lossy decoding\<close>

text \<open>\<open>String::from_utf8_lossy\<close>: the longest valid prefix of a bad sequence becomes U+FFFD.\<close>

definition replacement :: bytes where
  "replacement = [0xEF, 0xBF, 0xBD]"

function from_utf8_lossy :: "bytes \<Rightarrow> rust_str" where
  "from_utf8_lossy [] = []"
| "from_utf8_lossy (b0 # bs) =
     (let n = unat b0 in
      if n < 0x80 then b0 # from_utf8_lossy bs
      else if 0xC2 \<le> n \<and> n \<le> 0xDF then
        (case bs of
           b1 # rest \<Rightarrow>
             if continuation b1 then b0 # b1 # from_utf8_lossy rest
             else replacement @ from_utf8_lossy bs
         | [] \<Rightarrow> replacement)
      else if 0xE0 \<le> n \<and> n \<le> 0xEF then
        (case bs of
           b1 # rest1 \<Rightarrow>
             if \<not> second_ok b0 b1 then replacement @ from_utf8_lossy bs
             else (case rest1 of
                     b2 # rest \<Rightarrow>
                       if continuation b2 then b0 # b1 # b2 # from_utf8_lossy rest
                       else replacement @ from_utf8_lossy rest1
                   | [] \<Rightarrow> replacement)
         | [] \<Rightarrow> replacement)
      else if 0xF0 \<le> n \<and> n \<le> 0xF4 then
        (case bs of
           b1 # rest1 \<Rightarrow>
             if \<not> second_ok b0 b1 then replacement @ from_utf8_lossy bs
             else (case rest1 of
                     b2 # rest2 \<Rightarrow>
                       if \<not> continuation b2 then replacement @ from_utf8_lossy rest1
                       else (case rest2 of
                               b3 # rest \<Rightarrow>
                                 if continuation b3 then b0 # b1 # b2 # b3 # from_utf8_lossy rest
                                 else replacement @ from_utf8_lossy rest2
                             | [] \<Rightarrow> replacement)
                   | [] \<Rightarrow> replacement)
         | [] \<Rightarrow> replacement)
      else replacement @ from_utf8_lossy bs)"
  by pat_completeness auto
termination
  by (relation "measure length") auto

declare from_utf8_lossy.simps(2) [simp del]

lemma lossy_of_chars: "utf8_chars bs = Some cs \<Longrightarrow> from_utf8_lossy bs = bs"
proof (induction bs arbitrary: cs rule: utf8_chars.induct)
  case (2 b0 bs)
  let ?n = "unat b0"
  consider "?n < 0x80" | "\<not> ?n < 0x80" "0xC2 \<le> ?n \<and> ?n \<le> 0xDF"
    | "\<not> ?n < 0x80" "\<not> (0xC2 \<le> ?n \<and> ?n \<le> 0xDF)" "0xE0 \<le> ?n \<and> ?n \<le> 0xEF"
    | "\<not> ?n < 0x80" "\<not> (0xC2 \<le> ?n \<and> ?n \<le> 0xDF)" "\<not> (0xE0 \<le> ?n \<and> ?n \<le> 0xEF)" "0xF0 \<le> ?n \<and> ?n \<le> 0xF4"
    using "2.prems" by (simp only: utf8_chars.simps(2) Let_def) (metis option.distinct(1))
  then show ?case
  proof cases
    case 1
    with "2.prems" "2.IH"(1) [OF refl 1] show ?thesis
      by (simp only: utf8_chars.simps(2) from_utf8_lossy.simps(2) Let_def if_True) auto
  next
    case c: 2
    from "2.prems" c obtain b1 rest cs' where r: "bs = b1 # rest" "continuation b1" "utf8_chars rest = Some cs'"
      by (simp only: utf8_chars.simps(2) Let_def if_True if_False) (auto split: list.splits if_splits)
    with "2.IH"(2) [OF refl c r(1,2)] c show ?thesis
      by (simp only: from_utf8_lossy.simps(2) Let_def if_True if_False) simp
  next
    case c: 3
    from "2.prems" c obtain b1 b2 rest cs' where r: "bs = b1 # b2 # rest" "second_ok b0 b1 \<and> continuation b2" "utf8_chars rest = Some cs'"
      by (simp only: utf8_chars.simps(2) Let_def if_True if_False) (auto split: list.splits if_splits)
    with "2.IH"(3) [OF refl c(1,2,3) r(1) refl r(2)] c show ?thesis
      by (simp only: from_utf8_lossy.simps(2) Let_def if_True if_False) simp
  next
    case c: 4
    from "2.prems" c obtain b1 b2 b3 rest cs' where r: "bs = b1 # b2 # b3 # rest"
        "second_ok b0 b1 \<and> continuation b2 \<and> continuation b3" "utf8_chars rest = Some cs'"
      by (simp only: utf8_chars.simps(2) Let_def if_True if_False) (auto split: list.splits if_splits)
    with "2.IH"(4) [OF refl c(1,2,3,4) r(1) refl refl r(2)] c show ?thesis
      by (simp only: from_utf8_lossy.simps(2) Let_def if_True if_False) simp
  qed
qed simp

lemma lossy_of_valid: "utf8_valid bs \<Longrightarrow> from_utf8_lossy bs = bs"
  using lossy_of_chars by (auto simp: utf8_valid_def)

end
