(* ===== verification/Clipboard.thy ===== *)
theory Clipboard
  imports Utf8 Ordered_Map "HOL-Library.List_Lexorder"
begin

text \<open>
  Clipboard synchronisation (\<open>src/transport/clipboard.rs\<close>): the payload codec and the state
  that enforces the permission, drops echoes and replays per origin, and bounds the number of
  origins it tracks. An array \<open>[u8; 16]\<close> is a byte list of length 16; arrays and lists are
  both ordered lexicographically.
\<close>

section \<open>Model\<close>

definition CLIPBOARD_HEADER_LEN :: usize where "CLIPBOARD_HEADER_LEN = 32"
definition DEFAULT_MAX_CLIPBOARD_BYTES :: usize where "DEFAULT_MAX_CLIPBOARD_BYTES = 1024 * 1024"
definition MAX_TRACKED_ORIGINS :: usize where "MAX_TRACKED_ORIGINS = 8"
definition FORMAT_UTF8_TEXT :: u8 where "FORMAT_UTF8_TEXT = 1"

datatype clipboard_permission = ClipDisabled | ReceiveOnly | SendOnly | Bidirectional

fun can_send :: "clipboard_permission \<Rightarrow> bool" where
  "can_send SendOnly = True"
| "can_send Bidirectional = True"
| "can_send _ = False"

fun can_receive :: "clipboard_permission \<Rightarrow> bool" where
  "can_receive ReceiveOnly = True"
| "can_receive Bidirectional = True"
| "can_receive _ = False"

record clipboard_text =
  ct_origin_id :: bytes
  ct_change_sequence :: u64
  ct_text :: rust_str

datatype clipboard_error =
    ClipPermissionDenied
  | ZeroOrigin
  | ClipZeroSequence
  | ClipHeaderTruncated
  | UnsupportedFormat u8
  | ClipInvalidReservedField
  | InvalidSize usize
  | ClipInvalidUtf8
  | TooManyOrigins
  | SequenceExhausted

definition validate_origin_and_sequence :: "bytes \<Rightarrow> u64 \<Rightarrow> clipboard_error + unit" where
  "validate_origin_and_sequence origin_id change_sequence =
     (if list_all (\<lambda>byte. byte = 0) origin_id then Inl ZeroOrigin
      else if change_sequence = 0 then Inl ClipZeroSequence
      else Inr ())"

definition encode_clipboard_text ::
    "bytes \<Rightarrow> u64 \<Rightarrow> rust_str \<Rightarrow> usize \<Rightarrow> clipboard_error + bytes" where
  "encode_clipboard_text origin_id change_sequence text max_bytes =
     (case validate_origin_and_sequence origin_id change_sequence of
        Inl e \<Rightarrow> Inl e
      | Inr _ \<Rightarrow>
        if length text > max_bytes \<or> length text > 2 ^ 32 - 1 then Inl (InvalidSize (length text))
        else Inr (origin_id @ u64_be change_sequence @ [FORMAT_UTF8_TEXT] @ [0] @ u16_be 0 @
                  u32_be (of_nat (length text)) @ text))"

definition decode_clipboard_text :: "bytes \<Rightarrow> usize \<Rightarrow> clipboard_error + clipboard_text" where
  "decode_clipboard_text payload max_bytes =
     (if length payload < CLIPBOARD_HEADER_LEN then Inl ClipHeaderTruncated
      else
        (let origin_id = byte_slice payload 0 16;
             change_sequence = read_u64 payload 16 in
         case validate_origin_and_sequence origin_id change_sequence of
           Inl e \<Rightarrow> Inl e
         | Inr _ \<Rightarrow>
           if payload ! 24 \<noteq> FORMAT_UTF8_TEXT then Inl (UnsupportedFormat (payload ! 24))
           else if payload ! 25 \<noteq> 0 \<or> read_u16 payload 26 \<noteq> 0 then Inl ClipInvalidReservedField
           else
             (let declared_len = unat (read_u32 payload 28);
                  text_bytes = drop CLIPBOARD_HEADER_LEN payload in
              if declared_len \<noteq> length text_bytes \<or> declared_len > max_bytes
                then Inl (InvalidSize declared_len)
              else case from_utf8 ClipInvalidUtf8 text_bytes of
                Inl e \<Rightarrow> Inl e
              | Inr text \<Rightarrow> Inr \<lparr>ct_origin_id = origin_id, ct_change_sequence = change_sequence,
                                  ct_text = text\<rparr>)))"

record clipboard_state =
  cs_permission :: clipboard_permission
  cs_local_origin_id :: bytes
  cs_next_local_sequence :: u64
  cs_remote_sequences :: "(bytes, u64) btree_map"
  cs_max_bytes :: usize

definition clipboard_new ::
    "clipboard_permission \<Rightarrow> bytes \<Rightarrow> usize \<Rightarrow> clipboard_error + clipboard_state" where
  "clipboard_new permission local_origin_id max_bytes =
     (case validate_origin_and_sequence local_origin_id 1 of
        Inl e \<Rightarrow> Inl e
      | Inr _ \<Rightarrow>
        if max_bytes = 0 \<or> max_bytes > DEFAULT_MAX_CLIPBOARD_BYTES then Inl (InvalidSize max_bytes)
        else Inr \<lparr>cs_permission = permission, cs_local_origin_id = local_origin_id,
                  cs_next_local_sequence = 1, cs_remote_sequences = [],
                  cs_max_bytes = max_bytes\<rparr>)"

definition prepare_local_text ::
    "clipboard_state \<Rightarrow> rust_str \<Rightarrow> clipboard_state \<times> (clipboard_error + bytes)" where
  "prepare_local_text st text =
     (if \<not> can_send (cs_permission st) then (st, Inl ClipPermissionDenied)
      else
        (let sequence = cs_next_local_sequence st in
         case encode_clipboard_text (cs_local_origin_id st) sequence text (cs_max_bytes st) of
           Inl e \<Rightarrow> (st, Inl e)
         | Inr payload \<Rightarrow>
           (case checked_add sequence 1 of
              None \<Rightarrow> (st, Inl SequenceExhausted)
            | Some next \<Rightarrow> (st\<lparr>cs_next_local_sequence := next\<rparr>, Inr payload))))"

definition clipboard_receive ::
    "clipboard_state \<Rightarrow> bytes \<Rightarrow> clipboard_state \<times> (clipboard_error + clipboard_text option)" where
  "clipboard_receive st payload =
     (if \<not> can_receive (cs_permission st) then (st, Inl ClipPermissionDenied)
      else case decode_clipboard_text payload (cs_max_bytes st) of
        Inl e \<Rightarrow> (st, Inl e)
      | Inr clipboard \<Rightarrow>
        if ct_origin_id clipboard = cs_local_origin_id st then (st, Inr None)
        else case bm_get (cs_remote_sequences st) (ct_origin_id clipboard) of
          Some last_sequence \<Rightarrow>
            if ct_change_sequence clipboard \<le> last_sequence then (st, Inr None)
            else (st\<lparr>cs_remote_sequences := bm_insert (ct_origin_id clipboard)
                       (ct_change_sequence clipboard) (cs_remote_sequences st)\<rparr>,
                  Inr (Some clipboard))
        | None \<Rightarrow>
            if length (cs_remote_sequences st) \<ge> MAX_TRACKED_ORIGINS then (st, Inl TooManyOrigins)
            else (st\<lparr>cs_remote_sequences := bm_insert (ct_origin_id clipboard)
                       (ct_change_sequence clipboard) (cs_remote_sequences st)\<rparr>,
                  Inr (Some clipboard)))"

definition reset_remote_state :: "clipboard_state \<Rightarrow> clipboard_state" where
  "reset_remote_state st = st\<lparr>cs_remote_sequences := []\<rparr>"

section \<open>The codec is exact\<close>

definition clipboard_text_ok :: "clipboard_text \<Rightarrow> bool" where
  "clipboard_text_ok c \<longleftrightarrow> length (ct_origin_id c) = 16 \<and> utf8_valid (ct_text c)"

lemma validate_origin_eq_Inr:
  "validate_origin_and_sequence o' n = Inr u \<longleftrightarrow> (\<exists>b \<in> set o'. b \<noteq> 0) \<and> n \<noteq> 0"
  by (auto simp: validate_origin_and_sequence_def list_all_iff)

lemma encode_clipboard_eq_Inr:
  "encode_clipboard_text o' n t mx = Inr bs \<longleftrightarrow>
     (\<exists>b \<in> set o'. b \<noteq> 0) \<and> n \<noteq> 0 \<and> length t \<le> mx \<and> length t < 2 ^ 32 \<and>
     bs = o' @ u64_be n @ [FORMAT_UTF8_TEXT] @ [0] @ u16_be 0 @ u32_be (of_nat (length t)) @ t"
  by (auto simp: encode_clipboard_text_def validate_origin_and_sequence_def list_all_iff)

lemma decode_encode_clipboard:
  assumes ok: "clipboard_text_ok c"
    and enc: "encode_clipboard_text (ct_origin_id c) (ct_change_sequence c) (ct_text c) mx = Inr bs"
  shows "decode_clipboard_text bs mx = Inr c"
proof -
  from enc have small: "unat (of_nat (length (ct_text c)) :: u32) = length (ct_text c)"
    by (intro unat_of_nat_exact) (simp add: encode_clipboard_eq_Inr)
  have "validate_origin_and_sequence (ct_origin_id c) (ct_change_sequence c) = Inr ()"
    using enc by (simp add: encode_clipboard_eq_Inr validate_origin_eq_Inr)
  with ok enc small show ?thesis
    by (simp add: encode_clipboard_eq_Inr clipboard_text_ok_def decode_clipboard_text_def Let_def
        wire_simps CLIPBOARD_HEADER_LEN_def from_utf8_def)
qed

lemma encode_decode_clipboard:
  assumes "decode_clipboard_text bs mx = Inr c"
  shows "clipboard_text_ok c \<and>
    encode_clipboard_text (ct_origin_id c) (ct_change_sequence c) (ct_text c) mx = Inr bs"
proof -
  from assms have len: "32 \<le> length bs"
    and v: "validate_origin_and_sequence (byte_slice bs 0 16) (read_u64 bs 16) = Inr ()"
    and z: "bs ! 24 = FORMAT_UTF8_TEXT" "bs ! 25 = 0" "read_u16 bs 26 = 0"
    and d: "unat (read_u32 bs 28) = length (drop 32 bs)" "length (drop 32 bs) \<le> mx"
    and u: "utf8_valid (drop 32 bs)"
    and c: "c = \<lparr>ct_origin_id = byte_slice bs 0 16, ct_change_sequence = read_u64 bs 16,
                 ct_text = drop 32 bs\<rparr>"
    by (auto simp: decode_clipboard_text_def Let_def CLIPBOARD_HEADER_LEN_def from_utf8_def
        split: if_splits sum.splits)
  have o16: "length (byte_slice bs 0 16) = 16" using len by (simp add: length_slice)
  have "of_nat (length (drop 32 bs)) = read_u32 bs 28" unfolding d(1) [symmetric] by simp
  moreover have "bs = byte_slice bs 0 16 @ u64_be (read_u64 bs 16) @ [bs ! 24] @ [bs ! 25] @
      u16_be (read_u16 bs 26) @ u32_be (read_u32 bs 28) @ drop 32 bs"
    using len cut_slice [of 0 16 bs] cut_u64 [of 16 bs] cut_u8 [of 24 bs] cut_u8 [of 25 bs]
      cut_u16 [of 26 bs] cut_u32 [of 28 bs] by simp
  moreover have "length (drop 32 bs) < 2 ^ 32" using unat_word_bound [of "read_u32 bs 28"] d by simp
  ultimately show ?thesis
    using v z d u o16 unfolding c
    by (simp add: encode_clipboard_eq_Inr clipboard_text_ok_def validate_origin_eq_Inr)
qed

interpretation clipboard_codec: wire_codec clipboard_text_ok
  "\<lambda>c. encode_clipboard_text (ct_origin_id c) (ct_change_sequence c) (ct_text c) mx"
  "\<lambda>bs. decode_clipboard_text bs mx" for mx
  by unfold_locales (auto simp: decode_encode_clipboard dest: encode_decode_clipboard)

section \<open>The state\<close>

definition clipboard_inv :: "clipboard_state \<Rightarrow> bool" where
  "clipboard_inv st \<longleftrightarrow>
     bm_ok (cs_remote_sequences st) \<and> length (cs_remote_sequences st) \<le> MAX_TRACKED_ORIGINS \<and>
     bm_get (cs_remote_sequences st) (cs_local_origin_id st) = None"

lemma clipboard_receive_cases:
  assumes "clipboard_receive st p = (st', r)"
  obtains "st' = st" "\<forall>c. r \<noteq> Inr (Some c)"
  | c where "r = Inr (Some c)" "can_receive (cs_permission st)"
      "decode_clipboard_text p (cs_max_bytes st) = Inr c" "ct_origin_id c \<noteq> cs_local_origin_id st"
      "\<forall>l. bm_get (cs_remote_sequences st) (ct_origin_id c) = Some l \<longrightarrow> l < ct_change_sequence c"
      "bm_get (cs_remote_sequences st) (ct_origin_id c) \<noteq> None \<or>
         length (cs_remote_sequences st) < MAX_TRACKED_ORIGINS"
      "st' = st\<lparr>cs_remote_sequences := bm_insert (ct_origin_id c) (ct_change_sequence c)
                   (cs_remote_sequences st)\<rparr>"
proof (cases "\<exists>c. r = Inr (Some c)")
  case False
  with assms have "st' = st"
    by (auto simp: clipboard_receive_def split: if_splits sum.splits option.splits)
  with False that(1) show ?thesis by blast
next
  case True
  then obtain c where r: "r = Inr (Some c)" by blast
  with assms have "can_receive (cs_permission st)"
    and d: "decode_clipboard_text p (cs_max_bytes st) = Inr c"
    and o: "ct_origin_id c \<noteq> cs_local_origin_id st"
    by (auto simp: clipboard_receive_def split: if_splits sum.splits option.splits)
  with assms r show ?thesis
    by (intro that(2) [OF r _ d o])
      (auto simp: clipboard_receive_def not_le split: if_splits option.splits)
qed

lemma clipboard_receive_inv:
  assumes "clipboard_inv st" and "clipboard_receive st p = (st', r)"
  shows "clipboard_inv st'"
  using assms(2)
proof (cases rule: clipboard_receive_cases)
  case 1
  with assms(1) show ?thesis by simp
next
  case (2 c)
  have "length (bm_insert (ct_origin_id c) (ct_change_sequence c) (cs_remote_sequences st))
      \<le> MAX_TRACKED_ORIGINS"
    using 2(6) assms(1) by (intro btree.bounded_insert) (auto simp: clipboard_inv_def)
  with 2(4,7) assms(1) show ?thesis by (simp add: clipboard_inv_def bm_get_insert)
qed

text \<open>The last change accepted from one origin.\<close>

definition last_change :: "bytes \<Rightarrow> clipboard_state \<Rightarrow> u64" where
  "last_change origin st = (case bm_get (cs_remote_sequences st) origin of None \<Rightarrow> 0 | Some n \<Rightarrow> n)"

definition origin_guard :: "bytes \<Rightarrow> clipboard_state \<Rightarrow> bytes \<Rightarrow> clipboard_state \<times> u64 option" where
  "origin_guard origin st p =
     (case clipboard_receive st p of (st', r) \<Rightarrow>
        (st', case r of
                Inr (Some c) \<Rightarrow> if ct_origin_id c = origin then Some (ct_change_sequence c) else None
              | _ \<Rightarrow> None))"

lemma decoded_sequence_nonzero: "decode_clipboard_text p mx = Inr c \<Longrightarrow> 0 < ct_change_sequence c"
  by (drule encode_decode_clipboard) (auto simp: encode_clipboard_eq_Inr word_neq_0_conv)

lemma origin_guard_step:
  assumes "origin_guard origin st p = (st', r)"
  shows "last_change origin st \<le> last_change origin st'"
    and "r = Some n \<Longrightarrow> last_change origin st < n \<and> n \<le> last_change origin st'"
proof -
  obtain res where res: "clipboard_receive st p = (st', res)"
    and r: "r = (case res of Inr (Some c) \<Rightarrow> if ct_origin_id c = origin
        then Some (ct_change_sequence c) else None | _ \<Rightarrow> None)"
    using assms by (auto simp: origin_guard_def split: prod.splits)
  from res show "last_change origin st \<le> last_change origin st'"
    by (cases rule: clipboard_receive_cases)
      (auto simp: last_change_def bm_get_insert split: option.splits)
  from res show "r = Some n \<Longrightarrow> last_change origin st < n \<and> n \<le> last_change origin st'"
    by (cases rule: clipboard_receive_cases)
      (auto simp: r last_change_def bm_get_insert dest: decoded_sequence_nonzero
        split: option.splits sum.splits if_splits)
qed

interpretation origins: sequence_guard "\<lambda>_. True" "\<lambda>_. True" "last_change origin" "origin_guard origin"
  for origin
  by unfold_locales (auto dest: origin_guard_step)

fun clipboard_run :: "clipboard_state \<Rightarrow> bytes list \<Rightarrow> clipboard_state \<times> clipboard_text list" where
  "clipboard_run st [] = (st, [])"
| "clipboard_run st (p # ps) =
     (case clipboard_receive st p of (st', r) \<Rightarrow>
        (case clipboard_run st' ps of (st'', cs) \<Rightarrow>
           (st'', (case r of Inr (Some c) \<Rightarrow> [c] | _ \<Rightarrow> []) @ cs)))"

lemma clipboard_run_guard:
  "accepted_run (origin_guard origin) st ps =
     map ct_change_sequence (filter (\<lambda>c. ct_origin_id c = origin) (snd (clipboard_run st ps)))"
  by (induction ps arbitrary: st)
    (auto simp: origin_guard_def split: prod.splits sum.splits option.splits)

lemma clipboard_run_inv:
  "clipboard_inv st \<Longrightarrow> clipboard_run st ps = (st', cs) \<Longrightarrow>
     clipboard_inv st' \<and> cs_local_origin_id st' = cs_local_origin_id st \<and>
     (\<forall>c \<in> set cs. ct_origin_id c \<noteq> cs_local_origin_id st)"
proof (induction ps arbitrary: st st' cs)
  case (Cons p ps)
  obtain s r where s: "clipboard_receive st p = (s, r)" by fastforce
  obtain s' cs' where s': "clipboard_run s ps = (s', cs')" by fastforce
  note i = clipboard_receive_inv [OF Cons.prems(1) s]
  have k: "cs_local_origin_id s = cs_local_origin_id st \<and>
      (\<forall>c. r = Inr (Some c) \<longrightarrow> ct_origin_id c \<noteq> cs_local_origin_id st)"
    using s by (cases rule: clipboard_receive_cases) auto
  from Cons.IH [OF i s'] k s s' Cons.prems(2) show ?case
    by (auto split: sum.splits option.splits)
qed simp

section \<open>Sender and receiver together\<close>

fun prepare_run :: "clipboard_state \<Rightarrow> rust_str list \<Rightarrow> clipboard_error + bytes list" where
  "prepare_run st [] = Inr []"
| "prepare_run st (t # ts) =
     (case prepare_local_text st t of
        (st', Inl e) \<Rightarrow> Inl e
      | (st', Inr p) \<Rightarrow> (case prepare_run st' ts of Inl e \<Rightarrow> Inl e | Inr ps \<Rightarrow> Inr (p # ps)))"

lemma prepare_local_text_Inr:
  assumes "prepare_local_text st t = (st', Inr p)"
  shows "encode_clipboard_text (cs_local_origin_id st) (cs_next_local_sequence st) t (cs_max_bytes st) = Inr p"
    and "st' = st\<lparr>cs_next_local_sequence := cs_next_local_sequence st + 1\<rparr>"
    and "cs_next_local_sequence st < cs_next_local_sequence st + 1"
proof -
  from assms have e: "encode_clipboard_text (cs_local_origin_id st) (cs_next_local_sequence st) t
      (cs_max_bytes st) = Inr p"
    and c: "checked_add (cs_next_local_sequence st) 1 \<noteq> None"
    and s: "st' = st\<lparr>cs_next_local_sequence := cs_next_local_sequence st + 1\<rparr>"
    by (auto simp: prepare_local_text_def Let_def checked_add_def
        split: if_splits sum.splits option.splits)
  show "encode_clipboard_text (cs_local_origin_id st) (cs_next_local_sequence st) t (cs_max_bytes st) = Inr p"
    and "st' = st\<lparr>cs_next_local_sequence := cs_next_local_sequence st + 1\<rparr>"
    by (fact e, fact s)
  from c have "checked_add (cs_next_local_sequence st) 1 = Some (cs_next_local_sequence st + 1)"
    by (auto simp: checked_add_def split: if_splits)
  then show "cs_next_local_sequence st < cs_next_local_sequence st + 1" by (rule checked_add_one_less)
qed

definition tracks :: "bytes \<Rightarrow> clipboard_state \<Rightarrow> bool" where
  "tracks origin st \<longleftrightarrow> bm_get (cs_remote_sequences st) origin \<noteq> None \<or>
     length (cs_remote_sequences st) < MAX_TRACKED_ORIGINS"

lemma prepared_text_received:
  assumes p: "prepare_local_text snd_st t = (snd_st', Inr p)"
    and o16: "length (cs_local_origin_id snd_st) = 16" and t: "utf8_valid t"
    and r: "can_receive (cs_permission st)" "cs_local_origin_id st \<noteq> cs_local_origin_id snd_st"
      "cs_max_bytes snd_st \<le> cs_max_bytes st" "tracks (cs_local_origin_id snd_st) st"
      "last_change (cs_local_origin_id snd_st) st < cs_next_local_sequence snd_st"
  shows "clipboard_receive st p = (st\<lparr>cs_remote_sequences := bm_insert (cs_local_origin_id snd_st)
            (cs_next_local_sequence snd_st) (cs_remote_sequences st)\<rparr>,
      Inr (Some \<lparr>ct_origin_id = cs_local_origin_id snd_st,
                  ct_change_sequence = cs_next_local_sequence snd_st, ct_text = t\<rparr>))"
proof -
  let ?c = "\<lparr>ct_origin_id = cs_local_origin_id snd_st,
             ct_change_sequence = cs_next_local_sequence snd_st, ct_text = t\<rparr>"
  have "encode_clipboard_text (ct_origin_id ?c) (ct_change_sequence ?c) (ct_text ?c) (cs_max_bytes st) = Inr p"
    using prepare_local_text_Inr(1) [OF p] r(3) by (auto simp: encode_clipboard_eq_Inr)
  from decode_encode_clipboard [OF _ this] o16 t
  have "decode_clipboard_text p (cs_max_bytes st) = Inr ?c" by (simp add: clipboard_text_ok_def)
  with r show ?thesis
    by (auto simp: clipboard_receive_def tracks_def last_change_def not_le split: option.splits)
qed

lemma clipboard_transfer:
  assumes "prepare_run snd_st ts = Inr ps"
    and "length (cs_local_origin_id snd_st) = 16" and "\<forall>t \<in> set ts. utf8_valid t"
    and "can_receive (cs_permission st)" and "cs_local_origin_id st \<noteq> cs_local_origin_id snd_st"
    and "cs_max_bytes snd_st \<le> cs_max_bytes st" and "tracks (cs_local_origin_id snd_st) st"
    and "last_change (cs_local_origin_id snd_st) st < cs_next_local_sequence snd_st"
  shows "map ct_text (snd (clipboard_run st ps)) = ts"
  using assms
proof (induction ts arbitrary: snd_st st ps)
  case (Cons t ts)
  obtain s p ps' where p: "prepare_local_text snd_st t = (s, Inr p)" and ps: "ps = p # ps'"
    and rest: "prepare_run s ts = Inr ps'"
    using Cons.prems(1) by (auto split: prod.splits sum.splits)
  note s = prepare_local_text_Inr [OF p]
  let ?o = "cs_local_origin_id snd_st" and ?n = "cs_next_local_sequence snd_st"
  let ?st' = "st\<lparr>cs_remote_sequences := bm_insert ?o ?n (cs_remote_sequences st)\<rparr>"
  have r: "clipboard_receive st p = (?st', Inr (Some \<lparr>ct_origin_id = ?o, ct_change_sequence = ?n, ct_text = t\<rparr>))"
    using prepared_text_received [OF p] Cons.prems by simp
  have "map ct_text (snd (clipboard_run ?st' ps')) = ts"
    using Cons.prems s by (intro Cons.IH [OF rest]) (auto simp: tracks_def last_change_def bm_get_insert)
  with r ps show ?case by (auto split: prod.splits)
qed simp

section \<open>Properties\<close>

text \<open>
  Exactness of the clipboard codec. A payload decodes to a text under a size
  limit if and only if the origin has 16 bytes, the text is valid UTF-8, and encoding the text
  under the same limit gives exactly that payload.
\<close>

lemma clipboard_codec_exact:
  "decode_clipboard_text payload max_bytes = Inr c \<longleftrightarrow>
     length (ct_origin_id c) = 16 \<and> utf8_valid (ct_text c) \<and>
     encode_clipboard_text (ct_origin_id c) (ct_change_sequence c) (ct_text c) max_bytes = Inr payload"
  using clipboard_codec.dec_iff [of payload max_bytes c] by (auto simp: clipboard_text_ok_def)

text \<open>
  No echo and no replay. From a fresh state, whatever payloads arrive, the
  accepted texts of each origin have strictly increasing change numbers, none carries the
  local origin, and at most \<open>MAX_TRACKED_ORIGINS\<close> origins are remembered.
\<close>

lemma clipboard_no_replay:
  assumes "clipboard_new permission local max_bytes = Inr st0"
    and "clipboard_run st0 payloads = (st, texts)"
  shows "sorted_wrt (<) (map ct_change_sequence (filter (\<lambda>c. ct_origin_id c = origin) texts)) \<and>
     local \<notin> ct_origin_id ` set texts \<and> length (cs_remote_sequences st) \<le> MAX_TRACKED_ORIGINS"
proof -
  from assms(1) have "clipboard_inv st0" and "cs_local_origin_id st0 = local"
    by (auto simp: clipboard_new_def clipboard_inv_def MAX_TRACKED_ORIGINS_def
        split: sum.splits if_splits)
  with clipboard_run_inv [OF _ assms(2)] origins.accepted_strictly_increasing [of payloads origin st0]
  show ?thesis using assms(2) by (auto simp: clipboard_run_guard clipboard_inv_def)
qed

text \<open>
  Property C21: end-to-end delivery. If a sender prepares a list of texts and a receiver with
  a different origin, the permission to receive, a size limit not below the sender's and room
  for the origin is given the payloads in order, it hands out exactly those texts, in order.
\<close>

theorem clipboard_end_to_end:
  assumes "clipboard_new permission local max_bytes = Inr sender" and "length local = 16"
    and "prepare_run sender texts = Inr payloads" and "\<forall>t \<in> set texts. utf8_valid t"
    and "clipboard_new permission' remote max_bytes' = Inr receiver"
    and "can_receive permission'" and "remote \<noteq> local" and "max_bytes \<le> max_bytes'"
  shows "map ct_text (snd (clipboard_run receiver payloads)) = texts"
proof -
  from assms(1) have s: "cs_local_origin_id sender = local" "cs_max_bytes sender = max_bytes"
    "cs_next_local_sequence sender = 1"
    by (auto simp: clipboard_new_def split: sum.splits if_splits)
  from assms(5) have r: "cs_local_origin_id receiver = remote" "cs_max_bytes receiver = max_bytes'"
    "cs_permission receiver = permission'" "cs_remote_sequences receiver = []"
    by (auto simp: clipboard_new_def split: sum.splits if_splits)
  show ?thesis
    using assms s r
    by (intro clipboard_transfer [OF assms(3)])
      (auto simp: tracks_def last_change_def MAX_TRACKED_ORIGINS_def)
qed

definition origin_of :: "u8 \<Rightarrow> bytes" where
  "origin_of b = [b, 0, 0, 0, 0, 0, 0, 0, 0, 0, 0, 0, 0, 0, 0, 0]"

lemma sample_clipboard_new:
  "clipboard_new Bidirectional (origin_of 1) 100 = Inr \<lparr>cs_permission = Bidirectional,
     cs_local_origin_id = origin_of 1, cs_next_local_sequence = 1, cs_remote_sequences = [],
     cs_max_bytes = 100\<rparr>"
  "clipboard_new ReceiveOnly (origin_of 2) 200 = Inr \<lparr>cs_permission = ReceiveOnly,
     cs_local_origin_id = origin_of 2, cs_next_local_sequence = 1, cs_remote_sequences = [],
     cs_max_bytes = 200\<rparr>"
  by (simp_all add: clipboard_new_def validate_origin_and_sequence_def origin_of_def
      DEFAULT_MAX_CLIPBOARD_BYTES_def)

lemma sample_texts_valid: "utf8_valid [72, 105]" "utf8_valid [0xC3, 0xA9]"
  using utf8_two [of "0xC3" 3 "0xA9" "0x29" "[]"] by (simp_all add: utf8_valid_def utf8_one)

theorem clipboard_end_to_end_witness:
  "\<exists>payloads. prepare_run \<lparr>cs_permission = Bidirectional, cs_local_origin_id = origin_of 1,
       cs_next_local_sequence = 1, cs_remote_sequences = [], cs_max_bytes = 100\<rparr> [[72, 105], [0xC3, 0xA9]]
       = Inr payloads \<and>
     map ct_text (snd (clipboard_run \<lparr>cs_permission = ReceiveOnly, cs_local_origin_id = origin_of 2,
       cs_next_local_sequence = 1, cs_remote_sequences = [], cs_max_bytes = 200\<rparr> payloads))
       = [[72, 105], [0xC3, 0xA9]]"
proof -
  let ?s = "\<lparr>cs_permission = Bidirectional, cs_local_origin_id = origin_of 1,
       cs_next_local_sequence = 1, cs_remote_sequences = [], cs_max_bytes = 100\<rparr>"
  have "\<exists>payloads. prepare_run ?s [[72, 105], [0xC3, 0xA9]] = Inr payloads"
    by (simp add: prepare_local_text_def encode_clipboard_text_def validate_origin_and_sequence_def
        origin_of_def checked_add_def)
  then obtain payloads where p: "prepare_run ?s [[72, 105], [0xC3, 0xA9]] = Inr payloads" ..
  have len: "length (origin_of 1) = 16" and ne: "origin_of 2 \<noteq> origin_of 1"
    by (simp_all add: origin_of_def)
  have valid: "\<forall>t \<in> set [[72, 105], [0xC3, 0xA9]]. utf8_valid t" using sample_texts_valid by auto
  have can: "can_receive ReceiveOnly" and le: "(100 :: nat) \<le> 200" by simp_all
  show ?thesis
    by (intro exI conjI, rule p)
      (rule clipboard_end_to_end [OF sample_clipboard_new(1) len p valid sample_clipboard_new(2) can ne le])
qed

end
