(* ===== verification/File_Transfer.thy ===== *)
theory File_Transfer
  imports Utf8
begin

text \<open>
  File transfer (\<open>src/transport/file_transfer.rs\<close>): the metadata, chunk and cancel codecs with
  the file name policy, and the receiver that checks offsets, sizes and the final hash.
  SHA-256 is third-party code: the hasher is a parameter \<open>H\<close>, a record of its three
  operations, and \<open>streaming_hash\<close> names what the code relies on. The token-bucket rate
  limiter computes in floating point and is left out.
\<close>

section \<open>Model\<close>

definition FILE_METADATA_HEADER_LEN :: usize where "FILE_METADATA_HEADER_LEN = 68"
definition FILE_CHUNK_HEADER_LEN :: usize where "FILE_CHUNK_HEADER_LEN = 28"
definition FILE_CANCEL_PAYLOAD_LEN :: usize where "FILE_CANCEL_PAYLOAD_LEN = 20"
definition MAX_FILE_NAME_BYTES :: usize where "MAX_FILE_NAME_BYTES = 255"
definition MAX_FILE_CHUNK_BYTES :: usize where "MAX_FILE_CHUNK_BYTES = 256 * 1024"
definition DEFAULT_MAX_FILE_BYTES :: u64 where "DEFAULT_MAX_FILE_BYTES = 20 * 1024 * 1024 * 1024"

record file_transfer_metadata =
  fm_transfer_id :: bytes
  fm_file_name :: rust_str
  fm_file_size :: u64
  fm_resume_offset :: u64
  fm_sha256 :: bytes

record file_chunk =
  fc_transfer_id :: bytes
  fc_offset :: u64
  fc_data :: bytes

datatype file_cancel_reason =
  CancelUser | CancelPermissionDenied | CancelInvalidData | CancelIntegrityFailure | CancelSessionClosed

datatype file_transfer_error =
    FilePermissionDenied
  | ZeroTransferId
  | InvalidFileName
  | FileTooLarge u64
  | InvalidResumeOffset u64 u64
  | MissingHash
  | MetadataTruncated
  | FileInvalidReservedField
  | InvalidNameLength
  | FileInvalidUtf8
  | ChunkTruncated
  | InvalidChunkSize usize
  | TransferIdMismatch
  | UnexpectedOffset u64 u64
  | ChunkExceedsFileSize
  | Incomplete
  | HashMismatch
  | FileCancelled
  | InvalidResumeState
  | UnknownCancelReason u16
  | InvalidRateLimit

fun file_cancel_code :: "file_cancel_reason \<Rightarrow> u16" where
  "file_cancel_code CancelUser = 1"
| "file_cancel_code CancelPermissionDenied = 2"
| "file_cancel_code CancelInvalidData = 3"
| "file_cancel_code CancelIntegrityFailure = 4"
| "file_cancel_code CancelSessionClosed = 5"

definition file_cancel_try_from :: "u16 \<Rightarrow> file_transfer_error + file_cancel_reason" where
  "file_cancel_try_from v =
     (if v = 1 then Inr CancelUser else if v = 2 then Inr CancelPermissionDenied
      else if v = 3 then Inr CancelInvalidData else if v = 4 then Inr CancelIntegrityFailure
      else if v = 5 then Inr CancelSessionClosed else Inl (UnknownCancelReason v))"

record file_transfer_progress =
  fp_completed_bytes :: u64
  fp_total_bytes :: u64

definition validate_transfer_id :: "bytes \<Rightarrow> file_transfer_error + unit" where
  "validate_transfer_id transfer_id =
     (if list_all (\<lambda>byte. byte = 0) transfer_id then Inl ZeroTransferId else Inr ())"

text \<open>The characters are slash (0x2F), backslash (0x5C), colon (0x3A) and NUL; the forbidden
  names are a dot and two dots.\<close>

definition validate_file_name :: "rust_str \<Rightarrow> file_transfer_error + unit" where
  "validate_file_name file_name =
     (if file_name = [] \<or> length file_name > MAX_FILE_NAME_BYTES
         \<or> file_name = [0x2E] \<or> file_name = [0x2E, 0x2E]
         \<or> list_ex (\<lambda>c. c \<in> {0x2F, 0x5C, 0x3A, 0}) (str_chars file_name)
         \<or> list_ex is_control (str_chars file_name)
      then Inl InvalidFileName else Inr ())"

definition validate_file_metadata :: "file_transfer_metadata \<Rightarrow> u64 \<Rightarrow> file_transfer_error + unit" where
  "validate_file_metadata metadata max_file_bytes =
     (case validate_transfer_id (fm_transfer_id metadata) of
        Inl e \<Rightarrow> Inl e
      | Inr _ \<Rightarrow>
        (case validate_file_name (fm_file_name metadata) of
           Inl e \<Rightarrow> Inl e
         | Inr _ \<Rightarrow>
           if fm_file_size metadata > max_file_bytes then Inl (FileTooLarge (fm_file_size metadata))
           else if fm_resume_offset metadata > fm_file_size metadata
             then Inl (InvalidResumeOffset (fm_resume_offset metadata) (fm_file_size metadata))
           else if list_all (\<lambda>byte. byte = 0) (fm_sha256 metadata) then Inl MissingHash
           else Inr ()))"

definition encode_file_metadata :: "file_transfer_metadata \<Rightarrow> u64 \<Rightarrow> file_transfer_error + bytes" where
  "encode_file_metadata metadata max_file_bytes =
     (case validate_file_metadata metadata max_file_bytes of
        Inl e \<Rightarrow> Inl e
      | Inr _ \<Rightarrow> Inr
          (fm_transfer_id metadata @ u64_be (fm_file_size metadata) @
           u64_be (fm_resume_offset metadata) @ fm_sha256 metadata @
           u16_be (of_nat (length (fm_file_name metadata))) @ u16_be 0 @ fm_file_name metadata))"

definition decode_file_metadata :: "bytes \<Rightarrow> u64 \<Rightarrow> file_transfer_error + file_transfer_metadata" where
  "decode_file_metadata payload max_file_bytes =
     (if length payload < FILE_METADATA_HEADER_LEN then Inl MetadataTruncated
      else if read_u16 payload 66 \<noteq> 0 then Inl FileInvalidReservedField
      else
        (let name_len = unat (read_u16 payload 64) in
         if name_len = 0 \<or> name_len > MAX_FILE_NAME_BYTES
            \<or> length payload \<noteq> FILE_METADATA_HEADER_LEN + name_len then Inl InvalidNameLength
         else case from_utf8 FileInvalidUtf8 (drop FILE_METADATA_HEADER_LEN payload) of
           Inl e \<Rightarrow> Inl e
         | Inr file_name \<Rightarrow>
           (let metadata =
                  \<lparr>fm_transfer_id = byte_slice payload 0 16, fm_file_name = file_name,
                   fm_file_size = read_u64 payload 16, fm_resume_offset = read_u64 payload 24,
                   fm_sha256 = byte_slice payload 32 64\<rparr> in
            (case validate_file_metadata metadata max_file_bytes of
               Inl e \<Rightarrow> Inl e | Inr _ \<Rightarrow> Inr metadata))))"

definition encode_file_chunk :: "file_chunk \<Rightarrow> file_transfer_error + bytes" where
  "encode_file_chunk chunk =
     (case validate_transfer_id (fc_transfer_id chunk) of
        Inl e \<Rightarrow> Inl e
      | Inr _ \<Rightarrow>
        if fc_data chunk = [] \<or> length (fc_data chunk) > MAX_FILE_CHUNK_BYTES
          then Inl (InvalidChunkSize (length (fc_data chunk)))
        else Inr (fc_transfer_id chunk @ u64_be (fc_offset chunk) @
                  u32_be (of_nat (length (fc_data chunk))) @ fc_data chunk))"

definition decode_file_chunk :: "bytes \<Rightarrow> file_transfer_error + file_chunk" where
  "decode_file_chunk payload =
     (if length payload < FILE_CHUNK_HEADER_LEN then Inl ChunkTruncated
      else
        (let declared_len = unat (read_u32 payload 24);
             data = drop FILE_CHUNK_HEADER_LEN payload in
         if declared_len = 0 \<or> declared_len > MAX_FILE_CHUNK_BYTES \<or> length data \<noteq> declared_len
           then Inl (InvalidChunkSize declared_len)
         else case validate_transfer_id (byte_slice payload 0 16) of
           Inl e \<Rightarrow> Inl e
         | Inr _ \<Rightarrow> Inr \<lparr>fc_transfer_id = byte_slice payload 0 16,
                           fc_offset = read_u64 payload 16, fc_data = data\<rparr>))"

definition encode_file_cancel :: "bytes \<Rightarrow> file_cancel_reason \<Rightarrow> file_transfer_error + bytes" where
  "encode_file_cancel transfer_id reason =
     (case validate_transfer_id transfer_id of
        Inl e \<Rightarrow> Inl e
      | Inr _ \<Rightarrow> Inr (copy_at 16 (u16_be (file_cancel_code reason))
                        (copy_at 0 transfer_id (replicate FILE_CANCEL_PAYLOAD_LEN 0))))"

definition decode_file_cancel :: "bytes \<Rightarrow> file_transfer_error + (bytes \<times> file_cancel_reason)" where
  "decode_file_cancel payload =
     (if length payload \<noteq> FILE_CANCEL_PAYLOAD_LEN then Inl ChunkTruncated
      else if read_u16 payload 18 \<noteq> 0 then Inl FileInvalidReservedField
      else case validate_transfer_id (byte_slice payload 0 16) of
        Inl e \<Rightarrow> Inl e
      | Inr _ \<Rightarrow>
        (case file_cancel_try_from (read_u16 payload 16) of
           Inl e \<Rightarrow> Inl e
         | Inr reason \<Rightarrow> Inr (byte_slice payload 0 16, reason)))"

section \<open>The receiver\<close>

record 'h hasher =
  hash_new :: 'h
  hash_update :: "'h \<Rightarrow> bytes \<Rightarrow> 'h"
  hash_finalize :: "'h \<Rightarrow> bytes"

record 'h file_resume_state =
  frs_offset :: u64
  frs_hasher :: 'h

record 'h file_receiver =
  fr_metadata :: file_transfer_metadata
  fr_expected_offset :: u64
  fr_hasher :: 'h
  fr_cancelled :: bool

definition file_start ::
    "'h hasher \<Rightarrow> file_transfer_metadata \<Rightarrow> u64 \<Rightarrow> bool \<Rightarrow> 'h file_resume_state option
     \<Rightarrow> file_transfer_error + 'h file_receiver" where
  "file_start H metadata max_file_bytes user_permitted resume_state =
     (if \<not> user_permitted then Inl FilePermissionDenied
      else case validate_file_metadata metadata max_file_bytes of
        Inl e \<Rightarrow> Inl e
      | Inr _ \<Rightarrow>
        (case (if fm_resume_offset metadata = 0
               then (case resume_state of Some _ \<Rightarrow> Inl InvalidResumeState | None \<Rightarrow> Inr (hash_new H))
               else (case resume_state of
                       None \<Rightarrow> Inl InvalidResumeState
                     | Some rs \<Rightarrow> if frs_offset rs \<noteq> fm_resume_offset metadata
                                 then Inl InvalidResumeState else Inr (frs_hasher rs))) of
           Inl e \<Rightarrow> Inl e
         | Inr h \<Rightarrow> Inr \<lparr>fr_metadata = metadata, fr_expected_offset = fm_resume_offset metadata,
                         fr_hasher = h, fr_cancelled = False\<rparr>))"

definition file_progress :: "'h file_receiver \<Rightarrow> file_transfer_progress" where
  "file_progress st = \<lparr>fp_completed_bytes = fr_expected_offset st,
                       fp_total_bytes = fm_file_size (fr_metadata st)\<rparr>"

definition accept_chunk ::
    "'h hasher \<Rightarrow> 'h file_receiver \<Rightarrow> file_chunk
     \<Rightarrow> 'h file_receiver \<times> (file_transfer_error + file_transfer_progress)" where
  "accept_chunk H st chunk =
     (if fr_cancelled st then (st, Inl FileCancelled)
      else if fc_transfer_id chunk \<noteq> fm_transfer_id (fr_metadata st) then (st, Inl TransferIdMismatch)
      else if fc_offset chunk \<noteq> fr_expected_offset st
        then (st, Inl (UnexpectedOffset (fr_expected_offset st) (fc_offset chunk)))
      else if fc_data chunk = [] \<or> length (fc_data chunk) > MAX_FILE_CHUNK_BYTES
        then (st, Inl (InvalidChunkSize (length (fc_data chunk))))
      else case checked_add (fr_expected_offset st) (of_nat (length (fc_data chunk))) of
        None \<Rightarrow> (st, Inl ChunkExceedsFileSize)
      | Some next_offset \<Rightarrow>
        if next_offset > fm_file_size (fr_metadata st) then (st, Inl ChunkExceedsFileSize)
        else
          (let st' = st\<lparr>fr_hasher := hash_update H (fr_hasher st) (fc_data chunk),
                        fr_expected_offset := next_offset\<rparr> in
           (st', Inr (file_progress st'))))"

definition file_cancel :: "'h file_receiver \<Rightarrow> 'h file_receiver" where
  "file_cancel st = st\<lparr>fr_cancelled := True\<rparr>"

definition file_finish :: "'h hasher \<Rightarrow> 'h file_receiver \<Rightarrow> file_transfer_error + file_transfer_metadata" where
  "file_finish H st =
     (if fr_cancelled st then Inl FileCancelled
      else if fr_expected_offset st \<noteq> fm_file_size (fr_metadata st) then Inl Incomplete
      else if hash_finalize H (fr_hasher st) \<noteq> fm_sha256 (fr_metadata st) then Inl HashMismatch
      else Inr (fr_metadata st))"

end
