(* ===== verification/File_Integrity.thy ===== *)
theory File_Integrity
  imports File_Transfer
begin

text \<open>
  Correctness of file transfer: the three codecs are exact, and a transfer that finishes
  holds the complete file with the announced hash.
\<close>

section \<open>The codecs are exact\<close>

definition file_metadata_ok :: "file_transfer_metadata \<Rightarrow> bool" where
  "file_metadata_ok m \<longleftrightarrow>
     length (fm_transfer_id m) = 16 \<and> length (fm_sha256 m) = 32 \<and> utf8_valid (fm_file_name m)"

lemma validate_file_name_length:
  "validate_file_name n = Inr u \<Longrightarrow> n \<noteq> [] \<and> length n \<le> 255"
  by (auto simp: validate_file_name_def MAX_FILE_NAME_BYTES_def split: if_splits)

lemma encode_file_metadata_eq_Inr:
  "encode_file_metadata m mx = Inr bs \<longleftrightarrow>
     validate_file_metadata m mx = Inr () \<and>
     bs = fm_transfer_id m @ u64_be (fm_file_size m) @ u64_be (fm_resume_offset m) @ fm_sha256 m @
       u16_be (of_nat (length (fm_file_name m))) @ u16_be 0 @ fm_file_name m"
  by (auto simp: encode_file_metadata_def split: sum.splits)

lemma file_metadata_name:
  "validate_file_metadata m mx = Inr u \<Longrightarrow> fm_file_name m \<noteq> [] \<and> length (fm_file_name m) \<le> 255"
  by (auto simp: validate_file_metadata_def dest: validate_file_name_length split: sum.splits if_splits)

lemma file_metadata_eta:
  "\<lparr>fm_transfer_id = fm_transfer_id m, fm_file_name = fm_file_name m, fm_file_size = fm_file_size m,
    fm_resume_offset = fm_resume_offset m, fm_sha256 = fm_sha256 m\<rparr> = m"
  by simp

lemma decode_encode_file_metadata:
  assumes ok: "file_metadata_ok m" and enc: "encode_file_metadata m mx = Inr bs"
  shows "decode_file_metadata bs mx = Inr m"
proof -
  from enc have v: "validate_file_metadata m mx = Inr ()" by (simp add: encode_file_metadata_eq_Inr)
  note n = file_metadata_name [OF v]
  have "unat (of_nat (length (fm_file_name m)) :: u16) = length (fm_file_name m)"
    using n by (intro unat_of_nat_exact) simp
  with ok enc v n show ?thesis
    by (simp add: encode_file_metadata_eq_Inr file_metadata_ok_def decode_file_metadata_def Let_def
        wire_simps FILE_METADATA_HEADER_LEN_def MAX_FILE_NAME_BYTES_def from_utf8_def file_metadata_eta)
qed

lemma encode_decode_file_metadata:
  assumes "decode_file_metadata bs mx = Inr m"
  shows "file_metadata_ok m \<and> encode_file_metadata m mx = Inr bs"
proof -
  from assms have len: "68 \<le> length bs" and z: "read_u16 bs 66 = 0"
    and n: "length bs = 68 + unat (read_u16 bs 64)" and u: "utf8_valid (drop 68 bs)"
    and m: "m = \<lparr>fm_transfer_id = byte_slice bs 0 16, fm_file_name = drop 68 bs,
                   fm_file_size = read_u64 bs 16, fm_resume_offset = read_u64 bs 24,
                   fm_sha256 = byte_slice bs 32 64\<rparr>"
    and v: "validate_file_metadata m mx = Inr ()"
    by (auto simp: decode_file_metadata_def Let_def FILE_METADATA_HEADER_LEN_def from_utf8_def
        split: if_splits sum.splits)
  have l: "length (drop 68 bs) = unat (read_u16 bs 64)" using n by simp
  have "of_nat (length (drop 68 bs)) = read_u16 bs 64" unfolding l by simp
  moreover have "bs = byte_slice bs 0 16 @ u64_be (read_u64 bs 16) @ u64_be (read_u64 bs 24) @
      byte_slice bs 32 64 @ u16_be (read_u16 bs 64) @ u16_be (read_u16 bs 66) @ drop 68 bs"
    using len cut_slice [of 0 16 bs] cut_u64 [of 16 bs] cut_u64 [of 24 bs] cut_slice [of 32 64 bs]
      cut_u16 [of 64 bs] cut_u16 [of 66 bs] by simp
  moreover have "length (byte_slice bs 0 16) = 16" "length (byte_slice bs 32 64) = 32"
    using len by (simp_all add: length_slice)
  ultimately show ?thesis
    using u v z by (simp add: encode_file_metadata_eq_Inr file_metadata_ok_def m)
qed

interpretation file_metadata_codec: wire_codec file_metadata_ok
  "\<lambda>m. encode_file_metadata m mx" "\<lambda>bs. decode_file_metadata bs mx" for mx
  by unfold_locales (auto simp: decode_encode_file_metadata dest: encode_decode_file_metadata)

lemma encode_file_chunk_eq_Inr:
  "encode_file_chunk c = Inr bs \<longleftrightarrow>
     validate_transfer_id (fc_transfer_id c) = Inr () \<and> fc_data c \<noteq> [] \<and>
     length (fc_data c) \<le> MAX_FILE_CHUNK_BYTES \<and>
     bs = fc_transfer_id c @ u64_be (fc_offset c) @ u32_be (of_nat (length (fc_data c))) @ fc_data c"
  by (auto simp: encode_file_chunk_def split: sum.splits)

lemma file_chunk_eta:
  "\<lparr>fc_transfer_id = fc_transfer_id c, fc_offset = fc_offset c, fc_data = fc_data c\<rparr> = c"
  by simp

lemma decode_encode_file_chunk:
  assumes "length (fc_transfer_id c) = 16" and "encode_file_chunk c = Inr bs"
  shows "decode_file_chunk bs = Inr c"
proof -
  have "unat (of_nat (length (fc_data c)) :: u32) = length (fc_data c)"
    using assms(2) by (intro unat_of_nat_exact) (simp add: encode_file_chunk_eq_Inr MAX_FILE_CHUNK_BYTES_def)
  with assms show ?thesis
    by (simp add: encode_file_chunk_eq_Inr decode_file_chunk_def Let_def wire_simps
        FILE_CHUNK_HEADER_LEN_def file_chunk_eta)
qed

lemma encode_decode_file_chunk:
  assumes "decode_file_chunk bs = Inr c"
  shows "length (fc_transfer_id c) = 16 \<and> encode_file_chunk c = Inr bs"
proof -
  from assms have len: "28 \<le> length bs" and n: "unat (read_u32 bs 24) = length (drop 28 bs)"
    and d: "length (drop 28 bs) \<noteq> 0" "length (drop 28 bs) \<le> MAX_FILE_CHUNK_BYTES"
    and v: "validate_transfer_id (byte_slice bs 0 16) = Inr ()"
    and c: "c = \<lparr>fc_transfer_id = byte_slice bs 0 16, fc_offset = read_u64 bs 16, fc_data = drop 28 bs\<rparr>"
    by (auto simp: decode_file_chunk_def Let_def FILE_CHUNK_HEADER_LEN_def split: if_splits sum.splits)
  have "of_nat (length (drop 28 bs)) = read_u32 bs 24" unfolding n [symmetric] by simp
  moreover have "bs = byte_slice bs 0 16 @ u64_be (read_u64 bs 16) @ u32_be (read_u32 bs 24) @ drop 28 bs"
    using len cut_slice [of 0 16 bs] cut_u64 [of 16 bs] cut_u32 [of 24 bs] by simp
  moreover have "length (byte_slice bs 0 16) = 16" using len by (simp add: length_slice)
  ultimately show ?thesis using d v by (simp add: encode_file_chunk_eq_Inr c)
qed

interpretation file_chunk_codec: wire_codec "\<lambda>c. length (fc_transfer_id c) = 16"
  encode_file_chunk decode_file_chunk
  by unfold_locales (auto simp: decode_encode_file_chunk dest: encode_decode_file_chunk)

interpretation file_cancel_reason: enum_code file_cancel_code file_cancel_try_from
proof
  show "file_cancel_try_from (file_cancel_code x) = Inr x" for x
    by (cases x) (simp_all add: file_cancel_try_from_def)
  show "file_cancel_try_from w = Inr x \<Longrightarrow> file_cancel_code x = w" for w x
    by (auto simp: file_cancel_try_from_def split: if_splits)
qed

lemma encode_file_cancel_eq_Inr:
  assumes "length tid = 16"
  shows "encode_file_cancel tid r = Inr bs \<longleftrightarrow>
     validate_transfer_id tid = Inr () \<and> bs = tid @ u16_be (file_cancel_code r) @ u16_be 0"
proof -
  have "replicate FILE_CANCEL_PAYLOAD_LEN (0 :: u8) = replicate 16 0 @ replicate 4 0"
    by (simp add: FILE_CANCEL_PAYLOAD_LEN_def flip: replicate_add)
  then have "copy_at 0 tid (replicate FILE_CANCEL_PAYLOAD_LEN 0) = tid @ replicate 4 0"
    using assms by (simp add: copy_at_def)
  moreover have "replicate 4 (0 :: u8) = [0, 0, 0, 0]" by (simp add: numeral_eq_Suc)
  ultimately show ?thesis
    using assms
    by (auto simp: encode_file_cancel_def copy_at_def u16_be_zero split: sum.splits)
qed

lemma file_cancel_codec:
  "decode_file_cancel bs = Inr (tid, r) \<longleftrightarrow> length tid = 16 \<and> encode_file_cancel tid r = Inr bs"
proof
  assume dec: "decode_file_cancel bs = Inr (tid, r)"
  then have len: "length bs = 20" and z: "read_u16 bs 18 = 0"
    and v: "validate_transfer_id (byte_slice bs 0 16) = Inr ()" and tid: "tid = byte_slice bs 0 16"
    and r: "file_cancel_code r = read_u16 bs 16"
    by (auto simp: decode_file_cancel_def FILE_CANCEL_PAYLOAD_LEN_def file_cancel_reason.try_from_iff
        split: if_splits sum.splits)
  have t16: "length tid = 16" using len by (simp add: tid length_slice)
  moreover have "bs = byte_slice bs 0 16 @ u16_be (read_u16 bs 16) @ u16_be (read_u16 bs 18)"
    using len cut_slice [of 0 16 bs] cut_u16 [of 16 bs] cut_u16 [of 18 bs] by simp
  ultimately show "length tid = 16 \<and> encode_file_cancel tid r = Inr bs"
    using v z r by (simp add: encode_file_cancel_eq_Inr) (simp add: tid)
next
  assume "length tid = 16 \<and> encode_file_cancel tid r = Inr bs"
  then show "decode_file_cancel bs = Inr (tid, r)"
    by (auto simp: encode_file_cancel_eq_Inr decode_file_cancel_def wire_simps
        FILE_CANCEL_PAYLOAD_LEN_def file_cancel_reason.try_from_code)
qed

section \<open>Integrity of a finished transfer\<close>

text \<open>What the code relies on of SHA-256: feeding data in pieces gives the digest of the whole.\<close>

definition streaming_hash :: "'h hasher \<Rightarrow> (bytes \<Rightarrow> bytes) \<Rightarrow> bool" where
  "streaming_hash H digest \<longleftrightarrow>
     (\<forall>pieces. hash_finalize H (foldl (hash_update H) (hash_new H) pieces) = digest (concat pieces))"

fun file_run :: "'h hasher \<Rightarrow> 'h file_receiver \<Rightarrow> file_chunk list \<Rightarrow> 'h file_receiver \<times> file_chunk list" where
  "file_run H st [] = (st, [])"
| "file_run H st (c # cs) =
     (case accept_chunk H st c of (st', r) \<Rightarrow>
        (case file_run H st' cs of (st'', acc) \<Rightarrow>
           (st'', (case r of Inl _ \<Rightarrow> [] | Inr _ \<Rightarrow> [c]) @ acc)))"

text \<open>The state after the pieces of \<open>sofar\<close> have been hashed.\<close>

definition received :: "'h hasher \<Rightarrow> file_transfer_metadata \<Rightarrow> bytes list \<Rightarrow> 'h file_receiver \<Rightarrow> bool" where
  "received H m sofar st \<longleftrightarrow>
     fr_metadata st = m \<and> \<not> fr_cancelled st \<and>
     fr_hasher st = foldl (hash_update H) (hash_new H) sofar \<and>
     unat (fr_expected_offset st) = length (concat sofar) \<and>
     length (concat sofar) \<le> unat (fm_file_size m)"

lemma accept_chunk_received:
  assumes inv: "received H m sofar st" and acc: "accept_chunk H st c = (st', r)"
  shows "(case r of
      Inl _ \<Rightarrow> st' = st
    | Inr _ \<Rightarrow> received H m (sofar @ [fc_data c]) st' \<and> unat (fc_offset c) = length (concat sofar))"
proof (cases r)
  case (Inl e)
  with acc show ?thesis
    by (auto simp: accept_chunk_def Let_def split: if_splits option.splits)
next
  case (Inr p)
  with acc have off: "fc_offset c = fr_expected_offset st"
    and len: "length (fc_data c) \<le> MAX_FILE_CHUNK_BYTES"
    and add: "checked_add (fr_expected_offset st) (of_nat (length (fc_data c))) = Some (fr_expected_offset st')"
    and le: "fr_expected_offset st' \<le> fm_file_size (fr_metadata st)"
    and st': "fr_metadata st' = fr_metadata st" "fr_cancelled st' = fr_cancelled st"
      "fr_hasher st' = hash_update H (fr_hasher st) (fc_data c)"
    by (auto simp: accept_chunk_def Let_def split: if_splits option.splits)
  have "unat (of_nat (length (fc_data c)) :: u64) = length (fc_data c)"
    using len by (intro unat_of_nat_exact) (simp add: MAX_FILE_CHUNK_BYTES_def)
  with add have "unat (fr_expected_offset st') = unat (fr_expected_offset st) + length (fc_data c)"
    by (auto simp: checked_add_eq_Some unat_add_exact)
  moreover have "unat (fr_expected_offset st') \<le> unat (fm_file_size (fr_metadata st))"
    using le by (simp only: word_le_nat_alt)
  ultimately show ?thesis using inv off st' Inr by (simp add: received_def)
qed

definition contiguous_from :: "nat \<Rightarrow> file_chunk list \<Rightarrow> bool" where
  "contiguous_from start cs \<longleftrightarrow>
     (\<forall>i < length cs. unat (fc_offset (cs ! i)) = start + length (concat (map fc_data (take i cs))))"

lemma contiguous_Cons:
  "contiguous_from s (c # cs) \<longleftrightarrow>
     unat (fc_offset c) = s \<and> contiguous_from (s + length (fc_data c)) cs"
  by (auto simp: contiguous_from_def All_less_Suc2 add.assoc)

lemma file_run_received:
  "received H m sofar st \<Longrightarrow> file_run H st cs = (st', acc) \<Longrightarrow>
     received H m (sofar @ map fc_data acc) st' \<and> contiguous_from (length (concat sofar)) acc"
proof (induction cs arbitrary: st st' acc sofar)
  case Nil
  then show ?case by (simp add: contiguous_from_def)
next
  case (Cons c cs)
  obtain s r where s: "accept_chunk H st c = (s, r)" by fastforce
  obtain s' acc' where s': "file_run H s cs = (s', acc')" by fastforce
  note a = accept_chunk_received [OF Cons.prems(1) s]
  show ?case
  proof (cases r)
    case (Inl e)
    with a s s' Cons.prems have "file_run H st cs = (st', acc)" by simp
    with Cons.IH Cons.prems(1) show ?thesis by blast
  next
    case (Inr p)
    with a have "received H m (sofar @ [fc_data c]) s" and o: "unat (fc_offset c) = length (concat sofar)" by auto
    from Cons.IH [OF this(1) s'] o Inr s s' Cons.prems(2) show ?thesis
      by (auto simp: contiguous_Cons)
  qed
qed

lemma file_start_received:
  assumes "file_start H m mx permitted resume = Inr st"
    and "\<forall>rs. resume = Some rs \<longrightarrow>
      frs_hasher rs = foldl (hash_update H) (hash_new H) pre \<and> unat (frs_offset rs) = length (concat pre)"
    and "resume = None \<longrightarrow> pre = []"
  shows "received H m pre st \<and> permitted \<and> validate_file_metadata m mx = Inr ()"
proof -
  from assms(1) have v: "permitted" "validate_file_metadata m mx = Inr ()"
    by (auto simp: file_start_def split: if_splits sum.splits)
  then have "unat (fm_resume_offset m) \<le> unat (fm_file_size m)"
    by (auto simp: validate_file_metadata_def not_less word_le_nat_alt split: sum.splits if_splits)
  with assms v show ?thesis
    by (auto simp: file_start_def received_def split: if_splits sum.splits option.splits)
qed

section \<open>Properties\<close>

text \<open>
  Exactness of the file metadata codec. A payload is accepted, with given
  metadata and under a size policy, if and only if the identifiers have their lengths, the
  name is valid UTF-8, and encoding that metadata under the same policy succeeds and gives
  exactly that payload; in particular every accepted name passed the file name policy.
\<close>

lemma file_metadata_codec_exact:
  "decode_file_metadata payload max_file_bytes = Inr m \<longleftrightarrow>
     length (fm_transfer_id m) = 16 \<and> length (fm_sha256 m) = 32 \<and> utf8_valid (fm_file_name m) \<and>
     encode_file_metadata m max_file_bytes = Inr payload"
  using file_metadata_codec.dec_iff [of payload max_file_bytes m] by (auto simp: file_metadata_ok_def)

text \<open>
  Exactness of the chunk and cancel codecs, in the same sense.
\<close>

lemma file_chunk_cancel_codec_exact:
  "(decode_file_chunk payload = Inr chunk \<longleftrightarrow>
      length (fc_transfer_id chunk) = 16 \<and> encode_file_chunk chunk = Inr payload) \<and>
   (decode_file_cancel payload' = Inr (transfer_id, reason) \<longleftrightarrow>
      length transfer_id = 16 \<and> encode_file_cancel transfer_id reason = Inr payload')"
  using file_chunk_codec.dec_iff [of payload chunk] file_cancel_codec by blast

text \<open>
  Property C24: integrity of a finished transfer. Start a receiver, fresh or resuming after the
  already hashed pieces \<open>pre\<close>, and offer it any chunks. The chunks it accepts are contiguous
  from the resume offset and never exceed the announced size; and \<open>finish\<close> succeeds, with the
  metadata it was started with, if and only if the prefix and the accepted data have exactly
  the announced size and the announced hash.
\<close>

theorem file_transfer_integrity:
  assumes "streaming_hash H digest"
    and "file_start H metadata max_file_bytes permitted resume = Inr st0"
    and "\<forall>rs. resume = Some rs \<longrightarrow>
      frs_hasher rs = foldl (hash_update H) (hash_new H) pre \<and> unat (frs_offset rs) = length (concat pre)"
    and "resume = None \<longrightarrow> pre = []"
    and "file_run H st0 offered = (st, accepted)"
  shows "contiguous_from (length (concat pre)) accepted \<and>
     length (concat (pre @ map fc_data accepted)) \<le> unat (fm_file_size metadata) \<and>
     (file_finish H st = Inr m \<longleftrightarrow> m = metadata \<and>
        length (concat (pre @ map fc_data accepted)) = unat (fm_file_size metadata) \<and>
        digest (concat (pre @ map fc_data accepted)) = fm_sha256 metadata)"
proof -
  from file_start_received [OF assms(2-4)] have "received H metadata pre st0" by simp
  from file_run_received [OF this assms(5)]
  have r: "received H metadata (pre @ map fc_data accepted) st"
    and c: "contiguous_from (length (concat pre)) accepted" by auto
  have "hash_finalize H (fr_hasher st) = digest (concat (pre @ map fc_data accepted))"
    using assms(1) r unfolding streaming_hash_def received_def by metis
  moreover have "fr_expected_offset st = fm_file_size metadata \<longleftrightarrow>
      length (concat (pre @ map fc_data accepted)) = unat (fm_file_size metadata)"
    using r unfolding received_def by (metis word_unat_eq_iff)
  ultimately show ?thesis using r c unfolding file_finish_def received_def by auto
qed

text \<open>A resumed transfer of six bytes with a hasher that counts bytes.\<close>

definition counting_hasher :: "bytes hasher" where
  "counting_hasher = \<lparr>hash_new = [], hash_update = (@),
     hash_finalize = (\<lambda>h. replicate 32 (of_nat (length h)))\<rparr>"

lemma counting_hasher_streaming: "streaming_hash counting_hasher (\<lambda>d. replicate 32 (of_nat (length d)))"
proof -
  have "foldl (@) h ps = h @ concat ps" for h :: bytes and ps by (induction ps arbitrary: h) auto
  then show ?thesis by (simp add: streaming_hash_def counting_hasher_def)
qed

definition sample_file :: file_transfer_metadata where
  "sample_file = \<lparr>fm_transfer_id = replicate 16 1, fm_file_name = [97], fm_file_size = 6,
     fm_resume_offset = 2, fm_sha256 = replicate 32 6\<rparr>"

lemma sample_file_valid: "validate_file_metadata sample_file 100 = Inr ()"
proof -
  have "str_chars [97] = [97]" by (simp add: str_chars_def utf8_one)
  then have "validate_file_name [97] = Inr ()"
    by (simp add: validate_file_name_def MAX_FILE_NAME_BYTES_def is_control_def)
  then show ?thesis
    by (simp add: validate_file_metadata_def sample_file_def validate_transfer_id_def list_all_iff)
qed

lemma sample_file_resume: "fm_resume_offset sample_file = 2"
  by (simp add: sample_file_def)

definition sample_receiver :: "bytes \<Rightarrow> u64 \<Rightarrow> bytes file_receiver" where
  "sample_receiver h n = \<lparr>fr_metadata = sample_file, fr_expected_offset = n, fr_hasher = h,
     fr_cancelled = False\<rparr>"

definition sample_chunk :: file_chunk where
  "sample_chunk = \<lparr>fc_transfer_id = replicate 16 1, fc_offset = 2, fc_data = [1, 2, 3, 4]\<rparr>"

lemma sample_file_start:
  "file_start counting_hasher sample_file 100 True (Some \<lparr>frs_offset = 2, frs_hasher = [8, 8]\<rparr>)
     = Inr (sample_receiver [8, 8] 2)"
  by (simp add: file_start_def sample_file_valid sample_file_resume sample_receiver_def)

lemma sample_file_run:
  "file_run counting_hasher (sample_receiver [8, 8] 2) [sample_chunk]
     = (sample_receiver [8, 8, 1, 2, 3, 4] 6, [sample_chunk])"
  by (simp add: accept_chunk_def sample_receiver_def sample_chunk_def sample_file_def
      MAX_FILE_CHUNK_BYTES_def checked_add_def counting_hasher_def Let_def)

theorem file_transfer_integrity_witness:
  "file_start counting_hasher sample_file 100 True (Some \<lparr>frs_offset = 2, frs_hasher = [8, 8]\<rparr>)
     = Inr (sample_receiver [8, 8] 2) \<and>
   file_run counting_hasher (sample_receiver [8, 8] 2) [sample_chunk]
     = (sample_receiver [8, 8, 1, 2, 3, 4] 6, [sample_chunk]) \<and>
   contiguous_from 2 [sample_chunk] \<and>
   file_finish counting_hasher (sample_receiver [8, 8, 1, 2, 3, 4] 6) = Inr sample_file"
proof -
  have *: "contiguous_from (length (concat [[8, 8] :: bytes])) [sample_chunk] \<and>
     length (concat ([[8, 8]] @ map fc_data [sample_chunk])) \<le> unat (fm_file_size sample_file) \<and>
     (file_finish counting_hasher (sample_receiver [8, 8, 1, 2, 3, 4] 6) = Inr sample_file \<longleftrightarrow>
        sample_file = sample_file \<and>
        length (concat ([[8, 8]] @ map fc_data [sample_chunk])) = unat (fm_file_size sample_file) \<and>
        replicate 32 (of_nat (length (concat ([[8, 8]] @ map fc_data [sample_chunk])))) = fm_sha256 sample_file)"
    by (rule file_transfer_integrity
        [OF counting_hasher_streaming sample_file_start _ _ sample_file_run])
      (simp_all add: counting_hasher_def)
  moreover have len: "length (concat [[8, 8] :: bytes]) = 2" by simp
  ultimately have "contiguous_from 2 [sample_chunk]" unfolding len by blast
  moreover from * have "file_finish counting_hasher (sample_receiver [8, 8, 1, 2, 3, 4] 6) = Inr sample_file"
    by (simp add: sample_file_def sample_chunk_def)
  ultimately show ?thesis using sample_file_start sample_file_run by simp
qed

end
