(* ===== verification/Session.thy ===== *)
theory Session
  imports Video_Datagram Audio_Datagram
begin

text \<open>
  Session negotiation (\<open>src/transport/session.rs\<close>): offers, the agreement computed from two
  offers, the acceptance message, their codecs and validation.
\<close>

section \<open>Constants and data\<close>

definition SESSION_OFFER_HEADER_LEN :: usize where "SESSION_OFFER_HEADER_LEN = 32"
definition SESSION_AGREEMENT_LEN :: usize where "SESSION_AGREEMENT_LEN = 28"
definition SESSION_ACCEPTANCE_HEADER_LEN :: usize where "SESSION_ACCEPTANCE_HEADER_LEN = 4"
definition MAX_OFFERED_VIDEO_CODECS :: usize where "MAX_OFFERED_VIDEO_CODECS = 8"
definition MAX_OFFERED_AUDIO_CODECS :: usize where "MAX_OFFERED_AUDIO_CODECS = 4"
definition COLOR_I420 :: u16 where "COLOR_I420 = push_bit 0 1"
definition COLOR_I444 :: u16 where "COLOR_I444 = push_bit 1 1"
definition COLOR_NV12 :: u16 where "COLOR_NV12 = push_bit 2 1"
definition COLOR_P010 :: u16 where "COLOR_P010 = push_bit 3 1"
definition KNOWN_COLOR_FORMATS :: u16 where
  "KNOWN_COLOR_FORMATS = COLOR_I420 OR COLOR_I444 OR COLOR_NV12 OR COLOR_P010"
definition CAP_HDR :: u16 where "CAP_HDR = push_bit 0 1"
definition CAP_CLIPBOARD_SEND :: u16 where "CAP_CLIPBOARD_SEND = push_bit 1 1"
definition CAP_CLIPBOARD_RECEIVE :: u16 where "CAP_CLIPBOARD_RECEIVE = push_bit 2 1"
definition CAP_FILE_TRANSFER :: u16 where "CAP_FILE_TRANSFER = push_bit 3 1"
definition CAP_INPUT_SEND :: u16 where "CAP_INPUT_SEND = push_bit 4 1"
definition CAP_INPUT_RECEIVE :: u16 where "CAP_INPUT_RECEIVE = push_bit 5 1"
definition CAP_RELIABLE_KEYFRAMES :: u16 where "CAP_RELIABLE_KEYFRAMES = push_bit 6 1"
definition CAP_RELIABLE_KEYFRAME_BARRIER :: u16 where "CAP_RELIABLE_KEYFRAME_BARRIER = push_bit 7 1"
definition KNOWN_CAPABILITIES :: u16 where
  "KNOWN_CAPABILITIES = CAP_HDR OR CAP_CLIPBOARD_SEND OR CAP_CLIPBOARD_RECEIVE OR
     CAP_FILE_TRANSFER OR CAP_INPUT_SEND OR CAP_INPUT_RECEIVE OR CAP_RELIABLE_KEYFRAMES OR
     CAP_RELIABLE_KEYFRAME_BARRIER"

datatype latency_mode = Balanced | LowLatency | Quality

datatype color_format = I420 | I444 | Nv12 | P010

datatype session_error =
    OfferHeaderTruncated
  | SessionLengthMismatch
  | SessionInvalidReservedField
  | InvalidProtocolRange
  | IncompatibleProtocol
  | InvalidCapabilities u16
  | InvalidColorFormats u16
  | InvalidVideoCodecs
  | InvalidAudioCodecs
  | IncompatibleVideoCodec
  | IncompatibleAudioCodec
  | IncompatibleColorFormat
  | InvalidGeometry
  | InvalidDatagramSize
  | InvalidBitrate
  | SessionUnknownVideoCodec u8
  | SessionUnknownAudioCodec u8
  | UnknownColorFormat u8
  | InvalidLatencyMode u8
  | InvalidAgreement

fun latency_code :: "latency_mode \<Rightarrow> u8" where
  "latency_code Balanced = 1"
| "latency_code LowLatency = 2"
| "latency_code Quality = 3"

definition latency_try_from :: "u8 \<Rightarrow> session_error + latency_mode" where
  "latency_try_from v =
     (if v = 1 then Inr Balanced else if v = 2 then Inr LowLatency else if v = 3 then Inr Quality
      else Inl (InvalidLatencyMode v))"

text \<open>The code written by \<open>encode_session_agreement\<close>.\<close>

fun color_code :: "color_format \<Rightarrow> u8" where
  "color_code I420 = 1"
| "color_code I444 = 2"
| "color_code Nv12 = 3"
| "color_code P010 = 4"

definition color_try_from :: "u8 \<Rightarrow> session_error + color_format" where
  "color_try_from v =
     (if v = 1 then Inr I420 else if v = 2 then Inr I444 else if v = 3 then Inr Nv12
      else if v = 4 then Inr P010 else Inl (UnknownColorFormat v))"

fun color_mask :: "color_format \<Rightarrow> u16" where
  "color_mask I420 = COLOR_I420"
| "color_mask I444 = COLOR_I444"
| "color_mask Nv12 = COLOR_NV12"
| "color_mask P010 = COLOR_P010"

record session_offer =
  so_minimum_protocol_version :: u16
  so_maximum_protocol_version :: u16
  so_capabilities :: u16
  so_latency_mode :: latency_mode
  so_video_codecs :: "video_codec list"
  so_audio_codecs :: "audio_codec list"
  so_color_formats :: u16
  so_max_width :: u16
  so_max_height :: u16
  so_max_fps :: u16
  so_max_datagram_payload :: u16
  so_max_video_bitrate_kbps :: u32
  so_max_file_bitrate_kbps :: u32

record session_agreement =
  sa_protocol_version :: u16
  sa_video_codec :: video_codec
  sa_audio_codec :: audio_codec
  sa_color_format :: color_format
  sa_hdr :: bool
  sa_max_width :: u16
  sa_max_height :: u16
  sa_max_fps :: u16
  sa_max_datagram_payload :: u16
  sa_max_video_bitrate_kbps :: u32
  sa_max_file_bitrate_kbps :: u32
  sa_latency_mode :: latency_mode
  sa_local_may_send_clipboard :: bool
  sa_remote_may_send_clipboard :: bool
  sa_file_transfer_enabled :: bool
  sa_local_may_send_input :: bool
  sa_remote_may_send_input :: bool
  sa_reliable_keyframes :: bool
  sa_reliable_keyframe_barrier :: bool

section \<open>Validation\<close>

definition cap :: "u16 \<Rightarrow> u16 \<Rightarrow> bool" where
  "cap flags flag \<longleftrightarrow> flags AND flag \<noteq> 0"

fun contains_duplicates :: "u8 set \<Rightarrow> u8 list \<Rightarrow> bool" where
  "contains_duplicates seen [] = False"
| "contains_duplicates seen (v # vs) = (v \<in> seen \<or> contains_duplicates (insert v seen) vs)"

definition validate_offer :: "session_offer \<Rightarrow> session_error + unit" where
  "validate_offer offer =
     (if so_minimum_protocol_version offer = 0
         \<or> so_maximum_protocol_version offer < so_minimum_protocol_version offer
        then Inl InvalidProtocolRange
      else if so_capabilities offer AND NOT KNOWN_CAPABILITIES \<noteq> 0
        then Inl (InvalidCapabilities (so_capabilities offer))
      else if so_color_formats offer = 0 \<or> so_color_formats offer AND NOT KNOWN_COLOR_FORMATS \<noteq> 0
        then Inl (InvalidColorFormats (so_color_formats offer))
      else if so_video_codecs offer = []
           \<or> length (so_video_codecs offer) > MAX_OFFERED_VIDEO_CODECS
           \<or> contains_duplicates {} (map video_codec_code (so_video_codecs offer))
        then Inl InvalidVideoCodecs
      else if so_audio_codecs offer = []
           \<or> length (so_audio_codecs offer) > MAX_OFFERED_AUDIO_CODECS
           \<or> contains_duplicates {} (map audio_codec_code (so_audio_codecs offer))
        then Inl InvalidAudioCodecs
      else if \<not> (320 \<le> so_max_width offer \<and> so_max_width offer \<le> 16384)
           \<or> \<not> (200 \<le> so_max_height offer \<and> so_max_height offer \<le> 16384)
           \<or> \<not> (1 \<le> so_max_fps offer \<and> so_max_fps offer \<le> 240)
        then Inl InvalidGeometry
      else if \<not> (256 \<le> so_max_datagram_payload offer \<and> so_max_datagram_payload offer \<le> 65000)
        then Inl InvalidDatagramSize
      else if so_max_video_bitrate_kbps offer = 0 \<or> so_max_video_bitrate_kbps offer > 1000000
        then Inl InvalidBitrate
      else if cap (so_capabilities offer) CAP_FILE_TRANSFER \<and> so_max_file_bitrate_kbps offer = 0
        then Inl InvalidBitrate
      else if cap (so_capabilities offer) CAP_RELIABLE_KEYFRAME_BARRIER
           \<and> \<not> cap (so_capabilities offer) CAP_RELIABLE_KEYFRAMES
        then Inl (InvalidCapabilities (so_capabilities offer))
      else Inr ())"

definition validate_agreement_fields :: "session_agreement \<Rightarrow> session_error + unit" where
  "validate_agreement_fields a =
     (if sa_protocol_version a = 0
         \<or> \<not> (320 \<le> sa_max_width a \<and> sa_max_width a \<le> 16384)
         \<or> \<not> (200 \<le> sa_max_height a \<and> sa_max_height a \<le> 16384)
         \<or> \<not> (1 \<le> sa_max_fps a \<and> sa_max_fps a \<le> 240)
         \<or> \<not> (256 \<le> sa_max_datagram_payload a \<and> sa_max_datagram_payload a \<le> 65000)
         \<or> sa_max_video_bitrate_kbps a = 0
         \<or> sa_max_video_bitrate_kbps a > 1000000
         \<or> (sa_file_transfer_enabled a \<and> sa_max_file_bitrate_kbps a = 0)
         \<or> (sa_hdr a \<and> sa_color_format a \<noteq> P010)
         \<or> (sa_reliable_keyframe_barrier a \<and> \<not> sa_reliable_keyframes a)
      then Inl InvalidAgreement else Inr ())"

definition validate_agreement_for_offer ::
    "session_agreement \<Rightarrow> session_offer \<Rightarrow> session_error + unit" where
  "validate_agreement_for_offer a offer =
     (case validate_offer offer of
        Inl e \<Rightarrow> Inl e
      | Inr _ \<Rightarrow>
        (case validate_agreement_fields a of
           Inl e \<Rightarrow> Inl e
         | Inr _ \<Rightarrow>
           if \<not> (so_minimum_protocol_version offer \<le> sa_protocol_version a
                 \<and> sa_protocol_version a \<le> so_maximum_protocol_version offer)
              \<or> sa_video_codec a \<notin> set (so_video_codecs offer)
              \<or> sa_audio_codec a \<notin> set (so_audio_codecs offer)
              \<or> so_color_formats offer AND color_mask (sa_color_format a) = 0
              \<or> sa_max_width a > so_max_width offer
              \<or> sa_max_height a > so_max_height offer
              \<or> sa_max_fps a > so_max_fps offer
              \<or> sa_max_datagram_payload a > so_max_datagram_payload offer
              \<or> sa_max_video_bitrate_kbps a > so_max_video_bitrate_kbps offer
              \<or> sa_max_file_bitrate_kbps a > so_max_file_bitrate_kbps offer
              \<or> (sa_hdr a \<and> \<not> cap (so_capabilities offer) CAP_HDR)
              \<or> (sa_local_may_send_clipboard a \<and> \<not> cap (so_capabilities offer) CAP_CLIPBOARD_SEND)
              \<or> (sa_remote_may_send_clipboard a \<and> \<not> cap (so_capabilities offer) CAP_CLIPBOARD_RECEIVE)
              \<or> (sa_file_transfer_enabled a \<and> \<not> cap (so_capabilities offer) CAP_FILE_TRANSFER)
              \<or> (sa_local_may_send_input a \<and> \<not> cap (so_capabilities offer) CAP_INPUT_SEND)
              \<or> (sa_remote_may_send_input a \<and> \<not> cap (so_capabilities offer) CAP_INPUT_RECEIVE)
              \<or> (sa_reliable_keyframes a \<and> \<not> cap (so_capabilities offer) CAP_RELIABLE_KEYFRAMES)
              \<or> (sa_reliable_keyframe_barrier a
                 \<and> \<not> cap (so_capabilities offer) CAP_RELIABLE_KEYFRAME_BARRIER)
           then Inl InvalidAgreement else Inr ()))"

section \<open>Negotiation\<close>

definition choose_color :: "u16 \<Rightarrow> bool \<Rightarrow> color_format option" where
  "choose_color common_colors hdr =
     map_option fst
       (List.find (\<lambda>(format, allowed). allowed \<and> common_colors AND color_mask format \<noteq> 0)
          [(P010, hdr), (I444, True), (Nv12, True), (I420, True)])"

definition negotiate_session :: "session_offer \<Rightarrow> session_offer \<Rightarrow> session_error + session_agreement" where
  "negotiate_session local remote =
     (case validate_offer local of
        Inl e \<Rightarrow> Inl e
      | Inr _ \<Rightarrow>
      (case validate_offer remote of
        Inl e \<Rightarrow> Inl e
      | Inr _ \<Rightarrow>
        (let minimum_version =
               max (so_minimum_protocol_version local) (so_minimum_protocol_version remote);
             protocol_version =
               min (so_maximum_protocol_version local) (so_maximum_protocol_version remote) in
         if protocol_version < minimum_version then Inl IncompatibleProtocol
         else case List.find (\<lambda>codec. codec \<in> set (so_video_codecs remote)) (so_video_codecs local) of
           None \<Rightarrow> Inl IncompatibleVideoCodec
         | Some video_codec \<Rightarrow>
         (case List.find (\<lambda>codec. codec \<in> set (so_audio_codecs remote)) (so_audio_codecs local) of
           None \<Rightarrow> Inl IncompatibleAudioCodec
         | Some audio_codec \<Rightarrow>
           (let common_colors = so_color_formats local AND so_color_formats remote;
                lc = so_capabilities local;
                rc = so_capabilities remote;
                hdr = cap (lc AND rc) CAP_HDR in
            case choose_color common_colors hdr of
              None \<Rightarrow> Inl IncompatibleColorFormat
            | Some color_format \<Rightarrow> Inr
                \<lparr>sa_protocol_version = protocol_version,
                 sa_video_codec = video_codec,
                 sa_audio_codec = audio_codec,
                 sa_color_format = color_format,
                 sa_hdr = (hdr \<and> color_format = P010),
                 sa_max_width = min (so_max_width local) (so_max_width remote),
                 sa_max_height = min (so_max_height local) (so_max_height remote),
                 sa_max_fps = min (so_max_fps local) (so_max_fps remote),
                 sa_max_datagram_payload =
                   min (so_max_datagram_payload local) (so_max_datagram_payload remote),
                 sa_max_video_bitrate_kbps =
                   min (so_max_video_bitrate_kbps local) (so_max_video_bitrate_kbps remote),
                 sa_max_file_bitrate_kbps =
                   min (so_max_file_bitrate_kbps local) (so_max_file_bitrate_kbps remote),
                 sa_latency_mode =
                   (if so_latency_mode local = LowLatency \<or> so_latency_mode remote = LowLatency
                    then LowLatency else so_latency_mode local),
                 sa_local_may_send_clipboard =
                   (cap lc CAP_CLIPBOARD_SEND \<and> cap rc CAP_CLIPBOARD_RECEIVE),
                 sa_remote_may_send_clipboard =
                   (cap rc CAP_CLIPBOARD_SEND \<and> cap lc CAP_CLIPBOARD_RECEIVE),
                 sa_file_transfer_enabled = cap (lc AND rc) CAP_FILE_TRANSFER,
                 sa_local_may_send_input = (cap lc CAP_INPUT_SEND \<and> cap rc CAP_INPUT_RECEIVE),
                 sa_remote_may_send_input = (cap rc CAP_INPUT_SEND \<and> cap lc CAP_INPUT_RECEIVE),
                 sa_reliable_keyframes = cap (lc AND rc) CAP_RELIABLE_KEYFRAMES,
                 sa_reliable_keyframe_barrier = cap (lc AND rc) CAP_RELIABLE_KEYFRAME_BARRIER\<rparr>)))))"

definition validate_session_acceptance ::
    "session_offer \<Rightarrow> session_offer \<Rightarrow> session_agreement \<Rightarrow> session_error + unit" where
  "validate_session_acceptance client_offer server_offer agreement =
     (case negotiate_session client_offer server_offer of
        Inl e \<Rightarrow> Inl e
      | Inr expected \<Rightarrow>
        if expected \<noteq> agreement then Inl InvalidAgreement
        else validate_agreement_for_offer agreement client_offer)"

section \<open>Codecs\<close>

definition encode_session_offer :: "session_offer \<Rightarrow> session_error + bytes" where
  "encode_session_offer offer =
     (case validate_offer offer of
        Inl e \<Rightarrow> Inl e
      | Inr _ \<Rightarrow> Inr
          (u16_be (so_minimum_protocol_version offer) @ u16_be (so_maximum_protocol_version offer) @
           u16_be (so_capabilities offer) @ [latency_code (so_latency_mode offer)] @
           [of_nat (length (so_video_codecs offer))] @ [of_nat (length (so_audio_codecs offer))] @
           [0] @ u16_be (so_color_formats offer) @ u16_be (so_max_width offer) @
           u16_be (so_max_height offer) @ u16_be (so_max_fps offer) @
           u16_be (so_max_datagram_payload offer) @ u32_be (so_max_video_bitrate_kbps offer) @
           u32_be (so_max_file_bitrate_kbps offer) @ u32_be 0 @
           map video_codec_code (so_video_codecs offer) @
           map audio_codec_code (so_audio_codecs offer)))"

definition offered_video_codec :: "u8 \<Rightarrow> session_error + video_codec" where
  "offered_video_codec v = map_err (\<lambda>_. SessionUnknownVideoCodec v) (video_codec_try_from v)"

definition offered_audio_codec :: "u8 \<Rightarrow> session_error + audio_codec" where
  "offered_audio_codec v = map_err (\<lambda>_. SessionUnknownAudioCodec v) (audio_codec_try_from v)"

definition decode_session_offer :: "bytes \<Rightarrow> session_error + session_offer" where
  "decode_session_offer payload =
     (if length payload < SESSION_OFFER_HEADER_LEN then Inl OfferHeaderTruncated
      else if payload ! 9 \<noteq> 0 \<or> read_u16 payload 28 \<noteq> 0 \<or> read_u16 payload 30 \<noteq> 0
        then Inl SessionInvalidReservedField
      else
        (let video_count = unat (payload ! 7);
             audio_count = unat (payload ! 8);
             video_start = SESSION_OFFER_HEADER_LEN;
             audio_start = video_start + video_count in
         if length payload \<noteq> SESSION_OFFER_HEADER_LEN + video_count + audio_count
           then Inl SessionLengthMismatch
         else case map_result offered_video_codec (byte_slice payload video_start audio_start) of
           Inl e \<Rightarrow> Inl e
         | Inr video_codecs \<Rightarrow>
         (case map_result offered_audio_codec (drop audio_start payload) of
           Inl e \<Rightarrow> Inl e
         | Inr audio_codecs \<Rightarrow>
         (case latency_try_from (payload ! 6) of
           Inl e \<Rightarrow> Inl e
         | Inr latency_mode \<Rightarrow>
           (let offer =
                  \<lparr>so_minimum_protocol_version = read_u16 payload 0,
                   so_maximum_protocol_version = read_u16 payload 2,
                   so_capabilities = read_u16 payload 4,
                   so_latency_mode = latency_mode,
                   so_video_codecs = video_codecs,
                   so_audio_codecs = audio_codecs,
                   so_color_formats = read_u16 payload 10,
                   so_max_width = read_u16 payload 12,
                   so_max_height = read_u16 payload 14,
                   so_max_fps = read_u16 payload 16,
                   so_max_datagram_payload = read_u16 payload 18,
                   so_max_video_bitrate_kbps = read_u32 payload 20,
                   so_max_file_bitrate_kbps = read_u32 payload 24\<rparr> in
            (case validate_offer offer of Inl e \<Rightarrow> Inl e | Inr _ \<Rightarrow> Inr offer))))))"

definition agreement_flags :: "session_agreement \<Rightarrow> u16" where
  "agreement_flags a =
     foldl (\<lambda>flags (enabled, flag). if enabled then flags OR flag else flags) 0
       [(sa_hdr a, CAP_HDR),
        (sa_local_may_send_clipboard a, CAP_CLIPBOARD_SEND),
        (sa_remote_may_send_clipboard a, CAP_CLIPBOARD_RECEIVE),
        (sa_file_transfer_enabled a, CAP_FILE_TRANSFER),
        (sa_local_may_send_input a, CAP_INPUT_SEND),
        (sa_remote_may_send_input a, CAP_INPUT_RECEIVE),
        (sa_reliable_keyframes a, CAP_RELIABLE_KEYFRAMES),
        (sa_reliable_keyframe_barrier a, CAP_RELIABLE_KEYFRAME_BARRIER)]"

definition encode_session_agreement :: "session_agreement \<Rightarrow> session_error + bytes" where
  "encode_session_agreement a =
     (case validate_agreement_fields a of
        Inl e \<Rightarrow> Inl e
      | Inr _ \<Rightarrow> Inr
          (copy_at 20 (u32_be (sa_max_file_bitrate_kbps a))
          (copy_at 16 (u32_be (sa_max_video_bitrate_kbps a))
          (copy_at 14 (u16_be (sa_max_datagram_payload a))
          (copy_at 12 (u16_be (sa_max_fps a))
          (copy_at 10 (u16_be (sa_max_height a))
          (copy_at 8 (u16_be (sa_max_width a))
          (copy_at 6 (u16_be (agreement_flags a))
          (copy_at 5 [latency_code (sa_latency_mode a)]
          (copy_at 4 [color_code (sa_color_format a)]
          (copy_at 3 [audio_codec_code (sa_audio_codec a)]
          (copy_at 2 [video_codec_code (sa_video_codec a)]
          (copy_at 0 (u16_be (sa_protocol_version a))
             (replicate SESSION_AGREEMENT_LEN 0))))))))))))))"

definition decode_session_agreement :: "bytes \<Rightarrow> session_error + session_agreement" where
  "decode_session_agreement payload =
     (if length payload \<noteq> SESSION_AGREEMENT_LEN then Inl SessionLengthMismatch
      else if read_u32 payload 24 \<noteq> 0 then Inl SessionInvalidReservedField
      else
        (let flags = read_u16 payload 6 in
         if flags AND NOT KNOWN_CAPABILITIES \<noteq> 0 then Inl InvalidAgreement
         else case color_try_from (payload ! 4) of
           Inl e \<Rightarrow> Inl e
         | Inr color_format \<Rightarrow>
         (case offered_video_codec (payload ! 2) of
           Inl e \<Rightarrow> Inl e
         | Inr video_codec \<Rightarrow>
         (case offered_audio_codec (payload ! 3) of
           Inl e \<Rightarrow> Inl e
         | Inr audio_codec \<Rightarrow>
         (case latency_try_from (payload ! 5) of
           Inl e \<Rightarrow> Inl e
         | Inr latency_mode \<Rightarrow>
           (let agreement =
                  \<lparr>sa_protocol_version = read_u16 payload 0,
                   sa_video_codec = video_codec,
                   sa_audio_codec = audio_codec,
                   sa_color_format = color_format,
                   sa_hdr = cap flags CAP_HDR,
                   sa_max_width = read_u16 payload 8,
                   sa_max_height = read_u16 payload 10,
                   sa_max_fps = read_u16 payload 12,
                   sa_max_datagram_payload = read_u16 payload 14,
                   sa_max_video_bitrate_kbps = read_u32 payload 16,
                   sa_max_file_bitrate_kbps = read_u32 payload 20,
                   sa_latency_mode = latency_mode,
                   sa_local_may_send_clipboard = cap flags CAP_CLIPBOARD_SEND,
                   sa_remote_may_send_clipboard = cap flags CAP_CLIPBOARD_RECEIVE,
                   sa_file_transfer_enabled = cap flags CAP_FILE_TRANSFER,
                   sa_local_may_send_input = cap flags CAP_INPUT_SEND,
                   sa_remote_may_send_input = cap flags CAP_INPUT_RECEIVE,
                   sa_reliable_keyframes = cap flags CAP_RELIABLE_KEYFRAMES,
                   sa_reliable_keyframe_barrier = cap flags CAP_RELIABLE_KEYFRAME_BARRIER\<rparr> in
            (case validate_agreement_fields agreement of
               Inl e \<Rightarrow> Inl e | Inr _ \<Rightarrow> Inr agreement)))))))"

definition encode_session_acceptance ::
    "session_offer \<Rightarrow> session_agreement \<Rightarrow> session_error + bytes" where
  "encode_session_acceptance server_offer agreement =
     (case encode_session_offer server_offer of
        Inl e \<Rightarrow> Inl e
      | Inr encoded_offer \<Rightarrow>
      (case encode_session_agreement agreement of
        Inl e \<Rightarrow> Inl e
      | Inr encoded_agreement \<Rightarrow>
      (case word_try_from (length encoded_offer) :: u16 option of
        None \<Rightarrow> Inl SessionLengthMismatch
      | Some offer_len \<Rightarrow>
          Inr (u16_be offer_len @ u16_be 0 @ encoded_offer @ encoded_agreement))))"

definition decode_session_acceptance :: "bytes \<Rightarrow> session_error + (session_offer \<times> session_agreement)" where
  "decode_session_acceptance payload =
     (if length payload < SESSION_ACCEPTANCE_HEADER_LEN + SESSION_AGREEMENT_LEN
        then Inl OfferHeaderTruncated
      else if read_u16 payload 2 \<noteq> 0 then Inl SessionInvalidReservedField
      else
        (let offer_len = unat (read_u16 payload 0);
             expected_len = SESSION_ACCEPTANCE_HEADER_LEN + offer_len + SESSION_AGREEMENT_LEN in
         if expected_len > usize_max then Inl SessionLengthMismatch
         else if offer_len < SESSION_OFFER_HEADER_LEN \<or> length payload \<noteq> expected_len
           then Inl SessionLengthMismatch
         else
           (let offer_end = SESSION_ACCEPTANCE_HEADER_LEN + offer_len in
            case decode_session_offer (byte_slice payload SESSION_ACCEPTANCE_HEADER_LEN offer_end) of
              Inl e \<Rightarrow> Inl e
            | Inr offer \<Rightarrow>
            (case decode_session_agreement (drop offer_end payload) of
              Inl e \<Rightarrow> Inl e
            | Inr agreement \<Rightarrow> Inr (offer, agreement)))))"

end
