(* ===== verification/Session_Properties.thy ===== *)
theory Session_Properties
  imports Session Video_Fragmentation Audio_Playout
begin

text \<open>
  Correctness of session negotiation: an agreement respects both offers and passes both
  validations, negotiation is symmetric, the client's acceptance check is exactly the
  negotiation, and the three codecs are exact.
\<close>

section \<open>Codes and flags\<close>

interpretation latency: enum_code latency_code latency_try_from
proof
  show "latency_try_from (latency_code x) = Inr x" for x
    by (cases x) (simp_all add: latency_try_from_def)
  show "latency_try_from w = Inr x \<Longrightarrow> latency_code x = w" for w x
    by (auto simp: latency_try_from_def split: if_splits)
qed

interpretation color: enum_code color_code color_try_from
proof
  show "color_try_from (color_code x) = Inr x" for x
    by (cases x) (simp_all add: color_try_from_def)
  show "color_try_from w = Inr x \<Longrightarrow> color_code x = w" for w x
    by (auto simp: color_try_from_def split: if_splits)
qed

interpretation offered_video: enum_code video_codec_code offered_video_codec
  by unfold_locales (auto simp: offered_video_codec_def video_codec.try_from_iff)

interpretation offered_audio: enum_code audio_codec_code offered_audio_codec
proof
  show "offered_audio_codec (audio_codec_code x) = Inr x" for x
    by (cases x) (simp add: offered_audio_codec_def audio_codec_try_from_def)
  show "offered_audio_codec w = Inr x \<Longrightarrow> audio_codec_code x = w" for w x
    by (auto simp: offered_audio_codec_def audio_codec_try_from_def split: if_splits)
qed

lemma contains_duplicates_iff:
  "contains_duplicates seen vs \<longleftrightarrow> \<not> distinct vs \<or> set vs \<inter> seen \<noteq> {}"
  by (induction vs arbitrary: seen) auto

lemmas cap_defs = CAP_HDR_def CAP_CLIPBOARD_SEND_def CAP_CLIPBOARD_RECEIVE_def CAP_FILE_TRANSFER_def
  CAP_INPUT_SEND_def CAP_INPUT_RECEIVE_def CAP_RELIABLE_KEYFRAMES_def CAP_RELIABLE_KEYFRAME_BARRIER_def

lemma cap_bit: "cap flags (push_bit n 1) \<longleftrightarrow> bit flags n"
  by (simp add: cap_def push_bit_of_1 and_exp_eq_0_iff_not_bit)

lemma cap_flag_bits:
  "cap flags CAP_HDR \<longleftrightarrow> bit flags 0" "cap flags CAP_CLIPBOARD_SEND \<longleftrightarrow> bit flags 1"
  "cap flags CAP_CLIPBOARD_RECEIVE \<longleftrightarrow> bit flags 2" "cap flags CAP_FILE_TRANSFER \<longleftrightarrow> bit flags 3"
  "cap flags CAP_INPUT_SEND \<longleftrightarrow> bit flags 4" "cap flags CAP_INPUT_RECEIVE \<longleftrightarrow> bit flags 5"
  "cap flags CAP_RELIABLE_KEYFRAMES \<longleftrightarrow> bit flags 6"
  "cap flags CAP_RELIABLE_KEYFRAME_BARRIER \<longleftrightarrow> bit flags 7"
  unfolding cap_defs by (simp_all only: cap_bit)

lemma known_capabilities_mask: "KNOWN_CAPABILITIES = mask 8"
  by (simp add: KNOWN_CAPABILITIES_def cap_defs mask_eq_exp_minus_1)

lemma unknown_capabilities:
  "(flags :: u16) AND NOT KNOWN_CAPABILITIES = 0 \<longleftrightarrow> (\<forall>n. bit flags n \<longrightarrow> n < 8)"
proof -
  have lim: "bit flags n \<Longrightarrow> n < 16" for n using bit_imp_le_length [of flags n] by simp
  have "flags AND NOT (mask 8) = 0 \<longleftrightarrow> (\<forall>n. \<not> bit (flags AND NOT (mask 8)) n)"
    by (metis bit_0_eq bit_eqI bot_apply bot_bool_def)
  also have "\<dots> \<longleftrightarrow> (\<forall>n. bit flags n \<longrightarrow> n < 8)"
    using lim by (auto simp: bit_and_iff bit_not_iff bit_mask_iff)
  finally show ?thesis by (simp add: known_capabilities_mask)
qed

section \<open>Negotiation\<close>

lemma validate_offer_facts:
  assumes "validate_offer o' = Inr u"
  shows "so_minimum_protocol_version o' \<noteq> 0"
    and "so_minimum_protocol_version o' \<le> so_maximum_protocol_version o'"
    and "so_capabilities o' AND NOT KNOWN_CAPABILITIES = 0"
    and "320 \<le> so_max_width o'" "so_max_width o' \<le> 16384"
    and "200 \<le> so_max_height o'" "so_max_height o' \<le> 16384"
    and "1 \<le> so_max_fps o'" "so_max_fps o' \<le> 240"
    and "256 \<le> so_max_datagram_payload o'" "so_max_datagram_payload o' \<le> 65000"
    and "so_max_video_bitrate_kbps o' \<noteq> 0" "so_max_video_bitrate_kbps o' \<le> 1000000"
    and "cap (so_capabilities o') CAP_FILE_TRANSFER \<Longrightarrow> so_max_file_bitrate_kbps o' \<noteq> 0"
    and "cap (so_capabilities o') CAP_RELIABLE_KEYFRAME_BARRIER \<Longrightarrow>
      cap (so_capabilities o') CAP_RELIABLE_KEYFRAMES"
    and "length (so_video_codecs o') \<le> 8" and "length (so_audio_codecs o') \<le> 4"
  using assms
  by (auto simp: validate_offer_def MAX_OFFERED_VIDEO_CODECS_def MAX_OFFERED_AUDIO_CODECS_def not_less
      split: if_splits)

lemma choose_color_Some:
  assumes "choose_color (a AND b) hdr = Some c"
  shows "a AND color_mask c \<noteq> 0" and "b AND color_mask c \<noteq> 0"
proof -
  from assms have "(a AND b) AND color_mask c \<noteq> 0"
    by (auto simp: choose_color_def split: if_splits)
  moreover have "(a AND b) AND color_mask c = b AND (a AND color_mask c)"
    "(a AND b) AND color_mask c = a AND (b AND color_mask c)"
    by (simp_all only: and.assoc and.left_commute)
  ultimately show "a AND color_mask c \<noteq> 0" and "b AND color_mask c \<noteq> 0" by auto
qed

lemma choose_color_sym: "choose_color (a AND b) h = choose_color (b AND a) h"
  by (simp add: and.commute)

text \<open>The agreement as the other side sees it.\<close>

definition mirror :: "session_agreement \<Rightarrow> session_agreement" where
  "mirror a = a\<lparr>sa_local_may_send_clipboard := sa_remote_may_send_clipboard a,
                sa_remote_may_send_clipboard := sa_local_may_send_clipboard a,
                sa_local_may_send_input := sa_remote_may_send_input a,
                sa_remote_may_send_input := sa_local_may_send_input a\<rparr>"

lemma validate_fields_mirror [simp]: "validate_agreement_fields (mirror a) = validate_agreement_fields a"
  by (simp add: validate_agreement_fields_def mirror_def)

lemma min_nonzero: "(a :: 'a::len word) \<noteq> 0 \<Longrightarrow> b \<noteq> 0 \<Longrightarrow> min a b \<noteq> 0"
  by (simp add: min_def)

lemma negotiate_fields_ok:
  assumes "negotiate_session l r = Inr a"
  shows "validate_agreement_fields a = Inr ()"
proof -
  from assms obtain u v where l: "validate_offer l = Inr u" and r: "validate_offer r = Inr v"
    by (auto simp: negotiate_session_def split: sum.splits)
  from assms l r obtain vc ac cf where
    ver: "max (so_minimum_protocol_version l) (so_minimum_protocol_version r)
      \<le> min (so_maximum_protocol_version l) (so_maximum_protocol_version r)"
    and a: "sa_protocol_version a = min (so_maximum_protocol_version l) (so_maximum_protocol_version r)"
      "sa_max_width a = min (so_max_width l) (so_max_width r)"
      "sa_max_height a = min (so_max_height l) (so_max_height r)"
      "sa_max_fps a = min (so_max_fps l) (so_max_fps r)"
      "sa_max_datagram_payload a = min (so_max_datagram_payload l) (so_max_datagram_payload r)"
      "sa_max_video_bitrate_kbps a = min (so_max_video_bitrate_kbps l) (so_max_video_bitrate_kbps r)"
      "sa_max_file_bitrate_kbps a = min (so_max_file_bitrate_kbps l) (so_max_file_bitrate_kbps r)"
      "sa_hdr a \<longrightarrow> sa_color_format a = P010"
      "sa_file_transfer_enabled a = cap (so_capabilities l AND so_capabilities r) CAP_FILE_TRANSFER"
      "sa_reliable_keyframes a = cap (so_capabilities l AND so_capabilities r) CAP_RELIABLE_KEYFRAMES"
      "sa_reliable_keyframe_barrier a
         = cap (so_capabilities l AND so_capabilities r) CAP_RELIABLE_KEYFRAME_BARRIER"
    by (auto simp: negotiate_session_def Let_def not_less split: if_splits option.splits)
  note lf = validate_offer_facts [OF l] and rf = validate_offer_facts [OF r]
  have "sa_protocol_version a \<noteq> 0"
    using ver a(1) lf(1) by (metis max.boundedE word_le_0_iff)
  moreover have "sa_file_transfer_enabled a \<longrightarrow> sa_max_file_bitrate_kbps a \<noteq> 0"
    using lf(14) rf(14) by (simp add: a cap_flag_bits bit_and_iff min_def)
  moreover have "sa_reliable_keyframe_barrier a \<longrightarrow> sa_reliable_keyframes a"
    using lf(15) rf(15) by (simp add: a cap_flag_bits bit_and_iff)
  ultimately show ?thesis
    unfolding validate_agreement_fields_def
    using lf rf a(8) by (auto simp: a(2-7) min_le_iff_disj not_less dest: min_nonzero)
qed

lemma negotiate_valid_local:
  assumes n: "negotiate_session l r = Inr a"
  shows "validate_agreement_for_offer a l = Inr ()"
proof -
  from n obtain u v where l: "validate_offer l = Inr u" and r: "validate_offer r = Inr v"
    by (auto simp: negotiate_session_def split: sum.splits)
  from n l r obtain vc ac cf where
    ver: "max (so_minimum_protocol_version l) (so_minimum_protocol_version r)
      \<le> min (so_maximum_protocol_version l) (so_maximum_protocol_version r)"
    and vc: "List.find (\<lambda>codec. codec \<in> set (so_video_codecs r)) (so_video_codecs l) = Some (sa_video_codec a)"
    and ac: "List.find (\<lambda>codec. codec \<in> set (so_audio_codecs r)) (so_audio_codecs l) = Some (sa_audio_codec a)"
    and cf: "choose_color (so_color_formats l AND so_color_formats r)
      (cap (so_capabilities l AND so_capabilities r) CAP_HDR) = Some (sa_color_format a)"
    by (auto simp: negotiate_session_def Let_def not_less split: if_splits option.splits)
  note facts = find_mem [OF vc] find_mem [OF ac] choose_color_Some(1) [OF cf]
  have u: "validate_offer l = Inr ()" using l by simp
  show ?thesis
    unfolding validate_agreement_for_offer_def u negotiate_fields_ok [OF n] sum.case
    using n l r ver facts
    by (auto simp: negotiate_session_def Let_def cap_flag_bits bit_and_iff not_less
        split: if_splits option.splits)
qed

lemma negotiate_valid_remote:
  assumes n: "negotiate_session l r = Inr a"
  shows "validate_agreement_for_offer (mirror a) r = Inr ()"
proof -
  from n obtain u v where l: "validate_offer l = Inr u" and r: "validate_offer r = Inr v"
    by (auto simp: negotiate_session_def split: sum.splits)
  from n l r obtain vc ac cf where
    ver: "max (so_minimum_protocol_version l) (so_minimum_protocol_version r)
      \<le> min (so_maximum_protocol_version l) (so_maximum_protocol_version r)"
    and vc: "List.find (\<lambda>codec. codec \<in> set (so_video_codecs r)) (so_video_codecs l) = Some (sa_video_codec a)"
    and ac: "List.find (\<lambda>codec. codec \<in> set (so_audio_codecs r)) (so_audio_codecs l) = Some (sa_audio_codec a)"
    and cf: "choose_color (so_color_formats l AND so_color_formats r)
      (cap (so_capabilities l AND so_capabilities r) CAP_HDR) = Some (sa_color_format a)"
    by (auto simp: negotiate_session_def Let_def not_less split: if_splits option.splits)
  note facts = find_mem [OF vc] find_mem [OF ac] choose_color_Some(2) [OF cf]
  have v: "validate_offer r = Inr ()" using r by simp
  show ?thesis
    unfolding validate_agreement_for_offer_def v validate_fields_mirror negotiate_fields_ok [OF n] sum.case
    using n l r ver facts
    by (auto simp: negotiate_session_def Let_def cap_flag_bits bit_and_iff not_less mirror_def
        split: if_splits option.splits)
qed

lemma find_common_some:
  assumes "List.find (\<lambda>x. x \<in> set ys) xs = Some z"
  shows "\<exists>w. List.find (\<lambda>x. x \<in> set xs) ys = Some w"
proof (rule ccontr)
  assume "\<not> ?thesis"
  then have "List.find (\<lambda>x. x \<in> set xs) ys = None" by simp
  with find_mem [OF assms] show False by (auto simp: find_None_iff)
qed

text \<open>
  Swapping the two offers keeps success. Only the codecs and the latency mode, which
  follow the order of preference of the first offer, may then differ.
\<close>

definition same_terms :: "session_agreement \<Rightarrow> session_agreement \<Rightarrow> bool" where
  "same_terms a b \<longleftrightarrow>
     b\<lparr>sa_video_codec := sa_video_codec a, sa_audio_codec := sa_audio_codec a,
       sa_latency_mode := sa_latency_mode a\<rparr> = a"

lemma negotiate_swap:
  assumes n: "negotiate_session l r = Inr a"
  shows "\<exists>b. negotiate_session r l = Inr b \<and> same_terms (mirror a) b"
proof -
  from n obtain u v where l: "validate_offer l = Inr u" and r: "validate_offer r = Inr v"
    by (auto simp: negotiate_session_def split: sum.splits)
  from n l r obtain vc ac where
    vc: "List.find (\<lambda>codec. codec \<in> set (so_video_codecs r)) (so_video_codecs l) = Some vc"
    and ac: "List.find (\<lambda>codec. codec \<in> set (so_audio_codecs r)) (so_audio_codecs l) = Some ac"
    by (auto simp: negotiate_session_def Let_def not_less split: if_splits option.splits)
  from find_common_some [OF vc] find_common_some [OF ac] obtain vc' ac' where
    "List.find (\<lambda>codec. codec \<in> set (so_video_codecs l)) (so_video_codecs r) = Some vc'"
    "List.find (\<lambda>codec. codec \<in> set (so_audio_codecs l)) (so_audio_codecs r) = Some ac'" by blast
  with n l r vc ac show ?thesis
    by (auto simp: negotiate_session_def Let_def not_less max.commute min.commute
        and.commute [of "so_color_formats r"] and.commute [of "so_capabilities r"]
        same_terms_def mirror_def
        split: if_splits option.splits)
qed

lemma validate_acceptance_iff:
  "validate_session_acceptance c s a = Inr () \<longleftrightarrow> negotiate_session c s = Inr a"
  using negotiate_valid_local [of c s a]
  by (auto simp: validate_session_acceptance_def split: sum.splits if_splits)

section \<open>Codecs\<close>

lemma session_offer_eta:
  "\<lparr>so_minimum_protocol_version = so_minimum_protocol_version p,
    so_maximum_protocol_version = so_maximum_protocol_version p,
    so_capabilities = so_capabilities p, so_latency_mode = so_latency_mode p,
    so_video_codecs = so_video_codecs p, so_audio_codecs = so_audio_codecs p,
    so_color_formats = so_color_formats p, so_max_width = so_max_width p,
    so_max_height = so_max_height p, so_max_fps = so_max_fps p,
    so_max_datagram_payload = so_max_datagram_payload p,
    so_max_video_bitrate_kbps = so_max_video_bitrate_kbps p,
    so_max_file_bitrate_kbps = so_max_file_bitrate_kbps p\<rparr> = p"
  by simp

lemma decode_encode_offer:
  assumes "encode_session_offer p = Inr bs"
  shows "decode_session_offer bs = Inr p"
proof -
  from assms obtain u where v: "validate_offer p = Inr u"
    by (auto simp: encode_session_offer_def split: sum.splits)
  then have v': "validate_offer p = Inr ()" by simp
  have n: "unat (of_nat (length (so_video_codecs p)) :: u8) = length (so_video_codecs p)"
    "unat (of_nat (length (so_audio_codecs p)) :: u8) = length (so_audio_codecs p)"
    using validate_offer_facts(16,17) [OF v] by (auto intro!: unat_of_nat_exact)
  have codes: "map_result offered_video_codec (map video_codec_code cs) = Inr cs"
    "map_result offered_audio_codec (map audio_codec_code ds) = Inr ds" for cs ds
    by (auto intro!: map_result_map offered_video.try_from_code offered_audio.try_from_code)
  from assms v' have bs: "bs = u16_be (so_minimum_protocol_version p) @ u16_be (so_maximum_protocol_version p) @
           u16_be (so_capabilities p) @ [latency_code (so_latency_mode p)] @
           [of_nat (length (so_video_codecs p))] @ [of_nat (length (so_audio_codecs p))] @
           [0] @ u16_be (so_color_formats p) @ u16_be (so_max_width p) @
           u16_be (so_max_height p) @ u16_be (so_max_fps p) @
           u16_be (so_max_datagram_payload p) @ u32_be (so_max_video_bitrate_kbps p) @
           u32_be (so_max_file_bitrate_kbps p) @ u16_be 0 @ u16_be 0 @
           map video_codec_code (so_video_codecs p) @
           map audio_codec_code (so_audio_codecs p)"
    by (simp add: encode_session_offer_def u32_be_zero u16_be_zero)
  show ?thesis
    unfolding bs
    by (simp add: decode_session_offer_def SESSION_OFFER_HEADER_LEN_def Let_def wire_simps n codes
        latency.try_from_code session_offer_eta v' cong: if_cong sum.case_cong)
qed

lemma encode_decode_offer:
  assumes "decode_session_offer bs = Inr p"
  shows "encode_session_offer p = Inr bs"
proof -
  let ?n = "unat (bs ! 7)" and ?m = "unat (bs ! 8)"
  from assms obtain vs as lm where
    len: "length bs = 32 + ?n + ?m"
    and z: "bs ! 9 = 0" "read_u16 bs 28 = 0" "read_u16 bs 30 = 0"
    and vs: "map_result offered_video_codec (byte_slice bs 32 (32 + ?n)) = Inr vs"
    and as: "map_result offered_audio_codec (drop (32 + ?n) bs) = Inr as"
    and lm: "latency_try_from (bs ! 6) = Inr lm"
    and v: "validate_offer p = Inr ()"
    and p: "p = \<lparr>so_minimum_protocol_version = read_u16 bs 0, so_maximum_protocol_version = read_u16 bs 2,
      so_capabilities = read_u16 bs 4, so_latency_mode = lm, so_video_codecs = vs, so_audio_codecs = as,
      so_color_formats = read_u16 bs 10, so_max_width = read_u16 bs 12, so_max_height = read_u16 bs 14,
      so_max_fps = read_u16 bs 16, so_max_datagram_payload = read_u16 bs 18,
      so_max_video_bitrate_kbps = read_u32 bs 20, so_max_file_bitrate_kbps = read_u32 bs 24\<rparr>"
    by (auto simp: decode_session_offer_def Let_def SESSION_OFFER_HEADER_LEN_def
        split: if_splits sum.splits)
  have codes: "map video_codec_code vs = byte_slice bs 32 (32 + ?n)"
    "map audio_codec_code as = drop (32 + ?n) bs"
    using vs as by (auto intro: map_result_inverse offered_video.try_from_sound offered_audio.try_from_sound)
  have lens: "length vs = ?n" "length as = ?m"
    using arg_cong [OF codes(1), of length] arg_cong [OF codes(2), of length] len
    by (simp_all add: length_slice)
  have head: "bs = u16_be (read_u16 bs 0) @ drop 2 bs"
    using len cut_u16 [of 0 bs] by (simp add: numeral_2_eq_2)
  have "bs = u16_be (read_u16 bs 0) @ u16_be (read_u16 bs 2) @ u16_be (read_u16 bs 4) @
      bs ! 6 # bs ! 7 # bs ! 8 # bs ! 9 # drop 10 bs"
    using len head cut_u16 [of 2 bs] cut_u16 [of 4 bs] cut_u8 [of 6 bs] cut_u8 [of 7 bs]
      cut_u8 [of 8 bs] cut_u8 [of 9 bs] by simp
  moreover have "drop 10 bs = u16_be (read_u16 bs 10) @ u16_be (read_u16 bs 12) @ u16_be (read_u16 bs 14) @
      u16_be (read_u16 bs 16) @ u16_be (read_u16 bs 18) @ u32_be (read_u32 bs 20) @ u32_be (read_u32 bs 24) @
      u16_be (read_u16 bs 28) @ u16_be (read_u16 bs 30) @ byte_slice bs 32 (32 + ?n) @ drop (32 + ?n) bs"
    using len cut_u16 [of 10 bs] cut_u16 [of 12 bs] cut_u16 [of 14 bs] cut_u16 [of 16 bs] cut_u16 [of 18 bs]
      cut_u32 [of 20 bs] cut_u32 [of 24 bs] cut_u16 [of 28 bs] cut_u16 [of 30 bs]
      cut_slice [of 32 "32 + ?n" bs] by simp
  moreover have "latency_code lm = bs ! 6" using lm by (rule latency.try_from_sound)
  ultimately show ?thesis
    using v z codes lens by (simp add: encode_session_offer_def p u32_be_zero u16_be_zero)
qed

interpretation session_offer_codec: wire_codec "\<lambda>_. True" encode_session_offer decode_session_offer
  by unfold_locales (auto simp: decode_encode_offer dest: encode_decode_offer)

lemma copy_at_fill:
  "length xs = at \<Longrightarrow> length src \<le> n \<Longrightarrow>
     copy_at at src (xs @ replicate n 0) = (xs @ src) @ replicate (n - length src) 0"
  by (simp add: copy_at_def)

lemma copy_at_fill_first:
  "length src \<le> n \<Longrightarrow> copy_at 0 src (replicate n 0) = src @ replicate (n - length src) 0"
  using copy_at_fill [of "[]" 0] by simp

lemma encode_agreement_eq_Inr:
  "encode_session_agreement a = Inr bs \<longleftrightarrow>
     validate_agreement_fields a = Inr () \<and>
     bs = u16_be (sa_protocol_version a) @ [video_codec_code (sa_video_codec a),
       audio_codec_code (sa_audio_codec a), color_code (sa_color_format a),
       latency_code (sa_latency_mode a)] @ u16_be (agreement_flags a) @ u16_be (sa_max_width a) @
       u16_be (sa_max_height a) @ u16_be (sa_max_fps a) @ u16_be (sa_max_datagram_payload a) @
       u32_be (sa_max_video_bitrate_kbps a) @ u32_be (sa_max_file_bitrate_kbps a) @ u32_be 0"
proof -
  have z: "replicate 4 (0 :: u8) = u32_be 0" by (simp add: u32_be_zero numeral_eq_Suc)
  have "encode_session_agreement a =
      (case validate_agreement_fields a of Inl e \<Rightarrow> Inl e | Inr _ \<Rightarrow> Inr
        ((((((((((((u16_be (sa_protocol_version a) @ [video_codec_code (sa_video_codec a)]) @
          [audio_codec_code (sa_audio_codec a)]) @ [color_code (sa_color_format a)]) @
          [latency_code (sa_latency_mode a)]) @ u16_be (agreement_flags a)) @ u16_be (sa_max_width a)) @
          u16_be (sa_max_height a)) @ u16_be (sa_max_fps a)) @ u16_be (sa_max_datagram_payload a)) @
          u32_be (sa_max_video_bitrate_kbps a)) @ u32_be (sa_max_file_bitrate_kbps a)) @ replicate 4 0))"
    unfolding encode_session_agreement_def SESSION_AGREEMENT_LEN_def
    by (simp add: copy_at_fill copy_at_fill_first del: append_assoc cong: sum.case_cong)
  then show ?thesis by (auto simp: z split: sum.splits)
qed

lemma bit_agreement_flags:
  "bit (agreement_flags a) n \<longleftrightarrow>
     n = 0 \<and> sa_hdr a \<or> n = 1 \<and> sa_local_may_send_clipboard a \<or>
     n = 2 \<and> sa_remote_may_send_clipboard a \<or> n = 3 \<and> sa_file_transfer_enabled a \<or>
     n = 4 \<and> sa_local_may_send_input a \<or> n = 5 \<and> sa_remote_may_send_input a \<or>
     n = 6 \<and> sa_reliable_keyframes a \<or> n = 7 \<and> sa_reliable_keyframe_barrier a"
proof -
  have one: "bit (if c then f OR push_bit k 1 else f) n \<longleftrightarrow> bit f n \<or> n = k \<and> c"
    if "k < 16" for c k and f :: u16
    using that by (auto simp: bit_or_iff push_bit_of_1 bit_exp_iff)
  show ?thesis
    unfolding agreement_flags_def cap_defs foldl.simps prod.case
    by (simp only: one) auto
qed

lemma session_agreement_eta:
  "\<lparr>sa_protocol_version = sa_protocol_version a, sa_video_codec = sa_video_codec a,
    sa_audio_codec = sa_audio_codec a, sa_color_format = sa_color_format a, sa_hdr = sa_hdr a,
    sa_max_width = sa_max_width a, sa_max_height = sa_max_height a, sa_max_fps = sa_max_fps a,
    sa_max_datagram_payload = sa_max_datagram_payload a,
    sa_max_video_bitrate_kbps = sa_max_video_bitrate_kbps a,
    sa_max_file_bitrate_kbps = sa_max_file_bitrate_kbps a, sa_latency_mode = sa_latency_mode a,
    sa_local_may_send_clipboard = sa_local_may_send_clipboard a,
    sa_remote_may_send_clipboard = sa_remote_may_send_clipboard a,
    sa_file_transfer_enabled = sa_file_transfer_enabled a,
    sa_local_may_send_input = sa_local_may_send_input a,
    sa_remote_may_send_input = sa_remote_may_send_input a,
    sa_reliable_keyframes = sa_reliable_keyframes a,
    sa_reliable_keyframe_barrier = sa_reliable_keyframe_barrier a\<rparr> = a"
  by simp

lemma decode_encode_agreement:
  assumes "encode_session_agreement a = Inr bs"
  shows "decode_session_agreement bs = Inr a"
proof -
  have flags: "agreement_flags a AND NOT KNOWN_CAPABILITIES = 0"
    by (auto simp: unknown_capabilities bit_agreement_flags)
  have caps: "cap (agreement_flags a) CAP_HDR = sa_hdr a"
    "cap (agreement_flags a) CAP_CLIPBOARD_SEND = sa_local_may_send_clipboard a"
    "cap (agreement_flags a) CAP_CLIPBOARD_RECEIVE = sa_remote_may_send_clipboard a"
    "cap (agreement_flags a) CAP_FILE_TRANSFER = sa_file_transfer_enabled a"
    "cap (agreement_flags a) CAP_INPUT_SEND = sa_local_may_send_input a"
    "cap (agreement_flags a) CAP_INPUT_RECEIVE = sa_remote_may_send_input a"
    "cap (agreement_flags a) CAP_RELIABLE_KEYFRAMES = sa_reliable_keyframes a"
    "cap (agreement_flags a) CAP_RELIABLE_KEYFRAME_BARRIER = sa_reliable_keyframe_barrier a"
    by (simp_all add: cap_flag_bits bit_agreement_flags)
  show ?thesis
    using assms unfolding encode_agreement_eq_Inr
    by (simp add: decode_session_agreement_def SESSION_AGREEMENT_LEN_def Let_def wire_simps flags caps
        color.try_from_code offered_video.try_from_code offered_audio.try_from_code latency.try_from_code
        session_agreement_eta cong: if_cong sum.case_cong)
qed

lemma encode_decode_agreement:
  assumes "decode_session_agreement bs = Inr a"
  shows "encode_session_agreement a = Inr bs"
proof -
  let ?f = "read_u16 bs 6"
  from assms obtain vc ac cf lm where
    len: "length bs = 28" and z: "read_u32 bs 24 = 0"
    and f: "?f AND NOT KNOWN_CAPABILITIES = 0"
    and codes: "color_try_from (bs ! 4) = Inr cf" "offered_video_codec (bs ! 2) = Inr vc"
      "offered_audio_codec (bs ! 3) = Inr ac" "latency_try_from (bs ! 5) = Inr lm"
    and v: "validate_agreement_fields a = Inr ()"
    and a: "a = \<lparr>sa_protocol_version = read_u16 bs 0, sa_video_codec = vc, sa_audio_codec = ac,
      sa_color_format = cf, sa_hdr = cap ?f CAP_HDR, sa_max_width = read_u16 bs 8,
      sa_max_height = read_u16 bs 10, sa_max_fps = read_u16 bs 12,
      sa_max_datagram_payload = read_u16 bs 14, sa_max_video_bitrate_kbps = read_u32 bs 16,
      sa_max_file_bitrate_kbps = read_u32 bs 20, sa_latency_mode = lm,
      sa_local_may_send_clipboard = cap ?f CAP_CLIPBOARD_SEND,
      sa_remote_may_send_clipboard = cap ?f CAP_CLIPBOARD_RECEIVE,
      sa_file_transfer_enabled = cap ?f CAP_FILE_TRANSFER,
      sa_local_may_send_input = cap ?f CAP_INPUT_SEND,
      sa_remote_may_send_input = cap ?f CAP_INPUT_RECEIVE,
      sa_reliable_keyframes = cap ?f CAP_RELIABLE_KEYFRAMES,
      sa_reliable_keyframe_barrier = cap ?f CAP_RELIABLE_KEYFRAME_BARRIER\<rparr>"
    by (auto simp: decode_session_agreement_def Let_def SESSION_AGREEMENT_LEN_def
        split: if_splits sum.splits)
  have flags: "agreement_flags a = ?f"
  proof (rule bit_word_eqI)
    fix n
    have "bit ?f n \<Longrightarrow> n < 8" using f by (simp add: unknown_capabilities)
    moreover have "n < 8 \<Longrightarrow> n \<in> {0, 1, 2, 3, 4, 5, 6, 7}" by auto
    ultimately show "bit (agreement_flags a) n = bit ?f n"
      by (auto simp: bit_agreement_flags a cap_flag_bits)
  qed
  have head: "bs = u16_be (read_u16 bs 0) @ drop 2 bs"
    using len cut_u16 [of 0 bs] by (simp add: numeral_2_eq_2)
  have "bs = u16_be (read_u16 bs 0) @ bs ! 2 # bs ! 3 # bs ! 4 # bs ! 5 # u16_be ?f @ drop 8 bs"
    using len head cut_u8 [of 2 bs] cut_u8 [of 3 bs] cut_u8 [of 4 bs] cut_u8 [of 5 bs] cut_u16 [of 6 bs]
    by simp
  moreover have "drop 8 bs = u16_be (read_u16 bs 8) @ u16_be (read_u16 bs 10) @ u16_be (read_u16 bs 12) @
      u16_be (read_u16 bs 14) @ u32_be (read_u32 bs 16) @ u32_be (read_u32 bs 20) @ u32_be 0"
    using len z cut_u16 [of 8 bs] cut_u16 [of 10 bs] cut_u16 [of 12 bs] cut_u16 [of 14 bs]
      cut_u32 [of 16 bs] cut_u32 [of 20 bs] cut_u32 [of 24 bs] by simp
  moreover note color.try_from_sound [OF codes(1)] offered_video.try_from_sound [OF codes(2)]
    offered_audio.try_from_sound [OF codes(3)] latency.try_from_sound [OF codes(4)]
  ultimately show ?thesis
    unfolding encode_agreement_eq_Inr flags using v by (simp add: a)
qed

interpretation session_agreement_codec: wire_codec "\<lambda>_. True"
  encode_session_agreement decode_session_agreement
  by unfold_locales (auto simp: decode_encode_agreement dest: encode_decode_agreement)

lemma length_encode_offer:
  assumes "encode_session_offer p = Inr bs"
  shows "length bs = 32 + length (so_video_codecs p) + length (so_audio_codecs p)"
    and "length (so_video_codecs p) \<le> 8" and "length (so_audio_codecs p) \<le> 4"
proof -
  from assms obtain u where v: "validate_offer p = Inr u"
    by (auto simp: encode_session_offer_def split: sum.splits)
  with assms show "length bs = 32 + length (so_video_codecs p) + length (so_audio_codecs p)"
    by (auto simp: encode_session_offer_def)
  show "length (so_video_codecs p) \<le> 8" "length (so_audio_codecs p) \<le> 4"
    using validate_offer_facts(16,17) [OF v] by auto
qed

lemma length_encode_agreement: "encode_session_agreement a = Inr bs \<Longrightarrow> length bs = 28"
  by (simp add: encode_agreement_eq_Inr)

lemma decode_encode_acceptance:
  assumes "encode_session_acceptance p a = Inr bs"
  shows "decode_session_acceptance bs = Inr (p, a)"
proof -
  from assms obtain po pa where po: "encode_session_offer p = Inr po"
    and pa: "encode_session_agreement a = Inr pa"
    by (auto simp: encode_session_acceptance_def split: sum.splits)
  note lo = length_encode_offer [OF po] and la = length_encode_agreement [OF pa]
  have n: "unat (of_nat (length po) :: u16) = length po"
    using lo by (intro unat_of_nat_exact) simp
  from lo have "word_try_from (length po) = Some (of_nat (length po) :: u16)"
    by (simp add: word_try_from_def)
  with assms po pa have bs: "bs = u16_be (of_nat (length po)) @ u16_be 0 @ po @ pa"
    by (simp add: encode_session_acceptance_def)
  have "byte_slice bs 4 (4 + length po) = po" "drop (4 + length po) bs = pa"
    "unat (read_u16 bs 0) = length po" "read_u16 bs 2 = 0" "length bs = 32 + length po"
    using la n by (simp_all add: bs byte_slice_def wire_simps)
  moreover have "32 \<le> length po" "length po \<le> 44" using lo by simp_all
  ultimately show ?thesis
    using decode_encode_offer [OF po] decode_encode_agreement [OF pa]
    by (simp add: decode_session_acceptance_def Let_def SESSION_ACCEPTANCE_HEADER_LEN_def
        SESSION_AGREEMENT_LEN_def SESSION_OFFER_HEADER_LEN_def usize_max_def)
qed

lemma encode_decode_acceptance:
  assumes "decode_session_acceptance bs = Inr (p, a)"
  shows "encode_session_acceptance p a = Inr bs"
proof -
  let ?n = "unat (read_u16 bs 0)"
  from assms have z: "read_u16 bs 2 = 0" and len: "length bs = 4 + ?n + 28"
    and po: "decode_session_offer (byte_slice bs 4 (4 + ?n)) = Inr p"
    and pa: "decode_session_agreement (drop (4 + ?n) bs) = Inr a"
    by (auto simp: decode_session_acceptance_def Let_def SESSION_ACCEPTANCE_HEADER_LEN_def
        SESSION_AGREEMENT_LEN_def split: if_splits sum.splits)
  have l: "length (byte_slice bs 4 (4 + ?n)) = ?n" using len by (simp add: length_slice)
  have "word_try_from ?n = Some (read_u16 bs 0)"
    using unat_word_bound [of "read_u16 bs 0"] by (simp add: word_try_from_def)
  moreover have "bs = u16_be (read_u16 bs 0) @ drop 2 bs"
    using len cut_u16 [of 0 bs] by (simp add: numeral_2_eq_2)
  moreover have "drop 2 bs = u16_be 0 @ drop 4 bs" using len z cut_u16 [of 2 bs] by simp
  moreover have "drop 4 bs = byte_slice bs 4 (4 + ?n) @ drop (4 + ?n) bs" by (rule cut_slice) simp
  ultimately show ?thesis
    unfolding encode_session_acceptance_def
    using encode_decode_offer [OF po] encode_decode_agreement [OF pa] l by simp
qed

section \<open>Properties\<close>

text \<open>
  Property C25: an agreement suits both offers. Whenever two offers negotiate to an agreement, it
  passes the field validation and the validation against the first offer, and its mirror image
  passes the validation against the second offer. The client accepts that agreement and no other
  for the two offers, so a server cannot slip in other terms. With the roles swapped the
  negotiation succeeds too, with the same protocol version, sizes, rates, colour format and
  permissions; the two codecs and the latency mode follow the preferences of the offer that comes
  first and may differ.
\<close>

theorem negotiation_suits_both:
  assumes "negotiate_session local remote = Inr a"
  shows "validate_agreement_fields a = Inr () \<and>
    validate_agreement_for_offer a local = Inr () \<and>
    validate_agreement_for_offer (mirror a) remote = Inr () \<and>
    (\<exists>b. negotiate_session remote local = Inr b \<and> same_terms (mirror a) b) \<and>
    (\<forall>b. validate_session_acceptance local remote b = Inr () \<longleftrightarrow> b = a)"
  using negotiate_fields_ok [OF assms] negotiate_valid_local [OF assms]
    negotiate_valid_remote [OF assms] negotiate_swap [OF assms]
  by (auto simp: validate_acceptance_iff assms)

definition sample_offer :: session_offer where
  "sample_offer = \<lparr>so_minimum_protocol_version = 1, so_maximum_protocol_version = 1,
     so_capabilities = 0x5F, so_latency_mode = LowLatency, so_video_codecs = [H264],
     so_audio_codecs = [Opus], so_color_formats = 5, so_max_width = 1920, so_max_height = 1080,
     so_max_fps = 60, so_max_datagram_payload = 1200, so_max_video_bitrate_kbps = 20000,
     so_max_file_bitrate_kbps = 5000\<rparr>"

definition sample_agreement :: session_agreement where
  "sample_agreement = \<lparr>sa_protocol_version = 1, sa_video_codec = H264, sa_audio_codec = Opus,
     sa_color_format = Nv12, sa_hdr = False, sa_max_width = 1920, sa_max_height = 1080,
     sa_max_fps = 60, sa_max_datagram_payload = 1200, sa_max_video_bitrate_kbps = 20000,
     sa_max_file_bitrate_kbps = 5000, sa_latency_mode = LowLatency,
     sa_local_may_send_clipboard = True, sa_remote_may_send_clipboard = True,
     sa_file_transfer_enabled = True, sa_local_may_send_input = False,
     sa_remote_may_send_input = False, sa_reliable_keyframes = True,
     sa_reliable_keyframe_barrier = False\<rparr>"

lemma sample_negotiation: "negotiate_session sample_offer sample_offer = Inr sample_agreement"
  by code_simp

theorem negotiation_suits_both_witness:
  "validate_agreement_for_offer sample_agreement sample_offer = Inr () \<and>
   validate_agreement_for_offer (mirror sample_agreement) sample_offer = Inr ()"
  using negotiation_suits_both [OF sample_negotiation] by blast

text \<open>
  The three session codecs are exact: bytes decode to an offer, an agreement
  or an acceptance exactly when the encoder produces those bytes for it.
\<close>

lemma session_codecs_exact:
  "(decode_session_offer bs = Inr p \<longleftrightarrow> encode_session_offer p = Inr bs) \<and>
   (decode_session_agreement bs = Inr a \<longleftrightarrow> encode_session_agreement a = Inr bs) \<and>
   (decode_session_acceptance bs = Inr (p, a) \<longleftrightarrow> encode_session_acceptance p a = Inr bs)"
  using session_offer_codec.dec_iff [of bs p] session_agreement_codec.dec_iff [of bs a]
    decode_encode_acceptance [of p a bs] encode_decode_acceptance [of bs p a] by auto

end
