(* ===== verification/Reliable.thy ===== *)
theory Reliable
  imports Protocol
begin

text \<open>
  Reliable channels over QUIC streams (\<open>src/transport/reliable.rs\<close>): the stream preface that
  names the channel, length-prefixed messages, and the sequence numbers of both directions.

  The QUIC streams are not part of the sources. A send stream and a receive stream are
  parameters: a state and the operations of \<open>quinn\<close> the code calls. Error texts are
  represented by their cause.
\<close>

section \<open>Constants and data\<close>

definition STREAM_MAGIC :: u32 where "STREAM_MAGIC = 0x52415153"
definition STREAM_PREFACE_LEN :: usize where "STREAM_PREFACE_LEN = 8"
definition MAX_CONTROL_STREAM_MESSAGE :: usize where
  "MAX_CONTROL_STREAM_MESSAGE = HEADER_LEN + 32 * 1024 * 1024"
definition MAX_CLIPBOARD_STREAM_MESSAGE :: usize where
  "MAX_CLIPBOARD_STREAM_MESSAGE = HEADER_LEN + 16 * 1024 * 1024"
definition MAX_FILE_STREAM_MESSAGE :: usize where
  "MAX_FILE_STREAM_MESSAGE = HEADER_LEN + 1024 * 1024"
definition MAX_INPUT_STREAM_MESSAGE :: usize where
  "MAX_INPUT_STREAM_MESSAGE = HEADER_LEN + 4 * 1024"
definition MAX_DIAGNOSTICS_STREAM_MESSAGE :: usize where
  "MAX_DIAGNOSTICS_STREAM_MESSAGE = HEADER_LEN + 64 * 1024"
definition MAX_VIDEO_STREAM_MESSAGE :: usize where
  "MAX_VIDEO_STREAM_MESSAGE = HEADER_LEN + 32 * 1024 * 1024"

lemmas stream_limits =
  MAX_CONTROL_STREAM_MESSAGE_def MAX_CLIPBOARD_STREAM_MESSAGE_def MAX_FILE_STREAM_MESSAGE_def
  MAX_INPUT_STREAM_MESSAGE_def MAX_DIAGNOSTICS_STREAM_MESSAGE_def MAX_VIDEO_STREAM_MESSAGE_def

datatype reliable_channel_kind =
  Kind_Control | Kind_Input | Kind_Clipboard | Kind_FileTransfer | Kind_Diagnostics | Kind_Video

text \<open>The causes behind the texts of \<open>QuicTransportError::ProtocolState\<close> in this file.\<close>

datatype reliable_fault =
    NotReliableChannel channel_id
  | InvalidOnChannel message_type reliable_channel_kind
  | SequenceExhausted
  | MessageExceeds reliable_channel_kind usize
  | MessageLengthOverflow
  | InvalidMessageLength reliable_channel_kind usize
  | ChannelOrSessionChanged
  | DuplicateSequence
  | InvalidPreface

datatype reliable_error =
    StreamFailure string
  | ProtocolState reliable_fault
  | ReliableProtocol protocol_error

fun kind_channel_id :: "reliable_channel_kind \<Rightarrow> channel_id" where
  "kind_channel_id Kind_Control = Ch_Control"
| "kind_channel_id Kind_Input = Ch_ReliableInput"
| "kind_channel_id Kind_Clipboard = Ch_Clipboard"
| "kind_channel_id Kind_FileTransfer = Ch_FileTransfer"
| "kind_channel_id Kind_Diagnostics = Ch_Diagnostics"
| "kind_channel_id Kind_Video = Ch_ReliableVideo"

fun kind_priority :: "reliable_channel_kind \<Rightarrow> int" where
  "kind_priority Kind_Control = 1000"
| "kind_priority Kind_Input = 900"
| "kind_priority Kind_Clipboard = 200"
| "kind_priority Kind_FileTransfer = 100"
| "kind_priority Kind_Diagnostics = 0"
| "kind_priority Kind_Video = 700"

fun max_message_size :: "reliable_channel_kind \<Rightarrow> usize" where
  "max_message_size Kind_Control = MAX_CONTROL_STREAM_MESSAGE"
| "max_message_size Kind_Input = MAX_INPUT_STREAM_MESSAGE"
| "max_message_size Kind_Clipboard = MAX_CLIPBOARD_STREAM_MESSAGE"
| "max_message_size Kind_FileTransfer = MAX_FILE_STREAM_MESSAGE"
| "max_message_size Kind_Diagnostics = MAX_DIAGNOSTICS_STREAM_MESSAGE"
| "max_message_size Kind_Video = MAX_VIDEO_STREAM_MESSAGE"

definition kind_try_from :: "channel_id \<Rightarrow> reliable_error + reliable_channel_kind" where
  "kind_try_from channel =
     (case channel of
        Ch_Control \<Rightarrow> Inr Kind_Control
      | Ch_ReliableInput \<Rightarrow> Inr Kind_Input
      | Ch_Clipboard \<Rightarrow> Inr Kind_Clipboard
      | Ch_FileTransfer \<Rightarrow> Inr Kind_FileTransfer
      | Ch_Diagnostics \<Rightarrow> Inr Kind_Diagnostics
      | Ch_ReliableVideo \<Rightarrow> Inr Kind_Video
      | _ \<Rightarrow> Inl (ProtocolState (NotReliableChannel channel)))"

record reliable_message =
  rm_header :: message_header
  rm_payload :: bytes

text \<open>The operations of a \<open>quinn::SendStream\<close> and a \<open>quinn::RecvStream\<close> the code calls.\<close>

record 's send_stream =
  ss_write_all :: "'s \<Rightarrow> bytes \<Rightarrow> 's \<times> (string + unit)"
  ss_set_priority :: "'s \<Rightarrow> int \<Rightarrow> 's \<times> (string + unit)"
  ss_finish :: "'s \<Rightarrow> 's \<times> (string + unit)"

record 'r recv_stream =
  rs_read_exact :: "'r \<Rightarrow> usize \<Rightarrow> 'r \<times> (string + bytes)"

record ('s, 'r) reliable_channel =
  rc_send :: 's
  rc_receive :: 'r
  rc_kind :: reliable_channel_kind
  rc_session_id :: session_id
  rc_next_outgoing_sequence :: u64
  rc_last_incoming_sequence :: u64

record 's reliable_sender =
  rcs_send :: 's
  rcs_kind :: reliable_channel_kind
  rcs_session_id :: session_id
  rcs_next_outgoing_sequence :: u64

record 'r reliable_receiver =
  rcr_receive :: 'r
  rcr_kind :: reliable_channel_kind
  rcr_session_id :: session_id
  rcr_last_incoming_sequence :: u64

section \<open>The stream preface\<close>

definition encode_stream_preface :: "reliable_channel_kind \<Rightarrow> bytes" where
  "encode_stream_preface kind =
     copy_at 6 [channel_code (kind_channel_id kind)]
       (copy_at 4 (u16_be PROTOCOL_VERSION)
         (copy_at 0 (u32_be STREAM_MAGIC) (replicate STREAM_PREFACE_LEN 0)))"

definition decode_stream_preface :: "bytes \<Rightarrow> reliable_error + reliable_channel_kind" where
  "decode_stream_preface preface =
     (let magic = read_u32 preface 0; version = read_u16 preface 4 in
      if magic \<noteq> STREAM_MAGIC \<or> version \<noteq> PROTOCOL_VERSION \<or> preface ! 7 \<noteq> 0
        then Inl (ProtocolState InvalidPreface)
      else case channel_try_from (preface ! 6) of
        Inl e \<Rightarrow> Inl (ReliableProtocol e)
      | Inr channel \<Rightarrow> kind_try_from channel)"

section \<open>Sending and receiving one message\<close>

definition send_reliable ::
    "'s send_stream \<Rightarrow> 's \<Rightarrow> reliable_channel_kind \<Rightarrow> session_id \<Rightarrow> u64 \<Rightarrow> message_type \<Rightarrow> u16 \<Rightarrow>
     u64 \<Rightarrow> bytes \<Rightarrow> 's \<times> u64 \<times> (reliable_error + u64)" where
  "send_reliable S send kind session_id next_outgoing_sequence message_type flags timestamp payload =
     (if message_channel message_type \<noteq> kind_channel_id kind
        then (send, next_outgoing_sequence, Inl (ProtocolState (InvalidOnChannel message_type kind)))
      else
        (let sequence = next_outgoing_sequence in
         case checked_add sequence 1 of
           None \<Rightarrow> (send, next_outgoing_sequence, Inl (ProtocolState SequenceExhausted))
         | Some next \<Rightarrow>
         (case message_header_new message_type flags session_id sequence (length payload) timestamp of
           Inl e \<Rightarrow> (send, next, Inl (ReliableProtocol e))
         | Inr header \<Rightarrow>
         (case encode_message header payload of
           Inl e \<Rightarrow> (send, next, Inl (ReliableProtocol e))
         | Inr message \<Rightarrow>
           if length message > max_message_size kind
             then (send, next, Inl (ProtocolState (MessageExceeds kind (max_message_size kind))))
           else case word_try_from (length message) :: u32 option of
             None \<Rightarrow> (send, next, Inl (ProtocolState MessageLengthOverflow))
           | Some len \<Rightarrow>
           (case ss_write_all S send (u32_be len) of
             (send', Inl e) \<Rightarrow> (send', next, Inl (StreamFailure e))
           | (send', Inr _) \<Rightarrow>
           (case ss_write_all S send' message of
             (send'', Inl e) \<Rightarrow> (send'', next, Inl (StreamFailure e))
           | (send'', Inr _) \<Rightarrow> (send'', next, Inr sequence)))))))"

text \<open>\<open>read_u32\<close> is \<open>tokio\<close>'s: four bytes, most significant first.\<close>

definition receive_reliable ::
    "'r recv_stream \<Rightarrow> 'r \<Rightarrow> reliable_channel_kind \<Rightarrow> session_id \<Rightarrow> u64 \<Rightarrow>
     'r \<times> u64 \<times> (reliable_error + reliable_message)" where
  "receive_reliable R receive kind session_id last_incoming_sequence =
     (case rs_read_exact R receive 4 of
        (receive', Inl e) \<Rightarrow> (receive', last_incoming_sequence, Inl (StreamFailure e))
      | (receive', Inr word) \<Rightarrow>
        (let len = unat (read_u32 word 0) in
         if len < HEADER_LEN \<or> len > max_message_size kind
           then (receive', last_incoming_sequence, Inl (ProtocolState (InvalidMessageLength kind len)))
         else case rs_read_exact R receive' len of
           (receive'', Inl e) \<Rightarrow> (receive'', last_incoming_sequence, Inl (StreamFailure e))
         | (receive'', Inr encoded) \<Rightarrow>
           (case decode_message encoded of
              Inl e \<Rightarrow> (receive'', last_incoming_sequence, Inl (ReliableProtocol e))
            | Inr parsed \<Rightarrow>
              if mh_channel (pm_header parsed) \<noteq> kind_channel_id kind
                 \<or> mh_session_id (pm_header parsed) \<noteq> session_id
                then (receive'', last_incoming_sequence, Inl (ProtocolState ChannelOrSessionChanged))
              else if mh_sequence_number (pm_header parsed) \<le> last_incoming_sequence
                then (receive'', last_incoming_sequence, Inl (ProtocolState DuplicateSequence))
              else (receive'', mh_sequence_number (pm_header parsed),
                    Inr \<lparr>rm_header = pm_header parsed, rm_payload = pm_payload parsed\<rparr>))))"

section \<open>Channels\<close>

definition channel_new ::
    "'s \<Rightarrow> 'r \<Rightarrow> reliable_channel_kind \<Rightarrow> session_id \<Rightarrow> ('s, 'r) reliable_channel" where
  "channel_new send receive kind session_id =
     \<lparr>rc_send = send, rc_receive = receive, rc_kind = kind, rc_session_id = session_id,
      rc_next_outgoing_sequence = 1, rc_last_incoming_sequence = 0\<rparr>"

text \<open>\<open>opened\<close> and \<open>accepted\<close> are what \<open>open_bi\<close> and \<open>accept_bi\<close> of the connection return.\<close>

definition channel_open ::
    "'s send_stream \<Rightarrow> string + 's \<times> 'r \<Rightarrow> reliable_channel_kind \<Rightarrow> session_id \<Rightarrow>
     reliable_error + ('s, 'r) reliable_channel" where
  "channel_open S opened kind session_id =
     (case opened of
        Inl e \<Rightarrow> Inl (StreamFailure e)
      | Inr (send, receive) \<Rightarrow>
      (case ss_set_priority S send (kind_priority kind) of
        (_, Inl e) \<Rightarrow> Inl (StreamFailure e)
      | (send', Inr _) \<Rightarrow>
      (case ss_write_all S send' (encode_stream_preface kind) of
        (_, Inl e) \<Rightarrow> Inl (StreamFailure e)
      | (send'', Inr _) \<Rightarrow> Inr (channel_new send'' receive kind session_id))))"

definition channel_accept ::
    "'s send_stream \<Rightarrow> 'r recv_stream \<Rightarrow> string + 's \<times> 'r \<Rightarrow> session_id \<Rightarrow>
     reliable_error + ('s, 'r) reliable_channel" where
  "channel_accept S R accepted session_id =
     (case accepted of
        Inl e \<Rightarrow> Inl (StreamFailure e)
      | Inr (send, receive) \<Rightarrow>
      (case rs_read_exact R receive STREAM_PREFACE_LEN of
        (_, Inl e) \<Rightarrow> Inl (StreamFailure e)
      | (receive', Inr preface) \<Rightarrow>
      (case decode_stream_preface preface of
        Inl e \<Rightarrow> Inl e
      | Inr kind \<Rightarrow>
      (case ss_set_priority S send (kind_priority kind) of
        (_, Inl e) \<Rightarrow> Inl (StreamFailure e)
      | (send', Inr _) \<Rightarrow> Inr (channel_new send' receive' kind session_id)))))"

definition channel_into_split ::
    "('s, 'r) reliable_channel \<Rightarrow> 's reliable_sender \<times> 'r reliable_receiver" where
  "channel_into_split ch =
     (\<lparr>rcs_send = rc_send ch, rcs_kind = rc_kind ch, rcs_session_id = rc_session_id ch,
       rcs_next_outgoing_sequence = rc_next_outgoing_sequence ch\<rparr>,
      \<lparr>rcr_receive = rc_receive ch, rcr_kind = rc_kind ch, rcr_session_id = rc_session_id ch,
       rcr_last_incoming_sequence = rc_last_incoming_sequence ch\<rparr>)"

text \<open>\<open>ReliableChannel::send\<close> and \<open>ReliableChannel::receive\<close>, which the code writes out.\<close>

definition channel_send ::
    "'s send_stream \<Rightarrow> ('s, 'r) reliable_channel \<Rightarrow> message_type \<Rightarrow> u16 \<Rightarrow> u64 \<Rightarrow> bytes \<Rightarrow>
     ('s, 'r) reliable_channel \<times> (reliable_error + u64)" where
  "channel_send S ch message_type flags timestamp payload =
     (if message_channel message_type \<noteq> kind_channel_id (rc_kind ch)
        then (ch, Inl (ProtocolState (InvalidOnChannel message_type (rc_kind ch))))
      else
        (let sequence = rc_next_outgoing_sequence ch in
         case checked_add sequence 1 of
           None \<Rightarrow> (ch, Inl (ProtocolState SequenceExhausted))
         | Some next \<Rightarrow>
         (let ch1 = ch\<lparr>rc_next_outgoing_sequence := next\<rparr> in
          case message_header_new message_type flags (rc_session_id ch1) sequence
                 (length payload) timestamp of
            Inl e \<Rightarrow> (ch1, Inl (ReliableProtocol e))
          | Inr header \<Rightarrow>
          (case encode_message header payload of
            Inl e \<Rightarrow> (ch1, Inl (ReliableProtocol e))
          | Inr message \<Rightarrow>
            if length message > max_message_size (rc_kind ch1)
              then (ch1, Inl (ProtocolState
                       (MessageExceeds (rc_kind ch1) (max_message_size (rc_kind ch1)))))
            else case word_try_from (length message) :: u32 option of
              None \<Rightarrow> (ch1, Inl (ProtocolState MessageLengthOverflow))
            | Some len \<Rightarrow>
            (case ss_write_all S (rc_send ch1) (u32_be len) of
              (send', Inl e) \<Rightarrow> (ch1\<lparr>rc_send := send'\<rparr>, Inl (StreamFailure e))
            | (send', Inr _) \<Rightarrow>
            (case ss_write_all S send' message of
              (send'', Inl e) \<Rightarrow> (ch1\<lparr>rc_send := send''\<rparr>, Inl (StreamFailure e))
            | (send'', Inr _) \<Rightarrow> (ch1\<lparr>rc_send := send''\<rparr>, Inr sequence)))))))"

definition channel_receive ::
    "'r recv_stream \<Rightarrow> ('s, 'r) reliable_channel \<Rightarrow>
     ('s, 'r) reliable_channel \<times> (reliable_error + reliable_message)" where
  "channel_receive R ch =
     (case rs_read_exact R (rc_receive ch) 4 of
        (receive', Inl e) \<Rightarrow> (ch\<lparr>rc_receive := receive'\<rparr>, Inl (StreamFailure e))
      | (receive', Inr word) \<Rightarrow>
        (let ch1 = ch\<lparr>rc_receive := receive'\<rparr>; len = unat (read_u32 word 0) in
         if len < HEADER_LEN \<or> len > max_message_size (rc_kind ch1)
           then (ch1, Inl (ProtocolState (InvalidMessageLength (rc_kind ch1) len)))
         else case rs_read_exact R receive' len of
           (receive'', Inl e) \<Rightarrow> (ch1\<lparr>rc_receive := receive''\<rparr>, Inl (StreamFailure e))
         | (receive'', Inr encoded) \<Rightarrow>
           (let ch2 = ch1\<lparr>rc_receive := receive''\<rparr> in
            case decode_message encoded of
              Inl e \<Rightarrow> (ch2, Inl (ReliableProtocol e))
            | Inr parsed \<Rightarrow>
              if mh_channel (pm_header parsed) \<noteq> kind_channel_id (rc_kind ch2)
                 \<or> mh_session_id (pm_header parsed) \<noteq> rc_session_id ch2
                then (ch2, Inl (ProtocolState ChannelOrSessionChanged))
              else if mh_sequence_number (pm_header parsed) \<le> rc_last_incoming_sequence ch2
                then (ch2, Inl (ProtocolState DuplicateSequence))
              else (ch2\<lparr>rc_last_incoming_sequence := mh_sequence_number (pm_header parsed)\<rparr>,
                    Inr \<lparr>rm_header = pm_header parsed, rm_payload = pm_payload parsed\<rparr>))))"

definition channel_finish ::
    "'s send_stream \<Rightarrow> ('s, 'r) reliable_channel \<Rightarrow>
     ('s, 'r) reliable_channel \<times> (reliable_error + unit)" where
  "channel_finish S ch =
     (case ss_finish S (rc_send ch) of
        (send', r) \<Rightarrow> (ch\<lparr>rc_send := send'\<rparr>, map_err StreamFailure r))"

definition sender_send ::
    "'s send_stream \<Rightarrow> 's reliable_sender \<Rightarrow> message_type \<Rightarrow> u16 \<Rightarrow> u64 \<Rightarrow> bytes \<Rightarrow>
     's reliable_sender \<times> (reliable_error + u64)" where
  "sender_send S st message_type flags timestamp payload =
     (case send_reliable S (rcs_send st) (rcs_kind st) (rcs_session_id st)
             (rcs_next_outgoing_sequence st) message_type flags timestamp payload of
        (send', next, r) \<Rightarrow> (st\<lparr>rcs_send := send', rcs_next_outgoing_sequence := next\<rparr>, r))"

definition sender_finish ::
    "'s send_stream \<Rightarrow> 's reliable_sender \<Rightarrow> 's reliable_sender \<times> (reliable_error + unit)" where
  "sender_finish S st =
     (case ss_finish S (rcs_send st) of
        (send', r) \<Rightarrow> (st\<lparr>rcs_send := send'\<rparr>, map_err StreamFailure r))"

definition receiver_receive ::
    "'r recv_stream \<Rightarrow> 'r reliable_receiver \<Rightarrow> 'r reliable_receiver \<times> (reliable_error + reliable_message)" where
  "receiver_receive R st =
     (case receive_reliable R (rcr_receive st) (rcr_kind st) (rcr_session_id st)
             (rcr_last_incoming_sequence st) of
        (receive', last_seq, r) \<Rightarrow>
          (st\<lparr>rcr_receive := receive', rcr_last_incoming_sequence := last_seq\<rparr>, r))"

end
