(* ===== verification/Reliable_Delivery.thy ===== *)
theory Reliable_Delivery
  imports Reliable
begin

text \<open>
  Correctness of the reliable channels: the preface is exact, the split halves behave as the
  joined channel, a receiver never accepts a replay whatever bytes arrive, and over a byte
  stream that keeps what is written the receiver gets exactly the messages that were sent.
\<close>

section \<open>Preface\<close>

interpretation reliable_kind: enum_code kind_channel_id kind_try_from
proof
  show "kind_try_from (kind_channel_id x) = Inr x" for x
    by (cases x) (simp_all add: kind_try_from_def)
  show "kind_try_from w = Inr x \<Longrightarrow> kind_channel_id x = w" for w x
    by (cases w) (auto simp: kind_try_from_def)
qed

lemma encode_stream_preface_eq:
  "encode_stream_preface kind =
     u32_be STREAM_MAGIC @ u16_be PROTOCOL_VERSION @ [channel_code (kind_channel_id kind), 0]"
  by (simp add: encode_stream_preface_def copy_at_def STREAM_PREFACE_LEN_def numeral_eq_Suc
      Suc_diff_Suc)

lemma length_stream_preface [simp]: "length (encode_stream_preface kind) = 8"
  by (simp add: encode_stream_preface_eq)

lemma preface_exact:
  assumes "length p = 8"
  shows "decode_stream_preface p = Inr kind \<longleftrightarrow> p = encode_stream_preface kind"
proof
  assume dec: "decode_stream_preface p = Inr kind"
  then obtain c where f: "read_u32 p 0 = STREAM_MAGIC" "read_u16 p 4 = PROTOCOL_VERSION" "p ! 7 = 0"
    and "channel_try_from (p ! 6) = Inr c" "kind_try_from c = Inr kind"
    by (auto simp: decode_stream_preface_def Let_def split: if_splits sum.splits)
  then have c: "channel_code (kind_channel_id kind) = p ! 6"
    using channel.try_from_sound reliable_kind.try_from_sound by metis
  have "p = u32_be (read_u32 p 0) @ u16_be (read_u16 p 4) @ [p ! 6, p ! 7]"
    using assms cut_u32 [of 0 p] cut_u16 [of 4 p] cut_u8 [of 6 p] cut_u8 [of 7 p] by simp
  then show "p = encode_stream_preface kind" unfolding f c [symmetric] encode_stream_preface_eq .
next
  assume "p = encode_stream_preface kind"
  then show "decode_stream_preface p = Inr kind"
    by (simp add: encode_stream_preface_eq decode_stream_preface_def wire_simps
        channel.try_from_code reliable_kind.try_from_code)
qed

section \<open>Splitting a channel\<close>

lemma split_send:
  "sender_send S (fst (channel_into_split ch)) mt flags ts payload =
     (case channel_send S ch mt flags ts payload of (ch', r) \<Rightarrow> (fst (channel_into_split ch'), r))"
  unfolding channel_send_def sender_send_def send_reliable_def channel_into_split_def Let_def
  by (simp split: option.split sum.split prod.split)

lemma send_keeps_receiver:
  "snd (channel_into_split (fst (channel_send S ch mt flags ts payload))) = snd (channel_into_split ch)"
  unfolding channel_send_def channel_into_split_def Let_def
  by (simp split: option.split sum.split prod.split)

lemma split_receive:
  "receiver_receive R (snd (channel_into_split ch)) =
     (case channel_receive R ch of (ch', r) \<Rightarrow> (snd (channel_into_split ch'), r))"
  unfolding channel_receive_def receiver_receive_def receive_reliable_def channel_into_split_def Let_def
  by (simp split: sum.split prod.split)

lemma receive_keeps_sender:
  "fst (channel_into_split (fst (channel_receive R ch))) = fst (channel_into_split ch)"
  unfolding channel_receive_def channel_into_split_def Let_def
  by (simp split: sum.split prod.split)

section \<open>What sending does\<close>

text \<open>No message type is larger than its channel admits.\<close>

lemma message_fits_channel:
  "message_channel mt = kind_channel_id kind \<Longrightarrow>
     HEADER_LEN + max_payload_len mt \<le> max_message_size kind"
  by (cases mt; cases kind) (simp_all add: stream_limits)

lemma max_message_size_u32: "max_message_size kind < 2 ^ 32"
  by (cases kind) (simp_all add: stream_limits HEADER_LEN_def)

definition stamped :: "session_id \<Rightarrow> u64 \<Rightarrow> message_type \<Rightarrow> u16 \<Rightarrow> u64 \<Rightarrow> bytes \<Rightarrow> reliable_message" where
  "stamped sid seq mt flags ts payload =
     \<lparr>rm_header = \<lparr>mh_message_type = mt, mh_flags = flags, mh_channel = message_channel mt,
        mh_session_id = sid, mh_sequence_number = seq, mh_payload_length = of_nat (length payload),
        mh_monotonic_timestamp_us = ts\<rparr>, rm_payload = payload\<rparr>"

lemma encode_message_length:
  assumes "encode_message h payload = Inr m" and "length (mh_session_id h) = 16"
  shows "length m = HEADER_LEN + length payload"
  using assms by (auto simp: encode_message_eq_Inr length_header_bytes)

lemma send_reliable_cases:
  assumes "send_reliable S s kind sid n mt flags ts payload = (s', n', r)"
  shows "case r of
      Inr seq \<Rightarrow> seq = n \<and> checked_add n 1 = Some n' \<and> message_channel mt = kind_channel_id kind \<and>
        (\<exists>m s1. encode_message (rm_header (stamped sid n mt flags ts payload)) payload = Inr m \<and>
           length m \<le> max_message_size kind \<and>
           ss_write_all S s (u32_be (of_nat (length m))) = (s1, Inr ()) \<and>
           ss_write_all S s1 m = (s', Inr ()))
    | Inl e \<Rightarrow> (n' = n \<or> checked_add n 1 = Some n') \<and> ((\<exists>t. e = StreamFailure t) \<or> s' = s)"
  using assms
  by (auto simp: send_reliable_def Let_def message_header_new_eq_Inr stamped_def word_try_from_eq_Some
      split: if_splits option.splits sum.splits prod.splits)

section \<open>A byte stream that keeps what is written\<close>

text \<open>
  What the code relies on of QUIC: \<open>sent\<close> are the bytes a send stream took, in order, and
  \<open>pending\<close> those a receive stream can still hand out. Setting the priority sends nothing.
\<close>

definition byte_pipe ::
    "'s send_stream \<Rightarrow> ('s \<Rightarrow> bytes) \<Rightarrow> 'r recv_stream \<Rightarrow> ('r \<Rightarrow> bytes) \<Rightarrow> bool" where
  "byte_pipe S sent R pending \<longleftrightarrow>
     (\<forall>s bs s'. ss_write_all S s bs = (s', Inr ()) \<longrightarrow> sent s' = sent s @ bs) \<and>
     (\<forall>s p s' r. ss_set_priority S s p = (s', r) \<longrightarrow> sent s' = sent s) \<and>
     (\<forall>r n. n \<le> length (pending r) \<longrightarrow>
        (\<exists>r'. rs_read_exact R r n = (r', Inr (take n (pending r))) \<and> pending r' = drop n (pending r)))"

lemma byte_pipe_write:
  "byte_pipe S sent R pending \<Longrightarrow> ss_write_all S s bs = (s', Inr ()) \<Longrightarrow> sent s' = sent s @ bs"
  by (simp add: byte_pipe_def)

lemma byte_pipe_priority:
  "byte_pipe S sent R pending \<Longrightarrow> ss_set_priority S s p = (s', r) \<Longrightarrow> sent s' = sent s"
  unfolding byte_pipe_def by blast

lemma byte_pipe_read:
  assumes "byte_pipe S sent R pending" and "pending r = bs @ rest"
  obtains r' where "rs_read_exact R r (length bs) = (r', Inr bs)" and "pending r' = rest"
  using assms unfolding byte_pipe_def
  by (metis append_eq_conv_conj le_add1 length_append)

definition frame :: "bytes \<Rightarrow> bytes" where
  "frame m = u32_be (of_nat (length m)) @ m"

lemma receive_frame:
  assumes pipe: "byte_pipe S sent R pending" and sid: "length sid = 16"
    and enc: "encode_message (rm_header (stamped sid n mt flags ts payload)) payload = Inr m"
    and len: "length m \<le> max_message_size kind" and ch: "message_channel mt = kind_channel_id kind"
    and new: "lst < n" and pend: "pending r = frame m @ rest"
  obtains r' where "receive_reliable R r kind sid lst = (r', n, Inr (stamped sid n mt flags ts payload))"
    and "pending r' = rest"
proof -
  from pend obtain r1 where r1: "rs_read_exact R r 4 = (r1, Inr (u32_be (of_nat (length m))))"
    and p1: "pending r1 = m @ rest"
    using byte_pipe_read [OF pipe, of r "u32_be (of_nat (length m))" "m @ rest"]
    by (auto simp: frame_def)
  obtain r2 where r2: "rs_read_exact R r1 (length m) = (r2, Inr m)" and p2: "pending r2 = rest"
    using byte_pipe_read [OF pipe p1] by blast
  have u: "unat (of_nat (length m) :: u32) = length m"
    using len max_message_size_u32 [of kind] by (intro unat_of_nat_exact) simp
  have low: "\<not> length m < HEADER_LEN"
    using encode_message_length [OF enc] sid by (simp add: stamped_def)
  have dec: "decode_message m = Inr \<lparr>pm_header = rm_header (stamped sid n mt flags ts payload),
      pm_payload = payload\<rparr>"
    using decode_encode_message [OF _ enc] sid by (simp add: stamped_def)
  have "receive_reliable R r kind sid lst = (r2, n, Inr (stamped sid n mt flags ts payload))"
    using low len ch new
    by (simp add: receive_reliable_def r1 r2 wire_simps u dec) (simp add: stamped_def)
  then show ?thesis using p2 by (rule that)
qed

section \<open>Runs\<close>

record send_call =
  sc_message_type :: message_type
  sc_flags :: u16
  sc_timestamp :: u64
  sc_payload :: bytes

fun send_run ::
    "'s send_stream \<Rightarrow> 's reliable_sender \<Rightarrow> send_call list \<Rightarrow> 's reliable_sender \<times> (reliable_error + u64) list" where
  "send_run S st [] = (st, [])"
| "send_run S st (c # cs) =
     (case sender_send S st (sc_message_type c) (sc_flags c) (sc_timestamp c) (sc_payload c) of
        (st', r) \<Rightarrow> (case send_run S st' cs of (st'', rs) \<Rightarrow> (st'', r # rs)))"

fun receive_run ::
    "'r recv_stream \<Rightarrow> nat \<Rightarrow> 'r reliable_receiver \<Rightarrow> (reliable_error + reliable_message) list" where
  "receive_run R 0 st = []"
| "receive_run R (Suc n) st =
     (case receiver_receive R st of (st', r) \<Rightarrow> r # receive_run R n st')"

text \<open>The messages behind the calls that were accepted.\<close>

fun sent_messages :: "session_id \<Rightarrow> send_call list \<Rightarrow> (reliable_error + u64) list \<Rightarrow> reliable_message list" where
  "sent_messages sid (c # cs) (Inr n # rs) =
     stamped sid n (sc_message_type c) (sc_flags c) (sc_timestamp c) (sc_payload c)
       # sent_messages sid cs rs"
| "sent_messages sid (c # cs) (Inl _ # rs) = sent_messages sid cs rs"
| "sent_messages sid _ _ = []"

definition stream_ok :: "(reliable_error + 'a) list \<Rightarrow> bool" where
  "stream_ok rs \<longleftrightarrow> (\<forall>t. Inl (StreamFailure t) \<notin> set rs)"

text \<open>The receiver has seen everything before the sender's next number.\<close>

definition in_step :: "'s reliable_sender \<Rightarrow> 'r reliable_receiver \<Rightarrow> bool" where
  "in_step st rt \<longleftrightarrow> rcr_kind rt = rcs_kind st \<and> rcr_session_id rt = rcs_session_id st \<and>
     rcr_last_incoming_sequence rt < rcs_next_outgoing_sequence st"

lemma send_one_refused:
  assumes send: "sender_send S st mt flags ts payload = (st1, Inl e)" and e: "\<And>t. e \<noteq> StreamFailure t"
  shows "rcs_send st1 = rcs_send st \<and> rcs_session_id st1 = rcs_session_id st \<and>
    (in_step st rt \<longrightarrow> in_step st1 rt)"
proof -
  from send obtain s' n' where one: "send_reliable S (rcs_send st) (rcs_kind st) (rcs_session_id st)
      (rcs_next_outgoing_sequence st) mt flags ts payload = (s', n', Inl e)"
    and st1: "st1 = st\<lparr>rcs_send := s', rcs_next_outgoing_sequence := n'\<rparr>"
    by (auto simp: sender_send_def split: prod.splits)
  from send_reliable_cases [OF one] e have "s' = rcs_send st"
    and "rcs_next_outgoing_sequence st \<le> n'"
    by (auto dest: checked_add_one_less)
  then show ?thesis by (auto simp: st1 in_step_def)
qed

lemma send_one_delivered:
  assumes pipe: "byte_pipe S sent R pending" and sid: "length (rcs_session_id st) = 16"
    and send: "sender_send S st mt flags ts payload = (st1, Inr k)"
  obtains m where "sent (rcs_send st1) = sent (rcs_send st) @ m"
    and "rcs_session_id st1 = rcs_session_id st"
    and "\<And>rt rest. in_step st rt \<Longrightarrow> pending (rcr_receive rt) = m @ rest \<Longrightarrow>
      \<exists>rt'. receiver_receive R rt = (rt', Inr (stamped (rcs_session_id st) k mt flags ts payload)) \<and>
        in_step st1 rt' \<and> pending (rcr_receive rt') = rest"
proof -
  from send obtain s' n' where one: "send_reliable S (rcs_send st) (rcs_kind st) (rcs_session_id st)
      (rcs_next_outgoing_sequence st) mt flags ts payload = (s', n', Inr k)"
    and st1: "st1 = st\<lparr>rcs_send := s', rcs_next_outgoing_sequence := n'\<rparr>"
    by (auto simp: sender_send_def split: prod.splits)
  from send_reliable_cases [OF one] obtain m s0 where k: "k = rcs_next_outgoing_sequence st"
    and n': "checked_add (rcs_next_outgoing_sequence st) 1 = Some n'"
    and ch: "message_channel mt = kind_channel_id (rcs_kind st)"
    and enc: "encode_message (rm_header (stamped (rcs_session_id st) k mt flags ts payload)) payload = Inr m"
    and len: "length m \<le> max_message_size (rcs_kind st)"
    and w: "ss_write_all S (rcs_send st) (u32_be (of_nat (length m))) = (s0, Inr ())"
      "ss_write_all S s0 m = (s', Inr ())" by auto
  have "k < n'" using n' k by (auto dest: checked_add_one_less)
  show ?thesis
  proof (rule that [of "frame m"])
    show "sent (rcs_send st1) = sent (rcs_send st) @ frame m"
      using byte_pipe_write [OF pipe w(1)] byte_pipe_write [OF pipe w(2)] by (simp add: frame_def st1)
    show "rcs_session_id st1 = rcs_session_id st" by (simp add: st1)
    fix rt rest
    assume step: "in_step st rt" and pend: "pending (rcr_receive rt) = frame m @ rest"
    then have "rcr_last_incoming_sequence rt < k" by (simp add: in_step_def k)
    from receive_frame [OF pipe sid enc len ch this pend] obtain r' where
      r': "receive_reliable R (rcr_receive rt) (rcs_kind st) (rcs_session_id st)
          (rcr_last_incoming_sequence rt) = (r', k, Inr (stamped (rcs_session_id st) k mt flags ts payload))"
      and p': "pending r' = rest" by blast
    show "\<exists>rt'. receiver_receive R rt = (rt', Inr (stamped (rcs_session_id st) k mt flags ts payload)) \<and>
        in_step st1 rt' \<and> pending (rcr_receive rt') = rest"
      using step r' p' \<open>k < n'\<close>
      by (intro exI [of _ "rt\<lparr>rcr_receive := r', rcr_last_incoming_sequence := k\<rparr>"])
        (simp add: receiver_receive_def in_step_def st1)
  qed
qed

lemma send_run_received:
  assumes pipe: "byte_pipe S sent R pending"
  shows "length (rcs_session_id st) = 16 \<Longrightarrow> send_run S st calls = (st', rs) \<Longrightarrow> stream_ok rs \<Longrightarrow>
    (\<exists>ext. sent (rcs_send st') = sent (rcs_send st) @ ext \<and>
       (\<forall>rt rest. in_step st rt \<longrightarrow> pending (rcr_receive rt) = ext @ rest \<longrightarrow>
          receive_run R (length (sent_messages (rcs_session_id st) calls rs)) rt
            = map Inr (sent_messages (rcs_session_id st) calls rs)))"
proof (induction calls arbitrary: st rs)
  case Nil
  then show ?case by auto
next
  case (Cons c cs)
  from Cons.prems(2) obtain st1 r rs' where
    snd: "sender_send S st (sc_message_type c) (sc_flags c) (sc_timestamp c) (sc_payload c) = (st1, r)"
    and run: "send_run S st1 cs = (st', rs')" and rs: "rs = r # rs'"
    by (auto split: prod.splits)
  have ok: "stream_ok rs'" and not: "r \<noteq> Inl (StreamFailure t)" for t
    using Cons.prems(3) by (auto simp: rs stream_ok_def)
  show ?case
  proof (cases r)
    case (Inl e)
    with not have e: "e \<noteq> StreamFailure t" for t by auto
    note ref = send_one_refused [OF snd [unfolded Inl] e]
    then have "rcs_send st1 = rcs_send st" "rcs_session_id st1 = rcs_session_id st"
      and "in_step st rt \<Longrightarrow> in_step st1 rt" for rt :: "'b reliable_receiver" by blast+
    with Cons.IH [OF _ run ok] Cons.prems(1) show ?thesis by (auto simp: rs Inl)
  next
    case (Inr k)
    obtain m where m: "sent (rcs_send st1) = sent (rcs_send st) @ m" "rcs_session_id st1 = rcs_session_id st"
      and rcv: "\<And>rt rest. in_step st rt \<Longrightarrow> pending (rcr_receive rt) = m @ rest \<Longrightarrow>
        \<exists>rt'. receiver_receive R rt = (rt', Inr (stamped (rcs_session_id st) k (sc_message_type c)
            (sc_flags c) (sc_timestamp c) (sc_payload c))) \<and> in_step st1 rt' \<and> pending (rcr_receive rt') = rest"
      using send_one_delivered [OF pipe Cons.prems(1) snd [unfolded Inr]] by blast
    from Cons.IH [OF _ run ok] Cons.prems(1) m(2) obtain ext where
      ext: "sent (rcs_send st') = sent (rcs_send st1) @ ext"
      and rest: "\<And>rt rest. in_step st1 rt \<Longrightarrow> pending (rcr_receive rt) = ext @ rest \<Longrightarrow>
        receive_run R (length (sent_messages (rcs_session_id st) cs rs')) rt
          = map Inr (sent_messages (rcs_session_id st) cs rs')" by auto
    show ?thesis
      using m(1) ext rcv rest by (intro exI [of _ "m @ ext"]) (fastforce simp: rs Inr)
  qed
qed

section \<open>The receiver against arbitrary input\<close>

definition receive_step ::
    "'r recv_stream \<Rightarrow> 'r reliable_receiver \<Rightarrow> unit \<Rightarrow> 'r reliable_receiver \<times> u64 option" where
  "receive_step R st u =
     (case receiver_receive R st of
        (st', Inl _) \<Rightarrow> (st', None)
      | (st', Inr m) \<Rightarrow> (st', Some (mh_sequence_number (rm_header m))))"

fun accepted_messages :: "(reliable_error + reliable_message) list \<Rightarrow> reliable_message list" where
  "accepted_messages [] = []"
| "accepted_messages (Inl _ # rs) = accepted_messages rs"
| "accepted_messages (Inr m # rs) = m # accepted_messages rs"

lemma receiver_receive_accepts:
  assumes "receiver_receive R st = (st', Inr m)"
  shows "rcr_last_incoming_sequence st < mh_sequence_number (rm_header m)"
    and "rcr_last_incoming_sequence st' = mh_sequence_number (rm_header m)"
    and "mh_channel (rm_header m) = kind_channel_id (rcr_kind st)"
    and "mh_session_id (rm_header m) = rcr_session_id st"
  using assms
  by (auto simp: receiver_receive_def receive_reliable_def Let_def
      split: prod.splits sum.splits if_splits)

lemma receiver_receive_keeps:
  assumes "receiver_receive R st = (st', r)"
  shows "rcr_kind st' = rcr_kind st \<and> rcr_session_id st' = rcr_session_id st \<and>
    rcr_last_incoming_sequence st \<le> rcr_last_incoming_sequence st'"
  using assms
  by (auto simp: receiver_receive_def receive_reliable_def Let_def
      split: prod.splits sum.splits if_splits)

interpretation reliable_guard: sequence_guard "\<lambda>_. True" "\<lambda>_. True"
  rcr_last_incoming_sequence "receive_step R" for R
  by unfold_locales
    (auto simp: receive_step_def dest: receiver_receive_keeps receiver_receive_accepts
      split: prod.splits sum.splits)

lemma receive_run_guard:
  "map (\<lambda>m. mh_sequence_number (rm_header m)) (accepted_messages (receive_run R n st))
     = accepted_run (receive_step R) st (replicate n ())"
proof (induction n arbitrary: st)
  case (Suc n)
  obtain st' r where one: "receiver_receive R st = (st', r)" by fastforce
  with Suc.IH [of st'] show ?case by (cases r) (simp_all add: receive_step_def)
qed simp

lemma receive_run_bound:
  "m \<in> set (accepted_messages (receive_run R n st)) \<Longrightarrow>
     mh_channel (rm_header m) = kind_channel_id (rcr_kind st) \<and>
     mh_session_id (rm_header m) = rcr_session_id st"
proof (induction n arbitrary: st)
  case (Suc n)
  obtain st' r where one: "receiver_receive R st = (st', r)" by fastforce
  with Suc receiver_receive_keeps [OF one] show ?case
    by (cases r) (auto dest: receiver_receive_accepts)
qed simp

section \<open>Properties\<close>

text \<open>
  Property C26: end-to-end delivery on a reliable channel. One side opens a channel and sends
  any list of messages, some of which may be refused, without a stream failure. The other
  side, given the bytes in order, accepts a channel of the same kind and then receives
  exactly the messages that were not refused, in order, each with the sequence number its
  \<open>send\<close> returned.
\<close>

theorem reliable_end_to_end:
  assumes "byte_pipe S sent R pending" and "length sid = 16"
    and "channel_open S (Inr (client_send, client_receive)) kind sid = Inr client"
    and "sent client_send = []"
    and "send_run S (fst (channel_into_split client)) calls = (client', results)"
    and "stream_ok results"
    and "ss_set_priority S server_send (kind_priority kind) = (server_send', Inr ())"
    and "pending server_receive = sent (rcs_send client')"
  shows "\<exists>server. channel_accept S R (Inr (server_send, server_receive)) sid = Inr server \<and>
    rc_kind server = kind \<and>
    receive_run R (length (sent_messages sid calls results)) (snd (channel_into_split server))
      = map Inr (sent_messages sid calls results)"
proof -
  from assms(3) obtain s1 s2 where pri: "ss_set_priority S client_send (kind_priority kind) = (s1, Inr ())"
    and pre: "ss_write_all S s1 (encode_stream_preface kind) = (s2, Inr ())"
    and client: "client = channel_new s2 client_receive kind sid"
    by (auto simp: channel_open_def split: prod.splits sum.splits)
  have s2: "sent s2 = encode_stream_preface kind"
    using byte_pipe_write [OF assms(1) pre] byte_pipe_priority [OF assms(1) pri] assms(4) by simp
  let ?st = "fst (channel_into_split client)"
  have st: "rcs_send ?st = s2" "rcs_session_id ?st = sid" "rcs_kind ?st = kind"
    "rcs_next_outgoing_sequence ?st = 1"
    by (simp_all add: client channel_into_split_def channel_new_def)
  from send_run_received [OF assms(1) _ assms(5,6)] assms(2) st obtain ext where
    ext: "sent (rcs_send client') = encode_stream_preface kind @ ext"
    and rcv: "\<And>rt rest. in_step ?st rt \<Longrightarrow> pending (rcr_receive rt) = ext @ rest \<Longrightarrow>
      receive_run R (length (sent_messages sid calls results)) rt
        = map Inr (sent_messages sid calls results)" by (auto simp: s2)
  from ext assms(8) obtain r1 where r1: "rs_read_exact R server_receive 8 = (r1, Inr (encode_stream_preface kind))"
    and p1: "pending r1 = ext"
    using byte_pipe_read [OF assms(1), of server_receive "encode_stream_preface kind" ext] by auto
  let ?server = "channel_new server_send' r1 kind sid"
  have "channel_accept S R (Inr (server_send, server_receive)) sid = Inr ?server"
    using assms(7) preface_exact [of "encode_stream_preface kind" kind]
    by (simp add: channel_accept_def STREAM_PREFACE_LEN_def r1)
  moreover have "in_step ?st (snd (channel_into_split ?server))"
    by (simp add: in_step_def st) (simp add: channel_into_split_def channel_new_def)
  moreover have "pending (rcr_receive (snd (channel_into_split ?server))) = ext @ []"
    by (simp add: channel_into_split_def channel_new_def p1)
  ultimately show ?thesis using rcv by (auto simp: channel_new_def)
qed

definition list_send_stream :: "bytes send_stream" where
  "list_send_stream = \<lparr>ss_write_all = (\<lambda>s bs. (s @ bs, Inr ())),
     ss_set_priority = (\<lambda>s _. (s, Inr ())), ss_finish = (\<lambda>s. (s, Inr ()))\<rparr>"

definition list_recv_stream :: "bytes recv_stream" where
  "list_recv_stream = \<lparr>rs_read_exact =
     (\<lambda>r n. if n \<le> length r then (drop n r, Inr (take n r)) else (r, Inl ''eof''))\<rparr>"

text \<open>A valid message is always taken by a stream that takes everything.\<close>

lemma list_send_ok:
  assumes ok: "header_ok mt flags (kind_channel_id (rcs_kind st)) (rcs_session_id st)
      (rcs_next_outgoing_sequence st) (length payload)"
    and "rcs_next_outgoing_sequence st \<noteq> - 1" and sid: "length (rcs_session_id st) = 16"
  shows "\<exists>s'. sender_send list_send_stream st mt flags ts payload =
     (st\<lparr>rcs_send := s', rcs_next_outgoing_sequence := rcs_next_outgoing_sequence st + 1\<rparr>,
      Inr (rcs_next_outgoing_sequence st))"
proof -
  let ?n = "rcs_next_outgoing_sequence st" and ?sid = "rcs_session_id st"
  let ?h = "rm_header (stamped ?sid ?n mt flags ts payload)"
  have ch: "message_channel mt = kind_channel_id (rcs_kind st)" using ok by (simp add: header_ok_def)
  have nxt: "checked_add ?n 1 = Some (?n + 1)"
    using assms(2) by (rule checked_add_one_Some)
  have hdr: "message_header_new mt flags ?sid ?n (length payload) ts = Inr ?h"
    using ok ch by (simp add: message_header_new_eq_Inr stamped_def)
  have "unat (of_nat (length payload) :: u32) = length payload"
    using header_ok_payload_bound [OF ok] by (intro unat_of_nat_exact) simp
  then obtain m where enc: "encode_message ?h payload = Inr m"
    using ok ch by (auto simp: encode_message_eq_Inr stamped_def)
  have "length m \<le> max_message_size (rcs_kind st)"
    using encode_message_length [OF enc] sid message_fits_channel [OF ch] ok
    by (auto simp: stamped_def header_ok_def)
  moreover from this have "word_try_from (length m) = Some (of_nat (length m) :: u32)"
    using max_message_size_u32 [of "rcs_kind st"] by (simp add: word_try_from_def)
  ultimately show ?thesis
    using ch by (auto simp: sender_send_def send_reliable_def Let_def nxt hdr enc list_send_stream_def)
qed

lemma list_byte_pipe: "byte_pipe list_send_stream id list_recv_stream id"
  by (auto simp: byte_pipe_def list_send_stream_def list_recv_stream_def)

definition sample_calls :: "send_call list" where
  "sample_calls =
     [\<lparr>sc_message_type = Ping, sc_flags = 0, sc_timestamp = 5, sc_payload = [1]\<rparr>,
      \<lparr>sc_message_type = FileCancel, sc_flags = 0, sc_timestamp = 6, sc_payload = []\<rparr>,
      \<lparr>sc_message_type = Pong, sc_flags = 0, sc_timestamp = 7, sc_payload = [2]\<rparr>]"

definition sample_client :: "(bytes, bytes) reliable_channel" where
  "sample_client = channel_new (encode_stream_preface Kind_Control) [] Kind_Control sample_session"

lemma sample_client_open:
  "channel_open list_send_stream (Inr ([], [])) Kind_Control sample_session = Inr sample_client"
  by (simp add: channel_open_def list_send_stream_def sample_client_def)

lemma sample_send_results:
  "snd (send_run list_send_stream (fst (channel_into_split sample_client)) sample_calls)
     = [Inr 1, Inl (ProtocolState (InvalidOnChannel FileCancel Kind_Control)), Inr 2]"
proof -
  have sid: "\<exists>b \<in> set sample_session. b \<noteq> 0" "length sample_session = 16"
    by (simp_all add: sample_session_def)
  have send: "\<exists>s'. sender_send list_send_stream st mt 0 ts payload =
      (st\<lparr>rcs_send := s', rcs_next_outgoing_sequence := rcs_next_outgoing_sequence st + 1\<rparr>,
       Inr (rcs_next_outgoing_sequence st))"
    if "rcs_session_id st = sample_session" "rcs_kind st = Kind_Control" "mt = Ping \<or> mt = Pong"
      "length payload = 1" "rcs_next_outgoing_sequence st = 1 \<or> rcs_next_outgoing_sequence st = 2"
    for st :: "bytes reliable_sender" and mt ts payload
  proof (rule list_send_ok)
    show "header_ok mt 0 (kind_channel_id (rcs_kind st)) (rcs_session_id st)
        (rcs_next_outgoing_sequence st) (length payload)"
      using that sid by (auto simp: header_ok_def)
    show "rcs_next_outgoing_sequence st \<noteq> - 1" "length (rcs_session_id st) = 16"
      using that sid by auto
  qed
  let ?st = "\<lambda>s n. \<lparr>rcs_send = s, rcs_kind = Kind_Control, rcs_session_id = sample_session,
      rcs_next_outgoing_sequence = n\<rparr>"
  obtain s1 where s1: "sender_send list_send_stream (?st (encode_stream_preface Kind_Control) 1) Ping 0 5 [1]
      = (?st s1 2, Inr 1)"
    using send [of "?st (encode_stream_preface Kind_Control) 1" Ping "[1]" 5] by auto
  obtain s2 where s2: "sender_send list_send_stream (?st s1 2) Pong 0 7 [2] = (?st s2 3, Inr 2)"
    using send [of "?st s1 2" Pong "[2]" 7] by auto
  have refused: "sender_send list_send_stream (?st s1 2) FileCancel 0 6 []
      = (?st s1 2, Inl (ProtocolState (InvalidOnChannel FileCancel Kind_Control)))"
    by (simp add: sender_send_def send_reliable_def)
  show ?thesis
    by (simp add: sample_calls_def sample_client_def channel_into_split_def channel_new_def s1 s2 refused)
qed

theorem reliable_end_to_end_witness:
  "\<exists>bytes server. channel_accept list_send_stream list_recv_stream (Inr ([], bytes)) sample_session
       = Inr server \<and> rc_kind server = Kind_Control \<and>
     receive_run list_recv_stream 2 (snd (channel_into_split server))
       = [Inr (stamped sample_session 1 Ping 0 5 [1]), Inr (stamped sample_session 2 Pong 0 7 [2])]"
proof -
  obtain st rs where run: "send_run list_send_stream (fst (channel_into_split sample_client)) sample_calls
      = (st, rs)" by fastforce
  with sample_send_results have rs: "rs = [Inr 1, Inl (ProtocolState (InvalidOnChannel FileCancel Kind_Control)), Inr 2]"
    by simp
  have ms: "sent_messages sample_session sample_calls rs
      = [stamped sample_session 1 Ping 0 5 [1], stamped sample_session 2 Pong 0 7 [2]]"
    by (simp add: rs sample_calls_def)
  have "stream_ok rs" by (simp add: rs stream_ok_def)
  from reliable_end_to_end [OF list_byte_pipe _ sample_client_open _ run this, of "[]" "[]" "rcs_send st"]
  show ?thesis unfolding ms by (auto simp: sample_session_def list_send_stream_def numeral_2_eq_2)
qed

text \<open>
  No replay on a reliable channel. Whatever the stream delivers, the messages a
  receiver accepts have strictly increasing sequence numbers and carry the channel and the
  session of the receiver.
\<close>

lemma reliable_receiver_no_replay:
  "sorted_wrt (<) (map (\<lambda>m. mh_sequence_number (rm_header m)) (accepted_messages (receive_run R n st))) \<and>
   list_all (\<lambda>m. mh_channel (rm_header m) = kind_channel_id (rcr_kind st) \<and>
     mh_session_id (rm_header m) = rcr_session_id st) (accepted_messages (receive_run R n st))"
  using reliable_guard.accepted_strictly_increasing [of "replicate n ()" R st] receive_run_bound
  by (fastforce simp: receive_run_guard list_all_iff)

text \<open>
  Splitting a channel changes nothing. The sending half answers every \<open>send\<close>
  and the receiving half every \<open>receive\<close> as the joined channel would, with the same state
  after it, and neither touches the other half.
\<close>

lemma channel_split_equivalent:
  "sender_send S (fst (channel_into_split ch)) mt flags ts payload =
     (case channel_send S ch mt flags ts payload of (ch', r) \<Rightarrow> (fst (channel_into_split ch'), r)) \<and>
   receiver_receive R (snd (channel_into_split ch)) =
     (case channel_receive R ch of (ch', r) \<Rightarrow> (snd (channel_into_split ch'), r)) \<and>
   snd (channel_into_split (fst (channel_send S ch mt flags ts payload))) = snd (channel_into_split ch) \<and>
   fst (channel_into_split (fst (channel_receive R ch))) = fst (channel_into_split ch)"
  using split_send split_receive send_keeps_receiver receive_keeps_sender by blast

end
