(* ===== verification/Recovery.thy ===== *)
theory Recovery
  imports Input_Properties
begin

text \<open>
  Reconnection (\<open>src/transport/recovery.rs\<close>): the back-off policy, the state that counts the
  attempts, and what a disconnect requires. \<open>u128\<close> and \<open>i128\<close> arithmetic is written out on
  naturals and integers with its limits.
\<close>

section \<open>Data\<close>

definition u128_max :: nat where "u128_max = 2 ^ 128 - 1"

definition u128_sat_mul :: "nat \<Rightarrow> nat \<Rightarrow> nat" where
  "u128_sat_mul a b = min (a * b) u128_max"

definition u128_sat_add :: "nat \<Rightarrow> nat \<Rightarrow> nat" where
  "u128_sat_add a b = min (a + b) u128_max"

text \<open>\<open>as i128\<close> on a \<open>u128\<close> keeps the bits.\<close>

definition as_i128 :: "nat \<Rightarrow> int" where
  "as_i128 n = signed_take_bit 127 (int n)"

record reconnect_policy =
  rp_initial_delay :: duration
  rp_maximum_delay :: duration
  rp_maximum_attempts :: u32
  rp_jitter_percent :: u8

definition reconnect_policy_default :: reconnect_policy where
  "reconnect_policy_default =
     \<lparr>rp_initial_delay = from_millis 250, rp_maximum_delay = from_secs 8,
      rp_maximum_attempts = 8, rp_jitter_percent = 20\<rparr>"

datatype recovery_error = InvalidPolicy | AttemptsExhausted

record disconnect_actions =
  da_input_releases :: "reliable_input_event list"
  da_discard_video_and_audio :: bool
  da_request_fresh_keyframe :: bool
  da_reauthenticate :: bool
  da_renegotiate_capabilities :: bool
  da_resume_files_after_integrity_check :: bool

record reconnect_state =
  rec_policy :: reconnect_policy
  rec_attempts :: u32
  rec_generation :: u64

section \<open>Operations\<close>

definition reconnect_new :: "reconnect_policy \<Rightarrow> recovery_error + reconnect_state" where
  "reconnect_new policy =
     (if rp_initial_delay policy = 0
         \<or> rp_maximum_delay policy < rp_initial_delay policy
         \<or> rp_maximum_attempts policy = 0
         \<or> rp_jitter_percent policy > 50
      then Inl InvalidPolicy
      else Inr \<lparr>rec_policy = policy, rec_attempts = 0, rec_generation = 1\<rparr>)"

definition on_disconnect ::
    "reconnect_state \<Rightarrow> reliable_input_receiver \<Rightarrow>
     reconnect_state \<times> reliable_input_receiver \<times> disconnect_actions" where
  "on_disconnect st input =
     (let st' = st\<lparr>rec_generation := sat_add (rec_generation st) 1\<rparr>;
          (input', releases) = release_all input in
      (st', input',
       \<lparr>da_input_releases = releases,
        da_discard_video_and_audio = True,
        da_request_fresh_keyframe = True,
        da_reauthenticate = True,
        da_renegotiate_capabilities = True,
        da_resume_files_after_integrity_check = True\<rparr>))"

definition next_delay :: "reconnect_state \<Rightarrow> u64 \<Rightarrow> reconnect_state \<times> (recovery_error + duration)" where
  "next_delay st jitter_sample =
     (if rec_attempts st \<ge> rp_maximum_attempts (rec_policy st) then (st, Inl AttemptsExhausted)
      else
        (let exponent = min (rec_attempts st) 31;
             base_millis =
               min (u128_sat_mul (as_millis (rp_initial_delay (rec_policy st))) (2 ^ unat exponent))
                   (as_millis (rp_maximum_delay (rec_policy st)));
             st' = st\<lparr>rec_attempts := rec_attempts st + 1\<rparr>;
             range = u128_sat_mul base_millis (unat (rp_jitter_percent (rec_policy st))) div 100;
             width = u128_sat_add (u128_sat_mul range 2) 1;
             offset = (if width = 0 then 0
                       else as_i128 (unat jitter_sample mod width) - as_i128 range);
             jittered = nat (max (as_i128 base_millis + offset) 0) in
         (st', Inr (from_millis (min jittered (unat (- 1 :: u64)))))))"

definition manual_delay :: "reconnect_state \<Rightarrow> duration" where
  "manual_delay st = 0"

definition on_connected :: "reconnect_state \<Rightarrow> reconnect_state" where
  "on_connected st = st\<lparr>rec_attempts := 0\<rparr>"

section \<open>The back-off\<close>

text \<open>The largest \<open>Duration\<close>: \<open>u64::MAX\<close> seconds and 999 999 999 nanoseconds.\<close>

definition duration_max :: duration where
  "duration_max = 2 ^ 64 * 10 ^ 9 - 1"

text \<open>The schedule, on unbounded numbers: doubling from the initial delay, up to the maximum.\<close>

definition backoff_millis :: "reconnect_policy \<Rightarrow> nat \<Rightarrow> nat" where
  "backoff_millis policy i =
     min (as_millis (rp_initial_delay policy) * 2 ^ min i 31) (as_millis (rp_maximum_delay policy))"

definition jitter_millis :: "reconnect_policy \<Rightarrow> nat \<Rightarrow> nat" where
  "jitter_millis policy i = backoff_millis policy i * unat (rp_jitter_percent policy) div 100"

lemma as_i128_small: "n < 2 ^ 127 \<Longrightarrow> as_i128 n = int n"
  unfolding as_i128_def by (rule signed_take_bit_int_eq_self) (simp_all flip: of_nat_power)

lemma millis_bound: "d \<le> duration_max \<Longrightarrow> as_millis d < 2 ^ 74"
  by (simp add: duration_max_def as_millis_def div_less_iff_less_mult)

definition policy_ok :: "reconnect_policy \<Rightarrow> bool" where
  "policy_ok policy \<longleftrightarrow> rp_initial_delay policy \<le> rp_maximum_delay policy \<and>
     rp_maximum_delay policy \<le> duration_max \<and> rp_jitter_percent policy \<le> 50"

lemma backoff_bound: "policy_ok policy \<Longrightarrow> backoff_millis policy i < 2 ^ 74"
  using millis_bound [of "rp_maximum_delay policy"] by (auto simp: policy_ok_def backoff_millis_def)

lemma jitter_le_half:
  assumes "policy_ok policy"
  shows "jitter_millis policy i \<le> backoff_millis policy i div 2"
proof -
  have "unat (rp_jitter_percent policy) \<le> 50"
    using assms by (simp add: policy_ok_def word_le_nat_alt)
  then have "backoff_millis policy i * unat (rp_jitter_percent policy) \<le> backoff_millis policy i * 50"
    by simp
  then have "jitter_millis policy i \<le> backoff_millis policy i * 50 div 100"
    unfolding jitter_millis_def by (rule div_le_mono)
  also have "\<dots> = backoff_millis policy i div 2" by simp
  finally show ?thesis .
qed

lemma next_delay_base:
  assumes "policy_ok policy"
  shows "min (u128_sat_mul (as_millis (rp_initial_delay policy)) (2 ^ unat (min a (31 :: u32))))
       (as_millis (rp_maximum_delay policy)) = backoff_millis policy (unat a)"
proof -
  have e: "unat (min a 31) = min (unat a) 31" by (simp add: min_def word_le_nat_alt)
  have "as_millis (rp_initial_delay policy) < 2 ^ 74"
    using assms by (intro millis_bound) (simp add: policy_ok_def)
  moreover have "(2 :: nat) ^ min (unat a) 31 \<le> 2 ^ 31" by (intro power_increasing) simp_all
  ultimately have "as_millis (rp_initial_delay policy) * 2 ^ min (unat a) 31 \<le> 2 ^ 74 * 2 ^ 31"
    by (intro mult_mono) simp_all
  then show ?thesis by (simp add: u128_sat_mul_def u128_max_def backoff_millis_def e)
qed

lemma next_delay_range:
  assumes ok: "policy_ok (rec_policy st)" and room: "rec_attempts st < rp_maximum_attempts (rec_policy st)"
  defines "b \<equiv> backoff_millis (rec_policy st) (unat (rec_attempts st))"
    and "j \<equiv> jitter_millis (rec_policy st) (unat (rec_attempts st))"
  shows "\<exists>ms. next_delay st sample = (st\<lparr>rec_attempts := rec_attempts st + 1\<rparr>, Inr (from_millis ms)) \<and>
    min (b - j) (2 ^ 64 - 1) \<le> ms \<and> ms \<le> b + j"
proof -
  have b: "b < 2 ^ 74" unfolding b_def by (rule backoff_bound [OF ok])
  have j: "j \<le> b" using jitter_le_half [OF ok, of "unat (rec_attempts st)"] by (simp add: b_def j_def)
  have jit: "u128_sat_mul b (unat (rp_jitter_percent (rec_policy st))) div 100 = j"
  proof -
    have "b * unat (rp_jitter_percent (rec_policy st)) \<le> 2 ^ 74 * 2 ^ 8"
      using b u8_bound [of "rp_jitter_percent (rec_policy st)"] by (intro mult_mono) simp_all
    then show ?thesis by (simp add: u128_sat_mul_def u128_max_def j_def jitter_millis_def b_def)
  qed
  have w: "u128_sat_add (u128_sat_mul j 2) 1 = 2 * j + 1"
    using j b by (simp add: u128_sat_add_def u128_sat_mul_def u128_max_def)
  define m where "m = unat sample mod (2 * j + 1)"
  have m: "m \<le> 2 * j" using mod_less_divisor [of "2 * j + 1" "unat sample"] by (simp add: m_def)
  have "as_i128 b = int b" "as_i128 m = int m" "as_i128 j = int j"
    using b j m by (simp_all add: as_i128_small)
  then have "nat (max (as_i128 b + (as_i128 m - as_i128 j)) 0) = b + m - j" using j by simp
  then have "next_delay st sample = (st\<lparr>rec_attempts := rec_attempts st + 1\<rparr>,
      Inr (from_millis (min (b + m - j) (unat (- 1 :: u64)))))"
    using room unfolding next_delay_def Let_def next_delay_base [OF ok] b_def [symmetric] jit w
      m_def [symmetric] by (simp add: not_le [symmetric])
  then show ?thesis using m by (auto simp: unat_minus_one_max)
qed

fun delay_run :: "reconnect_state \<Rightarrow> u64 list \<Rightarrow> (recovery_error + duration) list" where
  "delay_run st [] = []"
| "delay_run st (s # ss) = (case next_delay st s of (st', r) \<Rightarrow> r # delay_run st' ss)"

definition delay_ok :: "reconnect_policy \<Rightarrow> nat \<Rightarrow> recovery_error + duration \<Rightarrow> bool" where
  "delay_ok policy i r \<longleftrightarrow>
     (case r of
        Inl e \<Rightarrow> e = AttemptsExhausted \<and> unat (rp_maximum_attempts policy) \<le> i
      | Inr d \<Rightarrow> i < unat (rp_maximum_attempts policy) \<and>
          (\<exists>ms. d = from_millis ms \<and>
             min (backoff_millis policy i - jitter_millis policy i) (2 ^ 64 - 1) \<le> ms \<and>
             ms \<le> backoff_millis policy i + jitter_millis policy i))"

lemma delay_run_ok:
  assumes "policy_ok (rec_policy st)" and "rec_attempts st \<le> rp_maximum_attempts (rec_policy st)"
    and "k < length samples"
  shows "delay_ok (rec_policy st) (unat (rec_attempts st) + k) (delay_run st samples ! k)"
  using assms
proof (induction samples arbitrary: st k)
  case (Cons s ss)
  show ?case
  proof (cases "rec_attempts st < rp_maximum_attempts (rec_policy st)")
    case True
    from next_delay_range [OF Cons.prems(1) True, of s] obtain ms where
      nd: "next_delay st s = (st\<lparr>rec_attempts := rec_attempts st + 1\<rparr>, Inr (from_millis ms))"
      and ms: "min (backoff_millis (rec_policy st) (unat (rec_attempts st)) -
          jitter_millis (rec_policy st) (unat (rec_attempts st))) (2 ^ 64 - 1) \<le> ms"
        "ms \<le> backoff_millis (rec_policy st) (unat (rec_attempts st)) +
          jitter_millis (rec_policy st) (unat (rec_attempts st))" by blast
    have u: "unat (rec_attempts st + 1) = unat (rec_attempts st) + 1"
      using True unat_word_bound [of "rp_maximum_attempts (rec_policy st)"]
        unat_add_exact [of "rec_attempts st" 1] by (simp add: word_less_nat_alt)
    show ?thesis
    proof (cases k)
      case 0
      with nd ms True show ?thesis by (auto simp: delay_ok_def word_less_nat_alt)
    next
      case (Suc i)
      with Cons.IH [of "st\<lparr>rec_attempts := rec_attempts st + 1\<rparr>" i] Cons.prems True nd u show ?thesis
        by (simp add: word_le_nat_alt word_less_nat_alt)
    qed
  next
    case False
    then have nd: "next_delay st s = (st, Inl AttemptsExhausted)" by (simp add: next_delay_def)
    with Cons.IH [of st "k - 1"] Cons.prems False show ?thesis
      by (cases k) (auto simp: delay_ok_def word_less_nat_alt word_le_nat_alt split: sum.splits)
  qed
qed simp

text \<open>A disconnect leaves no input pressed on the host and moves to a new generation.\<close>

lemma on_disconnect_releases:
  assumes "reliable_run reliable_receiver_new messages = (input, events)"
    and "on_disconnect st input = (st', input', actions)"
  shows "foldl host_apply ({}, {}) (events @ da_input_releases actions) = ({}, {})"
    and "held input' = ({}, {})"
    and "rec_generation st \<le> rec_generation st'"
proof -
  have st: "release_all input = (input', da_input_releases actions)"
    and gen: "rec_generation st' = sat_add (rec_generation st) 1"
    using assms(2) by (auto simp: on_disconnect_def Let_def split: prod.splits)
  have "held reliable_receiver_new = ({}, {})" by (simp add: held_def reliable_receiver_new_def)
  with reliable_run_held [OF _ assms(1)] release_all_host [OF st]
  show "foldl host_apply ({}, {}) (events @ da_input_releases actions) = ({}, {})"
    and "held input' = ({}, {})" by (simp_all add: reliable_receiver_new_def)
  show "rec_generation st \<le> rec_generation st'" by (simp add: gen sat_add_ge)
qed

section \<open>Properties\<close>

text \<open>
  Property C27: the reconnect schedule. For every accepted policy whose delays are representable
  durations, the first \<open>maximum_attempts\<close> requests of a delay succeed and every later one
  reports exhaustion; the delay of attempt \<open>i\<close> lies within the jitter of the doubling,
  capped back-off, whatever the random samples; and connecting starts the schedule afresh.
\<close>

theorem reconnect_schedule:
  assumes "reconnect_new policy = Inr st" and "rp_maximum_delay policy \<le> duration_max"
    and "i < length samples"
  shows "delay_ok policy i (delay_run st samples ! i) \<and>
    delay_ok policy i (delay_run (on_connected (st\<lparr>rec_attempts := attempts\<rparr>)) samples ! i)"
proof -
  from assms(1) have st: "st = \<lparr>rec_policy = policy, rec_attempts = 0, rec_generation = 1\<rparr>"
    and ok: "policy_ok policy"
    using assms(2) by (auto simp: reconnect_new_def policy_ok_def not_less split: if_splits)
  then have "on_connected (st\<lparr>rec_attempts := attempts\<rparr>) = st" by (simp add: on_connected_def)
  with delay_run_ok [of st i samples] st ok assms(3) show ?thesis by simp
qed

theorem reconnect_schedule_witness:
  "\<exists>st. reconnect_new reconnect_policy_default = Inr st \<and>
     delay_ok reconnect_policy_default 2 (delay_run st [7, 7, 7] ! 2) \<and>
     backoff_millis reconnect_policy_default 2 = 1000 \<and> jitter_millis reconnect_policy_default 2 = 200"
proof -
  obtain st where st: "reconnect_new reconnect_policy_default = Inr st"
    by (simp add: reconnect_new_def reconnect_policy_default_def from_millis_def from_secs_def)
  have "rp_maximum_delay reconnect_policy_default \<le> duration_max"
    by (simp add: reconnect_policy_default_def from_secs_def duration_max_def)
  from reconnect_schedule [OF st this, of 2 "[7, 7, 7]"] st show ?thesis
    by (simp add: backoff_millis_def jitter_millis_def reconnect_policy_default_def from_secs_def as_millis_def
        from_millis_def)
qed

end
