(* ===== verification/Adaptation.thy ===== *)
theory Adaptation
  imports Complex_Main Rust_Prelude
begin

text \<open>
  Bandwidth adaptation (\<open>src/transport/adaptation.rs\<close>): media targets from path metrics. The
  metrics are \<open>f32\<close>s, which the code only compares with constants: a float is not a number,
  an infinity or a rational, and every comparison with \<open>NaN\<close> is false.
\<close>

section \<open>Data\<close>

datatype f32 = F32_NaN | F32_Infinity bool | F32 rat

text \<open>\<open>x >= c\<close> and \<open>x < c\<close> for a finite constant; the flag of an infinity is its sign.\<close>

fun f32_ge :: "f32 \<Rightarrow> rat \<Rightarrow> bool" where
  "f32_ge F32_NaN c = False"
| "f32_ge (F32_Infinity negative) c = (\<not> negative)"
| "f32_ge (F32 q) c = (c \<le> q)"

fun f32_lt :: "f32 \<Rightarrow> rat \<Rightarrow> bool" where
  "f32_lt F32_NaN c = False"
| "f32_lt (F32_Infinity negative) c = negative"
| "f32_lt (F32 q) c = (q < c)"

record adaptation_metrics =
  am_quic_rtt_ms :: f32
  am_packet_loss_percent :: f32
  am_datagram_drop_percent :: f32
  am_frame_completion_percent :: f32
  am_decoder_queue_depth :: u32
  am_input_latency_ms :: f32
  am_send_queue_bytes :: u64
  am_estimated_bandwidth_kbps :: u32

record media_target =
  mt_video_bitrate_kbps :: u32
  mt_max_fps :: u16
  mt_resolution_scale_percent :: u8
  mt_keyframe_interval_frames :: u16
  mt_audio_bitrate_kbps :: u16
  mt_file_bitrate_kbps :: u32

record adaptation_limits =
  al_minimum_video_bitrate_kbps :: u32
  al_maximum_video_bitrate_kbps :: u32
  al_maximum_fps :: u16
  al_maximum_audio_bitrate_kbps :: u16
  al_maximum_file_bitrate_kbps :: u32

datatype adaptation_error = InvalidLimits

record bandwidth_adapter =
  ba_limits :: adaptation_limits
  ba_target :: media_target

section \<open>Operations\<close>

definition adapter_new :: "adaptation_limits \<Rightarrow> adaptation_error + bandwidth_adapter" where
  "adapter_new limits =
     (if al_minimum_video_bitrate_kbps limits = 0
         \<or> al_maximum_video_bitrate_kbps limits < al_minimum_video_bitrate_kbps limits
         \<or> al_maximum_fps limits = 0
         \<or> al_maximum_audio_bitrate_kbps limits = 0
      then Inl InvalidLimits
      else Inr
        \<lparr>ba_limits = limits,
         ba_target =
           \<lparr>mt_video_bitrate_kbps = al_maximum_video_bitrate_kbps limits,
            mt_max_fps = al_maximum_fps limits,
            mt_resolution_scale_percent = 100,
            mt_keyframe_interval_frames = max (sat_mul (al_maximum_fps limits) 2) 1,
            mt_audio_bitrate_kbps = al_maximum_audio_bitrate_kbps limits,
            mt_file_bitrate_kbps = al_maximum_file_bitrate_kbps limits\<rparr>\<rparr>)"

definition path_severe :: "adaptation_metrics \<Rightarrow> bool" where
  "path_severe m \<longleftrightarrow>
     f32_ge (am_packet_loss_percent m) 8
     \<or> f32_ge (am_datagram_drop_percent m) 10
     \<or> f32_lt (am_frame_completion_percent m) 80
     \<or> am_decoder_queue_depth m \<ge> 6
     \<or> f32_ge (am_quic_rtt_ms m) 200"

definition path_constrained :: "adaptation_metrics \<Rightarrow> bool" where
  "path_constrained m \<longleftrightarrow>
     path_severe m
     \<or> f32_ge (am_packet_loss_percent m) 3
     \<or> f32_ge (am_datagram_drop_percent m) 5
     \<or> f32_lt (am_frame_completion_percent m) 92
     \<or> am_decoder_queue_depth m \<ge> 3
     \<or> f32_ge (am_input_latency_ms m) 120
     \<or> am_send_queue_bytes m \<ge> 2 * 1024 * 1024"

text \<open>\<open>u32::clamp\<close>; it panics when the bounds are in the wrong order, which \<open>new\<close> excludes.\<close>

definition clamp :: "'a::linorder \<Rightarrow> 'a \<Rightarrow> 'a \<Rightarrow> 'a" where
  "clamp x lo hi = (if x < lo then lo else if x > hi then hi else x)"

definition next_video_bitrate ::
    "adaptation_limits \<Rightarrow> u32 \<Rightarrow> adaptation_metrics \<Rightarrow> u32" where
  "next_video_bitrate limits current m =
     (let severe = path_severe m;
          constrained = path_constrained m;
          bandwidth_budget =
            sat_mul (am_estimated_bandwidth_kbps m) (if constrained then 65 else 80) div 100;
          changed =
            (if constrained then sat_mul current (if severe then 65 else 82) div 100
             else sat_add current (max (current div 20) 100));
          capped = (if bandwidth_budget > 0 then min changed bandwidth_budget else changed) in
      clamp capped (al_minimum_video_bitrate_kbps limits) (al_maximum_video_bitrate_kbps limits))"

definition adapter_update ::
    "bandwidth_adapter \<Rightarrow> adaptation_metrics \<Rightarrow> bandwidth_adapter \<times> media_target" where
  "adapter_update st m =
     (let limits = ba_limits st;
          severe = path_severe m;
          constrained = path_constrained m;
          max_fps =
            (if severe then min (al_maximum_fps limits) 20
             else if constrained then min (al_maximum_fps limits) 30
             else al_maximum_fps limits);
          target =
            \<lparr>mt_video_bitrate_kbps =
               next_video_bitrate limits (mt_video_bitrate_kbps (ba_target st)) m,
             mt_max_fps = max_fps,
             mt_resolution_scale_percent =
               (if severe then 50 else if constrained then 75 else 100),
             mt_keyframe_interval_frames =
               (if f32_ge (am_datagram_drop_percent m) 5 then max max_fps 1
                else max (sat_mul max_fps 2) 1),
             mt_audio_bitrate_kbps =
               (if severe then min (al_maximum_audio_bitrate_kbps limits) 48
                else al_maximum_audio_bitrate_kbps limits),
             mt_file_bitrate_kbps =
               min (sat_mul (am_estimated_bandwidth_kbps m) (if constrained then 5 else 20) div 100)
                   (al_maximum_file_bitrate_kbps limits)\<rparr> in
      (st\<lparr>ba_target := target\<rparr>, target))"

section \<open>Bounds\<close>

lemma clamp_range: "lo \<le> hi \<Longrightarrow> lo \<le> clamp x lo hi \<and> clamp x lo hi \<le> hi"
  by (auto simp: clamp_def)

lemma clamp_le: "x \<le> y \<Longrightarrow> lo \<le> y \<Longrightarrow> clamp x lo hi \<le> y"
  by (auto simp: clamp_def)

lemma clamp_ge: "z \<le> x \<Longrightarrow> z \<le> hi \<Longrightarrow> z \<le> clamp x lo hi"
  by (auto simp: clamp_def)

definition limits_ok :: "adaptation_limits \<Rightarrow> bool" where
  "limits_ok l \<longleftrightarrow> 0 < al_minimum_video_bitrate_kbps l \<and>
     al_minimum_video_bitrate_kbps l \<le> al_maximum_video_bitrate_kbps l \<and>
     0 < al_maximum_fps l \<and> 0 < al_maximum_audio_bitrate_kbps l"

definition target_within :: "adaptation_limits \<Rightarrow> media_target \<Rightarrow> bool" where
  "target_within l t \<longleftrightarrow>
     al_minimum_video_bitrate_kbps l \<le> mt_video_bitrate_kbps t \<and>
     mt_video_bitrate_kbps t \<le> al_maximum_video_bitrate_kbps l \<and>
     0 < mt_max_fps t \<and> mt_max_fps t \<le> al_maximum_fps l \<and>
     mt_resolution_scale_percent t \<in> {50, 75, 100} \<and>
     0 < mt_keyframe_interval_frames t \<and>
     0 < mt_audio_bitrate_kbps t \<and> mt_audio_bitrate_kbps t \<le> al_maximum_audio_bitrate_kbps l \<and>
     mt_file_bitrate_kbps t \<le> al_maximum_file_bitrate_kbps l"

definition adapter_inv :: "adaptation_limits \<Rightarrow> bandwidth_adapter \<Rightarrow> bool" where
  "adapter_inv l st \<longleftrightarrow> ba_limits st = l \<and> limits_ok l \<and> target_within l (ba_target st)"

lemma max_one_pos: "0 < max x (1 :: 'a::len word)"
  by (metis less_max_iff_disj word_coorder.not_eq_extremum zero_neq_one)

lemma adapter_new_inv: "adapter_new l = Inr st \<Longrightarrow> adapter_inv l st"
  by (auto simp: adapter_new_def adapter_inv_def limits_ok_def target_within_def max_one_pos
      word_neq_0_conv not_less split: if_splits)

lemma adapter_update_inv:
  assumes "adapter_inv l st"
  shows "adapter_inv l (fst (adapter_update st m))"
proof -
  have pos: "0 < min f k" if "0 < f" "0 < k" for f k :: u16 using that by simp
  show ?thesis
    using assms clamp_range [of "al_minimum_video_bitrate_kbps l" "al_maximum_video_bitrate_kbps l"]
    by (auto simp: adapter_inv_def limits_ok_def adapter_update_def Let_def target_within_def
        max_one_pos next_video_bitrate_def)
qed

interpretation adapter: step_invariant "\<lambda>st m. fst (adapter_update st m)" "adapter_inv l" for l
  by unfold_locales (rule adapter_update_inv)

section \<open>Decrease and recovery\<close>

lemma div_le_of_mul: "c \<le> 100 \<Longrightarrow> unat (sat_mul x c div 100) \<le> unat (x :: u32)"
proof -
  assume "c \<le> 100"
  then have "unat c \<le> 100" by (simp add: word_le_nat_alt)
  then have "unat x * unat c \<le> unat x * 100" by simp
  then have "min (unat x * unat c) (2 ^ 32 - 1) div 100 \<le> unat x * 100 div 100"
    by (intro div_le_mono min.coboundedI1)
  then show ?thesis by (simp add: unat_div unat_sat_mul)
qed

lemma constrained_decreases:
  assumes "al_minimum_video_bitrate_kbps l \<le> current" and "path_constrained m"
  shows "next_video_bitrate l current m \<le> current"
proof -
  have "sat_mul current (if path_severe m then 65 else 82) div 100 \<le> current"
    using div_le_of_mul [of 65 current] div_le_of_mul [of 82 current] by (simp add: word_le_nat_alt)
  with assms show ?thesis
    unfolding next_video_bitrate_def Let_def by (intro clamp_le) (auto simp: min.coboundedI1)
qed

lemma healthy_increases:
  assumes "\<not> path_constrained m"
    and "al_maximum_video_bitrate_kbps l \<le> sat_mul (am_estimated_bandwidth_kbps m) 80 div 100"
  shows "min (unat current + 100) (unat (al_maximum_video_bitrate_kbps l))
    \<le> unat (next_video_bitrate l current m)"
proof -
  let ?hi = "al_maximum_video_bitrate_kbps l"
  let ?changed = "sat_add current (max (current div 20) 100)"
  let ?budget = "sat_mul (am_estimated_bandwidth_kbps m) 80 div 100"
  let ?within = "if ?budget > 0 then min ?changed ?budget else ?changed"
  have "100 \<le> unat (max (current div 20) 100)"
    using word_le_nat_alt [of 100 "max (current div 20) 100"] by simp
  then have "min (unat current + 100) (2 ^ 32 - 1) \<le> unat ?changed"
    by (simp add: unat_sat_add)
  moreover have "unat ?hi \<le> 2 ^ 32 - 1" using unat_word_bound [of ?hi] by simp
  ultimately have c: "min (unat current + 100) (unat ?hi) \<le> unat ?changed" by linarith
  have "unat ?hi \<le> unat ?budget" using assms(2) by (simp add: word_le_nat_alt)
  with c have w: "min (unat current + 100) (unat ?hi) \<le> unat ?within"
    by (auto simp: min_def word_le_nat_alt)
  have "next_video_bitrate l current m = clamp ?within (al_minimum_video_bitrate_kbps l) ?hi"
    using assms(1) by (simp add: next_video_bitrate_def Let_def path_constrained_def)
  moreover have "min (unat current + 100) (unat ?hi) \<le> unat (clamp ?within (al_minimum_video_bitrate_kbps l) ?hi)"
    using w by (auto simp: clamp_def word_less_nat_alt)
  ultimately show ?thesis by simp
qed

lemma update_bitrate:
  "mt_video_bitrate_kbps (ba_target (fst (adapter_update st m)))
     = next_video_bitrate (ba_limits st) (mt_video_bitrate_kbps (ba_target st)) m"
  by (simp add: adapter_update_def Let_def)

definition healthy :: "adaptation_limits \<Rightarrow> adaptation_metrics \<Rightarrow> bool" where
  "healthy l m \<longleftrightarrow> \<not> path_constrained m \<and>
     al_maximum_video_bitrate_kbps l \<le> sat_mul (am_estimated_bandwidth_kbps m) 80 div 100"

lemma healthy_run:
  assumes "adapter_inv l st" and "list_all (healthy l) ms"
  shows "min (unat (mt_video_bitrate_kbps (ba_target st)) + 100 * length ms)
      (unat (al_maximum_video_bitrate_kbps l))
    \<le> unat (mt_video_bitrate_kbps (ba_target (foldl (\<lambda>st m. fst (adapter_update st m)) st ms)))"
  using assms
proof (induction ms arbitrary: st)
  case (Cons m ms)
  let ?st = "fst (adapter_update st m)"
  have "adapter_inv l ?st" using Cons.prems(1) by (rule adapter_update_inv)
  moreover have "min (unat (mt_video_bitrate_kbps (ba_target st)) + 100) (unat (al_maximum_video_bitrate_kbps l))
      \<le> unat (mt_video_bitrate_kbps (ba_target ?st))"
    using Cons.prems healthy_increases [of m l] by (simp add: update_bitrate healthy_def adapter_inv_def)
  ultimately show ?case using Cons.IH [of ?st] Cons.prems by auto
qed simp

section \<open>Properties\<close>

text \<open>
  Property C28: targets stay within the limits. After any sequence of metrics, floats that are
  not numbers included, every target of an adapter with accepted limits has its bit rates and
  frame rate within those limits and not zero, a known scale and a positive keyframe interval;
  and metrics that show a constrained path never raise the video bit rate.
\<close>

theorem adaptation_within_limits:
  assumes "adapter_new limits = Inr st0"
  shows "target_within limits (ba_target (foldl (\<lambda>st m. fst (adapter_update st m)) st0 ms)) \<and>
    (path_constrained m \<longrightarrow>
       mt_video_bitrate_kbps (snd (adapter_update (foldl (\<lambda>st m. fst (adapter_update st m)) st0 ms) m))
         \<le> mt_video_bitrate_kbps (ba_target (foldl (\<lambda>st m. fst (adapter_update st m)) st0 ms)))"
proof -
  have inv: "adapter_inv limits (foldl (\<lambda>st m. fst (adapter_update st m)) st0 ms)"
    using adapter_new_inv [OF assms] by (rule adapter.run_preserves)
  then show ?thesis
    by (auto simp: adapter_inv_def target_within_def adapter_update_def Let_def
        intro: constrained_decreases)
qed

definition sample_limits :: adaptation_limits where
  "sample_limits = \<lparr>al_minimum_video_bitrate_kbps = 500, al_maximum_video_bitrate_kbps = 50000,
     al_maximum_fps = 60, al_maximum_audio_bitrate_kbps = 96, al_maximum_file_bitrate_kbps = 20000\<rparr>"

definition healthy_metrics :: adaptation_metrics where
  "healthy_metrics = \<lparr>am_quic_rtt_ms = F32 0, am_packet_loss_percent = F32 0,
     am_datagram_drop_percent = F32 0, am_frame_completion_percent = F32 100,
     am_decoder_queue_depth = 0, am_input_latency_ms = F32 0, am_send_queue_bytes = 0,
     am_estimated_bandwidth_kbps = 100000\<rparr>"

definition severe_metrics :: adaptation_metrics where
  "severe_metrics = healthy_metrics\<lparr>am_packet_loss_percent := F32 10\<rparr>"

lemma sample_adapter: "\<exists>st. adapter_new sample_limits = Inr st \<and> ba_limits st = sample_limits"
  by (simp add: adapter_new_def sample_limits_def)

theorem adaptation_within_limits_witness:
  "\<exists>st0. adapter_new sample_limits = Inr st0 \<and> path_constrained severe_metrics \<and>
     target_within sample_limits (ba_target (fst (adapter_update st0 severe_metrics)))"
proof -
  obtain st0 where st0: "adapter_new sample_limits = Inr st0" using sample_adapter by blast
  have "path_constrained severe_metrics"
    by (simp add: path_constrained_def path_severe_def severe_metrics_def healthy_metrics_def)
  with adaptation_within_limits [OF st0, of "[severe_metrics]"] st0 show ?thesis by simp
qed

text \<open>
  Recovery. From every reachable state, after enough updates that show a healthy
  path whose bandwidth budget covers the maximum, the video bit rate is back at its maximum.
\<close>

lemma adaptation_recovers:
  assumes "adapter_new limits = Inr st0" and "list_all (healthy limits) good"
    and "unat (al_maximum_video_bitrate_kbps limits) \<le> 100 * length good"
  shows "mt_video_bitrate_kbps (ba_target (foldl (\<lambda>st m. fst (adapter_update st m)) st0 (bad @ good)))
    = al_maximum_video_bitrate_kbps limits"
proof -
  let ?st = "foldl (\<lambda>st m. fst (adapter_update st m)) st0 bad"
  have inv: "adapter_inv limits ?st" using adapter_new_inv [OF assms(1)] by (rule adapter.run_preserves)
  have "adapter_inv limits (foldl (\<lambda>st m. fst (adapter_update st m)) ?st good)"
    using inv by (rule adapter.run_preserves)
  with healthy_run [OF inv assms(2)] assms(3) show ?thesis
    by (auto simp: adapter_inv_def target_within_def word_le_nat_alt word_unat_eq_iff)
qed

lemma adaptation_recovers_example:
  "\<exists>st0. adapter_new sample_limits = Inr st0 \<and>
     mt_video_bitrate_kbps (ba_target (foldl (\<lambda>st m. fst (adapter_update st m)) st0
       ([severe_metrics, severe_metrics] @ replicate 500 healthy_metrics))) = 50000"
proof -
  obtain st0 where st0: "adapter_new sample_limits = Inr st0" using sample_adapter by blast
  have "sat_mul (100000 :: u32) 80 div 100 = 80000" by (simp add: sat_mul_def)
  then have "healthy sample_limits healthy_metrics"
    by (simp add: healthy_def path_constrained_def path_severe_def healthy_metrics_def sample_limits_def)
  then have "list_all (healthy sample_limits) (replicate 500 healthy_metrics)"
    by (simp add: list_all_iff)
  from adaptation_recovers [OF st0 this, of "[severe_metrics, severe_metrics]"] st0 show ?thesis
    by (simp add: sample_limits_def)
qed

end
