(* ===== verification/Video_Tracks.thy ===== *)
theory Video_Tracks
  imports Video_Datagram "HOL-Library.Product_Lexorder" "HOL-Library.Option_ord"
begin

text \<open>
  Keys and source metadata of application video (\<open>src/transport/application.rs\<close>): stream and
  track keys with their derived order, the source information a payload carries, reference
  refresh requests, and the tagging of deltas with the keyframe they refer to.
\<close>

section \<open>Stream keys\<close>

definition MAX_VIDEO_EPOCH_STREAM_STATES :: usize where "MAX_VIDEO_EPOCH_STREAM_STATES = 8"
definition MAX_VIDEO_STREAM_STATES :: usize where "MAX_VIDEO_STREAM_STATES = 16"
definition MAX_PENDING_VIDEO_BYTES :: usize where "MAX_PENDING_VIDEO_BYTES = 64 * 1024 * 1024"
definition MAX_APPLICATION_FRAME_BYTES :: usize where "MAX_APPLICATION_FRAME_BYTES = 16 * 1024 * 1024"
definition MAX_VIDEO_DISPLAYS :: usize where "MAX_VIDEO_DISPLAYS = 64"

datatype video_stream_key = VideoStreamKey (vk_display: i32) (vk_stream_id: u64)

text \<open>The derived \<open>Ord\<close>: the display as a signed number, then the stream.\<close>

instantiation video_stream_key :: linorder
begin

definition less_eq_video_stream_key :: "video_stream_key \<Rightarrow> video_stream_key \<Rightarrow> bool" where
  "a \<le> b \<longleftrightarrow> (sint (vk_display a), vk_stream_id a) \<le> (sint (vk_display b), vk_stream_id b)"

definition less_video_stream_key :: "video_stream_key \<Rightarrow> video_stream_key \<Rightarrow> bool" where
  "a < b \<longleftrightarrow> (sint (vk_display a), vk_stream_id a) < (sint (vk_display b), vk_stream_id b)"

instance
proof
  fix x y z :: video_stream_key
  show "x < y \<longleftrightarrow> x \<le> y \<and> \<not> y \<le> x"
    unfolding less_video_stream_key_def less_eq_video_stream_key_def by (rule less_le_not_le)
  show "x \<le> x" by (simp add: less_eq_video_stream_key_def)
  show "x \<le> y \<Longrightarrow> y \<le> z \<Longrightarrow> x \<le> z"
    unfolding less_eq_video_stream_key_def by (rule order_trans)
  show "x = y" if "x \<le> y" "y \<le> x"
  proof -
    from that have "(sint (vk_display x), vk_stream_id x) = (sint (vk_display y), vk_stream_id y)"
      unfolding less_eq_video_stream_key_def by (rule order_antisym)
    then show ?thesis by (cases x; cases y) (simp add: signed_word_eqI)
  qed
  show "x \<le> y \<or> y \<le> x" unfolding less_eq_video_stream_key_def by (rule linear)
qed

end

datatype video_outbound_track_key =
  LatestTrack u64 | SourceTrack video_stream_key | UnscopedTrack

text \<open>The derived \<open>Ord\<close> of the enumeration: by variant, then by content.\<close>

instantiation video_outbound_track_key :: linorder
begin

fun less_eq_video_outbound_track_key ::
    "video_outbound_track_key \<Rightarrow> video_outbound_track_key \<Rightarrow> bool" where
  "LatestTrack a \<le> LatestTrack b \<longleftrightarrow> a \<le> b"
| "LatestTrack a \<le> SourceTrack b \<longleftrightarrow> True"
| "LatestTrack a \<le> UnscopedTrack \<longleftrightarrow> True"
| "SourceTrack a \<le> LatestTrack b \<longleftrightarrow> False"
| "SourceTrack a \<le> SourceTrack b \<longleftrightarrow> a \<le> b"
| "SourceTrack a \<le> UnscopedTrack \<longleftrightarrow> True"
| "UnscopedTrack \<le> LatestTrack b \<longleftrightarrow> False"
| "UnscopedTrack \<le> SourceTrack b \<longleftrightarrow> False"
| "UnscopedTrack \<le> UnscopedTrack \<longleftrightarrow> True"

definition less_video_outbound_track_key ::
    "video_outbound_track_key \<Rightarrow> video_outbound_track_key \<Rightarrow> bool" where
  "a < b \<longleftrightarrow> a \<le> b \<and> \<not> (b :: video_outbound_track_key) \<le> a"

instance
proof
  fix x y z :: video_outbound_track_key
  show "x < y \<longleftrightarrow> x \<le> y \<and> \<not> y \<le> x" by (rule less_video_outbound_track_key_def)
  show "x \<le> x" by (cases x) simp_all
  show "x \<le> y \<Longrightarrow> y \<le> z \<Longrightarrow> x \<le> z" by (cases x; cases y; cases z) auto
  show "x \<le> y \<Longrightarrow> y \<le> x \<Longrightarrow> x = y" by (cases x; cases y) auto
  show "x \<le> y \<or> y \<le> x" by (cases x; cases y) auto
qed

end

section \<open>Source information\<close>

record video_source_info =
  si_key :: video_stream_key
  si_frame_id :: u64
  si_keyframe :: bool
  si_codec :: video_codec

definition resolve_track_key ::
    "u64 option \<Rightarrow> video_source_info option \<Rightarrow> video_outbound_track_key" where
  "resolve_track_key latest_key source_info =
     (case latest_key of
        Some key \<Rightarrow> LatestTrack key
      | None \<Rightarrow> (case source_info of Some source \<Rightarrow> SourceTrack (si_key source) | None \<Rightarrow> UnscopedTrack))"

text \<open>The fields of the protobuf message \<open>VideoReferenceRefresh\<close> the code sets.\<close>

record video_reference_refresh_request =
  vrr_display :: i32
  vrr_stream_id :: u64
  vrr_received_frame_id :: u64
  vrr_dropped_frames :: u64
  vrr_strict_recovery :: bool

definition video_reference_refresh ::
    "video_source_info \<Rightarrow> u64 \<Rightarrow> bool \<Rightarrow> video_reference_refresh_request option" where
  "video_reference_refresh info dropped_frames strict_recovery =
     (if sint (vk_display (si_key info)) < 0 \<or> vk_stream_id (si_key info) = 0 \<or> si_frame_id info = 0
      then None
      else Some \<lparr>vrr_display = vk_display (si_key info), vrr_stream_id = vk_stream_id (si_key info),
                 vrr_received_frame_id = si_frame_id info, vrr_dropped_frames = dropped_frames,
                 vrr_strict_recovery = strict_recovery\<rparr>)"

section \<open>Outbound video\<close>

record video_outbound =
  vob_track_key :: video_outbound_track_key
  vob_metadata :: video_frame_metadata
  vob_source_info :: "video_source_info option"
  vob_payload :: bytes
  vob_ordering_epoch :: u64

definition outbound_is_keyframe :: "video_outbound \<Rightarrow> bool" where
  "outbound_is_keyframe item \<longleftrightarrow> is_keyframe_flags (vm_flags (vob_metadata item))"

definition should_replace_pending_video :: "video_outbound \<Rightarrow> video_outbound \<Rightarrow> bool" where
  "should_replace_pending_video pending incoming =
     (if vob_ordering_epoch incoming \<noteq> vob_ordering_epoch pending
      then vob_ordering_epoch incoming > vob_ordering_epoch pending
      else \<not> outbound_is_keyframe pending \<or> outbound_is_keyframe incoming)"

definition apply_video_reference_epoch ::
    "video_outbound \<Rightarrow> (video_stream_key, u64) btree_map \<Rightarrow> bool \<Rightarrow>
     video_outbound \<times> (video_stream_key, u64) btree_map \<times> u64 option" where
  "apply_video_reference_epoch item reference_epochs keyframe_barrier =
     (if \<not> keyframe_barrier then (item, reference_epochs, None)
      else case vob_source_info item of
        None \<Rightarrow> (item, reference_epochs, None)
      | Some info \<Rightarrow>
        if outbound_is_keyframe item then
          (let retained = filter (\<lambda>e. vk_display (fst e) \<noteq> vk_display (si_key info) \<or> fst e = si_key info)
                 reference_epochs in
           (item, bm_insert (si_key info) (si_frame_id info) retained, Some (si_frame_id info)))
        else
          (let epoch = (case bm_get reference_epochs (si_key info) of Some e \<Rightarrow> e | None \<Rightarrow> 0) in
           (item\<lparr>vob_metadata := (vob_metadata item)\<lparr>vm_presentation_timestamp_us := epoch\<rparr>\<rparr>,
            reference_epochs, Some epoch)))"

end
