(* ===== verification/Video_Holdback.thy ===== *)
theory Video_Holdback
  imports Video_Tracks
begin

text \<open>
  The keyframe barrier (\<open>VideoEpochHoldback\<close> of \<open>src/transport/application.rs\<close>): deltas wait
  until the keyframe they refer to has been delivered and are released in order, over a short
  reorder window, within a bound on frames, bytes and streams.
\<close>

section \<open>Data\<close>

definition VIDEO_EPOCH_HOLDBACK_TIMEOUT :: duration where
  "VIDEO_EPOCH_HOLDBACK_TIMEOUT = from_secs 2"
definition VIDEO_EPOCH_REORDER_MIN :: duration where "VIDEO_EPOCH_REORDER_MIN = from_millis 40"
definition VIDEO_EPOCH_REORDER_MAX :: duration where "VIDEO_EPOCH_REORDER_MAX = from_millis 120"
definition VIDEO_EPOCH_REORDER_JITTER :: duration where
  "VIDEO_EPOCH_REORDER_JITTER = from_millis 10"
definition VIDEO_EPOCH_HOLDBACK_MAX_FRAMES :: usize where "VIDEO_EPOCH_HOLDBACK_MAX_FRAMES = 120"
definition VIDEO_EPOCH_HOLDBACK_MAX_BYTES :: usize where
  "VIDEO_EPOCH_HOLDBACK_MAX_BYTES = 16 * 1024 * 1024"

text \<open>The saturation of the two duration operations lies above the upper clamp.\<close>

definition video_epoch_reorder_window :: "duration \<Rightarrow> duration" where
  "video_epoch_reorder_window rtt =
     max VIDEO_EPOCH_REORDER_MIN
       (min (rtt * 2 + VIDEO_EPOCH_REORDER_JITTER) VIDEO_EPOCH_REORDER_MAX)"

record held_video_frame =
  hf_info :: video_source_info
  hf_payload :: bytes
  hf_received_at :: instant
  hf_counted_held :: bool

record epoch_stream_state =
  es_current_epoch :: u64
  es_next_frame_id :: u64
  es_pending :: "(u64 \<times> u64, held_video_frame) btree_map"
  es_pending_bytes :: usize
  es_gap_started_at :: "instant option"
  es_last_activity :: u64

definition epoch_stream_default :: epoch_stream_state where
  "epoch_stream_default = \<lparr>es_current_epoch = 0, es_next_frame_id = 0, es_pending = [],
     es_pending_bytes = 0, es_gap_started_at = None, es_last_activity = 0\<rparr>"

record epoch_holdback =
  eh_streams :: "(video_stream_key, epoch_stream_state) btree_map"
  eh_activity_generation :: u64

definition epoch_holdback_default :: epoch_holdback where
  "epoch_holdback_default = \<lparr>eh_streams = [], eh_activity_generation = 0\<rparr>"

record holdback_outcome =
  ho_ready :: "(video_source_info \<times> bytes) list"
  ho_held_frames :: usize
  ho_released_frames :: usize
  ho_recovery_required :: bool
  ho_strict_recovery_required :: bool
  ho_gap_events :: usize
  ho_gap_skipped_frames :: u64
  ho_timed_out_frames :: usize
  ho_overflowed_frames :: usize

definition holdback_outcome_default :: holdback_outcome where
  "holdback_outcome_default = \<lparr>ho_ready = [], ho_held_frames = 0, ho_released_frames = 0,
     ho_recovery_required = False, ho_strict_recovery_required = False, ho_gap_events = 0,
     ho_gap_skipped_frames = 0, ho_timed_out_frames = 0, ho_overflowed_frames = 0\<rparr>"

section \<open>Draining a stream\<close>

text \<open>The loop of \<open>drain_ready\<close>: it takes the next frame, or waits for it, or skips to the next
  one available when the reorder window has passed.\<close>

definition next_available :: "epoch_stream_state \<Rightarrow> u64 option" where
  "next_available st =
     map_option (\<lambda>e. snd (fst e))
       (List.find (\<lambda>e. fst (fst e) = es_current_epoch st \<and> snd (fst e) > es_next_frame_id st)
          (es_pending st))"

definition take_next :: "epoch_stream_state \<Rightarrow> held_video_frame \<Rightarrow> epoch_stream_state" where
  "take_next st frame =
     st\<lparr>es_pending := bm_remove (es_current_epoch st, es_next_frame_id st) (es_pending st),
        es_gap_started_at := None,
        es_pending_bytes := es_pending_bytes st - length (hf_payload frame),
        es_next_frame_id := sat_add (es_next_frame_id st) 1\<rparr>"

function drain_loop ::
    "instant \<Rightarrow> duration \<Rightarrow> epoch_stream_state \<Rightarrow> (video_source_info \<times> bytes) list \<Rightarrow> usize \<Rightarrow> u64 \<Rightarrow>
     epoch_stream_state \<times> (video_source_info \<times> bytes) list \<times> usize \<times> u64" where
  "drain_loop now reorder_window st ready released skipped =
     (if es_current_epoch st = 0 \<or> es_next_frame_id st = 0 then (st, ready, released, skipped)
      else case bm_get (es_pending st) (es_current_epoch st, es_next_frame_id st) of
        Some frame \<Rightarrow>
          drain_loop now reorder_window (take_next st frame)
            (ready @ [(hf_info frame, hf_payload frame)])
            (if hf_counted_held frame then usize_sat_add released 1 else released) skipped
      | None \<Rightarrow>
        (case next_available st of
           None \<Rightarrow> (st\<lparr>es_gap_started_at := None\<rparr>, ready, released, skipped)
         | Some available \<Rightarrow>
             (let started = (case es_gap_started_at st of Some t \<Rightarrow> t | None \<Rightarrow> now) in
              if saturating_duration_since now started < reorder_window
              then (st\<lparr>es_gap_started_at := Some started\<rparr>, ready, released, skipped)
              else drain_loop now reorder_window
                     (st\<lparr>es_next_frame_id := available, es_gap_started_at := None\<rparr>) ready released
                     (sat_add skipped (sat_sub available (es_next_frame_id st))))))"
  by pat_completeness auto

lemma length_remove_present:
  "bm_get m k = Some v \<Longrightarrow> length (bm_remove k m) < length m"
  unfolding bm_remove_def
  by (rule length_filter_less [of "(k, v)"]) (auto dest: map_of_SomeD)

lemma next_available_present:
  assumes "next_available st = Some available"
  shows "bm_contains (es_pending st) (es_current_epoch st, available) \<and> es_next_frame_id st < available"
proof -
  from assms obtain e where "List.find (\<lambda>e. fst (fst e) = es_current_epoch st \<and>
      snd (fst e) > es_next_frame_id st) (es_pending st) = Some e" and a: "available = snd (fst e)"
    by (auto simp: next_available_def)
  from find_mem [OF this(1)] have "e \<in> set (es_pending st)"
    and "fst e = (es_current_epoch st, available)" "es_next_frame_id st < available"
    by (auto simp: a prod_eq_iff)
  then show ?thesis by (metis bm_contains_iff image_eqI)
qed

termination drain_loop
  by (relation "measure (\<lambda>(now, window, st, ready, released, skipped). 2 * length (es_pending st) +
      (if bm_contains (es_pending st) (es_current_epoch st, es_next_frame_id st) then 0 else 1))")
    (auto simp: take_next_def bm_contains_def dest!: length_remove_present
      next_available_present [unfolded bm_contains_def])

declare drain_loop.simps [simp del]

definition drain_ready ::
    "epoch_stream_state \<Rightarrow> instant \<Rightarrow> duration \<Rightarrow>
     epoch_stream_state \<times> (video_source_info \<times> bytes) list \<times> usize \<times> u64" where
  "drain_ready st now reorder_window = drain_loop now reorder_window st [] 0 0"

section \<open>Expiry\<close>

text \<open>What the three callers do with the result of \<open>drain_ready\<close>.\<close>

definition note_drained ::
    "holdback_outcome \<Rightarrow> (video_source_info \<times> bytes) list \<Rightarrow> usize \<Rightarrow> u64 \<Rightarrow> holdback_outcome" where
  "note_drained outcome ready released skipped =
     (let o1 = outcome\<lparr>ho_released_frames := usize_sat_add (ho_released_frames outcome) released\<rparr>;
          o2 = (if skipped > 0 then
                  o1\<lparr>ho_gap_events := usize_sat_add (ho_gap_events o1) 1,
                     ho_gap_skipped_frames := sat_add (ho_gap_skipped_frames o1) skipped,
                     ho_recovery_required := True\<rparr>
                else o1) in
      o2\<lparr>ho_ready := ho_ready o2 @ ready\<rparr>)"

text \<open>Removal of listed frames with their bytes; the counter is the number removed.\<close>

fun drop_held :: "epoch_stream_state \<Rightarrow> (u64 \<times> u64) list \<Rightarrow> usize \<Rightarrow> epoch_stream_state \<times> usize" where
  "drop_held st [] count = (st, count)"
| "drop_held st (k # ks) count =
     (case bm_get (es_pending st) k of
        None \<Rightarrow> drop_held st ks count
      | Some frame \<Rightarrow>
          drop_held (st\<lparr>es_pending := bm_remove k (es_pending st),
                        es_pending_bytes := es_pending_bytes st - length (hf_payload frame)\<rparr>)
            ks (usize_sat_add count 1))"

definition timed_out_keys :: "epoch_stream_state \<Rightarrow> instant \<Rightarrow> (u64 \<times> u64) list" where
  "timed_out_keys st now =
     map fst (filter (\<lambda>e. saturating_duration_since now (hf_received_at (snd e))
                \<ge> VIDEO_EPOCH_HOLDBACK_TIMEOUT) (es_pending st))"

definition expire_stream ::
    "instant \<Rightarrow> duration \<Rightarrow> epoch_stream_state \<Rightarrow> holdback_outcome \<Rightarrow>
     epoch_stream_state \<times> holdback_outcome" where
  "expire_stream now reorder_window st outcome =
     (case drain_ready st now reorder_window of (st1, ready, released, skipped) \<Rightarrow>
        (let o1 = note_drained outcome ready released skipped;
             (st2, timed_out) = drop_held st1 (timed_out_keys st1 now) (ho_timed_out_frames o1);
             o2 = o1\<lparr>ho_timed_out_frames := timed_out\<rparr> in
         (st2, if timed_out > 0
               then o2\<lparr>ho_recovery_required := True, ho_strict_recovery_required := True\<rparr> else o2)))"

fun expire_streams ::
    "instant \<Rightarrow> duration \<Rightarrow> (video_stream_key, epoch_stream_state) btree_map \<Rightarrow> holdback_outcome \<Rightarrow>
     (video_stream_key, epoch_stream_state) btree_map \<times> holdback_outcome" where
  "expire_streams now reorder_window [] outcome = ([], outcome)"
| "expire_streams now reorder_window ((key, st) # streams) outcome =
     (case expire_stream now reorder_window st outcome of (st', outcome') \<Rightarrow>
        (case expire_streams now reorder_window streams outcome' of (streams', outcome'') \<Rightarrow>
           ((key, st') # streams', outcome'')))"

definition holdback_expire ::
    "epoch_holdback \<Rightarrow> instant \<Rightarrow> duration \<Rightarrow> epoch_holdback \<times> holdback_outcome" where
  "holdback_expire hb now reorder_window =
     (case expire_streams now reorder_window (eh_streams hb) holdback_outcome_default of
        (streams, outcome) \<Rightarrow> (hb\<lparr>eh_streams := streams\<rparr>, outcome))"

section \<open>Admission\<close>

definition evict_idle_stream ::
    "(video_stream_key, epoch_stream_state) btree_map \<Rightarrow> holdback_outcome \<Rightarrow>
     (video_stream_key, epoch_stream_state) btree_map \<times> holdback_outcome" where
  "evict_idle_stream streams outcome =
     (case min_by_key (\<lambda>e. es_last_activity (snd e)) streams of
        None \<Rightarrow> (streams, outcome)
      | Some (oldest, st) \<Rightarrow>
          (bm_remove oldest streams,
           if es_pending st \<noteq> [] then
             outcome\<lparr>ho_overflowed_frames :=
                       usize_sat_add (ho_overflowed_frames outcome) (length (es_pending st)),
                     ho_recovery_required := True,
                     ho_strict_recovery_required := True\<rparr>
           else outcome))"

definition holdback_prepare_stream ::
    "epoch_holdback \<Rightarrow> video_stream_key \<Rightarrow> holdback_outcome \<Rightarrow> epoch_holdback \<times> holdback_outcome" where
  "holdback_prepare_stream hb key outcome =
     (let generation = sat_add (eh_activity_generation hb) 1;
          (streams, outcome') =
            (if \<not> bm_contains (eh_streams hb) key
                \<and> length (eh_streams hb) \<ge> MAX_VIDEO_EPOCH_STREAM_STATES
             then evict_idle_stream (eh_streams hb) outcome
             else (eh_streams hb, outcome)) in
      (hb\<lparr>eh_activity_generation := generation,
          eh_streams := bm_update_default epoch_stream_default key
            (\<lambda>st. st\<lparr>es_last_activity := generation\<rparr>) streams\<rparr>, outcome'))"

definition pending_totals :: "epoch_holdback \<Rightarrow> usize \<times> usize" where
  "pending_totals hb =
     foldl (\<lambda>total e. (usize_sat_add (fst total) (length (es_pending (snd e))),
                       usize_sat_add (snd total) (es_pending_bytes (snd e)))) (0, 0) (eh_streams hb)"

definition clear_pending :: "epoch_holdback \<Rightarrow> epoch_holdback" where
  "clear_pending hb =
     hb\<lparr>eh_streams := map (\<lambda>(key, st). (key, st\<lparr>es_pending := [], es_pending_bytes := 0,
                                          es_gap_started_at := None\<rparr>)) (eh_streams hb)\<rparr>"

definition stream_or_default :: "epoch_holdback \<Rightarrow> video_stream_key \<Rightarrow> epoch_stream_state" where
  "stream_or_default hb key =
     (case bm_get (eh_streams hb) key of Some st \<Rightarrow> st | None \<Rightarrow> epoch_stream_default)"

definition drain_stream ::
    "epoch_holdback \<Rightarrow> video_stream_key \<Rightarrow> instant \<Rightarrow> duration \<Rightarrow> holdback_outcome \<Rightarrow>
     epoch_holdback \<times> holdback_outcome" where
  "drain_stream hb key now reorder_window outcome =
     (case bm_get (eh_streams hb) key of
        None \<Rightarrow> (hb, outcome)
      | Some st \<Rightarrow>
        (case drain_ready st now reorder_window of (st', ready, released, skipped) \<Rightarrow>
           (hb\<lparr>eh_streams := bm_insert key st' (eh_streams hb)\<rparr>,
            note_drained outcome ready released skipped)))"

definition hold_frame ::
    "epoch_stream_state \<Rightarrow> u64 \<times> u64 \<Rightarrow> held_video_frame \<Rightarrow> epoch_stream_state" where
  "hold_frame st frame_key frame =
     st\<lparr>es_pending_bytes := usize_sat_add (es_pending_bytes st) (length (hf_payload frame)),
        es_pending := bm_insert frame_key frame (es_pending st)\<rparr>"

definition admit_delta ::
    "epoch_holdback \<Rightarrow> video_source_info \<Rightarrow> u64 \<Rightarrow> bytes \<Rightarrow> instant \<Rightarrow> duration \<Rightarrow>
     epoch_holdback \<times> holdback_outcome" where
  "admit_delta hb0 info reference_epoch payload now reorder_window =
     (case holdback_expire hb0 now reorder_window of (hb1, outcome0) \<Rightarrow>
      if reference_epoch = 0 then
        (hb1, outcome0\<lparr>ho_recovery_required := True, ho_strict_recovery_required := True\<rparr>)
      else
      (case holdback_prepare_stream hb1 (si_key info) outcome0 of (hb2, outcome1) \<Rightarrow>
       (let st = stream_or_default hb2 (si_key info);
            frame_key = (reference_epoch, si_frame_id info) in
        if reference_epoch < es_current_epoch st
           \<or> (reference_epoch = es_current_epoch st \<and> es_next_frame_id st \<noteq> 0
              \<and> si_frame_id info < es_next_frame_id st)
           \<or> bm_contains (es_pending st) frame_key
          then (hb2, outcome1)
        else
          (let counted_held = (reference_epoch \<noteq> es_current_epoch st \<or> es_next_frame_id st = 0
                               \<or> si_frame_id info \<noteq> es_next_frame_id st);
               st' = hold_frame st frame_key
                 \<lparr>hf_info = info, hf_payload = payload, hf_received_at = now,
                  hf_counted_held = counted_held\<rparr>;
               hb3 = hb2\<lparr>eh_streams := bm_insert (si_key info) st' (eh_streams hb2)\<rparr>;
               outcome2 = (if counted_held
                 then outcome1\<lparr>ho_held_frames := usize_sat_add (ho_held_frames outcome1) 1\<rparr>
                 else outcome1);
               (frames, bytes) = pending_totals hb3 in
           if frames > VIDEO_EPOCH_HOLDBACK_MAX_FRAMES \<or> bytes > VIDEO_EPOCH_HOLDBACK_MAX_BYTES then
             (clear_pending hb3,
              outcome2\<lparr>ho_overflowed_frames := usize_sat_add (ho_overflowed_frames outcome2) frames,
                       ho_recovery_required := True, ho_strict_recovery_required := True\<rparr>)
           else drain_stream hb3 (si_key info) now reorder_window outcome2))))"

definition start_epoch :: "epoch_stream_state \<Rightarrow> u64 \<Rightarrow> epoch_stream_state" where
  "start_epoch st frame_id =
     (let st1 = st\<lparr>es_current_epoch := frame_id, es_next_frame_id := sat_add frame_id 1,
                   es_gap_started_at := None\<rparr>;
          obsolete = map fst (filter (\<lambda>e. fst (fst e) < frame_id \<or> snd (fst e) \<le> frame_id)
            (es_pending st1)) in
      fst (drop_held st1 obsolete 0))"

definition accept_keyframe ::
    "epoch_holdback \<Rightarrow> video_source_info \<Rightarrow> bytes \<Rightarrow> instant \<Rightarrow> duration \<Rightarrow>
     epoch_holdback \<times> holdback_outcome" where
  "accept_keyframe hb0 info payload now reorder_window =
     (let hb1 = hb0\<lparr>eh_streams := filter (\<lambda>e. vk_display (fst e) \<noteq> vk_display (si_key info)
                      \<or> vk_stream_id (fst e) = vk_stream_id (si_key info)) (eh_streams hb0)\<rparr> in
      case holdback_expire hb1 now reorder_window of (hb2, outcome0) \<Rightarrow>
      (case holdback_prepare_stream hb2 (si_key info) outcome0 of (hb3, outcome1) \<Rightarrow>
       (let st = start_epoch (stream_or_default hb3 (si_key info)) (si_frame_id info);
            hb4 = hb3\<lparr>eh_streams := bm_insert (si_key info) st (eh_streams hb3)\<rparr>;
            outcome2 = outcome1\<lparr>ho_ready := ho_ready outcome1 @ [(info, payload)]\<rparr> in
        drain_stream hb4 (si_key info) now reorder_window outcome2)))"

end
