(* ===== verification/Video_Holdback_Properties.thy ===== *)
theory Video_Holdback_Properties
  imports Video_Holdback
begin

text \<open>
  Correctness of the keyframe barrier. What it releases refines the contract a decoder needs:
  per stream a keyframe, then deltas of that keyframe in ascending order. Its memory is
  bounded on every input, and in-order deltas pass straight through.
\<close>

section \<open>What a decoder may be given\<close>

text \<open>
  The contract as a reference machine. It knows, per stream, the last keyframe and the last
  frame given to the decoder. A delta may pass if its sender tagged it with that keyframe
  (\<open>A\<close> holds the deltas received with their tags) and it is newer than the last frame.
\<close>

type_synonym decoder = "video_stream_key \<Rightarrow> (u64 \<times> u64) option"
type_synonym tagged_delta = "video_source_info \<times> u64 \<times> bytes"

definition decode_step ::
    "tagged_delta set \<Rightarrow> decoder \<Rightarrow> video_source_info \<times> bytes \<Rightarrow> decoder option" where
  "decode_step A cur frame =
     (case frame of (info, payload) \<Rightarrow>
        if si_keyframe info then Some (cur(si_key info \<mapsto> (si_frame_id info, si_frame_id info)))
        else case cur (si_key info) of
          None \<Rightarrow> None
        | Some (epoch, last_id) \<Rightarrow>
            if (info, epoch, payload) \<in> A \<and> last_id < si_frame_id info
            then Some (cur(si_key info \<mapsto> (epoch, si_frame_id info))) else None)"

fun decode_run :: "tagged_delta set \<Rightarrow> decoder \<Rightarrow> (video_source_info \<times> bytes) list \<Rightarrow> decoder option" where
  "decode_run A cur [] = Some cur"
| "decode_run A cur (frame # frames) =
     (case decode_step A cur frame of None \<Rightarrow> None | Some cur' \<Rightarrow> decode_run A cur' frames)"

lemma decode_run_append:
  "decode_run A cur (xs @ ys) =
     (case decode_run A cur xs of None \<Rightarrow> None | Some cur' \<Rightarrow> decode_run A cur' ys)"
  by (induction xs arbitrary: cur) (auto split: option.splits)

section \<open>Streams\<close>

abbreviation held_bytes :: "(u64 \<times> u64, held_video_frame) btree_map \<Rightarrow> nat" where
  "held_bytes \<equiv> bm_sum (\<lambda>h. length (hf_payload h))"

definition stream_inv :: "epoch_stream_state \<Rightarrow> bool" where
  "stream_inv s \<longleftrightarrow> bm_ok (es_pending s) \<and> es_pending_bytes s = held_bytes (es_pending s)"

text \<open>What draining and dropping do to a stream: frames only leave.\<close>

definition shrinks :: "epoch_stream_state \<Rightarrow> epoch_stream_state \<Rightarrow> bool" where
  "shrinks s s' \<longleftrightarrow> (stream_inv s \<longrightarrow> stream_inv s') \<and>
     set (es_pending s') \<subseteq> set (es_pending s) \<and>
     length (es_pending s') \<le> length (es_pending s) \<and> es_pending_bytes s' \<le> es_pending_bytes s"

lemma shrinks_refl: "es_pending s' = es_pending s \<Longrightarrow> es_pending_bytes s' = es_pending_bytes s \<Longrightarrow> shrinks s s'"
  by (simp add: shrinks_def stream_inv_def)

lemma shrinks_trans: "shrinks a b \<Longrightarrow> shrinks b c \<Longrightarrow> shrinks a c"
  by (auto simp: shrinks_def)

lemma shrinks_remove:
  assumes "bm_get (es_pending s) k = Some h" and "es_pending s' = bm_remove k (es_pending s)"
    and "es_pending_bytes s' = es_pending_bytes s - length (hf_payload h)"
  shows "shrinks s s'"
  using assms length_bm_remove_le [of k "es_pending s"]
    bm_sum_remove [of "es_pending s" k h "\<lambda>h. length (hf_payload h)"]
  by (auto simp: shrinks_def stream_inv_def set_bm_remove)

lemma drop_held_shrinks: "shrinks s (fst (drop_held s ks n))"
proof (induction s ks n rule: drop_held.induct)
  case (2 s k ks n)
  show ?case
  proof (cases "bm_get (es_pending s) k")
    case None
    with 2 show ?thesis by simp
  next
    case (Some h)
    let ?s = "s\<lparr>es_pending := bm_remove k (es_pending s),
      es_pending_bytes := es_pending_bytes s - length (hf_payload h)\<rparr>"
    have "shrinks s ?s" using Some by (intro shrinks_remove [of s k h]) simp_all
    with 2(2) [OF Some] Some show ?thesis by (auto intro: shrinks_trans)
  qed
qed (simp add: shrinks_refl)

lemma drop_held_position:
  "es_current_epoch (fst (drop_held s ks n)) = es_current_epoch s \<and>
   es_next_frame_id (fst (drop_held s ks n)) = es_next_frame_id s"
  by (induction s ks n rule: drop_held.induct) (auto split: option.splits)

text \<open>The link between a stream of the barrier and the reference machine.\<close>

definition held_ok :: "tagged_delta set \<Rightarrow> video_stream_key \<Rightarrow> epoch_stream_state \<Rightarrow> bool" where
  "held_ok A k s \<longleftrightarrow> (\<forall>((epoch, frame_id), h) \<in> set (es_pending s).
     si_key (hf_info h) = k \<and> si_frame_id (hf_info h) = frame_id \<and> \<not> si_keyframe (hf_info h) \<and>
     frame_id \<noteq> - 1 \<and> (hf_info h, epoch, hf_payload h) \<in> A)"

definition stream_rel ::
    "tagged_delta set \<Rightarrow> (u64 \<times> u64) option \<Rightarrow> video_stream_key \<Rightarrow> epoch_stream_state \<Rightarrow> bool" where
  "stream_rel A pos k s \<longleftrightarrow> held_ok A k s \<and>
     (es_current_epoch s \<noteq> 0 \<longrightarrow> es_next_frame_id s \<noteq> 0 \<longrightarrow>
        (\<exists>l. pos = Some (es_current_epoch s, l) \<and> l < es_next_frame_id s))"

lemma held_ok_shrinks: "held_ok A k s \<Longrightarrow> shrinks s s' \<Longrightarrow> held_ok A k s'"
  by (auto simp: held_ok_def shrinks_def)

lemma stream_rel_shrinks:
  "stream_rel A pos k s \<Longrightarrow> shrinks s s' \<Longrightarrow> es_current_epoch s' = es_current_epoch s \<Longrightarrow>
     es_next_frame_id s' = es_next_frame_id s \<Longrightarrow> stream_rel A pos k s'"
  by (auto simp: stream_rel_def dest: held_ok_shrinks)

lemma drain_loop_shrinks:
  "drain_loop now w s ready rel sk = (s', ready', rel', sk') \<Longrightarrow> shrinks s s'"
proof (induction now w s ready rel sk rule: drain_loop.induct)
  case (1 now w s ready rel sk)
  have take: "shrinks s (take_next s h)"
    if "bm_get (es_pending s) (es_current_epoch s, es_next_frame_id s) = Some h" for h
    using that by (rule shrinks_remove) (simp_all add: take_next_def)
  have still: "shrinks s (s\<lparr>es_gap_started_at := g\<rparr>)"
    "shrinks s (s\<lparr>es_next_frame_id := n, es_gap_started_at := g\<rparr>)" for n g
    by (simp_all add: shrinks_refl)
  note unfold = drain_loop.simps [of now w s ready rel sk] Let_def
  show ?case
  proof (cases "es_current_epoch s = 0 \<or> es_next_frame_id s = 0")
    case True
    with "1.prems" show ?thesis by (simp add: unfold shrinks_refl)
  next
    case pos: False
    show ?thesis
    proof (cases "bm_get (es_pending s) (es_current_epoch s, es_next_frame_id s)")
      case (Some h)
      with pos "1.prems" "1.IH"(2) [OF pos Some] shrinks_trans [OF take [OF Some]] show ?thesis
        by (simp add: unfold)
    next
      case None
      with pos "1.prems" "1.IH"(1) [OF pos None _ refl] still(1) shrinks_trans [OF still(2)]
      show ?thesis by (auto simp: unfold split: option.splits if_splits)
    qed
  qed
qed

lemma take_next_rel:
  assumes rel: "stream_rel A (cur k) k s" and pos: "es_current_epoch s \<noteq> 0" "es_next_frame_id s \<noteq> 0"
    and get: "bm_get (es_pending s) (es_current_epoch s, es_next_frame_id s) = Some h"
  defines "cur' \<equiv> cur(k \<mapsto> (es_current_epoch s, es_next_frame_id s))"
  shows "decode_step A cur (hf_info h, hf_payload h) = Some cur'"
    and "stream_rel A (cur' k) k (take_next s h)"
proof -
  have h: "si_key (hf_info h) = k" "si_frame_id (hf_info h) = es_next_frame_id s"
    "\<not> si_keyframe (hf_info h)" "es_next_frame_id s \<noteq> - 1" "(hf_info h, es_current_epoch s, hf_payload h) \<in> A"
    using rel bm_get_mem [OF get] by (auto simp: stream_rel_def held_ok_def)
  from rel pos obtain l where l: "cur k = Some (es_current_epoch s, l)" "l < es_next_frame_id s"
    by (auto simp: stream_rel_def)
  show "decode_step A cur (hf_info h, hf_payload h) = Some cur'"
    using h l by (simp add: decode_step_def cur'_def)
  have shr: "shrinks s (take_next s h)"
    using get by (rule shrinks_remove) (simp_all add: take_next_def)
  have "sat_add (es_next_frame_id s) 1 = es_next_frame_id s + 1"
    and "es_next_frame_id s < es_next_frame_id s + 1"
    using checked_add_one_Some [OF h(4)] checked_add_one_less [OF checked_add_one_Some [OF h(4)]]
    by (auto simp: checked_add_def sat_add_def split: if_splits)
  with rel shr show "stream_rel A (cur' k) k (take_next s h)"
    by (auto simp: stream_rel_def cur'_def take_next_def dest: held_ok_shrinks)
qed

lemma skip_rel:
  assumes "stream_rel A (cur k) k s" and "es_current_epoch s \<noteq> 0" "es_next_frame_id s \<noteq> 0"
    and "next_available s = Some available"
  shows "stream_rel A (cur k) k (s\<lparr>es_next_frame_id := available, es_gap_started_at := g\<rparr>)"
  using assms next_available_present [OF assms(4)]
  by (auto simp: stream_rel_def held_ok_def)

lemma gap_rel:
  "stream_rel A pos k (s\<lparr>es_gap_started_at := g\<rparr>) = stream_rel A pos k s"
  by (simp add: stream_rel_def held_ok_def)

lemma drain_loop_rel:
  "stream_rel A (cur k) k s \<Longrightarrow> drain_loop now w s ready rel sk = (s', ready', rel', sk') \<Longrightarrow>
     \<exists>xs cur'. ready' = ready @ xs \<and> decode_run A cur xs = Some cur' \<and> stream_rel A (cur' k) k s' \<and>
       (\<forall>k'. k' \<noteq> k \<longrightarrow> cur' k' = cur k')"
proof (induction now w s ready rel sk arbitrary: cur rule: drain_loop.induct)
  case (1 now w s ready rel sk)
  show ?case
  proof (cases "es_current_epoch s = 0 \<or> es_next_frame_id s = 0")
    case True
    with "1.prems" show ?thesis by (auto simp: drain_loop.simps [of _ _ s])
  next
    case False
    then have pos: "es_current_epoch s \<noteq> 0" "es_next_frame_id s \<noteq> 0" by auto
    show ?thesis
    proof (cases "bm_get (es_pending s) (es_current_epoch s, es_next_frame_id s)")
      case (Some h)
      let ?cur = "cur(k \<mapsto> (es_current_epoch s, es_next_frame_id s))"
      note t = take_next_rel [of A cur k s h, OF "1.prems"(1) pos Some]
      from "1.prems"(2) False Some have "drain_loop now w (take_next s h)
          (ready @ [(hf_info h, hf_payload h)]) (if hf_counted_held h then usize_sat_add rel 1 else rel) sk
          = (s', ready', rel', sk')" by (simp add: drain_loop.simps [of _ _ s])
      from "1.IH"(2) [OF False Some, of ?cur, OF t(2) this] obtain xs cur' where
        "ready' = (ready @ [(hf_info h, hf_payload h)]) @ xs" "decode_run A ?cur xs = Some cur'"
        "stream_rel A (cur' k) k s'" "\<forall>k'. k' \<noteq> k \<longrightarrow> cur' k' = ?cur k'"
        by blast
      then show ?thesis using t(1)
        by (intro exI [of _ "(hf_info h, hf_payload h) # xs"] exI [of _ cur']) simp
    next
      case None
      show ?thesis
      proof (cases "next_available s")
        case None': None
        with "1.prems" False None show ?thesis
          by (intro exI [of _ "[]"] exI [of _ cur]) (auto simp: drain_loop.simps [of _ _ s] gap_rel)
      next
        case (Some av)
        let ?g = "case es_gap_started_at s of Some t \<Rightarrow> t | None \<Rightarrow> now"
        show ?thesis
        proof (cases "saturating_duration_since now ?g < w")
          case True
          with "1.prems" False None Some show ?thesis
            by (intro exI [of _ "[]"] exI [of _ cur])
              (auto simp: drain_loop.simps [of _ _ s] Let_def gap_rel)
        next
          case late: False
          let ?s = "s\<lparr>es_next_frame_id := av, es_gap_started_at := None\<rparr>"
          from "1.prems"(2) False None Some late
          have "drain_loop now w ?s ready rel (sat_add sk (sat_sub av (es_next_frame_id s)))
            = (s', ready', rel', sk')" by (simp add: drain_loop.simps [of _ _ s] Let_def)
          from "1.IH"(1) [OF False None Some refl late, of cur,
              OF skip_rel [of A cur k s av, OF "1.prems"(1) pos Some] this]
          show ?thesis .
        qed
      qed
    qed
  qed
qed

section \<open>The barrier emits what a decoder accepts\<close>

text \<open>Frames appended to the ready list take the reference machine from one position to the next.\<close>

definition emits ::
    "tagged_delta set \<Rightarrow> decoder \<Rightarrow> holdback_outcome \<Rightarrow> decoder \<Rightarrow> holdback_outcome \<Rightarrow> bool" where
  "emits A cur out cur' out' \<longleftrightarrow>
     (\<exists>xs. ho_ready out' = ho_ready out @ xs \<and> decode_run A cur xs = Some cur')"

lemma emits_refl: "ho_ready out' = ho_ready out \<Longrightarrow> emits A cur out cur out'"
  by (auto simp: emits_def)

lemma emits_trans: "emits A cur out cur' out' \<Longrightarrow> emits A cur' out' cur'' out'' \<Longrightarrow> emits A cur out cur'' out''"
  by (fastforce simp: emits_def decode_run_append)

lemma ready_note_drained: "ho_ready (note_drained out ready released skipped) = ho_ready out @ ready"
  by (simp add: note_drained_def Let_def)

lemma drain_ready_rel:
  assumes "stream_rel A (cur k) k s" and "drain_ready s now w = (s', ready, released, skipped)"
  obtains cur' where "emits A cur out cur' (note_drained out ready released skipped)"
    and "stream_rel A (cur' k) k s'" and "\<And>k'. k' \<noteq> k \<Longrightarrow> cur' k' = cur k'"
  using drain_loop_rel [of A cur k s now w "[]" 0 0 s' ready released skipped] assms
  by (auto simp: drain_ready_def emits_def ready_note_drained)

lemma expire_stream_rel:
  assumes "stream_rel A (cur k) k s" and "expire_stream now w s out = (s', out')"
  obtains cur' where "emits A cur out cur' out'" and "stream_rel A (cur' k) k s'"
    and "\<And>k'. k' \<noteq> k \<Longrightarrow> cur' k' = cur k'"
proof -
  obtain s1 ready released skipped where d: "drain_ready s now w = (s1, ready, released, skipped)"
    by (metis prod_cases4)
  obtain cur' where c: "emits A cur out cur' (note_drained out ready released skipped)"
    "stream_rel A (cur' k) k s1" "\<And>k'. k' \<noteq> k \<Longrightarrow> cur' k' = cur k'"
    using drain_ready_rel [of A cur k s, OF assms(1) d] by blast
  let ?n = "ho_timed_out_frames (note_drained out ready released skipped)"
  from assms(2) d have s': "s' = fst (drop_held s1 (timed_out_keys s1 now) ?n)"
    and r: "ho_ready out' = ho_ready (note_drained out ready released skipped)"
    by (auto simp: expire_stream_def Let_def split: prod.splits if_splits)
  show ?thesis
  proof (rule that [of cur'])
    show "emits A cur out cur' out'" using c(1) r by (simp add: emits_def)
    show "stream_rel A (cur' k) k s'"
      unfolding s' using c(2) drop_held_shrinks by (rule stream_rel_shrinks) (simp_all add: drop_held_position)
  qed (rule c(3))
qed

abbreviation streams_rel ::
    "tagged_delta set \<Rightarrow> decoder \<Rightarrow> (video_stream_key, epoch_stream_state) btree_map \<Rightarrow> bool" where
  "streams_rel A cur streams \<equiv> (\<forall>e \<in> set streams. stream_rel A (cur (fst e)) (fst e) (snd e))"

lemma expire_streams_rel:
  "distinct (map fst streams) \<Longrightarrow> streams_rel A cur streams \<Longrightarrow>
   expire_streams now w streams out = (streams', out') \<Longrightarrow>
   \<exists>cur'. emits A cur out cur' out' \<and> streams_rel A cur' streams' \<and>
     (\<forall>k. k \<notin> fst ` set streams \<longrightarrow> cur' k = cur k)"
proof (induction now w streams out arbitrary: cur streams' out' rule: expire_streams.induct)
  case (2 now w k s streams out)
  obtain s1 out1 where one: "expire_stream now w s out = (s1, out1)" by fastforce
  obtain streams1 out2 where rest: "expire_streams now w streams out1 = (streams1, out2)" by fastforce
  have res: "streams' = (k, s1) # streams1" "out' = out2" using "2.prems"(3) one rest by auto
  have "stream_rel A (cur k) k s" using "2.prems"(2) by simp
  then obtain cur1 where c1: "emits A cur out cur1 out1" "stream_rel A (cur1 k) k s1"
    "\<And>k'. k' \<noteq> k \<Longrightarrow> cur1 k' = cur k'"
    using expire_stream_rel [of A cur k s, OF _ one] by blast
  have notin: "k \<notin> fst ` set streams" using "2.prems"(1) by simp
  have "streams_rel A cur1 streams" using "2.prems"(2) c1(3) notin by force
  with "2.IH" [OF one [symmetric], of cur1 streams1 out2] "2.prems"(1) rest obtain cur2 where
    c2: "emits A cur1 out1 cur2 out2" "streams_rel A cur2 streams1"
    "\<And>k'. k' \<notin> fst ` set streams \<Longrightarrow> cur2 k' = cur1 k'" by auto
  show ?case
    using emits_trans [OF c1(1) c2(1)] c1 c2 notin by (intro exI [of _ cur2]) (auto simp: res)
qed (auto intro: emits_refl)

lemma expire_streams_keys:
  "expire_streams now w streams out = (streams', out') \<Longrightarrow> map fst streams' = map fst streams"
  by (induction now w streams out arbitrary: streams' out' rule: expire_streams.induct)
    (auto split: prod.splits)

definition hb_rel :: "tagged_delta set \<Rightarrow> decoder \<Rightarrow> epoch_holdback \<Rightarrow> bool" where
  "hb_rel A cur hb \<longleftrightarrow> bm_ok (eh_streams hb) \<and> streams_rel A cur (eh_streams hb)"

lemma bm_ok_same_keys: "map fst m' = map fst m \<Longrightarrow> bm_ok m' = bm_ok m"
  by (simp add: bm_ok_def)

lemma holdback_expire_rel:
  assumes "hb_rel A cur hb" and "holdback_expire hb now w = (hb', out)"
  obtains cur' where "emits A cur holdback_outcome_default cur' out" and "hb_rel A cur' hb'"
proof -
  from assms(2) obtain streams' where e: "expire_streams now w (eh_streams hb) holdback_outcome_default
      = (streams', out)" and hb': "hb' = hb\<lparr>eh_streams := streams'\<rparr>"
    by (auto simp: holdback_expire_def split: prod.splits)
  from assms(1) have "distinct (map fst (eh_streams hb))" "streams_rel A cur (eh_streams hb)"
    and "bm_ok (eh_streams hb)" by (simp_all add: hb_rel_def bm_ok_distinct)
  from expire_streams_rel [OF this(1,2) e] this(3) that bm_ok_same_keys [OF expire_streams_keys [OF e]]
  show ?thesis by (fastforce simp: hb_rel_def hb')
qed

lemma stream_rel_default: "stream_rel A pos k epoch_stream_default"
  by (simp add: stream_rel_def held_ok_def epoch_stream_default_def)

lemma stream_rel_activity: "stream_rel A pos k (s\<lparr>es_last_activity := g\<rparr>) = stream_rel A pos k s"
  by (simp add: stream_rel_def held_ok_def)

lemma hb_rel_insert:
  "hb_rel A cur hb \<Longrightarrow> stream_rel A (cur k) k s \<Longrightarrow>
     hb_rel A cur (hb\<lparr>eh_streams := bm_insert k s (eh_streams hb)\<rparr>)"
  by (auto simp: hb_rel_def set_bm_insert)

lemma hb_rel_subset:
  "hb_rel A cur hb \<Longrightarrow> bm_ok streams \<Longrightarrow> set streams \<subseteq> set (eh_streams hb) \<Longrightarrow>
     hb_rel A cur (hb\<lparr>eh_streams := streams\<rparr>)"
  by (auto simp: hb_rel_def)

lemma hb_rel_stream: "hb_rel A cur hb \<Longrightarrow> stream_rel A (cur k) k (stream_or_default hb k)"
  by (fastforce simp: hb_rel_def stream_or_default_def stream_rel_default split: option.splits
      dest: bm_get_mem)

lemma evict_idle_subset:
  assumes "evict_idle_stream streams out = (streams', out')"
  shows "set streams' \<subseteq> set streams \<and> (bm_ok streams \<longrightarrow> bm_ok streams') \<and> ho_ready out' = ho_ready out"
  using assms by (auto simp: evict_idle_stream_def set_bm_remove split: option.splits if_splits)

lemma prepare_stream_rel:
  assumes rel: "hb_rel A cur hb" and "holdback_prepare_stream hb k out = (hb', out')"
  shows "hb_rel A cur hb' \<and> ho_ready out' = ho_ready out"
proof -
  obtain streams out1 where e: "(if \<not> bm_contains (eh_streams hb) k
      \<and> length (eh_streams hb) \<ge> MAX_VIDEO_EPOCH_STREAM_STATES
    then evict_idle_stream (eh_streams hb) out else (eh_streams hb, out)) = (streams, out1)" by fastforce
  let ?g = "sat_add (eh_activity_generation hb) 1"
  let ?hb = "hb\<lparr>eh_activity_generation := ?g, eh_streams := streams\<rparr>"
  have "set streams \<subseteq> set (eh_streams hb)" "bm_ok streams" and r: "ho_ready out1 = ho_ready out"
    using e rel evict_idle_subset [of "eh_streams hb" out streams out1]
    by (auto simp: hb_rel_def split: if_splits)
  then have "hb_rel A cur ?hb" using rel by (auto simp: hb_rel_def)
  then have "hb_rel A cur (?hb\<lparr>eh_streams := bm_insert k ((stream_or_default ?hb k)\<lparr>es_last_activity := ?g\<rparr>)
      (eh_streams ?hb)\<rparr>)"
    by (intro hb_rel_insert) (simp_all add: stream_rel_activity hb_rel_stream)
  with assms(2) r show ?thesis
    unfolding holdback_prepare_stream_def e Let_def
    by (auto simp: bm_update_default_def stream_or_default_def)
qed

lemma drain_stream_rel:
  assumes rel: "hb_rel A cur hb" and d: "drain_stream hb k now w out = (hb', out')"
  obtains cur' where "emits A cur out cur' out'" and "hb_rel A cur' hb'"
proof (cases "bm_get (eh_streams hb) k")
  case None
  with assms that [of cur] show ?thesis by (auto simp: drain_stream_def emits_refl)
next
  case (Some s)
  obtain s' ready released skipped where dr: "drain_ready s now w = (s', ready, released, skipped)"
    by (metis prod_cases4)
  have "stream_rel A (cur k) k s" using rel bm_get_mem [OF Some] by (auto simp: hb_rel_def)
  then obtain cur' where c: "emits A cur out cur' (note_drained out ready released skipped)"
    "stream_rel A (cur' k) k s'" "\<And>k'. k' \<noteq> k \<Longrightarrow> cur' k' = cur k'"
    using drain_ready_rel [of A cur k s, OF _ dr] by blast
  have "streams_rel A cur' (bm_insert k s' (eh_streams hb))"
    using rel c(2,3) by (auto simp: hb_rel_def set_bm_insert)
  with that [of cur'] c(1) rel d Some dr show ?thesis by (auto simp: drain_stream_def hb_rel_def)
qed

lemma hold_frame_rel:
  assumes "stream_rel A pos k s" and "(hf_info h, epoch, hf_payload h) \<in> A" "si_key (hf_info h) = k"
    and "si_frame_id (hf_info h) = frame_id" "\<not> si_keyframe (hf_info h)" "frame_id \<noteq> - 1"
  shows "stream_rel A pos k (hold_frame s (epoch, frame_id) h)"
  using assms set_bm_insert_subset [of "(epoch, frame_id)" h "es_pending s"]
  by (auto simp: stream_rel_def held_ok_def hold_frame_def)

lemma clear_pending_rel: "hb_rel A cur hb \<Longrightarrow> hb_rel A cur (clear_pending hb)"
  by (auto simp: hb_rel_def clear_pending_def bm_ok_map_values stream_rel_def held_ok_def)

lemma start_epoch_rel:
  assumes "stream_rel A pos k s" and "frame_id \<noteq> - 1"
  shows "stream_rel A (Some (frame_id, frame_id)) k (start_epoch s frame_id)"
proof -
  have "sat_add frame_id 1 = frame_id + 1" "frame_id < frame_id + 1"
    using checked_add_one_Some [OF assms(2)] checked_add_one_less [OF checked_add_one_Some [OF assms(2)]]
    by (auto simp: checked_add_def sat_add_def split: if_splits)
  with assms(1) have "stream_rel A (Some (frame_id, frame_id)) k
      (s\<lparr>es_current_epoch := frame_id, es_next_frame_id := sat_add frame_id 1, es_gap_started_at := None\<rparr>)"
    by (simp add: stream_rel_def held_ok_def)
  then show ?thesis unfolding start_epoch_def Let_def
    by (rule stream_rel_shrinks [OF _ drop_held_shrinks]) (simp_all add: drop_held_position)
qed

lemma admit_delta_rel:
  assumes rel: "hb_rel A cur hb" and adm: "admit_delta hb info epoch payload now w = (hb', out)"
    and tag: "(info, epoch, payload) \<in> A" and info: "\<not> si_keyframe info" "si_frame_id info \<noteq> - 1"
  obtains cur' where "emits A cur holdback_outcome_default cur' out" and "hb_rel A cur' hb'"
proof -
  obtain hb1 o0 where e: "holdback_expire hb now w = (hb1, o0)" by fastforce
  obtain hb2 o1 where pr: "holdback_prepare_stream hb1 (si_key info) o0 = (hb2, o1)" by fastforce
  obtain cur1 where c1: "emits A cur holdback_outcome_default cur1 o0" "hb_rel A cur1 hb1"
    using holdback_expire_rel [OF rel e] by blast
  note p = prepare_stream_rel [OF c1(2) pr]
  define st where "st = stream_or_default hb2 (si_key info)"
  define counted where "counted = (epoch \<noteq> es_current_epoch st \<or> es_next_frame_id st = 0
      \<or> si_frame_id info \<noteq> es_next_frame_id st)"
  define st' where "st' = hold_frame st (epoch, si_frame_id info)
      \<lparr>hf_info = info, hf_payload = payload, hf_received_at = now, hf_counted_held = counted\<rparr>"
  define hb3 where "hb3 = hb2\<lparr>eh_streams := bm_insert (si_key info) st' (eh_streams hb2)\<rparr>"
  define o2 where "o2 = (if counted then o1\<lparr>ho_held_frames := usize_sat_add (ho_held_frames o1) 1\<rparr> else o1)"
  have st: "stream_rel A (cur1 (si_key info)) (si_key info) st"
    unfolding st_def using p by (simp add: hb_rel_stream)
  then have "stream_rel A (cur1 (si_key info)) (si_key info) st'"
    unfolding st'_def by (rule hold_frame_rel) (simp_all add: tag info)
  with p have hb3: "hb_rel A cur1 hb3" unfolding hb3_def by (simp add: hb_rel_insert)
  have o2: "ho_ready o2 = ho_ready o0" using p by (simp add: o2_def)
  obtain frames bytes where pt: "pending_totals hb3 = (frames, bytes)" by fastforce
  note adm' = adm [unfolded admit_delta_def e pr prod.case Let_def, folded st_def,
      folded counted_def, folded st'_def, folded hb3_def, folded o2_def, unfolded pt prod.case]
  consider (early) "hb_rel A cur1 hb'" "ho_ready out = ho_ready o0"
    | (drain) "drain_stream hb3 (si_key info) now w o2 = (hb', out)"
    using adm' c1(2) p clear_pending_rel [OF hb3] o2 by (auto split: if_splits)
  then show ?thesis
  proof cases
    case early
    with c1(1) that [of cur1] show ?thesis by (auto simp: emits_def)
  next
    case drain
    obtain cur2 where c2: "emits A cur1 o2 cur2 out" "hb_rel A cur2 hb'"
      using drain_stream_rel [OF hb3 drain] by blast
    have "emits A cur holdback_outcome_default cur1 o2" using c1(1) o2 by (simp add: emits_def)
    with c2 that [of cur2] emits_trans show ?thesis by blast
  qed
qed

lemma accept_keyframe_rel:
  assumes rel: "hb_rel A cur hb" and acc: "accept_keyframe hb info payload now w = (hb', out)"
    and info: "si_keyframe info" "si_frame_id info \<noteq> - 1"
  obtains cur' where "emits A cur holdback_outcome_default cur' out" and "hb_rel A cur' hb'"
proof -
  define hb1 where "hb1 = hb\<lparr>eh_streams := filter (\<lambda>e. vk_display (fst e) \<noteq> vk_display (si_key info)
      \<or> vk_stream_id (fst e) = vk_stream_id (si_key info)) (eh_streams hb)\<rparr>"
  have r1: "hb_rel A cur hb1" unfolding hb1_def
    using rel by (intro hb_rel_subset) (auto simp: hb_rel_def bm_ok_filter)
  obtain hb2 o0 where e: "holdback_expire hb1 now w = (hb2, o0)" by fastforce
  obtain hb3 o1 where pr: "holdback_prepare_stream hb2 (si_key info) o0 = (hb3, o1)" by fastforce
  obtain cur1 where c1: "emits A cur holdback_outcome_default cur1 o0" "hb_rel A cur1 hb2"
    using holdback_expire_rel [OF r1 e] by blast
  note p = prepare_stream_rel [OF c1(2) pr]
  let ?k = "si_key info" and ?f = "si_frame_id info"
  let ?st = "start_epoch (stream_or_default hb3 ?k) ?f"
  let ?hb4 = "hb3\<lparr>eh_streams := bm_insert ?k ?st (eh_streams hb3)\<rparr>"
  let ?o2 = "o1\<lparr>ho_ready := ho_ready o1 @ [(info, payload)]\<rparr>"
  let ?cur2 = "cur1(?k \<mapsto> (?f, ?f))"
  have "stream_rel A (?cur2 ?k) ?k ?st"
    using start_epoch_rel [OF _ info(2)] p hb_rel_stream [of A cur1 hb3 ?k] by auto
  moreover have "bm_ok (eh_streams hb3)" "streams_rel A cur1 (eh_streams hb3)" using p by (auto simp: hb_rel_def)
  ultimately have hb4: "hb_rel A ?cur2 ?hb4" by (auto simp: hb_rel_def set_bm_insert)
  from c1(1) obtain xs where xs: "ho_ready o0 = ho_ready holdback_outcome_default @ xs"
    "decode_run A cur xs = Some cur1" by (auto simp: emits_def)
  then have "emits A cur holdback_outcome_default ?cur2 ?o2"
    using p info by (auto simp: emits_def decode_run_append decode_step_def)
  moreover have "drain_stream ?hb4 ?k now w ?o2 = (hb', out)"
    using acc unfolding accept_keyframe_def Let_def hb1_def [symmetric] e pr prod.case .
  then obtain cur3 where "emits A ?cur2 ?o2 cur3 out" "hb_rel A cur3 hb'"
    using drain_stream_rel [OF hb4] by blast
  ultimately show ?thesis using that [of cur3] emits_trans by blast
qed

section \<open>Runs\<close>

datatype holdback_event =
    DeltaArrived video_source_info u64 bytes instant duration
  | KeyframeArrived video_source_info bytes instant duration
  | ExpiryPolled instant duration

fun holdback_step :: "epoch_holdback \<Rightarrow> holdback_event \<Rightarrow> epoch_holdback \<times> holdback_outcome" where
  "holdback_step hb (DeltaArrived info epoch payload now w) = admit_delta hb info epoch payload now w"
| "holdback_step hb (KeyframeArrived info payload now w) = accept_keyframe hb info payload now w"
| "holdback_step hb (ExpiryPolled now w) = holdback_expire hb now w"

fun holdback_run ::
    "epoch_holdback \<Rightarrow> holdback_event list \<Rightarrow> epoch_holdback \<times> (video_source_info \<times> bytes) list" where
  "holdback_run hb [] = (hb, [])"
| "holdback_run hb (e # es) =
     (case holdback_step hb e of (hb', out) \<Rightarrow>
        (case holdback_run hb' es of (hb'', ready) \<Rightarrow> (hb'', ho_ready out @ ready)))"

text \<open>Keyframes and deltas arrive at their own entry points, and no frame has the largest number.\<close>

fun event_ok :: "holdback_event \<Rightarrow> bool" where
  "event_ok (DeltaArrived info _ _ _ _) \<longleftrightarrow> \<not> si_keyframe info \<and> si_frame_id info \<noteq> - 1"
| "event_ok (KeyframeArrived info _ _ _) \<longleftrightarrow> si_keyframe info \<and> si_frame_id info \<noteq> - 1"
| "event_ok (ExpiryPolled _ _) \<longleftrightarrow> True"

fun tagged_deltas :: "holdback_event list \<Rightarrow> tagged_delta set" where
  "tagged_deltas [] = {}"
| "tagged_deltas (DeltaArrived info epoch payload _ _ # es) = insert (info, epoch, payload) (tagged_deltas es)"
| "tagged_deltas (_ # es) = tagged_deltas es"

lemma tagged_deltas_mem: "DeltaArrived info epoch payload now w \<in> set es \<Longrightarrow> (info, epoch, payload) \<in> tagged_deltas es"
  by (induction es rule: tagged_deltas.induct) auto

lemma holdback_step_rel:
  assumes "hb_rel A cur hb" and "holdback_step hb e = (hb', out)" and "event_ok e"
    and "\<And>info epoch payload now w. e = DeltaArrived info epoch payload now w \<Longrightarrow> (info, epoch, payload) \<in> A"
  obtains cur' where "decode_run A cur (ho_ready out) = Some cur'" and "hb_rel A cur' hb'"
proof -
  have "\<exists>cur'. emits A cur holdback_outcome_default cur' out \<and> hb_rel A cur' hb'"
  proof (cases e)
    case (DeltaArrived info epoch payload now w)
    with assms admit_delta_rel [of A cur hb info epoch payload now w hb' out] show ?thesis by auto
  next
    case (KeyframeArrived info payload now w)
    with assms accept_keyframe_rel [of A cur hb info payload now w hb' out] show ?thesis by auto
  next
    case (ExpiryPolled now w)
    with assms holdback_expire_rel [of A cur hb now w hb' out] show ?thesis by auto
  qed
  with that show ?thesis by (auto simp: emits_def holdback_outcome_default_def)
qed

lemma holdback_run_rel:
  "hb_rel A cur hb \<Longrightarrow> list_all event_ok es \<Longrightarrow> tagged_deltas es \<subseteq> A \<Longrightarrow>
   holdback_run hb es = (hb', ready) \<Longrightarrow>
   \<exists>cur'. decode_run A cur ready = Some cur' \<and> hb_rel A cur' hb'"
proof (induction es arbitrary: cur hb ready)
  case (Cons e es)
  obtain hb1 out where st: "holdback_step hb e = (hb1, out)" by fastforce
  with Cons.prems(4) obtain ready' where run: "holdback_run hb1 es = (hb', ready')"
    and r: "ready = ho_ready out @ ready'" by (auto split: prod.splits)
  have "(info, epoch, payload) \<in> A" if "e = DeltaArrived info epoch payload now w" for info epoch payload now w
    using that Cons.prems(3) by simp
  with holdback_step_rel [OF Cons.prems(1) st] Cons.prems(2) obtain cur1 where
    c1: "decode_run A cur (ho_ready out) = Some cur1" "hb_rel A cur1 hb1" by auto
  have "tagged_deltas es \<subseteq> A" using Cons.prems(3) by (cases e) auto
  from Cons.IH [OF c1(2) _ this run] Cons.prems(2) c1(1) show ?case by (auto simp: r decode_run_append)
qed auto

section \<open>Memory\<close>

abbreviation total_frames :: "(video_stream_key, epoch_stream_state) btree_map \<Rightarrow> nat" where
  "total_frames \<equiv> bm_sum (\<lambda>s. length (es_pending s))"

abbreviation total_bytes :: "(video_stream_key, epoch_stream_state) btree_map \<Rightarrow> nat" where
  "total_bytes \<equiv> bm_sum es_pending_bytes"

lemma pending_totals_eq:
  "pending_totals hb = (min (total_frames (eh_streams hb)) usize_max, min (total_bytes (eh_streams hb)) usize_max)"
proof -
  have "foldl (\<lambda>total e. (usize_sat_add (fst total) (length (es_pending (snd e))),
            usize_sat_add (snd total) (es_pending_bytes (snd e)))) (min a usize_max, min b usize_max) m
      = (min (a + total_frames m) usize_max, min (b + total_bytes m) usize_max)"
    for a b and m :: "(video_stream_key, epoch_stream_state) btree_map"
  proof (induction m arbitrary: a b)
    case (Cons e m)
    have "usize_sat_add (min a usize_max) (length (es_pending (snd e))) = min (a + length (es_pending (snd e))) usize_max"
      "usize_sat_add (min b usize_max) (es_pending_bytes (snd e)) = min (b + es_pending_bytes (snd e)) usize_max"
      by (simp_all add: usize_sat_add_def)
    with Cons.IH [of "a + length (es_pending (snd e))" "b + es_pending_bytes (snd e)"] show ?case
      by (simp add: add.assoc)
  qed simp
  from this [of 0 0] show ?thesis by (simp add: pending_totals_def)
qed

definition hb_wf :: "epoch_holdback \<Rightarrow> bool" where
  "hb_wf hb \<longleftrightarrow> bm_ok (eh_streams hb) \<and> length (eh_streams hb) \<le> MAX_VIDEO_EPOCH_STREAM_STATES \<and>
     (\<forall>e \<in> set (eh_streams hb). stream_inv (snd e))"

definition hb_bounded :: "epoch_holdback \<Rightarrow> bool" where
  "hb_bounded hb \<longleftrightarrow> hb_wf hb \<and> total_frames (eh_streams hb) \<le> VIDEO_EPOCH_HOLDBACK_MAX_FRAMES \<and>
     total_bytes (eh_streams hb) \<le> VIDEO_EPOCH_HOLDBACK_MAX_BYTES"

lemma stream_inv_fields [simp]:
  "stream_inv (s\<lparr>es_gap_started_at := g\<rparr>) = stream_inv s" "stream_inv (s\<lparr>es_last_activity := a\<rparr>) = stream_inv s"
  "stream_inv (s\<lparr>es_next_frame_id := n\<rparr>) = stream_inv s" "stream_inv (s\<lparr>es_current_epoch := e\<rparr>) = stream_inv s"
  by (simp_all add: stream_inv_def)

lemma stream_inv_default [simp]: "stream_inv epoch_stream_default"
  by (simp add: stream_inv_def epoch_stream_default_def)

lemma expire_stream_shrinks:
  assumes "expire_stream now w s out = (s', out')"
  shows "shrinks s s'"
proof -
  obtain s1 ready released skipped where d: "drain_ready s now w = (s1, ready, released, skipped)"
    by (metis prod_cases4)
  then have "shrinks s s1" unfolding drain_ready_def by (rule drain_loop_shrinks)
  moreover from assms d have "s' = fst (drop_held s1 (timed_out_keys s1 now)
      (ho_timed_out_frames (note_drained out ready released skipped)))"
    by (auto simp: expire_stream_def Let_def split: prod.splits if_splits)
  ultimately show ?thesis using drop_held_shrinks shrinks_trans by blast
qed

lemma expire_streams_bounded:
  "expire_streams now w streams out = (streams', out') \<Longrightarrow>
     total_frames streams' \<le> total_frames streams \<and> total_bytes streams' \<le> total_bytes streams \<and>
     ((\<forall>e \<in> set streams. stream_inv (snd e)) \<longrightarrow> (\<forall>e \<in> set streams'. stream_inv (snd e)))"
proof (induction now w streams out arbitrary: streams' out' rule: expire_streams.induct)
  case (2 now w k s streams out)
  obtain s1 out1 where one: "expire_stream now w s out = (s1, out1)" by fastforce
  obtain streams1 out2 where rest: "expire_streams now w streams out1 = (streams1, out2)" by fastforce
  from "2.IH" [OF one [symmetric] rest] expire_stream_shrinks [OF one] "2.prems" one rest show ?case
    by (auto simp: shrinks_def)
qed simp

lemma holdback_expire_bounded:
  assumes "hb_bounded hb" and "holdback_expire hb now w = (hb', out)"
  shows "hb_bounded hb'"
proof -
  from assms(2) obtain streams' where e: "expire_streams now w (eh_streams hb) holdback_outcome_default
      = (streams', out)" and hb': "hb' = hb\<lparr>eh_streams := streams'\<rparr>"
    by (auto simp: holdback_expire_def split: prod.splits)
  have keys: "map fst streams' = map fst (eh_streams hb)" by (rule expire_streams_keys [OF e])
  then have "length streams' = length (eh_streams hb)" by (metis length_map)
  with assms(1) expire_streams_bounded [OF e] bm_ok_same_keys [OF keys] show ?thesis
    by (auto simp: hb_bounded_def hb_wf_def hb')
qed

lemma bm_sum_mono_remove: "bm_sum f (bm_remove k m) \<le> bm_sum f m"
  unfolding bm_remove_def by (induction m) auto

lemma bm_sum_filter_le: "bm_sum f (filter P m) \<le> bm_sum f m"
  by (induction m) auto

lemma bm_sum_replace:
  assumes "bm_ok m"
  shows "bm_sum f (bm_insert k v m) + (case bm_get m k of Some u \<Rightarrow> f u | None \<Rightarrow> 0) = bm_sum f m + f v"
proof (cases "bm_get m k")
  case None
  with bm_sum_insert [OF assms, of f k v] show ?thesis by (simp add: bm_remove_absent)
next
  case (Some u)
  with bm_sum_insert [OF assms, of f k v] bm_sum_remove [OF assms Some, of f] show ?thesis by simp
qed

lemma hb_bounded_insert:
  assumes "hb_bounded hb" and "stream_inv s" and room: "bm_contains (eh_streams hb) k \<or>
      length (eh_streams hb) < MAX_VIDEO_EPOCH_STREAM_STATES"
    and "length (es_pending s) \<le> length (es_pending (stream_or_default hb k))"
    and "es_pending_bytes s \<le> es_pending_bytes (stream_or_default hb k)"
  shows "hb_bounded (hb\<lparr>eh_streams := bm_insert k s (eh_streams hb)\<rparr>)"
proof -
  have ok: "bm_ok (eh_streams hb)" using assms(1) by (simp add: hb_bounded_def hb_wf_def)
  have "total_frames (bm_insert k s (eh_streams hb)) \<le> total_frames (eh_streams hb)"
    "total_bytes (bm_insert k s (eh_streams hb)) \<le> total_bytes (eh_streams hb)"
    using bm_sum_replace [OF ok, of "\<lambda>s. length (es_pending s)" k s]
      bm_sum_replace [OF ok, of es_pending_bytes k s] assms(4,5)
    by (auto simp: stream_or_default_def epoch_stream_default_def split: option.splits)
  moreover have "length (bm_insert k s (eh_streams hb)) \<le> MAX_VIDEO_EPOCH_STREAM_STATES"
    using btree.bounded_insert [OF ok, of _ k s] assms(1) room
    by (auto simp: hb_bounded_def hb_wf_def bm_contains_def)
  ultimately show ?thesis using assms(1,2) ok by (auto simp: hb_bounded_def hb_wf_def set_bm_insert)
qed

lemma hb_bounded_subset:
  assumes "hb_bounded hb"
  shows "hb_bounded (hb\<lparr>eh_streams := filter P (eh_streams hb)\<rparr>)"
  using assms bm_sum_filter_le [of "\<lambda>s. length (es_pending s)" P "eh_streams hb"]
    bm_sum_filter_le [of es_pending_bytes P "eh_streams hb"]
  by (auto simp: hb_bounded_def hb_wf_def bm_ok_filter intro: order_trans [OF length_filter_le])

lemma hb_bounded_stream: "hb_bounded hb \<Longrightarrow> stream_inv (stream_or_default hb k)"
  by (fastforce simp: hb_bounded_def hb_wf_def stream_or_default_def split: option.splits dest: bm_get_mem)

lemma evict_idle_bounded:
  assumes "hb_bounded hb" and "evict_idle_stream (eh_streams hb) out = (streams, out')"
    and "MAX_VIDEO_EPOCH_STREAM_STATES \<le> length (eh_streams hb)"
  shows "hb_bounded (hb\<lparr>eh_streams := streams\<rparr>) \<and> length streams < MAX_VIDEO_EPOCH_STREAM_STATES"
proof -
  have "eh_streams hb \<noteq> []" using assms(3) by (auto simp: MAX_VIDEO_EPOCH_STREAM_STATES_def)
  then obtain e where m: "min_by_key (\<lambda>e. es_last_activity (snd e)) (eh_streams hb) = Some e"
    by (metis min_by_key_None option.exhaust)
  have "e \<in> set (eh_streams hb)" using min_by_key_Some [OF m] by simp
  then have "bm_get (eh_streams hb) (fst e) = Some (snd e)"
    using assms(1) by (intro bm_mem_get) (auto simp: hb_bounded_def hb_wf_def)
  moreover have "streams = bm_remove (fst e) (eh_streams hb)"
    using assms(2) m by (auto simp: evict_idle_stream_def split: prod.splits)
  ultimately show ?thesis
    using length_remove_present [of "eh_streams hb" "fst e" "snd e"] assms(1)
      hb_bounded_subset [OF assms(1), of "\<lambda>x. fst x \<noteq> fst e"]
    by (simp add: bm_remove_def hb_bounded_def hb_wf_def)
qed

lemma prepare_stream_bounded:
  assumes b: "hb_bounded hb" and pr: "holdback_prepare_stream hb k out = (hb', out')"
  shows "hb_bounded hb' \<and> bm_contains (eh_streams hb') k"
proof -
  obtain streams out1 where e: "(if \<not> bm_contains (eh_streams hb) k
      \<and> length (eh_streams hb) \<ge> MAX_VIDEO_EPOCH_STREAM_STATES
    then evict_idle_stream (eh_streams hb) out else (eh_streams hb, out)) = (streams, out1)" by fastforce
  let ?g = "sat_add (eh_activity_generation hb) 1"
  let ?hb = "hb\<lparr>eh_activity_generation := ?g, eh_streams := streams\<rparr>"
  have hb: "hb_bounded ?hb" and room: "bm_contains (eh_streams ?hb) k \<or>
      length (eh_streams ?hb) < MAX_VIDEO_EPOCH_STREAM_STATES"
    using e b evict_idle_bounded [OF b, of out streams out1]
    by (auto simp: hb_bounded_def hb_wf_def split: if_splits)
  have "hb_bounded (?hb\<lparr>eh_streams := bm_insert k ((stream_or_default ?hb k)\<lparr>es_last_activity := ?g\<rparr>)
      (eh_streams ?hb)\<rparr>)"
    using hb_bounded_stream [OF hb] by (intro hb_bounded_insert [OF hb _ room]) simp_all
  with pr show ?thesis
    unfolding holdback_prepare_stream_def e Let_def
    by (auto simp: bm_update_default_def stream_or_default_def bm_contains_iff)
qed

lemma drain_stream_bounded:
  assumes b: "hb_bounded hb" and d: "drain_stream hb k now w out = (hb', out')"
  shows "hb_bounded hb'"
proof (cases "bm_get (eh_streams hb) k")
  case None
  with assms show ?thesis by (auto simp: drain_stream_def)
next
  case (Some s)
  obtain s' ready released skipped where dr: "drain_ready s now w = (s', ready, released, skipped)"
    by (metis prod_cases4)
  then have shr: "shrinks s s'" unfolding drain_ready_def by (rule drain_loop_shrinks)
  have st: "stream_or_default hb k = s" using Some by (simp add: stream_or_default_def)
  with hb_bounded_stream [OF b, of k] shr have "hb_bounded (hb\<lparr>eh_streams := bm_insert k s' (eh_streams hb)\<rparr>)"
    using Some by (intro hb_bounded_insert [OF b]) (auto simp: shrinks_def bm_contains_def)
  with d Some dr show ?thesis by (auto simp: drain_stream_def)
qed

lemma clear_pending_bounded:
  assumes "bm_ok (eh_streams hb)" and "length (eh_streams hb) \<le> MAX_VIDEO_EPOCH_STREAM_STATES"
  shows "hb_bounded (clear_pending hb)"
proof -
  have "bm_sum f (map (\<lambda>(k, s). (k, g s)) m) = 0" if "\<And>s. f (g s) = 0"
    for f :: "epoch_stream_state \<Rightarrow> nat" and g and m :: "(video_stream_key, epoch_stream_state) btree_map"
    using that by (induction m) auto
  with assms show ?thesis
    by (auto simp: hb_bounded_def hb_wf_def clear_pending_def bm_ok_map_values stream_inv_def)
qed

text \<open>A held frame either fits, and then the byte counter is exact, or the overflow branch is taken.\<close>

lemma hold_frame_bounded:
  fixes h :: held_video_frame
  assumes b: "hb_bounded hb" and k: "bm_contains (eh_streams hb) k"
    and new: "\<not> bm_contains (es_pending (stream_or_default hb k)) fk"
  defines "s \<equiv> hold_frame (stream_or_default hb k) fk h"
  defines "hb3 \<equiv> hb\<lparr>eh_streams := bm_insert k s (eh_streams hb)\<rparr>"
  assumes pt: "pending_totals hb3 = (frames, bytes)"
  shows "hb_bounded (clear_pending hb3)"
    and "frames \<le> VIDEO_EPOCH_HOLDBACK_MAX_FRAMES \<Longrightarrow> bytes \<le> VIDEO_EPOCH_HOLDBACK_MAX_BYTES \<Longrightarrow> hb_bounded hb3"
proof -
  have ok: "bm_ok (eh_streams hb)" using b by (simp add: hb_bounded_def hb_wf_def)
  have len: "length (eh_streams hb3) \<le> MAX_VIDEO_EPOCH_STREAM_STATES"
    using btree.bounded_insert [OF ok, of MAX_VIDEO_EPOCH_STREAM_STATES k s] b k
    by (auto simp: hb3_def hb_bounded_def hb_wf_def bm_contains_def)
  show "hb_bounded (clear_pending hb3)" using len ok by (intro clear_pending_bounded) (simp_all add: hb3_def)
  assume fr: "frames \<le> VIDEO_EPOCH_HOLDBACK_MAX_FRAMES" and byt: "bytes \<le> VIDEO_EPOCH_HOLDBACK_MAX_BYTES"
  have f: "total_frames (eh_streams hb3) \<le> VIDEO_EPOCH_HOLDBACK_MAX_FRAMES"
    and t: "total_bytes (eh_streams hb3) \<le> VIDEO_EPOCH_HOLDBACK_MAX_BYTES"
    using pt fr byt by (auto simp: pending_totals_eq usize_max_def VIDEO_EPOCH_HOLDBACK_MAX_FRAMES_def
        VIDEO_EPOCH_HOLDBACK_MAX_BYTES_def)
  have "bm_get (eh_streams hb3) k = Some s" by (simp add: hb3_def bm_get_insert)
  from bm_sum_member [OF this, of es_pending_bytes] t have "es_pending_bytes s \<le> VIDEO_EPOCH_HOLDBACK_MAX_BYTES"
    by simp
  then have exact: "es_pending_bytes s = es_pending_bytes (stream_or_default hb k) + length (hf_payload h)"
    by (auto simp: s_def hold_frame_def usize_sat_add_def usize_max_def VIDEO_EPOCH_HOLDBACK_MAX_BYTES_def)
  have inv: "stream_inv (stream_or_default hb k)" by (rule hb_bounded_stream [OF b])
  then have "held_bytes (es_pending s) = length (hf_payload h) + held_bytes (es_pending (stream_or_default hb k))"
    using new by (simp add: s_def hold_frame_def bm_sum_insert stream_inv_def bm_contains_def bm_remove_absent)
  with exact inv have "stream_inv s" by (simp add: stream_inv_def s_def hold_frame_def)
  with b ok f t len show "hb_bounded hb3"
    by (auto simp: hb_bounded_def hb_wf_def hb3_def set_bm_insert)
qed

lemma admit_delta_bounded:
  assumes b: "hb_bounded hb" and adm: "admit_delta hb info epoch payload now w = (hb', out)"
  shows "hb_bounded hb'"
proof -
  obtain hb1 o0 where e: "holdback_expire hb now w = (hb1, o0)" by fastforce
  obtain hb2 o1 where pr: "holdback_prepare_stream hb1 (si_key info) o0 = (hb2, o1)" by fastforce
  have b1: "hb_bounded hb1" by (rule holdback_expire_bounded [OF b e])
  note p = prepare_stream_bounded [OF b1 pr]
  define st where "st = stream_or_default hb2 (si_key info)"
  define h where "h = \<lparr>hf_info = info, hf_payload = payload, hf_received_at = now,
      hf_counted_held = (epoch \<noteq> es_current_epoch st \<or> es_next_frame_id st = 0
        \<or> si_frame_id info \<noteq> es_next_frame_id st)\<rparr>"
  define hb3 where "hb3 = hb2\<lparr>eh_streams := bm_insert (si_key info)
      (hold_frame st (epoch, si_frame_id info) h) (eh_streams hb2)\<rparr>"
  obtain frames bytes where pt: "pending_totals hb3 = (frames, bytes)" by fastforce
  note adm' = adm [unfolded admit_delta_def e pr prod.case Let_def, folded st_def,
      folded h_def, folded hb3_def, unfolded pt prod.case]
  show ?thesis
  proof (cases "bm_contains (es_pending st) (epoch, si_frame_id info)")
    case True
    with adm' b1 p show ?thesis by (auto split: if_splits)
  next
    case False
    note h = hold_frame_bounded [OF conjunct1 [OF p] conjunct2 [OF p] False [unfolded st_def],
        of h, folded st_def, folded hb3_def, OF pt]
    with adm' b1 p show ?thesis by (auto split: if_splits dest: drain_stream_bounded)
  qed
qed

lemma accept_keyframe_bounded:
  assumes b: "hb_bounded hb" and acc: "accept_keyframe hb info payload now w = (hb', out)"
  shows "hb_bounded hb'"
proof -
  define hb1 where "hb1 = hb\<lparr>eh_streams := filter (\<lambda>e. vk_display (fst e) \<noteq> vk_display (si_key info)
      \<or> vk_stream_id (fst e) = vk_stream_id (si_key info)) (eh_streams hb)\<rparr>"
  obtain hb2 o0 where e: "holdback_expire hb1 now w = (hb2, o0)" by fastforce
  obtain hb3 o1 where pr: "holdback_prepare_stream hb2 (si_key info) o0 = (hb3, o1)" by fastforce
  have "hb_bounded hb1" unfolding hb1_def by (rule hb_bounded_subset [OF b])
  from prepare_stream_bounded [OF holdback_expire_bounded [OF this e] pr]
  have b3: "hb_bounded hb3" and k: "bm_contains (eh_streams hb3) (si_key info)" by auto
  let ?st = "stream_or_default hb3 (si_key info)" and ?f = "si_frame_id info"
  let ?s0 = "?st\<lparr>es_current_epoch := ?f, es_next_frame_id := sat_add ?f 1, es_gap_started_at := None\<rparr>"
  have "shrinks ?s0 (start_epoch ?st ?f)" unfolding start_epoch_def Let_def by (rule drop_held_shrinks)
  with hb_bounded_stream [OF b3, of "si_key info"] k have "hb_bounded (hb3\<lparr>eh_streams :=
      bm_insert (si_key info) (start_epoch ?st ?f) (eh_streams hb3)\<rparr>)"
    by (intro hb_bounded_insert [OF b3]) (simp_all add: shrinks_def)
  moreover note acc [unfolded accept_keyframe_def Let_def hb1_def [symmetric] e pr prod.case]
  ultimately show ?thesis by (rule drain_stream_bounded)
qed

lemma holdback_step_bounded:
  assumes "hb_bounded hb"
  shows "hb_bounded (fst (holdback_step hb e))"
proof (cases e)
  case (DeltaArrived info epoch payload now w)
  with assms show ?thesis using admit_delta_bounded [OF assms] by (metis holdback_step.simps(1) prod.collapse)
next
  case (KeyframeArrived info payload now w)
  with assms show ?thesis using accept_keyframe_bounded [OF assms] by (metis holdback_step.simps(2) prod.collapse)
next
  case (ExpiryPolled now w)
  with assms show ?thesis using holdback_expire_bounded [OF assms] by (metis holdback_step.simps(3) prod.collapse)
qed

interpretation barrier: step_invariant "\<lambda>hb e. fst (holdback_step hb e)" hb_bounded
  by unfold_locales (rule holdback_step_bounded)

lemma holdback_run_state: "fst (holdback_run hb es) = foldl (\<lambda>hb e. fst (holdback_step hb e)) hb es"
  by (induction es arbitrary: hb) (simp_all add: case_prod_beta)

section \<open>Properties\<close>

text \<open>
  Property C29: the keyframe barrier refines the decoder's contract. From the empty barrier,
  whatever deltas, keyframes and polls arrive in whatever order, with any timing, the frames
  released are accepted by the reference machine: each delta comes after a keyframe of its
  stream, carries the tag of the latest such keyframe, and is newer than every frame released
  since; none is released twice. Keyframes and deltas arrive at their own entry points, and no
  frame has the number \<open>u64::MAX\<close>.
\<close>

theorem barrier_refines_decoder:
  assumes "list_all event_ok events"
    and "holdback_run epoch_holdback_default events = (hb, ready)"
  shows "decode_run (tagged_deltas events) Map.empty ready \<noteq> None"
proof -
  have "hb_rel (tagged_deltas events) Map.empty epoch_holdback_default"
    by (simp add: hb_rel_def epoch_holdback_default_def)
  from holdback_run_rel [OF this assms(1) subset_refl assms(2)] show ?thesis by auto
qed

definition sample_stream :: video_stream_key where
  "sample_stream = VideoStreamKey 0 7"

definition sample_key_info :: video_source_info where
  "sample_key_info = \<lparr>si_key = sample_stream, si_frame_id = 5, si_keyframe = True, si_codec = H264\<rparr>"

definition sample_delta_info :: video_source_info where
  "sample_delta_info = \<lparr>si_key = sample_stream, si_frame_id = 6, si_keyframe = False, si_codec = H264\<rparr>"

text \<open>A delta that overtakes its keyframe is released right after it.\<close>

definition overtaking_events :: "holdback_event list" where
  "overtaking_events = [DeltaArrived sample_delta_info 5 [1] 0 40, KeyframeArrived sample_key_info [9] 1 40]"

lemmas holdback_eval =
  admit_delta_def accept_keyframe_def holdback_expire_def holdback_prepare_stream_def drain_stream_def
  drain_ready_def drain_loop.simps take_next_def next_available_def start_epoch_def hold_frame_def
  stream_or_default_def pending_totals_def note_drained_def expire_stream_def timed_out_keys_def
  epoch_holdback_default_def epoch_stream_default_def holdback_outcome_default_def bm_update_default_def
  bm_contains_def bm_remove_def Let_def sat_add_def usize_sat_add_def usize_max_def
  saturating_duration_since_def from_secs_def VIDEO_EPOCH_HOLDBACK_TIMEOUT_def
  VIDEO_EPOCH_HOLDBACK_MAX_FRAMES_def VIDEO_EPOCH_HOLDBACK_MAX_BYTES_def MAX_VIDEO_EPOCH_STREAM_STATES_def

lemma overtaking_run:
  "snd (holdback_run epoch_holdback_default overtaking_events)
     = [(sample_key_info, [9]), (sample_delta_info, [1])]"
  by (simp add: overtaking_events_def holdback_eval sample_key_info_def sample_delta_info_def sample_stream_def)

theorem barrier_refines_decoder_witness:
  "list_all event_ok overtaking_events \<and>
   decode_run (tagged_deltas overtaking_events) Map.empty
     [(sample_key_info, [9]), (sample_delta_info, [1])] \<noteq> None"
proof -
  have ok: "list_all event_ok overtaking_events"
    by (simp add: overtaking_events_def sample_key_info_def sample_delta_info_def)
  moreover obtain hb ready where run: "holdback_run epoch_holdback_default overtaking_events = (hb, ready)"
    by fastforce
  moreover have "ready = [(sample_key_info, [9]), (sample_delta_info, [1])]"
    using overtaking_run run by simp
  ultimately show ?thesis using barrier_refines_decoder [OF ok run] by simp
qed

text \<open>
  The barrier's memory is bounded on every input. After any events, without any
  assumption on them, at most \<open>MAX_VIDEO_EPOCH_STREAM_STATES\<close> streams are kept, their held
  frames and bytes are within the two limits, and the byte counters are exact.
\<close>

lemma barrier_bounded:
  "(let streams = eh_streams (fst (holdback_run epoch_holdback_default events)) in
    length streams \<le> MAX_VIDEO_EPOCH_STREAM_STATES \<and>
    sum_list (map (\<lambda>e. length (es_pending (snd e))) streams) \<le> VIDEO_EPOCH_HOLDBACK_MAX_FRAMES \<and>
    sum_list (map (\<lambda>e. es_pending_bytes (snd e)) streams) \<le> VIDEO_EPOCH_HOLDBACK_MAX_BYTES \<and>
    list_all (\<lambda>e. es_pending_bytes (snd e)
      = sum_list (map (\<lambda>f. length (hf_payload (snd f))) (es_pending (snd e)))) streams)"
proof -
  have "hb_bounded epoch_holdback_default"
    by (simp add: hb_bounded_def hb_wf_def epoch_holdback_default_def)
  then have "hb_bounded (fst (holdback_run epoch_holdback_default events))"
    unfolding holdback_run_state by (rule barrier.run_preserves)
  then show ?thesis
    by (simp add: Let_def hb_bounded_def hb_wf_def list_all_iff stream_inv_def bm_sum_def comp_def)
qed


end
