(* ===== verification/Video_Sender.thy ===== *)
theory Video_Sender
  imports Video_Tracks
begin

text \<open>
  The sending side of application video (\<open>src/transport/application.rs\<close>): the slot that keeps the
  latest frame of each track and serves tracks byte-fairly, the single-value slot, the ordering
  gate, and the recovery that suppresses deltas after a lost reference until a newer keyframe.

  A method that waits for a notification is modelled by the step it makes under the lock:
  \<open>None\<close> means that it goes on waiting. Virtual times are \<open>u128\<close>s that grow by at most one
  frame size per frame; they are naturals here.
\<close>

section \<open>Latest frame per track\<close>

record pending_video =
  pv_value :: video_outbound
  pv_finish :: nat

record track_latest_state =
  tl_pending :: "(video_outbound_track_key, pending_video) btree_map"
  tl_last_taken :: "video_outbound_track_key option"
  tl_virtual_time :: nat
  tl_bytes :: usize
  tl_newest_stream :: "u64 option list"
  tl_max_tracks :: usize

definition track_slot_new :: "usize \<Rightarrow> track_latest_state" where
  "track_slot_new max_tracks =
     \<lparr>tl_pending = [], tl_last_taken = None, tl_virtual_time = 0, tl_bytes = 0,
      tl_newest_stream = replicate MAX_VIDEO_DISPLAYS None, tl_max_tracks = max max_tracks 1\<rparr>"

abbreviation pending_bytes :: "pending_video \<Rightarrow> nat" where
  "pending_bytes p \<equiv> length (vob_payload (pv_value p))"

definition obsolete_pending :: "video_stream_key \<Rightarrow> pending_video \<Rightarrow> bool" where
  "obsolete_pending key pending =
     (case vob_source_info (pv_value pending) of
        None \<Rightarrow> False
      | Some old \<Rightarrow> vk_display (si_key old) = vk_display key \<and> vk_stream_id (si_key old) \<noteq> vk_stream_id key)"

text \<open>The check of the source of an incoming frame; \<open>None\<close> refuses it.\<close>

definition admit_source :: "track_latest_state \<Rightarrow> video_source_info \<Rightarrow> track_latest_state option" where
  "admit_source st source =
     (if sint (vk_display (si_key source)) < 0 then None
      else
        (let display = unat (vk_display (si_key source)); stream = vk_stream_id (si_key source) in
         if display \<ge> MAX_VIDEO_DISPLAYS then None
         else if (case tl_newest_stream st ! display of None \<Rightarrow> False | Some newest \<Rightarrow> newest > stream)
           then None
         else if tl_newest_stream st ! display \<noteq> Some stream then
           (let removed_bytes = sum_list (map (\<lambda>e. pending_bytes (snd e))
                  (filter (\<lambda>e. obsolete_pending (si_key source) (snd e)) (tl_pending st))) in
            Some (st\<lparr>tl_pending := filter (\<lambda>e. \<not> obsolete_pending (si_key source) (snd e)) (tl_pending st),
                     tl_bytes := tl_bytes st - removed_bytes,
                     tl_newest_stream := (tl_newest_stream st)[display := Some stream]\<rparr>))
         else Some st))"

text \<open>
  \<open>replace_when_with\<close> under its lock. The result is whether the frame was taken and, when a
  pending frame was replaced, that frame: the argument of the callback \<open>on_replace\<close>.
\<close>

definition store_video ::
    "track_latest_state \<Rightarrow> video_outbound_track_key \<Rightarrow> video_outbound \<Rightarrow>
     (video_outbound \<Rightarrow> video_outbound \<Rightarrow> bool) \<Rightarrow>
     track_latest_state \<times> bool \<times> video_outbound option" where
  "store_video st key value should_replace =
     (let old_bytes = (case bm_get (tl_pending st) key of None \<Rightarrow> 0 | Some p \<Rightarrow> pending_bytes p);
          bytes = length (vob_payload value) in
      if bytes > MAX_APPLICATION_FRAME_BYTES
         \<or> tl_bytes st - old_bytes + bytes > MAX_PENDING_VIDEO_BYTES
        then (st, False, None)
      else case bm_get (tl_pending st) key of
        Some pending \<Rightarrow>
          if \<not> should_replace (pv_value pending) value then (st, False, None)
          else
            (st\<lparr>tl_pending := bm_insert key
                  \<lparr>pv_value = value, pv_finish = pv_finish pending - old_bytes + bytes\<rparr> (tl_pending st),
                tl_bytes := tl_bytes st - old_bytes + bytes\<rparr>,
             True, Some (pv_value pending))
      | None \<Rightarrow>
          if length (tl_pending st) \<ge> tl_max_tracks st then (st, False, None)
          else
            (st\<lparr>tl_pending := bm_insert key
                  \<lparr>pv_value = value, pv_finish = tl_virtual_time st + bytes\<rparr> (tl_pending st),
                tl_bytes := tl_bytes st - old_bytes + bytes\<rparr>,
             True, None))"

definition track_replace ::
    "track_latest_state \<Rightarrow> video_outbound_track_key \<Rightarrow> video_outbound \<Rightarrow>
     (video_outbound \<Rightarrow> video_outbound \<Rightarrow> bool) \<Rightarrow>
     track_latest_state \<times> bool \<times> video_outbound option" where
  "track_replace st key value should_replace =
     (case vob_source_info value of
        None \<Rightarrow> store_video st key value should_replace
      | Some source \<Rightarrow>
          (case admit_source st source of
             None \<Rightarrow> (st, False, None)
           | Some st' \<Rightarrow> store_video st' key value should_replace))"

definition service_order ::
    "track_latest_state \<Rightarrow> video_outbound_track_key \<times> pending_video \<Rightarrow>
     nat \<times> bool \<times> video_outbound_track_key" where
  "service_order st e =
     (pv_finish (snd e),
      (case tl_last_taken st of None \<Rightarrow> False | Some last_key \<Rightarrow> fst e \<le> last_key), fst e)"

definition track_take :: "track_latest_state \<Rightarrow> track_latest_state \<times> video_outbound option" where
  "track_take st =
     (case min_by_key (service_order st) (tl_pending st) of
        None \<Rightarrow> (st, None)
      | Some (key, pending) \<Rightarrow>
          (st\<lparr>tl_last_taken := Some key,
              tl_pending := bm_remove key (tl_pending st),
              tl_bytes := tl_bytes st - pending_bytes pending,
              tl_virtual_time := max (tl_virtual_time st) (pv_finish pending)\<rparr>,
           Some (pv_value pending)))"

definition track_take_track ::
    "track_latest_state \<Rightarrow> video_outbound_track_key \<Rightarrow> track_latest_state \<times> video_outbound option" where
  "track_take_track st key =
     (case bm_get (tl_pending st) key of
        None \<Rightarrow> (st, None)
      | Some pending \<Rightarrow>
          (st\<lparr>tl_pending := bm_remove key (tl_pending st),
              tl_bytes := tl_bytes st - pending_bytes pending\<rparr>, Some (pv_value pending)))"

section \<open>A slot for one value\<close>

record 'a latest_slot =
  ls_value :: "'a option"
  ls_replacements :: u64

definition latest_slot_new :: "'a latest_slot" where
  "latest_slot_new = \<lparr>ls_value = None, ls_replacements = 0\<rparr>"

definition latest_replace_when_with ::
    "'a latest_slot \<Rightarrow> 'a \<Rightarrow> ('a \<Rightarrow> 'a \<Rightarrow> bool) \<Rightarrow> 'a latest_slot \<times> bool \<times> 'a option" where
  "latest_replace_when_with slot value should_replace =
     (case ls_value slot of
        Some pending \<Rightarrow>
          if \<not> should_replace pending value then (slot, False, None)
          else (slot\<lparr>ls_value := Some value, ls_replacements := ls_replacements slot + 1\<rparr>,
                True, Some pending)
      | None \<Rightarrow> (slot\<lparr>ls_value := Some value\<rparr>, True, None))"

definition latest_replace_when ::
    "'a latest_slot \<Rightarrow> 'a \<Rightarrow> ('a \<Rightarrow> 'a \<Rightarrow> bool) \<Rightarrow> 'a latest_slot \<times> bool" where
  "latest_replace_when slot value should_replace =
     (case latest_replace_when_with slot value should_replace of (slot', ok, _) \<Rightarrow> (slot', ok))"

definition latest_replace :: "'a latest_slot \<Rightarrow> 'a \<Rightarrow> 'a latest_slot" where
  "latest_replace slot value = fst (latest_replace_when slot value (\<lambda>_ _. True))"

definition latest_take :: "'a latest_slot \<Rightarrow> 'a latest_slot \<times> 'a option" where
  "latest_take slot = (slot\<lparr>ls_value := None\<rparr>, ls_value slot)"

section \<open>The ordering gate\<close>

record ordering_gate =
  og_requested_epoch :: u64
  og_acknowledged_epoch :: u64

datatype ordering_error = OrderingEpochExhausted

definition gate_new :: ordering_gate where
  "gate_new = \<lparr>og_requested_epoch = 0, og_acknowledged_epoch = 0\<rparr>"

definition gate_next_epoch :: "ordering_gate \<Rightarrow> ordering_gate \<times> (ordering_error + u64)" where
  "gate_next_epoch g =
     (case checked_add (og_requested_epoch g) 1 of
        None \<Rightarrow> (g, Inl OrderingEpochExhausted)
      | Some e \<Rightarrow> (g\<lparr>og_requested_epoch := e\<rparr>, Inr (og_requested_epoch g + 1)))"

definition gate_acknowledge :: "ordering_gate \<Rightarrow> u64 \<Rightarrow> ordering_gate" where
  "gate_acknowledge g epoch = g\<lparr>og_acknowledged_epoch := max (og_acknowledged_epoch g) epoch\<rparr>"

definition gate_cancel_epoch :: "ordering_gate \<Rightarrow> u64 \<Rightarrow> ordering_gate" where
  "gate_cancel_epoch g epoch = gate_acknowledge g epoch"

definition gate_is_open :: "ordering_gate \<Rightarrow> u64 \<Rightarrow> bool" where
  "gate_is_open g epoch \<longleftrightarrow> og_acknowledged_epoch g \<ge> epoch"

section \<open>Recovery after a lost reference\<close>

record send_track_recovery =
  str_awaiting_keyframe :: bool
  str_minimum_keyframe_id :: u64
  str_source :: "video_stream_key option"

record video_send_recovery =
  vsr_tracks :: "(video_outbound_track_key, send_track_recovery) btree_map"
  vsr_scoped_reference_refresh :: bool
  vsr_reference_resets :: u64
  vsr_suppressed_frames :: u64

datatype local_video_refresh = LegacyRefresh | ReferenceRefresh video_reference_refresh_request

definition send_recovery_new :: "bool \<Rightarrow> video_send_recovery" where
  "send_recovery_new scoped =
     \<lparr>vsr_tracks = [], vsr_scoped_reference_refresh = scoped, vsr_reference_resets = 0,
      vsr_suppressed_frames = 0\<rparr>"

definition stale_source :: "video_send_recovery \<Rightarrow> video_stream_key \<Rightarrow> bool" where
  "stale_source st source \<longleftrightarrow>
     sint (vk_display source) < 0 \<or> unat (vk_display source) \<ge> MAX_VIDEO_DISPLAYS \<or>
     list_ex (\<lambda>e. case str_source (snd e) of
                    None \<Rightarrow> False
                  | Some old \<Rightarrow> vk_display old = vk_display source \<and> vk_stream_id old > vk_stream_id source)
       (vsr_tracks st)"

definition retained_track ::
    "video_outbound_track_key \<Rightarrow> video_stream_key option \<Rightarrow>
     video_outbound_track_key \<times> send_track_recovery \<Rightarrow> bool" where
  "retained_track track_key source e \<longleftrightarrow>
     fst e = track_key \<or>
     (case (str_source (snd e), source) of
        (Some old, Some new) \<Rightarrow> vk_display old \<noteq> vk_display new
      | (None, None) \<Rightarrow> False
      | _ \<Rightarrow> True)"

text \<open>The refresh asked for locally on the first loss of a track.\<close>

definition first_loss_refresh :: "bool \<Rightarrow> video_source_info option \<Rightarrow> local_video_refresh option" where
  "first_loss_refresh scoped source_info =
     (if scoped then
        (case source_info of
           None \<Rightarrow> None
         | Some info \<Rightarrow> map_option ReferenceRefresh (video_reference_refresh info 1 False))
      else Some LegacyRefresh)"

definition recovery_enter ::
    "video_send_recovery \<Rightarrow> video_outbound_track_key \<Rightarrow> video_source_info option \<Rightarrow> u64 \<Rightarrow>
     video_send_recovery \<times> local_video_refresh option" where
  "recovery_enter st track_key source_info dropped_frame_id =
     (let source = map_option si_key source_info in
      if (case source of None \<Rightarrow> False | Some s \<Rightarrow> stale_source st s) then (st, None)
      else
        (let kept = filter (retained_track track_key source) (vsr_tracks st);
             old = (case bm_get kept track_key of
                      Some t \<Rightarrow> t
                    | None \<Rightarrow> \<lparr>str_awaiting_keyframe = False, str_minimum_keyframe_id = 0,
                               str_source = source\<rparr>);
             track = \<lparr>str_awaiting_keyframe = True,
                      str_minimum_keyframe_id = max (str_minimum_keyframe_id old) dropped_frame_id,
                      str_source = source\<rparr>;
             st' = st\<lparr>vsr_tracks := bm_insert track_key track kept\<rparr> in
         if str_awaiting_keyframe old then (st', None)
         else (st'\<lparr>vsr_reference_resets := vsr_reference_resets st' + 1\<rparr>,
               first_loss_refresh (vsr_scoped_reference_refresh st) source_info)))"

definition suppress_delta ::
    "video_send_recovery \<Rightarrow> video_outbound_track_key \<Rightarrow> u64 \<Rightarrow> video_send_recovery \<times> bool" where
  "suppress_delta st track_key frame_id =
     (case bm_get (vsr_tracks st) track_key of
        None \<Rightarrow> (st, False)
      | Some track \<Rightarrow>
          if \<not> str_awaiting_keyframe track then (st, False)
          else (st\<lparr>vsr_tracks := bm_insert track_key
                     (track\<lparr>str_minimum_keyframe_id := max (str_minimum_keyframe_id track) frame_id\<rparr>)
                     (vsr_tracks st),
                   vsr_suppressed_frames := vsr_suppressed_frames st + 1\<rparr>, True))"

definition keyframe_sent ::
    "video_send_recovery \<Rightarrow> video_outbound_track_key \<Rightarrow> u64 \<Rightarrow> video_send_recovery" where
  "keyframe_sent st track_key frame_id =
     (case bm_get (vsr_tracks st) track_key of
        None \<Rightarrow> st
      | Some track \<Rightarrow>
          if frame_id > str_minimum_keyframe_id track
          then st\<lparr>vsr_tracks := bm_remove track_key (vsr_tracks st)\<rparr> else st)"

end
