(* ===== verification/Video_Sender_Properties.thy ===== *)
theory Video_Sender_Properties
  imports Video_Sender
begin

text \<open>
  Correctness of the sending side: the slot's memory is bounded and exactly counted, a waiting
  track is served after a bounded number of others whatever arrives, and after a lost reference
  no delta of the track leaves before a newer keyframe.
\<close>

section \<open>The slot's invariant\<close>

definition pv_base :: "pending_video \<Rightarrow> nat" where
  "pv_base q = pv_finish q - pending_bytes q"

text \<open>
  Each pending frame entered at a virtual time \<open>pv_base\<close> that has passed, and virtual time is
  never more than one maximal frame ahead of it.
\<close>

definition pending_ok :: "nat \<Rightarrow> pending_video \<Rightarrow> bool" where
  "pending_ok vt q \<longleftrightarrow> pending_bytes q \<le> pv_finish q \<and> pv_base q \<le> vt \<and>
     vt \<le> pv_base q + MAX_APPLICATION_FRAME_BYTES \<and> pending_bytes q \<le> MAX_APPLICATION_FRAME_BYTES"

definition slot_inv :: "track_latest_state \<Rightarrow> bool" where
  "slot_inv st \<longleftrightarrow> bm_ok (tl_pending st) \<and> tl_bytes st = bm_sum pending_bytes (tl_pending st) \<and>
     tl_bytes st \<le> MAX_PENDING_VIDEO_BYTES \<and> length (tl_pending st) \<le> tl_max_tracks st \<and>
     length (tl_newest_stream st) = MAX_VIDEO_DISPLAYS \<and>
     (\<forall>e \<in> set (tl_pending st). pending_ok (tl_virtual_time st) (snd e))"

lemma pending_ok_advance:
  "pending_ok vt q \<Longrightarrow> finish \<le> pv_finish q \<Longrightarrow> pending_ok (max vt finish) q"
  by (auto simp: pending_ok_def pv_base_def)

lemma slot_inv_new: "slot_inv (track_slot_new n)"
  by (simp add: slot_inv_def track_slot_new_def)

lemma bm_sum_partition: "bm_sum f (filter (\<lambda>e. \<not> P e) m) + sum_list (map (\<lambda>e. f (snd e)) (filter P m)) = bm_sum f m"
  by (induction m) auto

lemma admit_source_inv:
  assumes "slot_inv st" and "admit_source st source = Some st'"
  shows "slot_inv st' \<and> tl_virtual_time st' = tl_virtual_time st \<and> tl_max_tracks st' = tl_max_tracks st \<and>
    (\<exists>P. tl_pending st' = filter P (tl_pending st) \<and>
       (\<forall>q. \<not> obsolete_pending (si_key source) (snd q) \<longrightarrow> P q))"
proof -
  let ?P = "\<lambda>e. obsolete_pending (si_key source) (snd e)"
  from assms(2) consider "st' = st" | "st' = st\<lparr>tl_pending := filter (\<lambda>e. \<not> ?P e) (tl_pending st),
      tl_bytes := tl_bytes st - sum_list (map (\<lambda>e. pending_bytes (snd e)) (filter ?P (tl_pending st))),
      tl_newest_stream := (tl_newest_stream st)[unat (vk_display (si_key source)) :=
        Some (vk_stream_id (si_key source))]\<rparr>"
    by (auto simp: admit_source_def Let_def split: if_splits option.splits)
  then show ?thesis
  proof cases
    case 1
    then show ?thesis using assms(1) by (auto intro!: exI [of _ "\<lambda>_. True"])
  next
    case 2
    let ?keep = "filter (\<lambda>e. \<not> ?P e) (tl_pending st)"
    have "tl_bytes st' = bm_sum pending_bytes ?keep" "tl_bytes st' \<le> tl_bytes st"
      using assms(1) bm_sum_partition [of pending_bytes ?P "tl_pending st", symmetric]
      by (simp_all add: 2 slot_inv_def)
    then have "slot_inv st'"
      using assms(1) by (auto simp: 2 slot_inv_def bm_ok_filter intro: order_trans [OF length_filter_le])
    then show ?thesis by (auto simp: 2 intro!: exI [of _ "\<lambda>e. \<not> ?P e"])
  qed
qed

text \<open>What \<open>store_video\<close> does when it takes the frame: the base of the track is kept, or is now.\<close>

lemma store_video_cases:
  assumes inv: "slot_inv st" and store: "store_video st key value sr = (st', ok, old)"
  shows "slot_inv st' \<and> tl_virtual_time st' = tl_virtual_time st \<and> tl_max_tracks st' = tl_max_tracks st \<and>
    (st' = st \<or> (\<exists>q. tl_pending st' = bm_insert key q (tl_pending st) \<and> pv_value q = value \<and>
       pv_base q = (case bm_get (tl_pending st) key of None \<Rightarrow> tl_virtual_time st | Some p \<Rightarrow> pv_base p)))"
proof (cases "st' = st")
  case True
  with inv show ?thesis by simp
next
  case False
  let ?old = "case bm_get (tl_pending st) key of None \<Rightarrow> 0 | Some p \<Rightarrow> pending_bytes p"
  let ?n = "length (vob_payload value)"
  let ?finish = "case bm_get (tl_pending st) key of None \<Rightarrow> tl_virtual_time st + ?n
      | Some p \<Rightarrow> pv_finish p - pending_bytes p + ?n"
  let ?q = "\<lparr>pv_value = value, pv_finish = ?finish\<rparr>"
  have ok: "bm_ok (tl_pending st)" using inv by (simp add: slot_inv_def)
  from store False have st': "st' = st\<lparr>tl_pending := bm_insert key ?q (tl_pending st),
        tl_bytes := tl_bytes st - ?old + ?n\<rparr>"
    and lim: "?n \<le> MAX_APPLICATION_FRAME_BYTES" "tl_bytes st - ?old + ?n \<le> MAX_PENDING_VIDEO_BYTES"
    and room: "bm_get (tl_pending st) key = None \<Longrightarrow> length (tl_pending st) < tl_max_tracks st"
    by (auto simp: store_video_def Let_def not_less split: if_splits option.splits)
  have sum: "bm_sum pending_bytes (tl_pending st) - ?old = bm_sum pending_bytes (bm_remove key (tl_pending st))"
    using bm_sum_remove [OF ok, of key _ pending_bytes]
    by (auto simp: bm_remove_absent split: option.splits)
  have base: "pv_base ?q = (case bm_get (tl_pending st) key of None \<Rightarrow> tl_virtual_time st | Some p \<Rightarrow> pv_base p)"
    by (simp add: pv_base_def split: option.splits)
  have "pv_base ?q \<le> tl_virtual_time st \<and>
      tl_virtual_time st \<le> pv_base ?q + MAX_APPLICATION_FRAME_BYTES"
    using inv bm_get_mem [of "tl_pending st" key]
    by (fastforce simp: base slot_inv_def pending_ok_def split: option.splits)
  moreover have "pending_bytes ?q \<le> pv_finish ?q" by (simp split: option.splits)
  ultimately have "pending_ok (tl_virtual_time st) ?q" using lim by (simp add: pending_ok_def)
  moreover have "length (bm_insert key ?q (tl_pending st)) \<le> tl_max_tracks st"
    using length_bm_insert [OF ok, of key ?q] inv room by (auto simp: slot_inv_def)
  moreover have "bm_sum pending_bytes (bm_insert key ?q (tl_pending st)) = tl_bytes st - ?old + ?n"
    using bm_sum_insert [OF ok, of pending_bytes key ?q] sum inv by (simp add: slot_inv_def)
  ultimately have "slot_inv st'"
    using inv lim ok by (simp add: st' slot_inv_def set_bm_insert)
  then show ?thesis using base by (auto simp: st')
qed

lemma slot_inv_remove:
  assumes inv: "slot_inv st" and get: "bm_get (tl_pending st) key = Some q"
    and st': "tl_pending st' = bm_remove key (tl_pending st)" "tl_bytes st' = tl_bytes st - pending_bytes q"
      "tl_virtual_time st' = max (tl_virtual_time st) finish" "tl_max_tracks st' = tl_max_tracks st"
      "tl_newest_stream st' = tl_newest_stream st"
    and early: "\<And>e. e \<in> set (tl_pending st) \<Longrightarrow> finish \<le> pv_finish (snd e)"
  shows "slot_inv st'"
proof -
  have "pending_ok (tl_virtual_time st') (snd e)" if "e \<in> set (bm_remove key (tl_pending st))" for e
  proof -
    have "e \<in> set (tl_pending st)" using that by (simp add: set_bm_remove)
    then show ?thesis using inv early unfolding st'(3) by (simp add: slot_inv_def pending_ok_advance)
  qed
  moreover have "bm_ok (tl_pending st)" using inv by (simp add: slot_inv_def)
  ultimately show ?thesis
    using inv bm_sum_remove [OF _ get, of pending_bytes] length_bm_remove_le [of key "tl_pending st"]
    by (simp add: slot_inv_def st')
qed

lemma track_take_cases:
  assumes inv: "slot_inv st" and take: "track_take st = (st', r)"
  shows "(tl_pending st = [] \<and> st' = st \<and> r = None) \<or>
    (\<exists>key q. bm_get (tl_pending st) key = Some q \<and> r = Some (pv_value q) \<and>
       (\<forall>e \<in> set (tl_pending st). pv_finish q \<le> pv_finish (snd e)) \<and>
       tl_pending st' = bm_remove key (tl_pending st) \<and>
       tl_virtual_time st' = max (tl_virtual_time st) (pv_finish q) \<and>
       tl_max_tracks st' = tl_max_tracks st \<and> tl_last_taken st' = Some key \<and> slot_inv st')"
proof (cases "min_by_key (service_order st) (tl_pending st)")
  case None
  with take show ?thesis by (simp add: track_take_def)
next
  case (Some e)
  obtain key q where e: "e = (key, q)" by (cases e)
  from min_by_key_Some [OF Some] have mem: "(key, q) \<in> set (tl_pending st)"
    and low: "\<And>x. x \<in> set (tl_pending st) \<Longrightarrow> service_order st (key, q) \<le> service_order st x"
    by (auto simp: e)
  have "pv_finish q \<le> pv_finish (snd x)" if "x \<in> set (tl_pending st)" for x
    using low [OF that] by (auto simp: service_order_def less_eq_prod_def)
  moreover have get: "bm_get (tl_pending st) key = Some q"
    using inv mem by (intro bm_mem_get) (simp_all add: slot_inv_def)
  moreover have st': "st' = st\<lparr>tl_last_taken := Some key, tl_pending := bm_remove key (tl_pending st),
      tl_bytes := tl_bytes st - pending_bytes q, tl_virtual_time := max (tl_virtual_time st) (pv_finish q)\<rparr>"
    and r: "r = Some (pv_value q)"
    using take Some by (auto simp: track_take_def e)
  moreover have "slot_inv st'"
    using inv get by (rule slot_inv_remove [where finish = "pv_finish q"]) (use calculation in \<open>simp_all add: st'\<close>)
  ultimately show ?thesis by (intro disjI2 exI [of _ key] exI [of _ q]) simp
qed

lemma track_take_track_cases:
  assumes inv: "slot_inv st" and take: "track_take_track st key = (st', r)"
  shows "slot_inv st' \<and> tl_pending st' = bm_remove key (tl_pending st) \<and>
    tl_virtual_time st' = tl_virtual_time st \<and> tl_max_tracks st' = tl_max_tracks st"
proof (cases "bm_get (tl_pending st) key")
  case None
  with assms show ?thesis by (auto simp: track_take_track_def bm_remove_absent)
next
  case (Some q)
  with take have st': "st' = st\<lparr>tl_pending := bm_remove key (tl_pending st),
      tl_bytes := tl_bytes st - pending_bytes q\<rparr>" by (simp add: track_take_track_def)
  have "slot_inv st'" using inv Some by (rule slot_inv_remove [where finish = 0]) (simp_all add: st')
  then show ?thesis by (simp add: st')
qed

section \<open>Runs of the slot\<close>

datatype slot_op =
  Offer video_outbound_track_key video_outbound "video_outbound \<Rightarrow> video_outbound \<Rightarrow> bool"
| TakeAny
| TakeTrack video_outbound_track_key

fun slot_step :: "track_latest_state \<Rightarrow> slot_op \<Rightarrow> track_latest_state" where
  "slot_step st (Offer key value should_replace) = fst (track_replace st key value should_replace)"
| "slot_step st TakeAny = fst (track_take st)"
| "slot_step st (TakeTrack key) = fst (track_take_track st key)"

text \<open>
  The bytes of track \<open>k\<close> that one step hands out: what \<open>take\<close> returns, charged to the track's virtual
  time, and what \<open>take_track\<close> returns, which is not charged.
\<close>

fun step_charged :: "video_outbound_track_key \<Rightarrow> track_latest_state \<Rightarrow> slot_op \<Rightarrow> nat" where
  "step_charged k st TakeAny =
     (case track_take st of
        (_, None) \<Rightarrow> 0
      | (st', Some value) \<Rightarrow> if tl_last_taken st' = Some k then length (vob_payload value) else 0)"
| "step_charged k st op = 0"

fun step_direct :: "video_outbound_track_key \<Rightarrow> track_latest_state \<Rightarrow> slot_op \<Rightarrow> nat" where
  "step_direct k st (TakeTrack key) =
     (case track_take_track st key of
        (_, None) \<Rightarrow> 0
      | (_, Some value) \<Rightarrow> if key = k then length (vob_payload value) else 0)"
| "step_direct k st op = 0"

definition step_served :: "video_outbound_track_key \<Rightarrow> track_latest_state \<Rightarrow> slot_op \<Rightarrow> nat" where
  "step_served k st op = step_charged k st op + step_direct k st op"

fun direct_bytes :: "video_outbound_track_key \<Rightarrow> track_latest_state \<Rightarrow> slot_op list \<Rightarrow> nat" where
  "direct_bytes k st [] = 0"
| "direct_bytes k st (op # ops) = step_direct k st op + direct_bytes k (slot_step st op) ops"

fun served_bytes :: "video_outbound_track_key \<Rightarrow> track_latest_state \<Rightarrow> slot_op list \<Rightarrow> nat" where
  "served_bytes k st [] = 0"
| "served_bytes k st (op # ops) = step_served k st op + served_bytes k (slot_step st op) ops"

text \<open>
  Track \<open>p\<close> has a frame pending all along, and no newer stream of its display makes that
  frame obsolete.
\<close>

fun retires :: "slot_op \<Rightarrow> pending_video \<Rightarrow> bool" where
  "retires (Offer key value should_replace) q =
     (case vob_source_info value of None \<Rightarrow> False | Some s \<Rightarrow> obsolete_pending (si_key s) q)"
| "retires op q = False"

fun waits :: "video_outbound_track_key \<Rightarrow> track_latest_state \<Rightarrow> slot_op list \<Rightarrow> bool" where
  "waits p st [] \<longleftrightarrow> bm_get (tl_pending st) p \<noteq> None"
| "waits p st (op # ops) \<longleftrightarrow>
     (case bm_get (tl_pending st) p of None \<Rightarrow> False | Some q \<Rightarrow> \<not> retires op q) \<and>
     waits p (slot_step st op) ops"

text \<open>The virtual time from which the next frame of track \<open>k\<close> is accounted.\<close>

definition track_floor :: "video_outbound_track_key \<Rightarrow> track_latest_state \<Rightarrow> nat" where
  "track_floor k st = (case bm_get (tl_pending st) k of None \<Rightarrow> tl_virtual_time st | Some q \<Rightarrow> pv_base q)"

lemma slot_inv_pending:
  "slot_inv st \<Longrightarrow> bm_get (tl_pending st) k = Some q \<Longrightarrow> pending_ok (tl_virtual_time st) q"
  using bm_get_mem [of "tl_pending st" k q] by (fastforce simp: slot_inv_def)

lemma track_floor_bounds:
  "slot_inv st \<Longrightarrow> track_floor k st \<le> tl_virtual_time st \<and>
     tl_virtual_time st \<le> track_floor k st + MAX_APPLICATION_FRAME_BYTES"
  using slot_inv_pending [of st k] by (auto simp: track_floor_def pending_ok_def split: option.splits)

lemma replace_step:
  assumes inv: "slot_inv st" and step: "track_replace st key value sr = (st', ok, old)"
  shows "slot_inv st' \<and> tl_max_tracks st' = tl_max_tracks st \<and> track_floor k st \<le> track_floor k st' \<and>
    (\<forall>q q'. bm_get (tl_pending st) k = Some q \<and> \<not> retires (Offer key value sr) q \<and>
       bm_get (tl_pending st') k = Some q' \<longrightarrow> pv_base q' = pv_base q)"
proof -
  have store: "slot_inv st2 \<and> tl_max_tracks st2 = tl_max_tracks st1 \<and> track_floor k st2 = track_floor k st1 \<and>
      (\<forall>q q'. bm_get (tl_pending st1) k = Some q \<and> bm_get (tl_pending st2) k = Some q' \<longrightarrow>
         pv_base q' = pv_base q)"
    if "slot_inv st1" "store_video st1 key value sr = (st2, ok, old)" for st1 st2
    using store_video_cases [OF that]
    by (auto simp: track_floor_def bm_get_insert split: option.splits if_splits)
  show ?thesis
  proof (cases "vob_source_info value")
    case None
    with step store [OF inv] show ?thesis by (simp add: track_replace_def)
  next
    case (Some s)
    show ?thesis
    proof (cases "admit_source st s")
      case None
      with Some step inv show ?thesis by (auto simp: track_replace_def)
    next
      case (Some st1)
      note adm = admit_source_inv [OF inv Some]
      then obtain P where P: "tl_pending st1 = filter P (tl_pending st)"
        and keep: "\<And>q. \<not> obsolete_pending (si_key s) (snd q) \<Longrightarrow> P q" by blast
      have "bm_ok (tl_pending st)" using inv by (simp add: slot_inv_def)
      note get = bm_get_filter [OF this, of P k, folded P]
      have "track_floor k st \<le> track_floor k st1"
        using adm track_floor_bounds [OF inv, of k]
        by (auto simp: track_floor_def get split: option.splits)
      moreover have "store_video st1 key value sr = (st', ok, old)"
        using step Some \<open>vob_source_info value = Some s\<close> by (simp add: track_replace_def)
      note store [OF _ this]
      moreover have "bm_get (tl_pending st1) k = Some q"
        if "bm_get (tl_pending st) k = Some q" "\<not> retires (Offer key value sr) q" for q
        using that keep [of "(k, q)"] by (simp add: get \<open>vob_source_info value = Some s\<close>)
      ultimately show ?thesis using adm by auto
    qed
  qed
qed

lemma take_step:
  assumes inv: "slot_inv st" and step: "track_take st = (st', r)"
  shows "slot_inv st' \<and> tl_max_tracks st' = tl_max_tracks st \<and>
    track_floor k st + step_charged k st TakeAny \<le> track_floor k st' \<and>
    (\<forall>q q'. bm_get (tl_pending st) k = Some q \<and> bm_get (tl_pending st') k = Some q' \<longrightarrow> q' = q)"
  using track_take_cases [OF inv step]
proof (elim disjE exE conjE)
  assume "tl_pending st = []" "st' = st" "r = None"
  with inv step show ?thesis by simp
next
  fix key q
  assume get: "bm_get (tl_pending st) key = Some q" and r: "r = Some (pv_value q)"
    and rest: "tl_pending st' = bm_remove key (tl_pending st)"
      "tl_virtual_time st' = max (tl_virtual_time st) (pv_finish q)"
      "tl_max_tracks st' = tl_max_tracks st" "slot_inv st'"
    and last: "tl_last_taken st' = Some key"
  have "pending_bytes q \<le> pv_finish q" using slot_inv_pending [OF inv get] by (simp add: pending_ok_def)
  with get r rest last step show ?thesis
    by (auto simp: track_floor_def bm_get_remove pv_base_def split: option.splits)
qed

lemma slot_step_facts:
  assumes inv: "slot_inv st"
  shows slot_step_inv: "slot_inv (slot_step st op)"
    and slot_step_max_tracks: "tl_max_tracks (slot_step st op) = tl_max_tracks st"
    and slot_step_floor: "track_floor k st + step_charged k st op \<le> track_floor k (slot_step st op)"
    and slot_step_base: "bm_get (tl_pending st) k = Some q \<Longrightarrow> \<not> retires op q \<Longrightarrow>
      bm_get (tl_pending (slot_step st op)) k = Some q' \<Longrightarrow> pv_base q' = pv_base q"
proof -
  have "slot_inv (slot_step st op) \<and> tl_max_tracks (slot_step st op) = tl_max_tracks st \<and>
    track_floor k st + step_charged k st op \<le> track_floor k (slot_step st op) \<and>
    (\<forall>q q'. bm_get (tl_pending st) k = Some q \<and> \<not> retires op q \<and>
       bm_get (tl_pending (slot_step st op)) k = Some q' \<longrightarrow> pv_base q' = pv_base q)"
  proof (cases op)
    case (Offer key v sr)
    obtain st' ok old where "track_replace st key v sr = (st', ok, old)" by (rule prod_cases3)
    from replace_step [OF inv this, of k] this Offer show ?thesis by simp
  next
    case TakeAny
    obtain st' r where t: "track_take st = (st', r)" by (cases "track_take st")
    have "slot_step st op = st'" by (simp add: TakeAny t)
    with take_step [OF inv t, of k] TakeAny show ?thesis by auto
  next
    case (TakeTrack key)
    obtain st' r where t: "track_take_track st key = (st', r)" by (cases "track_take_track st key")
    from track_take_track_cases [OF inv t] TakeTrack t track_floor_bounds [OF inv, of k] show ?thesis
      by (auto simp: track_floor_def bm_get_remove split: option.splits)
  qed
  then show "slot_inv (slot_step st op)"
    and "tl_max_tracks (slot_step st op) = tl_max_tracks st"
    and "track_floor k st + step_charged k st op \<le> track_floor k (slot_step st op)"
    and "bm_get (tl_pending st) k = Some q \<Longrightarrow> \<not> retires op q \<Longrightarrow>
      bm_get (tl_pending (slot_step st op)) k = Some q' \<Longrightarrow> pv_base q' = pv_base q"
    by blast+
qed

interpretation slot: step_invariant slot_step "\<lambda>st. slot_inv st \<and> tl_max_tracks st = m" for m
  by unfold_locales (simp add: slot_step_inv slot_step_max_tracks)

lemma slot_run_inv:
  "slot_inv (foldl slot_step (track_slot_new n) ops) \<and>
   tl_max_tracks (foldl slot_step (track_slot_new n) ops) = max n 1"
  by (rule slot.run_preserves) (simp add: slot_inv_new, simp add: track_slot_new_def)

lemma floor_run:
  assumes "slot_inv st"
  shows "track_floor k st + served_bytes k st ops \<le> track_floor k (foldl slot_step st ops) + direct_bytes k st ops"
  using assms
proof (induction ops arbitrary: st)
  case Nil
  then show ?case by simp
next
  case (Cons op ops)
  show ?case
    using Cons.IH [OF slot_step_inv [OF Cons.prems], of op] slot_step_floor [OF Cons.prems, of k op]
    by (simp add: step_served_def)
qed

lemma direct_bytes_none: "TakeTrack k \<notin> set ops \<Longrightarrow> direct_bytes k st ops = 0"
proof (induction ops arbitrary: st)
  case (Cons op ops)
  then have "step_direct k st op = 0" by (cases op) (auto split: prod.splits option.splits)
  with Cons show ?case by simp
qed simp

lemma waits_base:
  assumes "slot_inv st" and "waits p st ops" and "bm_get (tl_pending st) p = Some q"
  shows "\<exists>q'. bm_get (tl_pending (foldl slot_step st ops)) p = Some q' \<and> pv_base q' = pv_base q"
  using assms
proof (induction ops arbitrary: st q)
  case Nil
  then show ?case by simp
next
  case (Cons op ops)
  let ?st = "slot_step st op"
  from Cons.prems have w: "waits p ?st ops" "\<not> retires op q" by simp_all
  then obtain q1 where q1: "bm_get (tl_pending ?st) p = Some q1"
    by (cases ops) (auto split: option.splits)
  from slot_step_base [OF Cons.prems(1) Cons.prems(3) w(2) q1]
    Cons.IH [OF slot_step_inv [OF Cons.prems(1)] w(1) q1] show ?case by simp
qed

text \<open>
  Whatever is offered and taken, in any order, the slot holds at most
  \<open>max_tracks\<close> frames, its byte counter is exactly the number of pending bytes and stays within
  64 MiB, and every pending frame is within the 16 MiB limit.
\<close>

lemma slot_bounded:
  "let st = foldl slot_step (track_slot_new max_tracks) ops in
     length (tl_pending st) \<le> max max_tracks 1 \<and>
     tl_bytes st = bm_sum pending_bytes (tl_pending st) \<and> tl_bytes st \<le> 64 * 1024 * 1024 \<and>
     list_all (\<lambda>e. pending_bytes (snd e) \<le> 16 * 1024 * 1024) (tl_pending st)"
  using slot_run_inv [of max_tracks ops]
  by (simp add: Let_def list_all_iff slot_inv_def pending_ok_def MAX_PENDING_VIDEO_BYTES_def
      MAX_APPLICATION_FRAME_BYTES_def)

text \<open>
  Property C31: the service is fair in bytes. While a track has a frame waiting that no newer
  stream of its display retires, no track is served more than twice the maximal frame size,
  whatever frames the others offer and replace. Frames fetched by \<open>take_track\<close> are the exception and
  come on top: the writer fetches them in place of a frame it holds while the ordering gate is
  closed, and the slot does not charge them to the track.
\<close>

theorem slot_byte_fair:
  assumes "waits p (foldl slot_step (track_slot_new max_tracks) before) ops"
  shows "let st = foldl slot_step (track_slot_new max_tracks) before in
    served_bytes k st ops \<le> 2 * MAX_APPLICATION_FRAME_BYTES + direct_bytes k st ops \<and>
    (TakeTrack k \<notin> set ops \<longrightarrow> served_bytes k st ops \<le> 2 * MAX_APPLICATION_FRAME_BYTES)"
proof -
  let ?st = "foldl slot_step (track_slot_new max_tracks) before"
  have inv: "slot_inv ?st" by (simp add: slot_run_inv)
  have inv': "slot_inv (foldl slot_step ?st ops)"
    using slot_run_inv [of max_tracks "before @ ops"] by simp
  from assms obtain q where q: "bm_get (tl_pending ?st) p = Some q"
    by (cases ops) (auto split: option.splits)
  from waits_base [OF inv assms q] obtain q' where
    "bm_get (tl_pending (foldl slot_step ?st ops)) p = Some q'" "pv_base q' = pv_base q" by blast
  then have "track_floor p (foldl slot_step ?st ops) = track_floor p ?st"
    using q by (simp add: track_floor_def)
  then have "served_bytes k ?st ops \<le> 2 * MAX_APPLICATION_FRAME_BYTES + direct_bytes k ?st ops"
    using floor_run [OF inv, of k ops] track_floor_bounds [OF inv, of k] track_floor_bounds [OF inv, of p]
      track_floor_bounds [OF inv', of p] track_floor_bounds [OF inv', of k] by linarith
  then show ?thesis using direct_bytes_none [of k ops ?st] by (auto simp: Let_def)
qed

text \<open>A frame fetched by \<open>take_track\<close> leaves the virtual time, so the next one starts as early again.\<close>

lemma take_track_uncharged:
  assumes "slot_inv st" and "track_take_track st key = (st', Some value)"
  shows "track_floor k st' = (if k = key then tl_virtual_time st else track_floor k st)"
  using track_take_track_cases [OF assms] by (auto simp: track_floor_def bm_get_remove split: option.splits)

definition sample_video :: "nat \<Rightarrow> video_outbound" where
  "sample_video n = \<lparr>vob_track_key = UnscopedTrack,
     vob_metadata = \<lparr>vm_frame_id = 1, vm_codec = Vp9, vm_flags = 0, vm_presentation_timestamp_us = 0\<rparr>,
     vob_source_info = None, vob_payload = replicate n 0, vob_ordering_epoch = 0\<rparr>"

lemmas slot_eval = sample_video_def track_replace_def track_take_def store_video_def track_slot_new_def
  service_order_def bm_remove_def less_eq_prod_def MAX_APPLICATION_FRAME_BYTES_def
  MAX_PENDING_VIDEO_BYTES_def

theorem slot_byte_fair_witness:
  "let st = foldl slot_step (track_slot_new 2)
       [Offer (LatestTrack 1) (sample_video 3) should_replace_pending_video,
        Offer (LatestTrack 2) (sample_video 1) should_replace_pending_video] in
   waits (LatestTrack 1) st [TakeAny] \<and> served_bytes (LatestTrack 2) st [TakeAny] = 1 \<and>
   served_bytes (LatestTrack 2) st [TakeAny] \<le> 2 * MAX_APPLICATION_FRAME_BYTES"
proof -
  let ?before = "[Offer (LatestTrack 1) (sample_video 3) should_replace_pending_video,
        Offer (LatestTrack 2) (sample_video 1) should_replace_pending_video]"
  have st: "foldl slot_step (track_slot_new 2) ?before =
      \<lparr>tl_pending = [(LatestTrack 1, \<lparr>pv_value = sample_video 3, pv_finish = 3\<rparr>),
         (LatestTrack 2, \<lparr>pv_value = sample_video 1, pv_finish = 1\<rparr>)], tl_last_taken = None,
       tl_virtual_time = 0, tl_bytes = 4, tl_newest_stream = replicate MAX_VIDEO_DISPLAYS None,
       tl_max_tracks = 2\<rparr>"
    by (simp add: slot_eval less_video_outbound_track_key_def)
  have w: "waits (LatestTrack 1) (foldl slot_step (track_slot_new 2) ?before) [TakeAny]"
    unfolding st by (simp add: slot_eval)
  moreover have "served_bytes (LatestTrack 2) (foldl slot_step (track_slot_new 2) ?before) [TakeAny] = 1"
    unfolding st by (simp add: slot_eval step_served_def)
  ultimately show ?thesis using slot_byte_fair [OF w, of "LatestTrack 2"] by (simp add: Let_def)
qed

section \<open>Recovery after a lost reference\<close>

datatype recovery_op =
  Enter video_outbound_track_key "video_source_info option" u64
| SuppressDelta video_outbound_track_key u64
| KeyframeSent video_outbound_track_key u64

fun recovery_step :: "video_send_recovery \<Rightarrow> recovery_op \<Rightarrow> video_send_recovery" where
  "recovery_step st (Enter key source dropped) = fst (recovery_enter st key source dropped)"
| "recovery_step st (SuppressDelta key frame_id) = fst (suppress_delta st key frame_id)"
| "recovery_step st (KeyframeSent key frame_id) = keyframe_sent st key frame_id"

text \<open>
  The specification of one track: either it flows, or it awaits a keyframe newer than every
  frame lost or suppressed since.
\<close>

fun await_step :: "video_outbound_track_key \<Rightarrow> u64 option \<Rightarrow> recovery_op \<Rightarrow> u64 option" where
  "await_step k w (Enter key source dropped) =
     (if key = k then Some (case w of None \<Rightarrow> dropped | Some m \<Rightarrow> max m dropped) else w)"
| "await_step k w (SuppressDelta key frame_id) =
     (if key = k then map_option (\<lambda>m. max m frame_id) w else w)"
| "await_step k w (KeyframeSent key frame_id) =
     (if key = k then (case w of None \<Rightarrow> None | Some m \<Rightarrow> if frame_id > m then None else Some m) else w)"

definition awaited :: "video_outbound_track_key \<Rightarrow> video_send_recovery \<Rightarrow> u64 option" where
  "awaited k st = map_option str_minimum_keyframe_id (bm_get (vsr_tracks st) k)"

text \<open>
  A loss is refused when its stream is stale; the loss of another stream of the same display
  ends the wait of a track.
\<close>

fun undisturbed_by :: "video_outbound_track_key \<Rightarrow> video_send_recovery \<Rightarrow> recovery_op \<Rightarrow> bool" where
  "undisturbed_by k st (Enter key source dropped) \<longleftrightarrow>
     (if key = k then (case source of None \<Rightarrow> True | Some s \<Rightarrow> \<not> stale_source st (si_key s))
      else (case bm_get (vsr_tracks st) k of
              None \<Rightarrow> True
            | Some t \<Rightarrow> retained_track key (map_option si_key source) (k, t)))"
| "undisturbed_by k st op \<longleftrightarrow> True"

fun undisturbed :: "video_outbound_track_key \<Rightarrow> video_send_recovery \<Rightarrow> recovery_op list \<Rightarrow> bool" where
  "undisturbed k st [] \<longleftrightarrow> True"
| "undisturbed k st (op # ops) \<longleftrightarrow> undisturbed_by k st op \<and> undisturbed k (recovery_step st op) ops"

definition track_display :: "video_outbound_track_key \<times> send_track_recovery \<Rightarrow> i32 option" where
  "track_display e = map_option vk_display (str_source (snd e))"

definition recovery_entry_ok :: "video_outbound_track_key \<times> send_track_recovery \<Rightarrow> bool" where
  "recovery_entry_ok e \<longleftrightarrow> str_awaiting_keyframe (snd e) \<and>
     (case str_source (snd e) of None \<Rightarrow> True | Some s \<Rightarrow> \<not> sint (vk_display s) < 0 \<and>
        unat (vk_display s) < MAX_VIDEO_DISPLAYS)"

definition recovery_inv :: "video_send_recovery \<Rightarrow> bool" where
  "recovery_inv st \<longleftrightarrow> bm_ok (vsr_tracks st) \<and> inj_on track_display (set (vsr_tracks st)) \<and>
     (\<forall>e \<in> set (vsr_tracks st). recovery_entry_ok e)"

lemma recovery_inv_subset:
  "recovery_inv st \<Longrightarrow> bm_ok (vsr_tracks st') \<Longrightarrow> set (vsr_tracks st') \<subseteq> set (vsr_tracks st) \<Longrightarrow>
   recovery_inv st'"
  by (auto simp: recovery_inv_def intro: inj_on_subset)

text \<open>Writing an entry whose display no other entry has.\<close>

lemma recovery_inv_insert:
  assumes inv: "recovery_inv st" and entry: "recovery_entry_ok (key, t)"
    and fresh: "\<And>e. e \<in> set (vsr_tracks st) \<Longrightarrow> fst e \<noteq> key \<Longrightarrow> track_display e \<noteq> track_display (key, t)"
    and st': "vsr_tracks st' = bm_insert key t (vsr_tracks st)"
  shows "recovery_inv st'"
proof -
  let ?rest = "{e \<in> set (vsr_tracks st). fst e \<noteq> key}"
  have ok: "bm_ok (vsr_tracks st)" using inv by (simp add: recovery_inv_def)
  have "inj_on track_display ?rest"
    using inv by (auto simp: recovery_inv_def intro: inj_on_subset)
  moreover have "track_display (key, t) \<notin> track_display ` ?rest" using fresh by force
  ultimately have "inj_on track_display (insert (key, t) ?rest)" by (auto simp: inj_on_insert)
  with inv entry ok show ?thesis by (auto simp: recovery_inv_def st' set_bm_insert)
qed

lemma recovery_get_ok:
  "recovery_inv st \<Longrightarrow> bm_get (vsr_tracks st) k = Some t \<Longrightarrow> recovery_entry_ok (k, t)"
  by (auto simp: recovery_inv_def dest: bm_get_mem)

lemma recovery_other_display:
  "recovery_inv st \<Longrightarrow> bm_get (vsr_tracks st) k = Some t \<Longrightarrow> e \<in> set (vsr_tracks st) \<Longrightarrow> fst e \<noteq> k \<Longrightarrow>
   track_display e \<noteq> track_display (k, t)"
  unfolding recovery_inv_def by (metis bm_get_mem inj_onD fst_conv)

lemma enter_tracks:
  assumes "case source of None \<Rightarrow> True | Some s \<Rightarrow> \<not> stale_source st (si_key s)"
  shows "vsr_tracks (fst (recovery_enter st key source dropped)) = bm_insert key
    \<lparr>str_awaiting_keyframe = True,
     str_minimum_keyframe_id =
       max (case bm_get (filter (retained_track key (map_option si_key source)) (vsr_tracks st)) key of
              None \<Rightarrow> 0 | Some t \<Rightarrow> str_minimum_keyframe_id t) dropped,
     str_source = map_option si_key source\<rparr>
    (filter (retained_track key (map_option si_key source)) (vsr_tracks st))"
  using assms
  by (cases "bm_get (filter (retained_track key (map_option si_key source)) (vsr_tracks st)) key")
    (simp_all add: recovery_enter_def Let_def split: option.splits)

lemma enter_inv:
  assumes inv: "recovery_inv st"
  shows "recovery_inv (fst (recovery_enter st key source dropped))"
proof (cases "case source of None \<Rightarrow> False | Some s \<Rightarrow> stale_source st (si_key s)")
  case True
  then show ?thesis using inv by (cases source) (simp_all add: recovery_enter_def)
next
  case False
  let ?src = "map_option si_key source"
  let ?kept = "st\<lparr>vsr_tracks := filter (retained_track key ?src) (vsr_tracks st)\<rparr>"
  have kept: "recovery_inv ?kept"
    using inv by (rule recovery_inv_subset) (use inv in \<open>auto simp: recovery_inv_def bm_ok_filter\<close>)
  have fresh: "case source of None \<Rightarrow> True | Some s \<Rightarrow> \<not> stale_source st (si_key s)"
    using False by (simp split: option.splits)
  define st' where "st' = fst (recovery_enter st key source dropped)"
  obtain t where t: "vsr_tracks st' = bm_insert key t (vsr_tracks ?kept)"
    "str_awaiting_keyframe t" "str_source t = ?src"
    unfolding st'_def enter_tracks [OF fresh] by simp
  have "recovery_entry_ok (key, t)"
    using False t(2) by (cases source) (auto simp: recovery_entry_ok_def t(3) stale_source_def)
  moreover have "track_display e \<noteq> track_display (key, t)"
    if "e \<in> set (vsr_tracks ?kept)" "fst e \<noteq> key" for e
    using that
    by (cases source; cases "str_source (snd e)") (auto simp: retained_track_def track_display_def t(3))
  ultimately show ?thesis
    using recovery_inv_insert [OF kept _ _ t(1)] by (simp add: st'_def)
qed

lemma recovery_step_inv:
  assumes inv: "recovery_inv st"
  shows "recovery_inv (recovery_step st op)"
proof (cases op)
  case (Enter key source dropped)
  then show ?thesis using enter_inv [OF inv] by simp
next
  case (SuppressDelta key frame_id)
  show ?thesis
  proof (cases "bm_get (vsr_tracks st) key")
    case None
    then show ?thesis using SuppressDelta inv by (simp add: suppress_delta_def)
  next
    case (Some t)
    note ok = recovery_get_ok [OF inv Some]
    let ?t = "t\<lparr>str_minimum_keyframe_id := max (str_minimum_keyframe_id t) frame_id\<rparr>"
    show ?thesis
    proof (rule recovery_inv_insert [OF inv])
      show "recovery_entry_ok (key, ?t)" using ok by (simp add: recovery_entry_ok_def)
      show "vsr_tracks (recovery_step st op) = bm_insert key ?t (vsr_tracks st)"
        using SuppressDelta Some ok by (simp add: suppress_delta_def recovery_entry_ok_def)
      show "track_display e \<noteq> track_display (key, ?t)"
        if "e \<in> set (vsr_tracks st)" "fst e \<noteq> key" for e
        using recovery_other_display [OF inv Some that] by (simp add: track_display_def)
    qed
  qed
next
  case (KeyframeSent key frame_id)
  show ?thesis
    by (rule recovery_inv_subset [OF inv])
      (use inv in \<open>auto simp: KeyframeSent keyframe_sent_def recovery_inv_def set_bm_remove split: option.splits\<close>)
qed

interpretation send_recovery: step_invariant recovery_step recovery_inv
  by unfold_locales (rule recovery_step_inv)

lemma recovery_new_inv [simp]: "recovery_inv (send_recovery_new scoped)"
  by (simp add: recovery_inv_def send_recovery_new_def)

lemma recovery_step_refines:
  assumes inv: "recovery_inv st" and ok: "undisturbed_by k st op"
  shows "awaited k (recovery_step st op) = await_step k (awaited k st) op"
proof (cases op)
  case (Enter key source dropped)
  have bm: "bm_ok (vsr_tracks st)" using inv by (simp add: recovery_inv_def)
  show ?thesis
  proof (cases "case source of None \<Rightarrow> True | Some s \<Rightarrow> \<not> stale_source st (si_key s)")
    case True
    have own: "retained_track key src (key, t)" for src t by (simp add: retained_track_def)
    from ok own show ?thesis
      by (auto simp: Enter awaited_def enter_tracks [OF True] bm_get_insert bm_get_filter [OF bm]
          split: option.splits if_splits)
  next
    case False
    with ok show ?thesis by (auto simp: Enter recovery_enter_def awaited_def split: option.splits if_splits)
  qed
next
  case (SuppressDelta key frame_id)
  then show ?thesis
    using recovery_get_ok [OF inv, of key]
    by (auto simp: suppress_delta_def awaited_def bm_get_insert recovery_entry_ok_def split: option.splits)
next
  case (KeyframeSent key frame_id)
  then show ?thesis
    by (auto simp: keyframe_sent_def awaited_def bm_get_remove split: option.splits)
qed

text \<open>
  Property C32: a track that lost a frame sends no delta before a newer keyframe. Along every
  run that neither names a stale stream nor retires the track, the recovery implements the
  per-track specification: it suppresses deltas exactly while the specification awaits, that
  is, until a keyframe newer than every frame lost or suppressed.
\<close>

theorem send_recovery_refines:
  assumes "undisturbed k (foldl recovery_step (send_recovery_new scoped) before) ops"
  shows "let st = foldl recovery_step (send_recovery_new scoped) before; st' = foldl recovery_step st ops in
    awaited k st' = foldl (await_step k) (awaited k st) ops \<and>
    snd (suppress_delta st' k frame_id) = (foldl (await_step k) (awaited k st) ops \<noteq> None)"
proof -
  let ?st = "foldl recovery_step (send_recovery_new scoped) before"
  have run: "awaited k (foldl recovery_step st ops) = foldl (await_step k) (awaited k st) ops"
    if "recovery_inv st" "undisturbed k st ops" for st
    using that
    by (induction ops arbitrary: st) (simp_all add: recovery_step_inv recovery_step_refines)
  have inv: "recovery_inv ?st" by (rule send_recovery.run_preserves) simp
  have inv': "recovery_inv (foldl recovery_step ?st ops)" using inv by (rule send_recovery.run_preserves)
  have "snd (suppress_delta (foldl recovery_step ?st ops) k frame_id) =
      (awaited k (foldl recovery_step ?st ops) \<noteq> None)"
    using recovery_get_ok [OF inv', of k]
    by (auto simp: suppress_delta_def awaited_def recovery_entry_ok_def split: option.splits)
  with run [OF inv assms] show ?thesis by (simp only: Let_def)
qed

theorem send_recovery_refines_witness:
  "let st = foldl recovery_step (send_recovery_new False) [Enter UnscopedTrack None 5];
       ops = [SuppressDelta UnscopedTrack 6, KeyframeSent UnscopedTrack 6] in
   undisturbed UnscopedTrack st ops \<and> awaited UnscopedTrack st = Some 5 \<and>
   awaited UnscopedTrack (foldl recovery_step st ops) = Some 6 \<and>
   snd (suppress_delta (foldl recovery_step st ops) UnscopedTrack 7) \<and>
   \<not> snd (suppress_delta (foldl recovery_step st (ops @ [KeyframeSent UnscopedTrack 7])) UnscopedTrack 8)"
proof -
  let ?ops = "[SuppressDelta UnscopedTrack 6, KeyframeSent UnscopedTrack 6]"
  let ?st = "foldl recovery_step (send_recovery_new False) [Enter UnscopedTrack None 5]"
  have st: "awaited UnscopedTrack ?st = Some 5"
    by (simp add: awaited_def recovery_enter_def send_recovery_new_def Let_def)
  have u: "undisturbed UnscopedTrack ?st ?ops" "undisturbed UnscopedTrack ?st (?ops @ [KeyframeSent UnscopedTrack 7])"
    by simp_all
  show ?thesis
    using send_recovery_refines [OF u(1), of 7] send_recovery_refines [OF u(2), of 8] st u(1)
    by (simp add: Let_def)
qed

text \<open>At most one track per display, and one without a display, awaits a keyframe.\<close>

lemma send_recovery_bounded:
  "length (vsr_tracks (foldl recovery_step (send_recovery_new scoped) ops)) \<le> MAX_VIDEO_DISPLAYS + 1"
proof -
  let ?m = "vsr_tracks (foldl recovery_step (send_recovery_new scoped) ops)"
  let ?D = "(\<lambda>n. word_of_nat n :: i32) ` {..<MAX_VIDEO_DISPLAYS}"
  have inv: "recovery_inv (foldl recovery_step (send_recovery_new scoped) ops)"
    by (rule send_recovery.run_preserves) simp
  have "track_display e \<in> insert None (Some ` ?D)" if "e \<in> set ?m" for e
  proof (cases "str_source (snd e)")
    case None
    then show ?thesis by (simp add: track_display_def)
  next
    case (Some s)
    with inv that have "unat (vk_display s) < MAX_VIDEO_DISPLAYS"
      by (auto simp: recovery_inv_def recovery_entry_ok_def split: option.splits)
    then have "vk_display s \<in> ?D" by (intro image_eqI [of _ _ "unat (vk_display s)"]) simp_all
    with Some show ?thesis by (simp add: track_display_def)
  qed
  then have "card (track_display ` set ?m) \<le> card (insert None (Some ` ?D))"
    by (intro card_mono) auto
  also have "\<dots> \<le> Suc (card (Some ` ?D))" by (rule card_insert_le_m1) simp_all
  also have "card (Some ` ?D) \<le> MAX_VIDEO_DISPLAYS"
    by (metis card_image_le card_lessThan finite_imageI finite_lessThan order_trans)
  finally have "card (track_display ` set ?m) \<le> MAX_VIDEO_DISPLAYS + 1" by simp
  moreover have "card (track_display ` set ?m) = length ?m"
    using inv bm_ok_distinct [of ?m]
    by (simp add: recovery_inv_def card_image distinct_card distinct_map)
  ultimately show ?thesis by simp
qed

end
