(* ===== verification/Video_Recovery.thy ===== *)
theory Video_Recovery
  imports Video_Holdback
begin

text \<open>
  The receiving side of application video (\<open>src/transport/application.rs\<close>): the per-stream
  continuity check \<open>VideoReceiveRecovery\<close>, the requests for a fresh keyframe with their retry
  schedule, and the two handlers that feed it, for reassembled datagram frames and for
  keyframes of the reliable video channel.

  Parameters: \<open>source_of\<close> is \<open>video_source_info\<close>, which parses the protobuf message of a payload
  (\<open>None\<close> is its error); \<open>send_inbound\<close> and \<open>send_control\<close> are \<open>try_send\<close> of the bounded queues to
  the application and to the control writer. A refresh is represented by the fields of the
  message it becomes.
\<close>

section \<open>Continuity of a stream\<close>

record video_receive_state =
  vrs_last_frame_id :: u64
  vrs_awaiting_keyframe :: bool
  vrs_codec :: "video_codec option"

definition video_receive_default :: video_receive_state where
  "video_receive_default =
     \<lparr>vrs_last_frame_id = 0, vrs_awaiting_keyframe = False, vrs_codec = None\<rparr>"

datatype video_receive_decision = DAccept | DAcceptAfterGap | DSuppress | DSuppressAfterGap

record pending_video_recovery =
  pvr_source :: "video_source_info option"
  pvr_requested_at :: instant
  pvr_retries :: u8
  pvr_strict_recovery :: bool

datatype video_keyframe_request = LegacyRequest | ScopedRequest video_reference_refresh_request

record video_receive_recovery =
  rr_streams :: "(video_stream_key, video_receive_state) btree_map"
  rr_last_observed :: "video_source_info option"
  rr_pending_requests :: "(video_stream_key option, pending_video_recovery) btree_map"
  rr_last_keyframe_request_at :: "(video_stream_key option, instant) btree_map"

definition video_receive_recovery_default :: video_receive_recovery where
  "video_receive_recovery_default =
     \<lparr>rr_streams = [], rr_last_observed = None, rr_pending_requests = [],
      rr_last_keyframe_request_at = []\<rparr>"

definition recovery_prepare_stream ::
    "video_receive_recovery \<Rightarrow> video_stream_key \<Rightarrow> video_receive_recovery" where
  "recovery_prepare_stream rr key =
     (if \<not> bm_contains (rr_streams rr) key \<and> length (rr_streams rr) \<ge> MAX_VIDEO_STREAM_STATES then
        (case rr_streams rr of
           [] \<Rightarrow> rr
         | (evicted, _) # rest \<Rightarrow>
             rr\<lparr>rr_streams := rest,
                rr_pending_requests := bm_remove (Some evicted) (rr_pending_requests rr),
                rr_last_keyframe_request_at :=
                  bm_remove (Some evicted) (rr_last_keyframe_request_at rr)\<rparr>)
      else rr)"

definition receive_state :: "video_receive_recovery \<Rightarrow> video_stream_key \<Rightarrow> video_receive_state" where
  "receive_state rr key =
     (case bm_get (rr_streams rr) key of Some st \<Rightarrow> st | None \<Rightarrow> video_receive_default)"

definition put_receive_state ::
    "video_receive_recovery \<Rightarrow> video_stream_key \<Rightarrow> video_receive_state \<Rightarrow> video_receive_recovery" where
  "put_receive_state rr key st = rr\<lparr>rr_streams := bm_insert key st (rr_streams rr)\<rparr>"

definition note_source_context ::
    "video_receive_recovery \<Rightarrow> video_source_info \<Rightarrow> video_receive_recovery" where
  "note_source_context rr info =
     (if vk_stream_id (si_key info) = 0 \<or> si_frame_id info = 0 then rr
      else
        (let rr1 = (recovery_prepare_stream rr (si_key info))\<lparr>rr_last_observed := Some info\<rparr> in
         put_receive_state rr1 (si_key info)
           ((receive_state rr1 (si_key info))\<lparr>vrs_codec := Some (si_codec info)\<rparr>)))"

text \<open>A keyframe retires what is known of other streams of its display.\<close>

definition retire_display ::
    "video_receive_recovery \<Rightarrow> video_stream_key \<Rightarrow> video_receive_recovery" where
  "retire_display rr key =
     (let replaced_stream =
            list_ex (\<lambda>e. vk_display (fst e) = vk_display key \<and> fst e \<noteq> key) (rr_streams rr);
          times = filter (\<lambda>e. case fst e of
                                None \<Rightarrow> True
                              | Some k \<Rightarrow> vk_display k \<noteq> vk_display key \<or> vk_stream_id k = vk_stream_id key)
                    (rr_last_keyframe_request_at rr) in
      rr\<lparr>rr_streams := filter (\<lambda>e. vk_display (fst e) \<noteq> vk_display key \<or>
                                   vk_stream_id (fst e) = vk_stream_id key) (rr_streams rr),
         rr_pending_requests :=
           filter (\<lambda>e. \<not> (case pvr_source (snd e) of
                            None \<Rightarrow> False
                          | Some source \<Rightarrow> vk_display (si_key source) = vk_display key \<and>
                              si_key source \<noteq> key)) (rr_pending_requests rr),
         rr_last_keyframe_request_at := (if replaced_stream then bm_remove None times else times)\<rparr>)"

definition settle_requests ::
    "video_receive_recovery \<Rightarrow> video_source_info \<Rightarrow> video_receive_recovery" where
  "settle_requests rr info =
     rr\<lparr>rr_pending_requests :=
          filter (\<lambda>e. \<not> (case pvr_source (snd e) of
                           None \<Rightarrow> False
                         | Some source \<Rightarrow> si_key source = si_key info \<and>
                             si_frame_id info > si_frame_id source)) (rr_pending_requests rr)\<rparr>"

definition observe ::
    "video_receive_recovery \<Rightarrow> video_source_info \<Rightarrow> bool \<Rightarrow>
     video_receive_recovery \<times> video_receive_decision" where
  "observe rr info strict_gap_recovery =
     (if vk_stream_id (si_key info) = 0 \<or> si_frame_id info = 0 then (rr, DAccept)
      else
        (let key = si_key info;
             rr1 = (if si_keyframe info then retire_display rr key else rr);
             rr2 = (recovery_prepare_stream rr1 key)\<lparr>rr_last_observed := Some info\<rparr> in
         if si_keyframe info then
           (let rr3 = settle_requests rr2 info in
            (put_receive_state rr3 key
               \<lparr>vrs_last_frame_id = si_frame_id info, vrs_awaiting_keyframe = False,
                vrs_codec = Some (si_codec info)\<rparr>, DAccept))
         else
           (let st = (receive_state rr2 key)\<lparr>vrs_codec := Some (si_codec info)\<rparr> in
            if vrs_awaiting_keyframe st \<or> vrs_last_frame_id st = 0
              then (put_receive_state rr2 key (st\<lparr>vrs_awaiting_keyframe := True\<rparr>), DSuppress)
            else if si_frame_id info \<le> vrs_last_frame_id st
              then (put_receive_state rr2 key st, DSuppress)
            else if si_frame_id info \<noteq> sat_add (vrs_last_frame_id st) 1 then
              (if strict_gap_recovery
               then (put_receive_state rr2 key (st\<lparr>vrs_awaiting_keyframe := True\<rparr>), DSuppressAfterGap)
               else (put_receive_state rr2 key (st\<lparr>vrs_last_frame_id := si_frame_id info\<rparr>),
                     DAcceptAfterGap))
            else (put_receive_state rr2 key (st\<lparr>vrs_last_frame_id := si_frame_id info\<rparr>), DAccept))))"

definition mark_reference_loss :: "video_receive_recovery \<Rightarrow> video_receive_recovery" where
  "mark_reference_loss rr =
     rr\<lparr>rr_streams := map (\<lambda>(key, st). (key, st\<lparr>vrs_awaiting_keyframe := True\<rparr>)) (rr_streams rr)\<rparr>"

definition mark_stream_reference_loss ::
    "video_receive_recovery \<Rightarrow> video_stream_key \<Rightarrow> video_receive_recovery" where
  "mark_stream_reference_loss rr key =
     (case bm_get (rr_streams rr) key of
        None \<Rightarrow> rr
      | Some st \<Rightarrow> put_receive_state rr key (st\<lparr>vrs_awaiting_keyframe := True\<rparr>))"

definition latest_source :: "video_receive_recovery \<Rightarrow> video_source_info option" where
  "latest_source rr =
     (case rr_last_observed rr of
        Some info \<Rightarrow> Some info
      | None \<Rightarrow>
          map_option (\<lambda>(key, st).
              \<lparr>si_key = key, si_frame_id = vrs_last_frame_id st, si_keyframe = False,
               si_codec = (case vrs_codec st of Some c \<Rightarrow> c | None \<Rightarrow> RawVideo)\<rparr>)
            (List.find (\<lambda>e. vrs_last_frame_id (snd e) > 0) (rev (rr_streams rr))))"

definition stream_awaiting_keyframe :: "video_receive_recovery \<Rightarrow> video_stream_key \<Rightarrow> bool" where
  "stream_awaiting_keyframe rr key =
     (case bm_get (rr_streams rr) key of None \<Rightarrow> False | Some st \<Rightarrow> vrs_awaiting_keyframe st)"

section \<open>Requests for a keyframe\<close>

definition VIDEO_KEYFRAME_REQUEST_MIN_INTERVAL :: duration where
  "VIDEO_KEYFRAME_REQUEST_MIN_INTERVAL = from_secs 1"
definition VIDEO_KEYFRAME_RETRY_INITIAL_DELAY :: duration where
  "VIDEO_KEYFRAME_RETRY_INITIAL_DELAY = from_secs 1"
definition VIDEO_KEYFRAME_RETRY_MAX_ATTEMPTS :: u8 where "VIDEO_KEYFRAME_RETRY_MAX_ATTEMPTS = 3"
definition VIDEO_KEYFRAME_RECOVERY_CYCLE_COOLDOWN :: duration where
  "VIDEO_KEYFRAME_RECOVERY_CYCLE_COOLDOWN = from_secs 10"

text \<open>The delay after which a pending request is repeated; \<open>1u32 << retries\<close> is at most 4 there.\<close>

definition retry_delay :: "pending_video_recovery \<Rightarrow> duration" where
  "retry_delay pending =
     (if pvr_retries pending < VIDEO_KEYFRAME_RETRY_MAX_ATTEMPTS
      then VIDEO_KEYFRAME_RETRY_INITIAL_DELAY * 2 ^ unat (pvr_retries pending)
      else VIDEO_KEYFRAME_RECOVERY_CYCLE_COOLDOWN)"

definition next_retries :: "pending_video_recovery option \<Rightarrow> bool \<Rightarrow> bool \<Rightarrow> u8" where
  "next_retries pending_request is_new_stream strict_escalation =
     (case pending_request of
        None \<Rightarrow> 0
      | Some pending \<Rightarrow>
          if strict_escalation then pvr_retries pending
          else if \<not> is_new_stream \<and> pvr_retries pending < VIDEO_KEYFRAME_RETRY_MAX_ATTEMPTS
          then sat_add (pvr_retries pending) 1 else 0)"

text \<open>The pending request was made for another stream than the one last seen.\<close>

definition request_is_new_stream ::
    "pending_video_recovery option \<Rightarrow> video_source_info option \<Rightarrow> bool" where
  "request_is_new_stream pending_request source =
     (case pending_request of
        None \<Rightarrow> False
      | Some pending \<Rightarrow>
          (case (pvr_source pending, source) of
             (Some p, Some s) \<Rightarrow> si_key p \<noteq> si_key s
           | _ \<Rightarrow> False))"

definition next_keyframe_request ::
    "video_receive_recovery \<Rightarrow> instant \<Rightarrow> bool \<Rightarrow> u64 \<Rightarrow> bool \<Rightarrow>
     video_receive_recovery \<times> video_keyframe_request option" where
  "next_keyframe_request rr now scoped dropped_frames strict_recovery =
     (let source = latest_source rr in
      if scoped \<and> source = None then (rr, None)
      else
        (let request_key = (if scoped then map_option si_key source else None);
             pending_request = bm_get (rr_pending_requests rr) request_key;
             last_at = bm_get (rr_last_keyframe_request_at rr) request_key;
             is_new_stream = request_is_new_stream pending_request source;
             pending_strict = (case pending_request of None \<Rightarrow> False | Some p \<Rightarrow> pvr_strict_recovery p);
             strict_escalation = (scoped \<and> strict_recovery \<and> \<not> pending_strict) in
         if \<not> is_new_stream \<and> \<not> strict_escalation \<and>
            (case last_at of
               None \<Rightarrow> False
             | Some last_request \<Rightarrow>
                 saturating_duration_since now last_request < VIDEO_KEYFRAME_REQUEST_MIN_INTERVAL)
           then (rr, None)
         else
           (let due = (case pending_request of
                         None \<Rightarrow> True
                       | Some pending \<Rightarrow> is_new_stream \<or>
                           saturating_duration_since now (pvr_requested_at pending) \<ge> retry_delay pending) in
            if \<not> due \<and> \<not> strict_escalation then (rr, None)
            else
              (let retries = next_retries pending_request is_new_stream strict_escalation;
                   strict = (strict_recovery \<or> (\<not> is_new_stream \<and> pending_strict));
                   rr' = rr\<lparr>rr_pending_requests := bm_insert request_key
                              \<lparr>pvr_source = source, pvr_requested_at = now, pvr_retries = retries,
                               pvr_strict_recovery = strict\<rparr> (rr_pending_requests rr),
                            rr_last_keyframe_request_at :=
                              bm_insert request_key now (rr_last_keyframe_request_at rr)\<rparr> in
               (rr',
                (case (scoped, source) of
                   (True, Some s) \<Rightarrow>
                     map_option ScopedRequest (video_reference_refresh s dropped_frames strict)
                 | (False, _) \<Rightarrow> Some LegacyRequest
                 | (True, None) \<Rightarrow> None))))))"

section \<open>Metrics\<close>

record video_metrics =
  mx_reassembly_drops :: u64
  mx_reassembly_expired :: u64
  mx_reassembly_evicted :: u64
  mx_reassembly_obsolete :: u64
  mx_reassembly_pre_keyframe :: u64
  mx_reassembly_expired_keyframes :: u64
  mx_reassembly_missing_fragments :: u64
  mx_reassembly_last_us :: u64
  mx_reassembly_max_us :: u64
  mx_reassembly_max_gap_us :: u64
  mx_reassembly_last_frame_bytes :: u64
  mx_reassembly_last_frame_fragments :: u64
  mx_keyframe_requests :: u64
  mx_reliable_keyframes_received :: u64
  mx_source_frame_gaps :: u64
  mx_recovery_suppressed_frames :: u64
  mx_barrier_held :: u64
  mx_barrier_released :: u64
  mx_barrier_timeouts :: u64
  mx_barrier_overflows :: u64
  mx_barrier_gap_events :: u64
  mx_barrier_gap_skipped_frames :: u64

definition record_reassembly_metrics :: "video_metrics \<Rightarrow> video_stats \<Rightarrow> video_metrics" where
  "record_reassembly_metrics mx stats =
     mx\<lparr>mx_reassembly_drops :=
          sat_add (sat_add (sat_add (vs_expired_frames stats) (vs_evicted_frames stats))
            (vs_obsolete_frames stats)) (vs_pre_keyframe_frames stats),
        mx_reassembly_expired := vs_expired_frames stats,
        mx_reassembly_evicted := vs_evicted_frames stats,
        mx_reassembly_obsolete := vs_obsolete_frames stats,
        mx_reassembly_pre_keyframe := vs_pre_keyframe_frames stats,
        mx_reassembly_expired_keyframes := vs_expired_keyframes stats,
        mx_reassembly_missing_fragments := vs_missing_fragments stats,
        mx_reassembly_last_us := vs_last_frame_assembly_us stats,
        mx_reassembly_max_us := vs_max_frame_assembly_us stats,
        mx_reassembly_max_gap_us := vs_max_fragment_gap_us stats,
        mx_reassembly_last_frame_bytes := vs_last_frame_bytes stats,
        mx_reassembly_last_frame_fragments := vs_last_frame_fragments stats\<rparr>"

definition record_holdback_metrics :: "video_metrics \<Rightarrow> holdback_outcome \<Rightarrow> video_metrics" where
  "record_holdback_metrics mx outcome =
     mx\<lparr>mx_barrier_held := mx_barrier_held mx + word_of_usize_sat (ho_held_frames outcome),
        mx_barrier_released := mx_barrier_released mx + word_of_usize_sat (ho_released_frames outcome),
        mx_barrier_timeouts := mx_barrier_timeouts mx + word_of_usize_sat (ho_timed_out_frames outcome),
        mx_barrier_overflows := mx_barrier_overflows mx + word_of_usize_sat (ho_overflowed_frames outcome),
        mx_barrier_gap_events := mx_barrier_gap_events mx + word_of_usize_sat (ho_gap_events outcome),
        mx_barrier_gap_skipped_frames :=
          mx_barrier_gap_skipped_frames mx + ho_gap_skipped_frames outcome\<rparr>"

section \<open>The handlers\<close>

datatype try_send = SendOk | SendFull | SendClosed

record ('q, 'c) video_receiver =
  rx_recovery :: video_receive_recovery
  rx_holdback :: epoch_holdback
  rx_metrics :: video_metrics
  rx_inbound :: 'q
  rx_control :: 'c

record video_payload_delivery =
  pd_alive :: bool
  pd_needs_keyframe :: bool
  pd_strict_recovery :: bool

definition count_suppressed :: "video_metrics \<Rightarrow> video_metrics" where
  "count_suppressed mx = mx\<lparr>mx_recovery_suppressed_frames := mx_recovery_suppressed_frames mx + 1\<rparr>"

definition count_gap :: "video_metrics \<Rightarrow> video_metrics" where
  "count_gap mx = mx\<lparr>mx_source_frame_gaps := mx_source_frame_gaps mx + 1\<rparr>"

definition deliver_video_payload ::
    "('q \<Rightarrow> bytes \<Rightarrow> 'q \<times> try_send) \<Rightarrow> ('q, 'c) video_receiver \<Rightarrow> video_source_info \<Rightarrow> bytes \<Rightarrow> bool \<Rightarrow>
     ('q, 'c) video_receiver \<times> video_payload_delivery" where
  "deliver_video_payload send_inbound rx info payload strict_gap =
     (let strict_gap_recovery = (strict_gap \<or> is_reference_sensitive (si_codec info));
          (rr, decision) = observe (rx_recovery rx) info strict_gap_recovery;
          rx1 = rx\<lparr>rx_recovery := rr\<rparr> in
      if decision = DAccept \<or> decision = DAcceptAfterGap then
        (let after_gap = (decision = DAcceptAfterGap);
             rx2 = (if after_gap then rx1\<lparr>rx_metrics := count_gap (rx_metrics rx1)\<rparr> else rx1);
             (q, sent) = send_inbound (rx_inbound rx2) payload;
             rx3 = rx2\<lparr>rx_inbound := q\<rparr> in
         case sent of
           SendOk \<Rightarrow>
             (rx3, \<lparr>pd_alive = True,
                    pd_needs_keyframe = (after_gap \<or>
                      (si_keyframe info \<and> stream_awaiting_keyframe (rx_recovery rx3) (si_key info))),
                    pd_strict_recovery = False\<rparr>)
         | SendFull \<Rightarrow>
             (rx3\<lparr>rx_recovery := mark_stream_reference_loss (rx_recovery rx3) (si_key info),
                  rx_metrics := count_suppressed (rx_metrics rx3)\<rparr>,
              \<lparr>pd_alive = True, pd_needs_keyframe = True, pd_strict_recovery = True\<rparr>)
         | SendClosed \<Rightarrow>
             (rx3, \<lparr>pd_alive = False, pd_needs_keyframe = False, pd_strict_recovery = False\<rparr>))
      else if decision = DSuppress then
        (rx1\<lparr>rx_metrics := count_suppressed (rx_metrics rx1)\<rparr>,
         \<lparr>pd_alive = True, pd_needs_keyframe = True, pd_strict_recovery = strict_gap_recovery\<rparr>)
      else
        (rx1\<lparr>rx_metrics := count_suppressed (count_gap (rx_metrics rx1))\<rparr>,
         \<lparr>pd_alive = True, pd_needs_keyframe = True, pd_strict_recovery = True\<rparr>))"

text \<open>The loop over the released frames: it stops when the application's queue is closed.\<close>

fun deliver_ready ::
    "('q \<Rightarrow> bytes \<Rightarrow> 'q \<times> try_send) \<Rightarrow> ('q, 'c) video_receiver \<Rightarrow> (video_source_info \<times> bytes) list \<Rightarrow>
     bool \<Rightarrow> video_payload_delivery \<Rightarrow> ('q, 'c) video_receiver \<times> video_payload_delivery" where
  "deliver_ready send_inbound rx [] strict_gap acc = (rx, acc)"
| "deliver_ready send_inbound rx ((info, payload) # ready) strict_gap acc =
     (let (rx', delivery) = deliver_video_payload send_inbound rx info payload strict_gap in
      if \<not> pd_alive delivery then (rx', acc\<lparr>pd_alive := False\<rparr>)
      else deliver_ready send_inbound rx' ready strict_gap
             (acc\<lparr>pd_needs_keyframe := pd_needs_keyframe acc \<or> pd_needs_keyframe delivery,
                  pd_strict_recovery := pd_strict_recovery acc \<or> pd_strict_recovery delivery\<rparr>))"

definition request_video_keyframe ::
    "('c \<Rightarrow> video_keyframe_request \<Rightarrow> 'c \<times> try_send) \<Rightarrow> ('q, 'c) video_receiver \<Rightarrow> bool \<Rightarrow> instant \<Rightarrow>
     u64 \<Rightarrow> bool \<Rightarrow> ('q, 'c) video_receiver \<times> bool" where
  "request_video_keyframe send_control rx scoped now dropped_frames strict_recovery =
     (let (rr, request) = next_keyframe_request (rx_recovery rx) now scoped dropped_frames strict_recovery;
          rx1 = rx\<lparr>rx_recovery := rr\<rparr> in
      case request of
        None \<Rightarrow> (rx1, True)
      | Some r \<Rightarrow>
          (let (c, sent) = send_control (rx_control rx1) r; rx2 = rx1\<lparr>rx_control := c\<rparr> in
           case sent of
             SendOk \<Rightarrow> (rx2\<lparr>rx_metrics := (rx_metrics rx2)
                              \<lparr>mx_keyframe_requests := mx_keyframe_requests (rx_metrics rx2) + 1\<rparr>\<rparr>, True)
           | SendFull \<Rightarrow> (rx2, True)
           | SendClosed \<Rightarrow> (rx2, False)))"

definition admit_frame ::
    "(bytes \<Rightarrow> video_source_info option) \<Rightarrow> ('q, 'c) video_receiver \<Rightarrow> bool \<Rightarrow>
     complete_video_frame option \<Rightarrow> instant \<Rightarrow> duration \<Rightarrow> ('q, 'c) video_receiver \<times> holdback_outcome" where
  "admit_frame source_of rx keyframe_barrier frame now reorder_window =
     (case frame of
        None \<Rightarrow>
          if keyframe_barrier then
            (let (hb, ho) = holdback_expire (rx_holdback rx) now reorder_window in
             (rx\<lparr>rx_holdback := hb\<rparr>, ho))
          else (rx, holdback_outcome_default)
      | Some f \<Rightarrow>
          (case source_of (cf_payload f) of
             None \<Rightarrow> (rx, holdback_outcome_default)
           | Some info \<Rightarrow>
               if keyframe_barrier then
                 (let (hb, ho) = admit_delta (rx_holdback rx) info
                        (vm_presentation_timestamp_us (cf_metadata f)) (cf_payload f) now reorder_window in
                  (rx\<lparr>rx_recovery := note_source_context (rx_recovery rx) info, rx_holdback := hb\<rparr>, ho))
               else (rx, holdback_outcome_default\<lparr>ho_ready := [(info, cf_payload f)]\<rparr>)))"

definition handle_video_outcome ::
    "(bytes \<Rightarrow> video_source_info option) \<Rightarrow> ('q \<Rightarrow> bytes \<Rightarrow> 'q \<times> try_send) \<Rightarrow>
     ('c \<Rightarrow> video_keyframe_request \<Rightarrow> 'c \<times> try_send) \<Rightarrow> ('q, 'c) video_receiver \<Rightarrow>
     video_outcome \<Rightarrow> video_stats \<Rightarrow> bool \<Rightarrow> bool \<Rightarrow> instant \<Rightarrow> duration \<Rightarrow>
     ('q, 'c) video_receiver \<times> bool" where
  "handle_video_outcome source_of send_inbound send_control rx0 outcome stats scoped keyframe_barrier
       now reorder_window =
     (let rx1 = rx0\<lparr>rx_metrics := record_reassembly_metrics (rx_metrics rx0) stats\<rparr>;
          dropped = vo_dropped_frames outcome > 0;
          strict_loss = (dropped \<and>
            (case latest_source (rx_recovery rx1) of
               None \<Rightarrow> False | Some source \<Rightarrow> is_reference_sensitive (si_codec source)));
          rx2 = (if dropped \<and> (\<not> keyframe_barrier \<or> strict_loss)
                 then rx1\<lparr>rx_recovery := mark_reference_loss (rx_recovery rx1)\<rparr> else rx1);
          (rx3, ho) = admit_frame source_of rx2 keyframe_barrier (vo_frame outcome) now reorder_window;
          rx4 = rx3\<lparr>rx_metrics := record_holdback_metrics (rx_metrics rx3) ho\<rparr>;
          rx5 = (if ho_strict_recovery_required ho
                 then rx4\<lparr>rx_recovery := mark_reference_loss (rx_recovery rx4)\<rparr> else rx4);
          (rx6, result) = deliver_ready send_inbound rx5 (ho_ready ho) (\<not> keyframe_barrier)
            \<lparr>pd_alive = True,
             pd_needs_keyframe = (vo_request_keyframe outcome \<or> dropped \<or> ho_recovery_required ho),
             pd_strict_recovery = (strict_loss \<or> ho_strict_recovery_required ho)\<rparr> in
      if \<not> pd_alive result then (rx6, False)
      else if \<not> pd_needs_keyframe result then (rx6, True)
      else request_video_keyframe send_control rx6 scoped now (ucast (vo_dropped_frames outcome))
             (pd_strict_recovery result))"

text \<open>A keyframe of the reliable video channel under the barrier; \<open>False\<close> ends the reader.\<close>

definition handle_reliable_keyframe ::
    "('q \<Rightarrow> bytes \<Rightarrow> 'q \<times> try_send) \<Rightarrow> ('c \<Rightarrow> video_keyframe_request \<Rightarrow> 'c \<times> try_send) \<Rightarrow>
     ('q, 'c) video_receiver \<Rightarrow> video_source_info \<Rightarrow> bytes \<Rightarrow> bool \<Rightarrow> instant \<Rightarrow> instant \<Rightarrow> duration \<Rightarrow>
     ('q, 'c) video_receiver \<times> bool" where
  "handle_reliable_keyframe send_inbound send_control rx0 info payload scoped now later reorder_window =
     (let rx1 = rx0\<lparr>rx_metrics := (rx_metrics rx0)
            \<lparr>mx_reliable_keyframes_received := mx_reliable_keyframes_received (rx_metrics rx0) + 1\<rparr>\<rparr>;
          (hb, ho) = accept_keyframe (rx_holdback rx1) info payload now reorder_window;
          rx2 = rx1\<lparr>rx_holdback := hb, rx_metrics := record_holdback_metrics (rx_metrics rx1) ho\<rparr>;
          rx3 = (if ho_strict_recovery_required ho
                 then rx2\<lparr>rx_recovery := mark_reference_loss (rx_recovery rx2)\<rparr> else rx2);
          (rx4, result) = deliver_ready send_inbound rx3 (ho_ready ho) False
            \<lparr>pd_alive = True, pd_needs_keyframe = ho_recovery_required ho,
             pd_strict_recovery = ho_strict_recovery_required ho\<rparr> in
      if \<not> pd_alive result then (rx4, False)
      else if \<not> pd_needs_keyframe result then (rx4, True)
      else request_video_keyframe send_control rx4 scoped later 0 (pd_strict_recovery result))"

end
