(* ===== verification/Video_Recovery_Properties.thy ===== *)
theory Video_Recovery_Properties
  imports Video_Recovery
begin

text \<open>
  Correctness of the receiving side: what reaches the application of one stream starts with a
  keyframe and goes on without gaps (or, for the tolerant codecs under the barrier, in order),
  its tables stay bounded, and requests for a keyframe follow the retry schedule.
\<close>

section \<open>Runs\<close>

datatype rx_event =
  DeliverFrame video_source_info bytes bool
| NoteSource video_source_info
| LoseReferences
| LoseStream video_stream_key
| RequestKeyframe instant bool u64 bool

fun rx_step ::
    "('q \<Rightarrow> bytes \<Rightarrow> 'q \<times> try_send) \<Rightarrow> ('c \<Rightarrow> video_keyframe_request \<Rightarrow> 'c \<times> try_send) \<Rightarrow>
     ('q, 'c) video_receiver \<Rightarrow> rx_event \<Rightarrow> ('q, 'c) video_receiver" where
  "rx_step send_inbound send_control rx (DeliverFrame info payload strict) =
     fst (deliver_video_payload send_inbound rx info payload strict)"
| "rx_step send_inbound send_control rx (NoteSource info) =
     rx\<lparr>rx_recovery := note_source_context (rx_recovery rx) info\<rparr>"
| "rx_step send_inbound send_control rx LoseReferences =
     rx\<lparr>rx_recovery := mark_reference_loss (rx_recovery rx)\<rparr>"
| "rx_step send_inbound send_control rx (LoseStream key) =
     rx\<lparr>rx_recovery := mark_stream_reference_loss (rx_recovery rx) key\<rparr>"
| "rx_step send_inbound send_control rx (RequestKeyframe now scoped dropped strict) =
     fst (request_video_keyframe send_control rx scoped now dropped strict)"

text \<open>
  The application's queue with a record of what entered it: every payload the queue took, in order,
  whichever call put it there.
\<close>

definition logged ::
    "('q \<Rightarrow> bytes \<Rightarrow> 'q \<times> try_send) \<Rightarrow> 'q \<times> bytes list \<Rightarrow> bytes \<Rightarrow> ('q \<times> bytes list) \<times> try_send" where
  "logged send q payload =
     (case send (fst q) payload of
        (q', answer) \<Rightarrow> ((q', if answer = SendOk then snd q @ [payload] else snd q), answer))"

text \<open>A frame is delivered with the source information of its own payload.\<close>

fun from_payload :: "(bytes \<Rightarrow> video_source_info option) \<Rightarrow> rx_event \<Rightarrow> bool" where
  "from_payload source_of (DeliverFrame info payload strict) \<longleftrightarrow> source_of payload = Some info"
| "from_payload source_of ev \<longleftrightarrow> True"

text \<open>The frames of stream \<open>k\<close>; frames without a stream or frame number are not sequenced.\<close>

definition of_stream :: "video_stream_key \<Rightarrow> video_source_info list \<Rightarrow> video_source_info list" where
  "of_stream k = filter (\<lambda>i. si_key i = k \<and> si_frame_id i \<noteq> 0)"

text \<open>The reference decoder of one stream, from the frame it decoded last.\<close>

fun decodable :: "bool \<Rightarrow> u64 option \<Rightarrow> video_source_info list \<Rightarrow> bool" where
  "decodable strict prev [] \<longleftrightarrow> True"
| "decodable strict prev (i # is) \<longleftrightarrow>
     (si_keyframe i \<or>
      (case prev of
         None \<Rightarrow> False
       | Some p \<Rightarrow> if strict then unat (si_frame_id i) = unat p + 1 else p < si_frame_id i)) \<and>
     decodable strict (Some (si_frame_id i)) is"

text \<open>The frames of stream \<open>k\<close> among the payloads that entered the queue.\<close>

definition delivered ::
    "(bytes \<Rightarrow> video_source_info option) \<Rightarrow> video_stream_key \<Rightarrow> ('q \<times> bytes list, 'c) video_receiver
     \<Rightarrow> video_source_info list" where
  "delivered source_of k rx = of_stream k (List.map_filter source_of (snd (rx_inbound rx)))"

text \<open>All deliveries for stream \<open>k\<close> are checked strictly.\<close>

fun strict_delivery :: "video_stream_key \<Rightarrow> rx_event \<Rightarrow> bool" where
  "strict_delivery k (DeliverFrame info payload strict) \<longleftrightarrow>
     si_key info \<noteq> k \<or> strict \<or> is_reference_sensitive (si_codec info)"
| "strict_delivery k ev \<longleftrightarrow> True"

section \<open>The recovery state and the decoder\<close>

definition in_step :: "video_stream_key \<Rightarrow> u64 option \<Rightarrow> video_receive_recovery \<Rightarrow> bool" where
  "in_step k prev rr \<longleftrightarrow>
     vrs_awaiting_keyframe (receive_state rr k) \<or> vrs_last_frame_id (receive_state rr k) = 0 \<or>
     prev = Some (vrs_last_frame_id (receive_state rr k))"

lemma receive_state_simps [simp]:
  "receive_state (rr\<lparr>rr_last_observed := x\<rparr>) k = receive_state rr k"
  "receive_state (rr\<lparr>rr_pending_requests := p\<rparr>) k = receive_state rr k"
  "receive_state (rr\<lparr>rr_last_keyframe_request_at := t\<rparr>) k = receive_state rr k"
  "receive_state (put_receive_state rr key st) k = (if k = key then st else receive_state rr k)"
  "receive_state (settle_requests rr info) k = receive_state rr k"
  by (simp_all add: receive_state_def put_receive_state_def bm_get_insert settle_requests_def)

text \<open>Forgetting a stream leaves the default state, which lets no delta through.\<close>

lemma bm_pop_first: "bm_ok ((k, v) # m) \<Longrightarrow> bm_remove k ((k, v) # m) = m"
  by (auto simp: bm_remove_def filter_id_conv)

lemma prepare_cases:
  assumes "bm_ok (rr_streams rr)"
  obtains (same) "recovery_prepare_stream rr key = rr"
      "bm_contains (rr_streams rr) key \<or> length (rr_streams rr) < MAX_VIDEO_STREAM_STATES"
    | (evict) evicted where "recovery_prepare_stream rr key =
        rr\<lparr>rr_streams := bm_remove evicted (rr_streams rr),
           rr_pending_requests := bm_remove (Some evicted) (rr_pending_requests rr),
           rr_last_keyframe_request_at := bm_remove (Some evicted) (rr_last_keyframe_request_at rr)\<rparr>"
      "length (bm_remove evicted (rr_streams rr)) < length (rr_streams rr)"
proof (cases "\<not> bm_contains (rr_streams rr) key \<and> length (rr_streams rr) \<ge> MAX_VIDEO_STREAM_STATES")
  case False
  then show ?thesis by (intro same) (auto simp: recovery_prepare_stream_def)
next
  case True
  then obtain k v rest where st: "rr_streams rr = (k, v) # rest"
    by (cases "rr_streams rr") (auto simp: MAX_VIDEO_STREAM_STATES_def)
  show ?thesis
    using True assms by (intro evict [of k]) (simp_all add: st recovery_prepare_stream_def bm_pop_first)
qed

lemma prepare_receive_state:
  assumes "bm_ok (rr_streams rr)"
  shows "receive_state (recovery_prepare_stream rr key) k \<in> {receive_state rr k, video_receive_default}"
  using assms by (cases rule: prepare_cases [of rr key]) (auto simp: receive_state_def bm_get_remove)

lemma retire_receive_state:
  assumes "bm_ok (rr_streams rr)"
  shows "receive_state (retire_display rr key) k \<in> {receive_state rr k, video_receive_default}"
  using assms by (auto simp: retire_display_def Let_def receive_state_def bm_get_filter split: option.splits)

section \<open>Bounded tables\<close>

definition request_ok :: "video_stream_key option \<times> pending_video_recovery \<Rightarrow> bool" where
  "request_ok e \<longleftrightarrow> fst e = None \<or> map_option si_key (pvr_source (snd e)) = fst e"

definition known_keys ::
    "(video_stream_key, 's) btree_map \<Rightarrow> (video_stream_key option, 'v) btree_map \<Rightarrow> bool" where
  "known_keys streams m \<longleftrightarrow> (\<forall>k v. (Some k, v) \<in> set m \<longrightarrow> k \<in> fst ` set streams)"

lemma known_keys_restrict:
  assumes "known_keys streams m" and "set m' \<subseteq> set m" and "\<And>k v. (Some k, v) \<in> set m' \<Longrightarrow> K k"
  shows "known_keys (filter (\<lambda>e. K (fst e)) streams) m'"
  unfolding known_keys_def
proof (intro allI impI)
  fix k v
  assume mem: "(Some k, v) \<in> set m'"
  with assms obtain e where "e \<in> set streams" "fst e = k" unfolding known_keys_def by blast
  then show "k \<in> fst ` set (filter (\<lambda>e. K (fst e)) streams)" using assms(3) [OF mem] by auto
qed

definition rr_tables :: "video_receive_recovery \<Rightarrow> bool" where
  "rr_tables rr \<longleftrightarrow>
     bm_ok (rr_streams rr) \<and> bm_ok (rr_pending_requests rr) \<and> bm_ok (rr_last_keyframe_request_at rr) \<and>
     length (rr_streams rr) \<le> MAX_VIDEO_STREAM_STATES \<and>
     known_keys (rr_streams rr) (rr_pending_requests rr) \<and> known_keys (rr_streams rr) (rr_last_keyframe_request_at rr) \<and>
     (\<forall>e \<in> set (rr_pending_requests rr). request_ok e)"

text \<open>Forgetting the streams outside \<open>K\<close>, with everything kept about them.\<close>

lemma tables_restrict:
  assumes inv: "rr_tables rr"
    and ok: "bm_ok (rr_pending_requests rr')" "bm_ok (rr_last_keyframe_request_at rr')"
    and str: "rr_streams rr' = filter (\<lambda>e. K (fst e)) (rr_streams rr)"
    and sub: "set (rr_pending_requests rr') \<subseteq> set (rr_pending_requests rr)"
      "set (rr_last_keyframe_request_at rr') \<subseteq> set (rr_last_keyframe_request_at rr)"
    and keep: "\<And>k v. (Some k, v) \<in> set (rr_pending_requests rr') \<Longrightarrow> K k"
      "\<And>k v. (Some k, v) \<in> set (rr_last_keyframe_request_at rr') \<Longrightarrow> K k"
  shows "rr_tables rr'"
proof -
  have "known_keys (rr_streams rr') (rr_pending_requests rr')"
    "known_keys (rr_streams rr') (rr_last_keyframe_request_at rr')"
    using inv unfolding rr_tables_def str
    by (auto intro: known_keys_restrict [OF _ sub(1) keep(1)] known_keys_restrict [OF _ sub(2) keep(2)])
  moreover have "length (rr_streams rr') \<le> MAX_VIDEO_STREAM_STATES"
    unfolding str using inv by (simp add: rr_tables_def order_trans [OF length_filter_le])
  ultimately show ?thesis using inv ok sub by (auto simp: rr_tables_def str bm_ok_filter)
qed

definition rr_inv :: "video_receive_recovery \<Rightarrow> bool" where
  "rr_inv rr \<longleftrightarrow> rr_tables rr \<and>
     (case rr_last_observed rr of None \<Rightarrow> True | Some i \<Rightarrow> bm_contains (rr_streams rr) (si_key i))"

lemma rr_tables_observed [simp]: "rr_tables (rr\<lparr>rr_last_observed := x\<rparr>) = rr_tables rr"
  by (simp add: rr_tables_def)

lemma prepare_tables:
  assumes inv: "rr_tables rr"
  shows "rr_tables (recovery_prepare_stream rr key) \<and>
    (bm_contains (rr_streams (recovery_prepare_stream rr key)) key \<or>
     length (rr_streams (recovery_prepare_stream rr key)) < MAX_VIDEO_STREAM_STATES)"
proof -
  have "bm_ok (rr_streams rr)" using inv by (simp add: rr_tables_def)
  then show ?thesis
  proof (cases rule: prepare_cases [of rr key])
    case same
    with inv show ?thesis by simp
  next
    case (evict evicted)
    have "rr_tables (recovery_prepare_stream rr key)"
      by (rule tables_restrict [OF inv, where K = "\<lambda>k. k \<noteq> evicted"])
        (use inv in \<open>auto simp: evict set_bm_remove rr_tables_def bm_remove_def [of evicted]\<close>)
    with evict inv show ?thesis by (simp add: rr_tables_def)
  qed
qed

lemma put_tables:
  assumes "rr_tables rr"
    and "bm_contains (rr_streams rr) key \<or> length (rr_streams rr) < MAX_VIDEO_STREAM_STATES"
  shows "rr_tables (put_receive_state rr key st)"
  using assms length_bm_insert [of "rr_streams rr" key st]
  by (auto simp: rr_tables_def put_receive_state_def bm_contains_def known_keys_def)

lemma retire_tables:
  assumes inv: "rr_tables rr"
  shows "rr_tables (retire_display rr key)"
proof (rule tables_restrict [OF inv, where K = "\<lambda>k. vk_display k \<noteq> vk_display key \<or> vk_stream_id k = vk_stream_id key"])
  fix k v
  assume "(Some k, v) \<in> set (rr_pending_requests (retire_display rr key))"
  with inv show "vk_display k \<noteq> vk_display key \<or> vk_stream_id k = vk_stream_id key"
    by (fastforce simp: retire_display_def Let_def rr_tables_def request_ok_def split: option.splits)
next
  fix k v
  assume "(Some k, v) \<in> set (rr_last_keyframe_request_at (retire_display rr key))"
  then show "vk_display k \<noteq> vk_display key \<or> vk_stream_id k = vk_stream_id key"
    by (auto simp: retire_display_def Let_def set_bm_remove split: if_splits)
qed (use inv in \<open>auto simp: retire_display_def Let_def rr_tables_def bm_ok_filter set_bm_remove\<close>)

lemma settle_tables: "rr_tables rr \<Longrightarrow> rr_tables (settle_requests rr info)"
  by (auto simp: rr_tables_def settle_requests_def bm_ok_filter known_keys_def)

lemma rr_inv_put:
  assumes "rr_tables rr"
    and "bm_contains (rr_streams rr) key \<or> length (rr_streams rr) < MAX_VIDEO_STREAM_STATES"
    and "rr_last_observed rr = Some i" and "si_key i = key"
  shows "rr_inv (put_receive_state rr key st)"
  using put_tables [OF assms(1,2)] assms(3,4)
  by (simp add: rr_inv_def put_receive_state_def bm_contains_iff)

text \<open>
  The state in which \<open>observe\<close> and \<open>note_source_context\<close> write the entry of the stream: tables in
  order, room for the entry, and no other change for any stream than being forgotten.
\<close>

definition entering :: "video_receive_recovery \<Rightarrow> video_source_info \<Rightarrow> video_receive_recovery \<Rightarrow> bool" where
  "entering rr info rr' \<longleftrightarrow> rr_tables rr' \<and> rr_last_observed rr' = Some info \<and>
     (bm_contains (rr_streams rr') (si_key info) \<or> length (rr_streams rr') < MAX_VIDEO_STREAM_STATES) \<and>
     (\<forall>k. receive_state rr' k \<in> {receive_state rr k, video_receive_default})"

lemma entering_prepare:
  assumes "rr_tables rr"
  shows "entering rr info ((recovery_prepare_stream rr (si_key info))\<lparr>rr_last_observed := Some info\<rparr>)"
  using prepare_tables [OF assms, of "si_key info"] prepare_receive_state [of rr "si_key info"] assms
  by (auto simp: entering_def rr_tables_def)

lemma entering_retire:
  assumes "rr_tables rr"
  shows "entering rr info ((recovery_prepare_stream (retire_display rr (si_key info)) (si_key info))
    \<lparr>rr_last_observed := Some info\<rparr>)"
proof -
  let ?rr = "retire_display rr (si_key info)"
  have ret: "receive_state ?rr k \<in> {receive_state rr k, video_receive_default}" for k
    using assms by (intro retire_receive_state) (simp add: rr_tables_def)
  have "rr_tables ?rr" using assms by (rule retire_tables)
  note ent = entering_prepare [OF this, of info]
  have "receive_state ((recovery_prepare_stream ?rr (si_key info))\<lparr>rr_last_observed := Some info\<rparr>) k
      \<in> {receive_state rr k, video_receive_default}" for k
    using ret [of k] ent unfolding entering_def by (metis insertE insertI1 insertI2 singletonD)
  with ent show ?thesis by (simp add: entering_def)
qed

lemma entering_settle: "entering rr info rr' \<Longrightarrow> entering rr info (settle_requests rr' info)"
  using settle_tables [of rr' info] by (simp add: entering_def settle_requests_def receive_state_def)

lemma entering_put:
  assumes "entering rr info rr'"
  shows "rr_inv (put_receive_state rr' (si_key info) st)"
  using assms by (auto simp: entering_def intro: rr_inv_put)

lemma entering_in_step:
  "entering rr info rr' \<Longrightarrow> in_step k prev rr \<Longrightarrow> in_step k prev rr'"
  unfolding entering_def in_step_def by (metis insertE singletonD video_receive_default_def video_receive_state.select_convs(1))

lemma in_step_put:
  "in_step k prev (put_receive_state rr key st) \<longleftrightarrow>
     (if k = key then vrs_awaiting_keyframe st \<or> vrs_last_frame_id st = 0 \<or> prev = Some (vrs_last_frame_id st)
      else in_step k prev rr)"
  by (simp add: in_step_def)

text \<open>The outcomes of \<open>observe\<close>, against the decoder of the stream.\<close>

definition advances :: "bool \<Rightarrow> u64 option \<Rightarrow> video_source_info \<Rightarrow> bool" where
  "advances strict prev i \<longleftrightarrow> decodable strict prev [i]"

lemma observe_facts:
  assumes inv: "rr_inv rr" and obs: "observe rr info strict = (rr', decision)"
  shows "rr_inv rr' \<and>
    (\<forall>k prev. in_step k prev rr \<longrightarrow>
       (if si_key info = k \<and> vk_stream_id k \<noteq> 0 \<and> si_frame_id info \<noteq> 0 \<and> decision \<in> {DAccept, DAcceptAfterGap}
        then advances strict prev info \<and> in_step k (Some (si_frame_id info)) rr'
        else in_step k prev rr'))"
proof (cases "vk_stream_id (si_key info) = 0 \<or> si_frame_id info = 0")
  case True
  with obs have "rr' = rr" by (auto simp: observe_def)
  with inv True show ?thesis by auto
next
  case False
  have tables: "rr_tables rr" using inv by (simp add: rr_inv_def)
  show ?thesis
  proof (cases "si_keyframe info")
    case True
    let ?st = "\<lparr>vrs_last_frame_id = si_frame_id info, vrs_awaiting_keyframe = False,
                vrs_codec = Some (si_codec info)\<rparr>"
    define rr3 where "rr3 = settle_requests ((recovery_prepare_stream (retire_display rr (si_key info))
      (si_key info))\<lparr>rr_last_observed := Some info\<rparr>) info"
    have ent: "entering rr info rr3"
      unfolding rr3_def by (intro entering_settle entering_retire tables)
    have "rr' = put_receive_state rr3 (si_key info) ?st" "decision = DAccept"
      using obs False True by (simp_all add: observe_def rr3_def Let_def)
    with True False entering_put [OF ent, of ?st] entering_in_step [OF ent] show ?thesis
      by (simp add: advances_def in_step_put)
  next
    case delta: False
    define rr2 where "rr2 = (recovery_prepare_stream rr (si_key info))\<lparr>rr_last_observed := Some info\<rparr>"
    have ent: "entering rr info rr2" unfolding rr2_def by (rule entering_prepare [OF tables])
    define st where "st = (receive_state rr2 (si_key info))\<lparr>vrs_codec := Some (si_codec info)\<rparr>"
    have res: "(rr', decision) =
        (if vrs_awaiting_keyframe st \<or> vrs_last_frame_id st = 0
           then (put_receive_state rr2 (si_key info) (st\<lparr>vrs_awaiting_keyframe := True\<rparr>), DSuppress)
         else if si_frame_id info \<le> vrs_last_frame_id st
           then (put_receive_state rr2 (si_key info) st, DSuppress)
         else if si_frame_id info \<noteq> sat_add (vrs_last_frame_id st) 1 then
           (if strict
            then (put_receive_state rr2 (si_key info) (st\<lparr>vrs_awaiting_keyframe := True\<rparr>), DSuppressAfterGap)
            else (put_receive_state rr2 (si_key info) (st\<lparr>vrs_last_frame_id := si_frame_id info\<rparr>),
                  DAcceptAfterGap))
         else (put_receive_state rr2 (si_key info) (st\<lparr>vrs_last_frame_id := si_frame_id info\<rparr>), DAccept))"
      unfolding st_def rr2_def using obs False delta by (simp add: observe_def Let_def)
    then obtain st' where rr': "rr' = put_receive_state rr2 (si_key info) st'" by (auto split: if_splits)
    have succ: "unat (si_frame_id info) = unat (vrs_last_frame_id st) + 1"
      if "si_frame_id info = sat_add (vrs_last_frame_id st) 1" "\<not> si_frame_id info \<le> vrs_last_frame_id st"
      using that by (auto simp: word_le_nat_alt unat_sat_add min_def split: if_splits)
    have pos: "in_step (si_key info) prev rr \<Longrightarrow>
        vrs_awaiting_keyframe st \<or> vrs_last_frame_id st = 0 \<or> prev = Some (vrs_last_frame_id st)" for prev
      using entering_in_step [OF ent, of "si_key info" prev] by (simp add: in_step_def st_def)
    have "in_step k prev rr'" if "in_step k prev rr" "si_key info \<noteq> k" for k prev
      using entering_in_step [OF ent that(1)] that(2) by (simp add: rr' in_step_put)
    moreover have "if decision \<in> {DAccept, DAcceptAfterGap}
        then advances strict prev info \<and> in_step (si_key info) (Some (si_frame_id info)) rr'
        else in_step (si_key info) prev rr'" if "in_step (si_key info) prev rr" for prev
      using res pos [OF that] succ delta
      by (auto simp: advances_def in_step_put split: if_splits)
    moreover have "rr_inv rr'" unfolding rr' by (rule entering_put [OF ent])
    ultimately show ?thesis using False by (metis (no_types, lifting))
  qed
qed

lemma note_facts:
  assumes inv: "rr_inv rr"
  shows "rr_inv (note_source_context rr info)"
    and "in_step k prev rr \<Longrightarrow> in_step k prev (note_source_context rr info)"
proof -
  define rr1 where "rr1 = (recovery_prepare_stream rr (si_key info))\<lparr>rr_last_observed := Some info\<rparr>"
  have ent: "entering rr info rr1"
    unfolding rr1_def using inv by (intro entering_prepare) (simp add: rr_inv_def)
  have eq: "note_source_context rr info = (if vk_stream_id (si_key info) = 0 \<or> si_frame_id info = 0 then rr
      else put_receive_state rr1 (si_key info)
        ((receive_state rr1 (si_key info))\<lparr>vrs_codec := Some (si_codec info)\<rparr>))"
    by (simp add: note_source_context_def rr1_def Let_def)
  show "rr_inv (note_source_context rr info)"
    using inv entering_put [OF ent] by (simp add: eq)
  show "in_step k prev (note_source_context rr info)" if "in_step k prev rr"
    using that entering_in_step [OF ent that] by (auto simp: eq in_step_put) (simp_all add: in_step_def)
qed

lemma mark_loss_facts:
  shows "rr_inv rr \<Longrightarrow> rr_inv (mark_reference_loss rr)"
    and "in_step k prev (mark_reference_loss rr)"
proof -
  let ?f = "\<lambda>st. st\<lparr>vrs_awaiting_keyframe := True\<rparr>"
  let ?m = "map (\<lambda>(key, st). (key, ?f st)) (rr_streams rr)"
  have keys: "fst ` (\<lambda>(key, st). (key, ?f st)) ` set (rr_streams rr) = fst ` set (rr_streams rr)"
    by force
  show "rr_inv (mark_reference_loss rr)" if "rr_inv rr"
    using that bm_ok_map_values [of "\<lambda>_. ?f" "rr_streams rr"]
    unfolding rr_inv_def rr_tables_def mark_reference_loss_def known_keys_def bm_contains_iff
    by (simp add: keys split: option.splits)
  have "bm_get ?m k = map_option ?f (bm_get (rr_streams rr) k)" by (simp add: map_of_map)
  then show "in_step k prev (mark_reference_loss rr)"
    by (auto simp: in_step_def receive_state_def mark_reference_loss_def video_receive_default_def
        split: option.splits)
qed

lemma mark_stream_facts:
  assumes inv: "rr_inv rr"
  shows "rr_inv (mark_stream_reference_loss rr key)"
    and "in_step k prev rr \<or> k = key \<Longrightarrow> in_step k prev (mark_stream_reference_loss rr key)"
proof -
  show "rr_inv (mark_stream_reference_loss rr key)"
    using inv put_tables [of rr key]
    by (auto simp: rr_inv_def mark_stream_reference_loss_def bm_contains_def put_receive_state_def
        bm_get_insert split: option.splits)
  show "in_step k prev (mark_stream_reference_loss rr key)" if "in_step k prev rr \<or> k = key"
    using that
    by (auto simp: mark_stream_reference_loss_def in_step_put receive_state_def video_receive_default_def
        in_step_def [of key] split: option.splits)
qed

lemma latest_source_known:
  assumes inv: "rr_inv rr" and "latest_source rr = Some source"
  shows "si_key source \<in> fst ` set (rr_streams rr)"
proof (cases "rr_last_observed rr")
  case None
  with assms(2) obtain e where "List.find (\<lambda>e. vrs_last_frame_id (snd e) > 0) (rev (rr_streams rr)) = Some e"
    and "si_key source = fst e" by (auto simp: latest_source_def)
  then show ?thesis using find_mem [of _ "rev (rr_streams rr)" e] by simp
next
  case (Some i)
  with assms show ?thesis by (simp add: latest_source_def rr_inv_def bm_contains_iff)
qed

text \<open>The parts of \<open>next_keyframe_request\<close>: what it looks up, and the two conditions it passes.\<close>

definition request_key :: "video_receive_recovery \<Rightarrow> bool \<Rightarrow> video_stream_key option" where
  "request_key rr scoped = (if scoped then map_option si_key (latest_source rr) else None)"

definition pending_for :: "video_receive_recovery \<Rightarrow> bool \<Rightarrow> pending_video_recovery option" where
  "pending_for rr scoped = bm_get (rr_pending_requests rr) (request_key rr scoped)"

definition pending_is_strict :: "pending_video_recovery option \<Rightarrow> bool" where
  "pending_is_strict p = (case p of None \<Rightarrow> False | Some p \<Rightarrow> pvr_strict_recovery p)"

definition escalates :: "video_receive_recovery \<Rightarrow> bool \<Rightarrow> bool \<Rightarrow> bool" where
  "escalates rr scoped strict \<longleftrightarrow> scoped \<and> strict \<and> \<not> pending_is_strict (pending_for rr scoped)"

definition switches_stream :: "video_receive_recovery \<Rightarrow> bool \<Rightarrow> bool" where
  "switches_stream rr scoped = request_is_new_stream (pending_for rr scoped) (latest_source rr)"

definition request_allowed :: "video_receive_recovery \<Rightarrow> instant \<Rightarrow> bool \<Rightarrow> bool \<Rightarrow> bool" where
  "request_allowed rr now scoped strict \<longleftrightarrow>
     \<not> (scoped \<and> latest_source rr = None) \<and>
     (escalates rr scoped strict \<or> switches_stream rr scoped \<or>
      (case bm_get (rr_last_keyframe_request_at rr) (request_key rr scoped) of
         None \<Rightarrow> True | Some t \<Rightarrow> VIDEO_KEYFRAME_REQUEST_MIN_INTERVAL \<le> now - t) \<and>
      (case pending_for rr scoped of
         None \<Rightarrow> True | Some p \<Rightarrow> retry_delay p \<le> now - pvr_requested_at p))"

definition new_request :: "video_receive_recovery \<Rightarrow> instant \<Rightarrow> bool \<Rightarrow> bool \<Rightarrow> pending_video_recovery" where
  "new_request rr now scoped strict =
     \<lparr>pvr_source = latest_source rr, pvr_requested_at = now,
      pvr_retries = next_retries (pending_for rr scoped) (switches_stream rr scoped) (escalates rr scoped strict),
      pvr_strict_recovery = (strict \<or> \<not> switches_stream rr scoped \<and> pending_is_strict (pending_for rr scoped))\<rparr>"

lemma next_keyframe_request_eq:
  "next_keyframe_request rr now scoped dropped strict =
     (if request_allowed rr now scoped strict then
        (rr\<lparr>rr_pending_requests :=
              bm_insert (request_key rr scoped) (new_request rr now scoped strict) (rr_pending_requests rr),
            rr_last_keyframe_request_at :=
              bm_insert (request_key rr scoped) now (rr_last_keyframe_request_at rr)\<rparr>,
         if scoped then Option.bind (latest_source rr) (\<lambda>s. map_option ScopedRequest
             (video_reference_refresh s dropped (pvr_strict_recovery (new_request rr now scoped strict))))
         else Some LegacyRequest)
      else (rr, None))"
proof -
  have pend: "pending_is_strict p = (case p of None \<Rightarrow> False | Some p \<Rightarrow> pvr_strict_recovery p)" for p
    by (rule pending_is_strict_def)
  have early: "(case t of None \<Rightarrow> False | Some l \<Rightarrow> saturating_duration_since now l < VIDEO_KEYFRAME_REQUEST_MIN_INTERVAL)
      \<longleftrightarrow> \<not> (case t of None \<Rightarrow> True | Some t \<Rightarrow> VIDEO_KEYFRAME_REQUEST_MIN_INTERVAL \<le> now - t)" for t
    by (auto simp: saturating_duration_since_def split: option.splits)
  have new: "switches_stream rr scoped \<Longrightarrow> pending_for rr scoped \<noteq> None"
    by (auto simp: switches_stream_def request_is_new_stream_def split: option.splits)
  have due: "(case pending_for rr scoped of None \<Rightarrow> True | Some pending \<Rightarrow> switches_stream rr scoped \<or>
        retry_delay pending \<le> saturating_duration_since now (pvr_requested_at pending)) \<longleftrightarrow>
      switches_stream rr scoped \<or>
      (case pending_for rr scoped of None \<Rightarrow> True | Some p \<Rightarrow> retry_delay p \<le> now - pvr_requested_at p)"
    using new by (auto simp: saturating_duration_since_def split: option.splits)
  show ?thesis
    unfolding next_keyframe_request_def Let_def
    unfolding request_key_def [symmetric]
    unfolding pending_for_def [symmetric]
    unfolding switches_stream_def [symmetric] pend [symmetric] due early
    unfolding escalates_def [symmetric] request_allowed_def new_request_def
    by (cases scoped; cases "latest_source rr") auto
qed

lemma request_facts:
  assumes inv: "rr_inv rr" and req: "next_keyframe_request rr now scoped dropped strict = (rr', r)"
  shows "rr_inv rr'" and "in_step k prev rr' = in_step k prev rr"
proof -
  have rr': "rr' = (if request_allowed rr now scoped strict then
      rr\<lparr>rr_pending_requests :=
           bm_insert (request_key rr scoped) (new_request rr now scoped strict) (rr_pending_requests rr),
         rr_last_keyframe_request_at :=
           bm_insert (request_key rr scoped) now (rr_last_keyframe_request_at rr)\<rparr> else rr)"
    using req unfolding next_keyframe_request_eq by (auto split: if_splits)
  have key: "request_key rr scoped = Some k \<Longrightarrow> k \<in> fst ` set (rr_streams rr)" for k
    using latest_source_known [OF inv] by (auto simp: request_key_def split: if_splits)
  have "request_ok (request_key rr scoped, new_request rr now scoped strict)"
    by (simp add: request_ok_def request_key_def new_request_def)
  with inv key show "rr_inv rr'"
    by (auto simp: rr' rr_inv_def rr_tables_def known_keys_def set_bm_insert split: option.splits)
  show "in_step k prev rr' = in_step k prev rr" by (simp add: rr' in_step_def)
qed

section \<open>What reaches the application\<close>

text \<open>The result of a delivery, by the queue's answer.\<close>

lemma deliver_cases:
  assumes obs: "observe (rx_recovery rx) info (strict \<or> is_reference_sensitive (si_codec info)) = (rr, decision)"
    and send: "send_inbound (rx_inbound rx) payload = (q, answer)"
    and step: "deliver_video_payload send_inbound rx info payload strict = (rx', delivery)"
  shows "if decision \<in> {DAccept, DAcceptAfterGap}
    then rx_inbound rx' = q \<and>
      rx_recovery rx' = (if answer = SendFull then mark_stream_reference_loss rr (si_key info) else rr)
    else rx_inbound rx' = rx_inbound rx \<and> rx_recovery rx' = rr"
  using step
  by (cases decision; cases answer)
    (auto simp: deliver_video_payload_def Let_def obs send)

lemma rx_step_inv:
  assumes "rr_inv (rx_recovery rx)"
  shows "rr_inv (rx_recovery (rx_step send_inbound send_control rx ev))"
proof (cases ev)
  case (DeliverFrame info payload strict)
  let ?strict = "strict \<or> is_reference_sensitive (si_codec info)"
  obtain rr decision where obs: "observe (rx_recovery rx) info ?strict = (rr, decision)"
    by (cases "observe (rx_recovery rx) info ?strict")
  obtain q answer where send: "send_inbound (rx_inbound rx) payload = (q, answer)"
    by (cases "send_inbound (rx_inbound rx) payload")
  obtain rx' delivery where step: "deliver_video_payload send_inbound rx info payload strict = (rx', delivery)"
    by (cases "deliver_video_payload send_inbound rx info payload strict")
  have "rr_inv rr" using observe_facts [OF assms obs] by blast
  with deliver_cases [OF obs send step] mark_stream_facts(1) [of rr "si_key info"]
  show ?thesis by (auto simp: DeliverFrame step split: if_splits)
next
  case (RequestKeyframe now scoped dropped strict)
  obtain rr r where req: "next_keyframe_request (rx_recovery rx) now scoped dropped strict = (rr, r)"
    by (cases "next_keyframe_request (rx_recovery rx) now scoped dropped strict")
  from request_facts(1) [OF assms req] show ?thesis
    by (auto simp: RequestKeyframe request_video_keyframe_def req Let_def
        split: option.splits prod.splits try_send.splits)
qed (use assms in \<open>simp_all add: note_facts mark_loss_facts mark_stream_facts\<close>)

interpretation receiver: step_invariant "rx_step send_inbound send_control" "\<lambda>rx. rr_inv (rx_recovery rx)"
  for send_inbound :: "'q \<Rightarrow> bytes \<Rightarrow> 'q \<times> try_send"
    and send_control :: "'c \<Rightarrow> video_keyframe_request \<Rightarrow> 'c \<times> try_send"
  by unfold_locales (rule rx_step_inv)

lemma rr_inv_default [simp]: "rr_inv video_receive_recovery_default"
  by (simp add: rr_inv_def rr_tables_def video_receive_recovery_default_def known_keys_def)

text \<open>A queue whose receiver is gone stays closed.\<close>

definition queue_closed :: "('q \<Rightarrow> bytes \<Rightarrow> 'q \<times> try_send) \<Rightarrow> 'q \<Rightarrow> bool" where
  "queue_closed send q \<longleftrightarrow> (\<forall>payload. snd (send q payload) = SendClosed)"

definition closes_for_good :: "('q \<Rightarrow> bytes \<Rightarrow> 'q \<times> try_send) \<Rightarrow> bool" where
  "closes_for_good send \<longleftrightarrow>
     (\<forall>q payload. snd (send q payload) = SendClosed \<longrightarrow> queue_closed send (fst (send q payload)))"

lemma advances_lenient: "advances strict prev i \<Longrightarrow> (strict' \<Longrightarrow> strict) \<Longrightarrow> advances strict' prev i"
  by (auto simp: advances_def word_less_nat_alt split: option.splits if_splits)

text \<open>Stream \<open>k\<close> is at frame \<open>prev\<close>, or nothing can reach the application any more.\<close>

definition tracks_stream ::
    "('q \<Rightarrow> bytes \<Rightarrow> 'q \<times> try_send) \<Rightarrow> video_stream_key \<Rightarrow> u64 option \<Rightarrow> ('q, 'c) video_receiver \<Rightarrow> bool" where
  "tracks_stream send k prev rx \<longleftrightarrow> rr_inv (rx_recovery rx) \<and>
     (in_step k prev (rx_recovery rx) \<or> queue_closed send (rx_inbound rx))"

lemma queue_closed_logged [simp]: "queue_closed (logged send) q \<longleftrightarrow> queue_closed send (fst q)"
  by (simp add: queue_closed_def logged_def case_prod_unfold)

lemma closes_for_good_logged: "closes_for_good send \<Longrightarrow> closes_for_good (logged send)"
  by (auto simp: closes_for_good_def logged_def case_prod_unfold)

lemma delivered_push:
  assumes "source_of payload = Some info" and "snd (rx_inbound rx') = snd (rx_inbound rx) @ [payload]"
  shows "delivered source_of k rx' = delivered source_of k rx @ of_stream k [info]"
  using assms by (simp add: delivered_def of_stream_def List.map_filter_def)

lemma delivered_same:
  "snd (rx_inbound rx') = snd (rx_inbound rx) \<Longrightarrow> delivered source_of k rx' = delivered source_of k rx"
  by (simp add: delivered_def)

text \<open>What one delivery adds to the queue, against the decoder of the stream.\<close>

lemma deliver_tracks:
  assumes closes: "closes_for_good send" and k: "vk_stream_id k \<noteq> 0"
    and src: "source_of payload = Some info"
    and mode: "strict' \<Longrightarrow> strict_delivery k (DeliverFrame info payload strict)"
    and pos: "tracks_stream (logged send) k prev rx"
    and step: "deliver_video_payload (logged send) rx info payload strict = (rx', delivery)"
    and inv': "rr_inv (rx_recovery rx')"
  shows "delivered source_of k rx' = delivered source_of k rx \<and> tracks_stream (logged send) k prev rx' \<or>
    delivered source_of k rx' = delivered source_of k rx @ [info] \<and> advances strict' prev info \<and>
      tracks_stream (logged send) k (Some (si_frame_id info)) rx'"
proof -
  let ?strict = "strict \<or> is_reference_sensitive (si_codec info)"
  let ?send = "logged send"
  obtain rr decision where obs: "observe (rx_recovery rx) info ?strict = (rr, decision)"
    by (cases "observe (rx_recovery rx) info ?strict")
  obtain q answer where send: "?send (rx_inbound rx) payload = (q, answer)"
    by (cases "?send (rx_inbound rx) payload")
  have log: "snd q = (if answer = SendOk then snd (rx_inbound rx) @ [payload] else snd (rx_inbound rx))"
    using send by (auto simp: logged_def split: prod.splits)
  have inv: "rr_inv (rx_recovery rx)" using pos by (simp add: tracks_stream_def)
  note facts = observe_facts [OF inv obs]
  then have rr: "rr_inv rr" by blast
  note deliver = deliver_cases [OF obs send step]
  let ?accept = "decision \<in> {DAccept, DAcceptAfterGap}"
  let ?ours = "si_key info = k \<and> si_frame_id info \<noteq> 0"
  have added: "delivered source_of k rx' = delivered source_of k rx @
      (if ?ours \<and> ?accept \<and> answer = SendOk then [info] else [])"
    using deliver log delivered_push [where source_of = source_of and rx = rx and rx' = rx' and k = k, OF src] delivered_same [of rx' rx source_of k]
    by (auto simp: of_stream_def split: if_splits)
  show ?thesis
  proof (cases "queue_closed ?send (rx_inbound rx) \<or> ?accept \<and> answer = SendClosed")
    case True
    then have "?accept \<Longrightarrow> queue_closed ?send q \<and> answer = SendClosed"
      using closes_for_good_logged [OF closes] send unfolding closes_for_good_def queue_closed_def
      by (metis fst_conv snd_conv)
    then have "queue_closed ?send (rx_inbound rx')" "\<not> (?accept \<and> answer = SendOk)"
      using True deliver by (auto split: if_splits)
    then show ?thesis using inv' added by (auto simp: tracks_stream_def)
  next
    case open_queue: False
    then have here: "in_step k prev (rx_recovery rx)" using pos by (simp add: tracks_stream_def)
    from facts here have moved: "if ?ours \<and> ?accept
        then advances ?strict prev info \<and> in_step k (Some (si_frame_id info)) rr else in_step k prev rr"
      using k by auto
    have "?ours \<Longrightarrow> advances ?strict prev info \<Longrightarrow> advances strict' prev info"
      using mode by (auto elim: advances_lenient)
    then show ?thesis
      using moved deliver open_queue inv' mark_stream_facts(2) [OF rr, of k _ "si_key info"]
      unfolding added tracks_stream_def by (cases answer) (auto split: if_splits)
  qed
qed

text \<open>The last frame of a list, and the decoder on a list that grows.\<close>

definition last_frame :: "u64 option \<Rightarrow> video_source_info list \<Rightarrow> u64 option" where
  "last_frame prev is = (if is = [] then prev else Some (si_frame_id (last is)))"

lemma decodable_snoc:
  "decodable strict prev (is @ [i]) \<longleftrightarrow> decodable strict prev is \<and> advances strict (last_frame prev is) i"
  by (induction "is" arbitrary: prev) (auto simp: advances_def last_frame_def)

definition decoding ::
    "('q \<Rightarrow> bytes \<Rightarrow> 'q \<times> try_send) \<Rightarrow> (bytes \<Rightarrow> video_source_info option) \<Rightarrow> bool \<Rightarrow> video_stream_key
     \<Rightarrow> ('q \<times> bytes list, 'c) video_receiver \<Rightarrow> bool" where
  "decoding send source_of strict k rx \<longleftrightarrow> decodable strict None (delivered source_of k rx) \<and>
     tracks_stream (logged send) k (last_frame None (delivered source_of k rx)) rx"

lemma rx_step_decoding:
  assumes "closes_for_good send" and "vk_stream_id k \<noteq> 0" and "from_payload source_of ev"
    and "strict' \<Longrightarrow> strict_delivery k ev" and "decoding send source_of strict' k rx"
  shows "decoding send source_of strict' k (rx_step (logged send) send_control rx ev)"
proof -
  let ?rx = "rx_step (logged send) send_control rx ev"
  have inv': "rr_inv (rx_recovery ?rx)"
    using assms(5) by (intro rx_step_inv) (simp add: decoding_def tracks_stream_def)
  have quiet: "decoding send source_of strict' k ?rx"
    if "rx_inbound ?rx = rx_inbound rx" "\<And>prev. in_step k prev (rx_recovery rx) \<Longrightarrow> in_step k prev (rx_recovery ?rx)"
    using that assms(5) inv' delivered_same [of ?rx rx source_of k] by (auto simp: decoding_def tracks_stream_def)
  have inv: "rr_inv (rx_recovery rx)" using assms(5) by (simp add: decoding_def tracks_stream_def)
  show ?thesis
  proof (cases ev)
    case (DeliverFrame info payload strict)
    obtain rx' d where step: "deliver_video_payload (logged send) rx info payload strict = (rx', d)"
      by (cases "deliver_video_payload (logged send) rx info payload strict")
    have rx': "?rx = rx'" by (simp add: DeliverFrame step)
    have "tracks_stream (logged send) k (last_frame None (delivered source_of k rx)) rx"
      using assms(5) by (simp add: decoding_def)
    from deliver_tracks [OF assms(1,2) _ _ this step, of source_of strict'] assms(3-5) DeliverFrame inv' rx'
    show ?thesis by (auto simp: decoding_def decodable_snoc last_frame_def)
  next
    case (RequestKeyframe now scoped dropped strict)
    obtain rr r where req: "next_keyframe_request (rx_recovery rx) now scoped dropped strict = (rr, r)"
      by (cases "next_keyframe_request (rx_recovery rx) now scoped dropped strict")
    have "rx_recovery ?rx = rr" "rx_inbound ?rx = rx_inbound rx"
      by (auto simp: RequestKeyframe request_video_keyframe_def req Let_def
          split: option.splits prod.splits try_send.splits)
    then show ?thesis using request_facts(2) [OF inv req] by (intro quiet) simp_all
  qed (rule quiet, simp, simp add: inv note_facts mark_loss_facts mark_stream_facts)+
qed

lemma rx_run_decoding:
  assumes "closes_for_good send" and "vk_stream_id k \<noteq> 0"
  shows "decoding send source_of strict' k rx \<Longrightarrow> list_all (from_payload source_of) evs \<Longrightarrow>
    (strict' \<Longrightarrow> list_all (strict_delivery k) evs) \<Longrightarrow>
    decoding send source_of strict' k (foldl (rx_step (logged send) send_control) rx evs)"
  by (induction evs arbitrary: rx) (auto intro: rx_step_decoding [OF assms])


definition sample_queue :: "bytes list \<Rightarrow> bytes \<Rightarrow> bytes list \<times> try_send" where
  "sample_queue q payload = (if length q < 4 then (q @ [payload], SendOk) else (q, SendFull))"

definition sample_control :: "unit \<Rightarrow> video_keyframe_request \<Rightarrow> unit \<times> try_send" where
  "sample_control c r = (c, SendOk)"

definition sample_source :: "u64 \<Rightarrow> bool \<Rightarrow> video_source_info" where
  "sample_source n keyframe =
     \<lparr>si_key = VideoStreamKey 0 1, si_frame_id = n, si_keyframe = keyframe, si_codec = H264\<rparr>"

definition sample_metrics :: video_metrics where
  "sample_metrics = \<lparr>mx_reassembly_drops = 0, mx_reassembly_expired = 0, mx_reassembly_evicted = 0,
     mx_reassembly_obsolete = 0, mx_reassembly_pre_keyframe = 0, mx_reassembly_expired_keyframes = 0,
     mx_reassembly_missing_fragments = 0, mx_reassembly_last_us = 0, mx_reassembly_max_us = 0,
     mx_reassembly_max_gap_us = 0, mx_reassembly_last_frame_bytes = 0,
     mx_reassembly_last_frame_fragments = 0, mx_keyframe_requests = 0, mx_reliable_keyframes_received = 0,
     mx_source_frame_gaps = 0, mx_recovery_suppressed_frames = 0, mx_barrier_held = 0,
     mx_barrier_released = 0, mx_barrier_timeouts = 0, mx_barrier_overflows = 0,
     mx_barrier_gap_events = 0, mx_barrier_gap_skipped_frames = 0\<rparr>"

definition sample_receiver :: "(bytes list \<times> bytes list, unit) video_receiver" where
  "sample_receiver = \<lparr>rx_recovery = video_receive_recovery_default, rx_holdback = epoch_holdback_default,
     rx_metrics = sample_metrics, rx_inbound = ([], []), rx_control = ()\<rparr>"

text \<open>A keyframe, its first delta, and a delta after a gap, which does not pass.\<close>

definition sample_events :: "rx_event list" where
  "sample_events = [DeliverFrame (sample_source 1 True) [1] False, DeliverFrame (sample_source 2 False) [2] False,
     DeliverFrame (sample_source 4 False) [4] False]"

definition sample_recovery :: "u64 \<Rightarrow> bool \<Rightarrow> video_receive_recovery" where
  "sample_recovery n keyframe = \<lparr>rr_streams = [(VideoStreamKey 0 1,
       \<lparr>vrs_last_frame_id = n, vrs_awaiting_keyframe = False, vrs_codec = Some H264\<rparr>)],
     rr_last_observed = Some (sample_source n keyframe), rr_pending_requests = [],
     rr_last_keyframe_request_at = []\<rparr>"

lemmas observe_eval = observe_def retire_display_def recovery_prepare_stream_def settle_requests_def
  put_receive_state_def receive_state_def MAX_VIDEO_STREAM_STATES_def bm_contains_def sample_source_def
  Let_def

lemma sample_observe:
  "observe video_receive_recovery_default (sample_source 1 True) True = (sample_recovery 1 True, DAccept)"
  "observe (sample_recovery 1 True) (sample_source 2 False) True = (sample_recovery 2 False, DAccept)"
  "snd (observe (sample_recovery 2 False) (sample_source 4 False) True) = DSuppressAfterGap"
  by (simp_all add: observe_eval video_receive_recovery_default_def sample_recovery_def sat_add_def
      word_le_nat_alt)

lemma sample_sensitive [simp]: "is_reference_sensitive (si_codec (sample_source n keyframe))"
  by (simp add: sample_source_def is_reference_sensitive_def)

text \<open>The source information of a payload of one byte is its number; the first frame is a keyframe.\<close>

definition sample_info :: "bytes \<Rightarrow> video_source_info option" where
  "sample_info payload =
     (case payload of [b] \<Rightarrow> Some (sample_source (ucast b) (b = 1)) | _ \<Rightarrow> None)"

lemma sample_deliver:
  assumes "observe (rx_recovery rx) (sample_source n keyframe) True = (rr, DAccept)" and "length (fst (rx_inbound rx)) < 4"
  shows "rx_step (logged sample_queue) sample_control rx (DeliverFrame (sample_source n keyframe) payload False) =
    rx\<lparr>rx_recovery := rr, rx_inbound := (fst (rx_inbound rx) @ [payload], snd (rx_inbound rx) @ [payload])\<rparr>"
  using assms by (simp add: deliver_video_payload_def logged_def sample_queue_def)

lemma sample_run:
  "snd (rx_inbound (foldl (rx_step (logged sample_queue) sample_control) sample_receiver sample_events)) = [[1], [2]]"
proof -
  let ?step = "rx_step (logged sample_queue) sample_control"
  have one: "?step sample_receiver (DeliverFrame (sample_source 1 True) [1] False) =
      sample_receiver\<lparr>rx_recovery := sample_recovery 1 True, rx_inbound := ([[1]], [[1]])\<rparr>"
    by (subst sample_deliver) (simp_all add: sample_receiver_def sample_observe(1))
  have two: "?step (sample_receiver\<lparr>rx_recovery := sample_recovery 1 True, rx_inbound := ([[1]], [[1]])\<rparr>)
      (DeliverFrame (sample_source 2 False) [2] False) =
      sample_receiver\<lparr>rx_recovery := sample_recovery 2 False, rx_inbound := ([[1], [2]], [[1], [2]])\<rparr>"
    by (subst sample_deliver) (simp_all add: sample_observe(2))
  obtain rr d where obs: "observe (sample_recovery 2 False) (sample_source 4 False) True = (rr, d)" by fastforce
  with sample_observe(3) have "d = DSuppressAfterGap" by simp
  with obs show ?thesis
    by (simp add: sample_events_def one two del: rx_step.simps) (simp add: deliver_video_payload_def)
qed


section \<open>Bounded memory\<close>

lemma known_keys_length:
  assumes ok: "bm_ok m" and known: "known_keys streams m"
  shows "length m \<le> length streams + 1"
proof -
  have "length m = card (fst ` set m)"
    using bm_ok_distinct [OF ok] distinct_card [of "map fst m"] by simp
  also have "\<dots> \<le> card (insert None (Some ` set (map fst streams)))"
  proof (rule card_mono)
    show "fst ` set m \<subseteq> insert None (Some ` set (map fst streams))"
    proof
      fix x
      assume "x \<in> fst ` set m"
      then obtain v where "(x, v) \<in> set m" by auto
      with known show "x \<in> insert None (Some ` set (map fst streams))"
        unfolding known_keys_def by (cases x) (simp_all add: image_iff, blast)
    qed
  qed simp
  also have "\<dots> \<le> Suc (card (Some ` set (map fst streams)))" by (rule card_insert_le_m1) simp_all
  also have "card (Some ` set (map fst streams)) \<le> length (map fst streams)"
    using card_image_le [of "set (map fst streams)" Some] card_length [of "map fst streams"] by simp
  finally show ?thesis by simp
qed

text \<open>
  Whatever streams a peer names, the receiver keeps the state of at most 16
  streams, and at most one request and one request time for each of them and one for the
  unscoped refresh.
\<close>

lemma receive_recovery_bounded:
  "let rr = rx_recovery (foldl (rx_step send_inbound send_control)
         (rx\<lparr>rx_recovery := video_receive_recovery_default\<rparr>) evs) in
     length (rr_streams rr) \<le> 16 \<and> length (rr_pending_requests rr) \<le> 17 \<and>
     length (rr_last_keyframe_request_at rr) \<le> 17"
proof -
  define rr where "rr = rx_recovery (foldl (rx_step send_inbound send_control)
    (rx\<lparr>rx_recovery := video_receive_recovery_default\<rparr>) evs)"
  have "rr_inv rr" unfolding rr_def by (rule receiver.run_preserves) simp
  then have "rr_tables rr" by (simp add: rr_inv_def)
  then show ?thesis
    using known_keys_length [of "rr_pending_requests rr" "rr_streams rr"]
      known_keys_length [of "rr_last_keyframe_request_at rr" "rr_streams rr"]
    by (simp add: rr_tables_def rr_def [symmetric] MAX_VIDEO_STREAM_STATES_def Let_def)
qed

section \<open>The schedule of requests\<close>

text \<open>The times at which requests go out when the receiver keeps asking and no frame arrives.\<close>

fun poll_requests ::
    "bool \<Rightarrow> u64 \<Rightarrow> bool \<Rightarrow> video_receive_recovery \<Rightarrow> instant list \<Rightarrow> instant list" where
  "poll_requests scoped dropped strict rr [] = []"
| "poll_requests scoped dropped strict rr (now # ts) =
     (case next_keyframe_request rr now scoped dropped strict of
        (rr', None) \<Rightarrow> poll_requests scoped dropped strict rr' ts
      | (rr', Some _) \<Rightarrow> now # poll_requests scoped dropped strict rr' ts)"

text \<open>The schedule: retries after one, two and four seconds, and ten seconds between the cycles.\<close>

definition scheduled_delay :: "nat \<Rightarrow> duration" where
  "scheduled_delay n = from_secs ([1, 2, 4, 10] ! (n mod 4))"

fun scheduled :: "(nat \<times> instant) option \<Rightarrow> instant list \<Rightarrow> instant list" where
  "scheduled state [] = []"
| "scheduled None (now # ts) = now # scheduled (Some (0, now)) ts"
| "scheduled (Some (n, t)) (now # ts) =
     (if scheduled_delay n \<le> now - t then now # scheduled (Some (Suc n, now)) ts
      else scheduled (Some (n, t)) ts)"

text \<open>After the \<open>n\<close>-th repetition, at time \<open>t\<close>.\<close>

definition asked :: "bool \<Rightarrow> bool \<Rightarrow> nat \<Rightarrow> instant \<Rightarrow> video_receive_recovery \<Rightarrow> bool" where
  "asked scoped strict n t rr \<longleftrightarrow>
     bm_get (rr_last_keyframe_request_at rr) (request_key rr scoped) = Some t \<and>
     pending_for rr scoped = Some \<lparr>pvr_source = latest_source rr, pvr_requested_at = t,
       pvr_retries = word_of_nat (n mod 4), pvr_strict_recovery = strict\<rparr>"

lemma request_parts_update:
  "latest_source (rr\<lparr>rr_pending_requests := p, rr_last_keyframe_request_at := t\<rparr>) = latest_source rr"
  "request_key (rr\<lparr>rr_pending_requests := p, rr_last_keyframe_request_at := t\<rparr>) scoped = request_key rr scoped"
  by (simp_all add: latest_source_def request_key_def cong: option.case_cong)

definition can_ask :: "bool \<Rightarrow> u64 \<Rightarrow> bool \<Rightarrow> video_receive_recovery \<Rightarrow> bool" where
  "can_ask scoped dropped strict rr \<longleftrightarrow>
     \<not> scoped \<or> Option.bind (latest_source rr) (\<lambda>s. video_reference_refresh s dropped strict) \<noteq> None"

lemma retry_delay_scheduled:
  "retry_delay \<lparr>pvr_source = s, pvr_requested_at = t, pvr_retries = word_of_nat (n mod 4),
     pvr_strict_recovery = b\<rparr> = scheduled_delay n"
proof -
  have "n mod 4 < 4" by simp
  then consider "n mod 4 = 0" | "n mod 4 = 1" | "n mod 4 = 2" | "n mod 4 = 3" by linarith
  then show ?thesis
    by cases (simp_all add: retry_delay_def scheduled_delay_def VIDEO_KEYFRAME_RETRY_MAX_ATTEMPTS_def
        VIDEO_KEYFRAME_RETRY_INITIAL_DELAY_def VIDEO_KEYFRAME_RECOVERY_CYCLE_COOLDOWN_def from_secs_def)
qed

lemma next_retries_scheduled:
  "next_retries (Some \<lparr>pvr_source = s, pvr_requested_at = t, pvr_retries = word_of_nat (n mod 4),
     pvr_strict_recovery = b\<rparr>) False False = word_of_nat (Suc n mod 4)"
proof -
  have "n mod 4 < 4" by simp
  then consider "n mod 4 = 0" | "n mod 4 = 1" | "n mod 4 = 2" | "n mod 4 = 3" by linarith
  then show ?thesis
    by cases (simp_all add: next_retries_def VIDEO_KEYFRAME_RETRY_MAX_ATTEMPTS_def mod_Suc sat_add_def)
qed

lemma min_interval_scheduled: "VIDEO_KEYFRAME_REQUEST_MIN_INTERVAL \<le> scheduled_delay n"
proof -
  have "n mod 4 < 4" by simp
  then consider "n mod 4 = 0" | "n mod 4 = 1" | "n mod 4 = 2" | "n mod 4 = 3" by linarith
  then show ?thesis
    by cases (simp_all add: VIDEO_KEYFRAME_REQUEST_MIN_INTERVAL_def scheduled_delay_def from_secs_def)
qed

lemma allowed_request_sent:
  assumes "request_allowed rr now scoped strict" and "can_ask scoped dropped strict rr"
    and "pvr_strict_recovery (new_request rr now scoped strict) = strict"
  shows "\<exists>r. next_keyframe_request rr now scoped dropped strict =
    (rr\<lparr>rr_pending_requests :=
          bm_insert (request_key rr scoped) (new_request rr now scoped strict) (rr_pending_requests rr),
        rr_last_keyframe_request_at :=
          bm_insert (request_key rr scoped) now (rr_last_keyframe_request_at rr)\<rparr>, Some r)"
proof -
  have "\<exists>r. (if scoped then Option.bind (latest_source rr)
      (\<lambda>s. map_option ScopedRequest (video_reference_refresh s dropped strict)) else Some LegacyRequest) = Some r"
    using assms(2) by (auto simp: can_ask_def bind_eq_Some_conv)
  then show ?thesis unfolding next_keyframe_request_eq assms(3) using assms(1) by simp
qed

lemma request_first:
  assumes "pending_for rr scoped = None" "bm_get (rr_last_keyframe_request_at rr) (request_key rr scoped) = None"
    and "can_ask scoped dropped strict rr"
  obtains rr' r where "next_keyframe_request rr now scoped dropped strict = (rr', Some r)"
    "asked scoped strict 0 now rr'" "can_ask scoped dropped strict rr'"
proof -
  let ?new = "new_request rr now scoped strict"
  let ?rr = "rr\<lparr>rr_pending_requests := bm_insert (request_key rr scoped) ?new (rr_pending_requests rr),
       rr_last_keyframe_request_at := bm_insert (request_key rr scoped) now (rr_last_keyframe_request_at rr)\<rparr>"
  have new: "?new = \<lparr>pvr_source = latest_source rr, pvr_requested_at = now, pvr_retries = 0, pvr_strict_recovery = strict\<rparr>"
    using assms(1) by (simp add: new_request_def next_retries_def pending_is_strict_def)
  have "request_allowed rr now scoped strict"
    using assms by (auto simp: request_allowed_def can_ask_def bind_eq_Some_conv)
  then have "\<exists>r. next_keyframe_request rr now scoped dropped strict = (?rr, Some r)"
    using assms(3) by (intro allowed_request_sent) (simp_all add: new)
  moreover have "asked scoped strict 0 now ?rr"
    by (simp add: asked_def pending_for_def request_parts_update bm_get_insert new)
  moreover have "can_ask scoped dropped strict ?rr"
    using assms(3) by (simp add: can_ask_def request_parts_update)
  ultimately show ?thesis using that by blast
qed

lemma request_repeat:
  assumes asked: "asked scoped strict n t rr" and can: "can_ask scoped dropped strict rr"
  shows "if scheduled_delay n \<le> now - t
    then \<exists>rr' r. next_keyframe_request rr now scoped dropped strict = (rr', Some r) \<and>
      asked scoped strict (Suc n) now rr' \<and> can_ask scoped dropped strict rr'
    else next_keyframe_request rr now scoped dropped strict = (rr, None)"
proof -
  let ?new = "new_request rr now scoped strict"
  let ?rr = "rr\<lparr>rr_pending_requests := bm_insert (request_key rr scoped) ?new (rr_pending_requests rr),
       rr_last_keyframe_request_at := bm_insert (request_key rr scoped) now (rr_last_keyframe_request_at rr)\<rparr>"
  have same: "\<not> switches_stream rr scoped" "\<not> escalates rr scoped strict"
    using asked by (auto simp: asked_def switches_stream_def request_is_new_stream_def escalates_def
        pending_is_strict_def split: option.splits)
  have new: "?new = \<lparr>pvr_source = latest_source rr, pvr_requested_at = now,
      pvr_retries = word_of_nat (Suc n mod 4), pvr_strict_recovery = strict\<rparr>"
    using asked same by (auto simp: new_request_def asked_def next_retries_scheduled pending_is_strict_def)
  have allowed: "request_allowed rr now scoped strict \<longleftrightarrow> scheduled_delay n \<le> now - t"
    using asked same can min_interval_scheduled [of n]
    by (auto simp: request_allowed_def asked_def retry_delay_scheduled can_ask_def bind_eq_Some_conv)
  have "asked scoped strict (Suc n) now ?rr"
    by (simp add: asked_def pending_for_def request_parts_update bm_get_insert new)
  moreover have "can_ask scoped dropped strict ?rr" using can by (simp add: can_ask_def request_parts_update)
  ultimately show ?thesis
    using allowed_request_sent [OF _ can, of now] allowed next_keyframe_request_eq [of rr now scoped dropped strict]
    by (auto simp: new)
qed

lemma poll_scheduled:
  "asked scoped strict n t rr \<Longrightarrow> can_ask scoped dropped strict rr \<Longrightarrow>
   poll_requests scoped dropped strict rr ts = scheduled (Some (n, t)) ts"
proof (induction ts arbitrary: n t rr)
  case Nil
  then show ?case by simp
next
  case (Cons now ts)
  from request_repeat [OF Cons.prems, of now] show ?case
    using Cons by (auto split: if_splits)
qed

text \<open>
  While no frame arrives, requests for a keyframe go out exactly on the schedule:
  at once, then no sooner than one, two and four seconds after the one before, then, after ten
  seconds, a new cycle. Polls in between send nothing, and a poll that is due sends.
\<close>

lemma keyframe_requests_scheduled:
  assumes "pending_for rr scoped = None"
    and "bm_get (rr_last_keyframe_request_at rr) (request_key rr scoped) = None"
    and "can_ask scoped dropped strict rr"
  shows "poll_requests scoped dropped strict rr ts = scheduled None ts"
proof (cases ts)
  case Nil
  then show ?thesis by simp
next
  case (Cons now ts')
  from request_first [OF assms, of now] obtain rr' r where
    "next_keyframe_request rr now scoped dropped strict = (rr', Some r)"
    "asked scoped strict 0 now rr'" "can_ask scoped dropped strict rr'" by metis
  with Cons show ?thesis by (simp add: poll_scheduled)
qed

lemma keyframe_requests_scheduled_example:
  "pending_for video_receive_recovery_default False = None \<and>
   poll_requests False 0 False video_receive_recovery_default (map from_secs [0, 1, 2, 3, 7, 16, 17]) =
     map from_secs [0, 1, 3, 7, 17]"
proof -
  have p: "pending_for video_receive_recovery_default False = None"
    "bm_get (rr_last_keyframe_request_at video_receive_recovery_default)
       (request_key video_receive_recovery_default False) = None"
    by (simp_all add: pending_for_def video_receive_recovery_default_def)
  have "can_ask False 0 False video_receive_recovery_default" by (simp add: can_ask_def)
  from keyframe_requests_scheduled [OF p this, of "map from_secs [0, 1, 2, 3, 7, 16, 17]"] p(1)
  show ?thesis by (simp add: scheduled_delay_def from_secs_def)
qed

end
