(* ===== verification/Framing.thy ===== *)
theory Framing
  imports Wire_Format
begin

unbundle bit_operations_syntax

text \<open>
  Message framing on a byte stream (\<open>src/bytes_codec.rs\<close>): a length header of one to four
  little-endian bytes, whose two lowest bits give its size, followed by the message. The
  decoder is incremental. A \<open>BytesMut\<close> is the list of its unread bytes.
\<close>

section \<open>The codec\<close>

definition DEFAULT_MAX_PACKET_LENGTH :: usize where
  "DEFAULT_MAX_PACKET_LENGTH = 64 * 1024 * 1024"

datatype decode_state = HeadState | DataState usize

record bytes_codec =
  bc_state :: decode_state
  bc_raw :: bool
  bc_max_packet_length :: usize

datatype frame_error = FrameOverflow | TooBigPacket

definition codec_new :: bytes_codec where
  "codec_new = \<lparr>bc_state = HeadState, bc_raw = False, bc_max_packet_length = DEFAULT_MAX_PACKET_LENGTH\<rparr>"

definition codec_set_raw :: "bytes_codec \<Rightarrow> bytes_codec" where
  "codec_set_raw c = c\<lparr>bc_raw := True\<rparr>"

definition codec_set_max_packet_length :: "bytes_codec \<Rightarrow> usize \<Rightarrow> bytes_codec" where
  "codec_set_max_packet_length c n = c\<lparr>bc_max_packet_length := n\<rparr>"

definition u16_le :: "u16 \<Rightarrow> bytes" where
  "u16_le w = rev (u16_be w)"

definition u32_le :: "u32 \<Rightarrow> bytes" where
  "u32_le w = rev (u32_be w)"

definition encode_frame :: "bool \<Rightarrow> bytes \<Rightarrow> bytes \<Rightarrow> frame_error + bytes" where
  "encode_frame raw data buf =
     (if raw then Inr (buf @ data)
      else if length data \<le> 0x3F then
        Inr (buf @ [word_of_nat (push_bit 2 (length data))] @ data)
      else if length data \<le> 0x3FFF then
        Inr (buf @ u16_le (word_of_nat (push_bit 2 (length data)) OR 1) @ data)
      else if length data \<le> 0x3FFFFF then
        (let h = word_of_nat (push_bit 2 (length data)) OR 2 :: u32 in
         Inr (buf @ u16_le (ucast (h AND 0xFFFF)) @ [ucast (drop_bit 16 h)] @ data))
      else if length data \<le> 0x3FFFFFFF then
        Inr (buf @ u32_le (word_of_nat (push_bit 2 (length data)) OR 3) @ data)
      else Inl FrameOverflow)"

text \<open>The size of the header, from its first byte, and the number its bytes hold.\<close>

definition head_len :: "bytes \<Rightarrow> usize" where
  "head_len src = unat ((src ! 0 AND 3) + 1)"

definition head_number :: "bytes \<Rightarrow> usize" where
  "head_number src =
     (let n0 = unat (src ! 0);
          n1 = (if head_len src > 1 then n0 OR push_bit 8 (unat (src ! 1)) else n0);
          n2 = (if head_len src > 2 then n1 OR push_bit 16 (unat (src ! 2)) else n1);
          n3 = (if head_len src > 3 then n2 OR push_bit 24 (unat (src ! 3)) else n2) in
      drop_bit 2 n3)"

definition decode_head :: "bytes_codec \<Rightarrow> bytes \<Rightarrow> bytes \<times> (frame_error + usize option)" where
  "decode_head c src =
     (if src = [] then (src, Inr None)
      else if length src < head_len src then (src, Inr None)
      else if head_number src > bc_max_packet_length c then (src, Inl TooBigPacket)
      else (drop (head_len src) src, Inr (Some (head_number src))))"

definition decode_data :: "usize \<Rightarrow> bytes \<Rightarrow> bytes \<times> bytes option" where
  "decode_data n src = (if length src < n then (src, None) else (drop n src, Some (take n src)))"

definition finish_decode ::
    "bytes_codec \<Rightarrow> usize \<Rightarrow> bytes \<Rightarrow> bytes_codec \<times> bytes \<times> (frame_error + bytes option)" where
  "finish_decode c n src =
     (case decode_data n src of
        (src', Some data) \<Rightarrow> (c\<lparr>bc_state := HeadState\<rparr>, src', Inr (Some data))
      | (src', None) \<Rightarrow> (c, src', Inr None))"

definition codec_decode ::
    "bytes_codec \<Rightarrow> bytes \<Rightarrow> bytes_codec \<times> bytes \<times> (frame_error + bytes option)" where
  "codec_decode c src =
     (if bc_raw c then (if src \<noteq> [] then (c, [], Inr (Some src)) else (c, src, Inr None))
      else case bc_state c of
        DataState n \<Rightarrow> finish_decode c n src
      | HeadState \<Rightarrow>
          (case decode_head c src of
             (src', Inl e) \<Rightarrow> (c, src', Inl e)
           | (src', Inr None) \<Rightarrow> (c, src', Inr None)
           | (src', Inr (Some n)) \<Rightarrow> finish_decode (c\<lparr>bc_state := DataState n\<rparr>) n src'))"

definition codec_encode :: "bytes_codec \<Rightarrow> bytes \<Rightarrow> bytes \<Rightarrow> frame_error + bytes" where
  "codec_encode c data buf = encode_frame (bc_raw c) data buf"

section \<open>The header\<close>

lemma nat_or_push_bit: "a < 2 ^ k \<Longrightarrow> a OR push_bit k b = a + 2 ^ k * (b :: nat)"
proof -
  assume a: "a < 2 ^ k"
  have "\<not> bit a n \<or> \<not> bit (push_bit k b) n" for n
  proof (cases "k \<le> n")
    case True
    with a have "a < 2 ^ n" by (meson less_le_trans one_le_numeral power_increasing)
    then show ?thesis by (simp add: bit_iff_odd)
  next
    case False
    then show ?thesis by (simp add: bit_push_bit_iff_nat)
  qed
  then have "a + push_bit k b = a OR push_bit k b" by (rule disjunctive_add)
  then show ?thesis by (simp add: push_bit_eq_mult mult.commute)
qed

lemma nat_and_mask16: "x AND 65535 = x mod (65536 :: nat)"
  using take_bit_eq_mask [of 16 x] by (simp add: mask_eq_exp_minus_1 take_bit_eq_mod)

lemma ucast_drop_bit16: "(ucast (drop_bit 16 (h :: u32)) :: u8) = word_of_nat (unat h div 2 ^ 16)"
proof -
  have "unat (drop_bit 16 h) = unat h div 2 ^ 16"
    unfolding unat_drop_bit_eq drop_bit_eq_div [of 16 "unat h"] by (rule refl)
  then show ?thesis by (metis of_nat_unat)
qed

lemma unat_low_byte_mod4: "unat (word_of_nat x :: u8) mod 4 = x mod 4"
  by (simp add: unat_of_nat mod_mod_cancel)

lemma unat_head_tag:
  assumes "4 * n + t < 2 ^ LENGTH('a)" and "t < 4"
  shows "unat (word_of_nat (push_bit 2 n) OR word_of_nat t :: 'a::len word) = 4 * n + t"
proof -
  have "push_bit 2 n OR t = 4 * n + t"
    using assms(2) nat_or_push_bit [of t 2 n] by (simp add: or.commute)
  then have "(word_of_nat (push_bit 2 n) OR word_of_nat t :: 'a word) = word_of_nat (4 * n + t)"
    by (simp only: of_nat_or_eq [symmetric])
  then show ?thesis using assms(1) by (simp only: unat_of_nat mod_less)
qed

lemma nat_be_2: "nat_be 2 y = [of_nat (y div 256), of_nat y]"
  by (simp add: numeral_2_eq_2)

lemma nat_be_split: "rev (nat_be 3 x) = rev (nat_be 2 (x mod 2 ^ 16)) @ [word_of_nat (x div 2 ^ 16)]"
proof -
  have three: "nat_be 3 y = [of_nat (y div 256 div 256), of_nat (y div 256), of_nat y]" for y
    by (simp add: numeral_3_eq_3)
  have "(of_nat (x mod 2 ^ 16) :: u8) = of_nat x"
    by (simp add: word_of_nat_eq_iff take_bit_eq_mod mod_mod_cancel)
  moreover have "(of_nat (x mod 2 ^ 16 div 256) :: u8) = of_nat (x div 256)"
    using mod_mult2_eq [of x 256 256] by (simp add: word_of_nat_eq_iff take_bit_eq_mod)
  moreover have "x div 256 div 256 = x div 2 ^ 16" by (simp add: div_mult2_eq [symmetric])
  ultimately show ?thesis by (simp add: nat_be_2 three)
qed

text \<open>The header of a message of \<open>n\<close> bytes in \<open>k\<close> bytes: the number \<open>4 * n + (k - 1)\<close>, little-endian.\<close>

definition frame_head :: "nat \<Rightarrow> bytes" where
  "frame_head n =
     (let k = (if n \<le> 0x3F then 1 else if n \<le> 0x3FFF then 2 else if n \<le> 0x3FFFFF then 3 else 4) in
      rev (nat_be k (4 * n + (k - 1))))"

lemma encode_frame_eq:
  assumes "length data \<le> 0x3FFFFFFF"
  shows "encode_frame False data buf = Inr (buf @ frame_head (length data) @ data)"
proof -
  let ?n = "length data"
  consider "?n \<le> 0x3F" | "0x3F < ?n" "?n \<le> 0x3FFF" | "0x3FFF < ?n" "?n \<le> 0x3FFFFF" | "0x3FFFFF < ?n"
    by linarith
  then show ?thesis
  proof cases
    case 1
    then show ?thesis by (simp add: encode_frame_def frame_head_def push_bit_eq_mult mult.commute)
  next
    case 2
    have "unat (word_of_nat (push_bit 2 ?n) OR 1 :: u16) = 4 * ?n + 1"
      using unat_head_tag [of ?n 1, where 'a = 16] 2 by simp
    with 2 show ?thesis by (simp add: encode_frame_def frame_head_def u16_le_def u16_be_def)
  next
    case 3
    let ?h = "word_of_nat (push_bit 2 ?n) OR 2 :: u32"
    have h: "unat ?h = 4 * ?n + 2"
      using unat_head_tag [of ?n 2, where 'a = 32] 3 by simp
    have "unat (ucast (?h AND 0xFFFF) :: u16) = (4 * ?n + 2) mod 2 ^ 16"
      using h by (simp add: unsigned_ucast_eq unsigned_and_eq take_bit_eq_mod nat_and_mask16)
    moreover have "(ucast (drop_bit 16 ?h) :: u8) = word_of_nat ((4 * ?n + 2) div 2 ^ 16)"
      using ucast_drop_bit16 [of ?h] unfolding h by simp
    moreover have "rev (nat_be 3 (4 * ?n + 2)) = rev (nat_be 2 ((4 * ?n + 2) mod 2 ^ 16)) @
        [word_of_nat ((4 * ?n + 2) div 2 ^ 16)]" by (rule nat_be_split)
    ultimately show ?thesis using 3
      by (simp add: encode_frame_def frame_head_def u16_le_def u16_be_def Let_def)
  next
    case 4
    have "unat (word_of_nat (push_bit 2 ?n) OR 3 :: u32) = 4 * ?n + 3"
      using unat_head_tag [of ?n 3, where 'a = 32] assms by simp
    with 4 assms show ?thesis by (simp add: encode_frame_def frame_head_def u32_le_def u32_be_def)
  qed
qed

text \<open>The bytes of a header, lowest first.\<close>

lemma head_len_eq: "head_len (b # bs) = unat b mod 4 + 1"
proof -
  have "unat (b AND 3) = unat b mod 4"
    using take_bit_eq_mask [of 2 "unat b"] by (simp add: unsigned_and_eq mask_eq_exp_minus_1 take_bit_eq_mod)
  moreover have "unat b mod 4 + 1 < 2 ^ LENGTH(8)"
    using mod_less_divisor [of 4 "unat b"] by simp
  ultimately show ?thesis by (simp add: head_len_def unat_add_exact)
qed

lemma head_number_eq:
  assumes "src \<noteq> []" and "head_len src \<le> length src"
  shows "head_number src = be_nat (rev (take (head_len src) src)) div 4"
proof -
  obtain b bs where src: "src = b # bs" using assms(1) by (cases src) auto
  have "unat b mod 4 < 4" by simp
  then consider "head_len src = 1" | "head_len src = 2" | "head_len src = 3" | "head_len src = 4"
    unfolding src head_len_eq by linarith
  then show ?thesis
  proof cases
    case 1
    then show ?thesis by (simp add: head_number_def src be_nat_def drop_bit_eq_div)
  next
    case 2
    with assms(2) obtain b1 r where bs: "bs = b1 # r" by (cases bs) (auto simp: src)
    show ?thesis using 2 u8_bound [of b]
      by (simp add: head_number_def src bs be_nat_def drop_bit_eq_div nat_or_push_bit)
  next
    case 3
    with assms(2) obtain b1 b2 r where bs: "bs = b1 # b2 # r"
      by (cases bs; cases "tl bs") (auto simp: src)
    have "unat b + 2 ^ 8 * unat b1 < 2 ^ 16" using u8_bound [of b] u8_bound [of b1] by simp
    then show ?thesis using 3 u8_bound [of b]
      by (simp add: head_number_def src bs be_nat_def drop_bit_eq_div nat_or_push_bit algebra_simps)
  next
    case 4
    with assms(2) obtain b1 b2 b3 r where bs: "bs = b1 # b2 # b3 # r"
      by (cases bs; cases "tl bs"; cases "tl (tl bs)") (auto simp: src)
    have "unat b + 2 ^ 8 * unat b1 < 2 ^ 16" "unat b + 2 ^ 8 * unat b1 + 2 ^ 16 * unat b2 < 2 ^ 24"
      using u8_bound [of b] u8_bound [of b1] u8_bound [of b2] by simp_all
    then show ?thesis using 4 u8_bound [of b]
      by (simp add: head_number_def src bs be_nat_def drop_bit_eq_div nat_or_push_bit algebra_simps)
  qed
qed

lemma frame_head_decodes:
  assumes "n \<le> 0x3FFFFFFF"
  shows "head_len (frame_head n @ rest) = length (frame_head n)"
    and "head_number (frame_head n @ rest) = n"
proof -
  define k :: nat where "k = (if n \<le> 0x3F then 1 else if n \<le> 0x3FFF then 2 else if n \<le> 0x3FFFFF then 3 else 4)"
  define h where "h = 4 * n + (k - 1)"
  have k: "1 \<le> k" "k \<le> 4" by (simp_all add: k_def)
  have small: "h < 256 ^ k" using assms by (simp add: h_def k_def)
  have head: "frame_head n = rev (nat_be k h)" by (simp add: frame_head_def Let_def k_def h_def)
  obtain m where m: "k = Suc m" using k by (cases k) auto
  have "unat (word_of_nat h :: u8) mod 4 = h mod 4" by (rule unat_low_byte_mod4)
  also have "\<dots> = (k - 1) mod 4" unfolding h_def by (rule mod_mult_self4)
  also have "\<dots> = k - 1" using k by simp
  finally have len: "head_len (frame_head n @ rest) = k"
    using k by (simp add: head m head_len_eq)
  then show "head_len (frame_head n @ rest) = length (frame_head n)" by (simp add: head)
  have "frame_head n @ rest \<noteq> []" "length (frame_head n) = k" by (simp_all add: head m)
  then have "head_number (frame_head n @ rest) = be_nat (nat_be k h) div 4"
    using len head_number_eq [of "frame_head n @ rest"] by (simp add: head)
  also have "\<dots> = n" unfolding be_nat_nat_be using small k by (simp add: h_def)
  finally show "head_number (frame_head n @ rest) = n" .
qed

section \<open>Incremental decoding\<close>

text \<open>
  \<open>tokio_util\<close>'s \<open>Framed\<close> appends what it reads to its buffer and decodes until the decoder asks
  for more. The result is the messages, the codec, what is left, and the error that ended it.
\<close>

definition decode_measure :: "bytes_codec \<Rightarrow> bytes \<Rightarrow> nat" where
  "decode_measure c src = 2 * length src + (case bc_state c of HeadState \<Rightarrow> 0 | DataState _ \<Rightarrow> 1)"

lemma head_len_pos: "src \<noteq> [] \<Longrightarrow> 0 < head_len src"
  by (cases src) (simp_all add: head_len_eq)

lemma codec_decode_progress:
  "codec_decode c src = (c', src', Inr (Some m)) \<Longrightarrow> decode_measure c' src' < decode_measure c src"
  using head_len_pos [of src]
  by (auto simp: codec_decode_def decode_head_def finish_decode_def decode_data_def decode_measure_def
      split: if_splits decode_state.splits)

function drain_frames ::
    "bytes_codec \<Rightarrow> bytes \<Rightarrow> bytes list \<times> bytes_codec \<times> bytes \<times> frame_error option" where
  "drain_frames c src =
     (case codec_decode c src of
        (c', src', Inl e) \<Rightarrow> ([], c', src', Some e)
      | (c', src', Inr None) \<Rightarrow> ([], c', src', None)
      | (c', src', Inr (Some m)) \<Rightarrow>
          (case drain_frames c' src' of (ms, r) \<Rightarrow> (m # ms, r)))"
  by pat_completeness auto
termination
  by (relation "measure (\<lambda>(c, src). decode_measure c src)") (auto dest: codec_decode_progress [OF sym])

declare drain_frames.simps [simp del]

lemma drain_frames_step:
  "codec_decode c src = (c', src', Inl e) \<Longrightarrow> drain_frames c src = ([], c', src', Some e)"
  "codec_decode c src = (c', src', Inr None) \<Longrightarrow> drain_frames c src = ([], c', src', None)"
  "codec_decode c src = (c', src', Inr (Some m)) \<Longrightarrow>
     drain_frames c src = (case drain_frames c' src' of (ms, r) \<Rightarrow> (m # ms, r))"
  by (subst drain_frames.simps, simp)+

fun read_chunks ::
    "bytes_codec \<Rightarrow> bytes \<Rightarrow> bytes list \<Rightarrow> bytes list \<times> bytes_codec \<times> bytes \<times> frame_error option" where
  "read_chunks c src [] = ([], c, src, None)"
| "read_chunks c src (piece # pieces) =
     (case drain_frames c (src @ piece) of
        (ms, c', src', Some e) \<Rightarrow> (ms, c', src', Some e)
      | (ms, c', src', None) \<Rightarrow>
          (case read_chunks c' src' pieces of (ms', r) \<Rightarrow> (ms @ ms', r)))"

text \<open>What has been decided on some bytes is not changed by the bytes that follow.\<close>

lemma head_prefix:
  assumes "src \<noteq> []"
  shows "head_len (src @ later) = head_len src"
    and "head_len src \<le> length src \<Longrightarrow> head_number (src @ later) = head_number src"
proof -
  show len: "head_len (src @ later) = head_len src"
    using assms by (cases src) (simp_all add: head_len_eq)
  show "head_number (src @ later) = head_number src" if "head_len src \<le> length src"
    using that assms len head_number_eq [of src] head_number_eq [of "src @ later"] by simp
qed

lemma finish_decode_more:
  "finish_decode c n src = (c', src', Inr (Some m)) \<Longrightarrow> finish_decode c n (src @ later) = (c', src' @ later, Inr (Some m))"
  "finish_decode c n src = (c', src', Inr None) \<Longrightarrow> c' = c \<and> src' = src"
  "finish_decode c n src \<noteq> (c', src', Inl e)"
  by (auto simp: finish_decode_def decode_data_def split: if_splits)

lemma decode_head_more:
  "decode_head c src = (src', Inr (Some n)) \<Longrightarrow> decode_head c (src @ later) = (src' @ later, Inr (Some n))"
  "decode_head c src = (src', Inl e) \<Longrightarrow> src' = src \<and> decode_head c (src @ later) = (src @ later, Inl e)"
  "decode_head c src = (src', Inr None) \<Longrightarrow> src' = src"
  using head_prefix [of src later] by (auto simp: decode_head_def split: if_splits)

lemma codec_decode_some_more:
  assumes raw: "\<not> bc_raw c" and dec: "codec_decode c src = (c', src', Inr (Some m))"
  shows "codec_decode c (src @ later) = (c', src' @ later, Inr (Some m))"
proof (cases "bc_state c")
  case (DataState n)
  with raw dec show ?thesis by (simp add: codec_decode_def finish_decode_more(1))
next
  case HeadState
  with raw dec obtain n src1 where head: "decode_head c src = (src1, Inr (Some n))"
    and rest: "finish_decode (c\<lparr>bc_state := DataState n\<rparr>) n src1 = (c', src', Inr (Some m))"
    by (auto simp: codec_decode_def split: prod.splits sum.splits option.splits)
  show ?thesis
    by (simp add: codec_decode_def raw HeadState decode_head_more(1) [OF head] finish_decode_more(1) [OF rest])
qed

lemma codec_decode_none_more:
  assumes raw: "\<not> bc_raw c" and dec: "codec_decode c src = (c', src', Inr None)"
  shows "codec_decode c (src @ later) = codec_decode c' (src' @ later)"
proof (cases "bc_state c")
  case (DataState n)
  with raw dec have "c' = c \<and> src' = src"
    using finish_decode_more(2) [of c n src c' src'] by (simp add: codec_decode_def)
  then show ?thesis by simp
next
  case HeadState
  obtain src1 r where head: "decode_head c src = (src1, r)" by (cases "decode_head c src")
  then consider "r = Inr None" | n where "r = Inr (Some n)"
    using raw dec HeadState by (cases r) (auto simp: codec_decode_def)
  then show ?thesis
  proof cases
    case 1
    with head have "src1 = src" by (simp add: decode_head_more(3))
    with 1 head raw dec HeadState show ?thesis by (simp add: codec_decode_def)
  next
    case (2 n)
    with head raw dec HeadState have "finish_decode (c\<lparr>bc_state := DataState n\<rparr>) n src1 = (c', src', Inr None)"
      by (simp add: codec_decode_def)
    then have "c' = c\<lparr>bc_state := DataState n\<rparr>" "src' = src1" by (simp_all add: finish_decode_more(2))
    with raw HeadState decode_head_more(1) [OF head [unfolded 2]] show ?thesis by (simp add: codec_decode_def)
  qed
qed

lemma codec_decode_error_more:
  assumes raw: "\<not> bc_raw c" and dec: "codec_decode c src = (c', src', Inl e)"
  shows "c' = c \<and> src' = src \<and> codec_decode c (src @ later) = (c, src @ later, Inl e)"
proof -
  from raw dec have "bc_state c = HeadState" "c' = c" and head: "decode_head c src = (src', Inl e)"
    by (auto simp: codec_decode_def finish_decode_more(3) split: decode_state.splits prod.splits sum.splits option.splits)
  with raw decode_head_more(2) [OF head, of later] show ?thesis by (simp add: codec_decode_def)
qed

lemma codec_decode_keeps_raw: "codec_decode c src = (c', src', r) \<Longrightarrow> bc_raw c' = bc_raw c"
  by (auto simp: codec_decode_def finish_decode_def split: if_splits decode_state.splits prod.splits
      sum.splits option.splits)

lemma drain_frames_append:
  assumes "\<not> bc_raw c" and "drain_frames c src = (ms, c', src', None)"
  shows "\<not> bc_raw c' \<and>
    drain_frames c (src @ later) = (case drain_frames c' (src' @ later) of (ms', r) \<Rightarrow> (ms @ ms', r))"
  using assms
proof (induction c src arbitrary: ms rule: drain_frames.induct)
  case (1 c src)
  obtain c1 src1 r where dec: "codec_decode c src = (c1, src1, r)" by (rule prod_cases3)
  have raw: "\<not> bc_raw c1" using codec_decode_keeps_raw [OF dec] 1(2) by simp
  show ?case
  proof (cases r)
    case (Inl e)
    with dec 1(3) show ?thesis by (simp add: drain_frames.simps [of c src])
  next
    case r: (Inr o')
    show ?thesis
    proof (cases o')
      case None
      with r dec 1(3) have eq: "ms = []" "c' = c1" "src' = src1"
        by (simp_all add: drain_frames.simps [of c src])
      have "drain_frames c (src @ later) = drain_frames c1 (src1 @ later)"
        using codec_decode_none_more [OF 1(2), of src c1 src1 later] dec r None
        by (simp add: drain_frames.simps [of c "src @ later"] drain_frames.simps [of c1 "src1 @ later"])
      then show ?thesis using raw by (simp add: eq split: prod.splits)
    next
      case (Some m)
      note dec' = dec [unfolded r Some]
      obtain ms1 where rest: "drain_frames c1 src1 = (ms1, c', src', None)" "ms = m # ms1"
        using 1(3) by (auto simp: drain_frames.simps [of c src] dec' split: prod.splits)
      from 1(1) [OF dec' [symmetric] refl refl refl raw rest(1)]
      show ?thesis
        using codec_decode_some_more [OF 1(2) dec', of later]
        by (simp add: drain_frames.simps [of c "src @ later"] rest(2) split: prod.splits)
    qed
  qed
qed

lemma drain_frames_error_append:
  assumes "\<not> bc_raw c" and "drain_frames c src = (ms, c', src', Some e)"
  shows "drain_frames c (src @ later) = (ms, c', src' @ later, Some e)"
  using assms
proof (induction c src arbitrary: ms rule: drain_frames.induct)
  case (1 c src)
  obtain c1 src1 r where dec: "codec_decode c src = (c1, src1, r)" by (rule prod_cases3)
  have raw: "\<not> bc_raw c1" using codec_decode_keeps_raw [OF dec] 1(2) by simp
  consider "r = Inl e" "ms = []" "c' = c1" "src' = src1"
    | m ms1 where "r = Inr (Some m)" "drain_frames c1 src1 = (ms1, c', src', Some e)" "ms = m # ms1"
  proof (cases r)
    case (Inl e')
    with dec 1(3) that(1) show thesis by (simp add: drain_frames_step(1))
  next
    case (Inr o')
    then show thesis
    proof (cases o')
      case None
      with Inr dec 1(3) show thesis by (simp add: drain_frames_step(2))
    next
      case (Some m)
      obtain ms1 x where rest: "drain_frames c1 src1 = (ms1, x)" by (cases "drain_frames c1 src1")
      have "drain_frames c src = (m # ms1, x)"
        using drain_frames_step(3) [OF dec [unfolded Inr Some]] rest by simp
      then have "(m # ms1, x) = (ms, c', src', Some e)" using 1(3) by (rule trans [OF sym])
      then have "ms = m # ms1" "x = (c', src', Some e)" by simp_all
      moreover have "r = Inr (Some m)" by (simp only: Inr Some)
      ultimately show thesis using rest by (intro that(2) [of m ms1]) simp_all
    qed
  qed
  then show ?case
  proof cases
    case 1
    then show ?thesis
      using codec_decode_error_more [OF \<open>\<not> bc_raw c\<close>, of src c1 src1 e later] dec
      by (simp add: drain_frames_step(1))
  next
    case (2 m ms1)
    from 1(1) [OF dec [unfolded 2(1), symmetric] refl refl refl raw 2(2)]
      codec_decode_some_more [OF \<open>\<not> bc_raw c\<close> dec [unfolded 2(1)], of later] 2(3)
    show ?thesis by (simp add: drain_frames_step(3))
  qed
qed

lemma drain_frames_quiescent:
  assumes "\<not> bc_raw c" and "drain_frames c src = (ms, c', src', None)"
  shows "drain_frames c' src' = ([], c', src', None)"
  using drain_frames_append [OF assms, of "[]"] assms(2) by (auto split: prod.splits)

text \<open>Reading in pieces agrees with decoding the whole input at once; after an error the rest of
  the input is not read.\<close>

definition agrees :: "bytes list \<times> bytes_codec \<times> bytes \<times> frame_error option \<Rightarrow>
    bytes list \<times> bytes_codec \<times> bytes \<times> frame_error option \<Rightarrow> bool" where
  "agrees a b \<longleftrightarrow> (case (a, b) of ((ms, c, src, e), (ms', c', src', e')) \<Rightarrow>
     ms = ms' \<and> c = c' \<and> e = e' \<and> (e = None \<longrightarrow> src = src'))"

lemma read_chunks_agrees:
  assumes "\<not> bc_raw c" and "drain_frames c src = ([], c, src, None)"
  shows "agrees (read_chunks c src pieces) (drain_frames c (src @ concat pieces))"
  using assms
proof (induction pieces arbitrary: c src)
  case Nil
  then show ?case by (simp add: agrees_def)
next
  case (Cons piece pieces)
  obtain ms c1 src1 e where first: "drain_frames c (src @ piece) = (ms, c1, src1, e)" by (rule prod_cases4)
  show ?case
  proof (cases e)
    case None
    note app = drain_frames_append [OF Cons.prems(1) first [unfolded None], of "concat pieces"]
    have "agrees (read_chunks c1 src1 pieces) (drain_frames c1 (src1 @ concat pieces))"
      using app drain_frames_quiescent [OF Cons.prems(1) first [unfolded None]] by (intro Cons.IH) simp_all
    with app first None show ?thesis by (auto simp: agrees_def split: prod.splits)
  next
    case (Some err)
    from drain_frames_error_append [OF Cons.prems(1) first [unfolded Some], of "concat pieces"] first Some
    show ?thesis by (simp add: agrees_def)
  qed
qed

section \<open>Sending and receiving\<close>

fun encode_frames :: "bool \<Rightarrow> bytes list \<Rightarrow> bytes \<Rightarrow> frame_error + bytes" where
  "encode_frames raw [] buf = Inr buf"
| "encode_frames raw (m # ms) buf =
     (case encode_frame raw m buf of Inl e \<Rightarrow> Inl e | Inr buf' \<Rightarrow> encode_frames raw ms buf')"

definition frame_fits :: "bytes_codec \<Rightarrow> bytes \<Rightarrow> bool" where
  "frame_fits c m \<longleftrightarrow> length m \<le> bc_max_packet_length c \<and> length m \<le> 0x3FFFFFFF"

lemma encode_frames_eq:
  "list_all (frame_fits c) ms \<Longrightarrow>
   encode_frames False ms buf = Inr (buf @ concat (map (\<lambda>m. frame_head (length m) @ m) ms))"
  by (induction ms arbitrary: buf) (simp_all add: encode_frame_eq frame_fits_def)

lemma frame_head_nonempty: "frame_head n \<noteq> []"
proof -
  have "0 < length (frame_head n)" by (simp add: frame_head_def Let_def)
  then show ?thesis by auto
qed

lemma codec_decode_frame:
  assumes "\<not> bc_raw c" and "bc_state c = HeadState" and "frame_fits c m"
  shows "codec_decode c (frame_head (length m) @ m @ rest) = (c, rest, Inr (Some m))"
proof -
  have "decode_head c (frame_head (length m) @ m @ rest) = (m @ rest, Inr (Some (length m)))"
    using assms(3) frame_head_nonempty [of "length m"] frame_head_decodes [of "length m" "m @ rest"]
    by (simp add: decode_head_def frame_fits_def)
  moreover have "c\<lparr>bc_state := HeadState\<rparr> = c" using assms(2) by (cases c) simp
  ultimately show ?thesis
    using assms(1,2) by (simp add: codec_decode_def finish_decode_def decode_data_def)
qed

lemma drain_frames_encoded:
  assumes "\<not> bc_raw c" and "bc_state c = HeadState"
  shows "list_all (frame_fits c) ms \<Longrightarrow>
    drain_frames c (concat (map (\<lambda>m. frame_head (length m) @ m) ms)) = (ms, c, [], None)"
proof (induction ms)
  case Nil
  from assms show ?case by (simp add: drain_frames_step(2) codec_decode_def decode_head_def)
next
  case (Cons m ms)
  have "codec_decode c (concat (map (\<lambda>m. frame_head (length m) @ m) (m # ms))) =
      (c, concat (map (\<lambda>m. frame_head (length m) @ m) ms), Inr (Some m))"
    using codec_decode_frame [OF assms, of m] Cons.prems by simp
  with Cons show ?case by (simp add: drain_frames_step(3))
qed

lemma framing_delivers:
  assumes "list_all (frame_fits codec_new) ms"
    and "encode_frames False ms [] = Inr (concat pieces)"
  shows "read_chunks codec_new [] pieces = (ms, codec_new, [], None)"
proof -
  have c: "\<not> bc_raw codec_new" "bc_state codec_new = HeadState" by (simp_all add: codec_new_def)
  have "drain_frames codec_new [] = ([], codec_new, [], None)"
    using c by (simp add: drain_frames_step(2) codec_decode_def decode_head_def)
  from read_chunks_agrees [OF c(1) this, of pieces] assms drain_frames_encoded [OF c assms(1)]
  show ?thesis by (auto simp: encode_frames_eq agrees_def split: prod.splits)
qed

text \<open>
  Property C14: framing delivers exactly what was sent. The messages that fit the limits,
  encoded one after the other, are decoded to the same messages in the same order however the
  byte stream is cut into pieces, and nothing is left over.
\<close>

theorem framing_end_to_end:
  assumes "list_all (frame_fits codec_new) ms"
    and "encode_frames False ms [] = Inr (concat pieces)"
  shows "read_chunks codec_new [] pieces = (ms, codec_new, [], None)"
  using assms by (rule framing_delivers)

text \<open>
  Property C15: a frame that is too long is refused, on both sides. The encoder refuses what
  its header cannot express; the decoder, as soon as it has the header of a frame above its
  limit, fails without taking anything from the buffer, and no later input changes that.
\<close>

theorem oversized_frames_refused:
  assumes "\<not> bc_raw c" and "bc_state c = HeadState"
    and "bc_max_packet_length c < length m"
  shows "(case encode_frame False m [] of
       Inl e \<Rightarrow> e = FrameOverflow \<and> 0x3FFFFFFF < length m
     | Inr wire \<Rightarrow> length m \<le> 0x3FFFFFFF \<and>
         drain_frames c (take (length wire - length m) wire @ later) =
           ([], c, take (length wire - length m) wire @ later, Some TooBigPacket))"
proof (cases "length m \<le> 0x3FFFFFFF")
  case True
  let ?h = "frame_head (length m)"
  have "decode_head c (?h @ later) = (?h @ later, Inl TooBigPacket)"
    using assms(3) frame_head_nonempty [of "length m"] frame_head_decodes [OF True, of later]
    by (simp add: decode_head_def)
  then show ?thesis
    using assms(1,2) True by (simp add: encode_frame_eq drain_frames_step(1) codec_decode_def)
next
  case False
  then show ?thesis by (simp add: encode_frame_def)
qed

theorem framing_end_to_end_witness:
  "list_all (frame_fits codec_new) [[1, 2, 3], [], replicate 64 7] \<and>
   read_chunks codec_new [] [[12, 1], [2, 3, 0], 1 # [1], replicate 64 7] =
     ([[1, 2, 3], [], replicate 64 7], codec_new, [], None)"
proof -
  have fits: "list_all (frame_fits codec_new) [[1, 2, 3], [], replicate 64 7]"
    by (simp add: frame_fits_def codec_new_def DEFAULT_MAX_PACKET_LENGTH_def)
  have "frame_head 3 = [12]" "frame_head 0 = [0]" by (simp_all add: frame_head_def)
  moreover have "frame_head 64 = [1, 1]"
    by (simp add: frame_head_def nat_be_2)
  ultimately have "encode_frames False [[1, 2, 3], [], replicate 64 7] [] =
      Inr (concat [[12, 1], [2, 3, 0], 1 # [1], replicate 64 7])"
    using encode_frames_eq [OF fits, of "[]"] by (simp add: numeral_3_eq_3 del: encode_frames.simps)
  from framing_end_to_end [OF fits this] fits show ?thesis by simp
qed

theorem oversized_frames_refused_witness:
  "drain_frames (codec_set_max_packet_length codec_new 2) [12, 9] =
     ([], codec_set_max_packet_length codec_new 2, [12, 9], Some TooBigPacket)"
proof -
  have c: "\<not> bc_raw (codec_set_max_packet_length codec_new 2)"
    "bc_state (codec_set_max_packet_length codec_new 2) = HeadState"
    "bc_max_packet_length (codec_set_max_packet_length codec_new 2) < length [1, 2, 3 :: u8]"
    by (simp_all add: codec_set_max_packet_length_def codec_new_def)
  have "frame_head 3 = [12]" by (simp add: frame_head_def)
  then have "encode_frame False [1, 2, 3] [] = Inr [12, 1, 2, 3]" by (simp add: encode_frame_eq numeral_3_eq_3)
  with oversized_frames_refused [OF c, of "[9]"] show ?thesis by simp
qed

end
