(* ===== verification/Secure_Stream.thy ===== *)
theory Secure_Stream
  imports Framing
begin

text \<open>
  The encrypted TCP channel (\<open>src/tcp.rs\<close>): the nonces, the \<open>Encrypt\<close> state with its two frame
  counters, the session key of the handshake, and the reading and writing halves of a framed
  stream.

  Parameters: \<open>secretbox\<close> and \<open>box_open\<close> are the sodiumoxide primitives. A write half returns the
  list of the buffers it hands to \<open>write_all\<close>; a timeout or a failing socket ends it and is not
  modelled, nor are the pacing delays, which do not change what is written.
\<close>

section \<open>Nonces\<close>

definition NONCEBYTES :: usize where "NONCEBYTES = 24"
definition MACBYTES :: usize where "MACBYTES = 16"
definition KEYBYTES :: usize where "KEYBYTES = 32"
definition PUBLICKEYBYTES :: usize where "PUBLICKEYBYTES = 32"

definition SESSION_KEY_MODE_DIRECTIONAL :: u8 where "SESSION_KEY_MODE_DIRECTIONAL = 0x01"
definition NONCE_TAG_VIEWER_TO_HOST :: u8 where "NONCE_TAG_VIEWER_TO_HOST = 0x01"
definition NONCE_TAG_HOST_TO_VIEWER :: u8 where "NONCE_TAG_HOST_TO_VIEWER = 0x02"

datatype session_role = Viewer | Host

datatype nonce_mode = LegacyNonce | Directional session_role

definition get_nonce :: "u64 \<Rightarrow> bytes" where
  "get_nonce seqnum = copy_at 0 (rev (u64_be seqnum)) (replicate NONCEBYTES 0)"

definition mode_nonce :: "nonce_mode \<Rightarrow> u64 \<Rightarrow> bool \<Rightarrow> bytes" where
  "mode_nonce mode seqnum sending =
     (let nonce = get_nonce seqnum in
      case mode of
        LegacyNonce \<Rightarrow> nonce
      | Directional role \<Rightarrow>
          (let viewer_to_host = ((role = Viewer) = sending) in
           nonce[NONCEBYTES - 1 :=
             (if viewer_to_host then NONCE_TAG_VIEWER_TO_HOST else NONCE_TAG_HOST_TO_VIEWER)]))"

section \<open>Encryption of frames\<close>

record 'k secretbox =
  sb_seal :: "bytes \<Rightarrow> bytes \<Rightarrow> 'k \<Rightarrow> bytes"
  sb_open :: "bytes \<Rightarrow> bytes \<Rightarrow> 'k \<Rightarrow> bytes option"

record 'k encrypt =
  enc_key :: 'k
  enc_sent :: u64
  enc_received :: u64
  enc_mode :: nonce_mode

datatype decrypt_error = FrameTooShort | DecryptionError

definition encrypt_with_mode :: "'k \<Rightarrow> nonce_mode \<Rightarrow> 'k encrypt" where
  "encrypt_with_mode key mode = \<lparr>enc_key = key, enc_sent = 0, enc_received = 0, enc_mode = mode\<rparr>"

definition encrypt_new :: "'k \<Rightarrow> 'k encrypt" where
  "encrypt_new key = encrypt_with_mode key LegacyNonce"

text \<open>A failed opening has already counted the frame.\<close>

definition encrypt_dec :: "'k secretbox \<Rightarrow> 'k encrypt \<Rightarrow> bytes \<Rightarrow> 'k encrypt \<times> (decrypt_error + bytes)" where
  "encrypt_dec B e frame =
     (if enc_mode e \<noteq> LegacyNonce \<and> length frame < MACBYTES then (e, Inl FrameTooShort)
      else if length frame \<le> 1 then (e, Inr frame)
      else
        (let e' = e\<lparr>enc_received := enc_received e + 1\<rparr>;
             nonce = mode_nonce (enc_mode e') (enc_received e') False in
         (e', (case sb_open B frame nonce (enc_key e') of
                 Some res \<Rightarrow> Inr res
               | None \<Rightarrow> Inl DecryptionError))))"

definition encrypt_enc :: "'k secretbox \<Rightarrow> 'k encrypt \<Rightarrow> bytes \<Rightarrow> 'k encrypt \<times> bytes" where
  "encrypt_enc B e data =
     (let e' = e\<lparr>enc_sent := enc_sent e + 1\<rparr> in
      (e', sb_seal B data (mode_nonce (enc_mode e') (enc_sent e') True) (enc_key e')))"

section \<open>The session key\<close>

datatype handshake_error = PkLength usize | BoxDecryptionFailure | InvalidSecretKeyLength

definition decode_session ::
    "(bytes \<Rightarrow> bytes \<Rightarrow> bytes \<Rightarrow> 's \<Rightarrow> bytes option) \<Rightarrow> bytes \<Rightarrow> bytes \<Rightarrow> 's \<Rightarrow> bool \<Rightarrow>
     handshake_error + (bytes \<times> bool)" where
  "decode_session box_open symmetric_data their_pk our_sk directional_offered =
     (if length their_pk \<noteq> PUBLICKEYBYTES then Inl (PkLength (length their_pk))
      else case box_open symmetric_data (replicate NONCEBYTES 0) their_pk our_sk of
        None \<Rightarrow> Inl BoxDecryptionFailure
      | Some symmetric_key \<Rightarrow>
          if length symmetric_key = KEYBYTES then Inr (take KEYBYTES symmetric_key, False)
          else if directional_offered \<and> length symmetric_key = KEYBYTES + 1
               \<and> symmetric_key ! KEYBYTES = SESSION_KEY_MODE_DIRECTIONAL
            then Inr (take KEYBYTES symmetric_key, True)
          else Inl InvalidSecretKeyLength)"

definition decode_session_key ::
    "(bytes \<Rightarrow> bytes \<Rightarrow> bytes \<Rightarrow> 's \<Rightarrow> bytes option) \<Rightarrow> bytes \<Rightarrow> bytes \<Rightarrow> 's \<Rightarrow> handshake_error + bytes" where
  "decode_session_key box_open symmetric_data their_pk our_sk =
     (case decode_session box_open symmetric_data their_pk our_sk False of
        Inl e \<Rightarrow> Inl e
      | Inr (key, _) \<Rightarrow> Inr key)"

section \<open>Framed streams\<close>

definition TCP_FRAMED_WRITE_CHUNK_LIMIT :: usize where "TCP_FRAMED_WRITE_CHUNK_LIMIT = 1200"

text \<open>A framed stream: its codec, the bytes read but not decoded, the bytes encoded but not yet
  written, and its encryption.\<close>

record 'k framed_stream =
  fs_codec :: bytes_codec
  fs_read_buf :: bytes
  fs_write_buf :: bytes
  fs_encrypt :: "'k encrypt option"

definition framed_from :: "'k framed_stream" where
  "framed_from = \<lparr>fs_codec = codec_new, fs_read_buf = [], fs_write_buf = [], fs_encrypt = None\<rparr>"

definition framed_set_raw :: "'k framed_stream \<Rightarrow> 'k framed_stream" where
  "framed_set_raw s = s\<lparr>fs_codec := codec_set_raw (fs_codec s), fs_encrypt := None\<rparr>"

definition framed_set_key_with_mode :: "'k framed_stream \<Rightarrow> 'k \<Rightarrow> nonce_mode \<Rightarrow> 'k framed_stream" where
  "framed_set_key_with_mode s key mode = s\<lparr>fs_encrypt := Some (encrypt_with_mode key mode)\<rparr>"

definition framed_set_key :: "'k framed_stream \<Rightarrow> 'k \<Rightarrow> 'k framed_stream" where
  "framed_set_key s key = framed_set_key_with_mode s key LegacyNonce"

definition framed_is_secured :: "'k framed_stream \<Rightarrow> bool" where
  "framed_is_secured s \<longleftrightarrow> fs_encrypt s \<noteq> None"

definition write_wire_bytes :: "bytes \<Rightarrow> bool \<Rightarrow> bytes list" where
  "write_wire_bytes data bounded =
     (if \<not> bounded then [data] else chunks TCP_FRAMED_WRITE_CHUNK_LIMIT data)"

record 'k framed_read_half =
  fr_codec :: bytes_codec
  fr_buf :: bytes
  fr_decrypt :: "'k encrypt option"

record 'k framed_write_half =
  fw_encrypt :: "'k encrypt option"
  fw_raw :: bool
  fw_pending :: bytes

definition framed_into_split :: "'k framed_stream \<Rightarrow> 'k framed_read_half \<times> 'k framed_write_half" where
  "framed_into_split s =
     (\<lparr>fr_codec = fs_codec s, fr_buf = fs_read_buf s, fr_decrypt = fs_encrypt s\<rparr>,
      \<lparr>fw_encrypt = fs_encrypt s, fw_raw = bc_raw (fs_codec s), fw_pending = fs_write_buf s\<rparr>)"

definition send_bytes_inner ::
    "'k framed_write_half \<Rightarrow> bytes \<Rightarrow> 'k framed_write_half \<times> bytes list \<times> (frame_error + unit)" where
  "send_bytes_inner w data =
     (let flushed = (if fw_pending w \<noteq> [] then write_wire_bytes (fw_pending w) (\<not> fw_raw w) else []);
          w' = w\<lparr>fw_pending := []\<rparr>;
          bounded = (length data > TCP_FRAMED_WRITE_CHUNK_LIMIT \<and> \<not> fw_raw w) in
      case encode_frame (fw_raw w) data [] of
        Inl e \<Rightarrow> (w', flushed, Inl e)
      | Inr framed \<Rightarrow> (w', flushed @ write_wire_bytes framed bounded, Inr ()))"

definition write_half_send_raw ::
    "'k secretbox \<Rightarrow> 'k framed_write_half \<Rightarrow> bytes \<Rightarrow> 'k framed_write_half \<times> bytes list \<times> (frame_error + unit)" where
  "write_half_send_raw B w msg =
     (case fw_encrypt w of
        None \<Rightarrow> send_bytes_inner w msg
      | Some e \<Rightarrow>
          (case encrypt_enc B e msg of
             (e', sealed) \<Rightarrow> send_bytes_inner (w\<lparr>fw_encrypt := Some e'\<rparr>) sealed))"

text \<open>What \<open>next\<close> does with a frame the codec has decoded.\<close>

definition read_half_open ::
    "'k secretbox \<Rightarrow> 'k encrypt option \<Rightarrow> bytes \<Rightarrow> 'k encrypt option \<times> (decrypt_error + bytes)" where
  "read_half_open B d frame =
     (case d of
        None \<Rightarrow> (None, Inr frame)
      | Some e \<Rightarrow> (case encrypt_dec B e frame of (e', r) \<Rightarrow> (Some e', r)))"

end
