(* ===== verification/Secure_Stream_Properties.thy ===== *)
theory Secure_Stream_Properties
  imports Secure_Stream
begin

text \<open>
  Correctness of the encrypted channel: what one half sends the other receives, over any
  segmentation of the byte stream, and with directional nonces an attacker who controls the
  stream can only cut it, not replay, reorder, reflect or forge.
\<close>

section \<open>Nonces\<close>

lemma length_get_nonce [simp]: "length (get_nonce n) = NONCEBYTES"
  by (simp add: get_nonce_def copy_at_def NONCEBYTES_def)

lemma take_get_nonce: "take 8 (get_nonce n) = rev (u64_be n)"
  by (simp add: get_nonce_def copy_at_def)

definition nonce_tag :: "session_role \<Rightarrow> bool \<Rightarrow> u8" where
  "nonce_tag role sending =
     (if (role = Viewer) = sending then NONCE_TAG_VIEWER_TO_HOST else NONCE_TAG_HOST_TO_VIEWER)"

lemma mode_nonce_directional:
  "mode_nonce (Directional role) n sending = (get_nonce n)[23 := nonce_tag role sending]"
  by (simp add: mode_nonce_def nonce_tag_def NONCEBYTES_def)

fun other_role :: "session_role \<Rightarrow> session_role" where
  "other_role Viewer = Host"
| "other_role Host = Viewer"

lemma nonce_tag_flip: "nonce_tag (other_role role) (\<not> sending) = nonce_tag role sending"
  by (cases role; cases sending) (simp_all add: nonce_tag_def)

text \<open>A directional nonce determines the counter and the direction.\<close>

lemma counter_part: "take 8 ((get_nonce n)[23 := x]) = take 8 (get_nonce n)"
  by simp

lemma directional_nonce_inject:
  "mode_nonce (Directional r) n s = mode_nonce (Directional r') n' s' \<longleftrightarrow>
     n = n' \<and> nonce_tag r s = nonce_tag r' s'"
proof
  assume eq: "mode_nonce (Directional r) n s = mode_nonce (Directional r') n' s'"
  have "take 8 (get_nonce n) = take 8 (get_nonce n')"
    using arg_cong [OF eq [unfolded mode_nonce_directional], of "take 8"] unfolding counter_part .
  then have "n = n'" by (simp add: take_get_nonce)
  moreover have "nonce_tag r s = nonce_tag r' s'"
    using arg_cong [OF eq, of "\<lambda>xs. xs ! 23"] by (simp add: mode_nonce_directional NONCEBYTES_def)
  ultimately show "n = n' \<and> nonce_tag r s = nonce_tag r' s'" ..
qed (simp add: mode_nonce_directional)

section \<open>Sending and receiving\<close>

definition secretbox_ok :: "'k secretbox \<Rightarrow> bool" where
  "secretbox_ok B \<longleftrightarrow> (\<forall>m n k. sb_open B (sb_seal B m n k) n k = Some m \<and>
     length (sb_seal B m n k) = length m + MACBYTES)"

fun send_messages ::
    "'k secretbox \<Rightarrow> 'k framed_write_half \<Rightarrow> bytes list \<Rightarrow>
     'k framed_write_half \<times> bytes list \<times> (frame_error + unit)" where
  "send_messages B w [] = (w, [], Inr ())"
| "send_messages B w (m # ms) =
     (case write_half_send_raw B w m of
        (w', out, Inl e) \<Rightarrow> (w', out, Inl e)
      | (w', out, Inr _) \<Rightarrow>
          (case send_messages B w' ms of (w'', out', r) \<Rightarrow> (w'', out @ out', r)))"

text \<open>The results of \<open>next\<close> for a list of frames, up to the first error.\<close>

fun open_frames :: "'k secretbox \<Rightarrow> 'k encrypt option \<Rightarrow> bytes list \<Rightarrow> (decrypt_error + bytes) list" where
  "open_frames B d [] = []"
| "open_frames B d (frame # frames) =
     (case read_half_open B d frame of
        (d', Inl e) \<Rightarrow> [Inl e]
      | (d', Inr m) \<Rightarrow> Inr m # open_frames B d' frames)"

definition receive_pieces ::
    "'k secretbox \<Rightarrow> 'k framed_read_half \<Rightarrow> bytes list \<Rightarrow> (decrypt_error + bytes) list" where
  "receive_pieces B r pieces =
     (case read_chunks (fr_codec r) (fr_buf r) pieces of (frames, _) \<Rightarrow> open_frames B (fr_decrypt r) frames)"

text \<open>The two modes of the ends of a channel.\<close>

fun peer_modes :: "nonce_mode \<Rightarrow> nonce_mode \<Rightarrow> bool" where
  "peer_modes LegacyNonce mode \<longleftrightarrow> mode = LegacyNonce"
| "peer_modes (Directional role) mode \<longleftrightarrow> mode = Directional (other_role role)"

lemma peer_nonce: "peer_modes mode mode' \<Longrightarrow> mode_nonce mode' n False = mode_nonce mode n True"
  using nonce_tag_flip [of _ True]
  by (cases mode) (simp_all add: mode_nonce_directional, simp_all add: mode_nonce_def)

lemma concat_write_wire_bytes [simp]: "concat (write_wire_bytes data bounded) = data"
  by (simp add: write_wire_bytes_def concat_chunks TCP_FRAMED_WRITE_CHUNK_LIMIT_def)

text \<open>The frames of a list of messages from a given counter.\<close>

fun seal_frames :: "'k secretbox \<Rightarrow> 'k \<Rightarrow> nonce_mode \<Rightarrow> u64 \<Rightarrow> bytes list \<Rightarrow> bytes list" where
  "seal_frames B key mode n [] = []"
| "seal_frames B key mode n (m # ms) =
     sb_seal B m (mode_nonce mode (n + 1) True) key # seal_frames B key mode (n + 1) ms"

lemma send_messages_frames:
  assumes box: "secretbox_ok B" and "list_all (\<lambda>m. length m + MACBYTES \<le> DEFAULT_MAX_PACKET_LENGTH) ms"
    and "fw_encrypt w = Some \<lparr>enc_key = key, enc_sent = n, enc_received = n', enc_mode = mode\<rparr>"
    and "\<not> fw_raw w" and "fw_pending w = []"
  shows "case send_messages B w ms of (w', out, r) \<Rightarrow> r = Inr () \<and>
    encode_frames False (seal_frames B key mode n ms) [] = Inr (concat out) \<and>
    list_all (frame_fits codec_new) (seal_frames B key mode n ms)"
  using assms(2-5)
proof (induction ms arbitrary: w n)
  case Nil
  then show ?case by simp
next
  case (Cons m ms)
  define f where "f = sb_seal B m (mode_nonce mode (n + 1) True) key"
  define w1 where "w1 = w\<lparr>fw_encrypt := Some \<lparr>enc_key = key, enc_sent = n + 1, enc_received = n', enc_mode = mode\<rparr>,
    fw_pending := []\<rparr>"
  have len: "length f = length m + MACBYTES" using box by (simp add: f_def secretbox_ok_def)
  have fits: "frame_fits codec_new f"
    using Cons.prems(1) by (simp add: frame_fits_def len codec_new_def DEFAULT_MAX_PACKET_LENGTH_def)
  obtain out1 where send: "write_half_send_raw B w m = (w1, out1, Inr ())"
    and out1: "concat out1 = frame_head (length f) @ f"
    using Cons.prems fits
    by (simp add: write_half_send_raw_def encrypt_enc_def send_bytes_inner_def Let_def w1_def
        encode_frame_eq frame_fits_def f_def [symmetric])
  have "case send_messages B w1 ms of (w', out, r) \<Rightarrow> r = Inr () \<and>
      encode_frames False (seal_frames B key mode (n + 1) ms) [] = Inr (concat out) \<and>
      list_all (frame_fits codec_new) (seal_frames B key mode (n + 1) ms)"
    using Cons.prems by (intro Cons.IH) (simp_all add: w1_def)
  then show ?case
    using fits out1 by (auto simp: send f_def [symmetric] encode_frames_eq [of codec_new] split: prod.splits
        simp del: encode_frames.simps)
qed

lemma open_seal_frames:
  assumes box: "secretbox_ok B" and modes: "peer_modes mode mode'"
  shows "open_frames B (Some \<lparr>enc_key = key, enc_sent = s, enc_received = n, enc_mode = mode'\<rparr>)
    (seal_frames B key mode n ms) = map Inr ms"
proof (induction ms arbitrary: n)
  case Nil
  then show ?case by simp
next
  case (Cons m ms)
  have "MACBYTES \<le> length (sb_seal B m (mode_nonce mode (n + 1) True) key)"
    using box by (simp add: secretbox_ok_def)
  then have "read_half_open B (Some \<lparr>enc_key = key, enc_sent = s, enc_received = n, enc_mode = mode'\<rparr>)
      (sb_seal B m (mode_nonce mode (n + 1) True) key) =
    (Some \<lparr>enc_key = key, enc_sent = s, enc_received = n + 1, enc_mode = mode'\<rparr>, Inr m)"
    using box by (simp add: read_half_open_def encrypt_dec_def peer_nonce [OF modes] secretbox_ok_def
        MACBYTES_def)
  with Cons show ?case by simp
qed

text \<open>
  Property C16: an encrypted stream delivers exactly what was sent. With a correct secretbox,
  the messages one half sends, within the packet limit and however the bytes are cut on the
  way, come out of the peer's reading half unchanged and in order, in both nonce layouts.
\<close>

theorem secure_stream_end_to_end:
  assumes "secretbox_ok B" and "peer_modes mode mode'"
    and "list_all (\<lambda>m. length m + MACBYTES \<le> DEFAULT_MAX_PACKET_LENGTH) ms"
    and "framed_into_split (framed_set_key_with_mode framed_from key mode) = (r, w)"
    and "framed_into_split (framed_set_key_with_mode framed_from key mode') = (r', w')"
    and "send_messages B w ms = (w2, out, result)"
    and "concat pieces = concat out"
  shows "result = Inr () \<and> receive_pieces B r' pieces = map Inr ms"
proof -
  have w: "fw_encrypt w = Some \<lparr>enc_key = key, enc_sent = 0, enc_received = 0, enc_mode = mode\<rparr>"
    "\<not> fw_raw w" "fw_pending w = []"
    and r': "fr_codec r' = codec_new" "fr_buf r' = []"
      "fr_decrypt r' = Some \<lparr>enc_key = key, enc_sent = 0, enc_received = 0, enc_mode = mode'\<rparr>"
    using assms(4,5)
    by (auto simp: framed_into_split_def framed_set_key_with_mode_def framed_from_def encrypt_with_mode_def
        codec_new_def)
  from send_messages_frames [OF assms(1,3) w] assms(6,7)
  have result: "result = Inr ()"
    and enc: "encode_frames False (seal_frames B key mode 0 ms) [] = Inr (concat pieces)"
    and fits: "list_all (frame_fits codec_new) (seal_frames B key mode 0 ms)" by simp_all
  have "read_chunks codec_new [] pieces = (seal_frames B key mode 0 ms, codec_new, [], None)"
    using framing_delivers [OF fits enc] .
  then show ?thesis
    using result open_seal_frames [OF assms(1,2)] by (simp add: receive_pieces_def r')
qed

text \<open>A secretbox that only prepends an empty authenticator.\<close>

definition plain_box :: "unit secretbox" where
  "plain_box = \<lparr>sb_seal = (\<lambda>m n k. replicate 16 0 @ m), sb_open = (\<lambda>c n k. Some (drop 16 c))\<rparr>"

lemma plain_box_ok: "secretbox_ok plain_box"
  by (simp add: secretbox_ok_def plain_box_def MACBYTES_def)

theorem secure_stream_end_to_end_witness:
  "secretbox_ok plain_box \<and> peer_modes (Directional Viewer) (Directional Host) \<and>
   receive_pieces plain_box (fst (framed_into_split (framed_set_key_with_mode framed_from () (Directional Host))))
     (fst (snd (send_messages plain_box
        (snd (framed_into_split (framed_set_key_with_mode framed_from () (Directional Viewer)))) [[1, 2], []]))) =
   [Inr [1, 2], Inr []]"
proof -
  let ?v = "framed_into_split (framed_set_key_with_mode framed_from () (Directional Viewer))"
  let ?h = "framed_into_split (framed_set_key_with_mode framed_from () (Directional Host))"
  obtain w2 out result where send: "send_messages plain_box (snd ?v) [[1, 2], []] = (w2, out, result)"
    by (rule prod_cases3)
  have size: "list_all (\<lambda>m. length m + MACBYTES \<le> DEFAULT_MAX_PACKET_LENGTH) [[1, 2], [] :: bytes]"
    by (simp add: MACBYTES_def DEFAULT_MAX_PACKET_LENGTH_def)
  have modes: "peer_modes (Directional Viewer) (Directional Host)" by simp
  from secure_stream_end_to_end [OF plain_box_ok modes size _ _ send refl, of "()" "fst ?v" "fst ?h" "snd ?h"]
  show ?thesis using plain_box_ok send by simp
qed

section \<open>Against an attacker\<close>

text \<open>The nonces and messages an end has sealed, in order.\<close>

definition sealed_by :: "session_role \<Rightarrow> bytes list \<Rightarrow> (bytes \<times> bytes) set" where
  "sealed_by role ms = {(mode_nonce (Directional role) (of_nat (i + 1)) True, ms ! i) | i. i < length ms}"

text \<open>Nobody else can make a box that opens: what opens was sealed by one of the two ends.\<close>

definition unforgeable :: "'k secretbox \<Rightarrow> 'k \<Rightarrow> (session_role \<Rightarrow> bytes list) \<Rightarrow> bool" where
  "unforgeable B key sent \<longleftrightarrow>
     (\<forall>c n m. sb_open B c n key = Some m \<longrightarrow> (n, m) \<in> sealed_by Viewer (sent Viewer) \<union> sealed_by Host (sent Host))"

fun accepted_messages :: "(decrypt_error + bytes) list \<Rightarrow> bytes list" where
  "accepted_messages [] = []"
| "accepted_messages (Inl e # rs) = accepted_messages rs"
| "accepted_messages (Inr m # rs) = m # accepted_messages rs"

lemma opened_is_next:
  assumes unf: "unforgeable B key sent" and small: "\<forall>r. length (sent r) < 2 ^ 64" "i + 1 < 2 ^ 64"
    and opened: "sb_open B frame (mode_nonce (Directional role) (of_nat (i + 1)) False) key = Some m"
  shows "i < length (sent (other_role role)) \<and> m = sent (other_role role) ! i"
proof -
  from unf opened obtain r j where j: "j < length (sent r)" "m = sent r ! j"
    and n: "mode_nonce (Directional role) (of_nat (i + 1)) False = mode_nonce (Directional r) (of_nat (j + 1)) True"
    unfolding unforgeable_def sealed_by_def by fastforce
  from n have "(of_nat (i + 1) :: u64) = of_nat (j + 1)" "nonce_tag role False = nonce_tag r True"
    unfolding directional_nonce_inject by simp_all
  moreover have "j + 1 < 2 ^ 64"
    using j(1) spec [OF small(1), of r] by linarith
  ultimately have "i = j" "r = other_role role"
    using small(2) by (auto simp: word_of_nat_eq_iff take_bit_nat_eq_self nonce_tag_def NONCE_TAG_VIEWER_TO_HOST_def
        NONCE_TAG_HOST_TO_VIEWER_def simp del: of_nat_Suc split: if_splits) (cases role; cases r; simp)+
  with j show ?thesis by simp
qed

lemma open_frames_prefix:
  assumes unf: "unforgeable B key sent" and small: "\<forall>r. length (sent r) < 2 ^ 64"
  shows "i + length frames < 2 ^ 64 \<Longrightarrow>
    (let acc = accepted_messages (open_frames B
           (Some \<lparr>enc_key = key, enc_sent = s, enc_received = of_nat i, enc_mode = Directional role\<rparr>) frames) in
     acc = take (length acc) (drop i (sent (other_role role))))"
proof (induction frames arbitrary: i)
  case Nil
  then show ?case by simp
next
  case (Cons frame frames)
  let ?d = "\<lambda>i. Some \<lparr>enc_key = key, enc_sent = s, enc_received = of_nat i, enc_mode = Directional role\<rparr>"
  let ?open = "sb_open B frame (mode_nonce (Directional role) (of_nat (i + 1)) False) key"
  show ?case
  proof (cases "length frame < MACBYTES")
    case True
    then show ?thesis by (simp add: read_half_open_def encrypt_dec_def)
  next
    case long: False
    then have step: "read_half_open B (?d i) frame =
        (?d (i + 1), case ?open of Some m \<Rightarrow> Inr m | None \<Rightarrow> Inl DecryptionError)"
      by (simp add: read_half_open_def encrypt_dec_def MACBYTES_def Let_def add.commute)
    show ?thesis
    proof (cases ?open)
      case None
      then show ?thesis by (simp add: step)
    next
      case (Some m)
      have "i < length (sent (other_role role))" "m = sent (other_role role) ! i"
        using opened_is_next [OF unf small _ Some] Cons.prems by simp_all
      then have "drop i (sent (other_role role)) = m # drop (i + 1) (sent (other_role role))"
        by (simp add: Cons_nth_drop_Suc)
      with Cons.IH [of "i + 1"] Cons.prems Some show ?thesis by (simp add: step Let_def)
    qed
  qed
qed

text \<open>
  Property C17: with directional nonces the channel is authentic. Whatever frames an attacker
  feeds to one end, under a secretbox that opens only what one of the ends has sealed, the
  messages accepted before the first error are the first messages the other end sent, in
  order: nothing is replayed, reordered, skipped, forged or reflected from the end's own output.
\<close>

theorem directional_channel_authentic:
  assumes "unforgeable B key sent" and "\<forall>r. length (sent r) < 2 ^ 64" and "length frames < 2 ^ 64"
  shows "let acc = accepted_messages (open_frames B (Some (encrypt_with_mode key (Directional role))) frames) in
    acc = take (length acc) (sent (other_role role))"
  using open_frames_prefix [OF assms(1,2), of 0 frames 0 role] assms(3) by (simp add: encrypt_with_mode_def)

text \<open>The viewer has sent one message; a replay of its frame is refused.\<close>

definition one_frame_box :: "unit secretbox" where
  "one_frame_box = \<lparr>sb_seal = (\<lambda>m n k. replicate 16 0),
     sb_open = (\<lambda>c n k. if n = mode_nonce (Directional Viewer) 1 True \<and> c = replicate 16 0 then Some [7] else None)\<rparr>"

definition one_message :: "session_role \<Rightarrow> bytes list" where
  "one_message role = (case role of Viewer \<Rightarrow> [[7]] | Host \<Rightarrow> [])"

theorem directional_channel_authentic_witness:
  "unforgeable one_frame_box () one_message \<and>
   accepted_messages (open_frames one_frame_box (Some (encrypt_with_mode () (Directional Host)))
     [replicate 16 0, replicate 16 0]) = [[7]]"
proof -
  have u: "unforgeable one_frame_box () one_message"
    by (auto simp: unforgeable_def one_frame_box_def one_message_def sealed_by_def split: if_splits)
  have l: "\<forall>r. length (one_message r) < 2 ^ 64"
    by (simp add: one_message_def split: session_role.splits)
  let ?acc = "accepted_messages (open_frames one_frame_box (Some (encrypt_with_mode () (Directional Host)))
     [replicate 16 0, replicate 16 0])"
  have "?acc = take (length ?acc) (one_message (other_role Host))"
    using directional_channel_authentic [OF u l, of "[replicate 16 0, replicate 16 0]" Host] by (simp add: Let_def)
  moreover have "mode_nonce (Directional Host) 1 False = mode_nonce (Directional Viewer) 1 True"
    by (simp add: directional_nonce_inject nonce_tag_def)
  then have "?acc \<noteq> []"
    by (simp add: one_frame_box_def encrypt_with_mode_def read_half_open_def encrypt_dec_def MACBYTES_def)
  ultimately have "?acc = [[7]]" by (cases ?acc) (auto simp: one_message_def)
  with u show ?thesis by simp
qed

end
