(* ===== verification/Outbound_Queue.thy ===== *)
theory Outbound_Queue
  imports Ordered_Map "HOL-Library.Product_Lexorder"
begin

text \<open>
  The queue before the writer task of a stream (\<open>src/stream.rs\<close>): reliable messages, snapshots of
  which only the latest matters, and encoded video, in one order, with barriers that snapshots
  do not cross.

  \<open>latest\<close> is a \<open>HashMap\<close>; the order in which \<open>fail_pending\<close> drains it is not specified, and here
  it is the order of the keys. A completion channel is the number that names it.
\<close>

section \<open>Data\<close>

record outbound_message =
  om_bytes :: bytes
  om_kind :: string
  om_encrypt :: bool
  om_completion :: "nat option"

datatype outbound_entry =
  ReliableEntry outbound_message
| LatestEntry "u64 \<times> u64"
| VideoEntry "i32 \<times> u64" outbound_message

definition MAX_PENDING_VIDEO_TRACKS :: usize where "MAX_PENDING_VIDEO_TRACKS = 16"
definition MAX_QUEUED_FRAME_BYTES :: usize where "MAX_QUEUED_FRAME_BYTES = 16 * 1024 * 1024"
definition MAX_QUEUED_VIDEO_BYTES :: usize where "MAX_QUEUED_VIDEO_BYTES = 64 * 1024 * 1024"

record outbound_state =
  os_entries :: "outbound_entry list"
  os_latest :: "(u64 \<times> u64, outbound_message) btree_map"
  os_latest_generation :: u64
  os_capacity :: usize
  os_closed :: bool
  os_latest_replacements :: u64
  os_rejected_messages :: u64

datatype outbound_error = WriterClosed | OutboxFull | ObsoleteVideoStream | VideoBudgetExceeded

section \<open>Operations\<close>

definition outbound_new :: "usize \<Rightarrow> outbound_state" where
  "outbound_new capacity =
     \<lparr>os_entries = [], os_latest = [], os_latest_generation = 0, os_capacity = max capacity 1,
      os_closed = False, os_latest_replacements = 0, os_rejected_messages = 0\<rparr>"

definition reject :: "outbound_state \<Rightarrow> outbound_error \<Rightarrow> outbound_state \<times> (outbound_error + unit)" where
  "reject st e = (st\<lparr>os_rejected_messages := sat_add (os_rejected_messages st) 1\<rparr>, Inl e)"

definition push_entry :: "outbound_state \<Rightarrow> outbound_entry \<Rightarrow> outbound_state" where
  "push_entry st e = st\<lparr>os_entries := os_entries st @ [e]\<rparr>"

definition outbound_enqueue ::
    "outbound_state \<Rightarrow> outbound_message \<Rightarrow> outbound_state \<times> (outbound_error + unit)" where
  "outbound_enqueue st message =
     (if os_closed st then reject st WriterClosed
      else if length (os_entries st) \<ge> os_capacity st then reject st OutboxFull
      else (push_entry st (ReliableEntry message), Inr ()))"

definition enqueue_barrier ::
    "outbound_state \<Rightarrow> outbound_message \<Rightarrow> outbound_state \<times> (outbound_error + unit)" where
  "enqueue_barrier st message =
     (if os_closed st then reject st WriterClosed
      else if length (os_entries st) \<ge> os_capacity st then reject st OutboxFull
      else (push_entry (st\<lparr>os_latest_generation := os_latest_generation st + 1\<rparr>) (ReliableEntry message),
            Inr ()))"

definition enqueue_latest ::
    "outbound_state \<Rightarrow> u64 \<Rightarrow> outbound_message \<Rightarrow> outbound_state \<times> (outbound_error + unit)" where
  "enqueue_latest st key message =
     (if os_closed st then reject st WriterClosed
      else
        (let generation_key = (key, os_latest_generation st) in
         if bm_contains (os_latest st) generation_key then
           (st\<lparr>os_latest := bm_insert generation_key message (os_latest st),
               os_latest_replacements := sat_add (os_latest_replacements st) 1\<rparr>, Inr ())
         else if length (os_entries st) \<ge> os_capacity st then reject st OutboxFull
         else (push_entry (st\<lparr>os_latest := bm_insert generation_key message (os_latest st)\<rparr>)
                 (LatestEntry generation_key), Inr ())))"

text \<open>The pending video: its keys, and its size.\<close>

fun video_entries :: "outbound_entry list \<Rightarrow> ((i32 \<times> u64) \<times> outbound_message) list" where
  "video_entries [] = []"
| "video_entries (VideoEntry key m # es) = (key, m) # video_entries es"
| "video_entries (ReliableEntry m # es) = video_entries es"
| "video_entries (LatestEntry key # es) = video_entries es"

definition video_bytes :: "outbound_entry list \<Rightarrow> usize" where
  "video_bytes es = sum_list (map (\<lambda>e. length (om_bytes (snd e))) (video_entries es))"

fun newer_stream :: "i32 \<Rightarrow> u64 \<Rightarrow> outbound_entry \<Rightarrow> bool" where
  "newer_stream display key (VideoEntry (d, stream) m) \<longleftrightarrow> d = display \<and> stream > key"
| "newer_stream display key e \<longleftrightarrow> False"

fun older_stream :: "i32 \<Rightarrow> u64 \<Rightarrow> outbound_entry \<Rightarrow> bool" where
  "older_stream display key (VideoEntry (d, stream) m) \<longleftrightarrow> d = display \<and> stream < key"
| "older_stream display key e \<longleftrightarrow> False"

definition enqueue_video ::
    "outbound_state \<Rightarrow> i32 \<Rightarrow> u64 \<Rightarrow> outbound_message \<Rightarrow> outbound_state \<times> (outbound_error + unit)" where
  "enqueue_video st0 display key message =
     (if os_closed st0 then reject st0 WriterClosed
      else if list_ex (newer_stream display key) (os_entries st0) then reject st0 ObsoleteVideoStream
      else
        (let st = st0\<lparr>os_entries := filter (\<lambda>e. \<not> older_stream display key e) (os_entries st0)\<rparr>;
             video = video_entries (os_entries st) in
         if (display, key) \<in> fst ` set video
            \<or> length video \<ge> MAX_PENDING_VIDEO_TRACKS
            \<or> length (om_bytes message) > MAX_QUEUED_FRAME_BYTES
            \<or> usize_sat_add (length (om_bytes message)) (video_bytes (os_entries st)) > MAX_QUEUED_VIDEO_BYTES
            \<or> length (os_entries st) \<ge> os_capacity st - 1
         then reject st VideoBudgetExceeded
         else (push_entry st (VideoEntry (display, key) message), Inr ())))"

text \<open>One pass of \<open>dequeue\<close> under the lock.\<close>

datatype dequeued = Dequeued outbound_message | DequeueEnded | DequeueWaits

fun pop_entries ::
    "outbound_entry list \<Rightarrow> (u64 \<times> u64, outbound_message) btree_map \<Rightarrow>
     outbound_entry list \<times> (u64 \<times> u64, outbound_message) btree_map \<times> outbound_message option" where
  "pop_entries [] latest = ([], latest, None)"
| "pop_entries (ReliableEntry m # es) latest = (es, latest, Some m)"
| "pop_entries (VideoEntry key m # es) latest = (es, latest, Some m)"
| "pop_entries (LatestEntry key # es) latest =
     (case bm_get latest key of
        Some m \<Rightarrow> (es, bm_remove key latest, Some m)
      | None \<Rightarrow> pop_entries es latest)"

definition outbound_dequeue :: "outbound_state \<Rightarrow> outbound_state \<times> dequeued" where
  "outbound_dequeue st =
     (case pop_entries (os_entries st) (os_latest st) of
        (es, latest, r) \<Rightarrow>
          (st\<lparr>os_entries := es, os_latest := latest\<rparr>,
           (case r of
              Some m \<Rightarrow> Dequeued m
            | None \<Rightarrow> if os_closed st then DequeueEnded else DequeueWaits)))"

definition outbound_close :: "outbound_state \<Rightarrow> outbound_state" where
  "outbound_close st = st\<lparr>os_closed := True\<rparr>"

definition outbound_len :: "outbound_state \<Rightarrow> usize" where
  "outbound_len st = length (os_entries st)"

definition outbound_counters :: "outbound_state \<Rightarrow> u64 \<times> u64" where
  "outbound_counters st = (os_latest_replacements st, os_rejected_messages st)"

text \<open>\<open>fail_pending\<close> returns the completions it fails.\<close>

fun entry_messages :: "outbound_entry list \<Rightarrow> outbound_message list" where
  "entry_messages [] = []"
| "entry_messages (ReliableEntry m # es) = m # entry_messages es"
| "entry_messages (VideoEntry key m # es) = m # entry_messages es"
| "entry_messages (LatestEntry key # es) = entry_messages es"

definition fail_pending :: "outbound_state \<Rightarrow> outbound_state \<times> nat list" where
  "fail_pending st =
     (st\<lparr>os_closed := True, os_entries := [], os_latest := []\<rparr>,
      List.map_filter om_completion (entry_messages (os_entries st) @ map snd (os_latest st)))"

end
