(* ===== verification/Outbound_Queue_Properties.thy ===== *)
theory Outbound_Queue_Properties
  imports Outbound_Queue
begin

text \<open>
  The queue loses and reorders no reliable message, whatever snapshots and video are mixed in,
  and stays within its limits; a snapshot entry always has its value.
\<close>

section \<open>Invariant\<close>

fun latest_keys :: "outbound_entry list \<Rightarrow> (u64 \<times> u64) list" where
  "latest_keys [] = []"
| "latest_keys (LatestEntry key # es) = key # latest_keys es"
| "latest_keys (ReliableEntry m # es) = latest_keys es"
| "latest_keys (VideoEntry key m # es) = latest_keys es"

fun reliable_messages :: "outbound_entry list \<Rightarrow> outbound_message list" where
  "reliable_messages [] = []"
| "reliable_messages (ReliableEntry m # es) = m # reliable_messages es"
| "reliable_messages (LatestEntry key # es) = reliable_messages es"
| "reliable_messages (VideoEntry key m # es) = reliable_messages es"

lemma entry_lists_append [simp]:
  "latest_keys (es @ es') = latest_keys es @ latest_keys es'"
  "reliable_messages (es @ es') = reliable_messages es @ reliable_messages es'"
  "video_entries (es @ es') = video_entries es @ video_entries es'"
  by (induction es rule: latest_keys.induct) simp_all

lemma entry_lists_drop_older:
  "latest_keys (filter (\<lambda>e. \<not> older_stream d k e) es) = latest_keys es"
  "reliable_messages (filter (\<lambda>e. \<not> older_stream d k e) es) = reliable_messages es"
  "video_entries (filter (\<lambda>e. \<not> older_stream d k e) es) =
     filter (\<lambda>v. \<not> (fst (fst v) = d \<and> snd (fst v) < k)) (video_entries es)"
  by (induction es rule: latest_keys.induct) (auto split: prod.splits)

definition latest_inv :: "outbound_entry list \<Rightarrow> (u64 \<times> u64, outbound_message) btree_map \<Rightarrow> bool" where
  "latest_inv es latest \<longleftrightarrow> bm_ok latest \<and> distinct (latest_keys es) \<and> set (latest_keys es) = fst ` set latest"

text \<open>At most one frame for each display, within the budgets.\<close>

definition video_inv :: "outbound_entry list \<Rightarrow> bool" where
  "video_inv es \<longleftrightarrow> distinct (map (fst \<circ> fst) (video_entries es)) \<and>
     length (video_entries es) \<le> MAX_PENDING_VIDEO_TRACKS \<and> video_bytes es \<le> MAX_QUEUED_VIDEO_BYTES"

definition outbound_inv :: "outbound_state \<Rightarrow> bool" where
  "outbound_inv st \<longleftrightarrow> latest_inv (os_entries st) (os_latest st) \<and> video_inv (os_entries st) \<and>
     length (os_entries st) \<le> os_capacity st"

lemma outbound_new_inv: "outbound_inv (outbound_new n)"
  by (simp add: outbound_inv_def outbound_new_def latest_inv_def video_inv_def video_bytes_def)

lemma reject_simps [simp]:
  "os_entries (fst (reject st e)) = os_entries st" "os_latest (fst (reject st e)) = os_latest st"
  "os_capacity (fst (reject st e)) = os_capacity st" "snd (reject st e) = Inl e"
  by (simp_all add: reject_def)

lemma push_entry_simps [simp]:
  "os_entries (push_entry st e) = os_entries st @ [e]" "os_latest (push_entry st e) = os_latest st"
  "os_capacity (push_entry st e) = os_capacity st"
  by (simp_all add: push_entry_def)

lemma outbound_inv_reject: "outbound_inv (fst (reject st e)) = outbound_inv st"
  by (simp add: outbound_inv_def)

lemma outbound_inv_push_reliable:
  assumes "outbound_inv st" and "length (os_entries st) < os_capacity st"
    and "os_entries st' = os_entries st @ [ReliableEntry m]" "os_latest st' = os_latest st"
      "os_capacity st' = os_capacity st"
  shows "outbound_inv st'"
  using assms by (simp add: outbound_inv_def latest_inv_def video_inv_def video_bytes_def)

lemma enqueue_latest_inv:
  assumes "outbound_inv st"
  shows "outbound_inv (fst (enqueue_latest st key message))"
proof -
  let ?k = "(key, os_latest_generation st)"
  have ok: "bm_ok (os_latest st)" using assms by (simp add: outbound_inv_def latest_inv_def)
  show ?thesis
    using assms ok
    by (auto simp: enqueue_latest_def Let_def outbound_inv_reject)
      (auto simp: outbound_inv_def latest_inv_def video_inv_def video_bytes_def bm_contains_iff insert_absorb)
qed

lemma video_inv_filter:
  assumes "video_inv es"
  shows "video_inv (filter (\<lambda>e. \<not> older_stream d k e) es)"
proof -
  let ?v = "filter (\<lambda>v. \<not> (fst (fst v) = d \<and> snd (fst v) < k)) (video_entries es)"
  have "sum_list (map (\<lambda>e. length (om_bytes (snd e))) ?v) \<le>
      sum_list (map (\<lambda>e. length (om_bytes (snd e))) (video_entries es))"
    by (rule sum_list_filter_le_nat)
  with assms show ?thesis
    by (auto simp: video_inv_def video_bytes_def entry_lists_drop_older distinct_map_filter
        intro: order_trans [OF length_filter_le])
qed

lemma video_entry_mem: "((d, s), m) \<in> set (video_entries es) \<longleftrightarrow> VideoEntry (d, s) m \<in> set es"
  by (induction es rule: video_entries.induct) auto

lemma enqueue_video_inv:
  assumes inv: "outbound_inv st"
  shows "outbound_inv (fst (enqueue_video st display key message))"
proof -
  let ?es = "filter (\<lambda>e. \<not> older_stream display key e) (os_entries st)"
  let ?st = "st\<lparr>os_entries := ?es\<rparr>"
  have "length ?es \<le> length (os_entries st)" by (rule length_filter_le)
  then have inv1: "outbound_inv ?st"
    using inv video_inv_filter [of "os_entries st" display key]
    by (auto simp: outbound_inv_def latest_inv_def entry_lists_drop_older intro: order_trans [OF length_filter_le])
  have fresh: "display \<notin> fst ` fst ` set (video_entries ?es)"
    if newer: "\<not> list_ex (newer_stream display key) (os_entries st)"
      and occ: "(display, key) \<notin> fst ` set (video_entries ?es)"
  proof
    assume "display \<in> fst ` fst ` set (video_entries ?es)"
    then obtain s m where mem: "((display, s), m) \<in> set (video_entries ?es)" by auto
    then have "VideoEntry (display, s) m \<in> set (os_entries st)" "\<not> s < key"
      by (auto simp: video_entry_mem)
    with newer have "s = key" by (force simp: list_ex_iff)
    with mem occ show False by force
  qed
  show ?thesis
    using inv inv1 fresh
    by (auto simp: enqueue_video_def Let_def outbound_inv_reject)
      (auto simp: outbound_inv_def latest_inv_def video_inv_def video_bytes_def usize_sat_add_def usize_max_def
        MAX_QUEUED_VIDEO_BYTES_def min_def split: if_splits)
qed

lemma pop_entries_head:
  assumes "latest_inv es latest"
  shows "pop_entries es latest =
    (case es of
       [] \<Rightarrow> ([], latest, None)
     | ReliableEntry m # es' \<Rightarrow> (es', latest, Some m)
     | VideoEntry key m # es' \<Rightarrow> (es', latest, Some m)
     | LatestEntry key # es' \<Rightarrow> (es', bm_remove key latest, bm_get latest key)) \<and>
    (case es of LatestEntry key # es' \<Rightarrow> bm_get latest key \<noteq> None | _ \<Rightarrow> True)"
proof (cases es)
  case Nil
  then show ?thesis by simp
next
  case (Cons e es')
  show ?thesis
  proof (cases e)
    case (LatestEntry key)
    with Cons assms have "key \<in> fst ` set latest" by (auto simp: latest_inv_def)
    then obtain m where "bm_get latest key = Some m" by (metis bm_contains_iff bm_contains_def not_None_eq)
    then show ?thesis by (simp add: Cons LatestEntry)
  qed (simp_all add: Cons)
qed

lemma dequeue_inv:
  assumes inv: "outbound_inv st"
  shows "outbound_inv (fst (outbound_dequeue st))"
proof -
  have l: "latest_inv (os_entries st) (os_latest st)" using inv by (simp add: outbound_inv_def)
  show ?thesis
    using inv pop_entries_head [OF l]
    by (auto simp: outbound_dequeue_def outbound_inv_def latest_inv_def video_inv_def video_bytes_def fst_set_bm_remove
        split: list.splits outbound_entry.splits)
qed

section \<open>Runs\<close>

datatype queue_op =
  QEnqueue outbound_message
| QBarrier outbound_message
| QLatest u64 outbound_message
| QVideo i32 u64 outbound_message
| QDequeue
| QClose

fun queue_step :: "outbound_state \<Rightarrow> queue_op \<Rightarrow> outbound_state" where
  "queue_step st (QEnqueue m) = fst (outbound_enqueue st m)"
| "queue_step st (QBarrier m) = fst (enqueue_barrier st m)"
| "queue_step st (QLatest key m) = fst (enqueue_latest st key m)"
| "queue_step st (QVideo display key m) = fst (enqueue_video st display key m)"
| "queue_step st QDequeue = fst (outbound_dequeue st)"
| "queue_step st QClose = outbound_close st"

text \<open>The reliable messages a step accepts, and the messages it hands to the writer.\<close>

fun queue_accepts :: "outbound_state \<Rightarrow> queue_op \<Rightarrow> outbound_message list" where
  "queue_accepts st (QEnqueue m) = (case snd (outbound_enqueue st m) of Inl _ \<Rightarrow> [] | Inr _ \<Rightarrow> [m])"
| "queue_accepts st (QBarrier m) = (case snd (enqueue_barrier st m) of Inl _ \<Rightarrow> [] | Inr _ \<Rightarrow> [m])"
| "queue_accepts st op = []"

fun queue_delivers :: "outbound_state \<Rightarrow> queue_op \<Rightarrow> outbound_message list" where
  "queue_delivers st QDequeue = (case snd (outbound_dequeue st) of Dequeued m \<Rightarrow> [m] | _ \<Rightarrow> [])"
| "queue_delivers st op = []"

fun queue_run :: "(outbound_state \<Rightarrow> queue_op \<Rightarrow> outbound_message list) \<Rightarrow> outbound_state \<Rightarrow> queue_op list \<Rightarrow>
    outbound_message list" where
  "queue_run obs st [] = []"
| "queue_run obs st (op # ops) = obs st op @ queue_run obs (queue_step st op) ops"

text \<open>Reliable messages are those that satisfy \<open>P\<close>.\<close>

fun op_tagged :: "(outbound_message \<Rightarrow> bool) \<Rightarrow> queue_op \<Rightarrow> bool" where
  "op_tagged P (QEnqueue m) \<longleftrightarrow> P m"
| "op_tagged P (QBarrier m) \<longleftrightarrow> P m"
| "op_tagged P (QLatest key m) \<longleftrightarrow> \<not> P m"
| "op_tagged P (QVideo display key m) \<longleftrightarrow> \<not> P m"
| "op_tagged P op \<longleftrightarrow> True"

fun entry_tagged :: "(outbound_message \<Rightarrow> bool) \<Rightarrow> outbound_entry \<Rightarrow> bool" where
  "entry_tagged P (ReliableEntry m) \<longleftrightarrow> P m"
| "entry_tagged P (VideoEntry key m) \<longleftrightarrow> \<not> P m"
| "entry_tagged P (LatestEntry key) \<longleftrightarrow> True"

definition state_tagged :: "(outbound_message \<Rightarrow> bool) \<Rightarrow> outbound_state \<Rightarrow> bool" where
  "state_tagged P st \<longleftrightarrow> (\<forall>e \<in> set (os_entries st). entry_tagged P e) \<and> (\<forall>m \<in> snd ` set (os_latest st). \<not> P m)"

lemma outbound_close_simps [simp]:
  "os_entries (outbound_close st) = os_entries st" "os_latest (outbound_close st) = os_latest st"
  "os_capacity (outbound_close st) = os_capacity st"
  by (simp_all add: outbound_close_def)

lemma outbound_step_inv:
  assumes "outbound_inv st"
  shows "outbound_inv (queue_step st op)"
proof (cases op)
  case (QEnqueue m)
  show ?thesis
    using assms outbound_inv_push_reliable [of st "push_entry st (ReliableEntry m)" m]
    by (simp add: QEnqueue outbound_enqueue_def outbound_inv_reject)
next
  case (QBarrier m)
  show ?thesis
    using assms outbound_inv_push_reliable [of st _ m]
    by (simp add: QBarrier enqueue_barrier_def outbound_inv_reject)
qed (use assms in \<open>simp_all add: enqueue_latest_inv enqueue_video_inv dequeue_inv, simp add: outbound_inv_def\<close>)

lemma queue_step_capacity: "os_capacity (queue_step st op) = os_capacity st"
  by (cases op) (auto simp: outbound_enqueue_def enqueue_barrier_def enqueue_latest_def enqueue_video_def
      outbound_dequeue_def Let_def split: prod.splits)

interpretation outbound: step_invariant queue_step "\<lambda>st. outbound_inv st \<and> os_capacity st = n" for n
  by unfold_locales (simp add: outbound_step_inv queue_step_capacity)

lemma latest_step_fifo:
  assumes inv: "outbound_inv st" and tag: "state_tagged P st" "\<not> P m"
  shows "state_tagged P (fst (enqueue_latest st key m)) \<and>
    reliable_messages (os_entries (fst (enqueue_latest st key m))) = reliable_messages (os_entries st)"
proof -
  have "bm_ok (os_latest st)" using inv by (simp add: outbound_inv_def latest_inv_def)
  note set = set_bm_insert [OF this]
  from tag show ?thesis
    by (auto simp: enqueue_latest_def Let_def state_tagged_def set)
qed

lemma video_step_fifo:
  assumes tag: "state_tagged P st" "\<not> P m"
  shows "state_tagged P (fst (enqueue_video st display key m)) \<and>
    reliable_messages (os_entries (fst (enqueue_video st display key m))) = reliable_messages (os_entries st)"
  using tag by (auto simp: enqueue_video_def Let_def state_tagged_def entry_lists_drop_older)

lemma dequeue_step_fifo:
  assumes inv: "outbound_inv st" and tag: "state_tagged P st"
  shows "state_tagged P (fst (outbound_dequeue st)) \<and>
    reliable_messages (os_entries st) =
      filter P (queue_delivers st QDequeue) @ reliable_messages (os_entries (fst (outbound_dequeue st)))"
proof -
  have l: "latest_inv (os_entries st) (os_latest st)" using inv by (simp add: outbound_inv_def)
  have val: "bm_get (os_latest st) key = Some v \<Longrightarrow> \<not> P v" for key v
    using tag bm_get_mem [of "os_latest st" key v] by (force simp: state_tagged_def)
  show ?thesis
  proof (cases "os_entries st")
    case Nil
    then show ?thesis using tag by (simp add: outbound_dequeue_def state_tagged_def)
  next
    case (Cons e es)
    show ?thesis
    proof (cases e)
      case (LatestEntry key)
      with pop_entries_head [OF l] Cons obtain v where v: "bm_get (os_latest st) key = Some v" by auto
      show ?thesis
        using tag val [OF v]
        by (auto simp: outbound_dequeue_def state_tagged_def v Cons LatestEntry set_bm_remove)
    qed (use tag in \<open>auto simp: outbound_dequeue_def state_tagged_def Cons\<close>)
  qed
qed

lemma queue_step_fifo:
  assumes inv: "outbound_inv st" and tag: "state_tagged P st" "op_tagged P op"
  shows "state_tagged P (queue_step st op) \<and>
    reliable_messages (os_entries st) @ queue_accepts st op =
      filter P (queue_delivers st op) @ reliable_messages (os_entries (queue_step st op))"
proof (cases op)
  case (QEnqueue m)
  with tag show ?thesis by (auto simp: outbound_enqueue_def state_tagged_def)
next
  case (QBarrier m)
  with tag show ?thesis by (auto simp: enqueue_barrier_def state_tagged_def)
next
  case (QLatest key m)
  with latest_step_fifo [OF inv tag(1), of m key] tag(2) show ?thesis by simp
next
  case (QVideo display key m)
  with video_step_fifo [OF tag(1), of m display key] tag(2) show ?thesis by simp
next
  case QDequeue
  with dequeue_step_fifo [OF inv tag(1)] show ?thesis by simp
next
  case QClose
  with tag show ?thesis by (simp add: state_tagged_def)
qed

lemma queue_run_fifo:
  "outbound_inv st \<Longrightarrow> state_tagged P st \<Longrightarrow> list_all (op_tagged P) ops \<Longrightarrow>
   reliable_messages (os_entries st) @ queue_run queue_accepts st ops =
     filter P (queue_run queue_delivers st ops) @ reliable_messages (os_entries (foldl queue_step st ops))"
proof (induction ops arbitrary: st)
  case Nil
  then show ?case by simp
next
  case (Cons op ops)
  from queue_step_fifo [OF Cons.prems(1,2), of op] Cons.prems(3)
  have tag: "state_tagged P (queue_step st op)"
    and eq: "reliable_messages (os_entries st) @ queue_accepts st op =
      filter P (queue_delivers st op) @ reliable_messages (os_entries (queue_step st op))" by auto
  from Cons.IH [OF outbound_step_inv [OF Cons.prems(1)] tag] Cons.prems(3)
  have "filter P (queue_delivers st op) @ reliable_messages (os_entries (queue_step st op)) @
      queue_run queue_accepts (queue_step st op) ops =
    filter P (queue_delivers st op) @ filter P (queue_run queue_delivers (queue_step st op) ops) @
      reliable_messages (os_entries (foldl queue_step (queue_step st op) ops))" by simp
  then show ?case using eq by (metis append.assoc filter_append foldl_Cons queue_run.simps(2))
qed

text \<open>
  Property C34: the writer gets every reliable message, once and in order. In every run of the
  queue before it fails what is pending, with reliable messages told apart from snapshots and video by \<open>P\<close>, the reliable
  messages accepted are those delivered so far followed by those still queued, and the queue
  keeps its capacity, one frame for each display and its video budget.
\<close>

theorem outbound_reliable_fifo:
  assumes "list_all (op_tagged P) ops"
  shows "let st = foldl queue_step (outbound_new capacity) ops in
    queue_run queue_accepts (outbound_new capacity) ops =
      filter P (queue_run queue_delivers (outbound_new capacity) ops) @ reliable_messages (os_entries st) \<and>
    outbound_len st \<le> max capacity 1 \<and>
    distinct (map (fst \<circ> fst) (video_entries (os_entries st))) \<and>
    length (video_entries (os_entries st)) \<le> 16 \<and> video_bytes (os_entries st) \<le> 64 * 1024 * 1024"
proof -
  define st where "st = foldl queue_step (outbound_new capacity) ops"
  have new: "outbound_inv (outbound_new capacity) \<and> os_capacity (outbound_new capacity) = max capacity 1"
    by (simp add: outbound_new_inv) (simp add: outbound_new_def)
  have "outbound_inv st \<and> os_capacity st = max capacity 1"
    unfolding st_def using new by (rule outbound.run_preserves)
  moreover have "state_tagged P (outbound_new capacity)" "os_entries (outbound_new capacity) = []"
    by (simp_all add: state_tagged_def outbound_new_def)
  ultimately show ?thesis
    using queue_run_fifo [OF outbound_new_inv _ assms, of capacity]
    by (simp add: st_def [symmetric] Let_def outbound_inv_def video_inv_def outbound_len_def
        MAX_PENDING_VIDEO_TRACKS_def MAX_QUEUED_VIDEO_BYTES_def)
qed

definition sample_message :: "nat \<Rightarrow> string \<Rightarrow> outbound_message" where
  "sample_message n kind = \<lparr>om_bytes = replicate n 0, om_kind = kind, om_encrypt = True, om_completion = None\<rparr>"

definition is_reliable :: "outbound_message \<Rightarrow> bool" where
  "is_reliable m \<longleftrightarrow> om_kind m = ''reliable''"

theorem outbound_reliable_fifo_witness:
  "let ops = [QEnqueue (sample_message 1 ''reliable''), QLatest 7 (sample_message 2 ''mouse''),
       QBarrier (sample_message 3 ''reliable''), QDequeue, QDequeue] in
   list_all (op_tagged is_reliable) ops \<and>
   queue_run queue_delivers (outbound_new 8) ops = [sample_message 1 ''reliable'', sample_message 2 ''mouse''] \<and>
   queue_run queue_accepts (outbound_new 8) ops = [sample_message 1 ''reliable'', sample_message 3 ''reliable'']"
proof -
  let ?ops = "[QEnqueue (sample_message 1 ''reliable''), QLatest 7 (sample_message 2 ''mouse''),
       QBarrier (sample_message 3 ''reliable''), QDequeue, QDequeue]"
  have tags: "list_all (op_tagged is_reliable) ?ops"
    by (simp add: is_reliable_def sample_message_def)
  have d: "queue_run queue_delivers (outbound_new 8) ?ops = [sample_message 1 ''reliable'', sample_message 2 ''mouse'']"
    "reliable_messages (os_entries (foldl queue_step (outbound_new 8) ?ops)) = [sample_message 3 ''reliable'']"
    by (simp_all add: outbound_new_def outbound_enqueue_def enqueue_latest_def enqueue_barrier_def push_entry_def
        outbound_dequeue_def bm_contains_def bm_remove_def Let_def)
  have "is_reliable (sample_message 1 ''reliable'')" "\<not> is_reliable (sample_message 2 ''mouse'')"
    by (simp_all add: is_reliable_def sample_message_def)
  with outbound_reliable_fifo [OF tags, of 8] tags d show ?thesis by (simp only: Let_def) simp
qed

end
