(* ===== verification/Datagram_Endpoint.thy ===== *)
theory Datagram_Endpoint
  imports Video_Datagram Audio_Datagram Input_Events
begin

text \<open>
  The two ends of the QUIC datagram path, \<open>transport/datagram.rs\<close>: the sender with its shared
  coordinator (admission of video frames against the send buffer, sequence numbers, counters,
  the window of frame sizes) and the receiver that hands a datagram to the video reassembler,
  the audio buffer or the mouse receiver.

  The QUIC connection is a parameter of each call, a \<open>datagram_link\<close>: what \<open>quinn\<close> answers
  for the largest datagram, the free space of the send buffer, the congestion window, the
  round-trip time, and whether it takes a datagram after those it took before in the same
  call. A call of the sender returns, beside its result, the datagrams the connection took.
  The clock is a parameter as well. The coordinator is shared between senders; the code takes
  its lock for the whole admission, so a call is one step on it. An error message is
  represented by its cause.
\<close>

section \<open>Constants\<close>

definition DEFAULT_INTERACTIVE_DATAGRAM_RESERVE_BYTES :: usize where
  "DEFAULT_INTERACTIVE_DATAGRAM_RESERVE_BYTES = 64 * 1024"
definition MIN_VIDEO_DATAGRAM_QUEUE_BYTES :: usize where
  "MIN_VIDEO_DATAGRAM_QUEUE_BYTES = 192 * 1024"
definition DEFAULT_VIDEO_DATAGRAM_QUEUE_TARGET :: duration where
  "DEFAULT_VIDEO_DATAGRAM_QUEUE_TARGET = from_millis 120"
definition VIDEO_FRAME_SIZE_WINDOW :: usize where
  "VIDEO_FRAME_SIZE_WINDOW = 512"
definition VIDEO_FRAME_PERCENTILE_PUBLISH_INTERVAL :: duration where
  "VIDEO_FRAME_PERCENTILE_PUBLISH_INTERVAL = from_millis 500"
definition VIDEO_FRAME_SIZE_WINDOW_IDLE_RESET :: duration where
  "VIDEO_FRAME_SIZE_WINDOW_IDLE_RESET = from_secs 2"

section \<open>The window of frame sizes\<close>

record frame_size_sample =
  ss_datagram_bytes :: u32
  ss_required_bytes :: u32

definition frame_size_sample_default :: frame_size_sample where
  "frame_size_sample_default = \<lparr>ss_datagram_bytes = 0, ss_required_bytes = 0\<rparr>"

record frame_size_window =
  sw_samples :: "frame_size_sample list"
  sw_len :: usize
  sw_next :: usize
  sw_last_published_at :: instant
  sw_last_recorded_at :: "instant option"

definition frame_size_window_new :: "instant \<Rightarrow> frame_size_window" where
  "frame_size_window_new now =
     \<lparr>sw_samples = replicate VIDEO_FRAME_SIZE_WINDOW frame_size_sample_default, sw_len = 0,
      sw_next = 0, sw_last_published_at = now, sw_last_recorded_at = None\<rparr>"

definition window_record ::
    "frame_size_window \<Rightarrow> instant \<Rightarrow> usize \<Rightarrow> usize \<Rightarrow> frame_size_window" where
  "window_record w now datagram_bytes required_bytes =
     (let w1 = (if (case sw_last_recorded_at w of None \<Rightarrow> False
                    | Some earlier \<Rightarrow> saturating_duration_since now earlier
                                     \<ge> VIDEO_FRAME_SIZE_WINDOW_IDLE_RESET)
                then w\<lparr>sw_len := 0, sw_next := 0\<rparr> else w);
          sample = \<lparr>ss_datagram_bytes = word_of_usize_sat datagram_bytes,
                    ss_required_bytes = word_of_usize_sat required_bytes\<rparr> in
      w1\<lparr>sw_last_recorded_at := Some now,
         sw_samples := (sw_samples w1)[sw_next w1 := sample],
         sw_next := (sw_next w1 + 1) mod VIDEO_FRAME_SIZE_WINDOW,
         sw_len := min (usize_sat_add (sw_len w1) 1) VIDEO_FRAME_SIZE_WINDOW\<rparr>)"

definition nearest_rank_index :: "usize \<Rightarrow> usize \<Rightarrow> usize" where
  "nearest_rank_index len percentile =
     min (usize_sat_add (min (len * percentile) usize_max) 99 div 100 - 1) (len - 1)"

definition window_percentiles :: "frame_size_window \<Rightarrow> u64 \<times> u64 \<times> u64 \<times> u64" where
  "window_percentiles w =
     (if sw_len w = 0 then (0, 0, 0, 0)
      else
        (let datagram = sort (map ss_datagram_bytes (take (sw_len w) (sw_samples w)));
             required = sort (map ss_required_bytes (take (sw_len w) (sw_samples w)));
             p95 = nearest_rank_index (sw_len w) 95;
             p99 = nearest_rank_index (sw_len w) 99 in
         (ucast (datagram ! p95), ucast (datagram ! p99),
          ucast (required ! p95), ucast (required ! p99))))"

section \<open>Counters and the coordinator\<close>

record send_counters =
  ct_video_frames_sent :: u64
  ct_video_frames_rejected :: u64
  ct_video_datagrams_sent :: u64
  ct_video_frame_bytes :: u64
  ct_video_frame_bytes_peak :: u64
  ct_video_frame_fragments :: u64
  ct_video_frame_fragments_peak :: u64
  ct_video_frame_datagram_bytes_p95 :: u64
  ct_video_frame_datagram_bytes_p99 :: u64
  ct_video_frame_required_bytes_p95 :: u64
  ct_video_frame_required_bytes_p99 :: u64
  ct_send_buffer_space :: u64
  ct_send_buffer_space_min :: u64
  ct_send_buffer_capacity :: u64
  ct_send_buffer_queued :: u64
  ct_video_queue_budget :: u64
  ct_video_queue_delay_us :: u64
  ct_audio_packets_dropped :: u64
  ct_mouse_updates_dropped :: u64

definition send_counters_default :: send_counters where
  "send_counters_default =
     \<lparr>ct_video_frames_sent = 0, ct_video_frames_rejected = 0, ct_video_datagrams_sent = 0,
      ct_video_frame_bytes = 0, ct_video_frame_bytes_peak = 0, ct_video_frame_fragments = 0,
      ct_video_frame_fragments_peak = 0, ct_video_frame_datagram_bytes_p95 = 0,
      ct_video_frame_datagram_bytes_p99 = 0, ct_video_frame_required_bytes_p95 = 0,
      ct_video_frame_required_bytes_p99 = 0, ct_send_buffer_space = 0,
      ct_send_buffer_space_min = 0, ct_send_buffer_capacity = 0, ct_send_buffer_queued = 0,
      ct_video_queue_budget = 0, ct_video_queue_delay_us = 0, ct_audio_packets_dropped = 0,
      ct_mouse_updates_dropped = 0\<rparr>"

definition publish_if_due ::
    "frame_size_window \<Rightarrow> instant \<Rightarrow> send_counters \<Rightarrow> frame_size_window \<times> send_counters" where
  "publish_if_due w now counters =
     (if saturating_duration_since now (sw_last_published_at w)
         < VIDEO_FRAME_PERCENTILE_PUBLISH_INTERVAL then (w, counters)
      else
        (case window_percentiles w of (datagram_p95, datagram_p99, required_p95, required_p99) \<Rightarrow>
           (w\<lparr>sw_last_published_at := now\<rparr>,
            counters\<lparr>ct_video_frame_datagram_bytes_p95 := datagram_p95,
                     ct_video_frame_datagram_bytes_p99 := datagram_p99,
                     ct_video_frame_required_bytes_p95 := required_p95,
                     ct_video_frame_required_bytes_p99 := required_p99\<rparr>)))"

definition record_delta_frame_size ::
    "frame_size_window \<Rightarrow> video_frame_metadata \<Rightarrow> instant \<Rightarrow> usize \<Rightarrow> usize
     \<Rightarrow> bool \<times> frame_size_window" where
  "record_delta_frame_size w metadata now datagram_bytes required_bytes =
     (if vm_flags metadata AND FLAG_KEYFRAME \<noteq> 0 then (False, w)
      else (True, window_record w now datagram_bytes required_bytes))"

record send_coordinator =
  co_interactive_reserve_bytes :: usize
  co_video_queue_target_us :: u64
  co_min_video_queue_bytes :: u64
  co_counters :: send_counters

definition coordinator_new :: "usize \<Rightarrow> usize \<Rightarrow> send_coordinator" where
  "coordinator_new interactive_reserve_bytes send_buffer_capacity =
     \<lparr>co_interactive_reserve_bytes = interactive_reserve_bytes,
      co_video_queue_target_us =
        word_of_usize_sat (as_micros DEFAULT_VIDEO_DATAGRAM_QUEUE_TARGET),
      co_min_video_queue_bytes = of_nat MIN_VIDEO_DATAGRAM_QUEUE_BYTES,
      co_counters = send_counters_default
        \<lparr>ct_send_buffer_space_min := - 1,
         ct_send_buffer_capacity := word_of_usize_sat send_buffer_capacity\<rparr>\<rparr>"

record send_stats =
  sd_video_frames_sent :: u64
  sd_video_frames_rejected :: u64
  sd_video_datagrams_sent :: u64
  sd_video_frame_bytes :: u64
  sd_video_frame_bytes_peak :: u64
  sd_video_frame_fragments :: u64
  sd_video_frame_fragments_peak :: u64
  sd_video_frame_datagram_bytes_p95 :: u64
  sd_video_frame_datagram_bytes_p99 :: u64
  sd_video_frame_required_bytes_p95 :: u64
  sd_video_frame_required_bytes_p99 :: u64
  sd_send_buffer_space :: u64
  sd_send_buffer_space_min :: u64
  sd_send_buffer_queued :: u64
  sd_video_queue_budget :: u64
  sd_video_queue_delay_us :: u64
  sd_video_queue_target_us :: u64
  sd_audio_packets_dropped :: u64
  sd_mouse_updates_dropped :: u64

definition coordinator_stats :: "send_coordinator \<Rightarrow> send_stats" where
  "coordinator_stats c =
     (let n = co_counters c in
      \<lparr>sd_video_frames_sent = ct_video_frames_sent n,
       sd_video_frames_rejected = ct_video_frames_rejected n,
       sd_video_datagrams_sent = ct_video_datagrams_sent n,
       sd_video_frame_bytes = ct_video_frame_bytes n,
       sd_video_frame_bytes_peak = ct_video_frame_bytes_peak n,
       sd_video_frame_fragments = ct_video_frame_fragments n,
       sd_video_frame_fragments_peak = ct_video_frame_fragments_peak n,
       sd_video_frame_datagram_bytes_p95 = ct_video_frame_datagram_bytes_p95 n,
       sd_video_frame_datagram_bytes_p99 = ct_video_frame_datagram_bytes_p99 n,
       sd_video_frame_required_bytes_p95 = ct_video_frame_required_bytes_p95 n,
       sd_video_frame_required_bytes_p99 = ct_video_frame_required_bytes_p99 n,
       sd_send_buffer_space = ct_send_buffer_space n,
       sd_send_buffer_space_min =
         (if ct_send_buffer_space_min n = - 1 then 0 else ct_send_buffer_space_min n),
       sd_send_buffer_queued = ct_send_buffer_queued n,
       sd_video_queue_budget = ct_video_queue_budget n,
       sd_video_queue_delay_us = ct_video_queue_delay_us n,
       sd_video_queue_target_us = co_video_queue_target_us c,
       sd_audio_packets_dropped = ct_audio_packets_dropped n,
       sd_mouse_updates_dropped = ct_mouse_updates_dropped n\<rparr>)"

definition set_video_queue_policy ::
    "send_coordinator \<Rightarrow> duration \<Rightarrow> usize \<Rightarrow> send_coordinator" where
  "set_video_queue_policy c target minimum_bytes =
     c\<lparr>co_video_queue_target_us := word_of_usize_sat (max 1 (as_micros target)),
       co_min_video_queue_bytes := word_of_usize_sat minimum_bytes\<rparr>"

definition record_space ::
    "send_coordinator \<Rightarrow> usize \<Rightarrow> send_coordinator \<times> usize \<times> usize" where
  "record_space c available_bytes =
     (let available = word_of_usize_sat available_bytes :: u64;
          n = co_counters c;
          capacity = max (ct_send_buffer_capacity n) available;
          queued = sat_sub capacity available in
      (c\<lparr>co_counters := n
           \<lparr>ct_send_buffer_space := available,
            ct_send_buffer_space_min := min (ct_send_buffer_space_min n) available,
            ct_send_buffer_capacity := capacity,
            ct_send_buffer_queued := queued\<rparr>\<rparr>,
       unat queued, unat capacity))"

section \<open>Admission of a video frame\<close>

datatype admission_failure =
    InteractiveReserve | VideoQueueBudget | InteractiveReserveAndVideoQueueBudget

definition video_frame_admission_failure ::
    "usize \<Rightarrow> usize \<Rightarrow> usize \<Rightarrow> usize \<Rightarrow> usize \<Rightarrow> admission_failure option" where
  "video_frame_admission_failure datagram_bytes available_bytes interactive_reserve_bytes
     queued_bytes video_queue_budget =
     (let preserves_interactive_reserve =
            (datagram_bytes + interactive_reserve_bytes \<le> usize_max \<and>
             datagram_bytes + interactive_reserve_bytes \<le> available_bytes);
          stays_within_video_queue = (queued_bytes \<le> video_queue_budget) in
      case (preserves_interactive_reserve, stays_within_video_queue) of
        (True, True) \<Rightarrow> None
      | (False, True) \<Rightarrow> Some InteractiveReserve
      | (True, False) \<Rightarrow> Some VideoQueueBudget
      | (False, False) \<Rightarrow> Some InteractiveReserveAndVideoQueueBudget)"

definition u128_max :: nat where
  "u128_max = 2 ^ 128 - 1"

definition video_datagram_queue_delay_us :: "usize \<Rightarrow> u64 \<Rightarrow> duration \<Rightarrow> u64" where
  "video_datagram_queue_delay_us queued_bytes congestion_window_bytes rtt =
     (if queued_bytes = 0 \<or> congestion_window_bytes = 0 then 0
      else word_of_usize_sat
             (min (queued_bytes * as_micros rtt) u128_max div unat congestion_window_bytes))"

definition video_datagram_queue_budget ::
    "u64 \<Rightarrow> duration \<Rightarrow> usize \<Rightarrow> usize \<Rightarrow> duration \<Rightarrow> usize \<Rightarrow> usize" where
  "video_datagram_queue_budget congestion_window_bytes rtt send_buffer_capacity
     interactive_reserve_bytes target_latency minimum_video_queue_bytes =
     (let rtt_us = max (as_micros rtt) 5000;
          target_us = max (as_micros target_latency) 1;
          latency_budget = min (unat congestion_window_bytes * target_us) u128_max div rtt_us;
          preferred_budget = max (min latency_budget usize_max) minimum_video_queue_bytes in
      min preferred_budget (send_buffer_capacity - interactive_reserve_bytes))"

section \<open>The sender\<close>

text \<open>Causes of the \<open>QuicTransportError\<close> values this part of the code makes.\<close>

datatype datagram_cause =
    VideoCause video_error
  | AudioCause audio_error
  | InputCause input_error
  | ConnectionCause string
  | DatagramUnsupported

datatype quic_state_error =
    VideoSequenceExhausted | AudioSequenceExhausted | MouseSequenceExhausted
  | DatagramTooLong usize usize
  | TruncatedDatagram
  | SessionChanged
  | InvalidOnDatagram message_type

datatype quic_transport_error =
    DatagramFailure datagram_cause
  | ProtocolState quic_state_error
  | ProtocolFailure protocol_error

record datagram_link =
  ln_max_datagram_size :: "usize option"
  ln_send_buffer_space :: usize
  ln_cwnd :: u64
  ln_rtt :: duration
  ln_send_datagram :: "bytes list \<Rightarrow> bytes \<Rightarrow> string option"

record datagram_sender =
  ds_session_id :: session_id
  ds_next_video_sequence :: u64
  ds_next_audio_sequence :: u64
  ds_next_mouse_sequence :: u64
  ds_started :: instant
  ds_video_frame_sizes :: frame_size_window
  ds_negotiated_max_datagram_size :: usize

datatype video_send_outcome =
    Sent usize
  | RejectedNoSpace admission_failure usize usize usize usize usize u64 u64 u64 u64 u64

definition datagram_sender_new ::
    "datagram_link \<Rightarrow> session_id \<Rightarrow> instant \<Rightarrow> send_coordinator \<times> datagram_sender" where
  "datagram_sender_new link session_id now =
     (coordinator_new DEFAULT_INTERACTIVE_DATAGRAM_RESERVE_BYTES (ln_send_buffer_space link),
      \<lparr>ds_session_id = session_id, ds_next_video_sequence = 1, ds_next_audio_sequence = 1,
       ds_next_mouse_sequence = 1, ds_started = now,
       ds_video_frame_sizes = frame_size_window_new now,
       ds_negotiated_max_datagram_size = usize_max\<rparr>)"

definition sender_with_max_datagram_size :: "datagram_sender \<Rightarrow> usize \<Rightarrow> datagram_sender" where
  "sender_with_max_datagram_size s max_datagram_size =
     s\<lparr>ds_negotiated_max_datagram_size := max_datagram_size\<rparr>"

definition elapsed_us :: "instant \<Rightarrow> instant \<Rightarrow> u64" where
  "elapsed_us started now = word_of_usize_sat (as_micros (saturating_duration_since now started))"

definition max_datagram_size ::
    "datagram_link \<Rightarrow> datagram_sender \<Rightarrow> quic_transport_error + usize" where
  "max_datagram_size link s =
     ok_or (map_option (\<lambda>current. min current (ds_negotiated_max_datagram_size s))
              (ln_max_datagram_size link))
       (DatagramFailure DatagramUnsupported)"

text \<open>The loop over the fragments: it stops at the first one the connection refuses.\<close>

fun send_all ::
    "datagram_link \<Rightarrow> bytes list \<Rightarrow> bytes list \<Rightarrow> bytes list \<times> (quic_transport_error + unit)" where
  "send_all link sent [] = (sent, Inr ())"
| "send_all link sent (d # ds) =
     (case ln_send_datagram link sent d of
        Some message \<Rightarrow> (sent, Inl (DatagramFailure (ConnectionCause message)))
      | None \<Rightarrow> send_all link (sent @ [d]) ds)"

definition note_video_frame :: "send_counters \<Rightarrow> u64 \<Rightarrow> u64 \<Rightarrow> send_counters" where
  "note_video_frame n frame_bytes fragment_count =
     n\<lparr>ct_video_frame_bytes := frame_bytes,
       ct_video_frame_bytes_peak := max (ct_video_frame_bytes_peak n) frame_bytes,
       ct_video_frame_fragments := fragment_count,
       ct_video_frame_fragments_peak := max (ct_video_frame_fragments_peak n) fragment_count\<rparr>"

definition fragments_bytes :: "bytes list \<Rightarrow> usize" where
  "fragments_bytes fragments = foldl (\<lambda>total f. usize_sat_add total (length f)) 0 fragments"

definition transmit_video_frame ::
    "datagram_link \<Rightarrow> send_coordinator \<Rightarrow> datagram_sender \<Rightarrow> bytes list
     \<Rightarrow> send_coordinator \<times> datagram_sender \<times> bytes list
        \<times> (quic_transport_error + video_send_outcome)" where
  "transmit_video_frame link c s fragments =
     (let fragment_count = word_of_usize_sat (length fragments) in
      case checked_add (ds_next_video_sequence s) fragment_count of
        None \<Rightarrow> (c, s, [], Inl (ProtocolState VideoSequenceExhausted))
      | Some next_video_sequence \<Rightarrow>
          (case send_all link [] fragments of
             (sent, Inl e) \<Rightarrow> (c, s, sent, Inl e)
           | (sent, Inr _) \<Rightarrow>
               (c\<lparr>co_counters := (co_counters c)
                    \<lparr>ct_video_frames_sent := ct_video_frames_sent (co_counters c) + 1,
                     ct_video_datagrams_sent :=
                       ct_video_datagrams_sent (co_counters c) + fragment_count\<rparr>\<rparr>,
                s\<lparr>ds_next_video_sequence := next_video_sequence\<rparr>,
                sent, Inr (Sent (length fragments)))))"

definition admit_video_frame ::
    "datagram_link \<Rightarrow> send_coordinator \<Rightarrow> datagram_sender \<Rightarrow> instant \<Rightarrow> video_frame_metadata
     \<Rightarrow> bytes list \<Rightarrow> send_coordinator \<times> datagram_sender \<times> bytes list
        \<times> (quic_transport_error + video_send_outcome)" where
  "admit_video_frame link c0 s now metadata fragments =
     (let datagram_bytes = fragments_bytes fragments;
          available_bytes = ln_send_buffer_space link;
          (c1, queued_bytes, send_buffer_capacity) = record_space c0 available_bytes;
          video_queue_budget = video_datagram_queue_budget (ln_cwnd link) (ln_rtt link)
            send_buffer_capacity (co_interactive_reserve_bytes c1)
            (1000 * unat (co_video_queue_target_us c1)) (unat (co_min_video_queue_bytes c1));
          queue_delay_us =
            video_datagram_queue_delay_us queued_bytes (ln_cwnd link) (ln_rtt link);
          n1 = (co_counters c1)\<lparr>ct_video_queue_budget := word_of_usize_sat video_queue_budget,
                                ct_video_queue_delay_us := queue_delay_us\<rparr>;
          (recorded, w1) = record_delta_frame_size (ds_video_frame_sizes s) metadata now
            datagram_bytes (usize_sat_add queued_bytes datagram_bytes);
          (w2, n2) = (if recorded then publish_if_due w1 now n1 else (w1, n1));
          s1 = s\<lparr>ds_video_frame_sizes := w2\<rparr> in
      case video_frame_admission_failure datagram_bytes available_bytes
             (co_interactive_reserve_bytes c1) queued_bytes video_queue_budget of
        Some failure \<Rightarrow>
          (let n3 = n2\<lparr>ct_video_frames_rejected := ct_video_frames_rejected n2 + 1\<rparr> in
           (c1\<lparr>co_counters := n3\<rparr>, s1, [],
            Inr (RejectedNoSpace failure datagram_bytes available_bytes queued_bytes
                   video_queue_budget (co_interactive_reserve_bytes c1) queue_delay_us
                   (ct_video_frame_datagram_bytes_p95 n3) (ct_video_frame_datagram_bytes_p99 n3)
                   (ct_video_frame_required_bytes_p95 n3) (ct_video_frame_required_bytes_p99 n3))))
      | None \<Rightarrow> transmit_video_frame link (c1\<lparr>co_counters := n2\<rparr>) s1 fragments)"

text \<open>\<open>clock\<close> is the time of the header's timestamp, \<open>now\<close> the time of the admission.\<close>

definition send_video_frame ::
    "datagram_link \<Rightarrow> send_coordinator \<Rightarrow> datagram_sender \<Rightarrow> instant \<Rightarrow> instant
     \<Rightarrow> video_frame_metadata \<Rightarrow> bytes \<Rightarrow> send_coordinator \<times> datagram_sender \<times> bytes list
        \<times> (quic_transport_error + video_send_outcome)" where
  "send_video_frame link c s clock now metadata encoded_frame =
     (case max_datagram_size link s of
        Inl e \<Rightarrow> (c, s, [], Inl e)
      | Inr max_size \<Rightarrow>
        (case fragment_video_frame (ds_session_id s) (ds_next_video_sequence s)
                (elapsed_us (ds_started s) clock) metadata encoded_frame max_size of
           Inl e \<Rightarrow> (c, s, [], Inl (DatagramFailure (VideoCause e)))
         | Inr fragments \<Rightarrow>
             admit_video_frame link
               (c\<lparr>co_counters := note_video_frame (co_counters c)
                    (word_of_usize_sat (length encoded_frame))
                    (word_of_usize_sat (length fragments))\<rparr>)
               s now metadata fragments))"

text \<open>The end of the three single-datagram calls: the sequence number is used up even when
  the datagram is dropped or refused.\<close>

definition transmit_single ::
    "datagram_link \<Rightarrow> send_coordinator \<Rightarrow> datagram_sender \<Rightarrow> (send_counters \<Rightarrow> send_counters)
     \<Rightarrow> u64 \<Rightarrow> bytes
     \<Rightarrow> send_coordinator \<times> datagram_sender \<times> bytes list \<times> (quic_transport_error + u64 option)" where
  "transmit_single link c s count_drop sequence datagram =
     (let available_bytes = ln_send_buffer_space link; c1 = fst (record_space c available_bytes) in
      if length datagram > available_bytes then
        (c1\<lparr>co_counters := count_drop (co_counters c1)\<rparr>, s, [], Inr None)
      else case send_all link [] [datagram] of
        (sent, Inl e) \<Rightarrow> (c1, s, sent, Inl e)
      | (sent, Inr _) \<Rightarrow> (c1, s, sent, Inr (Some sequence)))"

definition send_audio_packet ::
    "datagram_link \<Rightarrow> send_coordinator \<Rightarrow> datagram_sender \<Rightarrow> instant \<Rightarrow> u64 \<Rightarrow> audio_codec \<Rightarrow> u8
     \<Rightarrow> u32 \<Rightarrow> bytes
     \<Rightarrow> send_coordinator \<times> datagram_sender \<times> bytes list \<times> (quic_transport_error + u64 option)" where
  "send_audio_packet link c s clock capture_timestamp_us codec channels sample_rate_hz
     encoded_audio =
     (let sequence = ds_next_audio_sequence s in
      case max_datagram_size link s of
        Inl e \<Rightarrow> (c, s, [], Inl e)
      | Inr max_size \<Rightarrow>
        (case encode_audio_datagram (ds_session_id s) (elapsed_us (ds_started s) clock)
                \<lparr>am_sequence_number = sequence, am_capture_timestamp_us = capture_timestamp_us,
                 am_codec = codec, am_channels = channels, am_sample_rate_hz = sample_rate_hz\<rparr>
                encoded_audio max_size of
           Inl e \<Rightarrow> (c, s, [], Inl (DatagramFailure (AudioCause e)))
         | Inr datagram \<Rightarrow>
           (case checked_add sequence 1 of
              None \<Rightarrow> (c, s, [], Inl (ProtocolState AudioSequenceExhausted))
            | Some next_sequence \<Rightarrow>
                transmit_single link c (s\<lparr>ds_next_audio_sequence := next_sequence\<rparr>)
                  (ct_audio_packets_dropped_update (\<lambda>n. n + 1)) sequence datagram)))"

text \<open>\<open>send_mouse_movement\<close> and \<open>send_application_mouse_movement\<close> differ in the encoder only.\<close>

definition send_mouse_datagram ::
    "(mouse_movement \<Rightarrow> usize \<Rightarrow> input_error + bytes) \<Rightarrow> datagram_link \<Rightarrow> send_coordinator
     \<Rightarrow> datagram_sender \<Rightarrow> instant \<Rightarrow> mouse_movement_mode \<Rightarrow> i32 \<Rightarrow> i32 \<Rightarrow> u32 \<Rightarrow> u16
     \<Rightarrow> send_coordinator \<times> datagram_sender \<times> bytes list \<times> (quic_transport_error + u64 option)" where
  "send_mouse_datagram encode link c s clock mode x y display_id button_state_mask =
     (let sequence = ds_next_mouse_sequence s in
      case max_datagram_size link s of
        Inl e \<Rightarrow> (c, s, [], Inl e)
      | Inr max_size \<Rightarrow>
        (case encode
                \<lparr>mm_sequence_number = sequence,
                 mm_monotonic_timestamp_us = elapsed_us (ds_started s) clock, mm_mode = mode,
                 mm_x = x, mm_y = y, mm_display_id = display_id,
                 mm_button_state_mask = button_state_mask\<rparr> max_size of
           Inl e \<Rightarrow> (c, s, [], Inl (DatagramFailure (InputCause e)))
         | Inr datagram \<Rightarrow>
           (case checked_add sequence 1 of
              None \<Rightarrow> (c, s, [], Inl (ProtocolState MouseSequenceExhausted))
            | Some next_sequence \<Rightarrow>
                transmit_single link c (s\<lparr>ds_next_mouse_sequence := next_sequence\<rparr>)
                  (ct_mouse_updates_dropped_update (\<lambda>n. n + 1)) sequence datagram)))"

definition send_mouse_movement ::
    "datagram_link \<Rightarrow> send_coordinator \<Rightarrow> datagram_sender \<Rightarrow> instant \<Rightarrow> mouse_movement_mode
     \<Rightarrow> i32 \<Rightarrow> i32 \<Rightarrow> u32 \<Rightarrow> u16
     \<Rightarrow> send_coordinator \<times> datagram_sender \<times> bytes list \<times> (quic_transport_error + u64 option)" where
  "send_mouse_movement link c s = send_mouse_datagram (encode_mouse_movement (ds_session_id s)) link c s"

definition send_application_mouse_movement ::
    "datagram_link \<Rightarrow> send_coordinator \<Rightarrow> datagram_sender \<Rightarrow> instant \<Rightarrow> mouse_movement_mode
     \<Rightarrow> i32 \<Rightarrow> i32 \<Rightarrow> u32 \<Rightarrow> u16 \<Rightarrow> bytes
     \<Rightarrow> send_coordinator \<times> datagram_sender \<times> bytes list \<times> (quic_transport_error + u64 option)" where
  "send_application_mouse_movement link c s clock mode x y display_id button_state_mask
     application_payload =
     send_mouse_datagram
       (\<lambda>movement. encode_application_mouse_movement (ds_session_id s) movement application_payload)
       link c s clock mode x y display_id button_state_mask"

section \<open>The receiver\<close>

record datagram_receiver =
  dr_session_id :: session_id
  dr_video :: video_reassembler
  dr_audio :: audio_buffer
  dr_mouse :: mouse_movement_receiver
  dr_negotiated_max_datagram_size :: usize

datatype datagram_event =
    VideoEvent video_outcome
  | AudioAccepted
  | MouseEvent "mouse_movement option"
  | ApplicationMouseEvent "(mouse_movement \<times> bytes) option"

definition datagram_receiver_new ::
    "session_id \<Rightarrow> video_config \<Rightarrow> audio_jitter_config \<Rightarrow> quic_transport_error + datagram_receiver" where
  "datagram_receiver_new session_id video_config audio_config =
     (case video_reassembler_new video_config of
        Inl e \<Rightarrow> Inl (DatagramFailure (VideoCause e))
      | Inr video \<Rightarrow>
        (case audio_buffer_new audio_config of
           Inl e \<Rightarrow> Inl (DatagramFailure (AudioCause e))
         | Inr audio \<Rightarrow>
             Inr \<lparr>dr_session_id = session_id, dr_video = video, dr_audio = audio,
                  dr_mouse = mouse_receiver_new session_id,
                  dr_negotiated_max_datagram_size = usize_max\<rparr>))"

definition receiver_with_max_datagram_size ::
    "datagram_receiver \<Rightarrow> usize \<Rightarrow> datagram_receiver" where
  "receiver_with_max_datagram_size r max_size =
     r\<lparr>dr_negotiated_max_datagram_size := max_size\<rparr>"

text \<open>The dispatch on the message type, after the checks on length and session.\<close>

definition dispatch_datagram ::
    "datagram_receiver \<Rightarrow> message_header \<Rightarrow> bytes \<Rightarrow> instant
     \<Rightarrow> (datagram_receiver \<times> (quic_transport_error + datagram_event)) option" where
  "dispatch_datagram r header datagram now =
     (case mh_message_type header of
        VideoFragment \<Rightarrow>
          map_option (\<lambda>(video, result).
              (r\<lparr>dr_video := video\<rparr>,
               case result of Inl e \<Rightarrow> Inl (DatagramFailure (VideoCause e))
               | Inr outcome \<Rightarrow> Inr (VideoEvent outcome)))
            (video_push (dr_video r) datagram now)
      | AudioPacketMessage \<Rightarrow>
          (case audio_push_datagram (dr_audio r) datagram now of (audio, result) \<Rightarrow>
             Some (r\<lparr>dr_audio := audio\<rparr>,
                   case result of Inl e \<Rightarrow> Inl (DatagramFailure (AudioCause e))
                   | Inr _ \<Rightarrow> Inr AudioAccepted))
      | MouseMovementMessage \<Rightarrow>
          if unat (mh_payload_length header) = MOUSE_MOVEMENT_PAYLOAD_LEN then
            (case mouse_apply (dr_mouse r) datagram of (mouse, result) \<Rightarrow>
               Some (r\<lparr>dr_mouse := mouse\<rparr>,
                     case result of Inl e \<Rightarrow> Inl (DatagramFailure (InputCause e))
                     | Inr movement \<Rightarrow> Inr (MouseEvent movement)))
          else
            (case mouse_apply_application (dr_mouse r) datagram of (mouse, result) \<Rightarrow>
               Some (r\<lparr>dr_mouse := mouse\<rparr>,
                     case result of Inl e \<Rightarrow> Inl (DatagramFailure (InputCause e))
                     | Inr movement \<Rightarrow> Inr (ApplicationMouseEvent movement)))
      | message_type \<Rightarrow> Some (r, Inl (ProtocolState (InvalidOnDatagram message_type))))"

text \<open>\<open>incoming\<close> is what \<open>read_datagram\<close> of the connection returned.\<close>

definition receive_datagram ::
    "datagram_receiver \<Rightarrow> string + bytes \<Rightarrow> instant
     \<Rightarrow> (datagram_receiver \<times> (quic_transport_error + datagram_event)) option" where
  "receive_datagram r incoming now =
     (case incoming of
        Inl message \<Rightarrow> Some (r, Inl (DatagramFailure (ConnectionCause message)))
      | Inr datagram \<Rightarrow>
        if length datagram > dr_negotiated_max_datagram_size r then
          Some (r, Inl (ProtocolState
                 (DatagramTooLong (length datagram) (dr_negotiated_max_datagram_size r))))
        else if length datagram < HEADER_LEN then Some (r, Inl (ProtocolState TruncatedDatagram))
        else case decode_header (take HEADER_LEN datagram) of
          Inl e \<Rightarrow> Some (r, Inl (ProtocolFailure e))
        | Inr header \<Rightarrow>
          if mh_session_id header \<noteq> dr_session_id r then
            Some (r, Inl (ProtocolState SessionChanged))
          else dispatch_datagram r header datagram now)"

definition pop_audio ::
    "datagram_receiver \<Rightarrow> instant \<Rightarrow> datagram_receiver \<times> audio_playout_item option" where
  "pop_audio r now =
     (case pop_ready (dr_audio r) now of (audio, item) \<Rightarrow> (r\<lparr>dr_audio := audio\<rparr>, item))"

definition expire_video :: "datagram_receiver \<Rightarrow> instant \<Rightarrow> datagram_receiver \<times> video_outcome" where
  "expire_video r now =
     (case video_expire (dr_video r) now of (video, outcome) \<Rightarrow> (r\<lparr>dr_video := video\<rparr>, outcome))"

definition datagram_reset :: "datagram_receiver \<Rightarrow> datagram_receiver" where
  "datagram_reset r =
     r\<lparr>dr_video := video_reset (dr_video r), dr_audio := audio_reset (dr_audio r),
       dr_mouse := mouse_reset (dr_mouse r)\<rparr>"

end
