(* ===== verification/Video_Authenticity.thy ===== *)
theory Video_Authenticity
  imports Video_Delivery
begin

text \<open>
  What the reassembler delivers was sent. \<open>sent\<close> is a set of frames, each with its metadata
  and its pieces, no two of them with the same identifier. As long as only pieces of these
  frames arrive, in whatever order and however often, with losses, evictions and expiry in
  between, every pending frame holds pieces of one sent frame at their places, and every
  frame handed out is one of the sent frames, byte for byte.
\<close>

type_synonym cut_frame = "video_frame_metadata \<times> bytes list"

definition unambiguous :: "cut_frame set \<Rightarrow> bool" where
  "unambiguous sent \<longleftrightarrow> inj_on (vm_frame_id \<circ> fst) sent"

definition genuine :: "cut_frame set \<Rightarrow> u64 \<Rightarrow> pending_frame \<Rightarrow> bool" where
  "genuine sent k f \<longleftrightarrow>
     (\<exists>md ps. (md, ps) \<in> sent \<and> vm_frame_id md = k \<and> fh_metadata (pf_header f) = md \<and>
        length (pf_fragments f) = length ps \<and>
        (\<forall>i < length ps. pf_fragments f ! i = None \<or> pf_fragments f ! i = Some (ps ! i)))"

definition all_genuine :: "cut_frame set \<Rightarrow> video_reassembler \<Rightarrow> bool" where
  "all_genuine sent st \<longleftrightarrow> (\<forall>(k, f) \<in> set (vr_pending st). genuine sent k f)"

definition frame_sent :: "cut_frame set \<Rightarrow> video_error + video_outcome \<Rightarrow> bool" where
  "frame_sent sent r \<longleftrightarrow>
     (case delivered r of None \<Rightarrow> True
      | Some fr \<Rightarrow> \<exists>ps. (cf_metadata fr, ps) \<in> sent \<and> cf_payload fr = concat ps)"

lemma frame_sent_simps [simp]:
  "frame_sent sent (Inl e)" "vo_frame out = None \<Longrightarrow> frame_sent sent (Inr out)"
  by (simp_all add: frame_sent_def)

lemma all_genuine_drops: "only_drops st st' \<Longrightarrow> all_genuine sent st \<Longrightarrow> all_genuine sent st'"
  by (auto simp: only_drops_def all_genuine_def)

lemma all_genuine_get: "all_genuine sent st \<Longrightarrow> bm_get (vr_pending st) k = Some f \<Longrightarrow> genuine sent k f"
  by (auto simp: all_genuine_def dest: bm_get_mem)

lemma all_genuine_insert:
  "all_genuine sent st \<Longrightarrow> genuine sent k f \<Longrightarrow> vr_pending st' = bm_insert k f (vr_pending st) \<Longrightarrow>
     all_genuine sent st'"
  using set_bm_insert_subset [of k f "vr_pending st"] by (auto simp: all_genuine_def)

lemma all_genuine_removed:
  "all_genuine sent st \<Longrightarrow> vr_pending st' = bm_remove k (vr_pending st) \<Longrightarrow> all_genuine sent st'"
  by (auto simp: all_genuine_def set_bm_remove)

lemma those_eq_Some: "those xs = Some ys \<Longrightarrow> xs = map Some ys"
  by (induction xs arbitrary: ys) (auto split: option.splits)

lemma genuine_complete:
  assumes "genuine sent k f" and "those (pf_fragments f) = Some fragments"
  shows "(fh_metadata (pf_header f), fragments) \<in> sent"
proof -
  from assms(1) obtain ps where ps: "(fh_metadata (pf_header f), ps) \<in> sent"
    "length (pf_fragments f) = length ps"
    "\<forall>i < length ps. pf_fragments f ! i = None \<or> pf_fragments f ! i = Some (ps ! i)"
    by (auto simp: genuine_def)
  have "pf_fragments f = map Some fragments" by (rule those_eq_Some [OF assms(2)])
  with ps have "fragments = ps" by (auto intro!: nth_equalityI)
  with ps show ?thesis by simp
qed

lemma genuine_new:
  assumes "(md, ps) \<in> sent" and "fh_metadata h = md" and "fh_fragment_count h = length ps"
  shows "genuine sent (vm_frame_id md) (pending_frame_new h now)"
  unfolding genuine_def pending_frame_new_def
  using assms by (intro exI [of _ md] exI [of _ ps]) simp

lemma genuine_store:
  assumes "genuine sent k f" and "unambiguous sent" and "(md, ps) \<in> sent" and "vm_frame_id md = k"
  shows "genuine sent k (store_fragment f i (ps ! i) now)"
proof -
  from assms(1) obtain ps' where f: "(fh_metadata (pf_header f), ps') \<in> sent"
    "vm_frame_id (fh_metadata (pf_header f)) = k" "length (pf_fragments f) = length ps'"
    "\<forall>i < length ps'. pf_fragments f ! i = None \<or> pf_fragments f ! i = Some (ps' ! i)"
    by (auto simp: genuine_def)
  with assms have "(fh_metadata (pf_header f), ps') = (md, ps)"
    unfolding unambiguous_def by (intro inj_onD [of "vm_frame_id \<circ> fst" sent]) auto
  then have eq: "fh_metadata (pf_header f) = md" "ps' = ps" by auto
  have "(pf_fragments f)[i := Some (ps ! i)] ! j = None \<or>
      (pf_fragments f)[i := Some (ps ! i)] ! j = Some (ps ! j)" if "j < length ps" for j
    using that f(3,4) eq by (cases "i = j") auto
  with f eq assms(3,4) show ?thesis
    unfolding genuine_def store_fragment_def
    by (intro exI [of _ md] exI [of _ ps]) simp
qed

lemma deliver_frame_genuine:
  assumes "deliver_frame st h f outcome now = Some (st', r)" and "vo_frame outcome = None"
    and "all_genuine sent st" and "genuine sent (vm_frame_id (fh_metadata h)) f"
  shows "all_genuine sent st' \<and> frame_sent sent r"
proof -
  let ?k = "vm_frame_id (fh_metadata h)"
  have base: "all_genuine sent (without_frame st ?k f)"
    using assms(3) by (rule all_genuine_removed) (simp add: without_frame_def)
  show ?thesis
  proof (cases "vr_has_completed_keyframe st \<or> is_keyframe_flags (vm_flags (fh_metadata h))")
    case True
    with assms(1) obtain fragments where fs: "those (pf_fragments f) = Some fragments"
      by (auto simp: deliver_frame_def Let_def split: option.splits)
    have id: "vm_frame_id (fh_metadata (pf_header f)) = ?k" using assms(4) by (auto simp: genuine_def)
    from deliver_frame_delivered [OF True fs id, of outcome now] assms(1) obtain out where
      od: "only_drops ((without_frame st ?k f)\<lparr>vr_last_completed_frame_id := ?k,
                 vr_has_completed_keyframe := True\<rparr>) st'"
      and r: "r = Inr out"
        "vo_frame out = Some \<lparr>cf_metadata = fh_metadata (pf_header f), cf_payload = concat fragments\<rparr>"
      by auto
    have "all_genuine sent st'" using base by (intro all_genuine_drops [OF od]) (simp add: all_genuine_def)
    moreover have "frame_sent sent r"
      using r genuine_complete [OF assms(4) fs] by (auto simp: frame_sent_def)
    ultimately show ?thesis by simp
  next
    case False
    then obtain out where "only_drops (without_frame st ?k f) st'" and "r = Inr out"
      and "vo_frame out = vo_frame outcome"
      using deliver_frame_withheld [of st h f outcome now] assms(1) by auto
    with base assms(2) show ?thesis by (auto intro: all_genuine_drops)
  qed
qed

lemma settle_fragment_genuine:
  assumes "settle_fragment st h f outcome now = Some (st', r)" and "vo_frame outcome = None"
    and "all_genuine sent st" and "genuine sent (vm_frame_id (fh_metadata h)) f"
  shows "all_genuine sent st' \<and> frame_sent sent r"
proof -
  have "all_genuine sent (video_bump_malformed (drop_frame st k False))" for k
    using assms(3) by (rule all_genuine_removed) (simp add: drop_frame_pending)
  moreover have "all_genuine sent s" if "should_request_keyframe st now = (q, s)" for q s
    using should_request_keyframe_frame [OF that] assms(3) by (simp add: all_genuine_def)
  ultimately show ?thesis
    using assms(1,2) deliver_frame_genuine [OF _ assms(2-4)]
    by (auto simp: settle_fragment_def Let_def split: if_splits prod.splits)
qed

lemma accept_fragment_genuine:
  assumes "accept_fragment st h (ps ! fh_fragment_index h) outcome now = Some (st', r)"
    and "vo_frame outcome = None" and "all_genuine sent st"
    and "unambiguous sent" and "(fh_metadata h, ps) \<in> sent"
  shows "all_genuine sent st' \<and> frame_sent sent r"
proof -
  let ?k = "vm_frame_id (fh_metadata h)" and ?i = "fh_fragment_index h"
  from assms(1) obtain f where get: "bm_get (vr_pending st) ?k = Some f"
    by (auto simp: accept_fragment_def Let_def split: option.splits)
  let ?f' = "store_fragment f ?i (ps ! ?i) now"
  let ?st = "st\<lparr>vr_pending := bm_insert ?k ?f' (vr_pending st),
                vr_pending_bytes := vr_pending_bytes st + length (ps ! ?i)\<rparr>"
  have f': "genuine sent ?k ?f'"
    using genuine_store [OF all_genuine_get [OF assms(3) get] assms(4,5)] by simp
  have st: "all_genuine sent ?st" by (rule all_genuine_insert [OF assms(3) f']) simp
  have drop: "all_genuine sent (drop_frame st ?k False)"
    "all_genuine sent (video_bump_malformed (drop_frame st ?k False))"
    using all_genuine_removed [OF assms(3)] by (auto simp: drop_frame_pending)
  have same: "all_genuine sent (st\<lparr>vr_stats := x\<rparr>)" for x using assms(3) by (simp add: all_genuine_def)
  show ?thesis
    using assms(1,2) get drop same settle_fragment_genuine [OF _ assms(2) st f']
    by (auto simp: accept_fragment_def Let_def split: if_splits option.splits)
qed

lemma push_fragment_genuine:
  assumes "push_fragment st h (ps ! fh_fragment_index h) outcome now = Some (st', r)"
    and "vo_frame outcome = None" and "all_genuine sent st"
    and "unambiguous sent" and "(fh_metadata h, ps) \<in> sent" and "fh_fragment_count h = length ps"
  shows "all_genuine sent st' \<and> frame_sent sent r"
proof (cases "validate_fragment_header (vr_config st) h = Inr () \<and>
    vr_last_completed_frame_id st < vm_frame_id (fh_metadata h)")
  case False
  with assms(1-3) show ?thesis
    by (auto simp: push_fragment_def all_genuine_def split: sum.splits if_splits option.splits)
next
  case True
  with assms(1) obtain s out where e: "ensure_pending st h outcome now = Some (s, out)"
    and a: "accept_fragment s h (ps ! fh_fragment_index h) out now = Some (st', r)"
    by (auto simp: push_fragment_def not_le split: option.splits if_splits)
  have "all_genuine sent s \<and> vo_frame out = None"
  proof (cases "bm_contains (vr_pending st) (vm_frame_id (fh_metadata h))")
    case True
    with e assms show ?thesis by (simp add: ensure_pending_def)
  next
    case False
    with e obtain s1 where r: "make_room st outcome = Some (s1, out)"
      and s: "s = s1\<lparr>vr_pending := bm_insert (vm_frame_id (fh_metadata h))
                      (pending_frame_new h now) (vr_pending s1)\<rparr>"
      by (auto simp: ensure_pending_def split: option.splits)
    from make_room_props [OF r] assms(2,3) have "all_genuine sent s1" "vo_frame out = None"
      by (auto intro: all_genuine_drops)
    with s all_genuine_insert [OF _ genuine_new [OF assms(5) refl assms(6)]] show ?thesis by simp
  qed
  with accept_fragment_genuine [OF a _ _ assms(4,5)] show ?thesis by simp
qed

text \<open>A push of a datagram that carries a piece of a sent frame.\<close>

lemma video_push_genuine:
  assumes "video_push st d now = Some (st', r)" and "all_genuine sent st"
    and "unambiguous sent" and "(md, ps) \<in> sent"
    and "carries d \<lparr>fh_metadata = md, fh_fragment_index = i, fh_fragment_count = length ps,
           fh_frame_size = n\<rparr> (ps ! i)"
  shows "all_genuine sent st' \<and> frame_sent sent r"
proof -
  let ?h = "\<lparr>fh_metadata = md, fh_fragment_index = i, fh_fragment_count = length ps,
           fh_frame_size = n\<rparr>"
  obtain s out where x: "video_expire st now = (s, out)" by fastforce
  from assms(1,5) x have "push_fragment s ?h (ps ! i) out now = Some (st', r)"
    by (auto simp: video_push_def carries_def)
  with push_fragment_genuine [of s ?h ps out now st' r sent] assms
    all_genuine_drops [OF video_expire_only_drops [OF x] assms(2)] video_expire_outcome [OF x]
  show ?thesis by simp
qed

end
