(* ===== verification/Datagram_Properties.thy ===== *)
theory Datagram_Properties
  imports Datagram_Endpoint Video_Authenticity Audio_Playout Input_Properties "HOL-Library.Multiset"
begin

text \<open>
  Correctness of the datagram endpoints: the window of frame sizes reports exact nearest-rank
  percentiles of the recent frames, an admitted video frame leaves the interactive reserve
  free, and whatever the network does with the datagrams of a sender, its peer hands out only
  frames, audio packets and mouse movements that were sent.
\<close>

section \<open>The window of frame sizes\<close>

text \<open>The reference: all samples since the last idle gap, in order.\<close>

definition idle_gap :: "instant option \<Rightarrow> instant \<Rightarrow> bool" where
  "idle_gap earlier now \<longleftrightarrow>
     (case earlier of None \<Rightarrow> False | Some t \<Rightarrow> VIDEO_FRAME_SIZE_WINDOW_IDLE_RESET \<le> now - t)"

definition size_sample :: "usize \<Rightarrow> usize \<Rightarrow> frame_size_sample" where
  "size_sample d r = \<lparr>ss_datagram_bytes = word_of_usize_sat d, ss_required_bytes = word_of_usize_sat r\<rparr>"

fun samples_since ::
    "instant option \<Rightarrow> frame_size_sample list \<Rightarrow> (instant \<times> usize \<times> usize) list \<Rightarrow> frame_size_sample list" where
  "samples_since earlier acc [] = acc"
| "samples_since earlier acc ((now, d, r) # es) =
     samples_since (Some now) ((if idle_gap earlier now then [] else acc) @ [size_sample d r]) es"

definition recent :: "'a list \<Rightarrow> 'a list" where
  "recent xs = drop (length xs - VIDEO_FRAME_SIZE_WINDOW) xs"

definition record_all :: "frame_size_window \<Rightarrow> (instant \<times> usize \<times> usize) list \<Rightarrow> frame_size_window" where
  "record_all w es = foldl (\<lambda>w (now, d, r). window_record w now d r) w es"

text \<open>The ring holds the newest samples, the sample number \<open>j\<close> at \<open>j mod 512\<close>.\<close>

definition ring_of :: "frame_size_window \<Rightarrow> frame_size_sample list \<Rightarrow> bool" where
  "ring_of w ys \<longleftrightarrow>
     length (sw_samples w) = VIDEO_FRAME_SIZE_WINDOW \<and>
     sw_len w = min (length ys) VIDEO_FRAME_SIZE_WINDOW \<and>
     sw_next w = length ys mod VIDEO_FRAME_SIZE_WINDOW \<and>
     (\<forall>j < length ys. length ys \<le> j + VIDEO_FRAME_SIZE_WINDOW \<longrightarrow>
        sw_samples w ! (j mod VIDEO_FRAME_SIZE_WINDOW) = ys ! j)"

lemma ring_of_append:
  assumes "ring_of w ys"
  shows "ring_of (w\<lparr>sw_last_recorded_at := t, sw_samples := (sw_samples w)[sw_next w := x],
      sw_next := (sw_next w + 1) mod VIDEO_FRAME_SIZE_WINDOW,
      sw_len := min (usize_sat_add (sw_len w) 1) VIDEO_FRAME_SIZE_WINDOW\<rparr>) (ys @ [x])"
proof -
  let ?W = VIDEO_FRAME_SIZE_WINDOW
  have W: "0 < ?W" by (simp add: VIDEO_FRAME_SIZE_WINDOW_def)
  have "(sw_samples w)[length ys mod ?W := x] ! (j mod ?W) = (ys @ [x]) ! j"
    if "j < Suc (length ys)" "Suc (length ys) \<le> j + ?W" for j
  proof (cases "j = length ys")
    case True
    with assms W show ?thesis by (simp add: ring_of_def)
  next
    case False
    with that have j: "j < length ys" "length ys - j < ?W" by auto
    have "j mod ?W \<noteq> length ys mod ?W"
    proof
      assume "j mod ?W = length ys mod ?W"
      then have "?W dvd length ys - j" using j(1) by (metis less_imp_le mod_eq_dvd_iff_nat)
      with j show False by (auto dest: dvd_imp_le)
    qed
    with assms that j show ?thesis by (simp add: ring_of_def nth_append)
  qed
  moreover have "min (usize_sat_add (sw_len w) 1) ?W = min (Suc (length ys)) ?W"
    using assms by (auto simp: ring_of_def usize_sat_add_def usize_max_def VIDEO_FRAME_SIZE_WINDOW_def)
  ultimately show ?thesis using assms by (auto simp: ring_of_def mod_Suc_eq)
qed

lemma ring_of_record:
  assumes "ring_of w ys"
  shows "ring_of (window_record w now d r)
    ((if idle_gap (sw_last_recorded_at w) now then [] else ys) @ [size_sample d r])"
proof -
  have "ring_of (w\<lparr>sw_len := 0, sw_next := 0\<rparr>) []"
    using assms by (simp add: ring_of_def)
  from ring_of_append [OF this, where t = "Some now" and x = "size_sample d r"]
    ring_of_append [OF assms, where t = "Some now" and x = "size_sample d r"]
  show ?thesis
    by (cases "sw_last_recorded_at w")
      (auto simp: window_record_def Let_def idle_gap_def size_sample_def saturating_duration_since_def)
qed

lemma sw_last_recorded [simp]: "sw_last_recorded_at (window_record w now d r) = Some now"
  by (simp add: window_record_def Let_def)

lemma ring_of_all:
  "ring_of w ys \<Longrightarrow> ring_of (record_all w es) (samples_since (sw_last_recorded_at w) ys es)"
proof (induction es arbitrary: w ys)
  case Nil
  then show ?case by (simp add: record_all_def)
next
  case (Cons e es)
  obtain now d r where e: "e = (now, d, r)" by (cases e)
  from Cons.IH [OF ring_of_record [OF Cons.prems, of now d r]] show ?case
    by (simp add: record_all_def e)
qed

lemma mset_rotation: "mset (rotate n xs) = mset xs"
  by (simp add: rotate_drop_take) (metis append_take_drop_id mset_append union_commute)

lemma ring_contents:
  assumes "ring_of w ys"
  shows "mset (take (sw_len w) (sw_samples w)) = mset (recent ys)"
proof (cases "length ys < VIDEO_FRAME_SIZE_WINDOW")
  case True
  with assms have "take (sw_len w) (sw_samples w) = ys"
    by (intro nth_equalityI) (auto simp: ring_of_def)
  with True show ?thesis by (simp add: recent_def)
next
  case False
  let ?W = VIDEO_FRAME_SIZE_WINDOW and ?n = "length ys"
  have len: "length (sw_samples w) = ?W" using assms by (simp add: ring_of_def)
  have "rotate ?n (sw_samples w) = recent ys"
  proof (rule nth_equalityI)
    show "length (rotate ?n (sw_samples w)) = length (recent ys)" using len False by (simp add: recent_def)
    fix i assume "i < length (rotate ?n (sw_samples w))"
    then have i: "i < ?W" using len by simp
    have "(?n + i) mod ?W = (?n - ?W + i) mod ?W"
      using False mod_add_self2 [of "?n - ?W + i" ?W] by simp
    then show "rotate ?n (sw_samples w) ! i = recent ys ! i"
      using assms i False len by (simp add: nth_rotate ring_of_def recent_def)
  qed
  moreover have "take (sw_len w) (sw_samples w) = sw_samples w"
    using assms False by (simp add: ring_of_def)
  ultimately show ?thesis by (metis mset_rotation)
qed

lemma samples_since_nonempty: "acc \<noteq> [] \<or> es \<noteq> [] \<Longrightarrow> samples_since earlier acc es \<noteq> []"
  by (induction earlier acc es rule: samples_since.induct) auto

section \<open>Nearest-rank percentiles\<close>

text \<open>
  \<open>v\<close> is the nearest-rank percentile \<open>p\<close> of \<open>xs\<close>: one of the values, at least \<open>p\<close> percent of
  them are at most \<open>v\<close>, and fewer than \<open>p\<close> percent are below it.
\<close>

definition nearest_rank :: "nat \<Rightarrow> 'a::linorder list \<Rightarrow> 'a \<Rightarrow> bool" where
  "nearest_rank p xs v \<longleftrightarrow>
     v \<in> set xs \<and> p * length xs \<le> 100 * length (filter (\<lambda>x. x \<le> v) xs) \<and>
     100 * length (filter (\<lambda>x. x < v) xs) < p * length xs"

lemma nearest_rank_mset:
  assumes "mset xs = mset ys" and "nearest_rank p xs v"
  shows "nearest_rank p ys v"
proof -
  have "length (filter P xs) = length (filter P ys)" for P
    using assms(1) by (metis mset_filter size_mset)
  with assms show ?thesis using mset_eq_length mset_eq_setD unfolding nearest_rank_def by metis
qed

lemma sorted_rank:
  assumes "sorted xs" and "i < length xs"
  shows "i < length (filter (\<lambda>x. x \<le> xs ! i) xs)" and "length (filter (\<lambda>x. x < xs ! i) xs) \<le> i"
proof -
  have "{..i} \<subseteq> {j. j < length xs \<and> xs ! j \<le> xs ! i}"
    using assms by (auto intro: sorted_nth_mono)
  from card_mono [OF _ this] show "i < length (filter (\<lambda>x. x \<le> xs ! i) xs)"
    by (simp add: length_filter_conv_card)
  have "{j. j < length xs \<and> xs ! j < xs ! i} \<subseteq> {..<i}"
    using assms by (auto simp: not_less [symmetric]) (meson leD leI sorted_nth_mono)
  from card_mono [OF _ this] show "length (filter (\<lambda>x. x < xs ! i) xs) \<le> i"
    by (simp add: length_filter_conv_card)
qed

lemma rounded_up:
  assumes "0 < (x :: nat)"
  shows "x \<le> 100 * ((x + 99) div 100 - 1 + 1)" and "100 * ((x + 99) div 100 - 1) < x"
proof -
  define q where "q = (x + 99) div 100"
  have "x + 99 = 100 * q + (x + 99) mod 100" unfolding q_def by simp
  moreover have "(x + 99) mod 100 < 100" by simp
  ultimately have q: "100 * q \<le> x + 99" "x + 99 < 100 * q + 100" by linarith+
  with assms have "0 < q" by (cases q) auto
  with q show "x \<le> 100 * ((x + 99) div 100 - 1 + 1)" and "100 * ((x + 99) div 100 - 1) < x"
    unfolding q_def [symmetric] by auto
qed

lemma nearest_rank_index_bounds:
  assumes "0 < len" and "len \<le> VIDEO_FRAME_SIZE_WINDOW" and "0 < p" and "p \<le> 100"
  shows "nearest_rank_index len p < len" and "p * len \<le> 100 * (nearest_rank_index len p + 1)"
    and "100 * nearest_rank_index len p < p * len"
proof -
  have "len * p \<le> 512 * 100"
    using assms(2,4) by (intro mult_le_mono) (auto simp: VIDEO_FRAME_SIZE_WINDOW_def)
  then have "usize_sat_add (min (len * p) usize_max) 99 = len * p + 99"
    by (simp add: usize_sat_add_def usize_max_def)
  moreover have "0 < len * p" using assms by simp
  moreover have "len * p \<le> 100 * len" using assms(4) by simp
  moreover from this have "(len * p + 99) div 100 - 1 \<le> len - 1" by linarith
  ultimately have i: "nearest_rank_index len p = (len * p + 99) div 100 - 1"
    unfolding nearest_rank_index_def by (simp only: min_absorb1)
  show "nearest_rank_index len p < len" using assms(1) \<open>len * p \<le> 100 * len\<close> unfolding i by linarith
  show "p * len \<le> 100 * (nearest_rank_index len p + 1)"
    using rounded_up(1) [OF \<open>0 < len * p\<close>] by (simp add: i mult.commute)
  show "100 * nearest_rank_index len p < p * len"
    using rounded_up(2) [OF \<open>0 < len * p\<close>] by (simp add: i mult.commute)
qed

lemma sorted_percentile:
  assumes "xs \<noteq> []" and "length xs \<le> VIDEO_FRAME_SIZE_WINDOW" and "0 < p" and "p \<le> 100"
  shows "nearest_rank p xs (sort xs ! nearest_rank_index (length xs) p)"
proof -
  let ?i = "nearest_rank_index (length xs) p"
  from assms have i: "?i < length xs" "p * length xs \<le> 100 * (?i + 1)" "100 * ?i < p * length xs"
    using nearest_rank_index_bounds [of "length xs" p] by auto
  from sorted_rank [of "sort xs" ?i] i have "nearest_rank p (sort xs) (sort xs ! ?i)"
    unfolding nearest_rank_def using nth_mem [of ?i "sort xs"] by auto
  then show ?thesis by (rule nearest_rank_mset [rotated]) simp
qed

lemma window_percentiles_exact:
  assumes "ring_of w ys" and "ys \<noteq> []"
  shows "\<exists>d95 d99 r95 r99. window_percentiles w = (ucast d95, ucast d99, ucast r95, ucast r99) \<and>
    nearest_rank 95 (map ss_datagram_bytes (recent ys)) d95 \<and>
    nearest_rank 99 (map ss_datagram_bytes (recent ys)) d99 \<and>
    nearest_rank 95 (map ss_required_bytes (recent ys)) r95 \<and>
    nearest_rank 99 (map ss_required_bytes (recent ys)) r99"
proof -
  have W: "0 < VIDEO_FRAME_SIZE_WINDOW" by (simp add: VIDEO_FRAME_SIZE_WINDOW_def)
  let ?xs = "take (sw_len w) (sw_samples w)"
  have len: "length ?xs = sw_len w" "0 < sw_len w" "sw_len w \<le> VIDEO_FRAME_SIZE_WINDOW"
    using assms W by (auto simp: ring_of_def)
  have "nearest_rank p (map f (recent ys)) (sort (map f ?xs) ! nearest_rank_index (sw_len w) p)"
    if "0 < p" "p \<le> 100" for p and f :: "frame_size_sample \<Rightarrow> u32"
  proof (rule nearest_rank_mset)
    show "mset (map f ?xs) = mset (map f (recent ys))" using ring_contents [OF assms(1)] by simp
    show "nearest_rank p (map f ?xs) (sort (map f ?xs) ! nearest_rank_index (sw_len w) p)"
      using sorted_percentile [of "map f ?xs" p] len that
      by (cases "sw_samples w = []") auto
  qed
  note rank = this [of 95] this [of 99]
  show ?thesis
    using len rank unfolding window_percentiles_def Let_def by (intro exI conjI) auto
qed

section \<open>Admission\<close>

definition total_bytes :: "bytes list \<Rightarrow> nat" where
  "total_bytes ds = sum_list (map length ds)"

lemma fragments_bytes_total: "fragments_bytes ds = min (total_bytes ds) usize_max"
proof -
  have "foldl (\<lambda>total f. usize_sat_add total (length f)) n ds = min (n + total_bytes ds) usize_max"
    if "n \<le> usize_max" for n
    using that
    by (induction ds arbitrary: n) (auto simp: total_bytes_def usize_sat_add_def min_def)
  from this [of 0] show ?thesis by (simp add: fragments_bytes_def)
qed

lemma fragmented_total:
  assumes "length sid = 16" and "fragment_video_frame sid seq ts md frame mds = Inr ds"
  shows "total_bytes ds < usize_max" and "length ds \<le> MAX_VIDEO_FRAGMENTS"
    and "total_bytes ds = (HEADER_LEN + VIDEO_FRAGMENT_HEADER_LEN) * length ds + length frame"
proof -
  let ?ps = "frame_pieces frame mds" and ?n = "HEADER_LEN + VIDEO_FRAGMENT_HEADER_LEN"
  note r = fragment_video_frame_Inr [OF assms(2)]
  have "map length ds = map (\<lambda>p. ?n + length p) ?ps"
    using r(9) fragment_video_frame_carries(2) [OF assms] by (intro nth_equalityI) auto
  then have "total_bytes ds = sum_list (map (\<lambda>p. ?n + length p) ?ps)" by (simp add: total_bytes_def)
  also have "\<dots> = ?n * length ?ps + length frame"
    using frame_pieces_concat [OF r(4), of frame]
    by (simp add: sum_list_addf sum_list_triv algebra_simps flip: length_concat)
  finally have total: "total_bytes ds = ?n * length ?ps + length frame" .
  then show "total_bytes ds = ?n * length ds + length frame" by (simp add: r(9))
  from total show "total_bytes ds < usize_max"
    using r(3,5)
    by (simp add: MAX_VIDEO_FRAGMENTS_def MAX_VIDEO_FRAME_BYTES_def usize_max_def HEADER_LEN_def
        VIDEO_FRAGMENT_HEADER_LEN_def)
  show "length ds \<le> MAX_VIDEO_FRAGMENTS" using r(5,9) by simp
qed

lemma send_all_Inr: "send_all link sent ds = (out, Inr u) \<Longrightarrow> out = sent @ ds"
  by (induction link sent ds rule: send_all.induct) (auto split: option.splits)

lemma send_all_prefix: "send_all link sent ds = (out, r) \<Longrightarrow> set out \<subseteq> set sent \<union> set ds"
  by (induction link sent ds rule: send_all.induct) (auto split: option.splits)

text \<open>The largest free space seen so far, and what it says is queued.\<close>

definition capacity_seen :: "send_coordinator \<Rightarrow> datagram_link \<Rightarrow> usize" where
  "capacity_seen c link = max (unat (ct_send_buffer_capacity (co_counters c))) (ln_send_buffer_space link)"

definition queued_now :: "send_coordinator \<Rightarrow> datagram_link \<Rightarrow> usize" where
  "queued_now c link = capacity_seen c link - ln_send_buffer_space link"

definition queue_budget :: "send_coordinator \<Rightarrow> datagram_link \<Rightarrow> usize" where
  "queue_budget c link =
     video_datagram_queue_budget (ln_cwnd link) (ln_rtt link) (capacity_seen c link)
       (co_interactive_reserve_bytes c) (1000 * unat (co_video_queue_target_us c))
       (unat (co_min_video_queue_bytes c))"

lemma unat_sat_sub_nat: "unat (sat_sub x y :: 'a::len word) = unat x - unat y"
  by (auto simp: sat_sub_def unat_sub word_le_nat_alt)

lemma unat_max_word: "unat (max x y :: 'a::len word) = max (unat x) (unat y)"
  by (auto simp: max_def word_le_nat_alt)

lemma record_space_results:
  assumes "ln_send_buffer_space link \<le> usize_max"
  shows "snd (record_space c (ln_send_buffer_space link)) = (queued_now c link, capacity_seen c link)"
proof -
  have "unat (word_of_usize_sat (ln_send_buffer_space link) :: u64) = ln_send_buffer_space link"
    using assms by (simp add: word_of_usize_sat_def usize_max_def unat_of_nat_exact)
  then show ?thesis
    by (simp add: record_space_def Let_def queued_now_def capacity_seen_def unat_sat_sub_nat unat_max_word)
qed

lemma record_space_frame [simp]:
  "co_interactive_reserve_bytes (fst (record_space c n)) = co_interactive_reserve_bytes c"
  "co_video_queue_target_us (fst (record_space c n)) = co_video_queue_target_us c"
  "co_min_video_queue_bytes (fst (record_space c n)) = co_min_video_queue_bytes c"
  by (simp_all add: record_space_def Let_def)

lemma queue_budget_le: "queue_budget c link \<le> capacity_seen c link - co_interactive_reserve_bytes c"
  by (simp add: queue_budget_def video_datagram_queue_budget_def Let_def)

lemma admission_None:
  "video_frame_admission_failure d a r q b = None \<longleftrightarrow>
     d + r \<le> usize_max \<and> d + r \<le> a \<and> q \<le> b"
  by (auto simp: video_frame_admission_failure_def Let_def split: bool.splits)

lemma transmit_video_frame_cases:
  assumes "transmit_video_frame link c s ds = (c', s', sent, r)"
  shows "ds_session_id s' = ds_session_id s" and "set sent \<subseteq> set ds"
    and "ds_negotiated_max_datagram_size s' = ds_negotiated_max_datagram_size s"
    and "r = Inr (Sent n) \<Longrightarrow> sent = ds \<and> n = length ds \<and>
      checked_add (ds_next_video_sequence s) (word_of_usize_sat (length ds)) = Some (ds_next_video_sequence s')"
    and "\<nexists>n. r = Inr (Sent n) \<Longrightarrow> ds_next_video_sequence s' = ds_next_video_sequence s \<and> (\<exists>e. r = Inl e)"
  using assms send_all_prefix [of link "[]" ds]
  by (auto simp: transmit_video_frame_def Let_def dest: send_all_Inr
      split: option.splits sum.splits prod.splits)

lemma admit_video_frame_cases:
  assumes "ln_send_buffer_space link \<le> usize_max"
    and "admit_video_frame link c s now md ds = (c', s', sent, r)"
  obtains (admitted) c1 w where
      "transmit_video_frame link c1 (s\<lparr>ds_video_frame_sizes := w\<rparr>) ds = (c', s', sent, r)"
      "fragments_bytes ds + co_interactive_reserve_bytes c \<le> usize_max"
      "fragments_bytes ds + co_interactive_reserve_bytes c \<le> ln_send_buffer_space link"
      "queued_now c link \<le> queue_budget c link"
  | (rejected) w failure a b q v x y p1 p2 p3 p4 where "sent = []" "s' = s\<lparr>ds_video_frame_sizes := w\<rparr>"
      "r = Inr (RejectedNoSpace failure a b q v x y p1 p2 p3 p4)"
      "ln_send_buffer_space link < fragments_bytes ds + co_interactive_reserve_bytes c \<or>
       usize_max < fragments_bytes ds + co_interactive_reserve_bytes c \<or>
       queue_budget c link < queued_now c link"
proof -
  obtain c1 where sp: "record_space c (ln_send_buffer_space link) = (c1, queued_now c link, capacity_seen c link)"
    using record_space_results [OF assms(1), of c] by (metis prod.collapse)
  have c1: "co_interactive_reserve_bytes c1 = co_interactive_reserve_bytes c"
    "co_video_queue_target_us c1 = co_video_queue_target_us c"
    "co_min_video_queue_bytes c1 = co_min_video_queue_bytes c"
    using record_space_frame [of c "ln_send_buffer_space link"] by (simp_all add: sp)
  let ?f = "video_frame_admission_failure (fragments_bytes ds) (ln_send_buffer_space link)
      (co_interactive_reserve_bytes c) (queued_now c link) (queue_budget c link)"
  show thesis
  proof (cases ?f)
    case None
    then have "\<exists>c1 w. transmit_video_frame link c1 (s\<lparr>ds_video_frame_sizes := w\<rparr>) ds = (c', s', sent, r)"
      using assms(2) unfolding admit_video_frame_def Let_def sp prod.case c1 queue_budget_def [symmetric]
      by (auto split: prod.splits)
    with None admitted show thesis by (auto simp: admission_None)
  next
    case (Some failure)
    then have "\<exists>w a b q v x y p1 p2 p3 p4. sent = [] \<and> s' = s\<lparr>ds_video_frame_sizes := w\<rparr> \<and>
        r = Inr (RejectedNoSpace failure a b q v x y p1 p2 p3 p4)"
      using assms(2) unfolding admit_video_frame_def Let_def sp prod.case c1 queue_budget_def [symmetric]
      by (auto split: prod.splits)
    moreover from Some have "?f \<noteq> None" by simp
    ultimately show thesis using rejected unfolding admission_None not_le de_Morgan_conj by blast
  qed
qed

text \<open>What a call of \<open>send_video_frame\<close> does.\<close>

lemma send_video_frame_cases:
  assumes "ln_send_buffer_space link \<le> usize_max"
    and "send_video_frame link c s clock now md frame = (c', s', sent, r)"
  obtains (refused) e where "sent = []" "s' = s" "r = Inl e"
  | (rejected) mds ds w failure a b q v x y p1 p2 p3 p4 where "max_datagram_size link s = Inr mds"
      "fragment_video_frame (ds_session_id s) (ds_next_video_sequence s) (elapsed_us (ds_started s) clock)
         md frame mds = Inr ds"
      "sent = []" "s' = s\<lparr>ds_video_frame_sizes := w\<rparr>"
      "r = Inr (RejectedNoSpace failure a b q v x y p1 p2 p3 p4)"
      "ln_send_buffer_space link < fragments_bytes ds + co_interactive_reserve_bytes c \<or>
       usize_max < fragments_bytes ds + co_interactive_reserve_bytes c \<or>
       queue_budget c link < queued_now c link"
  | (transmitted) mds ds c1 w where "max_datagram_size link s = Inr mds"
      "fragment_video_frame (ds_session_id s) (ds_next_video_sequence s) (elapsed_us (ds_started s) clock)
         md frame mds = Inr ds"
      "transmit_video_frame link c1 (s\<lparr>ds_video_frame_sizes := w\<rparr>) ds = (c', s', sent, r)"
      "fragments_bytes ds + co_interactive_reserve_bytes c \<le> usize_max"
      "fragments_bytes ds + co_interactive_reserve_bytes c \<le> ln_send_buffer_space link"
      "queued_now c link \<le> queue_budget c link"
proof (cases "max_datagram_size link s")
  case (Inl e)
  with assms(2) refused show thesis by (auto simp: send_video_frame_def)
next
  case (Inr mds)
  show thesis
  proof (cases "fragment_video_frame (ds_session_id s) (ds_next_video_sequence s)
      (elapsed_us (ds_started s) clock) md frame mds")
    case (Inl e)
    with Inr assms(2) refused show thesis by (auto simp: send_video_frame_def)
  next
    case ds: (Inr ds)
    let ?c = "c\<lparr>co_counters := note_video_frame (co_counters c) (word_of_usize_sat (length frame))
        (word_of_usize_sat (length ds))\<rparr>"
    have same: "queued_now ?c link = queued_now c link" "queue_budget ?c link = queue_budget c link"
      "co_interactive_reserve_bytes ?c = co_interactive_reserve_bytes c"
      by (simp_all add: queued_now_def queue_budget_def capacity_seen_def note_video_frame_def)
    from Inr ds assms(2) have "admit_video_frame link ?c s now md ds = (c', s', sent, r)"
      by (simp add: send_video_frame_def)
    then show thesis
      by (rule admit_video_frame_cases [OF assms(1)])
        (use Inr ds same in \<open>auto intro: transmitted rejected\<close>)
  qed
qed

section \<open>Property: admission\<close>

text \<open>
  Property C11: admission of video frames. When \<open>send_video_frame\<close> reports a frame as sent, the
  connection took exactly the datagrams of the frame, in order; the whole frame and the interactive
  reserve fitted into the free space of the send buffer, so that with the frame the buffer keeps the
  reserve free; what was queued before the frame was within the latency budget; and the next
  sequence number is past those used. The budget is not kept with the frame: one whole frame may
  overshoot it, bounded by the buffer less the reserve, and until the queue has drained below the
  budget the next frame is rejected. When the frame is not sent, no sequence number is used up, and
  a rejected frame sends nothing and did not fit the reserve, or the queue was over its budget.
\<close>

theorem video_admission_sound:
  assumes "ln_send_buffer_space link \<le> usize_max"
    and "send_video_frame link c s clock now md frame = (c', s', sent, r)"
    and "length (ds_session_id s) = 16"
  shows "case r of
      Inr (Sent n) \<Rightarrow>
        (\<exists>mds. max_datagram_size link s = Inr mds \<and>
           fragment_video_frame (ds_session_id s) (ds_next_video_sequence s)
             (elapsed_us (ds_started s) clock) md frame mds = Inr sent) \<and> n = length sent \<and>
        total_bytes sent + co_interactive_reserve_bytes c \<le> ln_send_buffer_space link \<and>
        queued_now c link \<le> queue_budget c link \<and>
        queued_now c link + total_bytes sent + co_interactive_reserve_bytes c \<le> capacity_seen c link \<and>
        unat (ds_next_video_sequence s') = unat (ds_next_video_sequence s) + n
    | Inr (RejectedNoSpace failure a b q v x y p1 p2 p3 p4) \<Rightarrow>
        sent = [] \<and> ds_next_video_sequence s' = ds_next_video_sequence s \<and>
        (\<exists>mds ds. max_datagram_size link s = Inr mds \<and>
           fragment_video_frame (ds_session_id s) (ds_next_video_sequence s)
             (elapsed_us (ds_started s) clock) md frame mds = Inr ds \<and>
           (ln_send_buffer_space link < total_bytes ds + co_interactive_reserve_bytes c \<or>
            queue_budget c link < queued_now c link))
    | Inl e \<Rightarrow> ds_next_video_sequence s' = ds_next_video_sequence s"
  using assms(2)
proof (rule send_video_frame_cases [OF assms(1)])
  fix e assume "sent = []" "s' = s" "r = Inl e"
  then show ?thesis by simp
next
  fix mds ds w failure a b q v x y p1 p2 p3 p4
  assume m: "max_datagram_size link s = Inr mds"
    and ds: "fragment_video_frame (ds_session_id s) (ds_next_video_sequence s)
      (elapsed_us (ds_started s) clock) md frame mds = Inr ds"
    and r: "sent = []" "s' = s\<lparr>ds_video_frame_sizes := w\<rparr>"
      "r = Inr (RejectedNoSpace failure a b q v x y p1 p2 p3 p4)"
    and full: "ln_send_buffer_space link < fragments_bytes ds + co_interactive_reserve_bytes c \<or>
       usize_max < fragments_bytes ds + co_interactive_reserve_bytes c \<or>
       queue_budget c link < queued_now c link"
  have "fragments_bytes ds = total_bytes ds"
    using fragmented_total(1) [OF assms(3) ds] by (simp add: fragments_bytes_total)
  with full assms(1) have "ln_send_buffer_space link < total_bytes ds + co_interactive_reserve_bytes c \<or>
       queue_budget c link < queued_now c link" by auto
  with m ds r show ?thesis by auto
next
  fix mds ds c1 w
  assume m: "max_datagram_size link s = Inr mds"
    and ds: "fragment_video_frame (ds_session_id s) (ds_next_video_sequence s)
      (elapsed_us (ds_started s) clock) md frame mds = Inr ds"
    and t: "transmit_video_frame link c1 (s\<lparr>ds_video_frame_sizes := w\<rparr>) ds = (c', s', sent, r)"
    and fit: "fragments_bytes ds + co_interactive_reserve_bytes c \<le> usize_max"
      "fragments_bytes ds + co_interactive_reserve_bytes c \<le> ln_send_buffer_space link"
      "queued_now c link \<le> queue_budget c link"
  note tc = transmit_video_frame_cases(4,5) [OF t]
  have "ln_send_buffer_space link \<le> capacity_seen c link" by (simp add: capacity_seen_def)
  show ?thesis
  proof (cases "\<exists>n. r = Inr (Sent n)")
    case True
    then obtain n where n: "r = Inr (Sent n)" by blast
    note frag = fragmented_total [OF assms(3) ds]
    have "unat (word_of_usize_sat (length ds) :: u64) = length ds"
      using frag(2) by (simp add: word_of_usize_sat_def MAX_VIDEO_FRAGMENTS_def unat_of_nat_exact)
    with tc(1) [OF n] have "unat (ds_next_video_sequence s') = unat (ds_next_video_sequence s) + n"
      by (auto simp: checked_add_eq_Some unat_add_exact)
    moreover have "fragments_bytes ds = total_bytes ds" using frag(1) by (simp add: fragments_bytes_total)
    ultimately show ?thesis
      using tc(1) [OF n] n m ds fit by (auto simp: queued_now_def capacity_seen_def)
  next
    case False
    with tc(2) show ?thesis by auto
  qed
qed

section \<open>Property: percentiles\<close>

text \<open>
  Property C12: the published percentiles are exact. After any sequence of recorded frames the
  window reports, for the datagram bytes and for the required bytes, the nearest-rank 95th and
  99th percentiles of the last 512 frames since the last idle gap: one of the values, with at
  least that share of the frames at or below it and less than that share below it. The ring
  buffer is never read outside its filled part.
\<close>

theorem frame_size_percentiles_exact:
  assumes "events \<noteq> []"
  shows "\<exists>d95 d99 r95 r99.
    window_percentiles (record_all (frame_size_window_new start) events)
      = (ucast d95, ucast d99, ucast r95, ucast r99) \<and>
    nearest_rank 95 (map ss_datagram_bytes (recent (samples_since None [] events))) d95 \<and>
    nearest_rank 99 (map ss_datagram_bytes (recent (samples_since None [] events))) d99 \<and>
    nearest_rank 95 (map ss_required_bytes (recent (samples_since None [] events))) r95 \<and>
    nearest_rank 99 (map ss_required_bytes (recent (samples_since None [] events))) r99"
proof -
  have "ring_of (frame_size_window_new start) []" by (simp add: ring_of_def frame_size_window_new_def)
  from ring_of_all [OF this, of events]
  have "ring_of (record_all (frame_size_window_new start) events) (samples_since None [] events)"
    by (simp add: frame_size_window_new_def)
  moreover have "samples_since None [] events \<noteq> []" using assms samples_since_nonempty by blast
  ultimately show ?thesis by (rule window_percentiles_exact)
qed

theorem frame_size_percentiles_exact_witness:
  "\<exists>d95 d99 r95 r99.
     window_percentiles (record_all (frame_size_window_new 0)
         [(0, 900, 1000), (1, 10, 30), (from_secs 3, 40, 60), (from_secs 4, 20, 90)])
       = (ucast d95, ucast d99, ucast r95, ucast r99) \<and>
     nearest_rank 95 [40, 20 :: u32] d95 \<and> nearest_rank 99 [40, 20 :: u32] d99 \<and>
     nearest_rank 95 [60, 90 :: u32] r95 \<and> nearest_rank 99 [60, 90 :: u32] r99"
  using frame_size_percentiles_exact
    [of "[(0, 900, 1000), (1, 10, 30), (from_secs 3, 40, 60), (from_secs 4, 20, 90)]" 0]
  by (simp add: idle_gap_def size_sample_def recent_def from_secs_def VIDEO_FRAME_SIZE_WINDOW_def
      VIDEO_FRAME_SIZE_WINDOW_IDLE_RESET_def word_of_usize_sat_def)

text \<open>A connection that takes everything, and the three datagrams of a small keyframe.\<close>

definition sample_link :: datagram_link where
  "sample_link = \<lparr>ln_max_datagram_size = Some 78, ln_send_buffer_space = 2 * 1024 * 1024,
     ln_cwnd = 16384, ln_rtt = from_millis 20, ln_send_datagram = \<lambda>_ _. None\<rparr>"

definition sample_coordinator :: send_coordinator where
  "sample_coordinator = fst (datagram_sender_new sample_link sample_session 0)"

definition sample_sender :: datagram_sender where
  "sample_sender = snd (datagram_sender_new sample_link sample_session 0)"

lemma send_all_accepting:
  "\<forall>sent d. ln_send_datagram link sent d = None \<Longrightarrow> send_all link sent ds = (sent @ ds, Inr ())"
  by (induction link sent ds rule: send_all.induct) auto

lemma sample_sender_simps:
  "max_datagram_size sample_link sample_sender = Inr 78" "ds_session_id sample_sender = sample_session"
  "ds_next_video_sequence sample_sender = 1" "elapsed_us (ds_started sample_sender) 0 = 0"
  "co_interactive_reserve_bytes sample_coordinator = 65536"
  "ln_send_buffer_space sample_link = 2097152"
  "queued_now sample_coordinator sample_link = 0"
  by (simp_all add: max_datagram_size_def sample_link_def sample_sender_def sample_coordinator_def
      datagram_sender_new_def usize_max_def ok_or_def elapsed_us_def as_micros_def
      saturating_duration_since_def word_of_usize_sat_def coordinator_new_def queued_now_def
      capacity_seen_def DEFAULT_INTERACTIVE_DATAGRAM_RESERVE_BYTES_def)

lemma sample_frame_sent:
  "\<exists>c' s' ds. fragment_video_frame sample_session 1 0 sample_metadata sample_frame 78 = Inr ds \<and>
     length ds = 3 \<and>
     send_video_frame sample_link sample_coordinator sample_sender 0 0 sample_metadata sample_frame
       = (c', s', ds, Inr (Sent 3))"
proof -
  obtain ds where ds: "fragment_video_frame sample_session 1 0 sample_metadata sample_frame 78 = Inr ds"
    by (rule sample_fragmented)
  have sid: "length sample_session = 16" by (simp add: sample_session_def)
  have len: "length ds = 3"
    using fragment_video_frame_Inr(6,9) [OF ds]
    by (simp add: sample_frame_def HEADER_LEN_def VIDEO_FRAGMENT_HEADER_LEN_def div_ceil_def)
  have space: "ln_send_buffer_space sample_link \<le> usize_max" by (simp add: sample_sender_simps usize_max_def)
  obtain c' s' sent r where
    st: "send_video_frame sample_link sample_coordinator sample_sender 0 0 sample_metadata sample_frame
       = (c', s', sent, r)" by (metis prod.collapse)
  have total: "fragments_bytes ds = 233"
    using fragmented_total(3) [OF sid ds]
    by (simp add: fragments_bytes_total len sample_frame_def HEADER_LEN_def VIDEO_FRAGMENT_HEADER_LEN_def
        usize_max_def)
  let ?c = "sample_coordinator\<lparr>co_counters := note_video_frame (co_counters sample_coordinator)
      (word_of_usize_sat (length sample_frame)) (word_of_usize_sat (length ds))\<rparr>"
  have reserve: "co_interactive_reserve_bytes ?c = 65536" "queued_now ?c sample_link = 0"
    using sample_sender_simps(5,7) by (simp_all add: queued_now_def capacity_seen_def note_video_frame_def)
  have "admit_video_frame sample_link ?c sample_sender 0 sample_metadata ds = (c', s', sent, r)"
    using st ds by (simp add: send_video_frame_def sample_sender_simps)
  then have "r = Inr (Sent 3) \<and> sent = ds"
  proof (rule admit_video_frame_cases [OF space])
    fix c1 w
    assume "transmit_video_frame sample_link c1 (sample_sender\<lparr>ds_video_frame_sizes := w\<rparr>) ds = (c', s', sent, r)"
    moreover have "\<forall>sent d. ln_send_datagram sample_link sent d = None" by (simp add: sample_link_def)
    ultimately show ?thesis
      by (simp add: transmit_video_frame_def send_all_accepting len sample_sender_simps word_of_usize_sat_def
          checked_add_def)
  qed (use reserve total in \<open>auto simp: sample_sender_simps usize_max_def\<close>)
  with st ds len show ?thesis by auto
qed

theorem video_admission_sound_witness:
  "\<exists>c' s' ds. send_video_frame sample_link sample_coordinator sample_sender 0 0 sample_metadata sample_frame
       = (c', s', ds, Inr (Sent 3)) \<and>
     total_bytes ds + 65536 \<le> 2097152 \<and> unat (ds_next_video_sequence s') = 4"
proof -
  obtain c' s' ds where
    st: "send_video_frame sample_link sample_coordinator sample_sender 0 0 sample_metadata sample_frame
       = (c', s', ds, Inr (Sent 3))" using sample_frame_sent by blast
  have "ln_send_buffer_space sample_link \<le> usize_max" and "length (ds_session_id sample_sender) = 16"
    by (simp_all add: sample_sender_simps usize_max_def sample_session_def)
  from video_admission_sound [OF this(1) st this(2)] st show ?thesis
    by (auto simp: sample_sender_simps)
qed

end
