(* ===== verification/Datagram_Session.thy ===== *)
theory Datagram_Session
  imports Datagram_Properties
begin

text \<open>
  A sender and a receiver of one session. The sender makes any sequence of calls; the network
  loses, repeats and reorders what the connection took; the receiver gets these datagrams at
  any times, and in between pops audio and expires video. Everything the receiver hands out
  was submitted on the other side.
\<close>

section \<open>Calls of the sender\<close>

datatype send_call =
    SendVideo datagram_link instant instant video_frame_metadata bytes
  | SendAudio datagram_link instant u64 audio_codec u8 u32 bytes
  | SendMouse datagram_link instant mouse_movement_mode i32 i32 u32 u16
  | SendApplicationMouse datagram_link instant mouse_movement_mode i32 i32 u32 u16 bytes
  | SetQueuePolicy duration usize

fun send_step ::
    "send_coordinator \<times> datagram_sender \<Rightarrow> send_call
     \<Rightarrow> (send_coordinator \<times> datagram_sender) \<times> bytes list" where
  "send_step (c, s) (SendVideo link clock now md frame) =
     (case send_video_frame link c s clock now md frame of (c', s', sent, _) \<Rightarrow> ((c', s'), sent))"
| "send_step (c, s) (SendAudio link clock ts codec channels rate audio) =
     (case send_audio_packet link c s clock ts codec channels rate audio of
        (c', s', sent, _) \<Rightarrow> ((c', s'), sent))"
| "send_step (c, s) (SendMouse link clock mode x y display buttons) =
     (case send_mouse_movement link c s clock mode x y display buttons of
        (c', s', sent, _) \<Rightarrow> ((c', s'), sent))"
| "send_step (c, s) (SendApplicationMouse link clock mode x y display buttons payload) =
     (case send_application_mouse_movement link c s clock mode x y display buttons payload of
        (c', s', sent, _) \<Rightarrow> ((c', s'), sent))"
| "send_step (c, s) (SetQueuePolicy target minimum) = ((set_video_queue_policy c target minimum, s), [])"

fun send_run :: "send_coordinator \<times> datagram_sender \<Rightarrow> send_call list \<Rightarrow> bytes list" where
  "send_run cs [] = []"
| "send_run cs (call # calls) = (case send_step cs call of (cs', sent) \<Rightarrow> sent @ send_run cs' calls)"

section \<open>What a datagram stands for\<close>

definition addressed :: "session_id \<Rightarrow> message_type \<Rightarrow> usize \<Rightarrow> bytes \<Rightarrow> bool" where
  "addressed sid mt n d \<longleftrightarrow>
     (\<exists>m. decode_message d = Inr m \<and> mh_message_type (pm_header m) = mt \<and>
          mh_session_id (pm_header m) = sid \<and> unat (mh_payload_length (pm_header m)) = n)"

definition datagram_size :: "usize \<Rightarrow> datagram_link \<Rightarrow> usize" where
  "datagram_size negotiated link =
     (case ln_max_datagram_size link of None \<Rightarrow> 0 | Some current \<Rightarrow> min current negotiated)"

definition same_movement :: "mouse_movement_mode \<Rightarrow> i32 \<Rightarrow> i32 \<Rightarrow> u32 \<Rightarrow> u16 \<Rightarrow> mouse_movement \<Rightarrow> bool" where
  "same_movement mode x y display buttons m \<longleftrightarrow>
     mm_mode m = mode \<and> mm_x m = x \<and> mm_y m = y \<and> mm_display_id m = display \<and>
     mm_button_state_mask m = buttons"

definition same_packet :: "u64 \<Rightarrow> audio_codec \<Rightarrow> u8 \<Rightarrow> u32 \<Rightarrow> bytes \<Rightarrow> audio_packet \<Rightarrow> bool" where
  "same_packet ts codec channels rate audio p \<longleftrightarrow>
     am_capture_timestamp_us (ap_metadata p) = ts \<and> am_codec (ap_metadata p) = codec \<and>
     am_channels (ap_metadata p) = channels \<and> am_sample_rate_hz (ap_metadata p) = rate \<and>
     ap_payload p = audio"

fun speaks_for :: "usize \<Rightarrow> session_id \<Rightarrow> send_call \<Rightarrow> bytes \<Rightarrow> bool" where
  "speaks_for negotiated sid (SendVideo link clock now md frame) d \<longleftrightarrow>
     (\<exists>n i. addressed sid VideoFragment n d \<and>
        HEADER_LEN + VIDEO_FRAGMENT_HEADER_LEN < datagram_size negotiated link \<and>
        carries d (piece_header md frame (datagram_size negotiated link) i)
          (frame_pieces frame (datagram_size negotiated link) ! i))"
| "speaks_for negotiated sid (SendAudio link clock ts codec channels rate audio) d \<longleftrightarrow>
     (\<exists>n p. addressed sid AudioPacketMessage n d \<and> decode_audio_datagram d = Inr p \<and>
        same_packet ts codec channels rate audio p)"
| "speaks_for negotiated sid (SendMouse link clock mode x y display buttons) d \<longleftrightarrow>
     (\<exists>m. addressed sid MouseMovementMessage MOUSE_MOVEMENT_PAYLOAD_LEN d \<and>
        decode_mouse_movement d = Inr m \<and> same_movement mode x y display buttons m)"
| "speaks_for negotiated sid (SendApplicationMouse link clock mode x y display buttons payload) d \<longleftrightarrow>
     (\<exists>n m. addressed sid MouseMovementMessage n d \<and> MOUSE_MOVEMENT_PAYLOAD_LEN < n \<and>
        decode_application_mouse_movement d = Inr (m, payload) \<and> same_movement mode x y display buttons m)"
| "speaks_for negotiated sid (SetQueuePolicy target minimum) d \<longleftrightarrow> False"

lemma addressed_encoded:
  assumes "length sid = 16" and "message_header_new mt flags sid seq (length p) ts = Inr h"
    and "encode_message h p = Inr d"
  shows "addressed sid mt (length p) d"
proof -
  from assms(1,2) have h: "mh_message_type h = mt" "mh_session_id h = sid" "length (mh_session_id h) = 16"
    by (auto simp: message_header_new_eq_Inr)
  moreover from assms(3) have "unat (mh_payload_length h) = length p" by (auto simp: encode_message_eq_Inr)
  ultimately show ?thesis using decode_encode_message [OF h(3) assms(3)] by (auto simp: addressed_def)
qed

lemma video_addressed:
  assumes "length sid = 16" and "fragment_video_frame sid seq ts md frame mds = Inr ds" and "i < length ds"
  shows "\<exists>n. addressed sid VideoFragment n (ds ! i)"
  using fragment_video_frame_Inr(10) [OF assms(2,3)]
  by (auto simp: fragment_datagram_eq_Inr dest: addressed_encoded [OF assms(1)])

lemma audio_addressed:
  assumes "length sid = 16" and "encode_audio_datagram sid ts md audio mds = Inr d"
  shows "\<exists>n. addressed sid AudioPacketMessage n d"
proof -
  let ?p = "u64_be (am_capture_timestamp_us md) @ [audio_codec_code (am_codec md)] @ [am_channels md] @
     u16_be 0 @ u32_be (am_sample_rate_hz md) @ u32_be (of_nat (length audio)) @ audio"
  from assms(2) obtain h where "message_header_new AudioPacketMessage 0 sid (am_sequence_number md)
      (length ?p) ts = Inr h" and "encode_message h ?p = Inr d"
    by (auto simp: encode_audio_datagram_def Let_def word_try_from_def
        split: sum.splits if_splits option.splits)
  from addressed_encoded [OF assms(1) this] show ?thesis by blast
qed

lemma mouse_addressed:
  assumes "length sid = 16" and "encode_mouse_movement sid m mds = Inr d"
  shows "addressed sid MouseMovementMessage MOUSE_MOVEMENT_PAYLOAD_LEN d"
proof -
  let ?p = "[mouse_mode_code (mm_mode m)] @ [0] @ u16_be (mm_button_state_mask m) @
     u32_be (mm_display_id m) @ u32_be (mm_x m) @ u32_be (mm_y m) @ u32_be 0"
  from assms(2) obtain h where "message_header_new MouseMovementMessage 0 sid (mm_sequence_number m)
      (length ?p) (mm_monotonic_timestamp_us m) = Inr h" and "encode_message h ?p = Inr d"
    by (auto simp: encode_mouse_movement_def Let_def split: sum.splits if_splits)
  from addressed_encoded [OF assms(1) this] show ?thesis by (simp add: MOUSE_MOVEMENT_PAYLOAD_LEN_def)
qed

lemma application_mouse_addressed:
  assumes "length sid = 16" and "encode_application_mouse_movement sid m app mds = Inr d"
  shows "\<exists>n. addressed sid MouseMovementMessage n d \<and> MOUSE_MOVEMENT_PAYLOAD_LEN < n"
proof -
  let ?p = "[mouse_mode_code (mm_mode m)] @ [0] @ u16_be (mm_button_state_mask m) @
     u32_be (mm_display_id m) @ u32_be (mm_x m) @ u32_be (mm_y m) @
     u32_be (of_nat (length app)) @ u32_be 0 @ app"
  from assms(2) obtain h where "message_header_new MouseMovementMessage 0 sid (mm_sequence_number m)
      (length ?p) (mm_monotonic_timestamp_us m) = Inr h" and "encode_message h ?p = Inr d"
    by (auto simp: encode_application_mouse_movement_def Let_def word_try_from_def
        split: sum.splits if_splits option.splits)
  from addressed_encoded [OF assms(1) this] show ?thesis
    by (intro exI [of _ "length ?p"]) (simp add: MOUSE_MOVEMENT_PAYLOAD_LEN_def)
qed

section \<open>What the sender sends\<close>

lemma max_datagram_size_Inr:
  "max_datagram_size link s = Inr mds \<Longrightarrow>
     mds = datagram_size (ds_negotiated_max_datagram_size s) link"
  by (auto simp: max_datagram_size_def datagram_size_def)

definition same_session :: "datagram_sender \<Rightarrow> datagram_sender \<Rightarrow> bool" where
  "same_session s s' \<longleftrightarrow> ds_session_id s' = ds_session_id s \<and>
     ds_negotiated_max_datagram_size s' = ds_negotiated_max_datagram_size s"

lemma transmit_single_sent:
  assumes "transmit_single link c s f n d = (c', s', sent, r)"
  shows "s' = s" and "set sent \<subseteq> {d}"
  using assms send_all_prefix [of link "[]" "[d]"]
  by (auto simp: transmit_single_def Let_def split: if_splits prod.splits sum.splits)

lemma admit_video_frame_sent:
  assumes "admit_video_frame link c s now md ds = (c', s', sent, r)"
  shows "set sent \<subseteq> set ds" and "same_session s s'"
proof -
  have "(\<exists>w. sent = [] \<and> s' = s\<lparr>ds_video_frame_sizes := w\<rparr>) \<or>
      (\<exists>c1 w. transmit_video_frame link c1 (s\<lparr>ds_video_frame_sizes := w\<rparr>) ds = (c', s', sent, r))"
    using assms by (auto simp: admit_video_frame_def Let_def split: prod.splits option.splits)
  then show "set sent \<subseteq> set ds" and "same_session s s'"
    by (auto simp: same_session_def dest: transmit_video_frame_cases(1,3) transmit_video_frame_cases(2) [THEN subsetD])
qed

lemma send_video_frame_sent:
  assumes "send_video_frame link c s clock now md frame = (c', s', sent, r)" and "d \<in> set sent"
  obtains mds ds where "max_datagram_size link s = Inr mds"
    "fragment_video_frame (ds_session_id s) (ds_next_video_sequence s) (elapsed_us (ds_started s) clock)
       md frame mds = Inr ds" "d \<in> set ds"
  using assms admit_video_frame_sent(1)
  by (auto simp: send_video_frame_def split: sum.splits) blast

lemma send_step_session:
  assumes "send_step (c, s) call = ((c', s'), sent)"
  shows "same_session s s'"
  using assms admit_video_frame_sent(2)
  by (cases call)
    (auto simp: send_video_frame_def send_audio_packet_def send_mouse_movement_def
      send_application_mouse_movement_def send_mouse_datagram_def Let_def same_session_def
      dest!: transmit_single_sent(1) split: prod.splits sum.splits option.splits)

lemma send_step_speaks:
  assumes "length (ds_session_id s) = 16" and "send_step (c, s) call = ((c', s'), sent)"
    and "d \<in> set sent"
  shows "speaks_for (ds_negotiated_max_datagram_size s) (ds_session_id s) call d"
proof (cases call)
  case (SendVideo link clock now md frame)
  then obtain r where "send_video_frame link c s clock now md frame = (c', s', sent, r)"
    using assms(2) by (auto split: prod.splits)
  then show ?thesis
  proof (rule send_video_frame_sent [OF _ assms(3)])
    fix mds ds
    assume m: "max_datagram_size link s = Inr mds"
      and ds: "fragment_video_frame (ds_session_id s) (ds_next_video_sequence s)
          (elapsed_us (ds_started s) clock) md frame mds = Inr ds"
      and "d \<in> set ds"
    then obtain i where i: "i < length ds" "d = ds ! i" by (metis in_set_conv_nth)
    with video_addressed [OF assms(1) ds i(1)] fragment_video_frame_carries(1) [OF assms(1) ds i(1)]
      fragment_video_frame_Inr(4) [OF ds] max_datagram_size_Inr [OF m]
    show ?thesis unfolding SendVideo by auto
  qed
next
  case (SendAudio link clock ts codec channels rate audio)
  let ?md = "\<lparr>am_sequence_number = ds_next_audio_sequence s, am_capture_timestamp_us = ts,
      am_codec = codec, am_channels = channels, am_sample_rate_hz = rate\<rparr>"
  from SendAudio assms(2,3) obtain mds d0 where
    e: "encode_audio_datagram (ds_session_id s) (elapsed_us (ds_started s) clock) ?md audio mds = Inr d0"
    and "d = d0"
    by (auto simp: send_audio_packet_def Let_def dest!: transmit_single_sent
        split: sum.splits option.splits prod.splits)
  with audio_addressed [OF assms(1) e] decode_encode_audio(1) [OF assms(1) e] SendAudio show ?thesis
    by (auto simp: same_packet_def)
next
  case (SendMouse link clock mode x y display buttons)
  let ?m = "\<lparr>mm_sequence_number = ds_next_mouse_sequence s,
      mm_monotonic_timestamp_us = elapsed_us (ds_started s) clock, mm_mode = mode, mm_x = x, mm_y = y,
      mm_display_id = display, mm_button_state_mask = buttons\<rparr>"
  from SendMouse assms(2,3) obtain mds where e: "encode_mouse_movement (ds_session_id s) ?m mds = Inr d"
    by (auto simp: send_mouse_movement_def send_mouse_datagram_def Let_def dest!: transmit_single_sent
        split: sum.splits option.splits prod.splits)
  from mouse_addressed [OF assms(1) e] decode_encode_mouse [OF assms(1) e] SendMouse show ?thesis
    by (auto simp: same_movement_def)
next
  case (SendApplicationMouse link clock mode x y display buttons payload)
  let ?m = "\<lparr>mm_sequence_number = ds_next_mouse_sequence s,
      mm_monotonic_timestamp_us = elapsed_us (ds_started s) clock, mm_mode = mode, mm_x = x, mm_y = y,
      mm_display_id = display, mm_button_state_mask = buttons\<rparr>"
  from SendApplicationMouse assms(2,3) obtain mds where
    e: "encode_application_mouse_movement (ds_session_id s) ?m payload mds = Inr d"
    by (auto simp: send_application_mouse_movement_def send_mouse_datagram_def Let_def
        dest!: transmit_single_sent split: sum.splits option.splits prod.splits)
  from application_mouse_addressed [OF assms(1) e] decode_encode_application_mouse [OF assms(1) e]
    SendApplicationMouse show ?thesis
    by (auto simp: same_movement_def)
next
  case (SetQueuePolicy target minimum)
  with assms(2,3) show ?thesis by simp
qed

lemma send_run_speaks:
  assumes "length sid = 16" and "ds_session_id s = sid" and "ds_negotiated_max_datagram_size s = neg"
    and "d \<in> set (send_run (c, s) calls)"
  shows "\<exists>call \<in> set calls. speaks_for neg sid call d"
  using assms(2-4)
proof (induction calls arbitrary: c s)
  case Nil
  then show ?case by simp
next
  case (Cons call calls)
  obtain c' s' sent where st: "send_step (c, s) call = ((c', s'), sent)" by (metis prod.collapse)
  show ?case
  proof (cases "d \<in> set sent")
    case True
    with send_step_speaks [OF _ st] Cons.prems assms(1) show ?thesis by auto
  next
    case False
    with Cons.prems st have "d \<in> set (send_run (c', s') calls)" by simp
    with Cons.IH [of s' c'] send_step_session [OF st] Cons.prems show ?thesis
      by (auto simp: same_session_def)
  qed
qed

section \<open>Calls of the receiver\<close>

datatype receive_call = Arrive bytes instant | PopAudio instant | ExpireVideo instant | Reset

datatype handed =
    Event "quic_transport_error + datagram_event"
  | Playout "audio_playout_item option"
  | Expiry video_outcome
  | ResetDone

fun receive_step :: "datagram_receiver \<Rightarrow> receive_call \<Rightarrow> (datagram_receiver \<times> handed) option" where
  "receive_step r (Arrive d now) =
     map_option (\<lambda>(r', result). (r', Event result)) (receive_datagram r (Inr d) now)"
| "receive_step r (PopAudio now) = (case pop_audio r now of (r', item) \<Rightarrow> Some (r', Playout item))"
| "receive_step r (ExpireVideo now) = (case expire_video r now of (r', out) \<Rightarrow> Some (r', Expiry out))"
| "receive_step r Reset = Some (datagram_reset r, ResetDone)"

fun receive_run :: "datagram_receiver \<Rightarrow> receive_call list \<Rightarrow> (datagram_receiver \<times> handed list) option" where
  "receive_run r [] = Some (r, [])"
| "receive_run r (call # calls) =
     (case receive_step r call of
        None \<Rightarrow> None
      | Some (r', h) \<Rightarrow> map_option (\<lambda>(r'', hs). (r'', h # hs)) (receive_run r' calls))"

definition audio_submitted :: "send_call list \<Rightarrow> audio_packet \<Rightarrow> bool" where
  "audio_submitted calls p \<longleftrightarrow>
     (\<exists>link clock ts codec channels rate audio.
        SendAudio link clock ts codec channels rate audio \<in> set calls \<and>
        same_packet ts codec channels rate audio p)"

definition mouse_submitted :: "send_call list \<Rightarrow> mouse_movement \<Rightarrow> bool" where
  "mouse_submitted calls m \<longleftrightarrow>
     (\<exists>link clock. SendMouse link clock (mm_mode m) (mm_x m) (mm_y m) (mm_display_id m)
        (mm_button_state_mask m) \<in> set calls)"

definition application_mouse_submitted :: "send_call list \<Rightarrow> mouse_movement \<times> bytes \<Rightarrow> bool" where
  "application_mouse_submitted calls mp \<longleftrightarrow>
     (\<exists>link clock. SendApplicationMouse link clock (mm_mode (fst mp)) (mm_x (fst mp)) (mm_y (fst mp))
        (mm_display_id (fst mp)) (mm_button_state_mask (fst mp)) (snd mp) \<in> set calls)"

definition frame_submitted :: "send_call list \<Rightarrow> complete_video_frame \<Rightarrow> bool" where
  "frame_submitted calls fr \<longleftrightarrow>
     (\<exists>link clock now. SendVideo link clock now (cf_metadata fr) (cf_payload fr) \<in> set calls)"

text \<open>The errors a datagram of the session can meet: a receiver that negotiated less, and the
  limits of the reassembler and of the audio buffer.\<close>

fun limit_error :: "quic_transport_error \<Rightarrow> bool" where
  "limit_error (ProtocolState (DatagramTooLong _ _)) \<longleftrightarrow> True"
| "limit_error (DatagramFailure (VideoCause _)) \<longleftrightarrow> True"
| "limit_error (DatagramFailure (AudioCause _)) \<longleftrightarrow> True"
| "limit_error _ \<longleftrightarrow> False"

fun submitted :: "send_call list \<Rightarrow> handed \<Rightarrow> bool" where
  "submitted calls (Event (Inl e)) \<longleftrightarrow> limit_error e"
| "submitted calls (Event (Inr (VideoEvent out))) \<longleftrightarrow> pred_option (frame_submitted calls) (vo_frame out)"
| "submitted calls (Event (Inr AudioAccepted)) \<longleftrightarrow> True"
| "submitted calls (Event (Inr (MouseEvent m))) \<longleftrightarrow> pred_option (mouse_submitted calls) m"
| "submitted calls (Event (Inr (ApplicationMouseEvent m))) \<longleftrightarrow>
     pred_option (application_mouse_submitted calls) m"
| "submitted calls (Playout (Some (PlayPacket p))) \<longleftrightarrow> audio_submitted calls p"
| "submitted calls (Playout _) \<longleftrightarrow> True"
| "submitted calls (Expiry out) \<longleftrightarrow> vo_frame out = None"
| "submitted calls ResetDone \<longleftrightarrow> True"

text \<open>The frames of the calls, cut to the datagram size of their connection.\<close>

definition cut_frames :: "usize \<Rightarrow> send_call list \<Rightarrow> cut_frame set" where
  "cut_frames neg calls =
     {(md, ps). \<exists>link clock now frame. SendVideo link clock now md frame \<in> set calls \<and>
        HEADER_LEN + VIDEO_FRAGMENT_HEADER_LEN < datagram_size neg link \<and>
        ps = frame_pieces frame (datagram_size neg link)}"

fun video_ids :: "send_call list \<Rightarrow> u64 list" where
  "video_ids [] = []"
| "video_ids (SendVideo link clock now md frame # calls) = vm_frame_id md # video_ids calls"
| "video_ids (_ # calls) = video_ids calls"

lemma video_ids_mem: "SendVideo link clock now md frame \<in> set calls \<Longrightarrow> vm_frame_id md \<in> set (video_ids calls)"
  by (induction calls rule: video_ids.induct) auto

lemma video_ids_distinct:
  "distinct (video_ids calls) \<Longrightarrow> SendVideo l1 c1 n1 md1 f1 \<in> set calls \<Longrightarrow>
     SendVideo l2 c2 n2 md2 f2 \<in> set calls \<Longrightarrow> vm_frame_id md1 = vm_frame_id md2 \<Longrightarrow>
     SendVideo l1 c1 n1 md1 f1 = SendVideo l2 c2 n2 md2 f2"
  by (induction calls rule: video_ids.induct) (auto dest: video_ids_mem)

lemma cut_frames_unambiguous:
  assumes "distinct (video_ids calls)"
  shows "unambiguous (cut_frames neg calls)"
  unfolding unambiguous_def
proof (rule inj_onI)
  fix f g assume "f \<in> cut_frames neg calls" "g \<in> cut_frames neg calls"
    and id: "(vm_frame_id \<circ> fst) f = (vm_frame_id \<circ> fst) g"
  then obtain l1 c1 n1 f1 l2 c2 n2 f2 where
    "SendVideo l1 c1 n1 (fst f) f1 \<in> set calls" "snd f = frame_pieces f1 (datagram_size neg l1)"
    "SendVideo l2 c2 n2 (fst g) f2 \<in> set calls" "snd g = frame_pieces f2 (datagram_size neg l2)"
    by (auto simp: cut_frames_def)
  with video_ids_distinct [OF assms, of l1 c1 n1 "fst f" f1 l2 c2 n2 "fst g" f2] id show "f = g"
    by (simp add: prod_eq_iff)
qed

lemma cut_frames_submitted:
  assumes "(cf_metadata fr, ps) \<in> cut_frames neg calls" and "cf_payload fr = concat ps"
  shows "frame_submitted calls fr"
proof -
  from assms obtain link clock now frame where "SendVideo link clock now (cf_metadata fr) frame \<in> set calls"
    and "cf_payload fr = frame"
    by (auto simp: cut_frames_def frame_pieces_concat)
  then show ?thesis by (auto simp: frame_submitted_def)
qed

definition faithful :: "usize \<Rightarrow> session_id \<Rightarrow> send_call list \<Rightarrow> datagram_receiver \<Rightarrow> bool" where
  "faithful neg sid calls r \<longleftrightarrow>
     dr_session_id r = sid \<and> mr_session_id (dr_mouse r) = sid \<and>
     video_inv (dr_video r) \<and> all_genuine (cut_frames neg calls) (dr_video r) \<and>
     audio_inv (dr_audio r) \<and>
     (\<forall>(k, p) \<in> set (ab_packets (dr_audio r)). audio_submitted calls (bp_packet p))"

lemma audio_push_submitted:
  assumes "audio_inv st" and "\<forall>(k, p) \<in> set (ab_packets st). audio_submitted calls (bp_packet p)"
    and "audio_submitted calls packet" and "audio_push st packet now = (st', r)"
  shows "\<forall>(k, p) \<in> set (ab_packets st'). audio_submitted calls (bp_packet p)"
proof (rule audio_push_cases [OF assms(1), of packet now])
  fix st1 assume m: "audio_make_room st (length (ap_payload packet)) = (True, st1)"
    and "audio_push st packet now = (insert_packet st1 packet now, Inr True)"
  with assms have "st' = insert_packet st1 packet now" by simp
  moreover have "set (ab_packets st1) \<subseteq> set (ab_packets st)"
    using audio_make_room_props [OF m] by (simp add: only_discards_def)
  ultimately show ?thesis
    using assms(2,3) set_bm_insert_subset [of "am_sequence_number (ap_metadata packet)" _ "ab_packets st1"]
    by (fastforce simp: insert_packet_def Let_def)
next
  fix st1 assume m: "audio_make_room st (length (ap_payload packet)) = (False, st1)"
    and "audio_push st packet now = (st1, Inl AudioMemoryLimit)"
  with assms audio_make_room_props [OF m] show ?thesis by (auto simp: only_discards_def)
qed (use assms in auto)

lemma pop_ready_submitted:
  assumes "\<forall>(k, p) \<in> set (ab_packets st). audio_submitted calls (bp_packet p)"
    and "pop_ready st now = (st', item)"
  shows "\<forall>(k, p) \<in> set (ab_packets st'). audio_submitted calls (bp_packet p)"
    and "submitted calls (Playout item)"
proof -
  let ?s = "discard_expired st now"
  have s: "\<forall>(k, p) \<in> set (ab_packets ?s). audio_submitted calls (bp_packet p)"
    using assms(1) only_discards_expired [of st now] by (auto simp: only_discards_def)
  have "(\<forall>(k, p) \<in> set (ab_packets st'). audio_submitted calls (bp_packet p)) \<and>
      submitted calls (Playout item)"
    by (rule pop_ready_cases [of st now]) (use s assms(2) in \<open>auto simp: set_bm_remove dest!: bm_get_mem\<close>)
  then show "\<forall>(k, p) \<in> set (ab_packets st'). audio_submitted calls (bp_packet p)"
    and "submitted calls (Playout item)" by auto
qed

section \<open>One step of the receiver\<close>

lemma receive_addressed:
  assumes "addressed sid mt n d" and "dr_session_id r = sid"
  obtains h where "mh_message_type h = mt" "unat (mh_payload_length h) = n"
    "receive_datagram r (Inr d) now =
       (if length d > dr_negotiated_max_datagram_size r
        then Some (r, Inl (ProtocolState (DatagramTooLong (length d) (dr_negotiated_max_datagram_size r))))
        else dispatch_datagram r h d now)"
proof -
  from assms(1) obtain m where m: "decode_message d = Inr m" "mh_message_type (pm_header m) = mt"
    "mh_session_id (pm_header m) = sid" "unat (mh_payload_length (pm_header m)) = n"
    by (auto simp: addressed_def)
  from m(1) have "\<not> length d < HEADER_LEN" by (auto simp: decode_message_def split: if_splits)
  with decode_message_header [OF m(1)] m assms(2) show thesis
    by (intro that [of "pm_header m"]) (auto simp: receive_datagram_def)
qed

lemma video_arrival:
  assumes "faithful neg sid calls r" and "distinct (video_ids calls)"
    and "SendVideo link clock t md frame \<in> set calls"
    and "speaks_for neg sid (SendVideo link clock t md frame) d"
  shows "\<exists>r' res. receive_datagram r (Inr d) now = Some (r', res) \<and> faithful neg sid calls r' \<and>
    submitted calls (Event res)"
proof -
  let ?ps = "frame_pieces frame (datagram_size neg link)"
  from assms(4) obtain n i where ad: "addressed sid VideoFragment n d"
    and sz: "HEADER_LEN + VIDEO_FRAGMENT_HEADER_LEN < datagram_size neg link"
    and c: "carries d (piece_header md frame (datagram_size neg link) i) (?ps ! i)" by auto
  have mem: "(md, ?ps) \<in> cut_frames neg calls" using assms(3) sz by (auto simp: cut_frames_def)
  from assms(1) have inv: "video_inv (dr_video r)" and gen: "all_genuine (cut_frames neg calls) (dr_video r)"
    by (simp_all add: faithful_def)
  from video_push_effect [OF inv] obtain v res where p: "video_push (dr_video r) d now = Some (v, res)"
    and eff: "push_effect (dr_video r) v res" by blast
  have v: "all_genuine (cut_frames neg calls) v \<and> frame_sent (cut_frames neg calls) res"
    using c by (intro video_push_genuine [OF p gen cut_frames_unambiguous [OF assms(2)] mem, of i "length frame"])
      (simp add: piece_header_def)
  from eff have "video_inv v" by (simp add: push_effect_def)
  with v assms(1) have r': "faithful neg sid calls (r\<lparr>dr_video := v\<rparr>)" by (simp add: faithful_def)
  from v have out: "pred_option (frame_submitted calls) (vo_frame out)" if "res = Inr out" for out
    using that cut_frames_submitted
    by (auto simp: frame_sent_def pred_option_def split: option.splits)
  obtain h where "mh_message_type h = VideoFragment" and "receive_datagram r (Inr d) now =
       (if length d > dr_negotiated_max_datagram_size r
        then Some (r, Inl (ProtocolState (DatagramTooLong (length d) (dr_negotiated_max_datagram_size r))))
        else dispatch_datagram r h d now)"
    using receive_addressed [OF ad, of r now] assms(1) by (auto simp: faithful_def)
  with p r' out assms(1) show ?thesis
    by (cases res) (auto simp: dispatch_datagram_def)
qed

lemma audio_arrival:
  assumes "faithful neg sid calls r"
    and "SendAudio link clock ts codec channels rate audio \<in> set calls"
    and "speaks_for neg sid (SendAudio link clock ts codec channels rate audio) d"
  shows "\<exists>r' res. receive_datagram r (Inr d) now = Some (r', res) \<and> faithful neg sid calls r' \<and>
    submitted calls (Event res)"
proof -
  from assms(3) obtain n p where ad: "addressed sid AudioPacketMessage n d"
    and p: "decode_audio_datagram d = Inr p" "same_packet ts codec channels rate audio p" by auto
  from assms(2) p(2) have sub: "audio_submitted calls p" unfolding audio_submitted_def by blast
  obtain a res where push: "audio_push (dr_audio r) p now = (a, res)" by fastforce
  have "audio_inv a" and "\<forall>(k, q) \<in> set (ab_packets a). audio_submitted calls (bp_packet q)"
    using assms(1) audio_push_inv [of "dr_audio r" p now] audio_push_submitted [OF _ _ sub push] push
    by (auto simp: faithful_def)
  with assms(1) have r': "faithful neg sid calls (r\<lparr>dr_audio := a\<rparr>)" by (simp add: faithful_def)
  obtain h where "mh_message_type h = AudioPacketMessage" and "receive_datagram r (Inr d) now =
       (if length d > dr_negotiated_max_datagram_size r
        then Some (r, Inl (ProtocolState (DatagramTooLong (length d) (dr_negotiated_max_datagram_size r))))
        else dispatch_datagram r h d now)"
    using receive_addressed [OF ad, of r now] assms(1) by (auto simp: faithful_def)
  with push p(1) r' assms(1) show ?thesis
    by (cases res) (auto simp: dispatch_datagram_def audio_push_datagram_def)
qed

lemma mouse_arrival:
  assumes "faithful neg sid calls r"
    and "SendMouse link clock mode x y display buttons \<in> set calls"
    and "speaks_for neg sid (SendMouse link clock mode x y display buttons) d"
  shows "\<exists>r' res. receive_datagram r (Inr d) now = Some (r', res) \<and> faithful neg sid calls r' \<and>
    submitted calls (Event res)"
proof -
  from assms(3) obtain m where ad: "addressed sid MouseMovementMessage MOUSE_MOVEMENT_PAYLOAD_LEN d"
    and m: "decode_mouse_movement d = Inr m" "same_movement mode x y display buttons m" by auto
  from assms(2) m(2) have sub: "mouse_submitted calls m" by (auto simp: mouse_submitted_def same_movement_def)
  obtain h where "mh_message_type h = MouseMovementMessage"
    and "unat (mh_payload_length h) = MOUSE_MOVEMENT_PAYLOAD_LEN" and "receive_datagram r (Inr d) now =
       (if length d > dr_negotiated_max_datagram_size r
        then Some (r, Inl (ProtocolState (DatagramTooLong (length d) (dr_negotiated_max_datagram_size r))))
        else dispatch_datagram r h d now)"
    using receive_addressed [OF ad, of r now] assms(1) by (auto simp: faithful_def)
  with ad m(1) sub assms(1) show ?thesis
    by (auto simp: dispatch_datagram_def mouse_apply_def addressed_def faithful_def)
qed

lemma application_mouse_arrival:
  assumes "faithful neg sid calls r"
    and "SendApplicationMouse link clock mode x y display buttons payload \<in> set calls"
    and "speaks_for neg sid (SendApplicationMouse link clock mode x y display buttons payload) d"
  shows "\<exists>r' res. receive_datagram r (Inr d) now = Some (r', res) \<and> faithful neg sid calls r' \<and>
    submitted calls (Event res)"
proof -
  from assms(3) obtain n m where ad: "addressed sid MouseMovementMessage n d" "MOUSE_MOVEMENT_PAYLOAD_LEN < n"
    and m: "decode_application_mouse_movement d = Inr (m, payload)"
      "same_movement mode x y display buttons m" by auto
  from assms(2) m(2) have sub: "application_mouse_submitted calls (m, payload)"
    by (auto simp: application_mouse_submitted_def same_movement_def)
  obtain h where "mh_message_type h = MouseMovementMessage"
    and "unat (mh_payload_length h) = n" and "receive_datagram r (Inr d) now =
       (if length d > dr_negotiated_max_datagram_size r
        then Some (r, Inl (ProtocolState (DatagramTooLong (length d) (dr_negotiated_max_datagram_size r))))
        else dispatch_datagram r h d now)"
    using receive_addressed [OF ad(1), of r now] assms(1) by (auto simp: faithful_def)
  with ad m(1) sub assms(1) show ?thesis
    by (auto simp: dispatch_datagram_def mouse_apply_application_def addressed_def faithful_def)
qed

lemma arrival:
  assumes "faithful neg sid calls r" and "distinct (video_ids calls)"
    and "call \<in> set calls" and "speaks_for neg sid call d"
  shows "\<exists>r' res. receive_datagram r (Inr d) now = Some (r', res) \<and> faithful neg sid calls r' \<and>
    submitted calls (Event res)"
  using assms video_arrival audio_arrival mouse_arrival application_mouse_arrival
  by (cases call) (metis, metis, metis, metis, simp)

definition arrives_from :: "bytes set \<Rightarrow> receive_call \<Rightarrow> bool" where
  "arrives_from ds call \<longleftrightarrow> (case call of Arrive d _ \<Rightarrow> d \<in> ds | _ \<Rightarrow> True)"

lemma receive_step_faithful:
  assumes "faithful neg sid calls r" and "distinct (video_ids calls)"
    and "arrives_from {d. \<exists>call \<in> set calls. speaks_for neg sid call d} rc"
  shows "\<exists>r' h. receive_step r rc = Some (r', h) \<and> faithful neg sid calls r' \<and> submitted calls h"
proof (cases rc)
  case (Arrive d now)
  with assms(3) obtain call where "call \<in> set calls" "speaks_for neg sid call d"
    by (auto simp: arrives_from_def)
  from arrival [OF assms(1,2) this, of now] Arrive show ?thesis by auto
next
  case (PopAudio now)
  obtain a item where p: "pop_ready (dr_audio r) now = (a, item)" by fastforce
  with assms(1) pop_ready_inv [of "dr_audio r" now] pop_ready_submitted [OF _ p, of calls] PopAudio
  show ?thesis by (auto simp: pop_audio_def faithful_def)
next
  case (ExpireVideo now)
  obtain v out where x: "video_expire (dr_video r) now = (v, out)" by fastforce
  note od = video_expire_only_drops [OF x]
  from assms(1) only_drops_inv [OF od] all_genuine_drops [OF od] video_expire_outcome [OF x] x ExpireVideo
  show ?thesis by (auto simp: expire_video_def faithful_def)
next
  case Reset
  have "audio_inv (audio_reset (dr_audio r))"
    using assms(1) by (auto simp: faithful_def audio_reset_def audio_inv_def buffer_inv_def)
  moreover have "video_inv (video_reset (dr_video r))"
    using assms(1) by (auto simp: faithful_def intro: video_reset_inv)
  moreover have "all_genuine sent (video_reset (dr_video r))" for sent
    by (simp add: all_genuine_def video_reset_def)
  ultimately show ?thesis
    using assms(1) Reset
    by (auto simp: datagram_reset_def faithful_def audio_reset_def mouse_reset_def)
qed

lemma receive_run_faithful:
  assumes "distinct (video_ids calls)"
    and "\<forall>rc \<in> set rcs. arrives_from {d. \<exists>call \<in> set calls. speaks_for neg sid call d} rc"
  shows "faithful neg sid calls r \<Longrightarrow>
    \<exists>r' hs. receive_run r rcs = Some (r', hs) \<and> list_all (submitted calls) hs"
  using assms(2)
proof (induction rcs arbitrary: r)
  case Nil
  then show ?case by simp
next
  case (Cons rc rcs)
  from receive_step_faithful [OF Cons.prems(1) assms(1), of rc] Cons.prems(2) obtain r1 h where
    s: "receive_step r rc = Some (r1, h)" "faithful neg sid calls r1" "submitted calls h" by auto
  from Cons.IH [OF s(2)] Cons.prems(2) s show ?case by auto
qed

lemma datagram_receiver_new_faithful:
  assumes "datagram_receiver_new sid vcfg acfg = Inr r"
    and "vc_max_memory_bytes vcfg < usize_max" and "ac_max_memory_bytes acfg < usize_max"
  shows "faithful neg sid calls (receiver_with_max_datagram_size r n)"
proof -
  from assms(1) obtain v a where v: "video_reassembler_new vcfg = Inr v" and a: "audio_buffer_new acfg = Inr a"
    and r: "r = \<lparr>dr_session_id = sid, dr_video = v, dr_audio = a, dr_mouse = mouse_receiver_new sid,
                dr_negotiated_max_datagram_size = usize_max\<rparr>"
    by (auto simp: datagram_receiver_new_def split: sum.splits)
  have "vr_pending v = []" using v by (auto simp: video_reassembler_new_def split: if_splits)
  with video_reassembler_new_inv [OF v assms(2)] audio_buffer_new_inv [OF a assms(3)] r show ?thesis
    by (simp add: faithful_def receiver_with_max_datagram_size_def mouse_receiver_new_def all_genuine_def)
qed

section \<open>Properties\<close>

text \<open>
  Property C4: the datagram session is faithful. A sender makes any calls, each video frame
  with an identifier of its own; the receiver of the same session gets any of the datagrams
  the connection took, in any order, at any times and as often as the network likes, and in
  between pops audio, expires video and resets. Then every call of the receiver returns, every
  video frame it hands out is one that was submitted, with its metadata and its bytes, every
  audio packet and every mouse movement handed out was submitted with exactly these values,
  and an error can only come from a length limit or from the limits of the reassembler and of
  the audio buffer.
\<close>

theorem datagram_session_faithful:
  assumes "length sid = 16" and "ds_session_id s = sid" and "distinct (video_ids calls)"
    and "datagram_receiver_new sid vcfg acfg = Inr r"
    and "vc_max_memory_bytes vcfg < usize_max" and "ac_max_memory_bytes acfg < usize_max"
    and "\<forall>rc \<in> set rcs. arrives_from (set (send_run (c, s) calls)) rc"
  shows "\<exists>r' hs. receive_run (receiver_with_max_datagram_size r n) rcs = Some (r', hs) \<and>
    list_all (submitted calls) hs"
proof -
  let ?neg = "ds_negotiated_max_datagram_size s"
  have "\<forall>rc \<in> set rcs. arrives_from {d. \<exists>call \<in> set calls. speaks_for ?neg sid call d} rc"
    using assms(7) send_run_speaks [OF assms(1,2) refl]
    by (fastforce simp: arrives_from_def split: receive_call.splits)
  from receive_run_faithful [OF assms(3) this datagram_receiver_new_faithful [OF assms(4-6)]]
  show ?thesis .
qed

text \<open>The three datagrams of a keyframe arrive in another order, one of them twice.\<close>

theorem datagram_session_faithful_witness:
  "\<exists>ds r' hs. fragment_video_frame sample_session 1 0 sample_metadata sample_frame 78 = Inr ds \<and>
     length ds = 3 \<and>
     receive_run (receiver_with_max_datagram_size
         \<lparr>dr_session_id = sample_session, dr_video = sample_reassembler, dr_audio = sample_audio_buffer,
          dr_mouse = mouse_receiver_new sample_session, dr_negotiated_max_datagram_size = usize_max\<rparr> 1200)
       [Arrive (ds ! 2) 0, Arrive (ds ! 0) 5, PopAudio 6, Arrive (ds ! 2) 7, Arrive (ds ! 1) 9]
       = Some (r', hs) \<and>
     list_all (submitted [SendVideo sample_link 0 0 sample_metadata sample_frame]) hs"
proof -
  let ?calls = "[SendVideo sample_link 0 0 sample_metadata sample_frame]"
  obtain c' s' ds where ds: "fragment_video_frame sample_session 1 0 sample_metadata sample_frame 78 = Inr ds"
      "length ds = 3"
    and st: "send_video_frame sample_link sample_coordinator sample_sender 0 0 sample_metadata sample_frame
       = (c', s', ds, Inr (Sent 3))" using sample_frame_sent by blast
  have run: "send_run (sample_coordinator, sample_sender) ?calls = ds" using st by simp
  have new: "datagram_receiver_new sample_session video_config_default audio_config_default
      = Inr \<lparr>dr_session_id = sample_session, dr_video = sample_reassembler, dr_audio = sample_audio_buffer,
          dr_mouse = mouse_receiver_new sample_session, dr_negotiated_max_datagram_size = usize_max\<rparr>"
    by (simp add: datagram_receiver_new_def sample_reassembler_new sample_audio_buffer_new)
  have "length sample_session = 16" by (simp add: sample_session_def)
  from datagram_session_faithful [OF this sample_sender_simps(2) _ new sample_memory sample_audio_memory,
      where calls = ?calls and c = sample_coordinator and n = 1200 and
        rcs = "[Arrive (ds ! 2) 0, Arrive (ds ! 0) 5, PopAudio 6, Arrive (ds ! 2) 7, Arrive (ds ! 1) 9]"]
    ds show ?thesis unfolding run by (simp add: arrives_from_def)
qed

end
