(* ===== verification/Handshake.thy ===== *)
theory Handshake
  imports Reliable
begin

text \<open>
  Authentication of a QUIC connection (\<open>src/transport/quic.rs\<close>): the signed hello messages of
  both sides, the transcripts they sign, and the control channel that results, with its
  sequence numbers and ping.

  Parameters: the signature scheme of libsodium (\<open>signing\<close>), the TLS exporter of the
  connection, the streams that \<open>open_bi\<close> and \<open>accept_bi\<close> return, the random nonce and the clock.
  A \<open>timeout\<close> around an authentication is the parameter \<open>timed_out\<close>. Error texts are
  represented by their cause.
\<close>

section \<open>Constants\<close>

definition EXPORTER_LEN :: usize where "EXPORTER_LEN = 32"
definition IDENTITY_PUBLIC_KEY_LEN :: usize where "IDENTITY_PUBLIC_KEY_LEN = 32"
definition IDENTITY_SIGNATURE_LEN :: usize where "IDENTITY_SIGNATURE_LEN = 64"
definition NONCE_LEN :: usize where "NONCE_LEN = 32"
definition CLIENT_HELLO_LEN :: usize where
  "CLIENT_HELLO_LEN = 4 + IDENTITY_PUBLIC_KEY_LEN + NONCE_LEN + IDENTITY_SIGNATURE_LEN"
definition SERVER_HELLO_LEN :: usize where
  "SERVER_HELLO_LEN = 4 + IDENTITY_PUBLIC_KEY_LEN + NONCE_LEN + NONCE_LEN + IDENTITY_SIGNATURE_LEN"
definition ROLE_CLIENT :: u8 where "ROLE_CLIENT = 1"
definition ROLE_SERVER :: u8 where "ROLE_SERVER = 2"

definition string_bytes :: "string \<Rightarrow> bytes" where
  "string_bytes s = map of_char s"

section \<open>Identities and transcripts\<close>

text \<open>The detached signatures of libsodium; \<open>sg_decodable\<close> is \<open>Signature::from_bytes\<close>.\<close>

record 'sk signing =
  sg_sign :: "bytes \<Rightarrow> 'sk \<Rightarrow> bytes"
  sg_verify :: "bytes \<Rightarrow> bytes \<Rightarrow> bytes \<Rightarrow> bool"
  sg_decodable :: "bytes \<Rightarrow> bool"
  sg_secret_from_slice :: "bytes \<Rightarrow> 'sk option"
  sg_public_key :: "'sk \<Rightarrow> bytes"

record 'sk device_identity =
  di_secret_key :: 'sk
  di_public_key :: bytes

datatype identity_error = SodiumUnavailable | InvalidSecretKey | InvalidPublicKey | KeypairMismatch

definition identity_from_bytes ::
    "'sk signing \<Rightarrow> bool \<Rightarrow> bytes \<Rightarrow> bytes \<Rightarrow> identity_error + 'sk device_identity" where
  "identity_from_bytes G initialized secret_key public_key =
     (if \<not> initialized then Inl SodiumUnavailable
      else case sg_secret_from_slice G secret_key of
        None \<Rightarrow> Inl InvalidSecretKey
      | Some sk \<Rightarrow>
        if length public_key \<noteq> IDENTITY_PUBLIC_KEY_LEN then Inl InvalidPublicKey
        else if sg_public_key G sk \<noteq> public_key then Inl KeypairMismatch
        else Inr \<lparr>di_secret_key = sk, di_public_key = public_key\<rparr>)"

definition client_transcript :: "session_id \<Rightarrow> bytes \<Rightarrow> bytes \<Rightarrow> bytes \<Rightarrow> bytes" where
  "client_transcript session_id exporter public_key nonce =
     string_bytes ''rustadmin-quic-client-auth-v1'' @ exporter @ session_id @ public_key @ nonce"

definition server_transcript ::
    "session_id \<Rightarrow> bytes \<Rightarrow> bytes \<Rightarrow> bytes \<Rightarrow> bytes \<Rightarrow> bytes \<Rightarrow> bytes" where
  "server_transcript session_id exporter client_key client_nonce server_key server_nonce =
     string_bytes ''rustadmin-quic-server-auth-v1'' @ exporter @ session_id @ client_key @
     client_nonce @ server_key @ server_nonce"

section \<open>Hello messages\<close>

datatype auth_fault =
    MalformedClientHello | MalformedServerHello
  | InvalidClientKey | InvalidServerKey
  | InvalidClientSignature | InvalidServerSignature
  | ClientVerificationFailed | ServerVerificationFailed
  | ClientNonceMismatch
  | ClientHelloHeader | ServerHelloHeader
  | UntrustedClientKey | UntrustedServerKey
  | ExporterUnavailable
  | UnexpectedHandshake message_type message_type
  | InvalidPingResponse | UnboundedPing

datatype control_fault =
    NotControlMessage message_type
  | ControlSequenceExhausted
  | ControlSessionChanged
  | DuplicateControlSequence

datatype control_error =
    AuthenticationFailure auth_fault
  | ControlStream string
  | ControlProtocol protocol_error
  | ControlState control_fault
  | AuthenticationTimeout

definition encode_client_hello ::
    "'sk signing \<Rightarrow> 'sk device_identity \<Rightarrow> session_id \<Rightarrow> bytes \<Rightarrow> bytes \<Rightarrow> bytes" where
  "encode_client_hello G identity session_id exporter nonce =
     (let public_key = di_public_key identity;
          transcript = client_transcript session_id exporter public_key nonce;
          signature = sg_sign G transcript (di_secret_key identity) in
      [ROLE_CLIENT, 0, 0, 0] @ public_key @ nonce @ signature)"

definition parse_client_hello ::
    "'sk signing \<Rightarrow> bytes \<Rightarrow> session_id \<Rightarrow> bytes \<Rightarrow> control_error + bytes \<times> bytes" where
  "parse_client_hello G payload session_id exporter =
     (if length payload \<noteq> CLIENT_HELLO_LEN \<or> take 4 payload \<noteq> [ROLE_CLIENT, 0, 0, 0]
        then Inl (AuthenticationFailure MalformedClientHello)
      else
        (let public_key = byte_slice payload 4 36;
             nonce = byte_slice payload 36 68;
             signature = byte_slice payload 68 132 in
         if length public_key \<noteq> IDENTITY_PUBLIC_KEY_LEN
           then Inl (AuthenticationFailure InvalidClientKey)
         else if \<not> sg_decodable G signature
           then Inl (AuthenticationFailure InvalidClientSignature)
         else if \<not> sg_verify G signature
                      (client_transcript session_id exporter public_key nonce) public_key
           then Inl (AuthenticationFailure ClientVerificationFailed)
         else Inr (public_key, nonce)))"

definition encode_server_hello ::
    "'sk signing \<Rightarrow> 'sk device_identity \<Rightarrow> session_id \<Rightarrow> bytes \<Rightarrow> bytes \<Rightarrow> bytes \<Rightarrow> bytes \<Rightarrow> bytes" where
  "encode_server_hello G identity session_id exporter client_key client_nonce server_nonce =
     (let public_key = di_public_key identity;
          transcript = server_transcript session_id exporter client_key client_nonce public_key
            server_nonce;
          signature = sg_sign G transcript (di_secret_key identity) in
      [ROLE_SERVER, 0, 0, 0] @ public_key @ server_nonce @ client_nonce @ signature)"

definition parse_server_hello ::
    "'sk signing \<Rightarrow> bytes \<Rightarrow> session_id \<Rightarrow> bytes \<Rightarrow> bytes \<Rightarrow> bytes \<Rightarrow> control_error + bytes \<times> bytes" where
  "parse_server_hello G payload session_id exporter client_nonce client_key =
     (if length payload \<noteq> SERVER_HELLO_LEN \<or> take 4 payload \<noteq> [ROLE_SERVER, 0, 0, 0]
        then Inl (AuthenticationFailure MalformedServerHello)
      else
        (let public_key = byte_slice payload 4 36;
             server_nonce = byte_slice payload 36 68;
             echoed_client_nonce = byte_slice payload 68 100 in
         if echoed_client_nonce \<noteq> client_nonce
           then Inl (AuthenticationFailure ClientNonceMismatch)
         else
           (let signature = byte_slice payload 100 164 in
            if length public_key \<noteq> IDENTITY_PUBLIC_KEY_LEN
              then Inl (AuthenticationFailure InvalidServerKey)
            else if \<not> sg_decodable G signature
              then Inl (AuthenticationFailure InvalidServerSignature)
            else if \<not> sg_verify G signature
                         (server_transcript session_id exporter client_key client_nonce public_key
                            server_nonce) public_key
              then Inl (AuthenticationFailure ServerVerificationFailed)
            else Inr (public_key, server_nonce))))"

section \<open>Messages on the stream\<close>

definition write_message ::
    "'s send_stream \<Rightarrow> 's \<Rightarrow> message_header \<Rightarrow> bytes \<Rightarrow> 's \<times> (control_error + unit)" where
  "write_message S send header payload =
     (case encode_message header payload of
        Inl e \<Rightarrow> (send, Inl (ControlProtocol e))
      | Inr packet \<Rightarrow> (case ss_write_all S send packet of (send', r) \<Rightarrow> (send', map_err ControlStream r)))"

definition read_header ::
    "'r recv_stream \<Rightarrow> 'r \<Rightarrow> 'r \<times> (control_error + bytes \<times> message_header)" where
  "read_header R receive =
     (case rs_read_exact R receive HEADER_LEN of
        (receive', Inl e) \<Rightarrow> (receive', Inl (ControlStream e))
      | (receive', Inr encoded_header) \<Rightarrow>
        (receive', case decode_header encoded_header of
                     Inl e \<Rightarrow> Inl (ControlProtocol e)
                   | Inr header \<Rightarrow> Inr (encoded_header, header)))"

definition read_payload ::
    "'r recv_stream \<Rightarrow> 'r \<Rightarrow> bytes \<Rightarrow> message_header \<Rightarrow> 'r \<times> (control_error + parsed_message)" where
  "read_payload R receive encoded_header header =
     (case rs_read_exact R receive (unat (mh_payload_length header)) of
        (receive', Inl e) \<Rightarrow> (receive', Inl (ControlStream e))
      | (receive', Inr payload) \<Rightarrow>
        (receive', case decode_message (encoded_header @ payload) of
                     Inl e \<Rightarrow> Inl (ControlProtocol e)
                   | Inr parsed \<Rightarrow> Inr \<lparr>pm_header = pm_header parsed, pm_payload = payload\<rparr>))"

definition read_message :: "'r recv_stream \<Rightarrow> 'r \<Rightarrow> 'r \<times> (control_error + parsed_message)" where
  "read_message R receive =
     (case read_header R receive of
        (receive', Inl e) \<Rightarrow> (receive', Inl e)
      | (receive', Inr (encoded_header, header)) \<Rightarrow> read_payload R receive' encoded_header header)"

definition read_handshake_message ::
    "'r recv_stream \<Rightarrow> 'r \<Rightarrow> message_type \<Rightarrow> 'r \<times> (control_error + parsed_message)" where
  "read_handshake_message R receive expected =
     (case read_header R receive of
        (receive', Inl e) \<Rightarrow> (receive', Inl e)
      | (receive', Inr (encoded_header, header)) \<Rightarrow>
        if mh_message_type header \<noteq> expected
          then (receive', Inl (AuthenticationFailure
                 (UnexpectedHandshake expected (mh_message_type header))))
        else read_payload R receive' encoded_header header)"

section \<open>Authentication\<close>

record ('s, 'r) control_channel =
  cc_send :: 's
  cc_receive :: 'r
  cc_session_id :: session_id
  cc_next_outgoing_sequence :: u64
  cc_last_incoming_sequence :: u64
  cc_peer_identity_key :: bytes

definition control_channel_new ::
    "'s \<Rightarrow> 'r \<Rightarrow> session_id \<Rightarrow> bytes \<Rightarrow> ('s, 'r) control_channel" where
  "control_channel_new send receive session_id peer_key =
     \<lparr>cc_send = send, cc_receive = receive, cc_session_id = session_id,
      cc_next_outgoing_sequence = 2, cc_last_incoming_sequence = 1,
      cc_peer_identity_key = peer_key\<rparr>"

definition export_keying_material ::
    "(session_id \<Rightarrow> bytes option) \<Rightarrow> session_id \<Rightarrow> control_error + bytes" where
  "export_keying_material exported session_id =
     ok_or (exported session_id) (AuthenticationFailure ExporterUnavailable)"

text \<open>The two halves of \<open>authenticate_client_inner\<close>, before and after the answer is awaited.
  \<open>i32::MAX\<close> is the priority of the control stream.\<close>

definition client_begin ::
    "'sk signing \<Rightarrow> 's send_stream \<Rightarrow> (session_id \<Rightarrow> bytes option) \<Rightarrow> string + 's \<times> 'r
     \<Rightarrow> 'sk device_identity \<Rightarrow> session_id \<Rightarrow> bytes \<Rightarrow> u64 \<Rightarrow> control_error + bytes \<times> 's \<times> 'r" where
  "client_begin G S exported opened identity session_id client_nonce timestamp =
     (case export_keying_material exported session_id of
        Inl e \<Rightarrow> Inl e
      | Inr exporter \<Rightarrow>
      (case opened of
        Inl e \<Rightarrow> Inl (ControlStream e)
      | Inr (send, receive) \<Rightarrow>
      (case ss_set_priority S send (2 ^ 31 - 1) of
        (_, Inl e) \<Rightarrow> Inl (ControlStream e)
      | (send', Inr _) \<Rightarrow>
        (let client_payload = encode_client_hello G identity session_id exporter client_nonce in
         case message_header_new ClientHello FLAG_ACK_REQUIRED session_id 1
                (length client_payload) timestamp of
           Inl e \<Rightarrow> Inl (ControlProtocol e)
         | Inr header \<Rightarrow>
         (case write_message S send' header client_payload of
            (_, Inl e) \<Rightarrow> Inl e
          | (send'', Inr _) \<Rightarrow> Inr (exporter, send'', receive))))))"

definition client_complete ::
    "'sk signing \<Rightarrow> 'r recv_stream \<Rightarrow> 'sk device_identity \<Rightarrow> bytes option \<Rightarrow> session_id \<Rightarrow> bytes
     \<Rightarrow> bytes \<times> 's \<times> 'r \<Rightarrow> control_error + ('s, 'r) control_channel" where
  "client_complete G R identity expected_server_identity_key session_id client_nonce begun =
     (case begun of (exporter, send, receive) \<Rightarrow>
      (case read_handshake_message R receive ServerHello of
         (_, Inl e) \<Rightarrow> Inl e
       | (receive', Inr response) \<Rightarrow>
         if mh_message_type (pm_header response) \<noteq> ServerHello
            \<or> mh_session_id (pm_header response) \<noteq> session_id
            \<or> mh_sequence_number (pm_header response) \<noteq> 1
            \<or> mh_flags (pm_header response) AND FLAG_RESPONSE = 0
           then Inl (AuthenticationFailure ServerHelloHeader)
         else case parse_server_hello G (pm_payload response) session_id exporter client_nonce
                     (di_public_key identity) of
           Inl e \<Rightarrow> Inl e
         | Inr (server_key, server_nonce) \<Rightarrow>
           if (case expected_server_identity_key of None \<Rightarrow> False
               | Some expected \<Rightarrow> server_key \<noteq> expected)
             then Inl (AuthenticationFailure UntrustedServerKey)
           else Inr (control_channel_new send receive' session_id server_key)))"

definition authenticate_client_inner ::
    "'sk signing \<Rightarrow> 's send_stream \<Rightarrow> 'r recv_stream \<Rightarrow> (session_id \<Rightarrow> bytes option) \<Rightarrow> string + 's \<times> 'r
     \<Rightarrow> 'sk device_identity \<Rightarrow> bytes option \<Rightarrow> session_id \<Rightarrow> bytes \<Rightarrow> u64
     \<Rightarrow> control_error + ('s, 'r) control_channel" where
  "authenticate_client_inner G S R exported opened identity expected_server_identity_key session_id
     client_nonce timestamp =
     (case client_begin G S exported opened identity session_id client_nonce timestamp of
        Inl e \<Rightarrow> Inl e
      | Inr begun \<Rightarrow>
          client_complete G R identity expected_server_identity_key session_id client_nonce begun)"

text \<open>The answer of the server, the same in both server functions.\<close>

definition server_answer ::
    "'sk signing \<Rightarrow> 's send_stream \<Rightarrow> 's \<Rightarrow> 'r \<Rightarrow> 'sk device_identity \<Rightarrow> bytes option \<Rightarrow> session_id
     \<Rightarrow> bytes \<Rightarrow> bytes \<Rightarrow> u64 \<Rightarrow> bytes \<Rightarrow> control_error + ('s, 'r) control_channel" where
  "server_answer G S send receive identity expected_client_identity_key session_id exporter
     server_nonce timestamp payload =
     (case parse_client_hello G payload session_id exporter of
        Inl e \<Rightarrow> Inl e
      | Inr (client_key, client_nonce) \<Rightarrow>
        if (case expected_client_identity_key of None \<Rightarrow> False
            | Some expected \<Rightarrow> client_key \<noteq> expected)
          then Inl (AuthenticationFailure UntrustedClientKey)
        else
          (let server_payload = encode_server_hello G identity session_id exporter client_key
                 client_nonce server_nonce in
           case message_header_new ServerHello FLAG_RESPONSE session_id 1 (length server_payload)
                  timestamp of
             Inl e \<Rightarrow> Inl (ControlProtocol e)
           | Inr header \<Rightarrow>
           (case write_message S send header server_payload of
              (_, Inl e) \<Rightarrow> Inl e
            | (send', Inr _) \<Rightarrow> Inr (control_channel_new send' receive session_id client_key))))"

definition authenticate_server_inner ::
    "'sk signing \<Rightarrow> 's send_stream \<Rightarrow> 'r recv_stream \<Rightarrow> (session_id \<Rightarrow> bytes option) \<Rightarrow> string + 's \<times> 'r
     \<Rightarrow> 'sk device_identity \<Rightarrow> bytes option \<Rightarrow> session_id \<Rightarrow> bytes \<Rightarrow> u64
     \<Rightarrow> control_error + ('s, 'r) control_channel" where
  "authenticate_server_inner G S R exported accepted identity expected_client_identity_key session_id
     server_nonce timestamp =
     (case export_keying_material exported session_id of
        Inl e \<Rightarrow> Inl e
      | Inr exporter \<Rightarrow>
      (case accepted of
        Inl e \<Rightarrow> Inl (ControlStream e)
      | Inr (send, receive) \<Rightarrow>
      (case ss_set_priority S send (2 ^ 31 - 1) of
        (_, Inl e) \<Rightarrow> Inl (ControlStream e)
      | (send', Inr _) \<Rightarrow>
      (case read_handshake_message R receive ClientHello of
        (_, Inl e) \<Rightarrow> Inl e
      | (receive', Inr request) \<Rightarrow>
        if mh_message_type (pm_header request) \<noteq> ClientHello
           \<or> mh_session_id (pm_header request) \<noteq> session_id
           \<or> mh_sequence_number (pm_header request) \<noteq> 1
           \<or> mh_flags (pm_header request) AND FLAG_ACK_REQUIRED = 0
          then Inl (AuthenticationFailure ClientHelloHeader)
        else server_answer G S send' receive' identity expected_client_identity_key session_id
               exporter server_nonce timestamp (pm_payload request)))))"

definition authenticate_server_discover_session_inner ::
    "'sk signing \<Rightarrow> 's send_stream \<Rightarrow> 'r recv_stream \<Rightarrow> (session_id \<Rightarrow> bytes option) \<Rightarrow> string + 's \<times> 'r
     \<Rightarrow> 'sk device_identity \<Rightarrow> bytes option \<Rightarrow> bytes \<Rightarrow> u64
     \<Rightarrow> control_error + ('s, 'r) control_channel" where
  "authenticate_server_discover_session_inner G S R exported accepted identity
     expected_client_identity_key server_nonce timestamp =
     (case accepted of
        Inl e \<Rightarrow> Inl (ControlStream e)
      | Inr (send, receive) \<Rightarrow>
      (case ss_set_priority S send (2 ^ 31 - 1) of
        (_, Inl e) \<Rightarrow> Inl (ControlStream e)
      | (send', Inr _) \<Rightarrow>
      (case read_handshake_message R receive ClientHello of
        (_, Inl e) \<Rightarrow> Inl e
      | (receive', Inr request) \<Rightarrow>
        if mh_message_type (pm_header request) \<noteq> ClientHello
           \<or> mh_sequence_number (pm_header request) \<noteq> 1
           \<or> mh_flags (pm_header request) AND FLAG_ACK_REQUIRED = 0
          then Inl (AuthenticationFailure ClientHelloHeader)
        else
          (let session_id = mh_session_id (pm_header request) in
           case export_keying_material exported session_id of
             Inl e \<Rightarrow> Inl e
           | Inr exporter \<Rightarrow>
               server_answer G S send' receive' identity expected_client_identity_key session_id
                 exporter server_nonce timestamp (pm_payload request)))))"

text \<open>The timeout around the five entry points. The second component says whether the
  connection is closed: it is after a failure, but not after a timeout.\<close>

definition with_auth_timeout :: "bool \<Rightarrow> control_error + 'c \<Rightarrow> (control_error + 'c) \<times> bool" where
  "with_auth_timeout timed_out result =
     (if timed_out then (Inl AuthenticationTimeout, False)
      else (result, case result of Inl _ \<Rightarrow> True | Inr _ \<Rightarrow> False))"

section \<open>The control channel\<close>

definition take_sequence :: "('s, 'r) control_channel \<Rightarrow> ('s, 'r) control_channel \<times> (control_error + u64)" where
  "take_sequence ch =
     (let sequence = cc_next_outgoing_sequence ch in
      case checked_add sequence 1 of
        None \<Rightarrow> (ch, Inl (ControlState ControlSequenceExhausted))
      | Some next \<Rightarrow> (ch\<lparr>cc_next_outgoing_sequence := next\<rparr>, Inr sequence))"

text \<open>Taking a number, making the header and writing the message.\<close>

definition write_control ::
    "'s send_stream \<Rightarrow> ('s, 'r) control_channel \<Rightarrow> message_type \<Rightarrow> u16 \<Rightarrow> u64 \<Rightarrow> bytes
     \<Rightarrow> ('s, 'r) control_channel \<times> (control_error + u64)" where
  "write_control S ch message_type flags timestamp payload =
     (case take_sequence ch of
        (ch1, Inl e) \<Rightarrow> (ch1, Inl e)
      | (ch1, Inr sequence) \<Rightarrow>
        (case message_header_new message_type flags (cc_session_id ch1) sequence (length payload)
                timestamp of
           Inl e \<Rightarrow> (ch1, Inl (ControlProtocol e))
         | Inr header \<Rightarrow>
           (case write_message S (cc_send ch1) header payload of
              (send', Inl e) \<Rightarrow> (ch1\<lparr>cc_send := send'\<rparr>, Inl e)
            | (send', Inr _) \<Rightarrow> (ch1\<lparr>cc_send := send'\<rparr>, Inr sequence))))"

definition send_control ::
    "'s send_stream \<Rightarrow> ('s, 'r) control_channel \<Rightarrow> message_type \<Rightarrow> u16 \<Rightarrow> u64 \<Rightarrow> bytes
     \<Rightarrow> ('s, 'r) control_channel \<times> (control_error + u64)" where
  "send_control S ch message_type flags timestamp payload =
     (if message_channel message_type \<noteq> Ch_Control \<or> message_type \<in> {ClientHello, ServerHello}
        then (ch, Inl (ControlState (NotControlMessage message_type)))
      else write_control S ch message_type flags timestamp payload)"

definition read_control_message ::
    "'r recv_stream \<Rightarrow> ('s, 'r) control_channel
     \<Rightarrow> ('s, 'r) control_channel \<times> (control_error + parsed_message)" where
  "read_control_message R ch =
     (case read_message R (cc_receive ch) of
        (receive', Inl e) \<Rightarrow> (ch\<lparr>cc_receive := receive'\<rparr>, Inl e)
      | (receive', Inr message) \<Rightarrow>
        (let ch1 = ch\<lparr>cc_receive := receive'\<rparr> in
         if mh_session_id (pm_header message) \<noteq> cc_session_id ch1
           then (ch1, Inl (ControlState ControlSessionChanged))
         else if mh_sequence_number (pm_header message) \<le> cc_last_incoming_sequence ch1
           then (ch1, Inl (ControlState DuplicateControlSequence))
         else (ch1\<lparr>cc_last_incoming_sequence := mh_sequence_number (pm_header message)\<rparr>,
               Inr message)))"

text \<open>\<open>ping\<close> before and after the answer is awaited.\<close>

definition ping_begin ::
    "'s send_stream \<Rightarrow> ('s, 'r) control_channel \<Rightarrow> bytes \<Rightarrow> u64
     \<Rightarrow> ('s, 'r) control_channel \<times> (control_error + u64)" where
  "ping_begin S ch nonce timestamp = write_control S ch Ping FLAG_ACK_REQUIRED timestamp nonce"

definition ping_complete ::
    "'r recv_stream \<Rightarrow> ('s, 'r) control_channel \<Rightarrow> bytes \<Rightarrow> ('s, 'r) control_channel \<times> (control_error + unit)" where
  "ping_complete R ch nonce =
     (case read_control_message R ch of
        (ch1, Inl e) \<Rightarrow> (ch1, Inl e)
      | (ch1, Inr response) \<Rightarrow>
        if mh_message_type (pm_header response) \<noteq> Pong
           \<or> mh_flags (pm_header response) AND FLAG_RESPONSE = 0
           \<or> pm_payload response \<noteq> nonce
          then (ch1, Inl (AuthenticationFailure InvalidPingResponse))
        else (ch1, Inr ()))"

definition respond_to_ping ::
    "'s send_stream \<Rightarrow> 'r recv_stream \<Rightarrow> ('s, 'r) control_channel \<Rightarrow> u64
     \<Rightarrow> ('s, 'r) control_channel \<times> (control_error + unit)" where
  "respond_to_ping S R ch timestamp =
     (case read_control_message R ch of
        (ch1, Inl e) \<Rightarrow> (ch1, Inl e)
      | (ch1, Inr request) \<Rightarrow>
        if mh_message_type (pm_header request) \<noteq> Ping \<or> length (pm_payload request) \<noteq> 8
          then (ch1, Inl (AuthenticationFailure UnboundedPing))
        else case write_control S ch1 Pong FLAG_RESPONSE timestamp (pm_payload request) of
          (ch2, Inl e) \<Rightarrow> (ch2, Inl e)
        | (ch2, Inr _) \<Rightarrow> (ch2, Inr ()))"

section \<open>Application protocol\<close>

datatype quic_application_protocol = V1 | V2 | V3 | V4

definition ALPN_V1 :: bytes where "ALPN_V1 = string_bytes ''rustadmin-quic-v1''"
definition ALPN_V2 :: bytes where "ALPN_V2 = string_bytes ''rustadmin-quic-v2''"
definition ALPN_V3 :: bytes where "ALPN_V3 = string_bytes ''rustadmin-quic-v3''"
definition ALPN_V4 :: bytes where "ALPN_V4 = string_bytes ''rustadmin-quic-v4''"

definition supported_alpn_protocols :: "bool \<Rightarrow> bytes list" where
  "supported_alpn_protocols enable_application_protocol_v2 =
     (if enable_application_protocol_v2 then [ALPN_V4, ALPN_V3, ALPN_V2, ALPN_V1] else [ALPN_V1])"

datatype alpn_error = MetadataUnavailable | UnexpectedMetadata | UnsupportedAlpn bytes | NoAlpn

text \<open>The handshake metadata of the connection: absent, of another kind, or the protocol.\<close>

definition negotiated_application_protocol ::
    "bytes option option option \<Rightarrow> alpn_error + quic_application_protocol" where
  "negotiated_application_protocol handshake_data =
     (case handshake_data of
        None \<Rightarrow> Inl MetadataUnavailable
      | Some None \<Rightarrow> Inl UnexpectedMetadata
      | Some (Some None) \<Rightarrow> Inl NoAlpn
      | Some (Some (Some protocol)) \<Rightarrow>
          if protocol = ALPN_V4 then Inr V4
          else if protocol = ALPN_V3 then Inr V3
          else if protocol = ALPN_V2 then Inr V2
          else if protocol = ALPN_V1 then Inr V1
          else Inl (UnsupportedAlpn protocol))"

fun supports_reliable_keyframes :: "quic_application_protocol \<Rightarrow> bool" where
  "supports_reliable_keyframes v \<longleftrightarrow> v \<in> {V2, V3, V4}"

fun supports_scoped_video_reference_refresh :: "quic_application_protocol \<Rightarrow> bool" where
  "supports_scoped_video_reference_refresh v \<longleftrightarrow> v \<in> {V3, V4}"

fun supports_reliable_keyframe_barrier :: "quic_application_protocol \<Rightarrow> bool" where
  "supports_reliable_keyframe_barrier v \<longleftrightarrow> v = V4"

section \<open>Certificates\<close>

definition MAX_PEER_CERTIFICATE_BYTES :: usize where "MAX_PEER_CERTIFICATE_BYTES = 16 * 1024"

datatype certificate_error = MissingPeerCertificate | BadCertificateSize | CertificatePinMismatch | BindingMismatch

text \<open>\<open>presented\<close> is the certificate chain of the connection, if it has one.\<close>

definition peer_certificate_der :: "bytes list option \<Rightarrow> certificate_error + bytes" where
  "peer_certificate_der presented =
     (case presented of
        None \<Rightarrow> Inl MissingPeerCertificate
      | Some [] \<Rightarrow> Inl MissingPeerCertificate
      | Some (certificate # _) \<Rightarrow>
          if certificate = [] \<or> length certificate > MAX_PEER_CERTIFICATE_BYTES
            then Inl BadCertificateSize
          else Inr certificate)"

definition verify_peer_certificate ::
    "(bytes \<Rightarrow> bytes) \<Rightarrow> bytes list option \<Rightarrow> bytes \<Rightarrow> certificate_error + unit" where
  "verify_peer_certificate sha256 presented expected =
     (case peer_certificate_der presented of
        Inl e \<Rightarrow> Inl e
      | Inr certificate \<Rightarrow>
          if sha256 certificate \<noteq> expected then Inl CertificatePinMismatch else Inr ())"

record peer_binding =
  pb_identity_key :: bytes
  pb_certificate_der :: bytes
  pb_certificate_pin :: bytes

definition peer_binding_capture ::
    "(bytes \<Rightarrow> bytes) \<Rightarrow> bytes list option \<Rightarrow> ('s, 'r) control_channel \<Rightarrow> certificate_error + peer_binding" where
  "peer_binding_capture sha256 presented ch =
     (case peer_certificate_der presented of
        Inl e \<Rightarrow> Inl e
      | Inr certificate \<Rightarrow>
          Inr \<lparr>pb_identity_key = cc_peer_identity_key ch, pb_certificate_der = certificate,
               pb_certificate_pin = sha256 certificate\<rparr>)"

definition verify_signed_identity :: "peer_binding \<Rightarrow> bytes \<Rightarrow> bytes \<Rightarrow> certificate_error + unit" where
  "verify_signed_identity binding identity_key certificate_der =
     (if pb_identity_key binding \<noteq> identity_key \<or> pb_certificate_der binding \<noteq> certificate_der
        then Inl BindingMismatch else Inr ())"

end
