(* ===== verification/Handshake_Properties.thy ===== *)
theory Handshake_Properties
  imports Handshake Reliable_Delivery
begin

text \<open>
  What the authentication of a QUIC connection guarantees: the transcripts determine the
  session, the TLS exporter, the keys and the nonces, and the two roles cannot be confused, so
  that an accepted hello with an honest key is an agreement with a run of the peer; and two
  honest sides that are given each other's bytes complete.
\<close>

section \<open>Transcripts\<close>

lemma auth_prefixes:
  "length (string_bytes ''rustadmin-quic-client-auth-v1'') = 29"
  "length (string_bytes ''rustadmin-quic-server-auth-v1'') = 29"
  "string_bytes ''rustadmin-quic-client-auth-v1'' \<noteq> string_bytes ''rustadmin-quic-server-auth-v1''"
  by (simp_all add: string_bytes_def)

lemma client_transcript_inject:
  assumes "length ex = length ex'" and "length sid = length sid'" and "length pk = length pk'"
  shows "client_transcript sid ex pk n = client_transcript sid' ex' pk' n' \<longleftrightarrow>
    sid = sid' \<and> ex = ex' \<and> pk = pk' \<and> n = n'"
  using assms by (auto simp: client_transcript_def)

lemma server_transcript_inject:
  assumes "length ex = length ex'" and "length sid = length sid'" and "length ck = length ck'"
    and "length cn = length cn'" and "length sk = length sk'"
  shows "server_transcript sid ex ck cn sk sn = server_transcript sid' ex' ck' cn' sk' sn' \<longleftrightarrow>
    sid = sid' \<and> ex = ex' \<and> ck = ck' \<and> cn = cn' \<and> sk = sk' \<and> sn = sn'"
  using assms by (auto simp: server_transcript_def)

lemma transcripts_differ: "client_transcript sid ex pk n \<noteq> server_transcript sid' ex' ck cn sk sn"
  using auth_prefixes by (simp add: client_transcript_def server_transcript_def)

section \<open>Hello messages\<close>

lemma parse_client_hello_Inr:
  assumes "parse_client_hello G payload sid ex = Inr (pk, n)"
  shows "length pk = 32" and "length n = 32"
    and "\<exists>sig. sg_verify G sig (client_transcript sid ex pk n) pk"
  using assms
  by (auto simp: parse_client_hello_def Let_def length_slice CLIENT_HELLO_LEN_def
      IDENTITY_PUBLIC_KEY_LEN_def NONCE_LEN_def IDENTITY_SIGNATURE_LEN_def split: if_splits)

lemma parse_server_hello_Inr:
  assumes "parse_server_hello G payload sid ex cn ck = Inr (pk, n)"
  shows "length pk = 32" and "length n = 32"
    and "\<exists>sig. sg_verify G sig (server_transcript sid ex ck cn pk n) pk"
  using assms
  by (auto simp: parse_server_hello_def Let_def length_slice SERVER_HELLO_LEN_def
      IDENTITY_PUBLIC_KEY_LEN_def NONCE_LEN_def IDENTITY_SIGNATURE_LEN_def split: if_splits)

text \<open>The documented behaviour of a signature scheme, without unforgeability.\<close>

definition signature_laws :: "'sk signing \<Rightarrow> bool" where
  "signature_laws G \<longleftrightarrow>
     (\<forall>m sk. length (sg_sign G m sk) = IDENTITY_SIGNATURE_LEN \<and> sg_decodable G (sg_sign G m sk) \<and>
        sg_verify G (sg_sign G m sk) m (sg_public_key G sk)) \<and>
     (\<forall>sk. length (sg_public_key G sk) = IDENTITY_PUBLIC_KEY_LEN)"

definition identity_ok :: "'sk signing \<Rightarrow> 'sk device_identity \<Rightarrow> bool" where
  "identity_ok G identity \<longleftrightarrow> di_public_key identity = sg_public_key G (di_secret_key identity)"

lemma identity_from_bytes_ok: "identity_from_bytes G b sk pk = Inr identity \<Longrightarrow> identity_ok G identity"
  by (auto simp: identity_from_bytes_def identity_ok_def split: if_splits option.splits)

lemma parse_encode_client_hello:
  assumes "signature_laws G" and "identity_ok G identity" and "length n = NONCE_LEN"
  shows "parse_client_hello G (encode_client_hello G identity sid ex n) sid ex = Inr (di_public_key identity, n)"
    and "length (encode_client_hello G identity sid ex n) = CLIENT_HELLO_LEN"
  using assms
  by (simp_all add: parse_client_hello_def encode_client_hello_def Let_def signature_laws_def
      identity_ok_def CLIENT_HELLO_LEN_def IDENTITY_PUBLIC_KEY_LEN_def IDENTITY_SIGNATURE_LEN_def
      NONCE_LEN_def wire_simps byte_slice_def)

lemma parse_encode_server_hello:
  assumes "signature_laws G" and "identity_ok G identity" and "length cn = NONCE_LEN" and "length n = NONCE_LEN"
  shows "parse_server_hello G (encode_server_hello G identity sid ex ck cn n) sid ex cn ck
      = Inr (di_public_key identity, n)"
    and "length (encode_server_hello G identity sid ex ck cn n) = SERVER_HELLO_LEN"
  using assms
  by (simp_all add: parse_server_hello_def encode_server_hello_def Let_def signature_laws_def
      identity_ok_def SERVER_HELLO_LEN_def IDENTITY_PUBLIC_KEY_LEN_def IDENTITY_SIGNATURE_LEN_def
      NONCE_LEN_def wire_simps byte_slice_def)

section \<open>Agreement\<close>

text \<open>
  A run of a client signs its key, the session, the exporter and its nonce; a run of a server
  signs its key, the session, the exporter, the client's key and nonce, and its own nonce.
\<close>

type_synonym client_run = "bytes \<times> session_id \<times> bytes \<times> bytes"
type_synonym server_run = "bytes \<times> session_id \<times> bytes \<times> bytes \<times> bytes \<times> bytes"

text \<open>Unforgeability: a signature that verifies under an honest key was made in one of the runs
  of its holder.\<close>

definition unforgeable :: "'sk signing \<Rightarrow> bytes set \<Rightarrow> client_run set \<Rightarrow> server_run set \<Rightarrow> bool" where
  "unforgeable G honest clients servers \<longleftrightarrow>
     (\<forall>sig m pk. pk \<in> honest \<longrightarrow> sg_verify G sig m pk \<longrightarrow>
        (\<exists>sid ex n. (pk, sid, ex, n) \<in> clients \<and> m = client_transcript sid ex pk n) \<or>
        (\<exists>sid ex ck cn n. (pk, sid, ex, ck, cn, n) \<in> servers \<and> m = server_transcript sid ex ck cn pk n))"

definition runs_typed :: "client_run set \<Rightarrow> server_run set \<Rightarrow> bool" where
  "runs_typed clients servers \<longleftrightarrow>
     (\<forall>(pk, sid, ex, n) \<in> clients. length sid = 16 \<and> length ex = 32 \<and> length pk = 32) \<and>
     (\<forall>(pk, sid, ex, ck, cn, n) \<in> servers. length sid = 16 \<and> length ex = 32 \<and> length pk = 32 \<and>
        length ck = 32 \<and> length cn = 32)"

lemma client_hello_agreement:
  assumes "unforgeable G honest clients servers" and "runs_typed clients servers"
    and "parse_client_hello G payload sid ex = Inr (pk, n)" and "pk \<in> honest"
    and "length sid = 16" and "length ex = 32"
  shows "(pk, sid, ex, n) \<in> clients"
proof -
  note p = parse_client_hello_Inr [OF assms(3)]
  from p(3) assms(1,4) consider
    sid' ex' n' where "(pk, sid', ex', n') \<in> clients" "client_transcript sid ex pk n = client_transcript sid' ex' pk n'"
    | sid' ex' ck cn n' where "client_transcript sid ex pk n = server_transcript sid' ex' ck cn pk n'"
    unfolding unforgeable_def by blast
  then show ?thesis
  proof cases
    case 1
    with assms(2,5,6) show ?thesis
      using client_transcript_inject [of ex ex' sid sid' pk pk n n'] by (auto simp: runs_typed_def)
  next
    case 2
    with transcripts_differ show ?thesis by blast
  qed
qed

lemma server_hello_agreement:
  assumes "unforgeable G honest clients servers" and "runs_typed clients servers"
    and "parse_server_hello G payload sid ex cn ck = Inr (pk, n)" and "pk \<in> honest"
    and "length sid = 16" and "length ex = 32" and "length ck = 32" and "length cn = 32"
  shows "(pk, sid, ex, ck, cn, n) \<in> servers"
proof -
  note p = parse_server_hello_Inr [OF assms(3)]
  from p(3) assms(1,4) consider
    sid' ex' n' where "server_transcript sid ex ck cn pk n = client_transcript sid' ex' pk n'"
    | sid' ex' ck' cn' n' where "(pk, sid', ex', ck', cn', n') \<in> servers"
      "server_transcript sid ex ck cn pk n = server_transcript sid' ex' ck' cn' pk n'"
    unfolding unforgeable_def by blast
  then show ?thesis
  proof cases
    case 1
    with transcripts_differ show ?thesis by metis
  next
    case 2
    with assms(2,5-8) show ?thesis
      using server_transcript_inject [of ex ex' sid sid' ck ck' cn cn' pk pk n n'] by (auto simp: runs_typed_def)
  qed
qed

section \<open>What an accepting side has checked\<close>

definition fresh_channel :: "bytes option \<Rightarrow> session_id \<Rightarrow> ('s, 'r) control_channel \<Rightarrow> bool" where
  "fresh_channel expected sid ch \<longleftrightarrow>
     cc_session_id ch = sid \<and> cc_next_outgoing_sequence ch = 2 \<and> cc_last_incoming_sequence ch = 1 \<and>
     pred_option (\<lambda>k. cc_peer_identity_key ch = k) expected"

lemma client_accepts:
  assumes "authenticate_client_inner G S R exported opened identity expected sid cn ts = Inr ch"
  obtains ex payload sn where "exported sid = Some ex" "fresh_channel expected sid ch"
    "parse_server_hello G payload sid ex cn (di_public_key identity) = Inr (cc_peer_identity_key ch, sn)"
proof -
  from assms obtain ex send receive where b: "client_begin G S exported opened identity sid cn ts = Inr (ex, send, receive)"
    and c: "client_complete G R identity expected sid cn (ex, send, receive) = Inr ch"
    by (auto simp: authenticate_client_inner_def split: sum.splits)
  from b have "exported sid = Some ex"
    by (auto simp: client_begin_def export_keying_material_def Let_def split: sum.splits prod.splits)
  moreover from c obtain payload sn where
    "parse_server_hello G payload sid ex cn (di_public_key identity) = Inr (cc_peer_identity_key ch, sn)"
    and "fresh_channel expected sid ch"
    by (auto simp: client_complete_def fresh_channel_def control_channel_new_def
        split: prod.splits sum.splits if_splits option.splits)
  ultimately show thesis using that by blast
qed

lemma server_answer_accepts:
  assumes "server_answer G S send receive identity expected sid ex sn ts payload = Inr ch"
  shows "fresh_channel expected sid ch"
    and "\<exists>cn. parse_client_hello G payload sid ex = Inr (cc_peer_identity_key ch, cn)"
  using assms
  by (auto simp: server_answer_def fresh_channel_def control_channel_new_def Let_def
      split: prod.splits sum.splits if_splits option.splits)

lemma server_accepts:
  assumes "authenticate_server_inner G S R exported accepted identity expected sid sn ts = Inr ch"
  obtains ex payload cn where "exported sid = Some ex" "fresh_channel expected sid ch"
    "parse_client_hello G payload sid ex = Inr (cc_peer_identity_key ch, cn)"
proof -
  from assms obtain ex send receive payload where e: "exported sid = Some ex"
    and s: "server_answer G S send receive identity expected sid ex sn ts payload = Inr ch"
    by (auto simp: authenticate_server_inner_def export_keying_material_def
        split: sum.splits prod.splits if_splits)
  from server_answer_accepts [OF s] e that show thesis by blast
qed

lemma discovering_server_accepts:
  assumes "authenticate_server_discover_session_inner G S R exported accepted identity expected sn ts = Inr ch"
  obtains ex payload cn where "exported (cc_session_id ch) = Some ex" "fresh_channel expected (cc_session_id ch) ch"
    "parse_client_hello G payload (cc_session_id ch) ex = Inr (cc_peer_identity_key ch, cn)"
proof -
  from assms obtain sid ex send receive payload where e: "exported sid = Some ex"
    and s: "server_answer G S send receive identity expected sid ex sn ts payload = Inr ch"
    by (auto simp: authenticate_server_discover_session_inner_def export_keying_material_def Let_def
        split: sum.splits prod.splits if_splits)
  from server_answer_accepts [OF s] e that show thesis by (auto simp: fresh_channel_def)
qed

section \<open>Completion\<close>

lemma read_written:
  assumes pipe: "byte_pipe S sent R pending" and sid: "length (mh_session_id h) = 16"
    and enc: "encode_message h payload = Inr packet" and "pending r = packet @ rest"
  obtains r' where "read_header R r = (r', Inr (header_bytes h, h))" "pending r' = payload @ rest"
proof -
  have pk: "packet = header_bytes h @ payload" using enc by (simp add: encode_message_eq_Inr)
  then have "take HEADER_LEN packet = header_bytes h" by (simp add: length_header_bytes [OF sid])
  with decode_message_header [OF decode_encode_message [OF sid enc]]
  have d: "decode_header (header_bytes h) = Inr h" by simp
  obtain r' where "rs_read_exact R r (length (header_bytes h)) = (r', Inr (header_bytes h))"
    and "pending r' = payload @ rest"
    using byte_pipe_read [OF pipe, of r "header_bytes h" "payload @ rest"] assms(4) pk by auto
  with d that show thesis by (auto simp: read_header_def length_header_bytes [OF sid])
qed

lemma read_handshake_written:
  assumes pipe: "byte_pipe S sent R pending" and sid: "length (mh_session_id h) = 16"
    and enc: "encode_message h payload = Inr packet" and p: "pending r = packet @ rest"
    and "mh_message_type h = mt"
  obtains r' where "read_handshake_message R r mt = (r', Inr \<lparr>pm_header = h, pm_payload = payload\<rparr>)"
    "pending r' = rest"
proof -
  obtain r1 where r1: "read_header R r = (r1, Inr (header_bytes h, h))" "pending r1 = payload @ rest"
    by (rule read_written [OF pipe sid enc p])
  obtain r2 where r2: "rs_read_exact R r1 (length payload) = (r2, Inr payload)" "pending r2 = rest"
    using byte_pipe_read [OF pipe r1(2)] by auto
  have "unat (mh_payload_length h) = length payload" "packet = header_bytes h @ payload"
    using enc by (auto simp: encode_message_eq_Inr)
  with r1 r2 decode_encode_message [OF sid enc] assms(5) that show thesis
    by (auto simp: read_handshake_message_def read_payload_def)
qed

lemma hello_written:
  assumes "header_ok mt flags (message_channel mt) sid 1 (length payload)"
    and "\<And>s bs. \<exists>s'. ss_write_all S s bs = (s', Inr ())"
  obtains h packet s' where "message_header_new mt flags sid 1 (length payload) ts = Inr h"
    "encode_message h payload = Inr packet" "write_message S s h payload = (s', Inr ())"
    "ss_write_all S s packet = (s', Inr ())"
    "mh_message_type h = mt" "mh_session_id h = sid" "mh_sequence_number h = 1" "mh_flags h = flags"
proof -
  let ?h = "\<lparr>mh_message_type = mt, mh_flags = flags, mh_channel = message_channel mt,
      mh_session_id = sid, mh_sequence_number = 1, mh_payload_length = of_nat (length payload),
      mh_monotonic_timestamp_us = ts\<rparr>"
  have h: "message_header_new mt flags sid 1 (length payload) ts = Inr ?h"
    using assms(1) by (simp add: message_header_new_eq_Inr)
  have enc: "encode_message ?h payload = Inr (header_bytes ?h @ payload)"
    using assms(1) header_ok_payload_bound [OF assms(1)] by (simp add: encode_message_eq_Inr unat_of_nat_exact)
  obtain s' where "ss_write_all S s (header_bytes ?h @ payload) = (s', Inr ())" using assms(2) by blast
  with h enc that show thesis by (simp add: write_message_def)
qed

lemma client_begin_sent:
  assumes pipe: "byte_pipe S sent R pending" and "sent cs = []"
    and "client_begin G S exported (Inr (cs, cr)) identity sid cn ts = Inr (ex, send, receive)"
  shows "receive = cr" and "exported sid = Some ex"
    and "\<exists>h. message_header_new ClientHello FLAG_ACK_REQUIRED sid 1
           (length (encode_client_hello G identity sid ex cn)) ts = Inr h \<and>
         encode_message h (encode_client_hello G identity sid ex cn) = Inr (sent send)"
proof -
  from assms(3) obtain s1 h packet where ex: "exported sid = Some ex" and r: "receive = cr"
    and pr: "ss_set_priority S cs (2 ^ 31 - 1) = (s1, Inr ())"
    and h: "message_header_new ClientHello FLAG_ACK_REQUIRED sid 1
      (length (encode_client_hello G identity sid ex cn)) ts = Inr h"
    and enc: "encode_message h (encode_client_hello G identity sid ex cn) = Inr packet"
    and w: "ss_write_all S s1 packet = (send, Inr ())"
    by (auto simp: client_begin_def export_keying_material_def write_message_def Let_def
        split: sum.splits prod.splits)
  have "sent send = packet"
    using byte_pipe_write [OF pipe w] byte_pipe_priority [OF pipe pr] assms(2) by simp
  with ex r h enc show "receive = cr" "exported sid = Some ex"
    "\<exists>h. message_header_new ClientHello FLAG_ACK_REQUIRED sid 1
           (length (encode_client_hello G identity sid ex cn)) ts = Inr h \<and>
         encode_message h (encode_client_hello G identity sid ex cn) = Inr (sent send)" by auto
qed

lemma server_answer_completes:
  assumes pipe: "byte_pipe S sent R pending" and G: "signature_laws G"
    and client: "identity_ok G client" and server: "identity_ok G server"
    and nonces: "length cn = NONCE_LEN" "length sn = NONCE_LEN"
    and sid: "\<exists>b \<in> set sid. b \<noteq> 0" and "sent send = []"
    and writes: "\<And>s bs. \<exists>s'. ss_write_all S s bs = (s', Inr ())"
    and trusted: "expected \<in> {None, Some (di_public_key client)}"
  obtains send' h where
    "server_answer G S send receive server expected sid ex sn ts (encode_client_hello G client sid ex cn)
       = Inr (control_channel_new send' receive sid (di_public_key client))"
    "encode_message h (encode_server_hello G server sid ex (di_public_key client) cn sn) = Inr (sent send')"
    "mh_message_type h = ServerHello" "mh_session_id h = sid" "mh_sequence_number h = 1"
    "mh_flags h = FLAG_RESPONSE"
proof -
  let ?p = "encode_server_hello G server sid ex (di_public_key client) cn sn"
  have "length ?p = SERVER_HELLO_LEN" by (rule parse_encode_server_hello [OF G server nonces])
  then have "header_ok ServerHello FLAG_RESPONSE (message_channel ServerHello) sid 1 (length ?p)"
    using sid by (simp add: header_ok_def SERVER_HELLO_LEN_def IDENTITY_PUBLIC_KEY_LEN_def NONCE_LEN_def
        IDENTITY_SIGNATURE_LEN_def KNOWN_FLAGS_def FLAG_RESPONSE_def FLAG_ACK_REQUIRED_def)
  then obtain h packet s' where h: "message_header_new ServerHello FLAG_RESPONSE sid 1 (length ?p) ts = Inr h"
    "encode_message h ?p = Inr packet" "write_message S send h ?p = (s', Inr ())"
    "ss_write_all S send packet = (s', Inr ())"
    "mh_message_type h = ServerHello" "mh_session_id h = sid" "mh_sequence_number h = 1"
    "mh_flags h = FLAG_RESPONSE"
    using hello_written [OF _ writes] by metis
  have "sent s' = packet" using byte_pipe_write [OF pipe h(4)] assms(8) by simp
  moreover have "server_answer G S send receive server expected sid ex sn ts (encode_client_hello G client sid ex cn)
       = Inr (control_channel_new s' receive sid (di_public_key client))"
    using h trusted parse_encode_client_hello(1) [OF G client nonces(1)] by (auto simp: server_answer_def)
  ultimately show thesis using h that by blast
qed

section \<open>The control channel\<close>

text \<open>After the handshake, messages are accepted in increasing order of their numbers only.\<close>

definition control_step :: "'r recv_stream \<Rightarrow> ('s, 'r) control_channel \<Rightarrow> unit
    \<Rightarrow> ('s, 'r) control_channel \<times> u64 option" where
  "control_step R ch _ =
     (case read_control_message R ch of
        (ch', Inl _) \<Rightarrow> (ch', None)
      | (ch', Inr m) \<Rightarrow> (ch', Some (mh_sequence_number (pm_header m))))"

interpretation control_guard: sequence_guard "\<lambda>_. True" "\<lambda>_. True" cc_last_incoming_sequence
    "control_step R" for R
  by unfold_locales
    (auto simp: control_step_def read_control_message_def Let_def split: prod.splits sum.splits if_splits)

lemma control_no_replay: "sorted_wrt (<) (accepted_run (control_step R) ch (replicate n ()))"
  by (rule control_guard.accepted_strictly_increasing) simp_all

lemma read_control_session:
  "read_control_message R ch = (ch', Inr m) \<Longrightarrow>
     mh_session_id (pm_header m) = cc_session_id ch \<and> cc_session_id ch' = cc_session_id ch \<and>
     cc_peer_identity_key ch' = cc_peer_identity_key ch"
  by (auto simp: read_control_message_def Let_def split: prod.splits sum.splits if_splits)

section \<open>Properties\<close>

text \<open>
  Property C35: mutual authentication. Suppose that a signature that verifies under an honest
  key was made in a run of its holder. A client that completes with an honest server key has a
  matching server run: the holder of that key answered in this session, over a TLS connection
  with the same exporter value, to this client's key and this client's nonce. A server that
  completes with an honest client key has a matching client run in the same session over the
  same exporter value, whether the session was given or discovered. A side that was told which
  key to expect completes with that key only, and every completed channel starts with the
  sequence numbers after the hello messages.
\<close>

theorem handshake_agreement:
  assumes "unforgeable G honest clients servers" and "runs_typed clients servers"
    and "\<And>sid ex. exported sid = Some ex \<Longrightarrow> length ex = 32"
    and "length sid = 16" and "length (di_public_key identity) = 32" and "length nonce = 32"
  shows "(authenticate_client_inner G S R exported stream identity expected sid nonce ts = Inr ch \<longrightarrow>
      fresh_channel expected sid ch \<and>
      (cc_peer_identity_key ch \<in> honest \<longrightarrow>
        (\<exists>ex sn. exported sid = Some ex \<and>
           (cc_peer_identity_key ch, sid, ex, di_public_key identity, nonce, sn) \<in> servers))) \<and>
    (authenticate_server_inner G S R exported stream identity expected sid nonce ts = Inr ch \<longrightarrow>
      fresh_channel expected sid ch \<and>
      (cc_peer_identity_key ch \<in> honest \<longrightarrow>
        (\<exists>ex cn. exported sid = Some ex \<and> (cc_peer_identity_key ch, sid, ex, cn) \<in> clients))) \<and>
    (authenticate_server_discover_session_inner G S R exported stream identity expected nonce ts = Inr ch \<longrightarrow>
      length (cc_session_id ch) = 16 \<longrightarrow>
      fresh_channel expected (cc_session_id ch) ch \<and>
      (cc_peer_identity_key ch \<in> honest \<longrightarrow>
        (\<exists>ex cn. exported (cc_session_id ch) = Some ex \<and>
           (cc_peer_identity_key ch, cc_session_id ch, ex, cn) \<in> clients)))"
proof (intro conjI impI)
  assume c: "authenticate_client_inner G S R exported stream identity expected sid nonce ts = Inr ch"
  show "fresh_channel expected sid ch" using client_accepts [OF c] by blast
  assume "cc_peer_identity_key ch \<in> honest"
  with client_accepts [OF c] server_hello_agreement [OF assms(1,2) _ _ assms(4) _ assms(5,6)] assms(3)
  show "\<exists>ex sn. exported sid = Some ex \<and>
      (cc_peer_identity_key ch, sid, ex, di_public_key identity, nonce, sn) \<in> servers" by metis
next
  assume s: "authenticate_server_inner G S R exported stream identity expected sid nonce ts = Inr ch"
  show "fresh_channel expected sid ch" using server_accepts [OF s] by blast
  assume "cc_peer_identity_key ch \<in> honest"
  with server_accepts [OF s] client_hello_agreement [OF assms(1,2) _ _ assms(4)] assms(3)
  show "\<exists>ex cn. exported sid = Some ex \<and> (cc_peer_identity_key ch, sid, ex, cn) \<in> clients" by metis
next
  assume s: "authenticate_server_discover_session_inner G S R exported stream identity expected nonce ts = Inr ch"
  assume l: "length (cc_session_id ch) = 16"
  show "fresh_channel expected (cc_session_id ch) ch" using discovering_server_accepts [OF s] by blast
  assume "cc_peer_identity_key ch \<in> honest"
  with discovering_server_accepts [OF s] client_hello_agreement [OF assms(1,2) _ _ l] assms(3)
  show "\<exists>ex cn. exported (cc_session_id ch) = Some ex \<and>
      (cc_peer_identity_key ch, cc_session_id ch, ex, cn) \<in> clients" by metis
qed

text \<open>
  Property C36: the handshake completes. A client begins on a fresh stream and writes its
  hello; the server gets these bytes, its TLS connection exports the same value, writing
  succeeds, and each side expects the other's key or any key. Then the server completes with
  the client's key, in both variants alike, and the client, given the bytes the server wrote,
  completes with the server's key, both in the same session.
\<close>

theorem handshake_completes:
  assumes pipe: "byte_pipe S sent R pending" and G: "signature_laws G"
    and ids: "identity_ok G client" "identity_ok G server"
    and nonces: "length cn = NONCE_LEN" "length sn = NONCE_LEN" and "length sid = 16"
    and fresh: "sent cs = []" "sent ss = []"
    and writes: "\<And>s bs. \<exists>s'. ss_write_all S s bs = (s', Inr ())"
    and begun: "client_begin G S exported (Inr (cs, cr)) client sid cn ts = Inr (ex, send, cr')"
    and prio: "ss_set_priority S ss (2 ^ 31 - 1) = (ss', Inr ())"
    and "pending sr = sent send" and "exported' sid = Some ex"
    and "expected \<in> {None, Some (di_public_key client)}" and "expected' \<in> {None, Some (di_public_key server)}"
  shows "\<exists>srv. authenticate_server_inner G S R exported' (Inr (ss, sr)) server expected sid sn ts' = Inr srv \<and>
    authenticate_server_discover_session_inner G S R exported' (Inr (ss, sr)) server expected sn ts' = Inr srv \<and>
    cc_peer_identity_key srv = di_public_key client \<and> fresh_channel expected sid srv \<and>
    (\<forall>r. pending r = sent (cc_send srv) \<longrightarrow>
      (\<exists>cl. client_complete G R client expected' sid cn (ex, send, r) = Inr cl \<and>
        cc_peer_identity_key cl = di_public_key server \<and> fresh_channel expected' sid cl))"
proof -
  let ?cp = "encode_client_hello G client sid ex cn"
  let ?sp = "encode_server_hello G server sid ex (di_public_key client) cn sn"
  obtain h where h: "message_header_new ClientHello FLAG_ACK_REQUIRED sid 1 (length ?cp) ts = Inr h"
    "encode_message h ?cp = Inr (sent send)"
    using client_begin_sent(3) [OF pipe fresh(1) begun] by blast
  then have hs: "mh_message_type h = ClientHello" "mh_session_id h = sid" "mh_sequence_number h = 1"
    "mh_flags h = FLAG_ACK_REQUIRED" "length (mh_session_id h) = 16" and nz: "\<exists>b \<in> set sid. b \<noteq> 0"
    using assms(7) by (auto simp: message_header_new_eq_Inr header_ok_def)
  obtain r1 where r1: "read_handshake_message R sr ClientHello = (r1, Inr \<lparr>pm_header = h, pm_payload = ?cp\<rparr>)"
    using read_handshake_written [OF pipe hs(5) h(2), of sr "[]"] hs(1) assms(13) by auto
  have ss': "sent ss' = []" using byte_pipe_priority [OF pipe prio] fresh(2) by simp
  obtain send' g where srv: "server_answer G S ss' r1 server expected sid ex sn ts' ?cp
       = Inr (control_channel_new send' r1 sid (di_public_key client))"
    and g: "encode_message g ?sp = Inr (sent send')"
    "mh_message_type g = ServerHello" "mh_session_id g = sid" "mh_sequence_number g = 1"
    "mh_flags g = FLAG_RESPONSE"
    by (rule server_answer_completes [OF pipe G ids nonces nz ss' writes assms(15)])
  have flags: "FLAG_ACK_REQUIRED AND FLAG_ACK_REQUIRED \<noteq> 0" "FLAG_RESPONSE AND FLAG_RESPONSE \<noteq> 0"
    by (simp_all add: FLAG_ACK_REQUIRED_def FLAG_RESPONSE_def)
  let ?srv = "control_channel_new send' r1 sid (di_public_key client)"
  have "authenticate_server_inner G S R exported' (Inr (ss, sr)) server expected sid sn ts' = Inr ?srv"
    "authenticate_server_discover_session_inner G S R exported' (Inr (ss, sr)) server expected sn ts' = Inr ?srv"
    using prio r1 hs srv flags assms(14)
    by (simp_all add: authenticate_server_inner_def authenticate_server_discover_session_inner_def
        export_keying_material_def ok_or_def)
  moreover have "\<exists>cl. client_complete G R client expected' sid cn (ex, send, r) = Inr cl \<and>
        cc_peer_identity_key cl = di_public_key server \<and> fresh_channel expected' sid cl"
    if r: "pending r = sent send'" for r
  proof -
    obtain r2 where "read_handshake_message R r ServerHello = (r2, Inr \<lparr>pm_header = g, pm_payload = ?sp\<rparr>)"
      using read_handshake_written [OF pipe _ g(1), of r "[]"] g assms(7) r by auto
    with g flags parse_encode_server_hello(1) [OF G ids(2) nonces] assms(16) show ?thesis
      by (auto simp: client_complete_def fresh_channel_def control_channel_new_def)
  qed
  ultimately show ?thesis
    using assms(15) by (intro exI [of _ ?srv]) (auto simp: control_channel_new_def fresh_channel_def)
qed

text \<open>A scheme whose only signatures are 64 zero bytes, on any message.\<close>

definition sample_signing :: "bytes signing" where
  "sample_signing =
     \<lparr>sg_sign = (\<lambda>m sk. replicate 64 0), sg_verify = (\<lambda>sig m pk. sig = replicate 64 0),
      sg_decodable = (\<lambda>_. True), sg_secret_from_slice = (\<lambda>bs. if length bs = 32 then Some bs else None),
      sg_public_key = (\<lambda>sk. take 32 (sk @ replicate 32 0))\<rparr>"

definition sample_identity :: "u8 \<Rightarrow> bytes device_identity" where
  "sample_identity b = \<lparr>di_secret_key = replicate 32 b, di_public_key = replicate 32 b\<rparr>"

lemma sample_signing_laws: "signature_laws sample_signing" "identity_ok sample_signing (sample_identity b)"
  by (auto simp: signature_laws_def identity_ok_def sample_signing_def sample_identity_def
      IDENTITY_SIGNATURE_LEN_def IDENTITY_PUBLIC_KEY_LEN_def)

lemma list_stream_writes: "\<exists>s'. ss_write_all list_send_stream s bs = (s', Inr ())"
  by (simp add: list_send_stream_def)

lemma sample_session_simps: "length sample_session = 16" "\<exists>b \<in> set sample_session. b \<noteq> 0"
  by (simp_all add: sample_session_def)

lemma sample_client_hello:
  assumes "length (encode_client_hello G identity sample_session ex cn) = CLIENT_HELLO_LEN"
  obtains h packet where
    "message_header_new ClientHello FLAG_ACK_REQUIRED sample_session 1
       (length (encode_client_hello G identity sample_session ex cn)) ts = Inr h"
    "encode_message h (encode_client_hello G identity sample_session ex cn) = Inr packet"
    "write_message list_send_stream [] h (encode_client_hello G identity sample_session ex cn) = (packet, Inr ())"
    "mh_message_type h = ClientHello" "mh_session_id h = sample_session" "mh_sequence_number h = 1"
    "mh_flags h = FLAG_ACK_REQUIRED"
proof -
  have "header_ok ClientHello FLAG_ACK_REQUIRED (message_channel ClientHello) sample_session 1
      (length (encode_client_hello G identity sample_session ex cn))"
    unfolding assms using sample_session_simps
    by (simp add: header_ok_def CLIENT_HELLO_LEN_def IDENTITY_PUBLIC_KEY_LEN_def NONCE_LEN_def
        IDENTITY_SIGNATURE_LEN_def KNOWN_FLAGS_def FLAG_RESPONSE_def FLAG_ACK_REQUIRED_def)
  then show thesis
    using hello_written [OF _ list_stream_writes, of ClientHello FLAG_ACK_REQUIRED sample_session _ ts "[]"] that
    by (metis append_Nil fst_conv list_send_stream_def send_stream.select_convs(1))
qed

theorem handshake_completes_witness:
  "\<exists>send srv. client_begin sample_signing list_send_stream (\<lambda>_. Some (replicate 32 1)) (Inr ([], []))
       (sample_identity 5) sample_session (replicate 32 3) 0 = Inr (replicate 32 1, send, []) \<and>
     authenticate_server_inner sample_signing list_send_stream list_recv_stream (\<lambda>_. Some (replicate 32 1))
       (Inr ([], send)) (sample_identity 6) (Some (replicate 32 5)) sample_session (replicate 32 4) 9 = Inr srv \<and>
     cc_peer_identity_key srv = replicate 32 5"
proof -
  let ?ex = "replicate 32 1 :: bytes"
  have "length (encode_client_hello sample_signing (sample_identity 5) sample_session ?ex (replicate 32 3))
      = CLIENT_HELLO_LEN"
    by (rule parse_encode_client_hello(2) [OF sample_signing_laws]) (simp add: NONCE_LEN_def)
  then obtain h packet where h: "message_header_new ClientHello FLAG_ACK_REQUIRED sample_session 1
       (length (encode_client_hello sample_signing (sample_identity 5) sample_session ?ex (replicate 32 3))) 0 = Inr h"
    "write_message list_send_stream [] h
       (encode_client_hello sample_signing (sample_identity 5) sample_session ?ex (replicate 32 3)) = (packet, Inr ())"
    by (rule sample_client_hello [where ts = 0])
  then have b: "client_begin sample_signing list_send_stream (\<lambda>_. Some ?ex) (Inr ([], []))
       (sample_identity 5) sample_session (replicate 32 3) 0 = Inr (?ex, packet, [])"
    by (simp add: client_begin_def export_keying_material_def ok_or_def Let_def)
      (simp add: list_send_stream_def)
  have pr: "ss_set_priority list_send_stream [] (2 ^ 31 - 1) = ([], Inr ())" by (simp add: list_send_stream_def)
  have "\<exists>srv. authenticate_server_inner sample_signing list_send_stream list_recv_stream (\<lambda>_. Some ?ex)
       (Inr ([], packet)) (sample_identity 6) (Some (replicate 32 5)) sample_session (replicate 32 4) 9 = Inr srv \<and>
     cc_peer_identity_key srv = replicate 32 5"
    using handshake_completes [OF list_byte_pipe sample_signing_laws(1) sample_signing_laws(2) [of 5]
        sample_signing_laws(2) [of 6] _ _ sample_session_simps(1) _ _ list_stream_writes b pr,
        where sr = packet and exported' = "\<lambda>_. Some ?ex" and expected = "Some (replicate 32 5)"
          and expected' = None and ?sn = "replicate 32 4" and ts' = 9]
    by (auto simp: sample_identity_def NONCE_LEN_def)
  with b show ?thesis by blast
qed

text \<open>A scheme in which one client hello was signed and nothing else.\<close>

definition one_hello_signing :: "bytes signing" where
  "one_hello_signing = sample_signing\<lparr>sg_verify := (\<lambda>sig m pk. sig = replicate 64 0 \<and>
     m = client_transcript sample_session (replicate 32 1) pk (replicate 32 3))\<rparr>"

lemma one_hello_parsed:
  assumes "p = encode_client_hello one_hello_signing (sample_identity 5) sample_session
      (replicate 32 1) (replicate 32 3)"
  shows "parse_client_hello one_hello_signing p sample_session (replicate 32 1)
      = Inr (replicate 32 5, replicate 32 3)" and "length p = CLIENT_HELLO_LEN"
  unfolding assms
  by (simp_all add: parse_client_hello_def encode_client_hello_def Let_def one_hello_signing_def
      sample_signing_def sample_identity_def CLIENT_HELLO_LEN_def IDENTITY_PUBLIC_KEY_LEN_def
      IDENTITY_SIGNATURE_LEN_def NONCE_LEN_def wire_simps byte_slice_def)

lemma one_hello_answered:
  "\<exists>packet ch. authenticate_server_inner one_hello_signing list_send_stream list_recv_stream
       (\<lambda>_. Some (replicate 32 1)) (Inr ([], packet)) (sample_identity 6) None sample_session
       (replicate 32 4) 9 = Inr ch \<and> cc_peer_identity_key ch = replicate 32 5"
proof -
  let ?ex = "replicate 32 1 :: bytes" and ?G = one_hello_signing
  let ?p = "encode_client_hello ?G (sample_identity 5) sample_session ?ex (replicate 32 3)"
  let ?q = "encode_server_hello ?G (sample_identity 6) sample_session ?ex (replicate 32 5)
      (replicate 32 3) (replicate 32 4)"
  obtain h packet where h: "encode_message h ?p = Inr packet" "mh_message_type h = ClientHello"
    "mh_session_id h = sample_session" "mh_sequence_number h = 1" "mh_flags h = FLAG_ACK_REQUIRED"
    by (rule sample_client_hello [OF one_hello_parsed(2) [OF refl], where ts = 0])
  have sid: "length (mh_session_id h) = 16" by (simp add: h(3) sample_session_simps)
  obtain r where r: "read_handshake_message list_recv_stream packet ClientHello
      = (r, Inr \<lparr>pm_header = h, pm_payload = ?p\<rparr>)"
    using read_handshake_written [OF list_byte_pipe sid h(1), of packet "[]"] h(2) by auto
  have "length ?q = SERVER_HELLO_LEN"
    by (simp add: encode_server_hello_def Let_def one_hello_signing_def sample_signing_def
        sample_identity_def SERVER_HELLO_LEN_def IDENTITY_PUBLIC_KEY_LEN_def
        IDENTITY_SIGNATURE_LEN_def NONCE_LEN_def)
  then have "header_ok ServerHello FLAG_RESPONSE (message_channel ServerHello) sample_session 1 (length ?q)"
    using sample_session_simps
    by (simp add: header_ok_def SERVER_HELLO_LEN_def IDENTITY_PUBLIC_KEY_LEN_def NONCE_LEN_def
        IDENTITY_SIGNATURE_LEN_def KNOWN_FLAGS_def FLAG_RESPONSE_def FLAG_ACK_REQUIRED_def)
  then obtain g s' where g: "message_header_new ServerHello FLAG_RESPONSE sample_session 1 (length ?q) 9 = Inr g"
    "write_message list_send_stream [] g ?q = (s', Inr ())"
    using hello_written [OF _ list_stream_writes] by metis
  have "ss_set_priority list_send_stream [] (2 ^ 31 - 1) = ([], Inr ())" by (simp add: list_send_stream_def)
  moreover have "FLAG_ACK_REQUIRED AND FLAG_ACK_REQUIRED \<noteq> 0" by (simp add: FLAG_ACK_REQUIRED_def)
  ultimately have "authenticate_server_inner ?G list_send_stream list_recv_stream (\<lambda>_. Some ?ex)
      (Inr ([], packet)) (sample_identity 6) None sample_session (replicate 32 4) 9
      = Inr (control_channel_new s' r sample_session (replicate 32 5))"
    using r h(2-5) g one_hello_parsed(1) [OF refl]
    by (simp add: authenticate_server_inner_def export_keying_material_def ok_or_def server_answer_def Let_def)
  then show ?thesis by (intro exI conjI) (auto simp: control_channel_new_def)
qed

theorem handshake_agreement_witness:
  "\<exists>packet ch ex cn. authenticate_server_inner one_hello_signing list_send_stream list_recv_stream
       (\<lambda>_. Some (replicate 32 1)) (Inr ([], packet)) (sample_identity 6) None sample_session
       (replicate 32 4) 9 = Inr ch \<and>
     cc_peer_identity_key ch = replicate 32 5 \<and>
     (cc_peer_identity_key ch, sample_session, ex, cn)
       \<in> {(replicate 32 5, sample_session, replicate 32 1, replicate 32 3)}"
proof -
  let ?clients = "{(replicate 32 5, sample_session, replicate 32 1, replicate 32 3)} :: client_run set"
  obtain packet ch where s: "authenticate_server_inner one_hello_signing list_send_stream list_recv_stream
       (\<lambda>_. Some (replicate 32 1)) (Inr ([], packet)) (sample_identity 6) None sample_session
       (replicate 32 4) 9 = Inr ch" and k: "cc_peer_identity_key ch = replicate 32 5"
    using one_hello_answered by blast
  have "unforgeable one_hello_signing {replicate 32 5} ?clients {}"
    by (auto simp: unforgeable_def one_hello_signing_def)
  moreover have "runs_typed ?clients {}" by (simp add: runs_typed_def sample_session_simps)
  ultimately have "\<exists>ex cn. (cc_peer_identity_key ch, sample_session, ex, cn) \<in> ?clients"
    using handshake_agreement [of one_hello_signing "{replicate 32 5}" ?clients "{}"
        "\<lambda>_. Some (replicate 32 1)" sample_session "sample_identity 6" "replicate 32 4"
        list_send_stream list_recv_stream "Inr ([], packet)" None 9 ch] s k
    by (auto simp: sample_session_simps sample_identity_def)
  with s k show ?thesis by blast
qed

end
