(* ===== verification/Pairing.thy ===== *)
theory Pairing
  imports Utf8 Ordered_Map "HOL-Library.List_Lexorder"
begin

text \<open>
  Pairing with a peer and the store of trusted peers (\<open>src/transport/pairing.rs\<close>).

  Parameters: SHA-256, the base64 engine and \<open>serde_json\<close>. The file system is a map from file
  names of the store's directory, each a stem and an extension, to contents; which of the
  operating system's calls fail, besides for a missing or an existing file, is given with each
  call by \<open>io_faults\<close>. The operating system's error itself is not represented.
\<close>

section \<open>Data\<close>

definition MAX_PEER_ID_BYTES :: usize where "MAX_PEER_ID_BYTES = 128"
definition MAX_CERTIFICATE_BYTES :: usize where "MAX_CERTIFICATE_BYTES = 16 * 1024"

datatype pairing_error =
    InvalidPeerId | InvalidIdentityKey | InvalidCertificate | FingerprintMismatch
  | AlreadyPaired | InvalidRecord | StorageIo

record pairing_candidate =
  pc_peer_id :: rust_str
  pc_identity_key :: bytes
  pc_certificate_der :: bytes
  pc_certificate_pin :: bytes

record trusted_peer =
  tp_peer_id :: rust_str
  tp_identity_key :: bytes
  tp_certificate_der :: bytes
  tp_certificate_pin :: bytes
  tp_confirmed_at_unix_ms :: u64

definition validate_peer_id :: "rust_str \<Rightarrow> pairing_error + unit" where
  "validate_peer_id peer_id =
     (if peer_id = [] \<or> length peer_id > MAX_PEER_ID_BYTES \<or> list_ex is_control (str_chars peer_id)
      then Inl InvalidPeerId else Inr ())"

definition candidate_new ::
    "(bytes \<Rightarrow> bytes) \<Rightarrow> rust_str \<Rightarrow> bytes \<Rightarrow> bytes \<Rightarrow> pairing_error + pairing_candidate" where
  "candidate_new sha256 peer_id identity_key certificate_der =
     (case validate_peer_id peer_id of
        Inl e \<Rightarrow> Inl e
      | Inr _ \<Rightarrow>
        if list_all (\<lambda>b. b = 0) identity_key then Inl InvalidIdentityKey
        else if certificate_der = [] \<or> length certificate_der > MAX_CERTIFICATE_BYTES
          then Inl InvalidCertificate
        else Inr \<lparr>pc_peer_id = peer_id, pc_identity_key = identity_key,
                  pc_certificate_der = certificate_der,
                  pc_certificate_pin = sha256 certificate_der\<rparr>)"

definition validate_peer :: "(bytes \<Rightarrow> bytes) \<Rightarrow> trusted_peer \<Rightarrow> pairing_error + unit" where
  "validate_peer sha256 r =
     (case validate_peer_id (tp_peer_id r) of
        Inl e \<Rightarrow> Inl e
      | Inr _ \<Rightarrow>
        if list_all (\<lambda>b. b = 0) (tp_identity_key r) then Inl InvalidIdentityKey
        else if tp_certificate_der r = [] \<or> length (tp_certificate_der r) > MAX_CERTIFICATE_BYTES
                \<or> sha256 (tp_certificate_der r) \<noteq> tp_certificate_pin r
          then Inl InvalidCertificate
        else Inr ())"

section \<open>Fingerprints\<close>

definition ascii :: "string \<Rightarrow> bytes" where
  "ascii s = map of_char s"

definition hex_digit :: "u8 \<Rightarrow> u8 \<Rightarrow> u8" where
  "hex_digit letter_a d = (if d < 10 then 48 + d else letter_a + (d - 10))"

text \<open>\<open>{byte:02X}\<close> and \<open>{byte:02x}\<close>.\<close>

definition hex_byte_upper :: "u8 \<Rightarrow> bytes" where
  "hex_byte_upper b = [hex_digit 65 (drop_bit 4 b), hex_digit 65 (b AND 15)]"

definition hex_byte_lower :: "u8 \<Rightarrow> bytes" where
  "hex_byte_lower b = [hex_digit 97 (drop_bit 4 b), hex_digit 97 (b AND 15)]"

fun format_fingerprint :: "bytes \<Rightarrow> bytes" where
  "format_fingerprint [] = []"
| "format_fingerprint [b] = hex_byte_upper b"
| "format_fingerprint (b # bs) = hex_byte_upper b @ [58] @ format_fingerprint bs"

definition hex_lower :: "bytes \<Rightarrow> bytes" where
  "hex_lower input = concat (map hex_byte_lower input)"

definition fingerprint :: "(bytes \<Rightarrow> bytes) \<Rightarrow> pairing_candidate \<Rightarrow> rust_str" where
  "fingerprint sha256 c =
     format_fingerprint (sha256 (ascii ''rustadmin-peer-pairing-v1'' @ pc_identity_key c @ pc_certificate_pin c))"

definition to_ascii_uppercase :: "u8 \<Rightarrow> u8" where
  "to_ascii_uppercase b = (if 97 \<le> b \<and> b \<le> 122 then b - 32 else b)"

definition constant_time_ascii_case_equal :: "rust_str \<Rightarrow> rust_str \<Rightarrow> bool" where
  "constant_time_ascii_case_equal expected received =
     (if length expected \<noteq> length received then False
      else foldl (\<lambda>difference (left, right).
               difference OR (to_ascii_uppercase left XOR to_ascii_uppercase right))
             0 (zip expected received) = 0)"

definition candidate_confirm ::
    "(bytes \<Rightarrow> bytes) \<Rightarrow> pairing_candidate \<Rightarrow> rust_str \<Rightarrow> u64 \<Rightarrow> pairing_error + trusted_peer" where
  "candidate_confirm sha256 c confirmed_fingerprint confirmed_at_unix_ms =
     (if \<not> constant_time_ascii_case_equal (fingerprint sha256 c) confirmed_fingerprint
        then Inl FingerprintMismatch
      else Inr \<lparr>tp_peer_id = pc_peer_id c, tp_identity_key = pc_identity_key c,
                tp_certificate_der = pc_certificate_der c, tp_certificate_pin = pc_certificate_pin c,
                tp_confirmed_at_unix_ms = confirmed_at_unix_ms\<rparr>)"

section \<open>The store in memory\<close>

type_synonym memory_store = "(rust_str, trusted_peer) btree_map"

definition memory_load :: "memory_store \<Rightarrow> rust_str \<Rightarrow> pairing_error + trusted_peer option" where
  "memory_load records peer_id =
     (case validate_peer_id peer_id of Inl e \<Rightarrow> Inl e | Inr _ \<Rightarrow> Inr (bm_get records peer_id))"

definition memory_insert ::
    "(bytes \<Rightarrow> bytes) \<Rightarrow> memory_store \<Rightarrow> trusted_peer \<Rightarrow> memory_store \<times> (pairing_error + unit)" where
  "memory_insert sha256 records r =
     (case validate_peer sha256 r of
        Inl e \<Rightarrow> (records, Inl e)
      | Inr _ \<Rightarrow>
        if bm_contains records (tp_peer_id r) then (records, Inl AlreadyPaired)
        else (bm_insert (tp_peer_id r) r records, Inr ()))"

definition memory_remove ::
    "memory_store \<Rightarrow> rust_str \<Rightarrow> memory_store \<times> (pairing_error + bool)" where
  "memory_remove records peer_id =
     (case validate_peer_id peer_id of
        Inl e \<Rightarrow> (records, Inl e)
      | Inr _ \<Rightarrow> (bm_remove peer_id records, Inr (bm_contains records peer_id)))"

section \<open>The store in files\<close>

type_synonym file_name = "bytes \<times> bytes"
type_synonym file_system = "file_name \<rightharpoonup> bytes"

record persisted_peer =
  pp_version :: u16
  pp_peer_id :: rust_str
  pp_identity_key_base64 :: rust_str
  pp_certificate_der_base64 :: rust_str
  pp_certificate_pin_base64 :: rust_str
  pp_confirmed_at_unix_ms :: u64

text \<open>The libraries the store relies on.\<close>

record store_codecs =
  sc_sha256 :: "bytes \<Rightarrow> bytes"
  sc_base64_encode :: "bytes \<Rightarrow> rust_str"
  sc_base64_decode :: "rust_str \<Rightarrow> bytes option"
  sc_json_encode :: "persisted_peer \<Rightarrow> bytes option"
  sc_json_decode :: "bytes \<Rightarrow> persisted_peer option"

record io_faults =
  io_read :: bool
  io_list :: bool
  io_exists :: bool
  io_create :: bool
  io_permissions :: bool
  io_write :: bool
  io_written :: bytes
  io_rename :: bool
  io_remove :: bool

definition record_path :: "store_codecs \<Rightarrow> rust_str \<Rightarrow> pairing_error + file_name" where
  "record_path K peer_id =
     (case validate_peer_id peer_id of
        Inl e \<Rightarrow> Inl e
      | Inr _ \<Rightarrow> Inr (hex_lower (sc_sha256 K peer_id), ascii ''json''))"

definition with_extension :: "file_name \<Rightarrow> bytes \<Rightarrow> file_name" where
  "with_extension path extension = (fst path, extension)"

definition persisted_from_record :: "store_codecs \<Rightarrow> trusted_peer \<Rightarrow> persisted_peer" where
  "persisted_from_record K r =
     \<lparr>pp_version = 1, pp_peer_id = tp_peer_id r,
      pp_identity_key_base64 = sc_base64_encode K (tp_identity_key r),
      pp_certificate_der_base64 = sc_base64_encode K (tp_certificate_der r),
      pp_certificate_pin_base64 = sc_base64_encode K (tp_certificate_pin r),
      pp_confirmed_at_unix_ms = tp_confirmed_at_unix_ms r\<rparr>"

definition decode_array :: "store_codecs \<Rightarrow> usize \<Rightarrow> rust_str \<Rightarrow> pairing_error + bytes" where
  "decode_array K n encoded =
     (case sc_base64_decode K encoded of
        None \<Rightarrow> Inl InvalidRecord
      | Some decoded \<Rightarrow> if length decoded = n then Inr decoded else Inl InvalidRecord)"

definition persisted_into_record :: "store_codecs \<Rightarrow> persisted_peer \<Rightarrow> pairing_error + trusted_peer" where
  "persisted_into_record K p =
     (if pp_version p \<noteq> 1 then Inl InvalidRecord
      else case decode_array K 32 (pp_identity_key_base64 p) of
        Inl e \<Rightarrow> Inl e
      | Inr identity_key \<Rightarrow>
        (case sc_base64_decode K (pp_certificate_der_base64 p) of
           None \<Rightarrow> Inl InvalidRecord
         | Some certificate_der \<Rightarrow>
           (case decode_array K 32 (pp_certificate_pin_base64 p) of
              Inl e \<Rightarrow> Inl e
            | Inr certificate_pin \<Rightarrow>
                Inr \<lparr>tp_peer_id = pp_peer_id p, tp_identity_key = identity_key,
                     tp_certificate_der = certificate_der, tp_certificate_pin = certificate_pin,
                     tp_confirmed_at_unix_ms = pp_confirmed_at_unix_ms p\<rparr>)))"

definition decode_record :: "store_codecs \<Rightarrow> bytes \<Rightarrow> pairing_error + trusted_peer" where
  "decode_record K encoded =
     (if length encoded > 64 * 1024 then Inl InvalidRecord
      else case sc_json_decode K encoded of
        None \<Rightarrow> Inl InvalidRecord
      | Some persisted \<Rightarrow>
        (case persisted_into_record K persisted of
           Inl e \<Rightarrow> Inl e
         | Inr r \<Rightarrow>
           (case validate_peer (sc_sha256 K) r of Inl e \<Rightarrow> Inl e | Inr _ \<Rightarrow> Inr r)))"

definition file_load ::
    "store_codecs \<Rightarrow> io_faults \<Rightarrow> file_system \<Rightarrow> rust_str \<Rightarrow> pairing_error + trusted_peer option" where
  "file_load K io files peer_id =
     (case record_path K peer_id of
        Inl e \<Rightarrow> Inl e
      | Inr path \<Rightarrow>
        if io_read io then Inl StorageIo
        else case files path of
          None \<Rightarrow> Inr None
        | Some encoded \<Rightarrow>
          (case decode_record K encoded of
             Inl e \<Rightarrow> Inl e
           | Inr r \<Rightarrow>
             if tp_peer_id r \<noteq> peer_id then Inl InvalidRecord
             else case validate_peer (sc_sha256 K) r of Inl e \<Rightarrow> Inl e | Inr _ \<Rightarrow> Inr (Some r)))"

text \<open>Removing the temporary file after a failure: an error of this call is ignored.\<close>

definition discard_temporary :: "io_faults \<Rightarrow> file_system \<Rightarrow> file_name \<Rightarrow> file_system" where
  "discard_temporary io files temporary =
     (if io_remove io then files else files(temporary := None))"

definition write_record ::
    "store_codecs \<Rightarrow> bytes \<Rightarrow> io_faults \<Rightarrow> file_system \<Rightarrow> trusted_peer
     \<Rightarrow> file_system \<times> (pairing_error + unit)" where
  "write_record K process_id io files r =
     (case validate_peer (sc_sha256 K) r of
        Inl e \<Rightarrow> (files, Inl e)
      | Inr _ \<Rightarrow>
      (case record_path K (tp_peer_id r) of
        Inl e \<Rightarrow> (files, Inl e)
      | Inr path \<Rightarrow>
      (case sc_json_encode K (persisted_from_record K r) of
        None \<Rightarrow> (files, Inl InvalidRecord)
      | Some encoded \<Rightarrow>
        (let temporary = with_extension path (ascii ''tmp-'' @ process_id) in
         if files temporary \<noteq> None \<or> io_create io then (files, Inl StorageIo)
         else
           (let files1 = files(temporary \<mapsto> []) in
            if io_permissions io then (files1, Inl StorageIo)
            else if io_write io then
              (discard_temporary io (files1(temporary \<mapsto> io_written io)) temporary, Inl StorageIo)
            else
              (let files2 = files1(temporary \<mapsto> encoded) in
               if io_rename io then (discard_temporary io files2 temporary, Inl StorageIo)
               else (files2(path \<mapsto> encoded, temporary := None), Inr ())))))))"

definition file_insert ::
    "store_codecs \<Rightarrow> bytes \<Rightarrow> io_faults \<Rightarrow> file_system \<Rightarrow> trusted_peer
     \<Rightarrow> file_system \<times> (pairing_error + unit)" where
  "file_insert K process_id io files r =
     (case validate_peer (sc_sha256 K) r of
        Inl e \<Rightarrow> (files, Inl e)
      | Inr _ \<Rightarrow>
      (case record_path K (tp_peer_id r) of
        Inl e \<Rightarrow> (files, Inl e)
      | Inr path \<Rightarrow>
        if files path \<noteq> None \<and> \<not> io_exists io then (files, Inl AlreadyPaired)
        else write_record K process_id io files r))"

definition file_remove ::
    "store_codecs \<Rightarrow> io_faults \<Rightarrow> file_system \<Rightarrow> rust_str \<Rightarrow> file_system \<times> (pairing_error + bool)" where
  "file_remove K io files peer_id =
     (case record_path K peer_id of
        Inl e \<Rightarrow> (files, Inl e)
      | Inr path \<Rightarrow>
        if io_remove io then (files, Inl StorageIo)
        else (files(path := None), Inr (files path \<noteq> None)))"

definition replace_authenticated ::
    "store_codecs \<Rightarrow> bytes \<Rightarrow> io_faults \<Rightarrow> file_system \<Rightarrow> trusted_peer
     \<Rightarrow> file_system \<times> (pairing_error + unit)" where
  "replace_authenticated K process_id io files r = write_record K process_id io files r"

text \<open>
  \<open>load_all\<close> reads the directory in the order \<open>entries\<close> the operating system gives, in which
  \<open>None\<close> is an entry that cannot be read.
\<close>

fun load_entries ::
    "store_codecs \<Rightarrow> io_faults \<Rightarrow> file_system \<Rightarrow> trusted_peer list \<Rightarrow> file_name option list
     \<Rightarrow> pairing_error + trusted_peer list" where
  "load_entries K io files records [] = Inr records"
| "load_entries K io files records (None # paths) = Inl StorageIo"
| "load_entries K io files records (Some path # paths) =
     (if snd path \<noteq> ascii ''json'' then load_entries K io files records paths
      else if length records \<ge> 4096 then Inl InvalidRecord
      else if io_read io then Inl StorageIo
      else case files path of
        None \<Rightarrow> Inl StorageIo
      | Some encoded \<Rightarrow>
        (case decode_record K encoded of
           Inl e \<Rightarrow> Inl e
         | Inr r \<Rightarrow> load_entries K io files (records @ [r]) paths))"

definition load_all ::
    "store_codecs \<Rightarrow> io_faults \<Rightarrow> file_system \<Rightarrow> file_name option list \<Rightarrow> pairing_error + trusted_peer list" where
  "load_all K io files entries =
     (if io_list io then Inl StorageIo
      else case load_entries K io files [] entries of
        Inl e \<Rightarrow> Inl e
      | Inr records \<Rightarrow> Inr (sort_key tp_peer_id records))"

fun remove_each ::
    "store_codecs \<Rightarrow> io_faults \<Rightarrow> file_system \<Rightarrow> rust_str list \<Rightarrow> rust_str list
     \<Rightarrow> file_system \<times> (pairing_error + rust_str list)" where
  "remove_each K io files removed [] = (files, Inr removed)"
| "remove_each K io files removed (peer_id # peer_ids) =
     (case file_remove K io files peer_id of
        (files', Inl e) \<Rightarrow> (files', Inl e)
      | (files', Inr gone) \<Rightarrow>
          remove_each K io files' (if gone then removed @ [peer_id] else removed) peer_ids)"

definition remove_peer_and_aliases ::
    "store_codecs \<Rightarrow> io_faults \<Rightarrow> file_system \<Rightarrow> file_name option list \<Rightarrow> rust_str
     \<Rightarrow> file_system \<times> (pairing_error + rust_str list)" where
  "remove_peer_and_aliases K io files entries peer_id =
     (case file_load K io files peer_id of
        Inl e \<Rightarrow> (files, Inl e)
      | Inr None \<Rightarrow> (files, Inr [])
      | Inr (Some target) \<Rightarrow>
        (case load_all K io files entries of
           Inl e \<Rightarrow> (files, Inl e)
         | Inr records \<Rightarrow>
           (let matching = map tp_peer_id (filter (\<lambda>r. tp_identity_key r = tp_identity_key target
                  \<and> tp_certificate_pin r = tp_certificate_pin target) records);
                matching_ids = filter (\<lambda>i. i \<noteq> peer_id) matching @ [peer_id] in
            remove_each K io files [] matching_ids)))"

end
