(* ===== verification/Pairing_Properties.thy ===== *)
theory Pairing_Properties
  imports Pairing
begin

text \<open>
  Correctness of pairing and of the store of trusted peers: a fingerprint confirms exactly the
  identity and certificate it was computed from, and the store in files behaves as the map in
  memory, whatever operations of the file system fail. The contract of a store is the locale
  \<open>peer_store\<close>, which both implementations satisfy.
\<close>

section \<open>Hexadecimal digits\<close>

lemma hex_digit_inject:
  assumes "a < 16" and "b < 16" and "hex_digit l a = hex_digit l b" and "l = 65 \<or> l = 97"
  shows "a = b"
proof -
  have "unat a < 16" "unat b < 16" using assms(1,2) by (simp_all add: word_less_nat_alt)
  moreover have digit: "unat (hex_digit l x) = (if unat x < 10 then 48 + unat x else unat l + (unat x - 10))"
    if "unat x < 16" for x
    using that assms(4)
    by (auto simp: hex_digit_def word_less_nat_alt unat_word_ariths word_le_nat_alt unat_sub)
  moreover have "unat (hex_digit l a) = unat (hex_digit l b)" using assms(3) by simp
  ultimately have "unat a = unat b"
    using assms(4) digit [of a] digit [of b] by (auto split: if_splits)
  then show ?thesis by (simp add: word_unat_eq_iff)
qed

lemma nibbles: "drop_bit 4 (b :: u8) < 16" "b AND 15 < 16"
proof -
  have "unat b div 16 < 16" using unat_word_bound [of b] by simp
  then show "drop_bit 4 b < 16" by (simp only: word_less_nat_alt unat_drop_bit_eq) (simp add: drop_bit_eq_div)
  have "b AND 15 = take_bit 4 b" by (simp add: take_bit_eq_mask mask_eq_exp_minus_1)
  moreover have "unat (take_bit 4 b) < 16" by (simp only: unsigned_take_bit_eq) (simp add: take_bit_eq_mod)
  ultimately show "b AND 15 < 16" by (simp add: word_less_nat_alt)
qed

lemma byte_from_nibbles:
  assumes "drop_bit 4 a = drop_bit 4 (b :: u8)" and "a AND 15 = b AND 15"
  shows "a = b"
proof -
  have "take_bit 4 a = take_bit 4 b"
    using assms(2) by (simp add: take_bit_eq_mask mask_eq_exp_minus_1)
  with assms(1) show ?thesis by (metis bits_ident)
qed

lemma hex_byte_inject:
  "hex_byte_upper a = hex_byte_upper b \<longleftrightarrow> a = b" "hex_byte_lower a = hex_byte_lower b \<longleftrightarrow> a = b"
  using hex_digit_inject [OF nibbles(1) nibbles(1), of 65 a b] hex_digit_inject [OF nibbles(2) nibbles(2), of 65 a b]
    hex_digit_inject [OF nibbles(1) nibbles(1), of 97 a b] hex_digit_inject [OF nibbles(2) nibbles(2), of 97 a b]
    byte_from_nibbles [of a b]
  by (auto simp: hex_byte_upper_def hex_byte_lower_def)

lemma hex_lower_inject: "hex_lower xs = hex_lower ys \<longleftrightarrow> xs = ys"
proof (induction xs arbitrary: ys)
  case Nil
  then show ?case by (cases ys) (auto simp: hex_lower_def hex_byte_lower_def)
next
  case (Cons x xs)
  have two: "length (hex_byte_lower b) = 2" for b by (simp add: hex_byte_lower_def)
  show ?case
  proof (cases ys)
    case Nil
    then show ?thesis by (simp add: hex_lower_def hex_byte_lower_def)
  next
    case (Cons y ys')
    with Cons.IH [of ys'] two show ?thesis by (auto simp: hex_lower_def hex_byte_inject)
  qed
qed

lemma format_fingerprint_Cons:
  "format_fingerprint (b # bs) = hex_byte_upper b @ (if bs = [] then [] else 58 # format_fingerprint bs)"
  by (cases bs) simp_all

lemma format_fingerprint_inject:
  "length xs = length ys \<Longrightarrow> format_fingerprint xs = format_fingerprint ys \<longleftrightarrow> xs = ys"
proof (induction xs ys rule: list_induct2)
  case (Cons x xs y ys)
  have "length (hex_byte_upper b) = 2" for b by (simp add: hex_byte_upper_def)
  with Cons show ?case by (auto simp: format_fingerprint_Cons hex_byte_inject split: if_splits)
qed simp

section \<open>Confirmation\<close>

lemma difference_zero:
  "foldl (\<lambda>d (l, r). d OR (f l XOR f r)) d zs = (0 :: u8) \<longleftrightarrow> d = 0 \<and> (\<forall>(l, r) \<in> set zs. f l = f r)"
proof (induction zs arbitrary: d)
  case (Cons z zs)
  have "a XOR b = 0 \<longleftrightarrow> a = b" for a b :: u8 by (auto simp: bit_eq_iff bit_xor_iff)
  with Cons show ?case by (cases z) (auto simp: or_eq_0_iff)
qed simp

lemma case_equal_iff:
  "constant_time_ascii_case_equal a b \<longleftrightarrow> map to_ascii_uppercase a = map to_ascii_uppercase b"
proof (cases "length a = length b")
  case True
  then have "(\<forall>(l, r) \<in> set (zip a b). to_ascii_uppercase l = to_ascii_uppercase r) \<longleftrightarrow>
      map to_ascii_uppercase a = map to_ascii_uppercase b"
    by (induction a b rule: list_induct2) auto
  with True show ?thesis by (simp add: constant_time_ascii_case_equal_def difference_zero)
next
  case False
  then show ?thesis by (metis constant_time_ascii_case_equal_def length_map)
qed

lemma upper_fingerprint: "map to_ascii_uppercase (format_fingerprint bs) = format_fingerprint bs"
proof (induction bs)
  case (Cons b bs)
  have "to_ascii_uppercase (hex_digit 65 d) = hex_digit 65 d" if "d < 16" for d
    using that
    by (auto simp: to_ascii_uppercase_def hex_digit_def word_less_nat_alt word_le_nat_alt unat_word_ariths
        unat_sub)
  with Cons nibbles show ?case
    by (auto simp: format_fingerprint_Cons hex_byte_upper_def to_ascii_uppercase_def)
qed simp

section \<open>The contract of a store\<close>

text \<open>
  What a caller of \<open>TrustedPeerStore\<close> relies on. \<open>lookup\<close> is the record found for an identifier,
  \<open>ids\<close> the identifiers and \<open>recs\<close> the records that occur, \<open>io\<close> what fails in a call and
  \<open>sane\<close> the failures the contract covers.
\<close>

locale peer_store =
  fixes ids :: "rust_str set"
    and recs :: "trusted_peer set"
    and invar :: "'st \<Rightarrow> bool"
    and sane :: "'io \<Rightarrow> bool"
    and lookup :: "'st \<Rightarrow> rust_str \<Rightarrow> trusted_peer option"
    and insert :: "'io \<Rightarrow> 'st \<Rightarrow> trusted_peer \<Rightarrow> 'st \<times> (pairing_error + unit)"
    and remove :: "'io \<Rightarrow> 'st \<Rightarrow> rust_str \<Rightarrow> 'st \<times> (pairing_error + bool)"
  assumes insert_ok: "invar s \<Longrightarrow> sane io \<Longrightarrow> r \<in> recs \<Longrightarrow> insert io s r = (s', Inr ()) \<Longrightarrow>
        lookup s (tp_peer_id r) = None \<and> invar s' \<and>
        (\<forall>i \<in> ids. lookup s' i = (if i = tp_peer_id r then Some r else lookup s i))"
    and insert_error: "invar s \<Longrightarrow> sane io \<Longrightarrow> r \<in> recs \<Longrightarrow> insert io s r = (s', Inl e) \<Longrightarrow>
        invar s' \<and> (\<forall>i \<in> ids. lookup s' i = lookup s i)"
    and remove_ok: "invar s \<Longrightarrow> sane io \<Longrightarrow> i \<in> ids \<Longrightarrow> remove io s i = (s', Inr b) \<Longrightarrow>
        invar s' \<and> (b \<longleftrightarrow> lookup s i \<noteq> None) \<and>
        (\<forall>j \<in> ids. lookup s' j = (if j = i then None else lookup s j))"
    and remove_error: "invar s \<Longrightarrow> sane io \<Longrightarrow> i \<in> ids \<Longrightarrow> remove io s i = (s', Inl e) \<Longrightarrow>
        invar s' \<and> (\<forall>j \<in> ids. lookup s' j = lookup s j)"
begin

definition insert_all :: "'st \<Rightarrow> ('io \<times> trusted_peer) list \<Rightarrow> 'st" where
  "insert_all s rs = foldl (\<lambda>s (io, r). fst (insert io s r)) s rs"

text \<open>A peer that is paired keeps its record, whatever is inserted afterwards.\<close>

lemma no_silent_replacement:
  "invar s \<Longrightarrow> \<forall>(io, r) \<in> set rs. sane io \<and> r \<in> recs \<Longrightarrow> i \<in> ids \<Longrightarrow> lookup s i = Some q \<Longrightarrow>
     lookup (insert_all s rs) i = Some q"
proof (induction rs arbitrary: s)
  case Nil
  then show ?case by (simp add: insert_all_def)
next
  case (Cons e rs)
  obtain io r where e: "e = (io, r)" by (cases e)
  obtain s' res where st: "insert io s r = (s', res)" by fastforce
  have "invar s' \<and> lookup s' i = Some q"
  proof (cases res)
    case (Inl x)
    with insert_error [OF Cons.prems(1) _ _ st [unfolded Inl]] Cons.prems e show ?thesis by auto
  next
    case (Inr u)
    with insert_ok [OF Cons.prems(1) _ _, of io r s'] st Cons.prems e show ?thesis by auto
  qed
  with Cons.IH [of s'] Cons.prems e st show ?case by (simp add: insert_all_def)
qed

end

section \<open>The store in memory\<close>

lemma validate_peer_id_of: "validate_peer sha r = Inr u \<Longrightarrow> validate_peer_id (tp_peer_id r) = Inr ()"
  by (cases "validate_peer_id (tp_peer_id r)") (auto simp: validate_peer_def)

interpretation memory: peer_store UNIV UNIV bm_ok "\<lambda>_. True" "\<lambda>m i. bm_get m i"
    "\<lambda>(_ :: unit). memory_insert sha256" "\<lambda>_. memory_remove" for sha256
  by unfold_locales
    (auto simp: memory_insert_def memory_remove_def bm_contains_def bm_get_insert bm_get_remove
      split: sum.splits if_splits)

section \<open>The store in files\<close>

text \<open>
  What the store relies on of its libraries, for the identifiers and records that occur:
  SHA-256 does not collide on the identifiers, base64 decodes what it encoded, and a record is
  written as JSON of at most 64 KiB that is read back. The keys of a record are arrays of 32 bytes.
\<close>

definition codec_laws :: "store_codecs \<Rightarrow> rust_str set \<Rightarrow> trusted_peer set \<Rightarrow> bool" where
  "codec_laws K ids recs \<longleftrightarrow>
     inj_on (sc_sha256 K) ids \<and>
     (\<forall>bs. sc_base64_decode K (sc_base64_encode K bs) = Some bs) \<and>
     (\<forall>r \<in> recs. tp_peer_id r \<in> ids \<and> length (tp_identity_key r) = 32 \<and> length (tp_certificate_pin r) = 32 \<and>
        (\<exists>encoded. sc_json_encode K (persisted_from_record K r) = Some encoded \<and>
           sc_json_decode K encoded = Some (persisted_from_record K r) \<and> length encoded \<le> 64 * 1024))"

definition file_of :: "store_codecs \<Rightarrow> rust_str \<Rightarrow> file_name" where
  "file_of K i = (hex_lower (sc_sha256 K i), ascii ''json'')"

definition file_lookup :: "store_codecs \<Rightarrow> file_system \<Rightarrow> rust_str \<Rightarrow> trusted_peer option" where
  "file_lookup K files i =
     (if validate_peer_id i \<noteq> Inr () then None
      else case files (file_of K i) of
        None \<Rightarrow> None
      | Some encoded \<Rightarrow> (case decode_record K encoded of Inl _ \<Rightarrow> None | Inr r \<Rightarrow> Some r))"

definition files_ok :: "store_codecs \<Rightarrow> rust_str set \<Rightarrow> trusted_peer set \<Rightarrow> file_system \<Rightarrow> bool" where
  "files_ok K ids recs files \<longleftrightarrow> codec_laws K ids recs \<and>
     (\<forall>i \<in> ids. \<forall>encoded. files (file_of K i) = Some encoded \<longrightarrow>
        (\<exists>r. decode_record K encoded = Inr r \<and> tp_peer_id r = i))"

lemma record_path_eq: "record_path K i = Inr p \<longleftrightarrow> validate_peer_id i = Inr () \<and> p = file_of K i"
  by (cases "validate_peer_id i") (auto simp: record_path_def file_of_def)

lemma file_of_inject:
  "codec_laws K ids recs \<Longrightarrow> i \<in> ids \<Longrightarrow> j \<in> ids \<Longrightarrow> file_of K i = file_of K j \<longleftrightarrow> i = j"
  by (auto simp: file_of_def hex_lower_inject codec_laws_def dest: inj_onD)

lemma temporary_differs: "file_of K i \<noteq> with_extension p (ascii ''tmp-'' @ pid)"
  by (auto simp: file_of_def with_extension_def ascii_def)

lemma decode_written:
  assumes "codec_laws K ids recs" and "r \<in> recs" and "validate_peer (sc_sha256 K) r = Inr ()"
    and "sc_json_encode K (persisted_from_record K r) = Some encoded"
  shows "decode_record K encoded = Inr r"
proof -
  from assms(1,2,4) have "sc_json_decode K encoded = Some (persisted_from_record K r)"
    "length encoded \<le> 64 * 1024" by (auto simp: codec_laws_def)
  moreover have "persisted_into_record K (persisted_from_record K r) = Inr r"
    using assms(1,2) by (simp add: persisted_into_record_def persisted_from_record_def decode_array_def codec_laws_def)
  ultimately show ?thesis using assms(3) by (simp add: decode_record_def)
qed

text \<open>Writing a record either changes exactly its file, or no file of a record.\<close>

lemma write_record_effect:
  assumes "files_ok K ids recs files" and "r \<in> recs" and "write_record K pid io files r = (files', res)"
  shows "(\<exists>e. res = Inl e \<and> (\<forall>i. files' (file_of K i) = files (file_of K i))) \<or>
    (\<exists>encoded. res = Inr () \<and> validate_peer (sc_sha256 K) r = Inr () \<and> decode_record K encoded = Inr r \<and>
       (\<forall>i \<in> ids. files' (file_of K i) =
          (if i = tp_peer_id r then Some encoded else files (file_of K i))))"
proof (cases res)
  case (Inl e)
  let ?t = "with_extension (file_of K (tp_peer_id r)) (ascii ''tmp-'' @ pid)"
  have "file_of K i \<noteq> ?t" for i by (rule temporary_differs)
  then have ne: "file_of K i = ?t \<longleftrightarrow> False" for i by simp
  from assms(3) Inl show ?thesis
    by (auto simp: write_record_def Let_def discard_temporary_def record_path_eq ne
        split: sum.splits option.splits if_splits)
next
  case (Inr u)
  from assms(1) have laws: "codec_laws K ids recs" by (simp add: files_ok_def)
  let ?t = "with_extension (file_of K (tp_peer_id r)) (ascii ''tmp-'' @ pid)"
  from assms(3) Inr obtain encoded where v: "validate_peer (sc_sha256 K) r = Inr ()"
    and e: "sc_json_encode K (persisted_from_record K r) = Some encoded"
    and f: "files' = files(?t \<mapsto> [], ?t \<mapsto> encoded, file_of K (tp_peer_id r) \<mapsto> encoded, ?t := None)"
    by (auto simp: write_record_def Let_def record_path_eq split: sum.splits option.splits if_splits)
  have "tp_peer_id r \<in> ids" using laws assms(2) by (simp add: codec_laws_def)
  then have "files' (file_of K i) = (if i = tp_peer_id r then Some encoded else files (file_of K i))"
    if "i \<in> ids" for i
    using f that file_of_inject [OF laws that] temporary_differs [of K i] by (auto simp: fun_upd_apply)
  with v e Inr decode_written [OF laws assms(2) v e] show ?thesis by auto
qed

lemma file_lookup_present:
  assumes "files_ok K ids recs files" and "i \<in> ids" and "validate_peer_id i = Inr ()"
  shows "file_lookup K files i \<noteq> None \<longleftrightarrow> files (file_of K i) \<noteq> None"
proof (cases "files (file_of K i)")
  case (Some encoded)
  with assms(1,2) obtain r where "decode_record K encoded = Inr r" by (auto simp: files_ok_def)
  with Some assms(3) show ?thesis by (simp add: file_lookup_def)
qed (simp add: file_lookup_def)

lemma file_store_extensional:
  assumes "files_ok K ids recs files"
    and "\<forall>i \<in> ids. files' (file_of K i) = files (file_of K i)"
  shows "files_ok K ids recs files' \<and> (\<forall>i \<in> ids. file_lookup K files' i = file_lookup K files i)"
  using assms by (auto simp: files_ok_def file_lookup_def)

lemma file_store_written:
  assumes "files_ok K ids recs files" and "validate_peer (sc_sha256 K) r = Inr ()"
    and "decode_record K encoded = Inr r"
    and "\<forall>i \<in> ids. files' (file_of K i) = (if i = tp_peer_id r then Some encoded else files (file_of K i))"
  shows "files_ok K ids recs files' \<and>
    (\<forall>i \<in> ids. file_lookup K files' i = (if i = tp_peer_id r then Some r else file_lookup K files i))"
  using assms validate_peer_id_of [OF assms(2)] by (auto simp: files_ok_def file_lookup_def)

lemma file_insert_effect:
  assumes "files_ok K ids recs files" and "\<not> io_exists io" and "r \<in> recs"
    and "file_insert K pid io files r = (files', res)"
  shows "(\<exists>e. res = Inl e \<and> files_ok K ids recs files' \<and>
       (\<forall>i \<in> ids. file_lookup K files' i = file_lookup K files i)) \<or>
    (res = Inr () \<and> file_lookup K files (tp_peer_id r) = None \<and> files_ok K ids recs files' \<and>
       (\<forall>i \<in> ids. file_lookup K files' i = (if i = tp_peer_id r then Some r else file_lookup K files i)))"
proof -
  have cases: "(\<exists>e. res = Inl e \<and> files' = files) \<or>
      (files (file_of K (tp_peer_id r)) = None \<and> write_record K pid io files r = (files', res))"
  proof (cases "validate_peer (sc_sha256 K) r")
    case (Inl e)
    with assms(4) have "res = Inl e \<and> files' = files" by (simp add: file_insert_def)
    then show ?thesis by blast
  next
    case (Inr u)
    then have "validate_peer_id (tp_peer_id r) = Inr ()" by (rule validate_peer_id_of)
    with Inr assms(2,4) show ?thesis
      by (auto simp: file_insert_def record_path_def file_of_def split: if_splits)
  qed
  then show ?thesis
  proof
    assume "\<exists>e. res = Inl e \<and> files' = files"
    with assms(1) show ?thesis by auto
  next
    assume w: "files (file_of K (tp_peer_id r)) = None \<and> write_record K pid io files r = (files', res)"
    then have "file_lookup K files (tp_peer_id r) = None" by (simp add: file_lookup_def)
    with write_record_effect [OF assms(1,3) conjunct2 [OF w]] file_store_extensional [OF assms(1)]
      file_store_written [OF assms(1)] show ?thesis by blast
  qed
qed

lemma file_remove_effect:
  assumes "files_ok K ids recs files" and "i \<in> ids" and "file_remove K io files i = (files', res)"
  shows "(\<exists>e. res = Inl e \<and> files' = files) \<or>
    (\<exists>b. res = Inr b \<and> (b \<longleftrightarrow> file_lookup K files i \<noteq> None) \<and> files_ok K ids recs files' \<and>
       (\<forall>j \<in> ids. file_lookup K files' j = (if j = i then None else file_lookup K files j)))"
proof (cases res)
  case (Inl e)
  with assms(3) show ?thesis by (auto simp: file_remove_def split: sum.splits if_splits)
next
  case (Inr b)
  with assms(3) have v: "validate_peer_id i = Inr ()" and f: "files' = files(file_of K i := None)"
    and b: "b \<longleftrightarrow> files (file_of K i) \<noteq> None"
    by (auto simp: file_remove_def record_path_eq split: sum.splits if_splits)
  from assms(1) have laws: "codec_laws K ids recs" by (simp add: files_ok_def)
  have upd: "files' (file_of K j) = (if j = i then None else files (file_of K j))" if "j \<in> ids" for j
    using f file_of_inject [OF laws that assms(2)] by auto
  have "b \<longleftrightarrow> file_lookup K files i \<noteq> None"
    using b file_lookup_present [OF assms(1,2) v] by simp
  moreover have "files_ok K ids recs files'" using assms(1) upd by (auto simp: files_ok_def)
  moreover have "\<forall>j \<in> ids. file_lookup K files' j = (if j = i then None else file_lookup K files j)"
    using upd by (auto simp: file_lookup_def)
  ultimately show ?thesis using Inr by blast
qed

interpretation files: peer_store ids recs "files_ok K ids recs" "\<lambda>io. \<not> io_exists io" "file_lookup K"
    "\<lambda>io files r. file_insert K pid io files r" "\<lambda>io files i. file_remove K io files i" for K ids recs pid
proof unfold_locales
  fix s s' :: file_system and io r i b e
  assume ok: "files_ok K ids recs s"
  show "file_lookup K s (tp_peer_id r) = None \<and> files_ok K ids recs s' \<and>
      (\<forall>i \<in> ids. file_lookup K s' i = (if i = tp_peer_id r then Some r else file_lookup K s i))"
    if "\<not> io_exists io" "r \<in> recs" "file_insert K pid io s r = (s', Inr ())"
    using file_insert_effect [OF ok that] by simp
  show "files_ok K ids recs s' \<and> (\<forall>i \<in> ids. file_lookup K s' i = file_lookup K s i)"
    if "\<not> io_exists io" "r \<in> recs" "file_insert K pid io s r = (s', Inl e)"
    using file_insert_effect [OF ok that] by simp
  show "files_ok K ids recs s' \<and> (b \<longleftrightarrow> file_lookup K s i \<noteq> None) \<and>
      (\<forall>j \<in> ids. file_lookup K s' j = (if j = i then None else file_lookup K s j))"
    if "i \<in> ids" "file_remove K io s i = (s', Inr b)"
    using file_remove_effect [OF ok that] by simp
  show "files_ok K ids recs s' \<and> (\<forall>j \<in> ids. file_lookup K s' j = file_lookup K s j)"
    if "i \<in> ids" "file_remove K io s i = (s', Inl e)"
    using file_remove_effect [OF ok that] ok by simp
qed

lemma file_load_lookup:
  assumes "files_ok K ids recs files" and "i \<in> ids" and "\<not> io_read io"
  shows "file_load K io files i = (case validate_peer_id i of Inl e \<Rightarrow> Inl e | Inr _ \<Rightarrow> Inr (file_lookup K files i))"
proof (cases "validate_peer_id i = Inr () \<and> files (file_of K i) \<noteq> None")
  case True
  then obtain encoded r where "files (file_of K i) = Some encoded" "decode_record K encoded = Inr r" "tp_peer_id r = i"
    using assms(1,2) by (fastforce simp: files_ok_def)
  moreover from this(2) have "validate_peer (sc_sha256 K) r = Inr ()"
    by (auto simp: decode_record_def split: sum.splits option.splits if_splits)
  ultimately show ?thesis
    using True assms(3) by (simp add: file_load_def record_path_def file_lookup_def file_of_def)
next
  case False
  then show ?thesis
    using assms(3) by (auto simp: file_load_def record_path_def file_lookup_def file_of_def split: sum.splits)
qed

section \<open>Runs of a store\<close>

datatype store_call =
    CallLoad rust_str | CallInsert trusted_peer | CallReplace trusted_peer | CallRemove rust_str

datatype store_reply =
    Loaded "pairing_error + trusted_peer option"
  | Written "pairing_error + unit"
  | Removed "pairing_error + bool"

fun file_step :: "store_codecs \<Rightarrow> bytes \<Rightarrow> io_faults \<times> store_call \<Rightarrow> file_system \<Rightarrow> file_system \<times> store_reply" where
  "file_step K pid (io, CallLoad i) files = (files, Loaded (file_load K io files i))"
| "file_step K pid (io, CallInsert r) files = map_prod id Written (file_insert K pid io files r)"
| "file_step K pid (io, CallReplace r) files = map_prod id Written (replace_authenticated K pid io files r)"
| "file_step K pid (io, CallRemove i) files = map_prod id Removed (file_remove K io files i)"

fun file_run ::
    "store_codecs \<Rightarrow> bytes \<Rightarrow> file_system \<Rightarrow> (io_faults \<times> store_call) list \<Rightarrow> file_system \<times> store_reply list" where
  "file_run K pid files [] = (files, [])"
| "file_run K pid files (c # cs) =
     (case file_step K pid c files of
        (files', reply) \<Rightarrow> map_prod id (Cons reply) (file_run K pid files' cs))"

text \<open>
  The specification: the map in memory, for which a replacement that validates overwrites, and on
  which a call answered by \<open>StorageIo\<close> has no effect.
\<close>

definition spec_replace ::
    "(bytes \<Rightarrow> bytes) \<Rightarrow> memory_store \<Rightarrow> trusted_peer \<Rightarrow> memory_store \<times> (pairing_error + unit)" where
  "spec_replace sha256 m r =
     (case validate_peer sha256 r of
        Inl e \<Rightarrow> (m, Inl e)
      | Inr _ \<Rightarrow> (bm_insert (tp_peer_id r) r m, Inr ()))"

fun spec_step :: "(bytes \<Rightarrow> bytes) \<Rightarrow> store_call \<Rightarrow> memory_store \<Rightarrow> memory_store \<times> store_reply" where
  "spec_step sha256 (CallLoad i) m = (m, Loaded (memory_load m i))"
| "spec_step sha256 (CallInsert r) m = map_prod id Written (memory_insert sha256 m r)"
| "spec_step sha256 (CallReplace r) m = map_prod id Written (spec_replace sha256 m r)"
| "spec_step sha256 (CallRemove i) m = map_prod id Removed (memory_remove m i)"

fun spec_run ::
    "(bytes \<Rightarrow> bytes) \<Rightarrow> memory_store \<Rightarrow> (store_call \<times> bool) list \<Rightarrow> memory_store \<times> store_reply option list" where
  "spec_run sha256 m [] = (m, [])"
| "spec_run sha256 m ((c, failed) # cs) =
     (if failed then map_prod id (Cons None) (spec_run sha256 m cs)
      else case spec_step sha256 c m of
        (m', reply) \<Rightarrow> map_prod id (Cons (Some reply)) (spec_run sha256 m' cs))"

fun failed_reply :: "store_reply \<Rightarrow> bool" where
  "failed_reply (Loaded res) = (res = Inl StorageIo)"
| "failed_reply (Written res) = (res = Inl StorageIo)"
| "failed_reply (Removed res) = (res = Inl StorageIo)"

fun call_within :: "rust_str set \<Rightarrow> trusted_peer set \<Rightarrow> store_call \<Rightarrow> bool" where
  "call_within ids recs (CallLoad i) = (i \<in> ids)"
| "call_within ids recs (CallInsert r) = (r \<in> recs)"
| "call_within ids recs (CallReplace r) = (r \<in> recs)"
| "call_within ids recs (CallRemove i) = (i \<in> ids)"

definition store_rel :: "store_codecs \<Rightarrow> rust_str set \<Rightarrow> trusted_peer set \<Rightarrow> file_system \<Rightarrow> memory_store \<Rightarrow> bool" where
  "store_rel K ids recs files m \<longleftrightarrow> files_ok K ids recs files \<and> bm_ok m \<and>
     (\<forall>i \<in> ids. file_lookup K files i = bm_get m i)"

lemma validate_peer_not_io: "validate_peer sha256 r \<noteq> Inl StorageIo" "validate_peer_id i \<noteq> Inl StorageIo"
  by (auto simp: validate_peer_def validate_peer_id_def split: sum.splits if_splits)

lemma write_record_result:
  assumes "files_ok K ids recs files" and "r \<in> recs"
    and "write_record K pid io files r = (files', res)" and "res \<noteq> Inl StorageIo"
  shows "res = validate_peer (sc_sha256 K) r"
proof (cases "validate_peer (sc_sha256 K) r")
  case (Inr u)
  from assms(1,2) obtain encoded where "sc_json_encode K (persisted_from_record K r) = Some encoded"
    by (auto simp: files_ok_def codec_laws_def)
  with Inr validate_peer_id_of [OF Inr] assms(3,4) show ?thesis
    by (auto simp: write_record_def record_path_def Let_def split: if_splits)
qed (use assms(3) in \<open>simp add: write_record_def\<close>)

lemma file_insert_result:
  assumes "files_ok K ids recs files" and "\<not> io_exists io" and "r \<in> recs"
    and "file_insert K pid io files r = (files', res)" and "res \<noteq> Inl StorageIo"
  shows "res = (case validate_peer (sc_sha256 K) r of
       Inl e \<Rightarrow> Inl e
     | Inr _ \<Rightarrow> if file_lookup K files (tp_peer_id r) \<noteq> None then Inl AlreadyPaired else Inr ())"
proof (cases "validate_peer (sc_sha256 K) r")
  case (Inl e)
  with assms(4) have "res = Inl e" by (simp add: file_insert_def)
  with Inl show ?thesis by simp
next
  case (Inr u)
  have v: "validate_peer_id (tp_peer_id r) = Inr ()" using Inr by (rule validate_peer_id_of)
  have "tp_peer_id r \<in> ids" using assms(1,3) by (simp add: files_ok_def codec_laws_def)
  then have present: "file_lookup K files (tp_peer_id r) \<noteq> None \<longleftrightarrow> files (file_of K (tp_peer_id r)) \<noteq> None"
    using file_lookup_present [OF assms(1) _ v] by simp
  show ?thesis
  proof (cases "files (file_of K (tp_peer_id r)) = None")
    case True
    with assms(4) Inr v have "write_record K pid io files r = (files', res)"
      by (simp add: file_insert_def record_path_def file_of_def)
    from write_record_result [OF assms(1,3) this assms(5)] Inr True present show ?thesis by simp
  next
    case False
    with assms(2,4) Inr v present show ?thesis by (simp add: file_insert_def record_path_def file_of_def)
  qed
qed

lemma refines_insert:
  assumes "store_rel K ids recs files m" and "\<not> io_exists io" and "r \<in> recs"
    and "file_insert K pid io files r = (files', res)"
  shows "if res = Inl StorageIo then store_rel K ids recs files' m
    else \<exists>m'. memory_insert (sc_sha256 K) m r = (m', res) \<and> store_rel K ids recs files' m'"
proof -
  from assms(1) have ok: "files_ok K ids recs files" and m: "bm_ok m"
    and look: "\<forall>i \<in> ids. file_lookup K files i = bm_get m i" by (simp_all add: store_rel_def)
  have rid: "tp_peer_id r \<in> ids" using ok assms(3) by (simp add: files_ok_def codec_laws_def)
  from file_insert_effect [OF ok assms(2,3,4)] show ?thesis
  proof (elim disjE exE conjE)
    fix e assume e: "res = Inl e" "files_ok K ids recs files'"
      "\<forall>i \<in> ids. file_lookup K files' i = file_lookup K files i"
    then have rel: "store_rel K ids recs files' m" using m look by (simp add: store_rel_def)
    show ?thesis
    proof (cases "res = Inl StorageIo")
      case False
      from file_insert_result [OF ok assms(2,3,4) False] e(1) rid look
      have "memory_insert (sc_sha256 K) m r = (m, res)"
        by (auto simp: memory_insert_def bm_contains_def split: sum.splits if_splits)
      with rel False show ?thesis by simp
    qed (simp add: rel)
  next
    assume e: "res = Inr ()" "file_lookup K files (tp_peer_id r) = None" "files_ok K ids recs files'"
      "\<forall>i \<in> ids. file_lookup K files' i = (if i = tp_peer_id r then Some r else file_lookup K files i)"
    then have "validate_peer (sc_sha256 K) r = Inr ()"
      using file_insert_result [OF ok assms(2,3,4)] by (auto split: sum.splits)
    with e rid look have "memory_insert (sc_sha256 K) m r = (bm_insert (tp_peer_id r) r m, res)"
      by (simp add: memory_insert_def bm_contains_def)
    moreover have "store_rel K ids recs files' (bm_insert (tp_peer_id r) r m)"
      using e m look by (simp add: store_rel_def bm_get_insert)
    ultimately show ?thesis using e(1) by simp
  qed
qed

lemma refines_replace:
  assumes "store_rel K ids recs files m" and "r \<in> recs"
    and "write_record K pid io files r = (files', res)"
  shows "if res = Inl StorageIo then store_rel K ids recs files' m
    else \<exists>m'. spec_replace (sc_sha256 K) m r = (m', res) \<and> store_rel K ids recs files' m'"
proof -
  from assms(1) have ok: "files_ok K ids recs files" and m: "bm_ok m"
    and look: "\<forall>i \<in> ids. file_lookup K files i = bm_get m i" by (simp_all add: store_rel_def)
  from write_record_effect [OF ok assms(2,3)] show ?thesis
  proof (elim disjE exE conjE)
    fix e assume e: "res = Inl e" "\<forall>i. files' (file_of K i) = files (file_of K i)"
    have "store_rel K ids recs files' m"
      using file_store_extensional [OF ok, of files'] e(2) m look by (simp add: store_rel_def)
    then show ?thesis
      using e(1) write_record_result [OF ok assms(2,3)] by (auto simp: spec_replace_def split: sum.splits)
  next
    fix encoded assume e: "res = Inr ()" "validate_peer (sc_sha256 K) r = Inr ()"
      "decode_record K encoded = Inr r"
      "\<forall>i \<in> ids. files' (file_of K i) = (if i = tp_peer_id r then Some encoded else files (file_of K i))"
    have "store_rel K ids recs files' (bm_insert (tp_peer_id r) r m)"
      using file_store_written [OF ok e(2,3,4)] m look by (simp add: store_rel_def bm_get_insert)
    with e(1,2) show ?thesis by (simp add: spec_replace_def)
  qed
qed

lemma refines_remove:
  assumes "store_rel K ids recs files m" and "i \<in> ids" and "file_remove K io files i = (files', res)"
  shows "if res = Inl StorageIo then store_rel K ids recs files' m
    else \<exists>m'. memory_remove m i = (m', res) \<and> store_rel K ids recs files' m'"
proof -
  from assms(1) have ok: "files_ok K ids recs files" and m: "bm_ok m"
    and look: "\<forall>j \<in> ids. file_lookup K files j = bm_get m j" by (simp_all add: store_rel_def)
  have err: "res = Inl e \<Longrightarrow> e \<noteq> StorageIo \<Longrightarrow> validate_peer_id i = Inl e" for e
    using assms(3) by (cases "validate_peer_id i") (auto simp: file_remove_def record_path_def split: if_splits)
  have good: "res = Inr b \<Longrightarrow> validate_peer_id i = Inr ()" for b
    using assms(3) by (cases "validate_peer_id i") (auto simp: file_remove_def record_path_def split: if_splits)
  from file_remove_effect [OF ok assms(2,3)] show ?thesis
  proof (elim disjE exE conjE)
    fix e assume "res = Inl e" "files' = files"
    with err assms(1) show ?thesis by (auto simp: memory_remove_def)
  next
    fix b assume e: "res = Inr b" "b \<longleftrightarrow> file_lookup K files i \<noteq> None" "files_ok K ids recs files'"
      "\<forall>j \<in> ids. file_lookup K files' j = (if j = i then None else file_lookup K files j)"
    then have "store_rel K ids recs files' (bm_remove i m)"
      using m look by (simp add: store_rel_def bm_get_remove)
    with e good assms(2) look show ?thesis by (simp add: memory_remove_def bm_contains_def)
  qed
qed

lemma refines_load:
  assumes "store_rel K ids recs files m" and "i \<in> ids" and "file_load K io files i \<noteq> Inl StorageIo"
  shows "file_load K io files i = memory_load m i"
proof (cases "io_read io")
  case True
  with assms(3) show ?thesis
    by (cases "validate_peer_id i") (auto simp: file_load_def record_path_def memory_load_def)
next
  case False
  with assms file_load_lookup [of K ids recs files i io] show ?thesis
    by (auto simp: store_rel_def memory_load_def split: sum.splits)
qed

text \<open>
  An insertion whose check \<open>path.exists()\<close> fails takes the file for absent, and writes like a
  replacement.
\<close>

fun effective_call :: "io_faults \<times> store_call \<Rightarrow> store_call" where
  "effective_call (io, CallInsert r) = (if io_exists io then CallReplace r else CallInsert r)"
| "effective_call (io, c) = c"

lemma unchecked_insert: "io_exists io \<Longrightarrow> file_insert K pid io files r = write_record K pid io files r"
  by (simp add: file_insert_def write_record_def split: sum.splits)

lemma step_refines:
  assumes "store_rel K ids recs files m" and "call_within ids recs c"
    and "file_step K pid (io, c) files = (files', reply)"
  shows "if failed_reply reply then store_rel K ids recs files' m
    else \<exists>m'. spec_step (sc_sha256 K) (effective_call (io, c)) m = (m', reply) \<and> store_rel K ids recs files' m'"
proof (cases c)
  case (CallLoad i)
  with assms refines_load [OF assms(1), of i io] show ?thesis by auto
next
  case (CallInsert r)
  obtain files1 res where f: "file_insert K pid io files r = (files1, res)" by fastforce
  with CallInsert assms(3) have reply: "files' = files1" "reply = Written res" by simp_all
  show ?thesis
  proof (cases "io_exists io")
    case True
    with f have "write_record K pid io files r = (files1, res)" by (simp add: unchecked_insert)
    with refines_replace [OF assms(1) _ this] reply CallInsert True assms(2) show ?thesis by (auto split: if_splits)
  next
    case False
    with refines_insert [OF assms(1) _ _ f] reply CallInsert assms(2) show ?thesis by (auto split: if_splits)
  qed
next
  case (CallReplace r)
  obtain files1 res where f: "write_record K pid io files r = (files1, res)" by fastforce
  with CallReplace assms(3) have "files' = files1" "reply = Written res" by (simp_all add: replace_authenticated_def)
  with refines_replace [OF assms(1) _ f] CallReplace assms(2) show ?thesis by (auto split: if_splits)
next
  case (CallRemove i)
  obtain files1 res where f: "file_remove K io files i = (files1, res)" by fastforce
  with CallRemove assms(3) have "files' = files1" "reply = Removed res" by simp_all
  with refines_remove [OF assms(1) _ f] CallRemove assms(2) show ?thesis by (auto split: if_splits)
qed

lemma run_refines:
  "store_rel K ids recs files m \<Longrightarrow>
   \<forall>(io, c) \<in> set cs. call_within ids recs c \<Longrightarrow>
   file_run K pid files cs = (files', replies) \<Longrightarrow>
   \<exists>m'. spec_run (sc_sha256 K) m (zip (map effective_call cs) (map failed_reply replies)) =
       (m', map (\<lambda>reply. if failed_reply reply then None else Some reply) replies) \<and>
     store_rel K ids recs files' m'"
proof (induction cs arbitrary: files m replies)
  case Nil
  then show ?case by simp
next
  case (Cons e cs)
  obtain io c where e: "e = (io, c)" by (cases e)
  obtain files1 reply where st: "file_step K pid (io, c) files = (files1, reply)" by fastforce
  obtain replies1 where run: "file_run K pid files1 cs = (files', replies1)" and r: "replies = reply # replies1"
    using Cons.prems(3) e st by (cases "file_run K pid files1 cs") auto
  note step = step_refines [OF Cons.prems(1) _ st]
  show ?case
  proof (cases "failed_reply reply")
    case True
    then have "store_rel K ids recs files1 m" using step Cons.prems(2) e by simp
    from Cons.IH [OF this _ run] Cons.prems(2) True r e show ?thesis by auto
  next
    case False
    then obtain m1 where "spec_step (sc_sha256 K) (effective_call (io, c)) m = (m1, reply)" "store_rel K ids recs files1 m1"
      using step Cons.prems(2) e by auto
    with Cons.IH [OF this(2) _ run] Cons.prems(2) False r e show ?thesis by auto
  qed
qed

text \<open>
  Property C38: the store of trusted peers in files refines the map in memory. For every sequence
  of loads, insertions, authenticated replacements and removals on an empty directory, with any
  failures of reading, checking, creating, writing, renaming and removing files and of setting
  permissions, every answer other than the storage error is the one the map in memory gives, a call
  that answers the storage error leaves the trusted peers as they were (a failed replacement keeps
  the old record, no write is half done), and afterwards a load returns exactly what the map holds.
  In the map, too, an insertion acts as a replacement when its check for the file fails: then, and
  only then, an insertion can replace a paired record.
\<close>

theorem trust_store_refines:
  assumes "codec_laws K ids recs"
    and "\<forall>(io, c) \<in> set cs. call_within ids recs c"
    and "file_run K pid Map.empty cs = (files', replies)"
  shows "\<exists>m. spec_run (sc_sha256 K) [] (zip (map effective_call cs) (map failed_reply replies)) =
       (m, map (\<lambda>reply. if failed_reply reply then None else Some reply) replies) \<and>
     (\<forall>i \<in> ids. \<forall>io. file_load K io files' i =
        (if validate_peer_id i = Inr () \<and> io_read io then Inl StorageIo else memory_load m i))"
proof -
  have "store_rel K ids recs Map.empty []"
    using assms(1) by (auto simp: store_rel_def files_ok_def file_lookup_def )
  from run_refines [OF this assms(2,3)] obtain m where
    "spec_run (sc_sha256 K) [] (zip (map effective_call cs) (map failed_reply replies)) =
       (m, map (\<lambda>reply. if failed_reply reply then None else Some reply) replies)"
    and rel: "store_rel K ids recs files' m" by blast
  moreover have "file_load K io files' i =
      (if validate_peer_id i = Inr () \<and> io_read io then Inl StorageIo else memory_load m i)"
    if "i \<in> ids" for i io
  proof (cases "validate_peer_id i = Inr () \<and> io_read io")
    case True
    then show ?thesis by (simp add: file_load_def record_path_def)
  next
    case False
    then have "file_load K io files' i \<noteq> Inl StorageIo"
      using file_load_lookup [of K ids recs files' i io] rel that validate_peer_not_io(2) [of i]
      by (cases "validate_peer_id i") (auto simp: store_rel_def file_load_def record_path_def)
    from refines_load [OF rel that this] False show ?thesis by auto
  qed
  ultimately show ?thesis by blast
qed

definition toy_peer :: "u64 \<Rightarrow> trusted_peer" where
  "toy_peer n = \<lparr>tp_peer_id = [112], tp_identity_key = replicate 32 7, tp_certificate_der = [1, 2],
     tp_certificate_pin = replicate 32 9, tp_confirmed_at_unix_ms = n\<rparr>"

definition toy_codecs :: store_codecs where
  "toy_codecs = \<lparr>sc_sha256 = (\<lambda>_. replicate 32 9), sc_base64_encode = id, sc_base64_decode = Some,
     sc_json_encode = (\<lambda>p. Some [ucast (pp_confirmed_at_unix_ms p)]),
     sc_json_decode = (\<lambda>bs. case bs of
        [b] \<Rightarrow> Some \<lparr>pp_version = 1, pp_peer_id = [112], pp_identity_key_base64 = replicate 32 7,
           pp_certificate_der_base64 = [1, 2], pp_certificate_pin_base64 = replicate 32 9,
           pp_confirmed_at_unix_ms = ucast b\<rparr>
      | _ \<Rightarrow> None)\<rparr>"

definition no_faults :: io_faults where
  "no_faults = \<lparr>io_read = False, io_list = False, io_exists = False, io_create = False,
     io_permissions = False, io_write = False, io_written = [], io_rename = False, io_remove = False\<rparr>"

definition toy_calls :: "(io_faults \<times> store_call) list" where
  "toy_calls =
     [(no_faults, CallInsert (toy_peer 1)), (no_faults, CallInsert (toy_peer 2)),
      (no_faults\<lparr>io_write := True, io_written := [0]\<rparr>, CallReplace (toy_peer 2)), (no_faults, CallLoad [112]),
      (no_faults\<lparr>io_exists := True\<rparr>, CallInsert (toy_peer 2)), (no_faults, CallLoad [112]),
      (no_faults, CallRemove [112]), (no_faults, CallLoad [112])]"

definition toy_replies :: "store_reply list" where
  "toy_replies =
     [Written (Inr ()), Written (Inl AlreadyPaired), Written (Inl StorageIo), Loaded (Inr (Some (toy_peer 1))),
      Written (Inr ()), Loaded (Inr (Some (toy_peer 2))), Removed (Inr True), Loaded (Inr None)]"

lemma toy_laws: "codec_laws toy_codecs {[112]} {toy_peer 1, toy_peer 2}"
  by (simp add: codec_laws_def toy_codecs_def toy_peer_def persisted_from_record_def)

lemma toy_valid: "validate_peer_id [112] = Inr ()" "validate_peer (sc_sha256 toy_codecs) (toy_peer n) = Inr ()"
proof -
  show "validate_peer_id [112] = Inr ()" by code_simp
  then show "validate_peer (sc_sha256 toy_codecs) (toy_peer n) = Inr ()"
    by (simp add: validate_peer_def toy_peer_def toy_codecs_def MAX_CERTIFICATE_BYTES_def list_all_iff)
qed

lemma toy_path:
  "record_path toy_codecs [112] = Inr (file_of toy_codecs [112])"
  "tp_peer_id (toy_peer n) = [112]"
  "toy_peer 1 \<noteq> toy_peer 2"
  "sc_json_encode toy_codecs (persisted_from_record toy_codecs (toy_peer n)) = Some [ucast n]"
  by (simp_all add: record_path_eq toy_valid toy_peer_def toy_codecs_def persisted_from_record_def)

lemma toy_decoded:
  "n \<in> {1, 2} \<Longrightarrow> decode_record toy_codecs [ucast n] = Inr (toy_peer n)"
  using toy_laws toy_valid(2) toy_path(4) by (blast intro: decode_written)

lemma toy_run: "snd (file_run toy_codecs [55] Map.empty toy_calls) = toy_replies"
  using toy_decoded [of 1] toy_decoded [of 2] temporary_differs [of toy_codecs "[112]"]
    temporary_differs [of toy_codecs "[112]", symmetric]
  by (simp add: toy_calls_def toy_replies_def no_faults_def file_insert_def file_remove_def file_load_def
      replace_authenticated_def write_record_def discard_temporary_def Let_def toy_path toy_valid)

lemma toy_within:
  "\<forall>(io, c) \<in> set toy_calls. call_within {[112]} {toy_peer 1, toy_peer 2} c"
  by (simp add: toy_calls_def no_faults_def)

theorem trust_store_refines_witness:
  "codec_laws toy_codecs {[112]} {toy_peer 1, toy_peer 2} \<and>
   snd (file_run toy_codecs [55] Map.empty toy_calls) = toy_replies \<and>
   (\<exists>m. snd (spec_run (sc_sha256 toy_codecs) [] (zip (map effective_call toy_calls) (map failed_reply toy_replies))) =
       map (\<lambda>reply. if failed_reply reply then None else Some reply) toy_replies)"
proof -
  obtain files' where "file_run toy_codecs [55] Map.empty toy_calls = (files', toy_replies)"
    using toy_run by (metis prod.collapse)
  from trust_store_refines [OF toy_laws toy_within this] toy_laws toy_run show ?thesis by auto
qed

text \<open>
  When the check for the file fails, \<open>insert\<close> replaces the record of a peer that is paired already
  instead of answering \<open>AlreadyPaired\<close>.
\<close>

lemma unchecked_insert_replaces:
  assumes "io_exists io" and "write_record K pid io files r = (files', Inr ())"
  shows "file_insert K pid io files r = (files', Inr ())"
  using assms by (simp add: unchecked_insert)

text \<open>
  When setting the permissions of the temporary file fails, the file stays, and until it is
  removed by other means every later write of the peer's record by the same process fails.
\<close>

lemma temporary_left_behind:
  assumes "codec_laws K ids recs" and "r \<in> recs" and "validate_peer (sc_sha256 K) r = Inr ()"
    and "files (with_extension (file_of K (tp_peer_id r)) (ascii ''tmp-'' @ pid)) = None"
    and "\<not> io_create io" and "io_permissions io" and "write_record K pid io files r = (files', res)"
  shows "res = Inl StorageIo \<and> snd (write_record K pid io' files' r) = Inl StorageIo"
proof -
  from assms(1,2) obtain encoded where "sc_json_encode K (persisted_from_record K r) = Some encoded"
    by (auto simp: codec_laws_def)
  with assms validate_peer_id_of [OF assms(3)] show ?thesis
    by (auto simp: write_record_def record_path_def file_of_def Let_def)
qed

section \<open>Confirmation of a fingerprint\<close>

definition pairing_preimage :: "(bytes \<Rightarrow> bytes) \<Rightarrow> bytes \<Rightarrow> bytes \<Rightarrow> bytes" where
  "pairing_preimage sha256 key cert = ascii ''rustadmin-peer-pairing-v1'' @ key @ sha256 cert"

lemma candidate_new_Inr:
  "candidate_new sha256 peer key cert = Inr c \<longleftrightarrow>
     validate_peer_id peer = Inr () \<and> \<not> list_all (\<lambda>b. b = 0) key \<and> cert \<noteq> [] \<and>
     length cert \<le> MAX_CERTIFICATE_BYTES \<and>
     c = \<lparr>pc_peer_id = peer, pc_identity_key = key, pc_certificate_der = cert, pc_certificate_pin = sha256 cert\<rparr>"
  by (auto simp: candidate_new_def split: sum.splits)

lemma candidate_confirm_Inr:
  "candidate_confirm sha256 c typed now = Inr r \<longleftrightarrow>
     map to_ascii_uppercase typed = fingerprint sha256 c \<and>
     r = \<lparr>tp_peer_id = pc_peer_id c, tp_identity_key = pc_identity_key c,
          tp_certificate_der = pc_certificate_der c, tp_certificate_pin = pc_certificate_pin c,
          tp_confirmed_at_unix_ms = now\<rparr>"
  by (auto simp: candidate_confirm_def case_equal_iff fingerprint_def upper_fingerprint)

text \<open>
  Property C37: confirming a fingerprint binds a peer to one identity. A candidate is confirmed
  exactly when the typed text is, up to letter case, its fingerprint, and the record made then
  passes the store's validation and carries the candidate's key, certificate and pin. When
  SHA-256 does not collide on the inputs involved, one typed text never confirms two candidates
  that differ in identity key or certificate.
\<close>

theorem pairing_binds_identity:
  assumes "candidate_new sha256 peer key cert = Inr c" and "candidate_new sha256 peer' key' cert' = Inr c'"
    and "length key = 32" and "length key' = 32" and "\<forall>bs. length (sha256 bs) = 32"
    and "inj_on sha256 {cert, cert', pairing_preimage sha256 key cert, pairing_preimage sha256 key' cert'}"
  shows "(candidate_confirm sha256 c typed now = Inr r \<longleftrightarrow>
      map to_ascii_uppercase typed = fingerprint sha256 c \<and>
      r = \<lparr>tp_peer_id = peer, tp_identity_key = key, tp_certificate_der = cert,
           tp_certificate_pin = sha256 cert, tp_confirmed_at_unix_ms = now\<rparr>) \<and>
    (candidate_confirm sha256 c typed now = Inr r \<longrightarrow> validate_peer sha256 r = Inr () \<and>
      (candidate_confirm sha256 c' typed now' = Inr r' \<longrightarrow> key' = key \<and> cert' = cert))"
proof -
  have c: "c = \<lparr>pc_peer_id = peer, pc_identity_key = key, pc_certificate_der = cert, pc_certificate_pin = sha256 cert\<rparr>"
    and c': "c' = \<lparr>pc_peer_id = peer', pc_identity_key = key', pc_certificate_der = cert', pc_certificate_pin = sha256 cert'\<rparr>"
    and ok: "validate_peer_id peer = Inr ()" "\<not> list_all (\<lambda>b. b = 0) key" "cert \<noteq> []" "length cert \<le> MAX_CERTIFICATE_BYTES"
    using assms(1,2) by (simp_all add: candidate_new_Inr)
  have "key' = key \<and> cert' = cert" if "fingerprint sha256 c = fingerprint sha256 c'"
  proof -
    from that have "sha256 (pairing_preimage sha256 key cert) = sha256 (pairing_preimage sha256 key' cert')"
      using assms(5) by (simp add: fingerprint_def pairing_preimage_def c c' format_fingerprint_inject)
    then have "pairing_preimage sha256 key cert = pairing_preimage sha256 key' cert'"
      by (rule inj_onD [OF assms(6)]) simp_all
    then have "key' = key" "sha256 cert' = sha256 cert"
      using assms(3,4) by (simp_all add: pairing_preimage_def)
    moreover from this(2) have "cert' = cert" by (rule inj_onD [OF assms(6)]) simp_all
    ultimately show ?thesis by simp
  qed
  moreover have "candidate_confirm sha256 c typed now = Inr r \<longleftrightarrow>
      map to_ascii_uppercase typed = fingerprint sha256 c \<and>
      r = \<lparr>tp_peer_id = peer, tp_identity_key = key, tp_certificate_der = cert,
           tp_certificate_pin = sha256 cert, tp_confirmed_at_unix_ms = now\<rparr>"
    by (simp add: candidate_confirm_Inr c)
  ultimately show ?thesis
    using ok by (auto simp: candidate_confirm_Inr [of _ c'] validate_peer_def)
qed

definition toy_hash :: "bytes \<Rightarrow> bytes" where
  "toy_hash bs = replicate 32 (if bs = [1, 2] then 1 else 2)"

definition toy_candidate :: "rust_str \<Rightarrow> pairing_candidate" where
  "toy_candidate peer = \<lparr>pc_peer_id = peer, pc_identity_key = replicate 32 7, pc_certificate_der = [1, 2],
     pc_certificate_pin = toy_hash [1, 2]\<rparr>"

lemma toy_new: "candidate_new toy_hash [112] (replicate 32 7) [1, 2] = Inr (toy_candidate [112])"
  using toy_valid(1) by (simp add: candidate_new_Inr toy_candidate_def MAX_CERTIFICATE_BYTES_def list_all_iff)

lemma toy_inj:
  "inj_on toy_hash {[1, 2], [1, 2], pairing_preimage toy_hash (replicate 32 7) [1, 2],
     pairing_preimage toy_hash (replicate 32 7) [1, 2]}"
  by (simp add: toy_hash_def pairing_preimage_def ascii_def)

theorem pairing_binds_identity_witness:
  "\<exists>r. candidate_confirm toy_hash (toy_candidate [112]) (fingerprint toy_hash (toy_candidate [112])) 5 = Inr r \<and>
     tp_identity_key r = replicate 32 7 \<and> validate_peer toy_hash r = Inr ()"
proof -
  let ?c = "toy_candidate [112]"
  have "length (replicate 32 (7 :: u8)) = 32" "\<forall>bs. length (toy_hash bs) = 32" by (simp_all add: toy_hash_def)
  note use = pairing_binds_identity [OF toy_new toy_new this(1) this(1) this(2) toy_inj]
  have "map to_ascii_uppercase (fingerprint toy_hash ?c) = fingerprint toy_hash ?c"
    by (simp add: fingerprint_def upper_fingerprint)
  with use [where typed = "fingerprint toy_hash ?c" and now = 5] show ?thesis by auto
qed

section \<open>Forgetting a peer under all its names\<close>

definition same_identity :: "trusted_peer \<Rightarrow> trusted_peer \<Rightarrow> bool" where
  "same_identity r target \<longleftrightarrow>
     tp_identity_key r = tp_identity_key target \<and> tp_certificate_pin r = tp_certificate_pin target"

lemma load_entries_set:
  "load_entries K io files records entries = Inr records' \<Longrightarrow>
   set records' = set records \<union>
     {r. \<exists>path encoded. Some path \<in> set entries \<and> snd path = ascii ''json'' \<and>
        files path = Some encoded \<and> decode_record K encoded = Inr r}"
proof (induction K io files records entries rule: load_entries.induct)
  case (3 K io files records path paths)
  show ?case
  proof (cases "snd path = ascii ''json''")
    case False
    with 3 show ?thesis by auto
  next
    case True
    with 3(3) obtain encoded r where
      f: "\<not> length records \<ge> 4096" "\<not> io_read io" "files path = Some encoded" "decode_record K encoded = Inr r"
      and rest: "load_entries K io files (records @ [r]) paths = Inr records'"
      by (auto split: if_splits option.splits sum.splits)
    from 3(2) [OF _ f rest] True f(3,4) show ?thesis by (cases path) auto
  qed
qed simp_all

lemma remove_each_effect:
  assumes "\<not> io_remove io"
  shows "files_ok K ids recs files \<Longrightarrow> \<forall>i \<in> set is. i \<in> ids \<and> validate_peer_id i = Inr () \<Longrightarrow>
   remove_each K io files removed is = (files', res) \<Longrightarrow>
   files_ok K ids recs files' \<and>
   (\<forall>j \<in> ids. file_lookup K files' j = (if j \<in> set is then None else file_lookup K files j)) \<and>
   (\<exists>removed'. res = Inr removed' \<and>
      set removed' = set removed \<union> {i \<in> set is. file_lookup K files i \<noteq> None})"
proof (induction "is" arbitrary: files removed)
  case (Cons i "is")
  obtain files1 r where st: "file_remove K io files i = (files1, r)" by fastforce
  have i: "i \<in> ids" "validate_peer_id i = Inr ()" using Cons.prems(2) by simp_all
  from st i(2) assms obtain b where b: "r = Inr b" by (auto simp: file_remove_def record_path_def)
  from file_remove_effect [OF Cons.prems(1) i(1) st] b
  have eff: "b \<longleftrightarrow> file_lookup K files i \<noteq> None" "files_ok K ids recs files1"
    "\<forall>j \<in> ids. file_lookup K files1 j = (if j = i then None else file_lookup K files j)" by auto
  have run: "remove_each K io files1 (if b then removed @ [i] else removed) is = (files', res)"
    using Cons.prems(3) st b by simp
  have within: "\<forall>i \<in> set is. i \<in> ids \<and> validate_peer_id i = Inr ()" using Cons.prems(2) by simp
  have left: "{j \<in> set is. file_lookup K files1 j \<noteq> None} = {j \<in> set is. j \<noteq> i \<and> file_lookup K files j \<noteq> None}"
  proof (intro Collect_cong conj_cong refl)
    fix j assume "j \<in> set is"
    then show "file_lookup K files1 j \<noteq> None \<longleftrightarrow> j \<noteq> i \<and> file_lookup K files j \<noteq> None"
      using eff(3) within by simp
  qed
  note IH = Cons.IH [OF eff(2) within run, unfolded left]
  from IH obtain removed' where
    ih: "files_ok K ids recs files'" "res = Inr removed'"
      "\<forall>j \<in> ids. file_lookup K files' j = (if j \<in> set is then None else file_lookup K files1 j)"
      "set removed' = set (if b then removed @ [i] else removed) \<union>
         {j \<in> set is. j \<noteq> i \<and> file_lookup K files j \<noteq> None}"
    by (elim conjE exE) simp
  have "set removed' = set removed \<union> {j \<in> set (i # is). file_lookup K files j \<noteq> None}"
    unfolding ih(4) using eff(1) by (cases b) auto
  moreover have "\<forall>j \<in> ids. file_lookup K files' j = (if j \<in> set (i # is) then None else file_lookup K files j)"
    using ih(3) eff(3) by simp
  ultimately show ?case using ih(1,2) by blast
qed auto

lemma load_all_set:
  assumes "files_ok K ids recs files" and "set entries = Some ` dom files"
    and "\<forall>p \<in> dom files. snd p = ascii ''json'' \<longrightarrow> p \<in> file_of K ` {i \<in> ids. validate_peer_id i = Inr ()}"
    and "load_all K io files entries = Inr records"
  shows "r \<in> set records \<longleftrightarrow> tp_peer_id r \<in> ids \<and> file_lookup K files (tp_peer_id r) = Some r"
proof -
  from assms(4) obtain rs where rs: "load_entries K io files [] entries = Inr rs" "set rs = set records"
    by (auto simp: load_all_def split: if_splits sum.splits)
  have laws: "codec_laws K ids recs" using assms(1) by (simp add: files_ok_def)
  have listed: "r \<in> set records \<longleftrightarrow> (\<exists>path encoded. snd path = ascii ''json'' \<and>
      files path = Some encoded \<and> decode_record K encoded = Inr r)"
    using load_entries_set [OF rs(1)] rs(2) assms(2) by (auto simp: image_iff)
  show ?thesis
  proof
    assume "r \<in> set records"
    then obtain path encoded where p: "snd path = ascii ''json''" "files path = Some encoded"
      "decode_record K encoded = Inr r" using listed by blast
    then obtain i where i: "i \<in> ids" "validate_peer_id i = Inr ()" "path = file_of K i" using assms(3) by blast
    with p assms(1) have "tp_peer_id r = i" by (auto simp: files_ok_def)
    with i p show "tp_peer_id r \<in> ids \<and> file_lookup K files (tp_peer_id r) = Some r"
      by (simp add: file_lookup_def)
  next
    assume "tp_peer_id r \<in> ids \<and> file_lookup K files (tp_peer_id r) = Some r"
    then have "\<exists>encoded. files (file_of K (tp_peer_id r)) = Some encoded \<and> decode_record K encoded = Inr r"
      by (auto simp: file_lookup_def split: if_splits option.splits sum.splits)
    then show "r \<in> set records" using listed by (force simp: file_of_def)
  qed
qed

text \<open>
  Forgetting a peer without failures of the file system removes the record of every identifier
  with the same key and certificate, reports exactly those, and no other record.
\<close>

lemma aliases_forgotten:
  assumes "files_ok K ids recs files" and "peer \<in> ids" and "\<not> io_read io" and "\<not> io_remove io"
    and "set entries = Some ` dom files"
    and "\<forall>p \<in> dom files. snd p = ascii ''json'' \<longrightarrow> p \<in> file_of K ` {i \<in> ids. validate_peer_id i = Inr ()}"
    and "file_lookup K files peer = Some target"
    and "remove_peer_and_aliases K io files entries peer = (files', Inr removed)"
  shows "(\<forall>i \<in> ids. file_lookup K files' i =
       (case file_lookup K files i of
          None \<Rightarrow> None | Some r \<Rightarrow> if same_identity r target then None else Some r)) \<and>
    set removed = {i \<in> ids. \<exists>r. file_lookup K files i = Some r \<and> same_identity r target}"
proof -
  have valid: "validate_peer_id i = Inr ()" if "file_lookup K files i = Some r" for i r
    using that by (auto simp: file_lookup_def split: if_splits)
  have owner: "tp_peer_id r = i" if "i \<in> ids" "file_lookup K files i = Some r" for i r
    using that assms(1)
    by (auto simp: file_lookup_def files_ok_def split: if_splits option.splits sum.splits)
  have "file_load K io files peer = Inr (Some target)"
    using file_load_lookup [OF assms(1,2,3)] valid [OF assms(7)] assms(7) by simp
  with assms(8) obtain records where records: "load_all K io files entries = Inr records"
    and run: "remove_each K io files [] (filter (\<lambda>i. i \<noteq> peer)
        (map tp_peer_id (filter (\<lambda>r. same_identity r target) records)) @ [peer]) = (files', Inr removed)"
    by (auto simp: remove_peer_and_aliases_def same_identity_def Let_def split: sum.splits)
  note listed = load_all_set [OF assms(1,5,6) records]
  define S where "S = set (filter (\<lambda>i. i \<noteq> peer)
    (map tp_peer_id (filter (\<lambda>r. same_identity r target) records)) @ [peer])"
  have S: "i \<in> S \<longleftrightarrow> (\<exists>r. file_lookup K files i = Some r \<and> same_identity r target)" if "i \<in> ids" for i
    using that listed owner assms(2,7) by (auto simp: same_identity_def S_def)
  have within: "\<forall>i \<in> S. i \<in> ids \<and> validate_peer_id i = Inr ()"
    using listed assms(2,7) valid by (auto simp: S_def)
  from remove_each_effect [OF assms(4,1) within [unfolded S_def] run, folded S_def]
  have gone: "\<forall>j \<in> ids. file_lookup K files' j = (if j \<in> S then None else file_lookup K files j)"
    and told: "set removed = {i \<in> S. file_lookup K files i \<noteq> None}" by auto
  from gone S have "\<forall>i \<in> ids. file_lookup K files' i =
       (case file_lookup K files i of
          None \<Rightarrow> None | Some r \<Rightarrow> if same_identity r target then None else Some r)"
    by (simp split: option.splits)
  moreover have "set removed = {i \<in> ids. \<exists>r. file_lookup K files i = Some r \<and> same_identity r target}"
    using told within S by blast
  ultimately show ?thesis by blast
qed

end
