(* ===== verification/Addr_Mangle.thy ===== *)
theory Addr_Mangle
  imports Wire_Format
begin

text \<open>
  Mangled socket addresses (\<open>try_into_v4\<close> and \<open>AddrMangle\<close> of \<open>src/lib.rs\<close>): an IPv4 address and
  port are added to a time stamp so that middle boxes do not find them in a packet. The clock is
  the parameter \<open>now_micros\<close>. \<open>overflow_checks\<close> says whether the build panics on a subtraction
  that underflows, which \<open>decode\<close> can meet on bytes that were not produced by \<open>encode\<close>; without
  the check it wraps.
\<close>

type_synonym u128 = "128 word"

section \<open>Addresses\<close>

datatype socket_addr =
    SocketAddrV4 bytes u16
  | SocketAddrV6 bytes u16 u32 u32

fun sa_octets :: "socket_addr \<Rightarrow> bytes" where
  "sa_octets (SocketAddrV4 ip port) = ip"
| "sa_octets (SocketAddrV6 ip port flowinfo scope_id) = ip"

fun sa_port :: "socket_addr \<Rightarrow> u16" where
  "sa_port (SocketAddrV4 ip port) = port"
| "sa_port (SocketAddrV6 ip port flowinfo scope_id) = port"

text \<open>The octets of an address are an array of four or of sixteen bytes.\<close>

fun sa_ok :: "socket_addr \<Rightarrow> bool" where
  "sa_ok (SocketAddrV4 ip port) \<longleftrightarrow> length ip = 4"
| "sa_ok (SocketAddrV6 ip port flowinfo scope_id) \<longleftrightarrow> length ip = 16"

text \<open>\<open>Ipv6Addr::is_loopback\<close> and \<open>Ipv6Addr::to_ipv4\<close>.\<close>

definition v6_is_loopback :: "bytes \<Rightarrow> bool" where
  "v6_is_loopback ip \<longleftrightarrow> ip = replicate 15 0 @ [1]"

definition v6_to_ipv4 :: "bytes \<Rightarrow> bytes option" where
  "v6_to_ipv4 ip =
     (if take 10 ip = replicate 10 0 \<and>
         (byte_slice ip 10 12 = [0, 0] \<or> byte_slice ip 10 12 = [0xFF, 0xFF])
      then Some (drop 12 ip) else None)"

fun try_into_v4 :: "socket_addr \<Rightarrow> socket_addr" where
  "try_into_v4 (SocketAddrV6 ip port flowinfo scope_id) =
     (if v6_is_loopback ip then SocketAddrV6 ip port flowinfo scope_id
      else case v6_to_ipv4 ip of
        Some v4 \<Rightarrow> SocketAddrV4 v4 port
      | None \<Rightarrow> SocketAddrV6 ip port flowinfo scope_id)"
| "try_into_v4 (SocketAddrV4 ip port) = SocketAddrV4 ip port"

section \<open>Mangling\<close>

text \<open>\<open>to_le_bytes\<close> and \<open>from_le_bytes\<close>.\<close>

definition le_nat :: "bytes \<Rightarrow> nat" where
  "le_nat bs = be_nat (rev bs)"

definition nat_le :: "nat \<Rightarrow> nat \<Rightarrow> bytes" where
  "nat_le n x = rev (nat_be n x)"

text \<open>The loop that counts the zero bytes at the end.\<close>

fun leading_zeros :: "bytes \<Rightarrow> usize" where
  "leading_zeros [] = 0"
| "leading_zeros (b # bs) = (if b = 0 then 1 + leading_zeros bs else 0)"

definition mangle_number :: "u32 \<Rightarrow> bytes \<Rightarrow> u16 \<Rightarrow> u128" where
  "mangle_number now_micros octets port16 =
     (let tm = ucast now_micros :: u128;
          ip = ucast (of_nat (le_nat octets) :: u32) :: u128;
          port = ucast port16 :: u128 in
      push_bit 49 (ip + tm) OR push_bit 17 tm OR (port + (tm AND 0xFFFF)))"

definition addr_encode :: "u32 \<Rightarrow> socket_addr \<Rightarrow> bytes" where
  "addr_encode now_micros addr =
     (case try_into_v4 addr of
        SocketAddrV4 octets port \<Rightarrow>
          (let bytes = nat_le 16 (unat (mangle_number now_micros octets port));
               n_padding = leading_zeros (rev bytes) in
           take (16 - n_padding) bytes)
      | SocketAddrV6 octets port _ _ \<Rightarrow> octets @ nat_le 2 (unat port))"

definition u128_sub :: "bool \<Rightarrow> u128 \<Rightarrow> u128 \<Rightarrow> u128 option" where
  "u128_sub overflow_checks a b = (if overflow_checks \<and> a < b then None else Some (a - b))"

definition any_listen_addr_v6 :: socket_addr where
  "any_listen_addr_v6 = SocketAddrV6 (replicate 16 0) 0 0 0"

definition addr_decode :: "bool \<Rightarrow> bytes \<Rightarrow> socket_addr option" where
  "addr_decode overflow_checks bytes =
     (if length bytes > 16 then
        if length bytes \<noteq> 18 then Some any_listen_addr_v6
        else Some (SocketAddrV6 (take 16 bytes) (of_nat (le_nat (drop 16 bytes))) 0 0)
      else
        (let padded = bytes @ replicate (16 - length bytes) 0;
             number = of_nat (le_nat padded) :: u128;
             tm = drop_bit 17 number AND 0xFFFFFFFF in
         case u128_sub overflow_checks (drop_bit 49 number) tm of
           None \<Rightarrow> None
         | Some ip128 \<Rightarrow>
           (let ip = nat_le 4 (unat (ucast ip128 :: u32)) in
            case u128_sub overflow_checks (number AND 0xFFFFFF) (tm AND 0xFFFF) of
              None \<Rightarrow> None
            | Some port \<Rightarrow> Some (SocketAddrV4 ip (ucast port)))))"

section \<open>Round trip\<close>

lemma le_nat_nat_le: "le_nat (nat_le n x) = x mod 256 ^ n"
  by (simp add: le_nat_def nat_le_def be_nat_nat_be)

lemma nat_le_le_nat: "nat_le (length bs) (le_nat bs) = bs"
  using nat_be_be_nat [of "rev bs"] by (simp add: le_nat_def nat_le_def)

lemma le_nat_bound: "le_nat bs < 256 ^ length bs"
  using be_nat_bound [of "rev bs"] by (simp add: le_nat_def)

lemma length_nat_le [simp]: "length (nat_le n x) = n"
  by (simp add: nat_le_def)

lemma leading_zeros_split: "bs = replicate (leading_zeros bs) 0 @ drop (leading_zeros bs) bs"
  by (induction bs) auto

lemma leading_zeros_le: "leading_zeros bs \<le> length bs"
  by (induction bs) auto

lemma pad_trimmed:
  "take (length bs - leading_zeros (rev bs)) bs @ replicate (leading_zeros (rev bs)) 0 = bs"
proof -
  let ?n = "leading_zeros (rev bs)"
  have "rev (rev bs) = rev (drop ?n (rev bs)) @ rev (replicate ?n 0)"
    by (subst leading_zeros_split [of "rev bs"]) (simp only: rev_append)
  then show ?thesis by (simp add: rev_drop)
qed

text \<open>The three fields of the number do not overlap, and the borrow-free subtractions undo them.\<close>

lemma push_bit_or_low:
  fixes m c k :: nat
  assumes "c < 2 ^ k"
  shows "push_bit k m OR c = m * 2 ^ k + c"
proof -
  have c: "c = take_bit k c" using assms by (simp add: take_bit_nat_eq_self)
  have "push_bit k m AND take_bit k c = 0" by (rule bit_eqI) (auto simp: bit_simps)
  then have "push_bit k m + take_bit k c = push_bit k m OR take_bit k c" by (rule disjunctive_add_eq_or)
  then show ?thesis using c by (simp add: push_bit_eq_mult)
qed

lemma mangle_number_unat:
  assumes "length octets = 4"
  shows "unat (mangle_number t octets port) =
    (le_nat octets + unat t) * 2 ^ 49 + unat t * 2 ^ 17 + (unat port + unat t mod 2 ^ 16)"
proof -
  let ?tm = "ucast t :: u128" and ?ip = "ucast (of_nat (le_nat octets) :: u32) :: u128"
    and ?port = "ucast port :: u128"
  have l: "le_nat octets < 2 ^ 32" using le_nat_bound [of octets] assms by simp
  have t: "unat t < 2 ^ 32" and p: "unat port < 2 ^ 16"
    using unat_word_bound [of t] unat_word_bound [of port] by simp_all
  have tm: "unat ?tm = unat t" using t by (simp add: unsigned_ucast_eq take_bit_nat_eq_self)
  have ip: "unat ?ip = le_nat octets"
    using l by (simp add: unsigned_ucast_eq take_bit_nat_eq_self unat_of_nat)
  have hi: "unat (push_bit 49 (?ip + ?tm)) = push_bit 49 (le_nat octets + unat t)"
  proof -
    have "unat (?ip + ?tm) = le_nat octets + unat t"
      using unat_add_exact [of ?ip ?tm] ip tm l t by simp
    then show ?thesis
      using l t by (simp only: unsigned_push_bit_eq) (simp add: take_bit_nat_eq_self push_bit_eq_mult)
  qed
  have mid: "unat (push_bit 17 ?tm) = push_bit 17 (unat t)"
    using t by (simp only: unsigned_push_bit_eq tm) (simp add: take_bit_nat_eq_self push_bit_eq_mult)
  have low: "unat (?port + (?tm AND 0xFFFF)) = unat port + unat t mod 2 ^ 16"
  proof -
    have "?tm AND 0xFFFF = take_bit 16 ?tm" by (simp add: take_bit_eq_mask mask_eq_exp_minus_1)
    then have "unat (?tm AND 0xFFFF) = unat t mod 2 ^ 16"
      by (simp only: unsigned_take_bit_eq tm) (simp add: take_bit_eq_mod)
    moreover have "unat ?port = unat port"
      using p by (simp add: unsigned_ucast_eq take_bit_nat_eq_self)
    moreover have "unat t mod 2 ^ 16 < 2 ^ 16" by simp
    ultimately show ?thesis using unat_add_exact [of ?port "?tm AND 0xFFFF"] p by simp
  qed
  let ?c = "unat port + unat t mod 2 ^ 16"
  have "unat t mod 2 ^ 16 < 2 ^ 16" by simp
  with p have c: "?c < 2 ^ 17" by simp
  then have lower: "push_bit 17 (unat t) OR ?c = unat t * 2 ^ 17 + ?c" by (rule push_bit_or_low)
  have "unat t * 2 ^ 17 + ?c < 2 ^ 49" using t c by simp
  from push_bit_or_low [OF this, of "le_nat octets + unat t"] lower hi mid low show ?thesis
    by (simp only: mangle_number_def Let_def unsigned_or_eq or.assoc add.assoc)
qed

lemma unat_and_mask: "unat (x AND mask n :: 'a::len word) = unat x mod 2 ^ n"
  by (simp only: take_bit_eq_mask [symmetric] unsigned_take_bit_eq) (simp add: take_bit_eq_mod)

lemma unat_drop: "unat (drop_bit n x :: 'a::len word) = unat x div 2 ^ n"
  by (simp only: unat_drop_bit_eq) (simp add: drop_bit_eq_div)

lemma field_arith:
  fixes a t c :: nat
  assumes "t < 2 ^ 32" and "c < 2 ^ 17" and "n = a * 2 ^ 49 + t * 2 ^ 17 + c"
  shows "n div 2 ^ 49 = a" and "n div 2 ^ 17 mod 2 ^ 32 = t"
    and "n mod 2 ^ 24 = t mod 2 ^ 7 * 2 ^ 17 + c"
proof -
  have "t * 2 ^ 17 + c < 2 ^ 49" using assms(1,2) by simp
  moreover have "n = a * 2 ^ 49 + (t * 2 ^ 17 + c)" using assms(3) by simp
  ultimately show "n div 2 ^ 49 = a" by simp
  have m: "n = (a * 2 ^ 32 + t) * 2 ^ 17 + c" using assms(3) by (simp add: algebra_simps)
  have d: "n div 2 ^ 17 = a * 2 ^ 32 + t" unfolding m using assms(2) by simp
  have r: "n mod 2 ^ 17 = c" unfolding m using assms(2) by (simp only: mod_mult_self3 mod_less)
  show "n div 2 ^ 17 mod 2 ^ 32 = t" using d assms(1) by simp
  have "n mod (2 ^ 17 * 2 ^ 7) = 2 ^ 17 * (n div 2 ^ 17 mod 2 ^ 7) + n mod 2 ^ 17" by (rule mod_mult2_eq)
  moreover have "(a * 2 ^ 32 + t) mod 2 ^ 7 = t mod 2 ^ 7"
  proof -
    have "a * 2 ^ 32 = a * 2 ^ 25 * 2 ^ 7" by simp
    then show ?thesis by (simp only: mod_mult_self3)
  qed
  ultimately show "n mod 2 ^ 24 = t mod 2 ^ 7 * 2 ^ 17 + c" using d r by simp
qed

lemma decode_mangled:
  fixes t :: u32 and port :: u16
  assumes "length octets = 4"
  defines "v \<equiv> mangle_number t octets port"
  defines "tm \<equiv> drop_bit 17 v AND 0xFFFFFFFF"
  shows "u128_sub oc (drop_bit 49 v) tm = Some (drop_bit 49 v - tm)"
    and "unat (ucast (drop_bit 49 v - tm) :: u32) = le_nat octets"
    and "u128_sub oc (v AND 0xFFFFFF) (tm AND 0xFFFF) = Some ((v AND 0xFFFFFF) - (tm AND 0xFFFF))"
    and "(ucast ((v AND 0xFFFFFF) - (tm AND 0xFFFF)) :: u16) = port"
proof -
  let ?c = "unat port + unat t mod 2 ^ 16"
  have t: "unat t < 2 ^ 32" and p: "unat port < 2 ^ 16"
    using unat_word_bound [of t] unat_word_bound [of port] by simp_all
  have l: "le_nat octets < 2 ^ 32" using le_nat_bound [of octets] assms(1) by simp
  have "unat t mod 2 ^ 16 < 2 ^ 16" by simp
  with p have c: "?c < 2 ^ 17" by simp
  note f = field_arith [OF t c mangle_number_unat [OF assms(1), of t port, folded v_def]]
  have m32: "(0xFFFFFFFF :: u128) = mask 32" and m24: "(0xFFFFFF :: u128) = mask 24"
    and m16: "(0xFFFF :: u128) = mask 16" by (simp_all add: mask_eq_exp_minus_1)
  have hi: "unat (drop_bit 49 v) = le_nat octets + unat t" by (simp only: unat_drop f(1))
  have tm: "unat tm = unat t" by (simp only: tm_def m32 unat_and_mask unat_drop f(2))
  have lo: "unat (v AND 0xFFFFFF) = unat t mod 2 ^ 7 * 2 ^ 17 + ?c" by (simp only: m24 unat_and_mask f(3))
  have tm16: "unat (tm AND 0xFFFF) = unat t mod 2 ^ 16" by (simp only: m16 unat_and_mask tm)
  have le1: "tm \<le> drop_bit 49 v" using hi tm by (simp add: word_le_nat_alt)
  then show "u128_sub oc (drop_bit 49 v) tm = Some (drop_bit 49 v - tm)" by (simp add: u128_sub_def not_less)
  have "unat (drop_bit 49 v - tm) = le_nat octets" using unat_sub [OF le1] hi tm by simp
  then show "unat (ucast (drop_bit 49 v - tm) :: u32) = le_nat octets"
    using l by (simp add: unsigned_ucast_eq take_bit_nat_eq_self)
  have le2: "tm AND 0xFFFF \<le> v AND 0xFFFFFF" using lo tm16 by (simp add: word_le_nat_alt)
  then show "u128_sub oc (v AND 0xFFFFFF) (tm AND 0xFFFF) = Some ((v AND 0xFFFFFF) - (tm AND 0xFFFF))"
    by (simp add: u128_sub_def not_less)
  have "unat ((v AND 0xFFFFFF) - (tm AND 0xFFFF)) = unat t mod 2 ^ 7 * 2 ^ 17 + unat port"
    using unat_sub [OF le2] lo tm16 by simp
  then have "unat (ucast ((v AND 0xFFFFFF) - (tm AND 0xFFFF)) :: u16) =
      (unat t mod 2 ^ 7 * 2 ^ 17 + unat port) mod 2 ^ 16"
    by (simp add: unsigned_ucast_eq take_bit_eq_mod)
  also have "unat t mod 2 ^ 7 * 2 ^ 17 = unat t mod 2 ^ 7 * 2 * 2 ^ 16" by simp
  also have "(unat t mod 2 ^ 7 * 2 * 2 ^ 16 + unat port) mod 2 ^ 16 = unat port"
    using p by (simp only: mod_mult_self3 mod_less)
  finally show "(ucast ((v AND 0xFFFFFF) - (tm AND 0xFFFF)) :: u16) = port"
    by (simp add: word_unat_eq_iff)
qed

text \<open>What the receiver of a mangled address sees: an IPv6 address loses its flow and scope.\<close>

fun plain_addr :: "socket_addr \<Rightarrow> socket_addr" where
  "plain_addr (SocketAddrV4 ip port) = SocketAddrV4 ip port"
| "plain_addr (SocketAddrV6 ip port flowinfo scope_id) = SocketAddrV6 ip port 0 0"

lemma try_into_v4_ok: "sa_ok addr \<Longrightarrow> sa_ok (try_into_v4 addr)"
  by (cases addr) (auto simp: v6_to_ipv4_def split: option.splits if_splits)

lemma mangled_v4:
  fixes t :: u32 and port :: u16
  assumes "length octets = 4"
  defines "bs \<equiv> nat_le 16 (unat (mangle_number t octets port))"
  shows "addr_decode oc (take (16 - leading_zeros (rev bs)) bs) = Some (SocketAddrV4 octets port)"
proof -
  have len: "length bs = 16" by (simp add: bs_def)
  have z: "leading_zeros (rev bs) \<le> 16" using leading_zeros_le [of "rev bs"] len by simp
  define x where "x = take (16 - leading_zeros (rev bs)) bs"
  have x: "length x \<le> 16" by (simp add: x_def)
  have pad: "x @ replicate (16 - length x) 0 = bs" using pad_trimmed [of bs] len z by (simp add: x_def)
  have "le_nat bs = unat (mangle_number t octets port)"
    using unat_word_bound [of "mangle_number t octets port"] by (simp add: bs_def le_nat_nat_le)
  then have num: "of_nat (le_nat bs) = mangle_number t octets port" by simp
  have "nat_le 4 (le_nat octets) = octets" using nat_le_le_nat [of octets] assms(1) by simp
  with decode_mangled [OF assms(1), where t = t and port = port] have "addr_decode oc x = Some (SocketAddrV4 octets port)"
    using x by (simp add: addr_decode_def pad num Let_def)
  then show ?thesis by (simp add: x_def)
qed

text \<open>
  Property C40: a mangled address is read back. Whatever the clock shows, the receiver gets the
  address the sender mangled, with an IPv4-mapped or IPv4-compatible address in its IPv4 form,
  and no subtraction of the decoder underflows. Only the flow label and scope of an IPv6 address
  are lost.
\<close>

theorem addr_mangle_roundtrip:
  assumes "sa_ok addr"
  shows "addr_decode oc (addr_encode t addr) = Some (plain_addr (try_into_v4 addr))"
proof (cases "try_into_v4 addr")
  case (SocketAddrV4 octets port)
  with try_into_v4_ok [OF assms] mangled_v4 [where octets = octets and oc = oc and t = t and port = port] show ?thesis
    by (simp add: addr_encode_def Let_def)
next
  case (SocketAddrV6 octets port flowinfo scope_id)
  then have "length octets = 16" using try_into_v4_ok [OF assms] by simp
  moreover have "(of_nat (le_nat (nat_le 2 (unat port))) :: u16) = port"
    using unat_word_bound [of port] by (simp add: le_nat_nat_le)
  ultimately show ?thesis using SocketAddrV6 by (simp add: addr_encode_def addr_decode_def)
qed

definition sample_addr :: socket_addr where
  "sample_addr = SocketAddrV6 [0, 0, 0, 0, 0, 0, 0, 0, 0, 0, 0xFF, 0xFF, 10, 0, 0, 1] 21116 3 4"

theorem addr_mangle_roundtrip_witness:
  "sa_ok sample_addr \<and>
   addr_decode True (addr_encode 0x12345678 sample_addr) = Some (SocketAddrV4 [10, 0, 0, 1] 21116)"
proof -
  have "sa_ok sample_addr" by (simp add: sample_addr_def)
  moreover have "plain_addr (try_into_v4 sample_addr) = SocketAddrV4 [10, 0, 0, 1] 21116" by code_simp
  ultimately show ?thesis using addr_mangle_roundtrip [where addr = sample_addr and oc = True and t = "0x12345678"] by simp
qed

text \<open>Bytes no encoder made: a build with overflow checks panics on them.\<close>

lemma addr_decode_panics: "addr_decode True [0, 0, 2, 0, 0, 0, 0, 0, 0, 0, 0, 0, 0, 0, 0, 0] = None"
  by (simp add: addr_decode_def le_nat_def be_nat_def u128_sub_def Let_def)

lemma addr_decode_total: "addr_decode False bs \<noteq> None"
  by (auto simp: addr_decode_def u128_sub_def Let_def)

end
