(* ===== verification/Secret_Storage.thy ===== *)
theory Secret_Storage
  imports Utf8
begin

text \<open>
  Secrets in configuration files (\<open>src/password_security.rs\<close>): values are encrypted with a key
  derived from the machine, marked by a version prefix, and read back with a fallback for values
  that are not encrypted, for the older format without a stored nonce, and for values that were
  encrypted with the device's public key because the machine identifier was not available.

  Parameters: secretbox and base64 of libsodium (\<open>vault_codec\<close>), the machine identifier and the
  existing public key (\<open>vault\<close>), and the random nonce of an encryption.
\<close>

section \<open>Bytes and strings\<close>

definition literal :: "string \<Rightarrow> bytes" where
  "literal s = map of_char s"

section \<open>Encryption\<close>

definition VERSION_LEN :: usize where "VERSION_LEN = 2"
definition FORMAT_V1 :: u8 where "FORMAT_V1 = 1"
definition SB_KEYBYTES :: usize where "SB_KEYBYTES = 32"
definition SB_NONCEBYTES :: usize where "SB_NONCEBYTES = 24"
definition SB_MACBYTES :: usize where "SB_MACBYTES = 16"

record vault_codec =
  vc_seal :: "bytes \<Rightarrow> bytes \<Rightarrow> bytes \<Rightarrow> bytes"
  vc_open :: "bytes \<Rightarrow> bytes \<Rightarrow> bytes \<Rightarrow> bytes option"
  vc_base64_encode :: "bytes \<Rightarrow> bytes"
  vc_base64_decode :: "bytes \<Rightarrow> bytes option"

record vault =
  va_uuid :: bytes
  va_existing_pk :: "bytes option"

definition is_encrypted :: "vault_codec \<Rightarrow> bytes \<Rightarrow> bool" where
  "is_encrypted C v =
     (if length v \<le> VERSION_LEN \<or> take 2 v \<noteq> literal ''00'' then False
      else case vc_base64_decode C (drop VERSION_LEN v) of
        Some decoded \<Rightarrow> length decoded \<ge> SB_MACBYTES
      | None \<Rightarrow> False)"

text \<open>\<open>keybuf.resize(KEYBYTES, 0)\<close>.\<close>

definition resize_key :: "bytes \<Rightarrow> bytes" where
  "resize_key keybuf = take SB_KEYBYTES (keybuf @ replicate (SB_KEYBYTES - length keybuf) 0)"

definition open_secretbox_payload :: "vault_codec \<Rightarrow> bytes \<Rightarrow> bytes \<Rightarrow> bytes option" where
  "open_secretbox_payload C data key =
     (let legacy = vc_open C data (replicate SB_NONCEBYTES 0) key in
      if data \<noteq> [] \<and> hd data = FORMAT_V1 \<and> length data \<ge> 1 + SB_NONCEBYTES + SB_MACBYTES
      then (case vc_open C (drop (1 + SB_NONCEBYTES) data) (byte_slice data 1 (1 + SB_NONCEBYTES)) key of
              Some decrypted \<Rightarrow> Some decrypted
            | None \<Rightarrow> legacy)
      else legacy)"

text \<open>The two directions of \<open>symmetric_crypt\<close>.\<close>

definition symmetric_encrypt :: "vault_codec \<Rightarrow> vault \<Rightarrow> bytes \<Rightarrow> bytes \<Rightarrow> bytes option" where
  "symmetric_encrypt C V nonce data =
     Some ([FORMAT_V1] @ nonce @ vc_seal C data nonce (resize_key (va_uuid V)))"

definition symmetric_decrypt :: "vault_codec \<Rightarrow> vault \<Rightarrow> bytes \<Rightarrow> bytes option" where
  "symmetric_decrypt C V data =
     (case open_secretbox_payload C data (resize_key (va_uuid V)) of
        Some v \<Rightarrow> Some v
      | None \<Rightarrow>
        (case va_existing_pk V of
           Some pk \<Rightarrow>
             if pk \<noteq> va_uuid V then open_secretbox_payload C data (resize_key pk) else None
         | None \<Rightarrow> None))"

definition secret_encrypt :: "vault_codec \<Rightarrow> vault \<Rightarrow> bytes \<Rightarrow> bytes \<Rightarrow> rust_str option" where
  "secret_encrypt C V nonce v =
     (if v \<noteq> [] then map_option (vc_base64_encode C) (symmetric_encrypt C V nonce v) else None)"

definition secret_decrypt :: "vault_codec \<Rightarrow> vault \<Rightarrow> bytes \<Rightarrow> bytes option" where
  "secret_decrypt C V v =
     (if v \<noteq> [] then Option.bind (vc_base64_decode C v) (symmetric_decrypt C V) else None)"

definition encrypt_str_or_original ::
    "vault_codec \<Rightarrow> vault \<Rightarrow> bytes \<Rightarrow> rust_str \<Rightarrow> rust_str \<Rightarrow> usize \<Rightarrow> rust_str" where
  "encrypt_str_or_original C V nonce s version max_len =
     (if is_encrypted C s then s
      else if length (str_chars s) > max_len then []
      else if version = literal ''00'' then
        (case secret_encrypt C V nonce s of Some e \<Rightarrow> version @ e | None \<Rightarrow> s)
      else s)"

definition decrypt_str_or_original ::
    "vault_codec \<Rightarrow> vault \<Rightarrow> rust_str \<Rightarrow> rust_str \<Rightarrow> rust_str \<times> bool \<times> bool" where
  "decrypt_str_or_original C V s current_version =
     (let original = (s, False, s \<noteq> [] \<and> \<not> is_encrypted C s) in
      if length s > VERSION_LEN \<and> take 2 s = literal ''00'' then
        (case secret_decrypt C V (drop VERSION_LEN s) of
           Some v \<Rightarrow> (from_utf8_lossy v, True, literal ''00'' \<noteq> current_version)
         | None \<Rightarrow> original)
      else original)"

definition encrypt_vec_or_original ::
    "vault_codec \<Rightarrow> vault \<Rightarrow> bytes \<Rightarrow> bytes \<Rightarrow> rust_str \<Rightarrow> usize \<Rightarrow> bytes" where
  "encrypt_vec_or_original C V nonce v version max_len =
     (if is_encrypted C v then v
      else if length v > max_len then []
      else if version = literal ''00'' then
        (case secret_encrypt C V nonce v of Some e \<Rightarrow> version @ e | None \<Rightarrow> v)
      else v)"

definition decrypt_vec_or_original ::
    "vault_codec \<Rightarrow> vault \<Rightarrow> bytes \<Rightarrow> rust_str \<Rightarrow> bytes \<times> bool \<times> bool" where
  "decrypt_vec_or_original C V v current_version =
     (let original = (v, False, v \<noteq> [] \<and> \<not> is_encrypted C v) in
      if length v > VERSION_LEN then
        (let version = from_utf8_lossy (take VERSION_LEN v) in
         if version = literal ''00'' then
           (case secret_decrypt C V (drop VERSION_LEN v) of
              Some plain \<Rightarrow> (plain, True, version \<noteq> current_version)
            | None \<Rightarrow> original)
         else original)
      else original)"

section \<open>Which passwords are accepted\<close>

datatype verification_kind = OnlyUseTemporaryPassword | OnlyUsePermanentPassword | UseBothPasswords
datatype approve_mode_kind = ApproveBoth | ApprovePassword | ApproveClick

definition verification_method :: "(rust_str \<Rightarrow> rust_str) \<Rightarrow> verification_kind" where
  "verification_method get_option =
     (let method = get_option (literal ''verification-method'') in
      if method = literal ''use-temporary-password'' then OnlyUseTemporaryPassword
      else if method = literal ''use-permanent-password'' then OnlyUsePermanentPassword
      else UseBothPasswords)"

definition temporary_password_length :: "(rust_str \<Rightarrow> rust_str) \<Rightarrow> usize" where
  "temporary_password_length get_option =
     (let n = get_option (literal ''temporary-password-length'') in
      if n = literal ''8'' then 8 else if n = literal ''10'' then 10 else 6)"

definition temporary_enabled :: "(rust_str \<Rightarrow> rust_str) \<Rightarrow> bool" where
  "temporary_enabled get_option \<longleftrightarrow> verification_method get_option \<noteq> OnlyUsePermanentPassword"

definition permanent_enabled :: "(rust_str \<Rightarrow> rust_str) \<Rightarrow> bool" where
  "permanent_enabled get_option \<longleftrightarrow> verification_method get_option \<noteq> OnlyUseTemporaryPassword"

definition has_valid_password :: "(rust_str \<Rightarrow> rust_str) \<Rightarrow> rust_str \<Rightarrow> bool \<Rightarrow> bool" where
  "has_valid_password get_option temporary_password has_permanent_password \<longleftrightarrow>
     temporary_enabled get_option \<and> temporary_password \<noteq> [] \<or>
     permanent_enabled get_option \<and> has_permanent_password"

definition approve_mode :: "(rust_str \<Rightarrow> rust_str) \<Rightarrow> approve_mode_kind" where
  "approve_mode get_option =
     (let mode = get_option (literal ''approve-mode'') in
      if mode = literal ''password'' then ApprovePassword
      else if mode = literal ''click'' then ApproveClick
      else ApproveBoth)"

section \<open>Reading back\<close>

lemma lossy_version: "from_utf8_lossy (literal ''00'') = literal ''00''"
  by (simp add: literal_def from_utf8_lossy.simps(2) Let_def)

text \<open>
  What is relied on of libsodium: a sealed box opens under its nonce and key to the text and is
  16 bytes longer, and base64 decodes what it encoded, which is not empty unless the input is.
\<close>

definition vault_laws :: "vault_codec \<Rightarrow> bool" where
  "vault_laws C \<longleftrightarrow>
     (\<forall>m n k. length n = SB_NONCEBYTES \<longrightarrow> vc_open C (vc_seal C m n k) n k = Some m) \<and>
     (\<forall>m n k. length (vc_seal C m n k) = length m + SB_MACBYTES) \<and>
     (\<forall>bs. vc_base64_decode C (vc_base64_encode C bs) = Some bs) \<and>
     (\<forall>bs. vc_base64_encode C bs = [] \<longleftrightarrow> bs = [])"

definition sealed :: "vault_codec \<Rightarrow> vault \<Rightarrow> bytes \<Rightarrow> bytes \<Rightarrow> bytes" where
  "sealed C V nonce v = [FORMAT_V1] @ nonce @ vc_seal C v nonce (resize_key (va_uuid V))"

text \<open>The vault that reads has the key, or has it as the device's public key.\<close>

definition can_read :: "vault_codec \<Rightarrow> vault \<Rightarrow> vault \<Rightarrow> bytes \<Rightarrow> bytes \<Rightarrow> bool" where
  "can_read C V V' nonce v \<longleftrightarrow>
     va_uuid V' = va_uuid V \<or>
     va_existing_pk V' = Some (va_uuid V) \<and>
       open_secretbox_payload C (sealed C V nonce v) (resize_key (va_uuid V')) = None"

lemma open_sealed:
  assumes "vault_laws C" and "length nonce = SB_NONCEBYTES"
  shows "open_secretbox_payload C (sealed C V nonce v) (resize_key (va_uuid V)) = Some v"
  using assms
  by (simp add: open_secretbox_payload_def sealed_def vault_laws_def Let_def byte_slice_def)

lemma decrypt_sealed:
  assumes "vault_laws C" and "length nonce = SB_NONCEBYTES" and "can_read C V V' nonce v"
  shows "secret_decrypt C V' (vc_base64_encode C (sealed C V nonce v)) = Some v"
proof -
  have "symmetric_decrypt C V' (sealed C V nonce v) = Some v"
    using assms(3) open_sealed [OF assms(1,2), of V v]
    by (auto simp: can_read_def symmetric_decrypt_def split: option.splits)
  then show ?thesis using assms(1) by (simp add: secret_decrypt_def vault_laws_def sealed_def)
qed

lemma is_encrypted_sealed:
  assumes "vault_laws C" and "length nonce = SB_NONCEBYTES"
  shows "is_encrypted C (literal ''00'' @ vc_base64_encode C (sealed C V nonce v))"
proof -
  have "vc_base64_encode C (sealed C V nonce v) \<noteq> []" using assms(1) by (simp add: vault_laws_def sealed_def)
  then show ?thesis using assms
    by (simp add: is_encrypted_def VERSION_LEN_def literal_def vault_laws_def sealed_def Suc_le_eq)
qed

lemma secret_encrypt_sealed:
  "v \<noteq> [] \<Longrightarrow> secret_encrypt C V nonce v = Some (vc_base64_encode C (sealed C V nonce v))"
  by (simp add: secret_encrypt_def symmetric_encrypt_def sealed_def)

lemma decrypt_marked:
  assumes "vault_laws C" and "length nonce = SB_NONCEBYTES" and "can_read C V V' nonce v"
  defines "e \<equiv> literal ''00'' @ vc_base64_encode C (sealed C V nonce v)"
  shows "decrypt_vec_or_original C V' e cur = (v, True, cur \<noteq> literal ''00'')"
    and "utf8_valid v \<Longrightarrow> decrypt_str_or_original C V' e cur = (v, True, cur \<noteq> literal ''00'')"
proof -
  have ne: "vc_base64_encode C (sealed C V nonce v) \<noteq> []" using assms(1) by (simp add: vault_laws_def sealed_def)
  have two: "length (literal ''00'') = 2" by (simp add: literal_def)
  have len: "length e > VERSION_LEN" using ne two by (simp add: e_def VERSION_LEN_def)
  have parts: "take VERSION_LEN e = literal ''00''" "take 2 e = literal ''00''"
    "drop VERSION_LEN e = vc_base64_encode C (sealed C V nonce v)"
    using two by (simp_all add: e_def VERSION_LEN_def)
  show "decrypt_vec_or_original C V' e cur = (v, True, cur \<noteq> literal ''00'')"
    using len decrypt_sealed [OF assms(1-3)]
    by (auto simp: decrypt_vec_or_original_def parts lossy_version Let_def)
  show "decrypt_str_or_original C V' e cur = (v, True, cur \<noteq> literal ''00'')" if "utf8_valid v"
    using len decrypt_sealed [OF assms(1-3)] lossy_of_valid [OF that]
    by (auto simp: decrypt_str_or_original_def parts Let_def)
qed

end
