(* ===== verification/Settings.thy ===== *)
theory Settings
  imports Secret_Storage
begin

text \<open>
  The secrets and options of \<open>src/config.rs\<close>: the permanent password with its salted hash and the
  migration of older storage, the options with their layers of defaults and overrides and their
  encrypted values, and the lists of trusted devices and paired viewers with their caches.

  The global locks are the fields of \<open>settings\<close>, one record of the process state; \<open>se_file\<close> and
  \<open>se_file2\<close> are what was last written to the two configuration files. Parameters: the machine's
  vault, SHA-256, the JSON of the device lists, the clock, and the random values of a call
  (\<open>entropy\<close>).
\<close>

section \<open>Data\<close>

definition PASSWORD_ENC_VERSION :: rust_str where "PASSWORD_ENC_VERSION = literal ''00''"
definition ENCRYPT_MAX_LEN :: usize where "ENCRYPT_MAX_LEN = 128"
definition PERMANENT_PASSWORD_HASH_PREFIX :: rust_str where "PERMANENT_PASSWORD_HASH_PREFIX = literal ''01''"
definition PERMANENT_PASSWORD_H1_LEN :: usize where "PERMANENT_PASSWORD_H1_LEN = 32"
definition DEFAULT_SALT_LEN :: usize where "DEFAULT_SALT_LEN = 32"

type_synonym i64 = "64 word"
type_synonym options = "rust_str \<rightharpoonup> rust_str"

record config =
  cf_id :: rust_str
  cf_enc_id :: rust_str
  cf_password :: rust_str
  cf_salt :: rust_str
  cf_key_pair :: "bytes \<times> bytes"
  cf_key_confirmed :: bool
  cf_keys_confirmed :: "rust_str \<rightharpoonup> bool"

record socks5_server =
  so_proxy :: rust_str
  so_username :: rust_str
  so_password :: rust_str

record config2 =
  c2_rendezvous_server :: rust_str
  c2_nat_type :: i32
  c2_serial :: i32
  c2_unlock_pin :: rust_str
  c2_trusted_devices :: rust_str
  c2_paired_viewers :: rust_str
  c2_socks :: "socks5_server option"
  c2_options :: options

record trusted_device =
  td_hwid :: bytes
  td_time :: i64
  td_id :: rust_str
  td_name :: rust_str
  td_platform :: rust_str

record paired_viewer =
  pw_sign_pk :: bytes
  pw_time :: i64
  pw_id :: rust_str
  pw_name :: rust_str
  pw_platform :: rust_str
  pw_scope :: rust_str

text \<open>The settings the program is built or started with, and the libraries.\<close>

record setting_layers =
  sl_overwrite :: options
  sl_defaults :: options
  sl_hard :: options
  sl_builtin :: options

record machine =
  ma_codec :: vault_codec
  ma_vault :: vault
  ma_sha256 :: "bytes \<Rightarrow> bytes"
  ma_devices_json :: "trusted_device list \<Rightarrow> rust_str"
  ma_devices_parse :: "rust_str \<Rightarrow> trusted_device list option"
  ma_viewers_json :: "paired_viewer list \<Rightarrow> rust_str"
  ma_viewers_parse :: "rust_str \<Rightarrow> paired_viewer list option"

record entropy =
  en_nonce :: bytes
  en_salt :: rust_str

record settings =
  se_config :: config
  se_config2 :: config2
  se_trusted_devices :: "trusted_device list \<times> bool"
  se_paired_viewers :: "paired_viewer list \<times> bool"
  se_file :: config
  se_file2 :: config2

abbreviation seal_str :: "machine \<Rightarrow> entropy \<Rightarrow> rust_str \<Rightarrow> usize \<Rightarrow> rust_str" where
  "seal_str M en s max_len \<equiv>
     encrypt_str_or_original (ma_codec M) (ma_vault M) (en_nonce en) s PASSWORD_ENC_VERSION max_len"

abbreviation unseal_str :: "machine \<Rightarrow> rust_str \<Rightarrow> rust_str \<times> bool \<times> bool" where
  "unseal_str M s \<equiv> decrypt_str_or_original (ma_codec M) (ma_vault M) s PASSWORD_ENC_VERSION"

section \<open>The permanent password\<close>

definition compute_permanent_password_h1 :: "machine \<Rightarrow> rust_str \<Rightarrow> rust_str \<Rightarrow> bytes" where
  "compute_permanent_password_h1 M password salt =
     take PERMANENT_PASSWORD_H1_LEN (ma_sha256 M (password @ salt))"

definition encode_permanent_password_storage_from_h1 :: "machine \<Rightarrow> bytes \<Rightarrow> rust_str" where
  "encode_permanent_password_storage_from_h1 M h1 =
     PERMANENT_PASSWORD_HASH_PREFIX @ vc_base64_encode (ma_codec M) h1"

definition decode_permanent_password_h1_from_storage :: "machine \<Rightarrow> rust_str \<Rightarrow> bytes option" where
  "decode_permanent_password_h1_from_storage M storage =
     (if take 2 storage \<noteq> PERMANENT_PASSWORD_HASH_PREFIX then None
      else case vc_base64_decode (ma_codec M) (drop 2 storage) of
        None \<Rightarrow> None
      | Some v \<Rightarrow> if length v \<noteq> PERMANENT_PASSWORD_H1_LEN then None else Some v)"

definition is_permanent_password_hashed_storage :: "machine \<Rightarrow> rust_str \<Rightarrow> bool" where
  "is_permanent_password_hashed_storage M v \<longleftrightarrow> decode_permanent_password_h1_from_storage M v \<noteq> None"

definition password_is_empty_or_not_hashed :: "machine \<Rightarrow> rust_str \<Rightarrow> bool" where
  "password_is_empty_or_not_hashed M storage \<longleftrightarrow>
     storage = [] \<or> \<not> is_permanent_password_hashed_storage M storage"

definition ensure_salt :: "entropy \<Rightarrow> config \<Rightarrow> config" where
  "ensure_salt en c = (if cf_salt c = [] then c\<lparr>cf_salt := en_salt en\<rparr> else c)"

definition migrate_permanent_password_to_hashed_storage ::
    "machine \<Rightarrow> entropy \<Rightarrow> config \<Rightarrow> config \<times> bool" where
  "migrate_permanent_password_to_hashed_storage M en c =
     (if cf_password c = [] \<or> is_permanent_password_hashed_storage M (cf_password c) then (c, False)
      else if take 2 (cf_password c) = PASSWORD_ENC_VERSION then
        (case unseal_str M (cf_password c) of
           (plain, decrypted, looks_like_plaintext) \<Rightarrow>
             if \<not> decrypted \<and> \<not> looks_like_plaintext then (c, False)
             else
               (let c1 = ensure_salt en c in
                if is_permanent_password_hashed_storage M plain then (c1\<lparr>cf_password := plain\<rparr>, True)
                else
                  (let h1 = compute_permanent_password_h1 M plain (cf_salt c1) in
                   (c1\<lparr>cf_password := encode_permanent_password_storage_from_h1 M h1\<rparr>, True))))
      else
        (let c1 = ensure_salt en c;
             h1 = compute_permanent_password_h1 M (cf_password c1) (cf_salt c1) in
         (c1\<lparr>cf_password := encode_permanent_password_storage_from_h1 M h1\<rparr>, True)))"

text \<open>What \<open>Config::store\<close> writes.\<close>

definition config_stored :: "machine \<Rightarrow> entropy \<Rightarrow> config \<Rightarrow> config" where
  "config_stored M en c =
     (let c1 = fst (migrate_permanent_password_to_hashed_storage M en c) in
      c1\<lparr>cf_enc_id := seal_str M en (cf_id c1) ENCRYPT_MAX_LEN, cf_id := []\<rparr>)"

text \<open>\<open>cache\<close> is \<open>KEY_PAIR\<close>; the second result is the new cache, the third whether it changed.\<close>

definition ensure_key_pair ::
    "(bytes \<times> bytes) option \<Rightarrow> bytes \<times> bytes \<Rightarrow> config \<Rightarrow> config \<times> (bytes \<times> bytes) option \<times> bool" where
  "ensure_key_pair cache generated c =
     (case cache of
        Some key_pair \<Rightarrow>
          if cf_key_pair c \<noteq> key_pair then (c\<lparr>cf_key_pair := key_pair\<rparr>, cache, True)
          else (c, cache, False)
      | None \<Rightarrow>
          (let fresh = (fst (cf_key_pair c) = []);
               c1 = (if fresh then c\<lparr>cf_key_pair := generated\<rparr> else c) in
           (c1, Some (cf_key_pair c1), fresh)))"

fun first_id :: "rust_str option list \<Rightarrow> rust_str option" where
  "first_id [] = None"
| "first_id (None # ids) = first_id ids"
| "first_id (Some i # ids) = Some i"

text \<open>\<open>Config::load\<close> from the file's contents \<open>raw\<close>; \<open>new_ids\<close> are the results of \<open>gen_id\<close>, of which
  three are tried. The second result says whether the configuration is stored again.\<close>

definition config_load ::
    "machine \<Rightarrow> entropy \<Rightarrow> (bytes \<times> bytes) option \<Rightarrow> bytes \<times> bytes \<Rightarrow> rust_str option list \<Rightarrow> config \<Rightarrow> config \<times> bool" where
  "config_load M en cache generated new_ids raw =
     (let (c1, _, store1) = ensure_key_pair cache generated raw;
          (c2, migrated) = migrate_permanent_password_to_hashed_storage M en c1;
          (stored_id, encrypted, store2) = unseal_str M (cf_enc_id c2);
          (c3, id_valid, store3) =
            (if encrypted then (c2\<lparr>cf_id := stored_id\<rparr>, True, store1 \<or> migrated \<or> store2)
             else if cf_id c2 \<noteq> [] \<and> cf_enc_id c2 = [] \<and> \<not> fst (snd (unseal_str M (cf_id c2)))
               then (c2, True, True)
             else (c2, False, store1 \<or> migrated)) in
      if id_valid then (c3, store3)
      else case first_id (take 3 new_ids) of
        Some i \<Rightarrow> (c3\<lparr>cf_id := i\<rparr>, True)
      | None \<Rightarrow> (c3, store3))"

text \<open>What \<open>Config2::store\<close> writes and \<open>Config2::load\<close> reads.\<close>

definition config2_stored :: "machine \<Rightarrow> entropy \<Rightarrow> config2 \<Rightarrow> config2" where
  "config2_stored M en c =
     c\<lparr>c2_socks := map_option (\<lambda>s. s\<lparr>so_password := seal_str M en (so_password s) ENCRYPT_MAX_LEN\<rparr>) (c2_socks c),
       c2_unlock_pin := seal_str M en (c2_unlock_pin c) ENCRYPT_MAX_LEN\<rparr>"

definition config2_load :: "machine \<Rightarrow> config2 \<Rightarrow> config2 \<times> bool" where
  "config2_load M raw =
     (let (socks, store1) =
            (case c2_socks raw of
               None \<Rightarrow> (None, False)
             | Some s \<Rightarrow> (case unseal_str M (so_password s) of
                 (password, _, store2) \<Rightarrow> (Some (s\<lparr>so_password := password\<rparr>), store2)));
          (unlock_pin, _, store2) = unseal_str M (c2_unlock_pin raw) in
      (raw\<lparr>c2_socks := socks, c2_unlock_pin := unlock_pin\<rparr>, store1 \<or> store2))"

definition store_config :: "machine \<Rightarrow> entropy \<Rightarrow> settings \<Rightarrow> settings" where
  "store_config M en st = st\<lparr>se_file := config_stored M en (se_config st)\<rparr>"

definition store_config2 :: "machine \<Rightarrow> entropy \<Rightarrow> settings \<Rightarrow> settings" where
  "store_config2 M en st = st\<lparr>se_file2 := config2_stored M en (se_config2 st)\<rparr>"

section \<open>Trusted devices and paired viewers\<close>

definition trusted_device_outdate :: "i64 \<Rightarrow> trusted_device \<Rightarrow> bool" where
  "trusted_device_outdate now d \<longleftrightarrow> sint (td_time d + 90 * 24 * 60 * 60 * 1000) < sint now"

definition paired_viewer_outdate :: "i64 \<Rightarrow> paired_viewer \<Rightarrow> bool" where
  "paired_viewer_outdate now d \<longleftrightarrow> sint (pw_time d + 30 * 24 * 60 * 60 * 1000) < sint now"

definition set_trusted_devices :: "machine \<Rightarrow> entropy \<Rightarrow> i64 \<Rightarrow> trusted_device list \<Rightarrow> settings \<Rightarrow> settings" where
  "set_trusted_devices M en now ds st =
     (let kept = filter (\<lambda>d. \<not> trusted_device_outdate now d) ds;
          json = ma_devices_json M kept;
          max_len = 1024 * 1024 in
      if length json > max_len then st
      else
        (let st1 = st\<lparr>se_config2 := (se_config2 st)\<lparr>c2_trusted_devices := seal_str M en json max_len\<rparr>\<rparr> in
         (store_config2 M en st1)\<lparr>se_trusted_devices := (kept, True)\<rparr>))"

definition get_trusted_devices :: "machine \<Rightarrow> entropy \<Rightarrow> i64 \<Rightarrow> settings \<Rightarrow> settings \<times> trusted_device list" where
  "get_trusted_devices M en now st =
     (case se_trusted_devices st of
        (ds, True) \<Rightarrow> (st, ds)
      | (_, False) \<Rightarrow>
        (case unseal_str M (c2_trusted_devices (se_config2 st)) of
           (json, True, store) \<Rightarrow>
             (let parsed = (case ma_devices_parse M json of None \<Rightarrow> [] | Some ds \<Rightarrow> ds);
                  kept = filter (\<lambda>d. \<not> trusted_device_outdate now d) parsed;
                  st1 = (if store \<or> length kept \<noteq> length parsed then set_trusted_devices M en now kept st else st) in
              (st1\<lparr>se_trusted_devices := (kept, True)\<rparr>, kept))
         | (_, False, _) \<Rightarrow> (st, [])))"

definition add_trusted_device :: "machine \<Rightarrow> entropy \<Rightarrow> i64 \<Rightarrow> trusted_device \<Rightarrow> settings \<Rightarrow> settings" where
  "add_trusted_device M en now device st =
     (let (st1, ds) = get_trusted_devices M en now st in
      set_trusted_devices M en now (filter (\<lambda>d. td_hwid d \<noteq> td_hwid device) ds @ [device]) st1)"

definition remove_trusted_devices :: "machine \<Rightarrow> entropy \<Rightarrow> i64 \<Rightarrow> bytes list \<Rightarrow> settings \<Rightarrow> settings" where
  "remove_trusted_devices M en now hwids st =
     (let (st1, ds) = get_trusted_devices M en now st in
      set_trusted_devices M en now (filter (\<lambda>d. td_hwid d \<notin> set hwids) ds) st1)"

definition clear_trusted_devices :: "machine \<Rightarrow> entropy \<Rightarrow> i64 \<Rightarrow> settings \<Rightarrow> settings" where
  "clear_trusted_devices M en now st = set_trusted_devices M en now [] st"

definition set_paired_viewers :: "machine \<Rightarrow> entropy \<Rightarrow> i64 \<Rightarrow> paired_viewer list \<Rightarrow> settings \<Rightarrow> settings" where
  "set_paired_viewers M en now vs st =
     (let kept = filter (\<lambda>d. \<not> paired_viewer_outdate now d) vs;
          json = ma_viewers_json M kept;
          max_len = 1024 * 1024 in
      if length json > max_len then st
      else
        (let st1 = st\<lparr>se_config2 := (se_config2 st)\<lparr>c2_paired_viewers := seal_str M en json max_len\<rparr>\<rparr> in
         (store_config2 M en st1)\<lparr>se_paired_viewers := (kept, True)\<rparr>))"

definition get_paired_viewers :: "machine \<Rightarrow> entropy \<Rightarrow> i64 \<Rightarrow> settings \<Rightarrow> settings \<times> paired_viewer list" where
  "get_paired_viewers M en now st =
     (case se_paired_viewers st of
        (vs, True) \<Rightarrow> (st, vs)
      | (_, False) \<Rightarrow>
        (case unseal_str M (c2_paired_viewers (se_config2 st)) of
           (json, True, store) \<Rightarrow>
             (let parsed = (case ma_viewers_parse M json of None \<Rightarrow> [] | Some vs \<Rightarrow> vs);
                  kept = filter (\<lambda>d. \<not> paired_viewer_outdate now d) parsed;
                  st1 = (if store \<or> length kept \<noteq> length parsed then set_paired_viewers M en now kept st else st) in
              (st1\<lparr>se_paired_viewers := (kept, True)\<rparr>, kept))
         | (_, False, _) \<Rightarrow> (st, [])))"

definition add_paired_viewer :: "machine \<Rightarrow> entropy \<Rightarrow> i64 \<Rightarrow> paired_viewer \<Rightarrow> settings \<Rightarrow> settings" where
  "add_paired_viewer M en now viewer st =
     (if pw_sign_pk viewer = [] \<or> pw_scope viewer = [] then st
      else
        (let (st1, vs) = get_paired_viewers M en now st in
         set_paired_viewers M en now
           (filter (\<lambda>d. pw_scope d \<noteq> pw_scope viewer \<or> pw_sign_pk d \<noteq> pw_sign_pk viewer) vs @ [viewer]) st1))"

definition remove_paired_viewers :: "machine \<Rightarrow> entropy \<Rightarrow> i64 \<Rightarrow> bytes list \<Rightarrow> settings \<Rightarrow> settings" where
  "remove_paired_viewers M en now sign_pks st =
     (let (st1, vs) = get_paired_viewers M en now st in
      set_paired_viewers M en now (filter (\<lambda>d. pw_sign_pk d \<notin> set sign_pks) vs) st1)"

definition has_paired_viewer ::
    "machine \<Rightarrow> entropy \<Rightarrow> i64 \<Rightarrow> rust_str \<Rightarrow> rust_str \<Rightarrow> bytes \<Rightarrow> settings \<Rightarrow> settings \<times> bool" where
  "has_paired_viewer M en now scope viewer_id sign_pk st =
     (if scope = [] \<or> sign_pk = [] then (st, False)
      else
        (let (st1, vs) = get_paired_viewers M en now st in
         (st1, list_ex (\<lambda>v. \<not> paired_viewer_outdate now v \<and> pw_scope v = scope \<and> pw_id v = viewer_id
                          \<and> pw_sign_pk v = sign_pk) vs)))"

section \<open>Setting and checking the permanent password\<close>

definition is_disable_change_permanent_password :: "setting_layers \<Rightarrow> bool" where
  "is_disable_change_permanent_password L \<longleftrightarrow>
     sl_builtin L (literal ''disable-change-permanent-password'') = Some (literal ''Y'')"

definition set_permanent_password ::
    "machine \<Rightarrow> setting_layers \<Rightarrow> entropy \<Rightarrow> i64 \<Rightarrow> rust_str \<Rightarrow> settings \<Rightarrow> settings" where
  "set_permanent_password M L en now password st =
     (if is_disable_change_permanent_password L then st
      else if sl_hard L (literal ''password'') = Some password \<and> cf_password (se_config st) = [] then st
      else
        (let c = se_config st;
             (c1, stored) =
               (if password = [] then (c, [])
                else
                  (let c' = ensure_salt en c in
                   (c', encode_permanent_password_storage_from_h1 M
                          (compute_permanent_password_h1 M password (cf_salt c'))))) in
         if stored = cf_password c1 then st\<lparr>se_config := c1\<rparr>
         else
           clear_trusted_devices M en now
             (store_config M en (st\<lparr>se_config := c1\<lparr>cf_password := stored\<rparr>\<rparr>))))"

definition set_permanent_password_storage_for_sync ::
    "machine \<Rightarrow> entropy \<Rightarrow> i64 \<Rightarrow> rust_str \<Rightarrow> rust_str \<Rightarrow> settings \<Rightarrow> settings \<times> bool" where
  "set_permanent_password_storage_for_sync M en now storage salt st =
     (if cf_password (se_config st) = storage \<and> cf_salt (se_config st) = salt then (st, False)
      else
        (clear_trusted_devices M en now
           (store_config M en (st\<lparr>se_config := (se_config st)\<lparr>cf_password := storage, cf_salt := salt\<rparr>\<rparr>)),
         True))"

definition matches_permanent_password_plain ::
    "machine \<Rightarrow> setting_layers \<Rightarrow> config \<Rightarrow> rust_str \<Rightarrow> bool" where
  "matches_permanent_password_plain M L c input =
     (if input = [] then False
      else if cf_password c = [] then sl_hard L (literal ''password'') = Some input
      else case decode_permanent_password_h1_from_storage M (cf_password c) of
        Some stored_h1 \<Rightarrow>
          if cf_salt c = [] then False
          else compute_permanent_password_h1 M input (cf_salt c) = stored_h1
      | None \<Rightarrow> cf_password c = input)"

definition has_permanent_password :: "setting_layers \<Rightarrow> config \<Rightarrow> bool" where
  "has_permanent_password L c \<longleftrightarrow>
     cf_password c \<noteq> [] \<or> (case sl_hard L (literal ''password'') of None \<Rightarrow> False | Some v \<Rightarrow> v \<noteq> [])"

definition set_salt :: "machine \<Rightarrow> entropy \<Rightarrow> rust_str \<Rightarrow> settings \<Rightarrow> settings" where
  "set_salt M en salt st =
     (if salt = cf_salt (se_config st) then st
      else if \<not> password_is_empty_or_not_hashed M (cf_password (se_config st)) \<and> cf_salt (se_config st) \<noteq> []
        then st
      else store_config M en (st\<lparr>se_config := (se_config st)\<lparr>cf_salt := salt\<rparr>\<rparr>))"

definition get_salt :: "machine \<Rightarrow> entropy \<Rightarrow> settings \<Rightarrow> settings \<times> rust_str" where
  "get_salt M en st =
     (if cf_salt (se_config st) = [] then (set_salt M en (en_salt en) st, en_salt en)
      else (st, cf_salt (se_config st)))"

section \<open>Options\<close>

definition OPTION_DIRECT_ACCESS_PAIRING_PASSPHRASE :: rust_str where
  "OPTION_DIRECT_ACCESS_PAIRING_PASSPHRASE = literal ''direct-access-pairing-passphrase''"
definition OPTION_PEER_PAIRING_PASSPHRASE :: rust_str where
  "OPTION_PEER_PAIRING_PASSPHRASE = literal ''peer-pairing-passphrase''"

definition get_or :: "options \<Rightarrow> options \<Rightarrow> options \<Rightarrow> rust_str \<Rightarrow> rust_str option" where
  "get_or a b c k =
     (case a k of Some v \<Rightarrow> Some v | None \<Rightarrow> (case b k of Some v \<Rightarrow> Some v | None \<Rightarrow> c k))"

definition is_option_can_save :: "setting_layers \<Rightarrow> rust_str \<Rightarrow> rust_str \<Rightarrow> bool" where
  "is_option_can_save L k v \<longleftrightarrow> \<not> (sl_overwrite L k \<noteq> None \<or> sl_defaults L k = Some v)"

definition is_encrypted_option :: "rust_str \<Rightarrow> bool" where
  "is_encrypted_option k \<longleftrightarrow>
     k = OPTION_DIRECT_ACCESS_PAIRING_PASSPHRASE \<or> k = OPTION_PEER_PAIRING_PASSPHRASE"

definition maybe_decrypt_option_value :: "machine \<Rightarrow> rust_str \<Rightarrow> rust_str \<Rightarrow> rust_str" where
  "maybe_decrypt_option_value M k v =
     (if \<not> is_encrypted_option k \<or> v = [] then v else fst (unseal_str M v))"

definition plaintext_option_value :: "machine \<Rightarrow> rust_str \<Rightarrow> rust_str \<Rightarrow> rust_str" where
  "plaintext_option_value M k v = maybe_decrypt_option_value M k v"

definition plaintext_option_from_map :: "machine \<Rightarrow> options \<Rightarrow> rust_str \<Rightarrow> rust_str option" where
  "plaintext_option_from_map M opts key =
     (case opts key of
        None \<Rightarrow> None
      | Some v \<Rightarrow> if v = [] then None else Some (plaintext_option_value M key v))"

text \<open>\<open>None\<close> when the value is refused.\<close>

definition maybe_encrypt_option_value :: "machine \<Rightarrow> entropy \<Rightarrow> rust_str \<Rightarrow> rust_str \<Rightarrow> rust_str option" where
  "maybe_encrypt_option_value M en k v =
     (if \<not> is_encrypted_option k \<or> v = [] then Some v
      else if length (str_chars v) > ENCRYPT_MAX_LEN then None
      else
        (let encrypted = seal_str M en v ENCRYPT_MAX_LEN in
         if encrypted = [] then None else Some encrypted))"

definition get_option :: "machine \<Rightarrow> setting_layers \<Rightarrow> settings \<Rightarrow> rust_str \<Rightarrow> rust_str" where
  "get_option M L st k =
     maybe_decrypt_option_value M k
       (case get_or (sl_overwrite L) (c2_options (se_config2 st)) (sl_defaults L) k of
          None \<Rightarrow> [] | Some v \<Rightarrow> v)"

definition get_options :: "machine \<Rightarrow> setting_layers \<Rightarrow> settings \<Rightarrow> options" where
  "get_options M L st k =
     map_option (maybe_decrypt_option_value M k)
       ((sl_defaults L ++ c2_options (se_config2 st) ++ sl_overwrite L) k)"

definition forget_viewers :: "settings \<Rightarrow> settings" where
  "forget_viewers st =
     st\<lparr>se_config2 := (se_config2 st)\<lparr>c2_paired_viewers := []\<rparr>, se_paired_viewers := ([], True)\<rparr>"

definition set_option_value ::
    "machine \<Rightarrow> setting_layers \<Rightarrow> entropy \<Rightarrow> rust_str \<Rightarrow> rust_str \<Rightarrow> settings \<Rightarrow> settings" where
  "set_option_value M L en k v st =
     (let clear = (k = OPTION_DIRECT_ACCESS_PAIRING_PASSPHRASE);
          opts = c2_options (se_config2 st);
          with_options = (\<lambda>o'. let st1 = st\<lparr>se_config2 := (se_config2 st)\<lparr>c2_options := o'\<rparr>\<rparr> in
             store_config2 M en (if clear then forget_viewers st1 else st1)) in
      if \<not> is_option_can_save L k v then
        (if opts k \<noteq> None then with_options (opts(k := None)) else st)
      else
        (let plain = plaintext_option_value M k v;
             previous_plain = plaintext_option_from_map M opts k;
             requested_plain = (if plain \<noteq> [] then Some plain else None) in
         if previous_plain = requested_plain then st
         else case maybe_encrypt_option_value M en k plain of
           None \<Rightarrow> st
         | Some stored \<Rightarrow>
           (let v2 = (if stored = [] then None else Some stored) in
            if v2 \<noteq> opts k then with_options (opts(k := v2)) else st)))"

text \<open>
  \<open>set_options\<close> for the options of a finite map: what becomes of one option, and of the whole map.
  The random nonce is drawn for each value and may depend on the key.
\<close>

definition saved_option ::
    "machine \<Rightarrow> setting_layers \<Rightarrow> (rust_str \<Rightarrow> entropy) \<Rightarrow> options \<Rightarrow> rust_str \<Rightarrow> rust_str \<Rightarrow> rust_str option" where
  "saved_option M L ens previous k v =
     (if \<not> is_option_can_save L k v then None
      else
        (let plain = plaintext_option_value M k v;
             refused = previous k in
         if is_encrypted_option k \<and> v \<noteq> [] then
           (case previous k of
              Some p \<Rightarrow>
                if plaintext_option_value M k p = plain then Some p
                else (case maybe_encrypt_option_value M (ens k) k plain of
                        Some stored \<Rightarrow> Some stored | None \<Rightarrow> refused)
            | None \<Rightarrow> (case maybe_encrypt_option_value M (ens k) k plain of
                        Some stored \<Rightarrow> Some stored | None \<Rightarrow> refused))
         else (case maybe_encrypt_option_value M (ens k) k v of
                 Some stored \<Rightarrow> Some stored | None \<Rightarrow> refused)))"

definition set_options ::
    "machine \<Rightarrow> setting_layers \<Rightarrow> (rust_str \<Rightarrow> entropy) \<Rightarrow> entropy \<Rightarrow> options \<Rightarrow> settings \<Rightarrow> settings" where
  "set_options M L ens en v st =
     (let previous = c2_options (se_config2 st);
          saved = (\<lambda>k. case v k of None \<Rightarrow> None | Some x \<Rightarrow> saved_option M L ens previous k x);
          changed = (plaintext_option_from_map M saved OPTION_DIRECT_ACCESS_PAIRING_PASSPHRASE \<noteq>
                     plaintext_option_from_map M previous OPTION_DIRECT_ACCESS_PAIRING_PASSPHRASE) in
      if previous = saved then st
      else
        (let st1 = st\<lparr>se_config2 := (se_config2 st)\<lparr>c2_options := saved\<rparr>\<rparr> in
         store_config2 M en (if changed then forget_viewers st1 else st1)))"

definition option2bool :: "rust_str \<Rightarrow> rust_str \<Rightarrow> bool" where
  "option2bool option v =
     (if take 7 option = literal ''enable-'' then v \<noteq> literal ''N''
      else if take 6 option = literal ''allow-'' \<or> option = literal ''stop-service''
              \<or> option = literal ''direct-server'' \<or> option = literal ''force-always-relay''
        then v = literal ''Y''
      else v \<noteq> literal ''N'')"

definition normalized_option :: "machine \<Rightarrow> entropy \<Rightarrow> rust_str \<Rightarrow> rust_str \<Rightarrow> rust_str option" where
  "normalized_option M en key v =
     (if \<not> is_encrypted_option key \<or> v = [] then Some v
      else case unseal_str M v of
        (plain, decrypted, should_store) \<Rightarrow>
          if \<not> decrypted \<and> \<not> should_store then Some v
          else maybe_encrypt_option_value M en key plain)"

definition normalize_imported_options :: "machine \<Rightarrow> (rust_str \<Rightarrow> entropy) \<Rightarrow> config2 \<Rightarrow> config2" where
  "normalize_imported_options M ens c =
     c\<lparr>c2_options := (\<lambda>k. case c2_options c k of
        None \<Rightarrow> None | Some v \<Rightarrow> normalized_option M (ens k) k v)\<rparr>"

definition set_unlock_pin :: "machine \<Rightarrow> setting_layers \<Rightarrow> entropy \<Rightarrow> rust_str \<Rightarrow> settings \<Rightarrow> settings" where
  "set_unlock_pin M L en pin st =
     (if sl_builtin L (literal ''disable-unlock-pin'') = Some (literal ''Y'') then st
      else if pin = c2_unlock_pin (se_config2 st) then st
      else store_config2 M en (st\<lparr>se_config2 := (se_config2 st)\<lparr>c2_unlock_pin := pin\<rparr>\<rparr>))"

definition get_unlock_pin :: "setting_layers \<Rightarrow> settings \<Rightarrow> rust_str" where
  "get_unlock_pin L st =
     (if sl_builtin L (literal ''disable-unlock-pin'') = Some (literal ''Y'') then []
      else c2_unlock_pin (se_config2 st))"

end
