(* ===== verification/Settings_Properties.thy ===== *)
theory Settings_Properties
  imports Settings
begin

text \<open>
  What the settings guarantee: a sealed value is read back, also from a vault that only has the
  fallback key; a permanent password is accepted exactly when it is the one that was set, also
  after a restart and after the migration of older storage; the two pairing passphrases are never
  stored in plain text, an option that was set is what is read, and a changed passphrase revokes
  every paired viewer.
\<close>

section \<open>Sealed values\<close>

lemma seal_str_eq:
  assumes "s \<noteq> []" and "\<not> is_encrypted C s" and "length (str_chars s) \<le> max_len"
  shows "encrypt_str_or_original C V nonce s (literal ''00'') max_len =
    literal ''00'' @ vc_base64_encode C (sealed C V nonce s)"
  using assms by (simp add: encrypt_str_or_original_def secret_encrypt_sealed)

lemma seal_vec_eq:
  assumes "v \<noteq> []" and "\<not> is_encrypted C v" and "length v \<le> max_len"
  shows "encrypt_vec_or_original C V nonce v (literal ''00'') max_len =
    literal ''00'' @ vc_base64_encode C (sealed C V nonce v)"
  using assms by (simp add: encrypt_vec_or_original_def secret_encrypt_sealed)

lemma seal_keeps_sealed:
  "is_encrypted C s \<Longrightarrow> encrypt_str_or_original C V nonce s version max_len = s"
  "is_encrypted C s \<Longrightarrow> encrypt_vec_or_original C V nonce s version max_len = s"
  by (simp_all add: encrypt_str_or_original_def encrypt_vec_or_original_def)

text \<open>
  A stored secret is read back. A value that is not empty, not already sealed and
  within the length limit is stored as a sealed value, which a second encryption leaves alone,
  and which decrypts to the value, reports success, and asks for re-encryption only when the
  current version differs. This holds for the vault that sealed it and for one whose machine
  identifier changed but whose existing public key is the old identifier. Bytes and strings alike.
\<close>

lemma stored_secret_roundtrip:
  assumes "vault_laws C" and "length nonce = SB_NONCEBYTES" and "can_read C V V' nonce v"
    and "v \<noteq> []" and "\<not> is_encrypted C v" and "length v \<le> max_len"
    and "utf8_valid v" and "length (str_chars v) \<le> max_chars"
  shows "let e = encrypt_vec_or_original C V nonce v (literal ''00'') max_len;
             s = encrypt_str_or_original C V nonce v (literal ''00'') max_chars in
    is_encrypted C e \<and> is_encrypted C s \<and>
    encrypt_vec_or_original C V' nonce' e version limit = e \<and>
    encrypt_str_or_original C V' nonce' s version limit = s \<and>
    decrypt_vec_or_original C V' e current = (v, True, current \<noteq> literal ''00'') \<and>
    decrypt_str_or_original C V' s current = (v, True, current \<noteq> literal ''00'')"
proof -
  note e = seal_vec_eq [OF assms(4-6), of V nonce] and s = seal_str_eq [OF assms(4,5,8), of V nonce]
  note enc = is_encrypted_sealed [OF assms(1,2), of V v]
  show ?thesis
    unfolding Let_def e s
    using enc seal_keeps_sealed [OF enc] decrypt_marked [OF assms(1-3)] assms(7) by simp
qed

definition toy_vault_codec :: vault_codec where
  "toy_vault_codec = \<lparr>vc_seal = (\<lambda>m n k. replicate 15 0 @ [hd (k @ [0])] @ m),
     vc_open = (\<lambda>c n k. if length c \<ge> 16 \<and> take 16 c = replicate 15 0 @ [hd (k @ [0])] then Some (drop 16 c) else None),
     vc_base64_encode = id, vc_base64_decode = Some\<rparr>"

definition toy_vault :: "bytes \<Rightarrow> bytes option \<Rightarrow> vault" where
  "toy_vault uuid pk = \<lparr>va_uuid = uuid, va_existing_pk = pk\<rparr>"

lemma toy_vault_laws: "vault_laws toy_vault_codec"
  by (auto simp: vault_laws_def toy_vault_codec_def SB_MACBYTES_def)

definition toy_nonce :: bytes where "toy_nonce = replicate 24 5"

lemma toy_can_read: "can_read toy_vault_codec (toy_vault [1] None) (toy_vault [2] (Some [1])) toy_nonce [97]"
proof -
  have "open_secretbox_payload toy_vault_codec
      (sealed toy_vault_codec (toy_vault [1] None) toy_nonce [97]) (resize_key [2]) = None" by code_simp
  then show ?thesis by (simp add: can_read_def toy_vault_def)
qed

lemma stored_secret_roundtrip_example:
  "decrypt_str_or_original toy_vault_codec (toy_vault [2] (Some [1]))
     (encrypt_str_or_original toy_vault_codec (toy_vault [1] None) toy_nonce [97] (literal ''00'') 128)
     (literal ''00'') = ([97], True, False)"
proof -
  have len: "length toy_nonce = SB_NONCEBYTES" by (simp add: toy_nonce_def SB_NONCEBYTES_def)
  have plain: "[97 :: u8] \<noteq> []" "\<not> is_encrypted toy_vault_codec [97]" "length [97 :: u8] \<le> 128"
    by (simp_all add: is_encrypted_def VERSION_LEN_def)
  have "utf8_chars [97] = Some [97]" by code_simp
  then have valid: "utf8_valid [97]" "length (str_chars [97]) \<le> 128" by (simp_all add: utf8_valid_def str_chars_def)
  from stored_secret_roundtrip [OF toy_vault_laws len toy_can_read plain valid] show ?thesis
    by (simp add: Let_def)
qed

section \<open>The permanent password\<close>

definition hash_laws :: "machine \<Rightarrow> bool" where
  "hash_laws M \<longleftrightarrow> vault_laws (ma_codec M) \<and> (\<forall>bs. length (ma_sha256 M bs) = 32)"

lemma decode_encode_h1:
  assumes "hash_laws M"
  shows "decode_permanent_password_h1_from_storage M
    (encode_permanent_password_storage_from_h1 M (compute_permanent_password_h1 M p salt)) =
    Some (ma_sha256 M (p @ salt))"
proof -
  have "compute_permanent_password_h1 M p salt = ma_sha256 M (p @ salt)"
    using assms by (simp add: compute_permanent_password_h1_def hash_laws_def PERMANENT_PASSWORD_H1_LEN_def)
  then show ?thesis
    using assms by (simp add: decode_permanent_password_h1_from_storage_def hash_laws_def vault_laws_def
        encode_permanent_password_storage_from_h1_def PERMANENT_PASSWORD_HASH_PREFIX_def literal_def
        PERMANENT_PASSWORD_H1_LEN_def)
qed

lemma encoded_not_empty: "encode_permanent_password_storage_from_h1 M h \<noteq> []"
  by (simp add: encode_permanent_password_storage_from_h1_def PERMANENT_PASSWORD_HASH_PREFIX_def literal_def)

lemma matches_cong:
  "cf_password c = cf_password d \<Longrightarrow> cf_salt c = cf_salt d \<Longrightarrow>
     matches_permanent_password_plain M L c q \<longleftrightarrow> matches_permanent_password_plain M L d q"
  by (simp add: matches_permanent_password_plain_def split: option.splits)

lemma matches_hashed:
  assumes "hash_laws M" and "cf_salt c \<noteq> []"
    and "cf_password c = encode_permanent_password_storage_from_h1 M (compute_permanent_password_h1 M p (cf_salt c))"
  shows "matches_permanent_password_plain M L c q \<longleftrightarrow>
    q \<noteq> [] \<and> ma_sha256 M (q @ cf_salt c) = ma_sha256 M (p @ cf_salt c)"
proof -
  have "compute_permanent_password_h1 M q (cf_salt c) = ma_sha256 M (q @ cf_salt c)"
    using assms(1) by (simp add: compute_permanent_password_h1_def hash_laws_def PERMANENT_PASSWORD_H1_LEN_def)
  then show ?thesis
    using decode_encode_h1 [OF assms(1), of p "cf_salt c"] assms(2,3) encoded_not_empty
    by (simp add: matches_permanent_password_plain_def)
qed

text \<open>Clearing the devices and writing the files leave the configuration in memory alone.\<close>

lemma clear_keeps_config [simp]: "se_config (clear_trusted_devices M en now st) = se_config st"
  by (simp add: clear_trusted_devices_def set_trusted_devices_def store_config2_def Let_def)

lemma store_keeps_config [simp]:
  "se_config (store_config M en st) = se_config st" "se_config2 (store_config M en st) = se_config2 st"
  "se_config (store_config2 M en st) = se_config st" "se_config2 (store_config2 M en st) = se_config2 st"
  "se_paired_viewers (store_config2 M en st) = se_paired_viewers st"
  by (simp_all add: store_config_def store_config2_def)

lemma clear_forgets_devices:
  "length (ma_devices_json M []) \<le> 1024 * 1024 \<Longrightarrow>
     se_trusted_devices (clear_trusted_devices M en now st) = ([], True)"
  by (simp add: clear_trusted_devices_def set_trusted_devices_def Let_def)

text \<open>
  Property C10: a permanent password that was set is what is accepted. When changing it is not
  disabled and it is not the preset password over an empty storage, then afterwards an input is
  accepted exactly when it is not empty and hashes, with the salt now in use, as the password
  does; and whenever the stored password changed, every trusted device is forgotten.
\<close>

theorem permanent_password_exact:
  assumes "hash_laws M" and "\<not> is_disable_change_permanent_password L" and "p \<noteq> []"
    and "\<not> (sl_hard L (literal ''password'') = Some p \<and> cf_password (se_config st) = [])"
    and "en_salt en \<noteq> []" and "length (ma_devices_json M []) \<le> 1024 * 1024"
  shows "let st' = set_permanent_password M L en now p st; salt = cf_salt (se_config st') in
    (matches_permanent_password_plain M L (se_config st') q \<longleftrightarrow>
       q \<noteq> [] \<and> ma_sha256 M (q @ salt) = ma_sha256 M (p @ salt)) \<and>
    (cf_password (se_config st') = cf_password (se_config st) \<or> se_trusted_devices st' = ([], True))"
proof -
  define c where "c = ensure_salt en (se_config st)"
  define stored where "stored = encode_permanent_password_storage_from_h1 M (compute_permanent_password_h1 M p (cf_salt c))"
  have salt: "cf_salt c \<noteq> []" using assms(5) by (simp add: c_def ensure_salt_def)
  have pw: "cf_password c = cf_password (se_config st)" by (simp add: c_def ensure_salt_def)
  have st': "set_permanent_password M L en now p st =
      (if stored = cf_password c then st\<lparr>se_config := c\<rparr>
       else clear_trusted_devices M en now (store_config M en (st\<lparr>se_config := c\<lparr>cf_password := stored\<rparr>\<rparr>)))"
    using assms(2-4) by (auto simp: set_permanent_password_def c_def stored_def Let_def)
  show ?thesis
  proof (cases "stored = cf_password c")
    case True
    then have "matches_permanent_password_plain M L c q \<longleftrightarrow>
        q \<noteq> [] \<and> ma_sha256 M (q @ cf_salt c) = ma_sha256 M (p @ cf_salt c)"
      using matches_hashed [OF assms(1) salt] by (simp add: stored_def)
    with True st' pw show ?thesis by simp
  next
    case False
    let ?c = "c\<lparr>cf_password := stored\<rparr>"
    have "matches_permanent_password_plain M L ?c q \<longleftrightarrow>
        q \<noteq> [] \<and> ma_sha256 M (q @ cf_salt ?c) = ma_sha256 M (p @ cf_salt ?c)"
      by (rule matches_hashed) (simp_all add: assms(1) salt stored_def)
    with False st' clear_forgets_devices [OF assms(6)] show ?thesis by simp
  qed
qed

definition toy_machine :: machine where
  "toy_machine = \<lparr>ma_codec = toy_vault_codec, ma_vault = toy_vault [1] None,
     ma_sha256 = (\<lambda>bs. take 32 (bs @ replicate 32 0)), ma_devices_json = (\<lambda>_. [91, 93]),
     ma_devices_parse = (\<lambda>_. Some []), ma_viewers_json = (\<lambda>_. [91, 93]), ma_viewers_parse = (\<lambda>_. Some [])\<rparr>"

definition no_layers :: setting_layers where
  "no_layers = \<lparr>sl_overwrite = Map.empty, sl_defaults = Map.empty, sl_hard = Map.empty, sl_builtin = Map.empty\<rparr>"

definition toy_entropy :: entropy where
  "toy_entropy = \<lparr>en_nonce = toy_nonce, en_salt = [115]\<rparr>"

definition empty_config :: config where
  "empty_config = \<lparr>cf_id = [], cf_enc_id = [], cf_password = [], cf_salt = [], cf_key_pair = ([7], [8]),
     cf_key_confirmed = False, cf_keys_confirmed = Map.empty\<rparr>"

definition empty_config2 :: config2 where
  "empty_config2 = \<lparr>c2_rendezvous_server = [], c2_nat_type = 0, c2_serial = 0, c2_unlock_pin = [],
     c2_trusted_devices = [], c2_paired_viewers = [], c2_socks = None, c2_options = Map.empty\<rparr>"

definition empty_settings :: settings where
  "empty_settings = \<lparr>se_config = empty_config, se_config2 = empty_config2, se_trusted_devices = ([], False),
     se_paired_viewers = ([], False), se_file = empty_config, se_file2 = empty_config2\<rparr>"

lemma toy_hash_laws: "hash_laws toy_machine"
  using toy_vault_laws by (auto simp: hash_laws_def toy_machine_def min_def)

theorem permanent_password_exact_witness:
  "let c = se_config (set_permanent_password toy_machine no_layers toy_entropy 0 [112, 119] empty_settings) in
    matches_permanent_password_plain toy_machine no_layers c [112, 119] \<and>
    \<not> matches_permanent_password_plain toy_machine no_layers c []"
proof -
  have "\<not> is_disable_change_permanent_password no_layers" "[112, 119] \<noteq> ([] :: u8 list)"
    "\<not> (sl_hard no_layers (literal ''password'') = Some [112, 119] \<and> cf_password (se_config empty_settings) = [])"
    "en_salt toy_entropy \<noteq> []" "length (ma_devices_json toy_machine []) \<le> 1024 * 1024"
    by (simp_all add: is_disable_change_permanent_password_def no_layers_def toy_entropy_def toy_machine_def)
  note use = permanent_password_exact [OF toy_hash_laws this, where now = 0]
  show ?thesis using use [of "[112, 119]"] use [of "[]"] by (simp add: Let_def)
qed

section \<open>Restart\<close>

lemma can_read_own: "can_read C V V nonce v"
  by (simp add: can_read_def)

lemma migrate_idle:
  "cf_password c = [] \<or> is_permanent_password_hashed_storage M (cf_password c) \<Longrightarrow>
     migrate_permanent_password_to_hashed_storage M en c = (c, False)"
  by (auto simp: migrate_permanent_password_to_hashed_storage_def)

text \<open>\<open>secretbox::open\<close> refuses a ciphertext that is shorter than its authenticator.\<close>

definition short_refused :: "vault_codec \<Rightarrow> bool" where
  "short_refused C \<longleftrightarrow> (\<forall>bs nonce key. length bs < SB_MACBYTES \<longrightarrow> vc_open C bs nonce key = None)"

text \<open>What does not look sealed is left as it is, and is marked for storing.\<close>

lemma unseal_plain:
  assumes "short_refused (ma_codec M)" and "v \<noteq> []" and "\<not> is_encrypted (ma_codec M) v"
  shows "unseal_str M v = (v, False, True)"
proof -
  have short: "length d < SB_MACBYTES \<Longrightarrow> symmetric_decrypt (ma_codec M) V d = None" for d V
    using assms(1) by (auto simp: short_refused_def symmetric_decrypt_def open_secretbox_payload_def Let_def split: option.splits)
  have "secret_decrypt (ma_codec M) (ma_vault M) (drop VERSION_LEN v) = None"
    if "length v > VERSION_LEN" "take 2 v = literal ''00''"
    using that assms(3) short by (simp add: is_encrypted_def secret_decrypt_def not_le split: option.splits)
  then show ?thesis using assms(2,3) by (simp add: decrypt_str_or_original_def Let_def)
qed

lemma migrate_plain:
  assumes "cf_password c \<noteq> []" and "\<not> is_permanent_password_hashed_storage M (cf_password c)"
    and "short_refused (ma_codec M)" and "\<not> is_encrypted (ma_codec M) (cf_password c)"
  shows "fst (migrate_permanent_password_to_hashed_storage M en c) =
    (ensure_salt en c)\<lparr>cf_password := encode_permanent_password_storage_from_h1 M
       (compute_permanent_password_h1 M (cf_password c) (cf_salt (ensure_salt en c)))\<rparr>"
proof -
  have "unseal_str M (cf_password c) = (cf_password c, False, True)"
    using assms(3,1,4) by (rule unseal_plain)
  with assms show ?thesis
    by (auto simp: migrate_permanent_password_to_hashed_storage_def Let_def ensure_salt_def)
qed

lemma migrate_keeps:
  assumes "migrate_permanent_password_to_hashed_storage M en c = (c', b)"
  shows "cf_id c' = cf_id c \<and> cf_enc_id c' = cf_enc_id c \<and> cf_key_pair c' = cf_key_pair c"
proof -
  have salt: "cf_id (ensure_salt en c) = cf_id c \<and> cf_enc_id (ensure_salt en c) = cf_enc_id c \<and>
      cf_key_pair (ensure_salt en c) = cf_key_pair c" by (simp add: ensure_salt_def)
  with assms show ?thesis
    by (auto simp: migrate_permanent_password_to_hashed_storage_def Let_def split: if_splits prod.splits)
qed

text \<open>Loading a stored configuration whose password is hashed or empty changes only the identifier.\<close>

lemma load_stored:
  assumes "hash_laws M" and "length (en_nonce en) = SB_NONCEBYTES"
    and "cf_id c \<noteq> []" and "utf8_valid (cf_id c)" and "length (str_chars (cf_id c)) \<le> ENCRYPT_MAX_LEN"
    and "\<not> is_encrypted (ma_codec M) (cf_id c)"
    and "fst (cf_key_pair c) \<noteq> []" and "cache \<in> {None, Some (cf_key_pair c)}"
    and "cf_password c = [] \<or> is_permanent_password_hashed_storage M (cf_password c)"
  defines "f \<equiv> c\<lparr>cf_enc_id := seal_str M en (cf_id c) ENCRYPT_MAX_LEN, cf_id := []\<rparr>"
  shows "config_load M en' cache generated new_ids f = (f\<lparr>cf_id := cf_id c\<rparr>, False)"
proof -
  have key: "ensure_key_pair cache generated f = (f, Some (cf_key_pair f), False)"
    using assms(7,8) by (auto simp: ensure_key_pair_def f_def)
  have mig: "migrate_permanent_password_to_hashed_storage M en' f = (f, False)"
    by (rule migrate_idle) (use assms(9) in \<open>simp add: f_def\<close>)
  have "cf_enc_id f = literal ''00'' @ vc_base64_encode (ma_codec M) (sealed (ma_codec M) (ma_vault M) (en_nonce en) (cf_id c))"
    using seal_str_eq [OF assms(3,6,5)] by (simp add: f_def PASSWORD_ENC_VERSION_def)
  then have "unseal_str M (cf_enc_id f) = (cf_id c, True, False)"
    using decrypt_marked(2) [OF _ assms(2) can_read_own assms(4), of "ma_codec M" "ma_vault M" "literal ''00''"] assms(1)
    by (simp add: PASSWORD_ENC_VERSION_def hash_laws_def)
  then show ?thesis by (simp add: config_load_def key mig Let_def)
qed

text \<open>
  Property C39: the configuration survives a restart. In what \<open>store\<close> writes, the identifier is only
  there sealed and the permanent password, if there is one, only hashed; the key pair with its
  secret key is written as it is. \<open>load\<close> gives back the identifier and the key pair and writes
  nothing. A hashed password is accepted for the same inputs as before; one that was still in plain
  text is accepted exactly for the inputs that hash like it. This holds for an identifier and a
  password that do not look sealed themselves (\<open>00\<close> and the base64 form of at least an
  authenticator): what does is stored unchanged, as \<open>sealed_looking_password_kept\<close> shows.
\<close>

theorem config_survives_restart:
  assumes "hash_laws M" and "length (en_nonce en) = SB_NONCEBYTES" and "en_salt en \<noteq> []"
    and "cf_id c \<noteq> []" and "utf8_valid (cf_id c)" and "length (str_chars (cf_id c)) \<le> ENCRYPT_MAX_LEN"
    and "\<not> is_encrypted (ma_codec M) (cf_id c)"
    and "fst (cf_key_pair c) \<noteq> []" and "cache \<in> {None, Some (cf_key_pair c)}"
    and "short_refused (ma_codec M)" and "\<not> is_encrypted (ma_codec M) (cf_password c)"
  shows "let f = config_stored M en c; (c', again) = config_load M en' cache generated new_ids f;
             hashed = (cf_password c = [] \<or> is_permanent_password_hashed_storage M (cf_password c)) in
    cf_id f = [] \<and> is_encrypted (ma_codec M) (cf_enc_id f) \<and>
    (cf_password f = [] \<or> is_permanent_password_hashed_storage M (cf_password f)) \<and>
    cf_key_pair f = cf_key_pair c \<and> cf_id c' = cf_id c \<and> cf_key_pair c' = cf_key_pair c \<and> \<not> again \<and>
    (matches_permanent_password_plain M L c' q \<longleftrightarrow>
       (if hashed then matches_permanent_password_plain M L c q
        else q \<noteq> [] \<and> ma_sha256 M (q @ cf_salt c') = ma_sha256 M (cf_password c @ cf_salt c')))"
proof -
  define m where "m = fst (migrate_permanent_password_to_hashed_storage M en c)"
  have keep: "cf_id m = cf_id c" "cf_key_pair m = cf_key_pair c"
    using migrate_keeps [of M en c m] by (metis m_def prod.collapse)+
  define f where "f = m\<lparr>cf_enc_id := seal_str M en (cf_id m) ENCRYPT_MAX_LEN, cf_id := []\<rparr>"
  have f: "config_stored M en c = f" by (simp add: config_stored_def f_def m_def Let_def)
  have salted: "cf_salt (ensure_salt en c) \<noteq> []" using assms(3) by (simp add: ensure_salt_def)
  let ?hashed = "cf_password c = [] \<or> is_permanent_password_hashed_storage M (cf_password c)"
  have hashed: "?hashed \<Longrightarrow> m = c" by (simp add: m_def migrate_idle)
  have plain: "\<not> ?hashed \<Longrightarrow> m = (ensure_salt en c)\<lparr>cf_password := encode_permanent_password_storage_from_h1 M
      (compute_permanent_password_h1 M (cf_password c) (cf_salt (ensure_salt en c)))\<rparr>"
    using migrate_plain [OF _ _ assms(10,11)] by (simp add: m_def)
  have pw: "cf_password m = [] \<or> is_permanent_password_hashed_storage M (cf_password m)"
  proof (cases ?hashed)
    case True
    then show ?thesis using hashed by simp
  next
    case False
    then show ?thesis
      using plain decode_encode_h1 [OF assms(1)] by (simp add: is_permanent_password_hashed_storage_def)
  qed
  have load: "config_load M en' cache generated new_ids f = (f\<lparr>cf_id := cf_id c\<rparr>, False)"
    using load_stored [OF assms(1,2), of m cache en' generated new_ids] assms(4-9) pw keep by (simp add: f_def)
  have enc: "is_encrypted (ma_codec M) (cf_enc_id f)"
    using seal_str_eq [OF assms(4,7,6)] is_encrypted_sealed assms(1,2) keep
    by (simp add: f_def PASSWORD_ENC_VERSION_def hash_laws_def)
  have "matches_permanent_password_plain M L (f\<lparr>cf_id := cf_id c\<rparr>) q \<longleftrightarrow> matches_permanent_password_plain M L m q"
    by (rule matches_cong) (simp_all add: f_def)
  moreover have "\<not> ?hashed \<Longrightarrow> matches_permanent_password_plain M L m q \<longleftrightarrow>
      q \<noteq> [] \<and> ma_sha256 M (q @ cf_salt m) = ma_sha256 M (cf_password c @ cf_salt m)"
    by (rule matches_hashed) (simp_all add: assms(1) salted plain)
  ultimately show ?thesis
    using f load enc pw keep hashed by (auto simp: Let_def f_def)
qed

lemma toy_short_refused: "short_refused toy_vault_codec"
  by (simp add: short_refused_def toy_vault_codec_def SB_MACBYTES_def)

theorem config_survives_restart_witness:
  "let c = empty_config\<lparr>cf_id := [49], cf_password := [112]\<rparr>;
       (c', again) = config_load toy_machine toy_entropy None ([], []) [] (config_stored toy_machine toy_entropy c) in
    cf_id c' = [49] \<and> \<not> again \<and> matches_permanent_password_plain toy_machine no_layers c' [112]"
proof -
  let ?c = "empty_config\<lparr>cf_id := [49], cf_password := [112]\<rparr>"
  have chars: "utf8_chars [49] = Some [49]" by code_simp
  have pre: "length (en_nonce toy_entropy) = SB_NONCEBYTES" "en_salt toy_entropy \<noteq> []" "cf_id ?c \<noteq> []"
    "utf8_valid (cf_id ?c)" "length (str_chars (cf_id ?c)) \<le> ENCRYPT_MAX_LEN"
    "\<not> is_encrypted (ma_codec toy_machine) (cf_id ?c)" "fst (cf_key_pair ?c) \<noteq> []"
    "None \<in> {None, Some (cf_key_pair ?c)}" "short_refused (ma_codec toy_machine)"
    "\<not> is_encrypted (ma_codec toy_machine) (cf_password ?c)"
    using chars toy_short_refused
    by (simp_all add: toy_entropy_def toy_nonce_def SB_NONCEBYTES_def utf8_valid_def str_chars_def
        ENCRYPT_MAX_LEN_def is_encrypted_def VERSION_LEN_def empty_config_def toy_machine_def literal_def)
  have "\<not> is_permanent_password_hashed_storage toy_machine [112]"
    by (simp add: is_permanent_password_hashed_storage_def decode_permanent_password_h1_from_storage_def
        PERMANENT_PASSWORD_HASH_PREFIX_def literal_def)
  with config_survives_restart [OF toy_hash_laws pre, where en' = toy_entropy and generated = "([], [])"
      and new_ids = "[]" and L = no_layers and q = "[112]"] show ?thesis
    by (auto simp: Let_def split: prod.splits)
qed

text \<open>
  A password that looks sealed but that this machine cannot open is stored as it is, even when it is
  a password in plain text.
\<close>

lemma sealed_looking_password_kept:
  assumes "is_encrypted (ma_codec M) (cf_password c)" and "\<not> is_permanent_password_hashed_storage M (cf_password c)"
    and "secret_decrypt (ma_codec M) (ma_vault M) (drop VERSION_LEN (cf_password c)) = None"
  shows "cf_password (config_stored M en c) = cf_password c"
  using assms
  by (auto simp: config_stored_def migrate_permanent_password_to_hashed_storage_def decrypt_str_or_original_def
      is_encrypted_def PASSWORD_ENC_VERSION_def Let_def split: if_splits option.splits)

text \<open>
  A PIN or proxy password of more than 128 characters is accepted in memory but written as the
  empty string, so that it is gone after a restart.
\<close>

lemma long_pin_lost:
  assumes "length (str_chars (c2_unlock_pin c)) > ENCRYPT_MAX_LEN" and "\<not> is_encrypted (ma_codec M) (c2_unlock_pin c)"
  shows "c2_unlock_pin (fst (config2_load M (config2_stored M en c))) = []"
  using assms
  by (simp add: config2_load_def config2_stored_def encrypt_str_or_original_def decrypt_str_or_original_def
      Let_def split: prod.splits)

section \<open>Options\<close>

text \<open>The values of the two passphrases are sealed or empty.\<close>

definition opts_sealed :: "machine \<Rightarrow> options \<Rightarrow> bool" where
  "opts_sealed M opts \<longleftrightarrow>
     (\<forall>k v. is_encrypted_option k \<longrightarrow> opts k = Some v \<longrightarrow> v = [] \<or> is_encrypted (ma_codec M) v)"

definition revoked :: "machine \<Rightarrow> settings \<Rightarrow> bool" where
  "revoked M st \<longleftrightarrow> c2_paired_viewers (se_config2 st) = [] \<and>
     (\<forall>en now scope viewer_id pk. \<not> snd (has_paired_viewer M en now scope viewer_id pk st))"

definition passphrase :: "machine \<Rightarrow> settings \<Rightarrow> rust_str option" where
  "passphrase M st = plaintext_option_from_map M (c2_options (se_config2 st)) OPTION_DIRECT_ACCESS_PAIRING_PASSPHRASE"

lemma maybe_encrypt_sealed:
  assumes "vault_laws (ma_codec M)" and "length (en_nonce en) = SB_NONCEBYTES" and "is_encrypted_option k"
    and "maybe_encrypt_option_value M en k v = Some s"
  shows "s = [] \<or> is_encrypted (ma_codec M) s"
proof (cases "v = [] \<or> is_encrypted (ma_codec M) v")
  case True
  with assms(3,4) show ?thesis
    by (auto simp: maybe_encrypt_option_value_def seal_keeps_sealed Let_def split: if_splits)
next
  case False
  with assms(3,4) have len: "length (str_chars v) \<le> ENCRYPT_MAX_LEN" and "s = seal_str M en v ENCRYPT_MAX_LEN"
    by (auto simp: maybe_encrypt_option_value_def Let_def split: if_splits)
  with seal_str_eq [of v "ma_codec M", OF _ _ len] False is_encrypted_sealed [OF assms(1,2)] show ?thesis
    by (simp add: PASSWORD_ENC_VERSION_def)
qed

lemma forget_viewers_revoked:
  "revoked M (store_config2 M en (forget_viewers st))"
  by (auto simp: revoked_def has_paired_viewer_def get_paired_viewers_def forget_viewers_def store_config2_def)

text \<open>The two ways out of \<open>set_option_value\<close>: nothing happens, or one option changes.\<close>

lemma set_option_cases:
  obtains "set_option_value M L en k v st = st"
  | w st1 where "set_option_value M L en k v st = store_config2 M en
        (if k = OPTION_DIRECT_ACCESS_PAIRING_PASSPHRASE then forget_viewers st1 else st1)"
      and "st1 = st\<lparr>se_config2 := (se_config2 st)\<lparr>c2_options := (c2_options (se_config2 st))(k := w)\<rparr>\<rparr>"
      and "w = None \<or> (\<exists>plain. maybe_encrypt_option_value M en k plain = w)"
proof (cases "is_option_can_save L k v")
  case False
  then show thesis
    using that by (cases "c2_options (se_config2 st) k") (auto simp: set_option_value_def Let_def)
next
  case True
  let ?plain = "plaintext_option_value M k v"
  show thesis
  proof (cases "maybe_encrypt_option_value M en k ?plain")
    case None
    then show thesis using that(1) True by (simp add: set_option_value_def Let_def)
  next
    case (Some stored)
    define w where "w = (if stored = [] then None else Some stored)"
    have w: "w = None \<or> (\<exists>plain. maybe_encrypt_option_value M en k plain = w)"
      using Some by (auto simp: w_def)
    show thesis
    proof (cases "set_option_value M L en k v st = st")
      case False
      then have "set_option_value M L en k v st = store_config2 M en
          (if k = OPTION_DIRECT_ACCESS_PAIRING_PASSPHRASE
           then forget_viewers (st\<lparr>se_config2 := (se_config2 st)\<lparr>c2_options := (c2_options (se_config2 st))(k := w)\<rparr>\<rparr>)
           else st\<lparr>se_config2 := (se_config2 st)\<lparr>c2_options := (c2_options (se_config2 st))(k := w)\<rparr>\<rparr>)"
        using True Some by (auto simp: set_option_value_def w_def Let_def split: if_splits)
      with w that(2) show thesis by blast
    qed (rule that(1))
  qed
qed

lemma forget_keeps_options [simp]: "c2_options (se_config2 (forget_viewers st)) = c2_options (se_config2 st)"
  by (simp add: forget_viewers_def)

lemma set_option_protects:
  assumes "vault_laws (ma_codec M)" and "length (en_nonce en) = SB_NONCEBYTES"
    and "opts_sealed M (c2_options (se_config2 st))"
  shows "opts_sealed M (c2_options (se_config2 (set_option_value M L en k v st))) \<and>
    (passphrase M (set_option_value M L en k v st) = passphrase M st \<or> revoked M (set_option_value M L en k v st))"
proof (cases rule: set_option_cases [of M L en k v st])
  case 1
  with assms(3) show ?thesis by simp
next
  case (2 w st1)
  let ?o = "(c2_options (se_config2 st))(k := w)"
  have opts: "c2_options (se_config2 (set_option_value M L en k v st)) = ?o" using 2 by simp
  have "opts_sealed M ?o"
    using assms(3) 2(3) by (auto simp: opts_sealed_def dest: maybe_encrypt_sealed [OF assms(1,2)])
  moreover have "passphrase M (set_option_value M L en k v st) = passphrase M st"
    if "k \<noteq> OPTION_DIRECT_ACCESS_PAIRING_PASSPHRASE"
    using that by (simp add: passphrase_def opts plaintext_option_from_map_def)
  moreover have "revoked M (set_option_value M L en k v st)" if "k = OPTION_DIRECT_ACCESS_PAIRING_PASSPHRASE"
    using that 2(1) forget_viewers_revoked by simp
  ultimately show ?thesis unfolding opts by blast
qed

lemma saved_option_cases:
  assumes "saved_option M L ens previous k v = Some s"
  shows "previous k = Some s \<or> (\<exists>plain. maybe_encrypt_option_value M (ens k) k plain = Some s)"
  using assms by (auto simp: saved_option_def Let_def split: if_splits option.splits)

lemma set_options_protects:
  assumes "vault_laws (ma_codec M)" and "\<forall>k. length (en_nonce (ens k)) = SB_NONCEBYTES"
    and "opts_sealed M (c2_options (se_config2 st))"
  shows "opts_sealed M (c2_options (se_config2 (set_options M L ens en v st))) \<and>
    (passphrase M (set_options M L ens en v st) = passphrase M st \<or> revoked M (set_options M L ens en v st))"
proof -
  define saved where "saved = (\<lambda>k. case v k of None \<Rightarrow> None
    | Some x \<Rightarrow> saved_option M L ens (c2_options (se_config2 st)) k x)"
  show ?thesis
  proof (cases "c2_options (se_config2 st) = saved")
    case True
    then have "set_options M L ens en v st = st" by (simp add: set_options_def saved_def Let_def)
    with assms(3) show ?thesis by simp
  next
    case False
    let ?st1 = "st\<lparr>se_config2 := (se_config2 st)\<lparr>c2_options := saved\<rparr>\<rparr>"
    let ?changed = "plaintext_option_from_map M saved OPTION_DIRECT_ACCESS_PAIRING_PASSPHRASE \<noteq> passphrase M st"
    have st': "set_options M L ens en v st =
        store_config2 M en (if ?changed then forget_viewers ?st1 else ?st1)"
      using False by (simp add: set_options_def saved_def passphrase_def Let_def)
    have "s = [] \<or> is_encrypted (ma_codec M) s" if "is_encrypted_option k" "saved k = Some s" for k s
    proof -
      from that(2) obtain x where "saved_option M L ens (c2_options (se_config2 st)) k x = Some s"
        by (auto simp: saved_def split: option.splits)
      from saved_option_cases [OF this] show ?thesis
        using assms(2,3) that(1) by (auto simp: opts_sealed_def dest: maybe_encrypt_sealed [OF assms(1)])
    qed
    then have "opts_sealed M saved" by (auto simp: opts_sealed_def)
    moreover have "c2_options (se_config2 (set_options M L ens en v st)) = saved" by (simp add: st')
    moreover have "passphrase M (set_options M L ens en v st) = passphrase M st" if "\<not> ?changed"
      using that by (simp add: passphrase_def st')
    moreover have "revoked M (set_options M L ens en v st)" if "?changed"
      using that forget_viewers_revoked by (simp add: st')
    ultimately show ?thesis by metis
  qed
qed

lemma normalize_seals:
  assumes "vault_laws (ma_codec M)" and "\<forall>k. length (en_nonce (ens k)) = SB_NONCEBYTES"
  shows "opts_sealed M (c2_options (normalize_imported_options M ens c))"
proof -
  have "s = [] \<or> is_encrypted (ma_codec M) s"
    if enc: "is_encrypted_option k" and norm: "normalized_option M (ens k) k v = Some s" for k v s
  proof (cases "v = []")
    case True
    with norm show ?thesis by (simp add: normalized_option_def)
  next
    case False
    obtain plain d again where u: "unseal_str M v = (plain, d, again)" by (cases "unseal_str M v") auto
    show ?thesis
    proof (cases "\<not> d \<and> \<not> again")
      case True
      with u False have "is_encrypted (ma_codec M) v"
        by (auto simp: decrypt_str_or_original_def Let_def split: if_splits option.splits)
      with norm enc False u True show ?thesis by (simp add: normalized_option_def)
    next
      case no: False
      with norm enc False u have "maybe_encrypt_option_value M (ens k) k plain = Some s"
        by (simp add: normalized_option_def)
      with maybe_encrypt_sealed [OF assms(1) _ enc] assms(2) show ?thesis by blast
    qed
  qed
  then show ?thesis
    by (auto simp: opts_sealed_def normalize_imported_options_def split: option.splits)
qed

text \<open>
  Property C9: the pairing passphrases are protected. Importing options leaves the two
  passphrases sealed whatever was imported, and both ways to set options keep them sealed. After
  either, the passphrase for direct access is the one from before, or every paired viewer has
  been revoked: none is recognised any more, and none is left in the stored configuration.
\<close>

theorem pairing_secrets_protected:
  assumes "vault_laws (ma_codec M)" and "length (en_nonce en) = SB_NONCEBYTES"
    and "\<forall>k. length (en_nonce (ens k)) = SB_NONCEBYTES"
  shows "opts_sealed M (c2_options (normalize_imported_options M ens c)) \<and>
    (opts_sealed M (c2_options (se_config2 st)) \<longrightarrow>
      (let st1 = set_option_value M L en k v st; st2 = set_options M L ens en vs st in
        opts_sealed M (c2_options (se_config2 st1)) \<and> opts_sealed M (c2_options (se_config2 st2)) \<and>
        (passphrase M st1 = passphrase M st \<or> revoked M st1) \<and>
        (passphrase M st2 = passphrase M st \<or> revoked M st2)))"
  using normalize_seals [OF assms(1,3)] set_option_protects [OF assms(1,2)] set_options_protects [OF assms(1,3)]
  by (simp add: Let_def)

lemma toy_nonce_length: "length (en_nonce toy_entropy) = SB_NONCEBYTES"
  by (simp add: toy_entropy_def toy_nonce_def SB_NONCEBYTES_def)

theorem pairing_secrets_protected_witness:
  "opts_sealed toy_machine (c2_options (se_config2
     (set_option_value toy_machine no_layers toy_entropy OPTION_DIRECT_ACCESS_PAIRING_PASSPHRASE [112] empty_settings)))"
proof -
  have "vault_laws (ma_codec toy_machine)" using toy_hash_laws by (simp add: hash_laws_def)
  moreover have "\<forall>k :: rust_str. length (en_nonce ((\<lambda>_. toy_entropy) k)) = SB_NONCEBYTES"
    using toy_nonce_length by simp
  moreover have "opts_sealed toy_machine (c2_options (se_config2 empty_settings))"
    by (simp add: opts_sealed_def empty_settings_def empty_config2_def)
  ultimately show ?thesis
    using pairing_secrets_protected [OF _ toy_nonce_length, of toy_machine "\<lambda>_. toy_entropy" empty_config2 empty_settings no_layers
        OPTION_DIRECT_ACCESS_PAIRING_PASSPHRASE "[112]" Map.empty]
    by (simp add: Let_def)
qed

lemma set_option_other:
  assumes "k' \<noteq> k"
  shows "c2_options (se_config2 (set_option_value M L en k v st)) k' = c2_options (se_config2 st) k'"
  using assms by (cases rule: set_option_cases [of M L en k v st]) auto

text \<open>What an encrypted option can hold so that it is read back.\<close>

definition fits :: "machine \<Rightarrow> rust_str \<Rightarrow> rust_str \<Rightarrow> bool" where
  "fits M k plain \<longleftrightarrow> (is_encrypted_option k \<longrightarrow>
     utf8_valid plain \<and> \<not> is_encrypted (ma_codec M) plain \<and> length (str_chars plain) \<le> ENCRYPT_MAX_LEN)"

lemma maybe_encrypt_fits:
  assumes "vault_laws (ma_codec M)" and "length (en_nonce en) = SB_NONCEBYTES" and "fits M k plain" and "plain \<noteq> []"
  obtains stored where "maybe_encrypt_option_value M en k plain = Some stored" and "stored \<noteq> []"
    and "maybe_decrypt_option_value M k stored = plain"
proof (cases "is_encrypted_option k")
  case False
  then show thesis
    using that [of plain] assms(4) by (simp add: maybe_encrypt_option_value_def maybe_decrypt_option_value_def)
next
  case True
  let ?s = "literal ''00'' @ vc_base64_encode (ma_codec M) (sealed (ma_codec M) (ma_vault M) (en_nonce en) plain)"
  from assms(3) True have f: "utf8_valid plain" "\<not> is_encrypted (ma_codec M) plain" "length (str_chars plain) \<le> ENCRYPT_MAX_LEN"
    by (simp_all add: fits_def)
  have s: "seal_str M en plain ENCRYPT_MAX_LEN = ?s"
    using seal_str_eq [OF assms(4) f(2,3)] by (simp add: PASSWORD_ENC_VERSION_def)
  have ne: "?s \<noteq> []" by (simp add: literal_def)
  have "fst (unseal_str M ?s) = plain"
    using decrypt_marked(2) [OF assms(1,2) can_read_own f(1)] by (simp add: PASSWORD_ENC_VERSION_def)
  with True ne have "maybe_decrypt_option_value M k ?s = plain"
    unfolding maybe_decrypt_option_value_def by presburger
  moreover have "maybe_encrypt_option_value M en k plain = Some ?s"
    using True assms(4) f(3) s ne by (simp add: maybe_encrypt_option_value_def Let_def)
  ultimately show thesis using that ne by blast
qed

text \<open>
  An option that was set is what is read. When the layers above allow it, setting an
  option to a value makes reading it return the value in plain text, whether the option is stored
  encrypted or not. An option that is overridden reads as the override whatever is set. No other
  option changes.
\<close>

lemma option_read_back:
  assumes "vault_laws (ma_codec M)" and "length (en_nonce en) = SB_NONCEBYTES"
    and "fits M k (plaintext_option_value M k v)" and "plaintext_option_value M k v \<noteq> []"
  shows "let st' = set_option_value M L en k v st in
    get_option M L st' k =
      (case sl_overwrite L k of
         Some w \<Rightarrow> maybe_decrypt_option_value M k w
       | None \<Rightarrow> if sl_defaults L k = Some v then maybe_decrypt_option_value M k v
                else plaintext_option_value M k v) \<and>
    (k' \<noteq> k \<longrightarrow> get_option M L st' k' = get_option M L st k')"
proof -
  let ?plain = "plaintext_option_value M k v" and ?opts = "c2_options (se_config2 st)"
  let ?st' = "set_option_value M L en k v st"
  have other: "k' \<noteq> k \<Longrightarrow> get_option M L ?st' k' = get_option M L st k'"
    using set_option_other [of k' k M L en v st] by (auto simp: get_option_def get_or_def split: option.splits)
  consider (over) w where "sl_overwrite L k = Some w"
    | (default) "sl_overwrite L k = None" "sl_defaults L k = Some v"
    | (saved) "is_option_can_save L k v" "sl_overwrite L k = None" "sl_defaults L k \<noteq> Some v"
    by (auto simp: is_option_can_save_def)
  then have "get_option M L ?st' k =
      (case sl_overwrite L k of
         Some w \<Rightarrow> maybe_decrypt_option_value M k w
       | None \<Rightarrow> if sl_defaults L k = Some v then maybe_decrypt_option_value M k v else ?plain)"
  proof cases
    case over
    then show ?thesis by (simp add: get_option_def get_or_def)
  next
    case default
    then have "c2_options (se_config2 ?st') k = None"
      by (auto simp: set_option_value_def is_option_can_save_def Let_def)
    with default show ?thesis by (simp add: get_option_def get_or_def)
  next
    case saved
    obtain stored where enc: "maybe_encrypt_option_value M en k ?plain = Some stored" "stored \<noteq> []"
      and dec: "maybe_decrypt_option_value M k stored = ?plain"
      by (rule maybe_encrypt_fits [OF assms])
    have "\<exists>w. c2_options (se_config2 ?st') k = Some w \<and> maybe_decrypt_option_value M k w = ?plain"
    proof (cases "plaintext_option_from_map M ?opts k = Some ?plain")
      case True
      then have "?st' = st" using saved assms(4) by (simp add: set_option_value_def Let_def)
      with True show ?thesis
        by (auto simp: plaintext_option_from_map_def plaintext_option_value_def split: option.splits if_splits)
    next
      case False
      then have "c2_options (se_config2 ?st') k = Some stored"
        using saved(1) assms(4) enc by (auto simp: set_option_value_def Let_def)
      with dec show ?thesis by simp
    qed
    with saved show ?thesis by (auto simp: get_option_def get_or_def)
  qed
  with other show ?thesis by (simp add: Let_def)
qed

lemma option_read_back_example:
  "get_option toy_machine no_layers
     (set_option_value toy_machine no_layers toy_entropy OPTION_PEER_PAIRING_PASSPHRASE [112] empty_settings)
     OPTION_PEER_PAIRING_PASSPHRASE = [112]"
proof -
  have "vault_laws (ma_codec toy_machine)" using toy_hash_laws by (simp add: hash_laws_def)
  moreover have plain: "plaintext_option_value toy_machine OPTION_PEER_PAIRING_PASSPHRASE [112] = [112]"
    by (simp add: plaintext_option_value_def maybe_decrypt_option_value_def decrypt_str_or_original_def VERSION_LEN_def Let_def)
  moreover have "utf8_chars [112] = Some [112]" by code_simp
  then have "fits toy_machine OPTION_PEER_PAIRING_PASSPHRASE [112]"
    by (simp add: fits_def utf8_valid_def str_chars_def ENCRYPT_MAX_LEN_def is_encrypted_def VERSION_LEN_def)
  ultimately show ?thesis
    using option_read_back [OF _ toy_nonce_length, of toy_machine OPTION_PEER_PAIRING_PASSPHRASE "[112]" no_layers empty_settings]
    by (simp add: Let_def no_layers_def)
qed

end
