(* ===== verification/Transfer_Paths.thy ===== *)
theory Transfer_Paths
  imports Utf8
begin

text \<open>
  File names of a file transfer (\<open>src/fs.rs\<close>): the checks that keep what a peer names inside the
  directory the user chose. Paths are those of a Unix system: a \<open>PathBuf\<close> is its bytes,
  \<open>components\<close> and \<open>join\<close> are those of \<open>std::path\<close>. A path is turned into a place of the file
  system by the walk of the operating system, which follows symbolic links; a place is the list
  of the names from the root that lead to it without a link.
\<close>

section \<open>Paths\<close>

type_synonym path_buf = bytes

datatype path_component = RootDir | CurDir | ParentDir | Normal bytes

definition SLASH :: u8 where "SLASH = 47"
definition DOT :: u8 where "DOT = 46"

text \<open>\<open>str::split\<close> at one character.\<close>

fun split_at :: "u8 \<Rightarrow> bytes \<Rightarrow> bytes list" where
  "split_at c [] = [[]]"
| "split_at c (b # bs) =
     (if b = c then [] # split_at c bs
      else case split_at c bs of [] \<Rightarrow> [[b]] | p # ps \<Rightarrow> (b # p) # ps)"

definition part_components :: "bytes \<Rightarrow> path_component list" where
  "part_components part =
     (if part = [] \<or> part = [DOT] then []
      else if part = [DOT, DOT] then [ParentDir]
      else [Normal part])"

definition path_components :: "path_buf \<Rightarrow> path_component list" where
  "path_components path =
     (case split_at SLASH path of
        [] \<Rightarrow> []
      | p # ps \<Rightarrow>
          (if path \<noteq> [] \<and> hd path = SLASH then [RootDir]
           else if p = [DOT] then [CurDir] else part_components p)
          @ concat (map part_components ps))"

definition path_join :: "path_buf \<Rightarrow> bytes \<Rightarrow> path_buf" where
  "path_join base name =
     (if name \<noteq> [] \<and> hd name = SLASH then name
      else if base = [] \<or> last base = SLASH then base @ name
      else base @ [SLASH] @ name)"

section \<open>Places\<close>

type_synonym node = "bytes list"

text \<open>What is at a place; a symbolic link has the path it stands for.\<close>

datatype node_kind = Missing | Symlink path_buf | OtherNode | Unreadable

text \<open>
  The walk along the components of a path, from the place \<open>cur\<close>. It follows a symbolic link by
  walking along its path, and gives up when it has followed \<open>k\<close> links (\<open>ELOOP\<close>); the second
  result is how many it may still follow. A component that is not a link is taken as it is, so
  a walk over what is missing or no directory is left to the failure of the operation.
\<close>

function walk :: "(node \<Rightarrow> node_kind) \<Rightarrow> nat \<Rightarrow> node \<Rightarrow> path_component list \<Rightarrow> (node \<times> nat) option" where
  "walk kind k cur [] = Some (cur, k)"
| "walk kind k cur (RootDir # cs) = walk kind k [] cs"
| "walk kind k cur (CurDir # cs) = walk kind k cur cs"
| "walk kind k cur (ParentDir # cs) = walk kind k (butlast cur) cs"
| "walk kind k cur (Normal s # cs) =
     (case kind (cur @ [s]) of
        Symlink target \<Rightarrow>
          (case k of 0 \<Rightarrow> None | Suc k' \<Rightarrow> walk kind k' cur (path_components target @ cs))
      | _ \<Rightarrow> walk kind k (cur @ [s]) cs)"
  by pat_completeness auto
termination
  by (relation "measures [\<lambda>(kind, k, cur, cs). k, \<lambda>(kind, k, cur, cs). length cs]") auto

definition MAX_SYMLINKS :: nat where "MAX_SYMLINKS = 40"

text \<open>The place of a path with every link followed. The empty path has none.\<close>

definition follow_path :: "(node \<Rightarrow> node_kind) \<Rightarrow> node \<Rightarrow> path_component list \<Rightarrow> node option" where
  "follow_path kind cwd cs = (if cs = [] then None else map_option fst (walk kind MAX_SYMLINKS cwd cs))"

text \<open>The place of the entry \<open>s\<close> of a directory, be it a link or not.\<close>

definition entry_in :: "(node \<Rightarrow> node_kind) \<Rightarrow> node \<Rightarrow> path_component list \<Rightarrow> bytes \<Rightarrow> node option" where
  "entry_in kind cwd parent s = map_option (\<lambda>(d, k). d @ [s]) (walk kind MAX_SYMLINKS cwd parent)"

section \<open>Checks\<close>

datatype path_error =
    NullBytes | PathTraversal | AbsolutePath | EmptyName | SymlinkComponent | ComponentUnreadable
  | InvalidComponent

definition validate_file_name_no_traversal :: "rust_str \<Rightarrow> path_error + unit" where
  "validate_file_name_no_traversal name =
     (if list_ex (\<lambda>b. b = 0) name then Inl NullBytes
      else if list_ex (\<lambda>s. s = [DOT, DOT]) (filter (\<lambda>s. s \<noteq> []) (split_at SLASH name)) then Inl PathTraversal
      else if name \<noteq> [] \<and> hd name = SLASH then Inl AbsolutePath
      else Inr ())"

record file_entry =
  fe_name :: rust_str
  fe_size :: u64
  fe_modified_time :: u64

fun validate_each_name :: "file_entry list \<Rightarrow> path_error + unit" where
  "validate_each_name [] = Inr ()"
| "validate_each_name (file # files) =
     (if fe_name file = [] then Inl EmptyName
      else case validate_file_name_no_traversal (fe_name file) of
        Inl e \<Rightarrow> Inl e
      | Inr _ \<Rightarrow> validate_each_name files)"

definition validate_transfer_file_names :: "file_entry list \<Rightarrow> path_error + unit" where
  "validate_transfer_file_names files =
     (if length files = 1 \<and> fe_name (hd files) = [] then Inr () else validate_each_name files)"

definition validate_fs_path_argument :: "rust_str \<Rightarrow> path_error + unit" where
  "validate_fs_path_argument path =
     (if path = [] then Inl EmptyName
      else if list_ex (\<lambda>b. b = 0) path then Inl NullBytes
      else Inr ())"

text \<open>The loop over the components of the name; \<open>current\<close> is the path so far and \<open>kind\<close> what
  \<open>symlink_metadata\<close> says of a path.\<close>

fun no_symlinks ::
    "(path_component list \<Rightarrow> node_kind) \<Rightarrow> path_component list \<Rightarrow> path_component list \<Rightarrow> path_error + unit" where
  "no_symlinks kind current [] = Inr ()"
| "no_symlinks kind current (Normal seg # rest) =
     (let next_path = current @ [Normal seg] in
      case kind next_path of
        Symlink _ \<Rightarrow> Inl SymlinkComponent
      | Unreadable \<Rightarrow> Inl ComponentUnreadable
      | _ \<Rightarrow> no_symlinks kind next_path rest)"
| "no_symlinks kind current (CurDir # rest) = no_symlinks kind current rest"
| "no_symlinks kind current (RootDir # rest) = Inl InvalidComponent"
| "no_symlinks kind current (ParentDir # rest) = Inl InvalidComponent"

definition validate_no_symlink_components ::
    "(path_component list \<Rightarrow> node_kind) \<Rightarrow> path_buf \<Rightarrow> rust_str \<Rightarrow> path_error + unit" where
  "validate_no_symlink_components kind base name =
     (if name = [] then Inr () else no_symlinks kind (path_components base) (path_components name))"

definition job_join :: "path_buf \<Rightarrow> rust_str \<Rightarrow> path_buf" where
  "job_join p name = (if name = [] then p else path_join p name)"

definition join_validated_path ::
    "(path_component list \<Rightarrow> node_kind) \<Rightarrow> path_buf \<Rightarrow> rust_str \<Rightarrow> path_error + path_buf" where
  "join_validated_path kind base name =
     (case validate_file_name_no_traversal name of
        Inl e \<Rightarrow> Inl e
      | Inr _ \<Rightarrow>
        (case validate_no_symlink_components kind base name of
           Inl e \<Rightarrow> Inl e
         | Inr _ \<Rightarrow> Inr (job_join base name)))"

section \<open>Compressed files\<close>

text \<open>\<open>name.rfind('.')\<close> and what follows it.\<close>

definition get_ext :: "rust_str \<Rightarrow> rust_str" where
  "get_ext name = (case split_at DOT name of [_] \<Rightarrow> [] | parts \<Rightarrow> last parts)"

definition compressed_exts :: "rust_str list" where
  "compressed_exts =
     map (map of_char) [''xz'', ''gz'', ''zip'', ''7z'', ''rar'', ''bz2'', ''tgz'', ''png'', ''jpg'']"

definition is_compressed_file :: "rust_str \<Rightarrow> bool" where
  "is_compressed_file name \<longleftrightarrow> get_ext name \<in> set compressed_exts"

section \<open>Containment\<close>

lemma split_at_not_Nil [simp]: "split_at c bs \<noteq> []"
  by (induction bs) (auto split: list.splits)

lemma split_at_append_sep: "split_at c (xs @ c # ys) = split_at c xs @ split_at c ys"
  by (induction xs) (auto split: list.splits)

lemma split_at_append:
  "c \<notin> set ys \<Longrightarrow> split_at c (xs @ ys) = butlast (split_at c xs) @ [last (split_at c xs) @ ys]"
proof (induction xs)
  case Nil
  then have "split_at c ys = [ys]" by (induction ys) auto
  then show ?case by simp
next
  case (Cons x xs)
  then show ?case
    using split_at_not_Nil [of c xs] by (cases "split_at c xs") (auto split: list.splits)
qed

lemma split_at_hd_slash: "hd (split_at c bs) = [] \<longleftrightarrow> bs = [] \<or> hd bs = c"
  by (cases bs) (auto split: list.splits)

text \<open>A name that was accepted has ordinary components only, besides a leading dot.\<close>

definition normal_parts :: "bytes \<Rightarrow> bytes list" where
  "normal_parts name = filter (\<lambda>s. s \<noteq> [] \<and> s \<noteq> [DOT]) (split_at SLASH name)"

lemma accepted_parts:
  assumes "validate_file_name_no_traversal name = Inr ()"
  shows "concat (map part_components (split_at SLASH name)) = map Normal (normal_parts name)"
proof -
  have no_dots: "\<forall>s \<in> set (split_at SLASH name). s \<noteq> [DOT, DOT]"
    using assms by (auto simp: validate_file_name_no_traversal_def list_ex_iff split: if_splits)
  have "concat (map part_components ps) = map Normal (filter (\<lambda>s. s \<noteq> [] \<and> s \<noteq> [DOT]) ps)"
    if "\<forall>s \<in> set ps. s \<noteq> [DOT, DOT]" for ps
    using that by (induction ps) (auto simp: part_components_def)
  from this [OF no_dots] show ?thesis by (simp add: normal_parts_def)
qed

lemma accepted_relative: "validate_file_name_no_traversal name = Inr () \<Longrightarrow> name = [] \<or> hd name \<noteq> SLASH"
  by (auto simp: validate_file_name_no_traversal_def split: if_splits)

lemma components_append_slash:
  assumes "base \<noteq> []"
  shows "path_components (base @ SLASH # name) = path_components base @ concat (map part_components (split_at SLASH name))"
proof -
  obtain p ps where p: "split_at SLASH base = p # ps" by (meson list.exhaust split_at_not_Nil)
  with assms show ?thesis by (simp add: path_components_def split_at_append_sep)
qed

text \<open>A path joined from a base and an accepted name lies below the base.\<close>

lemma joined_components:
  assumes "base \<noteq> []" and "validate_file_name_no_traversal name = Inr ()"
  shows "path_components (path_join base name) = path_components base @ map Normal (normal_parts name)"
proof (cases "last base = SLASH")
  case False
  with assms(1) accepted_relative [OF assms(2)] have "path_join base name = base @ SLASH # name"
    by (auto simp: path_join_def)
  then show ?thesis using components_append_slash [OF assms(1)] accepted_parts [OF assms(2)] by simp
next
  case True
  with assms(1) obtain b where b: "base = b @ [SLASH]" by (metis append_butlast_last_id)
  have join: "path_join base name = b @ SLASH # name"
    using accepted_relative [OF assms(2)] True b by (auto simp: path_join_def)
  show ?thesis
  proof (cases "b = []")
    case True
    then show ?thesis using b join accepted_parts [OF assms(2)] by (simp add: path_components_def part_components_def)
  next
    case False
    then show ?thesis
      using b join components_append_slash [OF False, of name] components_append_slash [OF False, of "[]"]
        accepted_parts [OF assms(2)] by (simp add: part_components_def)
  qed
qed

text \<open>Appending an extension keeps a name acceptable.\<close>

lemma extension_accepted:
  assumes "validate_file_name_no_traversal name = Inr ()" and "name \<noteq> []"
    and "SLASH \<notin> set ext" and "0 \<notin> set ext" and "length ext > 2"
  shows "validate_file_name_no_traversal (name @ ext) = Inr ()"
proof -
  have "s \<noteq> [DOT, DOT]" if "s \<in> set (split_at SLASH (name @ ext))" for s
  proof -
    from that have "s \<in> set (butlast (split_at SLASH name)) \<or> s = last (split_at SLASH name) @ ext"
      using split_at_append [OF assms(3)] by auto
    then show ?thesis
    proof
      assume "s \<in> set (butlast (split_at SLASH name))"
      then have "s \<in> set (split_at SLASH name)" by (rule in_set_butlastD)
      then show ?thesis
        using assms(1) by (auto simp: validate_file_name_no_traversal_def list_ex_iff split: if_splits)
    next
      assume "s = last (split_at SLASH name) @ ext"
      then have "length s > 2" using assms(5) by simp
      then show ?thesis by auto
    qed
  qed
  then show ?thesis
    using assms(1,2,4) by (auto simp: validate_file_name_no_traversal_def list_ex_iff split: if_splits)
qed

text \<open>Walking along a path that goes on.\<close>

lemma walk_append:
  "walk kind k cur (xs @ ys) =
     (case walk kind k cur xs of None \<Rightarrow> None | Some (d, k') \<Rightarrow> walk kind k' d ys)"
  by (induction kind k cur xs rule: walk.induct) (auto split: node_kind.splits nat.splits)

lemma components_Nil [simp]: "path_components path = [] \<longleftrightarrow> path = []"
proof (cases path)
  case (Cons b bs)
  then show ?thesis
    using split_at_hd_slash [of SLASH path]
    by (auto simp: path_components_def part_components_def split: list.splits)
qed (simp add: path_components_def part_components_def)

text \<open>The components of a name that was accepted.\<close>

lemma accepted_components:
  assumes "validate_file_name_no_traversal name = Inr ()" and "name \<noteq> []"
  shows "path_components name = map Normal (normal_parts name) \<or>
    path_components name = CurDir # map Normal (normal_parts name)"
proof -
  obtain p ps where p: "split_at SLASH name = p # ps" by (meson list.exhaust split_at_not_Nil)
  have "hd name \<noteq> SLASH" using accepted_relative [OF assms(1)] assms(2) by simp
  with p assms(2) accepted_parts [OF assms(1)] show ?thesis
    by (cases "p = [DOT]") (simp_all add: path_components_def part_components_def)
qed

lemma joined_last_part:
  assumes "base \<noteq> []" and "name = [] \<or> hd name \<noteq> SLASH"
  shows "last (split_at SLASH (path_join base name)) = last (split_at SLASH name)"
proof -
  obtain pre where "path_join base name = pre @ SLASH # name"
  proof (cases "last base = SLASH")
    case True
    then have "path_join base name = butlast base @ SLASH # name"
      using assms append_butlast_last_id [OF assms(1)] by (auto simp: path_join_def)
    then show thesis by (rule that)
  next
    case False
    then have "path_join base name = base @ SLASH # name" using assms by (auto simp: path_join_def)
    then show thesis by (rule that)
  qed
  then show ?thesis by (simp add: split_at_append_sep)
qed

text \<open>The parts of a name that lead to its last one.\<close>

definition plain_part :: "bytes \<Rightarrow> bool" where
  "plain_part s \<longleftrightarrow> s \<noteq> [] \<and> s \<noteq> [DOT] \<and> s \<noteq> [DOT, DOT]"

definition leading_parts :: "bytes \<Rightarrow> bytes list" where
  "leading_parts name = filter (\<lambda>s. s \<noteq> [] \<and> s \<noteq> [DOT]) (butlast (split_at SLASH name))"

lemma normal_parts_leading:
  "normal_parts name = leading_parts name @ filter (\<lambda>s. s \<noteq> [] \<and> s \<noteq> [DOT]) [last (split_at SLASH name)]"
  using append_butlast_last_id [OF split_at_not_Nil, of SLASH name]
  unfolding normal_parts_def leading_parts_def by (metis filter_append)

lemma leading_parts_extension:
  "SLASH \<notin> set ext \<Longrightarrow> leading_parts (name @ ext) = leading_parts name"
  by (simp add: leading_parts_def split_at_append)

lemma last_part_extension:
  "SLASH \<notin> set ext \<Longrightarrow> last (split_at SLASH (name @ ext)) = last (split_at SLASH name) @ ext"
  by (simp add: split_at_append)

end
