(* ===== verification/Transfer_Job.thy ===== *)
theory Transfer_Job
  imports Transfer_Paths
begin

text \<open>
  Transfer jobs (\<open>TransferJob\<close> of \<open>src/fs.rs\<close>): the sender reads the files of a job in blocks and
  the receiver writes them next to their destination and renames them when they are complete.

  The file system is a map from places to the contents of regular files. \<open>fs_env\<close> says, for one
  call, what the operating system does: the working directory, what is at each place and where
  the symbolic links lead when the call begins, how many bytes a read returns, the times of files,
  and which operations fail. So links may change between calls, also those that a call itself
  renames or removes, but not between the check of a call and its use. Directories are not in the
  map: creating them is left out, and one in the place of a file makes the operation fail. Nor are
  the times that \<open>modify_time\<close> sets. An open file is known by the place it is at. zstd and the JSON of
  a digest are parameters (\<open>transfer_codec\<close>). Sums of sizes wrap as in a release build.
\<close>

section \<open>Data\<close>

type_synonym file_tree = "node \<rightharpoonup> bytes"

datatype job_type = Generic | Printer

definition job_type_from_i32 :: "i32 \<Rightarrow> job_type" where
  "job_type_from_i32 v = (if v = 1 then Printer else Generic)"

datatype data_source = FilePath path_buf | MemoryCursor bytes

text \<open>A stream is a file, open for reading or for writing, or a buffer, with its position.\<close>

datatype file_mode = ReadMode | WriteMode

datatype data_stream = FileStream file_mode node nat | BufStream bytes nat

record transfer_codec =
  tc_compress :: "bytes \<Rightarrow> bytes"
  tc_decode :: "bytes \<Rightarrow> bytes option"
  tc_digest_json :: "u64 \<Rightarrow> u64 \<Rightarrow> bytes"

record fs_env =
  fx_cwd :: node
  fx_kind :: "node \<Rightarrow> node_kind"
  fx_read :: "nat \<Rightarrow> nat \<Rightarrow> nat \<Rightarrow> nat option"
  fx_modified :: "node \<Rightarrow> u64 option"
  fx_open :: bool
  fx_sync :: bool
  fx_remove :: bool
  fx_create :: bool
  fx_write_digest :: bool
  fx_rename :: bool
  fx_seek :: bool
  fx_write :: "nat option"

record transfer_job =
  tj_id :: i32
  tj_type :: job_type
  tj_data_source :: data_source
  tj_show_hidden :: bool
  tj_is_remote :: bool
  tj_is_last_job :: bool
  tj_is_resume :: bool
  tj_file_num :: i32
  tj_files :: "file_entry list"
  tj_data_stream :: "data_stream option"
  tj_total_size :: u64
  tj_finished_size :: u64
  tj_transferred :: u64
  tj_enable_overwrite_detection :: bool
  tj_file_confirmed :: bool
  tj_file_skipped :: bool
  tj_file_is_waiting :: bool
  tj_default_overwrite_strategy :: "bool option"
  tj_digest :: "u64 \<times> u64"

record file_block =
  fb_id :: i32
  fb_file_num :: i32
  fb_data :: bytes
  fb_compressed :: bool

datatype fs_error =
    InvalidPath | WrongId | WrongFileNumber | BadPath path_error | FileIo | DataStreamNone | DecompressFailed
  | NoDigestForBuf

text \<open>\<open>i32 as usize\<close>: the sign is extended.\<close>

definition as_usize :: "i32 \<Rightarrow> usize" where
  "as_usize n = unat (scast n :: u64)"

definition sum_sizes :: "file_entry list \<Rightarrow> u64" where
  "sum_sizes files = sum_list (map fe_size files)"

section \<open>Paths of the system\<close>

text \<open>Opening a path follows every link; removing, renaming and \<open>symlink_metadata\<close> do not follow the
  last component, unless the path ends in a slash or in dots.\<close>

definition target_of :: "fs_env \<Rightarrow> path_buf \<Rightarrow> node option" where
  "target_of env path = follow_path (fx_kind env) (fx_cwd env) (path_components path)"

definition entry_of :: "fs_env \<Rightarrow> path_buf \<Rightarrow> node option" where
  "entry_of env path =
     (let s = last (split_at SLASH path) in
      if plain_part s then entry_in (fx_kind env) (fx_cwd env) (butlast (path_components path)) s
      else target_of env path)"

definition metadata_kind :: "fs_env \<Rightarrow> path_component list \<Rightarrow> node_kind" where
  "metadata_kind env cs =
     (case (case rev cs of
              Normal s # parent \<Rightarrow> entry_in (fx_kind env) (fx_cwd env) (rev parent) s
            | _ \<Rightarrow> follow_path (fx_kind env) (fx_cwd env) cs) of
        None \<Rightarrow> Unreadable
      | Some n \<Rightarrow> fx_kind env n)"

text \<open>A path that is not a string becomes the empty one.\<close>

definition get_string :: "path_buf \<Rightarrow> rust_str" where
  "get_string path = (if utf8_valid path then path else [])"

definition path_exists :: "fs_env \<Rightarrow> path_buf \<Rightarrow> file_tree \<Rightarrow> bool" where
  "path_exists env path tree \<longleftrightarrow> (case target_of env path of None \<Rightarrow> False | Some n \<Rightarrow> tree n \<noteq> None)"

definition remove_file :: "fs_env \<Rightarrow> path_buf \<Rightarrow> file_tree \<Rightarrow> file_tree" where
  "remove_file env path tree =
     (case entry_of env path of
        None \<Rightarrow> tree
      | Some n \<Rightarrow> if fx_remove env then tree else tree(n := None))"

text \<open>An open file stays open when it is renamed. Renaming a link leaves a link in the new place.\<close>

definition moved :: "node \<Rightarrow> node \<Rightarrow> data_stream \<Rightarrow> data_stream" where
  "moved m n stream =
     (case stream of
        FileStream mode l pos \<Rightarrow> FileStream mode (if l = m then n else l) pos
      | BufStream _ _ \<Rightarrow> stream)"

definition rename_file ::
    "fs_env \<Rightarrow> path_buf \<Rightarrow> path_buf \<Rightarrow> data_stream option \<Rightarrow> file_tree \<Rightarrow> data_stream option \<times> file_tree" where
  "rename_file env from dest stream tree =
     (case (entry_of env from, entry_of env dest) of
        (Some m, Some n) \<Rightarrow>
          if fx_rename env then (stream, tree)
          else (case fx_kind env m of
                  Symlink _ \<Rightarrow> (stream, tree(n := None))
                | _ \<Rightarrow>
                  (case tree m of
                     None \<Rightarrow> (stream, tree)
                   | Some content \<Rightarrow> (map_option (moved m n) stream, (tree(m := None))(n \<mapsto> content))))
      | _ \<Rightarrow> (stream, tree))"

section \<open>Creating a job\<close>

definition new_write :: "i32 \<Rightarrow> job_type \<Rightarrow> data_source \<Rightarrow> i32 \<Rightarrow> bool \<Rightarrow> bool \<Rightarrow> bool \<Rightarrow> transfer_job" where
  "new_write id' ty source file_num show_hidden is_remote detect =
     \<lparr>tj_id = id', tj_type = ty, tj_data_source = source, tj_show_hidden = show_hidden,
      tj_is_remote = is_remote, tj_is_last_job = False, tj_is_resume = False, tj_file_num = file_num,
      tj_files = [], tj_data_stream = None, tj_total_size = 0, tj_finished_size = 0, tj_transferred = 0,
      tj_enable_overwrite_detection = detect, tj_file_confirmed = False, tj_file_skipped = False,
      tj_file_is_waiting = False, tj_default_overwrite_strategy = None, tj_digest = (0, 0)\<rparr>"

text \<open>\<open>listed\<close> is the result of \<open>get_recursive_files\<close> on the path, which has to be a string.\<close>

definition new_read ::
    "i32 \<Rightarrow> job_type \<Rightarrow> data_source \<Rightarrow> i32 \<Rightarrow> bool \<Rightarrow> bool \<Rightarrow> bool \<Rightarrow> file_entry list option
     \<Rightarrow> fs_error + transfer_job" where
  "new_read id' ty source file_num show_hidden is_remote detect listed =
     (case source of
        FilePath p \<Rightarrow>
          if \<not> utf8_valid p then Inl InvalidPath
          else
          (case listed of
             None \<Rightarrow> Inl FileIo
           | Some files \<Rightarrow>
               Inr ((new_write id' ty source file_num show_hidden is_remote detect)
                 \<lparr>tj_files := files, tj_total_size := sum_sizes files\<rparr>))
      | MemoryCursor c \<Rightarrow>
          Inr ((new_write id' ty source file_num show_hidden is_remote detect)
                 \<lparr>tj_total_size := of_nat (length c)\<rparr>))"

fun check_symlinks :: "fs_env \<Rightarrow> path_buf \<Rightarrow> file_entry list \<Rightarrow> path_error + unit" where
  "check_symlinks env base [] = Inr ()"
| "check_symlinks env base (file # files) =
     (case validate_no_symlink_components (metadata_kind env) base (fe_name file) of
        Inl e \<Rightarrow> Inl e
      | Inr _ \<Rightarrow> check_symlinks env base files)"

definition set_files :: "fs_env \<Rightarrow> file_entry list \<Rightarrow> transfer_job \<Rightarrow> transfer_job \<times> (fs_error + unit)" where
  "set_files env files job =
     (case validate_transfer_file_names files of
        Inl e \<Rightarrow> (job, Inl (BadPath e))
      | Inr _ \<Rightarrow>
        (case (case tj_data_source job of
                 FilePath base \<Rightarrow> check_symlinks env base files
               | MemoryCursor _ \<Rightarrow> Inr ()) of
           Inl e \<Rightarrow> (job, Inl (BadPath e))
         | Inr _ \<Rightarrow> (job\<lparr>tj_total_size := sum_sizes files, tj_files := files\<rparr>, Inr ())))"

definition set_finished_size_on_resume :: "transfer_job \<Rightarrow> transfer_job" where
  "set_finished_size_on_resume job =
     (if tj_is_resume job \<and> sint (tj_file_num job) > 0
      then job\<lparr>tj_finished_size := sum_sizes (take (as_usize (tj_file_num job)) (tj_files job))\<rparr>
      else job)"

section \<open>Writing\<close>

definition DOWNLOAD_EXT :: bytes where "DOWNLOAD_EXT = map of_char ''.download''"
definition DIGEST_EXT :: bytes where "DIGEST_EXT = map of_char ''.digest''"

definition resolve_entry_path :: "fs_env \<Rightarrow> transfer_job \<Rightarrow> path_buf \<Rightarrow> rust_str \<Rightarrow> path_buf option" where
  "resolve_entry_path env job base name =
     (if tj_type job = Generic
      then (case join_validated_path (metadata_kind env) base name of Inl _ \<Rightarrow> None | Inr path \<Rightarrow> Some path)
      else Some (job_join base name))"

text \<open>The current file becomes complete.\<close>

definition modify_time :: "fs_env \<Rightarrow> transfer_job \<Rightarrow> file_tree \<Rightarrow> transfer_job \<times> file_tree" where
  "modify_time env job tree =
     (if tj_type job = Printer then (job, tree)
      else case tj_data_source job of
        MemoryCursor _ \<Rightarrow> (job, tree)
      | FilePath p \<Rightarrow>
        if as_usize (tj_file_num job) < length (tj_files job) then
          (case resolve_entry_path env job p (fe_name (tj_files job ! as_usize (tj_file_num job))) of
             None \<Rightarrow> (job, tree)
           | Some path \<Rightarrow>
             (let download_path = get_string path @ DOWNLOAD_EXT;
                  digest_path = get_string path @ DIGEST_EXT;
                  tree1 = remove_file env digest_path tree;
                  (stream, tree2) = rename_file env download_path path (tj_data_stream job) tree1 in
              (job\<lparr>tj_data_stream := stream\<rparr>, tree2)))
        else (job, tree))"

definition remove_download_file :: "fs_env \<Rightarrow> transfer_job \<Rightarrow> file_tree \<Rightarrow> file_tree" where
  "remove_download_file env job tree =
     (if tj_type job = Printer then tree
      else case tj_data_source job of
        MemoryCursor _ \<Rightarrow> tree
      | FilePath p \<Rightarrow>
        if as_usize (tj_file_num job) < length (tj_files job) then
          (case resolve_entry_path env job p (fe_name (tj_files job ! as_usize (tj_file_num job))) of
             None \<Rightarrow> tree
           | Some path \<Rightarrow>
             (let download_path = get_string path @ DOWNLOAD_EXT;
                  digest_path = get_string path @ DIGEST_EXT in
              remove_file env digest_path (remove_file env download_path tree)))
        else tree)"

definition FILE_BLOCK_DECOMPRESS_MAX_LEN :: usize where "FILE_BLOCK_DECOMPRESS_MAX_LEN = 128 * 1024"

definition decompress_limited :: "transfer_codec \<Rightarrow> bytes \<Rightarrow> usize \<Rightarrow> bytes option" where
  "decompress_limited K data max_len =
     (case tc_decode K data of
        None \<Rightarrow> None
      | Some output \<Rightarrow> if length output > max_len then None else Some output)"

text \<open>\<open>write_all\<close> at a position, after a hole if the position is beyond the end.\<close>

definition write_at :: "bytes \<Rightarrow> nat \<Rightarrow> bytes \<Rightarrow> bytes" where
  "write_at content pos buf =
     (let padded = content @ replicate (pos - length content) 0 in
      take pos padded @ buf @ drop (pos + length buf) padded)"

text \<open>The writes of a file are carried out behind the caller, so one to a file that is open for reading
  need not fail at once; it writes nothing.\<close>

definition stream_write :: "fs_env \<Rightarrow> data_stream \<Rightarrow> bytes \<Rightarrow> file_tree \<Rightarrow> data_stream \<times> file_tree \<times> (fs_error + unit)" where
  "stream_write env stream buf tree =
     (case stream of
        BufStream content pos \<Rightarrow> (BufStream (write_at content pos buf) (pos + length buf), tree, Inr ())
      | FileStream ReadMode n pos \<Rightarrow> (stream, tree, if fx_write env = None then Inr () else Inl FileIo)
      | FileStream WriteMode n pos \<Rightarrow>
          (let done = (case fx_write env of None \<Rightarrow> buf | Some k \<Rightarrow> take k buf);
               content = (case tree n of None \<Rightarrow> [] | Some c \<Rightarrow> c) in
           (FileStream WriteMode n (pos + length done),
            (if tree n = None then tree else tree(n \<mapsto> write_at content pos done)),
            (if fx_write env = None then Inr () else Inl FileIo))))"

text \<open>The digest is written into a fresh file when the old one was just removed, and through a link
  otherwise. A failure is ignored.\<close>

definition write_digest :: "transfer_codec \<Rightarrow> fs_env \<Rightarrow> node option \<Rightarrow> transfer_job \<Rightarrow> file_tree \<Rightarrow> file_tree" where
  "write_digest K env place job tree =
     (case place of
        None \<Rightarrow> tree
      | Some n \<Rightarrow>
          if fx_write_digest env then tree
          else tree(n \<mapsto> tc_digest_json K (fst (tj_digest job)) (snd (tj_digest job))))"

text \<open>The first part of \<open>write\<close>: switching to the block's file.\<close>

definition open_for_block ::
    "transfer_codec \<Rightarrow> fs_env \<Rightarrow> path_buf \<Rightarrow> i32 \<Rightarrow> transfer_job \<Rightarrow> file_tree
     \<Rightarrow> transfer_job \<times> file_tree \<times> (fs_error + unit)" where
  "open_for_block K env p file_num job tree =
     (let (job0, tree1) = modify_time env job tree in
      if fx_sync env \<and> (case tj_data_stream job0 of Some (FileStream _ _ _) \<Rightarrow> True | _ \<Rightarrow> False)
        then (job0, tree1, Inl FileIo)
      else
        (let job1 = job0\<lparr>tj_file_num := file_num\<rparr>;
             name = fe_name (tj_files job ! as_usize file_num) in
         case (if tj_type job = Printer then Inr (from_utf8_lossy p, None)
               else case join_validated_path (metadata_kind env) p name of
                 Inl e \<Rightarrow> Inl e
               | Inr path \<Rightarrow>
                   (let file_path = get_string path in
                    Inr (file_path @ DOWNLOAD_EXT, Some (file_path @ DIGEST_EXT)))) of
           Inl e \<Rightarrow> (job1, tree1, Inl (BadPath e))
         | Inr (path, digest_path) \<Rightarrow>
           (let present = (case digest_path of None \<Rightarrow> False | Some dp \<Rightarrow> path_exists env dp tree1) in
            if present \<and> fx_remove env then (job1, tree1, Inl FileIo)
            else
              (let tree2 = (case digest_path of None \<Rightarrow> tree1
                            | Some dp \<Rightarrow> if present then remove_file env dp tree1 else tree1) in
               case target_of env path of
                 None \<Rightarrow> (job1, tree2, Inl FileIo)
               | Some n \<Rightarrow>
                 if fx_create env then (job1, tree2, Inl FileIo)
                 else
                   (let tree3 = tree2(n \<mapsto> []);
                        tree4 = (case digest_path of None \<Rightarrow> tree3
                                 | Some dp \<Rightarrow>
                                     write_digest K env (if present then entry_of env dp else target_of env dp) job tree3) in
                    (job1\<lparr>tj_data_stream := Some (FileStream WriteMode n 0)\<rparr>, tree4, Inr ()))))))"

definition write_block_data ::
    "transfer_codec \<Rightarrow> fs_env \<Rightarrow> file_block \<Rightarrow> transfer_job \<Rightarrow> file_tree
     \<Rightarrow> transfer_job \<times> file_tree \<times> (fs_error + unit)" where
  "write_block_data K env block job tree =
     (case (if fb_compressed block then decompress_limited K (fb_data block) FILE_BLOCK_DECOMPRESS_MAX_LEN
            else Some (fb_data block)) of
        None \<Rightarrow> (job, tree, Inl DecompressFailed)
      | Some buf \<Rightarrow>
        (case tj_data_stream job of
           None \<Rightarrow> (job, tree, Inl DataStreamNone)
         | Some stream \<Rightarrow>
           (case stream_write env stream buf tree of
              (stream', tree', Inl e) \<Rightarrow> (job\<lparr>tj_data_stream := Some stream'\<rparr>, tree', Inl e)
            | (stream', tree', Inr _) \<Rightarrow>
                (job\<lparr>tj_data_stream := Some stream',
                     tj_finished_size := tj_finished_size job + of_nat (length buf),
                     tj_transferred := tj_transferred job + of_nat (length (fb_data block))\<rparr>, tree', Inr ()))))"

definition job_write ::
    "transfer_codec \<Rightarrow> fs_env \<Rightarrow> file_block \<Rightarrow> transfer_job \<Rightarrow> file_tree
     \<Rightarrow> transfer_job \<times> file_tree \<times> (fs_error + unit)" where
  "job_write K env block job tree =
     (if fb_id block \<noteq> tj_id job then (job, tree, Inl WrongId)
      else case tj_data_source job of
        FilePath p \<Rightarrow>
          if as_usize (fb_file_num block) \<ge> length (tj_files job) then (job, tree, Inl WrongFileNumber)
          else if as_usize (fb_file_num block) \<noteq> as_usize (tj_file_num job) \<or> tj_data_stream job = None then
            (case open_for_block K env p (fb_file_num block) job tree of
               (job1, tree1, Inl e) \<Rightarrow> (job1, tree1, Inl e)
             | (job1, tree1, Inr _) \<Rightarrow> write_block_data K env block job1 tree1)
          else write_block_data K env block job tree
      | MemoryCursor c \<Rightarrow>
          write_block_data K env block
            (if tj_data_stream job = None then job\<lparr>tj_data_stream := Some (BufStream c 0)\<rparr> else job) tree)"

definition get_buf_data :: "transfer_job \<Rightarrow> bytes option" where
  "get_buf_data job = (case tj_data_stream job of Some (BufStream content _) \<Rightarrow> Some content | _ \<Rightarrow> None)"

section \<open>Reading\<close>

definition next_file :: "transfer_job \<Rightarrow> transfer_job" where
  "next_file job = job\<lparr>tj_file_num := tj_file_num job + 1, tj_file_confirmed := False, tj_file_is_waiting := False\<rparr>"

text \<open>The flag is whether the job is done.\<close>

definition open_data_stream :: "fs_env \<Rightarrow> transfer_job \<Rightarrow> file_tree \<Rightarrow> transfer_job \<times> (fs_error + bool)" where
  "open_data_stream env job tree =
     (case tj_data_source job of
        FilePath p \<Rightarrow>
          if as_usize (tj_file_num job) \<ge> length (tj_files job) then (job\<lparr>tj_data_stream := None\<rparr>, Inr True)
          else if tj_data_stream job = None then
            (case target_of env (job_join p (fe_name (tj_files job ! as_usize (tj_file_num job)))) of
               None \<Rightarrow> (next_file job, Inl FileIo)
             | Some n \<Rightarrow>
               if tree n = None \<or> fx_open env then (next_file job, Inl FileIo)
               else (job\<lparr>tj_data_stream := Some (FileStream ReadMode n 0), tj_file_confirmed := False,
                         tj_file_is_waiting := False\<rparr>, Inr False))
          else (job, Inr False)
      | MemoryCursor c \<Rightarrow>
          if tj_data_stream job = None
          then (job\<lparr>tj_data_source := MemoryCursor [], tj_data_stream := Some (BufStream c 0)\<rparr>, Inr False)
          else (job, Inr False))"

text \<open>The time and size of the open file.\<close>

definition get_current_digest :: "fs_env \<Rightarrow> transfer_job \<Rightarrow> file_tree \<Rightarrow> fs_error + u64 \<times> u64" where
  "get_current_digest env job tree =
     (case tj_data_stream job of
        None \<Rightarrow> Inl DataStreamNone
      | Some (BufStream _ _) \<Rightarrow> Inl NoDigestForBuf
      | Some (FileStream _ n _) \<Rightarrow>
        (case (fx_modified env n, tree n) of
           (Some t, Some content) \<Rightarrow> Inr (t, of_nat (length content))
         | _ \<Rightarrow> Inl FileIo))"

definition init_data_stream_for_cm ::
    "fs_env \<Rightarrow> transfer_job \<Rightarrow> file_tree \<Rightarrow> transfer_job \<times> (fs_error + (u64 \<times> u64) option)" where
  "init_data_stream_for_cm env job tree =
     (case open_data_stream env job tree of
        (job1, Inl e) \<Rightarrow> (job1, Inl e)
      | (job1, Inr True) \<Rightarrow> (job1, Inr None)
      | (job1, Inr False) \<Rightarrow>
        if tj_type job1 = Generic \<and> tj_enable_overwrite_detection job1 \<and> \<not> tj_file_confirmed job1
           \<and> \<not> tj_file_is_waiting job1
        then (case get_current_digest env job1 tree of
                Inl e \<Rightarrow> (job1, Inl e)
              | Inr digest \<Rightarrow> (job1\<lparr>tj_file_is_waiting := True\<rparr>, Inr (Some digest)))
        else (job1, Inr None))"

definition BUF_SIZE :: usize where "BUF_SIZE = 128 * 1024"

definition stream_read :: "fs_env \<Rightarrow> data_stream \<Rightarrow> usize \<Rightarrow> file_tree \<Rightarrow> data_stream \<times> bytes option" where
  "stream_read env stream space tree =
     (case stream of
        FileStream WriteMode n pos \<Rightarrow> (stream, None)
      | FileStream ReadMode n pos \<Rightarrow>
          (let rest = drop pos (case tree n of None \<Rightarrow> [] | Some c \<Rightarrow> c) in
           case fx_read env pos space (length rest) of
             None \<Rightarrow> (stream, None)
           | Some k \<Rightarrow> (let bs = take (min k space) rest in (FileStream ReadMode n (pos + length bs), Some bs)))
      | BufStream content pos \<Rightarrow>
          (let bs = take space (drop pos content) in (BufStream content (pos + length bs), Some bs)))"

text \<open>The loop that fills the buffer.\<close>

function fill_buffer :: "fs_env \<Rightarrow> file_tree \<Rightarrow> data_stream \<Rightarrow> bytes \<Rightarrow> data_stream \<times> bytes option" where
  "fill_buffer env tree stream buf =
     (case stream_read env stream (BUF_SIZE - length buf) tree of
        (stream', None) \<Rightarrow> (stream', None)
      | (stream', Some bs) \<Rightarrow>
          if bs = [] \<or> length buf + length bs \<ge> BUF_SIZE then (stream', Some (buf @ bs))
          else fill_buffer env tree stream' (buf @ bs))"
  by pat_completeness auto
termination
proof (relation "measure (\<lambda>(env, tree, stream, buf). BUF_SIZE - length buf)")
  show "wf (measure (\<lambda>(env, tree, stream, buf). BUF_SIZE - length buf))" by simp
next
  fix env tree stream x stream' y and buf bs :: bytes
  assume "\<not> (bs = [] \<or> length buf + length bs \<ge> BUF_SIZE)"
  then have "length buf + length bs < BUF_SIZE" "0 < length bs" by simp_all
  then have "BUF_SIZE - (length buf + length bs) < BUF_SIZE - length buf" by linarith
  then show "((env, tree, stream', buf @ bs), env, tree, stream, buf) \<in>
      measure (\<lambda>(env, tree, stream, buf). BUF_SIZE - length buf)" by simp
qed

declare fill_buffer.simps [simp del]

definition current_name :: "transfer_job \<Rightarrow> rust_str" where
  "current_name job =
     (case tj_data_source job of
        MemoryCursor _ \<Rightarrow> []
      | FilePath p \<Rightarrow>
          (let name = fe_name (tj_files job ! as_usize (tj_file_num job)) in
           if length (tj_files job) = 1 \<and> name = []
           then (case path_components p of
                   [] \<Rightarrow> []
                 | cs \<Rightarrow> (case last cs of Normal s \<Rightarrow> if utf8_valid s then s else [] | _ \<Rightarrow> []))
           else name))"

definition job_read :: "transfer_codec \<Rightarrow> fs_env \<Rightarrow> transfer_job \<Rightarrow> file_tree \<Rightarrow> transfer_job \<times> (fs_error + file_block option)" where
  "job_read K env job tree =
     (if tj_type job = Generic \<and> tj_enable_overwrite_detection job \<and> \<not> tj_file_confirmed job then (job, Inr None)
      else if (case tj_data_source job of FilePath _ \<Rightarrow> as_usize (tj_file_num job) \<ge> length (tj_files job) | _ \<Rightarrow> False)
        then (job\<lparr>tj_data_stream := None\<rparr>, Inr None)
      else case tj_data_stream job of
        None \<Rightarrow> (job, Inl DataStreamNone)
      | Some stream \<Rightarrow>
        (case fill_buffer env tree stream [] of
           (_, None) \<Rightarrow> ((next_file job)\<lparr>tj_data_stream := None\<rparr>, Inl FileIo)
         | (stream', Some buf) \<Rightarrow>
           (let from_file = (case tj_data_source job of FilePath _ \<Rightarrow> True | MemoryCursor _ \<Rightarrow> False) in
            if buf = [] then
              if \<not> from_file then (job\<lparr>tj_data_stream := None\<rparr>, Inr None)
              else ((next_file job)\<lparr>tj_data_stream := None\<rparr>,
                    Inr (Some \<lparr>fb_id = tj_id job, fb_file_num = of_nat (as_usize (tj_file_num job)), fb_data = [],
                               fb_compressed = False\<rparr>))
            else
              (let packed = tc_compress K buf;
                   compressed = (from_file \<and> \<not> is_compressed_file (current_name job) \<and> length packed < length buf);
                   data = (if compressed then packed else buf) in
               (job\<lparr>tj_data_stream := Some stream',
                    tj_finished_size := tj_finished_size job + of_nat (length buf),
                    tj_transferred := tj_transferred job + of_nat (length data)\<rparr>,
                Inr (Some \<lparr>fb_id = tj_id job, fb_file_num = of_nat (as_usize (tj_file_num job)), fb_data = data,
                           fb_compressed = compressed\<rparr>))))))"

section \<open>Confirmation\<close>

definition set_file_confirmed :: "bool \<Rightarrow> transfer_job \<Rightarrow> transfer_job" where
  "set_file_confirmed v job = job\<lparr>tj_file_confirmed := v, tj_file_skipped := False\<rparr>"

definition set_file_skipped :: "transfer_job \<Rightarrow> transfer_job" where
  "set_file_skipped job =
     (let job1 = set_file_confirmed False (job\<lparr>tj_data_stream := None\<rparr>) in
      job1\<lparr>tj_file_is_waiting := False, tj_file_num := tj_file_num job1 + 1, tj_file_skipped := True\<rparr>)"

definition job_skipped :: "transfer_job \<Rightarrow> bool" where
  "job_skipped job \<longleftrightarrow> tj_file_skipped job \<and> length (tj_files job) = 1"

definition job_completed :: "transfer_job \<Rightarrow> bool" where
  "job_completed job \<longleftrightarrow>
     \<not> tj_enable_overwrite_detection job \<or> (\<not> tj_file_confirmed job \<and> \<not> tj_file_is_waiting job)"

text \<open>\<open>None\<close> is the panic of indexing a file that the job does not have.\<close>

definition set_stream_offset :: "fs_env \<Rightarrow> usize \<Rightarrow> u64 \<Rightarrow> transfer_job \<Rightarrow> file_tree \<Rightarrow> transfer_job option" where
  "set_stream_offset env file_num offset job tree =
     (case tj_data_source job of
        MemoryCursor _ \<Rightarrow> Some job
      | FilePath p \<Rightarrow>
        if file_num \<ge> length (tj_files job) then None
        else Some
        (case resolve_entry_path env job p (fe_name (tj_files job ! file_num)) of
           None \<Rightarrow> job
         | Some path \<Rightarrow>
           (let file_path = get_string path;
                download_path = file_path @ DOWNLOAD_EXT;
                digest_path = file_path @ DIGEST_EXT;
                chosen = (if path_exists env download_path tree \<and> path_exists env digest_path tree
                          then map_option (Pair WriteMode) (target_of env download_path)
                          else if path_exists env file_path tree
                          then map_option (Pair ReadMode) (target_of env file_path)
                          else None) in
            case chosen of
              None \<Rightarrow> job
            | Some (mode, n) \<Rightarrow>
                if fx_open env \<or> fx_seek env then job
                else job\<lparr>tj_data_stream := Some (FileStream mode n (unat offset)),
                         tj_transferred := tj_transferred job + offset,
                         tj_finished_size := tj_finished_size job + offset\<rparr>)))"

datatype confirm_union = ConfirmSkip bool | ConfirmOffset u32 | ConfirmNothing

definition job_confirm :: "fs_env \<Rightarrow> i32 \<Rightarrow> confirm_union \<Rightarrow> transfer_job \<Rightarrow> file_tree \<Rightarrow> transfer_job option" where
  "job_confirm env file_num request job tree =
     (if tj_file_num job \<noteq> file_num then Some job
      else case request of
        ConfirmSkip s \<Rightarrow> Some (if s then set_file_skipped job else set_file_confirmed True job)
      | ConfirmOffset offset \<Rightarrow>
          (let job1 = set_file_confirmed True job in
           if offset > 0 then set_stream_offset env (as_usize file_num) (ucast offset) job1 tree else Some job1)
      | ConfirmNothing \<Rightarrow> Some job)"

section \<open>Lists of jobs\<close>

fun remove_job :: "i32 \<Rightarrow> transfer_job list \<Rightarrow> transfer_job list" where
  "remove_job i [] = []"
| "remove_job i (job # jobs) = (if tj_id job = i then jobs else job # remove_job i jobs)"

definition get_job :: "i32 \<Rightarrow> transfer_job list \<Rightarrow> transfer_job option" where
  "get_job i jobs = find (\<lambda>job. tj_id job = i) jobs"

datatype file_message =
    ErrorMessage i32 fs_error i32
  | SkippedMessage i32 i32
  | BlockMessage file_block
  | DoneMessage i32 i32
  | DigestMessage i32 i32 u64 u64 bool

text \<open>\<open>send\<close> is the stream: its new state and whether the message was taken.\<close>

definition init_data_stream ::
    "('q \<Rightarrow> file_message \<Rightarrow> 'q \<times> bool) \<Rightarrow> fs_env \<Rightarrow> transfer_job \<Rightarrow> file_tree \<Rightarrow> 'q
     \<Rightarrow> transfer_job \<times> 'q \<times> (fs_error + unit)" where
  "init_data_stream send env job tree q =
     (case open_data_stream env job tree of
        (job1, Inl e) \<Rightarrow> (job1, q, Inl e)
      | (job1, Inr True) \<Rightarrow> (job1, q, Inr ())
      | (job1, Inr False) \<Rightarrow>
        if tj_type job1 = Generic \<and> tj_enable_overwrite_detection job1 \<and> \<not> tj_file_confirmed job1
           \<and> \<not> tj_file_is_waiting job1
        then (case get_current_digest env job1 tree of
                Inl e \<Rightarrow> (job1, q, Inl e)
              | Inr (last_modified, file_size) \<Rightarrow>
                (case send q (DigestMessage (tj_id job1) (tj_file_num job1) last_modified file_size (tj_is_resume job1)) of
                   (q', False) \<Rightarrow> (job1, q', Inl FileIo)
                 | (q', True) \<Rightarrow> (job1\<lparr>tj_file_is_waiting := True\<rparr>, q', Inr ())))
        else (job1, q, Inr ()))"

fun init_jobs ::
    "('q \<Rightarrow> file_message \<Rightarrow> 'q \<times> bool) \<Rightarrow> fs_env \<Rightarrow> file_tree \<Rightarrow> transfer_job list \<Rightarrow> 'q
     \<Rightarrow> transfer_job list \<times> 'q \<times> bool" where
  "init_jobs send env tree [] q = ([], q, True)"
| "init_jobs send env tree (job # jobs) q =
     (if tj_is_last_job job then
        (case init_jobs send env tree jobs q of (jobs', q', ok) \<Rightarrow> (job # jobs', q', ok))
      else
        (case init_data_stream send env job tree q of
           (job1, q1, res) \<Rightarrow>
             (case (case res of
                      Inl e \<Rightarrow> send q1 (ErrorMessage (tj_id job1) e (tj_file_num job1))
                    | Inr _ \<Rightarrow> (q1, True)) of
                (q2, False) \<Rightarrow> (job1 # jobs, q2, False)
              | (q2, True) \<Rightarrow>
                  (case init_jobs send env tree jobs q2 of (jobs', q', ok) \<Rightarrow> (job1 # jobs', q', ok)))))"

text \<open>The first job that is not left over from an earlier run takes one step. The third result says
  whether it finished.\<close>

definition read_job_step ::
    "transfer_codec \<Rightarrow> ('q \<Rightarrow> file_message \<Rightarrow> 'q \<times> bool) \<Rightarrow> fs_env \<Rightarrow> file_tree \<Rightarrow> transfer_job \<Rightarrow> 'q
     \<Rightarrow> transfer_job \<times> 'q \<times> bool \<times> bool" where
  "read_job_step K send env tree job q =
     (case job_read K env job tree of
        (job1, Inl e) \<Rightarrow> (case send q (ErrorMessage (tj_id job1) e (tj_file_num job1)) of (q', ok) \<Rightarrow> (job1, q', False, ok))
      | (job1, Inr (Some block)) \<Rightarrow> (case send q (BlockMessage block) of (q', ok) \<Rightarrow> (job1, q', False, ok))
      | (job1, Inr None) \<Rightarrow>
          if job_completed job1 then
            (case send q (if job_skipped job1 then SkippedMessage (tj_id job1) (tj_file_num job1)
                          else DoneMessage (tj_id job1) (tj_file_num job1)) of (q', ok) \<Rightarrow> (job1, q', True, ok))
          else (job1, q, False, True))"

fun step_first_job ::
    "transfer_codec \<Rightarrow> ('q \<Rightarrow> file_message \<Rightarrow> 'q \<times> bool) \<Rightarrow> fs_env \<Rightarrow> file_tree \<Rightarrow> transfer_job list \<Rightarrow> 'q
     \<Rightarrow> transfer_job list \<times> 'q \<times> i32 option \<times> bool" where
  "step_first_job K send env tree [] q = ([], q, None, True)"
| "step_first_job K send env tree (job # jobs) q =
     (if tj_is_last_job job then
        (case step_first_job K send env tree jobs q of (jobs', rest) \<Rightarrow> (job # jobs', rest))
      else
        (case read_job_step K send env tree job q of
           (job1, q1, finished, ok) \<Rightarrow>
             (job1 # jobs, q1, (if finished \<and> ok then Some (tj_id job1) else None), ok)))"

definition handle_read_jobs ::
    "transfer_codec \<Rightarrow> ('q \<Rightarrow> file_message \<Rightarrow> 'q \<times> bool) \<Rightarrow> fs_env \<Rightarrow> file_tree \<Rightarrow> transfer_job list \<Rightarrow> 'q
     \<Rightarrow> transfer_job list \<times> 'q \<times> bool" where
  "handle_read_jobs K send env tree jobs q =
     (case init_jobs send env tree jobs q of
        (jobs1, q1, False) \<Rightarrow> (jobs1, q1, False)
      | (jobs1, q1, True) \<Rightarrow>
        (case step_first_job K send env tree jobs1 q1 of
           (jobs2, q2, finished, ok) \<Rightarrow>
             ((case finished of None \<Rightarrow> jobs2 | Some i \<Rightarrow> remove_job i jobs2), q2, ok)))"

end
