(* ===== verification/Transfer_Confinement.thy ===== *)
theory Transfer_Confinement
  imports Transfer_Job
begin

text \<open>
  What a receiving job touches: whatever blocks and confirmations a peer sends, and whatever the
  file system does, the only files that change are in the place of the directory of the job. The
  check of the symbolic links is what keeps the walk along an accepted name in that place.
\<close>

section \<open>Walking along accepted names\<close>

definition extensions :: "bytes set" where
  "extensions = {[], DOWNLOAD_EXT, DIGEST_EXT}"

lemma extension_facts:
  "ext \<in> extensions \<Longrightarrow> ext = [] \<or> (SLASH \<notin> set ext \<and> 0 \<notin> set ext \<and> length ext > 2)"
  by (auto simp: extensions_def DOWNLOAD_EXT_def DIGEST_EXT_def SLASH_def)

lemma plain_part_extended: "length ext > 2 \<Longrightarrow> plain_part (s @ ext)"
  by (auto simp: plain_part_def dest: arg_cong [where f = length])

lemma metadata_kind_Normal [simp]:
  "metadata_kind env (cs @ [Normal s]) =
     (case entry_in (fx_kind env) (fx_cwd env) cs s of None \<Rightarrow> Unreadable | Some n \<Rightarrow> fx_kind env n)"
  by (simp add: metadata_kind_def)

text \<open>Where the check has passed, the walk adds the names as they are.\<close>

lemma guarded_walk:
  assumes "no_symlinks (metadata_kind env) cur (map Normal (ss @ ts)) = Inr ()"
    and "walk (fx_kind env) MAX_SYMLINKS (fx_cwd env) cur = Some (d, k)"
  shows "walk (fx_kind env) MAX_SYMLINKS (fx_cwd env) (cur @ map Normal ss) = Some (d @ ss, k)"
  using assms
proof (induction ss arbitrary: cur d)
  case (Cons s ss)
  have here: "entry_in (fx_kind env) (fx_cwd env) cur s = Some (d @ [s])"
    using Cons.prems(2) by (simp add: entry_in_def)
  have rest: "no_symlinks (metadata_kind env) (cur @ [Normal s]) (map Normal (ss @ ts)) = Inr ()"
    and plain: "\<And>t. fx_kind env (d @ [s]) \<noteq> Symlink t"
    using Cons.prems(1) here by (auto simp: Let_def split: node_kind.splits)
  have "walk (fx_kind env) MAX_SYMLINKS (fx_cwd env) (cur @ [Normal s]) = Some (d @ [s], k)"
    using Cons.prems(2) plain by (auto simp: walk_append split: node_kind.splits)
  from Cons.IH [OF rest this] show ?case by simp
qed simp

lemma plain_part_last:
  assumes "plain_part (last (split_at SLASH path))"
  shows "path_components path = butlast (path_components path) @ [Normal (last (split_at SLASH path))]"
proof -
  obtain p ps where p: "split_at SLASH path = p # ps" by (meson list.exhaust split_at_not_Nil)
  have part: "plain_part s \<Longrightarrow> part_components s = [Normal s]" for s
    by (auto simp: plain_part_def part_components_def)
  show ?thesis
  proof (cases ps rule: rev_cases)
    case Nil
    then have "path = [] \<or> hd path \<noteq> SLASH" using assms p split_at_hd_slash [of SLASH path] by (auto simp: plain_part_def)
    with Nil p assms show ?thesis by (auto simp: path_components_def part plain_part_def [of "[DOT]"] plain_part_def [of p])
  next
    case (snoc qs q)
    with p assms show ?thesis by (simp add: path_components_def part butlast_append)
  qed
qed

lemma plain_target:
  assumes "entry_of env path = Some m" and "\<And>t. fx_kind env m \<noteq> Symlink t"
  shows "target_of env path = Some m"
proof (cases "plain_part (last (split_at SLASH path))")
  case True
  then have "path_components path \<noteq> []" using plain_part_last [OF True] by (metis append_is_Nil_conv list.distinct(1))
  with True assms show ?thesis
    unfolding target_of_def follow_path_def by (subst plain_part_last [OF True])
      (auto simp: entry_of_def entry_in_def walk_append Let_def split: node_kind.splits)
qed (use assms in \<open>simp add: entry_of_def Let_def\<close>)

lemma target_has_entry: "target_of env path = Some n \<Longrightarrow> \<exists>m. entry_of env path = Some m"
proof (cases "plain_part (last (split_at SLASH path))")
  case True
  assume "target_of env path = Some n"
  then have "walk (fx_kind env) MAX_SYMLINKS (fx_cwd env) (path_components path) \<noteq> None"
    by (auto simp: target_of_def follow_path_def split: if_splits)
  then have "walk (fx_kind env) MAX_SYMLINKS (fx_cwd env) (butlast (path_components path)) \<noteq> None"
    by (subst (asm) plain_part_last [OF True]) (auto simp: walk_append split: option.splits)
  with True show ?thesis by (auto simp: entry_of_def entry_in_def)
qed (simp add: entry_of_def Let_def)

text \<open>The entry of an accepted name with an extension is in the place of the directory.\<close>

definition below :: "fs_env \<Rightarrow> path_buf \<Rightarrow> node \<Rightarrow> bool" where
  "below env base n \<longleftrightarrow> (\<exists>d ns. target_of env base = Some d \<and> n = d @ ns)"

lemma guarded_components:
  assumes "validate_file_name_no_traversal name = Inr ()" and "name \<noteq> []"
    and "validate_no_symlink_components (metadata_kind env) base name = Inr ()"
  shows "no_symlinks (metadata_kind env) (path_components base) (map Normal (normal_parts name)) = Inr ()"
  using accepted_components [OF assms(1,2)] assms(2,3) by (auto simp: validate_no_symlink_components_def)

lemma entry_below:
  assumes "base \<noteq> []" and "validate_file_name_no_traversal name = Inr ()" and "name \<noteq> []"
    and "validate_no_symlink_components (metadata_kind env) base name = Inr ()"
    and "ext \<in> extensions" and "entry_of env (path_join base name @ ext) = Some n"
  shows "below env base n"
proof -
  let ?B = "path_components base" and ?s = "last (split_at SLASH (name @ ext))"
  let ?walk = "walk (fx_kind env) MAX_SYMLINKS (fx_cwd env)"
  note guard = guarded_components [OF assms(2,3,4)]
  have rel: "hd name \<noteq> SLASH" using accepted_relative [OF assms(2)] assms(3) by simp
  have valid: "validate_file_name_no_traversal (name @ ext) = Inr ()"
    using extension_facts [OF assms(5)] extension_accepted [OF assms(2,3)] assms(2) by auto
  have join: "path_join base name @ ext = path_join base (name @ ext)" using rel assms(3) by (simp add: path_join_def)
  have comps: "path_components (path_join base (name @ ext)) = ?B @ map Normal (normal_parts (name @ ext))"
    by (rule joined_components [OF assms(1) valid])
  have last: "last (split_at SLASH (path_join base (name @ ext))) = ?s"
    using rel assms(3) by (intro joined_last_part [OF assms(1)]) simp
  have lead: "leading_parts (name @ ext) = leading_parts name"
    using extension_facts [OF assms(5)] leading_parts_extension by (cases "ext = []") auto
  obtain d k where d: "?walk ?B = Some (d, k)"
  proof (cases "?walk ?B")
    case None
    then have "?walk (?B @ cs) = None" for cs by (simp add: walk_append)
    with assms(6) show thesis
      by (auto simp: entry_of_def join last comps target_of_def follow_path_def entry_in_def Let_def normal_parts_leading
          butlast_append plain_part_def split: if_splits)
  qed (use that in auto)
  have base: "target_of env base = Some d" using d assms(1) by (simp add: target_of_def follow_path_def)
  show ?thesis
  proof (cases "plain_part ?s")
    case True
    then have parts: "normal_parts (name @ ext) = leading_parts name @ [?s]"
      by (simp add: normal_parts_leading lead plain_part_def)
    have "?walk (?B @ map Normal (leading_parts name)) = Some (d @ leading_parts name, k)"
      using guard normal_parts_leading [of name] d by (intro guarded_walk) auto
    with assms(6) True have "n = (d @ leading_parts name) @ [?s]"
      by (simp add: entry_of_def join last comps parts entry_in_def butlast_append Let_def)
    with base show ?thesis by (auto simp: below_def)
  next
    case False
    then have ext: "ext = []"
      using extension_facts [OF assms(5)] last_part_extension [of ext name] plain_part_extended [of ext] by auto
    have "?walk (?B @ map Normal (normal_parts name)) = Some (d @ normal_parts name, k)"
      using guard d by (intro guarded_walk [where ts = "[]"]) auto
    moreover from assms(6) False have "target_of env (path_join base name) = Some n"
      using last ext by (simp add: entry_of_def Let_def)
    ultimately have "n = d @ normal_parts name"
      using comps ext assms(1) by (simp add: target_of_def follow_path_def split: if_splits)
    with base show ?thesis by (auto simp: below_def)
  qed
qed

section \<open>The files of a job\<close>

text \<open>The places a call may change. The second case is a single file without a name: then the chosen path
  itself is the destination.\<close>

definition touched :: "fs_env \<Rightarrow> path_buf \<Rightarrow> file_entry list \<Rightarrow> node \<Rightarrow> bool" where
  "touched env base files n \<longleftrightarrow>
     below env base n \<or>
     (length files = 1 \<and> fe_name (hd files) = [] \<and> (\<exists>ext \<in> extensions. entry_of env (base @ ext) = Some n))"

text \<open>No temporary file of the job is itself a symbolic link.\<close>

definition plain_temporaries :: "path_buf \<Rightarrow> file_entry list \<Rightarrow> fs_env \<Rightarrow> bool" where
  "plain_temporaries base files env \<longleftrightarrow>
     (\<forall>f \<in> set files. \<forall>ext \<in> {DOWNLOAD_EXT, DIGEST_EXT}. \<forall>n target.
        entry_of env (job_join base (fe_name f) @ ext) = Some n \<longrightarrow> fx_kind env n \<noteq> Symlink target)"

definition proper_job :: "path_buf \<Rightarrow> file_entry list \<Rightarrow> bool" where
  "proper_job base files \<longleftrightarrow>
     base \<noteq> [] \<and> utf8_valid base \<and> validate_transfer_file_names files = Inr () \<and>
     list_all (\<lambda>f. utf8_valid (fe_name f)) files"

lemma join_validated_Inr:
  "join_validated_path kind base name = Inr path \<longleftrightarrow>
     validate_file_name_no_traversal name = Inr () \<and> validate_no_symlink_components kind base name = Inr () \<and>
     path = job_join base name"
  by (auto simp: join_validated_path_def split: sum.splits)

lemma empty_name_single:
  "validate_transfer_file_names files = Inr () \<Longrightarrow> f \<in> set files \<Longrightarrow> fe_name f = [] \<Longrightarrow>
     length files = 1 \<and> fe_name (hd files) = []"
proof -
  assume a: "validate_transfer_file_names files = Inr ()" "f \<in> set files" "fe_name f = []"
  have "validate_each_name fs = Inr () \<Longrightarrow> f \<in> set fs \<Longrightarrow> fe_name f \<noteq> []" for fs
    by (induction fs) (auto split: if_splits sum.splits)
  with a show ?thesis by (auto simp: validate_transfer_file_names_def split: if_splits)
qed

lemma joined_valid: "utf8_valid base \<Longrightarrow> utf8_valid name \<Longrightarrow> utf8_valid (job_join base name)"
proof -
  assume v: "utf8_valid base" "utf8_valid name"
  have "utf8_valid [SLASH]" by code_simp
  with v show ?thesis by (simp add: job_join_def path_join_def utf8_valid_append del: append_Cons append_Nil)
qed

lemma get_string_valid: "utf8_valid path \<Longrightarrow> get_string path = path"
  by (simp add: get_string_def)

lemma accepted_string:
  assumes "proper_job base files" and "f \<in> set files" and "join_validated_path kind base (fe_name f) = Inr path"
  shows "get_string path = path"
  using assms by (auto simp: proper_job_def join_validated_Inr list_all_iff intro: get_string_valid joined_valid)

lemma entry_touched:
  assumes "proper_job base files" and "f \<in> set files"
    and "join_validated_path (metadata_kind env) base (fe_name f) = Inr path"
    and "ext \<in> extensions" and "entry_of env (path @ ext) = Some n"
  shows "touched env base files n"
proof (cases "fe_name f = []")
  case True
  with assms empty_name_single [OF _ assms(2)] show ?thesis
    by (auto simp: touched_def proper_job_def join_validated_Inr job_join_def)
next
  case False
  with assms entry_below [of base "fe_name f" env ext n] show ?thesis
    by (auto simp: touched_def proper_job_def join_validated_Inr job_join_def)
qed

lemma target_touched:
  assumes "proper_job base files" and "f \<in> set files" and "plain_temporaries base files env"
    and "join_validated_path (metadata_kind env) base (fe_name f) = Inr path"
    and "ext \<in> {DOWNLOAD_EXT, DIGEST_EXT}" and "target_of env (path @ ext) = Some n"
  shows "touched env base files n"
proof -
  obtain m where m: "entry_of env (path @ ext) = Some m" using target_has_entry [OF assms(6)] by blast
  have "fx_kind env m \<noteq> Symlink t" for t
    using assms(2-5) m by (auto simp: plain_temporaries_def join_validated_Inr)
  with plain_target [OF m] assms(6) have "m = n" by simp
  with m show ?thesis using assms(5) by (intro entry_touched [OF assms(1,2,4)]) (auto simp: extensions_def)
qed

section \<open>Every operation stays inside\<close>

definition changes_within :: "(node \<Rightarrow> bool) \<Rightarrow> file_tree \<Rightarrow> file_tree \<Rightarrow> bool" where
  "changes_within P tree tree' \<longleftrightarrow> (\<forall>n. tree' n \<noteq> tree n \<longrightarrow> P n)"

lemma changes_within_refl [simp]: "changes_within P tree tree"
  by (simp add: changes_within_def)

lemma changes_within_trans [trans]:
  "changes_within P t1 t2 \<Longrightarrow> changes_within P t2 t3 \<Longrightarrow> changes_within P t1 t3"
  unfolding changes_within_def by metis

lemma changes_within_upd: "P n \<Longrightarrow> changes_within P tree (tree(n := v))"
  by (simp add: changes_within_def)

lemma remove_file_within: "(\<And>n. entry_of env path = Some n \<Longrightarrow> P n) \<Longrightarrow> changes_within P tree (remove_file env path tree)"
  by (auto simp: remove_file_def changes_within_upd split: option.splits)

text \<open>A file that is open for writing is in one of the places \<open>P\<close>.\<close>

definition stream_within :: "(node \<Rightarrow> bool) \<Rightarrow> data_stream option \<Rightarrow> bool" where
  "stream_within P stream \<longleftrightarrow> (\<forall>n pos. stream = Some (FileStream WriteMode n pos) \<longrightarrow> P n)"

lemma rename_file_within:
  assumes "rename_file env from dest stream tree = (stream', tree')" and "stream_within P stream"
    and "\<And>n. entry_of env from = Some n \<Longrightarrow> P n" and "\<And>n. entry_of env dest = Some n \<Longrightarrow> P n"
  shows "stream_within P stream' \<and> changes_within P tree tree'"
proof (cases "entry_of env from = None \<or> entry_of env dest = None \<or> fx_rename env")
  case True
  with assms(1,2) show ?thesis by (auto simp: rename_file_def split: option.splits)
next
  case False
  then obtain m n where mn: "entry_of env from = Some m" "entry_of env dest = Some n" by auto
  have P: "P m" "P n" using assms(3,4) mn by blast+
  have moved: "stream_within P (map_option (moved m n) stream)"
    using assms(2) P(2) by (cases stream; cases "the stream") (auto simp: stream_within_def moved_def)
  from assms(1,2) mn False P moved show ?thesis
    by (auto simp: rename_file_def changes_within_def fun_upd_apply split: node_kind.splits option.splits if_splits)
qed

text \<open>A receiving job of the ordinary kind, and a call in whose environment the job's places are \<open>P\<close>.\<close>

definition receiving :: "(node \<Rightarrow> bool) \<Rightarrow> path_buf \<Rightarrow> file_entry list \<Rightarrow> transfer_job \<Rightarrow> bool" where
  "receiving P base files job \<longleftrightarrow>
     proper_job base files \<and> tj_type job = Generic \<and> tj_data_source job = FilePath base \<and> tj_files job = files \<and>
     stream_within P (tj_data_stream job)"

definition allowed :: "(node \<Rightarrow> bool) \<Rightarrow> path_buf \<Rightarrow> file_entry list \<Rightarrow> fs_env \<Rightarrow> bool" where
  "allowed P base files env \<longleftrightarrow> plain_temporaries base files env \<and> (\<forall>n. touched env base files n \<longrightarrow> P n)"

lemma allowed_entries:
  assumes "allowed P base files env" and "receiving P base files job" and "i < length files"
    and "join_validated_path (metadata_kind env) base (fe_name (files ! i)) = Inr path"
  shows "get_string path = path"
    and "entry_of env path = Some n \<Longrightarrow> P n"
    and "entry_of env (path @ DOWNLOAD_EXT) = Some n \<Longrightarrow> P n"
    and "entry_of env (path @ DIGEST_EXT) = Some n \<Longrightarrow> P n"
    and "target_of env (path @ DOWNLOAD_EXT) = Some n \<Longrightarrow> P n"
    and "target_of env (path @ DIGEST_EXT) = Some n \<Longrightarrow> P n"
proof -
  have proper: "proper_job base files" using assms(2) by (simp add: receiving_def)
  have plain: "plain_temporaries base files env" and inside: "\<And>n. touched env base files n \<Longrightarrow> P n"
    using assms(1) by (auto simp: allowed_def)
  note f = nth_mem [OF assms(3)]
  show "get_string path = path" by (rule accepted_string [OF proper f assms(4)])
  note entry = entry_touched [OF proper f assms(4)] and target = target_touched [OF proper f plain assms(4)]
  show "entry_of env path = Some n \<Longrightarrow> P n"
    "entry_of env (path @ DOWNLOAD_EXT) = Some n \<Longrightarrow> P n" "entry_of env (path @ DIGEST_EXT) = Some n \<Longrightarrow> P n"
    using entry [of "[]" n] entry [of DOWNLOAD_EXT n] entry [of DIGEST_EXT n] inside by (auto simp: extensions_def)
  show "target_of env (path @ DOWNLOAD_EXT) = Some n \<Longrightarrow> P n" "target_of env (path @ DIGEST_EXT) = Some n \<Longrightarrow> P n"
    using target [of DOWNLOAD_EXT n] target [of DIGEST_EXT n] inside by auto
qed

lemma modify_time_within:
  assumes "allowed P base files env" and "receiving P base files job" and "modify_time env job tree = (job', tree')"
  shows "receiving P base files job' \<and> changes_within P tree tree'"
proof -
  let ?i = "as_usize (tj_file_num job)"
  have g: "tj_type job = Generic" "tj_data_source job = FilePath base" "tj_files job = files"
    using assms(2) by (simp_all add: receiving_def)
  show ?thesis
  proof (cases "?i < length files")
    case i: True
    show ?thesis
    proof (cases "join_validated_path (metadata_kind env) base (fe_name (files ! ?i))")
      case (Inl e)
      with assms(2,3) g i show ?thesis by (simp add: modify_time_def resolve_entry_path_def)
    next
      case (Inr path)
      note a = allowed_entries [OF assms(1,2) i Inr]
      let ?t = "remove_file env (path @ DIGEST_EXT) tree"
      obtain s' t' where r: "rename_file env (path @ DOWNLOAD_EXT) path (tj_data_stream job) ?t = (s', t')" by fastforce
      have w: "stream_within P s' \<and> changes_within P ?t t'"
        by (rule rename_file_within [OF r]) (use assms(2) a in \<open>auto simp: receiving_def\<close>)
      have "changes_within P tree ?t" by (rule remove_file_within) (rule a(4))
      from changes_within_trans [OF this] w assms(2,3) g i Inr r a(1) show ?thesis
        by (auto simp: modify_time_def resolve_entry_path_def receiving_def)
    qed
  qed (use assms(2,3) g in \<open>simp add: modify_time_def\<close>)
qed

lemma remove_download_within:
  assumes "allowed P base files env" and "receiving P base files job"
  shows "changes_within P tree (remove_download_file env job tree)"
proof -
  let ?i = "as_usize (tj_file_num job)"
  have g: "tj_type job = Generic" "tj_data_source job = FilePath base" "tj_files job = files"
    using assms(2) by (simp_all add: receiving_def)
  show ?thesis
  proof (cases "?i < length files")
    case i: True
    show ?thesis
    proof (cases "join_validated_path (metadata_kind env) base (fe_name (files ! ?i))")
      case (Inl e)
      with g i show ?thesis by (simp add: remove_download_file_def resolve_entry_path_def)
    next
      case (Inr path)
      note a = allowed_entries [OF assms i Inr]
      have "changes_within P tree (remove_file env (path @ DOWNLOAD_EXT) tree)"
        by (rule remove_file_within) (rule a(3))
      moreover have "changes_within P t (remove_file env (path @ DIGEST_EXT) t)" for t
        by (rule remove_file_within) (rule a(4))
      ultimately have "changes_within P tree (remove_file env (path @ DIGEST_EXT) (remove_file env (path @ DOWNLOAD_EXT) tree))"
        by (rule changes_within_trans)
      then show ?thesis using g i Inr a(1) by (simp add: remove_download_file_def resolve_entry_path_def)
    qed
  qed (use g in \<open>simp add: remove_download_file_def\<close>)
qed

lemma receiving_upd:
  "receiving P base files job \<Longrightarrow> receiving P base files (job\<lparr>tj_file_num := k\<rparr>)"
  "receiving P base files job \<Longrightarrow> P n \<Longrightarrow> receiving P base files (job\<lparr>tj_data_stream := Some (FileStream WriteMode n pos)\<rparr>)"
  by (simp_all add: receiving_def stream_within_def)

lemma stream_write_within:
  assumes "stream_write env stream buf tree = (stream', tree', res)" and "stream_within P (Some stream)"
  shows "changes_within P tree tree' \<and> stream_within P (Some stream')"
  using assms
  by (auto simp: stream_write_def Let_def changes_within_def stream_within_def
      split: data_stream.splits file_mode.splits if_splits)

lemma write_block_data_within:
  assumes "receiving P base files job" and "write_block_data K env block job tree = (job', tree', res)"
  shows "receiving P base files job' \<and> changes_within P tree tree'"
proof (cases "tj_data_stream job")
  case None
  with assms show ?thesis by (auto simp: write_block_data_def split: option.splits)
next
  case (Some stream)
  define data where "data = (if fb_compressed block
    then decompress_limited K (fb_data block) FILE_BLOCK_DECOMPRESS_MAX_LEN else Some (fb_data block))"
  show ?thesis
  proof (cases data)
    case None
    with assms show ?thesis by (auto simp: write_block_data_def data_def)
  next
    case buf: (Some buf)
    obtain s1 t1 r1 where sw: "stream_write env stream buf tree = (s1, t1, r1)" by (metis prod_cases3)
    have "changes_within P tree t1 \<and> stream_within P (Some s1)"
      by (rule stream_write_within [OF sw]) (use assms(1) Some in \<open>simp add: receiving_def\<close>)
    with assms Some sw buf show ?thesis
      by (cases r1) (auto simp: write_block_data_def receiving_def data_def)
  qed
qed

lemma write_digest_within: "(\<And>n. place = Some n \<Longrightarrow> P n) \<Longrightarrow> changes_within P tree (write_digest K env place job tree)"
  by (auto simp: write_digest_def changes_within_upd split: option.splits)

lemma open_for_block_within:
  assumes "allowed P base files env" and "receiving P base files job" and "as_usize k < length files"
    and "open_for_block K env base k job tree = (job', tree', res)"
  shows "receiving P base files job' \<and> changes_within P tree tree'"
proof -
  obtain j1 t1 where m: "modify_time env job tree = (j1, t1)" by fastforce
  have r1: "receiving P base files j1" and w1: "changes_within P tree t1"
    using modify_time_within [OF assms(1,2) m] by simp_all
  have g: "tj_type job = Generic" "tj_files job = files" using assms(2) by (simp_all add: receiving_def)
  let ?sync = "fx_sync env \<and> (case tj_data_stream j1 of Some (FileStream _ _ _) \<Rightarrow> True | _ \<Rightarrow> False)"
  note r2 = receiving_upd(1) [OF r1, of k]
  show ?thesis
  proof (cases ?sync)
    case True
    with assms(4) r1 w1 show ?thesis by (simp add: open_for_block_def m)
  next
    case no: False
    show ?thesis
    proof (cases "join_validated_path (metadata_kind env) base (fe_name (files ! as_usize k))")
      case (Inl e)
      with no assms(4) g r2 w1 show ?thesis by (auto simp: open_for_block_def m Let_def)
    next
      case (Inr path)
      note a = allowed_entries [OF assms(1,2,3) Inr]
      let ?dp = "path @ DIGEST_EXT"
      define present where "present = path_exists env ?dp t1"
      define t2 where "t2 = (if present then remove_file env ?dp t1 else t1)"
      have w2: "changes_within P tree t2"
        unfolding t2_def using w1 remove_file_within [of env ?dp P t1, OF a(4)] changes_within_trans by auto
      have open_eq: "open_for_block K env base k job tree =
          (if present \<and> fx_remove env then (j1\<lparr>tj_file_num := k\<rparr>, t1, Inl FileIo)
           else case target_of env (path @ DOWNLOAD_EXT) of
             None \<Rightarrow> (j1\<lparr>tj_file_num := k\<rparr>, t2, Inl FileIo)
           | Some n \<Rightarrow> if fx_create env then (j1\<lparr>tj_file_num := k\<rparr>, t2, Inl FileIo)
               else (j1\<lparr>tj_file_num := k, tj_data_stream := Some (FileStream WriteMode n 0)\<rparr>,
                 write_digest K env (if present then entry_of env ?dp else target_of env ?dp) job (t2(n \<mapsto> [])), Inr ()))"
        unfolding open_for_block_def m Let_def prod.case if_not_P [OF no]
        using g Inr a(1) by (simp add: present_def t2_def split: option.split)
      have digest: "changes_within P t (write_digest K env (if present then entry_of env ?dp else target_of env ?dp) job t)" for t
        by (rule write_digest_within) (use a(4,6) in \<open>auto split: if_splits\<close>)
      have create: "changes_within P tree (write_digest K env (if present then entry_of env ?dp else target_of env ?dp) job (t2(n \<mapsto> [])))"
        if "P n" for n
        using changes_within_trans [OF changes_within_trans [OF w2 changes_within_upd] digest] that by blast
      from assms(4) a(5) r2 w1 w2 create receiving_upd(2) [OF r2] show ?thesis
        unfolding open_eq by (auto split: if_splits option.splits)
    qed
  qed
qed

lemma job_write_within:
  assumes "allowed P base files env" and "receiving P base files job"
    and "job_write K env block job tree = (job', tree', res)"
  shows "receiving P base files job' \<and> changes_within P tree tree'"
proof -
  have src: "tj_data_source job = FilePath base" "tj_files job = files" using assms(2) by (simp_all add: receiving_def)
  consider "fb_id block \<noteq> tj_id job \<or> length files \<le> as_usize (fb_file_num block)"
    | "fb_id block = tj_id job" "as_usize (fb_file_num block) < length files"
        "as_usize (fb_file_num block) \<noteq> as_usize (tj_file_num job) \<or> tj_data_stream job = None"
    | "write_block_data K env block job tree = (job', tree', res)"
    using assms(3) src by (auto simp: job_write_def not_le split: if_splits)
  then show ?thesis
  proof cases
    case 1
    then show ?thesis using assms src by (auto simp: job_write_def split: if_splits)
  next
    case 2
    obtain j1 t1 r1 where o: "open_for_block K env base (fb_file_num block) job tree = (j1, t1, r1)"
      by (metis prod_cases3)
    from open_for_block_within [OF assms(1,2) 2(2) o] have w: "receiving P base files j1" "changes_within P tree t1"
      by simp_all
    show ?thesis
    proof (cases r1)
      case (Inl e)
      with 2 o assms(3) src w show ?thesis by (auto simp: job_write_def not_le)
    next
      case (Inr u)
      with 2 o assms(3) src have "write_block_data K env block j1 t1 = (job', tree', res)"
        by (auto simp: job_write_def not_le)
      from write_block_data_within [OF w(1) this] changes_within_trans [OF w(2)] show ?thesis by blast
    qed
  next
    case 3
    then show ?thesis by (rule write_block_data_within [OF assms(2)])
  qed
qed

lemma offset_receiving:
  assumes "allowed P base files env" and "receiving P base files job"
    and "set_stream_offset env i off job tree = Some job'"
  shows "receiving P base files job'"
proof -
  have g: "tj_type job = Generic" "tj_data_source job = FilePath base" "tj_files job = files"
    using assms(2) by (simp_all add: receiving_def)
  from assms(3) g have i: "i < length files" by (auto simp: set_stream_offset_def split: if_splits)
  show ?thesis
  proof (cases "join_validated_path (metadata_kind env) base (fe_name (files ! i))")
    case (Inl e)
    with assms(2,3) g i show ?thesis by (auto simp: set_stream_offset_def resolve_entry_path_def)
  next
    case (Inr path)
    note a = allowed_entries [OF assms(1,2) i Inr]
    from assms(2,3) g i Inr a(1,5) show ?thesis
      by (auto simp: set_stream_offset_def resolve_entry_path_def Let_def receiving_def stream_within_def
          split: if_splits option.splits)
  qed
qed

lemma confirm_receiving:
  assumes "allowed P base files env" and "receiving P base files job"
    and "job_confirm env k request job tree = Some job'"
  shows "receiving P base files job'"
proof -
  have flags: "receiving P base files (set_file_skipped job)" "receiving P base files (set_file_confirmed v job)" for v
    using assms(2) by (auto simp: receiving_def stream_within_def set_file_skipped_def set_file_confirmed_def Let_def)
  with assms offset_receiving [OF assms(1) flags(2)] show ?thesis
    by (auto simp: job_confirm_def Let_def split: if_splits confirm_union.splits)
qed

section \<open>Runs\<close>

datatype transfer_call =
    CallWrite fs_env file_block | CallComplete fs_env | CallDiscard fs_env
  | CallConfirm fs_env i32 confirm_union

fun call_env :: "transfer_call \<Rightarrow> fs_env" where
  "call_env (CallWrite env block) = env"
| "call_env (CallComplete env) = env"
| "call_env (CallDiscard env) = env"
| "call_env (CallConfirm env k request) = env"

text \<open>A panic ends the run.\<close>

fun transfer_run :: "transfer_codec \<Rightarrow> transfer_call list \<Rightarrow> transfer_job \<Rightarrow> file_tree \<Rightarrow> transfer_job \<times> file_tree" where
  "transfer_run K [] job tree = (job, tree)"
| "transfer_run K (CallWrite env block # cs) job tree =
     (case job_write K env block job tree of (job', tree', _) \<Rightarrow> transfer_run K cs job' tree')"
| "transfer_run K (CallComplete env # cs) job tree =
     (case modify_time env job tree of (job', tree') \<Rightarrow> transfer_run K cs job' tree')"
| "transfer_run K (CallDiscard env # cs) job tree = transfer_run K cs job (remove_download_file env job tree)"
| "transfer_run K (CallConfirm env k request # cs) job tree =
     (case job_confirm env k request job tree of
        None \<Rightarrow> (job, tree)
      | Some job' \<Rightarrow> transfer_run K cs job' tree)"

lemma transfer_run_within:
  assumes "\<forall>call \<in> set cs. allowed P base files (call_env call)"
    and "receiving P base files job" and "transfer_run K cs job tree = (job', tree')"
  shows "changes_within P tree tree'"
  using assms
proof (induction K cs job tree rule: transfer_run.induct)
  case (2 K env block cs job tree)
  obtain j1 t1 r1 where w: "job_write K env block job tree = (j1, t1, r1)" by (metis prod_cases3)
  have "receiving P base files j1" "changes_within P tree t1"
    using job_write_within [OF _ "2.prems"(2) w] "2.prems"(1) by simp_all
  moreover from this(1) have "changes_within P t1 tree'" using "2.IH" [OF w [symmetric] refl] "2.prems" w by simp
  ultimately show ?case using changes_within_trans by blast
next
  case (3 K env cs job tree)
  obtain j1 t1 where w: "modify_time env job tree = (j1, t1)" by fastforce
  have "receiving P base files j1" "changes_within P tree t1"
    using modify_time_within [OF _ "3.prems"(2) w] "3.prems"(1) by simp_all
  moreover from this(1) have "changes_within P t1 tree'" using "3.IH" [OF w [symmetric]] "3.prems" w by simp
  ultimately show ?case using changes_within_trans by blast
next
  case (4 K env cs job tree)
  have "changes_within P tree (remove_download_file env job tree)"
    using remove_download_within [OF _ "4.prems"(2)] "4.prems"(1) by simp
  moreover have "changes_within P (remove_download_file env job tree) tree'" using "4.IH" "4.prems" by simp
  ultimately show ?case using changes_within_trans by blast
next
  case (5 K env k request cs job tree)
  show ?case
  proof (cases "job_confirm env k request job tree")
    case (Some j)
    have "receiving P base files j" using confirm_receiving [OF _ "5.prems"(2) Some] "5.prems"(1) by simp
    with "5.IH" [OF Some] "5.prems" Some show ?thesis by simp
  qed (use "5.prems" in simp)
qed simp

text \<open>
  Property C8: a transfer stays in its directory. A receiving job is created for a directory, whose
  path is a string, and given the list of files a peer announced; the check of the list accepts it.
  Whatever blocks, confirmations, completions and removals follow, with symbolic links anywhere that
  may change from call to call, and with any failures of the file system, every file that changes is
  in the place which the directory's path leads to at one of the calls, below names that were walked
  along without following a link. Only when a single file without a name was announced it is the
  entry of the chosen path itself, with or without an extension. What is assumed is that no
  temporary file (the destination with an extension) is a symbolic link: the code does not check
  that, and follows such a link.
\<close>

theorem transfer_stays_in_directory:
  assumes "base \<noteq> []" and "utf8_valid base" and "list_all (\<lambda>f. utf8_valid (fe_name f)) files"
    and "set_files env files (new_write jid Generic (FilePath base) k hidden remote detect) = (job, Inr ())"
    and "\<forall>call \<in> set calls. plain_temporaries base files (call_env call)"
    and "transfer_run K calls job tree = (job', tree')" and "tree' n \<noteq> tree n"
  shows "\<exists>call \<in> set calls.
    (\<exists>d ns. target_of (call_env call) base = Some d \<and> n = d @ ns) \<or>
    (length files = 1 \<and> fe_name (hd files) = [] \<and> (\<exists>ext \<in> extensions. entry_of (call_env call) (base @ ext) = Some n))"
proof -
  define P where "P m \<longleftrightarrow> (\<exists>call \<in> set calls. touched (call_env call) base files m)" for m
  have "validate_transfer_file_names files = Inr ()"
    using assms(4) by (auto simp: set_files_def new_write_def split: sum.splits)
  then have "receiving P base files job"
    using assms(1-4)
    by (auto simp: set_files_def new_write_def receiving_def proper_job_def stream_within_def split: sum.splits)
  moreover have "\<forall>call \<in> set calls. allowed P base files (call_env call)"
    using assms(5) by (auto simp: allowed_def P_def)
  ultimately have "changes_within P tree tree'" using assms(6) transfer_run_within by blast
  with assms(7) have "P n" by (simp add: changes_within_def)
  then show ?thesis by (auto simp: P_def touched_def below_def)
qed

text \<open>An environment in which nothing fails, and one in which the directory \<open>/l\<close> is a link to \<open>/d\<close>.\<close>

definition quiet_env :: fs_env where
  "quiet_env = \<lparr>fx_cwd = [], fx_kind = (\<lambda>_. OtherNode), fx_read = (\<lambda>_ space rest. Some (min space rest)),
     fx_modified = (\<lambda>_. Some 0), fx_open = False, fx_sync = False, fx_remove = False, fx_create = False,
     fx_write_digest = False, fx_rename = False, fx_seek = False, fx_write = None\<rparr>"

definition linked_env :: "node \<Rightarrow> path_buf \<Rightarrow> fs_env" where
  "linked_env link target = quiet_env\<lparr>fx_kind := (\<lambda>n. if n = link then Symlink target else OtherNode)\<rparr>"

definition plain_codec :: transfer_codec where
  "plain_codec = \<lparr>tc_compress = id, tc_decode = Some, tc_digest_json = (\<lambda>_ _. [])\<rparr>"

definition sample_entry :: file_entry where
  "sample_entry = \<lparr>fe_name = [97], fe_size = 1, fe_modified_time = 0\<rparr>"

definition sample_job :: "path_buf \<Rightarrow> transfer_job" where
  "sample_job base = (new_write 1 Generic (FilePath base) 0 False False False)\<lparr>tj_total_size := 1, tj_files := [sample_entry]\<rparr>"

definition sample_block :: file_block where
  "sample_block = \<lparr>fb_id = 1, fb_file_num = 0, fb_data = [7], fb_compressed = False\<rparr>"

definition sample_calls :: "transfer_call list" where
  "sample_calls = (let env = linked_env [[108]] [47, 100] in [CallWrite env sample_block, CallComplete env])"

theorem transfer_stays_in_directory_witness:
  "snd (transfer_run plain_codec sample_calls (sample_job [47, 108]) Map.empty) [[100], [97]] = Some [7] \<and>
   target_of (linked_env [[108]] [47, 100]) [47, 108] = Some [[100]] \<and> (\<exists>ns. [[100], [97]] = [[100 :: u8]] @ ns)"
proof -
  let ?env = "linked_env [[108]] [47, 100]" and ?base = "[47, 108] :: path_buf"
  obtain job' tree' where run: "transfer_run plain_codec sample_calls (sample_job ?base) Map.empty = (job', tree')" by fastforce
  have new: "snd (transfer_run plain_codec sample_calls (sample_job ?base) Map.empty) [[100], [97]] = Some [7]" by code_simp
  then have changed: "tree' [[100], [97]] \<noteq> Map.empty [[100], [97]]" using run by simp
  have strings: "utf8_valid ?base" "list_all (\<lambda>f. utf8_valid (fe_name f)) [sample_entry]" by code_simp+
  have place: "target_of ?env ?base = Some [[100]]" by code_simp
  have "snd (set_files ?env [sample_entry] (new_write 1 Generic (FilePath ?base) 0 False False False)) = Inr ()" by code_simp
  then have files: "set_files ?env [sample_entry] (new_write 1 Generic (FilePath ?base) 0 False False False) =
      (sample_job ?base, Inr ())"
    by (auto simp: set_files_def sample_job_def sum_sizes_def sample_entry_def new_write_def split: sum.splits)
  have "entry_of ?env (job_join ?base [97] @ DOWNLOAD_EXT) = Some [[100], 97 # DOWNLOAD_EXT]"
    "entry_of ?env (job_join ?base [97] @ DIGEST_EXT) = Some [[100], 97 # DIGEST_EXT]" by code_simp+
  then have plain: "\<forall>call \<in> set sample_calls. plain_temporaries ?base [sample_entry] (call_env call)"
    by (auto simp: plain_temporaries_def sample_calls_def sample_entry_def linked_env_def Let_def)
  have "fe_name (hd [sample_entry]) \<noteq> []" by (simp add: sample_entry_def)
  with transfer_stays_in_directory [OF _ strings files plain run changed] place new show ?thesis
    by (auto simp: sample_calls_def Let_def)
qed

section \<open>Where the code falls short\<close>

text \<open>
  The check of the links looks at the components of the name but not at the two temporary files:
  with \<open>/d/a.download\<close> a link to \<open>/o\<close>, a block for \<open>a\<close> in \<open>/d\<close> is written to \<open>/o\<close>.
\<close>

lemma symlinked_download_followed:
  "snd (transfer_run plain_codec [CallWrite (linked_env [[100], 97 # DOWNLOAD_EXT] [47, 111]) sample_block]
     (sample_job [47, 100]) Map.empty) [[111]] = Some [7]"
  by code_simp

text \<open>
  A directory whose path is not a string becomes the empty path: a block is written to \<open>.download\<close>
  in the working directory.
\<close>

lemma nameless_download_in_working_directory:
  "snd (transfer_run plain_codec [CallWrite (quiet_env\<lparr>fx_cwd := [[119]]\<rparr>) sample_block]
     (sample_job [47, 255]) Map.empty) [[119], DOWNLOAD_EXT] = Some [7]"
  by code_simp

text \<open>
  A block that opens a new file completes the file before it first. If the new one cannot be
  created, the job has the new number and still the old open file: the next block of the new file
  is appended to the completed one.
\<close>

lemma failed_create_writes_previous:
  "snd (transfer_run plain_codec
     [CallWrite quiet_env sample_block,
      CallWrite (quiet_env\<lparr>fx_create := True\<rparr>) (sample_block\<lparr>fb_file_num := 1, fb_data := [8]\<rparr>),
      CallWrite quiet_env (sample_block\<lparr>fb_file_num := 1, fb_data := [9]\<rparr>)]
     ((sample_job [47, 100])\<lparr>tj_files := [sample_entry, sample_entry\<lparr>fe_name := [98]\<rparr>]\<rparr>) Map.empty) [[100], [97]] =
   Some [7, 9]"
  by code_simp

end
