(* ===== verification/Transfer_Delivery.thy ===== *)
theory Transfer_Delivery
  imports Transfer_Confinement
begin

text \<open>
  A sending and a receiving job together: the sender's loop emits, for every file, with overwrite
  detection its digest and when this is confirmed, its contents in blocks and an empty block, and the
  receiver that is given these blocks ends up with exactly the files of the sender.
\<close>

section \<open>Well-behaved systems\<close>

text \<open>Nothing fails, nothing is a symbolic link, and a read returns something unless the buffer is
  full or the file is at its end. How much it returns is left open.\<close>

definition good_env :: "node \<Rightarrow> fs_env \<Rightarrow> bool" where
  "good_env cwd env \<longleftrightarrow>
     fx_cwd env = cwd \<and> (\<forall>n target. fx_kind env n \<noteq> Symlink target \<and> fx_kind env n \<noteq> Unreadable) \<and>
     \<not> fx_open env \<and> \<not> fx_sync env \<and> \<not> fx_remove env \<and> \<not> fx_create env \<and> \<not> fx_rename env \<and>
     fx_write env = None \<and>
     (\<forall>pos space rest. \<exists>k. fx_read env pos space rest = Some k \<and> k \<le> min space rest \<and>
        (k = 0 \<longrightarrow> space = 0 \<or> rest = 0))"

text \<open>Without links the place of a path can be read off its components.\<close>

fun lexical :: "node \<Rightarrow> path_component list \<Rightarrow> node" where
  "lexical cur [] = cur"
| "lexical cur (RootDir # cs) = lexical [] cs"
| "lexical cur (CurDir # cs) = lexical cur cs"
| "lexical cur (ParentDir # cs) = lexical (butlast cur) cs"
| "lexical cur (Normal s # cs) = lexical (cur @ [s]) cs"

definition place :: "node \<Rightarrow> path_buf \<Rightarrow> node" where
  "place cwd path = lexical cwd (path_components path)"

lemma lexical_append: "lexical cur (xs @ ys) = lexical (lexical cur xs) ys"
  by (induction cur xs rule: lexical.induct) simp_all

lemma walk_lexical:
  assumes "\<And>n target. kind n \<noteq> Symlink target"
  shows "walk kind k cur cs = Some (lexical cur cs, k)"
  by (induction cur cs rule: lexical.induct) (use assms in \<open>auto split: node_kind.splits\<close>)

lemma good_target: "good_env cwd env \<Longrightarrow> path \<noteq> [] \<Longrightarrow> target_of env path = Some (place cwd path)"
  by (simp add: target_of_def follow_path_def good_env_def walk_lexical place_def)

lemma good_entry:
  assumes "good_env cwd env" and "path \<noteq> []"
  shows "entry_of env path = Some (place cwd path)"
proof (cases "plain_part (last (split_at SLASH path))")
  case True
  let ?s = "last (split_at SLASH path)"
  have "place cwd path = lexical cwd (butlast (path_components path)) @ [?s]"
    unfolding place_def by (subst plain_part_last [OF True]) (simp add: lexical_append)
  with True assms(1) show ?thesis by (simp add: entry_of_def entry_in_def good_env_def walk_lexical)
next
  case False
  then show ?thesis using good_target [OF assms] by (simp add: entry_of_def Let_def)
qed

definition codec_ok :: "transfer_codec \<Rightarrow> bool" where
  "codec_ok K \<longleftrightarrow> (\<forall>bs. tc_decode K (tc_compress K bs) = Some bs)"

lemma quiet_env_good: "good_env [] quiet_env"
  by (auto simp: good_env_def quiet_env_def)

lemma as_usize_of_nat: "i < 2 ^ 31 \<Longrightarrow> as_usize (of_nat i) = i"
proof -
  assume i: "i < 2 ^ 31"
  then have "signed_take_bit 31 (int i) = int i" by (simp add: signed_take_bit_int_eq_self_iff)
  then have "(scast (of_nat i :: i32) :: u64) = of_nat i" by (simp add: signed_of_nat)
  then show ?thesis using i by (simp add: as_usize_def unat_of_nat)
qed

section \<open>The blocks of a job\<close>

text \<open>A file in pieces of the size of the buffer.\<close>

function cut :: "bytes \<Rightarrow> bytes list" where
  "cut bs = (if bs = [] then [] else take BUF_SIZE bs # cut (drop BUF_SIZE bs))"
  by pat_completeness auto
termination
  by (relation "measure length") (auto simp: BUF_SIZE_def)

declare cut.simps [simp del]

lemma cut_simps [simp]:
  "cut [] = []"
  "bs \<noteq> [] \<Longrightarrow> cut bs = take BUF_SIZE bs # cut (drop BUF_SIZE bs)"
  by (simp_all add: cut.simps [of bs] cut.simps [of "[]"])

lemma concat_cut: "concat (cut bs) = bs"
  by (induction bs rule: cut.induct) (metis append_take_drop_id concat.simps cut_simps)

lemma cut_pieces: "p \<in> set (cut bs) \<Longrightarrow> p \<noteq> [] \<and> length p \<le> BUF_SIZE"
proof (induction bs rule: cut.induct)
  case (1 bs)
  then show ?case by (cases "bs = []") (auto simp: BUF_SIZE_def)
qed

text \<open>What the sender makes of a piece of the file \<open>i\<close> called \<open>nm\<close>, and the block that ends the file.\<close>

definition pack :: "transfer_codec \<Rightarrow> i32 \<Rightarrow> nat \<Rightarrow> rust_str \<Rightarrow> bytes \<Rightarrow> file_block" where
  "pack K jid i nm piece =
     (let compressed = (\<not> is_compressed_file nm \<and> length (tc_compress K piece) < length piece) in
      \<lparr>fb_id = jid, fb_file_num = of_nat i, fb_data = (if compressed then tc_compress K piece else piece),
       fb_compressed = compressed\<rparr>)"

definition end_block :: "i32 \<Rightarrow> nat \<Rightarrow> file_block" where
  "end_block jid i = \<lparr>fb_id = jid, fb_file_num = of_nat i, fb_data = [], fb_compressed = False\<rparr>"

definition name_at :: "transfer_job \<Rightarrow> nat \<Rightarrow> rust_str" where
  "name_at job i = current_name (job\<lparr>tj_file_num := of_nat i\<rparr>)"

definition file_blocks :: "transfer_codec \<Rightarrow> transfer_job \<Rightarrow> nat \<Rightarrow> bytes \<Rightarrow> file_block list" where
  "file_blocks K job i c = map (pack K (tj_id job) i (name_at job i)) (cut c) @ [end_block (tj_id job) i]"

text \<open>All blocks from file \<open>i\<close> on, where \<open>cs\<close> are the contents that are still to be sent.\<close>

fun job_blocks :: "transfer_codec \<Rightarrow> transfer_job \<Rightarrow> nat \<Rightarrow> bytes list \<Rightarrow> file_block list" where
  "job_blocks K job i [] = []"
| "job_blocks K job i (c # cs) = file_blocks K job i c @ job_blocks K job (Suc i) cs"

section \<open>Sending\<close>

lemma fill_buffer_good:
  assumes "good_env cwd env" and "tree n = Some c" and "length buf < BUF_SIZE"
  shows "fill_buffer env tree (FileStream ReadMode n pos) buf =
     (FileStream ReadMode n (pos + min (BUF_SIZE - length buf) (length c - pos)), Some (buf @ take (BUF_SIZE - length buf) (drop pos c)))"
  using assms(3)
proof (induction "BUF_SIZE - length buf" arbitrary: buf pos rule: less_induct)
  case less
  let ?space = "BUF_SIZE - length buf" and ?rest = "length c - pos"
  from assms(1) obtain k where k: "fx_read env pos ?space ?rest = Some k" "k \<le> min ?space ?rest"
    "k = 0 \<longrightarrow> ?space = 0 \<or> ?rest = 0" unfolding good_env_def by blast
  let ?bs = "take k (drop pos c)"
  have read: "stream_read env (FileStream ReadMode n pos) ?space tree = (FileStream ReadMode n (pos + k), Some ?bs)"
    using k assms(2) by (simp add: stream_read_def Let_def)
  have len: "length ?bs = k" using k(2) by simp
  show ?case
  proof (cases "?bs = [] \<or> length buf + length ?bs \<ge> BUF_SIZE")
    case True
    then have "k = min ?space ?rest" using k(2,3) len less.prems by auto
    then show ?thesis
      using True less.prems len by (subst fill_buffer.simps) (auto simp: read min_def)
  next
    case False
    then have "0 < k" "length buf + k < BUF_SIZE" using len by auto
    then have "fill_buffer env tree (FileStream ReadMode n (pos + k)) (buf @ ?bs) =
        (FileStream ReadMode n (pos + k + min (BUF_SIZE - length (buf @ ?bs)) (length c - (pos + k))),
         Some ((buf @ ?bs) @ take (BUF_SIZE - length (buf @ ?bs)) (drop (pos + k) c)))"
      using len by (intro less.hyps) auto
    moreover have "?bs @ take (?space - k) (drop (pos + k) c) = take ?space (drop pos c)"
      using \<open>length buf + k < BUF_SIZE\<close> take_add [of k "?space - k" "drop pos c"] by (simp add: add.commute)
    ultimately show ?thesis
      using False len k(2) by (subst fill_buffer.simps) (auto simp: read)
  qed
qed

text \<open>The sender's loop is called once with each environment; the messages go to a list. Each digest that
  was sent is answered before the next call.\<close>

definition collect :: "file_message list \<Rightarrow> file_message \<Rightarrow> file_message list \<times> bool" where
  "collect q m = (q @ [m], True)"

fun confirm_digest ::
    "(i32 \<Rightarrow> confirm_union) \<Rightarrow> fs_env \<Rightarrow> file_tree \<Rightarrow> transfer_job list \<Rightarrow> file_message \<Rightarrow> transfer_job list" where
  "confirm_digest answer env tree jobs (DigestMessage jid num modified len resume) =
     concat (map (\<lambda>job. if tj_id job = jid
       then (case job_confirm env num (answer num) job tree of None \<Rightarrow> [] | Some job' \<Rightarrow> [job']) else [job]) jobs)"
| "confirm_digest answer env tree jobs _ = jobs"

fun pump ::
    "transfer_codec \<Rightarrow> (i32 \<Rightarrow> confirm_union) \<Rightarrow> file_tree \<Rightarrow> fs_env list \<Rightarrow> transfer_job list \<Rightarrow> file_message list
     \<Rightarrow> transfer_job list \<times> file_message list" where
  "pump K answer tree [] jobs q = (jobs, q)"
| "pump K answer tree (env # envs) jobs q =
     (case handle_read_jobs K collect env tree jobs [] of
        (jobs', new, _) \<Rightarrow> pump K answer tree envs (foldl (confirm_digest answer env tree) jobs' new) (q @ new))"

definition entry_node :: "node \<Rightarrow> path_buf \<Rightarrow> file_entry list \<Rightarrow> nat \<Rightarrow> node" where
  "entry_node cwd p files i = place cwd (job_join p (fe_name (files ! i)))"

lemma job_join_nonempty: "p \<noteq> [] \<Longrightarrow> job_join p name \<noteq> []"
  by (auto simp: job_join_def path_join_def)

text \<open>The messages of a job: with overwrite detection the digest of each file, then its blocks.\<close>

definition digest_message :: "transfer_job \<Rightarrow> (nat \<Rightarrow> u64) \<Rightarrow> nat \<Rightarrow> bytes \<Rightarrow> file_message" where
  "digest_message job mtimes i c =
     DigestMessage (tj_id job) (of_nat i) (mtimes i) (of_nat (length c)) (tj_is_resume job)"

definition announced :: "transfer_job \<Rightarrow> (nat \<Rightarrow> u64) \<Rightarrow> nat \<Rightarrow> bytes \<Rightarrow> file_message list" where
  "announced job mtimes i c = (if tj_enable_overwrite_detection job then [digest_message job mtimes i c] else [])"

fun job_messages :: "transfer_codec \<Rightarrow> transfer_job \<Rightarrow> (nat \<Rightarrow> u64) \<Rightarrow> nat \<Rightarrow> bytes list \<Rightarrow> file_message list" where
  "job_messages K job mtimes i [] = []"
| "job_messages K job mtimes i (c # cs) =
     announced job mtimes i c @ map BlockMessage (file_blocks K job i c) @ job_messages K job mtimes (Suc i) cs"

fun blocks_of :: "file_message list \<Rightarrow> file_block list" where
  "blocks_of [] = []"
| "blocks_of (BlockMessage block # ms) = block # blocks_of ms"
| "blocks_of (_ # ms) = blocks_of ms"

lemma blocks_of_append: "blocks_of (xs @ ys) = blocks_of xs @ blocks_of ys"
  by (induction xs rule: blocks_of.induct) simp_all

lemma blocks_of_blocks: "blocks_of (map BlockMessage bs) = bs"
  by (induction bs) simp_all

lemma blocks_of_messages: "blocks_of (job_messages K job mtimes i cs) = job_blocks K job i cs"
  by (induction cs arbitrary: i) (simp_all add: blocks_of_append blocks_of_blocks announced_def digest_message_def)

text \<open>The job \<open>j0\<close> has come to file \<open>i\<close>; an open file is one that was confirmed if it had to be.\<close>

definition sending :: "transfer_job \<Rightarrow> path_buf \<Rightarrow> nat \<Rightarrow> data_stream option \<Rightarrow> transfer_job \<Rightarrow> bool" where
  "sending j0 p i ds job \<longleftrightarrow>
     tj_id job = tj_id j0 \<and> tj_type job = Generic \<and> tj_data_source job = FilePath p \<and>
     tj_data_source j0 = FilePath p \<and> tj_files job = tj_files j0 \<and> tj_file_num job = of_nat i \<and>
     tj_is_resume job = tj_is_resume j0 \<and> tj_data_stream job = ds \<and>
     tj_enable_overwrite_detection job = tj_enable_overwrite_detection j0 \<and>
     (if ds = None then \<not> tj_file_confirmed job \<and> \<not> tj_file_is_waiting job
      else tj_enable_overwrite_detection j0 \<longrightarrow> tj_file_confirmed job) \<and>
     \<not> tj_file_skipped job \<and> \<not> tj_is_last_job job"

lemma sending_name:
  assumes "sending j0 p i ds job"
  shows "current_name job = name_at j0 i"
  using assms by (simp add: sending_def current_name_def name_at_def)

text \<open>Opening the current file.\<close>

lemma sending_opened:
  assumes "good_env cwd env" and "sending j0 p i None job" and "i < length (tj_files j0)" and "i < 2 ^ 31"
    and "tree (entry_node cwd p (tj_files j0) i) = Some c" and "p \<noteq> []"
  shows "open_data_stream env job tree =
    (job\<lparr>tj_data_stream := Some (FileStream ReadMode (entry_node cwd p (tj_files j0) i) 0),
         tj_file_confirmed := False, tj_file_is_waiting := False\<rparr>, Inr False)"
  using assms as_usize_of_nat [OF assms(4)] good_target [OF assms(1) job_join_nonempty [OF assms(6)]]
  by (auto simp: open_data_stream_def sending_def entry_node_def good_env_def)

lemma sending_open:
  assumes "good_env cwd env" and "sending j0 p i ds job" and "i < length (tj_files j0)" and "i < 2 ^ 31"
    and "tree (entry_node cwd p (tj_files j0) i) = Some c" and "p \<noteq> []"
    and "ds = None \<and> pos = 0 \<and> \<not> tj_enable_overwrite_detection j0 \<or>
      ds = Some (FileStream ReadMode (entry_node cwd p (tj_files j0) i) pos)"
  obtains job1 where "init_jobs collect env tree [job] q = ([job1], q, True)"
    and "sending j0 p i (Some (FileStream ReadMode (entry_node cwd p (tj_files j0) i) pos)) job1"
proof -
  let ?n = "entry_node cwd p (tj_files j0) i"
  define job1 where "job1 = (if ds = None then job\<lparr>tj_data_stream := Some (FileStream ReadMode ?n 0),
      tj_file_confirmed := False, tj_file_is_waiting := False\<rparr> else job)"
  have s1: "sending j0 p i (Some (FileStream ReadMode ?n pos)) job1"
    using assms(2,7) by (auto simp: sending_def job1_def)
  have "open_data_stream env job tree = (job1, Inr False)"
  proof (cases ds)
    case None
    then show ?thesis using sending_opened [where tree = tree, OF assms(1) _ assms(3-6)] assms(2) by (simp add: job1_def)
  next
    case (Some stream)
    then show ?thesis using assms(2,3) as_usize_of_nat [OF assms(4)]
      by (simp add: open_data_stream_def sending_def job1_def)
  qed
  then have "init_jobs collect env tree [job] q = ([job1], q, True)"
    using s1 assms(2) by (auto simp: init_data_stream_def sending_def)
  with s1 show thesis using that by blast
qed

lemma read_buffer:
  assumes "good_env cwd env" and "tree n = Some c" and "pos \<le> length c"
  shows "fill_buffer env tree (FileStream ReadMode n pos) [] =
     (FileStream ReadMode n (pos + min BUF_SIZE (length c - pos)), Some (take BUF_SIZE (drop pos c)))"
  using fill_buffer_good [where tree = tree and n = n and buf = "[]" and pos = pos, OF assms(1,2)] by (simp add: BUF_SIZE_def)

text \<open>One call that announces the file, one while the file has more bytes, one at its end, and the last one.\<close>

lemma send_digest:
  assumes "good_env cwd env" and "sending j0 p i None job" and "i < length (tj_files j0)" and "i < 2 ^ 31"
    and "tree (entry_node cwd p (tj_files j0) i) = Some c" and "p \<noteq> []" and "tj_enable_overwrite_detection j0"
    and "fx_modified env (entry_node cwd p (tj_files j0) i) = Some (mtimes i)"
    and "answer (of_nat i) = ConfirmSkip False \<or> answer (of_nat i) = ConfirmOffset 0"
  obtains job1 job2 where "handle_read_jobs K collect env tree [job] [] = ([job1], [digest_message j0 mtimes i c], True)"
    and "confirm_digest answer env tree [job1] (digest_message j0 mtimes i c) = [job2]"
    and "sending j0 p i (Some (FileStream ReadMode (entry_node cwd p (tj_files j0) i) 0)) job2"
proof -
  let ?n = "entry_node cwd p (tj_files j0) i"
  define job1 where "job1 = job\<lparr>tj_data_stream := Some (FileStream ReadMode ?n 0), tj_file_confirmed := False,
      tj_file_is_waiting := True\<rparr>"
  have "init_data_stream collect env job tree [] = (job1, [digest_message j0 mtimes i c], Inr ())"
    using assms(2,5,7,8) sending_opened [where tree = tree, OF assms(1-6)]
    by (simp add: init_data_stream_def get_current_digest_def collect_def job1_def sending_def digest_message_def)
  then have init: "init_jobs collect env tree [job] [] = ([job1], [digest_message j0 mtimes i c], True)"
    using assms(2) by (simp add: sending_def)
  have "job_read K env job1 tree = (job1, Inr None)"
    using assms(2,7) by (simp add: job_read_def job1_def sending_def)
  then have step: "handle_read_jobs K collect env tree [job] [] = ([job1], [digest_message j0 mtimes i c], True)"
    using assms(2,7) init
    by (simp add: handle_read_jobs_def read_job_step_def job_completed_def job1_def sending_def)
  have "job_confirm env (of_nat i) (answer (of_nat i)) job1 tree = Some (set_file_confirmed True job1)"
    using assms(2,9) by (auto simp: job_confirm_def job1_def sending_def Let_def)
  then have confirm: "confirm_digest answer env tree [job1] (digest_message j0 mtimes i c) = [set_file_confirmed True job1]"
    using assms(2) by (simp add: digest_message_def job1_def sending_def)
  have "sending j0 p i (Some (FileStream ReadMode ?n 0)) (set_file_confirmed True job1)"
    using assms(2) by (simp add: sending_def job1_def set_file_confirmed_def)
  with step confirm show thesis using that by blast
qed

lemma send_piece:
  assumes "good_env cwd env" and "sending j0 p i ds job" and "i < length (tj_files j0)" and "i < 2 ^ 31"
    and "tree (entry_node cwd p (tj_files j0) i) = Some c" and "p \<noteq> []"
    and "ds = None \<and> pos = 0 \<and> \<not> tj_enable_overwrite_detection j0 \<or>
      ds = Some (FileStream ReadMode (entry_node cwd p (tj_files j0) i) pos)"
    and "pos < length c"
  obtains job' where "handle_read_jobs K collect env tree [job] [] =
      ([job'], [BlockMessage (pack K (tj_id j0) i (name_at j0 i) (take BUF_SIZE (drop pos c)))], True)"
    and "sending j0 p i (Some (FileStream ReadMode (entry_node cwd p (tj_files j0) i) (pos + min BUF_SIZE (length c - pos)))) job'"
proof -
  let ?n = "entry_node cwd p (tj_files j0) i" and ?buf = "take BUF_SIZE (drop pos c)"
  obtain job1 where init: "init_jobs collect env tree [job] [] = ([job1], [], True)"
    and s1: "sending j0 p i (Some (FileStream ReadMode ?n pos)) job1"
    using sending_open [where tree = tree, OF assms(1-7)] by metis
  have ne: "?buf \<noteq> []" using assms(8) by (simp add: BUF_SIZE_def)
  obtain job' where r: "job_read K env job1 tree = (job', Inr (Some (pack K (tj_id j0) i (name_at j0 i) ?buf)))"
    and s': "sending j0 p i (Some (FileStream ReadMode ?n (pos + min BUF_SIZE (length c - pos)))) job'"
    using s1 assms(3) ne sending_name [OF s1] as_usize_of_nat [OF assms(4)]
      read_buffer [where tree = tree and pos = pos, OF assms(1,5)] assms(8)
    by (auto simp: job_read_def sending_def pack_def Let_def)
  from s' r init have "handle_read_jobs K collect env tree [job] [] =
      ([job'], [BlockMessage (pack K (tj_id j0) i (name_at j0 i) ?buf)], True)"
    using s1 by (simp add: handle_read_jobs_def read_job_step_def collect_def sending_def)
  with s' show thesis using that by blast
qed

lemma send_end:
  assumes "good_env cwd env" and "sending j0 p i ds job" and "i < length (tj_files j0)" and "i < 2 ^ 31"
    and "tree (entry_node cwd p (tj_files j0) i) = Some c" and "p \<noteq> []"
    and "ds = None \<and> pos = 0 \<and> \<not> tj_enable_overwrite_detection j0 \<or>
      ds = Some (FileStream ReadMode (entry_node cwd p (tj_files j0) i) pos)"
    and "pos = length c"
  obtains job' where "handle_read_jobs K collect env tree [job] [] = ([job'], [BlockMessage (end_block (tj_id j0) i)], True)"
    and "sending j0 p (Suc i) None job'"
proof -
  let ?n = "entry_node cwd p (tj_files j0) i"
  obtain job1 where init: "init_jobs collect env tree [job] [] = ([job1], [], True)"
    and s1: "sending j0 p i (Some (FileStream ReadMode ?n pos)) job1"
    using sending_open [where tree = tree, OF assms(1-7)] by metis
  obtain job' where r: "job_read K env job1 tree = (job', Inr (Some (end_block (tj_id j0) i)))"
    and s': "sending j0 p (Suc i) None job'"
    using s1 assms(3) as_usize_of_nat [OF assms(4)] read_buffer [where tree = tree and pos = pos, OF assms(1,5)] assms(8)
    by (auto simp: job_read_def sending_def end_block_def next_file_def Let_def)
  from s' r init have "handle_read_jobs K collect env tree [job] [] =
      ([job'], [BlockMessage (end_block (tj_id j0) i)], True)"
    using s1 by (simp add: handle_read_jobs_def read_job_step_def collect_def sending_def)
  with s' show thesis using that by blast
qed

lemma send_done:
  assumes "sending j0 p i None job" and "i = length (tj_files j0)" and "i < 2 ^ 31"
  shows "handle_read_jobs K collect env tree [job] [] = ([], [DoneMessage (tj_id j0) (of_nat i)], True)"
proof -
  have "init_jobs collect env tree [job] [] = ([job], [], True)"
    using assms as_usize_of_nat [OF assms(3)]
    by (simp add: init_data_stream_def open_data_stream_def sending_def)
  moreover have "job_read K env job tree = (job, Inr None)"
    using assms as_usize_of_nat [OF assms(3)] by (simp add: job_read_def sending_def)
  ultimately show ?thesis using assms
    by (simp add: handle_read_jobs_def read_job_step_def collect_def sending_def job_completed_def job_skipped_def)
qed

text \<open>What is left to send from position \<open>pos\<close> of file \<open>i\<close>.\<close>

definition left_to_send ::
    "transfer_codec \<Rightarrow> transfer_job \<Rightarrow> (nat \<Rightarrow> u64) \<Rightarrow> bytes list \<Rightarrow> nat \<Rightarrow> nat \<Rightarrow> data_stream option \<Rightarrow> file_message list" where
  "left_to_send K j0 mtimes cs i pos ds =
     (if i < length cs
      then (if ds = None then announced j0 mtimes i (cs ! i) else []) @
           map BlockMessage (file_blocks K j0 i (drop pos (cs ! i))) @ job_messages K j0 mtimes (Suc i) (drop (Suc i) cs)
      else [])"

lemma left_to_send_start: "i \<le> length cs \<Longrightarrow> left_to_send K j0 mtimes cs i 0 None = job_messages K j0 mtimes i (drop i cs)"
  by (cases "i < length cs") (simp_all add: left_to_send_def Cons_nth_drop_Suc [symmetric])

lemma left_piece:
  assumes "i < length cs" and "pos < length (cs ! i)" and "ds = None \<longrightarrow> \<not> tj_enable_overwrite_detection j0"
  shows "left_to_send K j0 mtimes cs i pos ds =
     BlockMessage (pack K (tj_id j0) i (name_at j0 i) (take BUF_SIZE (drop pos (cs ! i)))) #
     left_to_send K j0 mtimes cs i (pos + min BUF_SIZE (length (cs ! i) - pos)) (Some stream)"
proof -
  have "drop (pos + min BUF_SIZE (length (cs ! i) - pos)) (cs ! i) = drop BUF_SIZE (drop pos (cs ! i))"
    by (simp add: min_def add.commute)
  with assms show ?thesis by (auto simp: left_to_send_def file_blocks_def announced_def)
qed

lemma left_end:
  assumes "i < length cs" and "ds = None \<longrightarrow> \<not> tj_enable_overwrite_detection j0"
  shows "left_to_send K j0 mtimes cs i (length (cs ! i)) ds =
     BlockMessage (end_block (tj_id j0) i) # left_to_send K j0 mtimes cs (Suc i) 0 None"
  using assms left_to_send_start [of "Suc i" cs] by (auto simp: left_to_send_def [of _ _ _ _ i] file_blocks_def announced_def)

lemma left_digest:
  assumes "i < length cs" and "tj_enable_overwrite_detection j0"
  shows "left_to_send K j0 mtimes cs i 0 None =
     digest_message j0 mtimes i (cs ! i) # left_to_send K j0 mtimes cs i 0 (Some stream)"
  using assms by (simp add: left_to_send_def announced_def)

definition at_position :: "node \<Rightarrow> path_buf \<Rightarrow> file_entry list \<Rightarrow> nat \<Rightarrow> nat \<Rightarrow> data_stream option \<Rightarrow> bool" where
  "at_position cwd p files i pos ds \<longleftrightarrow>
     (if i < length files then ds = None \<and> pos = 0 \<or> ds = Some (FileStream ReadMode (entry_node cwd p files i) pos)
      else ds = None)"

text \<open>A system on which the files have the times \<open>mtimes\<close>.\<close>

definition sender_env :: "node \<Rightarrow> path_buf \<Rightarrow> file_entry list \<Rightarrow> (nat \<Rightarrow> u64) \<Rightarrow> fs_env \<Rightarrow> bool" where
  "sender_env cwd p files mtimes env \<longleftrightarrow>
     good_env cwd env \<and> (\<forall>i < length files. fx_modified env (entry_node cwd p files i) = Some (mtimes i))"

lemma pump_sends:
  assumes "\<forall>k < length (tj_files j0). tree (entry_node cwd p (tj_files j0) k) = Some (cs ! k)"
    and "length cs = length (tj_files j0)" and "length (tj_files j0) < 2 ^ 31" and "p \<noteq> []"
    and "\<forall>i. answer i = ConfirmSkip False \<or> answer i = ConfirmOffset 0"
    and "list_all (sender_env cwd p (tj_files j0) mtimes) envs"
    and "length envs = Suc (length (left_to_send K j0 mtimes cs i pos ds))"
    and "sending j0 p i ds job" and "i \<le> length (tj_files j0)" and "at_position cwd p (tj_files j0) i pos ds"
    and "i < length (tj_files j0) \<longrightarrow> pos \<le> length (cs ! i)"
  shows "pump K answer tree envs [job] q =
     ([], q @ left_to_send K j0 mtimes cs i pos ds @ [DoneMessage (tj_id j0) (of_nat (length (tj_files j0)))])"
  using assms(6-11)
proof (induction envs arbitrary: i pos ds job q)
  case (Cons env envs)
  let ?n = "length (tj_files j0)" and ?node = "entry_node cwd p (tj_files j0) i"
  have env: "good_env cwd env" "list_all (sender_env cwd p (tj_files j0) mtimes) envs"
    using Cons.prems(1) by (simp_all add: sender_env_def [of _ _ _ _ env])
  have small: "i < 2 ^ 31" using Cons.prems(4) assms(3) by simp
  show ?case
  proof (cases "i < ?n")
    case False
    then have i: "i = ?n" and ds: "ds = None" using Cons.prems(4,5) by (simp_all add: at_position_def)
    have "left_to_send K j0 mtimes cs i pos ds = []" using i assms(2) by (simp add: left_to_send_def)
    moreover from this Cons.prems(2) have "envs = []" by simp
    ultimately show ?thesis using send_done [OF _ i small] Cons.prems(3) ds i by simp
  next
    case i: True
    have time: "fx_modified env ?node = Some (mtimes i)" using Cons.prems(1) i by (simp add: sender_env_def)
    have c: "tree ?node = Some (cs ! i)" using assms(1) i by blast
    have i': "i < length cs" using i assms(2) by simp
    consider (digest) "ds = None" "pos = 0" "tj_enable_overwrite_detection j0"
      | (go) "ds = None \<and> pos = 0 \<and> \<not> tj_enable_overwrite_detection j0 \<or> ds = Some (FileStream ReadMode ?node pos)"
      using Cons.prems(5) i by (auto simp: at_position_def)
    then show ?thesis
    proof cases
      case digest
      let ?m = "digest_message j0 mtimes i (cs ! i)" and ?s = "Some (FileStream ReadMode ?node 0)"
      obtain job1 job2 where step: "handle_read_jobs K collect env tree [job] [] = ([job1], [?m], True)"
        "confirm_digest answer env tree [job1] ?m = [job2]" and s': "sending j0 p i ?s job2"
        using send_digest [where tree = tree and mtimes = mtimes and answer = answer, OF env(1) _ i small c assms(4) digest(3) time]
          Cons.prems(3) digest(1) assms(5) by metis
      note left = left_digest [OF i' digest(3), of K mtimes "FileStream ReadMode ?node 0"]
      have "pump K answer tree envs [job2] (q @ [?m]) =
          ([], (q @ [?m]) @ left_to_send K j0 mtimes cs i 0 ?s @ [DoneMessage (tj_id j0) (of_nat ?n)])"
        using Cons.prems(2,4) left s' i digest by (intro Cons.IH env(2)) (auto simp: at_position_def)
      then show ?thesis using digest by (simp add: step left)
    next
      case go
      show ?thesis
      proof (cases "pos < length (cs ! i)")
        case True
        let ?pos = "pos + min BUF_SIZE (length (cs ! i) - pos)"
        let ?m = "BlockMessage (pack K (tj_id j0) i (name_at j0 i) (take BUF_SIZE (drop pos (cs ! i))))"
        obtain job' where step: "handle_read_jobs K collect env tree [job] [] = ([job'], [?m], True)"
          and s': "sending j0 p i (Some (FileStream ReadMode ?node ?pos)) job'"
          using send_piece [where tree = tree, OF env(1) Cons.prems(3) i small c assms(4) go True] by metis
        have left: "left_to_send K j0 mtimes cs i pos ds = ?m # left_to_send K j0 mtimes cs i ?pos (Some (FileStream ReadMode ?node ?pos))"
          using go by (intro left_piece i' True) auto
        have "pump K answer tree envs [job'] (q @ [?m]) =
            ([], (q @ [?m]) @ left_to_send K j0 mtimes cs i ?pos (Some (FileStream ReadMode ?node ?pos)) @ [DoneMessage (tj_id j0) (of_nat ?n)])"
          using Cons.prems(2,4) left s' i True by (intro Cons.IH env(2)) (auto simp: at_position_def)
        then show ?thesis by (simp add: step left)
      next
        case False
        then have pos: "pos = length (cs ! i)" using Cons.prems(6) i by simp
        let ?m = "BlockMessage (end_block (tj_id j0) i)"
        obtain job' where step: "handle_read_jobs K collect env tree [job] [] = ([job'], [?m], True)"
          and s': "sending j0 p (Suc i) None job'"
          using send_end [where tree = tree, OF env(1) Cons.prems(3) i small c assms(4) go pos] by metis
        have left: "left_to_send K j0 mtimes cs i pos ds = ?m # left_to_send K j0 mtimes cs (Suc i) 0 None"
          unfolding pos using go by (intro left_end i') auto
        have "pump K answer tree envs [job'] (q @ [?m]) =
            ([], (q @ [?m]) @ left_to_send K j0 mtimes cs (Suc i) 0 None @ [DoneMessage (tj_id j0) (of_nat ?n)])"
          using Cons.prems(2) left s' i by (intro Cons.IH env(2)) (auto simp: at_position_def)
        then show ?thesis by (simp add: step left)
      qed
    qed
  qed
qed simp

section \<open>Receiving\<close>

fun recv_run ::
    "transfer_codec \<Rightarrow> (fs_env \<times> file_block) list \<Rightarrow> transfer_job \<Rightarrow> file_tree \<Rightarrow> transfer_job \<times> file_tree \<times> bool" where
  "recv_run K [] job tree = (job, tree, True)"
| "recv_run K ((env, block) # rest) job tree =
     (case job_write K env block job tree of
        (job', tree', Inl _) \<Rightarrow> (job', tree', False)
      | (job', tree', Inr _) \<Rightarrow> recv_run K rest job' tree')"

definition temp_node :: "bytes \<Rightarrow> node \<Rightarrow> path_buf \<Rightarrow> file_entry list \<Rightarrow> nat \<Rightarrow> node" where
  "temp_node ext cwd p files i = place cwd (job_join p (fe_name (files ! i)) @ ext)"

abbreviation "download_node \<equiv> temp_node DOWNLOAD_EXT"
abbreviation "digest_node \<equiv> temp_node DIGEST_EXT"

text \<open>No two files have the same destination, and none is the temporary file of another.\<close>

definition clash_free :: "node \<Rightarrow> path_buf \<Rightarrow> file_entry list \<Rightarrow> bool" where
  "clash_free cwd p files \<longleftrightarrow>
     (\<forall>i < length files. \<forall>j < length files.
        (entry_node cwd p files i = entry_node cwd p files j \<longrightarrow> i = j) \<and>
        entry_node cwd p files i \<noteq> download_node cwd p files j \<and> entry_node cwd p files i \<noteq> digest_node cwd p files j \<and>
        download_node cwd p files i \<noteq> digest_node cwd p files j)"

lemma clash_freeD:
  assumes "clash_free cwd p files" and "i < length files" and "j < length files"
  shows "entry_node cwd p files i = entry_node cwd p files j \<longleftrightarrow> i = j"
    and "entry_node cwd p files i \<noteq> download_node cwd p files j" and "download_node cwd p files j \<noteq> entry_node cwd p files i"
    and "entry_node cwd p files i \<noteq> digest_node cwd p files j" and "digest_node cwd p files j \<noteq> entry_node cwd p files i"
    and "download_node cwd p files i \<noteq> digest_node cwd p files j" and "digest_node cwd p files j \<noteq> download_node cwd p files i"
  using assms unfolding clash_free_def by metis+

text \<open>Names that were accepted once are accepted again.\<close>

lemma no_symlinks_again:
  assumes "good_env cwd env" and "no_symlinks kind cur cs = Inr ()"
  shows "no_symlinks (metadata_kind env) cur cs = Inr ()"
proof -
  have "metadata_kind env (cs @ [Normal s]) \<noteq> Symlink t \<and> metadata_kind env (cs @ [Normal s]) \<noteq> Unreadable" for cs s t
    using assms(1) by (simp add: entry_in_def good_env_def walk_lexical)
  with assms(2) show ?thesis
    by (induction kind cur cs rule: no_symlinks.induct) (auto simp del: metadata_kind_Normal simp: Let_def split: node_kind.splits)
qed

definition accepted_names :: "node \<Rightarrow> path_buf \<Rightarrow> file_entry list \<Rightarrow> bool" where
  "accepted_names cwd p files \<longleftrightarrow> p \<noteq> [] \<and> (\<forall>f \<in> set files. utf8_valid (job_join p (fe_name f)) \<and>
     (\<forall>env. good_env cwd env \<longrightarrow> join_validated_path (metadata_kind env) p (fe_name f) = Inr (job_join p (fe_name f))))"

lemma check_symlinks_all:
  "check_symlinks env p files = Inr () \<Longrightarrow> f \<in> set files \<Longrightarrow>
     validate_no_symlink_components (metadata_kind env) p (fe_name f) = Inr ()"
  by (induction files) (auto split: sum.splits)

lemma validate_each_all:
  "validate_each_name files = Inr () \<Longrightarrow> f \<in> set files \<Longrightarrow> validate_file_name_no_traversal (fe_name f) = Inr ()"
  by (induction files) (auto split: sum.splits if_splits)

lemma set_files_accepted:
  assumes "set_files env0 files job0 = (job, Inr ())" and "tj_data_source job0 = FilePath p"
    and "p \<noteq> []" and "utf8_valid p" and "list_all (\<lambda>f. utf8_valid (fe_name f)) files"
  shows "accepted_names cwd p files"
proof -
  have "join_validated_path (metadata_kind env) p (fe_name f) = Inr (job_join p (fe_name f))"
    if f: "f \<in> set files" and env: "good_env cwd env" for f env
  proof -
    have ok: "validate_transfer_file_names files = Inr ()" "check_symlinks env0 p files = Inr ()"
      using assms by (auto simp: set_files_def split: sum.splits)
    have "validate_file_name_no_traversal [] = Inr ()" by code_simp
    then have "validate_file_name_no_traversal (fe_name f) = Inr ()"
      using ok(1) f validate_each_all [of files f]
      by (auto simp: validate_transfer_file_names_def length_Suc_conv split: if_splits)
    moreover have "validate_no_symlink_components (metadata_kind env) p (fe_name f) = Inr ()"
      using check_symlinks_all [OF ok(2) f] no_symlinks_again [OF env]
      by (auto simp: validate_no_symlink_components_def)
    ultimately show ?thesis by (simp add: join_validated_path_def)
  qed
  with assms(3-5) show ?thesis by (simp add: accepted_names_def joined_valid list_all_iff)
qed

text \<open>The job \<open>j0\<close> has come to file \<open>i\<close> and has written \<open>pre\<close> of it; those before are complete.\<close>

definition taking :: "transfer_job \<Rightarrow> path_buf \<Rightarrow> nat \<Rightarrow> transfer_job \<Rightarrow> bool" where
  "taking j0 p i job \<longleftrightarrow>
     tj_id job = tj_id j0 \<and> tj_type job = Generic \<and> tj_data_source job = FilePath p \<and>
     tj_files job = tj_files j0 \<and> tj_file_num job = of_nat i"

definition received :: "node \<Rightarrow> transfer_job \<Rightarrow> path_buf \<Rightarrow> bytes list \<Rightarrow> nat \<Rightarrow> bytes \<Rightarrow> transfer_job \<Rightarrow> file_tree \<Rightarrow> bool" where
  "received cwd j0 p cs i pre job tree \<longleftrightarrow>
     taking j0 p i job \<and> tj_data_stream job = Some (FileStream WriteMode (download_node cwd p (tj_files j0) i) (length pre)) \<and>
     tree (download_node cwd p (tj_files j0) i) = Some pre \<and>
     (\<forall>k < i. tree (entry_node cwd p (tj_files j0) k) = Some (cs ! k))"

text \<open>It is ready for file \<open>i\<close>: nothing was written yet, or the file before was written in full.\<close>

definition ready :: "node \<Rightarrow> transfer_job \<Rightarrow> path_buf \<Rightarrow> bytes list \<Rightarrow> nat \<Rightarrow> transfer_job \<Rightarrow> file_tree \<Rightarrow> bool" where
  "ready cwd j0 p cs i job tree \<longleftrightarrow>
     (if i = 0 then taking j0 p 0 job \<and> tj_data_stream job = None
      else received cwd j0 p cs (i - 1) (cs ! (i - 1)) job tree)"

definition payload :: "transfer_codec \<Rightarrow> file_block \<Rightarrow> bytes option" where
  "payload K block =
     (if fb_compressed block then decompress_limited K (fb_data block) FILE_BLOCK_DECOMPRESS_MAX_LEN
      else Some (fb_data block))"

lemma payload_pack:
  assumes "codec_ok K" and "length piece \<le> BUF_SIZE"
  shows "payload K (pack K jid i nm piece) = Some piece"
  using assms
  by (simp add: payload_def pack_def codec_ok_def decompress_limited_def FILE_BLOCK_DECOMPRESS_MAX_LEN_def
      BUF_SIZE_def Let_def)

lemma payload_end: "payload K (end_block jid i) = Some []"
  by (simp add: payload_def end_block_def)

lemma modify_time_eq:
  fixes tree :: file_tree
  assumes "good_env cwd env" and "accepted_names cwd p (tj_files j0)" and "taking j0 p i job"
    and "i < length (tj_files j0)" and "i < 2 ^ 31"
  defines "d \<equiv> download_node cwd p (tj_files j0) i" and "e \<equiv> entry_node cwd p (tj_files j0) i"
    and "t \<equiv> tree(digest_node cwd p (tj_files j0) i := None)"
  shows "modify_time env job tree =
     (case t d of
        None \<Rightarrow> (job, t)
      | Some content \<Rightarrow> (job\<lparr>tj_data_stream := map_option (moved d e) (tj_data_stream job)\<rparr>, (t(d := None))(e \<mapsto> content)))"
proof -
  let ?path = "job_join p (fe_name (tj_files j0 ! i))"
  have acc: "get_string ?path = ?path" "join_validated_path (metadata_kind env) p (fe_name (tj_files j0 ! i)) = Inr ?path"
    and ne: "?path \<noteq> []"
    using assms(1,2) nth_mem [OF assms(4)] job_join_nonempty by (auto simp: accepted_names_def get_string_def)
  have entries: "entry_of env (?path @ DIGEST_EXT) = Some (digest_node cwd p (tj_files j0) i)"
    "entry_of env (?path @ DOWNLOAD_EXT) = Some d" "entry_of env ?path = Some e"
    using good_entry [OF assms(1)] ne by (simp_all add: temp_node_def entry_node_def d_def e_def)
  have "remove_file env (?path @ DIGEST_EXT) tree = t"
    using assms(1) entries by (simp add: remove_file_def t_def good_env_def)
  moreover have "rename_file env (?path @ DOWNLOAD_EXT) ?path stream t =
      (case t d of None \<Rightarrow> (stream, t)
       | Some content \<Rightarrow> (map_option (moved d e) stream, (t(d := None))(e \<mapsto> content)))" for stream
    using assms(1) entries by (auto simp: rename_file_def good_env_def split: node_kind.splits option.split)
  ultimately show ?thesis
    using assms(3,4) acc as_usize_of_nat [OF assms(5)]
    by (auto simp: modify_time_def taking_def resolve_entry_path_def Let_def split: option.split)
qed

lemma modify_time_keeps:
  assumes "modify_time env job tree = (job', tree')"
  obtains stream where "job' = job\<lparr>tj_data_stream := stream\<rparr>"
proof -
  have "\<exists>stream. job' = job\<lparr>tj_data_stream := stream\<rparr>"
    using assms by (auto simp: modify_time_def Let_def split: if_splits data_source.splits option.splits prod.splits
        intro: exI [where x = "tj_data_stream job"])
  then show thesis using that by blast
qed

text \<open>Completing the file that was written in full.\<close>

lemma completed_file:
  assumes "good_env cwd env" and "accepted_names cwd p (tj_files j0)" and "clash_free cwd p (tj_files j0)"
    and "length (tj_files j0) < 2 ^ 31" and "ready cwd j0 p cs i job tree" and "i \<le> length (tj_files j0)" and "k < i"
  shows "snd (modify_time env job tree) (entry_node cwd p (tj_files j0) k) = Some (cs ! k)"
proof -
  let ?f = "tj_files j0"
  obtain l where i: "i = Suc l" using assms(7) by (cases i) simp_all
  have r: "received cwd j0 p cs l (cs ! l) job tree" using assms(5) by (simp add: ready_def i)
  have l: "l < length ?f" "l < 2 ^ 31" and k: "k < length ?f" using assms(4,6,7) by (simp_all add: i)
  note clash = clash_freeD [OF assms(3) k l(1)] clash_freeD [OF assms(3) l(1) l(1)]
  have "taking j0 p l job" using r by (simp add: received_def)
  from modify_time_eq [OF assms(1,2) this l, of tree] r clash assms(7) show ?thesis
    by (auto simp: received_def i less_Suc_eq split: option.split)
qed

lemma write_data:
  assumes "good_env cwd env" and "received cwd j0 p cs i pre job tree" and "payload K block = Some buf"
    and "clash_free cwd p (tj_files j0)" and "i < length (tj_files j0)"
  shows "\<exists>job' tree'. write_block_data K env block job tree = (job', tree', Inr ()) \<and>
    received cwd j0 p cs i (pre @ buf) job' tree'"
proof -
  let ?d = "download_node cwd p (tj_files j0) i"
  have "stream_write env (FileStream WriteMode ?d (length pre)) buf tree =
      (FileStream WriteMode ?d (length pre + length buf), tree(?d \<mapsto> pre @ buf), Inr ())"
    using assms(1,2) by (simp add: stream_write_def good_env_def received_def write_at_def Let_def)
  moreover have "entry_node cwd p (tj_files j0) k \<noteq> ?d" if "k < i" for k
    using clash_freeD(2) [OF assms(4) _ assms(5)] that assms(5) by simp
  ultimately show ?thesis
    using assms(2,3) by (auto simp: write_block_data_def payload_def received_def taking_def)
qed

lemma write_same_file:
  assumes "good_env cwd env" and "received cwd j0 p cs i pre job tree" and "payload K block = Some buf"
    and "clash_free cwd p (tj_files j0)" and "i < length (tj_files j0)" and "i < 2 ^ 31"
    and "fb_id block = tj_id j0" and "fb_file_num block = of_nat i"
  shows "\<exists>job' tree'. job_write K env block job tree = (job', tree', Inr ()) \<and>
    received cwd j0 p cs i (pre @ buf) job' tree'"
proof -
  have "job_write K env block job tree = write_block_data K env block job tree"
    using assms(2,5-8) as_usize_of_nat [OF assms(6)] by (simp add: job_write_def received_def taking_def)
  with write_data [OF assms(1-5)] show ?thesis by simp
qed

lemma open_new_file:
  assumes "good_env cwd env" and "accepted_names cwd p (tj_files j0)" and "clash_free cwd p (tj_files j0)"
    and "length (tj_files j0) < 2 ^ 31" and "ready cwd j0 p cs i job tree" and "i < length (tj_files j0)"
  shows "\<exists>job' tree'. open_for_block K env p (of_nat i) job tree = (job', tree', Inr ()) \<and>
    received cwd j0 p cs i [] job' tree'"
proof -
  let ?f = "tj_files j0" and ?path = "job_join p (fe_name (tj_files j0 ! i))"
  obtain job0 t where m: "modify_time env job tree = (job0, t)" by fastforce
  obtain stream where job0: "job0 = job\<lparr>tj_data_stream := stream\<rparr>" using modify_time_keeps [OF m] .
  have small: "i < 2 ^ 31" using assms(4,6) by simp
  have finished: "k < i \<Longrightarrow> t (entry_node cwd p ?f k) = Some (cs ! k)" for k
    using completed_file [OF assms(1-5), of k] assms(6) m by simp
  have job: "tj_id job = tj_id j0" "tj_type job = Generic" "tj_files job = ?f" "tj_data_source job = FilePath p"
    using assms(5) by (auto simp: ready_def received_def taking_def split: if_splits)
  have path: "get_string ?path = ?path" "join_validated_path (metadata_kind env) p (fe_name (?f ! i)) = Inr ?path"
    and ne: "?path \<noteq> []"
    using assms(1,2) nth_mem [OF assms(6)] job_join_nonempty by (auto simp: accepted_names_def get_string_def)
  have places: "target_of env (?path @ DOWNLOAD_EXT) = Some (download_node cwd p ?f i)"
    "target_of env (?path @ DIGEST_EXT) = Some (digest_node cwd p ?f i)"
    "entry_of env (?path @ DIGEST_EXT) = Some (digest_node cwd p ?f i)"
    using good_target [OF assms(1)] good_entry [OF assms(1)] ne by (simp_all add: temp_node_def)
  have clash: "k < i \<Longrightarrow> entry_node cwd p ?f k \<noteq> download_node cwd p ?f i \<and> entry_node cwd p ?f k \<noteq> digest_node cwd p ?f i" for k
    using clash_freeD(2,4) [OF assms(3) _ assms(6)] assms(6) by simp
  note own = clash_freeD(6,7) [OF assms(3,6,6)]
  show ?thesis
    using assms(1) job path places finished clash own as_usize_of_nat [OF small]
    by (auto simp: open_for_block_def m job0 good_env_def received_def taking_def path_exists_def remove_file_def
        write_digest_def Let_def)
qed

lemma write_new_file:
  assumes "good_env cwd env" and "accepted_names cwd p (tj_files j0)" and "clash_free cwd p (tj_files j0)"
    and "length (tj_files j0) < 2 ^ 31" and "ready cwd j0 p cs i job tree" and "i < length (tj_files j0)"
    and "payload K block = Some buf" and "fb_id block = tj_id j0" and "fb_file_num block = of_nat i"
  shows "\<exists>job' tree'. job_write K env block job tree = (job', tree', Inr ()) \<and> received cwd j0 p cs i buf job' tree'"
proof -
  have small: "i < 2 ^ 31" using assms(4,6) by simp
  obtain job1 tree1 where op: "open_for_block K env p (of_nat i) job tree = (job1, tree1, Inr ())"
    and r: "received cwd j0 p cs i [] job1 tree1" using open_new_file [OF assms(1-6)] by blast
  have "as_usize (tj_file_num job) \<noteq> i \<or> tj_data_stream job = None"
    using assms(5) as_usize_of_nat [of "i - 1"] small
    by (auto simp: ready_def received_def taking_def split: if_splits)
  then have "job_write K env block job tree = write_block_data K env block job1 tree1"
    using assms(5,6,8,9) as_usize_of_nat [OF small] op
    by (auto simp: job_write_def ready_def received_def taking_def split: if_splits)
  with write_data [OF assms(1) r assms(7,3,6)] show ?thesis by simp
qed

text \<open>The blocks of one file, given in order, leave the joined payloads.\<close>

definition blocks_for :: "transfer_codec \<Rightarrow> transfer_job \<Rightarrow> nat \<Rightarrow> file_block \<Rightarrow> bytes \<Rightarrow> bool" where
  "blocks_for K j0 i block buf \<longleftrightarrow>
     fb_id block = tj_id j0 \<and> fb_file_num block = of_nat i \<and> payload K block = Some buf"

lemma recv_same_file:
  assumes "clash_free cwd p (tj_files j0)" and "i < length (tj_files j0)" and "i < 2 ^ 31"
    and "list_all2 (\<lambda>(env, block) buf. good_env cwd env \<and> blocks_for K j0 i block buf) xs bufs"
    and "received cwd j0 p cs i pre job tree"
  shows "\<exists>job' tree'. recv_run K (xs @ ys) job tree = recv_run K ys job' tree' \<and>
    received cwd j0 p cs i (pre @ concat bufs) job' tree'"
  using assms(4,5)
proof (induction xs bufs arbitrary: pre job tree rule: list_all2_induct)
  case (Cons x xs buf bufs)
  obtain env block where x: "x = (env, block)" by fastforce
  with Cons.hyps(1) have "good_env cwd env" "payload K block = Some buf" "fb_id block = tj_id j0" "fb_file_num block = of_nat i"
    by (simp_all add: blocks_for_def)
  with write_same_file [OF _ Cons.prems _ assms(1-3)] obtain job1 tree1 where
    "job_write K env block job tree = (job1, tree1, Inr ())" "received cwd j0 p cs i (pre @ buf) job1 tree1" by blast
  with Cons.IH [OF this(2)] show ?case by (simp add: x)
qed auto

lemma recv_file:
  assumes "accepted_names cwd p (tj_files j0)" and "clash_free cwd p (tj_files j0)"
    and "length (tj_files j0) < 2 ^ 31" and "i < length (tj_files j0)"
    and "list_all2 (\<lambda>(env, block) buf. good_env cwd env \<and> blocks_for K j0 i block buf) xs bufs" and "xs \<noteq> []"
    and "ready cwd j0 p cs i job tree" and "concat bufs = cs ! i"
  shows "\<exists>job' tree'. recv_run K (xs @ ys) job tree = recv_run K ys job' tree' \<and> ready cwd j0 p cs (Suc i) job' tree'"
proof -
  obtain env block xs' buf bufs' where x: "xs = (env, block) # xs'" "bufs = buf # bufs'"
    and b: "good_env cwd env" "blocks_for K j0 i block buf"
    and r: "list_all2 (\<lambda>(env, block) buf. good_env cwd env \<and> blocks_for K j0 i block buf) xs' bufs'"
    using assms(5,6) by (cases xs; cases bufs) auto
  obtain job1 tree1 where w: "job_write K env block job tree = (job1, tree1, Inr ())" "received cwd j0 p cs i buf job1 tree1"
    using write_new_file [OF b(1) assms(1-3,7,4)] b(2) unfolding blocks_for_def by blast
  have "i < 2 ^ 31" using assms(3,4) by simp
  from recv_same_file [OF assms(2,4) this r w(2)] w(1) assms(8) show ?thesis by (simp add: x ready_def)
qed

lemma file_blocks_for:
  assumes "codec_ok K" and "tj_id s0 = tj_id j0"
  shows "list_all2 (blocks_for K j0 i) (file_blocks K s0 i c) (cut c @ [[]])"
  unfolding file_blocks_def
proof (rule list_all2_appendI)
  show "list_all2 (blocks_for K j0 i) [end_block (tj_id s0) i] [[]]"
    using assms(2) by (simp add: blocks_for_def payload_end) (simp add: end_block_def)
  have "blocks_for K j0 i (pack K (tj_id s0) i (name_at s0 i) piece) piece" if "piece \<in> set (cut c)" for piece
    using cut_pieces [OF that] payload_pack [OF assms(1)] assms(2)
    by (simp add: blocks_for_def) (simp add: pack_def Let_def)
  then show "list_all2 (blocks_for K j0 i) (map (pack K (tj_id s0) i (name_at s0 i)) (cut c)) (cut c)"
    by (simp add: list_all2_map1 list_all2_same)
qed

lemma with_environments:
  assumes "list_all2 R bs cs" and "list_all (good_env cwd) envs" and "length envs = length bs"
  shows "list_all2 (\<lambda>(env, b) c. good_env cwd env \<and> R b c) (zip envs bs) cs"
  using assms by (auto simp: list_all2_conv_all_nth list_all_length)

lemma recv_job:
  assumes "accepted_names cwd p (tj_files j0)" and "clash_free cwd p (tj_files j0)" and "length (tj_files j0) < 2 ^ 31"
    and "codec_ok K" and "tj_id s0 = tj_id j0" and "length cs = length (tj_files j0)"
    and "i \<le> length cs" and "list_all (good_env cwd) envs" and "length envs = length (job_blocks K s0 i (drop i cs))"
    and "ready cwd j0 p cs i job tree"
  shows "\<exists>job' tree'. recv_run K (zip envs (job_blocks K s0 i (drop i cs))) job tree = (job', tree', True) \<and>
    ready cwd j0 p cs (length cs) job' tree'"
  using assms(7-10)
proof (induction "drop i cs" arbitrary: i envs job tree)
  case Nil
  then have "i = length cs" by simp
  with Nil show ?case by simp
next
  case (Cons c rest)
  have i: "i < length cs" using Cons.hyps(2) by (metis drop_all leI list.distinct(1))
  have c: "c = cs ! i" "rest = drop (Suc i) cs"
    using Cons.hyps(2) Cons_nth_drop_Suc [OF i] by (metis list.inject)+
  define A where "A = file_blocks K s0 i c"
  let ?B = "job_blocks K s0 (Suc i) rest" and ?es = "take (length A) envs"
  have blocks: "job_blocks K s0 i (drop i cs) = A @ ?B"
    by (simp add: Cons.hyps(2) [symmetric] A_def)
  have zip: "zip envs (A @ ?B) = zip ?es A @ zip (drop (length A) envs) ?B" by (simp add: zip_append2)
  have len: "length ?es = length A" using Cons.prems(3) blocks by simp
  have good: "list_all (good_env cwd) ?es" "list_all (good_env cwd) (drop (length A) envs)"
    using Cons.prems(2) by (auto simp: list_all_iff dest: in_set_takeD in_set_dropD)
  have "list_all2 (\<lambda>(env, b) buf. good_env cwd env \<and> blocks_for K j0 i b buf) (zip ?es A) (cut c @ [[]])"
    using file_blocks_for [OF assms(4,5)] good(1) len unfolding A_def by (rule with_environments)
  moreover have "zip ?es A \<noteq> []" using len by (cases ?es; cases A) (auto simp: A_def file_blocks_def)
  ultimately obtain job1 tree1 where
    run: "recv_run K (zip ?es A @ zip (drop (length A) envs) ?B) job tree = recv_run K (zip (drop (length A) envs) ?B) job1 tree1"
    and r1: "ready cwd j0 p cs (Suc i) job1 tree1"
    using recv_file [OF assms(1-3) _ _ _ Cons.prems(4), where xs = "zip ?es A" and bufs = "cut c @ [[]]"
        and ys = "zip (drop (length A) envs) ?B" and K = K] i assms(6)
    by (auto simp: concat_cut c(1))
  have "length (drop (length A) envs) = length ?B" using Cons.prems(3) blocks by simp
  then have "\<exists>job' tree'. recv_run K (zip (drop (length A) envs) ?B) job1 tree1 = (job', tree', True) \<and>
      ready cwd j0 p cs (length cs) job' tree'"
    using Cons.hyps(1) [OF c(2) _ good(2) _ r1] i unfolding c(2) by simp
  then show ?case unfolding blocks zip run .
qed

section \<open>End to end\<close>

text \<open>
  Property C7: a transfer delivers the files. A sender lists the files of a directory, with or without
  overwrite detection, and a receiver accepts the list for another directory, where no destination
  is the destination or a temporary file of another one. Nothing fails on either side and nothing is
  a symbolic link. With overwrite detection the sender announces each file by its digest and sends
  nothing of it before it is answered; the answer asks for the file from its beginning. Then the
  sender's loop, called once more than it has messages, sends exactly these announcements and the
  blocks of the files and reports that it is done; the receiver takes every block; and after it has
  completed the last file, each file has the contents it has at the sender. Reads may return as few
  bytes as they like, and what was at the receiver before does not matter. Answers that skip a file
  or ask for a later part of it are not covered.
\<close>

theorem file_transfer_end_to_end:
  assumes "new_read jid Generic (FilePath sp) 0 hidden remote detect (Some files) = Inr sender"
    and "set_files env0 files (new_write jid Generic (FilePath rp) 0 hidden' remote' detect') = (receiver, Inr ())"
    and "sp \<noteq> []" and "rp \<noteq> []" and "utf8_valid rp" and "list_all (\<lambda>f. utf8_valid (fe_name f)) files"
    and "length files < 2 ^ 31" and "length cs = length files"
    and "\<forall>i < length files. source (entry_node scwd sp files i) = Some (cs ! i)"
    and "clash_free rcwd rp files" and "codec_ok K"
    and "\<forall>k. sender_env scwd sp files mtimes (se k) \<and> good_env rcwd (re k)"
    and "\<forall>i. answer i = ConfirmSkip False \<or> answer i = ConfirmOffset 0"
  shows "let msgs = job_messages K sender mtimes 0 cs; blocks = blocks_of msgs in
    pump K answer source (map se [0 ..< Suc (length msgs)]) [sender] [] =
      ([], msgs @ [DoneMessage jid (of_nat (length files))]) \<and>
    (\<exists>receiver' target'.
       recv_run K (zip (map re [0 ..< length blocks]) blocks) receiver target = (receiver', target', True) \<and>
       (\<forall>i < length files.
          snd (modify_time (re (length blocks)) receiver' target') (entry_node rcwd rp files i) = Some (cs ! i)))"
proof -
  let ?msgs = "job_messages K sender mtimes 0 cs" and ?blocks = "job_blocks K sender 0 cs"
  have s: "tj_files sender = files" "tj_id sender = jid" "sending sender sp 0 None sender"
    using assms(1) by (auto simp: new_read_def new_write_def sending_def split: if_splits)
  have r: "tj_files receiver = files" "tj_id receiver = jid" "ready rcwd receiver rp cs 0 receiver target"
    using assms(2) by (auto simp: set_files_def new_write_def ready_def taking_def split: sum.splits)
  have acc: "accepted_names rcwd rp files"
    by (rule set_files_accepted [OF assms(2) _ assms(4-6)]) (simp add: new_write_def)
  have left: "left_to_send K sender mtimes cs 0 0 None = ?msgs" using left_to_send_start [of 0 cs] by simp
  have "pump K answer source (map se [0 ..< Suc (length ?msgs)]) [sender] [] =
      ([], [] @ left_to_send K sender mtimes cs 0 0 None @ [DoneMessage (tj_id sender) (of_nat (length (tj_files sender)))])"
    using assms(3,7-9,12,13) s
    by (intro pump_sends [where cwd = scwd]) (auto simp: left at_position_def list_all_iff simp del: upt_Suc)
  moreover have "\<exists>receiver' target'. recv_run K (zip (map re [0 ..< length ?blocks]) (job_blocks K sender 0 (drop 0 cs))) receiver target =
      (receiver', target', True) \<and> ready rcwd receiver rp cs (length cs) receiver' target'"
    using assms(7,8,10-12) acc s r by (intro recv_job [where cwd = rcwd]) (auto simp: list_all_iff)
  then obtain receiver' target' where
    "recv_run K (zip (map re [0 ..< length ?blocks]) ?blocks) receiver target = (receiver', target', True)"
    "ready rcwd receiver rp cs (length cs) receiver' target'" by auto
  moreover from this(2) have "snd (modify_time (re (length ?blocks)) receiver' target') (entry_node rcwd rp files i) = Some (cs ! i)"
    if "i < length files" for i
    using completed_file [of rcwd "re (length ?blocks)" rp receiver cs "length cs" receiver' target' i]
      assms(7,8,10,12) acc r that by simp
  ultimately show ?thesis unfolding Let_def blocks_of_messages left s by auto
qed

text \<open>A file of one byte and an empty one, with overwrite detection.\<close>

definition sample_files :: "file_entry list" where
  "sample_files = [sample_entry, \<lparr>fe_name = [98], fe_size = 0, fe_modified_time = 0\<rparr>]"

definition sample_source :: file_tree where
  "sample_source = [[[115], [97]] \<mapsto> [7], [[115], [98]] \<mapsto> []]"

lemma sample_clash_free: "clash_free [] [47, 100] sample_files"
  by code_simp

lemma sample_nodes:
  "entry_node [] [47, 115] sample_files 0 = [[115], [97]]"
  "entry_node [] [47, 115] sample_files (Suc 0) = [[115], [98]]"
  "entry_node [] [47, 100] sample_files 0 = [[100], [97]]"
  by code_simp+

theorem file_transfer_end_to_end_witness:
  "\<exists>sender receiver receiver' target'.
     new_read 1 Generic (FilePath [47, 115]) 0 False False True (Some sample_files) = Inr sender \<and>
     set_files quiet_env sample_files (new_write 1 Generic (FilePath [47, 100]) 0 False False True) = (receiver, Inr ()) \<and>
     (let msgs = job_messages plain_codec sender (\<lambda>_. 0) 0 [[7], []]; blocks = blocks_of msgs in
       pump plain_codec (\<lambda>_. ConfirmOffset 0) sample_source (map (\<lambda>_. quiet_env) [0 ..< Suc (length msgs)]) [sender] [] =
         ([], msgs @ [DoneMessage 1 2]) \<and>
       recv_run plain_codec (zip (map (\<lambda>_. quiet_env) [0 ..< length blocks]) blocks) receiver Map.empty = (receiver', target', True) \<and>
       snd (modify_time quiet_env receiver' target') [[100], [97]] = Some [7])"
proof -
  have str: "utf8_valid [47, 115]" "utf8_valid [47, 100]" "list_all (\<lambda>f. utf8_valid (fe_name f)) sample_files"
    by code_simp+
  obtain sender where s: "new_read 1 Generic (FilePath [47, 115]) 0 False False True (Some sample_files) = Inr sender"
    using str(1) by (simp add: new_read_def)
  have "snd (set_files quiet_env sample_files (new_write 1 Generic (FilePath [47, 100]) 0 False False True)) = Inr ()"
    by code_simp
  then obtain receiver where r:
    "set_files quiet_env sample_files (new_write 1 Generic (FilePath [47, 100]) 0 False False True) = (receiver, Inr ())"
    by (metis prod.collapse)
  have ne: "[47, 115] \<noteq> ([] :: path_buf)" "[47, 100] \<noteq> ([] :: path_buf)" by simp_all
  have len: "length sample_files < 2 ^ 31" "length [[7 :: u8], []] = length sample_files"
    by (simp_all add: sample_files_def)
  have src: "\<forall>i < length sample_files. sample_source (entry_node [] [47, 115] sample_files i) = Some ([[7], []] ! i)"
    using sample_nodes by (auto simp: sample_files_def sample_source_def less_Suc_eq)
  have codec: "codec_ok plain_codec" by (simp add: codec_ok_def plain_codec_def)
  have "fx_modified quiet_env n = Some 0" for n by (simp add: quiet_env_def)
  then have envs: "\<forall>k :: nat. sender_env [] [47, 115] sample_files (\<lambda>_. 0) ((\<lambda>_. quiet_env) k) \<and> good_env [] ((\<lambda>_. quiet_env) k)"
    by (simp add: sender_env_def quiet_env_good)
  have answers: "\<forall>i. (\<lambda>_ :: i32. ConfirmOffset 0) i = ConfirmSkip False \<or> (\<lambda>_ :: i32. ConfirmOffset 0) i = ConfirmOffset 0"
    by simp
  have two: "of_nat (length sample_files) = (2 :: i32)" "0 < length sample_files" by (simp_all add: sample_files_def)
  let ?msgs = "job_messages plain_codec sender (\<lambda>_. 0) 0 [[7], []]"
  note e2e = file_transfer_end_to_end [OF s r ne str(2,3) len src sample_clash_free codec envs answers,
      where target = Map.empty, unfolded Let_def two(1)]
  obtain receiver' target' where
    run: "recv_run plain_codec (zip (map (\<lambda>_. quiet_env) [0 ..< length (blocks_of ?msgs)]) (blocks_of ?msgs)) receiver Map.empty =
      (receiver', target', True)"
    and all: "\<forall>i < length sample_files.
      snd (modify_time quiet_env receiver' target') (entry_node [] [47, 100] sample_files i) = Some ([[7], []] ! i)"
    using conjunct2 [OF e2e] by blast
  from all two(2) sample_nodes(3) have "snd (modify_time quiet_env receiver' target') [[100], [97]] = Some [7]"
    by (metis nth_Cons_0)
  with s r run conjunct1 [OF e2e] show ?thesis unfolding Let_def by blast
qed

section \<open>Where the code falls short\<close>

text \<open>
  A confirmation that names the position after the last file, with an offset, indexes the list of
  files out of range: the job panics.
\<close>

lemma confirm_past_end_panics:
  assumes "tj_data_source job = FilePath p" and "as_usize (tj_file_num job) \<ge> length (tj_files job)" and "0 < offset"
  shows "job_confirm env (tj_file_num job) (ConfirmOffset offset) job tree = None"
  using assms by (simp add: job_confirm_def set_stream_offset_def set_file_confirmed_def Let_def)

text \<open>
  The first block of a job completes the job's current file before it opens the block's file: a
  temporary file that an interrupted transfer left behind replaces the destination.
\<close>

lemma stale_download_promoted:
  assumes "good_env cwd env" and "accepted_names cwd p (tj_files j0)" and "clash_free cwd p (tj_files j0)"
    and "taking j0 p i job" and "i < length (tj_files j0)" and "i < 2 ^ 31"
    and "tree (download_node cwd p (tj_files j0) i) = Some partial"
  shows "snd (modify_time env job tree) (entry_node cwd p (tj_files j0) i) = Some partial"
  using modify_time_eq [OF assms(1,2,4-6), of tree] assms(7) clash_freeD [OF assms(3,5,5)] by simp

text \<open>
  \<open>compress\<close> answers a failure with an empty vector, which is shorter than any piece: the block is
  sent as compressed and empty, and does not decode to the piece.
\<close>

lemma failed_compression_sent:
  assumes "tc_compress K piece = []" and "piece \<noteq> []" and "\<not> is_compressed_file nm" and "tc_decode K [] \<noteq> Some piece"
  shows "fb_compressed (pack K jid i nm piece) \<and> fb_data (pack K jid i nm piece) = [] \<and>
    payload K (pack K jid i nm piece) \<noteq> Some piece"
  using assms by (auto simp: pack_def payload_def decompress_limited_def Let_def split: option.splits)

end
