(* ===== verification/Application_Messages.thy ===== *)
theory Application_Messages
  imports Video_Sender Video_Recovery Reliable Input_Events
begin

text \<open>
  Application messages (\<open>src/transport/application.rs\<close>): how a protobuf message is classified, which
  messages a channel admits, and the small codecs of the ordering epoch and the audio format.

  A message is the value of its protobuf \<open>oneof\<close>, with the fields the code reads; the variants the
  code does not tell apart are one constructor. Parsing and writing bytes (\<open>parse_from_bytes\<close>,
  \<open>write_to_bytes\<close>) are the parameters \<open>parse\<close> and \<open>write\<close>.
\<close>

section \<open>Messages\<close>

text \<open>An encoded picture is the list of the \<open>key\<close> flags of its frames.\<close>

datatype video_frame_union =
    Union_Vp9s "bool list" | Union_H264s "bool list" | Union_H265s "bool list"
  | Union_Vp8s "bool list" | Union_Av1s "bool list" | Union_Rgb | Union_Yuv

record video_frame =
  vf_union :: "video_frame_union option"
  vf_display :: i32
  vf_stream_id :: u64
  vf_frame_id :: u64
  vf_capture_time_ms :: u64

record audio_format_fields =
  af_sample_rate :: u32
  af_channels :: u32

datatype misc_union =
    Misc_SwitchDisplay | Misc_AudioFormat audio_format_fields | Misc_VideoFeedback
  | Misc_RefreshVideo bool | Misc_VideoReferenceRefresh video_reference_refresh_request | Misc_Other

datatype message_union =
    Union_VideoFrame video_frame | Union_AudioFrame
  | Union_MouseEvent i32 i32 i32
  | Union_KeyEvent | Union_KeyboardInput | Union_PointerDeviceEvent
  | Union_Clipboard | Union_MultiClipboards | Union_Cliprdr
  | Union_FileAction | Union_FileResponse | Union_TestDelay
  | Union_Misc "misc_union option" | Union_Other

type_synonym app_message = "message_union option"
type_synonym message_parser = "bytes \<Rightarrow> app_message option"

datatype application_error =
    Unparsable
  | NoCodecPayload
  | NotVideoFrame
  | OrderingEpochTruncated
  | OrderingEpochZero
  | OrderingWithoutSwitchDisplay
  | InvalidOnReliable reliable_channel_kind
  | InvalidOnDatagram
  | OrderingExhausted
  | FrameIdentifierExhausted
  | ConnectionClosed
  | StreamClosing
  | QueueFull
  | QueueClosed
  | RawModeUnavailable
  | NotControlMessage
  | ConfirmationFailed

section \<open>Classification\<close>

datatype application_class =
    ControlClass | InputClass | ClipboardClass | FileClass | DiagnosticsClass
  | VideoClass video_frame_metadata | AudioClass
  | MouseClass mouse_movement_mode i32 i32 u16

definition has_keyframe :: "bool list \<Rightarrow> bool" where
  "has_keyframe frames \<longleftrightarrow> list_ex id frames"

definition video_metadata :: "video_frame \<Rightarrow> application_error + video_frame_metadata" where
  "video_metadata frame =
     (case (case vf_union frame of
              Some (Union_Vp9s frames) \<Rightarrow> Some (Vp9, has_keyframe frames)
            | Some (Union_H264s frames) \<Rightarrow> Some (H264, has_keyframe frames)
            | Some (Union_H265s frames) \<Rightarrow> Some (H265, has_keyframe frames)
            | Some (Union_Vp8s frames) \<Rightarrow> Some (Vp8, has_keyframe frames)
            | Some (Union_Av1s frames) \<Rightarrow> Some (Av1, has_keyframe frames)
            | Some Union_Rgb \<Rightarrow> Some (RawVideo, True)
            | Some Union_Yuv \<Rightarrow> Some (RawVideo, True)
            | None \<Rightarrow> None) of
        None \<Rightarrow> Inl NoCodecPayload
      | Some (codec, keyframe) \<Rightarrow> Inr
          \<lparr>vm_frame_id = vf_frame_id frame, vm_codec = codec,
           vm_flags = (if keyframe then FLAG_KEYFRAME else 0),
           vm_presentation_timestamp_us = sat_mul (vf_capture_time_ms frame) 1000\<rparr>)"

text \<open>\<open>((mask >> 3) as u16) & 0x1f\<close>: the shift of an \<open>i32\<close> keeps its sign.\<close>

definition button_state :: "i32 \<Rightarrow> u16" where
  "button_state event_mask = ucast (signed_drop_bit 3 event_mask) AND 0x1F"

fun classify_message :: "app_message \<Rightarrow> application_error + application_class" where
  "classify_message (Some (Union_VideoFrame frame)) =
     (case video_metadata frame of Inl e \<Rightarrow> Inl e | Inr metadata \<Rightarrow> Inr (VideoClass metadata))"
| "classify_message (Some Union_AudioFrame) = Inr AudioClass"
| "classify_message (Some (Union_MouseEvent event_mask x y)) =
     (if event_mask AND 7 = 0 then Inr (MouseClass Absolute x y (button_state event_mask))
      else if event_mask AND 7 = 5 then Inr (MouseClass Relative x y (button_state event_mask))
      else Inr InputClass)"
| "classify_message (Some Union_KeyEvent) = Inr InputClass"
| "classify_message (Some Union_KeyboardInput) = Inr InputClass"
| "classify_message (Some Union_PointerDeviceEvent) = Inr InputClass"
| "classify_message (Some Union_Clipboard) = Inr ClipboardClass"
| "classify_message (Some Union_MultiClipboards) = Inr ClipboardClass"
| "classify_message (Some Union_Cliprdr) = Inr ClipboardClass"
| "classify_message (Some Union_FileAction) = Inr FileClass"
| "classify_message (Some Union_FileResponse) = Inr FileClass"
| "classify_message (Some Union_TestDelay) = Inr DiagnosticsClass"
| "classify_message (Some (Union_Misc u)) =
     (if u = Some Misc_VideoFeedback then Inr DiagnosticsClass else Inr ControlClass)"
| "classify_message (Some Union_Other) = Inr ControlClass"
| "classify_message None = Inr ControlClass"

definition is_video_ordering_message :: "app_message \<Rightarrow> bool" where
  "is_video_ordering_message message \<longleftrightarrow> message = Some (Union_Misc (Some Misc_SwitchDisplay))"

definition payload_source_info :: "message_parser \<Rightarrow> bytes \<Rightarrow> application_error + video_source_info" where
  "payload_source_info parse payload =
     (case parse payload of
        None \<Rightarrow> Inl Unparsable
      | Some (Some (Union_VideoFrame frame)) \<Rightarrow>
          (case video_metadata frame of
             Inl e \<Rightarrow> Inl e
           | Inr metadata \<Rightarrow> Inr
               \<lparr>si_key = VideoStreamKey (vf_display frame) (vf_stream_id frame),
                si_frame_id = vf_frame_id frame,
                si_keyframe = is_keyframe_flags (vm_flags metadata),
                si_codec = vm_codec metadata\<rparr>)
      | Some _ \<Rightarrow> Inl NotVideoFrame)"

section \<open>What a channel admits\<close>

definition read_ordering_epoch :: "bytes \<Rightarrow> application_error + u64" where
  "read_ordering_epoch payload =
     (if length payload < 8 then Inl OrderingEpochTruncated
      else
        (let epoch = of_nat (be_nat (take 8 payload)) :: u64 in
         if epoch = 0 then Inl OrderingEpochZero else Inr epoch))"

definition admits :: "reliable_channel_kind \<Rightarrow> message_type \<Rightarrow> application_class \<Rightarrow> bool" where
  "admits expected mt cls =
     (case expected of
        Kind_Control \<Rightarrow> mt = ApplicationControl
      | Kind_Input \<Rightarrow> mt = ReliableInput \<and> cls = InputClass
      | Kind_Clipboard \<Rightarrow> mt = ClipboardMessage \<and> cls = ClipboardClass
      | Kind_FileTransfer \<Rightarrow> mt = FileChunkMessage \<and> cls = FileClass
      | Kind_Diagnostics \<Rightarrow> mt = Diagnostics \<and> cls = DiagnosticsClass
      | Kind_Video \<Rightarrow> mt = ReliableVideoFrame \<and>
          (case cls of VideoClass metadata \<Rightarrow> is_keyframe_flags (vm_flags metadata) | _ \<Rightarrow> False))"

definition validate_reliable_application_message ::
    "message_parser \<Rightarrow> reliable_channel_kind \<Rightarrow> message_type \<Rightarrow> bytes \<Rightarrow> application_error + unit" where
  "validate_reliable_application_message parse expected mt payload =
     (if expected = Kind_Control \<and> mt = ApplicationRaw then Inr ()
      else if expected = Kind_Control \<and> mt = VideoOrdering then
        (case read_ordering_epoch payload of
           Inl e \<Rightarrow> Inl e
         | Inr _ \<Rightarrow>
           (case parse (drop 8 payload) of
              None \<Rightarrow> Inl Unparsable
            | Some message \<Rightarrow>
                if is_video_ordering_message message then Inr () else Inl OrderingWithoutSwitchDisplay))
      else if expected = Kind_Control \<and> mt = VideoOrderingAck then
        (case read_ordering_epoch payload of Inl e \<Rightarrow> Inl e | Inr _ \<Rightarrow> Inr ())
      else
        (case parse payload of
           None \<Rightarrow> Inl Unparsable
         | Some message \<Rightarrow>
           (case classify_message message of
              Inl e \<Rightarrow> Inl e
            | Inr cls \<Rightarrow> if admits expected mt cls then Inr () else Inl (InvalidOnReliable expected))))"

datatype application_class_tag = AudioTag | MouseTag

definition validate_datagram_application_message ::
    "message_parser \<Rightarrow> application_class_tag \<Rightarrow> bytes \<Rightarrow> application_error + unit" where
  "validate_datagram_application_message parse expected payload =
     (case parse payload of
        None \<Rightarrow> Inl Unparsable
      | Some message \<Rightarrow>
        (case classify_message message of
           Inl e \<Rightarrow> Inl e
         | Inr cls \<Rightarrow>
             if (case (expected, cls) of
                   (AudioTag, AudioClass) \<Rightarrow> True
                 | (MouseTag, MouseClass _ _ _ _) \<Rightarrow> True
                 | _ \<Rightarrow> False)
             then Inr () else Inl InvalidOnDatagram))"

section \<open>Audio formats\<close>

definition audio_format :: "app_message \<Rightarrow> audio_format_fields option" where
  "audio_format message =
     (case message of Some (Union_Misc (Some (Misc_AudioFormat format))) \<Rightarrow> Some format | _ \<Rightarrow> None)"

definition pack_audio_format :: "audio_format_fields \<Rightarrow> u64" where
  "pack_audio_format format =
     (if af_channels format = 0 \<or> af_channels format > 8 \<or> af_sample_rate format < 8000 then 0
      else push_bit 32 (ucast (af_channels format)) OR ucast (af_sample_rate format))"

definition unpack_audio_format :: "u64 \<Rightarrow> (u32 \<times> u8) option" where
  "unpack_audio_format v = (if v = 0 then None else Some (ucast v, ucast (drop_bit 32 v)))"

definition audio_format_message :: "(app_message \<Rightarrow> bytes) \<Rightarrow> u32 \<Rightarrow> u8 \<Rightarrow> bytes" where
  "audio_format_message write sample_rate channels =
     write (Some (Union_Misc (Some (Misc_AudioFormat
       \<lparr>af_sample_rate = sample_rate, af_channels = ucast channels\<rparr>))))"

definition refresh_video_message :: "(app_message \<Rightarrow> bytes) \<Rightarrow> bytes" where
  "refresh_video_message write = write (Some (Union_Misc (Some (Misc_RefreshVideo True))))"

definition video_reference_refresh_message ::
    "(app_message \<Rightarrow> bytes) \<Rightarrow> video_reference_refresh_request \<Rightarrow> bytes" where
  "video_reference_refresh_message write refresh =
     write (Some (Union_Misc (Some (Misc_VideoReferenceRefresh refresh))))"

section \<open>Lemmas\<close>

lemma read_ordering_epoch_written:
  "e \<noteq> 0 \<Longrightarrow> read_ordering_epoch (u64_be e @ rest) = Inr e"
  using unat_word_bound [of e] by (simp add: read_ordering_epoch_def u64_be_def be_nat_nat_be Let_def)

text \<open>The packed format is zero exactly for a format that is not usable, and otherwise reads back.\<close>

lemma unpack_pack_audio_format:
  "unpack_audio_format (pack_audio_format f) =
     (if af_channels f = 0 \<or> af_channels f > 8 \<or> af_sample_rate f < 8000 then None
      else Some (af_sample_rate f, ucast (af_channels f)))"
proof (cases "af_channels f = 0 \<or> af_channels f > 8 \<or> af_sample_rate f < 8000")
  case False
  let ?v = "push_bit 32 (ucast (af_channels f)) OR ucast (af_sample_rate f) :: u64"
  have rate: "ucast ?v = af_sample_rate f"
    by (rule bit_eqI) (auto simp: bit_simps)
  have "ucast (drop_bit 32 ?v) = (ucast (af_channels f) :: u8)"
    by (rule bit_eqI) (auto simp: bit_simps dest: bit_imp_le_length)
  moreover have "?v \<noteq> 0"
  proof
    assume "?v = 0"
    then have "af_sample_rate f = 0" using rate by (metis unsigned_0)
    with False show False by simp
  qed
  ultimately show ?thesis using False rate by (simp add: unpack_audio_format_def pack_audio_format_def)
qed (simp add: unpack_audio_format_def pack_audio_format_def)

end
