(* ===== verification/Application_Stream.thy ===== *)
theory Application_Stream
  imports Application_Messages Datagram_Endpoint
begin

text \<open>
  The application stream (\<open>QuicApplicationStream\<close> of \<open>src/transport/application.rs\<close>): \<open>enqueue\<close> routes a
  message to the queue of a reliable channel, to the slot of its video track, to the audio queue or
  to the mouse slot; the writers empty them; the reader of the control channel answers ordering
  messages and acknowledgements.

  A bounded \<open>mpsc\<close> channel is the list of its items with its capacity. An atomic is a field; each
  method is the step it makes. What the connection reports at that moment (\<open>close_reason\<close>,
  \<open>max_datagram_size\<close>) is an argument.
\<close>

section \<open>State\<close>

record 'a mpsc =
  mq_items :: "'a list"
  mq_capacity :: usize
  mq_closed :: bool

definition mpsc_new :: "usize \<Rightarrow> 'a mpsc" where
  "mpsc_new capacity = \<lparr>mq_items = [], mq_capacity = capacity, mq_closed = False\<rparr>"

definition mpsc_try_send :: "'a mpsc \<Rightarrow> 'a \<Rightarrow> 'a mpsc \<times> try_send" where
  "mpsc_try_send q x =
     (if mq_closed q then (q, SendClosed)
      else if length (mq_items q) \<ge> mq_capacity q then (q, SendFull)
      else (q\<lparr>mq_items := mq_items q @ [x]\<rparr>, SendOk))"

definition mpsc_recv :: "'a mpsc \<Rightarrow> 'a mpsc \<times> 'a option" where
  "mpsc_recv q =
     (case mq_items q of [] \<Rightarrow> (q, None) | x # xs \<Rightarrow> (q\<lparr>mq_items := xs\<rparr>, Some x))"

record reliable_outbound =
  ro_message_type :: message_type
  ro_payload :: bytes
  ro_completion :: bool

record audio_outbound =
  ao_capture_timestamp_us :: u64
  ao_channels :: u8
  ao_sample_rate_hz :: u32
  ao_payload :: bytes

record mouse_outbound =
  mo_mode :: mouse_movement_mode
  mo_x :: i32
  mo_y :: i32
  mo_button_state_mask :: u16
  mo_payload :: bytes

definition CONTROL_OUTBOUND_CAPACITY :: usize where "CONTROL_OUTBOUND_CAPACITY = 128"
definition INPUT_OUTBOUND_CAPACITY :: usize where "INPUT_OUTBOUND_CAPACITY = 128"
definition CLIPBOARD_OUTBOUND_CAPACITY :: usize where "CLIPBOARD_OUTBOUND_CAPACITY = 16"
definition FILE_OUTBOUND_CAPACITY :: usize where "FILE_OUTBOUND_CAPACITY = 32"
definition DIAGNOSTICS_OUTBOUND_CAPACITY :: usize where "DIAGNOSTICS_OUTBOUND_CAPACITY = 64"
definition AUDIO_OUTBOUND_CAPACITY :: usize where "AUDIO_OUTBOUND_CAPACITY = 64"
definition MAX_STREAM_VIDEO_TRACKS :: usize where "MAX_STREAM_VIDEO_TRACKS = MAX_VIDEO_STREAM_STATES"

record app_stream =
  as_control :: "reliable_outbound mpsc"
  as_input :: "reliable_outbound mpsc"
  as_clipboard :: "reliable_outbound mpsc"
  as_file :: "reliable_outbound mpsc"
  as_diagnostics :: "reliable_outbound mpsc"
  as_audio :: "audio_outbound mpsc"
  as_latest_video :: track_latest_state
  as_video_send_recovery :: video_send_recovery
  as_video_refresh :: "local_video_refresh mpsc"
  as_latest_mouse :: "mouse_outbound latest_slot"
  as_audio_format :: u64
  as_next_transport_frame_id :: u64
  as_video_ordering :: ordering_gate
  as_raw_mode :: bool
  as_closing :: bool
  as_max_datagram_payload :: u16
  as_frames_discarded_teardown :: u64
  as_sender_replacements :: u64
  as_rejected_teardown :: u64
  as_reliable_keyframes_sent :: u64

text \<open>The stream as \<open>establish\<close> creates it.\<close>

definition app_stream_new :: "bool \<Rightarrow> u16 \<Rightarrow> app_stream" where
  "app_stream_new scoped max_datagram_payload =
     \<lparr>as_control = mpsc_new CONTROL_OUTBOUND_CAPACITY, as_input = mpsc_new INPUT_OUTBOUND_CAPACITY,
      as_clipboard = mpsc_new CLIPBOARD_OUTBOUND_CAPACITY, as_file = mpsc_new FILE_OUTBOUND_CAPACITY,
      as_diagnostics = mpsc_new DIAGNOSTICS_OUTBOUND_CAPACITY, as_audio = mpsc_new AUDIO_OUTBOUND_CAPACITY,
      as_latest_video = track_slot_new MAX_STREAM_VIDEO_TRACKS,
      as_video_send_recovery = send_recovery_new scoped,
      as_video_refresh = mpsc_new (MAX_VIDEO_DISPLAYS + 1),
      as_latest_mouse = latest_slot_new, as_audio_format = 0, as_next_transport_frame_id = 1,
      as_video_ordering = gate_new, as_raw_mode = False, as_closing = False,
      as_max_datagram_payload = max_datagram_payload, as_frames_discarded_teardown = 0,
      as_sender_replacements = 0, as_rejected_teardown = 0, as_reliable_keyframes_sent = 0\<rparr>"

section \<open>Sending\<close>

definition map_try_send_error :: "try_send \<Rightarrow> application_error + unit" where
  "map_try_send_error r =
     (case r of SendOk \<Rightarrow> Inr () | SendFull \<Rightarrow> Inl QueueFull | SendClosed \<Rightarrow> Inl QueueClosed)"

definition outbound :: "message_type \<Rightarrow> bytes \<Rightarrow> reliable_outbound" where
  "outbound mt payload = \<lparr>ro_message_type = mt, ro_payload = payload, ro_completion = False\<rparr>"

definition send_to_control :: "message_type \<Rightarrow> bytes \<Rightarrow> app_stream \<Rightarrow> app_stream \<times> (application_error + unit)" where
  "send_to_control mt payload st =
     (case mpsc_try_send (as_control st) (outbound mt payload) of
        (q, r) \<Rightarrow> (st\<lparr>as_control := q\<rparr>, map_try_send_error r))"

text \<open>\<open>reliable_sender\<close> with the \<open>try_send\<close> on the queue it selects.\<close>

definition send_reliable_class ::
    "application_class \<Rightarrow> bytes \<Rightarrow> app_stream \<Rightarrow> app_stream \<times> (application_error + unit)" where
  "send_reliable_class cls payload st =
     (case cls of
        InputClass \<Rightarrow> (case mpsc_try_send (as_input st) (outbound ReliableInput payload) of
          (q, r) \<Rightarrow> (st\<lparr>as_input := q\<rparr>, map_try_send_error r))
      | ClipboardClass \<Rightarrow> (case mpsc_try_send (as_clipboard st) (outbound ClipboardMessage payload) of
          (q, r) \<Rightarrow> (st\<lparr>as_clipboard := q\<rparr>, map_try_send_error r))
      | FileClass \<Rightarrow> (case mpsc_try_send (as_file st) (outbound FileChunkMessage payload) of
          (q, r) \<Rightarrow> (st\<lparr>as_file := q\<rparr>, map_try_send_error r))
      | DiagnosticsClass \<Rightarrow> (case mpsc_try_send (as_diagnostics st) (outbound Diagnostics payload) of
          (q, r) \<Rightarrow> (st\<lparr>as_diagnostics := q\<rparr>, map_try_send_error r))
      | _ \<Rightarrow> send_to_control ApplicationControl payload st)"

text \<open>\<open>VideoSendRecovery::enter\<close> with the refresh it asks for; a full queue drops the request.\<close>

definition enter_recovery ::
    "video_outbound_track_key \<Rightarrow> video_source_info option \<Rightarrow> u64 \<Rightarrow> app_stream \<Rightarrow> app_stream" where
  "enter_recovery track_key source_info frame_id st =
     (case recovery_enter (as_video_send_recovery st) track_key source_info frame_id of
        (rec, None) \<Rightarrow> st\<lparr>as_video_send_recovery := rec\<rparr>
      | (rec, Some refresh) \<Rightarrow>
          st\<lparr>as_video_send_recovery := rec, as_video_refresh := fst (mpsc_try_send (as_video_refresh st) refresh)\<rparr>)"

definition count_replacement :: "app_stream \<Rightarrow> app_stream" where
  "count_replacement st = st\<lparr>as_sender_replacements := as_sender_replacements st + 1\<rparr>"

text \<open>The branch of \<open>enqueue_with_latest_key\<close> for a video frame.\<close>

definition enqueue_video_frame ::
    "message_parser \<Rightarrow> u64 option \<Rightarrow> video_frame_metadata \<Rightarrow> bytes \<Rightarrow> app_stream
     \<Rightarrow> app_stream \<times> (application_error + unit)" where
  "enqueue_video_frame parse latest_key metadata0 payload st =
     (case checked_add (as_next_transport_frame_id st) 1 of
        None \<Rightarrow> (st, Inl FrameIdentifierExhausted)
      | Some next_id \<Rightarrow>
        (let frame_id = as_next_transport_frame_id st;
             st1 = st\<lparr>as_next_transport_frame_id := next_id\<rparr>;
             metadata = metadata0\<lparr>vm_frame_id := frame_id\<rparr>;
             keyframe = is_keyframe_flags (vm_flags metadata);
             source_info = (case payload_source_info parse payload of Inl _ \<Rightarrow> None | Inr info \<Rightarrow> Some info);
             track_key = resolve_track_key latest_key source_info;
             (rec, suppressed) = (if keyframe then (as_video_send_recovery st1, False)
                                  else suppress_delta (as_video_send_recovery st1) track_key frame_id);
             st2 = st1\<lparr>as_video_send_recovery := rec\<rparr> in
         if suppressed then (st2, Inr ())
         else
           (let item = \<lparr>vob_track_key = track_key, vob_metadata = metadata, vob_source_info = source_info,
                        vob_payload = payload, vob_ordering_epoch = og_requested_epoch (as_video_ordering st2)\<rparr> in
            case track_replace (as_latest_video st2) track_key item should_replace_pending_video of
              (slot, queued, replaced) \<Rightarrow>
                (let st3 = st2\<lparr>as_latest_video := slot\<rparr>;
                     st4 = (if replaced \<noteq> None
                            then (let c = count_replacement st3 in
                                  if keyframe then c else enter_recovery track_key source_info frame_id c)
                            else st3) in
                 if queued then (st4, Inr ())
                 else (enter_recovery track_key source_info frame_id (count_replacement st4), Inr ())))))"

definition enqueue_audio :: "usize option \<Rightarrow> bytes \<Rightarrow> app_stream \<Rightarrow> app_stream \<times> (application_error + unit)" where
  "enqueue_audio connection_max payload st =
     (case unpack_audio_format (as_audio_format st) of
        None \<Rightarrow> send_to_control ApplicationControl payload st
      | Some (sample_rate_hz, channels) \<Rightarrow>
        (let limit = min (case connection_max of None \<Rightarrow> 1200 | Some m \<Rightarrow> m) (unat (as_max_datagram_payload st)) in
         if usize_sat_add (length payload) 80 > limit then (st, Inr ())
         else
           (case mpsc_try_send (as_audio st)
                   \<lparr>ao_capture_timestamp_us = 0, ao_channels = channels, ao_sample_rate_hz = sample_rate_hz,
                    ao_payload = payload\<rparr> of
              (q, SendClosed) \<Rightarrow> (st\<lparr>as_audio := q\<rparr>, Inl QueueClosed)
            | (q, _) \<Rightarrow> (st\<lparr>as_audio := q\<rparr>, Inr ()))))"

definition is_video_class :: "application_error + application_class \<Rightarrow> bool" where
  "is_video_class c \<longleftrightarrow> (case c of Inr (VideoClass _) \<Rightarrow> True | _ \<Rightarrow> False)"

definition enqueue_with_latest_key ::
    "message_parser \<Rightarrow> bool \<Rightarrow> usize option \<Rightarrow> u64 option \<Rightarrow> bytes \<Rightarrow> app_stream
     \<Rightarrow> app_stream \<times> (application_error + unit)" where
  "enqueue_with_latest_key parse closed connection_max latest_key payload st =
     (if as_closing st then
        (if \<not> as_raw_mode st \<and> (case parse payload of None \<Rightarrow> False | Some m \<Rightarrow> is_video_class (classify_message m))
         then (st\<lparr>as_frames_discarded_teardown := as_frames_discarded_teardown st + 1\<rparr>, Inr ())
         else (st, Inr ()))
      else if closed then (st, Inl ConnectionClosed)
      else if as_raw_mode st then send_to_control ApplicationRaw payload st
      else case parse payload of
        None \<Rightarrow> (st, Inl Unparsable)
      | Some message \<Rightarrow>
        (let st1 = (case audio_format message of
                      None \<Rightarrow> st
                    | Some format \<Rightarrow> st\<lparr>as_audio_format := pack_audio_format format\<rparr>) in
         if is_video_ordering_message message then
           (case gate_next_epoch (as_video_ordering st1) of
              (g, Inl _) \<Rightarrow> (st1\<lparr>as_video_ordering := g\<rparr>, Inl OrderingExhausted)
            | (g, Inr epoch) \<Rightarrow>
                (case send_to_control VideoOrdering (u64_be epoch @ payload) (st1\<lparr>as_video_ordering := g\<rparr>) of
                   (st2, Inr _) \<Rightarrow> (st2, Inr ())
                 | (st2, Inl e) \<Rightarrow>
                     (st2\<lparr>as_video_ordering := gate_cancel_epoch (as_video_ordering st2) epoch\<rparr>, Inl e)))
         else case classify_message message of
           Inl e \<Rightarrow> (st1, Inl e)
         | Inr (VideoClass metadata) \<Rightarrow> enqueue_video_frame parse latest_key metadata payload st1
         | Inr AudioClass \<Rightarrow> enqueue_audio connection_max payload st1
         | Inr (MouseClass mode x y button_mask) \<Rightarrow>
             (st1\<lparr>as_latest_mouse := latest_replace (as_latest_mouse st1)
                \<lparr>mo_mode = mode, mo_x = x, mo_y = y, mo_button_state_mask = button_mask, mo_payload = payload\<rparr>\<rparr>,
              Inr ())
         | Inr cls \<Rightarrow> send_reliable_class cls payload st1))"

definition enqueue ::
    "message_parser \<Rightarrow> bool \<Rightarrow> usize option \<Rightarrow> bytes \<Rightarrow> app_stream \<Rightarrow> app_stream \<times> (application_error + unit)" where
  "enqueue parse closed connection_max payload st =
     enqueue_with_latest_key parse closed connection_max None payload st"

definition app_enqueue_latest ::
    "message_parser \<Rightarrow> bool \<Rightarrow> usize option \<Rightarrow> u64 \<Rightarrow> bytes \<Rightarrow> app_stream \<Rightarrow> app_stream \<times> (application_error + unit)" where
  "app_enqueue_latest parse closed connection_max key payload st =
     enqueue_with_latest_key parse closed connection_max (Some key) payload st"

text \<open>
  \<open>enqueue_control_and_wait\<close> up to the wait for the confirmation: \<open>send\<close> waits for room, so the
  queue is not full when the message is put into it.
\<close>

definition enqueue_control_and_wait ::
    "message_parser \<Rightarrow> bool \<Rightarrow> bytes \<Rightarrow> app_stream \<Rightarrow> app_stream \<times> (application_error + unit)" where
  "enqueue_control_and_wait parse closed payload st =
     (if as_closing st then (st, Inl StreamClosing)
      else if closed then (st, Inl ConnectionClosed)
      else if as_raw_mode st then (st, Inl RawModeUnavailable)
      else case parse payload of
        None \<Rightarrow> (st, Inl Unparsable)
      | Some message \<Rightarrow>
        (case classify_message message of
           Inl e \<Rightarrow> (st, Inl e)
         | Inr cls \<Rightarrow>
             if cls \<noteq> ControlClass then (st, Inl NotControlMessage)
             else if mq_closed (as_control st) then (st, Inl QueueClosed)
             else (st\<lparr>as_control := (as_control st)\<lparr>mq_items := mq_items (as_control st) @
                     [\<lparr>ro_message_type = ApplicationControl, ro_payload = payload, ro_completion = True\<rparr>]\<rparr>\<rparr>,
                   Inr ())))"

text \<open>
  The end of \<open>request_video_keyframe\<close>: the request becomes a message on the control queue; a full
  queue drops it, and a closed one (\<open>False\<close>) ends the reader.
\<close>

definition keyframe_request_message :: "(app_message \<Rightarrow> bytes) \<Rightarrow> video_keyframe_request \<Rightarrow> bytes" where
  "keyframe_request_message write request =
     (case request of
        LegacyRequest \<Rightarrow> refresh_video_message write
      | ScopedRequest refresh \<Rightarrow> video_reference_refresh_message write refresh)"

definition send_keyframe_request ::
    "(app_message \<Rightarrow> bytes) \<Rightarrow> video_keyframe_request \<Rightarrow> app_stream \<Rightarrow> app_stream \<times> bool" where
  "send_keyframe_request write request st =
     (case mpsc_try_send (as_control st) (outbound ApplicationControl (keyframe_request_message write request)) of
        (q, r) \<Rightarrow> (st\<lparr>as_control := q\<rparr>, r \<noteq> SendClosed))"

definition set_raw :: "app_stream \<Rightarrow> app_stream" where
  "set_raw st = st\<lparr>as_raw_mode := True\<rparr>"

definition begin_teardown :: "app_stream \<Rightarrow> app_stream" where
  "begin_teardown st = st\<lparr>as_closing := True\<rparr>"

section \<open>The writers\<close>

text \<open>What a task does after a step: go on, end quietly, or close the connection with an error.\<close>

datatype task_state = TaskRuns | TaskEnds | TaskFails

text \<open>The delay before a message under a bandwidth limit, in microseconds.\<close>

definition pacing_delay_us :: "u32 option \<Rightarrow> usize \<Rightarrow> u64" where
  "pacing_delay_us limit_kbps payload_len =
     (case limit_kbps of
        None \<Rightarrow> 0
      | Some kbps \<Rightarrow>
          if kbps = 0 then 0
          else (let bits = payload_len * 8; n = bits * 1000; k = unat kbps in
                of_nat (min ((n + k - 1) div k) (2 ^ 64 - 1))))"

definition reliable_writer_step ::
    "'s send_stream \<Rightarrow> u64 \<Rightarrow> 's reliable_sender \<Rightarrow> reliable_outbound mpsc
     \<Rightarrow> 's reliable_sender \<times> reliable_outbound mpsc \<times> task_state" where
  "reliable_writer_step S timestamp sender q =
     (case mpsc_recv q of
        (q', None) \<Rightarrow>
          if mq_closed q then (fst (sender_finish S sender), q', TaskEnds) else (sender, q', TaskRuns)
      | (q', Some message) \<Rightarrow>
        (case sender_send S sender (ro_message_type message) 0 timestamp (ro_payload message) of
           (sender', Inr _) \<Rightarrow> (sender', q', TaskRuns)
         | (sender', Inl _) \<Rightarrow> (sender', q', TaskFails)))"

definition audio_writer_step ::
    "datagram_link \<Rightarrow> instant \<Rightarrow> u64 \<Rightarrow> send_coordinator \<Rightarrow> datagram_sender \<Rightarrow> app_stream
     \<Rightarrow> send_coordinator \<times> datagram_sender \<times> app_stream \<times> bytes list \<times> task_state" where
  "audio_writer_step link clock elapsed c s st =
     (case mpsc_recv (as_audio st) of
        (q, None) \<Rightarrow> (c, s, st\<lparr>as_audio := q\<rparr>, [], if mq_closed (as_audio st) then TaskEnds else TaskRuns)
      | (q, Some item) \<Rightarrow>
        (case send_audio_packet link c s clock elapsed Opus (ao_channels item) (ao_sample_rate_hz item) (ao_payload item) of
           (c', s', sent, Inr _) \<Rightarrow> (c', s', st\<lparr>as_audio := q\<rparr>, sent, TaskRuns)
         | (c', s', sent, Inl _) \<Rightarrow> (c', s', st\<lparr>as_audio := q\<rparr>, sent, TaskFails)))"

definition mouse_writer_step ::
    "datagram_link \<Rightarrow> instant \<Rightarrow> send_coordinator \<Rightarrow> datagram_sender \<Rightarrow> app_stream
     \<Rightarrow> send_coordinator \<times> datagram_sender \<times> app_stream \<times> bytes list \<times> task_state" where
  "mouse_writer_step link clock c s st =
     (case latest_take (as_latest_mouse st) of
        (slot, None) \<Rightarrow> (c, s, st\<lparr>as_latest_mouse := slot\<rparr>, [], TaskRuns)
      | (slot, Some item) \<Rightarrow>
        (case send_application_mouse_movement link c s clock (mo_mode item) (mo_x item) (mo_y item) 0
                (mo_button_state_mask item) (mo_payload item) of
           (c', s', sent, Inr _) \<Rightarrow> (c', s', st\<lparr>as_latest_mouse := slot\<rparr>, sent, TaskRuns)
         | (c', s', sent, Inl _) \<Rightarrow> (c', s', st\<lparr>as_latest_mouse := slot\<rparr>, sent, TaskFails)))"

text \<open>
  The video writer holds one frame at a time. While the frame's epoch is not open it may take a
  newer frame of the track (\<open>newer_while_waiting\<close>); then it writes the frame (\<open>write_video\<close>).
\<close>

record 's video_writer =
  vw_coordinator :: send_coordinator
  vw_sender :: datagram_sender
  vw_reliable :: "'s reliable_sender option"
  vw_reference_epochs :: "(video_stream_key, u64) btree_map"
  vw_keyframe_barrier :: bool

definition take_video :: "bool \<Rightarrow> app_stream \<Rightarrow> app_stream \<times> video_outbound option \<times> task_state" where
  "take_video closed st =
     (case track_take (as_latest_video st) of
        (slot, None) \<Rightarrow> (st\<lparr>as_latest_video := slot\<rparr>, None, TaskRuns)
      | (slot, Some item) \<Rightarrow>
        (let st1 = st\<lparr>as_latest_video := slot\<rparr> in
         if as_closing st1 \<or> closed
         then (st1\<lparr>as_video_ordering := gate_cancel_epoch (as_video_ordering st1) (vob_ordering_epoch item)\<rparr>, None, TaskEnds)
         else (st1, Some item, TaskRuns)))"

definition newer_while_waiting ::
    "video_outbound \<Rightarrow> video_outbound \<Rightarrow> app_stream \<Rightarrow> video_outbound \<times> app_stream" where
  "newer_while_waiting item newer st =
     (let st1 = count_replacement st;
          enter = enter_recovery (vob_track_key newer) (vob_source_info newer) (vm_frame_id (vob_metadata newer)) in
      if should_replace_pending_video item newer
      then (newer, if outbound_is_keyframe newer then st1 else enter st1)
      else (item, enter st1))"

definition frame_written :: "video_outbound \<Rightarrow> app_stream \<Rightarrow> app_stream" where
  "frame_written item st =
     (if outbound_is_keyframe item
      then st\<lparr>as_video_send_recovery := keyframe_sent (as_video_send_recovery st) (vob_track_key item)
                (vm_frame_id (vob_metadata item))\<rparr>
      else st)"

definition write_video ::
    "'s send_stream \<Rightarrow> datagram_link \<Rightarrow> instant \<Rightarrow> instant \<Rightarrow> u64 \<Rightarrow> bool \<Rightarrow> video_outbound
     \<Rightarrow> app_stream \<Rightarrow> 's video_writer \<Rightarrow> app_stream \<times> 's video_writer \<times> bytes list \<times> task_state" where
  "write_video S link clock now timestamp closed item0 st w =
     (let keyframe = outbound_is_keyframe item0;
          (rec, suppressed) = (if keyframe then (as_video_send_recovery st, False)
            else suppress_delta (as_video_send_recovery st) (vob_track_key item0) (vm_frame_id (vob_metadata item0)));
          st1 = st\<lparr>as_video_send_recovery := rec\<rparr> in
      if suppressed then (st1, w, [], TaskRuns)
      else
        (let (item, epochs, _) = apply_video_reference_epoch item0 (vw_reference_epochs w) (vw_keyframe_barrier w);
             w1 = w\<lparr>vw_reference_epochs := epochs\<rparr> in
         case (if keyframe then vw_reliable w1 else None) of
           Some sender \<Rightarrow>
             (case sender_send S sender ReliableVideoFrame 0 timestamp (vob_payload item) of
                (sender', Inl _) \<Rightarrow> (st1, w1\<lparr>vw_reliable := Some sender'\<rparr>, [], TaskFails)
              | (sender', Inr _) \<Rightarrow>
                  (frame_written item (st1\<lparr>as_reliable_keyframes_sent := as_reliable_keyframes_sent st1 + 1\<rparr>),
                   w1\<lparr>vw_reliable := Some sender'\<rparr>, [], TaskRuns))
         | None \<Rightarrow>
             (case send_video_frame link (vw_coordinator w1) (vw_sender w1) clock now (vob_metadata item) (vob_payload item) of
                (c, s, sent, r) \<Rightarrow>
                  (let w2 = w1\<lparr>vw_coordinator := c, vw_sender := s\<rparr> in
                   case r of
                     Inl _ \<Rightarrow> (st1, w2, sent, TaskFails)
                   | Inr (Sent _) \<Rightarrow> (frame_written item st1, w2, sent, TaskRuns)
                   | Inr (RejectedNoSpace _ _ _ _ _ _ _ _ _ _ _) \<Rightarrow>
                       if as_closing st1 \<or> closed then
                         (st1\<lparr>as_video_ordering := gate_cancel_epoch (as_video_ordering st1) (vob_ordering_epoch item),
                              as_rejected_teardown := as_rejected_teardown st1 + 1\<rparr>, w2, sent, TaskEnds)
                       else
                         (enter_recovery (vob_track_key item) (vob_source_info item) (vm_frame_id (vob_metadata item)) st1,
                          w2, sent, TaskRuns)))))"

text \<open>A held frame is written only when its epoch is open; \<open>None\<close> means that the writer waits.\<close>

definition write_held ::
    "'s send_stream \<Rightarrow> datagram_link \<Rightarrow> instant \<Rightarrow> instant \<Rightarrow> u64 \<Rightarrow> bool \<Rightarrow> video_outbound
     \<Rightarrow> app_stream \<Rightarrow> 's video_writer \<Rightarrow> (app_stream \<times> 's video_writer \<times> bytes list \<times> task_state) option" where
  "write_held S link clock now timestamp closed item st w =
     (if gate_is_open (as_video_ordering st) (vob_ordering_epoch item)
      then Some (write_video S link clock now timestamp closed item st w) else None)"

text \<open>The connection closes while the writer waits.\<close>

definition abandon_held :: "video_outbound \<Rightarrow> app_stream \<Rightarrow> app_stream \<times> task_state" where
  "abandon_held item st =
     (st\<lparr>as_video_ordering := gate_cancel_epoch (as_video_ordering st) (vob_ordering_epoch item)\<rparr>, TaskEnds)"

section \<open>The readers\<close>

text \<open>
  A message of the control channel: what is handed to the application, and whether the reader goes
  on. \<open>send\<close> on the outbound queue waits for room.
\<close>

definition control_reader_step ::
    "message_parser \<Rightarrow> message_type \<Rightarrow> bytes \<Rightarrow> app_stream \<Rightarrow> app_stream \<times> bytes option \<times> task_state" where
  "control_reader_step parse mt payload st =
     (case validate_reliable_application_message parse Kind_Control mt payload of
        Inl _ \<Rightarrow> (st, None, TaskFails)
      | Inr _ \<Rightarrow>
        if mt = VideoOrdering then
          (let epoch = (case read_ordering_epoch payload of Inl _ \<Rightarrow> 0 | Inr e \<Rightarrow> e) in
           if mq_closed (as_control st) then (st, Some (drop 8 payload), TaskEnds)
           else (st\<lparr>as_control := (as_control st)\<lparr>mq_items :=
                    mq_items (as_control st) @ [outbound VideoOrderingAck (u64_be epoch)]\<rparr>\<rparr>,
                 Some (drop 8 payload), TaskRuns))
        else if mt = VideoOrderingAck then
          (let epoch = (case read_ordering_epoch payload of Inl _ \<Rightarrow> 0 | Inr e \<Rightarrow> e) in
           if epoch = 0 \<or> epoch > og_requested_epoch (as_video_ordering st) then (st, None, TaskFails)
           else (st\<lparr>as_video_ordering := gate_acknowledge (as_video_ordering st) epoch\<rparr>, None, TaskRuns))
        else (st, Some payload, TaskRuns))"

text \<open>The readers of the input, clipboard, file and diagnostics channels.\<close>

definition plain_reader_step ::
    "message_parser \<Rightarrow> reliable_channel_kind \<Rightarrow> message_type \<Rightarrow> bytes \<Rightarrow> bytes option \<times> task_state" where
  "plain_reader_step parse kind mt payload =
     (case validate_reliable_application_message parse kind mt payload of
        Inl _ \<Rightarrow> (None, TaskFails)
      | Inr _ \<Rightarrow> (Some payload, TaskRuns))"

text \<open>An audio packet that is due: the format when it changed, then the packet; and a mouse datagram.\<close>

definition audio_reader_step ::
    "message_parser \<Rightarrow> (app_message \<Rightarrow> bytes) \<Rightarrow> (u32 \<times> u8) option \<Rightarrow> u32 \<Rightarrow> u8 \<Rightarrow> bytes
     \<Rightarrow> (u32 \<times> u8) option \<times> bytes list" where
  "audio_reader_step parse write received sample_rate channels payload =
     (let format = (sample_rate, channels);
          announce = (if received \<noteq> Some format then [audio_format_message write sample_rate channels] else []) in
      (Some format,
       announce @ (if validate_datagram_application_message parse AudioTag payload = Inr () then [payload] else [])))"

definition mouse_reader_step :: "message_parser \<Rightarrow> bytes \<Rightarrow> bytes option" where
  "mouse_reader_step parse payload =
     (if validate_datagram_application_message parse MouseTag payload = Inr () then Some payload else None)"

definition local_refresh_message :: "(app_message \<Rightarrow> bytes) \<Rightarrow> local_video_refresh \<Rightarrow> bytes" where
  "local_refresh_message write refresh =
     (case refresh of
        LegacyRefresh \<Rightarrow> refresh_video_message write
      | ReferenceRefresh r \<Rightarrow> video_reference_refresh_message write r)"

end
