(* ===== verification/Application_Properties.thy ===== *)
theory Application_Properties
  imports Application_Stream Video_Sender_Properties
begin

text \<open>
  Properties of the application stream: whatever is enqueued, every message that waits for a writer
  is one the peer's reader admits on its channel.
\<close>

section \<open>What waits for the writers\<close>

definition all_admitted :: "message_parser \<Rightarrow> reliable_channel_kind \<Rightarrow> reliable_outbound mpsc \<Rightarrow> bool" where
  "all_admitted parse kind q \<longleftrightarrow>
     list_all (\<lambda>m. validate_reliable_application_message parse kind (ro_message_type m) (ro_payload m) = Inr ())
       (mq_items q)"

text \<open>A frame in a slot carries what its payload says; a keyframe is admitted on the video channel.\<close>

definition video_admitted :: "message_parser \<Rightarrow> video_outbound \<Rightarrow> bool" where
  "video_admitted parse v \<longleftrightarrow>
     (outbound_is_keyframe v \<longrightarrow>
        validate_reliable_application_message parse Kind_Video ReliableVideoFrame (vob_payload v) = Inr ()) \<and>
     (\<exists>info. vob_source_info v = Some info \<and> payload_source_info parse (vob_payload v) = Inr info \<and>
        si_keyframe info = outbound_is_keyframe v \<and> si_codec info = vm_codec (vob_metadata v))"

definition audio_admitted :: "message_parser \<Rightarrow> audio_outbound \<Rightarrow> bool" where
  "audio_admitted parse a \<longleftrightarrow>
     validate_datagram_application_message parse AudioTag (ao_payload a) = Inr () \<and>
     1 \<le> ao_channels a \<and> ao_channels a \<le> 8 \<and> 8000 \<le> ao_sample_rate_hz a"

definition mouse_admitted :: "message_parser \<Rightarrow> mouse_outbound \<Rightarrow> bool" where
  "mouse_admitted parse m \<longleftrightarrow>
     validate_datagram_application_message parse MouseTag (mo_payload m) = Inr () \<and>
     mo_button_state_mask m AND NOT 0x1F = 0"

definition format_ok :: "u64 \<Rightarrow> bool" where
  "format_ok v \<longleftrightarrow> (\<forall>rate channels. unpack_audio_format v = Some (rate, channels) \<longrightarrow>
     8000 \<le> rate \<and> 1 \<le> channels \<and> channels \<le> 8)"

definition routed :: "message_parser \<Rightarrow> app_stream \<Rightarrow> bool" where
  "routed parse st \<longleftrightarrow>
     all_admitted parse Kind_Control (as_control st) \<and> all_admitted parse Kind_Input (as_input st) \<and>
     all_admitted parse Kind_Clipboard (as_clipboard st) \<and> all_admitted parse Kind_FileTransfer (as_file st) \<and>
     all_admitted parse Kind_Diagnostics (as_diagnostics st) \<and>
     list_all (audio_admitted parse) (mq_items (as_audio st)) \<and>
     list_all (\<lambda>e. video_admitted parse (pv_value (snd e))) (tl_pending (as_latest_video st)) \<and>
     (\<forall>m. ls_value (as_latest_mouse st) = Some m \<longrightarrow> mouse_admitted parse m) \<and>
     format_ok (as_audio_format st)"

section \<open>Every operation keeps it\<close>

lemma all_admitted_push:
  "all_admitted parse kind q \<Longrightarrow> validate_reliable_application_message parse kind mt payload = Inr () \<Longrightarrow>
     all_admitted parse kind (fst (mpsc_try_send q (outbound mt payload)))"
  by (simp add: all_admitted_def mpsc_try_send_def outbound_def)

lemma validate_class:
  assumes "parse payload = Some message" and "classify_message message = Inr cls" and "admits kind mt cls"
    and "mt \<notin> {ApplicationRaw, VideoOrdering, VideoOrderingAck}"
  shows "validate_reliable_application_message parse kind mt payload = Inr ()"
  using assms by (simp add: validate_reliable_application_message_def)

lemma send_to_control_routed:
  "routed parse st \<Longrightarrow> validate_reliable_application_message parse Kind_Control mt payload = Inr () \<Longrightarrow>
     routed parse (fst (send_to_control mt payload st))"
  by (simp add: send_to_control_def routed_def case_prod_unfold all_admitted_push)

lemma send_reliable_class_routed:
  assumes "routed parse st" and "parse payload = Some message" and "classify_message message = Inr cls"
  shows "routed parse (fst (send_reliable_class cls payload st))"
proof -
  have v: "admits kind mt cls \<Longrightarrow> mt \<notin> {ApplicationRaw, VideoOrdering, VideoOrderingAck} \<Longrightarrow>
      validate_reliable_application_message parse kind mt payload = Inr ()" for kind mt
    using assms(2,3) by (rule validate_class)
  have "routed parse (fst (send_to_control ApplicationControl payload st))"
    by (rule send_to_control_routed [OF assms(1)]) (rule v, simp_all add: admits_def)
  with assms(1) v show ?thesis
    by (cases cls) (auto simp: send_reliable_class_def case_prod_unfold routed_def admits_def intro!: all_admitted_push)
qed

lemma routed_ignores [simp]:
  "routed parse (st\<lparr>as_video_send_recovery := r\<rparr>) = routed parse st"
  "routed parse (st\<lparr>as_video_refresh := f\<rparr>) = routed parse st"
  "routed parse (st\<lparr>as_next_transport_frame_id := n\<rparr>) = routed parse st"
  "routed parse (st\<lparr>as_video_ordering := g\<rparr>) = routed parse st"
  "routed parse (st\<lparr>as_raw_mode := b\<rparr>) = routed parse st"
  "routed parse (st\<lparr>as_closing := b\<rparr>) = routed parse st"
  "routed parse (st\<lparr>as_frames_discarded_teardown := m\<rparr>) = routed parse st"
  "routed parse (st\<lparr>as_sender_replacements := m\<rparr>) = routed parse st"
  "routed parse (st\<lparr>as_rejected_teardown := m\<rparr>) = routed parse st"
  "routed parse (st\<lparr>as_reliable_keyframes_sent := m\<rparr>) = routed parse st"
  by (simp_all add: routed_def)

lemma enter_recovery_routed [simp]: "routed parse (enter_recovery k i f st) = routed parse st"
  by (auto simp: enter_recovery_def routed_def split: prod.splits option.splits)

lemma count_replacement_routed [simp]: "routed parse (count_replacement st) = routed parse st"
  by (simp add: count_replacement_def)

lemma pack_format_ok: "format_ok (pack_audio_format f)"
proof -
  have "1 \<le> (ucast c :: u8) \<and> (ucast c :: u8) \<le> 8" if "c \<noteq> 0" "c \<le> 8" for c :: u32
  proof -
    have c: "0 < unat c" "unat c \<le> 8" using that by (simp_all add: unat_gt_0 word_le_nat_alt)
    then have "unat (ucast c :: u8) = unat c" by (simp add: unsigned_ucast_eq take_bit_nat_eq_self)
    with c show ?thesis by (simp add: word_le_nat_alt)
  qed
  then show ?thesis unfolding format_ok_def unpack_pack_audio_format by (auto simp: not_less)
qed

text \<open>A frame that is stored is an old one or the new one.\<close>

lemma slot_members:
  assumes "track_replace sl key v rep = (sl', ok, old)" and "e \<in> set (tl_pending sl')"
  shows "e \<in> set (tl_pending sl) \<or> pv_value (snd e) = v"
proof -
  have store: "e \<in> set (tl_pending s) \<or> pv_value (snd e) = v"
    if "store_video s key v rep = (s', ok', old')" "e \<in> set (tl_pending s')" for s s' ok' old'
    using that by (auto simp: store_video_def Let_def split: if_splits option.splits dest!: subsetD [OF set_bm_insert_subset])
  have admit: "e \<in> set (tl_pending s)" if "admit_source s src = Some s'" "e \<in> set (tl_pending s')" for s s' src
    using that by (auto simp: admit_source_def Let_def split: if_splits)
  from assms store admit show ?thesis
    by (fastforce simp: track_replace_def split: option.splits)
qed

lemma video_class_frame:
  assumes "classify_message message = Inr (VideoClass md)"
  obtains f where "message = Some (Union_VideoFrame f)" and "video_metadata f = Inr md"
  using assms by (cases message rule: classify_message.cases) (auto split: sum.splits if_splits)

lemma new_frame_admitted:
  assumes "parse payload = Some message" and "classify_message message = Inr (VideoClass md)"
    and "payload_source_info parse payload = Inr info"
  shows "video_admitted parse \<lparr>vob_track_key = k, vob_metadata = md\<lparr>vm_frame_id := n\<rparr>, vob_source_info = Some info,
    vob_payload = payload, vob_ordering_epoch = e\<rparr>"
proof -
  obtain f where f: "message = Some (Union_VideoFrame f)" "video_metadata f = Inr md"
    using video_class_frame [OF assms(2)] by blast
  have "is_keyframe_flags (vm_flags md) \<Longrightarrow>
      validate_reliable_application_message parse Kind_Video ReliableVideoFrame payload = Inr ()"
    using assms(1,2) by (simp add: validate_reliable_application_message_def admits_def)
  moreover have "si_keyframe info = is_keyframe_flags (vm_flags md)" "si_codec info = vm_codec md"
    using assms(1,3) f by (auto simp: payload_source_info_def)
  ultimately show ?thesis using assms(3) by (simp add: video_admitted_def outbound_is_keyframe_def)
qed

lemma payload_source_of_video:
  assumes "parse payload = Some message" and "classify_message message = Inr (VideoClass md)"
  shows "\<exists>info. payload_source_info parse payload = Inr info"
proof -
  obtain f where "message = Some (Union_VideoFrame f)" "video_metadata f = Inr md"
    using video_class_frame [OF assms(2)] by blast
  with assms(1) show ?thesis by (simp add: payload_source_info_def)
qed

lemma enqueue_video_routed:
  assumes "routed parse st" and "parse payload = Some message" and "classify_message message = Inr (VideoClass md)"
  shows "routed parse (fst (enqueue_video_frame parse latest_key md payload st))"
proof -
  obtain info where info: "payload_source_info parse payload = Inr info"
    using payload_source_of_video [where parse = parse, OF assms(2,3)] by blast
  have slot: "routed parse s \<Longrightarrow> routed parse (s\<lparr>as_latest_video := slot\<rparr>) \<longleftrightarrow>
      list_all (\<lambda>e. video_admitted parse (pv_value (snd e))) (tl_pending slot)" for s slot
    by (simp add: routed_def)
  have old: "list_all (\<lambda>e. video_admitted parse (pv_value (snd e))) (tl_pending (as_latest_video st))"
    using assms(1) by (simp add: routed_def)
  have stored: "list_all (\<lambda>e. video_admitted parse (pv_value (snd e))) (tl_pending slot)"
    if "track_replace (as_latest_video st) key \<lparr>vob_track_key = key,
        vob_metadata = md\<lparr>vm_frame_id := n\<rparr>, vob_source_info = Some info, vob_payload = payload, vob_ordering_epoch = e\<rparr>
        should_replace_pending_video = (slot, ok, repl)" for slot key n e ok repl
    using old slot_members [OF that] new_frame_admitted [where parse = parse, OF assms(2,3) info]
    by (fastforce simp: list_all_iff)
  show ?thesis
    using assms(1) by (auto simp: enqueue_video_frame_def info Let_def slot split: option.splits prod.splits dest!: stored)
qed

lemma enqueue_audio_routed:
  assumes "routed parse st" and "parse payload = Some message" and "classify_message message = Inr AudioClass"
  shows "routed parse (fst (enqueue_audio connection_max payload st))"
proof -
  have "validate_reliable_application_message parse Kind_Control ApplicationControl payload = Inr ()"
    using assms(2,3) by (rule validate_class) (simp_all add: admits_def)
  moreover have "audio_admitted parse \<lparr>ao_capture_timestamp_us = 0, ao_channels = channels, ao_sample_rate_hz = rate,
      ao_payload = payload\<rparr>" if "unpack_audio_format (as_audio_format st) = Some (rate, channels)" for rate channels
    using that assms by (simp add: audio_admitted_def validate_datagram_application_message_def routed_def format_ok_def)
  ultimately show ?thesis
    using assms(1) send_to_control_routed [OF assms(1)]
    by (auto simp: enqueue_audio_def mpsc_try_send_def routed_def Let_def split: option.splits prod.splits try_send.splits if_splits)
qed

lemma button_state_known: "button_state m AND NOT 0x1F = 0"
  by (rule bit_eqI) (auto simp: button_state_def bit_simps)

lemma ordering_validates:
  assumes "parse payload = Some message" and "is_video_ordering_message message" and "epoch \<noteq> 0"
  shows "validate_reliable_application_message parse Kind_Control VideoOrdering (u64_be epoch @ payload) = Inr ()"
  using assms by (simp add: validate_reliable_application_message_def read_ordering_epoch_written)

lemma gate_next_epoch_nonzero: "gate_next_epoch g = (g', Inr epoch) \<Longrightarrow> epoch \<noteq> 0"
proof -
  assume "gate_next_epoch g = (g', Inr epoch)"
  then have e: "epoch = og_requested_epoch g + 1" and "unat (og_requested_epoch g) + 1 < 2 ^ 64"
    by (auto simp: gate_next_epoch_def checked_add_def split: if_splits)
  then have "unat epoch = unat (og_requested_epoch g) + 1" by (simp add: unat_word_ariths)
  then show ?thesis by auto
qed

lemma mouse_class_button:
  "classify_message message = Inr (MouseClass mode x y b) \<Longrightarrow> b AND NOT 0x1F = 0"
  by (cases message rule: classify_message.cases) (auto simp: button_state_known [simplified] split: sum.splits if_splits)

lemma mouse_routed:
  assumes "routed parse st" and "parse payload = Some message" and "classify_message message = Inr (MouseClass mode x y b)"
  shows "routed parse (st\<lparr>as_latest_mouse := latest_replace (as_latest_mouse st)
    \<lparr>mo_mode = mode, mo_x = x, mo_y = y, mo_button_state_mask = b, mo_payload = payload\<rparr>\<rparr>)"
  using assms mouse_class_button [OF assms(3)]
  by (auto simp: routed_def mouse_admitted_def validate_datagram_application_message_def latest_replace_def
      latest_replace_when_def latest_replace_when_with_def split: option.splits)

lemma enqueue_routed:
  assumes "routed parse st"
  shows "routed parse (fst (enqueue_with_latest_key parse closed connection_max latest_key payload st))"
proof (cases "as_closing st \<or> closed \<or> as_raw_mode st")
  case True
  have "validate_reliable_application_message parse Kind_Control ApplicationRaw payload = Inr ()"
    by (simp add: validate_reliable_application_message_def)
  with True assms send_to_control_routed [OF assms] show ?thesis by (auto simp: enqueue_with_latest_key_def)
next
  case False
  show ?thesis
  proof (cases "parse payload")
    case None
    with False assms show ?thesis by (simp add: enqueue_with_latest_key_def)
  next
    case (Some message)
    define st1 where "st1 = (case audio_format message of None \<Rightarrow> st
      | Some format \<Rightarrow> st\<lparr>as_audio_format := pack_audio_format format\<rparr>)"
    have st1: "routed parse st1"
      using assms pack_format_ok by (auto simp: st1_def routed_def split: option.splits)
    show ?thesis
    proof (cases "is_video_ordering_message message")
      case True
      obtain g r where g: "gate_next_epoch (as_video_ordering st1) = (g, r)" by fastforce
      have step: "enqueue_with_latest_key parse closed connection_max latest_key payload st =
          (case r of
             Inl _ \<Rightarrow> (st1\<lparr>as_video_ordering := g\<rparr>, Inl OrderingExhausted)
           | Inr epoch \<Rightarrow>
               (case send_to_control VideoOrdering (u64_be epoch @ payload) (st1\<lparr>as_video_ordering := g\<rparr>) of
                  (st2, Inr _) \<Rightarrow> (st2, Inr ())
                | (st2, Inl e) \<Rightarrow> (st2\<lparr>as_video_ordering := gate_cancel_epoch (as_video_ordering st2) epoch\<rparr>, Inl e)))"
        using False Some True by (simp add: enqueue_with_latest_key_def st1_def [symmetric] g Let_def)
      have "routed parse st2"
        if "r = Inr epoch" "send_to_control VideoOrdering (u64_be epoch @ payload) (st1\<lparr>as_video_ordering := g\<rparr>) = (st2, r2)"
        for epoch st2 r2
        using send_to_control_routed [where mt = VideoOrdering and payload = "u64_be epoch @ payload", of parse "st1\<lparr>as_video_ordering := g\<rparr>"]
          st1 that g ordering_validates [where parse = parse and epoch = epoch, OF Some True] gate_next_epoch_nonzero [of "as_video_ordering st1" g epoch]
        by simp
      with st1 show ?thesis unfolding step by (auto split: sum.splits prod.splits)
    next
      case ordinary: False
      have step: "enqueue_with_latest_key parse closed connection_max latest_key payload st =
          (case classify_message message of
             Inl e \<Rightarrow> (st1, Inl e)
           | Inr (VideoClass metadata) \<Rightarrow> enqueue_video_frame parse latest_key metadata payload st1
           | Inr AudioClass \<Rightarrow> enqueue_audio connection_max payload st1
           | Inr (MouseClass mode x y button_mask) \<Rightarrow>
               (st1\<lparr>as_latest_mouse := latest_replace (as_latest_mouse st1)
                  \<lparr>mo_mode = mode, mo_x = x, mo_y = y, mo_button_state_mask = button_mask, mo_payload = payload\<rparr>\<rparr>, Inr ())
           | Inr cls \<Rightarrow> send_reliable_class cls payload st1)"
        using False Some ordinary by (simp add: enqueue_with_latest_key_def st1_def [symmetric] Let_def)
      show ?thesis
        using st1 enqueue_video_routed [where parse = parse, OF st1 Some] enqueue_audio_routed [where parse = parse, OF st1 Some]
          send_reliable_class_routed [where parse = parse, OF st1 Some] mouse_routed [where parse = parse, OF st1 Some]
        unfolding step by (auto split: sum.splits application_class.splits)
    qed
  qed
qed

lemma control_wait_routed:
  assumes "routed parse st"
  shows "routed parse (fst (enqueue_control_and_wait parse closed payload st))"
proof -
  have "validate_reliable_application_message parse Kind_Control ApplicationControl payload = Inr ()"
    if "parse payload = Some message" "classify_message message = Inr cls" for message cls
    using that by (rule validate_class) (simp_all add: admits_def)
  with assms show ?thesis
    by (auto simp: enqueue_control_and_wait_def routed_def all_admitted_def split: option.splits sum.splits)
qed

lemma control_reader_routed:
  assumes "routed parse st"
  shows "routed parse (fst (control_reader_step parse mt payload st))"
proof -
  have "validate_reliable_application_message parse Kind_Control VideoOrderingAck (u64_be e) = Inr ()" if "e \<noteq> 0" for e
    using read_ordering_epoch_written [OF that, of "[]"] by (simp add: validate_reliable_application_message_def)
  moreover have "e \<noteq> 0" if "read_ordering_epoch payload = Inr e" for e
    using that by (auto simp: read_ordering_epoch_def Let_def split: if_splits)
  moreover have "\<exists>e. read_ordering_epoch payload = Inr e"
    if "validate_reliable_application_message parse Kind_Control VideoOrdering payload = Inr ()"
    using that by (auto simp: validate_reliable_application_message_def split: sum.splits)
  ultimately show ?thesis
    using assms
    by (auto simp: control_reader_step_def routed_def all_admitted_def outbound_def Let_def split: sum.splits)
qed

lemma taken_routed:
  "routed parse st \<Longrightarrow> routed parse (fst (take_video closed st))"
  by (auto simp: take_video_def routed_def track_take_def list_all_iff set_bm_remove Let_def
      split: option.splits prod.splits)

section \<open>Runs\<close>

text \<open>
  What happens to a stream: the application's calls, messages on the control channel, a writer that
  takes the next item of its queue or slot, a writer that ends and so closes its queue, and a
  request of the video receiver for a keyframe.
\<close>

datatype app_op =
    AppEnqueue "u64 option" bytes bool "usize option"
  | AppControlWait bytes bool
  | AppSetRaw
  | AppTeardown
  | ControlArrives message_type bytes
  | WriterTakes reliable_channel_kind
  | WriterEnds reliable_channel_kind
  | AudioTaken
  | MouseTaken
  | VideoTaken bool
  | KeyframeRequested video_keyframe_request

definition on_queue ::
    "reliable_channel_kind \<Rightarrow> (reliable_outbound mpsc \<Rightarrow> reliable_outbound mpsc) \<Rightarrow> app_stream \<Rightarrow> app_stream" where
  "on_queue kind f st =
     (case kind of
        Kind_Control \<Rightarrow> st\<lparr>as_control := f (as_control st)\<rparr>
      | Kind_Input \<Rightarrow> st\<lparr>as_input := f (as_input st)\<rparr>
      | Kind_Clipboard \<Rightarrow> st\<lparr>as_clipboard := f (as_clipboard st)\<rparr>
      | Kind_FileTransfer \<Rightarrow> st\<lparr>as_file := f (as_file st)\<rparr>
      | Kind_Diagnostics \<Rightarrow> st\<lparr>as_diagnostics := f (as_diagnostics st)\<rparr>
      | Kind_Video \<Rightarrow> st)"

definition queue_of :: "reliable_channel_kind \<Rightarrow> app_stream \<Rightarrow> reliable_outbound list" where
  "queue_of kind st =
     (case kind of
        Kind_Control \<Rightarrow> mq_items (as_control st)
      | Kind_Input \<Rightarrow> mq_items (as_input st)
      | Kind_Clipboard \<Rightarrow> mq_items (as_clipboard st)
      | Kind_FileTransfer \<Rightarrow> mq_items (as_file st)
      | Kind_Diagnostics \<Rightarrow> mq_items (as_diagnostics st)
      | Kind_Video \<Rightarrow> [])"

fun app_step :: "message_parser \<Rightarrow> (app_message \<Rightarrow> bytes) \<Rightarrow> app_stream \<Rightarrow> app_op \<Rightarrow> app_stream" where
  "app_step parse write st (AppEnqueue key payload closed limit) =
     fst (enqueue_with_latest_key parse closed limit key payload st)"
| "app_step parse write st (AppControlWait payload closed) = fst (enqueue_control_and_wait parse closed payload st)"
| "app_step parse write st AppSetRaw = set_raw st"
| "app_step parse write st AppTeardown = begin_teardown st"
| "app_step parse write st (ControlArrives mt payload) = fst (control_reader_step parse mt payload st)"
| "app_step parse write st (WriterTakes kind) = on_queue kind (\<lambda>q. fst (mpsc_recv q)) st"
| "app_step parse write st (WriterEnds kind) = on_queue kind (\<lambda>q. q\<lparr>mq_closed := True\<rparr>) st"
| "app_step parse write st AudioTaken = st\<lparr>as_audio := fst (mpsc_recv (as_audio st))\<rparr>"
| "app_step parse write st MouseTaken = st\<lparr>as_latest_mouse := fst (latest_take (as_latest_mouse st))\<rparr>"
| "app_step parse write st (VideoTaken closed) = fst (take_video closed st)"
| "app_step parse write st (KeyframeRequested request) = fst (send_keyframe_request write request st)"

lemma on_queue_routed:
  "routed parse st \<Longrightarrow> (\<And>k q. all_admitted parse k q \<Longrightarrow> all_admitted parse k (f q)) \<Longrightarrow> routed parse (on_queue kind f st)"
  by (cases kind) (simp_all add: on_queue_def routed_def)

lemma recv_keeps: "list_all P (mq_items q) \<Longrightarrow> list_all P (mq_items (fst (mpsc_recv q)))"
  by (auto simp: mpsc_recv_def split: list.splits)

text \<open>The parser reads a request for a keyframe as the message it was written from.\<close>

definition request_union :: "video_keyframe_request \<Rightarrow> misc_union" where
  "request_union request =
     (case request of LegacyRequest \<Rightarrow> Misc_RefreshVideo True | ScopedRequest r \<Rightarrow> Misc_VideoReferenceRefresh r)"

fun readable :: "message_parser \<Rightarrow> (app_message \<Rightarrow> bytes) \<Rightarrow> app_op \<Rightarrow> bool" where
  "readable parse write (KeyframeRequested request) \<longleftrightarrow>
     parse (keyframe_request_message write request) = Some (Some (Union_Misc (Some (request_union request))))"
| "readable parse write op \<longleftrightarrow> True"

lemma keyframe_request_routed:
  assumes "routed parse st" and "readable parse write (KeyframeRequested request)"
  shows "routed parse (fst (send_keyframe_request write request st))"
proof -
  have "classify_message (Some (Union_Misc (Some (request_union request)))) = Inr ControlClass"
    by (simp add: request_union_def split: video_keyframe_request.splits)
  with assms(2) have "validate_reliable_application_message parse Kind_Control ApplicationControl
      (keyframe_request_message write request) = Inr ()"
    by (intro validate_class [where message = "Some (Union_Misc (Some (request_union request)))"]) (simp_all add: admits_def)
  with assms(1) show ?thesis
    by (simp add: send_keyframe_request_def routed_def case_prod_unfold all_admitted_push)
qed

lemma app_step_routed: "routed parse s \<Longrightarrow> readable parse write e \<Longrightarrow> routed parse (app_step parse write s e)"
proof -
  assume r: "routed parse s" and readable: "readable parse write e"
  have takes: "routed parse (on_queue kind (\<lambda>q. fst (mpsc_recv q)) s)" for kind
    by (rule on_queue_routed [OF r]) (simp add: all_admitted_def recv_keeps)
  have ends: "routed parse (on_queue kind (\<lambda>q. q\<lparr>mq_closed := True\<rparr>) s)" for kind
    by (rule on_queue_routed [OF r]) (simp add: all_admitted_def)
  have audio: "routed parse (s\<lparr>as_audio := fst (mpsc_recv (as_audio s))\<rparr>)"
    using r by (simp add: routed_def recv_keeps)
  have mouse: "routed parse (s\<lparr>as_latest_mouse := fst (latest_take (as_latest_mouse s))\<rparr>)"
    using r by (simp add: routed_def latest_take_def)
  show ?thesis
    using readable
    by (cases e) (simp_all add: r enqueue_routed control_wait_routed control_reader_routed taken_routed
        keyframe_request_routed set_raw_def begin_teardown_def takes ends audio mouse del: readable.simps(1))
qed

interpretation app_routing: step_invariant
    "\<lambda>st e. if readable parse write e then app_step parse write st e else st" "routed parse" for parse and "write"
  by unfold_locales (simp add: app_step_routed)

lemma app_run_routed:
  assumes "routed parse st" and "list_all (readable parse write) ops"
  shows "routed parse (foldl (app_step parse write) st ops)"
proof -
  have "foldl (app_step parse write) st ops =
      foldl (\<lambda>st e. if readable parse write e then app_step parse write st e else st) st ops"
    using assms(2) by (intro foldl_cong) (simp_all add: list_all_iff)
  then show ?thesis using app_routing.run_preserves [OF assms(1), of "write" ops] by simp
qed

lemma routed_new: "routed parse (app_stream_new scoped limit)"
  by (simp add: routed_def app_stream_new_def all_admitted_def mpsc_new_def track_slot_new_def latest_slot_new_def
      format_ok_def unpack_audio_format_def)

text \<open>
  Property C5: what is sent is what the peer admits. Whatever an application enqueues, in raw mode or
  not, whatever arrives on the control channel, and whatever keyframes the receiver asks for (in
  messages that the parser reads back), every message that waits for a writer passes
  the check the peer makes on that channel, so that its reader hands it on unchanged instead of
  closing the connection. Waiting audio and mouse payloads pass the checks for datagrams; a
  waiting keyframe passes the check of the reliable video channel and its source information is
  that of its payload.
\<close>

theorem application_routing_agrees:
  assumes "st = foldl (app_step parse write) (app_stream_new scoped limit) ops"
    and "list_all (readable parse write) ops"
  shows "(\<forall>kind. \<forall>m \<in> set (queue_of kind st).
      validate_reliable_application_message parse kind (ro_message_type m) (ro_payload m) = Inr () \<and>
      plain_reader_step parse kind (ro_message_type m) (ro_payload m) = (Some (ro_payload m), TaskRuns)) \<and>
    (\<forall>a \<in> set (mq_items (as_audio st)). validate_datagram_application_message parse AudioTag (ao_payload a) = Inr ()) \<and>
    (\<forall>m. ls_value (as_latest_mouse st) = Some m \<longrightarrow> mouse_reader_step parse (mo_payload m) = Some (mo_payload m)) \<and>
    (\<forall>e \<in> set (tl_pending (as_latest_video st)). video_admitted parse (pv_value (snd e)))"
proof -
  have r: "routed parse st" unfolding assms(1) by (rule app_run_routed [OF routed_new assms(2)])
  then have "validate_reliable_application_message parse kind (ro_message_type m) (ro_payload m) = Inr ()"
    if "m \<in> set (queue_of kind st)" for kind m
    using that by (cases kind) (auto simp: queue_of_def routed_def all_admitted_def list_all_iff)
  with r show ?thesis
    by (simp add: routed_def list_all_iff audio_admitted_def mouse_admitted_def plain_reader_step_def mouse_reader_step_def)
qed

section \<open>Concrete streams\<close>

text \<open>A parser for four payloads: a display switch, a key event, a request for a keyframe and a video frame.\<close>

definition sample_video_frame :: video_frame where
  "sample_video_frame = \<lparr>vf_union = Some (Union_H264s [True]), vf_display = 0, vf_stream_id = 1, vf_frame_id = 1,
     vf_capture_time_ms = 0\<rparr>"

definition sample_parse :: message_parser where
  "sample_parse payload =
     (if payload = [1] then Some (Some (Union_Misc (Some Misc_SwitchDisplay)))
      else if payload = [2] then Some (Some Union_KeyEvent)
      else if payload = [3] then Some (Some (Union_Misc (Some (Misc_RefreshVideo True))))
      else if payload = [4] then Some (Some (Union_VideoFrame sample_video_frame)) else None)"

definition sample_write :: "app_message \<Rightarrow> bytes" where
  "sample_write m = [3]"

definition sample_ops :: "app_op list" where
  "sample_ops = [AppEnqueue None [2] False None, KeyframeRequested LegacyRequest]"

definition sample_stream :: app_stream where
  "sample_stream = foldl (app_step sample_parse sample_write) (app_stream_new True 1200) sample_ops"

lemma sample_stream_eq:
  "sample_stream = (app_stream_new True 1200)\<lparr>
     as_input := \<lparr>mq_items = [outbound ReliableInput [2]], mq_capacity = 128, mq_closed = False\<rparr>,
     as_control := \<lparr>mq_items = [outbound ApplicationControl [3]], mq_capacity = 128, mq_closed = False\<rparr>\<rparr>"
  by (simp add: sample_stream_def sample_ops_def enqueue_with_latest_key_def app_stream_new_def sample_parse_def audio_format_def
      is_video_ordering_message_def send_reliable_class_def mpsc_try_send_def mpsc_new_def INPUT_OUTBOUND_CAPACITY_def
      CONTROL_OUTBOUND_CAPACITY_def send_keyframe_request_def keyframe_request_message_def refresh_video_message_def
      sample_write_def)

lemma sample_readable: "list_all (readable sample_parse sample_write) sample_ops"
  by (simp add: sample_ops_def sample_parse_def sample_write_def keyframe_request_message_def refresh_video_message_def
      request_union_def)

theorem application_routing_agrees_witness:
  "queue_of Kind_Control sample_stream = [outbound ApplicationControl [3]] \<and>
   plain_reader_step sample_parse Kind_Control ApplicationControl [3] = (Some [3], TaskRuns) \<and>
   plain_reader_step sample_parse Kind_Input ReliableInput [2] = (Some [2], TaskRuns)"
proof -
  have q: "queue_of Kind_Input sample_stream = [outbound ReliableInput [2]]"
    "queue_of Kind_Control sample_stream = [outbound ApplicationControl [3]]"
    by (simp_all add: sample_stream_eq queue_of_def)
  then have "outbound ReliableInput [2] \<in> set (queue_of Kind_Input sample_stream)"
    "outbound ApplicationControl [3] \<in> set (queue_of Kind_Control sample_stream)" by simp_all
  with application_routing_agrees [OF sample_stream_def sample_readable]
  have "plain_reader_step sample_parse Kind_Input (ro_message_type (outbound ReliableInput [2]))
      (ro_payload (outbound ReliableInput [2])) = (Some (ro_payload (outbound ReliableInput [2])), TaskRuns)"
    "plain_reader_step sample_parse Kind_Control (ro_message_type (outbound ApplicationControl [3]))
      (ro_payload (outbound ApplicationControl [3])) = (Some (ro_payload (outbound ApplicationControl [3])), TaskRuns)"
    by blast+
  with q show ?thesis by (simp add: outbound_def)
qed

section \<open>Where the code falls short\<close>

text \<open>
  A format with a sample rate above 192 kHz is remembered as usable, but the audio writer cannot
  send under it: the first audio frame ends the writer, which closes the connection.
\<close>

lemma high_sample_rate_fails:
  assumes "af_channels f \<noteq> 0" and "af_channels f \<le> 8" and "af_sample_rate f > 192000"
    and "max_datagram_size link s = Inr m" and "ds_next_audio_sequence s \<noteq> 0"
    and "unpack_audio_format (pack_audio_format f) = Some (rate, channels)"
  shows "\<exists>c' s' sent e. send_audio_packet link c s clock ts Opus channels rate payload = (c', s', sent, Inl e)"
proof -
  have "rate = af_sample_rate f" using assms(6) by (simp add: unpack_pack_audio_format split: if_splits)
  then have "\<not> rate \<le> 192000" using assms(3) by simp
  then have "\<exists>e. encode_audio_datagram sid t \<lparr>am_sequence_number = ds_next_audio_sequence s, am_capture_timestamp_us = ts,
      am_codec = Opus, am_channels = channels, am_sample_rate_hz = rate\<rparr> payload m = Inl e" for sid t
    by (simp add: encode_audio_datagram_def validate_audio_metadata_def split: sum.splits)
  then obtain e where "encode_audio_datagram (ds_session_id s) (elapsed_us (ds_started s) clock)
      \<lparr>am_sequence_number = ds_next_audio_sequence s, am_capture_timestamp_us = ts, am_codec = Opus,
       am_channels = channels, am_sample_rate_hz = rate\<rparr> payload m = Inl e" by blast
  then show ?thesis using assms(4) by (simp add: send_audio_packet_def Let_def)
qed

text \<open>In the same way a movement outside the range of the datagram ends the mouse writer.\<close>

lemma far_mouse_movement_fails:
  assumes "ls_value (as_latest_mouse st) = Some m" and "mo_mode m = Relative" and "sint (mo_x m) > 100000"
    and "max_datagram_size link s = Inr size'" and "mo_button_state_mask m AND NOT KNOWN_BUTTON_MASK = 0"
  shows "snd (snd (snd (snd (mouse_writer_step link clock c s st)))) = TaskFails"
proof -
  have "validate_mouse_movement \<lparr>mm_sequence_number = n, mm_monotonic_timestamp_us = t, mm_mode = Relative,
      mm_x = mo_x m, mm_y = y, mm_display_id = 0, mm_button_state_mask = mo_button_state_mask m\<rparr> = Inl InvalidCoordinates" for n t y
    using assms(3,5) by (simp add: validate_mouse_movement_def validate_display_id_def MAX_DISPLAY_ID_def validate_relative_coordinates_def)
  then have "encode_application_mouse_movement sid \<lparr>mm_sequence_number = n, mm_monotonic_timestamp_us = t, mm_mode = Relative,
      mm_x = mo_x m, mm_y = y, mm_display_id = 0, mm_button_state_mask = mo_button_state_mask m\<rparr> payload k = Inl InvalidCoordinates"
    for sid n t y payload k
    by (simp add: encode_application_mouse_movement_def)
  then show ?thesis using assms(1,2,4)
    by (simp add: mouse_writer_step_def latest_take_def send_application_mouse_movement_def send_mouse_datagram_def Let_def)
qed

end
