(* ===== verification/Application_Ordering.thy ===== *)
theory Application_Ordering
  imports Application_Properties
begin

text \<open>
  The order of a display switch and the video that follows it. A run is made of everything that
  happens to a stream (\<open>app_op\<close>) and of the steps of the video writer, which holds one frame at a
  time; its output is the frames that the writer writes.
\<close>

section \<open>The ordering of a display switch\<close>

definition gate_ok :: "ordering_gate \<Rightarrow> bool" where
  "gate_ok g \<longleftrightarrow> og_acknowledged_epoch g \<le> og_requested_epoch g"

lemma next_epoch_facts:
  assumes "unat (og_requested_epoch g) + 1 < 2 ^ 64" and "gate_ok g"
  shows "gate_next_epoch g = (g\<lparr>og_requested_epoch := og_requested_epoch g + 1\<rparr>, Inr (og_requested_epoch g + 1))"
    and "og_acknowledged_epoch g < og_requested_epoch g + 1"
proof -
  have "unat (og_requested_epoch g + 1) = unat (og_requested_epoch g) + 1"
    using assms(1) by (simp add: unat_word_ariths)
  with assms(2) show "og_acknowledged_epoch g < og_requested_epoch g + 1"
    by (simp add: gate_ok_def word_le_nat_alt word_less_nat_alt)
  show "gate_next_epoch g = (g\<lparr>og_requested_epoch := og_requested_epoch g + 1\<rparr>, Inr (og_requested_epoch g + 1))"
    using assms(1) by (simp add: gate_next_epoch_def checked_add_def)
qed

text \<open>The acknowledged epoch never passes the requested one, nor does the epoch of a waiting frame.\<close>

definition ordered :: "app_stream \<Rightarrow> bool" where
  "ordered st \<longleftrightarrow> gate_ok (as_video_ordering st) \<and>
     (\<forall>e \<in> set (tl_pending (as_latest_video st)).
        vob_ordering_epoch (pv_value (snd e)) \<le> og_requested_epoch (as_video_ordering st))"

lemma ordered_ignores [simp]:
  "ordered (st\<lparr>as_raw_mode := b\<rparr>) = ordered st"
  "ordered (st\<lparr>as_closing := b\<rparr>) = ordered st"
  "ordered (st\<lparr>as_audio := a\<rparr>) = ordered st"
  "ordered (st\<lparr>as_latest_mouse := m\<rparr>) = ordered st"
  by (simp_all add: ordered_def)

lemma keeps_ordering [simp]:
  "as_video_ordering (fst (send_to_control mt payload st)) = as_video_ordering st"
  "as_latest_video (fst (send_to_control mt payload st)) = as_latest_video st"
  "as_video_ordering (fst (send_reliable_class cls payload st)) = as_video_ordering st"
  "as_latest_video (fst (send_reliable_class cls payload st)) = as_latest_video st"
  "as_video_ordering (fst (enqueue_audio limit payload st)) = as_video_ordering st"
  "as_latest_video (fst (enqueue_audio limit payload st)) = as_latest_video st"
  "as_video_ordering (enter_recovery k i f st) = as_video_ordering st"
  "as_latest_video (enter_recovery k i f st) = as_latest_video st"
  "as_video_ordering (count_replacement st) = as_video_ordering st"
  "as_latest_video (count_replacement st) = as_latest_video st"
  by (auto simp: send_to_control_def send_reliable_class_def enqueue_audio_def enter_recovery_def count_replacement_def
      Let_def split: prod.splits application_class.splits option.splits try_send.splits)

lemma enqueue_video_ordered:
  assumes "ordered st"
  shows "ordered (fst (enqueue_video_frame parse key md payload st))"
proof -
  have "vob_ordering_epoch (pv_value (snd e)) \<le> og_requested_epoch (as_video_ordering st)"
    if "track_replace (as_latest_video st) k v rep = (slot, ok, old)" "e \<in> set (tl_pending slot)"
      "vob_ordering_epoch v = og_requested_epoch (as_video_ordering st)" for k v rep slot ok old e
    using slot_members [OF that(1,2)] that(3) assms by (auto simp: ordered_def)
  with assms show ?thesis
    by (fastforce simp: enqueue_video_frame_def ordered_def Let_def split: option.splits prod.splits)
qed

lemma next_epoch_cases:
  assumes "gate_next_epoch g = (g', r)" and "gate_ok g"
  shows "r = Inl OrderingEpochExhausted \<and> g' = g \<or>
    r = Inr (og_requested_epoch g') \<and> gate_ok g' \<and> og_requested_epoch g \<le> og_requested_epoch g' \<and>
    og_acknowledged_epoch g' = og_acknowledged_epoch g"
proof (cases "unat (og_requested_epoch g) + 1 < 2 ^ 64")
  case True
  then have "unat (og_requested_epoch g + 1) = unat (og_requested_epoch g) + 1" by (simp add: unat_word_ariths)
  with next_epoch_facts [OF True assms(2)] assms show ?thesis
    by (auto simp: gate_ok_def word_le_nat_alt word_less_nat_alt)
next
  case False
  with assms(1) show ?thesis by (auto simp: gate_next_epoch_def checked_add_def)
qed

lemma ordering_ordered:
  assumes "ordered st" and "gate_next_epoch (as_video_ordering st) = (g, Inr epoch)"
    and "send_to_control VideoOrdering payload (st\<lparr>as_video_ordering := g\<rparr>) = (st2, r)"
  shows "ordered st2 \<and> ordered (st2\<lparr>as_video_ordering := gate_cancel_epoch (as_video_ordering st2) epoch\<rparr>)"
proof -
  have g: "epoch = og_requested_epoch g" "gate_ok g" "og_requested_epoch (as_video_ordering st) \<le> og_requested_epoch g"
    using next_epoch_cases [OF assms(2)] assms(1) by (auto simp: ordered_def)
  have st2: "as_video_ordering st2 = g" "as_latest_video st2 = as_latest_video st"
    using keeps_ordering(1,2) [of VideoOrdering payload "st\<lparr>as_video_ordering := g\<rparr>"] assms(3) by simp_all
  have "\<forall>e \<in> set (tl_pending (as_latest_video st)). vob_ordering_epoch (pv_value (snd e)) \<le> og_requested_epoch g"
    using assms(1) g(3) by (auto simp: ordered_def intro: order_trans)
  with g st2 show ?thesis by (simp add: ordered_def gate_ok_def gate_cancel_epoch_def gate_acknowledge_def)
qed

lemma enqueue_ordered:
  assumes "ordered st"
  shows "ordered (fst (enqueue_with_latest_key parse closed limit key payload st))"
proof (cases "as_closing st \<or> closed \<or> as_raw_mode st \<or> parse payload = None")
  case True
  have "ordered (fst (send_to_control mt payload st))" for mt using assms by (simp add: ordered_def)
  with True assms show ?thesis by (auto simp: enqueue_with_latest_key_def ordered_def split: option.splits)
next
  case False
  then obtain message where m: "parse payload = Some message" by auto
  define st1 where "st1 = (case audio_format message of None \<Rightarrow> st
    | Some format \<Rightarrow> st\<lparr>as_audio_format := pack_audio_format format\<rparr>)"
  have st1: "ordered st1" using assms by (auto simp: st1_def ordered_def split: option.splits)
  have other: "ordered (fst (send_reliable_class cls payload st1))" "ordered (fst (enqueue_audio limit payload st1))"
    "ordered (st1\<lparr>as_latest_mouse := slot\<rparr>)" "ordered (st1\<lparr>as_video_ordering := as_video_ordering st1\<rparr>)" for cls slot
    using st1 by (simp_all add: ordered_def)
  obtain g r where g: "gate_next_epoch (as_video_ordering st1) = (g, r)" by fastforce
  have same: "r = Inl e \<Longrightarrow> g = as_video_ordering st1" for e
    using next_epoch_cases [OF g] st1 by (auto simp: ordered_def)
  show ?thesis
    using False m st1 other enqueue_video_ordered [OF st1] ordering_ordered [OF st1] g same
    by (simp add: enqueue_with_latest_key_def st1_def [symmetric] Let_def split: sum.splits prod.splits application_class.splits)
qed

lemma take_video_ordered:
  assumes "ordered st"
  shows "ordered (fst (take_video closed st))"
proof -
  have "(k, p) \<in> set (tl_pending (as_latest_video st))"
    if "min_by_key (service_order (as_latest_video st)) (tl_pending (as_latest_video st)) = Some (k, p)" for k p
    using min_by_key_Some [OF that] by simp
  with assms show ?thesis
    by (fastforce simp: take_video_def track_take_def ordered_def gate_ok_def gate_cancel_epoch_def gate_acknowledge_def
        set_bm_remove Let_def split: option.splits prod.splits)
qed

lemma control_reader_ordered: "ordered st \<Longrightarrow> ordered (fst (control_reader_step parse mt payload st))"
  by (auto simp: control_reader_step_def ordered_def gate_ok_def gate_acknowledge_def Let_def not_less
      split: sum.splits if_splits)

lemma app_step_ordered: "ordered s \<Longrightarrow> ordered (app_step parse write s e)"
proof (cases e)
  case (AppControlWait payload closed)
  moreover assume "ordered s"
  ultimately show ?thesis
    by (auto simp: enqueue_control_and_wait_def ordered_def split: option.splits sum.splits)
next
  case (WriterTakes kind)
  moreover assume "ordered s"
  ultimately show ?thesis by (cases kind) (simp_all add: on_queue_def ordered_def)
next
  case (WriterEnds kind)
  moreover assume "ordered s"
  ultimately show ?thesis by (cases kind) (simp_all add: on_queue_def ordered_def)
next
  case (KeyframeRequested request)
  moreover assume "ordered s"
  ultimately show ?thesis by (auto simp: send_keyframe_request_def ordered_def split: prod.splits)
qed (simp_all add: enqueue_ordered control_reader_ordered take_video_ordered set_raw_def begin_teardown_def)

lemma ordered_new: "ordered (app_stream_new scoped limit)"
  by (simp add: ordered_def app_stream_new_def track_slot_new_def gate_new_def gate_ok_def)

section \<open>The video writer in a run\<close>

record 's writer_run =
  wr_stream :: app_stream
  wr_writer :: "'s video_writer"
  wr_held :: "video_outbound option"

datatype writer_op =
    StreamOp app_op
  | TakeVideo bool
  | TakeNewer
  | WriteHeld instant instant u64 bool
  | AbandonHeld

text \<open>
  One step of the loop of \<open>run_video_writer\<close>, or of the stream it serves. The second result is the
  frame that was written and the datagrams that were sent for it.
\<close>

fun writer_step ::
    "message_parser \<Rightarrow> (app_message \<Rightarrow> bytes) \<Rightarrow> 's send_stream \<Rightarrow> datagram_link \<Rightarrow> 's writer_run \<Rightarrow> writer_op
     \<Rightarrow> 's writer_run \<times> (video_outbound \<times> bytes list) list" where
  "writer_step parse write S link r (StreamOp op) = (r\<lparr>wr_stream := app_step parse write (wr_stream r) op\<rparr>, [])"
| "writer_step parse write S link r (TakeVideo closed) =
     (case wr_held r of
        Some _ \<Rightarrow> (r, [])
      | None \<Rightarrow> (case take_video closed (wr_stream r) of (st, item, _) \<Rightarrow> (r\<lparr>wr_stream := st, wr_held := item\<rparr>, [])))"
| "writer_step parse write S link r TakeNewer =
     (case wr_held r of
        None \<Rightarrow> (r, [])
      | Some item \<Rightarrow>
          if gate_is_open (as_video_ordering (wr_stream r)) (vob_ordering_epoch item) then (r, [])
          else (case track_take_track (as_latest_video (wr_stream r)) (vob_track_key item) of
                  (slot, None) \<Rightarrow> (r, [])
                | (slot, Some newer) \<Rightarrow>
                    (case newer_while_waiting item newer ((wr_stream r)\<lparr>as_latest_video := slot\<rparr>) of
                       (item', st) \<Rightarrow> (r\<lparr>wr_stream := st, wr_held := Some item'\<rparr>, []))))"
| "writer_step parse write S link r (WriteHeld clock now timestamp closed) =
     (case wr_held r of
        None \<Rightarrow> (r, [])
      | Some item \<Rightarrow>
          (case write_held S link clock now timestamp closed item (wr_stream r) (wr_writer r) of
             None \<Rightarrow> (r, [])
           | Some (st, w, sent, _) \<Rightarrow> (\<lparr>wr_stream = st, wr_writer = w, wr_held = None\<rparr>, [(item, sent)])))"
| "writer_step parse write S link r AbandonHeld =
     (case wr_held r of
        None \<Rightarrow> (r, [])
      | Some item \<Rightarrow> (r\<lparr>wr_stream := fst (abandon_held item (wr_stream r)), wr_held := None\<rparr>, []))"

fun written ::
    "message_parser \<Rightarrow> (app_message \<Rightarrow> bytes) \<Rightarrow> 's send_stream \<Rightarrow> datagram_link \<Rightarrow> 's writer_run \<Rightarrow> writer_op list
     \<Rightarrow> (video_outbound \<times> bytes list) list" where
  "written parse write S link r [] = []"
| "written parse write S link r (op # ops) =
     snd (writer_step parse write S link r op) @ written parse write S link (fst (writer_step parse write S link r op)) ops"

definition writer_start :: "bool \<Rightarrow> u16 \<Rightarrow> 's video_writer \<Rightarrow> 's writer_run" where
  "writer_start scoped limit w = \<lparr>wr_stream = app_stream_new scoped limit, wr_writer = w, wr_held = None\<rparr>"

text \<open>The frames that wait: in the slot, and in the hands of the writer.\<close>

definition slot_frames :: "app_stream \<Rightarrow> video_outbound set" where
  "slot_frames st = (\<lambda>e. pv_value (snd e)) ` set (tl_pending (as_latest_video st))"

definition waiting :: "'s writer_run \<Rightarrow> video_outbound set" where
  "waiting r = slot_frames (wr_stream r) \<union> set_option (wr_held r)"

text \<open>
  The steps that can open the gate for \<open>epoch\<close>: an acknowledgement of it or of a later epoch, a later
  display switch that could not be queued, and the end of the connection or of the stream.
\<close>

fun opens_gate :: "message_parser \<Rightarrow> u64 \<Rightarrow> 's writer_run \<Rightarrow> writer_op \<Rightarrow> bool" where
  "opens_gate parse epoch r (StreamOp (ControlArrives mt payload)) \<longleftrightarrow>
     mt = VideoOrderingAck \<and> (case read_ordering_epoch payload of Inl _ \<Rightarrow> False | Inr acknowledged \<Rightarrow> epoch \<le> acknowledged)"
| "opens_gate parse epoch r (StreamOp (AppEnqueue key payload closed limit)) \<longleftrightarrow>
     (case parse payload of None \<Rightarrow> False | Some message \<Rightarrow> is_video_ordering_message message) \<and>
     snd (enqueue_with_latest_key parse closed limit key payload (wr_stream r)) \<in> {Inl QueueFull, Inl QueueClosed}"
| "opens_gate parse epoch r (StreamOp (VideoTaken closed)) \<longleftrightarrow> closed \<or> as_closing (wr_stream r)"
| "opens_gate parse epoch r (StreamOp op) \<longleftrightarrow> False"
| "opens_gate parse epoch r (TakeVideo closed) \<longleftrightarrow> closed \<or> as_closing (wr_stream r)"
| "opens_gate parse epoch r TakeNewer \<longleftrightarrow> False"
| "opens_gate parse epoch r (WriteHeld clock now timestamp closed) \<longleftrightarrow> False"
| "opens_gate parse epoch r AbandonHeld \<longleftrightarrow> True"

fun unopened ::
    "message_parser \<Rightarrow> (app_message \<Rightarrow> bytes) \<Rightarrow> 's send_stream \<Rightarrow> datagram_link \<Rightarrow> u64 \<Rightarrow> 's writer_run
     \<Rightarrow> writer_op list \<Rightarrow> bool" where
  "unopened parse write S link epoch r [] \<longleftrightarrow> True"
| "unopened parse write S link epoch r (op # ops) \<longleftrightarrow>
     \<not> opens_gate parse epoch r op \<and>
     unopened parse write S link epoch (fst (writer_step parse write S link r op)) ops"

section \<open>What a step does to the gate and to the frames that wait\<close>

abbreviation requested :: "app_stream \<Rightarrow> u64" where
  "requested st \<equiv> og_requested_epoch (as_video_ordering st)"

abbreviation acknowledged :: "app_stream \<Rightarrow> u64" where
  "acknowledged st \<equiv> og_acknowledged_epoch (as_video_ordering st)"

text \<open>The requested epoch does not fall, and a frame that is new carries it.\<close>

definition moves_on :: "app_stream \<Rightarrow> app_stream \<Rightarrow> bool" where
  "moves_on st st' \<longleftrightarrow> requested st \<le> requested st' \<and>
     (\<forall>v \<in> slot_frames st'. v \<in> slot_frames st \<or> requested st \<le> vob_ordering_epoch v)"

lemma moves_on_same:
  "as_video_ordering st' = as_video_ordering st \<Longrightarrow> as_latest_video st' = as_latest_video st \<Longrightarrow> moves_on st st'"
  by (simp add: moves_on_def slot_frames_def)

lemma enqueue_video_moves_on:
  "moves_on st (fst (enqueue_video_frame parse key md payload st)) \<and>
   acknowledged (fst (enqueue_video_frame parse key md payload st)) = acknowledged st"
proof -
  have new: "pv_value (snd e) \<in> slot_frames st \<or> requested st \<le> vob_ordering_epoch (pv_value (snd e))"
    if "track_replace (as_latest_video st) k v rep = (slot, ok, old)" "e \<in> set (tl_pending slot)"
      "vob_ordering_epoch v = requested st" for k v rep slot ok old e
    using slot_members [OF that(1,2)] that(3) by (auto simp: slot_frames_def)
  show ?thesis
    using new by (fastforce simp: enqueue_video_frame_def moves_on_def slot_frames_def Let_def split: option.splits prod.splits)
qed

lemma next_epoch_grows:
  assumes "gate_next_epoch g = (g', r)"
  shows "og_requested_epoch g \<le> og_requested_epoch g' \<and> og_acknowledged_epoch g' = og_acknowledged_epoch g"
proof (cases "unat (og_requested_epoch g) + 1 < 2 ^ 64")
  case True
  then have "unat (og_requested_epoch g + 1) = unat (og_requested_epoch g) + 1" by (simp add: unat_word_ariths)
  with True assms show ?thesis by (auto simp: gate_next_epoch_def checked_add_def word_le_nat_alt)
next
  case False
  with assms show ?thesis by (auto simp: gate_next_epoch_def checked_add_def)
qed

lemma send_to_control_error: "snd (send_to_control mt payload st) = Inl e \<Longrightarrow> e \<in> {QueueFull, QueueClosed}"
  by (auto simp: send_to_control_def map_try_send_error_def split: prod.splits try_send.splits)

text \<open>Enqueueing acknowledges nothing, unless a display switch could not be queued.\<close>

lemma enqueue_moves_on:
  "moves_on (wr_stream r) (fst (enqueue_with_latest_key parse closed limit key payload (wr_stream r))) \<and>
   (opens_gate parse epoch r (StreamOp (AppEnqueue key payload closed limit)) \<or>
    acknowledged (fst (enqueue_with_latest_key parse closed limit key payload (wr_stream r))) = acknowledged (wr_stream r))"
proof (cases "as_closing (wr_stream r) \<or> closed \<or> as_raw_mode (wr_stream r) \<or> parse payload = None")
  case True
  then show ?thesis by (auto simp: enqueue_with_latest_key_def moves_on_def slot_frames_def split: option.splits)
next
  case False
  let ?st = "wr_stream r"
  from False obtain message where m: "parse payload = Some message" by auto
  define st1 where "st1 = (case audio_format message of None \<Rightarrow> ?st
    | Some format \<Rightarrow> ?st\<lparr>as_audio_format := pack_audio_format format\<rparr>)"
  have st1: "as_video_ordering st1 = as_video_ordering ?st" "as_latest_video st1 = as_latest_video ?st"
    by (auto simp: st1_def split: option.splits)
  show ?thesis
  proof (cases "is_video_ordering_message message")
    case False
    then show ?thesis
      using \<open>\<not> (as_closing _ \<or> _)\<close> m st1 enqueue_video_moves_on [of st1 parse key _ payload]
      by (auto simp: enqueue_with_latest_key_def st1_def [symmetric] Let_def moves_on_def slot_frames_def
          split: sum.splits application_class.splits)
  next
    case True
    obtain g res where g: "gate_next_epoch (as_video_ordering st1) = (g, res)" by fastforce
    obtain st2 res2 where s: "send_to_control VideoOrdering (u64_be (case res of Inr e \<Rightarrow> e | Inl _ \<Rightarrow> 0) @ payload)
        (st1\<lparr>as_video_ordering := g\<rparr>) = (st2, res2)" by fastforce
    have st2: "as_video_ordering st2 = g" "as_latest_video st2 = as_latest_video ?st"
      using keeps_ordering(1,2) [of VideoOrdering "u64_be (case res of Inr e \<Rightarrow> e | Inl _ \<Rightarrow> 0) @ payload"
          "st1\<lparr>as_video_ordering := g\<rparr>"] s st1 by simp_all
    have step: "enqueue_with_latest_key parse closed limit key payload ?st =
        (case res of
           Inl _ \<Rightarrow> (st1\<lparr>as_video_ordering := g\<rparr>, Inl OrderingExhausted)
         | Inr e \<Rightarrow> (case res2 of
             Inr _ \<Rightarrow> (st2, Inr ())
           | Inl err \<Rightarrow> (st2\<lparr>as_video_ordering := gate_cancel_epoch (as_video_ordering st2) e\<rparr>, Inl err)))"
      using False m True g s by (auto simp: enqueue_with_latest_key_def st1_def [symmetric] Let_def split: sum.splits)
    have "res2 = Inl err \<Longrightarrow> err \<in> {QueueFull, QueueClosed}" for err
      using send_to_control_error s by (metis snd_conv)
    with m True step have "res = Inr e \<Longrightarrow> res2 = Inl err \<Longrightarrow>
        opens_gate parse epoch r (StreamOp (AppEnqueue key payload closed limit))" for e err
      by auto
    with step st1 st2 next_epoch_grows [OF g] show ?thesis
      by (auto simp: moves_on_def slot_frames_def gate_cancel_epoch_def gate_acknowledge_def simp del: opens_gate.simps split: sum.splits)
  qed
qed

lemma take_moves_on:
  assumes "take_video closed st = (st', item, t)"
  shows "requested st' = requested st \<and> slot_frames st' \<subseteq> slot_frames st \<and> set_option item \<subseteq> slot_frames st \<and>
    (\<not> closed \<and> \<not> as_closing st \<longrightarrow> acknowledged st' = acknowledged st)"
proof (cases "min_by_key (service_order (as_latest_video st)) (tl_pending (as_latest_video st))")
  case None
  with assms show ?thesis by (auto simp: slot_frames_def take_video_def track_take_def)
next
  case (Some e)
  obtain k p where e: "e = (k, p)" by fastforce
  have "(k, p) \<in> set (tl_pending (as_latest_video st))" using min_by_key_Some [OF Some] e by simp
  then have "pv_value p \<in> slot_frames st" by (force simp: slot_frames_def)
  with Some e assms show ?thesis
    by (auto simp: slot_frames_def take_video_def track_take_def gate_cancel_epoch_def gate_acknowledge_def set_bm_remove Let_def
        split: if_splits)
qed

lemma app_step_moves_on:
  "moves_on (wr_stream r) (app_step parse write (wr_stream r) op) \<and>
   (opens_gate parse epoch r (StreamOp op) \<or> acknowledged (wr_stream r) \<ge> epoch \<or>
    acknowledged (app_step parse write (wr_stream r) op) < epoch)"
proof (cases op)
  case (AppEnqueue key payload closed limit)
  with enqueue_moves_on [of r parse closed limit key payload epoch] show ?thesis
    by (auto simp del: opens_gate.simps)
next
  case (AppControlWait payload closed)
  then show ?thesis
    by (auto simp: enqueue_control_and_wait_def moves_on_def slot_frames_def split: option.splits sum.splits)
next
  case (ControlArrives mt payload)
  then show ?thesis
    by (auto simp: control_reader_step_def moves_on_def slot_frames_def gate_acknowledge_def validate_reliable_application_message_def
        Let_def split: sum.splits if_splits)
next
  case (WriterTakes kind)
  then show ?thesis by (cases kind) (auto simp: on_queue_def moves_on_def slot_frames_def)
next
  case (WriterEnds kind)
  then show ?thesis by (cases kind) (auto simp: on_queue_def moves_on_def slot_frames_def)
next
  case (VideoTaken closed)
  obtain st' item t where "take_video closed (wr_stream r) = (st', item, t)" by (metis prod_cases3)
  with take_moves_on [OF this] VideoTaken show ?thesis by (auto simp: moves_on_def slot_frames_def)
qed (auto simp: moves_on_def slot_frames_def set_raw_def begin_teardown_def send_keyframe_request_def split: prod.splits)

lemma reference_epoch_keeps_order:
  "apply_video_reference_epoch item epochs barrier = (item', rest) \<Longrightarrow> vob_ordering_epoch item' = vob_ordering_epoch item"
  by (auto simp: apply_video_reference_epoch_def Let_def split: if_splits option.splits)

text \<open>Writing a frame leaves the slot, and opens the gate at most for the frame's own epoch.\<close>

lemma write_video_gate:
  assumes "write_video S link clock now ts closed item st w = (st', w', sent, t)"
  shows "as_latest_video st' = as_latest_video st" and "as_video_ordering st' \<in>
    {as_video_ordering st, gate_cancel_epoch (as_video_ordering st) (vob_ordering_epoch item)}"
proof -
  obtain item' epochs' e where a: "apply_video_reference_epoch item (vw_reference_epochs w) (vw_keyframe_barrier w) =
      (item', epochs', e)" by (metis prod_cases3)
  have keep: "as_latest_video (frame_written i s) = as_latest_video s" "as_video_ordering (frame_written i s) = as_video_ordering s"
    for i s by (simp_all add: frame_written_def)
  show "as_latest_video st' = as_latest_video st" and "as_video_ordering st' \<in>
      {as_video_ordering st, gate_cancel_epoch (as_video_ordering st) (vob_ordering_epoch item)}"
    using assms reference_epoch_keeps_order [OF a]
    by (auto simp: write_video_def a keep Let_def split: prod.splits if_splits option.splits sum.splits
        video_send_outcome.splits)
qed

section \<open>Runs\<close>

text \<open>The invariant of \<open>ordered\<close> with the frame that the writer holds.\<close>

definition run_ordered :: "'s writer_run \<Rightarrow> bool" where
  "run_ordered r \<longleftrightarrow> acknowledged (wr_stream r) \<le> requested (wr_stream r) \<and>
     (\<forall>v \<in> waiting r. vob_ordering_epoch v \<le> requested (wr_stream r))"

lemma run_ordered_iff:
  "run_ordered r \<longleftrightarrow> ordered (wr_stream r) \<and> (\<forall>item. wr_held r = Some item \<longrightarrow> vob_ordering_epoch item \<le> requested (wr_stream r))"
  by (auto simp: run_ordered_def ordered_def gate_ok_def waiting_def slot_frames_def)

lemma newer_frames:
  assumes "track_take_track (as_latest_video st) key = (slot, Some newer)"
    and "newer_while_waiting item newer (st\<lparr>as_latest_video := slot\<rparr>) = (item', st')"
  shows "as_video_ordering st' = as_video_ordering st \<and> slot_frames st' \<subseteq> slot_frames st \<and>
    item' \<in> insert item (slot_frames st)"
proof -
  from assms(1) obtain p where p: "bm_get (tl_pending (as_latest_video st)) key = Some p" "newer = pv_value p"
    "tl_pending slot = bm_remove key (tl_pending (as_latest_video st))"
    by (auto simp: track_take_track_def split: option.splits)
  have "newer \<in> slot_frames st" using bm_get_mem [OF p(1)] p(2) by (force simp: slot_frames_def)
  with assms(2) p(3) show ?thesis by (auto simp: newer_while_waiting_def slot_frames_def set_bm_remove Let_def split: if_splits)
qed

text \<open>
  What a step of the writer itself does: the requested epoch stays, no frame comes in from outside,
  and a frame is written only when the gate is open for it.
\<close>

lemma own_step:
  assumes "writer_step parse write S link r op = (r', out)" and "\<forall>o'. op \<noteq> StreamOp o'"
  shows "requested (wr_stream r') = requested (wr_stream r) \<and> waiting r' \<subseteq> waiting r \<and>
    (\<forall>(item, sent) \<in> set out. item \<in> waiting r \<and> vob_ordering_epoch item \<le> acknowledged (wr_stream r)) \<and>
    (acknowledged (wr_stream r') = acknowledged (wr_stream r) \<or>
     opens_gate parse epoch r op \<and> (\<exists>item \<in> waiting r. acknowledged (wr_stream r') =
       max (acknowledged (wr_stream r)) (vob_ordering_epoch item)))"
proof (cases op)
  case (TakeVideo closed)
  obtain st' item t where take: "take_video closed (wr_stream r) = (st', item, t)" by (metis prod_cases3)
  have ack: "acknowledged st' = acknowledged (wr_stream r) \<or>
      (\<exists>v \<in> slot_frames (wr_stream r). acknowledged st' = max (acknowledged (wr_stream r)) (vob_ordering_epoch v))"
  proof (cases "min_by_key (service_order (as_latest_video (wr_stream r))) (tl_pending (as_latest_video (wr_stream r)))")
    case None
    with take show ?thesis by (auto simp: take_video_def track_take_def)
  next
    case (Some e)
    have "acknowledged st' \<in> {acknowledged (wr_stream r),
        max (acknowledged (wr_stream r)) (vob_ordering_epoch (pv_value (snd e)))}"
      using take Some
      by (cases e) (auto simp: take_video_def track_take_def gate_cancel_epoch_def gate_acknowledge_def Let_def split: if_splits)
    moreover have "pv_value (snd e) \<in> slot_frames (wr_stream r)" using min_by_key_Some [OF Some] by (simp add: slot_frames_def)
    ultimately show ?thesis by blast
  qed
  show ?thesis
    using assms TakeVideo take ack take_moves_on [OF take] by (cases "wr_held r") (auto simp: waiting_def)
next
  case TakeNewer
  with assms show ?thesis
    by (auto simp: waiting_def split: option.splits prod.splits if_splits dest!: newer_frames)
next
  case (WriteHeld clock now ts closed)
  show ?thesis
  proof (cases "wr_held r")
    case (Some item)
    show ?thesis
    proof (cases "gate_is_open (as_video_ordering (wr_stream r)) (vob_ordering_epoch item)")
      case True
      obtain st' w' sent t where wv: "write_video S link clock now ts closed item (wr_stream r) (wr_writer r) = (st', w', sent, t)"
        by (metis prod_cases4)
      have "max (acknowledged (wr_stream r)) (vob_ordering_epoch item) = acknowledged (wr_stream r)"
        using True by (simp add: gate_is_open_def max_def)
      then have "acknowledged st' = acknowledged (wr_stream r)" "requested st' = requested (wr_stream r)"
        using write_video_gate(2) [OF wv] by (auto simp: gate_cancel_epoch_def gate_acknowledge_def)
      with True assms WriteHeld Some write_video_gate(1) [OF wv] wv show ?thesis
        by (auto simp: write_held_def waiting_def slot_frames_def gate_is_open_def)
    qed (use assms WriteHeld Some in \<open>auto simp: write_held_def\<close>)
  qed (use assms WriteHeld in auto)
next
  case AbandonHeld
  with assms show ?thesis
    by (cases "wr_held r") (auto simp: abandon_held_def waiting_def slot_frames_def gate_cancel_epoch_def gate_acknowledge_def)
qed (use assms(2) in auto)

lemma writer_step_ordered:
  assumes "run_ordered r"
  shows "run_ordered (fst (writer_step parse write S link r op))"
proof (cases "\<exists>o'. op = StreamOp o'")
  case True
  then obtain o' where op: "op = StreamOp o'" by blast
  from assms have "ordered (wr_stream r)" by (simp add: run_ordered_iff)
  then have "ordered (app_step parse write (wr_stream r) o')" by (rule app_step_ordered)
  moreover have "requested (wr_stream r) \<le> requested (app_step parse write (wr_stream r) o')"
    using app_step_moves_on [of r parse "write" o'] by (simp add: moves_on_def)
  ultimately show ?thesis using assms by (auto simp: op run_ordered_iff intro: order_trans)
next
  case False
  obtain r' out where st: "writer_step parse write S link r op = (r', out)" by fastforce
  from own_step [OF st, of undefined] False assms show ?thesis by (auto simp: st run_ordered_def)
qed

interpretation writer: step_invariant "\<lambda>r op. fst (writer_step parse write S link r op)" run_ordered
  for parse and "write" and S and link
  by unfold_locales (rule writer_step_ordered)

lemma run_ordered_start: "run_ordered (writer_start scoped limit w)"
  using ordered_new by (simp add: run_ordered_iff writer_start_def)

text \<open>The gate is closed for \<open>epoch\<close>, and a frame that waits is one of \<open>old\<close> or belongs to \<open>epoch\<close> or later.\<close>

definition held_back :: "u64 \<Rightarrow> video_outbound set \<Rightarrow> 's writer_run \<Rightarrow> bool" where
  "held_back epoch old r \<longleftrightarrow> acknowledged (wr_stream r) < epoch \<and> epoch \<le> requested (wr_stream r) \<and>
     (\<forall>v \<in> waiting r. v \<in> old \<or> epoch \<le> vob_ordering_epoch v)"

lemma writer_step_held_back:
  assumes "held_back epoch old r" and "\<not> opens_gate parse epoch r op"
    and "writer_step parse write S link r op = (r', out)"
  shows "held_back epoch old r' \<and> (\<forall>(item, sent) \<in> set out. item \<in> old)"
proof (cases "\<exists>o'. op = StreamOp o'")
  case True
  then obtain o' where op: "op = StreamOp o'" by blast
  with app_step_moves_on [of r parse "write" o' epoch] assms show ?thesis
    by (auto simp: held_back_def moves_on_def waiting_def not_le simp del: opens_gate.simps intro: order_trans)
next
  case False
  then have "\<forall>o'. op \<noteq> StreamOp o'" by blast
  note own = own_step [OF assms(3) this, of epoch]
  from own assms(1,2) have "acknowledged (wr_stream r') < epoch" "epoch \<le> requested (wr_stream r')"
    by (simp_all add: held_back_def)
  moreover have "item \<in> old" if "(item, sent) \<in> set out" for item sent
    using own that assms(1) by (fastforce simp: held_back_def)
  ultimately show ?thesis using own assms(1) by (auto simp: held_back_def)
qed

lemma held_back_run:
  "held_back epoch old r \<Longrightarrow> unopened parse write S link epoch r ops \<Longrightarrow>
   (item, sent) \<in> set (written parse write S link r ops) \<Longrightarrow> item \<in> old"
proof (induction ops arbitrary: r)
  case (Cons op ops)
  obtain r' out where st: "writer_step parse write S link r op = (r', out)" by fastforce
  have "\<not> opens_gate parse epoch r op" using Cons.prems(2) by simp
  from writer_step_held_back [OF Cons.prems(1) this st] Cons.IH [of r'] Cons.prems(2,3) st show ?case by auto
qed simp

section \<open>A display switch\<close>

lemma switch_enqueued:
  assumes "gate_ok (as_video_ordering st)" and "\<not> as_closing st" and "\<not> as_raw_mode st"
    and "parse payload = Some (Some (Union_Misc (Some Misc_SwitchDisplay)))"
    and "length (mq_items (as_control st)) < mq_capacity (as_control st)" and "\<not> mq_closed (as_control st)"
    and "unat (requested st) + 1 < 2 ^ 64"
  defines "epoch \<equiv> requested st + 1"
  shows "enqueue parse False connection_max payload st =
      (st\<lparr>as_video_ordering := (as_video_ordering st)\<lparr>og_requested_epoch := epoch\<rparr>,
          as_control := (as_control st)\<lparr>mq_items := mq_items (as_control st) @ [outbound VideoOrdering (u64_be epoch @ payload)]\<rparr>\<rparr>, Inr ())"
    and "epoch \<noteq> 0" and "acknowledged st < epoch"
proof -
  note fresh = next_epoch_facts [OF assms(7,1), folded epoch_def]
  show "epoch \<noteq> 0" using gate_next_epoch_nonzero [OF fresh(1)] .
  show "acknowledged st < epoch" by (rule fresh(2))
  show "enqueue parse False connection_max payload st =
      (st\<lparr>as_video_ordering := (as_video_ordering st)\<lparr>og_requested_epoch := epoch\<rparr>,
          as_control := (as_control st)\<lparr>mq_items := mq_items (as_control st) @ [outbound VideoOrdering (u64_be epoch @ payload)]\<rparr>\<rparr>, Inr ())"
    using assms(2-6) fresh(1)
    by (simp add: enqueue_def enqueue_with_latest_key_def send_to_control_def mpsc_try_send_def map_try_send_error_def
        is_video_ordering_message_def audio_format_def)
qed

text \<open>The two ends of the acknowledgement.\<close>

lemma switch_received:
  assumes "epoch \<noteq> 0" and "parse payload = Some (Some (Union_Misc (Some Misc_SwitchDisplay)))" and "\<not> mq_closed (as_control peer)"
  shows "control_reader_step parse VideoOrdering (u64_be epoch @ payload) peer =
      (peer\<lparr>as_control := (as_control peer)\<lparr>mq_items := mq_items (as_control peer) @ [outbound VideoOrderingAck (u64_be epoch)]\<rparr>\<rparr>,
       Some payload, TaskRuns)"
  using assms(3) read_ordering_epoch_written [OF assms(1), of payload]
    ordering_validates [where parse = parse, OF assms(2) _ assms(1)]
  by (simp add: control_reader_step_def u64_be_def is_video_ordering_message_def Let_def)

lemma switch_acknowledged:
  assumes "epoch \<noteq> 0" and "epoch \<le> requested st"
  shows "control_reader_step parse VideoOrderingAck (u64_be epoch) st =
      (st\<lparr>as_video_ordering := gate_acknowledge (as_video_ordering st) epoch\<rparr>, None, TaskRuns)"
  using assms read_ordering_epoch_written [OF assms(1), of "[]"]
  by (simp add: control_reader_step_def validate_reliable_application_message_def Let_def)

text \<open>
  Property C6: a display switch is ordered before the video that follows it. In every reachable state
  of the stream and its video writer with room in the control queue, enqueueing a display switch
  sends it with a fresh epoch. Whatever happens afterwards, as long as no acknowledgement of that
  epoch or a later one arrives, no later switch fails to be queued and the connection does not end,
  every frame that is written was already waiting when the switch was enqueued: no video enqueued
  after the switch is written. The peer hands the switch to its application, unchanged, and then
  queues the acknowledgement of the epoch; when that arrives, the gate is open for the epoch, and a
  held frame of it is written.
\<close>

theorem display_switch_ordered:
  assumes "r = foldl (\<lambda>r op. fst (writer_step parse write S link r op)) (writer_start scoped limit w0) ops"
    and "st = wr_stream r"
    and "\<not> as_closing st" and "\<not> as_raw_mode st" and "parse payload = Some (Some (Union_Misc (Some Misc_SwitchDisplay)))"
    and "length (mq_items (as_control st)) < mq_capacity (as_control st)" and "\<not> mq_closed (as_control st)"
    and "unat (og_requested_epoch (as_video_ordering st)) + 1 < 2 ^ 64" and "\<not> mq_closed (as_control peer)"
  shows "let (st1, result) = enqueue parse False connection_max payload st;
             r1 = r\<lparr>wr_stream := st1\<rparr>;
             epoch = og_requested_epoch (as_video_ordering st1);
             (peer1, delivered, _) = control_reader_step parse VideoOrdering (u64_be epoch @ payload) peer;
             (st2, _, run) = control_reader_step parse VideoOrderingAck (u64_be epoch) st1 in
    result = Inr () \<and> mq_items (as_control st1) = mq_items (as_control st) @ [outbound VideoOrdering (u64_be epoch @ payload)] \<and>
    (unopened parse write S link epoch r1 later \<longrightarrow>
       fst ` set (written parse write S link r1 later) \<subseteq> waiting r) \<and>
    delivered = Some payload \<and>
    mq_items (as_control peer1) = mq_items (as_control peer) @ [outbound VideoOrderingAck (u64_be epoch)] \<and>
    run = TaskRuns \<and>
    (vob_ordering_epoch item = epoch \<longrightarrow>
       write_held S link clock now ts closed item st2 w = Some (write_video S link clock now ts closed item st2 w))"
proof -
  have "run_ordered r" unfolding assms(1) by (rule writer.run_preserves [OF run_ordered_start])
  then have ok: "gate_ok (as_video_ordering st)" by (simp add: run_ordered_def gate_ok_def assms(2))
  note enq = switch_enqueued [where parse = parse, OF ok assms(3-8)]
  let ?e = "requested st + 1"
  let ?st1 = "st\<lparr>as_video_ordering := (as_video_ordering st)\<lparr>og_requested_epoch := ?e\<rparr>,
      as_control := (as_control st)\<lparr>mq_items := mq_items (as_control st) @ [outbound VideoOrdering (u64_be ?e @ payload)]\<rparr>\<rparr>"
  let ?r1 = "r\<lparr>wr_stream := ?st1\<rparr>"
  have "waiting ?r1 = waiting r" by (simp add: waiting_def slot_frames_def assms(2))
  with enq(3) have "held_back ?e (waiting r) ?r1" by (simp add: held_back_def)
  from held_back_run [OF this]
  have "unopened parse write S link ?e ?r1 later \<Longrightarrow> fst ` set (written parse write S link ?r1 later) \<subseteq> waiting r"
    by fastforce
  moreover note switch_received [where parse = parse, OF enq(2) assms(5,9)]
  moreover have "control_reader_step parse VideoOrderingAck (u64_be ?e) ?st1 =
      (?st1\<lparr>as_video_ordering := gate_acknowledge (as_video_ordering ?st1) ?e\<rparr>, None, TaskRuns)"
    by (rule switch_acknowledged [OF enq(2)]) simp
  ultimately show ?thesis
    by (simp add: enq(1) write_held_def gate_is_open_def gate_acknowledge_def Let_def)
qed

text \<open>A display switch, and then a video frame that the writer takes and cannot write.\<close>

definition sample_later :: "writer_op list" where
  "sample_later = [StreamOp (AppEnqueue None [4] False None), TakeVideo False, WriteHeld 0 0 0 False]"

lemma keeps_closing [simp]:
  "as_closing (fst (send_to_control mt payload st)) = as_closing st"
  "as_closing (fst (send_reliable_class cls payload st)) = as_closing st"
  "as_closing (fst (enqueue_audio limit payload st)) = as_closing st"
  "as_closing (enter_recovery k i f st) = as_closing st"
  "as_closing (count_replacement st) = as_closing st"
  by (auto simp: send_to_control_def send_reliable_class_def enqueue_audio_def enter_recovery_def count_replacement_def
      Let_def split: prod.splits application_class.splits option.splits try_send.splits)

lemma enqueue_video_keeps_closing [simp]:
  "as_closing (fst (enqueue_video_frame parse key md payload st)) = as_closing st"
  by (auto simp: enqueue_video_frame_def Let_def split: option.splits prod.splits)

lemma enqueue_keeps_closing:
  "as_closing (fst (enqueue_with_latest_key parse closed limit key payload st)) = as_closing st"
proof -
  define st1 where "st1 message = (case audio_format message of None \<Rightarrow> st
    | Some format \<Rightarrow> st\<lparr>as_audio_format := pack_audio_format format\<rparr>)" for message
  have st1: "as_closing (st1 message) = as_closing st" for message by (auto simp: st1_def split: option.splits)
  have sent: "send_to_control mt p s = (s', res) \<Longrightarrow> as_closing s' = as_closing s" for mt p s s' res
    using keeps_closing(1) [of mt p s] by simp
  show ?thesis
    using st1 by (auto simp: enqueue_with_latest_key_def st1_def [symmetric] Let_def sent
        split: option.splits sum.splits application_class.splits prod.splits)
qed

theorem display_switch_ordered_witness:
  "\<forall>S link (w :: unit video_writer).
     let r = writer_start True 1200 w; r1 = r\<lparr>wr_stream := fst (enqueue sample_parse False None [1] (wr_stream r))\<rparr> in
     unopened sample_parse sample_write S link 1 r1 sample_later \<and>
     written sample_parse sample_write S link r1 sample_later = []"
proof (intro allI)
  fix S :: "unit send_stream" and link and w :: "unit video_writer"
  let ?r = "writer_start True 1200 w"
  let ?r1 = "?r\<lparr>wr_stream := fst (enqueue sample_parse False None [1] (wr_stream ?r))\<rparr>"
  have st: "\<not> as_closing (wr_stream ?r)" "\<not> as_raw_mode (wr_stream ?r)"
    "length (mq_items (as_control (wr_stream ?r))) < mq_capacity (as_control (wr_stream ?r))"
    "\<not> mq_closed (as_control (wr_stream ?r))" "unat (og_requested_epoch (as_video_ordering (wr_stream ?r))) + 1 < 2 ^ 64"
    "og_requested_epoch (as_video_ordering (wr_stream ?r)) = 0" "waiting ?r = {}"
    by (simp_all add: writer_start_def app_stream_new_def mpsc_new_def CONTROL_OUTBOUND_CAPACITY_def gate_new_def
        waiting_def slot_frames_def track_slot_new_def)
  have p: "sample_parse [1] = Some (Some (Union_Misc (Some Misc_SwitchDisplay)))" by (simp add: sample_parse_def)
  have e: "og_requested_epoch (as_video_ordering (wr_stream ?r1)) = 1"
    using st p by (simp add: enqueue_def enqueue_with_latest_key_def is_video_ordering_message_def audio_format_def
        gate_next_epoch_def checked_add_def send_to_control_def mpsc_try_send_def map_try_send_error_def Let_def)
  have "\<not> as_closing (wr_stream ?r1)" using st(1) by (simp add: enqueue_def enqueue_keeps_closing)
  then have u: "unopened sample_parse sample_write S link 1 ?r1 sample_later"
    by (simp add: sample_later_def enqueue_keeps_closing) (simp add: sample_parse_def is_video_ordering_message_def)
  have run: "?r = foldl (\<lambda>r op. fst (writer_step sample_parse sample_write S link r op)) (writer_start True 1200 w) []" by simp
  note switch = display_switch_ordered [OF run refl st(1,2) p st(3-5) st(4), where connection_max = None and later = sample_later,
      unfolded Let_def case_prod_unfold]
  from conjunct1 [OF conjunct2 [OF conjunct2 [OF switch]]] u e st(7)
  have "written sample_parse sample_write S link ?r1 sample_later = []" by simp
  with u show "let r = writer_start True 1200 w; r1 = r\<lparr>wr_stream := fst (enqueue sample_parse False None [1] (wr_stream r))\<rparr> in
     unopened sample_parse sample_write S link 1 r1 sample_later \<and>
     written sample_parse sample_write S link r1 sample_later = []" by (simp add: Let_def)
qed

section \<open>Where the code falls short\<close>

text \<open>
  A display switch that cannot be queued cancels its epoch, and that acknowledges every earlier one:
  the gate opens for a switch that the peer has not acknowledged.
\<close>

lemma failed_switch_opens_gate:
  assumes "\<not> as_closing st" and "\<not> as_raw_mode st" and "\<not> mq_closed (as_control st)"
    and "parse payload = Some (Some (Union_Misc (Some Misc_SwitchDisplay)))"
    and "length (mq_items (as_control st)) \<ge> mq_capacity (as_control st)"
    and "unat (requested st) + 1 < 2 ^ 64" and "epoch \<le> requested st"
  shows "gate_is_open (as_video_ordering (fst (enqueue parse False connection_max payload st))) epoch"
proof -
  have "unat (requested st + 1) = unat (requested st) + 1" using assms(6) by (simp add: unat_word_ariths)
  then have "epoch \<le> requested st + 1" using assms(7) by (simp add: word_le_nat_alt)
  then show ?thesis
    using assms(1-6) by (auto simp: enqueue_def enqueue_with_latest_key_def send_to_control_def mpsc_try_send_def
        map_try_send_error_def is_video_ordering_message_def audio_format_def gate_next_epoch_def checked_add_def
        gate_is_open_def gate_cancel_epoch_def gate_acknowledge_def max_def)
qed

end
