(* ===== verification/Spec2Isabelle.thy ===== *)
theory Spec2Isabelle
  imports Video_Delivery Audio_Playout Input_Properties Clipboard File_Integrity Session_Properties
    Reliable_Delivery Recovery Adaptation Video_Holdback_Properties Video_Sender_Properties
    Video_Recovery_Properties Secure_Stream_Properties Outbound_Queue_Properties
    Datagram_Session Handshake_Properties Pairing_Properties Addr_Mangle Settings_Properties
    Transfer_Delivery Application_Ordering
begin

text \<open>
  Verification of \<open>hbb_common\<close>, the library a remote desktop's two sides share: its wire formats, its
  transports, the streams of video, audio, input, clipboard and files over them, and the settings
  and secrets of a device.

  \<^bold>\<open>The program and the theories.\<close> Below, each part of the source with the theories that model it. A
  theory named \<open>X_Properties\<close> (or another name given after a dash) proves what the theory
  \<open>X\<close> defines; definitions keep the names of the source, prefixed where two methods share a name.

  \<^item> Shared: \<open>Rust_Prelude\<close> (machine integers with saturating and checked operations, durations and
    instants, results as sums, the locales \<open>step_invariant\<close> and \<open>sequence_guard\<close>), \<open>Ordered_Map\<close>
    (\<open>BTreeMap\<close> as a sorted association list), \<open>Wire_Format\<close> (big-endian fields and the locale of an
    exact codec), \<open>Utf8\<close> (strings as their bytes).
  \<^item> \<open>transport/protocol.rs\<close>: \<open>Protocol\<close>. Every packet starts with a header of 48 bytes that names its
    type, channel, session and sequence number.
  \<^item> \<open>transport/video_datagram.rs\<close>: \<open>Video_Datagram\<close> - \<open>Video_Fragmentation\<close>, \<open>Video_Reassembly\<close>,
    \<open>Video_Authenticity\<close>, \<open>Video_Delivery\<close>. A frame is cut into datagrams; the reassembler bounds its
    memory, drops late frames and asks for keyframes.
  \<^item> \<open>transport/audio_datagram.rs\<close>: \<open>Audio_Datagram\<close> - \<open>Audio_Playout\<close>: the packet codec and the jitter buffer.
  \<^item> \<open>transport/input.rs\<close>: \<open>Input_Events\<close>; \<open>transport/clipboard.rs\<close>: \<open>Clipboard\<close>;
    \<open>transport/file_transfer.rs\<close>: \<open>File_Transfer\<close> - \<open>File_Integrity\<close>.
  \<^item> \<open>transport/session.rs\<close>: \<open>Session\<close>, the negotiation of two offers. \<open>transport/recovery.rs\<close>:
    \<open>Recovery\<close>, the schedule of reconnection. \<open>transport/adaptation.rs\<close>: \<open>Adaptation\<close>, the bit rates.
  \<^item> \<open>transport/reliable.rs\<close>: \<open>Reliable\<close> - \<open>Reliable_Delivery\<close>, messages over an ordered stream.
    \<open>transport/datagram.rs\<close>: \<open>Datagram_Endpoint\<close> - \<open>Datagram_Properties\<close>, \<open>Datagram_Session\<close>, the
    sender with its admission of video and the receiver that dispatches datagrams.
  \<^item> \<open>transport/quic.rs\<close>: \<open>Handshake\<close>, the authentication bound to the TLS session, and the control
    channel. \<open>transport/pairing.rs\<close>: \<open>Pairing\<close>, the confirmation of fingerprints and the stores of
    trusted peers.
  \<^item> \<open>transport/application.rs\<close>: \<open>Video_Tracks\<close> (keys and tags), \<open>Video_Sender\<close> (slots, ordering gate,
    recovery of the sender), \<open>Video_Holdback\<close> (the keyframe barrier), \<open>Video_Recovery\<close> (recovery of
    the receiver), \<open>Application_Messages\<close> (classification and checks of messages) and
    \<open>Application_Stream\<close> (queues, writers and readers) - \<open>Application_Properties\<close>,
    \<open>Application_Ordering\<close>.
  \<^item> \<open>bytes_codec.rs\<close>: \<open>Framing\<close>. \<open>tcp.rs\<close>: \<open>Secure_Stream\<close>, the encrypted stream. \<open>stream.rs\<close>:
    \<open>Outbound_Queue\<close>, the queue before the writer.
  \<^item> \<open>fs.rs\<close> and \<open>compress.rs\<close>: \<open>Transfer_Paths\<close> (validation of names, and the walk along a path that
    follows symbolic links), \<open>Transfer_Job\<close> (read and write jobs) - \<open>Transfer_Confinement\<close>, \<open>Transfer_Delivery\<close>.
  \<^item> \<open>password_security.rs\<close>: \<open>Secret_Storage\<close>; \<open>config.rs\<close>: \<open>Settings\<close> - \<open>Settings_Properties\<close>;
    \<open>lib.rs\<close>: \<open>Addr_Mangle\<close>.

  \<^bold>\<open>How the parts interact.\<close> An application message enters \<open>Application_Stream\<close>, which classifies it and
  queues it for a reliable channel (\<open>Reliable\<close>, framed by \<open>Protocol\<close>) or for datagrams
  (\<open>Datagram_Endpoint\<close>, which fragments video by \<open>Video_Datagram\<close>). The peer's \<open>Datagram_Endpoint\<close>
  dispatches to the reassembler, the jitter buffer and the mouse receiver; reassembled frames pass
  \<open>Video_Holdback\<close> and \<open>Video_Recovery\<close>. \<open>Handshake\<close> authenticates the connection first, with the keys
  \<open>Pairing\<close> stores, and \<open>Session\<close> fixes the terms.

  \<^bold>\<open>State and errors.\<close> A struct is a record, an enum a datatype, a method a function that returns the new
  state with its result; \<open>Result\<close> is a sum with the error on the left. Integers keep their width where the
  code computes with them, and \<open>usize\<close> is a natural below \<open>usize_max\<close> where it counts bytes in memory.
  Locks, atomics and channels of tasks are fields of the state; a method that waits is the step it
  makes once it may. \<open>f32\<close> metrics are NaN, an infinity or a rational, as the code only compares them.

  \<^bold>\<open>Parameters.\<close> Code outside the repository is an argument: SHA-256 and streaming hashes, secretbox, box
  and signatures, base64, JSON and TOML, protobuf parsing and writing, zstd, QUIC streams and
  datagrams, TLS exporters and certificates, the clock, random values, and what the file system
  does on each call. What a property needs of them is a named hypothesis with a concrete instance in
  its witness.

  \<^bold>\<open>What is shown.\<close> Codecs are exact: they accept what they produce and nothing else. Receivers never
  replay. Memory is bounded on every input. End to end, frames, messages, clipboard texts and files
  arrive as they were sent. Two sides of a handshake agree; pairing binds the confirmed keys; the
  stores of trust refine a map. The video path refines a decoder that never meets a missing
  reference. Video enqueued after a display switch waits for it. A file transfer stays in the place
  of its directory whatever links there are, except that a temporary file that is a link is
  followed. The identifier is stored sealed and the password hashed, and both survive a restart; the
  key pair is stored in plain. What an application enqueues is what the peer admits. The invariants are interpretations of
  \<open>step_invariant\<close>, the freedom from replay of \<open>sequence_guard\<close>, the codecs of the codec locale.

  \<^bold>\<open>Bounds and fuel.\<close> Loops that consume a buffer or a list are total functions with a measure. A loop of
  a task is a fold over the list of its steps, of any length; \<open>pump\<close> calls the sender of files once
  more than it has messages, which is proved to be enough. The walk along a path counts down the
  forty symbolic links that the operating system follows; no other definition takes fuel.

  \<^bold>\<open>Not modelled.\<close> Sockets, endpoints, TLS, proxies, the WebSocket, WebRTC and UDP adapters, the
  platform layer and the hardware fingerprint: they call the operating system and other crates and
  hold little logic of their own. The rate limiter of \<open>file_transfer.rs\<close>, which computes in \<open>f64\<close>.
  Session set-up and statistics of \<open>application.rs\<close> and \<open>quic.rs\<close>. Of \<open>config.rs\<close>, the records of
  peers, address books and servers; of \<open>fs.rs\<close>, directory listings, the
  creation of directories and the times of files; of \<open>lib.rs\<close>, logging, time and
  address syntax.
\<close>

section \<open>Payload codecs\<close>

text \<open>
  Property C23: the payload codecs are exact. A payload of the video fragment, reliable input,
  clipboard, file metadata, file chunk or file cancel message, or a session offer, agreement or
  acceptance, decodes to a value if and only if the value is admissible and the payload is its encoding:
  nothing else is accepted, and nothing that is encoded is lost.
\<close>

theorem payload_codecs_exact:
  "(decode_fragment_payload p0 = Inr (header, fragment) \<longleftrightarrow>
      encode_fragment_payload header fragment = Inr p0) \<and>
   (decode_reliable_input p1 = Inr event \<longleftrightarrow> reliable_event_ok event \<and> encode_reliable_input event = p1) \<and>
   (decode_clipboard_text p2 max_text = Inr c \<longleftrightarrow>
      length (ct_origin_id c) = 16 \<and> utf8_valid (ct_text c) \<and>
      encode_clipboard_text (ct_origin_id c) (ct_change_sequence c) (ct_text c) max_text = Inr p2) \<and>
   (decode_file_metadata p3 max_file = Inr m \<longleftrightarrow>
      length (fm_transfer_id m) = 16 \<and> length (fm_sha256 m) = 32 \<and> utf8_valid (fm_file_name m) \<and>
      encode_file_metadata m max_file = Inr p3) \<and>
   (decode_file_chunk p4 = Inr chunk \<longleftrightarrow>
      length (fc_transfer_id chunk) = 16 \<and> encode_file_chunk chunk = Inr p4) \<and>
   (decode_file_cancel p5 = Inr (transfer_id, reason) \<longleftrightarrow>
      length transfer_id = 16 \<and> encode_file_cancel transfer_id reason = Inr p5) \<and>
   (decode_session_offer p6 = Inr offer \<longleftrightarrow> encode_session_offer offer = Inr p6) \<and>
   (decode_session_agreement p6 = Inr agreement \<longleftrightarrow> encode_session_agreement agreement = Inr p6) \<and>
   (decode_session_acceptance p6 = Inr (offer, agreement) \<longleftrightarrow>
      encode_session_acceptance offer agreement = Inr p6)"
  using fragment_codec_exact [of p0 header fragment] reliable_input_codec_exact [of p1 event] clipboard_codec_exact [of p2 max_text c]
    file_metadata_codec_exact [of p3 max_file m] file_chunk_cancel_codec_exact [of p4 chunk p5 transfer_id reason]
    session_codecs_exact [of p6 offer agreement]
  by (intro conjI) simp_all

section \<open>Memory of the media path\<close>

text \<open>
  Property C30: whatever a peer sends and however the calls interleave, the state kept for audio and
  video is bounded. The sender's slot holds at most \<open>max_tracks\<close> frames of at most 16 MiB each,
  64 MiB in all; the receiver keeps the state of at most 16 streams with one keyframe request for
  each and one unscoped; the keyframe barrier keeps boundedly many streams, held frames and held
  bytes; the jitter buffer keeps its packets and bytes within its configuration and the packets
  within \<open>MAX_AUDIO_SEQUENCE_AHEAD\<close> of the next one to play. The byte counters are exact.
\<close>

theorem media_memory_bounded:
  assumes "audio_buffer_new config = Inr st0" and "ac_max_memory_bytes config < usize_max"
  shows "(let st = foldl slot_step (track_slot_new max_tracks) ops in
     length (tl_pending st) \<le> max max_tracks 1 \<and>
     tl_bytes st = bm_sum pending_bytes (tl_pending st) \<and> tl_bytes st \<le> 64 * 1024 * 1024 \<and>
     list_all (\<lambda>e. pending_bytes (snd e) \<le> 16 * 1024 * 1024) (tl_pending st)) \<and>
   (let rr = rx_recovery (foldl (rx_step deliver request)
         (rx\<lparr>rx_recovery := video_receive_recovery_default\<rparr>) evs) in
     length (rr_streams rr) \<le> 16 \<and> length (rr_pending_requests rr) \<le> 17 \<and>
     length (rr_last_keyframe_request_at rr) \<le> 17) \<and>
   (let streams = eh_streams (fst (holdback_run epoch_holdback_default events)) in
     length streams \<le> MAX_VIDEO_EPOCH_STREAM_STATES \<and>
     sum_list (map (\<lambda>e. length (es_pending (snd e))) streams) \<le> VIDEO_EPOCH_HOLDBACK_MAX_FRAMES \<and>
     sum_list (map (\<lambda>e. es_pending_bytes (snd e)) streams) \<le> VIDEO_EPOCH_HOLDBACK_MAX_BYTES \<and>
     list_all (\<lambda>e. es_pending_bytes (snd e)
       = sum_list (map (\<lambda>f. length (hf_payload (snd f))) (es_pending (snd e)))) streams) \<and>
   (\<exists>st. foldl audio_step st0 audio_events = st \<and>
     ab_buffered_bytes st = bm_sum (\<lambda>p. length (ap_payload (bp_packet p))) (ab_packets st) \<and>
     ab_buffered_bytes st \<le> ac_max_memory_bytes config \<and>
     length (ab_packets st) \<le> ac_max_packets config \<and>
     (\<forall>(k, p) \<in> set (ab_packets st). \<exists>n. ab_next_sequence st = Some n \<and> n \<le> k \<and>
        unat k \<le> unat n + unat MAX_AUDIO_SEQUENCE_AHEAD))"
  by (intro conjI slot_bounded receive_recovery_bounded barrier_bounded audio_buffer_bounded assms)

theorem media_memory_bounded_witness:
  "audio_buffer_new audio_config_default = Inr sample_audio_buffer \<and>
   ab_buffered_bytes (foldl audio_step sample_audio_buffer
      [AudioPush (sample_audio 3) 0, AudioDatagram [1] 4, AudioPush (sample_audio 1) 5, AudioPop 6])
     \<le> 2 * 1024 * 1024"
proof -
  let ?events = "[AudioPush (sample_audio 3) 0, AudioDatagram [1] 4, AudioPush (sample_audio 1) 5, AudioPop 6]"
  note bounded = media_memory_bounded [OF sample_audio_buffer_new sample_audio_memory, where audio_events = ?events]
  have "ab_buffered_bytes (foldl audio_step sample_audio_buffer ?events) \<le> ac_max_memory_bytes audio_config_default"
    using conjunct2 [OF conjunct2 [OF conjunct2 [OF bounded]]] by blast
  then show ?thesis using sample_audio_buffer_new by (simp add: audio_config_default_def)
qed

section \<open>Replay\<close>

text \<open>
  Property C22: no receiver accepts a message twice or out of order. Whatever arrives, the
  mouse movements applied through either entry point, the messages a reliable channel accepts,
  the control messages read after the handshake and, for each origin, the clipboard texts handed
  out have strictly increasing numbers. The movements are in range, the reliable messages carry
  the channel and the session of their receiver, no clipboard text is an echo of the local
  origin, and at most \<open>MAX_TRACKED_ORIGINS\<close> origins are remembered.
\<close>

theorem receivers_never_replay:
  assumes "clipboard_new permission local max_bytes = Inr st0"
    and "clipboard_run st0 payloads = (st, texts)"
  shows "sorted_wrt (<) (map mm_sequence_number (mouse_run mouse calls)) \<and>
     list_all (\<lambda>m. validate_mouse_movement m = Inr ()) (mouse_run mouse calls) \<and>
     sorted_wrt (<) (map (\<lambda>m. mh_sequence_number (rm_header m))
       (accepted_messages (receive_run R n receiver))) \<and>
     list_all (\<lambda>m. mh_channel (rm_header m) = kind_channel_id (rcr_kind receiver) \<and>
       mh_session_id (rm_header m) = rcr_session_id receiver)
       (accepted_messages (receive_run R n receiver)) \<and>
     sorted_wrt (<) (accepted_run (control_step R) control (replicate n ())) \<and>
     sorted_wrt (<) (map ct_change_sequence (filter (\<lambda>c. ct_origin_id c = origin) texts)) \<and>
     local \<notin> ct_origin_id ` set texts \<and> length (cs_remote_sequences st) \<le> MAX_TRACKED_ORIGINS"
  using mouse_receiver_no_replay [of mouse calls] reliable_receiver_no_replay [of R n receiver]
    control_no_replay [of R control n] clipboard_no_replay [OF assms, of origin]
  by blast

text \<open>The clipboard of a second device, given two payloads that are too short.\<close>

theorem receivers_never_replay_witness:
  "\<exists>st texts. clipboard_run \<lparr>cs_permission = ReceiveOnly, cs_local_origin_id = origin_of 2,
       cs_next_local_sequence = 1, cs_remote_sequences = [], cs_max_bytes = 200\<rparr> [[1, 2, 3], []]
       = (st, texts) \<and> length (cs_remote_sequences st) \<le> MAX_TRACKED_ORIGINS"
proof -
  obtain st texts where r: "clipboard_run \<lparr>cs_permission = ReceiveOnly,
      cs_local_origin_id = origin_of 2, cs_next_local_sequence = 1, cs_remote_sequences = [],
      cs_max_bytes = 200\<rparr> [[1, 2, 3], []] = (st, texts)" by fastforce
  from receivers_never_replay [OF sample_clipboard_new(2) r] r show ?thesis by blast
qed

end
